(* ===== verification/Prelude.thy ===== *)
theory Prelude
  imports Complex_Main "HOL-Library.AList" "HOL-Library.Multiset"
begin

text \<open>
  Shared vocabulary of the development: the named theorem collections, Go's 64-bit \<open>int\<close>
  arithmetic, the saturating \<open>time.Time.Sub\<close>, the stable sort behind \<open>sort.SliceStable\<close>,
  Go maps as association lists, and generic list lemmas used by several components.
\<close>

section \<open>Collections\<close>

named_theorems clone_simps \<open>deep copies are identities up to input normalisation\<close>
named_theorems store_simps \<open>look-up after update laws of the in-memory stores\<close>
named_theorems budget_simps \<open>counter effects of the budget tracker\<close>
named_theorems frame_simps \<open>fields a step leaves alone\<close>

section \<open>Machine integers and time\<close>

text \<open>
  A Go \<open>int\<close> is a 64-bit two's complement value on every supported platform. \<open>i64\<close> is the
  wrap-around of an exact result; it is written out wherever host-supplied numbers are added.
\<close>

definition i64 :: "int \<Rightarrow> int" where
  "i64 x = (x + 2 ^ 63) mod 2 ^ 64 - 2 ^ 63"

definition int64_range :: "int \<Rightarrow> bool" where
  "int64_range x \<longleftrightarrow> - (2 ^ 63) \<le> x \<and> x < 2 ^ 63"

lemma i64_range: "int64_range (i64 x)"
proof -
  have "0 \<le> (x + 2 ^ 63) mod (2 ^ 64 :: int)" and "(x + 2 ^ 63) mod (2 ^ 64 :: int) < 2 ^ 64"
    by simp_all
  then show ?thesis by (simp add: i64_def int64_range_def)
qed

lemma i64_id: "int64_range x \<Longrightarrow> i64 x = x"
  by (simp add: i64_def int64_range_def)

lemma i64_nonneg_id: "0 \<le> x \<Longrightarrow> x < 2 ^ 63 \<Longrightarrow> i64 x = x"
  by (simp add: i64_def)

text \<open>
  A \<open>time.Time\<close> is the number of nanoseconds since Go's zero time (1 January of year 1, UTC),
  so \<open>IsZero\<close> is equality with 0. \<open>Sub\<close> saturates at the bounds of \<open>time.Duration\<close>.
\<close>

type_synonym gotime = int
type_synonym duration = int

definition time_is_zero :: "gotime \<Rightarrow> bool" where
  "time_is_zero t \<longleftrightarrow> t = 0"

definition time_sub :: "gotime \<Rightarrow> gotime \<Rightarrow> duration" where
  "time_sub a b = max (- (2 ^ 63)) (min (2 ^ 63 - 1) (a - b))"

section \<open>Stable sorting\<close>

text \<open>
  \<open>sort.SliceStable\<close> with a comparison \<open>lt\<close>. For a strict weak order every stable sort
  returns the same list, so insertion from the right stands for the library's algorithm.
\<close>

fun insert_by :: "('a \<Rightarrow> 'a \<Rightarrow> bool) \<Rightarrow> 'a \<Rightarrow> 'a list \<Rightarrow> 'a list" where
  "insert_by lt x [] = [x]"
| "insert_by lt x (y # ys) = (if lt y x then y # insert_by lt x ys else x # y # ys)"

fun stable_sort :: "('a \<Rightarrow> 'a \<Rightarrow> bool) \<Rightarrow> 'a list \<Rightarrow> 'a list" where
  "stable_sort lt [] = []"
| "stable_sort lt (x # xs) = insert_by lt x (stable_sort lt xs)"

text \<open>What \<open>sort.SliceStable\<close> requires of its comparison function.\<close>

definition strict_weak :: "('a \<Rightarrow> 'a \<Rightarrow> bool) \<Rightarrow> bool" where
  "strict_weak lt \<longleftrightarrow>
     (\<forall>x. \<not> lt x x) \<and>
     (\<forall>x y z. lt x y \<longrightarrow> lt y z \<longrightarrow> lt x z) \<and>
     (\<forall>x y z. \<not> lt x y \<longrightarrow> \<not> lt y z \<longrightarrow> \<not> lt x z)"

lemma mset_insert_by [simp]: "mset (insert_by lt x xs) = add_mset x (mset xs)"
  by (induction xs) auto

lemma mset_stable_sort [simp]: "mset (stable_sort lt xs) = mset xs"
  by (induction xs) auto

lemma set_stable_sort [simp]: "set (stable_sort lt xs) = set xs"
  by (rule mset_eq_setD) simp

lemma length_stable_sort [simp]: "length (stable_sort lt xs) = length xs"
  by (rule mset_eq_length) simp

lemma set_insert_by: "set (insert_by lt x xs) = insert x (set xs)"
  by (induction xs) auto

lemma strict_weakD:
  assumes "strict_weak lt"
  shows "\<not> lt a a" and "lt a b \<Longrightarrow> lt b c \<Longrightarrow> lt a c"
    and "\<not> lt a b \<Longrightarrow> \<not> lt b c \<Longrightarrow> \<not> lt a c"
  using assms unfolding strict_weak_def by blast+

lemma strict_weakI:
  assumes "\<And>x. \<not> lt x x" and "\<And>x y z. lt x y \<Longrightarrow> lt y z \<Longrightarrow> lt x z"
    and "\<And>x y z. \<not> lt x y \<Longrightarrow> \<not> lt y z \<Longrightarrow> \<not> lt x z"
  shows "strict_weak lt"
  using assms unfolding strict_weak_def by blast

text \<open>Comparing a numeric key first keeps a strict weak order, as does comparing an image.\<close>

lemma strict_weak_lex:
  fixes f :: "'a \<Rightarrow> int"
  assumes "strict_weak lt"
  shows "strict_weak (\<lambda>a b. if f a \<noteq> f b then f a < f b else lt a b)"
proof (rule strict_weakI)
  show "\<not> (if f x \<noteq> f x then f x < f x else lt x x)" for x
    using strict_weakD(1) [OF assms] by simp
  show "(if f x \<noteq> f y then f x < f y else lt x y) \<Longrightarrow> (if f y \<noteq> f z then f y < f z else lt y z) \<Longrightarrow>
     (if f x \<noteq> f z then f x < f z else lt x z)" for x y z
    using strict_weakD(2) [OF assms, of x y z] by (auto split: if_splits)
  show "\<not> (if f x \<noteq> f y then f x < f y else lt x y) \<Longrightarrow> \<not> (if f y \<noteq> f z then f y < f z else lt y z) \<Longrightarrow>
     \<not> (if f x \<noteq> f z then f x < f z else lt x z)" for x y z
    using strict_weakD(3) [OF assms, of x y z] by (auto split: if_splits)
qed

lemma strict_weak_on:
  assumes "strict_weak lt"
  shows "strict_weak (\<lambda>a b. lt (f a) (f b))"
proof (rule strict_weakI)
  show "\<not> lt (f x) (f x)" for x using strict_weakD(1) [OF assms] .
  show "lt (f x) (f y) \<Longrightarrow> lt (f y) (f z) \<Longrightarrow> lt (f x) (f z)" for x y z using strict_weakD(2) [OF assms] .
  show "\<not> lt (f x) (f y) \<Longrightarrow> \<not> lt (f y) (f z) \<Longrightarrow> \<not> lt (f x) (f z)" for x y z using strict_weakD(3) [OF assms] .
qed

lemma sorted_insert_by:
  assumes "strict_weak lt"
  shows "sorted_wrt (\<lambda>a b. \<not> lt b a) xs \<Longrightarrow> sorted_wrt (\<lambda>a b. \<not> lt b a) (insert_by lt x xs)"
proof (induction xs)
  case Nil
  then show ?case by simp
next
  case (Cons y ys)
  note irr = strict_weakD(1) [OF assms] and tr = strict_weakD(2) [OF assms]
    and ntr = strict_weakD(3) [OF assms]
  show ?case
  proof (cases "lt y x")
    case True
    then have "\<not> lt x y" using irr tr by blast
    with True Cons.IH Cons.prems show ?thesis by (simp add: set_insert_by)
  next
    case False
    then have "\<And>z. z \<in> set ys \<Longrightarrow> \<not> lt z x"
      using Cons.prems ntr by (simp, blast)
    with False Cons.prems show ?thesis by simp
  qed
qed

lemma sorted_stable_sort:
  "strict_weak lt \<Longrightarrow> sorted_wrt (\<lambda>a b. \<not> lt b a) (stable_sort lt xs)"
  by (induction xs) (auto simp: sorted_insert_by)

text \<open>Two lists with the same elements, sorted by a total order, are equal.\<close>

lemma sorted_by_unique:
  "(\<And>x y. x \<in> set xs \<Longrightarrow> y \<in> set xs \<Longrightarrow> x \<noteq> y \<Longrightarrow> lt x y \<or> lt y x) \<Longrightarrow>
    sorted_wrt (\<lambda>a b. \<not> lt b a) xs \<Longrightarrow> sorted_wrt (\<lambda>a b. \<not> lt b a) ys \<Longrightarrow>
    mset xs = mset ys \<Longrightarrow> xs = ys"
proof (induction xs arbitrary: ys)
  case Nil
  then show ?case by simp
next
  case (Cons x xs)
  then obtain y ys' where ys: "ys = y # ys'" by (cases ys) auto
  have eq: "x = y"
  proof (rule ccontr)
    assume neq: "x \<noteq> y"
    moreover have "x \<in> set ys" and y: "y \<in> set (x # xs)"
      using Cons.prems(4) ys by (metis list.set_intros(1) set_mset_mset)+
    ultimately have "\<not> lt y x" and "\<not> lt x y"
      using Cons.prems(2,3) ys by auto
    with Cons.prems(1) [OF _ y neq] show False by simp
  qed
  have "xs = ys'"
    by (rule Cons.IH) (use Cons.prems eq ys in auto)
  with eq ys show ?case by simp
qed

text \<open>A stable sort of a sequence with distinct keys does not depend on the order it is given in.\<close>

lemma stable_sort_perm:
  assumes "strict_weak lt" and "mset xs = mset ys"
    and "\<And>x y. x \<in> set xs \<Longrightarrow> y \<in> set xs \<Longrightarrow> x \<noteq> y \<Longrightarrow> lt x y \<or> lt y x"
  shows "stable_sort lt xs = stable_sort lt ys"
  by (rule sorted_by_unique [of _ lt]) (use assms sorted_stable_sort [OF assms(1)] in auto)

section \<open>Go maps\<close>

text \<open>
  A Go map is an association list with distinct keys. The list order stands for the
  unspecified iteration order; \<open>nil\<close> and the empty map are both \<open>[]\<close>. \<open>AList.update\<close> is
  assignment \<open>m[k] = v\<close>, \<open>map_of\<close> the two-valued look-up.
\<close>

type_synonym ('k, 'v) gomap = "('k \<times> 'v) list"

definition wf_map :: "('k, 'v) gomap \<Rightarrow> bool" where
  "wf_map m \<longleftrightarrow> distinct (map fst m)"

text \<open>The loop \<open>for k, v := range src { dst[k] = v }\<close>.\<close>

fun put_all :: "('k, 'v) gomap \<Rightarrow> ('k, 'v) gomap \<Rightarrow> ('k, 'v) gomap" where
  "put_all dst [] = dst"
| "put_all dst ((k, v) # src) = put_all (AList.update k v dst) src"

text \<open>The same loop skipping keys that are present already.\<close>

fun put_new :: "('k, 'v) gomap \<Rightarrow> ('k, 'v) gomap \<Rightarrow> ('k, 'v) gomap" where
  "put_new dst [] = dst"
| "put_new dst ((k, v) # src) =
     put_new (if map_of dst k = None then AList.update k v dst else dst) src"

lemma wf_map_Nil [simp]: "wf_map []"
  by (simp add: wf_map_def)

lemma wf_map_update [simp, intro]: "wf_map m \<Longrightarrow> wf_map (AList.update k v m)"
  by (simp add: wf_map_def distinct_update)

lemma map_of_update [simp, store_simps]:
  "map_of (AList.update k v m) k' = (if k' = k then Some v else map_of m k')"
  by (simp add: update_conv')

lemma wf_map_put_all [simp, intro]: "wf_map dst \<Longrightarrow> wf_map (put_all dst src)"
  by (induction dst src rule: put_all.induct) auto

lemma map_of_put_all:
  "wf_map src \<Longrightarrow>
   map_of (put_all dst src) k = (case map_of src k of None \<Rightarrow> map_of dst k | Some v \<Rightarrow> Some v)"
proof (induction dst src rule: put_all.induct)
  case (2 dst k' v src)
  then have "map_of src k' = None"
    by (auto simp: wf_map_def map_of_eq_None_iff)
  with 2 show ?case by (auto simp: wf_map_def split: option.split)
qed simp

lemma map_of_put_new:
  "map_of (put_new dst src) k = (case map_of dst k of None \<Rightarrow> map_of src k | Some v \<Rightarrow> Some v)"
  by (induction dst src rule: put_new.induct) (auto split: option.split)

lemma wf_map_put_new [simp, intro]: "wf_map dst \<Longrightarrow> wf_map (put_new dst src)"
  by (induction dst src rule: put_new.induct) auto

lemma map_of_None_notin: "map_of m k = None \<longleftrightarrow> k \<notin> fst ` set m"
  by (simp add: map_of_eq_None_iff)

lemma update_fresh: "k \<notin> fst ` set m \<Longrightarrow> AList.update k v m = m @ [(k, v)]"
  by (induction m) auto

lemma map_snd_update_existing:
  "wf_map m \<Longrightarrow> map_of m k = Some v \<Longrightarrow> AList.update k v m = m"
  by (induction m) (auto simp: wf_map_def split: if_splits)

section \<open>Lists\<close>

lemma dropWhile_hd: "dropWhile P xs \<noteq> [] \<Longrightarrow> \<not> P (hd (dropWhile P xs))"
  by (rule hd_dropWhile)

lemma takeWhile_all: "list_all P xs \<Longrightarrow> takeWhile P (xs @ ys) = xs @ takeWhile P ys"
  by (induction xs) auto

lemma dropWhile_all: "list_all P xs \<Longrightarrow> dropWhile P (xs @ ys) = dropWhile P ys"
  by (induction xs) auto

lemma takeWhile_none: "(ys = [] \<or> \<not> P (hd ys)) \<Longrightarrow> takeWhile P ys = []"
  by (cases ys) auto

lemma dropWhile_none: "(ys = [] \<or> \<not> P (hd ys)) \<Longrightarrow> dropWhile P ys = ys"
  by (cases ys) auto

lemma length_filter_partition:
  "length (filter P xs) + length (filter (\<lambda>x. \<not> P x) xs) = length xs"
  by (induction xs) auto

end
