(* ===== verification/Go_Strings.thy ===== *)
theory Go_Strings
  imports Prelude
begin

text \<open>
  What the program uses of Go's string libraries. A Go string is a byte sequence, here a
  \<open>char list\<close>: UTF-8 decoding with its treatment of invalid bytes (\<open>unicode/utf8\<close>), white space
  and trimming, prefix, search and join (\<open>strings\<close>), decimal, duration and quoted printing
  (\<open>fmt\<close>, \<open>strconv\<close>, \<open>time\<close>) and the validity of a JSON text (\<open>encoding/json\<close>).
  The Unicode character tables beyond ASCII are a parameter, the record \<open>unicode\<close>.
\<close>

section \<open>UTF-8\<close>

definition byte :: "char \<Rightarrow> nat" where
  "byte c = of_char c"

definition rune_error :: nat where
  "rune_error = 65533"

text \<open>Length of the sequence a lead byte opens and the range its second byte must be in.\<close>

definition utf8_lead :: "nat \<Rightarrow> (nat \<times> nat \<times> nat) option" where
  "utf8_lead x =
     (if 194 \<le> x \<and> x \<le> 223 then Some (2, 128, 191)
      else if x = 224 then Some (3, 160, 191)
      else if 225 \<le> x \<and> x \<le> 236 then Some (3, 128, 191)
      else if x = 237 then Some (3, 128, 159)
      else if 238 \<le> x \<and> x \<le> 239 then Some (3, 128, 191)
      else if x = 240 then Some (4, 144, 191)
      else if 241 \<le> x \<and> x \<le> 243 then Some (4, 128, 191)
      else if x = 244 then Some (4, 128, 143)
      else None)"

definition is_cont :: "char \<Rightarrow> bool" where
  "is_cont c \<longleftrightarrow> 128 \<le> byte c \<and> byte c \<le> 191"

text \<open>\<open>utf8.DecodeRuneInString\<close>: code point and width; an invalid byte is (U+FFFD, 1).\<close>

fun decode_rune :: "string \<Rightarrow> nat \<times> nat" where
  "decode_rune [] = (rune_error, 0)"
| "decode_rune (c # cs) =
     (if byte c < 128 then (byte c, 1)
      else case utf8_lead (byte c) of
        None \<Rightarrow> (rune_error, 1)
      | Some (sz, lo, hi) \<Rightarrow>
          (case cs of
            [] \<Rightarrow> (rune_error, 1)
          | c1 # cs1 \<Rightarrow>
              if \<not> (lo \<le> byte c1 \<and> byte c1 \<le> hi) then (rune_error, 1)
              else if sz = 2 then ((byte c - 192) * 64 + (byte c1 - 128), 2)
              else (case cs1 of
                [] \<Rightarrow> (rune_error, 1)
              | c2 # cs2 \<Rightarrow>
                  if \<not> is_cont c2 then (rune_error, 1)
                  else if sz = 3 then
                    ((byte c - 224) * 4096 + (byte c1 - 128) * 64 + (byte c2 - 128), 3)
                  else (case cs2 of
                    [] \<Rightarrow> (rune_error, 1)
                  | c3 # cs3 \<Rightarrow>
                      if \<not> is_cont c3 then (rune_error, 1)
                      else ((byte c - 240) * 262144 + (byte c1 - 128) * 4096
                            + (byte c2 - 128) * 64 + (byte c3 - 128), 4)))))"

lemma decode_rune_width: "s \<noteq> [] \<Longrightarrow> 1 \<le> snd (decode_rune s) \<and> snd (decode_rune s) \<le> length s"
  by (cases s) (auto split: option.splits list.splits prod.splits if_splits)

lemma decode_rune_width4: "snd (decode_rune s) \<le> 4"
  by (cases s) (auto split: option.splits list.splits prod.splits if_splits)

text \<open>
  The runes of a string in order, each with the bytes it was decoded from: what
  \<open>for i, r := range s\<close> visits.
\<close>

function utf8_chunks :: "string \<Rightarrow> (nat \<times> string) list" where
  "utf8_chunks s =
     (if s = [] then []
      else (let (r, w) = decode_rune s in (r, take w s) # utf8_chunks (drop w s)))"
  by pat_completeness auto
termination
proof (relation "measure length")
  fix s r w p
  assume ne: "s \<noteq> []" and p: "p = decode_rune s" and rw: "(r, w) = p"
  have w: "w = snd (decode_rune s)" using p rw by (metis snd_conv)
  from decode_rune_width [OF ne] ne show "(drop w s, s) \<in> measure length"
    unfolding w by simp
qed simp

declare utf8_chunks.simps [simp del]

definition rune_count :: "string \<Rightarrow> nat" where
  "rune_count s = length (utf8_chunks s)"

text \<open>The bytes of a rune in \<open>string(runes)\<close>: an invalid byte comes back as U+FFFD.\<close>

definition rune_bytes :: "nat \<times> string \<Rightarrow> string" where
  "rune_bytes p = (if fst p = rune_error then [CHR 0xEF, CHR 0xBF, CHR 0xBD] else snd p)"

definition string_of_runes :: "(nat \<times> string) list \<Rightarrow> string" where
  "string_of_runes rs = concat (map rune_bytes rs)"

text \<open>\<open>utf8.EncodeRune\<close>.\<close>

definition encode_rune :: "nat \<Rightarrow> string" where
  "encode_rune r =
     (if r < 128 then [char_of r]
      else if r < 2048 then [char_of (192 + r div 64), char_of (128 + r mod 64)]
      else if (55296 \<le> r \<and> r \<le> 57343) \<or> 1114111 < r then [CHR 0xEF, CHR 0xBF, CHR 0xBD]
      else if r < 65536 then
        [char_of (224 + r div 4096), char_of (128 + r div 64 mod 64), char_of (128 + r mod 64)]
      else [char_of (240 + r div 262144), char_of (128 + r div 4096 mod 64),
            char_of (128 + r div 64 mod 64), char_of (128 + r mod 64)])"

section \<open>Unicode tables\<close>

text \<open>
  The tables of package \<open>unicode\<close> (letters, digits, upper and lower case, printable code
  points, lower-case mapping, and for \<open>SimpleFold\<close> the least rune of each case orbit). White space is small enough to be written out.
\<close>

record unicode =
  uc_letter :: "nat \<Rightarrow> bool"
  uc_digit :: "nat \<Rightarrow> bool"
  uc_upper :: "nat \<Rightarrow> bool"
  uc_lower :: "nat \<Rightarrow> bool"
  uc_print :: "nat \<Rightarrow> bool"
  uc_to_lower :: "nat \<Rightarrow> nat"
  uc_fold :: "nat \<Rightarrow> nat"

text \<open>The tables restricted to ASCII, for concrete evaluation.\<close>

definition ascii_unicode :: unicode where
  "ascii_unicode = \<lparr>
     uc_letter = (\<lambda>r. (65 \<le> r \<and> r \<le> 90) \<or> (97 \<le> r \<and> r \<le> 122)),
     uc_digit = (\<lambda>r. 48 \<le> r \<and> r \<le> 57),
     uc_upper = (\<lambda>r. 65 \<le> r \<and> r \<le> 90),
     uc_lower = (\<lambda>r. 97 \<le> r \<and> r \<le> 122),
     uc_print = (\<lambda>r. 32 \<le> r \<and> r \<le> 126),
     uc_to_lower = (\<lambda>r. if 65 \<le> r \<and> r \<le> 90 then r + 32 else r),
     uc_fold = (\<lambda>r. if 97 \<le> r \<and> r \<le> 122 then r - 32 else r)\<rparr>"

definition is_space :: "nat \<Rightarrow> bool" where
  "is_space r \<longleftrightarrow>
     (9 \<le> r \<and> r \<le> 13) \<or> r = 32 \<or> r = 133 \<or> r = 160 \<or> r = 5760 \<or> (8192 \<le> r \<and> r \<le> 8202)
     \<or> r = 8232 \<or> r = 8233 \<or> r = 8239 \<or> r = 8287 \<or> r = 12288"

section \<open>Package strings\<close>

definition trim_left :: "string \<Rightarrow> string" where
  "trim_left s = concat (map snd (dropWhile (\<lambda>p. is_space (fst p)) (utf8_chunks s)))"

definition trim_right :: "string \<Rightarrow> string" where
  "trim_right s =
     concat (map snd (rev (dropWhile (\<lambda>p. is_space (fst p)) (rev (utf8_chunks s)))))"

definition trim_space :: "string \<Rightarrow> string" where
  "trim_space s = trim_right (trim_left s)"

definition to_lower :: "unicode \<Rightarrow> string \<Rightarrow> string" where
  "to_lower U s =
     concat (map (\<lambda>p. if fst p = rune_error \<or> uc_to_lower U (fst p) = fst p then rune_bytes p
                      else encode_rune (uc_to_lower U (fst p))) (utf8_chunks s))"

text \<open>\<open>strings.EqualFold\<close>: rune by rune, in the same orbit of simple case folding.\<close>

definition equal_fold :: "unicode \<Rightarrow> string \<Rightarrow> string \<Rightarrow> bool" where
  "equal_fold U s t \<longleftrightarrow> map (\<lambda>p. uc_fold U (fst p)) (utf8_chunks s) = map (\<lambda>p. uc_fold U (fst p)) (utf8_chunks t)"

definition has_prefix :: "string \<Rightarrow> string \<Rightarrow> bool" where
  "has_prefix s p \<longleftrightarrow> take (length p) s = p"

fun contains :: "string \<Rightarrow> string \<Rightarrow> bool" where
  "contains [] p = (p = [])"
| "contains (c # cs) p = (has_prefix (c # cs) p \<or> contains cs p)"

fun join :: "string \<Rightarrow> string list \<Rightarrow> string" where
  "join sep [] = []"
| "join sep [x] = x"
| "join sep (x # y # xs) = x @ sep @ join sep (y # xs)"

text \<open>The order of Go strings, byte by byte.\<close>

fun str_less :: "string \<Rightarrow> string \<Rightarrow> bool" where
  "str_less s [] = False"
| "str_less [] (y # ys) = True"
| "str_less (x # xs) (y # ys) = (byte x < byte y \<or> (x = y \<and> str_less xs ys))"

section \<open>Printing\<close>

definition digit_char :: "nat \<Rightarrow> char" where
  "digit_char d = char_of (48 + d)"

fun show_nat :: "nat \<Rightarrow> string" where
  "show_nat n = (if n < 10 then [digit_char n] else show_nat (n div 10) @ [digit_char (n mod 10)])"

declare show_nat.simps [simp del]

definition show_int :: "int \<Rightarrow> string" where
  "show_int i = (if i < 0 then CHR ''-'' # show_nat (nat (- i)) else show_nat (nat i))"

text \<open>\<open>time.Duration.String\<close>.\<close>

definition fmt_frac :: "nat \<Rightarrow> nat \<Rightarrow> string" where
  "fmt_frac v prec =
     (let ds = show_nat (v mod 10 ^ prec);
          padded = replicate (prec - length ds) CHR ''0'' @ ds;
          kept = rev (dropWhile (\<lambda>c. c = CHR ''0'') (rev padded))
      in if prec = 0 \<or> kept = [] then [] else CHR ''.'' # kept)"

definition show_duration :: "duration \<Rightarrow> string" where
  "show_duration d =
     (let u = nat \<bar>d\<bar>;
          body =
            (if u = 0 then ''0s''
             else if u < 1000 then show_nat u @ ''ns''
             else if u < 1000000 then show_nat (u div 1000) @ fmt_frac u 3 @ [CHR 0xC2, CHR 0xB5, CHR ''s'']
             else if u < 1000000000 then show_nat (u div 1000000) @ fmt_frac u 6 @ ''ms''
             else (let secs = u div 1000000000; mins = secs div 60; hours = mins div 60
                   in (if 0 < hours then show_nat hours @ ''h'' else [])
                      @ (if 0 < mins then show_nat (mins mod 60) @ ''m'' else [])
                      @ show_nat (secs mod 60) @ fmt_frac u 9 @ ''s''))
      in if d < 0 then CHR ''-'' # body else body)"

text \<open>
  \<open>t.Format(time.RFC3339Nano)\<close> of a UTC time: the proleptic Gregorian date of the day count,
  the time of day and the fraction without trailing zeros.
\<close>

definition is_leap :: "nat \<Rightarrow> bool" where
  "is_leap y \<longleftrightarrow> 4 dvd y \<and> (\<not> 100 dvd y \<or> 400 dvd y)"

definition month_lengths :: "nat \<Rightarrow> nat list" where
  "month_lengths y = [31, if is_leap y then 29 else 28, 31, 30, 31, 30, 31, 31, 30, 31, 30, 31]"

fun month_day :: "nat list \<Rightarrow> nat \<Rightarrow> nat \<Rightarrow> nat \<times> nat" where
  "month_day [] m d = (m, d)"
| "month_day (l # ls) m d = (if d < l then (m, d) else month_day ls (Suc m) (d - l))"

definition civil_date :: "nat \<Rightarrow> nat \<times> nat \<times> nat" where
  "civil_date days =
     (let q = days div 146097; r = days mod 146097; c = min 3 (r div 36524); r1 = r - c * 36524;
          f = r1 div 1461; r2 = r1 mod 1461; a = min 3 (r2 div 365); doy = r2 - a * 365;
          y = 400 * q + 100 * c + 4 * f + a + 1; (m, d) = month_day (month_lengths y) 1 doy
      in (y, m, d + 1))"

definition pad :: "nat \<Rightarrow> nat \<Rightarrow> string" where
  "pad w n = (let ds = show_nat n in replicate (w - length ds) CHR ''0'' @ ds)"

definition rfc3339_nano :: "gotime \<Rightarrow> string" where
  "rfc3339_nano t =
     (let n = nat t; secs = n div 1000000000; (y, m, d) = civil_date (secs div 86400); sod = secs mod 86400
      in pad 4 y @ ''-'' @ pad 2 m @ ''-'' @ pad 2 d @ ''T'' @ pad 2 (sod div 3600) @ '':''
         @ pad 2 (sod div 60 mod 60) @ '':'' @ pad 2 (sod mod 60) @ fmt_frac n 9 @ ''Z'')"

text \<open>\<open>strconv.Quote\<close>, the verb \<open>%q\<close>.\<close>

definition hex_char :: "nat \<Rightarrow> char" where
  "hex_char d = (if d < 10 then char_of (48 + d) else char_of (87 + d))"

fun hex_digits :: "nat \<Rightarrow> nat \<Rightarrow> string" where
  "hex_digits 0 n = []"
| "hex_digits (Suc k) n = hex_digits k (n div 16) @ [hex_char (n mod 16)]"

definition quote_rune :: "unicode \<Rightarrow> nat \<times> string \<Rightarrow> string" where
  "quote_rune U p =
     (let r = fst p; bs = snd p
      in if r = rune_error \<and> length bs = 1 then CHR 92 # CHR ''x'' # hex_digits 2 (byte (hd bs))
         else if r = 34 \<or> r = 92 then CHR 92 # bs
         else if (r < 128 \<and> 32 \<le> r \<and> r \<le> 126) \<or> (128 \<le> r \<and> uc_print U r) then bs
         else if r = 7 then [CHR 92, CHR ''a'']
         else if r = 8 then [CHR 92, CHR ''b'']
         else if r = 12 then [CHR 92, CHR ''f'']
         else if r = 10 then [CHR 92, CHR ''n'']
         else if r = 13 then [CHR 92, CHR ''r'']
         else if r = 9 then [CHR 92, CHR ''t'']
         else if r = 11 then [CHR 92, CHR ''v'']
         else if r < 32 \<or> r = 127 then CHR 92 # CHR ''x'' # hex_digits 2 r
         else if r < 65536 then CHR 92 # CHR ''u'' # hex_digits 4 r
         else CHR 92 # CHR ''U'' # hex_digits 8 r)"

definition quote :: "unicode \<Rightarrow> string \<Rightarrow> string" where
  "quote U s = CHR 34 # concat (map (quote_rune U) (utf8_chunks s)) @ [CHR 34]"

section \<open>JSON validity\<close>

text \<open>
  \<open>json.Valid\<close> runs the scanner of \<open>encoding/json\<close> over the bytes: a state, and a stack that
  says whether the scanner is at an object key, after an object key or in an array. Nesting
  is limited to 10000 levels.
\<close>

datatype json_state =
    JBeginValue | JBeginValueOrEmpty | JBeginStringOrEmpty | JBeginString | JEndValue | JEndTop
  | JInString | JEsc | JEscU nat | JNeg | JInt | JZero | JDot | JDot0 | JE | JESign | JE0
  | JLit string

datatype json_parse = ParseObjectKey | ParseObjectValue | ParseArrayValue

type_synonym json_cfg = "json_state \<times> json_parse list"

definition json_space :: "char \<Rightarrow> bool" where
  "json_space c \<longleftrightarrow> byte c = 32 \<or> byte c = 9 \<or> byte c = 13 \<or> byte c = 10"

definition json_digit :: "char \<Rightarrow> bool" where
  "json_digit c \<longleftrightarrow> 48 \<le> byte c \<and> byte c \<le> 57"

definition json_hex :: "char \<Rightarrow> bool" where
  "json_hex c \<longleftrightarrow> json_digit c \<or> (97 \<le> byte c \<and> byte c \<le> 102) \<or> (65 \<le> byte c \<and> byte c \<le> 70)"

definition json_push :: "json_parse \<Rightarrow> json_state \<Rightarrow> json_parse list \<Rightarrow> json_cfg option" where
  "json_push p st stk = (if length stk < 10000 then Some (st, p # stk) else None)"

definition json_pop :: "json_parse list \<Rightarrow> json_cfg option" where
  "json_pop stk = (if tl stk = [] then Some (JEndTop, []) else Some (JEndValue, tl stk))"

definition json_end_value :: "json_parse list \<Rightarrow> char \<Rightarrow> json_cfg option" where
  "json_end_value stk c =
     (case stk of
       [] \<Rightarrow> if json_space c then Some (JEndTop, []) else None
     | p # rest \<Rightarrow>
         if json_space c then Some (JEndValue, stk)
         else (case p of
           ParseObjectKey \<Rightarrow>
             if c = CHR '':'' then Some (JBeginValue, ParseObjectValue # rest) else None
         | ParseObjectValue \<Rightarrow>
             if c = CHR '','' then Some (JBeginString, ParseObjectKey # rest)
             else if c = CHR 125 then json_pop stk else None
         | ParseArrayValue \<Rightarrow>
             if c = CHR '','' then Some (JBeginValue, stk)
             else if c = CHR '']'' then json_pop stk else None))"

definition json_begin_string :: "json_parse list \<Rightarrow> char \<Rightarrow> json_cfg option" where
  "json_begin_string stk c =
     (if json_space c then Some (JBeginString, stk)
      else if c = CHR 34 then Some (JInString, stk) else None)"

definition json_begin_value :: "json_parse list \<Rightarrow> char \<Rightarrow> json_cfg option" where
  "json_begin_value stk c =
     (if json_space c then Some (JBeginValue, stk)
      else if c = CHR 123 then json_push ParseObjectKey JBeginStringOrEmpty stk
      else if c = CHR ''['' then json_push ParseArrayValue JBeginValueOrEmpty stk
      else if c = CHR 34 then Some (JInString, stk)
      else if c = CHR ''-'' then Some (JNeg, stk)
      else if c = CHR ''0'' then Some (JZero, stk)
      else if c = CHR ''t'' then Some (JLit ''rue'', stk)
      else if c = CHR ''f'' then Some (JLit ''alse'', stk)
      else if c = CHR ''n'' then Some (JLit ''ull'', stk)
      else if json_digit c then Some (JInt, stk)
      else None)"

definition json_state0 :: "json_parse list \<Rightarrow> char \<Rightarrow> json_cfg option" where
  "json_state0 stk c =
     (if c = CHR ''.'' then Some (JDot, stk)
      else if c = CHR ''e'' \<or> c = CHR ''E'' then Some (JE, stk)
      else json_end_value stk c)"

fun json_step :: "json_cfg \<Rightarrow> char \<Rightarrow> json_cfg option" where
  "json_step (JBeginValue, stk) c = json_begin_value stk c"
| "json_step (JBeginValueOrEmpty, stk) c =
     (if json_space c then Some (JBeginValueOrEmpty, stk)
      else if c = CHR '']'' then json_end_value stk c
      else json_begin_value stk c)"
| "json_step (JBeginStringOrEmpty, stk) c =
     (if json_space c then Some (JBeginStringOrEmpty, stk)
      else if c = CHR 125 then json_end_value (ParseObjectValue # tl stk) c
      else json_begin_string stk c)"
| "json_step (JBeginString, stk) c = json_begin_string stk c"
| "json_step (JEndValue, stk) c = json_end_value stk c"
| "json_step (JEndTop, stk) c = (if json_space c then Some (JEndTop, stk) else None)"
| "json_step (JInString, stk) c =
     (if c = CHR 34 then Some (JEndValue, stk)
      else if c = CHR 92 then Some (JEsc, stk)
      else if byte c < 32 then None
      else Some (JInString, stk))"
| "json_step (JEsc, stk) c =
     (if c \<in> set ''bfnrt/'' \<or> c = CHR 92 \<or> c = CHR 34 then Some (JInString, stk)
      else if c = CHR ''u'' then Some (JEscU 3, stk) else None)"
| "json_step (JEscU n, stk) c =
     (if json_hex c then Some (if n = 0 then JInString else JEscU (n - 1), stk) else None)"
| "json_step (JNeg, stk) c =
     (if c = CHR ''0'' then Some (JZero, stk)
      else if json_digit c then Some (JInt, stk) else None)"
| "json_step (JInt, stk) c = (if json_digit c then Some (JInt, stk) else json_state0 stk c)"
| "json_step (JZero, stk) c = json_state0 stk c"
| "json_step (JDot, stk) c = (if json_digit c then Some (JDot0, stk) else None)"
| "json_step (JDot0, stk) c =
     (if json_digit c then Some (JDot0, stk)
      else if c = CHR ''e'' \<or> c = CHR ''E'' then Some (JE, stk)
      else json_end_value stk c)"
| "json_step (JE, stk) c =
     (if c = CHR ''+'' \<or> c = CHR ''-'' then Some (JESign, stk)
      else if json_digit c then Some (JE0, stk) else None)"
| "json_step (JESign, stk) c = (if json_digit c then Some (JE0, stk) else None)"
| "json_step (JE0, stk) c = (if json_digit c then Some (JE0, stk) else json_end_value stk c)"
| "json_step (JLit [], stk) c = None"
| "json_step (JLit (x # xs), stk) c =
     (if c = x then Some (if xs = [] then JEndValue else JLit xs, stk) else None)"

fun json_scan :: "json_cfg \<Rightarrow> string \<Rightarrow> json_cfg option" where
  "json_scan cfg [] = Some cfg"
| "json_scan cfg (c # cs) = (case json_step cfg c of None \<Rightarrow> None | Some cfg' \<Rightarrow> json_scan cfg' cs)"

definition json_at_end :: "json_cfg \<Rightarrow> bool" where
  "json_at_end cfg \<longleftrightarrow>
     fst cfg = JEndTop \<or> (case json_step cfg CHR '' '' of None \<Rightarrow> False | Some cfg' \<Rightarrow> fst cfg' = JEndTop)"

definition json_valid :: "string \<Rightarrow> bool" where
  "json_valid s =
     (case json_scan (JBeginValue, []) s of None \<Rightarrow> False | Some cfg \<Rightarrow> json_at_end cfg)"

definition empty_object :: string where
  "empty_object = [CHR 123, CHR 125]"

section \<open>Lemmas on runes\<close>

lemma utf8_chunks_Nil [simp]: "utf8_chunks [] = []"
  by (simp add: utf8_chunks.simps)

lemma utf8_chunks_eq_Nil [simp]: "utf8_chunks s = [] \<longleftrightarrow> s = []"
  by (subst utf8_chunks.simps) (auto split: prod.split)

lemma utf8_chunks_unfold:
  "s \<noteq> [] \<Longrightarrow> utf8_chunks s =
     (fst (decode_rune s), take (snd (decode_rune s)) s) # utf8_chunks (drop (snd (decode_rune s)) s)"
  by (subst utf8_chunks.simps) (auto split: prod.split)

lemma utf8_chunks_induct [case_names Nil step]:
  assumes "P []" and "\<And>s. s \<noteq> [] \<Longrightarrow> P (drop (snd (decode_rune s)) s) \<Longrightarrow> P s"
  shows "P s"
proof (induction s rule: measure_induct_rule [where f = length])
  case (less s)
  show ?case
  proof (cases "s = []")
    case False
    with decode_rune_width [OF False] have "length (drop (snd (decode_rune s)) s) < length s" by simp
    with less False assms(2) show ?thesis by blast
  qed (simp add: assms(1))
qed

lemma concat_utf8_chunks [simp]: "concat (map snd (utf8_chunks s)) = s"
  by (induction s rule: utf8_chunks_induct) (simp_all add: utf8_chunks_unfold)

lemma utf8_chunk_length:
  "p \<in> set (utf8_chunks s) \<Longrightarrow> 1 \<le> length (snd p) \<and> length (snd p) \<le> 4"
proof (induction s rule: utf8_chunks_induct)
  case (step s)
  have "1 \<le> length (take (snd (decode_rune s)) s)" and "length (take (snd (decode_rune s)) s) \<le> 4"
    using decode_rune_width [OF step(1)] decode_rune_width4 [of s] by auto
  with step show ?case by (auto simp: utf8_chunks_unfold)
qed simp

text \<open>Decoding looks only at the bytes it consumes: a cut after them changes nothing.\<close>

lemma decode_rune_take:
  assumes "s \<noteq> []" and "snd (decode_rune s) \<le> n"
  shows "decode_rune (take n s) = decode_rune s"
proof -
  obtain c cs where s: "s = c # cs" using assms(1) by (cases s) auto
  obtain m where n: "n = Suc m" using assms decode_rune_width [OF assms(1)] by (cases n) auto
  show ?thesis
    using assms(2)
    by (auto simp add: s n take_Cons' split: option.splits list.splits prod.splits if_splits)
qed

lemma utf8_chunks_append:
  "s = concat (map snd (take k (utf8_chunks t))) \<Longrightarrow> utf8_chunks s = take k (utf8_chunks t)"
proof (induction t arbitrary: s k rule: utf8_chunks_induct)
  case (step t)
  show ?case
  proof (cases k)
    case (Suc j)
    let ?w = "snd (decode_rune t)"
    let ?u = "concat (map snd (take j (utf8_chunks (drop ?w t))))"
    have s: "s = take ?w t @ ?u" using step Suc by (simp add: utf8_chunks_unfold)
    have w: "1 \<le> ?w" "?w \<le> length t" using decode_rune_width [OF step(1)] by auto
    have pre: "s = take (length s) t"
    proof -
      have "concat (map snd (utf8_chunks t)) = s @ concat (map snd (drop k (utf8_chunks t)))"
        unfolding step(3) by (metis append_take_drop_id concat_append map_append)
      then show ?thesis by (metis append_eq_conv_conj concat_utf8_chunks)
    qed
    have "?w \<le> length s" using s w by simp
    then have d: "decode_rune s = decode_rune t"
      by (metis decode_rune_take pre step(1))
    have ne: "s \<noteq> []" using \<open>?w \<le> length s\<close> w by auto
    have "take ?w s = take ?w t" and "drop ?w s = ?u" using s w by auto
    then show ?thesis
      using step(1) step(2) [of ?u j] Suc by (simp add: utf8_chunks_unfold [OF ne] utf8_chunks_unfold d)
  qed (use step in simp)
qed simp

section \<open>The string order\<close>

text \<open>Re-encoding runes gives back the same runes: an invalid byte has become a valid U+FFFD.\<close>

lemma decode_rune_valid:
  assumes "s \<noteq> []" and "fst (decode_rune s) \<noteq> rune_error"
  shows "decode_rune (take (snd (decode_rune s)) s @ t) = decode_rune s"
proof -
  obtain c cs where s: "s = c # cs" using assms(1) by (cases s) auto
  show ?thesis
  proof (cases "byte c < 128")
    case False
    then obtain sz lo hi where l: "utf8_lead (byte c) = Some (sz, lo, hi)"
      using assms(2) by (auto simp: s split: option.splits)
    from False l assms(2) obtain c1 cs1 where cs: "cs = c1 # cs1" by (cases cs) (auto simp: s)
    from False l assms(2) have c1: "lo \<le> byte c1 \<and> byte c1 \<le> hi" by (auto simp: s cs split: if_splits)
    show ?thesis
    proof (cases "sz = 2")
      case n2: False
      from False l assms(2) c1 n2 obtain c2 cs2 where cs1: "cs1 = c2 # cs2" by (cases cs1) (auto simp: s cs)
      from False l assms(2) c1 n2 have c2: "is_cont c2" by (auto simp: s cs cs1 split: if_splits)
      show ?thesis
      proof (cases "sz = 3")
        case n3: False
        from False l assms(2) c1 n2 c2 n3 obtain c3 cs3 where cs2: "cs2 = c3 # cs3"
          by (cases cs2) (auto simp: s cs cs1)
        from False l assms(2) c1 n2 c2 n3 have "is_cont c3" by (auto simp: s cs cs1 cs2 split: if_splits)
        with False l c1 n2 c2 n3 show ?thesis by (simp add: s cs cs1 cs2)
      qed (use False l c1 n2 c2 in \<open>simp add: s cs cs1\<close>)
    qed (use False l c1 in \<open>simp add: s cs\<close>)
  qed (simp add: s)
qed

lemma decode_rune_error: "decode_rune ([CHR 0xEF, CHR 0xBF, CHR 0xBD] @ t) = (rune_error, 3)"
  by (simp add: byte_def utf8_lead_def is_cont_def rune_error_def)

lemma runes_string_of_runes:
  "map fst (utf8_chunks (string_of_runes (take k (utf8_chunks s)))) = map fst (take k (utf8_chunks s))"
proof (induction s arbitrary: k rule: utf8_chunks_induct)
  case (step s)
  show ?case
  proof (cases k)
    case (Suc j)
    let ?r = "fst (decode_rune s)" and ?w = "snd (decode_rune s)"
    let ?u = "string_of_runes (take j (utf8_chunks (drop ?w s)))"
    have str: "string_of_runes (take k (utf8_chunks s)) = rune_bytes (?r, take ?w s) @ ?u"
      using step(1) by (simp add: Suc utf8_chunks_unfold [OF step(1)] string_of_runes_def)
    have dec: "decode_rune (rune_bytes (?r, take ?w s) @ ?u) = (?r, length (rune_bytes (?r, take ?w s)))"
    proof (cases "?r = rune_error")
      case True
      then show ?thesis using decode_rune_error [of ?u] by (simp add: rune_bytes_def)
    next
      case False
      then show ?thesis
        using decode_rune_valid [OF step(1) False, of ?u] decode_rune_width [OF step(1)] by (simp add: rune_bytes_def)
    qed
    have ne: "rune_bytes (?r, take ?w s) @ ?u \<noteq> []"
      using step(1) decode_rune_width [OF step(1)] by (auto simp: rune_bytes_def)
    have "utf8_chunks (rune_bytes (?r, take ?w s) @ ?u) = (?r, rune_bytes (?r, take ?w s)) # utf8_chunks ?u"
      using dec by (subst utf8_chunks_unfold [OF ne]) simp
    then have "map fst (utf8_chunks (string_of_runes (take k (utf8_chunks s)))) = ?r # map fst (utf8_chunks ?u)"
      unfolding str by simp
    also have "\<dots> = map fst (take k (utf8_chunks s))"
      using step(2) [of j] by (simp add: Suc utf8_chunks_unfold [OF step(1)])
    finally show ?thesis .
  qed (simp add: string_of_runes_def)
qed (simp add: string_of_runes_def)

lemma rune_count_string_of_runes:
  "rune_count (string_of_runes (take k (utf8_chunks s))) = min k (rune_count s)"
  using arg_cong [OF runes_string_of_runes, of length k s] by (simp add: rune_count_def min.commute)

lemma byte_eq [simp]: "byte x = byte y \<longleftrightarrow> x = y"
  by (simp add: byte_def)

lemma str_less_irrefl: "\<not> str_less s s"
  by (induction s) auto

lemma str_less_trans: "str_less a b \<Longrightarrow> str_less b c \<Longrightarrow> str_less a c"
proof (induction a b arbitrary: c rule: str_less.induct)
  case (2 y ys)
  then show ?case by (cases c) auto
next
  case (3 x xs y ys)
  then show ?case by (cases c) auto
qed simp

lemma str_less_total: "a \<noteq> b \<Longrightarrow> str_less a b \<or> str_less b a"
proof (induction a b rule: str_less.induct)
  case (1 s)
  then show ?case by (cases s) auto
next
  case (3 x xs y ys)
  have "byte x < byte y \<or> byte y < byte x \<or> x = y" by (metis byte_eq linorder_less_linear)
  with 3 show ?case by auto
qed simp

lemma str_less_strict_weak: "strict_weak str_less"
proof (rule strict_weakI)
  show "\<not> str_less x x" for x by (rule str_less_irrefl)
  show "str_less x y \<Longrightarrow> str_less y z \<Longrightarrow> str_less x z" for x y z by (rule str_less_trans)
  show "\<not> str_less x z" if "\<not> str_less x y" and "\<not> str_less y z" for x y z
  proof (cases "x = y \<or> y = z")
    case False
    with that str_less_total [of x y] str_less_total [of y z] have "str_less z x"
      using str_less_trans by blast
    then show ?thesis using str_less_trans [of z x z] str_less_irrefl by blast
  qed (use that in auto)
qed

section \<open>Evaluation of small texts\<close>

lemma json_valid_empty_object [simp]: "json_valid empty_object"
  by (simp add: json_valid_def empty_object_def json_begin_value_def json_space_def byte_def
      json_push_def json_end_value_def json_pop_def json_at_end_def)

lemma trim_empty_object: "trim_space empty_object \<noteq> []"
  by (simp add: trim_space_def trim_left_def trim_right_def empty_object_def utf8_chunks_unfold
      byte_def is_space_def)

text \<open>Decimal notation is unambiguous.\<close>

lemma show_nat_inj: "show_nat a = show_nat b \<Longrightarrow> a = b"
proof (induction a arbitrary: b rule: less_induct)
  case (less a)
  have dig: "digit_char x = digit_char y \<Longrightarrow> x < 10 \<Longrightarrow> y < 10 \<Longrightarrow> x = y" for x y
    using arg_cong [of "digit_char x" "digit_char y" "of_char :: char \<Rightarrow> nat"] by (simp add: digit_char_def)
  have ne: "show_nat n \<noteq> []" for n by (subst show_nat.simps) simp
  consider "a < 10" "b < 10" | "a < 10" "10 \<le> b" | "10 \<le> a" "b < 10" | "10 \<le> a" "10 \<le> b" by linarith
  then show ?case
  proof cases
    case 1
    with less.prems dig show ?thesis by (simp add: show_nat.simps [of a] show_nat.simps [of b])
  next
    case 2
    with less.prems ne [of "b div 10"] show ?thesis by (simp add: show_nat.simps [of a] show_nat.simps [of b])
  next
    case 3
    with less.prems ne [of "a div 10"] show ?thesis by (simp add: show_nat.simps [of a] show_nat.simps [of b])
  next
    case 4
    then have "show_nat (a div 10) = show_nat (b div 10)" "a mod 10 = b mod 10"
      using less.prems dig [of "a mod 10" "b mod 10"] by (simp_all add: show_nat.simps [of a] show_nat.simps [of b])
    with less.IH [of "a div 10" "b div 10"] 4 show ?thesis by (metis div_less_dividend div_mult_mod_eq numeral_One
          numeral_less_iff semiring_norm(76) less_le_trans zero_less_numeral)
  qed
qed

end
