(* ===== verification/Model_Types.thy ===== *)
theory Model_Types
  imports Go_Strings
begin

text \<open>
  The provider-neutral transcript model of \<open>model/types.go\<close> and \<open>model/client.go\<close>: messages,
  content blocks, tool uses and results, their deep copies and the normalisation of tool
  input, the metadata accessors of \<open>internal/metadatavalues\<close>, and token accounting.
\<close>

section \<open>Metadata values\<close>

text \<open>The dynamic values (\<open>any\<close>) the SDK stores in metadata maps.\<close>

datatype gval =
    VNil
  | VBool bool
  | VString string
  | VInt int
  | VInt64 int
  | VFloat rat
  | VStrings "string list"
  | VList "gval list"

type_synonym metadata = "(string, gval) gomap"

definition metadata_bool :: "metadata \<Rightarrow> string \<Rightarrow> bool" where
  "metadata_bool m k = (case map_of m k of Some (VBool b) \<Rightarrow> b | _ \<Rightarrow> False)"

definition metadata_string :: "metadata \<Rightarrow> string \<Rightarrow> string" where
  "metadata_string m k = (case map_of m k of Some (VString s) \<Rightarrow> s | _ \<Rightarrow> [])"

text \<open>A \<open>float64\<close> is converted by truncation towards zero.\<close>

definition trunc_rat :: "rat \<Rightarrow> int" where
  "trunc_rat q = (if 0 \<le> q then \<lfloor>q\<rfloor> else - \<lfloor>- q\<rfloor>)"

definition metadata_int :: "metadata \<Rightarrow> string \<Rightarrow> int" where
  "metadata_int m k =
     (case map_of m k of
        Some (VInt i) \<Rightarrow> i
      | Some (VInt64 i) \<Rightarrow> i
      | Some (VFloat q) \<Rightarrow> trunc_rat q
      | _ \<Rightarrow> 0)"

section \<open>Transcript data\<close>

type_synonym role = string

abbreviation RoleSystem :: role where "RoleSystem \<equiv> ''system''"
abbreviation RoleUser :: role where "RoleUser \<equiv> ''user''"
abbreviation RoleAssistant :: role where "RoleAssistant \<equiv> ''assistant''"
abbreviation RoleTool :: role where "RoleTool \<equiv> ''tool''"

type_synonym content_type = string

abbreviation ContentText :: content_type where "ContentText \<equiv> ''text''"
abbreviation ContentToolUse :: content_type where "ContentToolUse \<equiv> ''tool_use''"
abbreviation ContentProviderArtifact :: content_type where
  "ContentProviderArtifact \<equiv> ''provider_artifact''"

record tool_use =
  use_id :: string
  use_name :: string
  use_input :: string

record provider_artifact =
  pa_provider :: string
  pa_type :: string
  pa_id :: string
  pa_data :: string

record content_block =
  cb_type :: content_type
  cb_text :: string
  cb_tool_use :: "tool_use option"
  cb_artifact :: "provider_artifact option"

record tool_result =
  tr_use_id :: string
  tr_name :: string
  tr_content :: string
  tr_is_error :: bool
  tr_metadata :: metadata

record message =
  msg_id :: string
  msg_role :: role
  msg_content :: "content_block list"
  msg_tool_result :: "tool_result option"
  msg_metadata :: metadata

record tool_spec =
  ts_name :: string
  ts_description :: string
  ts_input_schema :: metadata
  ts_search_hint :: string
  ts_read_only :: bool
  ts_concurrency_safe :: bool
  ts_destructive :: bool
  ts_always_load :: bool
  ts_should_defer :: bool
  ts_max_result_bytes :: int

text \<open>Zero values and the literals the code builds.\<close>

definition text_block :: "string \<Rightarrow> content_block" where
  "text_block t = \<lparr>cb_type = ContentText, cb_text = t, cb_tool_use = None, cb_artifact = None\<rparr>"

definition use_block :: "tool_use \<Rightarrow> content_block" where
  "use_block u =
     \<lparr>cb_type = ContentToolUse, cb_text = [], cb_tool_use = Some u, cb_artifact = None\<rparr>"

definition artifact_block :: "provider_artifact \<Rightarrow> content_block" where
  "artifact_block a =
     \<lparr>cb_type = ContentProviderArtifact, cb_text = [], cb_tool_use = None, cb_artifact = Some a\<rparr>"

definition content_message :: "role \<Rightarrow> content_block list \<Rightarrow> message" where
  "content_message r bs =
     \<lparr>msg_id = [], msg_role = r, msg_content = bs, msg_tool_result = None, msg_metadata = []\<rparr>"

definition user_message :: "string \<Rightarrow> message" where
  "user_message t = content_message RoleUser [text_block t]"

definition tool_message :: "tool_result \<Rightarrow> message" where
  "tool_message r =
     \<lparr>msg_id = [], msg_role = RoleTool, msg_content = [], msg_tool_result = Some r, msg_metadata = []\<rparr>"

definition PlainText :: "message \<Rightarrow> string" where
  "PlainText m = concat (map cb_text (filter (\<lambda>b. cb_type b = ContentText) (msg_content m)))"

section \<open>Normalisation and copies\<close>

definition NormalizeToolInput :: "string \<Rightarrow> string" where
  "NormalizeToolInput inp =
     (if trim_space inp = [] \<or> \<not> json_valid inp then empty_object else inp)"

definition NormalizeToolUse :: "tool_use \<Rightarrow> tool_use" where
  "NormalizeToolUse u = u\<lparr>use_input := NormalizeToolInput (use_input u)\<rparr>"

definition CloneContentBlock :: "content_block \<Rightarrow> content_block" where
  "CloneContentBlock b = b\<lparr>cb_tool_use := map_option NormalizeToolUse (cb_tool_use b)\<rparr>"

definition CloneContentBlocks :: "content_block list \<Rightarrow> content_block list" where
  "CloneContentBlocks bs = map CloneContentBlock bs"

definition CloneMetadata :: "metadata \<Rightarrow> metadata" where
  "CloneMetadata m = (if m = [] then [] else put_all [] m)"

definition CloneMessage :: "message \<Rightarrow> message" where
  "CloneMessage m =
     (let m1 = (if msg_content m \<noteq> [] then m\<lparr>msg_content := CloneContentBlocks (msg_content m)\<rparr> else m);
          m2 = (if msg_metadata m1 \<noteq> [] then m1\<lparr>msg_metadata := CloneMetadata (msg_metadata m1)\<rparr> else m1)
      in (case msg_tool_result m2 of
            None \<Rightarrow> m2
          | Some r \<Rightarrow> m2\<lparr>msg_tool_result := Some (r\<lparr>tr_metadata := CloneMetadata (tr_metadata r)\<rparr>)\<rparr>))"

definition CloneMessages :: "message list \<Rightarrow> message list" where
  "CloneMessages ms = map CloneMessage ms"

section \<open>Token accounting\<close>

record usage =
  us_provider :: string
  us_model :: string
  us_input :: int
  us_output :: int
  us_total :: int
  us_metadata :: metadata

definition zero_usage :: usage where
  "zero_usage = \<lparr>us_provider = [], us_model = [], us_input = 0, us_output = 0, us_total = 0,
     us_metadata = []\<rparr>"

definition mergeUsageMetadata :: "metadata \<Rightarrow> metadata \<Rightarrow> metadata" where
  "mergeUsageMetadata first nxt =
     (if first = [] then CloneMetadata nxt else put_new (CloneMetadata first) nxt)"

definition usage_add :: "usage \<Rightarrow> usage \<Rightarrow> usage" where
  "usage_add u n =
     \<lparr>us_provider = (if us_provider u = [] then us_provider n else us_provider u),
      us_model = (if us_model u = [] then us_model n else us_model u),
      us_input = i64 (us_input u + us_input n),
      us_output = i64 (us_output u + us_output n),
      us_total = i64 (us_total u + us_total n),
      us_metadata = (if us_metadata n \<noteq> [] then mergeUsageMetadata (us_metadata u) (us_metadata n)
                     else us_metadata u)\<rparr>"

definition hasUsage :: "usage \<Rightarrow> bool" where
  "hasUsage u \<longleftrightarrow> us_input u \<noteq> 0 \<or> us_output u \<noteq> 0 \<or> us_total u \<noteq> 0 \<or> us_provider u \<noteq> []
     \<or> us_model u \<noteq> [] \<or> us_metadata u \<noteq> []"

section \<open>Lemmas\<close>

lemma NormalizeToolInput_idem [simp]:
  "NormalizeToolInput (NormalizeToolInput inp) = NormalizeToolInput inp"
  by (simp add: NormalizeToolInput_def)

lemma NormalizeToolInput_valid: "json_valid (NormalizeToolInput inp)"
  by (simp add: NormalizeToolInput_def)

lemma NormalizeToolUse_idem [simp, clone_simps]:
  "NormalizeToolUse (NormalizeToolUse u) = NormalizeToolUse u"
  by (simp add: NormalizeToolUse_def)

lemma NormalizeToolUse_id_name [simp]:
  "use_id (NormalizeToolUse u) = use_id u" "use_name (NormalizeToolUse u) = use_name u"
  by (simp_all add: NormalizeToolUse_def)

lemma put_all_distinct: "wf_map (m @ src) \<Longrightarrow> put_all m src = m @ src"
proof (induction m src rule: put_all.induct)
  case (2 m k v src)
  then have "k \<notin> fst ` set m" by (auto simp: wf_map_def)
  with 2 show ?case by (simp add: update_fresh)
qed simp

text \<open>A well-formed map is copied exactly.\<close>

lemma CloneMetadata_id [simp]: "wf_map m \<Longrightarrow> CloneMetadata m = m"
  using put_all_distinct [of "[]" m] by (simp add: CloneMetadata_def)

lemma wf_map_CloneMetadata [simp]: "wf_map (CloneMetadata m)"
  by (simp add: CloneMetadata_def wf_map_put_all)

lemma CloneMetadata_idem [simp, clone_simps]: "CloneMetadata (CloneMetadata m) = CloneMetadata m"
  by simp

lemma put_all_nonempty: "d \<noteq> [] \<Longrightarrow> put_all d m \<noteq> []"
  by (induction d m rule: put_all.induct) auto

lemma CloneMetadata_Nil [simp]: "CloneMetadata m = [] \<longleftrightarrow> m = []"
  by (cases m) (auto simp: CloneMetadata_def put_all_nonempty)

lemma CloneMessage_alt:
  "CloneMessage m = m\<lparr>msg_content := CloneContentBlocks (msg_content m),
     msg_tool_result := map_option (\<lambda>r. r\<lparr>tr_metadata := CloneMetadata (tr_metadata r)\<rparr>) (msg_tool_result m),
     msg_metadata := CloneMetadata (msg_metadata m)\<rparr>"
  by (cases m) (auto simp: CloneMessage_def CloneContentBlocks_def Let_def split: option.split)

lemma CloneMessage_simps [simp]:
  "msg_id (CloneMessage m) = msg_id m"
  "msg_role (CloneMessage m) = msg_role m"
  "msg_content (CloneMessage m) = CloneContentBlocks (msg_content m)"
  "msg_tool_result (CloneMessage m) =
     map_option (\<lambda>r. r\<lparr>tr_metadata := CloneMetadata (tr_metadata r)\<rparr>) (msg_tool_result m)"
  "msg_metadata (CloneMessage m) = CloneMetadata (msg_metadata m)"
  by (simp_all add: CloneMessage_alt)

lemma CloneContentBlock_idem [simp, clone_simps]:
  "CloneContentBlock (CloneContentBlock b) = CloneContentBlock b"
  by (cases "cb_tool_use b") (auto simp: CloneContentBlock_def)

lemma CloneMessage_idem [simp, clone_simps]: "CloneMessage (CloneMessage m) = CloneMessage m"
  by (cases "msg_tool_result m")
    (simp_all add: CloneMessage_alt CloneContentBlocks_def comp_def)

lemma CloneMessages_idem [simp, clone_simps]: "CloneMessages (CloneMessages ms) = CloneMessages ms"
  by (simp add: CloneMessages_def comp_def)

lemma length_CloneMessages [simp]: "length (CloneMessages ms) = length ms"
  by (simp add: CloneMessages_def)

lemma CloneMessages_append [simp]: "CloneMessages (xs @ ys) = CloneMessages xs @ CloneMessages ys"
  by (simp add: CloneMessages_def)

lemma CloneMessages_Nil [simp]: "CloneMessages [] = []"
  by (simp add: CloneMessages_def)

lemma CloneMessages_Cons [simp]: "CloneMessages (m # ms) = CloneMessage m # CloneMessages ms"
  by (simp add: CloneMessages_def)

lemma PlainText_Clone [simp]: "PlainText (CloneMessage m) = PlainText m"
proof -
  have "map cb_text (filter (\<lambda>b. cb_type b = ContentText) (map CloneContentBlock bs)) =
    map cb_text (filter (\<lambda>b. cb_type b = ContentText) bs)" for bs
    by (induction bs) (auto simp: CloneContentBlock_def)
  then show ?thesis by (simp add: PlainText_def CloneContentBlocks_def)
qed

end
