(* ===== verification/Transcript_Repair.thy ===== *)
theory Transcript_Repair
  imports Model_Types
begin

text \<open>
  \<open>internal/transcriptrepair/repair.go\<close>: the pass that makes every assistant tool-use message
  immediately followed by exactly the tool results provider protocols require. The contract
  is the predicate \<open>tool_adjacent\<close>.
\<close>

section \<open>The repair pass\<close>

definition is_tool :: "message \<Rightarrow> bool" where
  "is_tool m \<longleftrightarrow> msg_role m = RoleTool"

definition interruptedToolResultContent :: string where
  "interruptedToolResultContent =
     ''tool call was interrupted before a result was recorded; continue without relying on this tool output''"

definition assistantToolUses :: "message \<Rightarrow> tool_use list" where
  "assistantToolUses m =
     (if msg_role m \<noteq> RoleAssistant then []
      else concat (map (\<lambda>b. case cb_tool_use b of
                            Some u \<Rightarrow> if cb_type b = ContentToolUse then [NormalizeToolUse u] else []
                          | None \<Rightarrow> []) (msg_content m)))"

text \<open>
  The inner loop over the tool messages that follow: \<open>known\<close> holds the ids of the uses,
  \<open>seen\<close> the ids already answered. It returns the kept messages, the final \<open>seen\<close> and the
  transcript from the first message that is not a tool message.
\<close>

fun take_results ::
  "string set \<Rightarrow> string set \<Rightarrow> message list \<Rightarrow> message list \<times> string set \<times> message list" where
  "take_results known seen [] = ([], seen, [])"
| "take_results known seen (m # ms) =
     (if \<not> is_tool m then ([], seen, m # ms)
      else case msg_tool_result m of
        None \<Rightarrow> take_results known seen ms
      | Some r \<Rightarrow>
          (if tr_use_id r \<notin> known \<or> tr_use_id r \<in> seen then take_results known seen ms
           else let (out, seen', rest) = take_results known (insert (tr_use_id r) seen) ms
                in (CloneMessage m # out, seen', rest)))"

definition interrupted_message :: "tool_use \<Rightarrow> message" where
  "interrupted_message u =
     tool_message \<lparr>tr_use_id = use_id u, tr_name = use_name u,
       tr_content = interruptedToolResultContent, tr_is_error = True, tr_metadata = []\<rparr>"

definition missing_results :: "tool_use list \<Rightarrow> string set \<Rightarrow> message list" where
  "missing_results uses seen =
     map interrupted_message (filter (\<lambda>u. use_id u \<noteq> [] \<and> use_id u \<notin> seen) uses)"

lemma take_results_rest: "snd (snd (take_results known seen ms)) = dropWhile is_tool ms"
  by (induction known seen ms rule: take_results.induct) (auto split: option.split prod.split)

function RepairToolUseAdjacency :: "message list \<Rightarrow> message list" where
  "RepairToolUseAdjacency [] = []"
| "RepairToolUseAdjacency (m # ms) =
     (if is_tool m then RepairToolUseAdjacency ms
      else let uses = assistantToolUses m
           in if uses = [] then CloneMessage m # RepairToolUseAdjacency ms
              else let known = set (filter (\<lambda>i. i \<noteq> []) (map use_id uses));
                       res = take_results known {} ms
                   in CloneMessage m # fst res @ missing_results uses (fst (snd res))
                      @ RepairToolUseAdjacency (snd (snd res)))"
  by pat_completeness auto
termination
  by (relation "measure length")
    (auto simp: take_results_rest less_Suc_eq_le length_dropWhile_le)

section \<open>The contract\<close>

text \<open>The non-empty tool-use ids an assistant message asks to be answered.\<close>

definition use_ids :: "message \<Rightarrow> string list" where
  "use_ids m = filter (\<lambda>i. i \<noteq> []) (map use_id (assistantToolUses m))"

definition result_id :: "message \<Rightarrow> string option" where
  "result_id m = map_option tr_use_id (msg_tool_result m)"

text \<open>
  A transcript is adjacent when it does not start with a tool message and the run of tool
  messages after each other message answers each of its tool-use ids exactly once, and
  nothing else.
\<close>

function tool_adjacent :: "message list \<Rightarrow> bool" where
  "tool_adjacent [] = True"
| "tool_adjacent (m # ms) =
     (\<not> is_tool m
      \<and> mset (map result_id (takeWhile is_tool ms)) = mset (map Some (use_ids m))
      \<and> tool_adjacent (dropWhile is_tool ms))"
  by pat_completeness auto
termination
  by (relation "measure length") (auto simp: less_Suc_eq_le length_dropWhile_le)

text \<open>What the streaming side guarantees: no assistant message uses a tool id twice.\<close>

definition distinct_uses :: "message list \<Rightarrow> bool" where
  "distinct_uses ms \<longleftrightarrow> list_all (\<lambda>m. distinct (use_ids m)) ms"

section \<open>Lemmas\<close>

lemma is_tool_Clone [simp]: "is_tool (CloneMessage m) = is_tool m"
  by (simp add: is_tool_def)

lemma result_id_Clone [simp]: "result_id (CloneMessage m) = result_id m"
  by (cases "msg_tool_result m") (simp_all add: result_id_def)

lemma assistantToolUses_Clone [simp]: "assistantToolUses (CloneMessage m) = assistantToolUses m"
proof -
  have "(\<lambda>b. case cb_tool_use b of
            Some u \<Rightarrow> if cb_type b = ContentToolUse then [NormalizeToolUse u] else [] | None \<Rightarrow> [])
        \<circ> CloneContentBlock =
        (\<lambda>b. case cb_tool_use b of
            Some u \<Rightarrow> if cb_type b = ContentToolUse then [NormalizeToolUse u] else [] | None \<Rightarrow> [])"
    by (auto simp: fun_eq_iff CloneContentBlock_def split: option.split)
  then show ?thesis by (simp add: assistantToolUses_def CloneContentBlocks_def)
qed

lemma use_ids_Clone [simp]: "use_ids (CloneMessage m) = use_ids m"
  by (simp add: use_ids_def)

lemma assistantToolUses_tool [simp]: "is_tool m \<Longrightarrow> assistantToolUses m = []"
  by (simp add: is_tool_def assistantToolUses_def)

lemma interrupted_message_simps [simp]:
  "is_tool (interrupted_message u)" "result_id (interrupted_message u) = Some (use_id u)"
  by (simp_all add: interrupted_message_def is_tool_def tool_message_def result_id_def)

lemma take_results_spec:
  "take_results known seen ms = (out, seen', rest) \<Longrightarrow>
     list_all is_tool out
     \<and> (\<exists>ids. map result_id out = map Some ids \<and> distinct ids
            \<and> set ids \<inter> seen = {} \<and> set ids \<subseteq> known \<and> seen' = seen \<union> set ids)"
proof (induction known seen ms arbitrary: out seen' rest rule: take_results.induct)
  case (1 known seen)
  then show ?case by simp
next
  case (2 known seen m ms)
  show ?case
  proof (cases "\<exists>r. is_tool m \<and> msg_tool_result m = Some r \<and> tr_use_id r \<in> known \<and> tr_use_id r \<notin> seen")
    case False
    with 2 show ?thesis by (auto split: if_splits option.splits)
  next
    case True
    then obtain r where r: "is_tool m" "msg_tool_result m = Some r" "tr_use_id r \<in> known" "tr_use_id r \<notin> seen"
      by blast
    obtain out1 seen1 rest1 where
      rec: "take_results known (insert (tr_use_id r) seen) ms = (out1, seen1, rest1)"
      by (cases "take_results known (insert (tr_use_id r) seen) ms") auto
    with "2.prems" r have out: "out = CloneMessage m # out1" "seen' = seen1" by auto
    from "2.IH"(3) [OF _ r(2) _ rec] r obtain ids where
      "list_all is_tool out1" "map result_id out1 = map Some ids" "distinct ids"
      "set ids \<inter> insert (tr_use_id r) seen = {}" "set ids \<subseteq> known" "seen1 = insert (tr_use_id r) seen \<union> set ids"
      by auto
    moreover have "result_id m = Some (tr_use_id r)" using r by (simp add: result_id_def)
    ultimately show ?thesis using r out
      by (intro conjI exI [of _ "tr_use_id r # ids"]) auto
  qed
qed

lemma missing_results_spec:
  "list_all is_tool (missing_results uses seen)"
  "map result_id (missing_results uses seen) =
     map Some (filter (\<lambda>i. i \<noteq> [] \<and> i \<notin> seen) (map use_id uses))"
  by (induction uses) (auto simp: missing_results_def)

text \<open>One assistant message's block answers each of its distinct ids exactly once.\<close>

lemma repaired_block:
  assumes "distinct (use_ids m)"
    and res: "take_results (set (filter (\<lambda>i. i \<noteq> []) (map use_id (assistantToolUses m)))) {} ms = (out, seen, rest)"
  shows "list_all is_tool (out @ missing_results (assistantToolUses m) seen)"
    and "mset (map result_id (out @ missing_results (assistantToolUses m) seen)) = mset (map Some (use_ids m))"
proof -
  let ?uses = "assistantToolUses m"
  let ?miss = "filter (\<lambda>i. i \<noteq> [] \<and> i \<notin> seen) (map use_id ?uses)"
  from take_results_spec [OF res] obtain ids where
    out: "list_all is_tool out" "map result_id out = map Some ids" and
    ids: "distinct ids" "set ids \<subseteq> set (use_ids m)" "seen = set ids"
    by (auto simp: use_ids_def)
  show "list_all is_tool (out @ missing_results ?uses seen)"
    using out missing_results_spec(1) by simp
  have miss: "?miss = filter (\<lambda>i. i \<notin> set ids) (use_ids m)"
    by (simp add: use_ids_def ids(3) conj_commute)
  have "distinct (ids @ ?miss)" and "set (ids @ ?miss) = set (use_ids m)"
    unfolding miss using assms(1) ids by auto
  then have "mset (ids @ ?miss) = mset (use_ids m)"
    using assms(1) set_eq_iff_mset_eq_distinct by blast
  then have "image_mset Some (mset (ids @ ?miss)) = image_mset Some (mset (use_ids m))" by simp
  then show "mset (map result_id (out @ missing_results ?uses seen)) = mset (map Some (use_ids m))"
    by (simp add: out(2) missing_results_spec(2))
qed

lemma Repair_not_tool_head:
  "RepairToolUseAdjacency ms = [] \<or> \<not> is_tool (hd (RepairToolUseAdjacency ms))"
  by (induction ms rule: RepairToolUseAdjacency.induct) (auto simp: Let_def)

lemma Repair_no_tool_prefix [simp]:
  "takeWhile is_tool (RepairToolUseAdjacency ms) = []"
  "dropWhile is_tool (RepairToolUseAdjacency ms) = RepairToolUseAdjacency ms"
  using Repair_not_tool_head [of ms] by (auto intro: takeWhile_none dropWhile_none)

text \<open>
  Repair established: the output is adjacent when no assistant message repeats a use id.
\<close>

lemma Repair_adjacent_aux: "distinct_uses ms \<Longrightarrow> tool_adjacent (RepairToolUseAdjacency ms)"
proof (induction ms rule: RepairToolUseAdjacency.induct)
  case 1
  then show ?case by simp
next
  case (2 m ms)
  let ?rep = "RepairToolUseAdjacency"
  let ?res = "take_results (set (filter (\<lambda>i. i \<noteq> []) (map use_id (assistantToolUses m)))) {} ms"
  let ?blk = "fst ?res @ missing_results (assistantToolUses m) (fst (snd ?res))"
  from "2.prems" have d: "distinct (use_ids m)" "distinct_uses ms" by (simp_all add: distinct_uses_def)
  then have d': "distinct_uses (dropWhile is_tool ms)"
    by (auto simp: distinct_uses_def list_all_iff dest: set_dropWhileD)
  consider "is_tool m" | "\<not> is_tool m" "assistantToolUses m = []" | "\<not> is_tool m" "assistantToolUses m \<noteq> []"
    by blast
  then show ?case
  proof cases
    case 1
    with 2 d show ?thesis by simp
  next
    case nouse: 2
    with "2.IH"(2) d have "tool_adjacent (?rep ms)" by simp
    with nouse show ?thesis by (simp add: use_ids_def)
  next
    case 3
    have rep: "?rep (m # ms) = CloneMessage m # ?blk @ ?rep (dropWhile is_tool ms)"
      using 3 by (simp add: Let_def take_results_rest)
    have ih: "tool_adjacent (?rep (dropWhile is_tool ms))"
      using "2.IH"(3) [OF 3(1) refl 3(2) refl refl] d' by (simp add: take_results_rest)
    note blk = repaired_block [OF d(1), of ms "fst ?res" "fst (snd ?res)" "snd (snd ?res)"]
    have all: "list_all is_tool ?blk" and ids: "mset (map result_id ?blk) = mset (map Some (use_ids m))"
      using blk by simp_all
    have tw: "takeWhile is_tool (?blk @ ?rep (dropWhile is_tool ms)) = ?blk"
      using takeWhile_all [OF all] by simp
    have dw: "dropWhile is_tool (?blk @ ?rep (dropWhile is_tool ms)) = ?rep (dropWhile is_tool ms)"
      using dropWhile_all [OF all] by simp
    show ?thesis
      unfolding rep tool_adjacent.simps tw dw using 3 ids ih by simp
  qed
qed

text \<open>On an adjacent transcript nothing is added, dropped or reordered.\<close>

lemma take_results_all:
  "list_all is_tool blk \<Longrightarrow> map result_id blk = map Some ids \<Longrightarrow> distinct ids \<Longrightarrow> set ids \<subseteq> known \<Longrightarrow>
   set ids \<inter> seen = {} \<Longrightarrow> rest = [] \<or> \<not> is_tool (hd rest) \<Longrightarrow>
   take_results known seen (blk @ rest) = (CloneMessages blk, seen \<union> set ids, rest)"
proof (induction blk arbitrary: ids seen)
  case Nil
  then show ?case by (cases rest) auto
next
  case (Cons m blk)
  then obtain i ids' where ids: "ids = i # ids'" by (cases ids) auto
  with Cons.prems obtain r where r: "msg_tool_result m = Some r" "tr_use_id r = i"
    by (auto simp: result_id_def)
  from Cons.IH [of ids' "insert i seen"] Cons.prems ids r show ?case by auto
qed

lemma Repair_adjacent_id_aux:
  "tool_adjacent ms \<Longrightarrow> distinct_uses ms \<Longrightarrow> RepairToolUseAdjacency ms = CloneMessages ms"
proof (induction ms rule: tool_adjacent.induct)
  case 1
  then show ?case by simp
next
  case (2 m ms)
  let ?blk = "takeWhile is_tool ms" and ?rest = "dropWhile is_tool ms"
  from "2.prems" have m: "\<not> is_tool m" and ids: "mset (map result_id ?blk) = mset (map Some (use_ids m))"
    and adj: "tool_adjacent ?rest" and d: "distinct (use_ids m)"
    by (simp_all add: distinct_uses_def)
  have "distinct_uses ?rest"
    using "2.prems"(2) by (auto simp: distinct_uses_def list_all_iff dest: set_dropWhileD)
  with "2.IH" "2.prems" have ih: "RepairToolUseAdjacency ?rest = CloneMessages ?rest" by simp
  have split: "ms = ?blk @ ?rest" by simp
  have rest: "?rest = [] \<or> \<not> is_tool (hd ?rest)" using hd_dropWhile by blast
  show ?case
  proof (cases "assistantToolUses m = []")
    case True
    then have "?blk = []" using ids by (simp add: use_ids_def)
    then have "?rest = ms" by (cases ms) (auto split: if_splits)
    with True m ih show ?thesis by simp
  next
    case False
    obtain js where js: "map result_id ?blk = map Some js"
    proof -
      have "set (map result_id ?blk) \<subseteq> range Some"
        using mset_eq_setD [OF ids] by auto
      then have "map result_id ?blk = map Some (map (the \<circ> result_id) ?blk)"
        by (induction ?blk) auto
      then show thesis by (rule that)
    qed
    have mis: "mset js = mset (use_ids m)"
    proof -
      have "image_mset Some (mset js) = image_mset Some (mset (use_ids m))"
        using ids js by (metis mset_map)
      then have "image_mset the (image_mset Some (mset js)) = image_mset the (image_mset Some (mset (use_ids m)))"
        by simp
      then show ?thesis by (simp add: multiset.map_comp comp_def)
    qed
    then have dis: "distinct js" "set js = set (use_ids m)"
      using d mset_eq_imp_distinct_iff mset_eq_setD by blast+
    let ?known = "set (filter (\<lambda>i. i \<noteq> []) (map use_id (assistantToolUses m)))"
    have known: "set js \<subseteq> ?known" using dis by (auto simp: use_ids_def)
    have all: "list_all is_tool ?blk" by (auto simp: list_all_iff dest: set_takeWhileD)
    have tr: "take_results ?known {} ms = (CloneMessages ?blk, set js, ?rest)"
      using take_results_all [OF all js dis(1) known _ rest, of "{}"] by simp
    have "missing_results (assistantToolUses m) (set js) = []"
      using dis by (auto simp: missing_results_def use_ids_def filter_empty_conv)
    then have "RepairToolUseAdjacency (m # ms) = CloneMessage m # CloneMessages ?blk @ CloneMessages ?rest"
      using m False tr ih by (simp add: Let_def)
    then show ?thesis
      by (metis CloneMessages_Cons CloneMessages_append split)
  qed
qed

lemma take_results_sources:
  "x \<in> set (fst (take_results known seen ms)) \<Longrightarrow> is_tool x \<and> (\<exists>m \<in> set ms. is_tool m \<and> x = CloneMessage m)"
  by (induction known seen ms rule: take_results.induct)
    (auto split: option.splits prod.splits if_splits)

lemma take_results_filter:
  "filter (\<lambda>m. \<not> is_tool m) (fst (take_results known seen ms)) = []"
  using take_results_sources by (auto simp: filter_empty_conv)

lemma missing_results_filter: "filter (\<lambda>m. \<not> is_tool m) (missing_results uses seen) = []"
  by (auto simp: filter_empty_conv missing_results_def)

lemma filter_dropWhile_tool: "filter (\<lambda>m. \<not> is_tool m) (dropWhile is_tool ms) = filter (\<lambda>m. \<not> is_tool m) ms"
  by (induction ms) auto

lemma Repair_filter:
  "filter (\<lambda>m. \<not> is_tool m) (RepairToolUseAdjacency ms) = CloneMessages (filter (\<lambda>m. \<not> is_tool m) ms)"
  by (induction ms rule: RepairToolUseAdjacency.induct)
    (auto simp: Let_def take_results_filter missing_results_filter take_results_rest filter_dropWhile_tool)

lemma distinct_uses_Repair: "distinct_uses ms \<Longrightarrow> distinct_uses (RepairToolUseAdjacency ms)"
proof -
  have iff: "distinct_uses ms \<longleftrightarrow> list_all (\<lambda>m. distinct (use_ids m)) (filter (\<lambda>m. \<not> is_tool m) ms)" for ms
    by (auto simp: distinct_uses_def list_all_iff use_ids_def)
  assume "distinct_uses ms"
  then show ?thesis
    unfolding iff [of ms] iff [of "RepairToolUseAdjacency ms"] Repair_filter
    by (auto simp: list_all_iff CloneMessages_def)
qed

lemma interrupted_clone [simp]: "CloneMessage (interrupted_message u) = interrupted_message u"
  by (simp add: interrupted_message_def tool_message_def CloneMessage_alt CloneContentBlocks_def)

lemma take_results_clone:
  "CloneMessages (fst (take_results known seen ms)) = fst (take_results known seen ms)"
  by (induction known seen ms rule: take_results.induct) (auto split: option.splits prod.splits if_splits)

lemma missing_results_clone: "CloneMessages (missing_results uses seen) = missing_results uses seen"
  by (simp add: missing_results_def CloneMessages_def comp_def)

lemma Repair_clone_fixed: "CloneMessages (RepairToolUseAdjacency ms) = RepairToolUseAdjacency ms"
  by (induction ms rule: RepairToolUseAdjacency.induct)
    (auto simp: Let_def take_results_clone missing_results_clone)

lemma Repair_tool_sources:
  "x \<in> set (RepairToolUseAdjacency ms) \<Longrightarrow> is_tool x \<Longrightarrow>
     (\<exists>m. m \<in> set ms \<and> is_tool m \<and> x = CloneMessage m)
     \<or> (\<exists>m u. m \<in> set ms \<and> u \<in> set (assistantToolUses m) \<and> x = interrupted_message u)"
proof (induction ms rule: RepairToolUseAdjacency.induct)
  case (2 m ms)
  let ?res = "take_results (set (filter (\<lambda>i. i \<noteq> []) (map use_id (assistantToolUses m)))) {} ms"
  have sub: "set (snd (snd ?res)) \<subseteq> set ms"
    by (auto simp: take_results_rest dest: set_dropWhileD)
  consider "is_tool m" | "\<not> is_tool m" "assistantToolUses m = []" | "\<not> is_tool m" "assistantToolUses m \<noteq> []"
    by blast
  then show ?case
  proof cases
    case 3
    with "2.prems" have "x \<in> set (fst ?res) \<or> x \<in> set (missing_results (assistantToolUses m) (fst (snd ?res)))
        \<or> x \<in> set (RepairToolUseAdjacency (snd (snd ?res)))"
      by (auto simp: Let_def)
    then show ?thesis
      using take_results_sources [of x _ "{}" ms] "2.IH"(3) [OF 3(1) refl 3(2) refl refl _ "2.prems"(2)] sub
      by (fastforce simp: missing_results_def)
  qed (use 2 in \<open>fastforce+\<close>)
qed simp

section \<open>Properties\<close>



text \<open>
  Repair is idempotent, and on a transcript that is adjacent already it is a plain deep
  copy: nothing is added, dropped or reordered.
\<close>

theorem repair_idempotent:
  assumes "distinct_uses ms"
  shows "RepairToolUseAdjacency (RepairToolUseAdjacency ms) = RepairToolUseAdjacency ms
    \<and> (tool_adjacent ms \<longrightarrow> RepairToolUseAdjacency ms = CloneMessages ms)"
  using Repair_adjacent_id_aux [OF Repair_adjacent_aux [OF assms] distinct_uses_Repair [OF assms]]
    Repair_adjacent_id_aux [OF _ assms]
  by (simp add: Repair_clone_fixed)

theorem repair_idempotent_witness:
  "RepairToolUseAdjacency (RepairToolUseAdjacency [user_message ''hi''])
     = RepairToolUseAdjacency [user_message ''hi'']
   \<and> RepairToolUseAdjacency [user_message ''hi''] = CloneMessages [user_message ''hi'']"
proof -
  have h: "distinct_uses [user_message ''hi'']"
    by (simp add: distinct_uses_def use_ids_def assistantToolUses_def user_message_def content_message_def)
  have a: "tool_adjacent [user_message ''hi'']"
    by (simp add: use_ids_def assistantToolUses_def user_message_def content_message_def is_tool_def)
  show ?thesis using a repair_idempotent [OF h] by blast
qed

text \<open>
  C29. Repair never touches the conversation itself: the messages that are not tool messages
  come out in order, deep-copied; and every tool message of the output is either a copy of a
  tool message of the input or the synthetic interruption error for a recorded tool use.
\<close>

theorem repair_preserves_conversation:
  "filter (\<lambda>m. \<not> is_tool m) (RepairToolUseAdjacency ms) = CloneMessages (filter (\<lambda>m. \<not> is_tool m) ms)
   \<and> (\<forall>x. x \<in> set (RepairToolUseAdjacency ms) \<and> is_tool x \<longrightarrow>
        (\<exists>m. m \<in> set ms \<and> is_tool m \<and> x = CloneMessage m)
        \<or> (\<exists>m u. m \<in> set ms \<and> u \<in> set (assistantToolUses m) \<and> x = interrupted_message u))"
  using Repair_filter Repair_tool_sources by blast

theorem repair_preserves_conversation_witness:
  "interrupted_message \<lparr>use_id = ''b'', use_name = ''ls'', use_input = empty_object\<rparr>
     \<in> set (RepairToolUseAdjacency
          [content_message RoleAssistant [use_block \<lparr>use_id = ''b'', use_name = ''ls'', use_input = empty_object\<rparr>]])
   \<and> (\<exists>m u. m \<in> set [content_message RoleAssistant [use_block \<lparr>use_id = ''b'', use_name = ''ls'', use_input = empty_object\<rparr>]]
        \<and> u \<in> set (assistantToolUses m)
        \<and> interrupted_message \<lparr>use_id = ''b'', use_name = ''ls'', use_input = empty_object\<rparr> = interrupted_message u)"
proof -
  let ?u = "\<lparr>use_id = ''b'', use_name = ''ls'', use_input = empty_object\<rparr>"
  let ?ms = "[content_message RoleAssistant [use_block ?u]]"
  have uses: "assistantToolUses (content_message RoleAssistant [use_block ?u]) = [?u]"
    by (simp add: assistantToolUses_def content_message_def use_block_def NormalizeToolUse_def
        NormalizeToolInput_def trim_empty_object)
  have nt: "\<not> is_tool (content_message RoleAssistant [use_block ?u])"
    by (simp add: is_tool_def content_message_def)
  have x: "interrupted_message ?u \<in> set (RepairToolUseAdjacency ?ms)"
    using nt by (simp add: uses missing_results_def)
  have "\<not> (\<exists>m. m \<in> set ?ms \<and> is_tool m \<and> interrupted_message ?u = CloneMessage m)"
    using nt by simp
  with x repair_preserves_conversation [of ?ms] show ?thesis
    by (metis (no_types, lifting) interrupted_message_simps(1))
qed

end
