(* ===== verification/Tenant.thy ===== *)
theory Tenant
  imports Model_Types
begin

text \<open>
  \<open>tenant/tenant.go\<close>: tenant scopes, the admission request sent at each runtime boundary and
  the check that wraps a denial. The error values of the whole runtime are defined here,
  because a denial carries the request that caused it.
\<close>

section \<open>Scopes and requests\<close>

record tenant_scope =
  sc_id :: string
  sc_subject :: string
  sc_attributes :: "(string, string) gomap"

definition zero_scope :: tenant_scope where
  "zero_scope = \<lparr>sc_id = [], sc_subject = [], sc_attributes = []\<rparr>"

definition scope_is_zero :: "tenant_scope \<Rightarrow> bool" where
  "scope_is_zero s \<longleftrightarrow> sc_id s = [] \<and> sc_subject s = [] \<and> sc_attributes s = []"

definition scope_clone :: "tenant_scope \<Rightarrow> tenant_scope" where
  "scope_clone s = s\<lparr>sc_attributes := put_all [] (sc_attributes s)\<rparr>"

type_synonym boundary = string

abbreviation BoundarySessionStart :: boundary where "BoundarySessionStart \<equiv> ''session_start''"
abbreviation BoundaryModelRequest :: boundary where "BoundaryModelRequest \<equiv> ''model_request''"
abbreviation BoundaryToolUse :: boundary where "BoundaryToolUse \<equiv> ''tool_use''"

record tenant_request =
  tq_boundary :: boundary
  tq_scope :: tenant_scope
  tq_session :: string
  tq_parent :: string
  tq_use_id :: string
  tq_tool :: string
  tq_read_only :: bool
  tq_destructive :: bool
  tq_concurrency_safe :: bool

section \<open>Errors\<close>

text \<open>
  Go errors by how they are inspected: plain texts, \<open>fmt.Errorf("prefix%w")\<close>, a tenant denial
  (found by \<open>errors.As\<close>), the sentinels found by \<open>errors.Is\<close> (the context window's and the two of an ended
  context), a join.
\<close>

datatype err =
    EText string
  | EWrap string err
  | EDenied tenant_request "err option"
  | EContextWindow
  | ECanceled
  | EDeadlineExceeded
  | EJoin "err list"

fun err_msg :: "err \<Rightarrow> string" where
  "err_msg (EText s) = s"
| "err_msg (EWrap p e) = p @ err_msg e"
| "err_msg (EDenied r None) = ''tenant denied''"
| "err_msg (EDenied r (Some e)) = err_msg e"
| "err_msg EContextWindow = ''model context window exceeded''"
| "err_msg ECanceled = ''context canceled''"
| "err_msg EDeadlineExceeded = ''context deadline exceeded''"
| "err_msg (EJoin es) = join [CHR 10] (map err_msg es)"

text \<open>\<open>errors.As(err, **tenant.DeniedError)\<close>: the first denial of the error tree.\<close>

fun tenantDenied :: "err \<Rightarrow> (tenant_request \<times> err option) option" where
  "tenantDenied (EText s) = None"
| "tenantDenied (EWrap p e) = tenantDenied e"
| "tenantDenied (EDenied r i) = Some (r, i)"
| "tenantDenied EContextWindow = None"
| "tenantDenied ECanceled = None"
| "tenantDenied EDeadlineExceeded = None"
| "tenantDenied (EJoin es) =
     (case dropWhile (\<lambda>x. x = None) (map tenantDenied es) of [] \<Rightarrow> None | x # _ \<Rightarrow> x)"

text \<open>\<open>errors.Is(err, ErrContextWindowExceeded)\<close>.\<close>

fun IsContextWindowExceeded :: "err \<Rightarrow> bool" where
  "IsContextWindowExceeded (EText s) = False"
| "IsContextWindowExceeded (EWrap p e) = IsContextWindowExceeded e"
| "IsContextWindowExceeded (EDenied r None) = False"
| "IsContextWindowExceeded (EDenied r (Some e)) = IsContextWindowExceeded e"
| "IsContextWindowExceeded EContextWindow = True"
| "IsContextWindowExceeded ECanceled = False"
| "IsContextWindowExceeded EDeadlineExceeded = False"
| "IsContextWindowExceeded (EJoin es) = list_ex IsContextWindowExceeded es"

text \<open>\<open>errors.Is(err, context.Canceled) || errors.Is(err, context.DeadlineExceeded)\<close>.\<close>

fun is_context_err :: "err \<Rightarrow> bool" where
  "is_context_err (EText s) = False"
| "is_context_err (EWrap p e) = is_context_err e"
| "is_context_err (EDenied r None) = False"
| "is_context_err (EDenied r (Some e)) = is_context_err e"
| "is_context_err EContextWindow = False"
| "is_context_err ECanceled = True"
| "is_context_err EDeadlineExceeded = True"
| "is_context_err (EJoin es) = list_ex is_context_err es"

section \<open>The check\<close>

type_synonym 'w tenant_validator = "'w \<Rightarrow> tenant_request \<Rightarrow> 'w \<times> err option"

text \<open>The validator is host code acting on the world \<open>'w\<close>; \<open>None\<close> is the nil validator.\<close>

definition tenant_check ::
  "'w tenant_validator option \<Rightarrow> 'w \<Rightarrow> tenant_request \<Rightarrow> 'w \<times> err option" where
  "tenant_check v w req =
     (case v of
        None \<Rightarrow> (w, None)
      | Some f \<Rightarrow>
          (let req' = req\<lparr>tq_scope := scope_clone (tq_scope req)\<rparr>
           in case f w req' of
                (w', None) \<Rightarrow> (w', None)
              | (w', Some e) \<Rightarrow> (w', Some (EDenied req' (Some e)))))"

lemma tenant_check_denied:
  "snd (tenant_check v w req) = Some e \<Longrightarrow>
     \<exists>i. e = EDenied (req\<lparr>tq_scope := scope_clone (tq_scope req)\<rparr>) (Some i)"
  by (auto simp: tenant_check_def Let_def split: option.splits prod.splits)

lemma scope_clone_id: "wf_map (sc_attributes s) \<Longrightarrow> scope_clone s = s"
  using put_all_distinct [of "[]" "sc_attributes s"] by (simp add: scope_clone_def)

end
