(* ===== verification/Context_Window.thy ===== *)
theory Context_Window
  imports Transcript_Repair Tenant
begin

text \<open>
  Package \<open>contextwindow\<close>: the policies that choose what part of a transcript is sent to the
  model. \<open>RecentMessages\<close> and \<open>TokenBudget\<close> keep a suffix, \<open>SummarizingBudget\<close> replaces the
  prefix by a generated summary, \<open>PreserveImportant\<close> wraps another policy and puts back dropped
  tool results that matter. The summarizer is host code acting on the world \<open>'w\<close>, the hash
  function (\<open>sha256\<close> in hexadecimal) is an argument, and estimators are functions on messages.
\<close>

section \<open>Policies and their results\<close>

record compaction_record =
  cr_policy :: string
  cr_reason :: string
  cr_original :: int
  cr_sent :: int
  cr_summarized :: int
  cr_retained :: int
  cr_replaced :: int
  cr_hash :: string
  cr_preview :: string

record policy_result =
  pr_messages :: "message list"
  pr_compaction :: "compaction_record option"

text \<open>
  A value of the interface \<open>Policy\<close>: its method \<open>Apply\<close> and, when the dynamic type also implements
  \<open>PolicyWithResult\<close>, its method \<open>ApplyWithResult\<close>.
\<close>

record 'w policy =
  pol_apply :: "'w \<Rightarrow> message list \<Rightarrow> 'w \<times> (err + message list)"
  pol_rich :: "('w \<Rightarrow> message list \<Rightarrow> 'w \<times> (err + policy_result)) option"

type_synonym estimator = "message \<Rightarrow> int"

abbreviation MetadataContextSummary :: string where "MetadataContextSummary \<equiv> ''context_summary''"
abbreviation MetadataContextSummaryHash :: string where "MetadataContextSummaryHash \<equiv> ''context_summary_hash''"
abbreviation MetadataContextPolicy :: string where "MetadataContextPolicy \<equiv> ''context_policy''"

definition negative_estimate :: err where
  "negative_estimate = EText ''contextwindow: estimator returned negative token count''"

section \<open>Estimating and cutting\<close>

definition EstimateByRunes :: estimator where
  "EstimateByRunes m =
     int (sum_list (map (\<lambda>b. rune_count (cb_text b)
            + (case cb_tool_use b of None \<Rightarrow> 0 | Some u \<Rightarrow> rune_count (use_name u) + length (use_input u))
            + (case cb_artifact b of None \<Rightarrow> 0
                | Some a \<Rightarrow> rune_count (pa_provider a) + rune_count (pa_type a) + rune_count (pa_id a)
                    + length (pa_data a))) (msg_content m))
          + (case msg_tool_result m of None \<Rightarrow> 0 | Some r \<Rightarrow> rune_count (tr_name r) + rune_count (tr_content r)))"

definition IsSummaryMessage :: "message \<Rightarrow> bool" where
  "IsSummaryMessage m = metadata_bool (msg_metadata m) MetadataContextSummary"

text \<open>\<open>dropLeadingToolResults\<close> applied to the slice it is about to return, with its start index.\<close>

definition dropLeadingToolResults :: "message list \<Rightarrow> nat \<Rightarrow> nat" where
  "dropLeadingToolResults ms start = start + length (takeWhile is_tool (drop start ms))"

text \<open>The backward loop of \<open>newestSuffixStart\<close>: \<open>start\<close> and the running total \<open>tot\<close>.\<close>

fun suffix_loop :: "estimator \<Rightarrow> int \<Rightarrow> message list \<Rightarrow> nat \<Rightarrow> int \<Rightarrow> err + nat" where
  "suffix_loop est mx ms 0 tot = Inr 0"
| "suffix_loop est mx ms (Suc n) tot =
     (let nxt = est (ms ! n)
      in if nxt < 0 then Inl negative_estimate
         else if 0 < tot \<and> mx < i64 (tot + nxt) then Inr (Suc n)
         else let tot' = i64 (tot + nxt)
              in if mx \<le> tot' then Inr n else suffix_loop est mx ms n tot')"

definition newestSuffixStart :: "message list \<Rightarrow> int \<Rightarrow> estimator \<Rightarrow> err + nat" where
  "newestSuffixStart ms mx est =
     (case suffix_loop est mx ms (length ms) 0 of
        Inl e \<Rightarrow> Inl e | Inr start \<Rightarrow> Inr (dropLeadingToolResults ms start))"

fun estimate_loop :: "estimator \<Rightarrow> message list \<Rightarrow> int \<Rightarrow> err + int" where
  "estimate_loop est [] tot = Inr tot"
| "estimate_loop est (m # ms) tot =
     (if est m < 0 then Inl negative_estimate else estimate_loop est ms (i64 (tot + est m)))"

definition estimateMessages :: "message list \<Rightarrow> estimator \<Rightarrow> err + int" where
  "estimateMessages ms est = estimate_loop est ms 0"

section \<open>The suffix policies\<close>

definition RecentMessages_Apply :: "int \<Rightarrow> message list \<Rightarrow> err + message list" where
  "RecentMessages_Apply mx ms =
     (if mx \<le> 0 then Inl (EText ''contextwindow: MaxMessages must be positive'')
      else if int (length ms) \<le> mx then Inr (CloneMessages ms)
      else Inr (CloneMessages (drop (dropLeadingToolResults ms (length ms - nat mx)) ms)))"

definition the_estimate :: "estimator option \<Rightarrow> estimator" where
  "the_estimate e = (case e of None \<Rightarrow> EstimateByRunes | Some f \<Rightarrow> f)"

definition TokenBudget_Apply :: "int \<Rightarrow> estimator option \<Rightarrow> message list \<Rightarrow> err + message list" where
  "TokenBudget_Apply mx est ms =
     (if mx \<le> 0 then Inl (EText ''contextwindow: MaxTokens must be positive'')
      else case newestSuffixStart ms mx (the_estimate est) of
             Inl e \<Rightarrow> Inl e | Inr start \<Rightarrow> Inr (CloneMessages (drop start ms)))"

section \<open>Retention of important messages\<close>

definition importantMessage :: "message \<Rightarrow> bool" where
  "importantMessage m =
     (case msg_tool_result m of
        None \<Rightarrow> False
      | Some r \<Rightarrow> tr_is_error r
          \<or> metadata_string (tr_metadata r) ''context_retention'' = ''important''
          \<or> metadata_bool (tr_metadata r) ''loaded_skill''
          \<or> metadata_string (tr_metadata r) ''stored_result_id'' \<noteq> []
          \<or> metadata_string (tr_metadata r) ''stored_result_uri'' \<noteq> [])"

definition messageHasToolUse :: "message \<Rightarrow> string \<Rightarrow> bool" where
  "messageHasToolUse m i =
     list_ex (\<lambda>b. case cb_tool_use b of None \<Rightarrow> False | Some u \<Rightarrow> use_id u = i) (msg_content m)"

text \<open>The backward search from index \<open>n - 1\<close>; \<open>None\<close> is the result \<open>-1\<close>.\<close>

fun matching_loop :: "message list \<Rightarrow> nat \<Rightarrow> string \<Rightarrow> nat option" where
  "matching_loop ms 0 i = None"
| "matching_loop ms (Suc n) i =
     (if msg_role (ms ! n) = RoleUser then None
      else if msg_role (ms ! n) \<noteq> RoleAssistant then matching_loop ms n i
      else if messageHasToolUse (ms ! n) i then Some n
      else matching_loop ms n i)"

definition matchingToolUseMessage :: "message list \<Rightarrow> nat \<Rightarrow> string \<Rightarrow> nat option" where
  "matchingToolUseMessage ms before i = (if i = [] then None else matching_loop ms before i)"

text \<open>The groups \<open>(start, end)\<close> of all important messages, in transcript order.\<close>

definition group_of :: "message list \<Rightarrow> nat \<Rightarrow> nat \<times> nat" where
  "group_of ms i =
     (case msg_tool_result (ms ! i) of
        None \<Rightarrow> (i, Suc i)
      | Some r \<Rightarrow> (case matchingToolUseMessage ms i (tr_use_id r) of
                    None \<Rightarrow> (i, Suc i) | Some a \<Rightarrow> (a, Suc i)))"

definition all_groups :: "message list \<Rightarrow> (nat \<times> nat) list" where
  "all_groups ms = map (group_of ms) (filter (\<lambda>i. importantMessage (ms ! i)) [0..<length ms])"

text \<open>The selection loop, over the groups from the newest, with the running message count.\<close>

fun select_groups :: "int \<Rightarrow> nat \<Rightarrow> (nat \<times> nat) list \<Rightarrow> (nat \<times> nat) list" where
  "select_groups mx cnt [] = []"
| "select_groups mx cnt (g # gs) =
     (let size = snd g - fst g
      in if 0 < mx \<and> 0 < cnt \<and> mx < int (cnt + size) then []
         else if 0 < mx \<and> mx \<le> int (cnt + size) then [g]
         else g # select_groups mx (cnt + size) gs)"

definition importantGroups :: "message list \<Rightarrow> int \<Rightarrow> message list list" where
  "importantGroups ms mx =
     map (\<lambda>(s, e). CloneMessages (drop s (take e ms))) (rev (select_groups mx 0 (rev (all_groups ms))))"

definition messageSignature :: "message \<Rightarrow> string" where
  "messageSignature m =
     (if msg_id m \<noteq> [] then ''id:'' @ msg_id m
      else case msg_tool_result m of
        Some r \<Rightarrow> ''tool:'' @ tr_use_id r @ '':'' @ tr_name r
      | None \<Rightarrow>
          (let ids = concat (map (\<lambda>b. case cb_tool_use b of None \<Rightarrow> []
                                      | Some u \<Rightarrow> [use_id u @ '':'' @ use_name u]) (msg_content m))
           in if ids \<noteq> [] then ''assistant_tool_use:'' @ join '','' ids
              else msg_role m @ '':'' @ PlainText m))"

definition messageGroupContained :: "message list \<Rightarrow> message list \<Rightarrow> bool" where
  "messageGroupContained grp ms =
     (if grp = [] then True
      else if length ms < length grp then False
      else list_ex (\<lambda>start. map messageSignature grp
                      = map messageSignature (take (length grp) (drop start ms)))
             [0..<Suc (length ms - length grp)])"

definition PreserveImportantMessages :: "message list \<Rightarrow> message list \<Rightarrow> int \<Rightarrow> message list" where
  "PreserveImportantMessages original selected mx0 =
     (if original = [] then CloneMessages selected
      else let mx = (if mx0 = 0 then 8 else mx0)
           in if mx < 0 then CloneMessages selected
              else let groups = importantGroups original mx
                   in if groups = [] then CloneMessages selected
                      else concat (map CloneMessages
                             (filter (\<lambda>g. \<not> messageGroupContained g selected) groups))
                           @ CloneMessages selected)"

definition PreserveImportant_ApplyWithResult ::
  "'w policy option \<Rightarrow> int \<Rightarrow> 'w \<Rightarrow> message list \<Rightarrow> 'w \<times> (err + policy_result)" where
  "PreserveImportant_ApplyWithResult pol mx w ms =
     (let (w', inner) =
            (case pol of
               None \<Rightarrow> (w, Inr (CloneMessages ms, None))
             | Some p \<Rightarrow>
                 (case pol_rich p of
                    Some rich \<Rightarrow>
                      (case rich w ms of
                         (w', Inl e) \<Rightarrow> (w', Inl e)
                       | (w', Inr r) \<Rightarrow> (w', Inr (pr_messages r, pr_compaction r)))
                  | None \<Rightarrow>
                      (case pol_apply p w ms of
                         (w', Inl e) \<Rightarrow> (w', Inl e)
                       | (w', Inr sel) \<Rightarrow> (w', Inr (sel, None)))))
      in case inner of
           Inl e \<Rightarrow> (w', Inl e)
         | Inr (selected, rec) \<Rightarrow>
             (let out = PreserveImportantMessages ms selected mx
              in (w', Inr \<lparr>pr_messages = out,
                    pr_compaction = map_option
                      (\<lambda>r. r\<lparr>cr_sent := int (length out), cr_retained := int (length out) - int (length selected)\<rparr>) rec\<rparr>)))"

definition map_result :: "'w \<times> (err + policy_result) \<Rightarrow> 'w \<times> (err + message list)" where
  "map_result x = (fst x, map_sum id pr_messages (snd x))"

definition PreserveImportant_Apply ::
  "'w policy option \<Rightarrow> int \<Rightarrow> 'w \<Rightarrow> message list \<Rightarrow> 'w \<times> (err + message list)" where
  "PreserveImportant_Apply pol mx w ms = map_result (PreserveImportant_ApplyWithResult pol mx w ms)"

section \<open>The summarizing policy\<close>

type_synonym 'w summarizer = "'w \<Rightarrow> message list \<Rightarrow> 'w \<times> (err + string)"

record 'w summarizing_budget =
  sb_max :: int
  sb_trigger :: int
  sb_max_summary :: int
  sb_estimate :: "estimator option"
  sb_summarizer :: "'w summarizer option"
  sb_role :: role
  sb_prefix :: string

definition triggerTokens :: "'w summarizing_budget \<Rightarrow> int" where
  "triggerTokens p = (if sb_max p < sb_trigger p then sb_trigger p else sb_max p)"

definition summaryBudget :: "'w summarizing_budget \<Rightarrow> int" where
  "summaryBudget p =
     (if 0 < sb_max_summary p then
        (if sb_max p \<le> 1 then 1
         else if sb_max p \<le> sb_max_summary p \<and> 1 < sb_max p then sb_max p - 1
         else sb_max_summary p)
      else (let b = sb_max p div 4 in if b < 1 then 1 else b))"

definition summaryRole :: "'w summarizing_budget \<Rightarrow> role" where
  "summaryRole p = (if sb_role p \<noteq> [] then sb_role p else RoleUser)"

definition countSummaryMessages :: "message list \<Rightarrow> nat" where
  "countSummaryMessages ms = length (filter IsSummaryMessage ms)"

definition splitSummaryMessages :: "message list \<Rightarrow> message list \<times> message list" where
  "splitSummaryMessages ms =
     (CloneMessages (filter (\<lambda>m. \<not> IsSummaryMessage m) ms), CloneMessages (filter IsSummaryMessage ms))"

text \<open>\<open>candidate\<close> of the binary search: the message with its first text cut to \<open>n\<close> runes.\<close>

definition cut_text :: "message \<Rightarrow> nat \<Rightarrow> message" where
  "cut_text m n =
     m\<lparr>msg_content := (case CloneContentBlocks (msg_content m) of
          [] \<Rightarrow> []
        | b # bs \<Rightarrow> b\<lparr>cb_text := string_of_runes (take n (utf8_chunks (cb_text (hd (msg_content m)))))\<rparr> # bs)\<rparr>"

function truncate_search :: "message \<Rightarrow> int \<Rightarrow> estimator \<Rightarrow> int \<Rightarrow> int \<Rightarrow> int \<Rightarrow> err + int" where
  "truncate_search m mx est low high best =
     (if high < low then Inr best
      else let mid = low + (high - low) div 2; cnt = est (cut_text m (nat mid))
           in if cnt < 0 then Inl negative_estimate
              else if cnt \<le> mx then truncate_search m mx est (mid + 1) high mid
              else truncate_search m mx est low (mid - 1) best)"
  by pat_completeness auto
termination
  by (relation "measure (\<lambda>(m, mx, est, low, high, best). nat (high + 1 - low))") auto

declare truncate_search.simps [simp del]

definition truncateTextMessage :: "message \<Rightarrow> int \<Rightarrow> estimator \<Rightarrow> err + message" where
  "truncateTextMessage m mx est =
     (if msg_content m = [] then Inr m
      else case truncate_search m mx est 0 (int (rune_count (cb_text (hd (msg_content m))))) (-1) of
             Inl e \<Rightarrow> Inl e
           | Inr best \<Rightarrow>
               (if best < 0 then Inl (EText ''contextwindow: summary cannot fit budget'')
                else if trim_space (cb_text (hd (msg_content (cut_text m (nat best))))) = []
                then Inl (EText ''contextwindow: summary cannot fit budget'')
                else Inr (cut_text m (nat best))))"

definition previewText :: "string \<Rightarrow> int \<Rightarrow> string" where
  "previewText text mx =
     (if mx \<le> 0 then []
      else let t = trim_space text; rs = utf8_chunks t
           in if int (length rs) \<le> mx then t else string_of_runes (take (nat mx) rs))"

definition summary_draft :: "(string \<Rightarrow> string) \<Rightarrow> 'w summarizing_budget \<Rightarrow> string \<Rightarrow> message" where
  "summary_draft hash p summary =
     (let text = (if sb_prefix p = [] then ''Previous conversation summary:'' @ [CHR 10] else sb_prefix p) @ summary
      in (content_message (summaryRole p) [text_block text])\<lparr>msg_metadata :=
           [(MetadataContextSummary, VBool True), (MetadataContextSummaryHash, VString (hash text)),
            (MetadataContextPolicy, VString ''SummarizingBudget'')]\<rparr>)"

definition summaryMessage ::
  "(string \<Rightarrow> string) \<Rightarrow> 'w summarizing_budget \<Rightarrow> string \<Rightarrow> int \<Rightarrow> estimator \<Rightarrow> err + message" where
  "summaryMessage hash p summary0 mx est =
     (let summary = trim_space summary0
      in if summary = [] then Inl (EText ''contextwindow: summarizer returned empty summary'')
         else let msg = summary_draft hash p summary; cnt = est msg
              in if cnt < 0 then Inl negative_estimate
                 else if mx \<le> 0 \<or> cnt \<le> mx then Inr msg
                 else case truncateTextMessage msg mx est of
                        Inl e \<Rightarrow> Inl e
                      | Inr m \<Rightarrow>
                          Inr (m\<lparr>msg_metadata := AList.update MetadataContextSummaryHash
                                  (VString (hash (PlainText m))) (CloneMetadata (msg_metadata m))\<rparr>))"

definition summarizing_record :: "message list \<Rightarrow> message \<Rightarrow> message list \<Rightarrow> message list \<Rightarrow> compaction_record" where
  "summarizing_record ms sm recent prefix =
     \<lparr>cr_policy = ''SummarizingBudget'', cr_reason = ''budget'', cr_original = int (length ms),
      cr_sent = int (length (sm # recent)), cr_summarized = int (length prefix), cr_retained = 0,
      cr_replaced = int (countSummaryMessages ms),
      cr_hash = metadata_string (msg_metadata sm) MetadataContextSummaryHash,
      cr_preview = previewText (PlainText sm) 200\<rparr>"

definition SummarizingBudget_ApplyWithResult ::
  "(string \<Rightarrow> string) \<Rightarrow> 'w summarizing_budget \<Rightarrow> 'w \<Rightarrow> message list \<Rightarrow> 'w \<times> (err + policy_result)" where
  "SummarizingBudget_ApplyWithResult hash p w ms =
     (let est = the_estimate (sb_estimate p)
      in if sb_max p \<le> 0 then (w, Inl (EText ''contextwindow: MaxTokens must be positive''))
         else case estimateMessages ms est of
           Inl e \<Rightarrow> (w, Inl e)
         | Inr tot \<Rightarrow>
             (if tot \<le> triggerTokens p
              then (w, Inr \<lparr>pr_messages = CloneMessages ms, pr_compaction = None\<rparr>)
              else case sb_summarizer p of
                None \<Rightarrow> (w, Inl (EText ''contextwindow: Summarizer is required''))
              | Some summ \<Rightarrow>
                  (let rb = sb_max p - summaryBudget p; recentBudget = (if rb < 1 then 1 else rb)
                   in case newestSuffixStart ms recentBudget est of
                     Inl e \<Rightarrow> (w, Inl e)
                   | Inr start \<Rightarrow>
                       (let (recent, recentSummaries) = splitSummaryMessages (drop start ms);
                            prefix = CloneMessages (take start ms) @ recentSummaries
                        in case summ w prefix of
                             (w', Inl e) \<Rightarrow> (w', Inl (EWrap ''contextwindow: summarize compacted messages: '' e))
                           | (w', Inr summary) \<Rightarrow>
                               (case summaryMessage hash p summary (summaryBudget p) est of
                                  Inl e \<Rightarrow> (w', Inl e)
                                | Inr sm \<Rightarrow>
                                    (w', Inr \<lparr>pr_messages = sm # recent,
                                              pr_compaction = Some (summarizing_record ms sm recent prefix)\<rparr>))))))"

definition SummarizingBudget_Apply ::
  "(string \<Rightarrow> string) \<Rightarrow> 'w summarizing_budget \<Rightarrow> 'w \<Rightarrow> message list \<Rightarrow> 'w \<times> (err + message list)" where
  "SummarizingBudget_Apply hash p w ms = map_result (SummarizingBudget_ApplyWithResult hash p w ms)"

text \<open>The policies as values of the interface.\<close>

definition RecentMessages :: "int \<Rightarrow> 'w policy" where
  "RecentMessages mx = \<lparr>pol_apply = (\<lambda>w ms. (w, RecentMessages_Apply mx ms)), pol_rich = None\<rparr>"

definition TokenBudget :: "int \<Rightarrow> estimator option \<Rightarrow> 'w policy" where
  "TokenBudget mx est = \<lparr>pol_apply = (\<lambda>w ms. (w, TokenBudget_Apply mx est ms)), pol_rich = None\<rparr>"

definition SummarizingBudget :: "(string \<Rightarrow> string) \<Rightarrow> 'w summarizing_budget \<Rightarrow> 'w policy" where
  "SummarizingBudget hash p = \<lparr>pol_apply = SummarizingBudget_Apply hash p,
     pol_rich = Some (SummarizingBudget_ApplyWithResult hash p)\<rparr>"

definition PreserveImportant :: "'w policy option \<Rightarrow> int \<Rightarrow> 'w policy" where
  "PreserveImportant inner mx = \<lparr>pol_apply = PreserveImportant_Apply inner mx,
     pol_rich = Some (PreserveImportant_ApplyWithResult inner mx)\<rparr>"

section \<open>Policies that keep a suffix\<close>

text \<open>
  The contract the suffix policies share: the output is a deep copy of a suffix, and a proper
  suffix starts at a message that is not a tool message.
\<close>

definition cut_at :: "message list \<Rightarrow> nat \<Rightarrow> bool" where
  "cut_at ms n \<longleftrightarrow> n = 0 \<or> length ms \<le> n \<or> \<not> is_tool (ms ! n)"

lemma dropLeading_le: "start \<le> length ms \<Longrightarrow> dropLeadingToolResults ms start \<le> length ms"
  using length_takeWhile_le [of is_tool "drop start ms"] by (simp add: dropLeadingToolResults_def)

lemma dropLeading_ge: "start \<le> dropLeadingToolResults ms start"
  by (simp add: dropLeadingToolResults_def)

lemma drop_dropLeading: "drop (dropLeadingToolResults ms start) ms = dropWhile is_tool (drop start ms)"
  by (metis add.commute dropLeadingToolResults_def drop_drop dropWhile_eq_drop)

lemma dropLeading_cut: "cut_at ms (dropLeadingToolResults ms start)"
proof (cases "dropWhile is_tool (drop start ms)")
  case Nil
  then show ?thesis by (metis cut_at_def drop_dropLeading drop_eq_Nil)
next
  case (Cons m rest)
  then have "\<not> is_tool m" by (simp add: dropWhile_eq_Cons_conv)
  moreover have "ms ! dropLeadingToolResults ms start = m"
    using Cons drop_dropLeading [of ms start] by (metis nth_via_drop)
  ultimately show ?thesis by (simp add: cut_at_def)
qed

lemma dropLeading_between: "list_all is_tool (take (dropLeadingToolResults ms start - start) (drop start ms))"
proof -
  have "take (dropLeadingToolResults ms start - start) (drop start ms) = takeWhile is_tool (drop start ms)"
    using takeWhile_eq_take [of is_tool "drop start ms"] by (simp add: dropLeadingToolResults_def)
  then show ?thesis by (metis Ball_set set_takeWhileD)
qed

lemma tool_adjacent_dropWhile: "tool_adjacent ms \<Longrightarrow> tool_adjacent (dropWhile is_tool (drop n ms))"
proof (induction ms arbitrary: n rule: tool_adjacent.induct)
  case (2 m ms)
  show ?case
  proof (cases n)
    case 0
    with "2.prems" show ?thesis by simp
  next
    case (Suc k)
    let ?t = "takeWhile is_tool ms" and ?r = "dropWhile is_tool ms"
    have tools: "list_all is_tool ?t" by (metis Ball_set set_takeWhileD)
    have IH: "tool_adjacent (dropWhile is_tool (drop j ?r))" for j
      by (rule "2.IH") (use "2.prems" tool_adjacent.simps(2) in blast)
    have eq: "drop k ms = drop k ?t @ drop (k - length ?t) ?r"
      by (metis drop_append takeWhile_dropWhile_id)
    have "list_all is_tool (drop k ?t)" using tools by (meson Ball_set in_set_dropD)
    then have "dropWhile is_tool (drop k ms) = dropWhile is_tool (drop (k - length ?t) ?r)"
      unfolding eq by (rule dropWhile_all)
    then show ?thesis using IH Suc by (metis drop_Suc_Cons)
  qed
qed simp

lemma tool_adjacent_Clone [simp]: "tool_adjacent (CloneMessages ms) = tool_adjacent ms"
proof (induction ms rule: tool_adjacent.induct)
  case (2 m ms)
  have tw: "takeWhile is_tool (CloneMessages ms) = CloneMessages (takeWhile is_tool ms)"
    and dw: "dropWhile is_tool (CloneMessages ms) = CloneMessages (dropWhile is_tool ms)"
    by (simp_all add: CloneMessages_def takeWhile_map dropWhile_map comp_def)
  have ids: "map result_id (CloneMessages xs) = map result_id xs" for xs
    by (simp add: CloneMessages_def)
  show ?case
    using "2.IH" by (simp only: tool_adjacent.simps tw dw ids CloneMessages_Cons use_ids_Clone is_tool_Clone)
qed (simp add: CloneMessages_def)

lemma tool_adjacent_cut: "tool_adjacent ms \<Longrightarrow> cut_at ms n \<Longrightarrow> tool_adjacent (drop n ms)"
proof -
  assume adj: "tool_adjacent ms" and cut: "cut_at ms n"
  consider "n = 0" | "length ms \<le> n" | "n < length ms" "\<not> is_tool (ms ! n)"
    using cut by (metis cut_at_def not_le)
  then show ?thesis
  proof cases
    case 3
    then have "dropWhile is_tool (drop n ms) = drop n ms"
      by (intro dropWhile_none) (simp add: hd_drop_conv_nth)
    with tool_adjacent_dropWhile [OF adj, of n] show ?thesis by simp
  qed (use adj in auto)
qed

locale suffix_policy =
  fixes apply_policy :: "message list \<Rightarrow> err + message list"
  assumes keeps_suffix: "apply_policy ms = Inr out \<Longrightarrow> \<exists>n\<le>length ms. out = CloneMessages (drop n ms) \<and> cut_at ms n"
begin

lemma keeps_adjacent: "tool_adjacent ms \<Longrightarrow> apply_policy ms = Inr out \<Longrightarrow> tool_adjacent out"
  using keeps_suffix tool_adjacent_cut by fastforce

lemma never_longer: "apply_policy ms = Inr out \<Longrightarrow> length out \<le> length ms"
  using keeps_suffix by fastforce

lemma keeps_last: "apply_policy ms = Inr out \<Longrightarrow> out \<noteq> [] \<Longrightarrow> last out = CloneMessage (last ms)"
proof -
  assume "apply_policy ms = Inr out" and ne: "out \<noteq> []"
  from keeps_suffix [OF this(1)] obtain n where n: "out = CloneMessages (drop n ms)" by blast
  with ne show ?thesis by (auto simp: CloneMessages_def last_map)
qed

end

interpretation recent: suffix_policy "RecentMessages_Apply mx"
proof
  fix ms out
  assume a: "RecentMessages_Apply mx ms = Inr out"
  show "\<exists>n\<le>length ms. out = CloneMessages (drop n ms) \<and> cut_at ms n"
  proof (cases "int (length ms) \<le> mx")
    case True
    with a show ?thesis by (intro exI [of _ 0]) (auto simp: RecentMessages_Apply_def cut_at_def split: if_splits)
  next
    case False
    with a show ?thesis
      by (intro exI [of _ "dropLeadingToolResults ms (length ms - nat mx)"])
        (auto simp: RecentMessages_Apply_def dropLeading_cut dropLeading_le split: if_splits)
  qed
qed

lemma suffix_loop_le: "suffix_loop est mx ms n tot = Inr s \<Longrightarrow> s \<le> n"
  by (induction n arbitrary: tot) (auto simp: Let_def le_SucI split: if_splits)

lemma newestSuffixStart_cut: "newestSuffixStart ms mx est = Inr k \<Longrightarrow> k \<le> length ms \<and> cut_at ms k"
  by (auto simp: newestSuffixStart_def dropLeading_cut dropLeading_le suffix_loop_le split: sum.splits)

interpretation budget: suffix_policy "TokenBudget_Apply mx est"
  by unfold_locales (auto simp: TokenBudget_Apply_def dest: newestSuffixStart_cut split: if_splits sum.splits)

section \<open>The token budget\<close>

text \<open>Tokens of the messages from index \<open>k\<close> on, without wrap-around.\<close>

definition tokens_from :: "estimator \<Rightarrow> message list \<Rightarrow> nat \<Rightarrow> int" where
  "tokens_from est ms k = sum_list (map est (drop k ms))"

definition est_ok :: "estimator \<Rightarrow> message list \<Rightarrow> bool" where
  "est_ok est ms \<longleftrightarrow> list_all (\<lambda>m. 0 \<le> est m) ms \<and> tokens_from est ms 0 < 2 ^ 63"

lemma tokens_from_Suc: "n < length ms \<Longrightarrow> tokens_from est ms n = est (ms ! n) + tokens_from est ms (Suc n)"
  by (simp add: tokens_from_def flip: Cons_nth_drop_Suc)

lemma tokens_from_nonneg: "list_all (\<lambda>m. 0 \<le> est m) ms \<Longrightarrow> 0 \<le> tokens_from est ms n"
  unfolding tokens_from_def by (rule sum_list_nonneg) (auto simp: list_all_iff dest: in_set_dropD)

lemma tokens_from_mono:
  assumes "list_all (\<lambda>m. 0 \<le> est m) ms" and "a \<le> b"
  shows "tokens_from est ms b \<le> tokens_from est ms a"
  using assms(2)
proof (induction b rule: dec_induct)
  case (step n)
  show ?case
  proof (cases "n < length ms")
    case True
    with assms(1) have "0 \<le> est (ms ! n)" by (simp add: list_all_length)
    with tokens_from_Suc [OF True, of est] step show ?thesis by linarith
  next
    case False
    with step.IH show ?thesis by (simp add: tokens_from_def)
  qed
qed simp

lemma tokens_from_range:
  "est_ok est ms \<Longrightarrow> i64 (tokens_from est ms n) = tokens_from est ms n"
  using tokens_from_nonneg [of est ms n] tokens_from_mono [of est ms 0 n]
  by (intro i64_nonneg_id) (auto simp: est_ok_def)

lemma suffix_loop_spec:
  assumes ok: "est_ok est ms"
  shows "n \<le> length ms \<Longrightarrow> tot = tokens_from est ms n \<Longrightarrow> tot < mx \<Longrightarrow>
    \<exists>s\<le>n. suffix_loop est mx ms n tot = Inr s
      \<and> (tokens_from est ms s \<le> mx \<or> (s < length ms \<and> mx < est (ms ! s) \<and> tokens_from est ms (Suc s) = 0))
      \<and> (s = 0 \<or> mx \<le> tokens_from est ms s \<or> mx < tokens_from est ms (s - 1))"
proof (induction n arbitrary: tot)
  case 0
  then show ?case by auto
next
  case (Suc n)
  let ?nxt = "est (ms ! n)" and ?t = "tokens_from est ms"
  have n: "n < length ms" and nn: "0 \<le> ?nxt" "0 \<le> ?t (Suc n)"
    using Suc.prems ok tokens_from_nonneg [of est ms] by (auto simp: est_ok_def list_all_length)
  have t: "i64 (?t (Suc n) + ?nxt) = ?t n" "?t n = ?nxt + ?t (Suc n)"
    using tokens_from_range [OF ok, of n] tokens_from_Suc [OF n, of est] by (simp_all add: add.commute)
  consider (over) "0 < ?t (Suc n)" "mx < ?t n" | (full) "\<not> (0 < ?t (Suc n) \<and> mx < ?t n)" "mx \<le> ?t n"
    | (more) "?t n < mx" by linarith
  then show ?case
  proof cases
    case over
    then show ?thesis using Suc.prems nn t by (intro exI [of _ "Suc n"]) simp
  next
    case full
    have "suffix_loop est mx ms (Suc n) tot = Inr n" using full Suc.prems nn t by auto
    moreover have "?t n \<le> mx \<or> (mx < ?nxt \<and> ?t (Suc n) = 0)" using full nn t by linarith
    ultimately show ?thesis using full n by (intro exI [of _ n]) auto
  next
    case more
    have "suffix_loop est mx ms (Suc n) tot = suffix_loop est mx ms n (?t n)" using more Suc.prems nn t by auto
    with Suc.IH [OF less_imp_le [OF n] refl more] show ?thesis by (auto intro: le_SucI)
  qed
qed

lemma newestSuffixStart_spec:
  assumes "est_ok est ms" and "0 < mx"
  shows "\<exists>s k. newestSuffixStart ms mx est = Inr k \<and> s \<le> k \<and> k \<le> length ms \<and> cut_at ms k
    \<and> list_all is_tool (take (k - s) (drop s ms))
    \<and> (tokens_from est ms s \<le> mx \<or> (s < length ms \<and> mx < est (ms ! s) \<and> tokens_from est ms (Suc s) = 0))
    \<and> (s = 0 \<or> mx \<le> tokens_from est ms s \<or> mx < tokens_from est ms (s - 1))"
proof -
  have "tokens_from est ms (length ms) = 0" by (simp add: tokens_from_def)
  with suffix_loop_spec [OF assms(1) order.refl, of 0 mx] assms(2) obtain s where
    s: "s \<le> length ms" "suffix_loop est mx ms (length ms) 0 = Inr s"
      "tokens_from est ms s \<le> mx \<or> (s < length ms \<and> mx < est (ms ! s) \<and> tokens_from est ms (Suc s) = 0)"
      "s = 0 \<or> mx \<le> tokens_from est ms s \<or> mx < tokens_from est ms (s - 1)" by auto
  let ?k = "dropLeadingToolResults ms s"
  have "newestSuffixStart ms mx est = Inr ?k" using s(2) by (simp add: newestSuffixStart_def)
  with s show ?thesis
    using dropLeading_ge dropLeading_le [OF s(1)] dropLeading_cut dropLeading_between by blast
qed

section \<open>The binary search\<close>

text \<open>What the search relies on for optimality: longer cuts never cost less.\<close>

definition cut_monotone :: "estimator \<Rightarrow> message \<Rightarrow> bool" where
  "cut_monotone est m \<longleftrightarrow> (\<forall>a b. a \<le> b \<longrightarrow> est (cut_text m a) \<le> est (cut_text m b)) \<and> 0 \<le> est (cut_text m 0)"

lemma truncate_search_sound:
  "truncate_search m mx est low high best = Inr r \<Longrightarrow> 0 \<le> low \<Longrightarrow>
     r = best \<or> (low \<le> r \<and> r \<le> high \<and> est (cut_text m (nat r)) \<le> mx)"
proof (induction m mx est low high best rule: truncate_search.induct)
  case (1 m mx est low high best)
  show ?case
  proof (cases "high < low")
    case True
    with "1.prems" show ?thesis by (simp add: truncate_search.simps [of m mx est low high])
  next
    case False
    define mid where "mid = low + (high - low) div 2"
    have mid: "low \<le> mid" "mid \<le> high" using False by (auto simp: mid_def)
    let ?c = "est (cut_text m (nat mid))"
    have step: "truncate_search m mx est low high best =
        (if ?c < 0 then Inl negative_estimate
         else if ?c \<le> mx then truncate_search m mx est (mid + 1) high mid
         else truncate_search m mx est low (mid - 1) best)"
      using False by (subst truncate_search.simps) (simp add: mid_def Let_def)
    from "1.prems"(1) have c: "\<not> ?c < 0" by (auto simp: step)
    show ?thesis
    proof (cases "?c \<le> mx")
      case True
      with "1.IH"(1) [OF False mid_def refl c True] "1.prems" c mid show ?thesis by (auto simp: step)
    next
      case le: False
      with "1.IH"(2) [OF False mid_def refl c le] "1.prems" c mid show ?thesis by (auto simp: step)
    qed
  qed
qed

lemma truncate_search_complete:
  "cut_monotone est m \<Longrightarrow> 0 \<le> low \<Longrightarrow> best < low \<Longrightarrow>
     (\<forall>j. 0 \<le> j \<and> j < low \<longrightarrow> est (cut_text m (nat j)) \<le> mx \<and> j \<le> best) \<Longrightarrow>
     \<exists>r. truncate_search m mx est low high best = Inr r \<and> best \<le> r
       \<and> (\<forall>j. 0 \<le> j \<and> j \<le> high \<and> est (cut_text m (nat j)) \<le> mx \<longrightarrow> j \<le> r)"
proof (induction m mx est low high best rule: truncate_search.induct)
  case (1 m mx est low high best)
  show ?case
  proof (cases "high < low")
    case True
    with "1.prems" show ?thesis
      by (intro exI [of _ best]) (auto simp: truncate_search.simps [of m mx est low high])
  next
    case False
    define mid where "mid = low + (high - low) div 2"
    have mid: "low \<le> mid" "mid \<le> high" using False by (auto simp: mid_def)
    let ?c = "est (cut_text m (nat mid))"
    have mono: "a \<le> b \<Longrightarrow> est (cut_text m a) \<le> est (cut_text m b)" for a b
      using "1.prems"(1) by (simp add: cut_monotone_def)
    have "0 \<le> est (cut_text m 0)" using "1.prems"(1) by (simp add: cut_monotone_def)
    then have c: "\<not> ?c < 0" using mono [of 0 "nat mid"] by linarith
    have step: "truncate_search m mx est low high best =
        (if ?c \<le> mx then truncate_search m mx est (mid + 1) high mid
         else truncate_search m mx est low (mid - 1) best)"
      using False c by (subst truncate_search.simps) (simp add: mid_def Let_def)
    show ?thesis
    proof (cases "?c \<le> mx")
      case True
      have below: "est (cut_text m (nat j)) \<le> mx" if "j < mid + 1" for j
        using mono [of "nat j" "nat mid"] True that by (simp add: nat_mono)
      have "\<exists>r. truncate_search m mx est (mid + 1) high mid = Inr r \<and> mid \<le> r
          \<and> (\<forall>j. 0 \<le> j \<and> j \<le> high \<and> est (cut_text m (nat j)) \<le> mx \<longrightarrow> j \<le> r)"
        by (rule "1.IH"(1) [OF False mid_def refl c True]) (use "1.prems" mid below in auto)
      then show ?thesis using True "1.prems"(3) mid by (auto simp: step)
    next
      case le: False
      have "\<exists>r. truncate_search m mx est low (mid - 1) best = Inr r \<and> best \<le> r
          \<and> (\<forall>j. 0 \<le> j \<and> j \<le> mid - 1 \<and> est (cut_text m (nat j)) \<le> mx \<longrightarrow> j \<le> r)"
        by (rule "1.IH"(2) [OF False mid_def refl c le]) (use "1.prems" in auto)
      then obtain r where r: "truncate_search m mx est low (mid - 1) best = Inr r" "best \<le> r"
        "\<And>j. 0 \<le> j \<and> j \<le> mid - 1 \<and> est (cut_text m (nat j)) \<le> mx \<Longrightarrow> j \<le> r" by blast
      have "j \<le> mid - 1" if "est (cut_text m (nat j)) \<le> mx" for j
        using mono [of "nat mid" "nat j"] le that mid by (smt (verit) nat_mono)
      with r le show ?thesis by (intro exI [of _ r]) (auto simp: step)
    qed
  qed
qed

section \<open>Retention\<close>

definition group_size :: "nat \<times> nat \<Rightarrow> nat" where
  "group_size g = snd g - fst g"

lemma select_groups_sublist: "\<exists>n. select_groups mx cnt gs = take n gs"
proof (induction gs arbitrary: cnt)
  case (Cons g gs)
  obtain n where n: "select_groups mx (cnt + (snd g - fst g)) gs = take n gs" using Cons.IH by blast
  have "take 0 (g # gs) = []" "take 1 (g # gs) = [g]" "take (Suc n) (g # gs) = g # take n gs" by simp_all
  then show ?case unfolding select_groups.simps Let_def n by metis
qed simp

lemma select_groups_hd: "select_groups mx 0 (g # gs) \<noteq> [] \<and> hd (select_groups mx 0 (g # gs)) = g"
  by (simp add: Let_def)

lemma select_groups_bound_pos:
  "0 < mx \<Longrightarrow> 0 < cnt \<Longrightarrow> int cnt \<le> mx \<Longrightarrow> int (cnt + sum_list (map group_size (select_groups mx cnt gs))) \<le> mx"
proof (induction gs arbitrary: cnt)
  case (Cons g gs)
  from Cons.IH [of "cnt + (snd g - fst g)"] Cons.prems show ?case
    by (auto simp: Let_def group_size_def)
qed simp

lemma select_groups_bound:
  assumes "0 < mx" and "list_all (\<lambda>g. 0 < group_size g) gs"
  shows "int (sum_list (map group_size (select_groups mx 0 gs)))
    \<le> max mx (case gs of [] \<Rightarrow> 0 | g # _ \<Rightarrow> int (group_size g))"
proof (cases gs)
  case (Cons g gs')
  with assms select_groups_bound_pos [OF assms(1), of "group_size g" gs'] show ?thesis
    by (auto simp: Let_def group_size_def)
qed simp

lemma matching_loop_less: "matching_loop ms n i = Some a \<Longrightarrow> a < n \<and> messageHasToolUse (ms ! a) i \<and> msg_role (ms ! a) = RoleAssistant"
  by (induction n) (auto split: if_splits)

lemma group_of_bounds: "snd (group_of ms i) = Suc i \<and> fst (group_of ms i) \<le> i"
  by (auto simp: group_of_def matchingToolUseMessage_def dest!: matching_loop_less split: option.splits if_splits)

lemma group_size_of: "0 < group_size (group_of ms i)"
  using group_of_bounds [of ms i] by (simp add: group_size_def)

lemma all_groups_sizes: "list_all (\<lambda>g. 0 < group_size g) (rev (all_groups ms))"
  by (auto simp: list_all_iff all_groups_def group_size_of)

definition group_messages :: "message list \<Rightarrow> nat \<times> nat \<Rightarrow> message list" where
  "group_messages ms g = CloneMessages (drop (fst g) (take (snd g) ms))"

lemma importantGroups_alt:
  "importantGroups ms mx = map (group_messages ms) (rev (select_groups mx 0 (rev (all_groups ms))))"
  by (simp add: importantGroups_def group_messages_def case_prod_unfold)

lemma length_group_messages: "length (group_messages ms g) \<le> group_size g"
  by (simp add: group_messages_def group_size_def)

lemma group_messages_fixed [simp]: "CloneMessages (group_messages ms g) = group_messages ms g"
  by (simp add: group_messages_def)

lemma set_group_messages: "set (group_messages ms g) \<subseteq> CloneMessage ` set ms"
  by (auto simp: group_messages_def CloneMessages_def dest!: in_set_dropD in_set_takeD)

text \<open>The groups that get prepended, and their size.\<close>

definition retained_groups :: "message list \<Rightarrow> message list \<Rightarrow> int \<Rightarrow> message list list" where
  "retained_groups original selected mx0 =
     (let mx = (if mx0 = 0 then 8 else mx0)
      in if mx < 0 then [] else filter (\<lambda>g. \<not> messageGroupContained g selected) (importantGroups original mx))"

lemma concat_map_fixed: "(\<And>g. g \<in> set gs \<Longrightarrow> f g = g) \<Longrightarrow> concat (map f gs) = concat gs"
  by (simp add: map_idI)

lemma Preserve_decompose:
  "PreserveImportantMessages original selected mx0
     = concat (retained_groups original selected mx0) @ CloneMessages selected"
proof -
  have fixed: "g \<in> set (importantGroups original mx) \<Longrightarrow> CloneMessages g = g" for g mx
    by (auto simp: importantGroups_alt)
  have nil: "importantGroups [] mx = []" for mx by (simp add: importantGroups_def all_groups_def)
  have "concat (map CloneMessages (filter P (importantGroups original mx))) = concat (filter P (importantGroups original mx))" for P mx
    by (rule concat_map_fixed) (auto intro: fixed)
  then show ?thesis by (auto simp: PreserveImportantMessages_def retained_groups_def Let_def nil)
qed

lemma length_concat_filter_le: "length (concat (filter P gs)) \<le> sum_list (map length gs)"
  by (induction gs) auto

lemma retained_groups_length:
  assumes "0 \<le> mx0"
  shows "int (length (concat (retained_groups original selected mx0)))
    \<le> max (if mx0 = 0 then 8 else mx0)
        (case rev (all_groups original) of [] \<Rightarrow> 0 | g # _ \<Rightarrow> int (group_size g))"
proof -
  define mx where "mx = (if mx0 = 0 then 8 else mx0)"
  have pos: "0 < mx" using assms by (simp add: mx_def)
  let ?sel = "select_groups mx 0 (rev (all_groups original))"
  have "length (concat (retained_groups original selected mx0)) \<le> sum_list (map length (importantGroups original mx))"
    using pos length_concat_filter_le by (simp add: retained_groups_def mx_def [symmetric] Let_def)
  also have "\<dots> \<le> sum_list (map group_size (rev ?sel))"
    unfolding importantGroups_alt map_map by (rule sum_list_mono) (simp add: length_group_messages)
  also have "\<dots> = sum_list (map group_size ?sel)" by (simp add: rev_map [symmetric] sum_list_rev)
  finally show ?thesis
    using select_groups_bound [OF pos all_groups_sizes, of original] unfolding mx_def [symmetric] by linarith
qed

lemma all_groups_newest:
  assumes "i < length ms" and "importantMessage (ms ! i)"
    and "\<And>j. i < j \<Longrightarrow> j < length ms \<Longrightarrow> \<not> importantMessage (ms ! j)"
  shows "\<exists>gs. rev (all_groups ms) = group_of ms i # gs"
proof -
  have "[0..<length ms] = [0..<i] @ i # [Suc i..<length ms]"
    using assms(1) upt_add_eq_append [of 0 i "length ms - i"] by (simp add: upt_conv_Cons)
  moreover have "filter (\<lambda>j. importantMessage (ms ! j)) [Suc i..<length ms] = []"
    using assms(3) by (auto simp: filter_empty_conv)
  ultimately show ?thesis using assms(2) by (simp add: all_groups_def)
qed

lemma newest_group_selected:
  assumes "rev (all_groups ms) = g # gs"
  shows "group_messages ms g \<in> set (importantGroups ms mx)"
proof -
  have "g \<in> set (select_groups mx 0 (g # gs))" using select_groups_hd [of mx g gs] by (metis list.set_sel(1))
  then show ?thesis unfolding importantGroups_alt assms by simp
qed

section \<open>Summaries\<close>

lemma tool_adjacent_filter:
  assumes "\<And>m. m \<in> set ms \<Longrightarrow> P m \<Longrightarrow> \<not> is_tool m \<and> use_ids m = []"
  shows "tool_adjacent ms \<Longrightarrow> tool_adjacent (filter (\<lambda>m. \<not> P m) ms)"
  using assms
proof (induction ms rule: tool_adjacent.induct)
  case (2 m ms)
  let ?t = "takeWhile is_tool ms" and ?r = "dropWhile is_tool ms"
  have m: "\<not> is_tool m" "mset (map result_id ?t) = mset (map Some (use_ids m))" "tool_adjacent ?r"
    using "2.prems"(1) tool_adjacent.simps(2) by blast+
  have tools: "\<not> P x" if "x \<in> set ?t" for x
    using that "2.prems"(2) [of x] set_takeWhileD [OF that] by auto
  then have ft: "filter (\<lambda>m. \<not> P m) ?t = ?t" by (simp add: filter_id_conv)
  have sub: "set ?r \<subseteq> set ms" using set_dropWhileD by fastforce
  have IH: "tool_adjacent (filter (\<lambda>m. \<not> P m) ?r)"
    by (rule "2.IH" [OF m(3)]) (use "2.prems"(2) sub in auto)
  have split: "filter (\<lambda>m. \<not> P m) ms = ?t @ filter (\<lambda>m. \<not> P m) ?r"
    using ft by (metis filter_append takeWhile_dropWhile_id)
  have hd: "filter (\<lambda>m. \<not> P m) ?r = [] \<or> \<not> is_tool (hd (filter (\<lambda>m. \<not> P m) ?r))"
    using IH by (cases "filter (\<lambda>m. \<not> P m) ?r") (auto simp only: tool_adjacent.simps list.sel)
  have all: "list_all is_tool ?t" by (metis Ball_set set_takeWhileD)
  show ?case
  proof (cases "P m")
    case True
    then have "?t = []" using "2.prems"(2) [of m] m(2) by simp
    then show ?thesis using True IH split by simp
  next
    case False
    have "takeWhile is_tool (filter (\<lambda>m. \<not> P m) ms) = ?t" "dropWhile is_tool (filter (\<lambda>m. \<not> P m) ms) = filter (\<lambda>m. \<not> P m) ?r"
      unfolding split takeWhile_all [OF all] dropWhile_all [OF all] takeWhile_none [where P = is_tool, OF hd] dropWhile_none [where P = is_tool, OF hd] by simp_all
    then show ?thesis using False m IH by (simp only: filter.simps if_True tool_adjacent.simps simp_thms)
  qed
qed simp

lemma cut_text_simps [simp]:
  "msg_role (cut_text m n) = msg_role m" "msg_metadata (cut_text m n) = msg_metadata m"
  "msg_tool_result (cut_text m n) = msg_tool_result m" "msg_id (cut_text m n) = msg_id m"
  by (simp_all add: cut_text_def)

lemma truncateTextMessage_Inr:
  "truncateTextMessage m mx est = Inr m' \<Longrightarrow> msg_content m \<noteq> [] \<Longrightarrow>
     \<exists>n. m' = cut_text m n \<and> n \<le> rune_count (cb_text (hd (msg_content m))) \<and> est m' \<le> mx"
  by (auto simp: truncateTextMessage_def split: sum.splits if_splits dest!: truncate_search_sound)

lemma summary_draft_content: "msg_content (summary_draft hash p t) \<noteq> []"
  by (simp add: summary_draft_def content_message_def Let_def)

text \<open>Every message \<open>summaryMessage\<close> returns is marked, has the summary role and a single text block.\<close>

definition plain_summary :: "role \<Rightarrow> message \<Rightarrow> bool" where
  "plain_summary r m \<longleftrightarrow> IsSummaryMessage m \<and> msg_role m = r \<and> msg_tool_result m = None
     \<and> (\<exists>t. msg_content m = [text_block t])"

lemma plain_summary_draft: "plain_summary (summaryRole p) (summary_draft hash p t)"
  by (auto simp: plain_summary_def summary_draft_def content_message_def IsSummaryMessage_def metadata_bool_def Let_def)

lemma plain_summary_cut: "plain_summary r m \<Longrightarrow> plain_summary r (cut_text m n)"
  by (auto simp: plain_summary_def IsSummaryMessage_def cut_text_def CloneContentBlocks_def CloneContentBlock_def text_block_def)

lemma summaryMessage_Inr:
  assumes "summaryMessage hash p t mx est = Inr sm"
  shows "plain_summary (summaryRole p) sm
    \<and> (\<exists>m0 md. sm = m0\<lparr>msg_metadata := md\<rparr> \<and> (mx \<le> 0 \<or> est m0 \<le> mx))"
proof -
  let ?d = "summary_draft hash p (trim_space t)"
  have keep: "\<exists>m0 md. sm = m0\<lparr>msg_metadata := md\<rparr> \<and> (mx \<le> 0 \<or> est m0 \<le> mx)" if "sm = ?d" "mx \<le> 0 \<or> est ?d \<le> mx"
    using that by (intro exI [of _ ?d] exI [of _ "msg_metadata ?d"]) simp
  from assms consider "sm = ?d" "mx \<le> 0 \<or> est ?d \<le> mx"
    | m where "truncateTextMessage ?d mx est = Inr m"
      "sm = m\<lparr>msg_metadata := AList.update MetadataContextSummaryHash (VString (hash (PlainText m))) (CloneMetadata (msg_metadata m))\<rparr>"
    unfolding summaryMessage_def Let_def by (force split: if_splits sum.splits)
  then show ?thesis
  proof cases
    case 1
    then show ?thesis using plain_summary_draft keep by blast
  next
    case (2 m)
    from truncateTextMessage_Inr [OF 2(1) summary_draft_content] obtain n where
      n: "m = cut_text ?d n" "est m \<le> mx" by blast
    have "msg_metadata m = msg_metadata ?d" by (simp add: n(1))
    then have "CloneMetadata (msg_metadata m) = msg_metadata m"
      by (simp add: summary_draft_def Let_def content_message_def wf_map_def)
    moreover have "plain_summary (summaryRole p) m" unfolding n(1) by (intro plain_summary_cut plain_summary_draft)
    ultimately have "plain_summary (summaryRole p) sm"
      by (simp add: 2(2) plain_summary_def IsSummaryMessage_def metadata_bool_def)
    with 2(2) n(2) show ?thesis by blast
  qed
qed

lemma SummarizingBudget_Inr:
  assumes "SummarizingBudget_ApplyWithResult hash p w ms = (w', Inr r)"
  defines "est \<equiv> the_estimate (sb_estimate p)"
  shows "0 < sb_max p \<and> ((\<exists>tot. estimateMessages ms est = Inr tot \<and> tot \<le> triggerTokens p)
        \<and> w' = w \<and> r = \<lparr>pr_messages = CloneMessages ms, pr_compaction = None\<rparr>
    \<or> (\<exists>summ start sm summary. sb_summarizer p = Some summ
        \<and> newestSuffixStart ms (max 1 (sb_max p - summaryBudget p)) est = Inr start
        \<and> summ w (CloneMessages (take start ms @ filter IsSummaryMessage (drop start ms))) = (w', Inr summary)
        \<and> summaryMessage hash p summary (summaryBudget p) est = Inr sm
        \<and> r = \<lparr>pr_messages = sm # CloneMessages (filter (\<lambda>m. \<not> IsSummaryMessage m) (drop start ms)),
                pr_compaction = Some (summarizing_record ms sm
                   (CloneMessages (filter (\<lambda>m. \<not> IsSummaryMessage m) (drop start ms)))
                   (CloneMessages (take start ms @ filter IsSummaryMessage (drop start ms))))\<rparr>))"
proof -
  have mx: "(if rb < 1 then 1 else rb) = max 1 rb" for rb :: int by simp
  show ?thesis
    using assms(1) unfolding SummarizingBudget_ApplyWithResult_def Let_def est_def splitSummaryMessages_def mx
    by (auto split: if_splits sum.splits option.splits prod.splits)
qed

lemma use_ids_plain: "plain_summary r m \<Longrightarrow> use_ids m = []"
  by (auto simp: plain_summary_def use_ids_def assistantToolUses_def text_block_def)

lemma length_filter_split: "length (filter P xs) + length (filter (\<lambda>x. \<not> P x) xs) = length xs"
  by (induction xs) auto

lemma tool_adjacent_Cons_plain:
  "\<not> is_tool m \<Longrightarrow> use_ids m = [] \<Longrightarrow> tool_adjacent ms \<Longrightarrow> tool_adjacent (m # ms)"
proof -
  assume m: "\<not> is_tool m" "use_ids m = []" and adj: "tool_adjacent ms"
  have hd: "ms = [] \<or> \<not> is_tool (hd ms)" using adj by (cases ms) (auto simp only: tool_adjacent.simps list.sel)
  show ?thesis
    using m adj takeWhile_none [where P = is_tool, OF hd] dropWhile_none [where P = is_tool, OF hd] by simp
qed

lemma EstimateByRunes_metadata [simp]: "EstimateByRunes (m\<lparr>msg_metadata := md\<rparr>) = EstimateByRunes m"
  by (simp add: EstimateByRunes_def)

lemma EstimateByRunes_nonneg [simp]: "0 \<le> EstimateByRunes m"
  by (simp add: EstimateByRunes_def)

lemma filter_tokens_le:
  "list_all (\<lambda>m. 0 \<le> est m) ms \<Longrightarrow> sum_list (map est (filter P ms)) \<le> (sum_list (map est ms) :: int)"
  by (induction ms) auto

section \<open>Properties\<close>

text \<open>
  Both suffix policies keep the transcript structurally valid: from a transcript in which
  every tool use is answered, what they return is again such a transcript, is a deep copy of a
  suffix that ends with the newest message, and (for \<open>RecentMessages\<close>) has at most
  \<open>MaxMessages\<close> messages.
\<close>

theorem suffix_policies_valid:
  assumes "tool_adjacent ms"
  shows "(RecentMessages_Apply mx ms = Inr out \<longrightarrow>
      tool_adjacent out \<and> int (length out) \<le> mx \<and> (\<exists>n\<le>length ms. out = CloneMessages (drop n ms)))
    \<and> (TokenBudget_Apply mt est ms = Inr out' \<longrightarrow>
      tool_adjacent out' \<and> (\<exists>n\<le>length ms. out' = CloneMessages (drop n ms)))"
proof (intro conjI impI)
  assume a: "RecentMessages_Apply mx ms = Inr out"
  show "tool_adjacent out" using recent.keeps_adjacent [OF assms a] .
  show "int (length out) \<le> mx"
    using a dropLeading_ge [of "length ms - nat mx" ms] by (auto simp: RecentMessages_Apply_def split: if_splits)
  show "\<exists>n\<le>length ms. out = CloneMessages (drop n ms)" using recent.keeps_suffix [OF a] by blast
next
  assume a: "TokenBudget_Apply mt est ms = Inr out'"
  show "tool_adjacent out'" using budget.keeps_adjacent [OF assms a] .
  show "\<exists>n\<le>length ms. out' = CloneMessages (drop n ms)" using budget.keeps_suffix [OF a] by blast
qed

theorem suffix_policies_valid_witness:
  "RecentMessages_Apply 1 [user_message ''a'', user_message ''b''] = Inr [user_message ''b'']
   \<and> TokenBudget_Apply 1 (Some (\<lambda>_. 1)) [user_message ''a'', user_message ''b''] = Inr [user_message ''b'']
   \<and> tool_adjacent [user_message ''b'']"
proof -
  have adj: "tool_adjacent [user_message ''a'', user_message ''b'']"
    by (simp add: use_ids_def assistantToolUses_def user_message_def content_message_def is_tool_def)
  have cl: "CloneMessage (user_message ''b'') = user_message ''b''" by code_simp
  have r: "RecentMessages_Apply 1 [user_message ''a'', user_message ''b''] = Inr [user_message ''b'']"
    by (simp add: RecentMessages_Apply_def dropLeadingToolResults_def is_tool_def user_message_def content_message_def
        cl [unfolded user_message_def content_message_def])
  have t: "TokenBudget_Apply 1 (Some (\<lambda>_. 1)) [user_message ''a'', user_message ''b''] = Inr [user_message ''b'']"
    by (simp add: TokenBudget_Apply_def newestSuffixStart_def dropLeadingToolResults_def the_estimate_def
        is_tool_def user_message_def content_message_def Let_def i64_id int64_range_def numeral_2_eq_2
        cl [unfolded user_message_def content_message_def])
  show ?thesis using suffix_policies_valid [OF adj] r t by blast
qed

text \<open>
  \<open>TokenBudget\<close> keeps the longest suffix that fits. With non-negative estimates whose sum
  does not overflow it never fails, and for the cut \<open>s\<close> it chooses before skipping leading tool
  results: the suffix from \<open>s\<close> costs at most \<open>MaxTokens\<close>, or is a single message that alone is
  too large (everything after it costs nothing); one message more would reach or exceed the
  budget; and only tool results are skipped between \<open>s\<close> and the start that is returned.
\<close>

theorem token_budget_longest_suffix:
  assumes "0 < mx" and "est_ok est ms"
  shows "\<exists>s k. TokenBudget_Apply mx (Some est) ms = Inr (CloneMessages (drop k ms)) \<and> s \<le> k \<and> k \<le> length ms
    \<and> list_all is_tool (take (k - s) (drop s ms)) \<and> cut_at ms k
    \<and> (tokens_from est ms s \<le> mx \<or> (s < length ms \<and> mx < est (ms ! s) \<and> tokens_from est ms (Suc s) = 0))
    \<and> (s = 0 \<or> mx \<le> tokens_from est ms s \<or> mx < tokens_from est ms (s - 1))"
proof -
  from newestSuffixStart_spec [OF assms(2,1)] obtain s k where
    sk: "newestSuffixStart ms mx est = Inr k" "s \<le> k" "k \<le> length ms" "cut_at ms k"
      "list_all is_tool (take (k - s) (drop s ms))"
      "tokens_from est ms s \<le> mx \<or> (s < length ms \<and> mx < est (ms ! s) \<and> tokens_from est ms (Suc s) = 0)"
      "s = 0 \<or> mx \<le> tokens_from est ms s \<or> mx < tokens_from est ms (s - 1)" by blast
  have "TokenBudget_Apply mx (Some est) ms = Inr (CloneMessages (drop k ms))"
    using sk(1) assms(1) by (simp add: TokenBudget_Apply_def the_estimate_def)
  with sk show ?thesis by blast
qed

theorem token_budget_longest_suffix_witness:
  "\<exists>k. TokenBudget_Apply 2 (Some (\<lambda>_. 1)) [user_message ''a'', user_message ''b'', user_message ''c'']
     = Inr (CloneMessages (drop k [user_message ''a'', user_message ''b'', user_message ''c'']))"
  using token_budget_longest_suffix [of 2 "\<lambda>_. 1" "[user_message ''a'', user_message ''b'', user_message ''c'']"]
  by (auto simp: est_ok_def tokens_from_def)

text \<open>
  The binary search of \<open>truncateTextMessage\<close> finds the best cut. For an estimator that is
  monotone in the length of the text it never reports a negative estimate; whenever it returns
  a message, that message is the text cut to some number of runes and fits \<open>MaxTokens\<close>, and no
  longer cut would fit; and if even the empty text does not fit it reports the budget error.
\<close>

theorem truncate_optimal:
  assumes "cut_monotone est m" and "msg_content m \<noteq> []"
  defines "len \<equiv> rune_count (cb_text (hd (msg_content m)))"
  shows "(\<exists>n\<le>len. est (cut_text m n) \<le> mx \<and> (\<forall>j\<le>len. est (cut_text m j) \<le> mx \<longrightarrow> j \<le> n)
           \<and> truncateTextMessage m mx est =
               (if trim_space (cb_text (hd (msg_content (cut_text m n)))) = []
                then Inl (EText ''contextwindow: summary cannot fit budget'') else Inr (cut_text m n)))
     \<or> (mx < est (cut_text m 0) \<and> truncateTextMessage m mx est = Inl (EText ''contextwindow: summary cannot fit budget''))"
proof -
  from truncate_search_complete [OF assms(1), of 0 "-1" mx "int len"] obtain r where
    r: "truncate_search m mx est 0 (int len) (-1) = Inr r" "-1 \<le> r"
      "\<And>j. 0 \<le> j \<and> j \<le> int len \<and> est (cut_text m (nat j)) \<le> mx \<Longrightarrow> j \<le> r" by auto
  have trunc: "truncateTextMessage m mx est =
      (if r < 0 then Inl (EText ''contextwindow: summary cannot fit budget'')
       else if trim_space (cb_text (hd (msg_content (cut_text m (nat r))))) = []
       then Inl (EText ''contextwindow: summary cannot fit budget'') else Inr (cut_text m (nat r)))"
    using assms(2) r(1) by (simp add: truncateTextMessage_def len_def)
  show ?thesis
  proof (cases "r < 0")
    case True
    with r(3) [of 0] trunc show ?thesis by auto
  next
    case False
    with truncate_search_sound [OF r(1)] have fits: "nat r \<le> len" "est (cut_text m (nat r)) \<le> mx" by auto
    have "j \<le> nat r" if "j \<le> len" "est (cut_text m j) \<le> mx" for j using r(3) [of "int j"] that False by simp
    with fits trunc False show ?thesis by auto
  qed
qed

lemma cut_text_runes:
  "msg_content m = b # bs \<Longrightarrow> EstimateByRunes (cut_text m n) =
     int (min n (rune_count (cb_text b))) + (EstimateByRunes (cut_text m 0))"
  by (simp add: EstimateByRunes_def cut_text_def CloneContentBlocks_def rune_count_string_of_runes)
    (simp add: rune_count_def string_of_runes_def)

lemma EstimateByRunes_cut_monotone: "cut_monotone EstimateByRunes m"
proof (cases "msg_content m")
  case Nil
  then show ?thesis by (simp add: cut_monotone_def EstimateByRunes_def cut_text_def CloneContentBlocks_def)
next
  case (Cons b bs)
  show ?thesis unfolding cut_monotone_def
  proof (intro conjI allI impI)
    fix a b' :: nat
    assume "a \<le> b'"
    then show "EstimateByRunes (cut_text m a) \<le> EstimateByRunes (cut_text m b')"
      unfolding cut_text_runes [OF Cons, of a] cut_text_runes [OF Cons, of b'] by linarith
  qed simp
qed

theorem truncate_optimal_witness:
  "(\<exists>n\<le>2. EstimateByRunes (cut_text (user_message ''hi'') n) \<le> 1
       \<and> (\<forall>j\<le>2. EstimateByRunes (cut_text (user_message ''hi'') j) \<le> 1 \<longrightarrow> j \<le> n)
       \<and> truncateTextMessage (user_message ''hi'') 1 EstimateByRunes =
           (if trim_space (cb_text (hd (msg_content (cut_text (user_message ''hi'') n)))) = []
            then Inl (EText ''contextwindow: summary cannot fit budget'') else Inr (cut_text (user_message ''hi'') n)))"
proof -
  have c: "msg_content (user_message ''hi'') \<noteq> []" by (simp add: user_message_def content_message_def)
  have l: "rune_count (cb_text (hd (msg_content (user_message ''hi'')))) = 2" by code_simp
  have z: "\<not> 1 < EstimateByRunes (cut_text (user_message ''hi'') 0)" by code_simp
  from truncate_optimal [OF EstimateByRunes_cut_monotone c, of 1] show ?thesis unfolding l using z by blast
qed

text \<open>
  \<open>PreserveImportant\<close> only adds: its output is the wrapped policy's selection preceded by
  copies of messages of the original transcript. The number of prepended messages is at most
  the limit (8 by default) or the size of the newest important group, whichever is larger, and
  the group of the newest important tool result (from the assistant message that asked for it)
  is in the output or was already part of the selection.
\<close>

theorem preserve_important_keeps_newest:
  assumes "0 \<le> mx0" and "i < length original" and "importantMessage (original ! i)"
    and "\<And>j. i < j \<Longrightarrow> j < length original \<Longrightarrow> \<not> importantMessage (original ! j)"
  defines "grp \<equiv> group_messages original (group_of original i)"
  shows "\<exists>retained. PreserveImportantMessages original selected mx0 = retained @ CloneMessages selected
    \<and> set retained \<subseteq> CloneMessage ` set original
    \<and> int (length retained) \<le> max (if mx0 = 0 then 8 else mx0) (int (group_size (group_of original i)))
    \<and> (messageGroupContained grp selected \<or> (\<exists>pre post. retained = pre @ grp @ post))
    \<and> last grp = CloneMessage (original ! i)"
proof -
  let ?gs = "retained_groups original selected mx0"
  define mx where "mx = (if mx0 = 0 then 8 else mx0)"
  obtain rest where rest: "rev (all_groups original) = group_of original i # rest"
    using all_groups_newest [OF assms(2,3,4)] by blast
  have len: "int (length (concat ?gs)) \<le> max mx (int (group_size (group_of original i)))"
    using retained_groups_length [OF assms(1), of original selected] by (simp add: rest mx_def)
  have sub: "set (concat ?gs) \<subseteq> CloneMessage ` set original"
  proof -
    have "set g \<subseteq> CloneMessage ` set original" if "g \<in> set ?gs" for g
      using that set_group_messages [of original]
      by (auto simp: retained_groups_def Let_def importantGroups_alt split: if_splits)
    then show ?thesis by (auto simp: UN_subset_iff)
  qed
  have "grp \<in> set (importantGroups original mx)" unfolding grp_def by (rule newest_group_selected [OF rest])
  then have "messageGroupContained grp selected \<or> grp \<in> set ?gs"
    using assms(1) by (auto simp: retained_groups_def mx_def Let_def)
  then have kept: "messageGroupContained grp selected \<or> (\<exists>pre post. concat ?gs = pre @ grp @ post)"
    by (metis concat.simps(2) concat_append split_list)
  have "drop (fst (group_of original i)) (take (Suc i) original) \<noteq> []"
    using group_of_bounds [of original i] assms(2) by simp
  then have "last grp = CloneMessage (original ! i)"
    using group_of_bounds [of original i] assms(2)
    by (simp add: grp_def group_messages_def CloneMessages_def last_map take_Suc_conv_app_nth)
  with len sub kept Preserve_decompose [of original selected mx0] show ?thesis unfolding mx_def by blast
qed

definition demo_error_transcript :: "message list" where
  "demo_error_transcript =
     [content_message RoleAssistant [use_block \<lparr>use_id = ''a'', use_name = ''ls'', use_input = empty_object\<rparr>],
      tool_message \<lparr>tr_use_id = ''a'', tr_name = ''ls'', tr_content = ''boom'', tr_is_error = True, tr_metadata = []\<rparr>]"

theorem preserve_important_keeps_newest_witness:
  "\<exists>retained. PreserveImportantMessages demo_error_transcript [user_message ''go''] 0
      = retained @ CloneMessages [user_message ''go'']
    \<and> (messageGroupContained (group_messages demo_error_transcript (0, 2)) [user_message ''go'']
        \<or> (\<exists>pre post. retained = pre @ group_messages demo_error_transcript (0, 2) @ post))"
proof -
  have len: "(1::nat) < length demo_error_transcript" by (simp add: demo_error_transcript_def)
  have imp: "importantMessage (demo_error_transcript ! 1)"
    by (simp add: demo_error_transcript_def importantMessage_def tool_message_def)
  have grp: "group_of demo_error_transcript 1 = (0, 2)" by code_simp
  have "\<not> importantMessage (demo_error_transcript ! j)" if "1 < j" "j < length demo_error_transcript" for j
    using that by (simp add: demo_error_transcript_def)
  from preserve_important_keeps_newest [OF order.refl len imp this, of "[user_message ''go'']"]
  show ?thesis unfolding grp by blast
qed

text \<open>
  \<open>SummarizingBudget\<close> loses nothing: below the trigger the transcript is returned unchanged
  (deep-copied); above it, the output is one marked summary message followed by the messages of
  the retained suffix that are not older summaries, everything else went to the summarizer, the
  record counts add up, and a transcript in which every tool use is answered stays one (when
  earlier summaries carry no tool uses and the summary role is not the tool role).
\<close>

theorem summarizing_accounts_for_all:
  assumes "SummarizingBudget_ApplyWithResult hash p w ms = (w', Inr r)"
    and "tool_adjacent ms" and "sb_role p \<noteq> RoleTool"
    and "\<And>m. m \<in> set ms \<Longrightarrow> IsSummaryMessage m \<Longrightarrow> \<not> is_tool m \<and> use_ids m = []"
  shows "tool_adjacent (pr_messages r)
    \<and> (case pr_compaction r of
         None \<Rightarrow> pr_messages r = CloneMessages ms \<and> w' = w
       | Some rec \<Rightarrow> (\<exists>k sm summ summary.
             pr_messages r = sm # CloneMessages (filter (\<lambda>m. \<not> IsSummaryMessage m) (drop k ms))
             \<and> IsSummaryMessage sm \<and> sb_summarizer p = Some summ
             \<and> summ w (CloneMessages (take k ms @ filter IsSummaryMessage (drop k ms))) = (w', Inr summary)
             \<and> cr_original rec = int (length ms) \<and> cr_sent rec = int (length (pr_messages r))
             \<and> cr_original rec = cr_summarized rec + cr_sent rec - 1))"
proof -
  from SummarizingBudget_Inr [OF assms(1)]
  consider (keep) "w' = w" "r = \<lparr>pr_messages = CloneMessages ms, pr_compaction = None\<rparr>"
    | (compact) summ k sm summary where "sb_summarizer p = Some summ"
        "newestSuffixStart ms (max 1 (sb_max p - summaryBudget p)) (the_estimate (sb_estimate p)) = Inr k"
        "summ w (CloneMessages (take k ms @ filter IsSummaryMessage (drop k ms))) = (w', Inr summary)"
        "summaryMessage hash p summary (summaryBudget p) (the_estimate (sb_estimate p)) = Inr sm"
        "r = \<lparr>pr_messages = sm # CloneMessages (filter (\<lambda>m. \<not> IsSummaryMessage m) (drop k ms)),
              pr_compaction = Some (summarizing_record ms sm
                   (CloneMessages (filter (\<lambda>m. \<not> IsSummaryMessage m) (drop k ms)))
                   (CloneMessages (take k ms @ filter IsSummaryMessage (drop k ms))))\<rparr>"
    by blast
  then show ?thesis
  proof cases
    case keep
    with assms(2) show ?thesis by simp
  next
    case compact
    let ?rest = "filter (\<lambda>m. \<not> IsSummaryMessage m) (drop k ms)"
    have k: "k \<le> length ms" "cut_at ms k" using newestSuffixStart_cut [OF compact(2)] by auto
    have rest: "tool_adjacent ?rest"
      by (rule tool_adjacent_filter) (use tool_adjacent_cut [OF assms(2) k(2)] assms(4) in_set_dropD in \<open>fastforce+\<close>)
    have plain: "plain_summary (summaryRole p) sm" using summaryMessage_Inr [OF compact(4)] by blast
    then have "tool_adjacent (sm # CloneMessages ?rest)"
      using rest use_ids_plain assms(3)
      by (intro tool_adjacent_Cons_plain) (auto simp: plain_summary_def is_tool_def summaryRole_def)
    moreover have "int (length ms) = int (length (take k ms @ filter IsSummaryMessage (drop k ms))) + int (length ?rest)"
      using length_filter_split [of IsSummaryMessage "drop k ms"] k(1) by simp
    ultimately show ?thesis
      using compact plain by (auto simp: summarizing_record_def plain_summary_def)
  qed
qed

definition demo_budget :: "unit summarizing_budget" where
  "demo_budget = \<lparr>sb_max = 3, sb_trigger = 0, sb_max_summary = 2, sb_estimate = None,
     sb_summarizer = Some (\<lambda>w ms. (w, Inr ''s'')), sb_role = [], sb_prefix = ''S''\<rparr>"

definition demo_long_transcript :: "message list" where
  "demo_long_transcript = [user_message ''aaa'', user_message ''b'']"

definition demo_compacted :: policy_result where
  "demo_compacted = \<lparr>pr_messages =
     [summary_draft (\<lambda>_. ''h'') demo_budget ''s'', user_message ''b''],
     pr_compaction = Some \<lparr>cr_policy = ''SummarizingBudget'', cr_reason = ''budget'', cr_original = 2, cr_sent = 2,
       cr_summarized = 1, cr_retained = 0, cr_replaced = 0, cr_hash = ''h'', cr_preview = ''Ss''\<rparr>\<rparr>"

lemma demo_compacts:
  "SummarizingBudget_ApplyWithResult (\<lambda>_. ''h'') demo_budget () demo_long_transcript = ((), Inr demo_compacted)"
proof -
  let ?sm = "summary_draft (\<lambda>_. ''h'') demo_budget ''s''"
  have e: "estimateMessages demo_long_transcript EstimateByRunes = Inr 4"
    and k: "newestSuffixStart demo_long_transcript 1 EstimateByRunes = Inr 1"
    and sm: "summaryMessage (\<lambda>_. ''h'') demo_budget ''s'' 2 EstimateByRunes = Inr ?sm"
    and split: "splitSummaryMessages (drop 1 demo_long_transcript) = ([user_message ''b''], [])"
    and rec: "summarizing_record demo_long_transcript ?sm [user_message ''b''] (CloneMessages (take 1 demo_long_transcript))
      = the (pr_compaction demo_compacted)"
    by code_simp+
  have p: "the_estimate (sb_estimate demo_budget) = EstimateByRunes" "sb_max demo_budget = 3" "triggerTokens demo_budget = 3"
    "summaryBudget demo_budget = 2" "sb_summarizer demo_budget = Some (\<lambda>w ms. (w, Inr ''s''))"
    by (simp_all add: demo_budget_def the_estimate_def triggerTokens_def summaryBudget_def)
  show ?thesis
    by (simp add: SummarizingBudget_ApplyWithResult_def p e k sm split [simplified] rec [simplified])
      (simp add: demo_compacted_def)
qed

theorem summarizing_accounts_for_all_witness:
  "tool_adjacent (pr_messages demo_compacted)"
proof -
  have adj: "tool_adjacent demo_long_transcript"
    by (simp add: demo_long_transcript_def use_ids_def assistantToolUses_def user_message_def content_message_def is_tool_def)
  have no: "\<not> is_tool m \<and> use_ids m = []" if "m \<in> set demo_long_transcript" "IsSummaryMessage m" for m
    using that by (auto simp: demo_long_transcript_def use_ids_def assistantToolUses_def user_message_def
        content_message_def is_tool_def)
  show ?thesis
    by (rule conjunct1 [OF summarizing_accounts_for_all [OF demo_compacts adj _ no]]) (simp add: demo_budget_def)
qed

text \<open>
  A compaction restores the budget. With the default rune estimator and a budget of at
  least two tokens, the compacted output costs at most \<open>MaxTokens\<close>, unless a single message of
  the transcript alone is larger than the part of the budget left for recent messages.
\<close>

theorem summarizing_fits_budget:
  assumes "SummarizingBudget_ApplyWithResult hash p w ms = (w', Inr r)" and "pr_compaction r \<noteq> None"
    and "sb_estimate p = None" and "2 \<le> sb_max p" and "CloneMessages ms = ms" and "est_ok EstimateByRunes ms"
  shows "tokens_from EstimateByRunes (pr_messages r) 0 \<le> sb_max p
    \<or> (\<exists>m. m \<in> set ms \<and> sb_max p - summaryBudget p < EstimateByRunes m)"
proof -
  let ?e = EstimateByRunes and ?rb = "sb_max p - summaryBudget p"
  have sb: "1 \<le> summaryBudget p" "summaryBudget p \<le> sb_max p - 1"
    using assms(4) by (auto simp: summaryBudget_def Let_def)
  then have rb: "max 1 ?rb = ?rb" by simp
  from SummarizingBudget_Inr [OF assms(1)] assms(2) obtain summary k sm where
    k: "newestSuffixStart ms ?rb ?e = Inr k" and sm: "summaryMessage hash p summary (summaryBudget p) ?e = Inr sm"
    and r: "pr_messages r = sm # CloneMessages (filter (\<lambda>m. \<not> IsSummaryMessage m) (drop k ms))"
    unfolding assms(3) the_estimate_def rb by fastforce
  have cost: "?e sm \<le> summaryBudget p" using summaryMessage_Inr [OF sm] sb(1) by auto
  have nn: "list_all (\<lambda>m. 0 \<le> ?e m) xs" for xs by (simp add: list_all_iff)
  have "CloneMessages (filter (\<lambda>m. \<not> IsSummaryMessage m) (drop k ms)) = filter (\<lambda>m. \<not> IsSummaryMessage m) (drop k ms)"
    using assms(5) unfolding CloneMessages_def by (intro map_idI) (metis in_set_dropD filter_is_subset map_eq_conv map_ident subsetD)
  then have out: "tokens_from ?e (pr_messages r) 0 \<le> ?e sm + tokens_from ?e ms k"
    using filter_tokens_le [OF nn, of _ "drop k ms"] by (simp add: r tokens_from_def)
  from newestSuffixStart_spec [OF assms(6), of ?rb] sb k obtain s where
    s: "s \<le> k" "tokens_from ?e ms s \<le> ?rb \<or> (s < length ms \<and> ?rb < ?e (ms ! s))" by auto
  show ?thesis
  proof (cases "tokens_from ?e ms s \<le> ?rb")
    case True
    with tokens_from_mono [OF nn s(1), of ms] out cost show ?thesis by linarith
  next
    case False
    with s(2) show ?thesis using nth_mem by blast
  qed
qed

theorem summarizing_fits_budget_witness:
  "tokens_from EstimateByRunes (pr_messages demo_compacted) 0 \<le> sb_max demo_budget
    \<or> (\<exists>m. m \<in> set demo_long_transcript \<and> sb_max demo_budget - summaryBudget demo_budget < EstimateByRunes m)"
proof (rule summarizing_fits_budget [OF demo_compacts])
  show "CloneMessages demo_long_transcript = demo_long_transcript" by code_simp
  show "est_ok EstimateByRunes demo_long_transcript" by code_simp
qed (simp_all add: demo_compacted_def demo_budget_def)

end
