(* ===== verification/Planner.thy ===== *)
theory Planner
  imports Tenant
begin

text \<open>
  \<open>planner/planner.go\<close>: plans, task lists and the policies that provide a plan for a model turn.
  A planning policy and a task source are host code acting on the world \<open>'w\<close>; \<open>ctxerr\<close> is
  \<open>ctx.Err()\<close>.
\<close>

section \<open>Plans and tasks\<close>

type_synonym status = string

abbreviation StatusPending :: status where "StatusPending \<equiv> ''pending''"
abbreviation StatusInProgress :: status where "StatusInProgress \<equiv> ''in_progress''"
abbreviation StatusCompleted :: status where "StatusCompleted \<equiv> ''completed''"
abbreviation StatusBlocked :: status where "StatusBlocked \<equiv> ''blocked''"
abbreviation StatusCanceled :: status where "StatusCanceled \<equiv> ''canceled''"

type_synonym plan_state = string

abbreviation StateActive :: plan_state where "StateActive \<equiv> ''active''"
abbreviation StateCompleted :: plan_state where "StateCompleted \<equiv> ''completed''"
abbreviation StateBlocked :: plan_state where "StateBlocked \<equiv> ''blocked''"
abbreviation StateCanceled :: plan_state where "StateCanceled \<equiv> ''canceled''"

record plan_step =
  st_id :: string
  st_title :: string
  st_status :: status
  st_notes :: string
  st_verification :: "string list"
  st_evidence :: "string list"
  st_tool_hints :: "string list"

record plan =
  pl_goal :: string
  pl_steps :: "plan_step list"
  pl_constraints :: "string list"
  pl_state :: plan_state

record task =
  tk_id :: string
  tk_title :: string
  tk_status :: status
  tk_notes :: string
  tk_priority :: int
  tk_verification :: "string list"
  tk_evidence :: "string list"
  tk_tool_hints :: "string list"

definition zero_plan :: plan where
  "zero_plan = \<lparr>pl_goal = [], pl_steps = [], pl_constraints = [], pl_state = []\<rparr>"

definition Plan_Empty :: "plan \<Rightarrow> bool" where
  "Plan_Empty p \<longleftrightarrow> trim_space (pl_goal p) = [] \<and> pl_steps p = [] \<and> pl_constraints p = [] \<and> pl_state p = []"

section \<open>Policies\<close>

record plan_request =
  prq_session :: string
  prq_parent :: string
  prq_messages :: "message list"
  prq_query :: string

type_synonym 'w plan_policy = "'w \<Rightarrow> plan_request \<Rightarrow> 'w \<times> (err + plan)"
type_synonym 'w task_source = "'w \<Rightarrow> plan_request \<Rightarrow> 'w \<times> (err + task list)"

text \<open>A plan is a value here, so \<open>clonePlan\<close> is the identity on it.\<close>

definition clonePlan :: "plan \<Rightarrow> plan" where
  "clonePlan p = p\<lparr>pl_constraints := pl_constraints p, pl_steps := pl_steps p\<rparr>"

definition Static_Prepare :: "('w \<Rightarrow> err option) \<Rightarrow> plan \<Rightarrow> 'w plan_policy" where
  "Static_Prepare ctxerr p w req =
     (w, case ctxerr w of Some e \<Rightarrow> Inl e | None \<Rightarrow> Inr (clonePlan (clonePlan p)))"

record 'w task_policy =
  tp_source :: "'w task_source option"
  tp_goal :: string
  tp_constraints :: "string list"
  tp_state :: plan_state
  tp_verification :: "string list"
  tp_tool_hints :: "string list"

definition WithTaskGoal :: "string \<Rightarrow> 'w task_policy \<Rightarrow> 'w task_policy" where
  "WithTaskGoal g p = p\<lparr>tp_goal := g\<rparr>"

definition WithTaskConstraints :: "string list \<Rightarrow> 'w task_policy \<Rightarrow> 'w task_policy" where
  "WithTaskConstraints cs p = p\<lparr>tp_constraints := cs\<rparr>"

definition WithTaskState :: "plan_state \<Rightarrow> 'w task_policy \<Rightarrow> 'w task_policy" where
  "WithTaskState s p = p\<lparr>tp_state := s\<rparr>"

definition WithTaskToolHints :: "string list \<Rightarrow> 'w task_policy \<Rightarrow> 'w task_policy" where
  "WithTaskToolHints hs p = p\<lparr>tp_tool_hints := hs\<rparr>"

definition WithTaskVerificationHints :: "string list \<Rightarrow> 'w task_policy \<Rightarrow> 'w task_policy" where
  "WithTaskVerificationHints hs p = p\<lparr>tp_verification := hs\<rparr>"

text \<open>The options are applied in order; a nil option is skipped.\<close>

definition FromTaskSource ::
  "'w task_source option \<Rightarrow> ('w task_policy \<Rightarrow> 'w task_policy) option list \<Rightarrow> 'w task_policy" where
  "FromTaskSource src opts =
     fold (\<lambda>opt p. case opt of None \<Rightarrow> p | Some f \<Rightarrow> f p) opts
       \<lparr>tp_source = src, tp_goal = [], tp_constraints = [], tp_state = [], tp_verification = [], tp_tool_hints = []\<rparr>"

section \<open>From tasks to a plan\<close>

definition task_before :: "task \<Rightarrow> task \<Rightarrow> bool" where
  "task_before l r =
     (if tk_priority l \<noteq> tk_priority r
      then (if tk_priority l = 0 then False else if tk_priority r = 0 then True else tk_priority l < tk_priority r)
      else str_less (tk_id l) (tk_id r))"

definition sortTasks :: "task list \<Rightarrow> task list" where
  "sortTasks ts = stable_sort task_before ts"

definition normalizeStatus :: "status \<Rightarrow> status" where
  "normalizeStatus s =
     (if s \<in> {StatusPending, StatusInProgress, StatusCompleted, StatusBlocked, StatusCanceled} then s else StatusPending)"

text \<open>The loop of \<open>inferState\<close> with its two flags.\<close>

fun infer_loop :: "task list \<Rightarrow> bool \<Rightarrow> bool \<Rightarrow> plan_state" where
  "infer_loop [] allCompleted allCanceled =
     (if allCompleted then StateCompleted else if allCanceled then StateCanceled else StateActive)"
| "infer_loop (t # ts) allCompleted allCanceled =
     (let s = normalizeStatus (tk_status t)
      in if s = StatusBlocked then StateBlocked
         else if s = StatusCanceled then infer_loop ts False allCanceled
         else if s = StatusCompleted then infer_loop ts allCompleted False
         else infer_loop ts False False)"

definition inferState :: "task list \<Rightarrow> plan_state" where
  "inferState ts = (if ts = [] then [] else infer_loop ts True True)"

definition task_named :: "task \<Rightarrow> bool" where
  "task_named t \<longleftrightarrow> \<not> (trim_space (tk_title t) = [] \<and> trim_space (tk_id t) = [])"

definition task_step :: "'w task_policy \<Rightarrow> task \<Rightarrow> plan_step" where
  "task_step p t =
     \<lparr>st_id = trim_space (tk_id t), st_title = trim_space (tk_title t), st_status = normalizeStatus (tk_status t),
      st_notes = trim_space (tk_notes t), st_verification = tp_verification p @ tk_verification t,
      st_evidence = tk_evidence t, st_tool_hints = tp_tool_hints p @ tk_tool_hints t\<rparr>"

definition TaskSource_Prepare :: "('w \<Rightarrow> err option) \<Rightarrow> 'w task_policy \<Rightarrow> 'w plan_policy" where
  "TaskSource_Prepare ctxerr p w req =
     (case ctxerr w of
        Some e \<Rightarrow> (w, Inl e)
      | None \<Rightarrow>
          (case tp_source p of
             None \<Rightarrow> (w, Inr zero_plan)
           | Some src \<Rightarrow>
               (case src w req of
                  (w1, Inl e) \<Rightarrow> (w1, Inl (EWrap ''load planner tasks: '' e))
                | (w1, Inr tasks0) \<Rightarrow>
                    (let tasks = sortTasks tasks0;
                         steps = map (task_step p) (filter task_named tasks)
                     in if steps = [] \<and> trim_space (tp_goal p) = [] \<and> tp_constraints p = [] \<and> tp_state p = []
                        then (w1, Inr zero_plan)
                        else (w1, Inr \<lparr>pl_goal = trim_space (tp_goal p), pl_steps = steps,
                                pl_constraints = tp_constraints p,
                                pl_state = (if tp_state p = [] then inferState tasks else tp_state p)\<rparr>)))))"

section \<open>Lemmas\<close>

lemma task_before_alt:
  "task_before l r =
     (if (if tk_priority l = 0 then 1 else 0 :: int) \<noteq> (if tk_priority r = 0 then 1 else 0)
      then (if tk_priority l = 0 then 1 else 0 :: int) < (if tk_priority r = 0 then 1 else 0)
      else if tk_priority l \<noteq> tk_priority r then tk_priority l < tk_priority r
      else str_less (tk_id l) (tk_id r))"
  by (auto simp: task_before_def)

lemma task_before_strict_weak: "strict_weak task_before"
proof -
  have "strict_weak (\<lambda>l r. str_less (tk_id l) (tk_id r))"
    by (rule strict_weak_on [OF str_less_strict_weak])
  from strict_weak_lex [OF strict_weak_lex [OF this, of tk_priority], of "\<lambda>t. if tk_priority t = 0 then 1 else 0"]
  show ?thesis unfolding task_before_alt [abs_def] .
qed

lemma infer_loop_spec:
  "infer_loop ts c x =
     (if list_ex (\<lambda>t. normalizeStatus (tk_status t) = StatusBlocked) ts then StateBlocked
      else if c \<and> list_all (\<lambda>t. normalizeStatus (tk_status t) = StatusCompleted) ts then StateCompleted
      else if x \<and> list_all (\<lambda>t. normalizeStatus (tk_status t) = StatusCanceled) ts then StateCanceled
      else StateActive)"
  by (induction ts c x rule: infer_loop.induct) (auto simp: Let_def)

lemma inferState_perm: "mset ts = mset us \<Longrightarrow> inferState ts = inferState us"
proof -
  assume m: "mset ts = mset us"
  then have "set ts = set us" "ts = [] \<longleftrightarrow> us = []" by (metis set_mset_mset, auto)
  then show ?thesis by (simp add: inferState_def infer_loop_spec list_ex_iff list_all_iff)
qed

section \<open>Properties\<close>

text \<open>
  The plan derived from a task source: its steps are exactly the named tasks, ordered by
  priority (zero last) and then id; unless the host fixes it, its state is blocked when some task
  is blocked, completed or canceled when all tasks are, and active otherwise, whatever the order
  of the tasks.
\<close>

theorem task_plan_faithful:
  assumes "ctxerr w = None" and "tp_source p = Some src" and "src w req = (w1, Inr tasks)"
  shows "\<exists>pl ts. TaskSource_Prepare ctxerr p w req = (w1, Inr pl)
    \<and> pl_steps pl = map (task_step p) (filter task_named ts) \<and> mset ts = mset tasks
    \<and> sorted_wrt (\<lambda>a b. \<not> task_before b a) ts
    \<and> (pl_steps pl \<noteq> [] \<and> tp_state p = [] \<longrightarrow>
         pl_state pl =
           (if list_ex (\<lambda>t. normalizeStatus (tk_status t) = StatusBlocked) tasks then StateBlocked
            else if list_all (\<lambda>t. normalizeStatus (tk_status t) = StatusCompleted) tasks then StateCompleted
            else if list_all (\<lambda>t. normalizeStatus (tk_status t) = StatusCanceled) tasks then StateCanceled
            else StateActive))"
proof (intro exI conjI)
  let ?ts = "sortTasks tasks"
  let ?pl = "projr (snd (TaskSource_Prepare ctxerr p w req))"
  show "TaskSource_Prepare ctxerr p w req = (w1, Inr ?pl)" and steps: "pl_steps ?pl = map (task_step p) (filter task_named ?ts)"
    using assms by (simp_all add: TaskSource_Prepare_def Let_def zero_plan_def)
  show m: "mset ?ts = mset tasks" by (simp add: sortTasks_def)
  show "sorted_wrt (\<lambda>a b. \<not> task_before b a) ?ts"
    unfolding sortTasks_def by (rule sorted_stable_sort [OF task_before_strict_weak])
  show "pl_steps ?pl \<noteq> [] \<and> tp_state p = [] \<longrightarrow> pl_state ?pl =
           (if list_ex (\<lambda>t. normalizeStatus (tk_status t) = StatusBlocked) tasks then StateBlocked
            else if list_all (\<lambda>t. normalizeStatus (tk_status t) = StatusCompleted) tasks then StateCompleted
            else if list_all (\<lambda>t. normalizeStatus (tk_status t) = StatusCanceled) tasks then StateCanceled
            else StateActive)"
  proof
    assume a: "pl_steps ?pl \<noteq> [] \<and> tp_state p = []"
    then have "filter task_named ?ts \<noteq> []" "tp_state p = []" using steps by auto
    then have "pl_state ?pl = inferState ?ts" using assms by (simp add: TaskSource_Prepare_def Let_def)
    moreover have "tasks \<noteq> []" using a steps m by auto
    ultimately show "pl_state ?pl =
           (if list_ex (\<lambda>t. normalizeStatus (tk_status t) = StatusBlocked) tasks then StateBlocked
            else if list_all (\<lambda>t. normalizeStatus (tk_status t) = StatusCompleted) tasks then StateCompleted
            else if list_all (\<lambda>t. normalizeStatus (tk_status t) = StatusCanceled) tasks then StateCanceled
            else StateActive)"
      using inferState_perm [OF m] by (simp add: inferState_def infer_loop_spec)
  qed
qed

definition demo_task :: "string \<Rightarrow> int \<Rightarrow> task" where
  "demo_task i prio = \<lparr>tk_id = i, tk_title = ''work'', tk_status = StatusCompleted, tk_notes = [], tk_priority = prio,
     tk_verification = [], tk_evidence = [], tk_tool_hints = []\<rparr>"

definition demo_task_policy :: "unit task_policy" where
  "demo_task_policy = FromTaskSource (Some (\<lambda>w req. (w, Inr [demo_task ''b'' 0, demo_task ''a'' 2]))) []"

theorem task_plan_faithful_witness:
  "\<exists>pl. TaskSource_Prepare (\<lambda>_. None) demo_task_policy ()
        \<lparr>prq_session = [], prq_parent = [], prq_messages = [], prq_query = []\<rparr> = ((), Inr pl)
     \<and> length (pl_steps pl) = 2 \<and> pl_state pl = StateCompleted"
proof -
  have src: "tp_source demo_task_policy = Some (\<lambda>w req. (w, Inr [demo_task ''b'' 0, demo_task ''a'' 2]))"
    and st: "tp_state demo_task_policy = []" and dn: "normalizeStatus (tk_status (demo_task i prio)) = StatusCompleted" for i prio
    by (simp_all add: demo_task_policy_def FromTaskSource_def demo_task_def normalizeStatus_def)
  have n: "filter task_named ts = ts" if "mset ts = mset [demo_task ''b'' 0, demo_task ''a'' 2]" for ts
  proof -
    have "task_named (demo_task i prio)" for i prio by (simp add: task_named_def demo_task_def) code_simp
    then have "\<forall>t \<in> set ts. task_named t" using mset_eq_setD [OF that] by simp
    then show ?thesis by (simp add: filter_id_conv)
  qed
  obtain pl ts where k: "TaskSource_Prepare (\<lambda>_. None) demo_task_policy ()
        \<lparr>prq_session = [], prq_parent = [], prq_messages = [], prq_query = []\<rparr> = ((), Inr pl)"
    "pl_steps pl = map (task_step demo_task_policy) (filter task_named ts)"
    "mset ts = mset [demo_task ''b'' 0, demo_task ''a'' 2]"
    "pl_steps pl \<noteq> [] \<longrightarrow> pl_state pl = StateCompleted"
    using task_plan_faithful [of "\<lambda>_. None" "()" demo_task_policy "\<lambda>w req. (w, Inr [demo_task ''b'' 0, demo_task ''a'' 2])"
        "\<lparr>prq_session = [], prq_parent = [], prq_messages = [], prq_query = []\<rparr>" "()" "[demo_task ''b'' 0, demo_task ''a'' 2]"]
    by (simp add: src st dn) (metis list.map_disc_iff)
  have "length ts = 2" using mset_eq_length [OF k(3)] by simp
  then have "length (pl_steps pl) = 2" using k(2) n [OF k(3)] by simp
  moreover have "pl_steps pl \<noteq> []" using calculation by auto
  ultimately show ?thesis using k by blast
qed

end
