(* ===== verification/Memory.thy ===== *)
theory Memory
  imports Planner
begin

text \<open>
  Package \<open>memory\<close>: durable memories, candidate memories distilled from a finished run, the
  in-memory store, source merging and the handler that persists candidates. Sources, writers and
  distillers supplied by the host act on the world \<open>'w\<close>; \<open>ctxerr\<close> is \<open>ctx.Err()\<close>.
\<close>

section \<open>Memories and candidates\<close>

type_synonym scope = string

abbreviation ScopeProject :: scope where "ScopeProject \<equiv> ''project''"
abbreviation ScopeUser :: scope where "ScopeUser \<equiv> ''user''"
abbreviation ScopeSession :: scope where "ScopeSession \<equiv> ''session''"
abbreviation ScopeOrganization :: scope where "ScopeOrganization \<equiv> ''organization''"
abbreviation ScopeCustom :: scope where "ScopeCustom \<equiv> ''custom''"

record memory =
  me_id :: string
  me_name :: string
  me_scope :: scope
  me_description :: string
  me_content :: string
  me_priority :: int
  me_always_on :: bool
  me_tags :: "string list"
  me_metadata :: metadata

record candidate =
  cd_memory :: memory
  cd_reason :: string
  cd_confidence :: rat

definition clone_memory :: "memory \<Rightarrow> memory" where
  "clone_memory m = m\<lparr>me_id := trim_space (me_id m), me_metadata := CloneMetadata (me_metadata m)\<rparr>"

definition cloneMemories :: "memory list \<Rightarrow> memory list" where
  "cloneMemories ms = map clone_memory ms"

definition CloneCandidates :: "candidate list \<Rightarrow> candidate list" where
  "CloneCandidates cs = map (\<lambda>c. c\<lparr>cd_memory := clone_memory (cd_memory c)\<rparr>) cs"

definition normalizeScope :: "scope \<Rightarrow> scope" where
  "normalizeScope s = (if s = [] then ScopeCustom else s)"

definition trimStrings :: "string list \<Rightarrow> string list" where
  "trimStrings vs = filter (\<lambda>v. v \<noteq> []) (map trim_space vs)"

definition normalizeMemory :: "memory \<Rightarrow> memory" where
  "normalizeMemory m =
     \<lparr>me_id = trim_space (me_id m), me_name = trim_space (me_name m), me_scope = normalizeScope (me_scope m),
      me_description = trim_space (me_description m), me_content = trim_space (me_content m),
      me_priority = me_priority m, me_always_on = me_always_on m, me_tags = trimStrings (me_tags m),
      me_metadata = CloneMetadata (me_metadata m)\<rparr>"

section \<open>Distillation\<close>

record distill_request =
  dq_session :: string
  dq_parent :: string
  dq_messages :: "message list"
  dq_plan :: plan
  dq_result :: string

type_synonym 'w distiller = "'w \<Rightarrow> distill_request \<Rightarrow> 'w \<times> (err + candidate list)"

record candidate_request =
  cq_session :: string
  cq_parent :: string
  cq_messages :: "message list"
  cq_plan :: plan
  cq_result :: string
  cq_candidates :: "candidate list"

type_synonym 'w candidate_handler = "'w \<Rightarrow> candidate_request \<Rightarrow> 'w \<times> err option"

definition StaticDistiller_Distill :: "('w \<Rightarrow> err option) \<Rightarrow> candidate list \<Rightarrow> 'w distiller" where
  "StaticDistiller_Distill ctxerr cs w req =
     (w, case ctxerr w of Some e \<Rightarrow> Inl e | None \<Rightarrow> Inr (CloneCandidates cs))"

record distill_rule =
  ru_result :: string
  ru_plan :: string
  ru_memory :: memory
  ru_why :: string
  ru_confidence :: rat

definition planSearchText :: "plan \<Rightarrow> string" where
  "planSearchText p =
     pl_goal p @ '' '' @ pl_state p
     @ concat (map (\<lambda>c. '' '' @ c) (pl_constraints p))
     @ concat (map (\<lambda>s. '' '' @ st_id s @ '' '' @ st_title s @ '' '' @ st_status s @ '' '' @ st_notes s
         @ concat (map (\<lambda>e. '' '' @ e) (st_evidence s)) @ concat (map (\<lambda>h. '' '' @ h) (st_tool_hints s))) (pl_steps p))"

definition containsFold :: "unicode \<Rightarrow> string \<Rightarrow> string \<Rightarrow> bool" where
  "containsFold U haystackLower needle =
     (let n = to_lower U (trim_space needle) in n = [] \<or> contains haystackLower n)"

definition RuleDistiller_Distill :: "unicode \<Rightarrow> ('w \<Rightarrow> err option) \<Rightarrow> distill_rule list \<Rightarrow> 'w distiller" where
  "RuleDistiller_Distill U ctxerr rules w req =
     (w, case ctxerr w of
           Some e \<Rightarrow> Inl e
         | None \<Rightarrow>
             (let resultText = to_lower U (dq_result req); planText = to_lower U (planSearchText (dq_plan req))
              in Inr (map (\<lambda>r. \<lparr>cd_memory = clone_memory (ru_memory r), cd_reason = trim_space (ru_why r),
                                cd_confidence = ru_confidence r\<rparr>)
                   (filter (\<lambda>r. containsFold U resultText (ru_result r) \<and> containsFold U planText (ru_plan r)) rules))))"

section \<open>Persisting candidates\<close>

record put_memory =
  pm_session :: string
  pm_parent :: string
  pm_memory :: memory

record put_result =
  pt_memory :: memory
  pt_created :: bool
  pt_updated :: bool

type_synonym 'w writer = "'w \<Rightarrow> put_memory \<Rightarrow> 'w \<times> (err + put_result)"

record 'w writer_handler =
  wh_writer :: "'w writer option"
  wh_min_confidence :: rat
  wh_scopes :: "scope list"

definition candidate_accepted :: "'w writer_handler \<Rightarrow> candidate \<Rightarrow> bool" where
  "candidate_accepted h c \<longleftrightarrow>
     \<not> (0 < wh_min_confidence h \<and> cd_confidence c < wh_min_confidence h)
     \<and> (wh_scopes h = [] \<or> normalizeScope (me_scope (clone_memory (cd_memory c))) \<in> set (map normalizeScope (wh_scopes h)))"

text \<open>The loop over the accepted candidates, with the collected write errors.\<close>

fun write_candidates :: "unicode \<Rightarrow> 'w writer \<Rightarrow> candidate_request \<Rightarrow> 'w \<Rightarrow> candidate list \<Rightarrow> 'w \<times> err list" where
  "write_candidates U put req w [] = (w, [])"
| "write_candidates U put req w (c # cs) =
     (let item = clone_memory (cd_memory c);
          (w1, r) = put w \<lparr>pm_session = cq_session req, pm_parent = cq_parent req, pm_memory = item\<rparr>;
          (w2, es) = write_candidates U put req w1 cs
      in (w2, (case r of
                 Inl e \<Rightarrow> EWrap (''write memory candidate '' @ quote U (me_name item) @ '': '') e # es
               | Inr _ \<Rightarrow> es)))"

text \<open>\<open>errors.Join\<close> of no error is nil.\<close>

definition join_errors :: "err list \<Rightarrow> err option" where
  "join_errors es = (if es = [] then None else Some (EJoin es))"

definition WriterHandler_HandleCandidates ::
  "unicode \<Rightarrow> ('w \<Rightarrow> err option) \<Rightarrow> 'w writer_handler \<Rightarrow> 'w candidate_handler" where
  "WriterHandler_HandleCandidates U ctxerr h w req =
     (case ctxerr w of
        Some e \<Rightarrow> (w, Some e)
      | None \<Rightarrow>
          (case wh_writer h of
             None \<Rightarrow> (w, Some (EText ''memory: nil candidate writer''))
           | Some put \<Rightarrow>
               (let (w1, es) = write_candidates U put req w (filter (candidate_accepted h) (cq_candidates req))
                in (w1, join_errors es))))"

end
