(* ===== verification/Run_Events.thy ===== *)
theory Run_Events
  imports Context_Window Memory
begin

text \<open>
  The events of a run (\<open>events.go\<close>), the typed events that \<open>agent.go\<close> derives from the metadata
  of a tool result, and \<open>Drain\<close>, which reads the outcome off an event stream. The run and
  notification payloads are used by the stacks only and are left out of the event record.
\<close>

section \<open>Payloads\<close>

record skill_event =
  sk_action :: string
  sk_skill :: string
  sk_resource :: string
  sk_query :: string
  sk_selected_skills :: "string list"
  sk_selected :: int
  sk_omitted :: int
  sk_matches :: int
  sk_prompt_bytes :: int
  sk_metadata_only :: bool

record workspace_event =
  ws_operation :: string
  ws_paths :: "string list"
  ws_changes :: int
  ws_added :: int
  ws_modified :: int
  ws_deleted :: int
  ws_byte_delta :: int
  ws_checkpoint :: string
  ws_base :: string

record verification_event =
  vf_operation :: string
  vf_name :: string
  vf_passed :: bool
  vf_diagnostics :: int
  vf_paths :: "string list"

record approval_summary =
  as_title :: string
  as_description :: string
  as_risk :: string
  as_paths :: "string list"
  as_changes :: int
  as_added :: int
  as_modified :: int
  as_deleted :: int
  as_byte_delta :: int

record approval_event =
  ap_action :: string
  ap_reason :: string
  ap_input_hash :: string
  ap_summary :: approval_summary
  ap_requested :: bool
  ap_approved :: bool
  ap_consumed :: bool
  ap_single_use :: bool
  ap_input_bound :: bool

record tenant_event =
  te_boundary :: string
  te_tenant :: string
  te_subject :: string
  te_attributes :: "(string, string) gomap"
  te_reason :: string

record command_event =
  cm_operation :: string
  cm_id :: string
  cm_command :: string
  cm_argv :: "string list"
  cm_cwd :: string
  cm_status :: string
  cm_pid :: int
  cm_tty :: bool
  cm_signals_tree :: bool
  cm_cols :: int
  cm_rows :: int
  cm_input_bytes :: int
  cm_exit_code :: int
  cm_timed_out :: bool
  cm_duration_ms :: int
  cm_stdout_bytes :: int
  cm_stderr_bytes :: int
  cm_output_truncated :: bool
  cm_next_seq :: int
  cm_resume_after_seq :: int
  cm_output_chunks :: int
  cm_dropped_chunks :: int
  cm_dropped_bytes :: int

text \<open>Every event of the run sets at most one group of payload fields: one constructor each.\<close>

datatype payload =
    NoPayload
  | PMessage message
  | PToolUse tool_use
  | PToolUseDelta tool_use string
  | PThinking string
  | PArtifact provider_artifact
  | PToolResult tool_result
  | PUsage usage
  | PContext int int
  | PCompaction compaction_record
  | PMemory "candidate list"
  | PSkill skill_event
  | PWorkspace workspace_event
  | PVerification verification_event
  | PApproval approval_event
  | PTenant tenant_event
  | PCommand command_event
  | PResult string "usage option"
  | PErr err

section \<open>Events\<close>

datatype event_kind =
    EventSessionStarted | EventModelRequest | EventAssistant | EventToolUseStart | EventToolUseDelta
  | EventToolUse | EventToolResult | EventUsage | EventContextApplied | EventContextCompacted
  | EventMemoryCandidates | EventMemoryCandidateHandlerError | EventSkillDiscovery | EventSkillSearch
  | EventSkillLoaded | EventSkillResourceLoaded | EventWorkspacePatch | EventWorkspaceDiff
  | EventWorkspaceCheckpoint | EventWorkspaceRestore | EventVerification | EventThinkingDelta
  | EventProviderArtifact | EventApprovalRequested | EventApprovalGranted | EventApprovalDenied
  | EventApprovalConsumed | EventTenantDenied | EventCommandFinished | EventCommandStarted
  | EventCommandOutput | EventCommandInput | EventCommandStopped | EventCommandResized | EventError | EventResult

record event =
  ev_kind :: event_kind
  ev_session :: string
  ev_parent :: string
  ev_turn :: int
  ev_time :: gotime
  ev_payload :: payload

definition newEvent :: "gotime \<Rightarrow> event_kind \<Rightarrow> string \<Rightarrow> int \<Rightarrow> event" where
  "newEvent now kind sid turn =
     \<lparr>ev_kind = kind, ev_session = sid, ev_parent = [], ev_turn = turn, ev_time = now, ev_payload = NoPayload\<rparr>"

text \<open>\<open>Drain\<close> stops at the first terminal event; a stream without one gives an empty result.\<close>

fun Drain :: "event list \<Rightarrow> string \<times> err option" where
  "Drain [] = ([], None)"
| "Drain (e # es) =
     (case ev_kind e of
        EventResult \<Rightarrow> (case ev_payload e of PResult r _ \<Rightarrow> (r, None) | _ \<Rightarrow> ([], None))
      | EventError \<Rightarrow> (case ev_payload e of PErr x \<Rightarrow> ([], Some x) | _ \<Rightarrow> ([], None))
      | _ \<Rightarrow> Drain es)"

section \<open>Events derived from tool results\<close>

text \<open>
  What each \<open>emit...ToolEvent\<close> function sends for one tool result, in order, as kind and payload.
\<close>

type_synonym draft = "event_kind \<times> payload"

definition metadataStrings :: "metadata \<Rightarrow> string \<Rightarrow> string list" where
  "metadataStrings m k =
     (case map_of m k of
        Some (VStrings vs) \<Rightarrow> vs
      | Some (VList vs) \<Rightarrow> concat (map (\<lambda>v. case v of VString s \<Rightarrow> [s] | _ \<Rightarrow> []) vs)
      | _ \<Rightarrow> [])"

definition zero_skill_event :: skill_event where
  "zero_skill_event = \<lparr>sk_action = [], sk_skill = [], sk_resource = [], sk_query = [], sk_selected_skills = [],
     sk_selected = 0, sk_omitted = 0, sk_matches = 0, sk_prompt_bytes = 0, sk_metadata_only = False\<rparr>"

definition skill_tool_events :: "tool_result \<Rightarrow> draft list" where
  "skill_tool_events r =
     (let md = tr_metadata r
      in if metadata_bool md ''skill_search''
         then [(EventSkillSearch, PSkill (zero_skill_event\<lparr>sk_action := ''search'',
                 sk_query := metadata_string md ''query'', sk_matches := metadata_int md ''matches'',
                 sk_metadata_only := metadata_bool md ''metadata_only''\<rparr>))]
         else if metadata_bool md ''loaded_skill''
         then [(EventSkillLoaded, PSkill (zero_skill_event\<lparr>sk_action := ''load'',
                 sk_skill := metadata_string md ''skill_name''\<rparr>))]
         else if metadata_bool md ''loaded_skill_resource''
         then [(EventSkillResourceLoaded, PSkill (zero_skill_event\<lparr>sk_action := ''resource_load'',
                 sk_skill := metadata_string md ''skill_name'', sk_resource := metadata_string md ''resource''\<rparr>))]
         else [])"

definition workspace_event_of :: "metadata \<Rightarrow> workspace_event" where
  "workspace_event_of md =
     \<lparr>ws_operation = metadata_string md ''workspace_operation'',
      ws_paths = metadataStrings md ''workspace_paths'',
      ws_changes = metadata_int md ''workspace_changes'',
      ws_added = metadata_int md ''workspace_added'',
      ws_modified = metadata_int md ''workspace_modified'',
      ws_deleted = metadata_int md ''workspace_deleted'',
      ws_byte_delta = metadata_int md ''workspace_byte_delta'',
      ws_checkpoint = metadata_string md ''workspace_checkpoint_id'',
      ws_base = metadata_string md ''workspace_base_id''\<rparr>"

definition checkpoint_event :: "string \<Rightarrow> workspace_event" where
  "checkpoint_event i = \<lparr>ws_operation = ''checkpoint'', ws_paths = [], ws_changes = 0, ws_added = 0, ws_modified = 0,
     ws_deleted = 0, ws_byte_delta = 0, ws_checkpoint = i, ws_base = []\<rparr>"

definition workspace_tool_events :: "tool_result \<Rightarrow> draft list" where
  "workspace_tool_events r =
     (let md = tr_metadata r; we = workspace_event_of md; operation = ws_operation we
      in if operation = ''patch''
         then (if metadata_bool md ''auto_checkpoint'' \<and> ws_checkpoint we \<noteq> []
               then [(EventWorkspaceCheckpoint, PWorkspace (checkpoint_event (ws_checkpoint we)))] else [])
              @ [(EventWorkspacePatch, PWorkspace we)]
         else if operation = ''diff'' then [(EventWorkspaceDiff, PWorkspace we)]
         else if operation = ''checkpoint'' then [(EventWorkspaceCheckpoint, PWorkspace we)]
         else if operation = ''restore'' then [(EventWorkspaceRestore, PWorkspace we)]
         else [])"

definition verification_tool_events :: "tool_result \<Rightarrow> draft list" where
  "verification_tool_events r =
     (let md = tr_metadata r; operation = metadata_string md ''verification_operation''
      in if operation = ''verify''
         then [(EventVerification, PVerification
                 \<lparr>vf_operation = operation, vf_name = metadata_string md ''verification_name'',
                  vf_passed = metadata_bool md ''verification_passed'',
                  vf_diagnostics = metadata_int md ''verification_diagnostics'',
                  vf_paths = metadataStrings md ''verification_paths''\<rparr>)]
         else [])"

definition approvalSummaryFromMetadata :: "metadata \<Rightarrow> approval_summary" where
  "approvalSummaryFromMetadata md =
     \<lparr>as_title = metadata_string md ''approval_summary_title'',
      as_description = metadata_string md ''approval_summary_description'',
      as_risk = metadata_string md ''approval_summary_risk'',
      as_paths = metadataStrings md ''approval_summary_paths'',
      as_changes = metadata_int md ''approval_summary_changes'',
      as_added = metadata_int md ''approval_summary_added'',
      as_modified = metadata_int md ''approval_summary_modified'',
      as_deleted = metadata_int md ''approval_summary_deleted'',
      as_byte_delta = metadata_int md ''approval_summary_byte_delta''\<rparr>"

definition zero_summary :: approval_summary where
  "zero_summary = \<lparr>as_title = [], as_description = [], as_risk = [], as_paths = [], as_changes = 0, as_added = 0,
     as_modified = 0, as_deleted = 0, as_byte_delta = 0\<rparr>"

definition approval_tool_events :: "tool_result \<Rightarrow> draft list" where
  "approval_tool_events r =
     (let md = tr_metadata r; inputHash = metadata_string md ''approval_input_hash''; inputBound = (inputHash \<noteq> []);
          consumed = (if metadata_bool md ''approval_consumed''
            then [(EventApprovalConsumed, PApproval
                    \<lparr>ap_action = metadata_string md ''approval_action'', ap_reason = [], ap_input_hash = inputHash,
                     ap_summary = zero_summary, ap_requested = False, ap_approved = False, ap_consumed = True,
                     ap_single_use = metadata_bool md ''approval_single_use'', ap_input_bound = inputBound\<rparr>)]
            else []);
          ae = \<lparr>ap_action = metadata_string md ''approval_action'', ap_reason = metadata_string md ''approval_reason'',
                ap_input_hash = inputHash, ap_summary = approvalSummaryFromMetadata md, ap_requested = False,
                ap_approved = metadata_bool md ''approval_approved'', ap_consumed = False, ap_single_use = False,
                ap_input_bound = inputBound\<rparr>
      in if metadata_string md ''approval_operation'' \<noteq> ''request'' then consumed
         else consumed @ [(EventApprovalRequested, PApproval (ae\<lparr>ap_requested := True\<rparr>)),
                (if ap_approved ae then EventApprovalGranted else EventApprovalDenied, PApproval ae)])"

definition command_event_of :: "metadata \<Rightarrow> command_event" where
  "command_event_of md =
     \<lparr>cm_operation = metadata_string md ''command_operation'',
      cm_id = metadata_string md ''command_session_id'',
      cm_command = metadata_string md ''command_string'',
      cm_argv = metadataStrings md ''command_argv'',
      cm_cwd = metadata_string md ''command_cwd'',
      cm_status = metadata_string md ''command_status'',
      cm_pid = metadata_int md ''command_pid'',
      cm_tty = metadata_bool md ''command_tty'',
      cm_signals_tree = metadata_bool md ''command_signals_process_tree'',
      cm_cols = metadata_int md ''command_cols'',
      cm_rows = metadata_int md ''command_rows'',
      cm_input_bytes = metadata_int md ''command_input_bytes'',
      cm_exit_code = metadata_int md ''command_exit_code'',
      cm_timed_out = metadata_bool md ''command_timed_out'',
      cm_duration_ms = metadata_int md ''command_duration_ms'',
      cm_stdout_bytes = metadata_int md ''command_stdout_bytes'',
      cm_stderr_bytes = metadata_int md ''command_stderr_bytes'',
      cm_output_truncated = metadata_bool md ''command_output_truncated'',
      cm_next_seq = metadata_int md ''command_next_seq'',
      cm_resume_after_seq = metadata_int md ''command_resume_after_seq'',
      cm_output_chunks = metadata_int md ''command_output_chunks'',
      cm_dropped_chunks = metadata_int md ''command_dropped_chunks'',
      cm_dropped_bytes = metadata_int md ''command_dropped_bytes''\<rparr>"

definition command_tool_events :: "tool_result \<Rightarrow> draft list" where
  "command_tool_events r =
     (let ce = command_event_of (tr_metadata r); operation = cm_operation ce
      in if operation = ''run'' then [(EventCommandFinished, PCommand ce)]
         else if operation = ''start'' then [(EventCommandStarted, PCommand ce)]
         else if operation = ''write'' then [(EventCommandInput, PCommand ce)]
         else if operation = ''read'' \<or> operation = ''wait'' then [(EventCommandOutput, PCommand ce)]
         else if operation = ''stop'' then [(EventCommandStopped, PCommand ce)]
         else if operation = ''resize'' then [(EventCommandResized, PCommand ce)]
         else [])"

section \<open>Tenant denials\<close>

definition tenantEventFromRequest :: "tenant_request \<Rightarrow> string \<Rightarrow> tenant_event" where
  "tenantEventFromRequest req reason =
     \<lparr>te_boundary = tq_boundary req, te_tenant = sc_id (tq_scope req), te_subject = sc_subject (tq_scope req),
      te_attributes = put_all [] (sc_attributes (tq_scope req)), te_reason = reason\<rparr>"

text \<open>A denial is sent with the session and parent of the request.\<close>

definition tenant_denied_event :: "gotime \<Rightarrow> string \<Rightarrow> int \<Rightarrow> tenant_request \<Rightarrow> string \<Rightarrow> event" where
  "tenant_denied_event now sid turn req reason =
     (newEvent now EventTenantDenied sid turn)\<lparr>ev_parent := tq_parent req,
        ev_payload := PTenant (tenantEventFromRequest req reason)\<rparr>"

definition tenant_tool_request :: "tenant_scope \<Rightarrow> string \<Rightarrow> string \<Rightarrow> tool_result \<Rightarrow> tenant_request" where
  "tenant_tool_request scp sid parent r =
     \<lparr>tq_boundary = metadata_string (tr_metadata r) ''tenant_denied_boundary'', tq_scope = scp, tq_session = sid,
      tq_parent = parent, tq_use_id = tr_use_id r, tq_tool = tr_name r, tq_read_only = False, tq_destructive = False,
      tq_concurrency_safe = False\<rparr>"

definition tenant_denied_request :: "tenant_scope \<Rightarrow> string \<Rightarrow> string \<Rightarrow> tenant_request \<Rightarrow> tenant_request" where
  "tenant_denied_request scp sid parent req =
     req\<lparr>tq_session := (if tq_session req = [] then sid else tq_session req),
         tq_parent := (if tq_parent req = [] then parent else tq_parent req),
         tq_scope := (if scope_is_zero (tq_scope req) then scope_clone scp else tq_scope req)\<rparr>"

end
