(* ===== verification/Budget.thy ===== *)
theory Budget
  imports Tenant
begin

text \<open>
  \<open>budget/budget.go\<close> and the budget accounting of \<open>agent.go\<close>: the governor interface, the
  zero-value-disabled policy, and the tracker whose snapshots are checked at every boundary.
\<close>

section \<open>Governors\<close>

text \<open>\<open>budget.Decision\<close>, and \<open>tool.Decision\<close>, which has the same fields.\<close>

record decision =
  dc_allow :: bool
  dc_reason :: string

definition allow :: decision where
  "allow = \<lparr>dc_allow = True, dc_reason = []\<rparr>"

definition deny_with :: "string \<Rightarrow> decision" where
  "deny_with r = \<lparr>dc_allow = False, dc_reason = r\<rparr>"

record snapshot =
  sn_started :: gotime
  sn_now :: gotime
  sn_elapsed :: duration
  sn_turns :: int
  sn_model_calls :: int
  sn_tool_calls :: int
  sn_usage :: usage

type_synonym 'w governor = "'w \<Rightarrow> snapshot \<Rightarrow> 'w \<times> decision"

section \<open>The policy\<close>

record budget_policy =
  bp_turns :: int
  bp_model_calls :: int
  bp_tool_calls :: int
  bp_input :: int
  bp_output :: int
  bp_total :: int
  bp_duration :: duration

definition Policy_Enabled :: "budget_policy \<Rightarrow> bool" where
  "Policy_Enabled p \<longleftrightarrow> 0 < bp_turns p \<or> 0 < bp_model_calls p \<or> 0 < bp_tool_calls p \<or> 0 < bp_input p
     \<or> 0 < bp_output p \<or> 0 < bp_total p \<or> 0 < bp_duration p"

definition exceeded :: "string \<Rightarrow> string \<Rightarrow> string \<Rightarrow> decision" where
  "exceeded name got limit =
     deny_with (''budget exceeded: '' @ name @ '' ('' @ got @ '' > '' @ limit @ '')'')"

text \<open>The defaults \<open>Check\<close> fills in: the current time and the elapsed time.\<close>

definition resolve_snapshot :: "gotime \<Rightarrow> snapshot \<Rightarrow> snapshot" where
  "resolve_snapshot now s =
     (let s1 = (if time_is_zero (sn_now s) then s\<lparr>sn_now := now\<rparr> else s)
      in if sn_elapsed s1 \<le> 0 \<and> \<not> time_is_zero (sn_started s1)
         then s1\<lparr>sn_elapsed := time_sub (sn_now s1) (sn_started s1)\<rparr> else s1)"

text \<open>\<open>ctxerr\<close> is \<open>ctx.Err()\<close>, \<open>now\<close> the clock.\<close>

definition Policy_Check :: "err option \<Rightarrow> gotime \<Rightarrow> budget_policy \<Rightarrow> snapshot \<Rightarrow> decision" where
  "Policy_Check ctxerr now p s0 =
     (case ctxerr of
        Some e \<Rightarrow> deny_with (err_msg e)
      | None \<Rightarrow>
          (if \<not> Policy_Enabled p then allow
           else let s = resolve_snapshot now s0
                in if 0 < bp_duration p \<and> bp_duration p < sn_elapsed s
                   then exceeded ''max duration'' (show_duration (sn_elapsed s)) (show_duration (bp_duration p))
                   else if 0 < bp_turns p \<and> bp_turns p < sn_turns s
                   then exceeded ''max turns'' (show_int (sn_turns s)) (show_int (bp_turns p))
                   else if 0 < bp_model_calls p \<and> bp_model_calls p < sn_model_calls s
                   then exceeded ''max model calls'' (show_int (sn_model_calls s)) (show_int (bp_model_calls p))
                   else if 0 < bp_tool_calls p \<and> bp_tool_calls p < sn_tool_calls s
                   then exceeded ''max tool calls'' (show_int (sn_tool_calls s)) (show_int (bp_tool_calls p))
                   else if 0 < bp_input p \<and> bp_input p < us_input (sn_usage s)
                   then exceeded ''max input tokens'' (show_int (us_input (sn_usage s))) (show_int (bp_input p))
                   else if 0 < bp_output p \<and> bp_output p < us_output (sn_usage s)
                   then exceeded ''max output tokens'' (show_int (us_output (sn_usage s))) (show_int (bp_output p))
                   else if 0 < bp_total p \<and> bp_total p < us_total (sn_usage s)
                   then exceeded ''max total tokens'' (show_int (us_total (sn_usage s))) (show_int (bp_total p))
                   else allow))"

text \<open>A policy as a governor of a world that provides the context and the clock.\<close>

definition Policy_governor ::
  "('w \<Rightarrow> err option) \<Rightarrow> ('w \<Rightarrow> gotime) \<Rightarrow> budget_policy \<Rightarrow> 'w governor" where
  "Policy_governor ctx clock p = (\<lambda>w s. (w, Policy_Check (ctx w) (clock w) p s))"

section \<open>The tracker of a run\<close>

record budget_tracker =
  bt_started :: gotime
  bt_turns :: int
  bt_model_calls :: int
  bt_tool_calls :: int
  bt_usage :: usage

definition tracker_snapshot :: "gotime \<Rightarrow> budget_tracker \<Rightarrow> snapshot" where
  "tracker_snapshot now t = \<lparr>sn_started = bt_started t, sn_now = now, sn_elapsed = time_sub now (bt_started t),
     sn_turns = bt_turns t, sn_model_calls = bt_model_calls t, sn_tool_calls = bt_tool_calls t,
     sn_usage = bt_usage t\<rparr>"

definition withModelCalls :: "gotime \<Rightarrow> budget_tracker \<Rightarrow> int \<Rightarrow> snapshot" where
  "withModelCalls now t delta = tracker_snapshot now (t\<lparr>bt_model_calls := bt_model_calls t + delta\<rparr>)"

definition withToolCalls :: "gotime \<Rightarrow> budget_tracker \<Rightarrow> int \<Rightarrow> snapshot" where
  "withToolCalls now t delta = tracker_snapshot now (t\<lparr>bt_tool_calls := bt_tool_calls t + delta\<rparr>)"

definition checkBudget :: "'w governor option \<Rightarrow> 'w \<Rightarrow> snapshot \<Rightarrow> 'w \<times> err option" where
  "checkBudget gov w s =
     (case gov of
        None \<Rightarrow> (w, None)
      | Some g \<Rightarrow>
          (let (w', d) = g w s
           in if dc_allow d then (w', None)
              else let r = trim_space (dc_reason d)
                   in (w', Some (EText (if r = [] then ''budget exceeded'' else r)))))"

section \<open>The contract\<close>

text \<open>What a configured policy promises: every positive limit is respected.\<close>

definition keeps_limit :: "int \<Rightarrow> int \<Rightarrow> bool" where
  "keeps_limit limit used \<longleftrightarrow> (0 < limit \<longrightarrow> used \<le> limit)"

definition within_budget :: "budget_policy \<Rightarrow> snapshot \<Rightarrow> bool" where
  "within_budget p s \<longleftrightarrow> keeps_limit (bp_duration p) (sn_elapsed s) \<and> keeps_limit (bp_turns p) (sn_turns s)
     \<and> keeps_limit (bp_model_calls p) (sn_model_calls s) \<and> keeps_limit (bp_tool_calls p) (sn_tool_calls s)
     \<and> keeps_limit (bp_input p) (us_input (sn_usage s)) \<and> keeps_limit (bp_output p) (us_output (sn_usage s))
     \<and> keeps_limit (bp_total p) (us_total (sn_usage s))"

lemma within_disabled: "\<not> Policy_Enabled p \<Longrightarrow> within_budget p s"
  by (auto simp: Policy_Enabled_def within_budget_def keeps_limit_def)

lemma exceeded_denies [simp]: "\<not> dc_allow (exceeded a b c)"
  by (simp add: exceeded_def deny_with_def)

lemma allow_allows [simp]: "dc_allow allow" by (simp add: allow_def)

lemma Policy_Check_within:
  "dc_allow (Policy_Check None now p s) \<longleftrightarrow> within_budget p (resolve_snapshot now s)"
proof (cases "Policy_Enabled p")
  case True
  then show ?thesis
    unfolding Policy_Check_def within_budget_def keeps_limit_def Let_def by (auto simp: not_less)
next
  case False
  then show ?thesis by (simp add: Policy_Check_def within_disabled)
qed

text \<open>Resources only grow during a run.\<close>

definition snapshot_le :: "snapshot \<Rightarrow> snapshot \<Rightarrow> bool" where
  "snapshot_le a b \<longleftrightarrow> sn_elapsed a \<le> sn_elapsed b \<and> sn_turns a \<le> sn_turns b
     \<and> sn_model_calls a \<le> sn_model_calls b \<and> sn_tool_calls a \<le> sn_tool_calls b
     \<and> us_input (sn_usage a) \<le> us_input (sn_usage b) \<and> us_output (sn_usage a) \<le> us_output (sn_usage b)
     \<and> us_total (sn_usage a) \<le> us_total (sn_usage b)"

lemma within_budget_mono: "snapshot_le a b \<Longrightarrow> within_budget p b \<Longrightarrow> within_budget p a"
  by (auto simp: snapshot_le_def within_budget_def keeps_limit_def)

text \<open>
  The contract of a governor that enforces limits: it decides by a predicate on snapshots that
  is closed under using less. A run that is checked at every boundary then stays within it.
\<close>

locale enforcing_governor =
  fixes check :: "snapshot \<Rightarrow> decision" and ok :: "snapshot \<Rightarrow> bool" and le :: "snapshot \<Rightarrow> snapshot \<Rightarrow> bool"
  assumes allow_ok: "dc_allow (check s) \<Longrightarrow> ok s"
    and ok_allow: "ok s \<Longrightarrow> dc_allow (check s)"
    and ok_mono: "le a b \<Longrightarrow> ok b \<Longrightarrow> ok a"
begin

lemma denial_is_final: "le a b \<Longrightarrow> \<not> dc_allow (check a) \<Longrightarrow> \<not> dc_allow (check b)"
  using allow_ok ok_allow ok_mono by blast

lemma checked_run_ok:
  assumes sorted: "sorted_wrt le ss" and ne: "ss \<noteq> []" and last: "dc_allow (check (last ss))" and s: "s \<in> set ss"
  shows "ok s"
proof -
  have "s = last ss \<or> le s (last ss)"
    using s sorted ne by (induction ss) auto
  then show ?thesis using allow_ok [OF last] ok_mono by blast
qed

end

interpretation policy: enforcing_governor
  "Policy_Check None now p" "\<lambda>s. within_budget p (resolve_snapshot now s)"
  "\<lambda>a b. snapshot_le (resolve_snapshot now a) (resolve_snapshot now b)"
  by unfold_locales (auto simp: Policy_Check_within intro: within_budget_mono)

text \<open>Snapshots a tracker takes are resolved already.\<close>

lemma resolve_tracker: "0 < now \<Longrightarrow> resolve_snapshot now' (tracker_snapshot now t) = tracker_snapshot now t"
  by (simp add: resolve_snapshot_def tracker_snapshot_def time_is_zero_def Let_def)

lemma checkBudget_policy:
  assumes "0 < now" and "ctx w = None"
  shows "checkBudget (Some (Policy_governor ctx clock p)) w (tracker_snapshot now t) = (w, None)
    \<longleftrightarrow> within_budget p (tracker_snapshot now t)"
  using assms Policy_Check_within [of "clock w" p "tracker_snapshot now t"]
  by (simp add: checkBudget_def Policy_governor_def resolve_tracker Let_def)

section \<open>Properties\<close>

text \<open>
  The budget policy enforces exactly its limits, independently and monotonically: on an
  uncancelled context a check allows a snapshot if and only if every positive limit is
  respected (non-positive limits do not constrain), a cancelled context is always denied, and a
  denied run that uses more of any resource is denied again.
\<close>

theorem budget_policy_enforces_limits:
  "(dc_allow (Policy_Check ctxerr now p s) \<longleftrightarrow> ctxerr = None \<and> within_budget p (resolve_snapshot now s))
   \<and> (snapshot_le (resolve_snapshot now s) (resolve_snapshot now s') \<longrightarrow>
        \<not> dc_allow (Policy_Check None now p s) \<longrightarrow> \<not> dc_allow (Policy_Check None now p s'))"
  using Policy_Check_within [of now p s] policy.denial_is_final [of now s s' p]
  by (cases ctxerr) (auto simp: Policy_Check_def deny_with_def)

definition demo_policy :: budget_policy where
  "demo_policy = \<lparr>bp_turns = 0, bp_model_calls = 2, bp_tool_calls = 0, bp_input = 0, bp_output = 0, bp_total = 0,
     bp_duration = 0\<rparr>"

definition demo_tracker :: "int \<Rightarrow> budget_tracker" where
  "demo_tracker calls = \<lparr>bt_started = 1, bt_turns = 1, bt_model_calls = calls, bt_tool_calls = 0, bt_usage = zero_usage\<rparr>"

theorem budget_policy_enforces_limits_witness:
  "dc_allow (Policy_Check None 5 demo_policy (tracker_snapshot 5 (demo_tracker 2)))
   \<and> \<not> dc_allow (Policy_Check None 5 demo_policy (tracker_snapshot 5 (demo_tracker 3)))
   \<and> \<not> dc_allow (Policy_Check None 5 demo_policy (tracker_snapshot 5 (demo_tracker 4)))"
proof -
  have ok: "within_budget demo_policy (resolve_snapshot 5 (tracker_snapshot 5 (demo_tracker 2)))"
    and over: "\<not> within_budget demo_policy (resolve_snapshot 5 (tracker_snapshot 5 (demo_tracker 3)))"
    and le: "snapshot_le (resolve_snapshot 5 (tracker_snapshot 5 (demo_tracker 3)))
      (resolve_snapshot 5 (tracker_snapshot 5 (demo_tracker 4)))"
    by code_simp+
  show ?thesis
    using ok over le budget_policy_enforces_limits [of None 5 demo_policy]
    by blast
qed

end
