(* ===== verification/Session_Store.thy ===== *)
theory Session_Store
  imports Model_Types
begin

text \<open>
  Package \<open>session\<close>: session ids, the in-memory reference store of \<open>session/store.go\<close> with
  creation, append, listing and forking, and the compaction checkpoints of
  \<open>session/compaction.go\<close>. Identifier generation (\<open>uuid.NewV7\<close>) and the clock are arguments.
\<close>

section \<open>Identifiers\<close>

definition is_hex :: "char \<Rightarrow> bool" where
  "is_hex c \<longleftrightarrow> (48 \<le> byte c \<and> byte c \<le> 57) \<or> (97 \<le> byte c \<and> byte c \<le> 102)
     \<or> (65 \<le> byte c \<and> byte c \<le> 70)"

text \<open>The regular expression for the textual form 8-4-4-4-12 of a UUID, in either case.\<close>

definition sessionIDPattern :: "string \<Rightarrow> bool" where
  "sessionIDPattern s \<longleftrightarrow>
     length s = 36
     \<and> list_all (\<lambda>(i, c). if i = 8 \<or> i = 13 \<or> i = 18 \<or> i = 23 then c = CHR ''-'' else is_hex c)
         (enumerate 0 s)"

definition ascii_lower :: "char \<Rightarrow> char" where
  "ascii_lower c = (if 65 \<le> byte c \<and> byte c \<le> 90 then char_of (byte c + 32) else c)"

definition CanonicalID :: "string \<Rightarrow> string option" where
  "CanonicalID s = (if sessionIDPattern s then Some (map ascii_lower s) else None)"

definition ValidID :: "string \<Rightarrow> bool" where
  "ValidID s \<longleftrightarrow> CanonicalID s \<noteq> None"

section \<open>Data\<close>

datatype session_error =
    InvalidSessionID string
  | InvalidParentID string
  | UnknownSession string
  | MessageNotFound string
  | IDGeneration string
  | InvalidCompactionID string
  | NegativeRawCount
  | RawCountExceeds int int
  | StoreRequired
  | ListingUnsupported
  | ForkingUnsupported

record session =
  se_id :: string
  se_parent :: string
  se_created :: gotime

record checkpoint =
  cp_id :: string
  cp_created :: gotime
  cp_raw_count :: int
  cp_messages :: "message list"
  cp_policy :: string
  cp_reason :: string
  cp_summary_hash :: string
  cp_summary_preview :: string

record memory_session =
  ms_session :: session
  ms_messages :: "message list"
  ms_compaction :: "checkpoint option"

record message_view =
  mv_messages :: "message list"
  mv_raw_count :: int
  mv_compaction :: "checkpoint option"

record fork_options =
  fo_parent :: string
  fo_through :: string

type_synonym mem_store = "(string, memory_session) gomap"

text \<open>The outcome of one call of \<open>newID\<close>.\<close>

type_synonym new_id = "session_error + string"

section \<open>Helpers\<close>

definition canonicalRequiredID :: "string \<Rightarrow> session_error + string" where
  "canonicalRequiredID s =
     (case CanonicalID s of None \<Rightarrow> Inl (InvalidSessionID s) | Some c \<Rightarrow> Inr c)"

definition canonicalParentID :: "string \<Rightarrow> session_error + string" where
  "canonicalParentID s =
     (if s = [] then Inr []
      else case CanonicalID s of None \<Rightarrow> Inl (InvalidParentID s) | Some c \<Rightarrow> Inr c)"

definition session_less :: "session \<Rightarrow> session \<Rightarrow> bool" where
  "session_less l r =
     (if se_created l \<noteq> se_created r then se_created l < se_created r
      else str_less (se_id l) (se_id r))"

definition sortSessions :: "session list \<Rightarrow> session list" where
  "sortSessions = stable_sort session_less"

fun through_index :: "message list \<Rightarrow> string \<Rightarrow> nat option" where
  "through_index [] i = None"
| "through_index (m # ms) i =
     (if msg_id m = i then Some 1 else map_option Suc (through_index ms i))"

definition forkMessages :: "message list \<Rightarrow> string \<Rightarrow> session_error + message list" where
  "forkMessages ms through =
     (if through = [] then Inr (CloneMessages ms)
      else case through_index ms through of
        None \<Rightarrow> Inl (MessageNotFound through)
      | Some limit \<Rightarrow> Inr (CloneMessages (take limit ms)))"

definition normalizeCompactionCheckpoint ::
  "new_id \<Rightarrow> gotime \<Rightarrow> checkpoint \<Rightarrow> session_error + checkpoint" where
  "normalizeCompactionCheckpoint nid now cp =
     (if cp_raw_count cp < 0 then Inl NegativeRawCount
      else case (if cp_id cp = [] then nid
                 else case CanonicalID (cp_id cp) of
                        None \<Rightarrow> Inl (InvalidCompactionID (cp_id cp)) | Some c \<Rightarrow> Inr c) of
             Inl e \<Rightarrow> Inl e
           | Inr i \<Rightarrow>
               Inr (cp\<lparr>cp_id := i,
                       cp_created := (if time_is_zero (cp_created cp) then now else cp_created cp),
                       cp_messages := CloneMessages (cp_messages cp)\<rparr>))"

definition messageView :: "message list \<Rightarrow> checkpoint option \<Rightarrow> session_error + message_view" where
  "messageView raw cpo =
     (case cpo of
        None \<Rightarrow> Inr \<lparr>mv_messages = CloneMessages raw, mv_raw_count = int (length raw), mv_compaction = None\<rparr>
      | Some cp \<Rightarrow>
          (if int (length raw) < cp_raw_count cp then Inl (RawCountExceeds (cp_raw_count cp) (int (length raw)))
           else Inr \<lparr>mv_messages = CloneMessages (cp_messages cp)
                       @ CloneMessages (drop (nat (cp_raw_count cp)) raw),
                     mv_raw_count = int (length raw),
                     mv_compaction = Some (cp\<lparr>cp_messages := CloneMessages (cp_messages cp)\<rparr>)\<rparr>))"

section \<open>The in-memory store\<close>

definition NewMemoryStore :: mem_store where
  "NewMemoryStore = []"

definition mem_CreateWithOptions ::
  "new_id \<Rightarrow> gotime \<Rightarrow> string \<Rightarrow> mem_store \<Rightarrow> session_error + session \<times> mem_store" where
  "mem_CreateWithOptions nid now parent st =
     (case canonicalParentID parent of
        Inl e \<Rightarrow> Inl e
      | Inr pid \<Rightarrow>
          (case nid of
             Inl e \<Rightarrow> Inl e
           | Inr i \<Rightarrow>
               (let se = \<lparr>se_id = i, se_parent = pid, se_created = now\<rparr>
                in Inr (se, AList.update i \<lparr>ms_session = se, ms_messages = [], ms_compaction = None\<rparr> st))))"

definition mem_Create :: "new_id \<Rightarrow> gotime \<Rightarrow> mem_store \<Rightarrow> session_error + session \<times> mem_store" where
  "mem_Create nid now st = mem_CreateWithOptions nid now [] st"

definition mem_Append ::
  "new_id \<Rightarrow> string \<Rightarrow> message \<Rightarrow> mem_store \<Rightarrow> session_error + mem_store" where
  "mem_Append nid sid msg st =
     (case canonicalRequiredID sid of
        Inl e \<Rightarrow> Inl e
      | Inr i \<Rightarrow>
          (case (if msg_id msg = [] then nid else Inr (msg_id msg)) of
             Inl e \<Rightarrow> Inl e
           | Inr mid \<Rightarrow>
               (case map_of st i of
                  None \<Rightarrow> Inl (UnknownSession i)
                | Some rec \<Rightarrow>
                    Inr (AList.update i
                      (rec\<lparr>ms_messages := ms_messages rec @ [CloneMessage (msg\<lparr>msg_id := mid\<rparr>)]\<rparr>) st))))"

definition mem_lookup :: "string \<Rightarrow> mem_store \<Rightarrow> session_error + memory_session" where
  "mem_lookup sid st =
     (case canonicalRequiredID sid of
        Inl e \<Rightarrow> Inl e
      | Inr i \<Rightarrow> (case map_of st i of None \<Rightarrow> Inl (UnknownSession i) | Some rec \<Rightarrow> Inr rec))"

definition mem_Messages :: "string \<Rightarrow> mem_store \<Rightarrow> session_error + message list" where
  "mem_Messages sid st = map_sum id (\<lambda>rec. CloneMessages (ms_messages rec)) (mem_lookup sid st)"

definition mem_MessageView :: "string \<Rightarrow> mem_store \<Rightarrow> session_error + message_view" where
  "mem_MessageView sid st =
     (case mem_lookup sid st of
        Inl e \<Rightarrow> Inl e
      | Inr rec \<Rightarrow> messageView (ms_messages rec) (ms_compaction rec))"

definition mem_SaveCompaction ::
  "new_id \<Rightarrow> gotime \<Rightarrow> string \<Rightarrow> checkpoint \<Rightarrow> mem_store \<Rightarrow> session_error + mem_store" where
  "mem_SaveCompaction nid now sid cp st =
     (case canonicalRequiredID sid of
        Inl e \<Rightarrow> Inl e
      | Inr i \<Rightarrow>
          (case normalizeCompactionCheckpoint nid now cp of
             Inl e \<Rightarrow> Inl e
           | Inr cp' \<Rightarrow>
               (case map_of st i of
                  None \<Rightarrow> Inl (UnknownSession i)
                | Some rec \<Rightarrow>
                    (if int (length (ms_messages rec)) < cp_raw_count cp'
                     then Inl (RawCountExceeds (cp_raw_count cp') (int (length (ms_messages rec))))
                     else Inr (AList.update i (rec\<lparr>ms_compaction := Some cp'\<rparr>) st)))))"

definition mem_Get :: "string \<Rightarrow> mem_store \<Rightarrow> session_error + session" where
  "mem_Get sid st = map_sum id ms_session (mem_lookup sid st)"

definition mem_List :: "mem_store \<Rightarrow> session list" where
  "mem_List st = sortSessions (map (\<lambda>p. ms_session (snd p)) st)"

definition mem_Children :: "string \<Rightarrow> mem_store \<Rightarrow> session_error + session list" where
  "mem_Children parent st =
     (case canonicalParentID parent of
        Inl e \<Rightarrow> Inl e
      | Inr pid \<Rightarrow>
          Inr (sortSessions (filter (\<lambda>s. se_parent s = pid) (map (\<lambda>p. ms_session (snd p)) st))))"

definition mem_Fork ::
  "new_id \<Rightarrow> gotime \<Rightarrow> string \<Rightarrow> fork_options \<Rightarrow> mem_store \<Rightarrow> session_error + session \<times> mem_store" where
  "mem_Fork nid now sid opts st =
     (case canonicalRequiredID sid of
        Inl e \<Rightarrow> Inl e
      | Inr i \<Rightarrow>
          (case canonicalParentID (fo_parent opts) of
             Inl e \<Rightarrow> Inl e
           | Inr p0 \<Rightarrow>
               (let pid = (if p0 = [] then i else p0)
                in case map_of st i of
                     None \<Rightarrow> Inl (UnknownSession i)
                   | Some src \<Rightarrow>
                       (case forkMessages (ms_messages src) (fo_through opts) of
                          Inl e \<Rightarrow> Inl e
                        | Inr ms \<Rightarrow>
                            (case nid of
                               Inl e \<Rightarrow> Inl e
                             | Inr ni \<Rightarrow>
                                 (let se = \<lparr>se_id = ni, se_parent = pid, se_created = now\<rparr>
                                  in Inr (se, AList.update ni
                                       \<lparr>ms_session = se, ms_messages = CloneMessages ms, ms_compaction = None\<rparr> st)))))))"

section \<open>Package functions over the store interface\<close>

text \<open>
  A \<open>session.Store\<close> value as the operations its interface requires and the optional ones that
  the package discovers by type assertion. The outer \<open>option\<close> of the package functions is
  Go's nil interface.
\<close>

record 's store_iface =
  sf_Create :: "new_id \<Rightarrow> gotime \<Rightarrow> 's \<Rightarrow> session_error + session \<times> 's"
  sf_Append :: "new_id \<Rightarrow> string \<Rightarrow> message \<Rightarrow> 's \<Rightarrow> session_error + 's"
  sf_Messages :: "string \<Rightarrow> 's \<Rightarrow> session_error + message list"
  sf_CreateWithOptions :: "(new_id \<Rightarrow> gotime \<Rightarrow> string \<Rightarrow> 's \<Rightarrow> session_error + session \<times> 's) option"
  sf_Get :: "(string \<Rightarrow> 's \<Rightarrow> session_error + session) option"
  sf_List :: "('s \<Rightarrow> session_error + session list) option"
  sf_Children :: "(string \<Rightarrow> 's \<Rightarrow> session_error + session list) option"
  sf_Fork :: "(new_id \<Rightarrow> gotime \<Rightarrow> string \<Rightarrow> fork_options \<Rightarrow> 's \<Rightarrow> session_error + session \<times> 's) option"
  sf_MessageView :: "(string \<Rightarrow> 's \<Rightarrow> session_error + message_view) option"
  sf_SaveCompaction :: "(new_id \<Rightarrow> gotime \<Rightarrow> string \<Rightarrow> checkpoint \<Rightarrow> 's \<Rightarrow> session_error + 's) option"

definition session_Create ::
  "'s store_iface option \<Rightarrow> new_id \<Rightarrow> gotime \<Rightarrow> string \<Rightarrow> 's \<Rightarrow> session_error + session \<times> 's" where
  "session_Create store nid now parent s =
     (case store of
        None \<Rightarrow> Inl StoreRequired
      | Some si \<Rightarrow>
          (case sf_CreateWithOptions si of
             Some f \<Rightarrow> f nid now parent s
           | None \<Rightarrow> sf_Create si nid now s))"

definition session_Get :: "'s store_iface option \<Rightarrow> string \<Rightarrow> 's \<Rightarrow> session_error + session" where
  "session_Get store sid s =
     (case store of
        None \<Rightarrow> Inl StoreRequired
      | Some si \<Rightarrow>
          (case sf_Get si of
             Some f \<Rightarrow> f sid s
           | None \<Rightarrow>
               (case sf_Messages si sid s of
                  Inl e \<Rightarrow> Inl e
                | Inr _ \<Rightarrow> Inr \<lparr>se_id = sid, se_parent = [], se_created = 0\<rparr>)))"

definition session_List :: "'s store_iface option \<Rightarrow> 's \<Rightarrow> session_error + session list" where
  "session_List store s =
     (case store of
        None \<Rightarrow> Inl StoreRequired
      | Some si \<Rightarrow> (case sf_List si of Some f \<Rightarrow> f s | None \<Rightarrow> Inl ListingUnsupported))"

definition session_Children ::
  "'s store_iface option \<Rightarrow> string \<Rightarrow> 's \<Rightarrow> session_error + session list" where
  "session_Children store parent s =
     (case store of
        None \<Rightarrow> Inl StoreRequired
      | Some si \<Rightarrow>
          (case canonicalParentID parent of
             Inl e \<Rightarrow> Inl e
           | Inr pid \<Rightarrow>
               (case sf_Children si of
                  Some f \<Rightarrow> f pid s
                | None \<Rightarrow>
                    (case session_List store s of
                       Inl e \<Rightarrow> Inl e
                     | Inr ss \<Rightarrow> Inr (sortSessions (filter (\<lambda>x. se_parent x = pid) ss))))))"

definition session_Fork ::
  "'s store_iface option \<Rightarrow> new_id \<Rightarrow> gotime \<Rightarrow> string \<Rightarrow> fork_options \<Rightarrow> 's \<Rightarrow> session_error + session \<times> 's" where
  "session_Fork store nid now sid opts s =
     (case store of
        None \<Rightarrow> Inl StoreRequired
      | Some si \<Rightarrow> (case sf_Fork si of Some f \<Rightarrow> f nid now sid opts s | None \<Rightarrow> Inl ForkingUnsupported))"

definition MessageViewForSession ::
  "'s store_iface option \<Rightarrow> string \<Rightarrow> 's \<Rightarrow> session_error + message_view" where
  "MessageViewForSession store sid s =
     (case store of
        None \<Rightarrow> Inl StoreRequired
      | Some si \<Rightarrow>
          (case sf_MessageView si of
             Some f \<Rightarrow> f sid s
           | None \<Rightarrow>
               (case sf_Messages si sid s of
                  Inl e \<Rightarrow> Inl e
                | Inr ms \<Rightarrow> Inr \<lparr>mv_messages = CloneMessages ms, mv_raw_count = int (length ms),
                                 mv_compaction = None\<rparr>)))"

definition session_SaveCompaction ::
  "'s store_iface option \<Rightarrow> new_id \<Rightarrow> gotime \<Rightarrow> string \<Rightarrow> checkpoint \<Rightarrow> 's \<Rightarrow> session_error + 's" where
  "session_SaveCompaction store nid now sid cp s =
     (case store of
        None \<Rightarrow> Inl StoreRequired
      | Some si \<Rightarrow>
          (case sf_SaveCompaction si of Some f \<Rightarrow> f nid now sid cp s | None \<Rightarrow> Inr s))"

text \<open>\<open>*session.MemoryStore\<close> as a value of the interface: it implements every extension.\<close>

definition mem_iface :: "mem_store store_iface" where
  "mem_iface = \<lparr>sf_Create = mem_Create, sf_Append = mem_Append, sf_Messages = mem_Messages,
     sf_CreateWithOptions = Some mem_CreateWithOptions, sf_Get = Some mem_Get,
     sf_List = Some (\<lambda>s. Inr (mem_List s)), sf_Children = Some mem_Children,
     sf_Fork = Some mem_Fork, sf_MessageView = Some mem_MessageView,
     sf_SaveCompaction = Some mem_SaveCompaction\<rparr>"

section \<open>The invariant\<close>

definition wf_checkpoint :: "message list \<Rightarrow> checkpoint \<Rightarrow> bool" where
  "wf_checkpoint raw cp \<longleftrightarrow> 0 \<le> cp_raw_count cp \<and> cp_raw_count cp \<le> int (length raw)
     \<and> CloneMessages (cp_messages cp) = cp_messages cp"

definition wf_record :: "string \<Rightarrow> memory_session \<Rightarrow> bool" where
  "wf_record i rec \<longleftrightarrow> CanonicalID i = Some i \<and> se_id (ms_session rec) = i
     \<and> CloneMessages (ms_messages rec) = ms_messages rec
     \<and> (case ms_compaction rec of None \<Rightarrow> True | Some cp \<Rightarrow> wf_checkpoint (ms_messages rec) cp)"

definition mem_inv :: "mem_store \<Rightarrow> bool" where
  "mem_inv st \<longleftrightarrow> wf_map st \<and> list_all (\<lambda>(i, rec). wf_record i rec) st"

text \<open>What \<open>uuid.NewV7\<close> promises: a lower-case UUID that is not in use.\<close>

definition fresh_id :: "mem_store \<Rightarrow> new_id \<Rightarrow> bool" where
  "fresh_id st nid =
     (case nid of Inl e \<Rightarrow> True | Inr i \<Rightarrow> CanonicalID i = Some i \<and> map_of st i = None)"

text \<open>One state-changing call that succeeds.\<close>

inductive store_step :: "mem_store \<Rightarrow> mem_store \<Rightarrow> bool" where
  create: "fresh_id st nid \<Longrightarrow> mem_CreateWithOptions nid now p st = Inr (se, st') \<Longrightarrow> store_step st st'"
| append: "mem_Append nid sid m st = Inr st' \<Longrightarrow> store_step st st'"
| save: "mem_SaveCompaction nid now sid cp st = Inr st' \<Longrightarrow> store_step st st'"
| fork: "fresh_id st nid \<Longrightarrow> mem_Fork nid now sid opts st = Inr (se, st') \<Longrightarrow> store_step st st'"

inductive store_steps :: "mem_store \<Rightarrow> mem_store \<Rightarrow> bool" where
  refl: "store_steps st st"
| step: "store_steps st st' \<Longrightarrow> store_step st' st'' \<Longrightarrow> store_steps st st''"

section \<open>Lemmas on identifiers\<close>

lemma byte_less: "byte c < 256"
  by (simp add: byte_def)

lemma byte_char_of: "n < 256 \<Longrightarrow> byte (char_of n) = n"
  by (simp add: byte_def)

lemma ascii_lower_hex: "is_hex c \<Longrightarrow> is_hex (ascii_lower c)"
  by (auto simp: is_hex_def ascii_lower_def byte_char_of)

lemma ascii_lower_dash [simp]: "ascii_lower CHR ''-'' = CHR ''-''"
  by (simp add: ascii_lower_def byte_def)

lemma ascii_lower_idem [simp]: "ascii_lower (ascii_lower c) = ascii_lower c"
  by (auto simp: ascii_lower_def byte_char_of)

lemma sessionIDPattern_lower: "sessionIDPattern s \<Longrightarrow> sessionIDPattern (map ascii_lower s)"
  by (auto simp: sessionIDPattern_def list_all_length nth_enumerate_eq ascii_lower_hex split: if_splits)

lemma CanonicalID_idem: "CanonicalID s = Some c \<Longrightarrow> CanonicalID c = Some c"
  by (auto simp: CanonicalID_def sessionIDPattern_lower comp_def split: if_splits)

lemma canonicalRequiredID_Inr: "canonicalRequiredID s = Inr c \<longleftrightarrow> CanonicalID s = Some c"
  by (auto simp: canonicalRequiredID_def split: option.splits)

lemma canonical_nonempty: "CanonicalID s = Some c \<Longrightarrow> c \<noteq> []"
  by (auto simp: CanonicalID_def sessionIDPattern_def split: if_splits)

section \<open>Lemmas on the store\<close>

lemma mem_inv_record: "mem_inv st \<Longrightarrow> map_of st i = Some rec \<Longrightarrow> wf_record i rec"
  by (auto simp: mem_inv_def list_all_iff dest!: map_of_SomeD)

lemma set_update_sub: "set (AList.update k v m) \<subseteq> insert (k, v) (set m)"
  by (induction m) auto

lemma mem_inv_update: "mem_inv st \<Longrightarrow> wf_record i rec \<Longrightarrow> mem_inv (AList.update i rec st)"
  using set_update_sub [of i rec st] by (auto simp: mem_inv_def list_all_iff)

lemma wf_record_append:
  "wf_record i rec \<Longrightarrow> wf_record i (rec\<lparr>ms_messages := ms_messages rec @ [CloneMessage m]\<rparr>)"
  by (auto simp: wf_record_def wf_checkpoint_def split: option.splits)

lemma mem_Append_Inr:
  "mem_Append nid sid m st = Inr st' \<longleftrightarrow>
     (\<exists>i rec mid. CanonicalID sid = Some i \<and> map_of st i = Some rec
        \<and> (if msg_id m = [] then nid = Inr mid else mid = msg_id m)
        \<and> st' = AList.update i (rec\<lparr>ms_messages := ms_messages rec @ [CloneMessage (m\<lparr>msg_id := mid\<rparr>)]\<rparr>) st)"
  by (auto simp: mem_Append_def canonicalRequiredID_def split: option.splits sum.splits if_splits)

lemma mem_lookup_Inr:
  "mem_lookup sid st = Inr rec \<longleftrightarrow> (\<exists>i. CanonicalID sid = Some i \<and> map_of st i = Some rec)"
  by (auto simp: mem_lookup_def canonicalRequiredID_def split: option.splits sum.splits)

lemma mem_Messages_Inr:
  "mem_Messages sid st = Inr ms \<longleftrightarrow> (\<exists>rec. mem_lookup sid st = Inr rec \<and> ms = CloneMessages (ms_messages rec))"
  by (cases "mem_lookup sid st") (auto simp: mem_Messages_def)

lemma mem_SaveCompaction_Inr:
  "mem_SaveCompaction nid now sid cp st = Inr st' \<longleftrightarrow>
     (\<exists>i rec cp'. CanonicalID sid = Some i \<and> map_of st i = Some rec
        \<and> normalizeCompactionCheckpoint nid now cp = Inr cp'
        \<and> cp_raw_count cp' \<le> int (length (ms_messages rec))
        \<and> st' = AList.update i (rec\<lparr>ms_compaction := Some cp'\<rparr>) st)"
  by (auto simp: mem_SaveCompaction_def canonicalRequiredID_def split: option.splits sum.splits if_splits)

lemma normalizeCompactionCheckpoint_Inr:
  "normalizeCompactionCheckpoint nid now cp = Inr cp' \<Longrightarrow>
     0 \<le> cp_raw_count cp' \<and> cp_raw_count cp' = cp_raw_count cp \<and> cp_messages cp' = CloneMessages (cp_messages cp)"
  by (auto simp: normalizeCompactionCheckpoint_def split: sum.splits if_splits)

lemma mem_Fork_Inr:
  "mem_Fork nid now sid opts st = Inr (se, st') \<Longrightarrow>
     \<exists>i src ms ni. CanonicalID sid = Some i \<and> map_of st i = Some src \<and> nid = Inr ni
        \<and> forkMessages (ms_messages src) (fo_through opts) = Inr ms \<and> se_id se = ni
        \<and> (fo_parent opts = [] \<longrightarrow> se_parent se = i)
        \<and> st' = AList.update ni \<lparr>ms_session = se, ms_messages = CloneMessages ms, ms_compaction = None\<rparr> st"
  by (auto simp: mem_Fork_def canonicalRequiredID_def canonicalParentID_def Let_def
      split: option.splits sum.splits if_splits)

lemma mem_Create_Inr:
  "mem_CreateWithOptions nid now p st = Inr (se, st') \<Longrightarrow>
     \<exists>i. nid = Inr i \<and> se_id se = i
        \<and> st' = AList.update i \<lparr>ms_session = se, ms_messages = [], ms_compaction = None\<rparr> st"
  by (auto simp: mem_CreateWithOptions_def Let_def split: sum.splits)

lemma mem_inv_New: "mem_inv NewMemoryStore"
  by (simp add: mem_inv_def NewMemoryStore_def)

lemma store_step_inv: "store_step st st' \<Longrightarrow> mem_inv st \<Longrightarrow> mem_inv st'"
proof (induction rule: store_step.induct)
  case (create st nid now p se st')
  with mem_Create_Inr [OF create(2)] show ?case
    by (auto simp: fresh_id_def wf_record_def intro!: mem_inv_update)
next
  case (append nid sid m st st')
  then show ?case
    by (auto simp: mem_Append_Inr intro!: mem_inv_update wf_record_append mem_inv_record)
next
  case (save nid now sid cp st st')
  then show ?case
    by (auto simp: mem_SaveCompaction_Inr wf_record_def wf_checkpoint_def
        dest!: normalizeCompactionCheckpoint_Inr mem_inv_record intro!: mem_inv_update)
next
  case (fork st nid now sid opts se st')
  with mem_Fork_Inr [OF fork(2)] show ?case
    by (auto simp: fresh_id_def wf_record_def intro!: mem_inv_update)
qed

lemma store_steps_inv: "store_steps st st' \<Longrightarrow> mem_inv st \<Longrightarrow> mem_inv st'"
  by (induction rule: store_steps.induct) (auto intro: store_step_inv)

text \<open>Every step keeps each session record and only extends its raw transcript.\<close>

definition extends_record :: "memory_session \<Rightarrow> memory_session \<Rightarrow> bool" where
  "extends_record rec rec' \<longleftrightarrow> ms_session rec' = ms_session rec
     \<and> (\<exists>new. ms_messages rec' = ms_messages rec @ new)"

lemma extends_record_refl [simp]: "extends_record rec rec"
  by (simp add: extends_record_def)

lemma extends_record_trans:
  "extends_record a b \<Longrightarrow> extends_record b c \<Longrightarrow> extends_record a c"
  by (auto simp: extends_record_def)

lemma store_step_extends:
  "store_step st st' \<Longrightarrow> map_of st i = Some rec \<Longrightarrow> \<exists>rec'. map_of st' i = Some rec' \<and> extends_record rec rec'"
proof (induction rule: store_step.induct)
  case (create st nid now p se st')
  with mem_Create_Inr [OF create(2)] show ?case by (auto simp: fresh_id_def)
next
  case (append nid sid m st st')
  then show ?case by (auto simp: mem_Append_Inr extends_record_def)
next
  case (save nid now sid cp st st')
  then show ?case by (auto simp: mem_SaveCompaction_Inr extends_record_def)
next
  case (fork st nid now sid opts se st')
  with mem_Fork_Inr [OF fork(2)] show ?case by (auto simp: fresh_id_def)
qed

lemma store_steps_extends:
  "store_steps st st' \<Longrightarrow> map_of st i = Some rec \<Longrightarrow> \<exists>rec'. map_of st' i = Some rec' \<and> extends_record rec rec'"
  by (induction rule: store_steps.induct) (auto dest: store_step_extends intro: extends_record_trans)

section \<open>The interface a run relies on\<close>

text \<open>The appends a client makes, in order; the first error stops it.\<close>

type_synonym append_op = "new_id \<times> string \<times> message"

fun append_all ::
  "(new_id \<Rightarrow> string \<Rightarrow> message \<Rightarrow> 's \<Rightarrow> session_error + 's) \<Rightarrow> append_op list \<Rightarrow> 's \<Rightarrow> session_error + 's" where
  "append_all app [] s = Inr s"
| "append_all app ((nid, sid, m) # ops) s =
     (case app nid sid m s of Inl e \<Rightarrow> Inl e | Inr s' \<Rightarrow> append_all app ops s')"

text \<open>The message a store keeps: a deep copy, with a generated id when it had none.\<close>

definition stored_message :: "new_id \<Rightarrow> message \<Rightarrow> message" where
  "stored_message nid m =
     CloneMessage (m\<lparr>msg_id := (if msg_id m = [] then (case nid of Inl e \<Rightarrow> [] | Inr i \<Rightarrow> i) else msg_id m)\<rparr>)"

definition ops_for :: "string \<Rightarrow> append_op list \<Rightarrow> message list" where
  "ops_for sid ops = map (\<lambda>(nid, i, m). stored_message nid m)
     (filter (\<lambda>(nid, i, m). CanonicalID i = CanonicalID sid) ops)"

locale transcript_store =
  fixes st_append :: "new_id \<Rightarrow> string \<Rightarrow> message \<Rightarrow> 's \<Rightarrow> session_error + 's"
    and st_messages :: "string \<Rightarrow> 's \<Rightarrow> session_error + message list"
    and st_inv :: "'s \<Rightarrow> bool"
  assumes append_inv: "st_inv s \<Longrightarrow> st_append nid sid m s = Inr s' \<Longrightarrow> st_inv s'"
    and append_same: "st_inv s \<Longrightarrow> st_append nid sid m s = Inr s' \<Longrightarrow> CanonicalID sid' = CanonicalID sid \<Longrightarrow>
      \<exists>old. st_messages sid' s = Inr old \<and> st_messages sid' s' = Inr (old @ [stored_message nid m])"
    and append_other: "st_inv s \<Longrightarrow> st_append nid sid m s = Inr s' \<Longrightarrow> CanonicalID sid' \<noteq> CanonicalID sid \<Longrightarrow>
      st_messages sid' s' = st_messages sid' s"
begin

lemma append_all_inv: "st_inv s \<Longrightarrow> append_all st_append ops s = Inr s' \<Longrightarrow> st_inv s'"
proof (induction ops arbitrary: s)
  case (Cons op ops)
  obtain nid i m where op: "op = (nid, i, m)" by (cases op)
  with Cons.prems obtain s1 where s1: "st_append nid i m s = Inr s1" "append_all st_append ops s1 = Inr s'"
    by (auto split: sum.splits)
  from append_inv [OF Cons.prems(1) s1(1)] s1(2) show ?case by (rule Cons.IH)
qed simp

lemma append_all_messages:
  "st_inv s \<Longrightarrow> append_all st_append ops s = Inr s' \<Longrightarrow> st_messages sid s = Inr old \<Longrightarrow>
   st_messages sid s' = Inr (old @ ops_for sid ops)"
proof (induction ops arbitrary: s old)
  case Nil
  then show ?case by (simp add: ops_for_def)
next
  case (Cons op ops)
  obtain nid i m where op: "op = (nid, i, m)" by (cases op)
  with Cons.prems obtain s1 where s1: "st_append nid i m s = Inr s1" "append_all st_append ops s1 = Inr s'"
    by (auto split: sum.splits)
  have inv1: "st_inv s1" using Cons.prems(1) s1(1) by (rule append_inv)
  show ?case
  proof (cases "CanonicalID sid = CanonicalID i")
    case True
    from append_same [OF Cons.prems(1) s1(1) True] Cons.prems(3)
    have "st_messages sid s1 = Inr (old @ [stored_message nid m])" by auto
    from Cons.IH [OF inv1 s1(2) this] True show ?thesis by (auto simp: op ops_for_def)
  next
    case False
    from append_other [OF Cons.prems(1) s1(1) False] Cons.prems(3) have "st_messages sid s1 = Inr old" by simp
    from Cons.IH [OF inv1 s1(2) this] False show ?thesis by (auto simp: op ops_for_def)
  qed
qed

end

locale compacting_store = transcript_store st_append st_messages st_inv
  for st_append :: "new_id \<Rightarrow> string \<Rightarrow> message \<Rightarrow> 's \<Rightarrow> session_error + 's"
    and st_messages :: "string \<Rightarrow> 's \<Rightarrow> session_error + message list"
    and st_inv :: "'s \<Rightarrow> bool" +
  fixes st_view :: "string \<Rightarrow> 's \<Rightarrow> session_error + message_view"
    and st_save :: "new_id \<Rightarrow> gotime \<Rightarrow> string \<Rightarrow> checkpoint \<Rightarrow> 's \<Rightarrow> session_error + 's"
  assumes save_inv: "st_inv s \<Longrightarrow> st_save nid now sid cp s = Inr s' \<Longrightarrow> st_inv s'"
    and save_messages: "st_inv s \<Longrightarrow> st_save nid now sid cp s = Inr s' \<Longrightarrow>
      st_messages sid' s' = st_messages sid' s"
    and save_view: "st_inv s \<Longrightarrow> st_save nid now sid cp s = Inr s' \<Longrightarrow>
      \<exists>raw v. st_messages sid s = Inr raw \<and> st_view sid s' = Inr v
        \<and> mv_messages v = CloneMessages (cp_messages cp) @ drop (nat (cp_raw_count cp)) raw"
    and append_view: "st_inv s \<Longrightarrow> st_append nid sid m s = Inr s' \<Longrightarrow>
      CanonicalID sid' = CanonicalID sid \<Longrightarrow> st_view sid' s = Inr v \<Longrightarrow>
      \<exists>v'. st_view sid' s' = Inr v' \<and> mv_messages v' = mv_messages v @ [stored_message nid m]"
    and append_view_other: "st_inv s \<Longrightarrow> st_append nid sid m s = Inr s' \<Longrightarrow>
      CanonicalID sid' \<noteq> CanonicalID sid \<Longrightarrow> st_view sid' s' = st_view sid' s"
begin

lemma append_all_view:
  "st_inv s \<Longrightarrow> append_all st_append ops s = Inr s' \<Longrightarrow> st_view sid s = Inr v \<Longrightarrow>
   \<exists>v'. st_view sid s' = Inr v' \<and> mv_messages v' = mv_messages v @ ops_for sid ops"
proof (induction ops arbitrary: s v)
  case Nil
  then show ?case by (simp add: ops_for_def)
next
  case (Cons op ops)
  obtain nid i m where op: "op = (nid, i, m)" by (cases op)
  with Cons.prems obtain s1 where s1: "st_append nid i m s = Inr s1" "append_all st_append ops s1 = Inr s'"
    by (auto split: sum.splits)
  have inv1: "st_inv s1" using Cons.prems(1) s1(1) by (rule append_inv)
  show ?case
  proof (cases "CanonicalID sid = CanonicalID i")
    case True
    from append_view [OF Cons.prems(1) s1(1) True Cons.prems(3)] obtain v1 where
      v1: "st_view sid s1 = Inr v1" "mv_messages v1 = mv_messages v @ [stored_message nid m]" by auto
    from Cons.IH [OF inv1 s1(2) v1(1)] v1(2) True show ?thesis by (auto simp: op ops_for_def)
  next
    case False
    from append_view_other [OF Cons.prems(1) s1(1) False] Cons.prems(3) have "st_view sid s1 = Inr v" by simp
    from Cons.IH [OF inv1 s1(2) this] False show ?thesis by (auto simp: op ops_for_def)
  qed
qed

text \<open>After a compaction the model sees the checkpoint, the raw tail and what follows.\<close>

lemma compacted_view:
  assumes inv: "st_inv s" and save: "st_save nid now sid cp s = Inr s1"
    and ops: "append_all st_append ops s1 = Inr s2" and raw: "st_messages sid s = Inr raw"
  shows "st_messages sid s2 = Inr (raw @ ops_for sid ops)
    \<and> (\<exists>v. st_view sid s2 = Inr v
        \<and> mv_messages v = CloneMessages (cp_messages cp) @ drop (nat (cp_raw_count cp)) raw @ ops_for sid ops)"
proof -
  from save_view [OF inv save] raw obtain v1 where v1: "st_view sid s1 = Inr v1"
    "mv_messages v1 = CloneMessages (cp_messages cp) @ drop (nat (cp_raw_count cp)) raw" by auto
  have "st_messages sid s1 = Inr raw" using save_messages [OF inv save] raw by simp
  with append_all_view [OF save_inv [OF inv save] ops v1(1)]
    append_all_messages [OF save_inv [OF inv save] ops] v1(2) show ?thesis by auto
qed

end

section \<open>The in-memory store provides the interface\<close>

lemma mem_Append_stored:
  "mem_Append nid sid m st = Inr st' \<Longrightarrow>
     \<exists>i rec. CanonicalID sid = Some i \<and> map_of st i = Some rec
       \<and> st' = AList.update i (rec\<lparr>ms_messages := ms_messages rec @ [stored_message nid m]\<rparr>) st"
  by (auto simp: mem_Append_Inr stored_message_def split: if_splits sum.splits)

lemma mem_lookup_update:
  "CanonicalID sid = Some i \<Longrightarrow> mem_lookup sid' (AList.update i rec st) =
     (if CanonicalID sid' = Some i then Inr rec else mem_lookup sid' st)"
  by (auto simp: mem_lookup_def canonicalRequiredID_def split: option.splits sum.splits)

lemma mem_lookup_inv: "mem_inv st \<Longrightarrow> mem_lookup sid st = Inr rec \<Longrightarrow> \<exists>i. wf_record i rec"
  using mem_inv_record by (auto simp: mem_lookup_Inr)

lemma stored_message_clone [simp]: "CloneMessage (stored_message nid m) = stored_message nid m"
  by (simp add: stored_message_def)

interpretation mem: transcript_store mem_Append mem_Messages mem_inv
proof unfold_locales
  fix s nid sid m s'
  assume inv: "mem_inv s" and app: "mem_Append nid sid m s = Inr s'"
  show "mem_inv s'" using store_step_inv [OF store_step.append [OF app] inv] .
next
  fix s nid sid m s' sid'
  assume inv: "mem_inv s" and app: "mem_Append nid sid m s = Inr s'" and "CanonicalID sid' = CanonicalID sid"
  with mem_Append_stored [OF app] mem_inv_record [OF inv]
  show "\<exists>old. mem_Messages sid' s = Inr old \<and> mem_Messages sid' s' = Inr (old @ [stored_message nid m])"
    by (auto simp: mem_Messages_def mem_lookup_def canonicalRequiredID_def)
next
  fix s nid sid m s' sid'
  assume inv: "mem_inv s" and app: "mem_Append nid sid m s = Inr s'" and "CanonicalID sid' \<noteq> CanonicalID sid"
  with mem_Append_stored [OF app] show "mem_Messages sid' s' = mem_Messages sid' s"
    by (auto simp: mem_Messages_def mem_lookup_update)
qed

lemma mem_view_append:
  assumes "wf_record i rec" and "messageView (ms_messages rec) (ms_compaction rec) = Inr v"
  shows "\<exists>v'. messageView (ms_messages rec @ [stored_message nid m]) (ms_compaction rec) = Inr v'
     \<and> mv_messages v' = mv_messages v @ [stored_message nid m]"
  using assms by (auto simp: messageView_def wf_record_def wf_checkpoint_def split: option.splits if_splits)

interpretation memc: compacting_store mem_Append mem_Messages mem_inv mem_MessageView mem_SaveCompaction
proof unfold_locales
  fix s nid now sid cp s'
  assume inv: "mem_inv s" and save: "mem_SaveCompaction nid now sid cp s = Inr s'"
  show "mem_inv s'" using store_step_inv [OF store_step.save [OF save] inv] .
  from save obtain i rec cp' where i: "CanonicalID sid = Some i" "map_of s i = Some rec"
    and cp': "normalizeCompactionCheckpoint nid now cp = Inr cp'" "cp_raw_count cp' \<le> int (length (ms_messages rec))"
    and s': "s' = AList.update i (rec\<lparr>ms_compaction := Some cp'\<rparr>) s"
    by (auto simp: mem_SaveCompaction_Inr)
  have rec: "CloneMessages (ms_messages rec) = ms_messages rec"
    using mem_inv_record [OF inv i(2)] by (simp add: wf_record_def)
  then have drop: "CloneMessages (drop n (ms_messages rec)) = drop n (ms_messages rec)" for n
    by (metis CloneMessages_def drop_map)
  show "mem_Messages sid' s' = mem_Messages sid' s" for sid'
    using i by (auto simp: s' mem_Messages_def mem_lookup_def canonicalRequiredID_def split: option.splits)
  show "\<exists>raw v. mem_Messages sid s = Inr raw \<and> mem_MessageView sid s' = Inr v
      \<and> mv_messages v = CloneMessages (cp_messages cp) @ drop (nat (cp_raw_count cp)) raw"
    using i cp' normalizeCompactionCheckpoint_Inr [OF cp'(1)] rec drop
    by (auto simp: s' mem_Messages_def mem_MessageView_def mem_lookup_def canonicalRequiredID_def messageView_def)
next
  fix s nid sid m s' sid' v
  assume inv: "mem_inv s" and app: "mem_Append nid sid m s = Inr s'" and c: "CanonicalID sid' = CanonicalID sid"
    and v: "mem_MessageView sid' s = Inr v"
  from mem_Append_stored [OF app] obtain i rec where i: "CanonicalID sid = Some i" "map_of s i = Some rec"
    and s': "s' = AList.update i (rec\<lparr>ms_messages := ms_messages rec @ [stored_message nid m]\<rparr>) s" by auto
  have "messageView (ms_messages rec) (ms_compaction rec) = Inr v"
    using v c i by (simp add: mem_MessageView_def mem_lookup_def canonicalRequiredID_def)
  from mem_view_append [OF mem_inv_record [OF inv i(2)] this] c i
  show "\<exists>v'. mem_MessageView sid' s' = Inr v' \<and> mv_messages v' = mv_messages v @ [stored_message nid m]"
    by (simp add: s' mem_MessageView_def mem_lookup_def canonicalRequiredID_def)
next
  fix s nid sid m s' sid'
  assume "mem_inv s" and app: "mem_Append nid sid m s = Inr s'" and "CanonicalID sid' \<noteq> CanonicalID sid"
  with mem_Append_stored [OF app] show "mem_MessageView sid' s' = mem_MessageView sid' s"
    by (auto simp: mem_MessageView_def mem_lookup_update)
qed

section \<open>Reading a reachable store\<close>

definition reachable_store :: "mem_store \<Rightarrow> bool" where
  "reachable_store st \<longleftrightarrow> store_steps NewMemoryStore st"

lemma reachable_inv: "reachable_store st \<Longrightarrow> mem_inv st"
  using store_steps_inv [OF _ mem_inv_New] by (simp add: reachable_store_def)

lemma mem_Messages_stored:
  "mem_inv st \<Longrightarrow> mem_Messages sid st = Inr ms \<Longrightarrow>
     \<exists>i rec. CanonicalID sid = Some i \<and> map_of st i = Some rec \<and> ms = ms_messages rec \<and> wf_record i rec"
  using mem_inv_record by (fastforce simp: mem_Messages_Inr mem_lookup_Inr wf_record_def)

lemma mem_Messages_of:
  "mem_inv st \<Longrightarrow> CanonicalID sid = Some i \<Longrightarrow> map_of st i = Some rec \<Longrightarrow> mem_Messages sid st = Inr (ms_messages rec)"
  using mem_inv_record [of st i rec]
  by (simp add: mem_Messages_def mem_lookup_def canonicalRequiredID_def wf_record_def)

lemma mem_Get_of:
  "CanonicalID sid = Some i \<Longrightarrow> map_of st i = Some rec \<Longrightarrow> mem_Get sid st = Inr (ms_session rec)"
  by (simp add: mem_Get_def mem_lookup_def canonicalRequiredID_def)

lemma CloneMessages_drop: "CloneMessages ms = ms \<Longrightarrow> CloneMessages (drop n ms) = drop n ms"
  by (metis CloneMessages_def drop_map)

lemma CloneMessages_take: "CloneMessages ms = ms \<Longrightarrow> CloneMessages (take n ms) = take n ms"
  by (metis CloneMessages_def take_map)

lemma messageView_wf:
  assumes "wf_record i rec"
  shows "\<exists>v. messageView (ms_messages rec) (ms_compaction rec) = Inr v
     \<and> mv_raw_count v = int (length (ms_messages rec)) \<and> mv_compaction v = ms_compaction rec
     \<and> mv_messages v = (case ms_compaction rec of None \<Rightarrow> ms_messages rec
          | Some cp \<Rightarrow> cp_messages cp @ drop (nat (cp_raw_count cp)) (ms_messages rec))"
  using assms by (auto simp: messageView_def wf_record_def wf_checkpoint_def CloneMessages_drop split: option.splits)

lemma through_index_bounds: "through_index ms i = Some n \<Longrightarrow> 1 \<le> n \<and> n \<le> length ms \<and> msg_id (ms ! (n - 1)) = i"
proof (induction ms arbitrary: n)
  case (Cons m ms)
  show ?case
  proof (cases "msg_id m = i")
    case True
    with Cons.prems show ?thesis by simp
  next
    case False
    with Cons.prems obtain k where k: "through_index ms i = Some k" "n = Suc k" by auto
    from Cons.IH [OF k(1)] have b: "1 \<le> k" "k \<le> length ms" "msg_id (ms ! (k - 1)) = i" by auto
    with k(2) show ?thesis by (simp add: nth_Cons')
  qed
qed simp

lemma forkMessages_prefix:
  assumes "CloneMessages ms = ms" and "forkMessages ms through = Inr out"
  shows "\<exists>n\<le>length ms. out = take n ms \<and> (through = [] \<longrightarrow> out = ms)
     \<and> (through \<noteq> [] \<longrightarrow> out \<noteq> [] \<and> msg_id (last out) = through)"
proof (cases "through = []")
  case True
  with assms show ?thesis by (intro exI [of _ "length ms"]) (simp add: forkMessages_def)
next
  case False
  with assms(2) obtain n where n: "through_index ms through = Some n" "out = take n ms"
    using CloneMessages_take [OF assms(1)] by (auto simp: forkMessages_def split: option.splits)
  from through_index_bounds [OF n(1)] have b: "1 \<le> n" "n \<le> length ms" "msg_id (ms ! (n - 1)) = through" by auto
  then have "last (take n ms) = ms ! (n - 1)" by (subst last_conv_nth) auto
  with b False n(2) show ?thesis by (intro exI [of _ n]) auto
qed

lemma session_less_strict: "strict_weak session_less"
  using strict_weak_lex [OF strict_weak_on [OF str_less_strict_weak], of se_created se_id]
  by (simp add: session_less_def [abs_def])

lemma session_less_total: "session_less a b \<or> session_less b a \<or> se_id a = se_id b"
  using str_less_total by (auto simp: session_less_def)

lemma mem_inv_ids: "mem_inv st \<Longrightarrow> map (\<lambda>p. se_id (ms_session (snd p))) st = map fst st"
  by (auto simp: mem_inv_def list_all_iff wf_record_def)

lemma mem_List_perm:
  assumes "mem_inv st" and "mset st = mset st'"
  shows "mem_List st = mem_List st'"
  unfolding mem_List_def sortSessions_def
proof (rule stable_sort_perm [OF session_less_strict])
  show "mset (map (\<lambda>p. ms_session (snd p)) st) = mset (map (\<lambda>p. ms_session (snd p)) st')"
    using assms(2) by simp
  fix a b
  assume "a \<in> set (map (\<lambda>p. ms_session (snd p)) st)" and "b \<in> set (map (\<lambda>p. ms_session (snd p)) st)"
    and neq: "a \<noteq> b"
  then obtain p q where p: "p \<in> set st" "a = ms_session (snd p)" and q: "q \<in> set st" "b = ms_session (snd q)"
    by auto
  have "fst p = se_id a" "fst q = se_id b"
    using assms(1) p q by (auto simp: mem_inv_def list_all_iff wf_record_def)
  moreover have "p \<noteq> q" using neq p q by auto
  ultimately have "se_id a \<noteq> se_id b"
    using assms(1) p(1) q(1) eq_key_imp_eq_value [of st "fst p" "snd p" "snd q"]
    by (metis mem_inv_def prod.collapse wf_map_def)
  then show "session_less a b \<or> session_less b a" using session_less_total by blast
qed

section \<open>A concrete store\<close>

definition demo_id :: string where
  "demo_id = ''0189e1f2-0000-7000-8000-00000000000a''"

definition demo_fork_id :: string where
  "demo_fork_id = ''0189e1f2-0000-7000-8000-00000000000b''"

definition demo_store :: mem_store where
  "demo_store = [(demo_id, \<lparr>ms_session = \<lparr>se_id = demo_id, se_parent = [], se_created = 5\<rparr>,
     ms_messages = [(user_message ''hi'')\<lparr>msg_id := ''m1''\<rparr>], ms_compaction = None\<rparr>)]"

lemma demo_canonical [simp]: "CanonicalID demo_id = Some demo_id" "CanonicalID demo_fork_id = Some demo_fork_id"
  by code_simp+

lemma demo_ids_distinct [simp]: "demo_id \<noteq> demo_fork_id" "demo_fork_id \<noteq> demo_id"
  by code_simp+

lemma demo_clone [simp]: "CloneMessage ((user_message ''hi'')\<lparr>msg_id := ''m1''\<rparr>) = (user_message ''hi'')\<lparr>msg_id := ''m1''\<rparr>"
  by code_simp

lemma demo_reachable: "reachable_store demo_store"
proof -
  let ?se = "\<lparr>se_id = demo_id, se_parent = [], se_created = 5\<rparr>"
  let ?s1 = "[(demo_id, \<lparr>ms_session = ?se, ms_messages = [], ms_compaction = None\<rparr>)]"
  have "mem_CreateWithOptions (Inr demo_id) 5 [] NewMemoryStore = Inr (?se, ?s1)"
    by (simp add: mem_CreateWithOptions_def canonicalParentID_def NewMemoryStore_def Let_def)
  then have create: "store_step NewMemoryStore ?s1"
    by (rule store_step.create [rotated]) (simp add: fresh_id_def NewMemoryStore_def)
  have "mem_Append (Inl NegativeRawCount) demo_id ((user_message ''hi'')\<lparr>msg_id := ''m1''\<rparr>) ?s1 = Inr demo_store"
    by (simp add: mem_Append_def canonicalRequiredID_def demo_store_def)
  then have "store_step ?s1 demo_store" by (rule store_step.append)
  then show ?thesis
    unfolding reachable_store_def by (rule store_steps.step [OF store_steps.step [OF store_steps.refl create]])
qed

section \<open>Properties\<close>

text \<open>
  C31. A session store is append-only: over any sequence of creations, appends, compactions and
  forks, a session that can be read stays readable, keeps its identity record, and its raw
  transcript only grows at the end. Compaction and forking never rewrite it.
\<close>

theorem store_append_only:
  assumes "reachable_store st" and "store_steps st st'" and "mem_Messages sid st = Inr ms"
  shows "(\<exists>new. mem_Messages sid st' = Inr (ms @ new)) \<and> mem_Get sid st' = mem_Get sid st"
proof -
  have inv: "mem_inv st" "mem_inv st'"
    using reachable_inv [OF assms(1)] store_steps_inv [OF assms(2)] by auto
  from mem_Messages_stored [OF inv(1) assms(3)] obtain i rec where
    i: "CanonicalID sid = Some i" "map_of st i = Some rec" "ms = ms_messages rec" by auto
  from store_steps_extends [OF assms(2) i(2)] obtain rec' where
    rec': "map_of st' i = Some rec'" "extends_record rec rec'" by auto
  with i mem_Messages_of [OF inv(2) i(1) rec'(1)] show ?thesis
    by (auto simp: extends_record_def mem_Get_of)
qed

theorem store_append_only_witness:
  "(\<exists>new. mem_Messages demo_id demo_store = Inr ([(user_message ''hi'')\<lparr>msg_id := ''m1''\<rparr>] @ new))
   \<and> mem_Get demo_id demo_store = mem_Get demo_id demo_store"
  by (rule store_append_only [OF demo_reachable store_steps.refl])
    (simp add: demo_store_def mem_Messages_def mem_lookup_def canonicalRequiredID_def CloneMessages_def)

text \<open>
  In every reachable store the model-facing view of a readable session exists: it reports
  the raw message count, and it is the latest checkpoint's messages followed by the raw tail
  after the checkpoint's raw count (the whole transcript when there is no checkpoint). The
  error branch of \<open>messageView\<close> is unreachable.
\<close>

theorem message_view_total:
  assumes "reachable_store st" and "mem_Messages sid st = Inr raw"
  shows "\<exists>v. mem_MessageView sid st = Inr v \<and> mv_raw_count v = int (length raw)
    \<and> mv_messages v = (case mv_compaction v of None \<Rightarrow> raw
         | Some cp \<Rightarrow> cp_messages cp @ drop (nat (cp_raw_count cp)) raw)"
proof -
  from mem_Messages_stored [OF reachable_inv [OF assms(1)] assms(2)] obtain i rec where
    i: "CanonicalID sid = Some i" "map_of st i = Some rec" "raw = ms_messages rec" "wf_record i rec" by auto
  from messageView_wf [OF i(4)] i show ?thesis
    by (auto simp: mem_MessageView_def mem_lookup_def canonicalRequiredID_def)
qed

theorem message_view_total_witness:
  "\<exists>v. mem_MessageView demo_id demo_store = Inr v \<and> mv_raw_count v = int (length [(user_message ''hi'')\<lparr>msg_id := ''m1''\<rparr>])
    \<and> mv_messages v = (case mv_compaction v of None \<Rightarrow> [(user_message ''hi'')\<lparr>msg_id := ''m1''\<rparr>]
         | Some cp \<Rightarrow> cp_messages cp @ drop (nat (cp_raw_count cp)) [(user_message ''hi'')\<lparr>msg_id := ''m1''\<rparr>])"
  by (rule message_view_total [OF demo_reachable])
    (simp add: demo_store_def mem_Messages_def mem_lookup_def canonicalRequiredID_def CloneMessages_def)

text \<open>
  Saving a compaction checkpoint and then appending any messages (to any sessions) leaves
  the raw transcript equal to the old one plus the appended messages, while the model-facing
  view is exactly the checkpoint's messages, the raw tail it did not cover and the appended
  messages: nothing is lost or shown twice.
\<close>

theorem compaction_view_exact:
  assumes "reachable_store st" and "mem_SaveCompaction nid now sid cp st = Inr st1"
    and "append_all mem_Append ops st1 = Inr st2" and "mem_Messages sid st = Inr raw"
  shows "mem_Messages sid st2 = Inr (raw @ ops_for sid ops)
    \<and> (\<exists>v. mem_MessageView sid st2 = Inr v
        \<and> mv_messages v = CloneMessages (cp_messages cp) @ drop (nat (cp_raw_count cp)) raw @ ops_for sid ops)"
  using memc.compacted_view [OF reachable_inv [OF assms(1)] assms(2-4)] .

definition demo_checkpoint :: checkpoint where
  "demo_checkpoint = \<lparr>cp_id = demo_fork_id, cp_created = 7, cp_raw_count = 1, cp_messages = [user_message ''sum''],
     cp_policy = [], cp_reason = [], cp_summary_hash = [], cp_summary_preview = []\<rparr>"

theorem compaction_view_exact_witness:
  "\<exists>st1 st2. mem_SaveCompaction (Inl NegativeRawCount) 9 demo_id demo_checkpoint demo_store = Inr st1
     \<and> append_all mem_Append [(Inl NegativeRawCount, demo_id, (user_message ''hi'')\<lparr>msg_id := ''m1''\<rparr>)] st1 = Inr st2
     \<and> (\<exists>v. mem_MessageView demo_id st2 = Inr v
          \<and> mv_messages v = [user_message ''sum'', (user_message ''hi'')\<lparr>msg_id := ''m1''\<rparr>])"
proof -
  let ?m = "(user_message ''hi'')\<lparr>msg_id := ''m1''\<rparr>"
  have raw: "mem_Messages demo_id demo_store = Inr [?m]"
    by (simp add: demo_store_def mem_Messages_def mem_lookup_def canonicalRequiredID_def CloneMessages_def)
  have cl: "CloneMessage (user_message ''sum'') = user_message ''sum''" by code_simp
  have ops: "ops_for demo_id [(Inl NegativeRawCount, demo_id, ?m)] = [?m]"
    by (simp add: ops_for_def stored_message_def)
  obtain st1 where st1: "mem_SaveCompaction (Inl NegativeRawCount) 9 demo_id demo_checkpoint demo_store = Inr st1"
    by (simp add: mem_SaveCompaction_def canonicalRequiredID_def normalizeCompactionCheckpoint_def
        demo_checkpoint_def demo_store_def canonical_nonempty [OF demo_canonical(2)])
  obtain st2 where st2: "append_all mem_Append [(Inl NegativeRawCount, demo_id, ?m)] st1 = Inr st2"
    using st1 by (auto simp: mem_SaveCompaction_Inr mem_Append_def canonicalRequiredID_def)
  from compaction_view_exact [OF demo_reachable st1 st2 raw] st1 st2 show ?thesis
    by (auto simp: ops cl demo_checkpoint_def)
qed

text \<open>
  A fork of a reachable store opens a new session whose transcript is the source's
  transcript up to and including the requested message (all of it when none is named) and whose
  parent defaults to the source; every other session, the source included, is unchanged, and
  later appends to the fork do not show in the source or the other way round.
\<close>

theorem fork_copies_prefix:
  assumes "reachable_store st" and "fresh_id st nid" and "mem_Fork nid now sid opts st = Inr (se, st')"
  shows "\<exists>raw out. mem_Messages sid st = Inr raw \<and> mem_Messages (se_id se) st' = Inr out
    \<and> mem_Messages sid st' = Inr raw \<and> mem_Get (se_id se) st' = Inr se
    \<and> (\<exists>n\<le>length raw. out = take n raw)
    \<and> (fo_through opts = [] \<longrightarrow> out = raw)
    \<and> (fo_through opts \<noteq> [] \<longrightarrow> out \<noteq> [] \<and> msg_id (last out) = fo_through opts)
    \<and> (fo_parent opts = [] \<longrightarrow> CanonicalID sid = Some (se_parent se))
    \<and> (\<forall>mid m st''. mem_Append mid (se_id se) m st' = Inr st'' \<longrightarrow> mem_Messages sid st'' = Inr raw)
    \<and> (\<forall>mid m st''. mem_Append mid sid m st' = Inr st'' \<longrightarrow> mem_Messages (se_id se) st'' = Inr out)"
proof -
  have inv: "mem_inv st" "mem_inv st'"
    using reachable_inv [OF assms(1)] store_step_inv [OF store_step.fork [OF assms(2,3)]] by auto
  from mem_Fork_Inr [OF assms(3)] obtain i src ms where
    i: "CanonicalID sid = Some i" "map_of st i = Some src" "nid = Inr (se_id se)"
    and ms: "forkMessages (ms_messages src) (fo_through opts) = Inr ms"
    and p: "fo_parent opts = [] \<Longrightarrow> se_parent se = i"
    and st': "st' = AList.update (se_id se) \<lparr>ms_session = se, ms_messages = CloneMessages ms, ms_compaction = None\<rparr> st"
    by auto
  have cl: "CloneMessages (ms_messages src) = ms_messages src"
    using mem_inv_record [OF inv(1) i(2)] by (simp add: wf_record_def)
  from forkMessages_prefix [OF cl ms] obtain n where
    n: "n \<le> length (ms_messages src)" "ms = take n (ms_messages src)" by auto
  have out: "CloneMessages ms = ms" using CloneMessages_take [OF cl] n by simp
  have fr: "CanonicalID (se_id se) = Some (se_id se)" "map_of st (se_id se) = None" "i \<noteq> se_id se"
    using assms(2) i by (auto simp: fresh_id_def)
  then have ne: "CanonicalID sid \<noteq> CanonicalID (se_id se)" using i by simp
  have src': "map_of st' i = Some src" using fr i by (simp add: st')
  have new: "mem_Messages (se_id se) st' = Inr ms" "mem_Get (se_id se) st' = Inr se"
    using mem_Messages_of [OF inv(2) fr(1)] mem_Get_of [OF fr(1)] by (simp_all add: st' out)
  have old: "mem_Messages sid st' = Inr (ms_messages src)" "mem_Messages sid st = Inr (ms_messages src)"
    using mem_Messages_of [OF inv(2) i(1) src'] mem_Messages_of [OF inv(1) i(1,2)] by simp_all
  have indep: "mem_Append mid (se_id se) m st' = Inr st'' \<Longrightarrow> mem_Messages sid st'' = Inr (ms_messages src)"
    "mem_Append mid sid m st' = Inr st'' \<Longrightarrow> mem_Messages (se_id se) st'' = Inr ms" for mid m st''
    using mem.append_other [OF inv(2)] ne new old by metis+
  show ?thesis
    using new old indep p i(1) n forkMessages_prefix [OF cl ms] by (intro exI [of _ "ms_messages src"] exI [of _ ms]) auto
qed

theorem fork_copies_prefix_witness:
  "\<exists>st'. mem_Fork (Inr demo_fork_id) 6 demo_id \<lparr>fo_parent = [], fo_through = ''m1''\<rparr> demo_store
       = Inr (\<lparr>se_id = demo_fork_id, se_parent = demo_id, se_created = 6\<rparr>, st')
     \<and> mem_Messages demo_fork_id st' = Inr [(user_message ''hi'')\<lparr>msg_id := ''m1''\<rparr>]"
proof -
  let ?opts = "\<lparr>fo_parent = [], fo_through = ''m1''\<rparr>"
  let ?se = "\<lparr>se_id = demo_fork_id, se_parent = demo_id, se_created = 6\<rparr>"
  let ?m = "(user_message ''hi'')\<lparr>msg_id := ''m1''\<rparr>"
  have raw: "mem_Messages demo_id demo_store = Inr [?m]"
    by (simp add: demo_store_def mem_Messages_def mem_lookup_def canonicalRequiredID_def CloneMessages_def)
  obtain st' where st': "mem_Fork (Inr demo_fork_id) 6 demo_id ?opts demo_store = Inr (?se, st')"
    by (simp add: mem_Fork_def canonicalRequiredID_def canonicalParentID_def demo_store_def forkMessages_def Let_def)
  have fr: "fresh_id demo_store (Inr demo_fork_id)" by (simp add: fresh_id_def demo_store_def)
  from fork_copies_prefix [OF demo_reachable fr st'] obtain r out where
    o: "mem_Messages demo_id demo_store = Inr r" "mem_Messages (se_id ?se) st' = Inr out"
      "\<exists>n\<le>length r. out = take n r"
      "fo_through ?opts \<noteq> [] \<longrightarrow> out \<noteq> [] \<and> msg_id (last out) = fo_through ?opts" by blast
  from o(1,3) raw obtain n where "out = take n [?m]" by auto
  moreover from o(4) have "out \<noteq> []" by simp
  ultimately have "out = [?m]" by (cases n) auto
  with o(2) st' show ?thesis by (intro exI [of _ st']) simp
qed

text \<open>
  The session listing is deterministic although the store is a Go map: it does not depend
  on the iteration order of the map, contains each session exactly once, and is ordered by
  creation time and then by id.
\<close>

theorem listing_deterministic:
  assumes "reachable_store st" and "mset st = mset st'"
  shows "mem_List st = mem_List st'
    \<and> mset (mem_List st) = mset (map (\<lambda>p. ms_session (snd p)) st)
    \<and> distinct (map se_id (mem_List st))
    \<and> sorted_wrt (\<lambda>a b. \<not> session_less b a) (mem_List st)"
proof (intro conjI)
  have inv: "mem_inv st" using reachable_inv [OF assms(1)] .
  show "mem_List st = mem_List st'" using mem_List_perm [OF inv assms(2)] .
  show mset: "mset (mem_List st) = mset (map (\<lambda>p. ms_session (snd p)) st)"
    by (simp add: mem_List_def sortSessions_def)
  have "mset (map se_id (mem_List st)) = mset (map fst st)"
    using arg_cong [OF mset, of "image_mset se_id"] mem_inv_ids [OF inv]
    by (simp add: multiset.map_comp comp_def flip: mset_map)
  then show "distinct (map se_id (mem_List st))"
    using inv mset_eq_imp_distinct_iff unfolding mem_inv_def wf_map_def by blast
  show "sorted_wrt (\<lambda>a b. \<not> session_less b a) (mem_List st)"
    unfolding mem_List_def sortSessions_def by (rule sorted_stable_sort [OF session_less_strict])
qed

theorem listing_deterministic_witness:
  "reachable_store demo_store \<and> mem_List demo_store = mem_List (rev demo_store)
   \<and> distinct (map se_id (mem_List demo_store))"
  using demo_reachable listing_deterministic [OF demo_reachable mset_rev [symmetric]] by blast

end
