(* ===== verification/Tool_Registry.thy ===== *)
theory Tool_Registry
  imports Tenant
begin

text \<open>
  The tool interface, the registry of \<open>tool/registry.go\<close> and the per-turn tool selection of
  \<open>tool/selection.go\<close>. JSON Schema compilation and validation are third-party code: a compiled
  schema is a value of type \<open>'j\<close>, the compiler an argument.
\<close>

section \<open>Tools\<close>

record runtime =
  rt_session :: string
  rt_parent :: string
  rt_tenant :: tenant_scope

record tool_call =
  ca_use :: tool_use
  ca_runtime :: runtime

text \<open>
  A \<open>Tool\<close> value: its specification, its handler and concurrency predicate, and, when the dynamic
  type implements \<open>InputNormalizer\<close>, the normaliser.
\<close>

record 'w tool =
  to_spec :: tool_spec
  to_execute :: "'w \<Rightarrow> tool_call \<Rightarrow> 'w \<times> (err + tool_result)"
  to_concurrent :: "tool_use \<Rightarrow> bool"
  to_normalize :: "('w \<Rightarrow> tool_use \<Rightarrow> 'w \<times> (err + tool_use \<times> bool)) option"

text \<open>\<open>tool.Definition\<close>: a handler or normaliser may be nil.\<close>

definition tool_Definition ::
  "tool_spec \<Rightarrow> ('w \<Rightarrow> tool_call \<Rightarrow> 'w \<times> (err + tool_result)) option
     \<Rightarrow> ('w \<Rightarrow> tool_use \<Rightarrow> 'w \<times> (err + tool_use \<times> bool)) option \<Rightarrow> unicode \<Rightarrow> 'w tool" where
  "tool_Definition spec handler nrm U =
     \<lparr>to_spec = spec,
      to_execute = (\<lambda>w call. case handler of
          None \<Rightarrow> (w, Inl (EText (''tool '' @ quote U (ts_name spec) @ '' has no handler'')))
        | Some h \<Rightarrow> h w call),
      to_concurrent = (\<lambda>_. ts_concurrency_safe spec),
      to_normalize = Some (\<lambda>w use. case nrm of None \<Rightarrow> (w, Inr (use, False)) | Some n \<Rightarrow> n w use)\<rparr>"

section \<open>The registry\<close>

record ('w, 'j) registry =
  rg_entries :: "(string, 'w tool \<times> 'j option) gomap"
  rg_order :: "string list"

definition empty_registry :: "('w, 'j) registry" where
  "empty_registry = \<lparr>rg_entries = [], rg_order = []\<rparr>"

type_synonym 'j schema_compiler = "metadata \<Rightarrow> err + 'j"

definition compileInputSchema :: "'j schema_compiler \<Rightarrow> unicode \<Rightarrow> string \<Rightarrow> metadata \<Rightarrow> err + 'j option" where
  "compileInputSchema compile U name raw =
     (if raw = [] then Inr None
      else case compile raw of
             Inl e \<Rightarrow> Inl (EWrap (''compile '' @ quote U name @ '' input schema: '') e)
           | Inr s \<Rightarrow> Inr (Some s))"

definition Registry_Register ::
  "'j schema_compiler \<Rightarrow> unicode \<Rightarrow> 'w tool option \<Rightarrow> ('w, 'j) registry \<Rightarrow> err + ('w, 'j) registry" where
  "Registry_Register compile U t r =
     (case t of
        None \<Rightarrow> Inl (EText ''register nil tool'')
      | Some tl1 \<Rightarrow>
          (let spec = to_spec tl1
           in if ts_name spec = [] then Inl (EText ''register tool with empty name'')
              else case compileInputSchema compile U (ts_name spec) (ts_input_schema spec) of
                     Inl e \<Rightarrow> Inl e
                   | Inr sch \<Rightarrow>
                       (if map_of (rg_entries r) (ts_name spec) \<noteq> None
                        then Inl (EText (''tool '' @ quote U (ts_name spec) @ '' already registered''))
                        else Inr (r\<lparr>rg_entries := AList.update (ts_name spec) (tl1, sch) (rg_entries r),
                                    rg_order := rg_order r @ [ts_name spec]\<rparr>))))"

fun register_all ::
  "'j schema_compiler \<Rightarrow> unicode \<Rightarrow> 'w tool option list \<Rightarrow> ('w, 'j) registry \<Rightarrow> ('w, 'j) registry" where
  "register_all compile U [] r = r"
| "register_all compile U (t # ts) r =
     register_all compile U ts (case Registry_Register compile U t r of Inl e \<Rightarrow> r | Inr r' \<Rightarrow> r')"

definition NewRegistry :: "'j schema_compiler \<Rightarrow> unicode \<Rightarrow> 'w tool option list \<Rightarrow> ('w, 'j) registry" where
  "NewRegistry compile U ts = register_all compile U ts empty_registry"

definition Registry_Clone :: "('w, 'j) registry option \<Rightarrow> ('w, 'j) registry" where
  "Registry_Clone r =
     (case r of None \<Rightarrow> empty_registry
      | Some g \<Rightarrow> \<lparr>rg_entries = put_all [] (rg_entries g), rg_order = rg_order g\<rparr>)"

definition Registry_Get :: "('w, 'j) registry \<Rightarrow> string \<Rightarrow> 'w tool option" where
  "Registry_Get r name = map_option fst (map_of (rg_entries r) name)"

definition Registry_InputSchema :: "('w, 'j) registry \<Rightarrow> string \<Rightarrow> 'j option" where
  "Registry_InputSchema r name = (case map_of (rg_entries r) name of None \<Rightarrow> None | Some e \<Rightarrow> snd e)"

text \<open>
  \<open>Specs\<close> reads the entry of every name in registration order; a missing entry would be a nil
  tool and panic, which the invariant below excludes (the equation skips it).
\<close>

definition Registry_Specs :: "('w, 'j) registry \<Rightarrow> tool_spec list" where
  "Registry_Specs r = List.map_filter (\<lambda>n. map_option (\<lambda>e. to_spec (fst e)) (map_of (rg_entries r) n)) (rg_order r)"

section \<open>Selection\<close>

record scored_spec =
  ss_spec :: tool_spec
  ss_score :: int
  ss_index :: nat

text \<open>\<open>strings.FieldsFunc\<close> on the runes that are neither letters nor digits.\<close>

fun fields_loop :: "unicode \<Rightarrow> (nat \<times> string) list \<Rightarrow> string \<Rightarrow> string list" where
  "fields_loop U [] cur = (if cur = [] then [] else [cur])"
| "fields_loop U ((r, bs) # ps) cur =
     (if \<not> uc_letter U r \<and> \<not> uc_digit U r
      then (if cur = [] then [] else [cur]) @ fields_loop U ps []
      else fields_loop U ps (cur @ bs))"

fun dedup_tokens :: "string list \<Rightarrow> string list \<Rightarrow> string list" where
  "dedup_tokens seen [] = []"
| "dedup_tokens seen (f # fs) =
     (if length f < 2 \<or> f \<in> set seen then dedup_tokens seen fs else f # dedup_tokens (f # seen) fs)"

definition tokenize :: "unicode \<Rightarrow> string \<Rightarrow> string list" where
  "tokenize U query = dedup_tokens [] (fields_loop U (utf8_chunks (to_lower U query)) [])"

definition scoreSpec :: "unicode \<Rightarrow> tool_spec \<Rightarrow> string \<Rightarrow> string list \<Rightarrow> int" where
  "scoreSpec U spec query tokens =
     (if tokens = [] then 0
      else let name = to_lower U (ts_name spec);
               text = to_lower U (join '' '' [ts_name spec, ts_description spec, ts_search_hint spec]);
               base = sum_list (map (\<lambda>t. if t = [] then 0
                         else (if contains name t then 3 else 0) + (if contains text t then 1 else 0)) tokens);
               nq = to_lower U (trim_space query)
           in if nq \<noteq> [] \<and> contains text nq then base + 5 else base)"

definition scoreSpecs :: "unicode \<Rightarrow> tool_spec list \<Rightarrow> string \<Rightarrow> scored_spec list" where
  "scoreSpecs U specs query =
     map (\<lambda>(i, spec). \<lparr>ss_spec = spec, ss_score = scoreSpec U spec query (tokenize U query), ss_index = i\<rparr>)
       (enumerate 0 specs)"

definition limitPreservingAlwaysLoad :: "scored_spec list \<Rightarrow> nat \<Rightarrow> scored_spec list" where
  "limitPreservingAlwaysLoad items mx =
     (if length items \<le> mx then items
      else let always = filter (\<lambda>x. ts_always_load (ss_spec x)) items;
               rest = filter (\<lambda>x. \<not> ts_always_load (ss_spec x)) items
           in if mx \<le> length always then always else always @ take (mx - length always) rest)"

definition select_before :: "scored_spec \<Rightarrow> scored_spec \<Rightarrow> bool" where
  "select_before l r =
     (if ts_always_load (ss_spec l) \<noteq> ts_always_load (ss_spec r) then ts_always_load (ss_spec l)
      else if ss_score l \<noteq> ss_score r then ss_score r < ss_score l
      else ss_index l < ss_index r)"

definition select_candidate :: "scored_spec \<Rightarrow> bool" where
  "select_candidate x \<longleftrightarrow> ts_always_load (ss_spec x) \<or> 1 < ss_score x \<or> \<not> ts_should_defer (ss_spec x)"

definition select_candidates :: "unicode \<Rightarrow> tool_spec list \<Rightarrow> string \<Rightarrow> scored_spec list" where
  "select_candidates U specs query = filter select_candidate (scoreSpecs U specs query)"

definition select_scored :: "unicode \<Rightarrow> tool_spec list \<Rightarrow> string \<Rightarrow> int \<Rightarrow> scored_spec list" where
  "select_scored U specs query mx =
     (let sel = stable_sort select_before (select_candidates U specs query)
      in if 0 < mx then limitPreservingAlwaysLoad sel (nat mx) else sel)"

definition SelectSpecs :: "unicode \<Rightarrow> tool_spec list \<Rightarrow> string \<Rightarrow> int \<Rightarrow> tool_spec list" where
  "SelectSpecs U specs query mx = (if specs = [] then [] else map ss_spec (select_scored U specs query mx))"

definition search_before :: "scored_spec \<Rightarrow> scored_spec \<Rightarrow> bool" where
  "search_before l r =
     (if ss_score l \<noteq> ss_score r then ss_score r < ss_score l else ss_index l < ss_index r)"

definition SearchSpecs :: "unicode \<Rightarrow> tool_spec list \<Rightarrow> string \<Rightarrow> int \<Rightarrow> tool_spec list" where
  "SearchSpecs U specs query limit =
     (if specs = [] then []
      else let fil = stable_sort search_before (filter (\<lambda>x. 0 < ss_score x) (scoreSpecs U specs query));
               lim = (if 0 < limit \<and> limit < int (length fil) then take (nat limit) fil else fil)
           in map ss_spec lim)"

definition QueryFromMessages :: "message list \<Rightarrow> string" where
  "QueryFromMessages ms =
     concat (map (\<lambda>m. case msg_tool_result m of
         Some r \<Rightarrow> '' '' @ tr_name r @ '' '' @ tr_content r
       | None \<Rightarrow> (if PlainText m = [] then [] else '' '' @ PlainText m)) ms)"

definition SearchSelector_Select :: "unicode \<Rightarrow> int \<Rightarrow> ('w, 'j) registry option \<Rightarrow> message list \<Rightarrow> tool_spec list" where
  "SearchSelector_Select U mx r ms =
     (case r of None \<Rightarrow> [] | Some g \<Rightarrow> SelectSpecs U (Registry_Specs g) (QueryFromMessages ms) mx)"

section \<open>The registry invariant\<close>

definition registry_inv :: "('w, 'j) registry \<Rightarrow> bool" where
  "registry_inv r \<longleftrightarrow> wf_map (rg_entries r) \<and> rg_order r = map fst (rg_entries r)
     \<and> list_all (\<lambda>(n, t, s). n \<noteq> [] \<and> ts_name (to_spec t) = n) (rg_entries r)"

lemma registry_inv_empty: "registry_inv empty_registry"
  by (simp add: registry_inv_def empty_registry_def)

lemma Register_Inr:
  "Registry_Register compile U t r = Inr r' \<Longrightarrow>
     \<exists>tl1 sch. t = Some tl1 \<and> ts_name (to_spec tl1) \<noteq> [] \<and> map_of (rg_entries r) (ts_name (to_spec tl1)) = None
       \<and> compileInputSchema compile U (ts_name (to_spec tl1)) (ts_input_schema (to_spec tl1)) = Inr sch
       \<and> rg_entries r' = rg_entries r @ [(ts_name (to_spec tl1), tl1, sch)]
       \<and> rg_order r' = rg_order r @ [ts_name (to_spec tl1)]"
  by (auto simp: Registry_Register_def Let_def map_of_None_notin update_fresh
      split: option.splits if_splits sum.splits)

lemma Register_inv: "registry_inv r \<Longrightarrow> Registry_Register compile U t r = Inr r' \<Longrightarrow> registry_inv r'"
proof -
  assume inv: "registry_inv r" and reg: "Registry_Register compile U t r = Inr r'"
  from Register_Inr [OF reg] obtain tl1 sch where
    tl1: "ts_name (to_spec tl1) \<noteq> []" "map_of (rg_entries r) (ts_name (to_spec tl1)) = None"
      "rg_entries r' = rg_entries r @ [(ts_name (to_spec tl1), tl1, sch)]"
      "rg_order r' = rg_order r @ [ts_name (to_spec tl1)]" by blast
  then show ?thesis
    using inv by (auto simp: registry_inv_def wf_map_def map_of_None_notin)
qed

lemma register_all_inv: "registry_inv r \<Longrightarrow> registry_inv (register_all compile U ts r)"
proof (induction compile U ts r rule: register_all.induct)
  case (2 compile U t ts r)
  have "registry_inv (case Registry_Register compile U t r of Inl e \<Rightarrow> r | Inr r' \<Rightarrow> r')"
    using "2.prems" Register_inv [OF "2.prems"] by (simp split: sum.split)
  then show ?case using "2.IH" by simp
qed simp

lemma Registry_Clone_id: "registry_inv r \<Longrightarrow> Registry_Clone (Some r) = r"
  using put_all_distinct [of "[]" "rg_entries r"] by (simp add: Registry_Clone_def registry_inv_def)

lemma Specs_entries: "registry_inv r \<Longrightarrow> Registry_Specs r = map (\<lambda>e. to_spec (fst (snd e))) (rg_entries r)"
proof -
  assume inv: "registry_inv r"
  have "map_of (rg_entries r) (fst e) = Some (snd e)" if "e \<in> set (rg_entries r)" for e
    using inv that by (auto simp: registry_inv_def wf_map_def intro: map_of_is_SomeI)
  then have "List.map_filter (\<lambda>n. map_option (\<lambda>e. to_spec (fst e)) (map_of (rg_entries r) n)) (map fst es)
      = map (\<lambda>e. to_spec (fst (snd e))) es" if "set es \<subseteq> set (rg_entries r)" for es
    using that by (induction es) (auto simp: List.map_filter_simps)
  with inv show ?thesis by (simp add: Registry_Specs_def registry_inv_def)
qed

section \<open>The directory interface\<close>

text \<open>
  What the executor and the selector rely on: a registration makes the tool reachable by its
  name and touches no other name, and the listing grows at the end.
\<close>

locale tool_directory =
  fixes dir_register :: "'t \<Rightarrow> 'd \<Rightarrow> 'e + 'd" and dir_get :: "'d \<Rightarrow> string \<Rightarrow> 't option"
    and dir_names :: "'d \<Rightarrow> string list" and dir_name :: "'t \<Rightarrow> string" and dir_inv :: "'d \<Rightarrow> bool"
  assumes register_inv: "dir_inv d \<Longrightarrow> dir_register t d = Inr d' \<Longrightarrow> dir_inv d'"
    and register_get: "dir_inv d \<Longrightarrow> dir_register t d = Inr d' \<Longrightarrow>
      dir_get d' n = (if n = dir_name t then Some t else dir_get d n)"
    and register_names: "dir_inv d \<Longrightarrow> dir_register t d = Inr d' \<Longrightarrow> dir_names d' = dir_names d @ [dir_name t]"
    and register_new: "dir_inv d \<Longrightarrow> dir_register t d = Inr d' \<Longrightarrow> dir_get d (dir_name t) = None"
    and names_get: "dir_inv d \<Longrightarrow> n \<in> set (dir_names d) \<longleftrightarrow> dir_get d n \<noteq> None"
    and names_distinct: "dir_inv d \<Longrightarrow> distinct (dir_names d)"
begin

fun dir_register_all :: "'t list \<Rightarrow> 'd \<Rightarrow> 'd" where
  "dir_register_all [] d = d"
| "dir_register_all (t # ts) d = dir_register_all ts (case dir_register t d of Inl e \<Rightarrow> d | Inr d' \<Rightarrow> d')"

lemma register_keeps: "dir_inv d \<Longrightarrow> dir_get d n = Some t \<Longrightarrow>
    dir_inv (case dir_register t' d of Inl e \<Rightarrow> d | Inr d' \<Rightarrow> d')
    \<and> dir_get (case dir_register t' d of Inl e \<Rightarrow> d | Inr d' \<Rightarrow> d') n = Some t"
  using register_inv register_get register_new by (fastforce split: sum.split)

lemma register_all_keeps: "dir_inv d \<Longrightarrow> dir_get d n = Some t \<Longrightarrow> dir_get (dir_register_all ts d) n = Some t"
  by (induction ts d rule: dir_register_all.induct) (use register_keeps in auto)

end

lemma Get_Register:
  assumes "registry_inv r" and "Registry_Register compile U (Some t) r = Inr r'"
  shows "Registry_Get r' n = (if n = ts_name (to_spec t) then Some t else Registry_Get r n)"
proof -
  from Register_Inr [OF assms(2)] obtain sch where
    "map_of (rg_entries r) (ts_name (to_spec t)) = None" "rg_entries r' = rg_entries r @ [(ts_name (to_spec t), t, sch)]"
    by auto
  then show ?thesis by (auto simp: Registry_Get_def map_add_def map_of_append split: option.split)
qed

interpretation reg: tool_directory
  "\<lambda>t. Registry_Register compile U (Some t)" "Registry_Get :: ('w, 'j) registry \<Rightarrow> string \<Rightarrow> 'w tool option" rg_order "\<lambda>t. ts_name (to_spec t)" registry_inv
proof unfold_locales
  fix d d' :: "('w, 'j) registry" and t :: "'w tool" and n
  assume inv: "registry_inv d"
  show "n \<in> set (rg_order d) \<longleftrightarrow> Registry_Get d n \<noteq> None"
    using inv by (auto simp: registry_inv_def Registry_Get_def map_of_None_notin)
  show "distinct (rg_order d)" using inv by (simp add: registry_inv_def wf_map_def)
  assume r: "Registry_Register compile U (Some t) d = Inr d'"
  show "registry_inv d'" using Register_inv [OF inv r] .
  show "Registry_Get d' n = (if n = ts_name (to_spec t) then Some t else Registry_Get d n)"
    using Get_Register [OF inv r] .
  show "rg_order d' = rg_order d @ [ts_name (to_spec t)]" "Registry_Get d (ts_name (to_spec t)) = None"
    using Register_Inr [OF r] by (auto simp: Registry_Get_def)
qed

section \<open>Lemmas on selection\<close>

lemma select_before_strict: "strict_weak select_before"
proof -
  let ?a = "\<lambda>x. if ts_always_load (ss_spec x) then 0 else 1 :: int"
  have idx: "strict_weak (\<lambda>a b. ss_index a < ss_index b)"
    by (rule strict_weakI) auto
  have eq: "select_before a b = (if ?a a \<noteq> ?a b then ?a a < ?a b
      else if - ss_score a \<noteq> - ss_score b then - ss_score a < - ss_score b else ss_index a < ss_index b)" for a b
    by (simp add: select_before_def)
  show ?thesis
    using strict_weak_lex [OF strict_weak_lex [OF idx, of "\<lambda>x. - ss_score x"], of ?a] unfolding eq [abs_def] .
qed

lemma length_filter_limit:
  "length (limitPreservingAlwaysLoad items mx) \<le> max mx (length (filter (\<lambda>x. ts_always_load (ss_spec x)) items))"
  by (auto simp: limitPreservingAlwaysLoad_def Let_def)

lemma limit_sub: "set (limitPreservingAlwaysLoad items mx) \<subseteq> set items"
  by (auto simp: limitPreservingAlwaysLoad_def Let_def dest: in_set_takeD split: if_splits)

lemma limit_always: "x \<in> set items \<Longrightarrow> ts_always_load (ss_spec x) \<Longrightarrow> x \<in> set (limitPreservingAlwaysLoad items mx)"
  by (auto simp: limitPreservingAlwaysLoad_def Let_def)

lemma distinct_limit: "distinct items \<Longrightarrow> distinct (limitPreservingAlwaysLoad items mx)"
  by (auto simp: limitPreservingAlwaysLoad_def Let_def dest: in_set_takeD)

text \<open>What the limit drops never ranks before what it keeps.\<close>

lemma limit_best:
  assumes sorted: "sorted_wrt (\<lambda>a b. \<not> select_before b a) items"
    and x: "x \<in> set (limitPreservingAlwaysLoad items mx)"
    and y: "y \<in> set items" "y \<notin> set (limitPreservingAlwaysLoad items mx)"
  shows "\<not> select_before y x"
proof -
  let ?rest = "filter (\<lambda>x. \<not> ts_always_load (ss_spec x)) items"
  let ?k = "mx - length (filter (\<lambda>x. ts_always_load (ss_spec x)) items)"
  have ny: "\<not> ts_always_load (ss_spec y)" using y limit_always by blast
  show ?thesis
  proof (cases "ts_always_load (ss_spec x)")
    case True
    with ny show ?thesis by (simp add: select_before_def)
  next
    case False
    with x y have xt: "x \<in> set (take ?k ?rest)"
      by (auto simp: limitPreservingAlwaysLoad_def Let_def split: if_splits)
    have "y \<in> set ?rest" "y \<notin> set (take ?k ?rest)"
      using y ny by (auto simp: limitPreservingAlwaysLoad_def Let_def split: if_splits)
    then have yd: "y \<in> set (drop ?k ?rest)" by (metis Un_iff append_take_drop_id set_append)
    have "sorted_wrt (\<lambda>a b. \<not> select_before b a) (take ?k ?rest @ drop ?k ?rest)"
      using sorted by (simp add: sorted_wrt_filter)
    with xt yd show ?thesis unfolding sorted_wrt_append by blast
  qed
qed

lemma distinct_scored: "distinct (map ss_index (scoreSpecs U specs q))"
  by (simp add: scoreSpecs_def comp_def case_prod_unfold)

lemma scored_nth:
  "x \<in> set (scoreSpecs U specs q) \<Longrightarrow> ss_index x < length specs \<and> ss_spec x = specs ! ss_index x"
  by (auto simp: scoreSpecs_def in_set_enumerate_eq)

lemma scored_all:
  assumes "i < length specs"
  shows "\<exists>x\<in>set (scoreSpecs U specs q). ss_index x = i \<and> ss_spec x = specs ! i"
proof -
  have "(i, specs ! i) \<in> set (enumerate 0 specs)" using assms by (simp add: in_set_enumerate_eq)
  then show ?thesis unfolding scoreSpecs_def by force
qed

lemma candidates_distinct: "distinct (map ss_index (select_candidates U specs q))"
  unfolding select_candidates_def using distinct_scored by (rule distinct_map_filter)

lemma select_sorted:
  "sorted_wrt (\<lambda>a b. \<not> select_before b a) (stable_sort select_before (select_candidates U specs q))"
  by (rule sorted_stable_sort [OF select_before_strict])

lemma select_scored_empty: "select_scored U [] q mx = []"
  by (simp add: select_scored_def select_candidates_def scoreSpecs_def limitPreservingAlwaysLoad_def)

lemma select_scored_sub: "set (select_scored U specs q mx) \<subseteq> set (select_candidates U specs q)"
  using limit_sub [of "stable_sort select_before (select_candidates U specs q)"]
  by (simp add: select_scored_def Let_def)

lemma select_scored_nth:
  "x \<in> set (select_scored U specs q mx) \<Longrightarrow> ss_index x < length specs \<and> ss_spec x = specs ! ss_index x"
  using select_scored_sub scored_nth by (fastforce simp: select_candidates_def)

lemma select_scored_distinct: "distinct (map ss_index (select_scored U specs q mx))"
proof -
  let ?c = "select_candidates U specs q"
  have d: "distinct ?c" "inj_on ss_index (set ?c)" using candidates_distinct by (auto simp: distinct_map)
  have "distinct (stable_sort select_before ?c)" using d(1) mset_eq_imp_distinct_iff mset_stable_sort by blast
  then have "distinct (select_scored U specs q mx)" by (simp add: select_scored_def Let_def distinct_limit)
  then show ?thesis using inj_on_subset [OF d(2) select_scored_sub] by (simp add: distinct_map)
qed

lemma select_scored_nolimit: "mx \<le> 0 \<Longrightarrow> set (select_scored U specs q mx) = set (select_candidates U specs q)"
  by (simp add: select_scored_def)

lemma filter_stable_sort_length: "length (filter P (stable_sort lt xs)) = length (filter P xs)"
  by (metis mset_filter mset_stable_sort size_mset)

lemma select_scored_length:
  assumes "0 < mx"
  shows "int (length (select_scored U specs q mx)) \<le>
     max mx (int (length (filter (\<lambda>x. ts_always_load (ss_spec x)) (select_candidates U specs q))))"
  using assms length_filter_limit [of "stable_sort select_before (select_candidates U specs q)" "nat mx"]
  by (simp add: select_scored_def filter_stable_sort_length)

lemma select_scored_always:
  assumes "i < length specs" and "ts_always_load (specs ! i)"
  shows "i \<in> ss_index ` set (select_scored U specs q mx)"
proof -
  from scored_all [OF assms(1)] obtain x where
    x: "x \<in> set (scoreSpecs U specs q)" "ss_index x = i" "ss_spec x = specs ! i" by blast
  then have "x \<in> set (stable_sort select_before (select_candidates U specs q))"
    using assms(2) by (simp add: select_candidates_def select_candidate_def)
  then have "x \<in> set (select_scored U specs q mx)"
    using limit_always x(3) assms(2) by (simp add: select_scored_def Let_def)
  with x(2) show ?thesis by blast
qed

lemma select_scored_best:
  assumes "x \<in> set (select_scored U specs q mx)" and "y \<in> set (select_candidates U specs q)"
    and "y \<notin> set (select_scored U specs q mx)"
  shows "\<not> select_before y x"
  using assms limit_best [OF select_sorted] by (cases "0 < mx") (auto simp: select_scored_def)

section \<open>Properties\<close>

text \<open>
  Registration: a successful \<open>Register\<close> makes the tool reachable under its name, changes no
  other name, appends its specification to \<open>Specs\<close> and keeps the names unique; registering the
  same tool again is refused; a clone answers exactly like the original.
\<close>

theorem registry_register_spec:
  assumes "registry_inv r" and "Registry_Register compile U (Some t) r = Inr r'"
  shows "registry_inv r'
    \<and> Registry_Get r' n = (if n = ts_name (to_spec t) then Some t else Registry_Get r n)
    \<and> Registry_Specs r' = Registry_Specs r @ [to_spec t]
    \<and> distinct (map ts_name (Registry_Specs r'))
    \<and> Registry_Register compile U (Some t) r' = Inl (EText (''tool '' @ quote U (ts_name (to_spec t)) @ '' already registered''))
    \<and> Registry_Clone (Some r') = r'"
proof -
  have inv: "registry_inv r'" using Register_inv [OF assms] .
  from Register_Inr [OF assms(2)] obtain sch where
    new: "ts_name (to_spec t) \<noteq> []" "rg_entries r' = rg_entries r @ [(ts_name (to_spec t), t, sch)]"
      "compileInputSchema compile U (ts_name (to_spec t)) (ts_input_schema (to_spec t)) = Inr sch"
      "map_of (rg_entries r) (ts_name (to_spec t)) = None"
    by auto
  have specs: "Registry_Specs r' = Registry_Specs r @ [to_spec t]"
    by (simp add: Specs_entries [OF inv] Specs_entries [OF assms(1)] new)
  have "map ts_name (Registry_Specs r') = map fst (rg_entries r')"
    using inv by (auto simp: Specs_entries [OF inv] registry_inv_def list_all_iff)
  then have names: "distinct (map ts_name (Registry_Specs r'))" using inv by (simp add: registry_inv_def wf_map_def)
  have again: "Registry_Register compile U (Some t) r' = Inl (EText (''tool '' @ quote U (ts_name (to_spec t)) @ '' already registered''))"
    using new by (simp add: Registry_Register_def Let_def map_add_def split: option.split)
  show ?thesis
    using inv Get_Register [OF assms] specs names again Registry_Clone_id [OF inv] by blast
qed

definition demo_spec :: "string \<Rightarrow> bool \<Rightarrow> tool_spec" where
  "demo_spec n always = \<lparr>ts_name = n, ts_description = [], ts_input_schema = [], ts_search_hint = [], ts_read_only = True,
     ts_concurrency_safe = True, ts_destructive = False, ts_always_load = always, ts_should_defer = False,
     ts_max_result_bytes = 0\<rparr>"

definition demo_tool :: "unit tool" where
  "demo_tool = tool_Definition (demo_spec ''ls'' False) None None ascii_unicode"

definition demo_registry :: "(unit, unit) registry" where
  "demo_registry = \<lparr>rg_entries = [(''ls'', demo_tool, None)], rg_order = [''ls'']\<rparr>"

theorem registry_register_spec_witness:
  "Registry_Get demo_registry ''ls'' = Some demo_tool \<and> Registry_Specs demo_registry = [demo_spec ''ls'' False]"
proof -
  have r: "Registry_Register (\<lambda>_. Inr ()) ascii_unicode (Some demo_tool) empty_registry = Inr demo_registry"
    by (simp add: Registry_Register_def demo_tool_def tool_Definition_def demo_spec_def compileInputSchema_def
        empty_registry_def demo_registry_def)
  have e: "Registry_Specs (empty_registry :: (unit, unit) registry) = []"
    by (simp add: Registry_Specs_def empty_registry_def List.map_filter_simps)
  have n: "to_spec demo_tool = demo_spec ''ls'' False" "ts_name (demo_spec ''ls'' False) = ''ls''"
    by (simp_all add: demo_tool_def tool_Definition_def demo_spec_def)
  show ?thesis
    using registry_register_spec [OF registry_inv_empty r, of "''ls''"] by (simp add: e n)
qed

text \<open>
  Tool selection: the result lists distinct registered tools, all of them candidates (always
  loaded, scored above one, or not deferred); every always-loaded tool is kept whatever the
  limit; without a limit every candidate is kept; with one, at most that many tools are kept
  unless the always-loaded ones alone exceed it; and no dropped candidate ranks before a kept
  one.
\<close>

theorem select_specs_sound:
  "\<exists>sel. SelectSpecs U specs q mx = map ss_spec sel \<and> set sel \<subseteq> set (select_candidates U specs q)
    \<and> distinct (map ss_index sel)
    \<and> (\<forall>x. x \<in> set sel \<longrightarrow> ss_index x < length specs \<and> ss_spec x = specs ! ss_index x)
    \<and> (\<forall>i. i < length specs \<and> ts_always_load (specs ! i) \<longrightarrow> i \<in> ss_index ` set sel)
    \<and> (mx \<le> 0 \<longrightarrow> set sel = set (select_candidates U specs q))
    \<and> (0 < mx \<longrightarrow> int (length sel) \<le>
         max mx (int (length (filter (\<lambda>x. ts_always_load (ss_spec x)) (select_candidates U specs q)))))
    \<and> (\<forall>x y. x \<in> set sel \<and> y \<in> set (select_candidates U specs q) \<and> y \<notin> set sel \<longrightarrow> \<not> select_before y x)"
proof (intro exI [of _ "select_scored U specs q mx"] conjI allI impI)
  show "SelectSpecs U specs q mx = map ss_spec (select_scored U specs q mx)"
    by (auto simp: SelectSpecs_def select_scored_empty)
  show "int (length (select_scored U specs q mx)) \<le>
      max mx (int (length (filter (\<lambda>x. ts_always_load (ss_spec x)) (select_candidates U specs q))))" if "0 < mx"
    using select_scored_length [OF that] .
  show "i \<in> ss_index ` set (select_scored U specs q mx)" if "i < length specs \<and> ts_always_load (specs ! i)" for i
    using that select_scored_always by blast
  show "set (select_scored U specs q mx) \<subseteq> set (select_candidates U specs q)" by (rule select_scored_sub)
  show "distinct (map ss_index (select_scored U specs q mx))" by (rule select_scored_distinct)
  show "ss_index x < length specs" "ss_spec x = specs ! ss_index x" if "x \<in> set (select_scored U specs q mx)" for x
    using select_scored_nth [OF that] by auto
  show "set (select_scored U specs q mx) = set (select_candidates U specs q)" if "mx \<le> 0"
    using select_scored_nolimit [OF that] .
  show "\<not> select_before y x" if "x \<in> set (select_scored U specs q mx) \<and> y \<in> set (select_candidates U specs q)
      \<and> y \<notin> set (select_scored U specs q mx)" for x y
    using that select_scored_best by blast
qed

theorem select_specs_sound_witness:
  "\<exists>sel :: scored_spec list. SelectSpecs ascii_unicode [demo_spec ''ls'' False, demo_spec ''rm'' True] ''ls'' 1 = map ss_spec sel
     \<and> 1 \<in> ss_index ` set sel \<and> int (length sel) \<le> 1"
proof -
  let ?specs = "[demo_spec ''ls'' False, demo_spec ''rm'' True]"
  have always: "1 < length ?specs \<and> ts_always_load (?specs ! 1)" by (simp add: demo_spec_def)
  have one: "length (filter (\<lambda>x. ts_always_load (ss_spec x)) (select_candidates ascii_unicode ?specs ''ls'')) = 1"
    by (simp add: select_candidates_def scoreSpecs_def select_candidate_def demo_spec_def)
  from select_specs_sound [of ascii_unicode ?specs "''ls''" 1] obtain sel :: "scored_spec list" where
    sel: "SelectSpecs ascii_unicode ?specs ''ls'' 1 = map ss_spec sel"
      "\<forall>i. i < length ?specs \<and> ts_always_load (?specs ! i) \<longrightarrow> i \<in> ss_index ` set sel"
      "(0 :: int) < 1 \<longrightarrow> int (length sel) \<le> max 1 (int (length (filter (\<lambda>x. ts_always_load (ss_spec x)) (select_candidates ascii_unicode ?specs ''ls''))))"
    by blast
  have "1 \<in> ss_index ` set sel" using sel(2) always by blast
  moreover have "int (length sel) \<le> 1" using sel(3) unfolding one by simp
  ultimately show ?thesis using sel(1) by blast
qed

end
