(* ===== verification/Permission.thy ===== *)
theory Permission
  imports Budget
begin

text \<open>
  \<open>permission/permission.go\<close>: permission checkers, ordered rule policies with host approval, and
  the matcher combinators. A checker or approver is host code that may act on the world \<open>'w\<close>;
  matchers only read it. \<open>None\<close> is a nil matcher or approver.
\<close>

section \<open>Checkers\<close>

type_synonym 'w checker = "'w \<Rightarrow> tool_use \<Rightarrow> tool_spec \<Rightarrow> 'w \<times> decision"
type_synonym 'w matcher = "'w \<Rightarrow> tool_use \<Rightarrow> tool_spec \<Rightarrow> bool"

definition AllowAll_Check :: "'w checker" where
  "AllowAll_Check w use spec = (w, allow)"

definition ReadOnly_Check :: "unicode \<Rightarrow> 'w checker" where
  "ReadOnly_Check U w use spec =
     (w, if ts_read_only spec \<and> \<not> ts_destructive spec then allow
         else deny_with (''tool '' @ quote U (use_name use) @ '' is not read-only''))"

section \<open>Matchers\<close>

definition match_Any :: "'w matcher" where
  "match_Any w use spec = True"

definition match_ToolName :: "string list \<Rightarrow> 'w matcher" where
  "match_ToolName names w use spec \<longleftrightarrow> use_name use \<in> set names"

definition match_ReadOnlyTool :: "'w matcher" where
  "match_ReadOnlyTool w use spec \<longleftrightarrow> ts_read_only spec \<and> \<not> ts_destructive spec"

definition match_DestructiveTool :: "'w matcher" where
  "match_DestructiveTool w use spec = ts_destructive spec"

definition match_All :: "'w matcher option list \<Rightarrow> 'w matcher" where
  "match_All ms w use spec = list_all (\<lambda>m. case m of None \<Rightarrow> True | Some f \<Rightarrow> f w use spec) ms"

definition match_AnyOf :: "'w matcher option list \<Rightarrow> 'w matcher" where
  "match_AnyOf ms w use spec = list_ex (\<lambda>m. case m of None \<Rightarrow> False | Some f \<Rightarrow> f w use spec) ms"

definition match_Not :: "'w matcher option \<Rightarrow> 'w matcher" where
  "match_Not m w use spec = (case m of None \<Rightarrow> True | Some f \<Rightarrow> \<not> f w use spec)"

section \<open>Policies\<close>

type_synonym effect = string

abbreviation EffectAllow :: effect where "EffectAllow \<equiv> ''allow''"
abbreviation EffectDeny :: effect where "EffectDeny \<equiv> ''deny''"
abbreviation EffectAsk :: effect where "EffectAsk \<equiv> ''ask''"

record 'w rule =
  ru_effect :: effect
  ru_match :: "'w matcher option"
  ru_reason :: string
  ru_message :: string

definition rule_Allow :: "'w matcher option \<Rightarrow> 'w rule" where
  "rule_Allow m = \<lparr>ru_effect = EffectAllow, ru_match = m, ru_reason = [], ru_message = []\<rparr>"

definition rule_Deny :: "'w matcher option \<Rightarrow> string \<Rightarrow> 'w rule" where
  "rule_Deny m reason = \<lparr>ru_effect = EffectDeny, ru_match = m, ru_reason = reason, ru_message = []\<rparr>"

definition rule_Ask :: "'w matcher option \<Rightarrow> string \<Rightarrow> 'w rule" where
  "rule_Ask m message = \<lparr>ru_effect = EffectAsk, ru_match = m, ru_reason = [], ru_message = message\<rparr>"

record approval_request =
  ar_use :: tool_use
  ar_spec :: tool_spec
  ar_message :: string

type_synonym 'w approver = "'w \<Rightarrow> approval_request \<Rightarrow> 'w \<times> decision"

record 'w permission_policy =
  pp_rules :: "'w rule list"
  pp_default :: decision
  pp_approver :: "'w approver option"

definition deny_rule :: "'w rule \<Rightarrow> string \<Rightarrow> decision" where
  "deny_rule rule fallback = deny_with (if ru_reason rule \<noteq> [] then ru_reason rule else fallback)"

definition applyRule ::
  "unicode \<Rightarrow> 'w permission_policy \<Rightarrow> 'w rule \<Rightarrow> 'w \<Rightarrow> tool_use \<Rightarrow> tool_spec \<Rightarrow> 'w \<times> decision" where
  "applyRule U p rule w use spec =
     (let tool = ''tool '' @ quote U (use_name use)
      in if ru_effect rule = EffectAllow then (w, allow)
         else if ru_effect rule = EffectDeny then (w, deny_rule rule (tool @ '' denied by policy''))
         else if ru_effect rule = EffectAsk then
           (case pp_approver p of
              None \<Rightarrow> (w, deny_rule rule (tool @ '' requires approval''))
            | Some a \<Rightarrow>
                (let (w', d) = a w \<lparr>ar_use = use, ar_spec = spec, ar_message = ru_message rule\<rparr>
                 in (w', if \<not> dc_allow d \<and> dc_reason d = [] then d\<lparr>dc_reason := tool @ '' was not approved''\<rparr> else d)))
         else (w, deny_rule rule (tool @ '' matched invalid permission effect '' @ quote U (ru_effect rule))))"

definition rule_matches :: "'w rule \<Rightarrow> 'w \<Rightarrow> tool_use \<Rightarrow> tool_spec \<Rightarrow> bool" where
  "rule_matches rule w use spec = (case ru_match rule of None \<Rightarrow> match_Any w use spec | Some f \<Rightarrow> f w use spec)"

fun check_rules ::
  "unicode \<Rightarrow> 'w permission_policy \<Rightarrow> 'w rule list \<Rightarrow> 'w checker" where
  "check_rules U p [] w use spec =
     (w, if dc_allow (pp_default p) \<or> dc_reason (pp_default p) \<noteq> [] then pp_default p
         else deny_with (''no permission rule matched tool '' @ quote U (use_name use)))"
| "check_rules U p (r # rs) w use spec =
     (if rule_matches r w use spec then applyRule U p r w use spec else check_rules U p rs w use spec)"

definition PermissionPolicy_Check :: "unicode \<Rightarrow> 'w permission_policy \<Rightarrow> 'w checker" where
  "PermissionPolicy_Check U p = check_rules U p (pp_rules p)"

section \<open>Lemmas\<close>

text \<open>The rule that decides: the first one that matches.\<close>

definition deciding_rule :: "'w rule list \<Rightarrow> 'w \<Rightarrow> tool_use \<Rightarrow> tool_spec \<Rightarrow> 'w rule option" where
  "deciding_rule rs w use spec = List.find (\<lambda>r. rule_matches r w use spec) rs"

lemma check_rules_deciding:
  "check_rules U p rs w use spec =
     (case deciding_rule rs w use spec of
        None \<Rightarrow> (w, if dc_allow (pp_default p) \<or> dc_reason (pp_default p) \<noteq> [] then pp_default p
                    else deny_with (''no permission rule matched tool '' @ quote U (use_name use)))
      | Some r \<Rightarrow> applyRule U p r w use spec)"
  by (induction rs) (simp_all add: deciding_rule_def)

lemma deny_reason [simp]: "dc_allow (deny_with r) = False" "dc_reason (deny_with r) = r"
  by (simp_all add: deny_with_def)

lemma applyRule_allow:
  "dc_allow (snd (applyRule U p r w use spec)) \<longleftrightarrow>
     ru_effect r = EffectAllow
     \<or> (ru_effect r = EffectAsk \<and> (\<exists>a. pp_approver p = Some a
          \<and> dc_allow (snd (a w \<lparr>ar_use = use, ar_spec = spec, ar_message = ru_message r\<rparr>))))"
  by (auto simp: applyRule_def Let_def deny_rule_def split: option.splits prod.splits if_splits)

lemma applyRule_reason:
  "\<not> dc_allow (snd (applyRule U p r w use spec)) \<Longrightarrow> dc_reason (snd (applyRule U p r w use spec)) \<noteq> []"
  by (auto simp: applyRule_def Let_def deny_rule_def split: option.splits prod.splits if_splits)

section \<open>Properties\<close>

text \<open>
  C32. A permission policy fails closed: the first matching rule alone decides. A call is
  allowed exactly when that rule allows it, or asks and an approver is configured and approves,
  or no rule matches and the default allows; rules with an unknown effect deny; every denial
  carries a reason for the model; and rules after the deciding one have no influence.
\<close>

theorem permission_policy_fails_closed:
  "(dc_allow (snd (PermissionPolicy_Check U p w use spec)) \<longleftrightarrow>
     (case deciding_rule (pp_rules p) w use spec of
        None \<Rightarrow> dc_allow (pp_default p)
      | Some r \<Rightarrow> ru_effect r = EffectAllow
          \<or> (ru_effect r = EffectAsk \<and> (\<exists>a. pp_approver p = Some a
               \<and> dc_allow (snd (a w \<lparr>ar_use = use, ar_spec = spec, ar_message = ru_message r\<rparr>))))))
   \<and> (dc_allow (snd (PermissionPolicy_Check U p w use spec))
      \<or> dc_reason (snd (PermissionPolicy_Check U p w use spec)) \<noteq> [])
   \<and> (deciding_rule (pp_rules p) w use spec = None
      \<or> PermissionPolicy_Check U (p\<lparr>pp_rules := pp_rules p @ extra\<rparr>) w use spec = PermissionPolicy_Check U p w use spec)"
proof -
  have find_append: "deciding_rule (xs @ ys) w use spec =
      (case deciding_rule xs w use spec of None \<Rightarrow> deciding_rule ys w use spec | Some r \<Rightarrow> Some r)" for xs ys
    by (induction xs) (auto simp: deciding_rule_def)
  have rules: "applyRule U (p\<lparr>pp_rules := rs\<rparr>) r w use spec = applyRule U p r w use spec" for rs r
    by (simp add: applyRule_def Let_def)
  show ?thesis
    unfolding PermissionPolicy_Check_def check_rules_deciding
    using applyRule_reason [unfolded applyRule_allow, where p = p and U = U and w = w and use = use and spec = spec]
    by (cases "deciding_rule (pp_rules p) w use spec") (auto simp: applyRule_allow find_append rules)
qed

theorem permission_policy_fails_closed_witness:
  "\<not> dc_allow (snd (PermissionPolicy_Check ascii_unicode
      \<lparr>pp_rules = [rule_Deny (Some (match_ToolName [''rm''])) [], rule_Allow None],
       pp_default = \<lparr>dc_allow = False, dc_reason = []\<rparr>, pp_approver = None\<rparr>
      () \<lparr>use_id = ''a'', use_name = ''rm'', use_input = []\<rparr>
      \<lparr>ts_name = ''rm'', ts_description = [], ts_input_schema = [], ts_search_hint = [], ts_read_only = False,
       ts_concurrency_safe = False, ts_destructive = True, ts_always_load = False, ts_should_defer = False,
       ts_max_result_bytes = 0\<rparr>))"
  unfolding permission_policy_fails_closed [THEN conjunct1]
  by (simp add: deciding_rule_def rule_matches_def rule_Deny_def match_ToolName_def)

end
