(* ===== verification/Hooks.thy ===== *)
theory Hooks
  imports Tenant
begin

text \<open>
  Package \<open>hook\<close>: the lifecycle hook runner. Hooks are host code acting on the world \<open>'w\<close>; a
  runner keeps one list per kind, in registration order. \<open>None\<close> is the nil \<open>*Runner\<close>, which
  runs no hooks and ignores registrations.
\<close>

section \<open>Hook inputs and results\<close>

record before_tool_input =
  bi_session :: string
  bi_tenant :: tenant_scope
  bi_use :: tool_use
  bi_spec :: tool_spec

record before_tool_result =
  br_deny :: string
  br_metadata :: metadata

record after_tool_input =
  ai_session :: string
  ai_tenant :: tenant_scope
  ai_use :: tool_use
  ai_spec :: tool_spec
  ai_result :: tool_result

record before_final_input =
  fi_session :: string
  fi_tenant :: tenant_scope
  fi_turn :: int
  fi_answer :: string

record session_started_input =
  si_session :: string
  si_tenant :: tenant_scope

type_synonym stop_reason = string

abbreviation StopReasonResult :: stop_reason where "StopReasonResult \<equiv> ''result''"
abbreviation StopReasonError :: stop_reason where "StopReasonError \<equiv> ''error''"
abbreviation StopReasonMaxTurns :: stop_reason where "StopReasonMaxTurns \<equiv> ''max_turns''"
abbreviation StopReasonBudget :: stop_reason where "StopReasonBudget \<equiv> ''budget''"
abbreviation StopReasonPolicy :: stop_reason where "StopReasonPolicy \<equiv> ''policy''"
abbreviation StopReasonCanceled :: stop_reason where "StopReasonCanceled \<equiv> ''canceled''"

record session_ended_input =
  ei_session :: string
  ei_tenant :: tenant_scope
  ei_reason :: stop_reason
  ei_err :: "err option"

record user_prompt_input =
  ui_session :: string
  ui_tenant :: tenant_scope
  ui_prompt :: string

record user_prompt_result =
  ur_prompt :: string
  ur_deny :: string

record stop_input =
  sti_session :: string
  sti_tenant :: tenant_scope
  sti_turn :: int
  sti_reason :: stop_reason
  sti_err :: "err option"

record context_applied_input =
  ci_session :: string
  ci_tenant :: tenant_scope
  ci_turn :: int
  ci_original :: int
  ci_sent :: int

type_synonym ('w, 'i) observer = "'w \<Rightarrow> 'i \<Rightarrow> 'w \<times> err option"
type_synonym ('w, 'i, 'r) gate = "'w \<Rightarrow> 'i \<Rightarrow> 'w \<times> (err + 'r)"

section \<open>The runner\<close>

record 'w hook_runner =
  hr_before :: "('w, before_tool_input, before_tool_result) gate list"
  hr_after :: "('w, after_tool_input) observer list"
  hr_final :: "('w, before_final_input, string) gate list"
  hr_started :: "('w, session_started_input) observer list"
  hr_ended :: "('w, session_ended_input) observer list"
  hr_prompt :: "('w, user_prompt_input, user_prompt_result) gate list"
  hr_stop :: "('w, stop_input) observer list"
  hr_context :: "('w, context_applied_input) observer list"

type_synonym 'w runner = "'w hook_runner option"

definition empty_runner :: "'w hook_runner" where
  "empty_runner = \<lparr>hr_before = [], hr_after = [], hr_final = [], hr_started = [], hr_ended = [],
     hr_prompt = [], hr_stop = [], hr_context = []\<rparr>"

text \<open>\<open>NewRunner\<close> applies its options, each a function on the runner, in order.\<close>

definition NewRunner :: "('w runner \<Rightarrow> 'w runner) list \<Rightarrow> 'w runner" where
  "NewRunner options = fold (\<lambda>opt r. opt r) options (Some empty_runner)"

definition Runner_Clone :: "'w runner \<Rightarrow> 'w runner" where
  "Runner_Clone r =
     (case r of
        None \<Rightarrow> NewRunner []
      | Some h \<Rightarrow> Some \<lparr>hr_before = hr_before h, hr_after = hr_after h, hr_final = hr_final h,
          hr_started = hr_started h, hr_ended = hr_ended h, hr_prompt = hr_prompt h,
          hr_stop = hr_stop h, hr_context = hr_context h\<rparr>)"

text \<open>Registration: nil runners and nil functions are ignored.\<close>

definition add_hook :: "('w hook_runner \<Rightarrow> 'f \<Rightarrow> 'w hook_runner) \<Rightarrow> 'w runner \<Rightarrow> 'f option \<Rightarrow> 'w runner" where
  "add_hook ins r fn =
     (case r of None \<Rightarrow> None | Some h \<Rightarrow> (case fn of None \<Rightarrow> Some h | Some f \<Rightarrow> Some (ins h f)))"

definition AddBeforeToolUse where
  "AddBeforeToolUse = add_hook (\<lambda>h f. h\<lparr>hr_before := hr_before h @ [f]\<rparr>)"

definition AddAfterToolUse where
  "AddAfterToolUse = add_hook (\<lambda>h f. h\<lparr>hr_after := hr_after h @ [f]\<rparr>)"

definition AddBeforeFinal where
  "AddBeforeFinal = add_hook (\<lambda>h f. h\<lparr>hr_final := hr_final h @ [f]\<rparr>)"

definition AddSessionStarted where
  "AddSessionStarted = add_hook (\<lambda>h f. h\<lparr>hr_started := hr_started h @ [f]\<rparr>)"

definition AddSessionEnded where
  "AddSessionEnded = add_hook (\<lambda>h f. h\<lparr>hr_ended := hr_ended h @ [f]\<rparr>)"

definition AddUserPrompt where
  "AddUserPrompt = add_hook (\<lambda>h f. h\<lparr>hr_prompt := hr_prompt h @ [f]\<rparr>)"

definition AddStop where
  "AddStop = add_hook (\<lambda>h f. h\<lparr>hr_stop := hr_stop h @ [f]\<rparr>)"

definition AddContextApplied where
  "AddContextApplied = add_hook (\<lambda>h f. h\<lparr>hr_context := hr_context h @ [f]\<rparr>)"

definition snapshot_of :: "('w hook_runner \<Rightarrow> 'f list) \<Rightarrow> 'w runner \<Rightarrow> 'f list" where
  "snapshot_of sel r = (case r of None \<Rightarrow> [] | Some h \<Rightarrow> sel h)"

section \<open>Running observers\<close>

text \<open>Every observer runs; their errors are collected in order.\<close>

fun run_observers :: "('w, 'i) observer list \<Rightarrow> 'w \<Rightarrow> 'i \<Rightarrow> 'w \<times> err list" where
  "run_observers [] w i = (w, [])"
| "run_observers (f # fs) w i =
     (let (w1, e) = f w i; (w2, es) = run_observers fs w1 i
      in (w2, (case e of None \<Rightarrow> es | Some x \<Rightarrow> x # es)))"

definition hook_AfterToolUse :: "'w runner \<Rightarrow> 'w \<Rightarrow> after_tool_input \<Rightarrow> 'w \<times> err list" where
  "hook_AfterToolUse r = run_observers (snapshot_of hr_after r)"

definition hook_SessionStarted :: "'w runner \<Rightarrow> 'w \<Rightarrow> session_started_input \<Rightarrow> 'w \<times> err list" where
  "hook_SessionStarted r = run_observers (snapshot_of hr_started r)"

definition hook_SessionEnded :: "'w runner \<Rightarrow> 'w \<Rightarrow> session_ended_input \<Rightarrow> 'w \<times> err list" where
  "hook_SessionEnded r = run_observers (snapshot_of hr_ended r)"

definition hook_Stop :: "'w runner \<Rightarrow> 'w \<Rightarrow> stop_input \<Rightarrow> 'w \<times> err list" where
  "hook_Stop r = run_observers (snapshot_of hr_stop r)"

definition hook_ContextApplied :: "'w runner \<Rightarrow> 'w \<Rightarrow> context_applied_input \<Rightarrow> 'w \<times> err list" where
  "hook_ContextApplied r = run_observers (snapshot_of hr_context r)"

section \<open>Running gates\<close>

fun before_loop ::
  "('w, before_tool_input, before_tool_result) gate list \<Rightarrow> 'w \<Rightarrow> before_tool_input \<Rightarrow> metadata
     \<Rightarrow> 'w \<times> (err + before_tool_result)" where
  "before_loop [] w i acc = (w, Inr \<lparr>br_deny = [], br_metadata = acc\<rparr>)"
| "before_loop (f # fs) w i acc =
     (case f w i of
        (w1, Inl e) \<Rightarrow> (w1, Inl e)
      | (w1, Inr r) \<Rightarrow>
          (let acc' = put_all acc (br_metadata r)
           in if br_deny r \<noteq> [] then (w1, Inr (r\<lparr>br_metadata := CloneMetadata acc'\<rparr>))
              else before_loop fs w1 i acc'))"

definition hook_BeforeToolUse ::
  "'w runner \<Rightarrow> 'w \<Rightarrow> before_tool_input \<Rightarrow> 'w \<times> (err + before_tool_result)" where
  "hook_BeforeToolUse r w i = before_loop (snapshot_of hr_before r) w i []"

fun final_loop :: "('w, before_final_input, string) gate list \<Rightarrow> 'w \<Rightarrow> before_final_input \<Rightarrow> 'w \<times> (err + string)" where
  "final_loop [] w i = (w, Inr [])"
| "final_loop (f # fs) w i =
     (case f w i of
        (w1, Inl e) \<Rightarrow> (w1, Inl e)
      | (w1, Inr deny) \<Rightarrow> (if deny \<noteq> [] then (w1, Inr deny) else final_loop fs w1 i))"

definition hook_BeforeFinal :: "'w runner \<Rightarrow> 'w \<Rightarrow> before_final_input \<Rightarrow> 'w \<times> (err + string)" where
  "hook_BeforeFinal r = final_loop (snapshot_of hr_final r)"

text \<open>Each hook gets a fresh input with the session and the prompt so far, and no tenant.\<close>

fun prompt_loop ::
  "('w, user_prompt_input, user_prompt_result) gate list \<Rightarrow> 'w \<Rightarrow> string \<Rightarrow> string \<Rightarrow> 'w \<times> (err + user_prompt_result)" where
  "prompt_loop [] w sid prompt = (w, Inr \<lparr>ur_prompt = prompt, ur_deny = []\<rparr>)"
| "prompt_loop (f # fs) w sid prompt =
     (case f w \<lparr>ui_session = sid, ui_tenant = zero_scope, ui_prompt = prompt\<rparr> of
        (w1, Inl e) \<Rightarrow> (w1, Inl e)
      | (w1, Inr nxt) \<Rightarrow>
          (if ur_deny nxt \<noteq> [] then (w1, Inr nxt)
           else prompt_loop fs w1 sid (if ur_prompt nxt \<noteq> [] then ur_prompt nxt else prompt)))"

definition hook_UserPrompt :: "'w runner \<Rightarrow> 'w \<Rightarrow> user_prompt_input \<Rightarrow> 'w \<times> (err + user_prompt_result)" where
  "hook_UserPrompt r w i = prompt_loop (snapshot_of hr_prompt r) w (ui_session i) (ui_prompt i)"

section \<open>Lemmas\<close>

lemma snapshot_Clone [simp]:
  "snapshot_of hr_before (Runner_Clone r) = snapshot_of hr_before r"
  "snapshot_of hr_after (Runner_Clone r) = snapshot_of hr_after r"
  "snapshot_of hr_final (Runner_Clone r) = snapshot_of hr_final r"
  by (cases r; simp add: snapshot_of_def Runner_Clone_def NewRunner_def empty_runner_def)+

lemma before_loop_append:
  "before_loop (fs @ gs) w i acc =
     (case before_loop fs w i acc of
        (w1, Inl e) \<Rightarrow> (w1, Inl e)
      | (w1, Inr r) \<Rightarrow> (if br_deny r \<noteq> [] then (w1, Inr r) else before_loop gs w1 i (br_metadata r)))"
  by (induction fs w i acc rule: before_loop.induct)
    (auto simp: Let_def split: prod.splits sum.splits)

lemma final_loop_append:
  "final_loop (fs @ gs) w i =
     (case final_loop fs w i of
        (w1, Inl e) \<Rightarrow> (w1, Inl e)
      | (w1, Inr d) \<Rightarrow> (if d \<noteq> [] then (w1, Inr d) else final_loop gs w1 i))"
  by (induction fs w i rule: final_loop.induct) (auto split: prod.splits sum.splits)

lemma run_observers_append:
  "run_observers (fs @ gs) w i =
     (let (w1, es1) = run_observers fs w i; (w2, es2) = run_observers gs w1 i in (w2, es1 @ es2))"
  by (induction fs w i rule: run_observers.induct) (auto simp: Let_def split: prod.splits option.splits)

section \<open>Properties\<close>

text \<open>
  Registering a hook appends a gate at the end: a before-tool gate runs only when every
  hook registered earlier allowed the call, its metadata overrides theirs, and the first denial
  or failure decides, with the later hooks not run. A before-final gate composes the same way.
\<close>

theorem gates_compose_in_order:
  "hook_BeforeToolUse (AddBeforeToolUse (Some h) (Some f)) w i =
     (case hook_BeforeToolUse (Some h) w i of
        (w1, Inl e) \<Rightarrow> (w1, Inl e)
      | (w1, Inr r) \<Rightarrow>
          (if br_deny r \<noteq> [] then (w1, Inr r)
           else case f w1 i of
                  (w2, Inl e) \<Rightarrow> (w2, Inl e)
                | (w2, Inr r2) \<Rightarrow>
                    (if br_deny r2 \<noteq> [] then (w2, Inr (r2\<lparr>br_metadata := CloneMetadata (put_all (br_metadata r) (br_metadata r2))\<rparr>))
                     else (w2, Inr \<lparr>br_deny = [], br_metadata = put_all (br_metadata r) (br_metadata r2)\<rparr>))))
   \<and> hook_BeforeFinal (AddBeforeFinal (Some h) (Some g)) w j =
     (case hook_BeforeFinal (Some h) w j of
        (w1, Inl e) \<Rightarrow> (w1, Inl e)
      | (w1, Inr d) \<Rightarrow> (if d \<noteq> [] then (w1, Inr d) else g w1 j))"
proof
  show "hook_BeforeToolUse (AddBeforeToolUse (Some h) (Some f)) w i =
     (case hook_BeforeToolUse (Some h) w i of
        (w1, Inl e) \<Rightarrow> (w1, Inl e)
      | (w1, Inr r) \<Rightarrow>
          (if br_deny r \<noteq> [] then (w1, Inr r)
           else case f w1 i of
                  (w2, Inl e) \<Rightarrow> (w2, Inl e)
                | (w2, Inr r2) \<Rightarrow>
                    (if br_deny r2 \<noteq> [] then (w2, Inr (r2\<lparr>br_metadata := CloneMetadata (put_all (br_metadata r) (br_metadata r2))\<rparr>))
                     else (w2, Inr \<lparr>br_deny = [], br_metadata = put_all (br_metadata r) (br_metadata r2)\<rparr>))))"
    by (simp add: hook_BeforeToolUse_def AddBeforeToolUse_def add_hook_def snapshot_of_def before_loop_append Let_def
        split: prod.splits sum.splits)
  show "hook_BeforeFinal (AddBeforeFinal (Some h) (Some g)) w j =
     (case hook_BeforeFinal (Some h) w j of
        (w1, Inl e) \<Rightarrow> (w1, Inl e)
      | (w1, Inr d) \<Rightarrow> (if d \<noteq> [] then (w1, Inr d) else g w1 j))"
    by (auto simp: hook_BeforeFinal_def AddBeforeFinal_def add_hook_def snapshot_of_def final_loop_append
        split: prod.splits sum.splits)
qed

text \<open>
  User-prompt hooks cannot depend on the tenant: whatever scope the caller passes, the
  runner hands every hook the empty scope (as a hook that records what it is given shows), so
  the outcome and the effects are the same for every tenant.
\<close>

lemma user_prompt_hooks_see_no_tenant:
  "hook_UserPrompt r w (i\<lparr>ui_tenant := scope\<rparr>) = hook_UserPrompt r w i
   \<and> hook_UserPrompt
        (AddUserPrompt (NewRunner []) (Some (\<lambda>seen j. (seen @ [ui_tenant j], Inr \<lparr>ur_prompt = [], ur_deny = []\<rparr>))))
        [] i = ([zero_scope], Inr \<lparr>ur_prompt = ui_prompt i, ur_deny = []\<rparr>)"
  by (simp add: hook_UserPrompt_def AddUserPrompt_def NewRunner_def empty_runner_def add_hook_def snapshot_of_def)

end
