(* ===== verification/Result_Store.thy ===== *)
theory Result_Store
  imports Tenant
begin

text \<open>
  \<open>resultstore/resultstore.go\<close>: the host-owned storage for oversized tool results and its
  in-memory implementation.
\<close>

section \<open>Data\<close>

record put_request =
  pq_session :: string
  pq_parent :: string
  pq_use_id :: string
  pq_tool :: string
  pq_content :: string
  pq_metadata :: metadata

record handle =
  ha_id :: string
  ha_uri :: string
  ha_bytes :: int
  ha_created :: gotime
  ha_metadata :: metadata

record result_entry =
  re_handle :: handle
  re_session :: string
  re_parent :: string
  re_use_id :: string
  re_tool :: string
  re_content :: string

record result_memory =
  rm_next :: nat
  rm_entries :: "(string, result_entry) gomap"

section \<open>Operations\<close>

definition NewResultStore :: result_memory where
  "NewResultStore = \<lparr>rm_next = 0, rm_entries = []\<rparr>"

definition cloneHandle :: "handle \<Rightarrow> handle" where
  "cloneHandle h = h\<lparr>ha_metadata := CloneMetadata (ha_metadata h)\<rparr>"

definition cloneEntry :: "result_entry \<Rightarrow> result_entry" where
  "cloneEntry e = e\<lparr>re_handle := cloneHandle (re_handle e)\<rparr>"

definition result_id_of :: "nat \<Rightarrow> string" where
  "result_id_of n = ''result-'' @ show_nat n"

text \<open>\<open>ctxerr\<close> is \<open>ctx.Err()\<close>, \<open>None\<close> the nil store.\<close>

definition Result_Put ::
  "err option \<Rightarrow> gotime \<Rightarrow> put_request \<Rightarrow> result_memory option \<Rightarrow> err + handle \<times> result_memory" where
  "Result_Put ctxerr now req st =
     (case ctxerr of
        Some e \<Rightarrow> Inl e
      | None \<Rightarrow>
          (case st of
             None \<Rightarrow> Inl (EText ''resultstore: nil MemoryStore'')
           | Some m \<Rightarrow>
               (let n = Suc (rm_next m); i = result_id_of n;
                    h = \<lparr>ha_id = i, ha_uri = ''memax-result://'' @ i, ha_bytes = int (length (pq_content req)),
                         ha_created = now, ha_metadata = CloneMetadata (pq_metadata req)\<rparr>;
                    e = \<lparr>re_handle = cloneHandle h, re_session = pq_session req, re_parent = pq_parent req,
                         re_use_id = pq_use_id req, re_tool = pq_tool req, re_content = pq_content req\<rparr>
                in Inr (cloneHandle h, \<lparr>rm_next = n, rm_entries = AList.update i e (rm_entries m)\<rparr>))))"

definition Result_Get :: "err option \<Rightarrow> string \<Rightarrow> result_memory option \<Rightarrow> err + result_entry" where
  "Result_Get ctxerr i st =
     (case ctxerr of
        Some e \<Rightarrow> Inl e
      | None \<Rightarrow>
          (case st of
             None \<Rightarrow> Inl (EText ''resultstore: nil MemoryStore'')
           | Some m \<Rightarrow>
               (case map_of (rm_entries m) i of
                  None \<Rightarrow> Inl (EText (''resultstore: no such result: '' @ i))
                | Some e \<Rightarrow> Inr (cloneEntry e))))"

definition Result_List :: "err option \<Rightarrow> result_memory option \<Rightarrow> err + result_entry list" where
  "Result_List ctxerr st =
     (case ctxerr of
        Some e \<Rightarrow> Inl e
      | None \<Rightarrow>
          (case st of
             None \<Rightarrow> Inl (EText ''resultstore: nil MemoryStore'')
           | Some m \<Rightarrow>
               Inr (List.map_filter (\<lambda>i. map_option cloneEntry (map_of (rm_entries m) i))
                 (stable_sort str_less (map fst (rm_entries m))))))"

definition Result_Len :: "result_memory option \<Rightarrow> nat" where
  "Result_Len st = (case st of None \<Rightarrow> 0 | Some m \<Rightarrow> length (rm_entries m))"

section \<open>Invariant\<close>

text \<open>Ids are handed out in sequence, so the next one is never in use.\<close>

definition result_inv :: "result_memory \<Rightarrow> bool" where
  "result_inv m \<longleftrightarrow> wf_map (rm_entries m)
     \<and> list_all (\<lambda>(i, e). (\<exists>n\<le>rm_next m. i = result_id_of n) \<and> ha_id (re_handle e) = i
          \<and> ha_bytes (re_handle e) = int (length (re_content e)) \<and> wf_map (ha_metadata (re_handle e))) (rm_entries m)"

lemma result_id_inj [simp]: "result_id_of a = result_id_of b \<longleftrightarrow> a = b"
  using show_nat_inj by (auto simp: result_id_of_def)

lemma result_inv_New: "result_inv NewResultStore"
  by (simp add: result_inv_def NewResultStore_def)

lemma result_fresh:
  assumes "result_inv m"
  shows "map_of (rm_entries m) (result_id_of (Suc (rm_next m))) = None"
proof (rule ccontr)
  assume "map_of (rm_entries m) (result_id_of (Suc (rm_next m))) \<noteq> None"
  then obtain e where "(result_id_of (Suc (rm_next m)), e) \<in> set (rm_entries m)" by (auto dest: map_of_SomeD)
  with assms have "\<exists>n\<le>rm_next m. result_id_of (Suc (rm_next m)) = result_id_of n"
    by (auto simp: result_inv_def list_all_iff)
  then show False by auto
qed

lemma Result_Put_Inr:
  assumes "result_inv m" and "Result_Put None now req (Some m) = Inr (h, m')"
  shows "result_inv m' \<and> ha_id h = result_id_of (rm_next m') \<and> map_of (rm_entries m) (ha_id h) = None
    \<and> (\<exists>e. map_of (rm_entries m') = (map_of (rm_entries m))(ha_id h \<mapsto> e) \<and> re_handle e = h
         \<and> re_content e = pq_content req \<and> re_use_id e = pq_use_id req \<and> re_tool e = pq_tool req
         \<and> re_session e = pq_session req \<and> cloneEntry e = e)
    \<and> ha_bytes h = int (length (pq_content req))"
proof -
  let ?n = "Suc (rm_next m)"
  let ?h = "\<lparr>ha_id = result_id_of ?n, ha_uri = ''memax-result://'' @ result_id_of ?n, ha_bytes = int (length (pq_content req)),
      ha_created = now, ha_metadata = CloneMetadata (pq_metadata req)\<rparr>"
  let ?e = "\<lparr>re_handle = ?h, re_session = pq_session req, re_parent = pq_parent req,
      re_use_id = pq_use_id req, re_tool = pq_tool req, re_content = pq_content req\<rparr>"
  have res: "h = ?h" "m' = \<lparr>rm_next = ?n, rm_entries = AList.update (result_id_of ?n) ?e (rm_entries m)\<rparr>"
    using assms(2) by (auto simp: Result_Put_def Let_def cloneHandle_def)
  have fr: "map_of (rm_entries m) (result_id_of ?n) = None" by (rule result_fresh [OF assms(1)])
  then have ent: "rm_entries m' = rm_entries m @ [(result_id_of ?n, ?e)]"
    by (simp add: res map_of_None_notin update_fresh)
  have "result_inv m'"
    using assms(1) fr wf_map_CloneMetadata [of "pq_metadata req"] unfolding result_inv_def ent
    by (auto simp: res wf_map_def map_of_None_notin list_all_iff intro: le_SucI)
  then show ?thesis using fr by (auto simp: res cloneEntry_def cloneHandle_def fun_eq_iff)
qed

section \<open>Properties\<close>

text \<open>
  The in-memory result store never loses or mixes up a result: a \<open>Put\<close> returns a handle
  with a fresh id and the size of the content, \<open>Get\<close> of that id returns the stored content and
  provenance unchanged, and every result stored earlier is still returned as before.
\<close>

theorem result_store_roundtrip:
  assumes "result_inv m" and "Result_Put None now req (Some m) = Inr (h, m')"
  shows "result_inv m' \<and> (\<exists>e. Result_Get None (ha_id h) (Some m') = Inr e \<and> re_content e = pq_content req
      \<and> re_use_id e = pq_use_id req \<and> re_tool e = pq_tool req \<and> re_session e = pq_session req \<and> re_handle e = h)
    \<and> ha_bytes h = int (length (pq_content req))
    \<and> (\<forall>i e. Result_Get None i (Some m) = Inr e \<longrightarrow> i \<noteq> ha_id h \<and> Result_Get None i (Some m') = Inr e)"
proof -
  from Result_Put_Inr [OF assms] obtain e where
    e: "result_inv m'" "map_of (rm_entries m) (ha_id h) = None" "map_of (rm_entries m') = (map_of (rm_entries m))(ha_id h \<mapsto> e)"
      "re_handle e = h" "re_content e = pq_content req" "re_use_id e = pq_use_id req" "re_tool e = pq_tool req"
      "re_session e = pq_session req" "cloneEntry e = e" "ha_bytes h = int (length (pq_content req))" by blast
  have "Result_Get None (ha_id h) (Some m') = Inr e" using e by (simp add: Result_Get_def)
  moreover have "i \<noteq> ha_id h \<and> Result_Get None i (Some m') = Inr x" if "Result_Get None i (Some m) = Inr x" for i x
    using that e(2,3) by (auto simp: Result_Get_def split: option.splits)
  ultimately show ?thesis using e by blast
qed

definition demo_put :: put_request where
  "demo_put = \<lparr>pq_session = ''s'', pq_parent = [], pq_use_id = ''u'', pq_tool = ''ls'', pq_content = ''abc'', pq_metadata = []\<rparr>"

theorem result_store_roundtrip_witness:
  "\<exists>h m'. Result_Put None 5 demo_put (Some NewResultStore) = Inr (h, m')
     \<and> (\<exists>e. Result_Get None (ha_id h) (Some m') = Inr e \<and> re_content e = ''abc'')"
proof -
  obtain h m' where put: "Result_Put None 5 demo_put (Some NewResultStore) = Inr (h, m')"
    by (simp add: Result_Put_def Let_def)
  from result_store_roundtrip [OF result_inv_New put] obtain e where
    "Result_Get None (ha_id h) (Some m') = Inr e" "re_content e = pq_content demo_put" by blast
  with put show ?thesis by (auto simp: demo_put_def)
qed

end
