(* ===== verification/Tool_Executor.thy ===== *)
theory Tool_Executor
  imports Tool_Registry Permission Hooks Result_Store "HOL-Library.Sublist"
begin

text \<open>
  \<open>tool/executor.go\<close>: admission and execution of one tool use, the limit on result size, the
  partition of a list of uses into batches and the concurrent batches. JSON Schema validation,
  the handlers, hooks, validators and the result store are host or third-party code; the
  goroutine schedule of a concurrent batch and the outcome of a channel send are arguments too.
\<close>

section \<open>The executor\<close>

record ('w, 'j) executor =
  ex_registry :: "('w, 'j) registry"
  ex_permissions :: "'w checker option"
  ex_hooks :: "'w runner"
  ex_validator :: "'w tenant_validator option"
  ex_max_concurrency :: int
  ex_result_store :: "('w \<Rightarrow> put_request \<Rightarrow> 'w \<times> (err + handle)) option"
  ex_runtime :: runtime
  ex_unicode :: unicode
  ex_unmarshal :: "string \<Rightarrow> err option"
  ex_validate :: "'j \<Rightarrow> string \<Rightarrow> err option"

definition DefaultMaxConcurrency :: int where
  "DefaultMaxConcurrency = 10"

definition CanRunConcurrently :: "('w, 'j) executor \<Rightarrow> tool_use \<Rightarrow> bool" where
  "CanRunConcurrently e use =
     (case Registry_Get (ex_registry e) (use_name use) of None \<Rightarrow> False | Some t \<Rightarrow> to_concurrent t use)"

type_synonym batch = "bool \<times> tool_use list"

text \<open>The loop of \<open>partition\<close>, with the batches built so far.\<close>

fun partition_loop :: "('w, 'j) executor \<Rightarrow> tool_use list \<Rightarrow> batch list \<Rightarrow> batch list" where
  "partition_loop e [] bs = bs"
| "partition_loop e (u # us) bs =
     (let c = CanRunConcurrently e u
      in if c \<and> bs \<noteq> [] \<and> fst (last bs)
         then partition_loop e us (butlast bs @ [(True, snd (last bs) @ [u])])
         else partition_loop e us (bs @ [(c, [u])]))"

definition partition_uses :: "('w, 'j) executor \<Rightarrow> tool_use list \<Rightarrow> batch list" where
  "partition_uses e us = partition_loop e us []"

section \<open>Results\<close>

definition zero_result :: tool_result where
  "zero_result = \<lparr>tr_use_id = [], tr_name = [], tr_content = [], tr_is_error = False, tr_metadata = []\<rparr>"

text \<open>\<open>denied.Error()\<close> of a tenant denial.\<close>

definition denial_msg :: "tenant_request \<times> err option \<Rightarrow> string" where
  "denial_msg d = err_msg (EDenied (fst d) (snd d))"

definition errorResult :: "tool_use \<Rightarrow> err option \<Rightarrow> tool_result" where
  "errorResult use e =
     \<lparr>tr_use_id = use_id use, tr_name = use_name use,
      tr_content = (case e of None \<Rightarrow> ''unknown error'' | Some x \<Rightarrow> err_msg x), tr_is_error = True,
      tr_metadata = (case e of None \<Rightarrow> []
        | Some x \<Rightarrow> (case tenantDenied x of None \<Rightarrow> []
            | Some d \<Rightarrow> [(''tenant_denied'', VBool True), (''tenant_denied_boundary'', VString (tq_boundary (fst d))),
                         (''tenant_denied_reason'', VString (denial_msg d))]))\<rparr>"

definition withMetadata :: "tool_result \<Rightarrow> metadata \<Rightarrow> tool_result" where
  "withMetadata r md =
     (if md = [] then r else r\<lparr>tr_metadata := put_all (CloneMetadata (tr_metadata r)) md\<rparr>)"

definition withHookErrors :: "tool_result \<Rightarrow> err list \<Rightarrow> tool_result" where
  "withHookErrors r errs =
     (if errs = [] then r
      else r\<lparr>tr_metadata := AList.update ''hook_errors'' (VStrings (map err_msg errs)) (tr_metadata r)\<rparr>)"

text \<open>The index of the last rune that starts at or before \<open>limit\<close>.\<close>

fun last_start :: "(nat \<times> string) list \<Rightarrow> nat \<Rightarrow> nat \<Rightarrow> nat \<Rightarrow> nat" where
  "last_start [] i limit en = en"
| "last_start (p # ps) i limit en =
     (if limit < i then en else last_start ps (i + length (snd p)) limit i)"

definition truncateUTF8 :: "string \<Rightarrow> int \<Rightarrow> string" where
  "truncateUTF8 s limit =
     (if limit \<le> 0 then []
      else if int (length s) \<le> limit then s
      else take (last_start (utf8_chunks s) 0 (nat limit) 0) s)"

definition stored_metadata :: "nat \<Rightarrow> err + handle \<Rightarrow> metadata \<Rightarrow> metadata" where
  "stored_metadata original stored md =
     (case stored of
        Inl e \<Rightarrow> AList.update ''stored_result_error'' (VString (err_msg e)) md
      | Inr h \<Rightarrow>
          (let m1 = (if ha_id h \<noteq> [] then AList.update ''stored_result_id'' (VString (ha_id h)) md else md);
               m2 = (if ha_uri h \<noteq> [] then AList.update ''stored_result_uri'' (VString (ha_uri h)) m1 else m1);
               m3 = AList.update ''stored_result_bytes'' (VInt (if ha_bytes h \<le> 0 then int original else ha_bytes h)) m2;
               m4 = (if \<not> time_is_zero (ha_created h)
                     then AList.update ''stored_result_created_at'' (VString (rfc3339_nano (ha_created h))) m3 else m3)
           in AList.update ''context_retention'' (VString ''important'') m4))"

definition enforceResultLimit ::
  "('w, 'j) executor \<Rightarrow> 'w \<Rightarrow> tool_result \<Rightarrow> tool_use \<Rightarrow> int \<Rightarrow> 'w \<times> tool_result" where
  "enforceResultLimit e w r use limit =
     (if limit \<le> 0 \<or> int (length (tr_content r)) \<le> limit then (w, r)
      else let original = length (tr_content r);
               (w', stored) =
                 (case ex_result_store e of
                    None \<Rightarrow> (w, None)
                  | Some put \<Rightarrow>
                      (let (w1, res) = put w \<lparr>pq_session = rt_session (ex_runtime e), pq_parent = rt_parent (ex_runtime e),
                             pq_use_id = use_id use, pq_tool = use_name use, pq_content = tr_content r,
                             pq_metadata = tr_metadata r\<rparr>
                       in (w1, Some res)));
               content = truncateUTF8 (tr_content r) limit;
               md0 = put_all [] (tr_metadata r);
               md1 = (case stored of None \<Rightarrow> md0 | Some res \<Rightarrow> stored_metadata original res md0);
               md2 = AList.update ''truncated'' (VBool True) md1;
               md3 = AList.update ''original_bytes'' (VInt (int original)) md2;
               md4 = AList.update ''returned_bytes'' (VInt (int (length content))) md3
           in (w', r\<lparr>tr_content := content, tr_metadata := md4\<rparr>))"

section \<open>One tool use\<close>

definition validateInput :: "('w, 'j) executor \<Rightarrow> tool_use \<Rightarrow> 'j option \<Rightarrow> err option" where
  "validateInput e use schema =
     (case schema of
        None \<Rightarrow> None
      | Some s \<Rightarrow>
          (let inp = (if use_input use = [] then empty_object else use_input use);
               invalid = (\<lambda>x. EWrap (''invalid input for tool '' @ quote (ex_unicode e) (use_name use) @ '': '') x)
           in case ex_unmarshal e inp of
                Some x \<Rightarrow> Some (invalid (EWrap ''input is not valid JSON: '' x))
              | None \<Rightarrow> map_option invalid (ex_validate e s inp)))"

definition tool_request :: "('w, 'j) executor \<Rightarrow> tool_use \<Rightarrow> tool_spec \<Rightarrow> tenant_request" where
  "tool_request e use spec =
     \<lparr>tq_boundary = BoundaryToolUse, tq_scope = rt_tenant (ex_runtime e), tq_session = rt_session (ex_runtime e),
      tq_parent = rt_parent (ex_runtime e), tq_use_id = use_id use, tq_tool = use_name use,
      tq_read_only = ts_read_only spec, tq_destructive = ts_destructive spec,
      tq_concurrency_safe = ts_concurrency_safe spec\<rparr>"

text \<open>An admitted call: the tool, the normalised use and the hook metadata.\<close>

type_synonym 'w admitted = "'w tool \<times> tool_use \<times> metadata"

text \<open>The input normalisation of \<open>runOne\<close>, for tools that implement \<open>InputNormalizer\<close>.\<close>

definition normalize_use :: "'w tool \<Rightarrow> 'w \<Rightarrow> tool_use \<Rightarrow> 'w \<times> (err + tool_use)" where
  "normalize_use t w use =
     (case to_normalize t of
        None \<Rightarrow> (w, Inr use)
      | Some n \<Rightarrow> (case n w use of (w1, Inl x) \<Rightarrow> (w1, Inl x) | (w1, Inr (u, c)) \<Rightarrow> (w1, Inr u)))"

text \<open>
  The checks of \<open>runOne\<close> on the normalised use, in their order: schema validation, tenant check,
  before-tool hooks, permission. A refusal carries the metadata collected so far, which \<open>fail\<close>
  attaches; success carries the hooks' metadata.
\<close>

definition check_use ::
  "('w, 'j) executor \<Rightarrow> 'w tool \<Rightarrow> 'w \<Rightarrow> tool_use \<Rightarrow> 'w \<times> ((err \<times> metadata) + metadata)" where
  "check_use e t w1 use =
     (let spec = to_spec t
      in case validateInput e use (Registry_InputSchema (ex_registry e) (use_name use)) of
           Some x \<Rightarrow> (w1, Inl (x, []))
         | None \<Rightarrow>
             (case tenant_check (ex_validator e) w1 (tool_request e use spec) of
                (w2, Some x) \<Rightarrow> (w2, Inl (EWrap ''tenant validation failed: '' x, []))
              | (w2, None) \<Rightarrow>
                  (case hook_BeforeToolUse (ex_hooks e) w2
                          \<lparr>bi_session = rt_session (ex_runtime e), bi_tenant = rt_tenant (ex_runtime e),
                           bi_use = use, bi_spec = spec\<rparr> of
                     (w3, Inl x) \<Rightarrow> (w3, Inl (EWrap ''before tool hook failed: '' x, []))
                   | (w3, Inr br) \<Rightarrow>
                       (if br_deny br \<noteq> [] then (w3, Inl (EText (br_deny br), []))
                        else let md = CloneMetadata (br_metadata br)
                             in case ex_permissions e of
                                  None \<Rightarrow> (w3, Inr md)
                                | Some chk \<Rightarrow>
                                    (let (w4, d) = chk w3 use spec
                                     in (w4, if dc_allow d then Inr md
                                             else Inl (EText (if dc_reason d = [] then ''permission denied'' else dc_reason d), md)))))))"

definition admit_use ::
  "('w, 'j) executor \<Rightarrow> 'w \<Rightarrow> tool_use \<Rightarrow> 'w \<times> ((tool_use \<times> err \<times> metadata) + 'w admitted)" where
  "admit_use e w use0 =
     (case Registry_Get (ex_registry e) (use_name use0) of
        None \<Rightarrow> (w, Inl (use0, EText (''no such tool: '' @ use_name use0), []))
      | Some t \<Rightarrow>
          (case normalize_use t w use0 of
             (w1, Inl x) \<Rightarrow> (w1, Inl (use0, EWrap ''normalize tool input: '' x, []))
           | (w1, Inr use) \<Rightarrow>
               (case check_use e t w1 use of
                  (w2, Inl (x, md)) \<Rightarrow> (w2, Inl (use, x, md))
                | (w2, Inr md) \<Rightarrow> (w2, Inr (t, use, md)))))"

text \<open>Execution of an admitted call.\<close>

definition execute_use :: "('w, 'j) executor \<Rightarrow> 'w \<Rightarrow> 'w admitted \<Rightarrow> 'w \<times> tool_result" where
  "execute_use e w a =
     (case a of (t, use, md) \<Rightarrow>
        (case to_execute t w \<lparr>ca_use = use, ca_runtime = ex_runtime e\<rparr> of
           (w1, Inl x) \<Rightarrow> (w1, withMetadata (errorResult use (Some x)) md)
         | (w1, Inr r) \<Rightarrow>
             (let r1 = withMetadata (r\<lparr>tr_use_id := use_id use, tr_name := use_name use\<rparr>) md;
                  (w2, r2) = enforceResultLimit e w1 r1 use (ts_max_result_bytes (to_spec t));
                  (w3, errs) = hook_AfterToolUse (ex_hooks e) w2
                    \<lparr>ai_session = rt_session (ex_runtime e), ai_tenant = rt_tenant (ex_runtime e), ai_use = use,
                     ai_spec = to_spec t, ai_result = r2\<rparr>
              in (w3, withHookErrors r2 errs))))"

definition runOne :: "('w, 'j) executor \<Rightarrow> 'w \<Rightarrow> tool_use \<Rightarrow> 'w \<times> tool_result" where
  "runOne e w use =
     (case admit_use e w use of
        (w1, Inl (u, x, md)) \<Rightarrow> (w1, withMetadata (errorResult u (Some x)) md)
      | (w1, Inr a) \<Rightarrow> execute_use e w1 a)"

section \<open>Batches\<close>

text \<open>
  A schedule of a concurrent batch: the order in which the goroutines run, each with the
  cancellation error it saw instead of the semaphore, if any.
\<close>

type_synonym schedule = "(nat \<times> err option) list"

fun run_schedule ::
  "('w, 'j) executor \<Rightarrow> tool_use list \<Rightarrow> schedule \<Rightarrow> 'w \<Rightarrow> tool_result list \<Rightarrow> 'w \<times> tool_result list" where
  "run_schedule e us [] w rs = (w, rs)"
| "run_schedule e us ((i, c) # sch) w rs =
     (case c of
        Some x \<Rightarrow> run_schedule e us sch w (rs[i := errorResult (us ! i) (Some x)])
      | None \<Rightarrow> (let (w', r) = runOne e w (us ! i) in run_schedule e us sch w' (rs[i := r])))"

text \<open>\<open>sendResult\<close>: the results the receiver takes, until one send loses to cancellation.\<close>

fun send_results :: "('w \<Rightarrow> tool_result \<Rightarrow> 'w \<times> bool) \<Rightarrow> 'w \<Rightarrow> tool_result list \<Rightarrow> 'w \<times> tool_result list \<times> bool" where
  "send_results send w [] = (w, [], True)"
| "send_results send w (r # rs) =
     (case send w r of
        (w1, False) \<Rightarrow> (w1, [], False)
      | (w1, True) \<Rightarrow> (let (w2, out, ok) = send_results send w1 rs in (w2, r # out, ok)))"

definition runConcurrent ::
  "('w, 'j) executor \<Rightarrow> ('w \<Rightarrow> nat \<Rightarrow> schedule) \<Rightarrow> ('w \<Rightarrow> tool_result \<Rightarrow> 'w \<times> bool) \<Rightarrow> 'w \<Rightarrow> tool_use list
     \<Rightarrow> 'w \<times> tool_result list" where
  "runConcurrent e sched send w us =
     (let (w1, rs) = run_schedule e us (sched w (length us)) w (replicate (length us) zero_result);
          (w2, out, ok) = send_results send w1 rs
      in (w2, out))"

fun run_sequential ::
  "('w, 'j) executor \<Rightarrow> ('w \<Rightarrow> tool_result \<Rightarrow> 'w \<times> bool) \<Rightarrow> 'w \<Rightarrow> tool_use list \<Rightarrow> 'w \<times> tool_result list \<times> bool" where
  "run_sequential e send w [] = (w, [], True)"
| "run_sequential e send w (u # us) =
     (let (w1, r) = runOne e w u
      in case send w1 r of
           (w2, False) \<Rightarrow> (w2, [], False)
         | (w2, True) \<Rightarrow> (let (w3, out, ok) = run_sequential e send w2 us in (w3, r # out, ok)))"

fun run_batches ::
  "('w, 'j) executor \<Rightarrow> ('w \<Rightarrow> nat \<Rightarrow> schedule) \<Rightarrow> ('w \<Rightarrow> tool_result \<Rightarrow> 'w \<times> bool) \<Rightarrow> 'w \<Rightarrow> batch list
     \<Rightarrow> 'w \<times> tool_result list" where
  "run_batches e sched send w [] = (w, [])"
| "run_batches e sched send w ((c, us) # bs) =
     (if c then
        (let (w1, out1) = runConcurrent e sched send w us; (w2, out2) = run_batches e sched send w1 bs
         in (w2, out1 @ out2))
      else
        (case run_sequential e send w us of
           (w1, out1, False) \<Rightarrow> (w1, out1)
         | (w1, out1, True) \<Rightarrow> (let (w2, out2) = run_batches e sched send w1 bs in (w2, out1 @ out2))))"

definition Executor_Run ::
  "('w, 'j) executor \<Rightarrow> ('w \<Rightarrow> nat \<Rightarrow> schedule) \<Rightarrow> ('w \<Rightarrow> tool_result \<Rightarrow> 'w \<times> bool) \<Rightarrow> 'w \<Rightarrow> tool_use list
     \<Rightarrow> 'w \<times> tool_result list" where
  "Executor_Run e sched send w us = run_batches e sched send w (partition_uses e us)"

section \<open>Lemmas on results\<close>

lemma last_start_spec:
  "i \<le> limit \<Longrightarrow> cs \<noteq> [] \<Longrightarrow>
     \<exists>k<length cs. last_start cs i limit en = i + length (concat (map snd (take k cs)))
       \<and> last_start cs i limit en \<le> limit
       \<and> (Suc k = length cs \<or> limit < i + length (concat (map snd (take (Suc k) cs))))"
proof (induction cs arbitrary: i en)
  case (Cons p ps)
  show ?case
  proof (cases "ps = [] \<or> limit < i + length (snd p)")
    case True
    then have "last_start ps (i + length (snd p)) limit i = i" by (cases ps) auto
    with True Cons.prems show ?thesis by (intro exI [of _ 0]) auto
  next
    case False
    then have "i + length (snd p) \<le> limit" "ps \<noteq> []" by auto
    from Cons.IH [OF this, of i] obtain k where
      "k < length ps" "last_start ps (i + length (snd p)) limit i = i + length (snd p) + length (concat (map snd (take k ps)))"
      "last_start ps (i + length (snd p)) limit i \<le> limit"
      "Suc k = length ps \<or> limit < i + length (snd p) + length (concat (map snd (take (Suc k) ps)))" by blast
    with Cons.prems show ?thesis by (intro exI [of _ "Suc k"]) (auto simp: add.assoc)
  qed
qed simp

lemma concat_chunks_prefix: "concat (map snd (take k (utf8_chunks s))) = take (length (concat (map snd (take k (utf8_chunks s))))) s"
proof -
  have "s = concat (map snd (take k (utf8_chunks s))) @ concat (map snd (drop k (utf8_chunks s)))"
    by (metis append_take_drop_id concat_append concat_utf8_chunks map_append)
  then show ?thesis by (metis append_eq_conv_conj)
qed

lemma truncateUTF8_cases:
  assumes "0 < limit" and "limit < int (length s)"
  shows "\<exists>k. truncateUTF8 s limit = concat (map snd (take k (utf8_chunks s)))
    \<and> int (length (truncateUTF8 s limit)) \<le> limit \<and> k < length (utf8_chunks s)
    \<and> limit < int (length (concat (map snd (take (Suc k) (utf8_chunks s)))))"
proof -
  let ?cs = "utf8_chunks s"
  have "?cs \<noteq> []" using assms by auto
  from last_start_spec [of 0 "nat limit", OF _ this, of 0, unfolded add_0] obtain k where
    k: "k < length ?cs" "last_start ?cs 0 (nat limit) 0 = length (concat (map snd (take k ?cs)))"
      "last_start ?cs 0 (nat limit) 0 \<le> nat limit"
      "Suc k = length ?cs \<or> nat limit < length (concat (map snd (take (Suc k) ?cs)))" by blast
  have t: "truncateUTF8 s limit = concat (map snd (take k ?cs))"
    using assms concat_chunks_prefix [of k s] by (simp add: truncateUTF8_def k(2))
  have "limit < int (length (concat (map snd (take (Suc k) ?cs))))"
    using k(4)
  proof
    assume "Suc k = length ?cs"
    then have "concat (map snd (take (Suc k) ?cs)) = s" by simp
    with assms(2) show ?thesis by simp
  qed (use assms(1) in linarith)
  with t k assms(1) show ?thesis by (intro exI [of _ k]) auto
qed

lemma truncateUTF8_length: "0 \<le> limit \<Longrightarrow> int (length (truncateUTF8 s limit)) \<le> limit"
  using truncateUTF8_cases [of limit s] by (cases "0 < limit \<and> limit < int (length s)") (auto simp: truncateUTF8_def)

lemma withMetadata_simps [simp]:
  "tr_use_id (withMetadata r md) = tr_use_id r" "tr_name (withMetadata r md) = tr_name r"
  "tr_content (withMetadata r md) = tr_content r" "tr_is_error (withMetadata r md) = tr_is_error r"
  by (simp_all add: withMetadata_def)

lemma withHookErrors_simps [simp]:
  "tr_use_id (withHookErrors r es) = tr_use_id r" "tr_name (withHookErrors r es) = tr_name r"
  "tr_content (withHookErrors r es) = tr_content r" "tr_is_error (withHookErrors r es) = tr_is_error r"
  by (simp_all add: withHookErrors_def)

lemma errorResult_simps [simp]:
  "tr_use_id (errorResult u x) = use_id u" "tr_name (errorResult u x) = use_name u" "tr_is_error (errorResult u x)"
  by (simp_all add: errorResult_def)

lemma enforceResultLimit_simps [simp]:
  "tr_use_id (snd (enforceResultLimit e w r u l)) = tr_use_id r"
  "tr_name (snd (enforceResultLimit e w r u l)) = tr_name r"
  "tr_is_error (snd (enforceResultLimit e w r u l)) = tr_is_error r"
  by (auto simp: enforceResultLimit_def Let_def split: prod.split option.split)

lemma enforceResultLimit_length:
  "0 < l \<Longrightarrow> int (length (tr_content (snd (enforceResultLimit e w r u l)))) \<le> l"
  using truncateUTF8_length [of l "tr_content r"]
  by (auto simp: enforceResultLimit_def Let_def split: prod.split option.split)

section \<open>Identifiers of results\<close>

text \<open>What an input normaliser must not change.\<close>

definition normalizers_keep_id :: "('w, 'j) executor \<Rightarrow> bool" where
  "normalizers_keep_id e \<longleftrightarrow>
     (\<forall>name t n w u w' u' c. Registry_Get (ex_registry e) name = Some t \<and> to_normalize t = Some n
        \<and> n w u = (w', Inr (u', c)) \<longrightarrow> use_id u' = use_id u \<and> use_name u' = use_name u)"

lemma normalize_use_id:
  assumes "normalizers_keep_id e" and "Registry_Get (ex_registry e) name = Some t" and "normalize_use t w u = (w1, Inr u')"
  shows "use_id u' = use_id u \<and> use_name u' = use_name u"
proof (cases "to_normalize t")
  case None
  then show ?thesis using assms(3) by (simp add: normalize_use_def)
next
  case (Some n)
  with assms(3) obtain c where "n w u = (w1, Inr (u', c))"
    by (auto simp: normalize_use_def split: prod.splits sum.splits)
  with assms(1,2) Some show ?thesis unfolding normalizers_keep_id_def by blast
qed

lemma admit_use_id:
  assumes "normalizers_keep_id e"
  shows "admit_use e w u = (w', Inl (u', x, md)) \<Longrightarrow> use_id u' = use_id u \<and> use_name u' = use_name u"
    and "admit_use e w u = (w', Inr (t, u', md)) \<Longrightarrow> use_id u' = use_id u \<and> use_name u' = use_name u"
  using normalize_use_id [OF assms] unfolding admit_use_def
  by (auto split: option.splits prod.splits sum.splits)

lemma execute_use_id:
  "tr_use_id (snd (execute_use e w (t, u, md))) = use_id u \<and> tr_name (snd (execute_use e w (t, u, md))) = use_name u"
proof (cases "to_execute t w \<lparr>ca_use = u, ca_runtime = ex_runtime e\<rparr>")
  case (Pair w1 res)
  show ?thesis
  proof (cases res)
    case (Inr r)
    obtain w2 r2 where l: "enforceResultLimit e w1 (withMetadata (r\<lparr>tr_use_id := use_id u, tr_name := use_name u\<rparr>) md) u
        (ts_max_result_bytes (to_spec t)) = (w2, r2)" by (rule prod.exhaust)
    have "tr_use_id r2 = use_id u" "tr_name r2 = use_name u"
      using enforceResultLimit_simps(1,2) [of e w1 "withMetadata (r\<lparr>tr_use_id := use_id u, tr_name := use_name u\<rparr>) md" u
          "ts_max_result_bytes (to_spec t)"] by (simp_all add: l)
    then show ?thesis unfolding execute_use_def prod.case Pair Inr sum.case Let_def l
      by (simp split: prod.split)
  qed (simp add: execute_use_def Pair)
qed

lemma runOne_id:
  assumes "normalizers_keep_id e"
  shows "tr_use_id (snd (runOne e w u)) = use_id u \<and> tr_name (snd (runOne e w u)) = use_name u"
proof (cases "admit_use e w u")
  case (Pair w1 res)
  show ?thesis
  proof (cases res)
    case (Inl l)
    obtain u' x md where "l = (u', x, md)" by (cases l)
    with Inl Pair admit_use_id(1) [OF assms, of w u w1 u' x md] show ?thesis by (simp add: runOne_def)
  next
    case (Inr a)
    obtain t u' md where "a = (t, u', md)" by (cases a)
    with Inr Pair admit_use_id(2) [OF assms, of w u w1 t u' md] execute_use_id [of e w1 t u' md] show ?thesis
      by (simp add: runOne_def)
  qed
qed

lemma partition_loop_concat: "concat (map snd (partition_loop e us bs)) = concat (map snd bs) @ us"
proof (induction e us bs rule: partition_loop.induct)
  case (2 e u us bs)
  show ?case
  proof (cases "CanRunConcurrently e u \<and> bs \<noteq> [] \<and> fst (last bs)")
    case True
    then obtain init c vs where bs: "bs = init @ [(c, vs)]" by (metis append_butlast_last_id prod.collapse)
    from True "2.IH"(1) [OF refl True] show ?thesis by (simp add: Let_def bs)
  next
    case False
    show ?thesis unfolding partition_loop.simps Let_def if_not_P [OF False] using "2.IH"(2) [OF refl False] by simp
  qed
qed simp

lemma partition_concat: "concat (map snd (partition_uses e us)) = us"
  by (simp add: partition_uses_def partition_loop_concat)

section \<open>Order of results\<close>

definition schedules_ok :: "('w \<Rightarrow> nat \<Rightarrow> schedule) \<Rightarrow> bool" where
  "schedules_ok sched \<longleftrightarrow> (\<forall>w n. distinct (map fst (sched w n)) \<and> set (map fst (sched w n)) = {0..<n})"

lemma run_schedule_length: "length (snd (run_schedule e us sch w rs)) = length rs"
  by (induction e us sch w rs rule: run_schedule.induct) (auto split: option.split prod.split)

lemma run_schedule_ids:
  assumes "normalizers_keep_id e"
  shows "i < length rs \<Longrightarrow> (i \<in> set (map fst sch) \<or> tr_use_id (rs ! i) = use_id (us ! i)) \<Longrightarrow>
    tr_use_id (snd (run_schedule e us sch w rs) ! i) = use_id (us ! i)"
proof (induction sch arbitrary: w rs)
  case (Cons p sch)
  obtain j c where p: "p = (j, c)" by (cases p)
  obtain w' r where step: "run_schedule e us (p # sch) w rs = run_schedule e us sch w' (rs[j := r])"
    and r: "tr_use_id r = use_id (us ! j)"
  proof (cases c)
    case None
    obtain w' r where o: "runOne e w (us ! j) = (w', r)" by (rule prod.exhaust)
    have "tr_use_id r = use_id (us ! j)" using runOne_id [OF assms, of w "us ! j"] by (simp add: o)
    moreover have "run_schedule e us (p # sch) w rs = run_schedule e us sch w' (rs[j := r])" by (simp add: p None o)
    ultimately show ?thesis using that by blast
  next
    case (Some x)
    then show ?thesis using that [of w "errorResult (us ! j) (Some x)"] by (simp add: p)
  qed
  have "i \<in> set (map fst sch) \<or> tr_use_id (rs[j := r] ! i) = use_id (us ! i)"
    using Cons.prems r p by (cases "i = j") auto
  then show ?case unfolding step using Cons.IH [of "rs[j := r]" w'] Cons.prems(1) by simp
qed simp

lemma run_schedule_all_ids:
  assumes "normalizers_keep_id e" and "schedules_ok sched"
  shows "map tr_use_id (snd (run_schedule e us (sched w (length us)) w (replicate (length us) zero_result))) = map use_id us"
proof (rule nth_equalityI)
  fix i
  assume "i < length (map tr_use_id (snd (run_schedule e us (sched w (length us)) w (replicate (length us) zero_result))))"
  then have i: "i < length us" by (simp add: run_schedule_length)
  then have "i \<in> set (map fst (sched w (length us)))" using assms(2) by (simp add: schedules_ok_def)
  with run_schedule_ids [OF assms(1), of i "replicate (length us) zero_result"] i
  show "map tr_use_id (snd (run_schedule e us (sched w (length us)) w (replicate (length us) zero_result))) ! i = map use_id us ! i"
    by (simp add: run_schedule_length)
qed (simp add: run_schedule_length)

lemma send_results_prefix: "\<exists>k. fst (snd (send_results send w rs)) = take k rs \<and> (snd (snd (send_results send w rs)) \<longrightarrow> k = length rs)"
proof (induction rs arbitrary: w)
  case (Cons r rs)
  obtain w1 ok where s: "send w r = (w1, ok)" by (rule prod.exhaust)
  show ?case
  proof (cases ok)
    case True
    obtain k where "fst (snd (send_results send w1 rs)) = take k rs" "snd (snd (send_results send w1 rs)) \<longrightarrow> k = length rs"
      using Cons.IH by blast
    then show ?thesis using s True by (intro exI [of _ "Suc k"]) (auto split: prod.splits)
  qed (use s in \<open>auto intro: exI [of _ 0]\<close>)
qed simp

lemma send_results_all:
  assumes "\<And>w r. snd (send w r)"
  shows "fst (snd (send_results send w rs)) = rs"
proof (induction rs arbitrary: w)
  case (Cons r rs)
  obtain w1 where s: "send w r = (w1, True)" using assms [of w r] by (cases "send w r") simp
  obtain w2 out ok where "send_results send w1 rs = (w2, out, ok)" by (rule prod_cases3)
  with Cons.IH [of w1] s show ?case by simp
qed simp

lemma run_sequential_step:
  assumes "normalizers_keep_id e"
  obtains w1 r w2 ok w3 out ok2 where "runOne e w u = (w1, r)" "send w1 r = (w2, ok)"
    "run_sequential e send w2 us = (w3, out, ok2)" "tr_use_id r = use_id u"
    "run_sequential e send w (u # us) = (if ok then (w3, r # out, ok2) else (w2, [], False))"
proof -
  obtain w1 r where o: "runOne e w u = (w1, r)" by (rule prod.exhaust)
  obtain w2 ok where s: "send w1 r = (w2, ok)" by (rule prod.exhaust)
  obtain w3 out ok2 where rec: "run_sequential e send w2 us = (w3, out, ok2)" by (rule prod_cases3)
  have "tr_use_id r = use_id u" using runOne_id [OF assms, of w u] by (simp add: o)
  moreover have "run_sequential e send w (u # us) = (if ok then (w3, r # out, ok2) else (w2, [], False))"
    by (cases ok) (simp_all add: o s rec)
  ultimately show ?thesis using that o s rec by blast
qed

lemma run_sequential_subseq:
  assumes "normalizers_keep_id e"
  shows "subseq (map tr_use_id (fst (snd (run_sequential e send w us)))) (map use_id us)"
proof (induction us arbitrary: w)
  case (Cons u us)
  show ?case
  proof (rule run_sequential_step [OF assms, of w u send us])
    fix w1 r w2 ok w3 out ok2
    assume "run_sequential e send w2 us = (w3, out, ok2)" "tr_use_id r = use_id u"
      "run_sequential e send w (u # us) = (if ok then (w3, r # out, ok2) else (w2, [], False))"
    with Cons.IH [of w2] show ?thesis by (cases ok) simp_all
  qed
qed simp

lemma run_sequential_all:
  assumes "normalizers_keep_id e" and "\<And>w r. snd (send w r)"
  shows "map tr_use_id (fst (snd (run_sequential e send w us))) = map use_id us \<and> snd (snd (run_sequential e send w us))"
proof (induction us arbitrary: w)
  case (Cons u us)
  show ?case
  proof (rule run_sequential_step [OF assms(1), of w u send us])
    fix w1 r w2 ok w3 out ok2
    assume a: "send w1 r = (w2, ok)" "run_sequential e send w2 us = (w3, out, ok2)" "tr_use_id r = use_id u"
      "run_sequential e send w (u # us) = (if ok then (w3, r # out, ok2) else (w2, [], False))"
    have ok: ok using assms(2) [of w1 r] a(1) by simp
    with Cons.IH [of w2] a show ?thesis by simp
  qed
qed simp

lemma runConcurrent_out:
  "snd (runConcurrent e sched send w us) =
     fst (snd (send_results send (fst (run_schedule e us (sched w (length us)) w (replicate (length us) zero_result)))
       (snd (run_schedule e us (sched w (length us)) w (replicate (length us) zero_result)))))"
  by (simp add: runConcurrent_def Let_def split: prod.split)

lemma runConcurrent_subseq:
  assumes "normalizers_keep_id e" and "schedules_ok sched"
  shows "subseq (map tr_use_id (snd (runConcurrent e sched send w us))) (map use_id us)"
proof -
  let ?rs = "snd (run_schedule e us (sched w (length us)) w (replicate (length us) zero_result))"
  obtain k where "fst (snd (send_results send (fst (run_schedule e us (sched w (length us)) w
      (replicate (length us) zero_result))) ?rs)) = take k ?rs"
    using send_results_prefix by metis
  then have "snd (runConcurrent e sched send w us) = take k ?rs" by (simp only: runConcurrent_out)
  then have "map tr_use_id (snd (runConcurrent e sched send w us)) = take k (map use_id us)"
    using run_schedule_all_ids [OF assms, of us w] by (simp add: take_map [symmetric])
  moreover have "prefix (take k (map use_id us)) (map use_id us)" by (rule take_is_prefix)
  ultimately show ?thesis using prefix_imp_subseq by metis
qed

lemma runConcurrent_all:
  assumes "normalizers_keep_id e" and "schedules_ok sched" and "\<And>w r. snd (send w r)"
  shows "map tr_use_id (snd (runConcurrent e sched send w us)) = map use_id us"
  unfolding runConcurrent_out send_results_all [OF assms(3)] by (rule run_schedule_all_ids [OF assms(1,2)])

lemma run_batches_subseq:
  assumes "normalizers_keep_id e" and "schedules_ok sched"
  shows "subseq (map tr_use_id (snd (run_batches e sched send w bs))) (map use_id (concat (map snd bs)))"
proof (induction bs arbitrary: w)
  case (Cons b bs)
  obtain c us where b: "b = (c, us)" by (cases b)
  show ?case
  proof (cases c)
    case True
    obtain w1 out1 where r1: "runConcurrent e sched send w us = (w1, out1)" by (rule prod.exhaust)
    obtain w2 out2 where r2: "run_batches e sched send w1 bs = (w2, out2)" by (rule prod.exhaust)
    have "subseq (map tr_use_id out1) (map use_id us)" using runConcurrent_subseq [OF assms, of send w us] by (simp add: r1)
    moreover have "subseq (map tr_use_id out2) (map use_id (concat (map snd bs)))" using Cons.IH [of w1] by (simp add: r2)
    ultimately show ?thesis by (simp add: b True r1 r2 list_emb_append_mono)
  next
    case False
    obtain w1 out1 ok where r1: "run_sequential e send w us = (w1, out1, ok)" by (rule prod_cases3)
    obtain w2 out2 where r2: "run_batches e sched send w1 bs = (w2, out2)" by (rule prod.exhaust)
    have s1: "subseq (map tr_use_id out1) (map use_id us)" using run_sequential_subseq [OF assms(1), of send w us] by (simp add: r1)
    have "subseq (map tr_use_id out2) (map use_id (concat (map snd bs)))" using Cons.IH [of w1] by (simp add: r2)
    moreover have "subseq (map tr_use_id out1) (map use_id us @ map use_id (concat (map snd bs)))"
      using s1 by (rule list_emb_prefix)
    ultimately show ?thesis
      using s1 by (cases ok) (simp_all add: b False r1 r2 list_emb_append_mono)
  qed
qed simp

lemma run_batches_all:
  assumes "normalizers_keep_id e" and "schedules_ok sched" and "\<And>w r. snd (send w r)"
  shows "map tr_use_id (snd (run_batches e sched send w bs)) = map use_id (concat (map snd bs))"
proof (induction bs arbitrary: w)
  case (Cons b bs)
  obtain c us where b: "b = (c, us)" by (cases b)
  show ?case
  proof (cases c)
    case True
    obtain w1 out1 where r1: "runConcurrent e sched send w us = (w1, out1)" by (rule prod.exhaust)
    obtain w2 out2 where r2: "run_batches e sched send w1 bs = (w2, out2)" by (rule prod.exhaust)
    show ?thesis
      using runConcurrent_all [where send = send and w = w and us = us, OF assms] Cons.IH [of w1] by (simp add: b True r1 r2)
  next
    case False
    obtain w1 out1 ok where r1: "run_sequential e send w us = (w1, out1, ok)" by (rule prod_cases3)
    obtain w2 out2 where r2: "run_batches e sched send w1 bs = (w2, out2)" by (rule prod.exhaust)
    show ?thesis
      using run_sequential_all [where send = send and w = w and us = us, OF assms(1,3)] Cons.IH [of w1] by (simp add: b False r1 r2)
  qed
qed simp

section \<open>The goroutines of a concurrent batch\<close>

text \<open>
  The interleavings \<open>runConcurrent\<close> allows: every goroutine waits for a slot of the semaphore (or
  for cancellation), runs the tool, and releases the slot when its result is stored.
\<close>

datatype goroutine = Waiting | Running | Finished tool_result

definition is_running :: "goroutine \<Rightarrow> bool" where
  "is_running g \<longleftrightarrow> g = Running"

definition running :: "goroutine list \<Rightarrow> nat" where
  "running gs = length (filter is_running gs)"

definition effective_limit :: "('w, 'j) executor \<Rightarrow> nat" where
  "effective_limit e = nat (if ex_max_concurrency e \<le> 0 then DefaultMaxConcurrency else ex_max_concurrency e)"

inductive batch_step ::
  "('w, 'j) executor \<Rightarrow> tool_use list \<Rightarrow> goroutine list \<Rightarrow> goroutine list \<Rightarrow> bool" for e us where
  acquire: "i < length gs \<Longrightarrow> gs ! i = Waiting \<Longrightarrow> running gs < effective_limit e \<Longrightarrow>
    batch_step e us gs (gs[i := Running])"
| cancel: "i < length gs \<Longrightarrow> gs ! i = Waiting \<Longrightarrow>
    batch_step e us gs (gs[i := Finished (errorResult (us ! i) (Some x))])"
| finish: "i < length gs \<Longrightarrow> gs ! i = Running \<Longrightarrow>
    batch_step e us gs (gs[i := Finished (snd (runOne e w (us ! i)))])"

inductive batch_steps ::
  "('w, 'j) executor \<Rightarrow> tool_use list \<Rightarrow> goroutine list \<Rightarrow> nat \<Rightarrow> bool" for e us where
  start: "batch_steps e us (replicate (length us) Waiting) 0"
| more: "batch_steps e us gs n \<Longrightarrow> batch_step e us gs gs' \<Longrightarrow> batch_steps e us gs' (Suc n)"

inductive_cases batch_step_cases: "batch_step e us gs gs'"

fun pending_steps :: "goroutine \<Rightarrow> nat" where
  "pending_steps Waiting = 2"
| "pending_steps Running = 1"
| "pending_steps (Finished r) = 0"

definition batch_measure :: "goroutine list \<Rightarrow> nat" where
  "batch_measure gs = sum_list (map pending_steps gs)"

lemma sum_list_update_nat:
  "i < length xs \<Longrightarrow> sum_list (map f (xs[i := y])) + f (xs ! i) = sum_list (map f xs) + (f y :: nat)"
  by (induction xs arbitrary: i) (auto split: nat.splits)

lemma running_sum: "running gs = sum_list (map (\<lambda>g. if is_running g then 1 else 0) gs)"
  by (induction gs) (auto simp: running_def)

lemma running_update:
  "i < length gs \<Longrightarrow> running (gs[i := g]) + (if is_running (gs ! i) then 1 else 0) = running gs + (if is_running g then 1 else 0)"
  using sum_list_update_nat [of i gs "\<lambda>g. if is_running g then 1 else 0" g] by (simp add: running_sum)

lemma batch_step_measure: "batch_step e us gs gs' \<Longrightarrow> batch_measure gs' < batch_measure gs \<and> length gs' = length gs"
proof (erule batch_step_cases, goal_cases)
  case (1 i)
  then show ?case using sum_list_update_nat [of i gs pending_steps Running] by (simp add: batch_measure_def)
next
  case (2 i x)
  then show ?case using sum_list_update_nat [of i gs pending_steps "Finished (errorResult (us ! i) (Some x))"]
    by (simp add: batch_measure_def)
next
  case (3 i w)
  then show ?case using sum_list_update_nat [of i gs pending_steps "Finished (snd (runOne e w (us ! i)))"]
    by (simp add: batch_measure_def)
qed

definition batch_inv :: "('w, 'j) executor \<Rightarrow> tool_use list \<Rightarrow> goroutine list \<Rightarrow> bool" where
  "batch_inv e us gs \<longleftrightarrow> length gs = length us \<and> running gs \<le> effective_limit e
     \<and> (\<forall>i r. i < length gs \<and> gs ! i = Finished r \<longrightarrow> tr_use_id r = use_id (us ! i) \<and> tr_name r = use_name (us ! i))"

lemma batch_step_inv:
  assumes "normalizers_keep_id e" and "batch_step e us gs gs'" and "batch_inv e us gs"
  shows "batch_inv e us gs'"
  using assms(2)
proof (rule batch_step_cases, goal_cases)
  case (1 i)
  then show ?case
    using assms(3) running_update [of i gs Running] by (auto simp: batch_inv_def is_running_def nth_list_update)
next
  case (2 i x)
  then show ?case
    using assms(3) running_update [of i gs "Finished (errorResult (us ! i) (Some x))"]
    by (auto simp: batch_inv_def is_running_def nth_list_update split: if_splits)
next
  case (3 i w)
  then show ?case
    using assms(3) runOne_id [OF assms(1), of w "us ! i"] running_update [of i gs "Finished (snd (runOne e w (us ! i)))"]
    by (auto simp: batch_inv_def is_running_def nth_list_update split: if_splits)
qed

lemma batch_inv_start: "batch_inv e us (replicate (length us) Waiting)"
  by (auto simp: batch_inv_def running_def is_running_def)

lemma batch_steps_inv:
  "batch_steps e us gs n \<Longrightarrow> normalizers_keep_id e \<Longrightarrow> batch_inv e us gs \<and> batch_measure gs + n \<le> 2 * length us"
proof (induction rule: batch_steps.induct)
  case start
  then show ?case by (simp add: batch_inv_start batch_measure_def sum_list_replicate)
next
  case (more gs n gs')
  then show ?case using batch_step_inv [OF more.prems more.hyps(2)] batch_step_measure [OF more.hyps(2)] by auto
qed

text \<open>A batch that is not finished can always take a step.\<close>

lemma batch_progress:
  assumes "0 < effective_limit e" and "i < length gs" and "\<And>r. gs ! i \<noteq> Finished r"
  shows "\<exists>gs'. batch_step e us gs gs'"
proof (cases "\<exists>j<length gs. gs ! j = Running")
  case True
  then obtain j where j: "j < length gs" "gs ! j = Running" by blast
  show ?thesis by (rule exI) (rule batch_step.finish [OF j])
next
  case False
  then have "running gs = 0" by (auto simp: running_def is_running_def filter_empty_conv in_set_conv_nth)
  then have free: "running gs < effective_limit e" using assms(1) by simp
  have "gs ! i = Waiting" using assms(2,3) False by (cases "gs ! i") auto
  then show ?thesis using batch_step.acquire [OF assms(2) _ free] by blast
qed

lemma effective_limit_pos: "0 < effective_limit e"
  by (auto simp: effective_limit_def DefaultMaxConcurrency_def)

section \<open>Admission\<close>

text \<open>The same executor with every handler replaced.\<close>

definition swap_handlers ::
  "('w \<Rightarrow> tool_call \<Rightarrow> 'w \<times> (err + tool_result)) \<Rightarrow> ('w, 'j) executor \<Rightarrow> ('w, 'j) executor" where
  "swap_handlers f e = e\<lparr>ex_registry := (ex_registry e)\<lparr>rg_entries :=
     map (\<lambda>(n, t, s). (n, t\<lparr>to_execute := f\<rparr>, s)) (rg_entries (ex_registry e))\<rparr>\<rparr>"

lemma map_of_swap:
  "map_of (map (\<lambda>(n, t, s). (n, t\<lparr>to_execute := f\<rparr>, s)) es) k = map_option (\<lambda>(t, s). (t\<lparr>to_execute := f\<rparr>, s)) (map_of es k)"
  by (induction es) auto

lemma swap_Get: "Registry_Get (ex_registry (swap_handlers f e)) n = map_option (\<lambda>t. t\<lparr>to_execute := f\<rparr>) (Registry_Get (ex_registry e) n)"
  by (cases "map_of (rg_entries (ex_registry e)) n") (auto simp: Registry_Get_def swap_handlers_def map_of_swap)

lemma swap_simps [simp]:
  "Registry_InputSchema (ex_registry (swap_handlers f e)) n = Registry_InputSchema (ex_registry e) n"
  "ex_validator (swap_handlers f e) = ex_validator e" "ex_hooks (swap_handlers f e) = ex_hooks e"
  "ex_permissions (swap_handlers f e) = ex_permissions e" "ex_runtime (swap_handlers f e) = ex_runtime e"
  "validateInput (swap_handlers f e) = validateInput e" "tool_request (swap_handlers f e) = tool_request e"
  by (auto simp: swap_handlers_def Registry_InputSchema_def map_of_swap validateInput_def tool_request_def fun_eq_iff Let_def
      split: option.splits)

text \<open>Admission never looks at the handler.\<close>

lemma check_use_swap: "check_use (swap_handlers f e) (t\<lparr>to_execute := f\<rparr>) w u = check_use e t w u"
proof -
  have sp: "to_spec (t\<lparr>to_execute := f\<rparr>) = to_spec t" by simp
  show ?thesis unfolding check_use_def Let_def swap_simps sp by (rule refl)
qed

lemma admit_swap:
  "admit_use (swap_handlers f e) w u =
     (case admit_use e w u of
        (w1, Inl l) \<Rightarrow> (w1, Inl l) | (w1, Inr (t, u', md)) \<Rightarrow> (w1, Inr (t\<lparr>to_execute := f\<rparr>, u', md)))"
proof (cases "Registry_Get (ex_registry e) (use_name u)")
  case None
  then show ?thesis by (simp add: admit_use_def swap_Get)
next
  case (Some t)
  have "normalize_use (t\<lparr>to_execute := f\<rparr>) w u = normalize_use t w u" by (simp add: normalize_use_def)
  then show ?thesis
    by (simp add: admit_use_def swap_Get Some check_use_swap split: prod.split sum.split)
qed

text \<open>What an admitted call has passed, in order.\<close>

definition passed_checks :: "('w, 'j) executor \<Rightarrow> 'w tool \<Rightarrow> tool_use \<Rightarrow> 'w \<Rightarrow> 'w \<Rightarrow> bool" where
  "passed_checks e t use w w' \<longleftrightarrow>
     validateInput e use (Registry_InputSchema (ex_registry e) (use_name use)) = None
     \<and> (\<exists>w2 w3 br. tenant_check (ex_validator e) w (tool_request e use (to_spec t)) = (w2, None)
          \<and> hook_BeforeToolUse (ex_hooks e) w2 \<lparr>bi_session = rt_session (ex_runtime e), bi_tenant = rt_tenant (ex_runtime e),
               bi_use = use, bi_spec = to_spec t\<rparr> = (w3, Inr br) \<and> br_deny br = []
          \<and> (case ex_permissions e of None \<Rightarrow> w' = w3
              | Some chk \<Rightarrow> fst (chk w3 use (to_spec t)) = w' \<and> dc_allow (snd (chk w3 use (to_spec t)))))"

lemma check_use_passed:
  assumes "check_use e t w use = (w', Inr md)"
  shows "passed_checks e t use w w'"
proof -
  have v: "validateInput e use (Registry_InputSchema (ex_registry e) (use_name use)) = None"
    using assms by (cases "validateInput e use (Registry_InputSchema (ex_registry e) (use_name use))")
      (simp_all add: check_use_def Let_def)
  obtain w2 where t: "tenant_check (ex_validator e) w (tool_request e use (to_spec t)) = (w2, None)"
    using assms by (cases "tenant_check (ex_validator e) w (tool_request e use (to_spec t))")
      (auto simp: check_use_def Let_def v split: option.splits)
  obtain w3 br where h: "hook_BeforeToolUse (ex_hooks e) w2 \<lparr>bi_session = rt_session (ex_runtime e),
      bi_tenant = rt_tenant (ex_runtime e), bi_use = use, bi_spec = to_spec t\<rparr> = (w3, Inr br)"
    using assms by (cases "hook_BeforeToolUse (ex_hooks e) w2 \<lparr>bi_session = rt_session (ex_runtime e),
      bi_tenant = rt_tenant (ex_runtime e), bi_use = use, bi_spec = to_spec t\<rparr>")
      (auto simp: check_use_def Let_def v t split: sum.splits)
  have "br_deny br = []" using assms by (auto simp: check_use_def Let_def v t h split: if_splits)
  moreover have "case ex_permissions e of None \<Rightarrow> w' = w3
      | Some chk \<Rightarrow> fst (chk w3 use (to_spec t)) = w' \<and> dc_allow (snd (chk w3 use (to_spec t)))"
    using assms calculation by (auto simp: check_use_def Let_def v t h split: option.splits prod.splits if_splits)
  ultimately show ?thesis using v t h unfolding passed_checks_def by blast
qed

lemma admit_use_passed:
  assumes "admit_use e w u = (w', Inr (t, use, md))"
  shows "Registry_Get (ex_registry e) (use_name u) = Some t
    \<and> (\<exists>w1. normalize_use t w u = (w1, Inr use) \<and> passed_checks e t use w1 w')"
  using assms unfolding admit_use_def
  by (auto split: option.splits prod.splits sum.splits dest: check_use_passed)

section \<open>Properties\<close>


definition demo_executor :: "(unit, unit) executor" where
  "demo_executor = \<lparr>ex_registry = empty_registry, ex_permissions = None, ex_hooks = None, ex_validator = None,
     ex_max_concurrency = 0, ex_result_store = None,
     ex_runtime = \<lparr>rt_session = [], rt_parent = [], rt_tenant = zero_scope\<rparr>, ex_unicode = ascii_unicode,
     ex_unmarshal = (\<lambda>_. None), ex_validate = (\<lambda>_ _. None)\<rparr>"

definition demo_use :: "string \<Rightarrow> tool_use" where
  "demo_use i = \<lparr>use_id = i, use_name = ''ls'', use_input = []\<rparr>"

lemma demo_executor_keeps_id: "normalizers_keep_id demo_executor"
  by (simp add: normalizers_keep_id_def demo_executor_def empty_registry_def Registry_Get_def)




text \<open>
  C35. The gates of a tool call: a handler runs only for a registered tool whose (normalised)
  input validates, that the tenant validator, every before-tool hook and the permission checker
  let through, in this order; a call that is refused returns a tool error, and its outcome and
  effects are the same whatever the handlers are, so no handler ran.
\<close>

theorem refused_use_never_executes:
  "case admit_use e w u of
     (w1, Inl (u', x, md)) \<Rightarrow>
       runOne e w u = (w1, withMetadata (errorResult u' (Some x)) md)
       \<and> tr_is_error (snd (runOne e w u))
       \<and> (\<forall>f. runOne (swap_handlers f e) w u = runOne e w u)
   | (w1, Inr (t, u', md)) \<Rightarrow>
       runOne e w u = execute_use e w1 (t, u', md)
       \<and> Registry_Get (ex_registry e) (use_name u) = Some t
       \<and> (\<exists>w0. normalize_use t w u = (w0, Inr u') \<and> passed_checks e t u' w0 w1)"
proof (cases "admit_use e w u")
  case (Pair w1 res)
  show ?thesis
  proof (cases res)
    case (Inl l)
    obtain u' x md where l: "l = (u', x, md)" by (cases l)
    have "runOne (swap_handlers f e) w u = runOne e w u" for f
      by (simp add: runOne_def admit_swap Pair Inl l)
    then show ?thesis by (simp add: Pair Inl l) (simp add: runOne_def Pair Inl l)
  next
    case (Inr a)
    obtain t u' md where a: "a = (t, u', md)" by (cases a)
    with admit_use_passed [of e w u w1 t u' md] Pair Inr show ?thesis by (simp add: runOne_def)
  qed
qed

text \<open>
  Oversized results are cut to the longest prefix that fits and ends between two runes: a
  text within the limit is unchanged; a longer one becomes its first runes, at most the limit in
  bytes, and one rune more would exceed the limit; cutting creates no broken rune.
\<close>

theorem truncate_longest_rune_prefix:
  "(int (length s) \<le> limit \<longrightarrow> truncateUTF8 s limit = s)
   \<and> (0 < limit \<and> limit < int (length s) \<longrightarrow>
       (\<exists>k. truncateUTF8 s limit = concat (map snd (take k (utf8_chunks s)))
          \<and> utf8_chunks (truncateUTF8 s limit) = take k (utf8_chunks s)
          \<and> int (length (truncateUTF8 s limit)) \<le> limit
          \<and> limit < int (length (concat (map snd (take (Suc k) (utf8_chunks s)))))))"
proof (intro conjI impI)
  show "truncateUTF8 s limit = s" if "int (length s) \<le> limit" using that by (cases s) (auto simp: truncateUTF8_def)
  assume "0 < limit \<and> limit < int (length s)"
  then obtain k where k: "truncateUTF8 s limit = concat (map snd (take k (utf8_chunks s)))"
    "int (length (truncateUTF8 s limit)) \<le> limit" "limit < int (length (concat (map snd (take (Suc k) (utf8_chunks s)))))"
    using truncateUTF8_cases by blast
  with utf8_chunks_append [OF k(1)] show "\<exists>k. truncateUTF8 s limit = concat (map snd (take k (utf8_chunks s)))
          \<and> utf8_chunks (truncateUTF8 s limit) = take k (utf8_chunks s)
          \<and> int (length (truncateUTF8 s limit)) \<le> limit
          \<and> limit < int (length (concat (map snd (take (Suc k) (utf8_chunks s)))))" by blast
qed

theorem truncate_longest_rune_prefix_witness:
  "\<exists>k. truncateUTF8 ''abc'' 2 = concat (map snd (take k (utf8_chunks ''abc''))) \<and> int (length (truncateUTF8 ''abc'' 2)) \<le> 2"
  using truncate_longest_rune_prefix [of "''abc''" 2] by auto

text \<open>
  A cancellation that cuts the results of a concurrent batch does not stop the executor:
  although no result can be delivered any more, the tool of the next sequential batch is still
  run, with all its effects.
\<close>

lemma cancelled_batch_starts_next_tool:
  "run_batches e sched (\<lambda>w r. (w, False)) w [(True, us), (False, [u])] =
     (fst (runOne e (fst (run_schedule e us (sched w (length us)) w (replicate (length us) zero_result))) u), [])"
proof -
  have none: "send_results (\<lambda>w r. (w, False)) w' rs = (w', [], rs = [])" for w' :: 'w and rs
    by (cases rs) auto
  obtain w1 rs where r: "run_schedule e us (sched w (length us)) w (replicate (length us) zero_result) = (w1, rs)"
    by (rule prod.exhaust)
  obtain w2 res where o: "runOne e w1 u = (w2, res)" by (rule prod.exhaust)
  have "runConcurrent e sched (\<lambda>w r. (w, False)) w us = (w1, [])"
    by (simp add: runConcurrent_def r none)
  then show ?thesis by (simp add: r o)
qed

end
