(* ===== verification/Run_Monad.thy ===== *)
theory Run_Monad
  imports Run_Events Budget Session_Store Tool_Executor
begin

text \<open>
  The state of a run and the sequencing of its steps. A run acts on the host's world \<open>'w\<close> (which
  includes the session store), keeps the local variables of \<open>runLoop\<close>, and records its visible
  actions in the order they happen. A step of the turn function either continues with a value,
  returns from the turn (\<open>Next\<close>), or returns with \<open>shouldStop\<close> set (\<open>Stop\<close>).
\<close>

section \<open>Requests and actions\<close>

record model_request =
  mr_session :: string
  mr_tenant :: tenant_scope
  mr_messages :: "message list"
  mr_tools :: "tool_spec list"
  mr_system :: string
  mr_append_system :: string
  mr_parent :: string

text \<open>
  The actions: an event delivered to the caller, a call of the model client, a message appended to
  the session, tool uses handed to the executor, the answer of the before-final hooks, the answer
  of the output validator, and the calls of the stop and session-ended hooks.
\<close>

datatype action =
    AEmit event
  | ARequest model_request
  | AAppend message
  | ATools "tool_use list"
  | AGate string string
  | AValidate string "err option"
  | AStop stop_input
  | AEnded session_ended_input

section \<open>Runs\<close>

record 'w run_state =
  rs_world :: 'w
  rs_log :: "action list"
  rs_tracker :: budget_tracker
  rs_usage :: usage
  rs_output_retries :: int
  rs_final_denials :: int

datatype 'a ctl = Go 'a | Next | Stop

type_synonym ('w, 'a) run = "'w run_state \<Rightarrow> 'w run_state \<times> 'a ctl"

definition ret :: "'a \<Rightarrow> ('w, 'a) run" where
  "ret x s = (s, Go x)"

definition next_turn :: "('w, 'a) run" where
  "next_turn s = (s, Next)"

definition stop_run :: "('w, 'a) run" where
  "stop_run s = (s, Stop)"

definition bindr :: "('w, 'a) run \<Rightarrow> ('a \<Rightarrow> ('w, 'b) run) \<Rightarrow> ('w, 'b) run" where
  "bindr m f s = (case m s of (s', Go x) \<Rightarrow> f x s' | (s', Next) \<Rightarrow> (s', Next) | (s', Stop) \<Rightarrow> (s', Stop))"

definition thenr :: "('w, 'a) run \<Rightarrow> ('w, 'b) run \<Rightarrow> ('w, 'b) run" where
  "thenr m n = bindr m (\<lambda>_. n)"

text \<open>Host code: a function on the world.\<close>

definition host :: "('w \<Rightarrow> 'w \<times> 'a) \<Rightarrow> ('w, 'a) run" where
  "host f s = (case f (rs_world s) of (w, x) \<Rightarrow> (s\<lparr>rs_world := w\<rparr>, Go x))"

definition act :: "action \<Rightarrow> ('w, unit) run" where
  "act a s = (s\<lparr>rs_log := rs_log s @ [a]\<rparr>, Go ())"

definition local :: "('w run_state \<Rightarrow> 'a) \<Rightarrow> ('w, 'a) run" where
  "local f s = (s, Go (f s))"

text \<open>Assignment to the local variables of \<open>runLoop\<close>.\<close>

definition set_tracker :: "(budget_tracker \<Rightarrow> budget_tracker) \<Rightarrow> ('w, unit) run" where
  "set_tracker f s = (s\<lparr>rs_tracker := f (rs_tracker s)\<rparr>, Go ())"

definition set_usage :: "(usage \<Rightarrow> usage) \<Rightarrow> ('w, unit) run" where
  "set_usage f s = (s\<lparr>rs_usage := f (rs_usage s)\<rparr>, Go ())"

definition count_output_retry :: "('w, unit) run" where
  "count_output_retry s = (s\<lparr>rs_output_retries := rs_output_retries s + 1\<rparr>, Go ())"

definition count_final_denial :: "('w, unit) run" where
  "count_final_denial s = (s\<lparr>rs_final_denials := rs_final_denials s + 1\<rparr>, Go ())"

section \<open>Triples\<close>

text \<open>
  \<open>triple P m Q N S\<close>: from a state with \<open>P\<close>, the step \<open>m\<close> continues in a state with \<open>Q\<close> of its
  value, or returns from the turn with \<open>N\<close>, or stops the run with \<open>S\<close>.
\<close>

definition outcome ::
  "('a \<Rightarrow> 'w run_state \<Rightarrow> bool) \<Rightarrow> ('w run_state \<Rightarrow> bool) \<Rightarrow> ('w run_state \<Rightarrow> bool)
     \<Rightarrow> 'w run_state \<times> 'a ctl \<Rightarrow> bool" where
  "outcome Q N S p = (case snd p of Go x \<Rightarrow> Q x (fst p) | Next \<Rightarrow> N (fst p) | Stop \<Rightarrow> S (fst p))"

definition triple ::
  "('w run_state \<Rightarrow> bool) \<Rightarrow> ('w, 'a) run \<Rightarrow> ('a \<Rightarrow> 'w run_state \<Rightarrow> bool) \<Rightarrow> ('w run_state \<Rightarrow> bool)
     \<Rightarrow> ('w run_state \<Rightarrow> bool) \<Rightarrow> bool" where
  "triple P m Q N S \<longleftrightarrow> (\<forall>s. P s \<longrightarrow> outcome Q N S (m s))"

lemma outcome_simps [simp]:
  "outcome Q N S (s, Go x) = Q x s" "outcome Q N S (s, Next) = N s" "outcome Q N S (s, Stop) = S s"
  by (simp_all add: outcome_def)

named_theorems triples \<open>Hoare rules of the steps of a run.\<close>

lemma triple_ret: "(\<And>s. P s \<Longrightarrow> Q x s) \<Longrightarrow> triple P (ret x) Q N S"
  by (simp add: triple_def ret_def)

lemma triple_next: "(\<And>s. P s \<Longrightarrow> N s) \<Longrightarrow> triple P next_turn Q N S"
  by (simp add: triple_def next_turn_def)

lemma triple_stop: "(\<And>s. P s \<Longrightarrow> S s) \<Longrightarrow> triple P stop_run Q N S"
  by (simp add: triple_def stop_run_def)

lemma triple_bind:
  "triple P m R N S \<Longrightarrow> (\<And>x. triple (R x) (f x) Q N S) \<Longrightarrow> triple P (bindr m f) Q N S"
  unfolding triple_def
proof (intro allI impI)
  fix s assume m: "\<forall>s. P s \<longrightarrow> outcome R N S (m s)" and f: "\<And>x. \<forall>s. R x s \<longrightarrow> outcome Q N S (f x s)" and "P s"
  obtain s' r where r: "m s = (s', r)" by (rule prod.exhaust)
  show "outcome Q N S (bindr m f s)"
    using m f \<open>P s\<close> by (cases r) (force simp: bindr_def r)+
qed

lemma triple_then: "triple P m (\<lambda>_. R) N S \<Longrightarrow> triple R n Q N S \<Longrightarrow> triple P (thenr m n) Q N S"
  unfolding thenr_def by (rule triple_bind)

lemma triple_host: "(\<And>s w x. P s \<Longrightarrow> f (rs_world s) = (w, x) \<Longrightarrow> Q x (s\<lparr>rs_world := w\<rparr>)) \<Longrightarrow> triple P (host f) Q N S"
  by (simp add: triple_def host_def split: prod.split)

lemma triple_act: "(\<And>s. P s \<Longrightarrow> Q () (s\<lparr>rs_log := rs_log s @ [a]\<rparr>)) \<Longrightarrow> triple P (act a) Q N S"
  by (simp add: triple_def act_def)

lemma triple_local: "(\<And>s. P s \<Longrightarrow> Q (f s) s) \<Longrightarrow> triple P (local f) Q N S"
  by (simp add: triple_def local_def)

lemma triple_pre: "(\<And>s. P s \<Longrightarrow> P' s) \<Longrightarrow> triple P' m Q N S \<Longrightarrow> triple P m Q N S"
  unfolding triple_def by blast

lemma triple_conseq:
  "triple P' m Q' N' S' \<Longrightarrow> (\<And>s. P s \<Longrightarrow> P' s) \<Longrightarrow> (\<And>x s. Q' x s \<Longrightarrow> Q x s) \<Longrightarrow> (\<And>s. N' s \<Longrightarrow> N s)
     \<Longrightarrow> (\<And>s. S' s \<Longrightarrow> S s) \<Longrightarrow> triple P m Q N S"
  unfolding triple_def
proof (intro allI impI)
  fix s assume m: "\<forall>s. P' s \<longrightarrow> outcome Q' N' S' (m s)" and "P s"
    and imp: "\<And>s. P s \<Longrightarrow> P' s" "\<And>x s. Q' x s \<Longrightarrow> Q x s" "\<And>s. N' s \<Longrightarrow> N s" "\<And>s. S' s \<Longrightarrow> S s"
  obtain s' r where r: "m s = (s', r)" by (rule prod.exhaust)
  have "outcome Q' N' S' (s', r)" using m imp(1) \<open>P s\<close> r by metis
  then show "outcome Q N S (m s)" using imp unfolding r by (cases r) simp_all
qed

lemma triple_if: "(c \<Longrightarrow> triple P m Q N S) \<Longrightarrow> (\<not> c \<Longrightarrow> triple P n Q N S) \<Longrightarrow> triple P (if c then m else n) Q N S"
  by simp

lemma triple_option:
  "(v = None \<Longrightarrow> triple P m Q N S) \<Longrightarrow> (\<And>y. v = Some y \<Longrightarrow> triple P (f y) Q N S)
     \<Longrightarrow> triple P (case v of None \<Rightarrow> m | Some y \<Rightarrow> f y) Q N S"
  by (cases v) simp_all

lemma triple_sum:
  "(\<And>y. v = Inl y \<Longrightarrow> triple P (f y) Q N S) \<Longrightarrow> (\<And>y. v = Inr y \<Longrightarrow> triple P (g y) Q N S)
     \<Longrightarrow> triple P (case v of Inl y \<Rightarrow> f y | Inr y \<Rightarrow> g y) Q N S"
  by (cases v) simp_all

lemma triple_pair: "(\<And>a b. v = (a, b) \<Longrightarrow> triple P (f a b) Q N S) \<Longrightarrow> triple P (case v of (a, b) \<Rightarrow> f a b) Q N S"
  by (cases v) simp

lemma triple_false: "(\<And>s. \<not> P s) \<Longrightarrow> triple P m Q N S"
  by (simp add: triple_def)

lemma triple_run: "triple P m Q N S \<Longrightarrow> P s \<Longrightarrow> m s = (s', r) \<Longrightarrow> outcome Q N S (s', r)"
  unfolding triple_def by metis

end
