(* ===== verification/Assistant_Text.thy ===== *)
theory Assistant_Text
  imports Transcript_Repair
begin

text \<open>
  The white-space normaliser for streamed assistant text (\<open>agent.go\<close>, \<open>assistantTextStreamNormalizer\<close>
  and its helpers), its use on stored messages, and \<open>prepareMessagesForModel\<close>, which composes it
  with the tool-use repair. A rune is its code point; 0 stands for "none", as in the code.
\<close>

section \<open>Scanning helpers\<close>

definition runes :: "string \<Rightarrow> nat list" where
  "runes s = map fst (utf8_chunks s)"

definition splitAssistantStreamText :: "string \<Rightarrow> string \<times> string \<times> string" where
  "splitAssistantStreamText text =
     (let tl1 = trim_left text; core = trim_right tl1
      in (take (length text - length tl1) text, core, drop (length core) tl1))"

definition firstNonSpaceRune :: "string \<Rightarrow> nat" where
  "firstNonSpaceRune s = (case filter (\<lambda>r. \<not> is_space r) (runes s) of [] \<Rightarrow> 0 | r # _ \<Rightarrow> r)"

definition lastNonSpaceRune :: "string \<Rightarrow> nat" where
  "lastNonSpaceRune s = (case rev (filter (\<lambda>r. \<not> is_space r) (runes s)) of [] \<Rightarrow> 0 | r # _ \<Rightarrow> r)"

definition leadingTokenRuneLength :: "string \<Rightarrow> nat" where
  "leadingTokenRuneLength s = length (takeWhile (\<lambda>r. \<not> is_space r) (dropWhile is_space (runes s)))"

definition trailingToken :: "string \<Rightarrow> nat \<times> nat" where
  "trailingToken s =
     (let tok = takeWhile (\<lambda>r. \<not> is_space r) (rev (runes s))
      in case rev tok of [] \<Rightarrow> (0, 0) | r # _ \<Rightarrow> (r, length tok))"

definition assistantStreamHasHorizontalWhitespace :: "string \<Rightarrow> bool" where
  "assistantStreamHasHorizontalWhitespace s = list_ex (\<lambda>r. r \<noteq> 10 \<and> r \<noteq> 13 \<and> is_space r) (runes s)"

definition contains_rune :: "string \<Rightarrow> nat \<Rightarrow> bool" where
  "contains_rune cs r = (r \<in> byte ` set cs)"

definition assistantStreamStartsPunctuation :: "nat \<Rightarrow> bool" where
  "assistantStreamStartsPunctuation r = contains_rune ''.,;:!?)]}'' r"

definition fence :: string where
  "fence = [CHR 96, CHR 96, CHR 96]"

fun ordered_list_loop :: "unicode \<Rightarrow> nat list \<Rightarrow> nat \<Rightarrow> bool" where
  "ordered_list_loop U [] digits = False"
| "ordered_list_loop U (r # rs) digits =
     (if uc_digit U r then ordered_list_loop U rs (Suc digits) else 0 < digits \<and> r = 46)"

definition assistantStreamStartsOrderedList :: "unicode \<Rightarrow> string \<Rightarrow> bool" where
  "assistantStreamStartsOrderedList U s = ordered_list_loop U (runes s) 0"

text \<open>\<open>None\<close> is the result \<open>("", false)\<close>.\<close>

definition assistantStreamPreservedBreakPrefix :: "unicode \<Rightarrow> string \<Rightarrow> string option" where
  "assistantStreamPreservedBreakPrefix U nxt =
     (let t = trim_space nxt
      in if t = [] then None
         else if has_prefix t fence \<or> has_prefix t ''#'' \<or> has_prefix t ''>'' \<or> has_prefix t ''|''
         then Some [CHR 10, CHR 10]
         else if has_prefix t ''- '' \<or> has_prefix t ''* '' \<or> has_prefix t ''+ '' then Some [CHR 10, CHR 10]
         else if t = ''-'' \<or> t = ''*'' \<or> t = ''+'' then Some [CHR 10]
         else if assistantStreamStartsOrderedList U t
         then Some (if CHR '' '' \<in> set t \<or> CHR 9 \<in> set t then [CHR 10, CHR 10] else [CHR 10])
         else None)"

definition assistantStreamLineStartsList :: "unicode \<Rightarrow> string \<Rightarrow> bool" where
  "assistantStreamLineStartsList U s =
     (let t = trim_space s
      in has_prefix t ''- '' \<or> has_prefix t ''* '' \<or> has_prefix t ''+ '' \<or> assistantStreamStartsOrderedList U t)"

definition assistantStreamLinePreservesFollowingBreak :: "unicode \<Rightarrow> string \<Rightarrow> bool" where
  "assistantStreamLinePreservesFollowingBreak U s =
     (let t = trim_space s
      in assistantStreamLineStartsList U t \<or> has_prefix t ''#'' \<or> has_prefix t ''>'' \<or> has_prefix t ''|''
         \<or> has_prefix t fence)"

definition lastTrimmedLine :: "string \<Rightarrow> string" where
  "lastTrimmedLine s =
     (let t = trim_right s
      in if t = [] then []
         else trim_space (rev (takeWhile (\<lambda>c. c \<noteq> CHR 10) (rev t))))"

definition letter_or_digit :: "unicode \<Rightarrow> nat \<Rightarrow> bool" where
  "letter_or_digit U r \<longleftrightarrow> uc_letter U r \<or> uc_digit U r"

definition assistantStreamShouldJoin :: "unicode \<Rightarrow> nat \<Rightarrow> nat \<Rightarrow> nat \<Rightarrow> string \<Rightarrow> bool" where
  "assistantStreamShouldJoin U prev tokFirst tokLen nxtText =
     (let nxt = firstNonSpaceRune nxtText
      in if prev = 0 \<or> nxt = 0 then False
         else if contains_rune (''./_-#'' @ [CHR 96] @ ''*'') prev \<and> letter_or_digit U nxt
         then (if prev = 46 \<and> uc_upper U nxt then False
               else if prev = 46 \<and> uc_upper U tokFirst \<and> 3 < tokLen then False
               else True)
         else if letter_or_digit U prev \<and> letter_or_digit U nxt
         then (let n = leadingTokenRuneLength nxtText in 0 < tokLen \<and> 0 < n \<and> (tokLen \<le> 3 \<or> n \<le> 3))
         else False)"

definition leadingToken :: "string \<Rightarrow> string" where
  "leadingToken s =
     concat (map rune_bytes (takeWhile (\<lambda>p. \<not> is_space (fst p)) (utf8_chunks (trim_left s))))"

definition assistantStreamEndsSentence :: "nat \<Rightarrow> bool" where
  "assistantStreamEndsSentence r \<longleftrightarrow> r = 46 \<or> r = 33 \<or> r = 63"

definition assistantStreamParagraphStarter :: "unicode \<Rightarrow> string \<Rightarrow> bool" where
  "assistantStreamParagraphStarter U s \<longleftrightarrow>
     to_lower U (leadingToken s) \<in> set [''but'', ''so'', ''yet'', ''then'', ''thus'', ''therefore'', ''however'']"

definition assistantStreamWordJoinWord :: "unicode \<Rightarrow> string \<Rightarrow> bool" where
  "assistantStreamWordJoinWord U s \<longleftrightarrow>
     to_lower U (leadingToken s) \<in> set [''a'', ''all'', ''an'', ''and'', ''any'', ''are'', ''as'', ''at'', ''by'', ''can'',
       ''did'', ''for'', ''had'', ''has'', ''he'', ''her'', ''his'', ''if'', ''in'', ''is'', ''it'', ''me'', ''my'',
       ''no'', ''nor'', ''not'', ''of'', ''old'', ''on'', ''one'', ''or'', ''our'', ''run'', ''so'', ''the'', ''to'',
       ''up'', ''us'', ''was'', ''we'', ''yet'', ''you'']"

text \<open>\<open>None\<close> is the result \<open>("", false)\<close>; for a slash the flag depends on the token length.\<close>

definition assistantStreamBlankSeparatedFragmentPrefix ::
  "unicode \<Rightarrow> nat \<Rightarrow> nat \<Rightarrow> nat \<Rightarrow> string \<Rightarrow> string option" where
  "assistantStreamBlankSeparatedFragmentPrefix U prev tokFirst tokLen nxtText =
     (let nxt = firstNonSpaceRune nxtText; n = leadingTokenRuneLength nxtText
      in if prev = 0 \<or> nxt = 0 then None
         else if nxt = 47 then (if 0 < n \<and> n \<le> 3 then Some [] else None)
         else if tokFirst = 47 \<and> 0 < tokLen \<and> uc_lower U nxt then Some []
         else if contains_rune (''/_-#'' @ [CHR 96] @ ''*'') prev \<and> letter_or_digit U nxt then Some []
         else if assistantStreamEndsSentence prev \<and> uc_upper U nxt \<and> n \<le> 3 then Some '' ''
         else if \<not> letter_or_digit U prev \<or> \<not> letter_or_digit U nxt then None
         else if assistantStreamParagraphStarter U nxtText then None
         else if assistantStreamWordJoinWord U nxtText then Some '' ''
         else if (tokFirst = 97 \<or> tokFirst = 65) \<and> tokLen = 1 \<and> uc_lower U nxt then Some '' ''
         else if tokLen = 1 \<and> prev \<noteq> 73 \<and> uc_lower U nxt then Some []
         else if 0 < tokLen \<and> tokLen \<le> 3 \<and> 0 < n \<and> n \<le> 3 \<and> uc_lower U tokFirst \<and> uc_lower U nxt then Some []
         else if uc_lower U nxt then Some '' ''
         else None)"

section \<open>The normaliser\<close>

record normalizer =
  nz_pending :: string
  nz_token_first :: nat
  nz_token_length :: nat
  nz_last_line :: string
  nz_last_rune :: nat
  nz_emitted :: bool

definition new_normalizer :: normalizer where
  "new_normalizer = \<lparr>nz_pending = [], nz_token_first = 0, nz_token_length = 0, nz_last_line = [],
     nz_last_rune = 0, nz_emitted = False\<rparr>"

definition nz_prefix :: "unicode \<Rightarrow> normalizer \<Rightarrow> string \<Rightarrow> string \<Rightarrow> string" where
  "nz_prefix U n leading core =
     (let ws = nz_pending n @ leading; newlines = count_list ws (CHR 10); first = firstNonSpaceRune core
      in if ws = [] \<or> \<not> nz_emitted n then []
         else if first = 0 then []
         else if newlines = 0 then (if assistantStreamStartsPunctuation first then [] else ws)
         else if newlines = 1 then (if assistantStreamStartsPunctuation first \<and> first \<noteq> 47 then [] else [CHR 10])
         else case assistantStreamPreservedBreakPrefix U core of
                Some p \<Rightarrow> p
              | None \<Rightarrow>
                  (if assistantStreamLinePreservesFollowingBreak U (nz_last_line n) then [CHR 10, CHR 10]
                   else if assistantStreamHasHorizontalWhitespace ws then '' ''
                   else if first \<noteq> 47 \<and> assistantStreamStartsPunctuation first then []
                   else if 2 < newlines
                        \<and> assistantStreamShouldJoin U (nz_last_rune n) (nz_token_first n) (nz_token_length n) core then []
                   else case assistantStreamBlankSeparatedFragmentPrefix U (nz_last_rune n) (nz_token_first n)
                               (nz_token_length n) core of
                          Some p \<Rightarrow> (if newlines = 2 then p else '' '')
                        | None \<Rightarrow> (if 2 < newlines then '' '' else [CHR 10, CHR 10])))"

definition nz_remember :: "normalizer \<Rightarrow> string \<Rightarrow> normalizer" where
  "nz_remember n text =
     (let r = lastNonSpaceRune text
      in if r \<noteq> 0
         then n\<lparr>nz_last_rune := r, nz_token_first := fst (trailingToken text),
                nz_token_length := snd (trailingToken text), nz_last_line := lastTrimmedLine text, nz_emitted := True\<rparr>
         else n)"

definition nz_push :: "unicode \<Rightarrow> normalizer \<Rightarrow> string \<Rightarrow> normalizer \<times> string" where
  "nz_push U n text =
     (if text = [] then (n, [])
      else let (leading, core, trailing) = splitAssistantStreamText text
           in if core = [] then (n\<lparr>nz_pending := nz_pending n @ text\<rparr>, [])
              else (nz_remember (n\<lparr>nz_pending := trailing\<rparr>) core, nz_prefix U n leading core @ core))"

section \<open>Stored messages\<close>

text \<open>The loop over content blocks: the normaliser and the blocks written so far.\<close>

fun text_content_loop :: "unicode \<Rightarrow> normalizer \<Rightarrow> content_block list \<Rightarrow> content_block list \<Rightarrow> content_block list" where
  "text_content_loop U n [] out = out"
| "text_content_loop U n (b # bs) out =
     (if cb_type b \<noteq> ContentText then text_content_loop U new_normalizer bs (out @ [b])
      else let (n', text) = nz_push U n (cb_text b)
           in if text = [] then text_content_loop U n' bs out
              else if out \<noteq> [] \<and> cb_type (last out) = ContentText
              then text_content_loop U n' bs (butlast out @ [(last out)\<lparr>cb_text := cb_text (last out) @ text\<rparr>])
              else text_content_loop U n' bs (out @ [b\<lparr>cb_text := text\<rparr>]))"

definition normalizeAssistantTextContent :: "unicode \<Rightarrow> content_block list \<Rightarrow> content_block list" where
  "normalizeAssistantTextContent U bs = text_content_loop U new_normalizer bs []"

definition normalizeAssistantTextMessages :: "unicode \<Rightarrow> message list \<Rightarrow> message list" where
  "normalizeAssistantTextMessages U ms =
     map (\<lambda>m. let c = CloneMessage m
              in if msg_role c = RoleAssistant \<and> msg_content c \<noteq> []
                 then c\<lparr>msg_content := normalizeAssistantTextContent U (msg_content c)\<rparr> else c) ms"

definition prepareMessagesForModel :: "unicode \<Rightarrow> message list \<Rightarrow> message list" where
  "prepareMessagesForModel U ms = RepairToolUseAdjacency (normalizeAssistantTextMessages U ms)"

section \<open>White space\<close>

definition blank :: "string \<Rightarrow> bool" where
  "blank s \<longleftrightarrow> list_all is_space (runes s)"

lemma space_not_error: "is_space r \<Longrightarrow> r \<noteq> rune_error"
  by (auto simp: is_space_def rune_error_def)

lemma utf8_chunks_append_blank: "blank a \<Longrightarrow> utf8_chunks (a @ b) = utf8_chunks a @ utf8_chunks b"
proof (induction a rule: utf8_chunks_induct)
  case (step a)
  let ?w = "snd (decode_rune a)"
  have sp: "is_space (fst (decode_rune a))" and rest: "blank (drop ?w a)"
    using step(1,3) by (simp_all add: blank_def runes_def utf8_chunks_unfold)
  have w: "1 \<le> ?w" "?w \<le> length a" using decode_rune_width [OF step(1)] by auto
  have "decode_rune (take ?w a @ (drop ?w a @ b)) = decode_rune a"
    by (rule decode_rune_valid [OF step(1) space_not_error [OF sp]])
  then have dec: "decode_rune (a @ b) = decode_rune a" by (metis append.assoc append_take_drop_id)
  show ?case
    using step(1,2) rest w by (simp add: utf8_chunks_unfold [of "a @ b"] utf8_chunks_unfold [OF step(1)] dec)
qed simp

lemma blank_append: "blank a \<Longrightarrow> blank b \<Longrightarrow> blank (a @ b)"
  by (simp add: blank_def runes_def utf8_chunks_append_blank)

lemma blank_Nil [simp]: "blank []"
  by (simp add: blank_def runes_def)

lemma utf8_chunks_drop: "utf8_chunks (concat (map snd (drop k (utf8_chunks s)))) = drop k (utf8_chunks s)"
proof (induction s arbitrary: k rule: utf8_chunks_induct)
  case (step s)
  show ?case
  proof (cases k)
    case 0
    then show ?thesis by simp
  next
    case (Suc j)
    with step show ?thesis by (simp add: utf8_chunks_unfold [of s])
  qed
qed simp

lemma trim_left_drop:
  "\<exists>k. trim_left s = concat (map snd (drop k (utf8_chunks s))) \<and> list_all (\<lambda>p. is_space (fst p)) (take k (utf8_chunks s))"
proof (intro exI [of _ "length (takeWhile (\<lambda>p. is_space (fst p)) (utf8_chunks s))"] conjI)
  show "trim_left s = concat (map snd (drop (length (takeWhile (\<lambda>p. is_space (fst p)) (utf8_chunks s))) (utf8_chunks s)))"
    by (simp add: trim_left_def dropWhile_eq_drop)
  show "list_all (\<lambda>p. is_space (fst p)) (take (length (takeWhile (\<lambda>p. is_space (fst p)) (utf8_chunks s))) (utf8_chunks s))"
    by (metis Ball_set set_takeWhileD takeWhile_eq_take)
qed

lemma trim_right_take:
  "\<exists>k. trim_right s = concat (map snd (take k (utf8_chunks s))) \<and> list_all (\<lambda>p. is_space (fst p)) (drop k (utf8_chunks s))"
proof -
  let ?cs = "utf8_chunks s" and ?P = "\<lambda>p :: nat \<times> string. is_space (fst p)"
  let ?n = "length (takeWhile ?P (rev ?cs))"
  have n: "?n \<le> length ?cs" using length_takeWhile_le [of ?P "rev ?cs"] by simp
  have "rev (dropWhile ?P (rev ?cs)) = take (length ?cs - ?n) ?cs"
    by (simp add: dropWhile_eq_drop rev_drop)
  moreover have "list_all ?P (drop (length ?cs - ?n) ?cs)"
  proof -
    have "rev (drop (length ?cs - ?n) ?cs) = takeWhile ?P (rev ?cs)"
    proof -
      have "rev (drop (length ?cs - ?n) ?cs) = take ?n (rev ?cs)" using n by (simp add: rev_drop)
      then show ?thesis by (metis takeWhile_eq_take)
    qed
    then have "set (drop (length ?cs - ?n) ?cs) = set (takeWhile ?P (rev ?cs))" by (metis set_rev)
    then have "\<And>x. x \<in> set (drop (length ?cs - ?n) ?cs) \<Longrightarrow> ?P x" using set_takeWhileD [of _ ?P "rev ?cs"] by blast
    then show ?thesis unfolding list_all_iff by blast
  qed
  ultimately show ?thesis by (intro exI [of _ "length ?cs - ?n"]) (simp add: trim_right_def)
qed

lemma blank_take: "list_all (\<lambda>p. is_space (fst p)) (take k (utf8_chunks s)) \<Longrightarrow> blank (concat (map snd (take k (utf8_chunks s))))"
  by (simp add: blank_def runes_def utf8_chunks_append [OF refl] list_all_iff)

lemma blank_drop: "list_all (\<lambda>p. is_space (fst p)) (drop k (utf8_chunks s)) \<Longrightarrow> blank (concat (map snd (drop k (utf8_chunks s))))"
  by (simp add: blank_def runes_def utf8_chunks_drop list_all_iff)

lemma chunks_split: "s = concat (map snd (take k (utf8_chunks s))) @ concat (map snd (drop k (utf8_chunks s)))"
  by (metis append_take_drop_id concat_append concat_utf8_chunks map_append)

lemma trim_right_chunks: "utf8_chunks (trim_right s) = rev (dropWhile (\<lambda>p. is_space (fst p)) (rev (utf8_chunks s)))"
proof -
  have "rev (dropWhile (\<lambda>p. is_space (fst p)) (rev (utf8_chunks s)))
      = take (length (utf8_chunks s) - length (takeWhile (\<lambda>p. is_space (fst p)) (rev (utf8_chunks s)))) (utf8_chunks s)"
    by (simp add: dropWhile_eq_drop rev_drop)
  then show ?thesis unfolding trim_right_def by (metis utf8_chunks_append)
qed

text \<open>A text splits into blank, core and blank; the core is the trimmed text.\<close>

lemma split_spec:
  assumes "splitAssistantStreamText text = (leading, core, trailing)"
  shows "text = leading @ core @ trailing \<and> blank leading \<and> blank trailing \<and> core = trim_space text
    \<and> utf8_chunks text = utf8_chunks leading @ utf8_chunks core @ utf8_chunks trailing
    \<and> utf8_chunks core = rev (dropWhile (\<lambda>p. is_space (fst p)) (rev (utf8_chunks core)))"
proof -
  define t where "t = trim_left text"
  obtain k where k: "t = concat (map snd (drop k (utf8_chunks text)))"
    "list_all (\<lambda>p. is_space (fst p)) (take k (utf8_chunks text))" using trim_left_drop unfolding t_def by blast
  obtain j where j: "trim_right t = concat (map snd (take j (utf8_chunks t)))"
    "list_all (\<lambda>p. is_space (fst p)) (drop j (utf8_chunks t))" using trim_right_take by blast
  have tx: "text = concat (map snd (take k (utf8_chunks text))) @ t" using chunks_split [of "text" k] k(1) by simp
  have tt: "t = trim_right t @ concat (map snd (drop j (utf8_chunks t)))" using chunks_split [of t j] j(1) by simp
  have parts: "leading = take (length text - length t) text" "core = trim_right t" "trailing = drop (length core) t"
    using assms by (auto simp: splitAssistantStreamText_def Let_def t_def)
  have lead: "leading = concat (map snd (take k (utf8_chunks text)))"
    unfolding parts(1) by (metis tx append_eq_conv_conj diff_add_inverse2 length_append)
  have trail: "trailing = concat (map snd (drop j (utf8_chunks t)))"
    unfolding parts(2,3) by (metis tt append_eq_conv_conj)
  have "text = leading @ core @ trailing" unfolding lead trail parts(2) using tx tt by simp
  moreover have "blank leading" unfolding lead by (rule blank_take [OF k(2)])
  moreover have "blank trailing" unfolding trail by (rule blank_drop [OF j(2)])
  moreover have "utf8_chunks text = utf8_chunks leading @ utf8_chunks t"
    using utf8_chunks_append_blank [OF blank_take [OF k(2)], of t] tx lead by metis
  moreover have "utf8_chunks t = utf8_chunks core @ utf8_chunks trailing"
    unfolding trail parts(2) j(1) utf8_chunks_drop utf8_chunks_append [OF refl] by simp
  moreover have "utf8_chunks core = rev (dropWhile (\<lambda>p. is_space (fst p)) (rev (utf8_chunks core)))"
  proof -
    have "utf8_chunks core = rev (dropWhile (\<lambda>p. is_space (fst p)) (rev (utf8_chunks t)))"
      unfolding parts(2) by (rule trim_right_chunks)
    then show ?thesis by (metis dropWhile_idem rev_rev_ident)
  qed
  ultimately show ?thesis by (simp add: parts(2) trim_space_def t_def)
qed

lemma blank_breaks [simp]: "blank [CHR 10]" "blank [CHR 10, CHR 10]" "blank '' ''"
  by code_simp+

lemma PreservedBreak_blank: "assistantStreamPreservedBreakPrefix U s = Some p \<Longrightarrow> blank p"
  by (auto simp: assistantStreamPreservedBreakPrefix_def Let_def split: if_splits)

lemma FragmentPrefix_blank: "assistantStreamBlankSeparatedFragmentPrefix U a b c s = Some p \<Longrightarrow> blank p"
  by (auto simp: assistantStreamBlankSeparatedFragmentPrefix_def Let_def split: if_splits)

lemma if_blank: "(c \<Longrightarrow> blank a) \<Longrightarrow> (\<not> c \<Longrightarrow> blank b) \<Longrightarrow> blank (if c then a else b)"
  by simp

lemma option_blank: "(v = None \<Longrightarrow> blank a) \<Longrightarrow> (\<And>p. v = Some p \<Longrightarrow> blank (f p)) \<Longrightarrow> blank (case v of Some p \<Rightarrow> f p | None \<Rightarrow> a)"
  by (cases v) simp_all

lemma nz_prefix_blank: "blank (nz_pending n) \<Longrightarrow> blank leading \<Longrightarrow> blank (nz_prefix U n leading core)"
  unfolding nz_prefix_def Let_def
  by (intro if_blank option_blank blank_append blank_breaks blank_Nil; simp add: PreservedBreak_blank FragmentPrefix_blank)

lemma nz_prefix_first: "\<not> nz_emitted n \<Longrightarrow> nz_prefix U n leading core = []"
  by (simp add: nz_prefix_def Let_def)

lemma nz_remember_pending [simp]: "nz_pending (nz_remember n t) = nz_pending n"
  by (simp add: nz_remember_def Let_def)

lemma nz_push_spec:
  assumes "blank (nz_pending n)" and "nz_push U n text = (n', out)"
  shows "blank (nz_pending n') \<and> (if trim_space text = [] then out = [] \<and> blank text \<and> nz_pending n' = nz_pending n @ text
      else \<exists>p. blank p \<and> out = p @ trim_space text \<and> (\<not> nz_emitted n \<longrightarrow> p = []))"
proof (cases "text = []")
  case True
  then have "n' = n" "out = []" "trim_space text = []"
    using assms(2) by (simp_all add: nz_push_def trim_space_def trim_left_def trim_right_def)
  then show ?thesis using assms(1) True by simp
next
  case False
  obtain leading core trailing where sp: "splitAssistantStreamText text = (leading, core, trailing)" by (rule prod_cases3)
  note s = split_spec [OF sp]
  show ?thesis
  proof (cases "core = []")
    case True
    then have "text = leading @ trailing" "trim_space text = []" using s by (metis append_Nil)+
    then have "blank text" "trim_space text = []" using s blank_append by metis+
    moreover have "n' = n\<lparr>nz_pending := nz_pending n @ text\<rparr>" "out = []"
      using assms(2) False True by (simp_all add: nz_push_def sp)
    ultimately show ?thesis using blank_append [OF assms(1)] by simp
  next
    case core: False
    then have "n' = nz_remember (n\<lparr>nz_pending := trailing\<rparr>) core" "out = nz_prefix U n leading core @ core"
      using assms(2) False by (auto simp: nz_push_def sp)
    moreover have "blank (nz_prefix U n leading core)" using nz_prefix_blank [OF assms(1)] s by blast
    moreover have "trim_space text = core" "blank trailing" using s by metis+
    ultimately show ?thesis using core nz_prefix_first [of n U leading core] by (metis nz_remember_pending normalizer.select_convs(1) normalizer.surjective normalizer.update_convs(1))
  qed
qed

section \<open>What is kept of a text\<close>

text \<open>The runes of a text that are not white space.\<close>

definition ink :: "string \<Rightarrow> nat list" where
  "ink s = filter (\<lambda>r. \<not> is_space r) (runes s)"

text \<open>A stream of deltas pushed one after the other, with the text each push returns.\<close>

fun nz_stream :: "unicode \<Rightarrow> normalizer \<Rightarrow> string list \<Rightarrow> string list" where
  "nz_stream U n [] = []"
| "nz_stream U n (d # ds) = (let (n', out) = nz_push U n d in out # nz_stream U n' ds)"

lemma ink_blank: "blank s \<Longrightarrow> ink s = []"
  by (simp add: ink_def blank_def filter_empty_conv list_all_iff)

lemma ink_append_blank: "blank a \<Longrightarrow> ink (a @ b) = ink b"
  using ink_blank [of a] by (simp add: ink_def runes_def utf8_chunks_append_blank)

lemma runes_Nil_iff [simp]: "runes s = [] \<longleftrightarrow> s = []"
  by (cases "s = []") (simp_all add: runes_def utf8_chunks_unfold)

lemma ink_trim_space: "ink (trim_space s) = ink s"
proof -
  obtain a c b where sp: "splitAssistantStreamText s = (a, c, b)" by (rule prod_cases3)
  note k = split_spec [OF sp]
  then have "utf8_chunks s = utf8_chunks a @ utf8_chunks c @ utf8_chunks b" by blast
  then have "ink s = ink a @ ink c @ ink b" unfolding ink_def runes_def by (simp only: map_append filter_append)
  then show ?thesis using ink_blank k by (metis append_Nil append_Nil2)
qed

lemma trim_space_last: "trim_space s \<noteq> [] \<Longrightarrow> \<not> is_space (last (runes (trim_space s)))"
proof -
  obtain a c b where sp: "splitAssistantStreamText s = (a, c, b)" by (rule prod_cases3)
  let ?P = "\<lambda>p :: nat \<times> string. is_space (fst p)"
  have c: "c = trim_space s" "utf8_chunks c = rev (dropWhile ?P (rev (utf8_chunks c)))"
    using split_spec [OF sp] by blast+
  assume "trim_space s \<noteq> []"
  then have ne: "utf8_chunks c \<noteq> []" using c(1) by (metis concat.simps(1) concat_utf8_chunks list.simps(8))
  then have "\<not> ?P (hd (dropWhile ?P (rev (utf8_chunks c))))" using c(2) by (metis hd_dropWhile rev.simps(1))
  then have "\<not> ?P (last (utf8_chunks c))" using c(2) ne by (metis hd_rev rev_rev_ident)
  then show ?thesis using ne c(1) by (simp add: runes_def last_map)
qed

lemma trim_space_hd: "trim_space s \<noteq> [] \<Longrightarrow> \<not> is_space (hd (runes (trim_space s)))"
proof -
  let ?P = "\<lambda>p :: nat \<times> string. is_space (fst p)"
  let ?t = "trim_left s"
  obtain k where k: "trim_right ?t = concat (map snd (take k (utf8_chunks ?t)))" using trim_right_take by blast
  have t: "utf8_chunks ?t = dropWhile ?P (utf8_chunks s)"
    unfolding trim_left_def dropWhile_eq_drop by (rule utf8_chunks_drop)
  have c: "utf8_chunks (trim_space s) = take k (utf8_chunks ?t)"
    unfolding trim_space_def by (rule utf8_chunks_append [OF k])
  assume "trim_space s \<noteq> []"
  then have ne: "take k (utf8_chunks ?t) \<noteq> []" using c by (metis concat.simps(1) concat_utf8_chunks list.simps(8))
  then have "hd (take k (utf8_chunks ?t)) = hd (utf8_chunks ?t)" by (cases k; cases "utf8_chunks ?t") auto
  moreover have "\<not> ?P (hd (utf8_chunks ?t))" using ne unfolding t by (metis hd_dropWhile take_Nil)
  ultimately show ?thesis using ne c by (simp add: runes_def hd_map)
qed

lemma trim_space_idem [simp]: "trim_space (trim_space s) = trim_space s"
proof (cases "trim_space s = []")
  case True
  moreover have "trim_space [] = []" by (simp add: trim_space_def trim_left_def trim_right_def)
  ultimately show ?thesis by simp
next
  case False
  let ?P = "\<lambda>p :: nat \<times> string. is_space (fst p)"
  let ?c = "utf8_chunks (trim_space s)"
  have ne: "?c \<noteq> []" using False by simp
  have "\<not> ?P (hd ?c)" "\<not> ?P (last ?c)"
    using trim_space_hd [OF False] trim_space_last [OF False] ne by (simp_all add: runes_def hd_map last_map)
  then have "dropWhile ?P ?c = ?c" "dropWhile ?P (rev ?c) = rev ?c" using ne by (simp_all add: dropWhile_none hd_rev)
  then show ?thesis by (simp add: trim_space_def [of "trim_space s"] trim_left_def trim_right_def)
qed

lemma nz_push_ink:
  assumes "blank (nz_pending n)" and "nz_push U n text = (n', out)"
  shows "blank (nz_pending n') \<and> ink out = ink text \<and> (out = [] \<or> \<not> is_space (last (runes out)))"
proof (cases "trim_space text = []")
  case True
  then have "out = []" "blank text" "blank (nz_pending n')" using nz_push_spec [OF assms] by (metis (full_types))+
  then show ?thesis using ink_blank [of "text"] ink_blank [OF blank_Nil] by simp
next
  case False
  then obtain p where p: "blank p" "out = p @ trim_space text" "blank (nz_pending n')"
    using nz_push_spec [OF assms] by auto
  have "runes out = runes p @ runes (trim_space text)"
    using p by (simp add: runes_def utf8_chunks_append_blank)
  moreover have "runes (trim_space text) \<noteq> []" using False by simp
  ultimately have "\<not> is_space (last (runes out))" using trim_space_last [OF False] by (metis last_appendR)
  then show ?thesis using p ink_append_blank ink_trim_space by metis
qed

lemma nz_push_first:
  assumes "blank (nz_pending n)" and "\<not> nz_emitted n" and "nz_push U n text = (n', out)"
  shows "if out = [] then \<not> nz_emitted n' else \<not> is_space (hd (runes out))"
proof (cases "trim_space text = []")
  case True
  have "out = []" using nz_push_spec [OF assms(1,3)] True by (metis)
  moreover have "nz_emitted n' = nz_emitted n"
  proof (cases "text = []")
    case False
    obtain a c b where sp: "splitAssistantStreamText text = (a, c, b)" by (rule prod_cases3)
    have "c = []" using split_spec [OF sp] True by metis
    then show ?thesis using assms(3) False by (auto simp: nz_push_def sp)
  qed (use assms(3) in \<open>simp add: nz_push_def\<close>)
  ultimately show ?thesis using assms(2) by simp
next
  case False
  then have "out = trim_space text" using nz_push_spec [OF assms(1,3)] assms(2) by auto
  then show ?thesis using trim_space_hd [OF False] False by simp
qed

lemma nz_stream_ink:
  "blank (nz_pending n) \<Longrightarrow> map ink (nz_stream U n ds) = map ink ds
     \<and> list_all (\<lambda>out. out = [] \<or> \<not> is_space (last (runes out))) (nz_stream U n ds)"
proof (induction ds arbitrary: n)
  case (Cons d ds)
  obtain n' out where p: "nz_push U n d = (n', out)" by (rule prod.exhaust)
  show ?case using nz_push_ink [OF Cons.prems p] Cons.IH [of n'] by (simp add: p)
qed simp

lemma nz_stream_first:
  "blank (nz_pending n) \<Longrightarrow> \<not> nz_emitted n \<Longrightarrow> filter (\<lambda>out. out \<noteq> []) (nz_stream U n ds) = w # ws \<Longrightarrow> \<not> is_space (hd (runes w))"
proof (induction ds arbitrary: n)
  case (Cons d ds)
  obtain n' out where p: "nz_push U n d = (n', out)" by (rule prod.exhaust)
  show ?case
    using nz_push_first [OF Cons.prems(1,2) p] nz_push_ink [OF Cons.prems(1) p] Cons.IH [of n'] Cons.prems(3)
    by (cases "out = []") (simp_all add: p)
qed simp

section \<open>Tool uses\<close>

text \<open>Blocks other than text pass the normaliser unchanged and in order.\<close>

lemma text_content_loop_nontext:
  "filter (\<lambda>b. cb_type b \<noteq> ContentText) (text_content_loop U n bs out)
   = filter (\<lambda>b. cb_type b \<noteq> ContentText) out @ filter (\<lambda>b. cb_type b \<noteq> ContentText) bs"
proof (induction U n bs out rule: text_content_loop.induct)
  case (2 U n b bs out)
  have upd: "out \<noteq> [] \<Longrightarrow> cb_type (last out) = ContentText \<Longrightarrow>
      filter (\<lambda>b. cb_type b \<noteq> ContentText) (butlast out) = filter (\<lambda>b. cb_type b \<noteq> ContentText) out"
    by (cases out rule: rev_cases) simp_all
  obtain n' t where p: "nz_push U n (cb_text b) = (n', t)" by (rule prod.exhaust)
  show ?case using "2.IH"(1) "2.IH"(2-4) [OF _ p [symmetric] refl] upd by (simp add: p)
qed simp

lemma uses_of_filter:
  "concat (map (\<lambda>b. case cb_tool_use b of
       Some u \<Rightarrow> if cb_type b = ContentToolUse then [NormalizeToolUse u] else [] | None \<Rightarrow> []) bs)
   = concat (map (\<lambda>b. case cb_tool_use b of
       Some u \<Rightarrow> if cb_type b = ContentToolUse then [NormalizeToolUse u] else [] | None \<Rightarrow> [])
       (filter (\<lambda>b. cb_type b \<noteq> ContentText) bs))"
  by (induction bs) (auto split: option.split)

lemma assistantToolUses_normalized:
  "assistantToolUses (m\<lparr>msg_content := normalizeAssistantTextContent U (msg_content m)\<rparr>) = assistantToolUses m"
  unfolding assistantToolUses_def normalizeAssistantTextContent_def
  using uses_of_filter [of "msg_content m"]
    uses_of_filter [of "text_content_loop U new_normalizer (msg_content m) []"]
  by (simp add: text_content_loop_nontext)

lemma normalized_uses: "map assistantToolUses (normalizeAssistantTextMessages U ms) = map assistantToolUses ms"
  using assistantToolUses_normalized [where U = U]
  by (induction ms) (simp_all add: normalizeAssistantTextMessages_def Let_def del: CloneMessage_simps)

lemma distinct_uses_normalized: "distinct_uses (normalizeAssistantTextMessages U ms) = distinct_uses ms"
proof -
  have "distinct_uses ms = list_all (\<lambda>us. distinct (filter (\<lambda>i. i \<noteq> []) (map use_id us))) (map assistantToolUses ms)" for ms
    by (simp add: distinct_uses_def use_ids_def list_all_iff)
  then show ?thesis by (simp only: normalized_uses)
qed

lemma concat_uses_no_tool:
  "concat (map assistantToolUses ms) = concat (map assistantToolUses (filter (\<lambda>m. \<not> is_tool m) ms))"
  by (induction ms) simp_all

lemma concat_uses_Clone: "concat (map assistantToolUses (CloneMessages ms)) = concat (map assistantToolUses ms)"
  by (induction ms) simp_all

lemma prepare_uses:
  "concat (map assistantToolUses (prepareMessagesForModel U ms)) = concat (map assistantToolUses ms)"
  unfolding prepareMessagesForModel_def
  by (metis Repair_filter concat_uses_Clone concat_uses_no_tool normalized_uses)

lemma prepare_adjacent: "distinct_uses ms \<Longrightarrow> tool_adjacent (prepareMessagesForModel U ms)"
  unfolding prepareMessagesForModel_def by (rule Repair_adjacent_aux) (simp add: distinct_uses_normalized)

section \<open>Properties\<close>

text \<open>
  Normalising a stream of deltas only moves white space: every delta comes out with exactly
  its runes that are not white space, in order; no output ends in white space, and the first
  output that is not empty does not start with it.
\<close>

theorem stream_keeps_text:
  "map ink (nz_stream U new_normalizer ds) = map ink ds
   \<and> list_all (\<lambda>out. \<not> is_space (last (runes out))) (filter (\<lambda>out. out \<noteq> []) (nz_stream U new_normalizer ds))
   \<and> (case filter (\<lambda>out. out \<noteq> []) (nz_stream U new_normalizer ds) of
        [] \<Rightarrow> True | out # _ \<Rightarrow> \<not> is_space (hd (runes out)))"
proof -
  have n: "blank (nz_pending new_normalizer)" "\<not> nz_emitted new_normalizer" by (simp_all add: new_normalizer_def)
  show ?thesis using nz_stream_ink [OF n(1), of U ds] nz_stream_first [OF n, of U ds]
    by (auto simp: list_all_iff split: list.split)
qed

text \<open>
  What is sent to the model is adjacent: for a transcript whose assistant messages repeat no
  tool-use id, every tool use in the prepared messages is followed by exactly its results.
\<close>

theorem prepared_messages_adjacent:
  assumes "distinct_uses ms"
  shows "tool_adjacent (prepareMessagesForModel U ms)
    \<and> concat (map assistantToolUses (prepareMessagesForModel U ms)) = concat (map assistantToolUses ms)"
  using prepare_adjacent [OF assms] prepare_uses by blast

theorem prepared_messages_adjacent_witness:
  "distinct_uses [content_message RoleAssistant
      [text_block ''hi'', use_block \<lparr>use_id = ''b'', use_name = ''ls'', use_input = empty_object\<rparr>]]
   \<and> tool_adjacent (prepareMessagesForModel ascii_unicode [content_message RoleAssistant
      [text_block ''hi'', use_block \<lparr>use_id = ''b'', use_name = ''ls'', use_input = empty_object\<rparr>]])"
proof -
  have h: "distinct_uses [content_message RoleAssistant
      [text_block ''hi'', use_block \<lparr>use_id = ''b'', use_name = ''ls'', use_input = empty_object\<rparr>]]"
    by (simp add: distinct_uses_def use_ids_def assistantToolUses_def content_message_def use_block_def text_block_def)
  show ?thesis using h prepared_messages_adjacent [OF h, of ascii_unicode] by simp
qed

end
