(* ===== verification/Output_Contract.thy ===== *)
theory Output_Contract
  imports Tenant
begin

text \<open>
  \<open>output/output.go\<close>: the structured-output contract of a run. Compiling a JSON Schema, decoding
  JSON and validating a decoded value are third-party code, given as arguments; \<open>ctxerr\<close> is
  \<open>ctx.Err()\<close> at the call.
\<close>

record contract =
  ct_schema :: metadata
  ct_max_retries :: int

definition DefaultMaxRetries :: int where
  "DefaultMaxRetries = 1"

definition Contract_Enabled :: "contract \<Rightarrow> bool" where
  "Contract_Enabled c \<longleftrightarrow> ct_schema c \<noteq> []"

definition Contract_RetryLimit :: "contract \<Rightarrow> int" where
  "Contract_RetryLimit c =
     (if \<not> Contract_Enabled c then 0
      else if ct_max_retries c < 0 then 0
      else if ct_max_retries c = 0 then DefaultMaxRetries
      else ct_max_retries c)"

record 'j output_validator =
  ov_contract :: contract
  ov_schema :: "'j option"

definition Contract_Compile :: "(metadata \<Rightarrow> err + 'j) \<Rightarrow> err option \<Rightarrow> contract \<Rightarrow> err + 'j output_validator" where
  "Contract_Compile compile ctxerr c =
     (case ctxerr of
        Some e \<Rightarrow> Inl e
      | None \<Rightarrow>
          (if \<not> Contract_Enabled c then Inr \<lparr>ov_contract = c, ov_schema = None\<rparr>
           else case compile (ct_schema c) of
                  Inl e \<Rightarrow> Inl e
                | Inr s \<Rightarrow> Inr \<lparr>ov_contract = c, ov_schema = Some s\<rparr>))"

text \<open>
  \<open>decode\<close> is \<open>jsonschema.UnmarshalJSON\<close>, \<open>check\<close> the schema's \<open>Validate\<close>. A validator of an enabled
  contract always comes from \<open>Compile\<close> and has a schema.
\<close>

definition Validator_Validate ::
  "(string \<Rightarrow> err option) \<Rightarrow> ('j option \<Rightarrow> string \<Rightarrow> err option) \<Rightarrow> err option \<Rightarrow> 'j output_validator \<Rightarrow> string \<Rightarrow> err option" where
  "Validator_Validate decode check ctxerr v text =
     (case ctxerr of
        Some e \<Rightarrow> Some e
      | None \<Rightarrow>
          (if \<not> Contract_Enabled (ov_contract v) then None
           else case decode text of
                  Some e \<Rightarrow> Some (EWrap ''output is not valid JSON: '' e)
                | None \<Rightarrow> map_option (EWrap ''output does not match schema: '') (check (ov_schema v) text)))"

lemma Contract_RetryLimit_nonneg: "0 \<le> Contract_RetryLimit c"
  by (simp add: Contract_RetryLimit_def DefaultMaxRetries_def)

lemma Contract_Compile_contract: "Contract_Compile compile ctxerr c = Inr v \<Longrightarrow> ov_contract v = c"
  by (auto simp: Contract_Compile_def split: option.splits if_splits sum.splits)

end
