(* ===== verification/Agent_Run.thy ===== *)
theory Agent_Run
  imports Run_Monad Assistant_Text Output_Contract
begin

text \<open>
  The agent loop of \<open>agent.go\<close>: \<open>Query\<close>, \<open>runLoop\<close> with the phases of one turn, the stream
  collector and the tool phase. Host interfaces (model client, hooks, policies, selector, governor,
  store, prompt pipeline, distiller) are functions on the world \<open>'w\<close>. A model stream is the finite
  list of the events it delivers with its final outcome. The prompt pipeline (memory and skill
  loaders, prompt builder) and tracing are not modelled; the registry is the one after skill-tool
  injection. Early tool executions run when they are started and their results are buffered.
\<close>

section \<open>Configuration\<close>

datatype stream_event =
    StreamText string
  | StreamToolUseStart tool_use
  | StreamToolUseDelta tool_use string
  | StreamToolUse tool_use
  | StreamThinking string
  | StreamProviderArtifact "provider_artifact option"
  | StreamUsage "usage option"
  | StreamOther

text \<open>\<open>sm_end\<close> is the error \<open>Recv\<close> returns after the events, \<open>None\<close> for \<open>ErrEndOfStream\<close>.\<close>

record model_stream =
  sm_events :: "stream_event list"
  sm_end :: "err option"
  sm_close :: "err option"

record skill_discovery =
  sd_skills :: "string list"
  sd_selected :: int
  sd_omitted :: int
  sd_bytes :: int

record built_prompt =
  bu_system :: string
  bu_append :: string
  bu_plan :: plan
  bu_discovery :: "skill_discovery option"

text \<open>
  \<open>op_prompted\<close> tells whether a prompt builder, profile, identity, memory or skill option is set;
  \<open>op_load\<close> stands for loading memories and skills, \<open>op_build\<close> for the builder's \<open>Build\<close>, which
  returns the system prompt and the skill discovery.
\<close>

record ('w, 'j) options =
  op_model :: "('w \<Rightarrow> model_request \<Rightarrow> 'w \<times> (err + model_stream)) option"
  op_tools :: "('w, 'j) registry option"
  op_permissions :: "'w checker option"
  op_sessions :: "'w store_iface option"
  op_hooks :: "'w runner"
  op_context :: "'w policy option"
  op_context_retry :: "'w policy option"
  op_selector :: "('w \<Rightarrow> ('w, 'j) registry \<Rightarrow> message list \<Rightarrow> 'w \<times> (err + tool_spec list)) option"
  op_budget :: "'w governor option"
  op_result_store :: "('w \<Rightarrow> put_request \<Rightarrow> 'w \<times> (err + handle)) option"
  op_output :: contract
  op_prompted :: bool
  op_load :: "'w \<Rightarrow> message list \<Rightarrow> 'w \<times> err option"
  op_build :: "'w \<Rightarrow> message list \<Rightarrow> tool_spec list \<Rightarrow> plan \<Rightarrow> 'w \<times> (err + string \<times> skill_discovery option)"
  op_planner :: "'w plan_policy option"
  op_tenant :: tenant_scope
  op_validator :: "'w tenant_validator option"
  op_distiller :: "'w distiller option"
  op_handler :: "'w candidate_handler option"
  op_system :: string
  op_append_system :: string
  op_session :: string
  op_parent :: string
  op_max_turns :: int
  op_max_final_denials :: int
  op_max_concurrency :: int

definition defaultMaxTurns :: int where
  "defaultMaxTurns = 50"

definition defaultMaxFinalDenials :: int where
  "defaultMaxFinalDenials = 3"

text \<open>The default store (\<open>session.NewMemoryStore\<close>) lives in the world and is an argument.\<close>

definition withDefaults :: "'w store_iface \<Rightarrow> ('w, 'j) options \<Rightarrow> ('w, 'j) options" where
  "withDefaults dflt o1 =
     o1\<lparr>op_max_turns := (if op_max_turns o1 \<le> 0 then defaultMaxTurns else op_max_turns o1),
        op_max_final_denials := (if op_max_final_denials o1 = 0 then defaultMaxFinalDenials else op_max_final_denials o1),
        op_max_concurrency := (if op_max_concurrency o1 \<le> 0 then DefaultMaxConcurrency else op_max_concurrency o1),
        op_tools := (case op_tools o1 of None \<Rightarrow> Some empty_registry | Some r \<Rightarrow> Some r),
        op_permissions := (case op_permissions o1 of None \<Rightarrow> Some AllowAll_Check | Some p \<Rightarrow> Some p),
        op_sessions := (case op_sessions o1 of None \<Rightarrow> Some dflt | Some s \<Rightarrow> Some s)\<rparr>"

text \<open>
  What the Go runtime and third-party code contribute: the clock, id generation, delivering an
  event (\<open>Some e\<close> when the context was done instead, with its error), \<open>ctx.Err()\<close>, the schedule and
  result channel of the executor, whether an early result arrives within the grace period, JSON
  decoding and JSON Schema.
\<close>

record ('w, 'j) env =
  en_unicode :: unicode
  en_now :: "'w \<Rightarrow> 'w \<times> gotime"
  en_new_id :: "'w \<Rightarrow> 'w \<times> new_id"
  en_send :: "'w \<Rightarrow> event \<Rightarrow> 'w \<times> err option"
  en_ctxerr :: "'w \<Rightarrow> err option"
  en_sched :: "'w \<Rightarrow> nat \<Rightarrow> schedule"
  en_deliver :: "'w \<Rightarrow> tool_result \<Rightarrow> 'w \<times> bool"
  en_early_ready :: "'w \<Rightarrow> 'w \<times> bool"
  en_unmarshal :: "string \<Rightarrow> err option"
  en_validate :: "'j \<Rightarrow> string \<Rightarrow> err option"
  en_compile :: "metadata \<Rightarrow> err + 'j"

text \<open>The parameters of one run, after \<open>withDefaults\<close>.\<close>

record ('w, 'j) cfg =
  cf_env :: "('w, 'j) env"
  cf_opts :: "('w, 'j) options"
  cf_tools :: "('w, 'j) registry"
  cf_store :: "'w store_iface"
  cf_client :: "'w \<Rightarrow> model_request \<Rightarrow> 'w \<times> (err + model_stream)"
  cf_session :: string
  cf_output :: "'j output_validator"

text \<open>The executor \<open>runLoop\<close> builds.\<close>

definition run_executor :: "('w, 'j) cfg \<Rightarrow> ('w, 'j) executor" where
  "run_executor c =
     \<lparr>ex_registry = cf_tools c, ex_permissions = op_permissions (cf_opts c), ex_hooks = op_hooks (cf_opts c),
      ex_validator = op_validator (cf_opts c), ex_max_concurrency = op_max_concurrency (cf_opts c),
      ex_result_store = op_result_store (cf_opts c),
      ex_runtime = \<lparr>rt_session = cf_session c, rt_parent = op_parent (cf_opts c), rt_tenant = op_tenant (cf_opts c)\<rparr>,
      ex_unicode = en_unicode (cf_env c), ex_unmarshal = en_unmarshal (cf_env c), ex_validate = en_validate (cf_env c)\<rparr>"

section \<open>Errors of the session package\<close>

definition session_err :: "unicode \<Rightarrow> session_error \<Rightarrow> err" where
  "session_err U e =
     EText (case e of
         InvalidSessionID i \<Rightarrow> ''invalid session id: '' @ quote U i
       | InvalidParentID i \<Rightarrow> ''invalid parent session id: '' @ quote U i
       | UnknownSession i \<Rightarrow> ''unknown session: '' @ i
       | MessageNotFound i \<Rightarrow> ''message not found: '' @ i
       | IDGeneration m \<Rightarrow> ''generate session id: '' @ m
       | InvalidCompactionID i \<Rightarrow> ''invalid compaction id: '' @ quote U i
       | NegativeRawCount \<Rightarrow> ''compaction raw message count must be non-negative''
       | RawCountExceeds n k \<Rightarrow> ''compaction raw message count '' @ show_int n @ '' exceeds transcript length '' @ show_int k
       | StoreRequired \<Rightarrow> ''session store is required''
       | ListingUnsupported \<Rightarrow> ''session store does not support listing''
       | ForkingUnsupported \<Rightarrow> ''session store does not support forking'')"

section \<open>Emitting, finishing, appending\<close>

text \<open>\<open>emit\<close>: \<open>None\<close> is \<open>true\<close>; otherwise the context's error.\<close>

definition emit :: "('w, 'j) cfg \<Rightarrow> (gotime \<Rightarrow> event) \<Rightarrow> ('w, err option) run" where
  "emit c mk =
     bindr (host (en_now (cf_env c))) (\<lambda>now.
       let e0 = mk now;
           e = (if ev_parent e0 = [] then e0\<lparr>ev_parent := op_parent (cf_opts c)\<rparr> else e0)
       in bindr (host (\<lambda>w. en_send (cf_env c) w e)) (\<lambda>r.
            case r of None \<Rightarrow> thenr (act (AEmit e)) (ret None) | Some x \<Rightarrow> ret (Some x)))"

definition draft_event :: "('w, 'j) cfg \<Rightarrow> int \<Rightarrow> event_kind \<Rightarrow> payload \<Rightarrow> gotime \<Rightarrow> event" where
  "draft_event c turn kind p now = (newEvent now kind (cf_session c) turn)\<lparr>ev_payload := p\<rparr>"

text \<open>The pattern \<open>if !emit(event) { shouldStop = true; return }\<close>.\<close>

definition emit_or_stop :: "('w, 'j) cfg \<Rightarrow> (gotime \<Rightarrow> event) \<Rightarrow> ('w, unit) run" where
  "emit_or_stop c mk = bindr (emit c mk) (\<lambda>r. case r of None \<Rightarrow> ret () | Some _ \<Rightarrow> stop_run)"

definition emitError :: "('w, 'j) cfg \<Rightarrow> int \<Rightarrow> err \<Rightarrow> ('w, unit) run" where
  "emitError c turn e = bindr (emit c (draft_event c turn EventError (PErr e))) (\<lambda>_. ret ())"

definition finish :: "('w, 'j) cfg \<Rightarrow> int \<Rightarrow> stop_reason \<Rightarrow> err option \<Rightarrow> ('w, err option) run" where
  "finish c turn reason e =
     (let si = \<lparr>sti_session = cf_session c, sti_tenant = op_tenant (cf_opts c), sti_turn = turn, sti_reason = reason,
                sti_err = e\<rparr>;
          ei = \<lparr>ei_session = cf_session c, ei_tenant = op_tenant (cf_opts c), ei_reason = reason, ei_err = e\<rparr>
      in thenr (act (AStop si)) (bindr (host (\<lambda>w. hook_Stop (op_hooks (cf_opts c)) w si)) (\<lambda>errs1.
           let f1 = (if errs1 \<noteq> [] \<and> e = None then Some (EWrap ''stop hook failed: '' (EJoin errs1)) else e)
           in thenr (act (AEnded ei)) (bindr (host (\<lambda>w. hook_SessionEnded (op_hooks (cf_opts c)) w ei)) (\<lambda>errs2.
                ret (if errs2 \<noteq> [] \<and> f1 = None then Some (EWrap ''session ended hook failed: '' (EJoin errs2)) else f1))))))"

text \<open>The exit \<open>emitError; finish; shouldStop = true; return\<close> of the turn function.\<close>

definition fail_run :: "('w, 'j) cfg \<Rightarrow> int \<Rightarrow> stop_reason \<Rightarrow> err \<Rightarrow> ('w, 'a) run" where
  "fail_run c turn reason e = thenr (emitError c turn e) (thenr (finish c turn reason (Some e)) stop_run)"

definition append_message :: "('w, 'j) cfg \<Rightarrow> message \<Rightarrow> ('w, err option) run" where
  "append_message c m =
     bindr (host (en_new_id (cf_env c))) (\<lambda>nid.
       bindr (host (\<lambda>w. case sf_Append (cf_store c) nid (cf_session c) m w of
                Inl x \<Rightarrow> (w, Some (session_err (en_unicode (cf_env c)) x)) | Inr w' \<Rightarrow> (w', None))) (\<lambda>r.
         case r of None \<Rightarrow> thenr (act (AAppend m)) (ret None) | Some x \<Rightarrow> ret (Some x)))"

definition check_budget :: "('w, 'j) cfg \<Rightarrow> (gotime \<Rightarrow> budget_tracker \<Rightarrow> snapshot) \<Rightarrow> ('w, err option) run" where
  "check_budget c mk =
     bindr (host (en_now (cf_env c))) (\<lambda>now. bindr (local rs_tracker) (\<lambda>t.
       host (\<lambda>w. checkBudget (op_budget (cf_opts c)) w (mk now t))))"

section \<open>Context and prompt\<close>

definition prepare :: "('w, 'j) cfg \<Rightarrow> message list \<Rightarrow> message list" where
  "prepare c = prepareMessagesForModel (en_unicode (cf_env c))"

definition applyContextPolicy :: "'w policy option \<Rightarrow> 'w \<Rightarrow> message list \<Rightarrow> 'w \<times> (err + policy_result)" where
  "applyContextPolicy pol w ms =
     (case pol of
        None \<Rightarrow> (w, Inr \<lparr>pr_messages = CloneMessages ms, pr_compaction = None\<rparr>)
      | Some p \<Rightarrow>
          (case pol_rich p of
             Some f \<Rightarrow> f w ms
           | None \<Rightarrow>
               (case pol_apply p w ms of
                  (w1, Inl e) \<Rightarrow> (w1, Inl e)
                | (w1, Inr out) \<Rightarrow> (w1, Inr \<lparr>pr_messages = out, pr_compaction = None\<rparr>))))"

definition emitContextApplied :: "('w, 'j) cfg \<Rightarrow> int \<Rightarrow> int \<Rightarrow> int \<Rightarrow> ('w, unit) run" where
  "emitContextApplied c turn original sent =
     bindr (host (\<lambda>w. hook_ContextApplied (op_hooks (cf_opts c)) w
              \<lparr>ci_session = cf_session c, ci_tenant = op_tenant (cf_opts c), ci_turn = turn, ci_original = original,
               ci_sent = sent\<rparr>)) (\<lambda>errs.
       if errs \<noteq> [] then fail_run c turn StopReasonError (EWrap ''context applied hook failed: '' (EJoin errs))
       else emit_or_stop c (draft_event c turn EventContextApplied (PContext original sent)))"

definition saveContextCompaction :: "('w, 'j) cfg \<Rightarrow> int \<Rightarrow> message list \<Rightarrow> compaction_record \<Rightarrow> ('w, unit) run" where
  "saveContextCompaction c rawCount ms rec =
     bindr (host (en_new_id (cf_env c))) (\<lambda>nid. bindr (host (en_now (cf_env c))) (\<lambda>now.
       host (\<lambda>w. case session_SaveCompaction (Some (cf_store c)) nid now (cf_session c)
                    \<lparr>cp_id = [], cp_created = 0, cp_raw_count = rawCount, cp_messages = ms, cp_policy = cr_policy rec,
                     cp_reason = cr_reason rec, cp_summary_hash = cr_hash rec, cp_summary_preview = cr_preview rec\<rparr> w of
                    Inl _ \<Rightarrow> (w, ()) | Inr w' \<Rightarrow> (w', ()))))"

text \<open>The event and the checkpoint of a compaction; a failure to save it is only traced.\<close>

definition record_compaction ::
  "('w, 'j) cfg \<Rightarrow> int \<Rightarrow> int \<Rightarrow> message list \<Rightarrow> compaction_record option \<Rightarrow> ('w, unit) run" where
  "record_compaction c turn rawCount ms rec =
     (case rec of
        None \<Rightarrow> ret ()
      | Some r \<Rightarrow> thenr (emit_or_stop c (draft_event c turn EventContextCompacted (PCompaction r)))
                   (saveContextCompaction c rawCount ms r))"

text \<open>The start of a turn: the budget check, the session's view, and the context policy.\<close>

definition load_view :: "('w, 'j) cfg \<Rightarrow> int \<Rightarrow> ('w, message_view) run" where
  "load_view c turn =
     bindr (check_budget c tracker_snapshot) (\<lambda>b.
       case b of
         Some e \<Rightarrow> fail_run c turn StopReasonBudget e
       | None \<Rightarrow>
           bindr (local (\<lambda>s. MessageViewForSession (Some (cf_store c)) (cf_session c) (rs_world s))) (\<lambda>v.
             case v of
               Inl x \<Rightarrow> fail_run c turn StopReasonError
                          (EWrap ''load session messages: '' (session_err (en_unicode (cf_env c)) x))
             | Inr view \<Rightarrow> ret view))"

definition apply_context :: "('w, 'j) cfg \<Rightarrow> int \<Rightarrow> message_view \<Rightarrow> ('w, message list) run" where
  "apply_context c turn view =
     (let messages = prepare c (mv_messages view)
      in case op_context (cf_opts c) of
           None \<Rightarrow> ret messages
         | Some pol \<Rightarrow>
             bindr (host (\<lambda>w. applyContextPolicy (Some pol) w messages)) (\<lambda>r.
               case r of
                 Inl e \<Rightarrow> fail_run c turn StopReasonError (EWrap ''apply context policy: '' e)
               | Inr res \<Rightarrow>
                   (let sent = prepare c (pr_messages res)
                    in thenr (if sent \<noteq> messages
                              then emitContextApplied c turn (int (length messages)) (int (length sent)) else ret ())
                         (thenr (record_compaction c turn (mv_raw_count view) sent (pr_compaction res)) (ret sent)))))"

definition selectedToolSpecs :: "('w, 'j) cfg \<Rightarrow> message list \<Rightarrow> ('w, err + tool_spec list) run" where
  "selectedToolSpecs c messages =
     (case op_selector (cf_opts c) of
        None \<Rightarrow> ret (Inr (Registry_Specs (cf_tools c)))
      | Some sel \<Rightarrow> host (\<lambda>w. sel w (cf_tools c) messages))"

text \<open>The runes that fit into \<open>mx\<close> bytes, taken until the first that does not.\<close>

fun limit_runes :: "nat \<Rightarrow> nat \<Rightarrow> string list \<Rightarrow> string list" where
  "limit_runes mx used [] = []"
| "limit_runes mx used (r # rs) =
     (if mx < used + length r then [] else r # limit_runes mx (used + length r) rs)"

definition limitStringBytes :: "string \<Rightarrow> nat \<Rightarrow> string" where
  "limitStringBytes value mx =
     (if mx = 0 \<or> length value \<le> mx then value
      else concat (limit_runes mx 0 (map rune_bytes (utf8_chunks value))))"

text \<open>The texts of the last three user messages that are not blank, oldest first.\<close>

definition memoryQuery :: "message list \<Rightarrow> string" where
  "memoryQuery ms =
     (let texts = map (\<lambda>m. trim_space (PlainText m)) (filter (\<lambda>m. msg_role m = RoleUser) (rev ms));
          selected = take 3 (filter (\<lambda>t. t \<noteq> []) texts)
      in limitStringBytes (join '' '' (rev selected)) 4096)"

definition loadPlan :: "('w, 'j) cfg \<Rightarrow> message list \<Rightarrow> ('w, err + plan) run" where
  "loadPlan c messages =
     (case op_planner (cf_opts c) of
        None \<Rightarrow> ret (Inr zero_plan)
      | Some p \<Rightarrow> host (\<lambda>w. p w \<lparr>prq_session = cf_session c, prq_parent = op_parent (cf_opts c), prq_messages = messages,
                            prq_query = memoryQuery messages\<rparr>))"

definition buildPrompt :: "('w, 'j) cfg \<Rightarrow> message list \<Rightarrow> tool_spec list \<Rightarrow> ('w, err + built_prompt) run" where
  "buildPrompt c messages tools =
     (if \<not> op_prompted (cf_opts c) \<and> op_planner (cf_opts c) = None \<and> \<not> Contract_Enabled (op_output (cf_opts c))
      then ret (Inr \<lparr>bu_system = op_system (cf_opts c), bu_append = op_append_system (cf_opts c), bu_plan = zero_plan,
                     bu_discovery = None\<rparr>)
      else bindr (host (\<lambda>w. op_load (cf_opts c) w messages)) (\<lambda>l.
             case l of
               Some e \<Rightarrow> ret (Inl e)
             | None \<Rightarrow>
                 bindr (loadPlan c messages) (\<lambda>p.
                   case p of
                     Inl e \<Rightarrow> ret (Inl e)
                   | Inr plan \<Rightarrow>
                       bindr (host (\<lambda>w. op_build (cf_opts c) w messages tools plan)) (\<lambda>b.
                         ret (case b of
                                Inl e \<Rightarrow> Inl e
                              | Inr (sys, disc) \<Rightarrow> Inr \<lparr>bu_system = sys, bu_append = [], bu_plan = plan,
                                                       bu_discovery = disc\<rparr>)))))"

definition retryContextWindow ::
  "('w, 'j) cfg \<Rightarrow> message list
     \<Rightarrow> ('w, err + message list \<times> tool_spec list \<times> built_prompt \<times> compaction_record option) run" where
  "retryContextWindow c messages =
     bindr (host (\<lambda>w. applyContextPolicy (op_context_retry (cf_opts c)) w messages)) (\<lambda>r.
       case r of
         Inl e \<Rightarrow> ret (Inl e)
       | Inr res \<Rightarrow>
           bindr (selectedToolSpecs c (pr_messages res)) (\<lambda>t.
             case t of
               Inl e \<Rightarrow> ret (Inl e)
             | Inr tools \<Rightarrow>
                 bindr (buildPrompt c (pr_messages res) tools) (\<lambda>p.
                   ret (case p of
                          Inl e \<Rightarrow> Inl e
                        | Inr prompt \<Rightarrow> Inr (pr_messages res, tools, prompt, pr_compaction res)))))"

section \<open>The model request\<close>

definition emitSkillDiscovery :: "('w, 'j) cfg \<Rightarrow> int \<Rightarrow> skill_discovery option \<Rightarrow> ('w, unit) run" where
  "emitSkillDiscovery c turn d =
     (case d of
        None \<Rightarrow> ret ()
      | Some x \<Rightarrow> emit_or_stop c (draft_event c turn EventSkillDiscovery (PSkill (zero_skill_event\<lparr>sk_action := ''discovery'',
           sk_selected_skills := sd_skills x, sk_selected := sd_selected x, sk_omitted := sd_omitted x,
           sk_prompt_bytes := sd_bytes x, sk_metadata_only := True\<rparr>))))"

definition validateTenantBoundary :: "('w, 'j) cfg \<Rightarrow> boundary \<Rightarrow> ('w, err option) run" where
  "validateTenantBoundary c b =
     host (\<lambda>w. tenant_check (op_validator (cf_opts c)) w
       \<lparr>tq_boundary = b, tq_scope = op_tenant (cf_opts c), tq_session = cf_session c, tq_parent = op_parent (cf_opts c),
        tq_use_id = [], tq_tool = [], tq_read_only = False, tq_destructive = False, tq_concurrency_safe = False\<rparr>)"

definition emitTenantDeniedError :: "('w, 'j) cfg \<Rightarrow> int \<Rightarrow> err \<Rightarrow> ('w, unit) run" where
  "emitTenantDeniedError c turn e =
     (case tenantDenied e of
        None \<Rightarrow> ret ()
      | Some (req0, i) \<Rightarrow>
          (let req = tenant_denied_request (op_tenant (cf_opts c)) (cf_session c) (op_parent (cf_opts c)) req0
           in emit_or_stop c (\<lambda>now. tenant_denied_event now (tq_session req) turn req (denial_msg (req, i)))))"

definition the_request ::
  "('w, 'j) cfg \<Rightarrow> message list \<Rightarrow> tool_spec list \<Rightarrow> built_prompt \<Rightarrow> model_request" where
  "the_request c messages tools prompt =
     \<lparr>mr_session = cf_session c, mr_tenant = op_tenant (cf_opts c), mr_messages = messages, mr_tools = tools,
      mr_system = bu_system prompt, mr_append_system = bu_append prompt, mr_parent = op_parent (cf_opts c)\<rparr>"

definition call_model :: "('w, 'j) cfg \<Rightarrow> model_request \<Rightarrow> ('w, err + model_stream) run" where
  "call_model c req = thenr (act (ARequest req)) (host (\<lambda>w. cf_client c w req))"

text \<open>A checked model call is counted before it is made.\<close>

definition admit_model_call :: "('w, 'j) cfg \<Rightarrow> int \<Rightarrow> ('w, unit) run" where
  "admit_model_call c turn =
     bindr (check_budget c (\<lambda>now t. withModelCalls now t 1)) (\<lambda>b.
       case b of
         Some e \<Rightarrow> fail_run c turn StopReasonBudget e
       | None \<Rightarrow> set_tracker (\<lambda>t. t\<lparr>bt_model_calls := bt_model_calls t + 1\<rparr>))"

text \<open>The retry after a context-window error: a smaller context, one more call.\<close>

definition retry_stream ::
  "('w, 'j) cfg \<Rightarrow> int \<Rightarrow> int \<Rightarrow> message list \<Rightarrow> err \<Rightarrow> ('w, model_stream \<times> built_prompt) run" where
  "retry_stream c turn rawCount messages e =
     bindr (retryContextWindow c messages) (\<lambda>r.
       case r of
         Inl re \<Rightarrow> fail_run c turn StopReasonError
                    (EWrap ''stream model: '' (EJoin [e, EWrap ''context retry failed: '' re]))
       | Inr (rm, tools, prompt, crec) \<Rightarrow>
           (let sent = prepare c rm
            in thenr (if sent \<noteq> messages
                      then emitContextApplied c turn (int (length messages)) (int (length sent)) else ret ())
                 (thenr (record_compaction c turn rawCount sent crec)
                   (thenr (emitSkillDiscovery c turn (bu_discovery prompt))
                     (thenr (admit_model_call c turn)
                       (bindr (call_model c (the_request c sent tools prompt)) (\<lambda>st.
                          case st of
                            Inl e2 \<Rightarrow> fail_run c turn StopReasonError (EWrap ''stream model: '' e2)
                          | Inr stream \<Rightarrow> ret (stream, prompt))))))))"

definition stream_model ::
  "('w, 'j) cfg \<Rightarrow> int \<Rightarrow> int \<Rightarrow> message list \<Rightarrow> ('w, model_stream \<times> built_prompt) run" where
  "stream_model c turn rawCount messages =
     bindr (selectedToolSpecs c messages) (\<lambda>t.
       case t of
         Inl e \<Rightarrow> fail_run c turn StopReasonError (EWrap ''select tools: '' e)
       | Inr tools \<Rightarrow>
           bindr (buildPrompt c messages tools) (\<lambda>p.
             case p of
               Inl e \<Rightarrow> fail_run c turn StopReasonError (EWrap ''build prompt: '' e)
             | Inr prompt \<Rightarrow>
                 bindr (validateTenantBoundary c BoundaryModelRequest) (\<lambda>v.
                   case v of
                     Some e \<Rightarrow> thenr (emitTenantDeniedError c turn e)
                                (fail_run c turn StopReasonPolicy (EWrap ''tenant validation failed: '' e))
                   | None \<Rightarrow>
                       thenr (admit_model_call c turn)
                         (thenr (emit_or_stop c (draft_event c turn EventModelRequest NoPayload))
                           (thenr (emitSkillDiscovery c turn (bu_discovery prompt))
                             (bindr (call_model c (the_request c messages tools prompt)) (\<lambda>st.
                                case st of
                                  Inr stream \<Rightarrow> ret (stream, prompt)
                                | Inl e \<Rightarrow>
                                    (if op_context_retry (cf_opts c) \<noteq> None \<and> IsContextWindowExceeded e
                                     then retry_stream c turn rawCount messages e
                                     else fail_run c turn StopReasonError (EWrap ''stream model: '' e)))))))))"

section \<open>The stream collector\<close>

record collected =
  ca_blocks :: "content_block list"
  ca_uses :: "tool_use list"
  ca_early :: "(nat \<times> tool_result list) list"
  ca_usage :: usage
  ca_text :: normalizer

definition new_collected :: collected where
  "new_collected = \<lparr>ca_blocks = [], ca_uses = [], ca_early = [], ca_usage = zero_usage, ca_text = new_normalizer\<rparr>"

text \<open>The callback that starts a concurrency-safe tool while the model still streams.\<close>

definition startEarlyTool :: "('w, 'j) cfg \<Rightarrow> tool_use \<Rightarrow> ('w, err + tool_result list option) run" where
  "startEarlyTool c use =
     (if \<not> CanRunConcurrently (run_executor c) use then ret (Inr None)
      else bindr (check_budget c (\<lambda>now t. withToolCalls now t 1)) (\<lambda>b.
             case b of
               Some e \<Rightarrow> ret (Inl e)
             | None \<Rightarrow>
                 thenr (set_tracker (\<lambda>t. t\<lparr>bt_tool_calls := bt_tool_calls t + 1\<rparr>))
                   (thenr (act (ATools [use]))
                     (bindr (host (\<lambda>w. Executor_Run (run_executor c) (en_sched (cf_env c)) (en_deliver (cf_env c)) w [use]))
                       (\<lambda>rs. ret (Inr (Some rs)))))))"

text \<open>One event of the stream; the result is the error that ends collecting, if any.\<close>

definition collect_event ::
  "('w, 'j) cfg \<Rightarrow> int \<Rightarrow> collected \<Rightarrow> stream_event \<Rightarrow> ('w, collected \<times> err option) run" where
  "collect_event c turn a e =
     (let say = (\<lambda>a' kind p. bindr (emit c (draft_event c turn kind p)) (\<lambda>r. ret (a', r)))
      in case e of
           StreamText t \<Rightarrow>
             (let (n, text) = nz_push (en_unicode (cf_env c)) (ca_text a) t; a1 = a\<lparr>ca_text := n\<rparr>
              in if text = [] then ret (a1, None)
                 else say (a1\<lparr>ca_blocks := ca_blocks a @ [text_block text]\<rparr>) EventAssistant
                        (PMessage (content_message RoleAssistant [text_block text])))
         | StreamToolUseStart u \<Rightarrow> say a EventToolUseStart (PToolUse u)
         | StreamToolUseDelta u d \<Rightarrow> say a EventToolUseDelta (PToolUseDelta u d)
         | StreamToolUse u0 \<Rightarrow>
             (let u = NormalizeToolUse u0;
                  a1 = a\<lparr>ca_uses := ca_uses a @ [u], ca_blocks := ca_blocks a @ [use_block u]\<rparr>
              in bindr (emit c (draft_event c turn EventToolUse (PToolUse u))) (\<lambda>r.
                   case r of
                     Some x \<Rightarrow> ret (a1, Some x)
                   | None \<Rightarrow>
                       bindr (startEarlyTool c u) (\<lambda>st.
                         ret (case st of
                                Inl x \<Rightarrow> (a1, Some x)
                              | Inr None \<Rightarrow> (a1, None)
                              | Inr (Some rs) \<Rightarrow> (a1\<lparr>ca_early := ca_early a @ [(length (ca_uses a), rs)]\<rparr>, None)))))
         | StreamThinking t \<Rightarrow> if t = [] then ret (a, None) else say a EventThinkingDelta (PThinking t)
         | StreamProviderArtifact art \<Rightarrow>
             (case art of
                None \<Rightarrow> ret (a, None)
              | Some x \<Rightarrow> say (a\<lparr>ca_blocks := ca_blocks a @ [artifact_block x]\<rparr>) EventProviderArtifact (PArtifact x))
         | StreamUsage us \<Rightarrow>
             (case us of
                None \<Rightarrow> ret (a, None)
              | Some x \<Rightarrow> say (a\<lparr>ca_usage := usage_add (ca_usage a) x\<rparr>) EventUsage (PUsage x))
         | StreamOther \<Rightarrow> ret (a, None))"

fun collectAssistant ::
  "('w, 'j) cfg \<Rightarrow> int \<Rightarrow> err option \<Rightarrow> collected \<Rightarrow> stream_event list \<Rightarrow> ('w, collected \<times> err option) run" where
  "collectAssistant c turn fin a [] = ret (a, map_option (EWrap ''receive model event: '') fin)"
| "collectAssistant c turn fin a (e # es) =
     bindr (collect_event c turn a e) (\<lambda>r.
       case r of (a', Some x) \<Rightarrow> ret (a', Some x) | (a', None) \<Rightarrow> collectAssistant c turn fin a' es)"

section \<open>Stream errors\<close>

definition canceled_result :: "tool_use \<Rightarrow> err \<Rightarrow> tool_result" where
  "canceled_result use reason =
     \<lparr>tr_use_id = use_id use, tr_name = use_name use,
      tr_content = ''tool execution canceled because model streaming stopped'', tr_is_error = True,
      tr_metadata = [(''streaming_status'', VString ''canceled''), (''streaming_reason'', VString (err_msg reason))]\<rparr>"

text \<open>The loop of \<open>emitCanceledEarlyToolResults\<close> over the early results in the order of their uses.\<close>

fun emitCanceledEarlyToolResults ::
  "('w, 'j) cfg \<Rightarrow> int \<Rightarrow> tool_use list \<Rightarrow> err \<Rightarrow> (nat \<times> tool_result list) list \<Rightarrow> ('w, err option) run" where
  "emitCanceledEarlyToolResults c turn uses reason [] = ret None"
| "emitCanceledEarlyToolResults c turn uses reason ((i, rs) # early) =
     (if length uses \<le> i then emitCanceledEarlyToolResults c turn uses reason early
      else bindr (host (en_early_ready (cf_env c))) (\<lambda>ready.
             let r = (if ready \<and> rs \<noteq> [] then hd rs else canceled_result (uses ! i) reason)
             in bindr (emit c (draft_event c turn EventToolResult (PToolResult r))) (\<lambda>x.
                  case x of
                    Some e \<Rightarrow> ret (Some e)
                  | None \<Rightarrow>
                      bindr (append_message c (tool_message r)) (\<lambda>y.
                        case y of
                          Some e \<Rightarrow> ret (Some (EWrap ''append canceled early tool result: '' e))
                        | None \<Rightarrow>
                            bindr (local (\<lambda>s. en_ctxerr (cf_env c) (rs_world s))) (\<lambda>z.
                              case z of
                                Some e \<Rightarrow> ret (Some e)
                              | None \<Rightarrow> emitCanceledEarlyToolResults c turn uses reason early)))))"

definition assistant_message :: "collected \<Rightarrow> message" where
  "assistant_message a = content_message RoleAssistant (ca_blocks a)"

definition stream_failed :: "('w, 'j) cfg \<Rightarrow> int \<Rightarrow> collected \<Rightarrow> err \<Rightarrow> ('w, 'a) run" where
  "stream_failed c turn a e =
     bindr (if ca_uses a \<noteq> [] \<and> ca_blocks a \<noteq> [] then append_message c (assistant_message a) else ret None) (\<lambda>x.
       case x of
         Some ae \<Rightarrow> fail_run c turn StopReasonError
                     (EWrap ''append partial assistant message after stream error: '' ae)
       | None \<Rightarrow>
           bindr (emitCanceledEarlyToolResults c turn (ca_uses a) e (ca_early a)) (\<lambda>y.
             case y of
               Some ce \<Rightarrow> thenr (emitError c turn ce) stop_run
             | None \<Rightarrow> fail_run c turn StopReasonError e))"

section \<open>The final answer\<close>

definition finalDenialLimit :: "int \<Rightarrow> int" where
  "finalDenialLimit n = (if n < 0 then 0 else if n = 0 then defaultMaxFinalDenials else n)"

definition finalRetryPrompt :: "string \<Rightarrow> string" where
  "finalRetryPrompt reason =
     (let detail = (if trim_space reason = [] then ''the final answer is not ready'' else trim_space reason)
      in ''Your previous final answer cannot be accepted yet: '' @ detail @ [CHR 10]
         @ ''Use the available tools to satisfy this requirement, then provide the final answer.'')"

definition outputRetryPrompt :: "err option \<Rightarrow> string" where
  "outputRetryPrompt e =
     ''Your previous final answer did not satisfy the required structured output contract: ''
     @ (case e of None \<Rightarrow> ''unknown validation error'' | Some x \<Rightarrow> err_msg x) @ [CHR 10]
     @ ''Return only valid JSON that satisfies the schema. Do not include markdown fences, prose, or any text outside the JSON value.''"

definition final_denied :: "('w, 'j) cfg \<Rightarrow> int \<Rightarrow> string \<Rightarrow> ('w, 'a) run" where
  "final_denied c turn deny =
     bindr (local rs_final_denials) (\<lambda>n.
       if finalDenialLimit (op_max_final_denials (cf_opts c)) \<le> n
       then fail_run c turn StopReasonPolicy
              (EText (''finalization denied after '' @ show_int n @ '' retries: '' @ trim_space deny))
       else thenr count_final_denial
              (bindr (append_message c (user_message (finalRetryPrompt deny))) (\<lambda>r.
                case r of
                  Some e \<Rightarrow> fail_run c turn StopReasonError (EWrap ''append finalization retry prompt: '' e)
                | None \<Rightarrow> next_turn)))"

definition output_invalid :: "('w, 'j) cfg \<Rightarrow> int \<Rightarrow> err \<Rightarrow> ('w, 'a) run" where
  "output_invalid c turn e =
     bindr (local rs_output_retries) (\<lambda>n.
       if n < Contract_RetryLimit (ov_contract (cf_output c))
       then thenr count_output_retry
              (bindr (append_message c (user_message (outputRetryPrompt (Some e)))) (\<lambda>r.
                case r of
                  Some x \<Rightarrow> fail_run c turn StopReasonError (EWrap ''append output validation retry prompt: '' x)
                | None \<Rightarrow> next_turn))
       else fail_run c turn StopReasonError (EWrap ''validate structured output: '' e))"

definition distillMemories :: "('w, 'j) cfg \<Rightarrow> message list \<Rightarrow> plan \<Rightarrow> string \<Rightarrow> ('w, err + candidate list) run" where
  "distillMemories c durable plan result =
     (case op_distiller (cf_opts c) of
        None \<Rightarrow> ret (Inr [])
      | Some d \<Rightarrow>
          bindr (host (\<lambda>w. d w \<lparr>dq_session = cf_session c, dq_parent = op_parent (cf_opts c), dq_messages = durable,
                             dq_plan = plan, dq_result = result\<rparr>)) (\<lambda>r.
            ret (case r of Inl e \<Rightarrow> Inl e | Inr cs \<Rightarrow> Inr (CloneCandidates cs))))"

definition handleMemoryCandidates ::
  "('w, 'j) cfg \<Rightarrow> message list \<Rightarrow> plan \<Rightarrow> string \<Rightarrow> candidate list \<Rightarrow> ('w, err option) run" where
  "handleMemoryCandidates c durable plan result cs =
     (case op_handler (cf_opts c) of
        None \<Rightarrow> ret None
      | Some h \<Rightarrow>
          (if cs = [] then ret None
           else host (\<lambda>w. h w \<lparr>cq_session = cf_session c, cq_parent = op_parent (cf_opts c),
                             cq_messages = CloneMessages durable, cq_plan = plan, cq_result = result,
                             cq_candidates = CloneCandidates cs\<rparr>)))"

text \<open>Candidates are announced, then handed to the handler, whose error does not end the run.\<close>

definition offer_candidates ::
  "('w, 'j) cfg \<Rightarrow> int \<Rightarrow> message list \<Rightarrow> plan \<Rightarrow> string \<Rightarrow> candidate list \<Rightarrow> ('w, unit) run" where
  "offer_candidates c turn durable plan result cs =
     (if cs = [] then ret ()
      else thenr (emit_or_stop c (draft_event c turn EventMemoryCandidates (PMemory cs)))
             (bindr (handleMemoryCandidates c durable plan result cs) (\<lambda>h.
               case h of
                 None \<Rightarrow> ret ()
               | Some e \<Rightarrow> emit_or_stop c (draft_event c turn EventMemoryCandidateHandlerError
                            (PErr (EWrap ''handle memory candidates: '' e))))))"

definition deliver_result :: "('w, 'j) cfg \<Rightarrow> int \<Rightarrow> string \<Rightarrow> ('w, 'a) run" where
  "deliver_result c turn result =
     bindr (finish c turn StopReasonResult None) (\<lambda>f.
       case f of
         Some e \<Rightarrow> thenr (emitError c turn e) stop_run
       | None \<Rightarrow>
           bindr (local rs_usage) (\<lambda>u.
             thenr (emit c (draft_event c turn EventResult (PResult result (if hasUsage u then Some u else None)))) stop_run))"

definition finalize :: "('w, 'j) cfg \<Rightarrow> int \<Rightarrow> message list \<Rightarrow> plan \<Rightarrow> collected \<Rightarrow> ('w, unit) run" where
  "finalize c turn durable plan a =
     (let result = PlainText (assistant_message a)
      in bindr (host (\<lambda>w. hook_BeforeFinal (op_hooks (cf_opts c)) w
                 \<lparr>fi_session = cf_session c, fi_tenant = op_tenant (cf_opts c), fi_turn = turn, fi_answer = result\<rparr>)) (\<lambda>g.
           case g of
             Inl e \<Rightarrow> fail_run c turn StopReasonError (EWrap ''before final hook: '' e)
           | Inr deny \<Rightarrow>
               thenr (act (AGate result deny))
                 (if deny \<noteq> [] then final_denied c turn deny
                  else bindr (local (\<lambda>s. Validator_Validate (en_unmarshal (cf_env c))
                                (\<lambda>j t. case j of None \<Rightarrow> None | Some sch \<Rightarrow> en_validate (cf_env c) sch t)
                                (en_ctxerr (cf_env c) (rs_world s)) (cf_output c) result)) (\<lambda>v.
                         thenr (act (AValidate result v))
                           (case v of
                              Some e \<Rightarrow> output_invalid c turn e
                            | None \<Rightarrow>
                                bindr (distillMemories c durable plan result) (\<lambda>d.
                                  case d of
                                    Inl e \<Rightarrow> fail_run c turn StopReasonError (EWrap ''distill memories: '' e)
                                  | Inr cs \<Rightarrow> thenr (offer_candidates c turn durable plan result cs)
                                                (deliver_result c turn result)))))))"

section \<open>The tool phase\<close>

definition emitTenantToolEvent :: "('w, 'j) cfg \<Rightarrow> int \<Rightarrow> tool_result \<Rightarrow> ('w, unit) run" where
  "emitTenantToolEvent c turn r =
     (if \<not> metadata_bool (tr_metadata r) ''tenant_denied'' then ret ()
      else emit_or_stop c (\<lambda>now. tenant_denied_event now (cf_session c) turn
             (tenant_tool_request (op_tenant (cf_opts c)) (cf_session c) (op_parent (cf_opts c)) r)
             (metadata_string (tr_metadata r) ''tenant_denied_reason'')))"

fun emit_drafts :: "('w, 'j) cfg \<Rightarrow> int \<Rightarrow> draft list \<Rightarrow> ('w, unit) run" where
  "emit_drafts c turn [] = ret ()"
| "emit_drafts c turn ((k, p) # ds) = thenr (emit_or_stop c (draft_event c turn k p)) (emit_drafts c turn ds)"

definition handleToolResult :: "('w, 'j) cfg \<Rightarrow> int \<Rightarrow> tool_result \<Rightarrow> ('w, unit) run" where
  "handleToolResult c turn r =
     thenr (emit_or_stop c (draft_event c turn EventToolResult (PToolResult r)))
       (thenr (emitTenantToolEvent c turn r)
         (thenr (emit_drafts c turn (skill_tool_events r @ workspace_tool_events r @ verification_tool_events r
                   @ approval_tool_events r @ command_tool_events r))
           (bindr (append_message c (tool_message r)) (\<lambda>x.
              case x of
                Some e \<Rightarrow> fail_run c turn StopReasonError (EWrap ''append tool result: '' e)
              | None \<Rightarrow> ret ()))))"

fun handle_results :: "('w, 'j) cfg \<Rightarrow> int \<Rightarrow> tool_result list \<Rightarrow> ('w, unit) run" where
  "handle_results c turn [] = ret ()"
| "handle_results c turn (r # rs) = thenr (handleToolResult c turn r) (handle_results c turn rs)"

definition run_uses :: "('w, 'j) cfg \<Rightarrow> tool_use list \<Rightarrow> ('w, tool_result list) run" where
  "run_uses c us =
     thenr (act (ATools us))
       (host (\<lambda>w. Executor_Run (run_executor c) (en_sched (cf_env c)) (en_deliver (cf_env c)) w us))"

text \<open>
  The loop over the uses, each with its index: an early result is taken from its buffer, and the
  uses up to the next early one go to the executor together.
\<close>

function tools_loop ::
  "('w, 'j) cfg \<Rightarrow> int \<Rightarrow> (nat \<times> tool_result list) list \<Rightarrow> (nat \<times> tool_use) list \<Rightarrow> ('w, unit) run" where
  "tools_loop c turn early [] = ret ()"
| "tools_loop c turn early ((i, u) # us) =
     (case map_of early i of
        Some rs \<Rightarrow> thenr (handle_results c turn rs) (tools_loop c turn early us)
      | None \<Rightarrow>
          bindr (run_uses c (u # map snd (takeWhile (\<lambda>p. map_of early (fst p) = None) us))) (\<lambda>rs.
            thenr (handle_results c turn rs)
              (tools_loop c turn early (dropWhile (\<lambda>p. map_of early (fst p) = None) us))))"
  by pat_completeness auto
termination
  by (relation "measure (\<lambda>(c, turn, early, us). length us)") (auto simp: less_Suc_eq_le length_dropWhile_le)

definition run_tools :: "('w, 'j) cfg \<Rightarrow> int \<Rightarrow> collected \<Rightarrow> ('w, unit) run" where
  "run_tools c turn a =
     (let remaining = int (length (ca_uses a)) - int (length (ca_early a))
      in bindr (check_budget c (\<lambda>now t. withToolCalls now t remaining)) (\<lambda>b.
           case b of
             Some e \<Rightarrow> fail_run c turn StopReasonBudget e
           | None \<Rightarrow>
               thenr (set_tracker (\<lambda>t. t\<lparr>bt_tool_calls := bt_tool_calls t + remaining\<rparr>))
                 (tools_loop c turn (ca_early a) (enumerate 0 (ca_uses a)))))"

section \<open>One turn\<close>

text \<open>What follows a collected stream without error.\<close>

definition stream_done :: "('w, 'j) cfg \<Rightarrow> int \<Rightarrow> message list \<Rightarrow> plan \<Rightarrow> collected \<Rightarrow> ('w, unit) run" where
  "stream_done c turn durable0 plan a =
     bindr (check_budget c tracker_snapshot) (\<lambda>b.
       case b of
         Some e \<Rightarrow> fail_run c turn StopReasonBudget e
       | None \<Rightarrow>
           bindr (if ca_blocks a \<noteq> [] then append_message c (assistant_message a) else ret None) (\<lambda>x.
             case x of
               Some e \<Rightarrow> fail_run c turn StopReasonError (EWrap ''append assistant message: '' e)
             | None \<Rightarrow>
                 (let durable = (if ca_blocks a \<noteq> [] then durable0 @ [CloneMessage (assistant_message a)] else durable0)
                  in if ca_uses a = [] then finalize c turn durable plan a else run_tools c turn a)))"

definition consume_stream ::
  "('w, 'j) cfg \<Rightarrow> int \<Rightarrow> message list \<Rightarrow> model_stream \<Rightarrow> built_prompt \<Rightarrow> ('w, unit) run" where
  "consume_stream c turn durable0 stream prompt =
     bindr (collectAssistant c turn (sm_end stream) new_collected (sm_events stream)) (\<lambda>(a, e0).
       thenr (set_usage (\<lambda>u. usage_add u (ca_usage a)))
         (bindr (local rs_usage) (\<lambda>u.
           thenr (set_tracker (\<lambda>t. t\<lparr>bt_usage := u\<rparr>))
             (case (case e0 of None \<Rightarrow> sm_close stream | Some x \<Rightarrow> Some x) of
                Some e \<Rightarrow> stream_failed c turn a e
              | None \<Rightarrow> stream_done c turn durable0 (bu_plan prompt) a))))"

definition run_turn :: "('w, 'j) cfg \<Rightarrow> int \<Rightarrow> ('w, unit) run" where
  "run_turn c turn =
     thenr (set_tracker (\<lambda>t. t\<lparr>bt_turns := turn\<rparr>))
       (bindr (load_view c turn) (\<lambda>view.
         bindr (apply_context c turn view) (\<lambda>messages.
           bindr (stream_model c turn (mv_raw_count view) messages) (\<lambda>(stream, prompt).
             consume_stream c turn (CloneMessages (prepare c (mv_messages view))) stream prompt))))"

section \<open>The loop\<close>

text \<open>The turns that are left; when none is, the run fails with the reason \<open>max_turns\<close>.\<close>

fun run_turns :: "('w, 'j) cfg \<Rightarrow> int \<Rightarrow> nat \<Rightarrow> ('w, unit) run" where
  "run_turns c turn 0 s =
     fail_run c (op_max_turns (cf_opts c)) StopReasonMaxTurns
       (EText (''max turns exceeded: '' @ show_int (op_max_turns (cf_opts c)))) s"
| "run_turns c turn (Suc n) s =
     (case run_turn c turn s of
        (s', Stop) \<Rightarrow> (s', Stop)
      | (s', Next) \<Rightarrow> run_turns c (turn + 1) n s'
      | (s', Go _) \<Rightarrow> run_turns c (turn + 1) n s')"

definition initial_tracker :: "gotime \<Rightarrow> budget_tracker" where
  "initial_tracker now = \<lparr>bt_started = now, bt_turns = 0, bt_model_calls = 0, bt_tool_calls = 0, bt_usage = zero_usage\<rparr>"

definition initial_state :: "'w \<Rightarrow> 'w run_state" where
  "initial_state w = \<lparr>rs_world = w, rs_log = [], rs_tracker = initial_tracker 0, rs_usage = zero_usage,
     rs_output_retries = 0, rs_final_denials = 0\<rparr>"

definition runLoop :: "('w, 'j) cfg \<Rightarrow> ('w, unit) run" where
  "runLoop c =
     bindr (emit c (draft_event c 0 EventSessionStarted NoPayload)) (\<lambda>r.
       case r of
         Some e \<Rightarrow> thenr (finish c 0 StopReasonCanceled (Some e)) stop_run
       | None \<Rightarrow>
           bindr (host (en_now (cf_env c))) (\<lambda>now.
             thenr (set_tracker (\<lambda>_. initial_tracker now))
               (run_turns c 1 (nat (op_max_turns (cf_opts c))))))"

section \<open>Query\<close>

definition normalizeSessionIDs :: "unicode \<Rightarrow> ('w, 'j) options \<Rightarrow> err + ('w, 'j) options" where
  "normalizeSessionIDs U o1 =
     (case (if op_session o1 = [] then Some [] else CanonicalID (op_session o1)) of
        None \<Rightarrow> Inl (EText (''invalid session id: '' @ quote U (op_session o1)))
      | Some sid \<Rightarrow>
          (case (if op_parent o1 = [] then Some [] else CanonicalID (op_parent o1)) of
             None \<Rightarrow> Inl (EText (''invalid parent session id: '' @ quote U (op_parent o1)))
           | Some pid \<Rightarrow> Inr (o1\<lparr>op_session := sid, op_parent := pid\<rparr>)))"

definition startSession :: "('w, 'j) env \<Rightarrow> ('w, 'j) options \<Rightarrow> 'w \<Rightarrow> 'w \<times> (err + session)" where
  "startSession en o1 w =
     (if op_session o1 \<noteq> []
      then (w, case session_Get (op_sessions o1) (op_session o1) w of
                 Inl e \<Rightarrow> Inl (session_err (en_unicode en) e) | Inr se \<Rightarrow> Inr se)
      else let (w1, nid) = en_new_id en w; (w2, now) = en_now en w1
           in case session_Create (op_sessions o1) nid now (op_parent o1) w2 of
                Inl e \<Rightarrow> (w2, Inl (session_err (en_unicode en) e))
              | Inr (se, w3) \<Rightarrow> (w3, Inr se))"

text \<open>
  The gates between the session's start and the loop, in their order: tenant check, session-started
  hooks, user-prompt hooks, and storing the prompt, which only the last hook's text replaces.
\<close>

definition query_admit :: "('w, 'j) cfg \<Rightarrow> string \<Rightarrow> ('w, err option) run" where
  "query_admit c prompt =
     bindr (validateTenantBoundary c BoundarySessionStart) (\<lambda>v.
       case v of
         Some e \<Rightarrow> ret (Some (EWrap ''tenant validation failed: '' e))
       | None \<Rightarrow>
           bindr (host (\<lambda>w. hook_SessionStarted (op_hooks (cf_opts c)) w
                    \<lparr>si_session = cf_session c, si_tenant = op_tenant (cf_opts c)\<rparr>)) (\<lambda>errs.
             if errs \<noteq> [] then ret (Some (EWrap ''session started hook failed: '' (EJoin errs)))
             else bindr (host (\<lambda>w. hook_UserPrompt (op_hooks (cf_opts c)) w
                           \<lparr>ui_session = cf_session c, ui_tenant = op_tenant (cf_opts c), ui_prompt = prompt\<rparr>)) (\<lambda>r.
                    case r of
                      Inl e \<Rightarrow> ret (Some (EWrap ''user prompt hook failed: '' e))
                    | Inr pr \<Rightarrow>
                        (if ur_deny pr \<noteq> [] then ret (Some (EText (ur_deny pr)))
                         else bindr (append_message c (user_message (if ur_prompt pr \<noteq> [] then ur_prompt pr else prompt)))
                                (\<lambda>x. ret (map_option (EWrap ''append user prompt: '') x))))))"

definition query_cfg ::
  "('w, 'j) env \<Rightarrow> ('w, 'j) options \<Rightarrow> 'w store_iface \<Rightarrow> ('w \<Rightarrow> model_request \<Rightarrow> 'w \<times> (err + model_stream))
     \<Rightarrow> 'j output_validator \<Rightarrow> session \<Rightarrow> ('w, 'j) cfg" where
  "query_cfg en o1 dflt client v se =
     \<lparr>cf_env = en, cf_opts = o1\<lparr>op_parent := (if op_parent o1 = [] then se_parent se else op_parent o1)\<rparr>,
      cf_tools = (case op_tools o1 of None \<Rightarrow> empty_registry | Some r \<Rightarrow> r),
      cf_store = (case op_sessions o1 of None \<Rightarrow> dflt | Some s \<Rightarrow> s), cf_client = client, cf_session = se_id se,
      cf_output = v\<rparr>"

text \<open>\<open>Query\<close>: a startup error, or the state the finished run leaves, with its actions.\<close>

definition Query ::
  "('w, 'j) env \<Rightarrow> 'w store_iface \<Rightarrow> ('w, 'j) options \<Rightarrow> string \<Rightarrow> 'w \<Rightarrow> err + 'w run_state" where
  "Query en dflt o0 prompt w0 =
     (let o1 = withDefaults dflt o0
      in case op_model o1 of
           None \<Rightarrow> Inl (EText ''memaxagent: model client is required'')
         | Some client \<Rightarrow>
             (case normalizeSessionIDs (en_unicode en) o1 of
                Inl e \<Rightarrow> Inl e
              | Inr o2 \<Rightarrow>
                  (case Contract_Compile (en_compile en) (en_ctxerr en w0) (op_output o2) of
                     Inl e \<Rightarrow> Inl (EWrap ''compile output contract: '' e)
                   | Inr v \<Rightarrow>
                       (case startSession en o2 w0 of
                          (w1, Inl e) \<Rightarrow> Inl (EWrap ''start session: '' e)
                        | (w1, Inr se) \<Rightarrow>
                            (let c = query_cfg en o2 dflt client v se
                             in case query_admit c prompt (initial_state w1) of
                                  (s, Go None) \<Rightarrow> Inr (fst (runLoop c s))
                                | (s, Go (Some e)) \<Rightarrow> Inl e
                                | (s, _) \<Rightarrow> Inl (EText []))))))"

end
