(* ===== verification/Agent_Protocol.thy ===== *)
theory Agent_Protocol
  imports Agent_Run
begin

text \<open>
  The contract of a run as an automaton over its visible actions, the resource bounds of a run, and
  the proof that the agent loop of \<open>Agent_Run\<close> keeps both in every environment: whatever the host
  code does, whenever the caller stops listening, and wherever an error occurs.
\<close>

section \<open>Answered transcripts\<close>

text \<open>
  What the repair establishes without any assumption: no tool message stands alone, and the tool
  messages after each message answer exactly the ids it uses.
\<close>

function tool_answered :: "message list \<Rightarrow> bool" where
  "tool_answered [] = True"
| "tool_answered (m # ms) =
     (\<not> is_tool m \<and> set (map result_id (takeWhile is_tool ms)) = Some ` set (use_ids m)
      \<and> tool_answered (dropWhile is_tool ms))"
  by pat_completeness auto
termination
  by (relation "measure length") (auto simp: less_Suc_eq_le length_dropWhile_le)

lemma answered_block:
  assumes res: "take_results (set (filter (\<lambda>i. i \<noteq> []) (map use_id (assistantToolUses m)))) {} ms = (out, seen, rest)"
  shows "list_all is_tool (out @ missing_results (assistantToolUses m) seen)"
    and "set (map result_id (out @ missing_results (assistantToolUses m) seen)) = Some ` set (use_ids m)"
proof -
  from take_results_spec [OF res] obtain ids where
    out: "list_all is_tool out" "map result_id out = map Some ids" and ids: "set ids \<subseteq> set (use_ids m)" "seen = set ids"
    by (auto simp: use_ids_def)
  show "list_all is_tool (out @ missing_results (assistantToolUses m) seen)"
    using out missing_results_spec(1) by simp
  have "set (map result_id out) = Some ` set ids" using out(2) by (metis list.set_map)
  moreover have "set (map result_id (missing_results (assistantToolUses m) seen)) = Some ` (set (use_ids m) - set ids)"
    unfolding missing_results_spec(2) by (auto simp: use_ids_def ids(2))
  ultimately show "set (map result_id (out @ missing_results (assistantToolUses m) seen)) = Some ` set (use_ids m)"
    using ids(1) by auto
qed

lemma Repair_answered: "tool_answered (RepairToolUseAdjacency ms)"
proof (induction ms rule: RepairToolUseAdjacency.induct)
  case (2 m ms)
  let ?rep = "RepairToolUseAdjacency"
  let ?res = "take_results (set (filter (\<lambda>i. i \<noteq> []) (map use_id (assistantToolUses m)))) {} ms"
  let ?blk = "fst ?res @ missing_results (assistantToolUses m) (fst (snd ?res))"
  consider "is_tool m" | "\<not> is_tool m" "assistantToolUses m = []" | "\<not> is_tool m" "assistantToolUses m \<noteq> []"
    by blast
  then show ?case
  proof cases
    case 1
    with 2 show ?thesis by simp
  next
    case nouse: 2
    with "2.IH"(2) have "tool_answered (?rep ms)" by simp
    with nouse show ?thesis by (simp add: use_ids_def)
  next
    case 3
    have rep: "?rep (m # ms) = CloneMessage m # ?blk @ ?rep (dropWhile is_tool ms)"
      using 3 by (simp add: Let_def take_results_rest)
    have ih: "tool_answered (?rep (dropWhile is_tool ms))"
      using "2.IH"(3) [OF 3(1) HOL.refl 3(2) HOL.refl HOL.refl] by (simp add: take_results_rest)
    note blk = answered_block [of m ms "fst ?res" "fst (snd ?res)" "snd (snd ?res)"]
    have all: "list_all is_tool ?blk" and ids: "set (map result_id ?blk) = Some ` set (use_ids m)"
      using blk by simp_all
    have tw: "takeWhile is_tool (?blk @ ?rep (dropWhile is_tool ms)) = ?blk"
      using takeWhile_all [OF all] by simp
    have dw: "dropWhile is_tool (?blk @ ?rep (dropWhile is_tool ms)) = ?rep (dropWhile is_tool ms)"
      using dropWhile_all [OF all] by simp
    have uid: "use_ids (CloneMessage m) = use_ids m" by (simp add: use_ids_def)
    show ?thesis
      unfolding rep tool_answered.simps tw dw uid using 3 ids ih by simp
  qed
qed simp

lemma prepare_answered: "tool_answered (prepare c ms)"
  by (simp add: prepare_def prepareMessagesForModel_def Repair_answered)

section \<open>The protocol\<close>

text \<open>
  The phases of a run. \<open>Gated\<close> and \<open>Accepted\<close> carry the answer that passed the before-final hooks
  and the output validator; \<open>Stopping\<close> and \<open>Ended\<close> carry the answer when the run ends with one.
\<close>

datatype phase =
    Idle
  | Running
  | Gated string
  | Accepted string
  | Failing
  | Stopping "string option"
  | Ended "string option"
  | Over

definition result_event :: "string \<Rightarrow> event \<Rightarrow> bool" where
  "result_event ans e \<longleftrightarrow> ev_kind e = EventResult \<and> (\<exists>u. ev_payload e = PResult ans u)"

definition error_event :: "event \<Rightarrow> bool" where
  "error_event e \<longleftrightarrow> ev_kind e = EventError \<and> (\<exists>x. ev_payload e = PErr x)"

definition progress_event :: "event \<Rightarrow> bool" where
  "progress_event e \<longleftrightarrow> ev_kind e \<notin> {EventSessionStarted, EventError, EventResult}"

definition memory_event :: "event \<Rightarrow> bool" where
  "memory_event e \<longleftrightarrow> ev_kind e \<in> {EventMemoryCandidates, EventMemoryCandidateHandlerError}"

fun proto_step :: "phase \<Rightarrow> action \<Rightarrow> phase option" where
  "proto_step Idle (AAppend m) = Some Idle"
| "proto_step Idle (AEmit e) = (if ev_kind e = EventSessionStarted then Some Running else None)"
| "proto_step Idle (AStop i) = (if sti_reason i = StopReasonCanceled then Some (Stopping None) else None)"
| "proto_step Running (AEmit e) =
     (if progress_event e then Some Running else if error_event e then Some Failing else None)"
| "proto_step Running (ARequest r) = (if tool_answered (mr_messages r) then Some Running else None)"
| "proto_step Running (AAppend m) = Some Running"
| "proto_step Running (ATools us) = Some Running"
| "proto_step Running (AGate ans deny) = Some (if deny = [] then Gated ans else Running)"
| "proto_step Running (AStop i) = (if sti_reason i \<noteq> StopReasonResult then Some (Stopping None) else None)"
| "proto_step (Gated ans) (AValidate a v) =
     (if a \<noteq> ans then None else Some (if v = None then Accepted ans else Running))"
| "proto_step (Accepted ans) (AEmit e) =
     (if memory_event e then Some (Accepted ans) else if error_event e then Some Failing else None)"
| "proto_step (Accepted ans) (AStop i) =
     (if sti_reason i = StopReasonResult then (if sti_err i = None then Some (Stopping (Some ans)) else None)
      else Some (Stopping None))"
| "proto_step Failing (AStop i) = (if sti_reason i \<noteq> StopReasonResult then Some (Stopping None) else None)"
| "proto_step (Stopping x) (AEnded i) = Some (Ended x)"
| "proto_step (Ended (Some ans)) (AEmit e) =
     (if result_event ans e \<or> error_event e then Some Over else None)"
| "proto_step _ _ = None"

fun proto_run :: "phase \<Rightarrow> action list \<Rightarrow> phase option" where
  "proto_run ph [] = Some ph"
| "proto_run ph (a # as) = (case proto_step ph a of None \<Rightarrow> None | Some ph' \<Rightarrow> proto_run ph' as)"

lemma proto_run_append:
  "proto_run ph (as @ bs) = (case proto_run ph as of None \<Rightarrow> None | Some ph' \<Rightarrow> proto_run ph' bs)"
  by (induction as arbitrary: ph) (auto split: option.split)

section \<open>Resources\<close>

definition requests :: "action list \<Rightarrow> model_request list" where
  "requests as = concat (map (\<lambda>a. case a of ARequest r \<Rightarrow> [r] | _ \<Rightarrow> []) as)"

definition executed :: "action list \<Rightarrow> tool_use list" where
  "executed as = concat (map (\<lambda>a. case a of ATools us \<Rightarrow> us | _ \<Rightarrow> []) as)"

definition emitted :: "action list \<Rightarrow> event list" where
  "emitted as = concat (map (\<lambda>a. case a of AEmit e \<Rightarrow> [e] | _ \<Rightarrow> []) as)"

definition terminal :: "event \<Rightarrow> bool" where
  "terminal e \<longleftrightarrow> ev_kind e = EventResult \<or> ev_kind e = EventError"

text \<open>The limits of a budget policy on calls, for a run governed by one.\<close>

definition call_limits :: "('w, 'j) cfg \<Rightarrow> budget_tracker \<Rightarrow> bool" where
  "call_limits c t \<longleftrightarrow>
     (\<forall>ctx clock p. op_budget (cf_opts c) = Some (Policy_governor ctx clock p) \<longrightarrow>
        keeps_limit (bp_model_calls p) (bt_model_calls t) \<and> keeps_limit (bp_tool_calls p) (bt_tool_calls t))"

text \<open>
  The bounds kept in turn \<open>t\<close>: the model calls made are counted, with \<open>q\<close> counted ahead, and leave
  \<open>k\<close> of the two calls of each turn; the tool uses executed are counted, with \<open>j\<close> counted ahead;
  turns, retries and the limits of a budget policy are respected.
\<close>

definition bounds :: "('w, 'j) cfg \<Rightarrow> int \<Rightarrow> int \<Rightarrow> int \<Rightarrow> int \<Rightarrow> 'w run_state \<Rightarrow> bool" where
  "bounds c t k q j s \<longleftrightarrow>
     int (length (requests (rs_log s))) + q \<le> bt_model_calls (rs_tracker s)
     \<and> int (length (executed (rs_log s))) + j \<le> bt_tool_calls (rs_tracker s)
     \<and> bt_model_calls (rs_tracker s) + k \<le> 2 * t
     \<and> bt_turns (rs_tracker s) = t \<and> t \<le> op_max_turns (cf_opts c)
     \<and> call_limits c (rs_tracker s)
     \<and> rs_output_retries s \<le> Contract_RetryLimit (ov_contract (cf_output c))
     \<and> rs_final_denials s \<le> finalDenialLimit (op_max_final_denials (cf_opts c))"

text \<open>The caller takes every event: no send loses to a cancelled context.\<close>

definition delivers :: "('w, 'j) cfg \<Rightarrow> bool" where
  "delivers c \<longleftrightarrow> (\<forall>w e. snd (en_send (cf_env c) w e) = None)"

definition in_phase :: "('w, 'j) cfg \<Rightarrow> int \<Rightarrow> int \<Rightarrow> int \<Rightarrow> int \<Rightarrow> phase \<Rightarrow> 'w run_state \<Rightarrow> bool" where
  "in_phase c t k q j ph s \<longleftrightarrow> proto_run Idle (rs_log s) = Some ph \<and> bounds c t k q j s"

definition closing :: "('w, 'j) cfg \<Rightarrow> int \<Rightarrow> phase \<Rightarrow> 'w run_state \<Rightarrow> bool" where
  "closing c t ph s \<longleftrightarrow> in_phase c t 0 0 0 ph s \<and> (delivers c \<longrightarrow> list_ex terminal (emitted (rs_log s)))"

text \<open>No run ends between the stop hooks and the session-ended hooks.\<close>

fun settled :: "phase \<Rightarrow> bool" where
  "settled (Stopping x) = False"
| "settled _ = True"

definition stopped :: "('w, 'j) cfg \<Rightarrow> 'w run_state \<Rightarrow> bool" where
  "stopped c s \<longleftrightarrow> (\<exists>t ph. closing c t ph s \<and> settled ph)"

lemma stoppedI: "closing c t ph s \<Longrightarrow> settled ph \<Longrightarrow> stopped c s"
  by (auto simp: stopped_def)

section \<open>Basic triples\<close>

lemma requests_append [simp]: "requests (as @ bs) = requests as @ requests bs"
  by (simp add: requests_def)

lemma executed_append [simp]: "executed (as @ bs) = executed as @ executed bs"
  by (simp add: executed_def)

lemma emitted_append [simp]: "emitted (as @ bs) = emitted as @ emitted bs"
  by (simp add: emitted_def)

lemma action_logs [simp]:
  "requests [] = []" "executed [] = []" "emitted [] = []"
  "requests [a] = (case a of ARequest r \<Rightarrow> [r] | _ \<Rightarrow> [])" "executed [a] = (case a of ATools us \<Rightarrow> us | _ \<Rightarrow> [])"
  "emitted [a] = (case a of AEmit e \<Rightarrow> [e] | _ \<Rightarrow> [])"
  by (simp_all add: requests_def executed_def emitted_def)

lemma proto_snoc [simp]:
  "proto_run ph (as @ [a]) = (case proto_run ph as of None \<Rightarrow> None | Some ph' \<Rightarrow> proto_step ph' a)"
  by (simp add: proto_run_append split: option.split)

lemma running_world [simp]: "in_phase c t k q j ph (s\<lparr>rs_world := w\<rparr>) = in_phase c t k q j ph s"
  by (simp add: in_phase_def bounds_def)

lemma closing_world [simp]: "closing c t ph (s\<lparr>rs_world := w\<rparr>) = closing c t ph s"
  by (simp add: closing_def)

lemma running_weaken: "in_phase c t k q j ph s \<Longrightarrow> k' \<le> k \<Longrightarrow> q' \<le> q \<Longrightarrow> j' \<le> j \<Longrightarrow> in_phase c t k' q' j' ph s"
  by (auto simp: in_phase_def bounds_def)

text \<open>An action that is neither a model request nor a tool execution.\<close>

definition quiet :: "action \<Rightarrow> bool" where
  "quiet a \<longleftrightarrow> requests [a] = [] \<and> executed [a] = []"

lemma running_act:
  "in_phase c t k q j ph s \<Longrightarrow> proto_step ph a = Some ph' \<Longrightarrow> quiet a \<Longrightarrow> in_phase c t k q j ph' (s\<lparr>rs_log := rs_log s @ [a]\<rparr>)"
  by (simp add: in_phase_def bounds_def quiet_def)

lemma closing_act:
  "closing c t ph s \<Longrightarrow> proto_step ph a = Some ph' \<Longrightarrow> quiet a \<Longrightarrow> closing c t ph' (s\<lparr>rs_log := rs_log s @ [a]\<rparr>)"
  by (auto simp: closing_def intro: running_act)

lemma quiet_simps [simp]:
  "quiet (AEmit e)" "quiet (AAppend m)" "quiet (AGate x y)" "quiet (AValidate x v)" "quiet (AStop i)" "quiet (AEnded i')"
  by (simp_all add: quiet_def)

lemma triple_host_inv: "(\<And>s w. P (s\<lparr>rs_world := w\<rparr>) = P s) \<Longrightarrow> triple P (host f) (\<lambda>_. P) N S"
  by (rule triple_host) simp

lemma running_host [triples]: "triple (in_phase c t k q j ph) (host f) (\<lambda>_. in_phase c t k q j ph) N S"
  by (rule triple_host_inv) simp

lemma closing_host: "triple (closing c t ph) (host f) (\<lambda>_. closing c t ph) N S"
  by (rule triple_host_inv) simp

lemma bind_inv: "triple I m (\<lambda>_. I) N S \<Longrightarrow> (\<And>x. triple I (f x) Q N S) \<Longrightarrow> triple I (bindr m f) Q N S"
  by (rule triple_bind)

lemma then_inv: "triple I m (\<lambda>_. I) N S \<Longrightarrow> triple I n Q N S \<Longrightarrow> triple I (thenr m n) Q N S"
  by (rule triple_then)

lemma ret_inv: "triple I (ret x) (\<lambda>_. I) N S"
  by (rule triple_ret)

lemma local_inv: "triple I (local f) (\<lambda>_. I) N S"
  by (rule triple_local)

lemmas inv_intros = bind_inv then_inv ret_inv local_inv triple_option triple_sum triple_if triple_pair

section \<open>Emitting and finishing\<close>

lemma emit_rule:
  assumes sent: "\<And>s now p w. P s \<Longrightarrow> Q None (s\<lparr>rs_world := w, rs_log := rs_log s @ [AEmit ((mk now)\<lparr>ev_parent := p\<rparr>)]\<rparr>)"
    and gone: "\<And>s x w. P s \<Longrightarrow> \<not> delivers c \<Longrightarrow> Q (Some x) (s\<lparr>rs_world := w\<rparr>)"
  shows "triple P (emit c mk) Q N S"
  unfolding triple_def
proof (intro allI impI)
  fix s assume P: "P s"
  obtain w1 now where now: "en_now (cf_env c) (rs_world s) = (w1, now)" by (rule prod.exhaust)
  define e where "e = (if ev_parent (mk now) = [] then (mk now)\<lparr>ev_parent := op_parent (cf_opts c)\<rparr> else mk now)"
  obtain p where e: "e = (mk now)\<lparr>ev_parent := p\<rparr>" unfolding e_def by (metis event.surjective event.update_convs(3))
  obtain w2 r where r: "en_send (cf_env c) w1 e = (w2, r)" by (rule prod.exhaust)
  show "outcome Q N S (emit c mk s)"
  proof (cases r)
    case None
    then show ?thesis using sent [OF P, where w = w2 and now = now and p = p]
      by (simp add: emit_def bindr_def thenr_def host_def act_def ret_def now r e_def [symmetric] Let_def flip: e)
  next
    case (Some x)
    then have "\<not> delivers c" using r by (auto simp: delivers_def) (metis option.distinct(1) snd_conv)
    with Some show ?thesis using gone [OF P, where x = x and w = w2]
      by (simp add: emit_def bindr_def host_def ret_def now r e_def [symmetric] Let_def)
  qed
qed

lemma emit_step:
  assumes "\<And>now p. proto_step ph (AEmit ((mk now)\<lparr>ev_parent := p\<rparr>)) = Some ph'"
  shows "triple (in_phase c t k q j ph) (emit c mk)
    (\<lambda>r s. case r of None \<Rightarrow> in_phase c t k q j ph' s | Some _ \<Rightarrow> in_phase c t k q j ph s \<and> \<not> delivers c) N S"
proof (rule emit_rule)
  fix s now p w assume "in_phase c t k q j ph s"
  then have "in_phase c t k q j ph (s\<lparr>rs_world := w\<rparr>)" by simp
  from running_act [OF this assms] show "case None of None \<Rightarrow>
      in_phase c t k q j ph' (s\<lparr>rs_world := w, rs_log := rs_log s @ [AEmit ((mk now)\<lparr>ev_parent := p\<rparr>)]\<rparr>)
    | Some _ \<Rightarrow> in_phase c t k q j ph (s\<lparr>rs_world := w, rs_log := rs_log s @ [AEmit ((mk now)\<lparr>ev_parent := p\<rparr>)]\<rparr>) \<and> \<not> delivers c"
    by simp
qed simp

lemma emit_or_stop_step:
  assumes "\<And>now p. proto_step ph (AEmit ((mk now)\<lparr>ev_parent := p\<rparr>)) = Some ph" and "0 \<le> k" "0 \<le> q" "0 \<le> j"
  shows "triple (in_phase c t k q j ph) (emit_or_stop c mk) (\<lambda>_. in_phase c t k q j ph) N (stopped c)"
  unfolding emit_or_stop_def
proof (rule triple_bind [OF emit_step [OF assms(1)]])
  fix r :: "err option"
  show "triple (\<lambda>s. case r of None \<Rightarrow> in_phase c t k q j ph s | Some _ \<Rightarrow> in_phase c t k q j ph s \<and> \<not> delivers c)
      (case r of None \<Rightarrow> ret () | Some _ \<Rightarrow> stop_run) (\<lambda>_. in_phase c t k q j ph) N (stopped c)"
  proof (cases r)
    case None
    then show ?thesis by (simp add: triple_ret)
  next
    case (Some x)
    have "settled ph" using assms(1) by (cases ph) simp_all
    then have "in_phase c t k q j ph s \<and> \<not> delivers c \<Longrightarrow> stopped c s" for s
      using running_weaken [of c t k q j ph s 0 0 0] assms by (auto simp: stopped_def closing_def)
    with Some show ?thesis by (simp add: triple_stop)
  qed
qed

definition progress_kind :: "event_kind \<Rightarrow> bool" where
  "progress_kind kd \<longleftrightarrow> kd \<notin> {EventSessionStarted, EventError, EventResult}"

lemma draft_event_simps [simp]:
  "ev_kind (draft_event c turn kd p now) = kd" "ev_payload (draft_event c turn kd p now) = p"
  by (simp_all add: draft_event_def newEvent_def)

lemma tenant_denied_kind [simp]: "ev_kind (tenant_denied_event now sid turn req reason) = EventTenantDenied"
  by (simp add: tenant_denied_event_def newEvent_def)

text \<open>Progress events leave a running run running.\<close>

lemma emit_progress:
  assumes "progress_kind kd" and "0 \<le> k" "0 \<le> q" "0 \<le> j"
  shows "triple (in_phase c t k q j Running) (emit_or_stop c (draft_event c turn kd p)) (\<lambda>_. in_phase c t k q j Running) N (stopped c)"
  by (rule emit_or_stop_step) (use assms in \<open>simp_all add: progress_event_def progress_kind_def\<close>)

lemma emit_tenant_denied:
  assumes "0 \<le> k" "0 \<le> q" "0 \<le> j"
  shows "triple (in_phase c t k q j Running) (emit_or_stop c (\<lambda>now. tenant_denied_event now sid turn req reason))
     (\<lambda>_. in_phase c t k q j Running) N (stopped c)"
  by (rule emit_or_stop_step) (use assms in \<open>simp_all add: progress_event_def\<close>)

text \<open>Like \<open>emit_progress\<close>, for callers that look at the outcome.\<close>

lemma emit_collect:
  assumes "progress_kind kd"
  shows "triple (in_phase c t k q j Running) (emit c (draft_event c turn kd p)) (\<lambda>_. in_phase c t k q j Running) N S"
  by (rule triple_conseq [OF emit_step [where ph' = Running]])
    (use assms in \<open>auto simp: progress_event_def progress_kind_def split: option.splits\<close>)

lemma finish_step:
  assumes "\<And>i. sti_reason i = reason \<Longrightarrow> sti_err i = e \<Longrightarrow> proto_step ph (AStop i) = Some (Stopping x)"
  shows "triple (in_phase c t k q j ph) (finish c turn reason e) (\<lambda>_. in_phase c t k q j (Ended x)) N S"
  unfolding finish_def Let_def
  apply (rule triple_then [OF triple_act [where Q = "\<lambda>_. in_phase c t k q j (Stopping x)"]])
   apply (simp add: running_act assms)
  apply (rule triple_bind [OF running_host])
  apply (rule triple_then [OF triple_act [where Q = "\<lambda>_. in_phase c t k q j (Ended x)"]])
   apply (simp add: running_act)
  apply (rule triple_bind [OF running_host])
  apply (rule triple_ret)
  apply assumption
  done

lemma finish_closing:
  assumes "\<And>i. sti_reason i = reason \<Longrightarrow> proto_step ph (AStop i) = Some (Stopping x)"
  shows "triple (closing c t ph) (finish c turn reason e) (\<lambda>_. closing c t (Ended x)) N S"
  unfolding finish_def Let_def
  apply (rule triple_then [OF triple_act [where Q = "\<lambda>_. closing c t (Stopping x)"]])
   apply (simp add: closing_act assms)
  apply (rule triple_bind [OF closing_host])
  apply (rule triple_then [OF triple_act [where Q = "\<lambda>_. closing c t (Ended x)"]])
   apply (simp add: closing_act)
  apply (rule triple_bind [OF closing_host])
  apply (rule triple_ret)
  apply assumption
  done

text \<open>The phases from which a run can fail.\<close>

definition open_phase :: "phase \<Rightarrow> bool" where
  "open_phase ph \<longleftrightarrow> ph = Running \<or> (\<exists>ans. ph = Accepted ans)"

lemma open_phase_error: "open_phase ph \<Longrightarrow> error_event e \<Longrightarrow> proto_step ph (AEmit e) = Some Failing"
  by (auto simp: open_phase_def progress_event_def memory_event_def error_event_def)

lemma open_phase_stop: "open_phase ph \<or> ph = Failing \<Longrightarrow> sti_reason i \<noteq> StopReasonResult \<Longrightarrow> proto_step ph (AStop i) = Some (Stopping None)"
  by (auto simp: open_phase_def)

text \<open>An error event was delivered, or the caller is gone.\<close>

lemma emitError_gen:
  assumes err: "\<And>e. error_event e \<Longrightarrow> proto_step ph (AEmit e) = Some ph'"
  shows "triple (in_phase c t 0 0 0 ph) (emitError c turn e) (\<lambda>_ s. closing c t ph s \<or> closing c t ph' s) N S"
proof -
  have "triple (in_phase c t 0 0 0 ph) (emit c (draft_event c turn EventError (PErr e)))
     (\<lambda>r s. closing c t ph s \<or> closing c t ph' s) N S"
  proof (rule emit_rule)
    fix s now p w assume a: "in_phase c t 0 0 0 ph s"
    let ?a = "AEmit ((draft_event c turn EventError (PErr e) now)\<lparr>ev_parent := p\<rparr>)"
    have "proto_step ph ?a = Some ph'" by (rule err) (simp add: error_event_def)
    from running_act [OF _ this, of c t 0 0 0 "s\<lparr>rs_world := w\<rparr>"] a
    have "in_phase c t 0 0 0 ph' (s\<lparr>rs_world := w, rs_log := rs_log s @ [?a]\<rparr>)" by simp
    then show "closing c t ph (s\<lparr>rs_world := w, rs_log := rs_log s @ [?a]\<rparr>) \<or> closing c t ph' (s\<lparr>rs_world := w, rs_log := rs_log s @ [?a]\<rparr>)"
      by (simp add: closing_def terminal_def)
  qed (simp add: closing_def)
  then show ?thesis unfolding emitError_def by (rule triple_bind) (rule triple_ret, assumption)
qed

lemma fail_run_step:
  assumes "open_phase ph" and "reason \<noteq> StopReasonResult" and "0 \<le> k" "0 \<le> q" "0 \<le> j"
  shows "triple (in_phase c t k q j ph) (fail_run c turn reason e) Q N (stopped c)"
proof -
  have em: "triple (in_phase c t k q j ph) (emitError c turn e) (\<lambda>_ s. closing c t ph s \<or> closing c t Failing s) N (stopped c)"
    by (rule triple_pre [OF _ emitError_gen]) (use assms running_weaken open_phase_error in \<open>blast+\<close>)
  have fin: "triple (\<lambda>s. closing c t ph s \<or> closing c t Failing s) (finish c turn reason (Some e)) (\<lambda>_. closing c t (Ended None)) N (stopped c)"
    unfolding triple_def
  proof (intro allI impI)
    fix s assume "closing c t ph s \<or> closing c t Failing s"
    then show "outcome (\<lambda>_. closing c t (Ended None)) N (stopped c) (finish c turn reason (Some e) s)"
      using finish_closing [of reason ph None c t turn "Some e" N "stopped c"]
        finish_closing [of reason Failing None c t turn "Some e" N "stopped c"] open_phase_stop assms(1,2)
      unfolding triple_def by blast
  qed
  show ?thesis
    unfolding fail_run_def
    by (rule triple_then [OF em triple_then [OF fin triple_stop]]) (auto intro: stoppedI)
qed

end
