(* ===== verification/Agent_Safety.thy ===== *)
theory Agent_Safety
  imports Agent_Protocol
begin

text \<open>
  Every step of the agent loop keeps the protocol and the resource bounds: one triple for each
  definition of \<open>Agent_Run\<close>, composed along its text, and the theorems about whole runs.
\<close>

section \<open>Host steps\<close>

lemma append_step: "triple (in_phase c t k q j Running) (append_message c m) (\<lambda>_. in_phase c t k q j Running) N S"
  unfolding append_message_def
  by (intro inv_intros running_host triple_act) (simp add: running_act)

lemma check_budget_inv: "triple (in_phase c t k q j ph) (check_budget c mk) (\<lambda>_. in_phase c t k q j ph) N S"
  unfolding check_budget_def by (intro inv_intros running_host)

lemma Policy_allows:
  assumes "checkBudget (op_budget (cf_opts c)) w sn = (w', None)"
    and "op_budget (cf_opts c) = Some (Policy_governor ctx clock p)"
  shows "keeps_limit (bp_model_calls p) (sn_model_calls sn)" "keeps_limit (bp_tool_calls p) (sn_tool_calls sn)"
proof -
  have "dc_allow (Policy_Check (ctx w) (clock w) p sn)"
    using assms by (auto simp: checkBudget_def Policy_governor_def Let_def split: if_splits)
  then have "within_budget p (resolve_snapshot (clock w) sn)"
    using Policy_Check_within [of "clock w" p sn] by (cases "ctx w") (auto simp: Policy_Check_def deny_with_def)
  then show "keeps_limit (bp_model_calls p) (sn_model_calls sn)" "keeps_limit (bp_tool_calls p) (sn_tool_calls sn)"
    by (auto simp: within_budget_def resolve_snapshot_def Let_def split: if_splits)
qed

text \<open>A granted check covers the calls it announced.\<close>

lemma check_budget_grant:
  assumes sn: "\<And>now tr. sn_model_calls (mk now tr) = bt_model_calls tr + m \<and> sn_tool_calls (mk now tr) = bt_tool_calls tr + n"
  shows "triple (in_phase c t k q j ph) (check_budget c mk)
    (\<lambda>r s. in_phase c t k q j ph s \<and> (r = None \<longrightarrow>
       call_limits c ((rs_tracker s)\<lparr>bt_model_calls := bt_model_calls (rs_tracker s) + m,
                                  bt_tool_calls := bt_tool_calls (rs_tracker s) + n\<rparr>))) N S"
  unfolding check_budget_def
  apply (rule triple_bind [OF running_host])
  apply (rule triple_bind [OF triple_local [where Q = "\<lambda>tr s. in_phase c t k q j ph s \<and> tr = rs_tracker s"]])
   apply simp
  apply (rule triple_host)
  apply (auto simp: call_limits_def dest: Policy_allows simp: sn)
  done

lemma set_tracker_rule: "(\<And>s. P s \<Longrightarrow> Q () (s\<lparr>rs_tracker := f (rs_tracker s)\<rparr>)) \<Longrightarrow> triple P (set_tracker f) Q N S"
  by (simp add: triple_def set_tracker_def)

section \<open>Context and prompt\<close>

lemma emitContextApplied_step:
  assumes "0 \<le> k" "0 \<le> q" "0 \<le> j"
  shows "triple (in_phase c t k q j Running) (emitContextApplied c turn a b) (\<lambda>_. in_phase c t k q j Running) N (stopped c)"
  unfolding emitContextApplied_def
  by (intro inv_intros running_host fail_run_step emit_progress) (use assms in \<open>simp_all add: open_phase_def progress_kind_def\<close>)

lemma record_compaction_step:
  assumes "0 \<le> k" "0 \<le> q" "0 \<le> j"
  shows "triple (in_phase c t k q j Running) (record_compaction c turn rc ms r) (\<lambda>_. in_phase c t k q j Running) N (stopped c)"
  unfolding record_compaction_def saveContextCompaction_def
  by (intro inv_intros running_host emit_progress) (use assms in \<open>simp_all add: progress_kind_def\<close>)

lemma load_view_step:
  assumes "0 \<le> k" "0 \<le> q" "0 \<le> j"
  shows "triple (in_phase c t k q j Running) (load_view c turn) (\<lambda>_. in_phase c t k q j Running) N (stopped c)"
  unfolding load_view_def
  by (intro inv_intros check_budget_inv fail_run_step) (use assms in \<open>simp_all add: open_phase_def\<close>)

text \<open>The messages of the turn are prepared, with and without a context policy.\<close>

lemma apply_context_step:
  assumes "0 \<le> k" "0 \<le> q" "0 \<le> j"
  shows "triple (in_phase c t k q j Running) (apply_context c turn view)
    (\<lambda>ms s. in_phase c t k q j Running s \<and> tool_answered ms) N (stopped c)"
  unfolding apply_context_def Let_def
  by (intro bind_inv then_inv triple_option triple_sum triple_if running_host fail_run_step emitContextApplied_step
      record_compaction_step ret_inv triple_ret)
    (use assms in \<open>simp_all add: open_phase_def prepare_answered\<close>)

lemma selectedToolSpecs_inv: "triple (in_phase c t k q j ph) (selectedToolSpecs c ms) (\<lambda>_. in_phase c t k q j ph) N S"
  unfolding selectedToolSpecs_def by (intro inv_intros running_host)

lemma buildPrompt_inv: "triple (in_phase c t k q j ph) (buildPrompt c ms ts) (\<lambda>_. in_phase c t k q j ph) N S"
  unfolding buildPrompt_def loadPlan_def by (intro inv_intros running_host)

lemma retryContextWindow_inv: "triple (in_phase c t k q j ph) (retryContextWindow c ms) (\<lambda>_. in_phase c t k q j ph) N S"
  unfolding retryContextWindow_def by (intro inv_intros running_host selectedToolSpecs_inv buildPrompt_inv)

section \<open>Model calls\<close>

lemma emitSkillDiscovery_step:
  assumes "0 \<le> k" "0 \<le> q" "0 \<le> j"
  shows "triple (in_phase c t k q j Running) (emitSkillDiscovery c turn d) (\<lambda>_. in_phase c t k q j Running) N (stopped c)"
  unfolding emitSkillDiscovery_def
  by (intro inv_intros emit_progress) (use assms in \<open>simp_all add: progress_kind_def\<close>)

lemma emitTenantDeniedError_step:
  assumes "0 \<le> k" "0 \<le> q" "0 \<le> j"
  shows "triple (in_phase c t k q j Running) (emitTenantDeniedError c turn e) (\<lambda>_. in_phase c t k q j Running) N (stopped c)"
  unfolding emitTenantDeniedError_def Let_def
  by (intro inv_intros emit_tenant_denied assms)

text \<open>A checked call is taken from the two of its turn and counted ahead of the request.\<close>

lemma admit_model_call_step:
  assumes "0 \<le> k" "0 \<le> q" "0 \<le> j"
  shows "triple (in_phase c t (k + 1) q j Running) (admit_model_call c turn) (\<lambda>_. in_phase c t k (q + 1) j Running) N (stopped c)"
proof -
  have grant: "triple (in_phase c t (k + 1) q j Running) (check_budget c (\<lambda>now tr. withModelCalls now tr 1))
    (\<lambda>r s. in_phase c t (k + 1) q j Running s \<and> (r = None \<longrightarrow>
       call_limits c ((rs_tracker s)\<lparr>bt_model_calls := bt_model_calls (rs_tracker s) + 1,
                                  bt_tool_calls := bt_tool_calls (rs_tracker s) + 0\<rparr>))) N (stopped c)"
    by (rule check_budget_grant) (simp add: withModelCalls_def tracker_snapshot_def)
  show ?thesis
    unfolding admit_model_call_def
  proof (rule triple_bind [OF grant], rule triple_option)
    fix r :: "err option"
    assume "r = None"
    then show "triple (\<lambda>s. in_phase c t (k + 1) q j Running s \<and> (r = None \<longrightarrow>
       call_limits c ((rs_tracker s)\<lparr>bt_model_calls := bt_model_calls (rs_tracker s) + 1,
                                  bt_tool_calls := bt_tool_calls (rs_tracker s) + 0\<rparr>)))
      (set_tracker (\<lambda>t. t\<lparr>bt_model_calls := bt_model_calls t + 1\<rparr>)) (\<lambda>_. in_phase c t k (q + 1) j Running) N (stopped c)"
      by (intro set_tracker_rule) (auto simp: in_phase_def bounds_def call_limits_def)
  next
    fix r e
    show "triple (\<lambda>s. in_phase c t (k + 1) q j Running s \<and> (r = None \<longrightarrow>
       call_limits c ((rs_tracker s)\<lparr>bt_model_calls := bt_model_calls (rs_tracker s) + 1,
                                  bt_tool_calls := bt_tool_calls (rs_tracker s) + 0\<rparr>)))
      (fail_run c turn StopReasonBudget e) (\<lambda>_. in_phase c t k (q + 1) j Running) N (stopped c)"
      by (rule triple_pre [OF _ fail_run_step [where ph = Running and k = "k + 1" and q = q and j = j and t = t]])
        (use assms in \<open>auto simp: open_phase_def\<close>)
  qed
qed

lemma call_model_step:
  assumes "tool_answered (mr_messages req)"
  shows "triple (in_phase c t k (q + 1) j Running) (call_model c req) (\<lambda>_. in_phase c t k q j Running) N S"
  unfolding call_model_def
  by (rule triple_then [OF triple_act running_host]) (use assms in \<open>simp add: in_phase_def bounds_def\<close>)

lemma the_request_messages [simp]: "mr_messages (the_request c ms ts p) = ms"
  by (simp add: the_request_def)

lemmas admit1 = admit_model_call_step [where k = 1 and q = 0 and j = 0, simplified]
lemmas admit0 = admit_model_call_step [where k = 0 and q = 0 and j = 0, simplified]
lemmas call1 = call_model_step [where q = 0, simplified]

lemma retry_stream_step:
  "triple (in_phase c t 1 0 0 Running) (retry_stream c turn rc ms e) (\<lambda>_. in_phase c t 0 0 0 Running) N (stopped c)"
  unfolding retry_stream_def Let_def
  apply (rule bind_inv [OF retryContextWindow_inv])
  apply (rule triple_sum)
   apply (rule fail_run_step; simp add: open_phase_def)
  apply (rule triple_pair)+
  apply (rule then_inv)
   apply (rule triple_if)
    apply (rule emitContextApplied_step; simp)
   apply (rule ret_inv)
  apply (rule then_inv [OF record_compaction_step]; simp?)
  apply (rule then_inv [OF emitSkillDiscovery_step]; simp?)
  apply (rule triple_then [OF admit0])
  apply (rule triple_bind [OF call1])
   apply (simp add: prepare_answered)
  apply (rule triple_sum)
   apply (rule fail_run_step; simp add: open_phase_def)
  apply (rule ret_inv)
  done

lemma stream_model_step:
  assumes "tool_answered ms"
  shows "triple (in_phase c t 2 0 0 Running) (stream_model c turn rc ms) (\<lambda>_. in_phase c t 0 0 0 Running) N (stopped c)"
  unfolding stream_model_def validateTenantBoundary_def
  apply (rule bind_inv [OF selectedToolSpecs_inv])
  apply (rule triple_sum)
   apply (rule fail_run_step; simp add: open_phase_def)
  apply (rule bind_inv [OF buildPrompt_inv])
  apply (rule triple_sum)
   apply (rule fail_run_step; simp add: open_phase_def)
  apply (rule bind_inv [OF running_host])
  apply (rule triple_option)
   apply (rule triple_then [OF admit1])
   apply (rule then_inv [OF emit_progress]; (simp add: progress_kind_def)?)
   apply (rule then_inv [OF emitSkillDiscovery_step]; simp?)
   apply (rule triple_bind [OF call1])
    apply (simp add: assms)
   apply (rule triple_sum)
    apply (rule triple_if)
     apply (rule retry_stream_step)
    apply (rule fail_run_step; simp add: open_phase_def)
   apply (rule triple_ret)
   apply (simp add: running_weaken)
  apply (rule then_inv [OF emitTenantDeniedError_step]; simp?)
  apply (rule fail_run_step; simp add: open_phase_def)
  done

section \<open>Collecting the stream\<close>

text \<open>The early results belong to distinct uses collected so far.\<close>

definition early_ok :: "collected \<Rightarrow> bool" where
  "early_ok a \<longleftrightarrow> distinct (map fst (ca_early a)) \<and> list_all (\<lambda>p. fst p < length (ca_uses a)) (ca_early a)"

lemma startEarlyTool_step:
  "triple (in_phase c t 0 0 0 Running) (startEarlyTool c u) (\<lambda>_. in_phase c t 0 0 0 Running) N S"
proof -
  have grant: "triple (in_phase c t 0 0 0 Running) (check_budget c (\<lambda>now tr. withToolCalls now tr 1))
    (\<lambda>r s. in_phase c t 0 0 0 Running s \<and> (r = None \<longrightarrow>
       call_limits c ((rs_tracker s)\<lparr>bt_model_calls := bt_model_calls (rs_tracker s) + 0,
                                  bt_tool_calls := bt_tool_calls (rs_tracker s) + 1\<rparr>))) N S"
    by (rule check_budget_grant) (simp add: withToolCalls_def tracker_snapshot_def)
  show ?thesis
    unfolding startEarlyTool_def
    apply (rule triple_if)
     apply (rule ret_inv)
    apply (rule triple_bind [OF grant])
    apply (rule triple_option)
     apply (rule triple_then [OF set_tracker_rule [where Q = "\<lambda>_. in_phase c t 0 0 1 Running"]])
      apply (auto simp: in_phase_def bounds_def call_limits_def) []
     apply (rule triple_then [OF triple_act [where Q = "\<lambda>_. in_phase c t 0 0 0 Running"]])
      apply (auto simp: in_phase_def bounds_def) []
     apply (rule bind_inv [OF running_host])
     apply (rule ret_inv)
    apply (rule triple_ret)
    apply simp
    done
qed

lemma collect_event_step:
  assumes "early_ok a"
  shows "triple (in_phase c t 0 0 0 Running) (collect_event c turn a e)
    (\<lambda>r s. in_phase c t 0 0 0 Running s \<and> early_ok (fst r)) N S"
proof -
  have say: "early_ok a' \<Longrightarrow> progress_kind kd \<Longrightarrow>
      triple (in_phase c t 0 0 0 Running) (bindr (emit c (draft_event c turn kd p)) (\<lambda>r. ret (a', r)))
        (\<lambda>r s. in_phase c t 0 0 0 Running s \<and> early_ok (fst r)) N S" for a' kd p
    by (rule triple_bind [OF emit_collect triple_ret]) auto
  have eq: "early_ok (a\<lparr>ca_text := n\<rparr>)" "early_ok (a\<lparr>ca_text := n, ca_blocks := bs\<rparr>)" "early_ok (a\<lparr>ca_blocks := bs\<rparr>)"
    "early_ok (a\<lparr>ca_usage := us\<rparr>)" "early_ok (a\<lparr>ca_uses := ca_uses a @ [u], ca_blocks := bs\<rparr>)"
    "early_ok (a\<lparr>ca_uses := ca_uses a @ [u], ca_blocks := bs, ca_early := ca_early a @ [(length (ca_uses a), rs)]\<rparr>)"
    for n bs us u rs
    using assms by (auto simp: early_ok_def list_all_iff)
  have fin: "early_ok a' \<Longrightarrow> triple (in_phase c t 0 0 0 Running) (ret (a', x))
      (\<lambda>r s. in_phase c t 0 0 0 Running s \<and> early_ok (fst r)) N S" for a' x
    by (rule triple_ret) simp
  show ?thesis
  proof (cases e)
    case (StreamText tx)
    obtain n out where nz: "nz_push (en_unicode (cf_env c)) (ca_text a) tx = (n, out)" by (rule prod.exhaust)
    show ?thesis unfolding collect_event_def StreamText Let_def stream_event.case nz prod.case
      by (intro triple_if fin say) (simp_all add: eq progress_kind_def)
  next
    case (StreamToolUse u)
    show ?thesis unfolding collect_event_def StreamToolUse Let_def stream_event.case
      apply (rule bind_inv [OF emit_collect])
       apply (simp add: progress_kind_def)
      apply (rule triple_option)
       apply (rule bind_inv [OF startEarlyTool_step])
       apply (rule triple_ret)
       apply (simp add: eq split: sum.split option.split)
      apply (rule fin)
      apply (simp add: eq)
      done
  qed (auto simp: collect_event_def eq progress_kind_def assms intro!: say fin split: option.split)
qed

lemma collectAssistant_step:
  "early_ok a \<Longrightarrow> triple (in_phase c t 0 0 0 Running) (collectAssistant c turn fin a es)
    (\<lambda>r s. in_phase c t 0 0 0 Running s \<and> early_ok (fst r)) N S"
proof (induction es arbitrary: a)
  case Nil
  then show ?case by (simp add: triple_ret)
next
  case (Cons e es)
  show ?case unfolding collectAssistant.simps
  proof (rule triple_bind [OF collect_event_step [OF Cons.prems]])
    fix r :: "collected \<times> err option"
    obtain a' x where r: "r = (a', x)" by (rule prod.exhaust)
    show "triple (\<lambda>s. in_phase c t 0 0 0 Running s \<and> early_ok (fst r))
        (case r of (a', Some x) \<Rightarrow> ret (a', Some x) | (a', None) \<Rightarrow> collectAssistant c turn fin a' es)
        (\<lambda>r s. in_phase c t 0 0 0 Running s \<and> early_ok (fst r)) N S"
    proof (cases "early_ok a'")
      case True
      then show ?thesis using Cons.IH [OF True] by (cases x) (simp_all add: r triple_ret)
    next
      case False
      then show ?thesis by (intro triple_false) (simp add: r)
    qed
  qed
qed

section \<open>Stream errors\<close>

lemma canceled_step:
  "triple (in_phase c t 0 0 0 Running) (emitCanceledEarlyToolResults c turn us e early) (\<lambda>_. in_phase c t 0 0 0 Running) N S"
proof (induction early)
  case (Cons p early)
  obtain i rs where p: "p = (i, rs)" by (rule prod.exhaust)
  show ?case unfolding p emitCanceledEarlyToolResults.simps Let_def
    by (intro inv_intros running_host emit_collect append_step Cons.IH) (simp_all add: progress_kind_def)
qed (simp add: ret_inv)

lemma open_phase_settled: "open_phase ph \<Longrightarrow> settled ph"
  by (auto simp: open_phase_def)

lemma error_exit: "open_phase ph \<Longrightarrow> triple (in_phase c t 0 0 0 ph) (thenr (emitError c turn e) stop_run) Q N (stopped c)"
  by (rule triple_then [OF emitError_gen triple_stop]) (auto simp: open_phase_error intro: stoppedI dest: open_phase_settled)

lemma stream_failed_step: "triple (in_phase c t 0 0 0 Running) (stream_failed c turn a e) Q N (stopped c)"
  unfolding stream_failed_def
  by (intro bind_inv triple_option triple_if append_step ret_inv canceled_step fail_run_step error_exit)
    (simp_all add: open_phase_def)

section \<open>The final answer\<close>

lemma append_next:
  "triple (in_phase c t 0 0 0 Running)
     (bindr (append_message c m) (\<lambda>r. case r of Some e \<Rightarrow> fail_run c turn StopReasonError (f e) | None \<Rightarrow> next_turn))
     Q (in_phase c t 0 0 0 Running) (stopped c)"
  by (intro bind_inv [OF append_step] triple_option fail_run_step triple_next) (simp_all add: open_phase_def)

lemma final_denied_step:
  "triple (in_phase c t 0 0 0 Running) (final_denied c turn deny) Q (in_phase c t 0 0 0 Running) (stopped c)"
  unfolding final_denied_def
proof (rule triple_bind [OF triple_local [where Q = "\<lambda>n s. in_phase c t 0 0 0 Running s \<and> n = rs_final_denials s"]])
  fix n
  show "triple (\<lambda>s. in_phase c t 0 0 0 Running s \<and> n = rs_final_denials s)
      (if finalDenialLimit (op_max_final_denials (cf_opts c)) \<le> n then
         fail_run c turn StopReasonPolicy (EText (''finalization denied after '' @ show_int n @ '' retries: '' @ trim_space deny))
       else thenr count_final_denial (bindr (append_message c (user_message (finalRetryPrompt deny)))
         (\<lambda>r. case r of None \<Rightarrow> next_turn | Some e \<Rightarrow> fail_run c turn StopReasonError (EWrap ''append finalization retry prompt: '' e))))
      Q (in_phase c t 0 0 0 Running) (stopped c)"
  proof (rule triple_if)
    assume "\<not> finalDenialLimit (op_max_final_denials (cf_opts c)) \<le> n"
    then have "triple (\<lambda>s. in_phase c t 0 0 0 Running s \<and> n = rs_final_denials s) count_final_denial
        (\<lambda>_. in_phase c t 0 0 0 Running) (in_phase c t 0 0 0 Running) (stopped c)"
      by (auto simp: triple_def count_final_denial_def in_phase_def bounds_def)
    from triple_then [OF this append_next] show "triple (\<lambda>s. in_phase c t 0 0 0 Running s \<and> n = rs_final_denials s)
        (thenr count_final_denial (bindr (append_message c (user_message (finalRetryPrompt deny)))
         (\<lambda>r. case r of None \<Rightarrow> next_turn | Some e \<Rightarrow> fail_run c turn StopReasonError (EWrap ''append finalization retry prompt: '' e))))
        Q (in_phase c t 0 0 0 Running) (stopped c)" .
  qed (rule triple_pre [OF _ fail_run_step [where ph = Running and k = 0 and q = 0 and j = 0]], auto simp: open_phase_def)
qed simp

lemma output_invalid_step:
  "triple (in_phase c t 0 0 0 Running) (output_invalid c turn e) Q (in_phase c t 0 0 0 Running) (stopped c)"
  unfolding output_invalid_def
proof (rule triple_bind [OF triple_local [where Q = "\<lambda>n s. in_phase c t 0 0 0 Running s \<and> n = rs_output_retries s"]])
  fix n
  show "triple (\<lambda>s. in_phase c t 0 0 0 Running s \<and> n = rs_output_retries s)
      (if n < Contract_RetryLimit (ov_contract (cf_output c)) then
         thenr count_output_retry (bindr (append_message c (user_message (outputRetryPrompt (Some e))))
         (\<lambda>r. case r of None \<Rightarrow> next_turn | Some x \<Rightarrow> fail_run c turn StopReasonError (EWrap ''append output validation retry prompt: '' x)))
       else fail_run c turn StopReasonError (EWrap ''validate structured output: '' e))
      Q (in_phase c t 0 0 0 Running) (stopped c)"
  proof (rule triple_if)
    assume "n < Contract_RetryLimit (ov_contract (cf_output c))"
    then have "triple (\<lambda>s. in_phase c t 0 0 0 Running s \<and> n = rs_output_retries s) count_output_retry
        (\<lambda>_. in_phase c t 0 0 0 Running) (in_phase c t 0 0 0 Running) (stopped c)"
      by (auto simp: triple_def count_output_retry_def in_phase_def bounds_def)
    from triple_then [OF this append_next] show "triple (\<lambda>s. in_phase c t 0 0 0 Running s \<and> n = rs_output_retries s)
        (thenr count_output_retry (bindr (append_message c (user_message (outputRetryPrompt (Some e))))
         (\<lambda>r. case r of None \<Rightarrow> next_turn | Some x \<Rightarrow> fail_run c turn StopReasonError (EWrap ''append output validation retry prompt: '' x))))
        Q (in_phase c t 0 0 0 Running) (stopped c)" .
  qed (rule triple_pre [OF _ fail_run_step [where ph = Running and k = 0 and q = 0 and j = 0]], auto simp: open_phase_def)
qed simp

lemma offer_candidates_step:
  "triple (in_phase c t 0 0 0 (Accepted ans)) (offer_candidates c turn d p r cs) (\<lambda>_. in_phase c t 0 0 0 (Accepted ans)) N (stopped c)"
  unfolding offer_candidates_def handleMemoryCandidates_def
  by (intro inv_intros running_host emit_or_stop_step) (simp_all add: memory_event_def)

text \<open>The result event follows the stop hooks, and only if they succeed.\<close>

lemma deliver_result_step:
  "triple (in_phase c t 0 0 0 (Accepted ans)) (deliver_result c turn ans) Q N (stopped c)"
  unfolding deliver_result_def
  apply (rule triple_bind [OF finish_step [where x = "Some ans"]])
   apply simp
  apply (rule triple_option)
   apply (rule bind_inv [OF local_inv])
   apply (rule triple_then [OF emit_rule [where Q = "\<lambda>_. stopped c"] triple_stop])
     apply (rule stoppedI [of _ t Over])
      apply (simp_all add: in_phase_def bounds_def result_event_def terminal_def closing_def)
    apply (rule stoppedI [of _ t "Ended (Some ans)"])
     apply (simp_all add: in_phase_def bounds_def closing_def)
  apply (rule triple_then [OF emitError_gen [where ph' = Over] triple_stop])
   apply (auto simp: result_event_def in_phase_def bounds_def intro: stoppedI)
  done

lemma act_step:
  "proto_step ph a = Some ph' \<Longrightarrow> quiet a \<Longrightarrow> triple (in_phase c t k q j ph) (act a) (\<lambda>_. in_phase c t k q j ph') N S"
  by (rule triple_act) (rule running_act)

lemma finalize_step:
  "triple (in_phase c t 0 0 0 Running) (finalize c turn d p a) Q (in_phase c t 0 0 0 Running) (stopped c)"
  unfolding finalize_def Let_def
  apply (rule bind_inv [OF running_host])
  apply (rule triple_sum)
   apply (rule fail_run_step; simp add: open_phase_def)
  subgoal for g deny
    apply (cases "deny = []")
     apply simp
     apply (rule triple_then [OF act_step [where ph' = "Gated (PlainText (assistant_message a))"]])
       apply simp
      apply simp
     apply (rule bind_inv [OF local_inv])
     subgoal for v
       apply (cases v)
        apply simp
        apply (rule triple_then [OF act_step [where ph' = "Accepted (PlainText (assistant_message a))"]])
          apply simp
         apply simp
        apply (unfold distillMemories_def)
        apply (rule bind_inv)
         apply (intro inv_intros running_host)
        apply (rule triple_sum)
         apply (rule fail_run_step; simp add: open_phase_def)
        apply (rule then_inv [OF offer_candidates_step deliver_result_step])
       apply simp
       apply (rule triple_then [OF act_step [where ph' = Running] output_invalid_step])
        apply simp
       apply simp
       done
    apply simp
    apply (rule triple_then [OF act_step [where ph' = Running] final_denied_step])
     apply simp
    apply simp
    done
  done

section \<open>The tool phase\<close>

lemma tool_event_kinds:
  "list_all (\<lambda>d. progress_kind (fst d)) (skill_tool_events r @ workspace_tool_events r @ verification_tool_events r
     @ approval_tool_events r @ command_tool_events r)"
  by (simp add: skill_tool_events_def workspace_tool_events_def verification_tool_events_def approval_tool_events_def
      command_tool_events_def Let_def progress_kind_def)

lemma emit_drafts_step:
  "list_all (\<lambda>d. progress_kind (fst d)) ds \<Longrightarrow> 0 \<le> j \<Longrightarrow>
     triple (in_phase c t 0 0 j Running) (emit_drafts c turn ds) (\<lambda>_. in_phase c t 0 0 j Running) N (stopped c)"
proof (induction ds)
  case (Cons d ds)
  obtain kd p where d: "d = (kd, p)" by (rule prod.exhaust)
  show ?case unfolding d emit_drafts.simps
    by (rule then_inv [OF emit_progress]) (use Cons d in simp_all)
qed (simp add: ret_inv)

lemma handleToolResult_step:
  assumes "0 \<le> j"
  shows "triple (in_phase c t 0 0 j Running) (handleToolResult c turn r) (\<lambda>_. in_phase c t 0 0 j Running) N (stopped c)"
  unfolding handleToolResult_def emitTenantToolEvent_def
  by (intro then_inv bind_inv triple_if ret_inv emit_progress emit_tenant_denied emit_drafts_step append_step triple_option
      fail_run_step) (use assms tool_event_kinds in \<open>simp_all add: progress_kind_def open_phase_def\<close>)

lemma handle_results_step:
  "0 \<le> j \<Longrightarrow> triple (in_phase c t 0 0 j Running) (handle_results c turn rs) (\<lambda>_. in_phase c t 0 0 j Running) N (stopped c)"
  by (induction rs) (simp_all add: ret_inv then_inv [OF handleToolResult_step])

text \<open>Executing uses spends what was counted ahead for them.\<close>

lemma run_uses_step:
  "triple (in_phase c t 0 0 (j + int (length us)) Running) (run_uses c us) (\<lambda>_. in_phase c t 0 0 j Running) N S"
  unfolding run_uses_def
  by (rule triple_then [OF triple_act running_host]) (auto simp: in_phase_def bounds_def)

definition not_early :: "(nat \<times> tool_result list) list \<Rightarrow> nat \<times> tool_use \<Rightarrow> bool" where
  "not_early early p \<longleftrightarrow> map_of early (fst p) = None"

lemma tools_loop_step:
  "triple (in_phase c t 0 0 (int (length (filter (not_early early) us))) Running) (tools_loop c turn early us)
     (\<lambda>_. in_phase c t 0 0 0 Running) N (stopped c)"
proof (induction c turn early us rule: tools_loop.induct)
  case (2 c turn early i u us)
  let ?P = "\<lambda>p. map_of early (fst p) = None"
  show ?case
  proof (cases "map_of early i")
    case (Some rs)
    then show ?thesis using then_inv [OF handle_results_step "2.IH"(2) [OF Some]] by (simp add: not_early_def)
  next
    case None
    let ?seg = "u # map snd (takeWhile ?P us)" and ?rest = "dropWhile ?P us"
    let ?n = "int (length (filter (not_early early) ?rest))"
    have "length (filter (not_early early) us) = length (takeWhile ?P us) + length (filter (not_early early) ?rest)"
    proof -
      have "filter (not_early early) (takeWhile ?P us) = takeWhile ?P us"
        unfolding not_early_def by (auto simp: filter_id_conv dest: set_takeWhileD)
      then show ?thesis by (metis filter_append length_append takeWhile_dropWhile_id)
    qed
    then have n: "int (length (filter (not_early early) ((i, u) # us))) = ?n + int (length ?seg)"
      using None by (simp add: not_early_def)
    have run: "triple (in_phase c t 0 0 (?n + int (length ?seg)) Running) (run_uses c ?seg) (\<lambda>_. in_phase c t 0 0 ?n Running) N (stopped c)"
      by (rule run_uses_step)
    have step: "tools_loop c turn early ((i, u) # us) = bindr (run_uses c ?seg) (\<lambda>rs.
        thenr (handle_results c turn rs) (tools_loop c turn early ?rest))" using None by simp
    show ?thesis unfolding n step
      by (rule triple_bind [OF run then_inv [OF handle_results_step "2.IH"(1) [OF None]]]) simp
  qed
qed (simp add: ret_inv)

lemma early_count:
  assumes "early_ok a"
  shows "int (length (filter (not_early (ca_early a)) (enumerate 0 (ca_uses a)))) = int (length (ca_uses a)) - int (length (ca_early a))"
    and "length (ca_early a) \<le> length (ca_uses a)"
proof -
  let ?us = "enumerate 0 (ca_uses a)" and ?E = "set (map fst (ca_early a))"
  have E: "?E \<subseteq> {0..<length (ca_uses a)}" using assms by (auto simp: early_ok_def list_all_iff)
  have cE: "card ?E = length (ca_early a)" using assms distinct_card [of "map fst (ca_early a)"] by (simp add: early_ok_def)
  have "length (filter (\<lambda>p. \<not> not_early (ca_early a) p) ?us) = length (filter (\<lambda>i. i \<in> ?E) (map fst ?us))"
  proof -
    have "filter (\<lambda>i. i \<in> ?E) (map fst ?us) = map fst (filter (\<lambda>p. fst p \<in> ?E) ?us)" by (simp only: filter_map comp_def)
    moreover have "(\<lambda>p. \<not> not_early (ca_early a) p) = (\<lambda>p. fst p \<in> ?E)"
      by (rule ext) (simp add: not_early_def map_of_eq_None_iff)
    ultimately show ?thesis by (simp only: length_map)
  qed
  also have "\<dots> = card ({0..<length (ca_uses a)} \<inter> ?E)"
  proof -
    have "distinct (filter (\<lambda>i. i \<in> ?E) (map fst ?us))" by simp
    then have "length (filter (\<lambda>i. i \<in> ?E) (map fst ?us)) = card (set (filter (\<lambda>i. i \<in> ?E) (map fst ?us)))"
      by (metis distinct_card)
    then show ?thesis by (simp add: Int_def conj_commute)
  qed
  also have "\<dots> = length (ca_early a)" using E cE by (metis inf.absorb_iff2)
  finally have "length (filter (\<lambda>p. \<not> not_early (ca_early a) p) ?us) = length (ca_early a)" .
  with length_filter_partition [of "not_early (ca_early a)" ?us]
  show "int (length (filter (not_early (ca_early a)) ?us)) = int (length (ca_uses a)) - int (length (ca_early a))"
    and "length (ca_early a) \<le> length (ca_uses a)" by simp_all
qed

lemma run_tools_step:
  assumes "early_ok a"
  shows "triple (in_phase c t 0 0 0 Running) (run_tools c turn a) (\<lambda>_. in_phase c t 0 0 0 Running) N (stopped c)"
proof -
  let ?n = "int (length (ca_uses a)) - int (length (ca_early a))"
  have grant: "triple (in_phase c t 0 0 0 Running) (check_budget c (\<lambda>now tr. withToolCalls now tr ?n))
    (\<lambda>r s. in_phase c t 0 0 0 Running s \<and> (r = None \<longrightarrow>
       call_limits c ((rs_tracker s)\<lparr>bt_model_calls := bt_model_calls (rs_tracker s) + 0,
                                  bt_tool_calls := bt_tool_calls (rs_tracker s) + ?n\<rparr>))) N (stopped c)"
    by (rule check_budget_grant) (simp add: withToolCalls_def tracker_snapshot_def)
  show ?thesis
    unfolding run_tools_def Let_def
    apply (rule triple_bind [OF grant])
    apply (rule triple_option)
     apply (rule triple_then [OF set_tracker_rule [where Q = "\<lambda>_. in_phase c t 0 0 ?n Running"]])
      apply (auto simp: in_phase_def bounds_def call_limits_def) []
     apply (rule tools_loop_step [of c t "ca_early a" "enumerate 0 (ca_uses a)", unfolded early_count(1) [OF assms]])
    apply (rule triple_pre [OF _ fail_run_step [where ph = Running and k = 0 and q = 0 and j = 0]])
        apply (auto simp: open_phase_def)
    done
qed

section \<open>One turn and the loop\<close>

lemma stream_done_step:
  assumes "early_ok a"
  shows "triple (in_phase c t 0 0 0 Running) (stream_done c turn d p a) (\<lambda>_. in_phase c t 0 0 0 Running)
    (in_phase c t 0 0 0 Running) (stopped c)"
  unfolding stream_done_def Let_def
  by (intro bind_inv check_budget_inv triple_option triple_if append_step ret_inv finalize_step fail_run_step
      run_tools_step [OF assms]) (simp_all add: open_phase_def)

lemma consume_stream_step:
  "triple (in_phase c t 0 0 0 Running) (consume_stream c turn d st pr) (\<lambda>_. in_phase c t 0 0 0 Running)
    (in_phase c t 0 0 0 Running) (stopped c)"
  unfolding consume_stream_def
proof (rule triple_bind [OF collectAssistant_step])
  show "early_ok new_collected" by (simp add: early_ok_def new_collected_def)
  fix r :: "collected \<times> err option"
  obtain a e0 where r: "r = (a, e0)" by (rule prod.exhaust)
  let ?I = "in_phase c t 0 0 0 Running"
  have u: "triple ?I (set_usage f) (\<lambda>_. ?I) ?I (stopped c)" for f
    by (simp add: triple_def set_usage_def in_phase_def bounds_def)
  have tr: "triple ?I (set_tracker (\<lambda>t. t\<lparr>bt_usage := us\<rparr>)) (\<lambda>_. ?I) ?I (stopped c)" for us
    by (rule set_tracker_rule) (simp add: in_phase_def bounds_def call_limits_def)
  show "triple (\<lambda>s. ?I s \<and> early_ok (fst r))
      (case r of (a, e0) \<Rightarrow> thenr (set_usage (\<lambda>u. usage_add u (ca_usage a)))
         (bindr (local rs_usage) (\<lambda>u. thenr (set_tracker (\<lambda>t. t\<lparr>bt_usage := u\<rparr>))
           (case case e0 of None \<Rightarrow> sm_close st | Some x \<Rightarrow> Some x of None \<Rightarrow> stream_done c turn d (bu_plan pr) a
             | Some e \<Rightarrow> stream_failed c turn a e))))
      (\<lambda>_. ?I) ?I (stopped c)"
  proof (cases "early_ok a")
    case True
    show ?thesis unfolding r prod.case
      by (rule triple_pre [where P' = ?I]) (simp, intro then_inv [OF u] bind_inv [OF local_inv] then_inv [OF tr] triple_option
          stream_done_step [OF True] stream_failed_step)
  qed (intro triple_false, simp add: r)
qed

lemma run_turn_step:
  assumes "t + 1 \<le> op_max_turns (cf_opts c)"
  shows "triple (in_phase c t 0 0 0 Running) (run_turn c (t + 1)) (\<lambda>_. in_phase c (t + 1) 0 0 0 Running)
    (in_phase c (t + 1) 0 0 0 Running) (stopped c)"
  unfolding run_turn_def
  apply (rule triple_then [OF set_tracker_rule [where Q = "\<lambda>_. in_phase c (t + 1) 2 0 0 Running"]])
   apply (use assms in \<open>auto simp: in_phase_def bounds_def call_limits_def\<close>) []
  apply (rule bind_inv [OF load_view_step]; simp?)
  apply (rule triple_bind [OF apply_context_step]; simp?)
  subgoal for view ms
    apply (cases "tool_answered ms")
     apply (rule triple_pre [where P' = "in_phase c (t + 1) 2 0 0 Running"], simp)
     apply (rule triple_bind [OF stream_model_step], assumption)
     apply (rule triple_pair)
     apply (rule consume_stream_step)
    apply (rule triple_false, simp)
    done
  done

lemma run_turns_step:
  "t + int n = op_max_turns (cf_opts c) \<Longrightarrow>
     triple (in_phase c t 0 0 0 Running) (run_turns c (t + 1) n) (\<lambda>_. stopped c) (stopped c) (stopped c)"
proof (induction n arbitrary: t)
  case 0
  have "run_turns c (t + 1) 0 = fail_run c (op_max_turns (cf_opts c)) StopReasonMaxTurns
       (EText (''max turns exceeded: '' @ show_int (op_max_turns (cf_opts c))))" by (rule ext) simp
  then show ?case by (simp only:) (rule fail_run_step; simp add: open_phase_def)
next
  case (Suc n)
  have turn: "triple (in_phase c t 0 0 0 Running) (run_turn c (t + 1)) (\<lambda>_. in_phase c (t + 1) 0 0 0 Running)
    (in_phase c (t + 1) 0 0 0 Running) (stopped c)"
    by (rule run_turn_step) (use Suc.prems in simp)
  have rest: "triple (in_phase c (t + 1) 0 0 0 Running) (run_turns c (t + 1 + 1) n) (\<lambda>_. stopped c) (stopped c) (stopped c)"
    by (rule Suc.IH) (use Suc.prems in simp)
  show ?case unfolding triple_def
  proof (intro allI impI)
    fix s assume s: "in_phase c t 0 0 0 Running s"
    obtain s' r where r: "run_turn c (t + 1) s = (s', r)" by (rule prod.exhaust)
    from triple_run [OF turn s r] rest
    show "outcome (\<lambda>_. stopped c) (stopped c) (stopped c) (run_turns c (t + 1) (Suc n) s)"
      by (cases r) (simp_all add: r triple_def)
  qed
qed

lemma runLoop_stopped:
  assumes "0 \<le> op_max_turns (cf_opts c)" and "in_phase c 0 0 0 0 Idle s" and "executed (rs_log s) = []"
  shows "stopped c (fst (runLoop c s))"
proof -
  have "triple (\<lambda>s. in_phase c 0 0 0 0 Idle s \<and> executed (rs_log s) = []) (runLoop c) (\<lambda>_. stopped c) (stopped c) (stopped c)"
    unfolding runLoop_def
  proof (rule triple_bind)
    show "triple (\<lambda>s. in_phase c 0 0 0 0 Idle s \<and> executed (rs_log s) = []) (emit c (draft_event c 0 EventSessionStarted NoPayload))
        (\<lambda>r s. case r of None \<Rightarrow> in_phase c 0 0 0 0 Running s \<and> executed (rs_log s) = []
                     | Some _ \<Rightarrow> in_phase c 0 0 0 0 Idle s \<and> \<not> delivers c) (stopped c) (stopped c)"
      by (rule emit_rule) (auto simp: in_phase_def bounds_def)
    fix r :: "err option"
    show "triple (\<lambda>s. case r of None \<Rightarrow> in_phase c 0 0 0 0 Running s \<and> executed (rs_log s) = []
            | Some _ \<Rightarrow> in_phase c 0 0 0 0 Idle s \<and> \<not> delivers c)
        (case r of None \<Rightarrow> bindr (host (en_now (cf_env c))) (\<lambda>now. thenr (set_tracker (\<lambda>_. initial_tracker now))
             (run_turns c 1 (nat (op_max_turns (cf_opts c)))))
          | Some e \<Rightarrow> thenr (finish c 0 StopReasonCanceled (Some e)) stop_run)
        (\<lambda>_. stopped c) (stopped c) (stopped c)"
    proof (cases r)
      case None
      let ?P = "\<lambda>s. in_phase c 0 0 0 0 Running s \<and> executed (rs_log s) = []"
      have now: "triple ?P (host (en_now (cf_env c))) (\<lambda>_. ?P) (stopped c) (stopped c)" by (rule triple_host_inv) simp
      have tr: "triple ?P (set_tracker (\<lambda>_. initial_tracker now)) (\<lambda>_. in_phase c 0 0 0 0 Running) (stopped c) (stopped c)" for now
      proof (rule set_tracker_rule)
        fix s assume P: "?P s"
        then have "int (length (requests (rs_log s))) \<le> 0" unfolding in_phase_def bounds_def by linarith
        then show "in_phase c 0 0 0 0 Running (s\<lparr>rs_tracker := initial_tracker now\<rparr>)"
          using P by (simp add: in_phase_def bounds_def initial_tracker_def call_limits_def keeps_limit_def)
      qed
      have "triple (in_phase c 0 0 0 0 Running) (run_turns c (0 + 1) (nat (op_max_turns (cf_opts c)))) (\<lambda>_. stopped c) (stopped c) (stopped c)"
        by (rule run_turns_step) (use assms(1) in simp)
      then have rt: "triple (in_phase c 0 0 0 0 Running) (run_turns c 1 (nat (op_max_turns (cf_opts c)))) (\<lambda>_. stopped c) (stopped c) (stopped c)"
        by simp
      show ?thesis unfolding None option.case by (rule bind_inv [OF now triple_then [OF tr rt]])
    next
      case (Some e)
      show ?thesis
      proof (cases "delivers c")
        case False
        have fin: "triple (in_phase c 0 0 0 0 Idle) (finish c 0 StopReasonCanceled (Some e)) (\<lambda>_. in_phase c 0 0 0 0 (Ended None))
            (stopped c) (stopped c)" by (rule finish_step) simp
        have "triple (in_phase c 0 0 0 0 Idle) (thenr (finish c 0 StopReasonCanceled (Some e)) stop_run) (\<lambda>_. stopped c) (stopped c) (stopped c)"
          by (rule triple_then [OF fin triple_stop]) (rule stoppedI [of _ 0 "Ended None"], use False in \<open>simp_all add: closing_def\<close>)
        with Some False show ?thesis by simp
      qed (use Some in \<open>simp add: triple_def\<close>)
    qed
  qed
  then have "outcome (\<lambda>_. stopped c) (stopped c) (stopped c) (runLoop c s)" using assms(2,3) unfolding triple_def by blast
  then show ?thesis by (simp add: outcome_def split: ctl.splits)
qed

end
