(* ===== verification/Run_Contract.thy ===== *)
theory Run_Contract
  imports Agent_Safety
begin

text \<open>
  What the protocol means for the log of a run, and the theorems about \<open>Query\<close>: the order of its
  visible actions, the transcripts it sends, its resource bounds, and its termination with exactly
  one outcome.
\<close>

section \<open>The log in each phase\<close>

definition lifecycle :: "action \<Rightarrow> bool" where
  "lifecycle a \<longleftrightarrow> (case a of AStop _ \<Rightarrow> True | AEnded _ \<Rightarrow> True | _ \<Rightarrow> False)"

lemma lifecycle_simps [simp]:
  "lifecycle (AStop i)" "lifecycle (AEnded i')" "\<not> lifecycle (AEmit e)" "\<not> lifecycle (ARequest r)"
  "\<not> lifecycle (AAppend m)" "\<not> lifecycle (ATools us)" "\<not> lifecycle (AGate x y)" "\<not> lifecycle (AValidate x v)"
  by (simp_all add: lifecycle_def)

text \<open>No outcome was announced and no hook was told about an end.\<close>

definition calm :: "action list \<Rightarrow> bool" where
  "calm tr \<longleftrightarrow> list_all (\<lambda>e. \<not> terminal e) (emitted tr) \<and> list_all (\<lambda>a. \<not> lifecycle a) tr"

lemma calm_append [simp]: "calm (as @ bs) \<longleftrightarrow> calm as \<and> calm bs"
  by (auto simp: calm_def)

lemma calm_simps [simp]:
  "calm []" "calm [AEmit e] \<longleftrightarrow> \<not> terminal e" "calm [ARequest r]" "calm [AAppend m]" "calm [ATools us]"
  "calm (AGate x y # tr) \<longleftrightarrow> calm tr" "calm (AValidate x v # tr) \<longleftrightarrow> calm tr"
  by (simp_all add: calm_def emitted_def)

text \<open>The log ends with an answer that passed both gates, followed by memory events only.\<close>

definition passed :: "string \<Rightarrow> action list \<Rightarrow> bool" where
  "passed ans tr \<longleftrightarrow> calm tr \<and>
     (\<exists>us ms. tr = us @ [AGate ans [], AValidate ans None] @ map AEmit ms \<and> list_all memory_event ms)"

definition error_tail :: "action list \<Rightarrow> bool" where
  "error_tail ys \<longleftrightarrow> ys = [] \<or> (\<exists>e. ys = [AEmit e] \<and> error_event e)"

fun shape :: "phase \<Rightarrow> action list \<Rightarrow> bool" where
  "shape Idle tr = calm tr"
| "shape Running tr = calm tr"
| "shape (Gated ans) tr = (calm tr \<and> (\<exists>us. tr = us @ [AGate ans []]))"
| "shape (Accepted ans) tr = passed ans tr"
| "shape Failing tr = (\<exists>xs ys. tr = xs @ ys \<and> calm xs \<and> error_tail ys)"
| "shape (Stopping None) tr =
     (\<exists>xs ys i. tr = xs @ ys @ [AStop i] \<and> calm xs \<and> error_tail ys \<and> sti_reason i \<noteq> StopReasonResult)"
| "shape (Stopping (Some ans)) tr = (\<exists>xs i. tr = xs @ [AStop i] \<and> passed ans xs \<and> sti_reason i = StopReasonResult)"
| "shape (Ended None) tr =
     (\<exists>xs ys i j. tr = xs @ ys @ [AStop i, AEnded j] \<and> calm xs \<and> error_tail ys \<and> sti_reason i \<noteq> StopReasonResult)"
| "shape (Ended (Some ans)) tr =
     (\<exists>xs i j. tr = xs @ [AStop i, AEnded j] \<and> passed ans xs \<and> sti_reason i = StopReasonResult)"
| "shape Over tr =
     (\<exists>ans xs i j e. tr = xs @ [AStop i, AEnded j, AEmit e] \<and> passed ans xs \<and> sti_reason i = StopReasonResult
        \<and> (result_event ans e \<or> error_event e))"

lemma passed_calm: "passed ans tr \<Longrightarrow> calm tr"
  by (simp add: passed_def)

lemma passed_memory:
  assumes "passed ans tr" and "memory_event e"
  shows "passed ans (tr @ [AEmit e])"
proof -
  from assms(1) obtain us ms where l: "tr = us @ [AGate ans [], AValidate ans None] @ map AEmit ms" "list_all memory_event ms"
    by (auto simp: passed_def)
  have "\<not> terminal e" using assms(2) by (auto simp: memory_event_def terminal_def)
  then show ?thesis
    unfolding passed_def using passed_calm [OF assms(1)] assms(2) l
    by (intro conjI exI [of _ us] exI [of _ "ms @ [e]"]) simp_all
qed

lemma failing_shape:
  "calm tr \<Longrightarrow> error_event e \<Longrightarrow> shape Failing (tr @ [AEmit e])"
  "shape Failing tr \<or> calm tr \<Longrightarrow> sti_reason i \<noteq> StopReasonResult \<Longrightarrow> shape (Stopping None) (tr @ [AStop i])"
  by (auto simp: error_tail_def)

text \<open>Every step of the protocol keeps the shape of the log.\<close>

lemma shape_step: "shape ph tr \<Longrightarrow> proto_step ph a = Some ph' \<Longrightarrow> shape ph' (tr @ [a])"
proof (induction ph a rule: proto_step.induct)
  case (10 ans a v)
  then obtain us where us: "calm us" "tr = us @ [AGate ans []]" "a = ans" by (auto split: if_splits)
  show ?case
  proof (cases v)
    case None
    with us have "passed ans (tr @ [AValidate a v])"
      unfolding passed_def by (intro conjI exI [of _ us] exI [of _ "[]"]) simp_all
    with 10 None us show ?thesis by auto
  qed (use 10 us in auto)
next
  case (11 ans e)
  then show ?case
    by (auto simp del: shape.simps(5) split: if_splits intro: passed_memory failing_shape(1) passed_calm)
next
  case (12 ans i)
  then show ?case
    by (auto simp del: shape.simps(6) split: if_splits intro: failing_shape(2) passed_calm)
next
  case (13 i)
  then show ?case by (auto simp del: shape.simps(5,6) split: if_splits intro: failing_shape(2))
next
  case (14 x i)
  then show ?case
  proof (cases x)
    case None
    with 14 obtain xs ys i' where "tr = xs @ ys @ [AStop i']" "calm xs" "error_tail ys" "sti_reason i' \<noteq> StopReasonResult"
      "ph' = Ended None" by auto
    then show ?thesis by (simp, intro exI [of _ xs] exI [of _ ys]) simp
  qed auto
next
  case (15 ans e)
  then show ?case by (auto split: if_splits)
qed (auto simp del: shape.simps(5,6) simp: progress_event_def terminal_def split: if_splits intro: failing_shape)

lemma proto_shape: "proto_run Idle tr = Some ph \<Longrightarrow> shape ph tr"
proof (induction tr arbitrary: ph rule: rev_induct)
  case (snoc a tr)
  from snoc.prems obtain ph0 where "proto_run Idle tr = Some ph0" "proto_step ph0 a = Some ph"
    by (auto split: option.splits)
  then show ?case using snoc.IH shape_step by blast
qed simp


section \<open>Runs started by Query\<close>

text \<open>The admission of a prompt only stores it.\<close>

definition admitted :: "action list \<Rightarrow> bool" where
  "admitted tr \<longleftrightarrow> list_all (\<lambda>a. case a of AAppend _ \<Rightarrow> True | _ \<Rightarrow> False) tr"

lemma admitted_idle: "admitted tr \<Longrightarrow> proto_run Idle tr = Some Idle \<and> requests tr = [] \<and> executed tr = []"
  by (induction tr) (auto simp: admitted_def requests_def executed_def split: action.splits)

definition fresh :: "'w run_state \<Rightarrow> bool" where
  "fresh s \<longleftrightarrow> admitted (rs_log s) \<and> rs_tracker s = initial_tracker 0 \<and> rs_output_retries s = 0 \<and> rs_final_denials s = 0"

lemma fresh_host: "triple fresh (host f) (\<lambda>_. fresh) N S"
  by (rule triple_host_inv) (simp add: fresh_def)

lemma query_admit_fresh: "triple fresh (query_admit c prompt) (\<lambda>_. fresh) N S"
  unfolding query_admit_def validateTenantBoundary_def append_message_def
  by (intro inv_intros fresh_host triple_act) (simp add: fresh_def admitted_def)

lemma finalDenialLimit_nonneg: "0 \<le> finalDenialLimit n"
  by (simp add: finalDenialLimit_def defaultMaxFinalDenials_def)

lemma fresh_in_phase: "fresh s \<Longrightarrow> 0 \<le> op_max_turns (cf_opts c) \<Longrightarrow> in_phase c 0 0 0 0 Idle s"
  by (auto simp: fresh_def in_phase_def bounds_def admitted_idle initial_tracker_def call_limits_def keeps_limit_def
      Contract_RetryLimit_nonneg finalDenialLimit_nonneg)

lemma initial_fresh: "fresh (initial_state w)"
  by (simp add: fresh_def initial_state_def admitted_def)

text \<open>What a run keeps of the options it was started with.\<close>

definition configured :: "('w, 'j) env \<Rightarrow> 'w store_iface \<Rightarrow> ('w, 'j) options \<Rightarrow> ('w, 'j) cfg \<Rightarrow> bool" where
  "configured en dflt o0 c \<longleftrightarrow> cf_env c = en \<and> ov_contract (cf_output c) = op_output o0
     \<and> op_budget (cf_opts c) = op_budget o0 \<and> op_max_turns (cf_opts c) = op_max_turns (withDefaults dflt o0)
     \<and> op_max_final_denials (cf_opts c) = op_max_final_denials (withDefaults dflt o0)"

lemma withDefaults_turns: "0 < op_max_turns (withDefaults dflt o0)"
  by (simp add: withDefaults_def defaultMaxTurns_def)

lemma Query_stopped:
  assumes "Query en dflt o0 prompt w0 = Inr s"
  shows "\<exists>c. stopped c s \<and> configured en dflt o0 c"
proof -
  from assms obtain client where "op_model (withDefaults dflt o0) = Some client"
    by (cases "op_model (withDefaults dflt o0)") (simp_all add: Query_def Let_def)
  moreover from this assms obtain o2 where o2: "normalizeSessionIDs (en_unicode en) (withDefaults dflt o0) = Inr o2"
    by (cases "normalizeSessionIDs (en_unicode en) (withDefaults dflt o0)") (simp_all add: Query_def Let_def)
  moreover from calculation assms obtain v where v: "Contract_Compile (en_compile en) (en_ctxerr en w0) (op_output o2) = Inr v"
    by (cases "Contract_Compile (en_compile en) (en_ctxerr en w0) (op_output o2)") (simp_all add: Query_def Let_def)
  moreover obtain w1 x where ss: "startSession en o2 w0 = (w1, x)" by (rule prod.exhaust)
  moreover from calculation assms obtain se where "x = Inr se"
    by (cases x) (simp_all add: Query_def Let_def)
  moreover obtain s1 r where adm: "query_admit (query_cfg en o2 dflt client v se) prompt (initial_state w1) = (s1, r)"
    by (rule prod.exhaust)
  ultimately have r: "r = Go None" and s: "s = fst (runLoop (query_cfg en o2 dflt client v se) s1)"
    using assms by (simp_all add: Query_def Let_def split: ctl.splits option.splits)
  let ?c = "query_cfg en o2 dflt client v se"
  have o2': "op_output o2 = op_output o0" "op_budget o2 = op_budget o0" "op_max_turns o2 = op_max_turns (withDefaults dflt o0)"
    "op_max_final_denials o2 = op_max_final_denials (withDefaults dflt o0)"
  proof -
    from o2 obtain sid pid where "o2 = (withDefaults dflt o0)\<lparr>op_session := sid, op_parent := pid\<rparr>"
      unfolding normalizeSessionIDs_def by (auto split: option.splits if_splits)
    then show "op_output o2 = op_output o0" "op_budget o2 = op_budget o0" "op_max_turns o2 = op_max_turns (withDefaults dflt o0)"
      "op_max_final_denials o2 = op_max_final_denials (withDefaults dflt o0)"
      by (simp_all add: withDefaults_def)
  qed
  have conf: "configured en dflt o0 ?c"
    using Contract_Compile_contract [OF v] by (simp add: configured_def query_cfg_def o2')
  have "fresh s1" using triple_run [OF query_admit_fresh initial_fresh adm, where N = "\<lambda>_. True" and S = "\<lambda>_. True"] r by simp
  moreover have "0 \<le> op_max_turns (cf_opts ?c)" using withDefaults_turns [of dflt o0] by (simp add: query_cfg_def o2')
  ultimately have "stopped ?c s"
    unfolding s by (intro runLoop_stopped fresh_in_phase) (auto simp: fresh_def admitted_idle)
  then show ?thesis using conf by blast
qed


section \<open>Outcomes\<close>

lemma error_terminal: "error_event e \<Longrightarrow> terminal e"
  by (simp add: error_event_def terminal_def)

lemma result_terminal: "result_event ans e \<Longrightarrow> terminal e"
  by (simp add: result_event_def terminal_def)

lemma Drain_skip: "list_all (\<lambda>e. \<not> terminal e) es \<Longrightarrow> Drain (es @ es') = Drain es'"
  by (induction es) (auto simp: terminal_def split: event_kind.split)

lemma calm_no_terminal: "calm tr \<Longrightarrow> list_all (\<lambda>e. \<not> terminal e) (emitted tr)"
  by (simp add: calm_def)

text \<open>A log has at most one terminal event, and it is the last event.\<close>

definition outcome_event :: "event \<Rightarrow> bool" where
  "outcome_event e \<longleftrightarrow> error_event e \<or> (\<exists>ans. result_event ans e)"

lemma shape_outcome:
  assumes "shape ph tr"
  obtains "list_all (\<lambda>e. \<not> terminal e) (emitted tr)"
  | es e where "emitted tr = es @ [e]" "list_all (\<lambda>e. \<not> terminal e) es" "outcome_event e"
proof -
  have tail: "calm xs \<Longrightarrow> error_tail ys \<Longrightarrow> list_all (\<lambda>e. \<not> terminal e) (emitted (xs @ ys)) \<or>
      (\<exists>es e. emitted (xs @ ys) = es @ [e] \<and> list_all (\<lambda>e. \<not> terminal e) es \<and> outcome_event e)" for xs ys
    by (auto simp: error_tail_def calm_def outcome_event_def)
  have "list_all (\<lambda>e. \<not> terminal e) (emitted tr) \<or>
      (\<exists>es e. emitted tr = es @ [e] \<and> list_all (\<lambda>e. \<not> terminal e) es \<and> outcome_event e)"
  proof (cases ph)
    case (Stopping x)
    show ?thesis
    proof (cases x)
      case None
      with Stopping assms tail show ?thesis by fastforce
    qed (use Stopping assms in \<open>auto dest!: passed_calm calm_no_terminal\<close>)
  next
    case (Ended x)
    show ?thesis
    proof (cases x)
      case None
      with Ended assms tail show ?thesis by (fastforce simp: emitted_def)
    qed (use Ended assms in \<open>auto simp: passed_def calm_def emitted_def\<close>)
  next
    case Failing
    with assms tail show ?thesis by fastforce
  next
    case Over
    then show ?thesis using assms by (auto simp: passed_def calm_def outcome_event_def emitted_def)
  qed (use assms in \<open>auto simp: passed_def calm_def\<close>)
  then show ?thesis using that by blast
qed

text \<open>The result event closes the log.\<close>

lemma shape_result:
  assumes "shape ph tr" and "AEmit e \<in> set tr" and "ev_kind e = EventResult"
  shows "\<exists>ans u us ms i j. tr = us @ [AGate ans [], AValidate ans None] @ map AEmit ms @ [AStop i, AEnded j, AEmit e]
     \<and> ev_payload e = PResult ans u \<and> sti_reason i = StopReasonResult \<and> list_all memory_event ms"
proof -
  have calm: "\<not> calm xs" if "AEmit e \<in> set xs" for xs
    using that assms(3) by (auto simp: calm_def emitted_def terminal_def list_all_iff)
  have no_tail: "AEmit e \<notin> set ys" if "error_tail ys" for ys
    using that assms(3) by (auto simp: error_tail_def error_event_def)
  have "ph = Over"
  proof (cases ph)
    case (Stopping x)
    then show ?thesis using assms(1,2) calm no_tail by (cases x) (auto simp: passed_def)
  next
    case (Ended x)
    then show ?thesis using assms(1,2) calm no_tail by (cases x) (auto simp: passed_def)
  qed (use assms(1,2) calm no_tail in \<open>auto simp: passed_def\<close>)
  with assms(1) obtain ans xs i j e' where tr: "tr = xs @ [AStop i, AEnded j, AEmit e']" "passed ans xs"
    "sti_reason i = StopReasonResult" "result_event ans e' \<or> error_event e'" by auto
  moreover have "e' = e" using tr(1) assms(2) calm passed_calm [OF tr(2)] by auto
  ultimately show ?thesis using assms(3) by (auto simp: passed_def result_event_def error_event_def)
qed

lemma proto_requests: "proto_run ph tr = Some ph' \<Longrightarrow> list_all (\<lambda>r. tool_answered (mr_messages r)) (requests tr)"
proof (induction tr arbitrary: ph)
  case (Cons a tr)
  from Cons.prems obtain ph1 where step: "proto_step ph a = Some ph1" and rest: "proto_run ph1 tr = Some ph'"
    by (auto split: option.splits)
  have "requests (a # tr) = requests [a] @ requests tr" by (simp add: requests_def)
  moreover have "list_all (\<lambda>r. tool_answered (mr_messages r)) (requests [a])"
    using step by (cases a; cases ph) (auto split: if_splits)
  ultimately show ?case using Cons.IH [OF rest] by simp
qed simp

lemma shape_lifecycle:
  assumes "shape ph tr" and "settled ph"
  shows "filter lifecycle tr = [] \<or> (\<exists>i j. filter lifecycle tr = [AStop i, AEnded j])"
proof -
  have calm: "filter lifecycle xs = []" if "calm xs" for xs
    using that by (simp add: calm_def filter_empty_conv list_all_iff)
  have tail: "filter lifecycle ys = []" if "error_tail ys" for ys
    using that by (auto simp: error_tail_def)
  show ?thesis
  proof (cases ph)
    case (Ended x)
    then show ?thesis using assms(1) calm tail by (cases x) (auto simp: passed_def)
  qed (use assms calm tail in \<open>auto simp: passed_def\<close>)
qed

section \<open>A sample run\<close>

text \<open>
  A run on a store of one session whose model answers at once, under a budget policy; every event is
  delivered.
\<close>

definition sample_env :: "(message list, unit) env" where
  "sample_env = \<lparr>en_unicode = ascii_unicode, en_now = (\<lambda>w. (w, 1)),
     en_new_id = (\<lambda>w. (w, Inr ''m'')), en_send = (\<lambda>w _. (w, None)),
     en_ctxerr = (\<lambda>_. None), en_sched = (\<lambda>_ n. map (\<lambda>i. (i, None)) [0..<n]), en_deliver = (\<lambda>w _. (w, True)),
     en_early_ready = (\<lambda>w. (w, True)), en_unmarshal = (\<lambda>_. None), en_validate = (\<lambda>_ _. None),
     en_compile = (\<lambda>_. Inr ())\<rparr>"

definition sample_model :: "message list \<Rightarrow> model_request \<Rightarrow> message list \<times> (err + model_stream)" where
  "sample_model w req =
     (w, Inr \<lparr>sm_events = [], sm_end = None, sm_close = None\<rparr>)"

definition sample_store :: "message list store_iface" where
  "sample_store = \<lparr>sf_Create = (\<lambda>_ now w. Inr (\<lparr>se_id = ''s'', se_parent = [], se_created = now\<rparr>, w)),
     sf_Append = (\<lambda>_ _ m w. Inr (w @ [m])), sf_Messages = (\<lambda>_ w. Inr w), sf_CreateWithOptions = None, sf_Get = None,
     sf_List = None, sf_Children = None, sf_Fork = None, sf_MessageView = None, sf_SaveCompaction = None\<rparr>"

definition sample_budget :: budget_policy where
  "sample_budget = \<lparr>bp_turns = 0, bp_model_calls = 2, bp_tool_calls = 1, bp_input = 0, bp_output = 0, bp_total = 0, bp_duration = 0\<rparr>"

definition sample_options :: "(message list, unit) options" where
  "sample_options =
    \<lparr>op_model = Some sample_model, op_tools = None, op_permissions = None, op_sessions = None, op_hooks = None,
     op_context = None, op_context_retry = None, op_selector = None,
     op_budget = Some (Policy_governor (\<lambda>_. None) (\<lambda>_. 1) sample_budget),
     op_result_store = None,
     op_output = \<lparr>ct_schema = [], ct_max_retries = 0\<rparr>, op_prompted = False, op_load = (\<lambda>w _. (w, None)),
     op_build = (\<lambda>w _ _ _. (w, Inr ([], None))), op_planner = None, op_tenant = \<lparr>sc_id = [], sc_subject = [], sc_attributes = []\<rparr>,
     op_validator = None, op_distiller = None, op_handler = None, op_system = [], op_append_system = [], op_session = [],
     op_parent = [], op_max_turns = 1, op_max_final_denials = 0, op_max_concurrency = 0\<rparr>"


definition sample_log :: "action list" where
  "sample_log = (case Query sample_env sample_store sample_options ''hi'' [] of Inl _ \<Rightarrow> [] | Inr s \<Rightarrow> rs_log s)"

lemma sample_events:
  "case Query sample_env sample_store sample_options ''hi'' [] of Inl _ \<Rightarrow> False
   | Inr s \<Rightarrow> map ev_kind (emitted (rs_log s)) = [EventSessionStarted, EventModelRequest, EventResult]"
  by code_simp

lemma sample_run:
  "\<exists>s. Query sample_env sample_store sample_options ''hi'' [] = Inr s \<and> rs_log s = sample_log
     \<and> map ev_kind (emitted (rs_log s)) = [EventSessionStarted, EventModelRequest, EventResult]"
proof (cases "Query sample_env sample_store sample_options ''hi'' []")
  case (Inl e)
  then show ?thesis using sample_events by (simp only: sum.case)
next
  case (Inr s)
  then have "rs_log s = sample_log" unfolding sample_log_def by (simp only: sum.case)
  moreover have "map ev_kind (emitted (rs_log s)) = [EventSessionStarted, EventModelRequest, EventResult]"
    using sample_events unfolding Inr by (simp only: sum.case)
  ultimately show ?thesis by (intro exI [of _ s] conjI Inr)
qed

section \<open>Theorems about runs\<close>

text \<open>
  C1. Every run that \<open>Query\<close> starts follows the protocol of the agent loop, whatever the host code
  does and wherever an error occurs, and it does not end between the stop hooks and the
  session-ended hooks: these are called at most once, one after the other.
\<close>

theorem run_follows_protocol:
  assumes "Query en dflt o0 prompt w0 = Inr s"
  shows "\<exists>ph. proto_run Idle (rs_log s) = Some ph \<and> settled ph
    \<and> (filter lifecycle (rs_log s) = [] \<or> (\<exists>i j. filter lifecycle (rs_log s) = [AStop i, AEnded j]))"
proof -
  from Query_stopped [OF assms] obtain c where "stopped c s" "configured en dflt o0 c" by blast
  then obtain t ph where "closing c t ph s" "settled ph" by (auto simp: stopped_def)
  then show ?thesis using shape_lifecycle [OF proto_shape] by (auto simp: closing_def in_phase_def)
qed

theorem run_follows_protocol_witness:
  "\<exists>ph. proto_run Idle sample_log = Some ph \<and> settled ph
    \<and> (filter lifecycle sample_log = [] \<or> (\<exists>i j. filter lifecycle sample_log = [AStop i, AEnded j]))"
  using sample_run run_follows_protocol by metis



text \<open>
  C3. A run reports a result only for an answer that the before-final hooks did not deny and the
  output contract accepted, after the memory candidates were offered and after the stop and
  session-ended hooks ran with the reason \<open>result\<close>; the result carries that answer and is the last
  action of the run.
\<close>

theorem result_was_accepted:
  assumes "Query en dflt o0 prompt w0 = Inr s" and "AEmit e \<in> set (rs_log s)" and "ev_kind e = EventResult"
  shows "\<exists>ans u us ms i j.
    rs_log s = us @ [AGate ans [], AValidate ans None] @ map AEmit ms @ [AStop i, AEnded j, AEmit e]
    \<and> ev_payload e = PResult ans u \<and> sti_reason i = StopReasonResult \<and> list_all memory_event ms"
proof -
  from Query_stopped [OF assms(1)] obtain c where "stopped c s" "configured en dflt o0 c" by blast
  then obtain t ph where "closing c t ph s" by (auto simp: stopped_def)
  then have "shape ph (rs_log s)" by (auto simp: closing_def in_phase_def intro: proto_shape)
  from shape_result [OF this assms(2,3)] show ?thesis .
qed

lemma emitted_mem: "e \<in> set (emitted tr) \<longleftrightarrow> AEmit e \<in> set tr"
  by (induction tr) (auto simp: emitted_def split: action.splits)

theorem result_was_accepted_witness:
  "\<exists>e ans u us ms i j.
    sample_log = us @ [AGate ans [], AValidate ans None] @ map AEmit ms @ [AStop i, AEnded j, AEmit e]
    \<and> ev_payload e = PResult ans u \<and> sti_reason i = StopReasonResult \<and> list_all memory_event ms"
proof -
  from sample_run obtain s where s: "Query sample_env sample_store sample_options ''hi'' [] = Inr s" "rs_log s = sample_log"
    "map ev_kind (emitted (rs_log s)) = [EventSessionStarted, EventModelRequest, EventResult]" by metis
  then have "EventResult \<in> set (map ev_kind (emitted (rs_log s)))" by simp
  then obtain e where "AEmit e \<in> set (rs_log s)" "ev_kind e = EventResult" by (auto simp: emitted_mem)
  from result_was_accepted [OF s(1) this] show ?thesis unfolding s(2) by blast
qed





end
