(* ===== verification/Go_Text.thy ===== *)
theory Go_Text
  imports Go_Strings
begin

text \<open>
  More of Go's standard library: splitting and searching strings, \<open>strconv.Atoi\<close> and
  \<open>path.Clean\<close>, with the facts about separators and cleaned paths that the workspace relies on.
\<close>

section \<open>Splitting\<close>

text \<open>\<open>strings.Split\<close> at one byte.\<close>

fun split_on :: "char \<Rightarrow> string \<Rightarrow> string list" where
  "split_on c [] = [[]]"
| "split_on c (x # xs) =
     (if x = c then [] # split_on c xs
      else case split_on c xs of [] \<Rightarrow> [[x]] | y # ys \<Rightarrow> (x # y) # ys)"

text \<open>\<open>strings.Fields\<close>: the runs of runes that are not white space.\<close>

fun fields_from :: "(nat \<times> string) list \<Rightarrow> string \<Rightarrow> string list" where
  "fields_from [] acc = (if acc = [] then [] else [acc])"
| "fields_from (p # ps) acc =
     (if is_space (fst p) then (if acc = [] then fields_from ps [] else acc # fields_from ps [])
      else fields_from ps (acc @ snd p))"

definition str_fields :: "string \<Rightarrow> string list" where
  "str_fields s = fields_from (utf8_chunks s) []"

definition trim_prefix :: "string \<Rightarrow> string \<Rightarrow> string" where
  "trim_prefix s p = (if has_prefix s p then drop (length p) s else s)"

text \<open>\<open>strings.Index\<close>.\<close>

fun str_index :: "string \<Rightarrow> string \<Rightarrow> nat option" where
  "str_index [] p = (if p = [] then Some 0 else None)"
| "str_index (c # cs) p = (if has_prefix (c # cs) p then Some 0 else map_option Suc (str_index cs p))"

text \<open>\<open>strings.ReplaceAll(s, "\r\n", "\n")\<close>.\<close>

fun replace_crlf :: "string \<Rightarrow> string" where
  "replace_crlf [] = []"
| "replace_crlf [c] = [c]"
| "replace_crlf (c # d # s) =
     (if c = CHR 13 \<and> d = CHR 10 then CHR 10 # replace_crlf s else c # replace_crlf (d # s))"

section \<open>Numbers\<close>

text \<open>\<open>strconv.Atoi\<close>: an optional sign and decimal digits, within the range of \<open>int\<close>.\<close>

definition digits_value :: "string \<Rightarrow> int" where
  "digits_value ds = foldl (\<lambda>a d. 10 * a + (int (byte d) - 48)) 0 ds"

definition atoi :: "string \<Rightarrow> int option" where
  "atoi s =
     (let neg = (s \<noteq> [] \<and> hd s = CHR ''-''); ds = (if s \<noteq> [] \<and> (hd s = CHR ''-'' \<or> hd s = CHR ''+'') then tl s else s);
          v = (if neg then - digits_value ds else digits_value ds)
      in if ds = [] \<or> \<not> list_all json_digit ds \<or> \<not> int64_range v then None else Some v)"

section \<open>Paths\<close>

text \<open>
  \<open>path.Clean\<close> by its documented rules: empty and dot elements are dropped, an inner dot-dot
  removes the element before it, and dot-dot elements at the start of a rooted path are dropped.
\<close>

definition dot :: string where
  "dot = ''.''"

definition dotdot :: string where
  "dotdot = ''..''"

definition clean_elem :: "bool \<Rightarrow> string list \<Rightarrow> string \<Rightarrow> string list" where
  "clean_elem rooted out e =
     (if e = [] \<or> e = dot then out
      else if e = dotdot then
        (if out \<noteq> [] \<and> last out \<noteq> dotdot then butlast out else if rooted then out else out @ [dotdot])
      else out @ [e])"

definition path_Clean :: "string \<Rightarrow> string" where
  "path_Clean p =
     (if p = [] then dot
      else let rooted = (hd p = CHR ''/'');
               out = join ''/'' (foldl (clean_elem rooted) [] (split_on (CHR ''/'') p))
           in if rooted then CHR ''/'' # out else if out = [] then dot else out)"

section \<open>Facts\<close>

lemma split_on_not_Nil [simp]: "split_on c s \<noteq> []"
  by (induction s) (auto split: list.split)

lemma join_Cons: "xs \<noteq> [] \<Longrightarrow> join sep (x # xs) = x @ sep @ join sep xs"
  by (cases xs) simp_all

lemma join_split_on [simp]: "join [c] (split_on c s) = s"
proof (induction s)
  case (Cons x xs)
  obtain y ys where y: "split_on c xs = y # ys" using split_on_not_Nil by (metis list.exhaust)
  show ?case using Cons by (cases ys) (auto simp: y join_Cons)
qed simp

lemma split_on_no_sep: "e \<in> set (split_on c s) \<Longrightarrow> c \<notin> set e"
proof (induction s arbitrary: e)
  case (Cons x xs)
  obtain y ys where y: "split_on c xs = y # ys" using split_on_not_Nil by (metis list.exhaust)
  show ?case using Cons by (auto simp: y split: if_splits)
qed simp

lemma split_on_plain: "c \<notin> set s \<Longrightarrow> split_on c s = [s]"
  by (induction s) auto

lemma split_on_append: "c \<notin> set e \<Longrightarrow> split_on c (e @ c # s) = e # split_on c s"
  by (induction e) auto

lemma split_on_join:
  "xs \<noteq> [] \<Longrightarrow> (\<And>e. e \<in> set xs \<Longrightarrow> c \<notin> set e) \<Longrightarrow> split_on c (join [c] xs) = xs"
proof (induction xs)
  case (Cons x xs)
  show ?case
  proof (cases "xs = []")
    case True
    with Cons.prems show ?thesis by (simp add: split_on_plain)
  next
    case False
    with Cons show ?thesis by (simp add: join_Cons split_on_append)
  qed
qed simp

text \<open>A cleaned element list: dot-dot elements stand in front only, and not at all under a root.\<close>

definition clean_list :: "bool \<Rightarrow> string list \<Rightarrow> bool" where
  "clean_list rooted out \<longleftrightarrow>
     (\<exists>k xs. out = replicate k dotdot @ xs \<and> dotdot \<notin> set xs \<and> (rooted \<longrightarrow> k = 0))
     \<and> [] \<notin> set out \<and> dot \<notin> set out \<and> (\<forall>e\<in>set out. CHR ''/'' \<notin> set e)"

lemma dot_facts [simp]: "dot \<noteq> []" "dotdot \<noteq> []" "[] \<noteq> dot" "[] \<noteq> dotdot" "dot \<noteq> dotdot" "dotdot \<noteq> dot" "CHR ''/'' \<notin> set dot" "CHR ''/'' \<notin> set dotdot"
  by (simp_all add: dot_def dotdot_def)

lemma clean_list_parts:
  assumes "clean_list rooted out"
  shows "[] \<notin> set out" "dot \<notin> set out" "\<forall>e\<in>set out. CHR ''/'' \<notin> set e"
  using assms by (simp_all add: clean_list_def)

lemma clean_list_snoc:
  assumes "clean_list rooted out" and "e \<noteq> []" "e \<noteq> dot" "e \<noteq> dotdot" "CHR ''/'' \<notin> set e"
  shows "clean_list rooted (out @ [e])"
proof -
  from assms(1) obtain k xs where "out = replicate k dotdot @ xs" "dotdot \<notin> set xs" "rooted \<longrightarrow> k = 0"
    by (auto simp: clean_list_def)
  with assms(4) have "\<exists>k xs. out @ [e] = replicate k dotdot @ xs \<and> dotdot \<notin> set xs \<and> (rooted \<longrightarrow> k = 0)"
    by (intro exI [of _ k] exI [of _ "xs @ [e]"]) simp
  with assms show ?thesis by (auto simp: clean_list_def)
qed

lemma clean_list_butlast:
  assumes "clean_list rooted out" and "out \<noteq> []" "last out \<noteq> dotdot"
  shows "clean_list rooted (butlast out)"
proof -
  from assms(1) obtain k xs where o: "out = replicate k dotdot @ xs" "dotdot \<notin> set xs" "rooted \<longrightarrow> k = 0"
    by (auto simp: clean_list_def)
  have "xs \<noteq> []"
  proof
    assume "xs = []"
    with o(1) assms(2) have "last out = dotdot" by simp
    with assms(3) show False by simp
  qed
  with o have "butlast out = replicate k dotdot @ butlast xs" by (simp add: butlast_append)
  moreover have "dotdot \<notin> set (butlast xs)" using o(2) by (meson in_set_butlastD)
  ultimately show ?thesis
    using o(3) clean_list_parts [OF assms(1)] unfolding clean_list_def by (metis in_set_butlastD)
qed

lemma clean_list_up:
  assumes "clean_list False out" and "out = [] \<or> last out = dotdot"
  shows "clean_list False (out @ [dotdot])"
proof -
  from assms(1) obtain k xs where o: "out = replicate k dotdot @ xs" "dotdot \<notin> set xs"
    by (auto simp: clean_list_def)
  have "xs = []" using assms(2) o by (cases xs rule: rev_cases) auto
  with o(1) have "out @ [dotdot] = replicate (Suc k) dotdot @ []" by (simp add: replicate_append_same)
  then show ?thesis
    using clean_list_parts [OF assms(1)] unfolding clean_list_def
    by (intro conjI exI [of _ "Suc k"] exI [of _ "[]"]) auto
qed

lemma clean_elem_clean: "clean_list rooted out \<Longrightarrow> CHR ''/'' \<notin> set e \<Longrightarrow> clean_list rooted (clean_elem rooted out e)"
  using clean_list_snoc [of rooted out e] clean_list_butlast [of rooted out] clean_list_up [of out]
  by (cases rooted) (simp_all add: clean_elem_def)

lemma clean_elems_clean:
  "clean_list rooted out \<Longrightarrow> (\<And>e. e \<in> set es \<Longrightarrow> CHR ''/'' \<notin> set e) \<Longrightarrow> clean_list rooted (foldl (clean_elem rooted) out es)"
  by (induction es arbitrary: out) (auto simp: clean_elem_clean)

lemma clean_list_Nil [simp]: "clean_list rooted []"
  by (simp add: clean_list_def)

text \<open>Trimming keeps a prefix of ASCII characters that are not white space.\<close>

lemma utf8_chunks_ascii: "byte c < 128 \<Longrightarrow> utf8_chunks (c # s) = (byte c, [c]) # utf8_chunks s"
  by (simp add: utf8_chunks_unfold)

definition ink_char :: "char \<Rightarrow> bool" where
  "ink_char c \<longleftrightarrow> byte c < 128 \<and> \<not> is_space (byte c)"

lemma trim_right_ink: "ink_char c \<Longrightarrow> trim_right (c # s) = c # trim_right s"
  by (cases "\<forall>x\<in>set (utf8_chunks s). is_space (fst x)")
    (simp_all add: trim_right_def utf8_chunks_ascii ink_char_def dropWhile_append dropWhile_eq_Nil_conv [THEN iffD2])

lemma trim_left_ink: "ink_char c \<Longrightarrow> trim_left (c # s) = c # s"
  by (simp add: trim_left_def utf8_chunks_ascii ink_char_def)

lemma trim_space_ink: "ink_char c \<Longrightarrow> trim_space (c # s) = c # trim_right s"
  by (simp add: trim_space_def trim_left_ink trim_right_ink)

lemma ink_path_chars [simp]: "ink_char (CHR ''.'')" "ink_char (CHR ''/'')"
  by (simp_all add: ink_char_def byte_def is_space_def)

text \<open>A relative path that starts with dot-dot still does after cleaning.\<close>

lemma clean_elem_leading: "\<exists>out. clean_elem False (dotdot # xs) e = dotdot # out"
  by (auto simp: clean_elem_def)

lemma clean_elems_leading: "\<exists>out. foldl (clean_elem False) (dotdot # xs) es = dotdot # out"
proof (induction es arbitrary: xs)
  case (Cons e es)
  obtain ys where "clean_elem False (dotdot # xs) e = dotdot # ys" using clean_elem_leading by blast
  with Cons.IH [of ys] show ?case by simp
qed simp

definition goes_up :: "string \<Rightarrow> bool" where
  "goes_up p \<longleftrightarrow> p = dotdot \<or> has_prefix p ''../''"

lemma goes_up_split: "goes_up p \<longleftrightarrow> hd (split_on (CHR ''/'') p) = dotdot"
proof -
  obtain e es where e: "split_on (CHR ''/'') p = e # es" using split_on_not_Nil by (metis list.exhaust)
  have p: "p = join ''/'' (e # es)" using join_split_on [of "CHR ''/''" p] by (simp add: e)
  show ?thesis
  proof
    assume "goes_up p"
    then consider "p = dotdot" | s where "p = dotdot @ CHR ''/'' # s"
      by (auto simp: goes_up_def has_prefix_def dotdot_def) (metis append_Cons append_Nil append_take_drop_id)
    then show "hd (split_on (CHR ''/'') p) = dotdot"
      by cases (simp_all add: split_on_plain split_on_append)
  next
    assume "hd (split_on (CHR ''/'') p) = dotdot"
    then have "p = join ''/'' (dotdot # es)" using p e by simp
    then show "goes_up p" by (cases es) (auto simp: goes_up_def has_prefix_def dotdot_def)
  qed
qed

lemma path_Clean_relative:
  assumes "p \<noteq> []" and "hd p \<noteq> CHR ''/''"
  shows "path_Clean p = (let out = join ''/'' (foldl (clean_elem False) [] (split_on (CHR ''/'') p)) in if out = [] then dot else out)"
  using assms by (simp add: path_Clean_def Let_def)

lemma path_Clean_up:
  assumes "goes_up p"
  shows "goes_up (path_Clean p)"
proof -
  obtain es where es: "split_on (CHR ''/'') p = dotdot # es"
    using assms split_on_not_Nil [of "CHR ''/''" p] by (cases "split_on (CHR ''/'') p") (auto simp: goes_up_split)
  have p: "p \<noteq> []" "hd p \<noteq> CHR ''/''" using assms by (auto simp: goes_up_def has_prefix_def dotdot_def) (cases p, auto)+
  obtain out where "foldl (clean_elem False) [dotdot] es = dotdot # out" using clean_elems_leading by blast
  moreover have "clean_elem False [] dotdot = [dotdot]" by (simp add: clean_elem_def)
  ultimately have "path_Clean p = join ''/'' (dotdot # out)"
    using path_Clean_relative [OF p] by (cases out) (auto simp: es Let_def)
  then show ?thesis by (cases out) (auto simp: goes_up_def has_prefix_def dotdot_def)
qed

text \<open>A cleaned path that does not start with dot-dot has no dot-dot element.\<close>

lemma path_Clean_no_up:
  assumes "\<not> goes_up (path_Clean p)"
  shows "dotdot \<notin> set (split_on (CHR ''/'') (path_Clean p))"
proof (cases "p = []")
  case True
  then show ?thesis by (simp add: path_Clean_def split_on_plain)
next
  case False
  define rooted where "rooted = (hd p = CHR ''/'')"
  define out where "out = foldl (clean_elem rooted) [] (split_on (CHR ''/'') p)"
  have cl: "clean_list rooted out"
    unfolding out_def by (rule clean_elems_clean) (auto simp: split_on_no_sep)
  then obtain k xs where o: "out = replicate k dotdot @ xs" "dotdot \<notin> set xs" "rooted \<longrightarrow> k = 0"
    by (auto simp: clean_list_def)
  have noslash: "\<forall>e\<in>set out. CHR ''/'' \<notin> set e" using cl by (simp add: clean_list_def)
  have pc: "path_Clean p = (if rooted then CHR ''/'' # join ''/'' out else if join ''/'' out = [] then dot else join ''/'' out)"
    using False by (simp add: path_Clean_def rooted_def out_def Let_def)
  have sp: "split_on (CHR ''/'') (join ''/'' out) = (if out = [] then [[]] else out)"
    using split_on_join [of out "CHR ''/''"] noslash by auto
  have k: "k = 0"
  proof (rule ccontr)
    assume "k \<noteq> 0"
    then have h: "out \<noteq> []" "hd out = dotdot" "\<not> rooted" using o by (cases k; simp)+
    then have "join ''/'' out \<noteq> []" by (cases out rule: list.exhaust; cases "tl out") (auto simp: dotdot_def)
    then have "goes_up (path_Clean p)" using h sp pc by (simp add: goes_up_split)
    with assms show False by simp
  qed
  then have "dotdot \<notin> set out" using o by simp
  then show ?thesis using sp by (auto simp: pc split_on_plain split: if_splits)
qed

end
