(* ===== verification/Workspace.thy ===== *)
theory Workspace
  imports Go_Text Tenant
begin

text \<open>
  \<open>workspace/workspace.go\<close>: workspace state, guarded patches, diffs and checkpoints, and the
  in-memory store, the reference implementation of the contract. Files and checkpoints are Go maps;
  the clock and the context's error are arguments, and a nil store is \<open>None\<close>. Each operation runs
  under the store's lock and is one step.
\<close>

section \<open>Data\<close>

datatype change_kind = ChangeAdded | ChangeModified | ChangeDeleted

record change =
  ch_path :: string
  ch_kind :: change_kind
  ch_before :: string
  ch_after :: string

record ws_diff =
  df_base :: string
  df_changes :: "change list"

record patch_operation =
  po_path :: string
  po_old :: "string option"
  po_new :: "string option"

record patch_result =
  pt_changes :: "change list"
  pt_dry_run :: bool
  pt_auto_checkpoint :: string

record ws_checkpoint =
  wc_id :: string
  wc_label :: string
  wc_created :: gotime
  wc_files :: int
  wc_metadata :: metadata

record checkpoint_options =
  cko_label :: string
  cko_metadata :: metadata

type_synonym files = "(string, string) gomap"

record ws_snapshot =
  wn_checkpoint :: ws_checkpoint
  wn_files :: files

record workspace_store =
  wk_files :: files
  wk_checkpoints :: "(string, ws_snapshot) gomap"
  wk_order :: "string list"
  wk_next :: nat
  wk_base :: string

section \<open>Paths and copies\<close>

definition cleanPath :: "string \<Rightarrow> string" where
  "cleanPath name0 =
     (let name = trim_prefix (trim_space name0) ''/'' in if name = [] then dot else path_Clean name)"

definition cleanPrefix :: "string \<Rightarrow> string" where
  "cleanPrefix p = (if cleanPath p = dot then [] else cleanPath p)"

definition invalidPath :: "string \<Rightarrow> bool" where
  "invalidPath name0 \<longleftrightarrow>
     (let name = cleanPath name0 in name = dot \<or> name = dotdot \<or> has_prefix name ''../'')"

definition cloneFiles :: "files \<Rightarrow> files" where
  "cloneFiles fs = put_all [] fs"

definition cloneMetadata :: "metadata \<Rightarrow> metadata" where
  "cloneMetadata md = put_all [] md"

definition cloneCheckpoint :: "ws_checkpoint \<Rightarrow> ws_checkpoint" where
  "cloneCheckpoint cp = cp\<lparr>wc_metadata := cloneMetadata (wc_metadata cp)\<rparr>"

text \<open>The guards that every operation starts with.\<close>

definition with_store :: "err option \<Rightarrow> workspace_store option \<Rightarrow> (workspace_store \<Rightarrow> err + 'a) \<Rightarrow> err + 'a" where
  "with_store ctxerr st f =
     (case ctxerr of
        Some e \<Rightarrow> Inl e
      | None \<Rightarrow> (case st of None \<Rightarrow> Inl (EText ''workspace: nil MemoryStore'') | Some s \<Rightarrow> f s))"

section \<open>Files\<close>

fun seed_files :: "files \<Rightarrow> files \<Rightarrow> files" where
  "seed_files fs [] = fs"
| "seed_files fs ((name, content) # rest) =
     seed_files (if cleanPath name \<noteq> dot then AList.update (cleanPath name) content fs else fs) rest"

definition NewWorkspaceStore :: "gotime \<Rightarrow> files \<Rightarrow> workspace_store" where
  "NewWorkspaceStore now seed =
     (let fs = seed_files [] seed; i = ''checkpoint-0'';
          cp = \<lparr>wc_id = i, wc_label = ''initial'', wc_created = now, wc_files = int (length fs), wc_metadata = []\<rparr>
      in \<lparr>wk_files = fs, wk_checkpoints = [(i, \<lparr>wn_checkpoint = cp, wn_files = cloneFiles fs\<rparr>)], wk_order = [i],
          wk_next = 1, wk_base = i\<rparr>)"

definition ws_ReadFile :: "err option \<Rightarrow> string \<Rightarrow> workspace_store option \<Rightarrow> err + string" where
  "ws_ReadFile ctxerr name st =
     with_store ctxerr st (\<lambda>s.
       case map_of (wk_files s) (cleanPath name) of
         None \<Rightarrow> Inl (EText (''workspace: file not found: '' @ cleanPath name))
       | Some content \<Rightarrow> Inr content)"

definition ws_WriteFile :: "err option \<Rightarrow> string \<Rightarrow> string \<Rightarrow> workspace_store option \<Rightarrow> err + workspace_store" where
  "ws_WriteFile ctxerr name content st =
     with_store ctxerr st (\<lambda>s.
       if invalidPath (cleanPath name) then Inl (EText (''workspace: invalid file path: '' @ cleanPath name))
       else Inr (s\<lparr>wk_files := AList.update (cleanPath name) content (wk_files s)\<rparr>))"

definition ws_DeleteFile :: "err option \<Rightarrow> string \<Rightarrow> workspace_store option \<Rightarrow> err + workspace_store" where
  "ws_DeleteFile ctxerr name st =
     with_store ctxerr st (\<lambda>s.
       if invalidPath (cleanPath name) then Inl (EText (''workspace: invalid file path: '' @ cleanPath name))
       else if map_of (wk_files s) (cleanPath name) = None
            then Inl (EText (''workspace: file not found: '' @ cleanPath name))
            else Inr (s\<lparr>wk_files := AList.delete (cleanPath name) (wk_files s)\<rparr>))"

definition ws_ListFiles :: "err option \<Rightarrow> string \<Rightarrow> workspace_store option \<Rightarrow> err + string list" where
  "ws_ListFiles ctxerr prefix0 st =
     with_store ctxerr st (\<lambda>s.
       let prefix = cleanPrefix prefix0
       in Inr (stable_sort str_less (filter (\<lambda>name. prefix = [] \<or> name = prefix \<or> has_prefix name (prefix @ ''/''))
            (map fst (wk_files s)))))"

section \<open>Patches\<close>

fun firstDiffIndex :: "string \<Rightarrow> string \<Rightarrow> nat" where
  "firstDiffIndex (a # as) (b # bs) = (if a \<noteq> b then 0 else Suc (firstDiffIndex as bs))"
| "firstDiffIndex _ _ = 0"

definition contentWindow :: "string \<Rightarrow> nat \<Rightarrow> string" where
  "contentWindow content i = (let start = i - 40 in take 80 (drop start content))"

definition contentMismatch :: "unicode \<Rightarrow> string \<Rightarrow> string \<Rightarrow> string" where
  "contentMismatch U actual expected =
     (let i = firstDiffIndex actual expected
      in ''first difference at byte '' @ show_nat i @ '', expected '' @ show_nat (length expected) @ '' bytes, found ''
         @ show_nat (length actual) @ '' bytes, nearby current content: '' @ quote U (contentWindow actual i))"

text \<open>One operation on the working copy: the file before it, its guard, and the change.\<close>

definition patch_one :: "unicode \<Rightarrow> files \<Rightarrow> patch_operation \<Rightarrow> err + files \<times> change" where
  "patch_one U next op =
     (let name = cleanPath (po_path op); cur = map_of next name; before = (case cur of None \<Rightarrow> [] | Some b \<Rightarrow> b)
      in if invalidPath name then Inl (EText (''workspace: invalid file path: '' @ po_path op))
         else if po_old op \<noteq> None \<and> cur = None
         then Inl (EText (''workspace: patch guard failed for '' @ name @ '': file does not exist''))
         else if po_old op \<noteq> None \<and> po_old op \<noteq> cur
         then Inl (EText (''workspace: patch guard failed for '' @ name @ '': content mismatch: ''
                @ contentMismatch U before (the (po_old op))))
         else case po_new op of
                None \<Rightarrow>
                  (if cur = None then Inl (EText (''workspace: cannot delete missing file: '' @ name))
                   else Inr (AList.delete name next,
                          \<lparr>ch_path = name, ch_kind = ChangeDeleted, ch_before = before, ch_after = []\<rparr>))
              | Some after \<Rightarrow>
                  Inr (AList.update name after next,
                    \<lparr>ch_path = name, ch_kind = (if cur = None then ChangeAdded else ChangeModified), ch_before = before,
                     ch_after = after\<rparr>))"

fun patch_all :: "unicode \<Rightarrow> files \<Rightarrow> patch_operation list \<Rightarrow> err + files \<times> change list" where
  "patch_all U next [] = Inr (next, [])"
| "patch_all U next (op # ops) =
     (case patch_one U next op of
        Inl e \<Rightarrow> Inl e
      | Inr (next', c) \<Rightarrow>
          (case patch_all U next' ops of Inl e \<Rightarrow> Inl e | Inr (out, cs) \<Rightarrow> Inr (out, c # cs)))"

text \<open>The files afterwards are the working copy, or the old files for a dry run.\<close>

definition applyPatchToFiles ::
  "unicode \<Rightarrow> files \<Rightarrow> patch_operation list \<Rightarrow> bool \<Rightarrow> err + patch_result \<times> files" where
  "applyPatchToFiles U fs ops dry =
     (case patch_all U (cloneFiles fs) ops of
        Inl e \<Rightarrow> Inl e
      | Inr (next, cs) \<Rightarrow>
          Inr (\<lparr>pt_changes = cs, pt_dry_run = dry, pt_auto_checkpoint = []\<rparr>, if dry then fs else put_all [] next))"

definition ws_patch ::
  "unicode \<Rightarrow> err option \<Rightarrow> patch_operation list \<Rightarrow> bool \<Rightarrow> workspace_store option \<Rightarrow> err + patch_result \<times> workspace_store" where
  "ws_patch U ctxerr ops dry st =
     with_store ctxerr st (\<lambda>s.
       if ops = [] then Inl (EText ''workspace: patch requires at least one operation'')
       else case applyPatchToFiles U (wk_files s) ops dry of
              Inl e \<Rightarrow> Inl e
            | Inr (r, fs) \<Rightarrow> Inr (r, s\<lparr>wk_files := fs\<rparr>))"

definition ws_ApplyPatch ::
  "unicode \<Rightarrow> err option \<Rightarrow> patch_operation list \<Rightarrow> workspace_store option \<Rightarrow> err + patch_result \<times> workspace_store" where
  "ws_ApplyPatch U ctxerr ops st = ws_patch U ctxerr ops False st"

definition ws_PreviewPatch ::
  "unicode \<Rightarrow> err option \<Rightarrow> patch_operation list \<Rightarrow> workspace_store option \<Rightarrow> err + patch_result \<times> workspace_store" where
  "ws_PreviewPatch U ctxerr ops st = ws_patch U ctxerr ops True st"

section \<open>Diffs and checkpoints\<close>

definition diff_one :: "files \<Rightarrow> files \<Rightarrow> string \<Rightarrow> change list" where
  "diff_one before after name =
     (case (map_of before name, map_of after name) of
        (None, Some new) \<Rightarrow> [\<lparr>ch_path = name, ch_kind = ChangeAdded, ch_before = [], ch_after = new\<rparr>]
      | (Some old, None) \<Rightarrow> [\<lparr>ch_path = name, ch_kind = ChangeDeleted, ch_before = old, ch_after = []\<rparr>]
      | (Some old, Some new) \<Rightarrow>
          (if old \<noteq> new then [\<lparr>ch_path = name, ch_kind = ChangeModified, ch_before = old, ch_after = new\<rparr>] else [])
      | (None, None) \<Rightarrow> [])"

definition diffFiles :: "files \<Rightarrow> files \<Rightarrow> change list" where
  "diffFiles before after =
     concat (map (diff_one before after) (stable_sort str_less (remdups (map fst before @ map fst after))))"

definition ws_Diff :: "err option \<Rightarrow> string \<Rightarrow> workspace_store option \<Rightarrow> err + ws_diff" where
  "ws_Diff ctxerr base0 st =
     with_store ctxerr st (\<lambda>s.
       let base = (if trim_space base0 = [] then wk_base s else base0)
       in case map_of (wk_checkpoints s) base of
            None \<Rightarrow> Inl (EText (''workspace: checkpoint not found: '' @ base))
          | Some sn \<Rightarrow> Inr \<lparr>df_base = base, df_changes = diffFiles (wn_files sn) (wk_files s)\<rparr>)"

definition checkpoint_id :: "nat \<Rightarrow> string" where
  "checkpoint_id n = ''checkpoint-'' @ show_nat n"

text \<open>The loop of \<open>nextIDLocked\<close>; one more try than there are checkpoints is enough.\<close>

fun next_checkpoint_id :: "nat \<Rightarrow> nat \<Rightarrow> (string, 'a) gomap \<Rightarrow> (string \<times> nat) option" where
  "next_checkpoint_id 0 n m = None"
| "next_checkpoint_id (Suc fuel) n m =
     (if map_of m (checkpoint_id n) = None then Some (checkpoint_id n, Suc n) else next_checkpoint_id fuel (Suc n) m)"

definition nextIDLocked :: "workspace_store \<Rightarrow> string \<times> nat" where
  "nextIDLocked s = the (next_checkpoint_id (Suc (length (wk_checkpoints s))) (wk_next s) (wk_checkpoints s))"

definition ws_Checkpoint ::
  "err option \<Rightarrow> gotime \<Rightarrow> checkpoint_options \<Rightarrow> workspace_store option \<Rightarrow> err + ws_checkpoint \<times> workspace_store" where
  "ws_Checkpoint ctxerr now opts st =
     with_store ctxerr st (\<lambda>s.
       let (i, n) = nextIDLocked s;
           cp = \<lparr>wc_id = i, wc_label = trim_space (cko_label opts), wc_created = now, wc_files = int (length (wk_files s)),
                 wc_metadata = cloneMetadata (cko_metadata opts)\<rparr>
       in Inr (cloneCheckpoint cp,
            s\<lparr>wk_checkpoints := AList.update i \<lparr>wn_checkpoint = cp, wn_files = cloneFiles (wk_files s)\<rparr> (wk_checkpoints s),
              wk_order := wk_order s @ [i], wk_next := n\<rparr>))"

definition ws_Restore ::
  "err option \<Rightarrow> string \<Rightarrow> workspace_store option \<Rightarrow> err + ws_checkpoint \<times> workspace_store" where
  "ws_Restore ctxerr id0 st =
     with_store ctxerr st (\<lambda>s.
       let i = trim_space id0
       in if i = [] then Inl (EText ''workspace: checkpoint id is required'')
          else case map_of (wk_checkpoints s) i of
                 None \<Rightarrow> Inl (EText (''workspace: checkpoint not found: '' @ i))
               | Some sn \<Rightarrow> Inr (cloneCheckpoint (wn_checkpoint sn), s\<lparr>wk_files := cloneFiles (wn_files sn)\<rparr>))"

definition ws_ListCheckpoints :: "err option \<Rightarrow> workspace_store option \<Rightarrow> err + ws_checkpoint list" where
  "ws_ListCheckpoints ctxerr st =
     with_store ctxerr st (\<lambda>s.
       Inr (List.map_filter (\<lambda>i. map_option (\<lambda>sn. cloneCheckpoint (wn_checkpoint sn)) (map_of (wk_checkpoints s) i))
         (wk_order s)))"

section \<open>Paths stay inside the workspace\<close>

text \<open>A stored path names something below the root: it has no dot-dot element.\<close>

definition contained :: "string \<Rightarrow> bool" where
  "contained p \<longleftrightarrow> p \<noteq> dot \<and> dotdot \<notin> set (split_on (CHR ''/'') p)"

lemma invalidPath_goes_up: "invalidPath name \<longleftrightarrow> cleanPath name = dot \<or> goes_up (cleanPath name)"
  by (simp add: invalidPath_def goes_up_def Let_def)

lemma goes_up_cases: "goes_up p \<Longrightarrow> p = dotdot \<or> (\<exists>s. p = dotdot @ CHR ''/'' # s)"
  by (auto simp: goes_up_def has_prefix_def dotdot_def) (metis append_Cons append_Nil append_take_drop_id)

lemma trim_right_Nil [simp]: "trim_right [] = []"
  by (simp add: trim_right_def)

lemma cleanPath_goes_up: "goes_up p \<Longrightarrow> goes_up (cleanPath p)"
proof -
  assume up: "goes_up p"
  from goes_up_cases [OF up] have "\<exists>q. trim_space p = q \<and> goes_up q"
    by (auto simp: dotdot_def trim_space_ink trim_right_ink goes_up_def has_prefix_def)
  then obtain q where q: "trim_space p = q" "goes_up q" by blast
  then have "trim_prefix q ''/'' = q" "q \<noteq> []"
    using goes_up_cases [OF q(2)] by (auto simp: trim_prefix_def has_prefix_def dotdot_def)
  then show ?thesis using path_Clean_up [OF q(2)] by (simp add: cleanPath_def q(1) Let_def)
qed

lemma valid_contained:
  assumes "\<not> invalidPath (cleanPath name)"
  shows "contained (cleanPath name)"
proof -
  let ?n = "cleanPath name"
  have "\<not> goes_up ?n" using assms cleanPath_goes_up by (auto simp: invalidPath_goes_up)
  moreover have "?n \<noteq> dot"
  proof
    assume dot: "?n = dot"
    have "cleanPath dot = dot"
      by (simp add: cleanPath_def dot_def trim_space_ink trim_prefix_def has_prefix_def path_Clean_def clean_elem_def)
    with assms show False by (simp add: invalidPath_goes_up dot)
  qed
  ultimately show ?thesis
  proof (cases "trim_prefix (trim_space name) ''/'' = []")
    case True
    then have "?n = dot" by (simp add: cleanPath_def)
    with \<open>?n \<noteq> dot\<close> show ?thesis by simp
  next
    case False
    then have n: "?n = path_Clean (trim_prefix (trim_space name) ''/'')" by (simp add: cleanPath_def Let_def)
    show ?thesis using path_Clean_no_up \<open>\<not> goes_up ?n\<close> \<open>?n \<noteq> dot\<close> unfolding contained_def n by blast
  qed
qed

end
