(* ===== verification/Unified_Diff.thy ===== *)
theory Unified_Diff
  imports Workspace
begin

text \<open>
  \<open>workspace/unified.go\<close> and \<open>MemoryStore.ApplyUnifiedDiff\<close>: parsing a unified diff and applying its
  hunks. The position in the input is the suffix of lines that is left; \<open>tot\<close> is the number of
  lines. Indexing an empty line is a run-time panic of the program and a value of the model.
\<close>

section \<open>Data\<close>

record unified_line =
  ul_kind :: char
  ul_text :: string

record unified_hunk =
  uh_old_start :: int
  uh_old_count :: int
  uh_new_start :: int
  uh_new_count :: int
  uh_lines :: "unified_line list"

record unified_patch =
  up_old :: string
  up_new :: string
  up_hunks :: "unified_hunk list"

datatype failure = Failed err | Panicked

abbreviation dev_null :: string where "dev_null \<equiv> ''/dev/null''"

section \<open>Parsing\<close>

definition parseUnifiedPath :: "string \<Rightarrow> string" where
  "parseUnifiedPath value0 =
     (let value = takeWhile (\<lambda>c. c \<noteq> CHR 9 \<and> c \<noteq> CHR 32) (trim_space value0)
      in if value = dev_null then value else cleanPath (trim_prefix (trim_prefix value ''a/'') ''b/''))"

definition unifiedPatchPath :: "unified_patch \<Rightarrow> string" where
  "unifiedPatchPath p = (if up_new p \<noteq> [] \<and> up_new p \<noteq> dev_null then up_new p else up_old p)"

definition parseUnifiedRange :: "string \<Rightarrow> char \<Rightarrow> err + int \<times> int" where
  "parseUnifiedRange value pre =
     (if value = [] \<or> hd value \<noteq> pre then Inl (EText (''workspace: invalid unified range: '' @ value))
      else let body = tl value; start = takeWhile (\<lambda>c. c \<noteq> CHR '','') body;
               cnt = (if length start < length body then atoi (drop (Suc (length start)) body) else Some 1)
           in case cnt of
                None \<Rightarrow> Inl (EText (''workspace: invalid unified range count: '' @ value))
              | Some n \<Rightarrow>
                  (case atoi start of
                     None \<Rightarrow> Inl (EText (''workspace: invalid unified range start: '' @ value))
                   | Some line \<Rightarrow> Inr (line, n)))"

text \<open>How many lines of the old and of the new file a hunk line stands for.\<close>

definition old_side :: "unified_line \<Rightarrow> int" where
  "old_side l = (if ul_kind l = CHR 32 \<or> ul_kind l = CHR ''-'' then 1 else 0)"

definition new_side :: "unified_line \<Rightarrow> int" where
  "new_side l = (if ul_kind l = CHR 32 \<or> ul_kind l = CHR ''+'' then 1 else 0)"

definition validateUnifiedHunkCounts :: "unified_hunk \<Rightarrow> err option" where
  "validateUnifiedHunkCounts h =
     (let oc = sum_list (map old_side (uh_lines h)); nc = sum_list (map new_side (uh_lines h))
      in if oc \<noteq> uh_old_count h \<or> nc \<noteq> uh_new_count h
         then Some (EText (''workspace: invalid unified hunk counts: header -'' @ show_int (uh_old_count h) @ '' +''
                @ show_int (uh_new_count h) @ '', body -'' @ show_int oc @ '' +'' @ show_int nc))
         else None)"

definition no_newline_marker :: string where
  "no_newline_marker = CHR 92 # '' No newline at end of file''"

text \<open>The body of a hunk: its lines and the lines after it.\<close>

fun hunk_body ::
  "nat \<Rightarrow> int \<Rightarrow> int \<Rightarrow> int \<Rightarrow> int \<Rightarrow> string list \<Rightarrow> failure + unified_line list \<times> string list" where
  "hunk_body tot oc nc seen_old seen_new [] = Inr ([], [])"
| "hunk_body tot oc nc seen_old seen_new (line # rest) =
     (if seen_old = oc \<and> seen_new = nc then Inr ([], line # rest)
      else if line = no_newline_marker then hunk_body tot oc nc seen_old seen_new rest
      else if line = [] \<and> rest = [] then Inr ([], line # rest)
      else case line of
             [] \<Rightarrow> Inl Panicked
           | k # tx \<Rightarrow>
               (if k \<noteq> CHR 32 \<and> k \<noteq> CHR ''-'' \<and> k \<noteq> CHR ''+''
                then Inl (Failed (EText (''workspace: invalid unified hunk line '' @ show_nat (tot - length rest) @ '': '' @ line)))
                else let l = \<lparr>ul_kind = k, ul_text = tx\<rparr>; o' = seen_old + old_side l; n' = seen_new + new_side l
                     in if oc < o' \<or> nc < n'
                        then Inl (Failed (EText ''workspace: unified hunk has more lines than header declares''))
                        else (case hunk_body tot oc nc o' n' rest of
                                Inl f \<Rightarrow> Inl f
                              | Inr (ls, r) \<Rightarrow> Inr (l # ls, r))))"

definition parseUnifiedHunk :: "nat \<Rightarrow> string \<Rightarrow> string list \<Rightarrow> failure + unified_hunk \<times> string list" where
  "parseUnifiedHunk tot header rest =
     (let bad = Inl (Failed (EText (''workspace: invalid unified hunk header: '' @ header)))
      in case str_index (drop 3 header) ''@@'' of
           None \<Rightarrow> bad
         | Some e \<Rightarrow>
             (let hf = str_fields (take e (drop 3 header))
              in if length hf < 2 then bad
                 else case parseUnifiedRange (hf ! 0) (CHR ''-'') of
                        Inl x \<Rightarrow> Inl (Failed x)
                      | Inr (os, oc) \<Rightarrow>
                          (case parseUnifiedRange (hf ! 1) (CHR ''+'') of
                             Inl x \<Rightarrow> Inl (Failed x)
                           | Inr (ns, nc) \<Rightarrow>
                               (case hunk_body tot oc nc 0 0 rest of
                                  Inl f \<Rightarrow> Inl f
                                | Inr (ls, r) \<Rightarrow>
                                    (let h = \<lparr>uh_old_start = os, uh_old_count = oc, uh_new_start = ns, uh_new_count = nc,
                                              uh_lines = ls\<rparr>
                                     in case validateUnifiedHunkCounts h of
                                          Some x \<Rightarrow> Inl (Failed x)
                                        | None \<Rightarrow> Inr (h, r))))))"

lemma hunk_body_rest: "hunk_body tot oc nc o1 n1 lines = Inr (ls, r) \<Longrightarrow> length r \<le> length lines"
proof (induction tot oc nc o1 n1 lines arbitrary: ls r rule: hunk_body.induct)
  case (2 tot oc nc o1 n1 line rest)
  show ?case
  proof (cases "(o1 = oc \<and> n1 = nc) \<or> line = no_newline_marker \<or> line = []")
    case True
    with 2 show ?thesis by (auto split: if_splits intro: le_SucI)
  next
    case False
    then obtain k tx where l: "line = k # tx" by (cases line) auto
    from False 2 show ?thesis
      by (auto simp: l Let_def split: if_splits sum.splits prod.splits intro: le_SucI)
  qed
qed simp

lemma parseUnifiedHunk_rest: "parseUnifiedHunk tot header lines = Inr (h, r) \<Longrightarrow> length r \<le> length lines"
  unfolding parseUnifiedHunk_def
  by (auto simp: Let_def split: option.splits if_splits sum.splits prod.splits dest: hunk_body_rest)

text \<open>The hunks of one file, up to the next file header.\<close>

function parse_hunks :: "nat \<Rightarrow> string list \<Rightarrow> failure + unified_hunk list \<times> string list" where
  "parse_hunks tot [] = Inr ([], [])"
| "parse_hunks tot (line # rest) =
     (if has_prefix line ''--- '' then Inr ([], line # rest)
      else if line = [] \<and> rest = [] then Inr ([], [])
      else if \<not> has_prefix line ''@@ '' then parse_hunks tot rest
      else case parseUnifiedHunk tot line rest of
             Inl f \<Rightarrow> Inl f
           | Inr (h, rest') \<Rightarrow>
               (case parse_hunks tot rest' of Inl f \<Rightarrow> Inl f | Inr (hs, r) \<Rightarrow> Inr (h # hs, r)))"
  by pat_completeness auto
termination
  by (relation "measure (\<lambda>(tot, lines). length lines)") (auto dest!: parseUnifiedHunk_rest)

lemma parse_hunks_rest: "parse_hunks tot lines = Inr (hs, r) \<Longrightarrow> length r \<le> length lines"
proof (induction tot lines arbitrary: hs r rule: parse_hunks.induct)
  case (2 tot line rest)
  consider "has_prefix line ''--- '' \<or> (line = [] \<and> rest = [])"
    | "\<not> has_prefix line ''--- ''" "\<not> (line = [] \<and> rest = [])" "\<not> has_prefix line ''@@ ''"
    | "\<not> has_prefix line ''--- ''" "\<not> (line = [] \<and> rest = [])" "has_prefix line ''@@ ''" by blast
  then show ?case
  proof cases
    case 1
    with "2.prems" show ?thesis by (auto split: if_splits)
  next
    case skip: 2
    with "2.prems" have "parse_hunks tot rest = Inr (hs, r)" by simp
    with "2.IH"(1) skip show ?thesis by (simp add: le_SucI)
  next
    case 3
    with "2.prems" obtain h rest' hs' where h: "parseUnifiedHunk tot line rest = Inr (h, rest')"
      "parse_hunks tot rest' = Inr (hs', r)" by (auto split: sum.splits prod.splits)
    have "length r \<le> length rest'" using "2.IH"(2) 3 h by blast
    with parseUnifiedHunk_rest [OF h(1)] show ?thesis by simp
  qed
qed simp

function parse_patches :: "nat \<Rightarrow> string list \<Rightarrow> failure + unified_patch list" where
  "parse_patches tot [] = Inr []"
| "parse_patches tot (line # rest) =
     (if \<not> has_prefix line ''--- '' then parse_patches tot rest
      else let old = parseUnifiedPath (drop 4 line)
           in if rest = [] \<or> \<not> has_prefix (hd rest) ''+++ ''
              then Inl (Failed (EText (''workspace: unified diff expected +++ after --- '' @ old)))
              else let new = parseUnifiedPath (drop 4 (hd rest))
                   in case parse_hunks tot (tl rest) of
                        Inl f \<Rightarrow> Inl f
                      | Inr (hs, r) \<Rightarrow>
                          (let p = \<lparr>up_old = old, up_new = new, up_hunks = hs\<rparr>
                           in if hs = []
                              then Inl (Failed (EText (''workspace: unified diff for '' @ unifiedPatchPath p @ '' has no hunks'')))
                              else case parse_patches tot r of Inl f \<Rightarrow> Inl f | Inr ps \<Rightarrow> Inr (p # ps)))"
  by pat_completeness auto
termination
  by (relation "measure (\<lambda>(tot, lines). length lines)") (auto dest!: parse_hunks_rest simp: le_imp_less_Suc)

definition parseUnifiedDiff :: "string \<Rightarrow> failure + unified_patch list" where
  "parseUnifiedDiff diff =
     (let raw = split_on (CHR 10) (replace_crlf diff) in parse_patches (length raw) raw)"

section \<open>Applying\<close>

definition splitContentLines :: "string \<Rightarrow> string list \<times> bool" where
  "splitContentLines content =
     (if content = [] then ([], False)
      else if last content = CHR 10 then (split_on (CHR 10) (butlast content), True)
      else (split_on (CHR 10) content, False))"

definition joinContentLines :: "string list \<Rightarrow> bool \<Rightarrow> string" where
  "joinContentLines lines trailing =
     (if lines = [] then [] else join [CHR 10] lines @ (if trailing then [CHR 10] else []))"

definition lineWindow :: "string list \<Rightarrow> nat \<Rightarrow> string" where
  "lineWindow lines i =
     (if lines = [] then ''<empty>''
      else join '' | '' (map (\<lambda>j. show_nat (Suc j) @ '':'' @ lines ! j) [i - 2..<min (i + 3) (length lines)]))"

definition unifiedLineMismatch :: "unicode \<Rightarrow> string \<Rightarrow> nat \<Rightarrow> string \<Rightarrow> string list \<Rightarrow> err" where
  "unifiedLineMismatch U name i expected lines =
     EText (''workspace: unified diff failed for '' @ name @ '' at line '' @ show_nat (Suc i) @ '': expected '' @ quote U expected
       @ '', found '' @ quote U (if i < length lines then lines ! i else ''<EOF>'') @ ''; nearby current content: ''
       @ lineWindow lines i)"

text \<open>The lines of one hunk against the file from line \<open>pos\<close>: the new lines and the next position.\<close>

fun apply_hunk_lines :: "unicode \<Rightarrow> string \<Rightarrow> string list \<Rightarrow> nat \<Rightarrow> unified_line list \<Rightarrow> err + string list \<times> nat" where
  "apply_hunk_lines U name lines pos [] = Inr ([], pos)"
| "apply_hunk_lines U name lines pos (l # ls) =
     (let match = (pos < length lines \<and> lines ! pos = ul_text l)
      in if ul_kind l = CHR 32 then
           (if \<not> match then Inl (unifiedLineMismatch U name pos (ul_text l) lines)
            else case apply_hunk_lines U name lines (Suc pos) ls of
                   Inl e \<Rightarrow> Inl e | Inr (out, p) \<Rightarrow> Inr (ul_text l # out, p))
         else if ul_kind l = CHR ''-'' then
           (if \<not> match then Inl (unifiedLineMismatch U name pos (ul_text l) lines)
            else apply_hunk_lines U name lines (Suc pos) ls)
         else if ul_kind l = CHR ''+'' then
           (case apply_hunk_lines U name lines pos ls of
              Inl e \<Rightarrow> Inl e | Inr (out, p) \<Rightarrow> Inr (ul_text l # out, p))
         else apply_hunk_lines U name lines pos ls)"

text \<open>
  The line a hunk starts at, counted from 0. For the smallest \<open>int\<close> the difference wraps around to
  the largest; both are outside every file, so exact subtraction takes the same branch.
\<close>

definition hunk_target :: "unified_hunk \<Rightarrow> int" where
  "hunk_target h = (if uh_old_start h = 0 then 0 else uh_old_start h - 1)"

fun apply_hunks :: "unicode \<Rightarrow> string \<Rightarrow> string list \<Rightarrow> nat \<Rightarrow> unified_hunk list \<Rightarrow> err + string list" where
  "apply_hunks U name lines pos [] = Inr (drop pos lines)"
| "apply_hunks U name lines pos (h # hs) =
     (if hunk_target h < int pos \<or> int (length lines) < hunk_target h
      then Inl (EText (''workspace: unified diff failed for '' @ name @ '': hunk starts at line '' @ show_int (uh_old_start h)
             @ '' outside current file''))
      else let t = nat (hunk_target h)
           in case apply_hunk_lines U name lines t (uh_lines h) of
                Inl e \<Rightarrow> Inl e
              | Inr (out, p) \<Rightarrow>
                  (case apply_hunks U name lines p hs of
                     Inl e \<Rightarrow> Inl e
                   | Inr rest \<Rightarrow> Inr (take (t - pos) (drop pos lines) @ out @ rest)))"

definition applyUnifiedFilePatch :: "unicode \<Rightarrow> string \<Rightarrow> string \<Rightarrow> bool \<Rightarrow> unified_patch \<Rightarrow> err + string" where
  "applyUnifiedFilePatch U name before existing p =
     (let (lines, trailing) = splitContentLines before
      in case apply_hunks U name lines 0 (up_hunks p) of
           Inl e \<Rightarrow> Inl e
         | Inr out \<Rightarrow>
             (if up_new p = dev_null then
                (if out \<noteq> [] then Inl (EText (''workspace: unified diff delete failed for '' @ name @ '': patch leaves ''
                                   @ show_nat (length out) @ '' lines''))
                 else Inr [])
              else if up_old p = dev_null \<and> existing
              then Inl (EText (''workspace: unified diff add failed for '' @ name @ '': file already exists''))
              else Inr (joinContentLines out trailing)))"

definition patch_operation_of :: "unicode \<Rightarrow> files \<Rightarrow> unified_patch \<Rightarrow> err + patch_operation" where
  "patch_operation_of U fs p =
     (let name = unifiedPatchPath p; cur = map_of fs name
      in if invalidPath name then Inl (EText (''workspace: invalid file path: '' @ name))
         else if up_old p = dev_null \<and> cur \<noteq> None
         then Inl (EText (''workspace: unified diff add failed for '' @ name @ '': file already exists''))
         else if up_old p \<noteq> dev_null \<and> cur = None
         then Inl (EText (''workspace: unified diff failed for '' @ name @ '': file does not exist''))
         else let before = (case cur of None \<Rightarrow> [] | Some b \<Rightarrow> b)
              in case applyUnifiedFilePatch U name before (cur \<noteq> None) p of
                   Inl e \<Rightarrow> Inl e
                 | Inr after \<Rightarrow>
                     Inr \<lparr>po_path = name, po_old = (if up_old p \<noteq> dev_null then Some before else None),
                          po_new = (if up_new p \<noteq> dev_null then Some after else None)\<rparr>)"

fun patch_operations :: "unicode \<Rightarrow> files \<Rightarrow> unified_patch list \<Rightarrow> err + patch_operation list" where
  "patch_operations U fs [] = Inr []"
| "patch_operations U fs (p # ps) =
     (case patch_operation_of U fs p of
        Inl e \<Rightarrow> Inl e
      | Inr op \<Rightarrow> (case patch_operations U fs ps of Inl e \<Rightarrow> Inl e | Inr ops \<Rightarrow> Inr (op # ops)))"

definition unifiedDiffOperations :: "unicode \<Rightarrow> string \<Rightarrow> files \<Rightarrow> failure + patch_operation list" where
  "unifiedDiffOperations U diff fs =
     (case parseUnifiedDiff diff of
        Inl f \<Rightarrow> Inl f
      | Inr ps \<Rightarrow>
          (if ps = [] then Inl (Failed (EText ''workspace: unified diff contains no file patches''))
           else case patch_operations U fs ps of Inl e \<Rightarrow> Inl (Failed e) | Inr ops \<Rightarrow> Inr ops))"

definition ws_ApplyUnifiedDiff ::
  "unicode \<Rightarrow> err option \<Rightarrow> string \<Rightarrow> bool \<Rightarrow> workspace_store option \<Rightarrow> failure + patch_result \<times> workspace_store" where
  "ws_ApplyUnifiedDiff U ctxerr diff dry st =
     (case with_store ctxerr st Inr of
        Inl e \<Rightarrow> Inl (Failed e)
      | Inr s \<Rightarrow>
          (case unifiedDiffOperations U diff (wk_files s) of
             Inl f \<Rightarrow> Inl f
           | Inr ops \<Rightarrow>
               (case applyPatchToFiles U (wk_files s) ops dry of
                  Inl e \<Rightarrow> Inl (Failed e)
                | Inr (r, fs) \<Rightarrow> Inr (r, s\<lparr>wk_files := fs\<rparr>))))"

section \<open>What a hunk means\<close>

definition is_old :: "unified_line \<Rightarrow> bool" where
  "is_old l \<longleftrightarrow> ul_kind l = CHR 32 \<or> ul_kind l = CHR ''-''"

definition is_new :: "unified_line \<Rightarrow> bool" where
  "is_new l \<longleftrightarrow> ul_kind l = CHR 32 \<or> ul_kind l = CHR ''+''"

definition old_text :: "unified_line list \<Rightarrow> string list" where
  "old_text ls = map ul_text (filter is_old ls)"

definition new_text :: "unified_line list \<Rightarrow> string list" where
  "new_text ls = map ul_text (filter is_new ls)"

text \<open>
  The reference: the file from line \<open>pos\<close> on is a kept part, the old side of the hunk at its
  declared line, and a rest; the result has the new side in its place.
\<close>

inductive rewritten :: "nat \<Rightarrow> string list \<Rightarrow> unified_hunk list \<Rightarrow> string list \<Rightarrow> bool" where
  keep: "rewritten pos rest [] rest"
| hunk: "hunk_target h = int (pos + length kept) \<Longrightarrow>
    rewritten (pos + length kept + length (old_text (uh_lines h))) rest hs out \<Longrightarrow>
    rewritten pos (kept @ old_text (uh_lines h) @ rest) (h # hs) (kept @ new_text (uh_lines h) @ out)"

inductive_cases rewritten_Nil: "rewritten pos lines [] out"
inductive_cases rewritten_Cons: "rewritten pos lines (h # hs) out"

lemma side_text_simps [simp]:
  "old_text [] = []" "new_text [] = []"
  "old_text (l # ls) = (if is_old l then ul_text l # old_text ls else old_text ls)"
  "new_text (l # ls) = (if is_new l then ul_text l # new_text ls else new_text ls)"
  by (simp_all add: old_text_def new_text_def)

lemma drop_Cons_nth: "pos < length lines \<Longrightarrow> drop pos lines = lines ! pos # drop (Suc pos) lines"
  by (simp add: Cons_nth_drop_Suc)

lemma apply_hunk_lines_iff:
  "apply_hunk_lines U name lines pos ls = Inr (out, p) \<longleftrightarrow>
     out = new_text ls \<and> p = pos + length (old_text ls) \<and> (\<exists>rest. drop pos lines = old_text ls @ rest)"
proof (induction ls arbitrary: pos out p)
  case (Cons l ls)
  consider "ul_kind l = CHR 32" | "ul_kind l = CHR ''-''" | "ul_kind l = CHR ''+''"
    | "ul_kind l \<noteq> CHR 32" "ul_kind l \<noteq> CHR ''-''" "ul_kind l \<noteq> CHR ''+''" by blast
  moreover have at: "(\<exists>rest. drop pos lines = ul_text l # old_text ls @ rest) \<longleftrightarrow>
      pos < length lines \<and> lines ! pos = ul_text l \<and> (\<exists>rest. drop (Suc pos) lines = old_text ls @ rest)"
    by (cases "pos < length lines") (auto simp: drop_Cons_nth)
  ultimately show ?case
  proof cases
    case 1
    with Cons.IH [of "Suc pos"] at show ?thesis
      by (auto simp: Let_def is_old_def is_new_def split: sum.splits)
  next
    case 2
    with Cons.IH [of "Suc pos"] at show ?thesis by (auto simp: Let_def is_old_def is_new_def)
  next
    case 3
    with Cons.IH [of pos] show ?thesis by (auto simp: Let_def is_old_def is_new_def split: sum.splits)
  next
    case 4
    with Cons.IH [of pos] show ?thesis by (auto simp: Let_def is_old_def is_new_def)
  qed
qed auto

lemma apply_hunks_iff:
  "pos \<le> length lines \<Longrightarrow> apply_hunks U name lines pos hs = Inr out \<longleftrightarrow> rewritten pos (drop pos lines) hs out"
proof (induction hs arbitrary: pos out)
  case Nil
  then show ?case by (auto elim: rewritten_Nil intro: rewritten.keep)
next
  case (Cons h hs)
  show ?case
  proof
    assume run: "apply_hunks U name lines pos (h # hs) = Inr out"
    define t where "t = nat (hunk_target h)"
    from run have tgt: "int pos \<le> hunk_target h" "hunk_target h \<le> int (length lines)" by (auto split: if_splits)
    then have t: "pos \<le> t" "t \<le> length lines" "hunk_target h = int t" by (simp_all add: t_def)
    from run tgt obtain o1 p rest where l: "apply_hunk_lines U name lines t (uh_lines h) = Inr (o1, p)"
      and r: "apply_hunks U name lines p hs = Inr rest" and out: "out = take (t - pos) (drop pos lines) @ o1 @ rest"
      by (auto simp: Let_def t_def [symmetric] split: if_splits sum.splits prod.splits)
    from l obtain tail where o1: "o1 = new_text (uh_lines h)" and p: "p = t + length (old_text (uh_lines h))"
      and tail: "drop t lines = old_text (uh_lines h) @ tail" by (auto simp: apply_hunk_lines_iff)
    have "length (drop t lines) = length (old_text (uh_lines h)) + length tail" by (simp add: tail)
    then have le: "p \<le> length lines" using t(2) p by simp
    have dp: "drop p lines = tail" using tail p by (metis add.commute append_eq_conv_conj drop_drop)
    let ?k = "take (t - pos) (drop pos lines)"
    have k: "length ?k = t - pos" using t by simp
    have "drop pos lines = ?k @ old_text (uh_lines h) @ tail"
      using tail t(1) by (metis append_take_drop_id drop_drop le_add_diff_inverse2)
    moreover have "rewritten (pos + length ?k + length (old_text (uh_lines h))) tail hs rest"
      using Cons.IH [OF le] r dp p k t(1) by simp
    ultimately show "rewritten pos (drop pos lines) (h # hs) out"
      unfolding out o1 using t k by (metis le_add_diff_inverse rewritten.hunk)
  next
    assume "rewritten pos (drop pos lines) (h # hs) out"
    then obtain kept rest o1 where lines: "drop pos lines = kept @ old_text (uh_lines h) @ rest"
      and out: "out = kept @ new_text (uh_lines h) @ o1" and tgt: "hunk_target h = int (pos + length kept)"
      and r: "rewritten (pos + length kept + length (old_text (uh_lines h))) rest hs o1" by (rule rewritten_Cons) auto
    let ?t = "pos + length kept" and ?p = "pos + length kept + length (old_text (uh_lines h))"
    have len: "length lines = ?p + length rest"
      using lines Cons.prems by (metis add.assoc length_append length_drop le_add_diff_inverse)
    have dt: "drop ?t lines = old_text (uh_lines h) @ rest" and dp: "drop ?p lines = rest"
      using lines by (metis add.commute append_eq_conv_conj drop_drop)+
    have "apply_hunk_lines U name lines ?t (uh_lines h) = Inr (new_text (uh_lines h), ?p)"
      using dt by (auto simp: apply_hunk_lines_iff)
    moreover have "apply_hunks U name lines ?p hs = Inr o1" using Cons.IH [of ?p] r dp len by simp
    moreover have "take (length kept) (drop pos lines) = kept" by (simp add: lines)
    ultimately show "apply_hunks U name lines pos (h # hs) = Inr out"
      using tgt len by (simp add: Let_def out nat_add_distrib)
  qed
qed

section \<open>Undoing a patch\<close>

definition flip_line :: "unified_line \<Rightarrow> unified_line" where
  "flip_line l = l\<lparr>ul_kind := (if ul_kind l = CHR ''-'' then CHR ''+'' else if ul_kind l = CHR ''+'' then CHR ''-'' else ul_kind l)\<rparr>"

lemma flip_text [simp]: "old_text (map flip_line ls) = new_text ls" "new_text (map flip_line ls) = old_text ls"
  by (induction ls) (auto simp: flip_line_def is_old_def is_new_def)

lemma rewritten_reverse:
  "rewritten pos lines hs out \<Longrightarrow>
     \<exists>hs'. map uh_lines hs' = map (\<lambda>h. map flip_line (uh_lines h)) hs \<and> rewritten pos' out hs' lines"
proof (induction arbitrary: pos' rule: rewritten.induct)
  case (keep pos rest)
  then show ?case by (intro exI [of _ "[]"]) (simp add: rewritten.keep)
next
  case (hunk h pos kept rest hs out)
  let ?h = "h\<lparr>uh_old_start := int (pos' + length kept) + 1, uh_lines := map flip_line (uh_lines h)\<rparr>"
  from hunk.IH [of "pos' + length kept + length (new_text (uh_lines h))"] obtain hs' where
    hs: "map uh_lines hs' = map (\<lambda>h. map flip_line (uh_lines h)) hs"
    and r: "rewritten (pos' + length kept + length (new_text (uh_lines h))) out hs' rest" by blast
  have "rewritten pos' (kept @ old_text (uh_lines ?h) @ out) (?h # hs') (kept @ new_text (uh_lines ?h) @ rest)"
    by (rule rewritten.hunk) (use r in \<open>simp_all add: hunk_target_def\<close>)
  with hs show ?case by (intro exI [of _ "?h # hs'"]) simp
qed

lemma join_split_content: "joinContentLines (fst (splitContentLines s)) (snd (splitContentLines s)) = s"
  by (auto simp: joinContentLines_def splitContentLines_def)
    (metis append_butlast_last_id)

section \<open>Properties\<close>


definition sample_patch :: unified_patch where
  "sample_patch = \<lparr>up_old = ''f'', up_new = ''f'', up_hunks =
     [\<lparr>uh_old_start = 2, uh_old_count = 1, uh_new_start = 2, uh_new_count = 1,
       uh_lines = [\<lparr>ul_kind = CHR ''-'', ul_text = ''b''\<rparr>, \<lparr>ul_kind = CHR ''+'', ul_text = ''x''\<rparr>]\<rparr>]\<rparr>"


text \<open>
  A blank line inside a hunk, which editors and models produce for an empty context line, is
  indexed at position 0: the program panics instead of reporting a malformed diff.
\<close>

lemma blank_hunk_line_panics: "hunk_body 4 oc nc 0 0 ([] # line # rest) = Inl Panicked" if "\<not> (oc = 0 \<and> nc = 0)"
  using that by (simp add: no_newline_marker_def)

text \<open>
  An insertion with an empty old range names the line before it (\<open>@@ -1,0 +2 @@\<close> inserts after line
  1), but the hunk is applied in front of that line.
\<close>

lemma empty_range_inserts_early:
  "apply_hunks U name [''a'', ''b''] 0 [\<lparr>uh_old_start = 1, uh_old_count = 0, uh_new_start = 2, uh_new_count = 1,
     uh_lines = [\<lparr>ul_kind = CHR ''+'', ul_text = ''x''\<rparr>]\<rparr>] = Inr [''x'', ''a'', ''b'']"
  by (simp add: hunk_target_def)

text \<open>A file added by a diff never ends in a newline, whether or not the diff marks its absence.\<close>

lemma added_file_loses_newline:
  assumes "up_new p \<noteq> dev_null" and "applyUnifiedFilePatch U name [] False p = Inr after"
  shows "\<exists>out. after = join [CHR 10] out"
proof -
  from assms obtain out where "after = joinContentLines out False"
    by (auto simp: applyUnifiedFilePatch_def splitContentLines_def split: sum.splits if_splits)
  then show ?thesis by (intro exI [of _ out]) (auto simp: joinContentLines_def)
qed

end
