(* ===== verification/Workspace_Contract.thy ===== *)
theory Workspace_Contract
  imports Unified_Diff
begin

text \<open>
  The contract of the workspace store: paths stay inside the workspace, a checkpoint is restored
  exactly whatever happened in between, and a diff tells exactly what changed. The first two are
  proved for every sequence of operations, as an invariant of the store's steps and through the
  interface of stores with snapshots.
\<close>

section \<open>Stores with snapshots\<close>

locale snapshot_store =
  fixes contents :: "'s \<Rightarrow> 'c"
    and snapshot :: "'s \<Rightarrow> 'i \<Rightarrow> 'c option"
    and step :: "'s \<Rightarrow> 's \<Rightarrow> bool"
    and taken :: "'s \<Rightarrow> 'i \<times> 's"
    and restored :: "'s \<Rightarrow> 'i \<Rightarrow> 's option"
    and store_ok :: "'s \<Rightarrow> bool"
  assumes step_ok: "store_ok s \<Longrightarrow> step s s' \<Longrightarrow> store_ok s'"
    and step_keeps: "store_ok s \<Longrightarrow> step s s' \<Longrightarrow> snapshot s i = Some c \<Longrightarrow> snapshot s' i = Some c"
    and taken_ok: "store_ok s \<Longrightarrow> taken s = (i, s') \<Longrightarrow> store_ok s'"
    and taken_snapshot: "store_ok s \<Longrightarrow> taken s = (i, s') \<Longrightarrow> snapshot s' i = Some (contents s)"
    and restored_contents: "store_ok s \<Longrightarrow> snapshot s i = Some c \<Longrightarrow> \<exists>s'. restored s i = Some s' \<and> contents s' = c"
begin

lemma steps_ok: "step\<^sup>*\<^sup>* s s' \<Longrightarrow> store_ok s \<Longrightarrow> store_ok s'"
  by (induction rule: rtranclp_induct) (auto intro: step_ok)

lemma steps_keep: "step\<^sup>*\<^sup>* s s' \<Longrightarrow> store_ok s \<Longrightarrow> snapshot s i = Some c \<Longrightarrow> snapshot s' i = Some c"
  by (induction rule: rtranclp_induct) (auto intro: step_keeps steps_ok)

lemma restore_after_steps:
  assumes "store_ok s" and "taken s = (i, s1)" and "step\<^sup>*\<^sup>* s1 s2"
  shows "\<exists>s3. restored s2 i = Some s3 \<and> contents s3 = contents s"
proof -
  have "store_ok s1" "snapshot s1 i = Some (contents s)" using assms taken_ok taken_snapshot by blast+
  then have "store_ok s2" "snapshot s2 i = Some (contents s)" using assms(3) steps_ok steps_keep by blast+
  then show ?thesis by (rule restored_contents)
qed

end

section \<open>The invariant\<close>

definition files_ok :: "files \<Rightarrow> bool" where
  "files_ok fs \<longleftrightarrow> wf_map fs \<and> list_all contained (map fst fs)"

definition snapshot_ok :: "string \<times> ws_snapshot \<Rightarrow> bool" where
  "snapshot_ok p \<longleftrightarrow> wc_id (wn_checkpoint (snd p)) = fst p \<and> files_ok (wn_files (snd p)) \<and> (\<exists>n. fst p = checkpoint_id n)"

definition ws_inv :: "workspace_store \<Rightarrow> bool" where
  "ws_inv s \<longleftrightarrow> files_ok (wk_files s) \<and> wf_map (wk_checkpoints s) \<and> list_all snapshot_ok (wk_checkpoints s)"

text \<open>The operations of the store, with every argument.\<close>

inductive ws_step :: "workspace_store \<Rightarrow> workspace_store \<Rightarrow> bool" where
  wrote: "ws_WriteFile c name content (Some s) = Inr s' \<Longrightarrow> ws_step s s'"
| delete: "ws_DeleteFile c name (Some s) = Inr s' \<Longrightarrow> ws_step s s'"
| patch: "ws_patch U c ops dry (Some s) = Inr (r, s') \<Longrightarrow> ws_step s s'"
| unified: "ws_ApplyUnifiedDiff U c diff dry (Some s) = Inr (r, s') \<Longrightarrow> ws_step s s'"
| checkpoint: "ws_Checkpoint c now opts (Some s) = Inr (cp, s') \<Longrightarrow> ws_step s s'"
| restore: "ws_Restore c i (Some s) = Inr (cp, s') \<Longrightarrow> ws_step s s'"

lemma cloneFiles_id: "wf_map fs \<Longrightarrow> cloneFiles fs = fs"
  using put_all_distinct [of "[]" fs] by (simp add: cloneFiles_def)

lemma files_ok_update: "files_ok fs \<Longrightarrow> contained k \<Longrightarrow> files_ok (AList.update k v fs)"
  by (auto simp: files_ok_def list_all_iff update_keys)

lemma files_ok_delete: "files_ok fs \<Longrightarrow> files_ok (AList.delete k fs)"
  by (auto simp: files_ok_def wf_map_def list_all_iff delete_keys distinct_removeAll)

lemma patch_one_ok: "patch_one U fs op = Inr (fs', c) \<Longrightarrow> files_ok fs \<Longrightarrow> files_ok fs'"
  unfolding patch_one_def Let_def
  by (auto split: if_splits option.splits intro: files_ok_update files_ok_delete valid_contained)

lemma patch_all_ok: "patch_all U fs ops = Inr (fs', cs) \<Longrightarrow> files_ok fs \<Longrightarrow> files_ok fs'"
proof (induction ops arbitrary: fs fs' cs)
  case (Cons op ops)
  from Cons.prems(1) obtain fs1 c cs1 where "patch_one U fs op = Inr (fs1, c)" "patch_all U fs1 ops = Inr (fs', cs1)"
    by (auto split: sum.splits prod.splits)
  then show ?case using Cons.IH patch_one_ok Cons.prems(2) by blast
qed simp

lemma applyPatch_ok:
  assumes "applyPatchToFiles U fs ops dry = Inr (r, fs')" and "files_ok fs"
  shows "files_ok fs'"
proof -
  have wf: "wf_map fs" using assms(2) by (simp add: files_ok_def)
  from assms(1) obtain out cs where n: "patch_all U fs ops = Inr (out, cs)" "fs' = (if dry then fs else put_all [] out)"
    by (auto simp: applyPatchToFiles_def cloneFiles_id [OF wf] split: sum.splits)
  have ok: "files_ok out" using patch_all_ok [OF n(1) assms(2)] .
  then have "put_all [] out = out" using cloneFiles_id [of out] by (simp add: files_ok_def cloneFiles_def)
  then show ?thesis using ok assms(2) n(2) by simp
qed

section \<open>Checkpoint ids\<close>

lemma checkpoint_id_inj [simp]: "checkpoint_id a = checkpoint_id b \<longleftrightarrow> a = b"
  using show_nat_inj by (auto simp: checkpoint_id_def)

lemma checkpoint_id_0: "checkpoint_id 0 = ''checkpoint-0''"
  by code_simp

lemma next_id_None: "next_checkpoint_id fuel n m = None \<Longrightarrow> k < fuel \<Longrightarrow> map_of m (checkpoint_id (n + k)) \<noteq> None"
proof (induction fuel arbitrary: n k)
  case (Suc fuel)
  show ?case
  proof (cases k)
    case (Suc k')
    with Suc.prems Suc.IH [of "Suc n" k'] show ?thesis by (simp split: if_splits)
  qed (use Suc.prems in \<open>simp split: if_splits\<close>)
qed simp

lemma next_id_Some: "next_checkpoint_id fuel n m = Some (i, n') \<Longrightarrow> map_of m i = None \<and> (\<exists>k. i = checkpoint_id k)"
  by (induction fuel arbitrary: n) (auto split: if_splits)

text \<open>The loop of \<open>nextIDLocked\<close> ends: there are more candidates than checkpoints.\<close>

lemma nextIDLocked_fresh:
  obtains i n k where "nextIDLocked s = (i, n)" "map_of (wk_checkpoints s) i = None" "i = checkpoint_id k"
proof -
  let ?m = "wk_checkpoints s"
  have "next_checkpoint_id (Suc (length ?m)) (wk_next s) ?m \<noteq> None"
  proof
    assume none: "next_checkpoint_id (Suc (length ?m)) (wk_next s) ?m = None"
    let ?ids = "(\<lambda>k. checkpoint_id (wk_next s + k)) ` {0..<Suc (length ?m)}"
    have "?ids \<subseteq> fst ` set ?m"
      using next_id_None [OF none] by (force simp: map_of_eq_None_iff)
    then have "card ?ids \<le> card (fst ` set ?m)" by (rule card_mono [rotated]) simp
    also have "\<dots> \<le> length ?m" using card_length [of "map fst ?m"] by simp
    finally show False by (simp add: card_image inj_on_def)
  qed
  then obtain i n where "next_checkpoint_id (Suc (length ?m)) (wk_next s) ?m = Some (i, n)" by auto
  moreover from next_id_Some [OF this] obtain k where "map_of ?m i = None" "i = checkpoint_id k" by blast
  ultimately show ?thesis by (intro that [of i n k]) (simp_all add: nextIDLocked_def del: next_checkpoint_id.simps)
qed

lemma ink_digits: "list_all ink_char (show_nat n)"
proof (induction n rule: show_nat.induct)
  case (1 n)
  have "ink_char (digit_char d)" if "d < 10" for d
    using that by (simp add: ink_char_def digit_char_def byte_def is_space_def)
  then show ?case using 1 by (subst show_nat.simps) auto
qed

lemma trim_right_all_ink: "list_all ink_char s \<Longrightarrow> trim_right s = s"
  by (induction s) (simp_all add: trim_right_ink)

lemma trim_checkpoint_id [simp]: "trim_space (checkpoint_id n) = checkpoint_id n" "checkpoint_id n \<noteq> []"
proof -
  have ink: "list_all ink_char (checkpoint_id n)"
    using ink_digits by (simp add: checkpoint_id_def ink_char_def byte_def is_space_def)
  show ne: "checkpoint_id n \<noteq> []" by (simp add: checkpoint_id_def)
  then obtain c cs where "checkpoint_id n = c # cs" by (cases "checkpoint_id n") auto
  with ink show "trim_space (checkpoint_id n) = checkpoint_id n"
    by (simp add: trim_space_ink trim_right_all_ink)
qed

section \<open>Every operation keeps the contract\<close>

lemma ws_inv_files: "ws_inv s \<Longrightarrow> files_ok fs \<Longrightarrow> ws_inv (s\<lparr>wk_files := fs\<rparr>)"
  by (simp add: ws_inv_def)

lemma snapshot_ok_of: "ws_inv s \<Longrightarrow> map_of (wk_checkpoints s) i = Some sn \<Longrightarrow> snapshot_ok (i, sn)"
  by (auto simp: ws_inv_def list_all_iff dest: map_of_SomeD)

lemma Checkpoint_step:
  assumes "ws_inv s" and "ws_Checkpoint c now opts (Some s) = Inr (cp, s')"
  obtains i n k sn where "s' = s\<lparr>wk_checkpoints := wk_checkpoints s @ [(i, sn)], wk_order := wk_order s @ [i], wk_next := n\<rparr>"
    "map_of (wk_checkpoints s) i = None" "i = checkpoint_id k" "wc_id cp = i" "wn_files sn = wk_files s" "ws_inv s'"
proof -
  obtain i n k where i: "nextIDLocked s = (i, n)" "map_of (wk_checkpoints s) i = None" "i = checkpoint_id k"
    by (rule nextIDLocked_fresh)
  let ?cp = "\<lparr>wc_id = i, wc_label = trim_space (cko_label opts), wc_created = now, wc_files = int (length (wk_files s)),
                 wc_metadata = cloneMetadata (cko_metadata opts)\<rparr>"
  let ?sn = "\<lparr>wn_checkpoint = ?cp, wn_files = wk_files s\<rparr>"
  have wf: "wf_map (wk_files s)" using assms(1) by (simp add: ws_inv_def files_ok_def)
  have c: "c = None" using assms(2) by (auto simp: ws_Checkpoint_def with_store_def split: option.splits)
  have s': "s' = s\<lparr>wk_checkpoints := wk_checkpoints s @ [(i, ?sn)], wk_order := wk_order s @ [i], wk_next := n\<rparr>"
    and cp: "wc_id cp = i"
    using assms(2) i(2) by (auto simp: ws_Checkpoint_def with_store_def c Let_def i(1) cloneFiles_id [OF wf] cloneCheckpoint_def
        update_fresh map_of_eq_None_iff)
  have "ws_inv s'" using assms(1) i(2,3) by (auto simp: s' ws_inv_def snapshot_ok_def wf_map_def map_of_eq_None_iff)
  then show ?thesis by (rule that [OF s' i(2,3) cp, rotated]) simp
qed

lemma Restore_step:
  assumes "ws_inv s" and "ws_Restore c i (Some s) = Inr (cp, s')"
  shows "\<exists>fs. s' = s\<lparr>wk_files := fs\<rparr> \<and> files_ok fs"
proof -
  from assms(2) obtain sn where sn: "map_of (wk_checkpoints s) (trim_space i) = Some sn" "s' = s\<lparr>wk_files := cloneFiles (wn_files sn)\<rparr>"
    by (auto simp: ws_Restore_def with_store_def Let_def split: option.splits if_splits)
  have "files_ok (wn_files sn)" using snapshot_ok_of [OF assms(1) sn(1)] by (simp add: snapshot_ok_def)
  then show ?thesis using sn(2) cloneFiles_id [of "wn_files sn"] by (auto simp: files_ok_def)
qed

text \<open>A step replaces the files by contained ones, or adds a checkpoint.\<close>

lemma ws_step_cases:
  assumes "ws_step s s'" and "ws_inv s"
  obtains fs where "s' = s\<lparr>wk_files := fs\<rparr>" "files_ok fs"
  | c now opts cp where "ws_Checkpoint c now opts (Some s) = Inr (cp, s')"
  using assms(1)
proof cases
  case (wrote c name content)
  then show ?thesis using that(1) assms(2) files_ok_update valid_contained
    by (auto simp: ws_WriteFile_def with_store_def ws_inv_def split: option.splits if_splits)
next
  case (delete c name)
  then show ?thesis using that(1) assms(2) files_ok_delete
    by (auto simp: ws_DeleteFile_def with_store_def ws_inv_def split: option.splits if_splits)
next
  case (patch U c ops dry r)
  then show ?thesis using that(1) assms(2) applyPatch_ok
    by (fastforce simp: ws_patch_def with_store_def ws_inv_def split: option.splits if_splits sum.splits)
next
  case (unified U c diff dry r)
  then show ?thesis using that(1) assms(2) applyPatch_ok
    by (fastforce simp: ws_ApplyUnifiedDiff_def with_store_def ws_inv_def split: option.splits if_splits sum.splits)
next
  case (checkpoint c now opts cp)
  then show ?thesis by (rule that(2))
next
  case (restore c i cp)
  then show ?thesis using that(1) Restore_step [OF assms(2)] by blast
qed

definition snapshot_of_id :: "workspace_store \<Rightarrow> string \<Rightarrow> (string \<Rightarrow> string option) option" where
  "snapshot_of_id s i = map_option (\<lambda>sn. map_of (wn_files sn)) (map_of (wk_checkpoints s) i)"

definition take_checkpoint :: "gotime \<Rightarrow> checkpoint_options \<Rightarrow> workspace_store \<Rightarrow> string \<times> workspace_store" where
  "take_checkpoint now opts s =
     (case ws_Checkpoint None now opts (Some s) of Inl _ \<Rightarrow> ([], s) | Inr (cp, s') \<Rightarrow> (wc_id cp, s'))"

definition restore_checkpoint :: "workspace_store \<Rightarrow> string \<Rightarrow> workspace_store option" where
  "restore_checkpoint s i = (case ws_Restore None i (Some s) of Inl _ \<Rightarrow> None | Inr (cp, s') \<Rightarrow> Some s')"

lemma map_of_keep: "map_of m k = Some v \<Longrightarrow> map_of (m @ m') k = Some v"
  by (simp add: map_of_append map_add_Some_iff)

lemma map_of_last: "map_of m k = None \<Longrightarrow> map_of (m @ [(k, v)]) k = Some v"
  by (simp add: map_of_append map_add_def)

lemma Checkpoint_total: "\<exists>cp s'. ws_Checkpoint None now opts (Some s) = Inr (cp, s')"
  by (simp add: ws_Checkpoint_def with_store_def Let_def split: prod.split)

interpretation ws: snapshot_store "\<lambda>s. map_of (wk_files s)" snapshot_of_id ws_step "take_checkpoint now opts" restore_checkpoint ws_inv
  for now opts
proof
  fix s s' i c
  assume inv: "ws_inv s" and step: "ws_step s s'"
  show "ws_inv s'"
    using step inv by (rule ws_step_cases) (auto intro: ws_inv_files inv elim: Checkpoint_step [OF inv])
  show "snapshot_of_id s' i = Some c" if "snapshot_of_id s i = Some c"
    using step inv
  proof (rule ws_step_cases)
    fix c' now opts cp assume "ws_Checkpoint c' now opts (Some s) = Inr (cp, s')"
    from inv this show ?thesis
      by (rule Checkpoint_step) (use that in \<open>auto simp: snapshot_of_id_def map_of_keep\<close>)
  qed (use that in \<open>simp add: snapshot_of_id_def\<close>)
next
  fix s i s'
  assume inv: "ws_inv s" and "take_checkpoint now opts s = (i, s')"
  then obtain cp where cp: "ws_Checkpoint None now opts (Some s) = Inr (cp, s')" "i = wc_id cp"
    using Checkpoint_total [of now opts s] by (auto simp: take_checkpoint_def)
  show "ws_inv s'" by (rule Checkpoint_step [OF inv cp(1)])
  show "snapshot_of_id s' i = Some (map_of (wk_files s))"
    by (rule Checkpoint_step [OF inv cp(1)]) (auto simp: snapshot_of_id_def cp(2) map_add_def)
next
  fix s i c
  assume inv: "ws_inv s" and "snapshot_of_id s i = Some c"
  then obtain sn where sn: "map_of (wk_checkpoints s) i = Some sn" "c = map_of (wn_files sn)"
    by (auto simp: snapshot_of_id_def)
  have "snapshot_ok (i, sn)" by (rule snapshot_ok_of [OF inv sn(1)])
  then obtain n where "i = checkpoint_id n" "cloneFiles (wn_files sn) = wn_files sn"
    using cloneFiles_id by (auto simp: snapshot_ok_def files_ok_def)
  then show "\<exists>s'. restore_checkpoint s i = Some s' \<and> map_of (wk_files s') = c"
    using sn by (simp add: restore_checkpoint_def ws_Restore_def with_store_def)
qed

section \<open>Diffs\<close>

lemma diff_one_spec:
  "diff_one before after name = [] \<longleftrightarrow> map_of before name = map_of after name"
  "c \<in> set (diff_one before after name) \<Longrightarrow> ch_path c = name \<and>
     map_of before name = (if ch_kind c = ChangeAdded then None else Some (ch_before c)) \<and>
     map_of after name = (if ch_kind c = ChangeDeleted then None else Some (ch_after c))"
  by (auto simp: diff_one_def split: option.splits if_splits)

lemma diff_paths: "map ch_path (diffFiles before after) =
    filter (\<lambda>n. map_of before n \<noteq> map_of after n) (stable_sort str_less (remdups (map fst before @ map fst after)))"
proof -
  have "map ch_path (concat (map (diff_one before after) ns)) = filter (\<lambda>n. map_of before n \<noteq> map_of after n) ns" for ns
    by (induction ns) (auto simp: diff_one_def split: option.splits)
  then show ?thesis by (simp add: diffFiles_def)
qed

lemma sorted_filter_paths: "sorted_wrt (\<lambda>a b. \<not> str_less b a) (filter P (stable_sort str_less ns))"
  by (rule sorted_wrt_filter) (rule sorted_stable_sort [OF str_less_strict_weak])

lemma strictly_sorted:
  "distinct xs \<Longrightarrow> sorted_wrt (\<lambda>a b. \<not> str_less b a) xs \<Longrightarrow> sorted_wrt str_less xs"
proof (induction xs)
  case (Cons x xs)
  have "str_less x y" if "y \<in> set xs" for y
    using Cons.prems that str_less_total [of x y] by auto
  with Cons show ?case by simp
qed simp

lemma distinct_stable_sort: "distinct xs \<Longrightarrow> distinct (stable_sort lt xs)"
  by (metis mset_eq_imp_distinct_iff mset_stable_sort)

section \<open>Properties\<close>





text \<open>
  A diff lists exactly the paths whose content differs from the base, each once and in byte
  order, with the kind of change and both contents.
\<close>

theorem diff_exact:
  "sorted_wrt str_less (map ch_path (diffFiles before after))
   \<and> set (map ch_path (diffFiles before after)) = {n. map_of before n \<noteq> map_of after n}
   \<and> list_all (\<lambda>c. map_of before (ch_path c) = (if ch_kind c = ChangeAdded then None else Some (ch_before c))
        \<and> map_of after (ch_path c) = (if ch_kind c = ChangeDeleted then None else Some (ch_after c))) (diffFiles before after)"
proof (intro conjI)
  let ?ns = "stable_sort str_less (remdups (map fst before @ map fst after))"
  show "sorted_wrt str_less (map ch_path (diffFiles before after))"
    unfolding diff_paths by (rule strictly_sorted) (simp_all add: distinct_stable_sort sorted_filter_paths)
  have "n \<in> set (map fst before @ map fst after)" if "map_of before n \<noteq> map_of after n" for n
    using that by (cases "map_of before n"; cases "map_of after n") (auto dest!: map_of_SomeD simp: rev_image_eqI)
  then show "set (map ch_path (diffFiles before after)) = {n. map_of before n \<noteq> map_of after n}"
    unfolding diff_paths by auto
  show "list_all (\<lambda>c. map_of before (ch_path c) = (if ch_kind c = ChangeAdded then None else Some (ch_before c))
        \<and> map_of after (ch_path c) = (if ch_kind c = ChangeDeleted then None else Some (ch_after c))) (diffFiles before after)"
    unfolding diffFiles_def list_all_iff using diff_one_spec(2) by fastforce
qed

text \<open>
  Cleaning is not idempotent: a path with two leading slashes is stored under an absolute name,
  which reading cleans again to another name.
\<close>

lemma double_slash_unreadable:
  "\<exists>s. ws_WriteFile None ''//a'' ''x'' (Some (NewWorkspaceStore 1 [])) = Inr s \<and> map_of (wk_files s) ''/a'' = Some ''x''
     \<and> (\<exists>e. ws_ReadFile None ''/a'' (Some s) = Inl e)"
proof -
  have cp: "cleanPath ''//a'' = ''/a''" "cleanPath ''/a'' = ''a''" by code_simp+
  then show ?thesis
    by (simp add: ws_WriteFile_def ws_ReadFile_def with_store_def invalidPath_def dot_def dotdot_def has_prefix_def
        NewWorkspaceStore_def Let_def)
qed

end
