(* ===== verification/Agent_Policy.thy ===== *)
theory Agent_Policy
  imports Go_Text Hooks
begin

text \<open>
  \<open>toolkit/agentpolicy/workspace.go\<close>: policy presets built from hooks. A policy is a state with
  hook functions on it; \<open>ctxerr\<close> is \<open>ctx.Err()\<close> at the call. What \<open>encoding/json\<close> and the digest of a
  canonical input return is an argument, with \<open>None\<close> for an error. A grant of an approval keeps the
  input hash it was given for.
\<close>

section \<open>Names\<close>

abbreviation ApplyPatchToolName :: string where "ApplyPatchToolName \<equiv> ''workspace_apply_patch''"
abbreviation CheckpointToolName :: string where "CheckpointToolName \<equiv> ''workspace_checkpoint''"
abbreviation ApprovalToolName :: string where "ApprovalToolName \<equiv> ''request_approval''"
abbreviation CommandToolName :: string where "CommandToolName \<equiv> ''run_command''"

definition allow_use :: before_tool_result where
  "allow_use = \<lparr>br_deny = [], br_metadata = []\<rparr>"

definition deny_use :: "string \<Rightarrow> before_tool_result" where
  "deny_use reason = \<lparr>br_deny = reason, br_metadata = []\<rparr>"

text \<open>The decoders: the \<open>dry_run\<close> field of a patch input, the \<open>command\<close> field of a command input
  (\<open>VNil\<close> when it is missing), and the hash of the canonical JSON of an input.\<close>

record policy_json =
  pj_dry_run :: "string \<Rightarrow> bool option"
  pj_command :: "string \<Rightarrow> gval option"
  pj_hash :: "string \<Rightarrow> string option"

section \<open>Checkpoint before patch\<close>

definition checkpointBeforePatchReason :: string where
  "checkpointBeforePatchReason = ''create a workspace checkpoint before applying patches''"

record checkpoint_policy =
  cbp_checkpointed :: "(string, bool) gomap"

definition RequireCheckpointBeforePatch :: checkpoint_policy where
  "RequireCheckpointBeforePatch = \<lparr>cbp_checkpointed = []\<rparr>"

definition patchDryRun :: "policy_json \<Rightarrow> string \<Rightarrow> bool" where
  "patchDryRun js input = (case pj_dry_run js input of None \<Rightarrow> False | Some b \<Rightarrow> b)"

definition hasCheckpoint :: "checkpoint_policy \<Rightarrow> string \<Rightarrow> bool" where
  "hasCheckpoint p sid \<longleftrightarrow> sid \<noteq> [] \<and> map_of (cbp_checkpointed p) sid = Some True"

definition cbp_BeforeToolUse ::
  "policy_json \<Rightarrow> err option \<Rightarrow> checkpoint_policy \<Rightarrow> before_tool_input \<Rightarrow> checkpoint_policy \<times> (err + before_tool_result)" where
  "cbp_BeforeToolUse js ctxerr p i =
     (p, case ctxerr of
           Some e \<Rightarrow> Inl e
         | None \<Rightarrow>
             (if use_name (bi_use i) \<noteq> ApplyPatchToolName \<or> patchDryRun js (use_input (bi_use i)) \<or> hasCheckpoint p (bi_session i)
              then Inr allow_use else Inr (deny_use checkpointBeforePatchReason)))"

definition cbp_AfterToolUse ::
  "err option \<Rightarrow> checkpoint_policy \<Rightarrow> after_tool_input \<Rightarrow> checkpoint_policy \<times> err option" where
  "cbp_AfterToolUse ctxerr p i =
     (case ctxerr of
        Some e \<Rightarrow> (p, Some e)
      | None \<Rightarrow>
          (if tr_is_error (ai_result i) \<or> use_name (ai_use i) \<noteq> CheckpointToolName
              \<or> metadata_string (tr_metadata (ai_result i)) ''workspace_operation'' \<noteq> ''checkpoint'' \<or> ai_session i = []
           then (p, None)
           else (p\<lparr>cbp_checkpointed := AList.update (ai_session i) True (cbp_checkpointed p)\<rparr>, None)))"

definition cbp_Reset :: "checkpoint_policy \<Rightarrow> string \<Rightarrow> checkpoint_policy" where
  "cbp_Reset p sid = (if sid = [] then p else p\<lparr>cbp_checkpointed := AList.delete sid (cbp_checkpointed p)\<rparr>)"

definition cbp_SessionEnded :: "checkpoint_policy \<Rightarrow> session_ended_input \<Rightarrow> checkpoint_policy \<times> err option" where
  "cbp_SessionEnded p i = (cbp_Reset p (ei_session i), None)"

section \<open>Approval before tools\<close>

record approval_policy =
  abt_required :: "string list"
  abt_approved :: "(string, (string, string list) gomap) gomap"
  abt_approval_tool :: string
  abt_single_use :: bool
  abt_bind_input :: bool

definition WithSingleUseApprovals :: "approval_policy \<Rightarrow> approval_policy" where
  "WithSingleUseApprovals p = p\<lparr>abt_single_use := True\<rparr>"

definition WithInputBoundApprovals :: "approval_policy \<Rightarrow> approval_policy" where
  "WithInputBoundApprovals p = p\<lparr>abt_bind_input := True\<rparr>"

definition WithApprovalToolName :: "string \<Rightarrow> approval_policy \<Rightarrow> approval_policy" where
  "WithApprovalToolName name p = (if trim_space name \<noteq> [] then p\<lparr>abt_approval_tool := trim_space name\<rparr> else p)"

text \<open>A nil option is \<open>None\<close>.\<close>

definition RequireApprovalBeforeTools :: "string list \<Rightarrow> (approval_policy \<Rightarrow> approval_policy) option list \<Rightarrow> approval_policy" where
  "RequireApprovalBeforeTools names options =
     fold (\<lambda>opt p. case opt of None \<Rightarrow> p | Some f \<Rightarrow> f p) options
       \<lparr>abt_required = filter (\<lambda>n. n \<noteq> []) (map trim_space names), abt_approved = [], abt_approval_tool = ApprovalToolName,
        abt_single_use = False, abt_bind_input = False\<rparr>"

definition abt_requires :: "approval_policy \<Rightarrow> string \<Rightarrow> bool" where
  "abt_requires p name \<longleftrightarrow> name \<noteq> [] \<and> name \<in> set (abt_required p)"

definition abt_approvalName :: "approval_policy \<Rightarrow> string" where
  "abt_approvalName p = (if trim_space (abt_approval_tool p) = [] then ApprovalToolName else abt_approval_tool p)"

definition ApprovalBeforeToolReason :: "string \<Rightarrow> string" where
  "ApprovalBeforeToolReason name = ''request approval for '' @ trim_space name @ '' before using it''"

text \<open>The grants of a session for a tool; a missing entry of either map has none.\<close>

definition abt_grants :: "approval_policy \<Rightarrow> string \<Rightarrow> string \<Rightarrow> string list" where
  "abt_grants p sid name =
     (case map_of (abt_approved p) sid of
        None \<Rightarrow> []
      | Some m \<Rightarrow> (case map_of m name of None \<Rightarrow> [] | Some gs \<Rightarrow> gs))"

text \<open>The first grant that fits and the grants without it.\<close>

fun take_grant :: "(string \<Rightarrow> bool) \<Rightarrow> string list \<Rightarrow> (string \<times> string list) option" where
  "take_grant fits [] = None"
| "take_grant fits (g # gs) =
     (if fits g then Some (g, gs) else map_option (\<lambda>(h, rest). (h, g # rest)) (take_grant fits gs))"

definition consumed_metadata :: "string \<Rightarrow> bool \<Rightarrow> string \<Rightarrow> metadata" where
  "consumed_metadata action single hash =
     [(''approval_consumed'', VBool True), (''approval_action'', VString action), (''approval_single_use'', VBool single)]
     @ (if hash \<noteq> [] then [(''approval_input_hash'', VString hash)] else [])"

text \<open>Storing the remaining grants: an empty list removes the entry.\<close>

definition abt_store_grants :: "approval_policy \<Rightarrow> string \<Rightarrow> string \<Rightarrow> string list \<Rightarrow> approval_policy" where
  "abt_store_grants p sid name gs =
     (let m = (case map_of (abt_approved p) sid of None \<Rightarrow> [] | Some m \<Rightarrow> m)
      in p\<lparr>abt_approved := AList.update sid (if gs = [] then AList.delete name m else AList.update name gs m) (abt_approved p)\<rparr>)"

definition abt_consumeApproval ::
  "policy_json \<Rightarrow> approval_policy \<Rightarrow> string \<Rightarrow> tool_use \<Rightarrow> (approval_policy \<times> metadata) option" where
  "abt_consumeApproval js p sid use =
     (let name = use_name use; h = (if abt_bind_input p then pj_hash js (use_input use) else Some [])
      in if sid = [] \<or> name = [] \<or> h = None then None
         else case take_grant (\<lambda>g. \<not> abt_bind_input p \<or> Some g = h) (abt_grants p sid name) of
                None \<Rightarrow> None
              | Some (g, rest) \<Rightarrow>
                  Some (if abt_single_use p then abt_store_grants p sid name rest else p,
                        consumed_metadata name (abt_single_use p) g))"

definition abt_BeforeToolUse ::
  "policy_json \<Rightarrow> err option \<Rightarrow> approval_policy \<Rightarrow> before_tool_input \<Rightarrow> approval_policy \<times> (err + before_tool_result)" where
  "abt_BeforeToolUse js ctxerr p i =
     (case ctxerr of
        Some e \<Rightarrow> (p, Inl e)
      | None \<Rightarrow>
          (if \<not> abt_requires p (use_name (bi_use i)) then (p, Inr allow_use)
           else case abt_consumeApproval js p (bi_session i) (bi_use i) of
                  Some (p', md) \<Rightarrow> (p', Inr \<lparr>br_deny = [], br_metadata = md\<rparr>)
                | None \<Rightarrow> (p, Inr (deny_use (ApprovalBeforeToolReason (use_name (bi_use i)))))))"

text \<open>The grant an approval result gives: its action and input hash.\<close>

definition abt_grant_of :: "approval_policy \<Rightarrow> after_tool_input \<Rightarrow> (string \<times> string) option" where
  "abt_grant_of p i =
     (let md = tr_metadata (ai_result i); action = trim_space (metadata_string md ''approval_action'');
          h = trim_space (metadata_string md ''approval_input_hash'')
      in if ai_session i = [] \<or> tr_is_error (ai_result i) \<or> use_name (ai_use i) \<noteq> abt_approvalName p
            \<or> metadata_string md ''approval_operation'' \<noteq> ''request'' \<or> \<not> metadata_bool md ''approval_approved''
            \<or> \<not> abt_requires p action \<or> (abt_bind_input p \<and> h = [])
         then None else Some (action, h))"

definition abt_AfterToolUse ::
  "err option \<Rightarrow> approval_policy \<Rightarrow> after_tool_input \<Rightarrow> approval_policy \<times> err option" where
  "abt_AfterToolUse ctxerr p i =
     (case ctxerr of
        Some e \<Rightarrow> (p, Some e)
      | None \<Rightarrow>
          (case abt_grant_of p i of
             None \<Rightarrow> (p, None)
           | Some (action, h) \<Rightarrow>
               (let sid = ai_session i; m = (case map_of (abt_approved p) sid of None \<Rightarrow> [] | Some m \<Rightarrow> m)
                in (p\<lparr>abt_approved := AList.update sid (AList.update action (abt_grants p sid action @ [h]) m) (abt_approved p)\<rparr>,
                    None))))"

definition abt_Reset :: "approval_policy \<Rightarrow> string \<Rightarrow> approval_policy" where
  "abt_Reset p sid = (if sid = [] then p else p\<lparr>abt_approved := AList.delete sid (abt_approved p)\<rparr>)"

definition abt_SessionEnded :: "approval_policy \<Rightarrow> session_ended_input \<Rightarrow> approval_policy \<times> err option" where
  "abt_SessionEnded p i = (abt_Reset p (ei_session i), None)"

section \<open>Commands\<close>

record parsed_command =
  pc_argv :: "string list"
  pc_unsafe :: bool

type_synonym command_matcher = "string list"

definition normalizeCommandArgs :: "string list \<Rightarrow> string list" where
  "normalizeCommandArgs argv = filter (\<lambda>a. a \<noteq> []) (map trim_space argv)"

definition MatchCommandPrefix :: "string list \<Rightarrow> command_matcher" where
  "MatchCommandPrefix prefix = normalizeCommandArgs prefix"

definition shell_markers :: "string list" where
  "shell_markers = [''&&'', ''||'', '';'', ''|'', [CHR 0x60], ''$('', ''>'', ''<'', [CHR 10], [CHR 13]]"

definition hasShellControlSyntax :: "string \<Rightarrow> bool" where
  "hasShellControlSyntax command \<longleftrightarrow>
     list_ex (contains command) shell_markers \<or> ''&'' \<in> set (str_fields command)"

definition commandFromValue :: "gval \<Rightarrow> parsed_command" where
  "commandFromValue v =
     (case v of
        VString s \<Rightarrow> \<lparr>pc_argv = normalizeCommandArgs (str_fields s), pc_unsafe = hasShellControlSyntax s\<rparr>
      | VStrings ss \<Rightarrow> \<lparr>pc_argv = normalizeCommandArgs ss, pc_unsafe = False\<rparr>
      | VList vs \<Rightarrow>
          \<lparr>pc_argv = normalizeCommandArgs (List.map_filter (\<lambda>x. case x of VString s \<Rightarrow> Some s | _ \<Rightarrow> None) vs), pc_unsafe = False\<rparr>
      | _ \<Rightarrow> \<lparr>pc_argv = [], pc_unsafe = False\<rparr>)"

definition commandFromInput :: "policy_json \<Rightarrow> string \<Rightarrow> parsed_command" where
  "commandFromInput js input =
     (case pj_command js input of None \<Rightarrow> \<lparr>pc_argv = [], pc_unsafe = False\<rparr> | Some v \<Rightarrow> commandFromValue v)"

definition metadataCommand :: "metadata \<Rightarrow> parsed_command" where
  "metadataCommand md =
     (let s = metadata_string md ''command_string''
      in if trim_space s \<noteq> [] then commandFromValue (VString s)
         else commandFromValue (case map_of md ''command_argv'' of None \<Rightarrow> VNil | Some v \<Rightarrow> v))"

definition cloneCommandMatchers :: "command_matcher list \<Rightarrow> command_matcher list" where
  "cloneCommandMatchers ms = filter (\<lambda>m. m \<noteq> []) (map normalizeCommandArgs ms)"

definition commandMatches :: "string list \<Rightarrow> command_matcher \<Rightarrow> bool" where
  "commandMatches argv0 m =
     (let argv = normalizeCommandArgs argv0; prefix = normalizeCommandArgs m
      in prefix \<noteq> [] \<and> length prefix \<le> length argv \<and> take (length prefix) argv = prefix)"

definition commandMatchesAny :: "string list \<Rightarrow> command_matcher list \<Rightarrow> bool" where
  "commandMatchesAny argv ms \<longleftrightarrow> list_ex (commandMatches argv) ms"

definition join_argv :: "string list \<Rightarrow> string" where
  "join_argv argv = join '' '' (normalizeCommandArgs argv)"

definition CommandDeniedReason :: "string list \<Rightarrow> string" where
  "CommandDeniedReason argv = ''command is denied by policy: '' @ join_argv argv"

definition CommandNotAllowedReason :: "string list \<Rightarrow> string" where
  "CommandNotAllowedReason argv = ''command is not in the allowed command policy: '' @ join_argv argv"

definition CommandShellSyntaxReason :: "string list \<Rightarrow> string" where
  "CommandShellSyntaxReason argv =
     ''command contains shell control syntax that command policy cannot safely match: '' @ join_argv argv"

record command_policy =
  cmp_tool :: string
  cmp_allow :: "command_matcher list"
  cmp_deny :: "command_matcher list"

definition WithCommandToolName :: "string \<Rightarrow> command_policy \<Rightarrow> command_policy" where
  "WithCommandToolName name p = (if trim_space name \<noteq> [] then p\<lparr>cmp_tool := trim_space name\<rparr> else p)"

definition AllowCommands :: "command_matcher list \<Rightarrow> (command_policy \<Rightarrow> command_policy) option list \<Rightarrow> command_policy" where
  "AllowCommands ms options =
     fold (\<lambda>opt p. case opt of None \<Rightarrow> p | Some f \<Rightarrow> f p) options
       \<lparr>cmp_tool = CommandToolName, cmp_allow = cloneCommandMatchers ms, cmp_deny = []\<rparr>"

definition DenyCommands :: "command_matcher list \<Rightarrow> (command_policy \<Rightarrow> command_policy) option list \<Rightarrow> command_policy" where
  "DenyCommands ms options =
     fold (\<lambda>opt p. case opt of None \<Rightarrow> p | Some f \<Rightarrow> f p) options
       \<lparr>cmp_tool = CommandToolName, cmp_allow = [], cmp_deny = cloneCommandMatchers ms\<rparr>"

definition cmp_commandToolName :: "command_policy \<Rightarrow> string" where
  "cmp_commandToolName p = (if trim_space (cmp_tool p) = [] then CommandToolName else cmp_tool p)"

definition cmp_BeforeToolUse :: "policy_json \<Rightarrow> err option \<Rightarrow> command_policy \<Rightarrow> before_tool_input \<Rightarrow> err + before_tool_result" where
  "cmp_BeforeToolUse js ctxerr p i =
     (case ctxerr of
        Some e \<Rightarrow> Inl e
      | None \<Rightarrow>
          (if use_name (bi_use i) \<noteq> cmp_commandToolName p then Inr allow_use
           else let c = commandFromInput js (use_input (bi_use i)); argv = pc_argv c
                in if argv = [] then Inr (deny_use ''command input must include command'')
                   else if pc_unsafe c \<and> (cmp_allow p \<noteq> [] \<or> cmp_deny p \<noteq> []) then Inr (deny_use (CommandShellSyntaxReason argv))
                   else if commandMatchesAny argv (cmp_deny p) then Inr (deny_use (CommandDeniedReason argv))
                   else if cmp_allow p \<noteq> [] \<and> \<not> commandMatchesAny argv (cmp_allow p)
                   then Inr (deny_use (CommandNotAllowedReason argv))
                   else Inr allow_use))"

section \<open>Approval before commands\<close>

record command_approval_policy =
  cap_matchers :: "command_matcher list"
  cap_approved :: "(string, string list) gomap"
  cap_command_tool :: string
  cap_approval_tool :: string
  cap_single_use :: bool
  cap_bind_input :: bool

definition WithCommandSingleUseApprovals :: "command_approval_policy \<Rightarrow> command_approval_policy" where
  "WithCommandSingleUseApprovals p = p\<lparr>cap_single_use := True\<rparr>"

definition WithCommandInputBoundApprovals :: "command_approval_policy \<Rightarrow> command_approval_policy" where
  "WithCommandInputBoundApprovals p = p\<lparr>cap_bind_input := True\<rparr>"

definition WithCommandApprovalToolName :: "string \<Rightarrow> command_approval_policy \<Rightarrow> command_approval_policy" where
  "WithCommandApprovalToolName name p =
     (if trim_space name \<noteq> [] then p\<lparr>cap_approval_tool := trim_space name\<rparr> else p)"

definition WithCommandApprovalCommandToolName :: "string \<Rightarrow> command_approval_policy \<Rightarrow> command_approval_policy" where
  "WithCommandApprovalCommandToolName name p =
     (if trim_space name \<noteq> [] then p\<lparr>cap_command_tool := trim_space name\<rparr> else p)"

definition RequireApprovalBeforeCommands ::
  "command_matcher list \<Rightarrow> (command_approval_policy \<Rightarrow> command_approval_policy) option list \<Rightarrow> command_approval_policy" where
  "RequireApprovalBeforeCommands ms options =
     fold (\<lambda>opt p. case opt of None \<Rightarrow> p | Some f \<Rightarrow> f p) options
       \<lparr>cap_matchers = cloneCommandMatchers ms, cap_approved = [], cap_command_tool = CommandToolName,
        cap_approval_tool = ApprovalToolName, cap_single_use = False, cap_bind_input = False\<rparr>"

definition cap_commandName :: "command_approval_policy \<Rightarrow> string" where
  "cap_commandName p = (if trim_space (cap_command_tool p) = [] then CommandToolName else cap_command_tool p)"

definition cap_approvalName :: "command_approval_policy \<Rightarrow> string" where
  "cap_approvalName p = (if trim_space (cap_approval_tool p) = [] then ApprovalToolName else cap_approval_tool p)"

definition ApprovalBeforeCommandReason :: "string list \<Rightarrow> string" where
  "ApprovalBeforeCommandReason argv = ''request approval before running command: '' @ join_argv argv"

definition cap_grants :: "command_approval_policy \<Rightarrow> string \<Rightarrow> string list" where
  "cap_grants p sid = (case map_of (cap_approved p) sid of None \<Rightarrow> [] | Some gs \<Rightarrow> gs)"

definition cap_store_grants :: "command_approval_policy \<Rightarrow> string \<Rightarrow> string list \<Rightarrow> command_approval_policy" where
  "cap_store_grants p sid gs =
     p\<lparr>cap_approved := (if gs = [] then AList.delete sid (cap_approved p) else AList.update sid gs (cap_approved p))\<rparr>"

definition cap_consumeApproval ::
  "policy_json \<Rightarrow> command_approval_policy \<Rightarrow> string \<Rightarrow> tool_use \<Rightarrow> (command_approval_policy \<times> metadata) option" where
  "cap_consumeApproval js p sid use =
     (let h = (if cap_bind_input p then pj_hash js (use_input use) else Some [])
      in if sid = [] \<or> h = None then None
         else case take_grant (\<lambda>g. \<not> cap_bind_input p \<or> Some g = h) (cap_grants p sid) of
                None \<Rightarrow> None
              | Some (g, rest) \<Rightarrow>
                  Some (if cap_single_use p then cap_store_grants p sid rest else p,
                        consumed_metadata (cap_commandName p) (cap_single_use p) g))"

text \<open>The commands the policy gates: those that match a prefix, and those it cannot match because of shell
  syntax; none when it has no matchers.\<close>

definition cap_gates :: "policy_json \<Rightarrow> command_approval_policy \<Rightarrow> tool_use \<Rightarrow> bool" where
  "cap_gates js p use =
     (let c = commandFromInput js (use_input use)
      in use_name use = cap_commandName p \<and> \<not> (pc_argv c = [] \<or> cap_matchers p = [])
         \<and> \<not> (\<not> pc_unsafe c \<and> \<not> commandMatchesAny (pc_argv c) (cap_matchers p)))"

definition cap_BeforeToolUse ::
  "policy_json \<Rightarrow> err option \<Rightarrow> command_approval_policy \<Rightarrow> before_tool_input \<Rightarrow> command_approval_policy \<times> (err + before_tool_result)" where
  "cap_BeforeToolUse js ctxerr p i =
     (case ctxerr of
        Some e \<Rightarrow> (p, Inl e)
      | None \<Rightarrow>
          (if \<not> cap_gates js p (bi_use i) then (p, Inr allow_use)
           else case cap_consumeApproval js p (bi_session i) (bi_use i) of
                  Some (p', md) \<Rightarrow> (p', Inr \<lparr>br_deny = [], br_metadata = md\<rparr>)
                | None \<Rightarrow>
                    (p, Inr (deny_use (ApprovalBeforeCommandReason (pc_argv (commandFromInput js (use_input (bi_use i)))))))))"

definition cap_grant_of :: "command_approval_policy \<Rightarrow> after_tool_input \<Rightarrow> string option" where
  "cap_grant_of p i =
     (let md = tr_metadata (ai_result i); h = trim_space (metadata_string md ''approval_input_hash'')
      in if ai_session i = [] \<or> tr_is_error (ai_result i) \<or> use_name (ai_use i) \<noteq> cap_approvalName p
            \<or> metadata_string md ''approval_operation'' \<noteq> ''request'' \<or> \<not> metadata_bool md ''approval_approved''
            \<or> trim_space (metadata_string md ''approval_action'') \<noteq> cap_commandName p \<or> (cap_bind_input p \<and> h = [])
         then None else Some h)"

definition cap_AfterToolUse ::
  "err option \<Rightarrow> command_approval_policy \<Rightarrow> after_tool_input \<Rightarrow> command_approval_policy \<times> err option" where
  "cap_AfterToolUse ctxerr p i =
     (case ctxerr of
        Some e \<Rightarrow> (p, Some e)
      | None \<Rightarrow>
          (case cap_grant_of p i of
             None \<Rightarrow> (p, None)
           | Some h \<Rightarrow>
               (p\<lparr>cap_approved := AList.update (ai_session i) (cap_grants p (ai_session i) @ [h]) (cap_approved p)\<rparr>, None)))"

definition cap_Reset :: "command_approval_policy \<Rightarrow> string \<Rightarrow> command_approval_policy" where
  "cap_Reset p sid = (if sid = [] then p else p\<lparr>cap_approved := AList.delete sid (cap_approved p)\<rparr>)"

definition cap_SessionEnded :: "command_approval_policy \<Rightarrow> session_ended_input \<Rightarrow> command_approval_policy \<times> err option" where
  "cap_SessionEnded p i = (cap_Reset p (ei_session i), None)"

section \<open>Verification before the final answer\<close>

text \<open>A final hook returns the denial, empty to allow.\<close>

definition verifyBeforeFinalReason :: string where
  "verifyBeforeFinalReason =
     ''run workspace verification successfully after the latest workspace change before finalizing''"

definition verifyBeforeFinalAfterCommandReason :: string where
  "verifyBeforeFinalAfterCommandReason =
     ''run workspace verification successfully after the latest command before finalizing''"

text \<open>The \<open>dirty\<close> map of both verification policies and its operations.\<close>

type_synonym dirty_map = "(string, bool) gomap"

definition setDirty :: "dirty_map \<Rightarrow> string \<Rightarrow> bool \<Rightarrow> dirty_map" where
  "setDirty m sid b =
     (if sid = [] then m else if b then AList.update sid True m else AList.delete sid m)"

definition isDirty :: "dirty_map \<Rightarrow> string \<Rightarrow> bool" where
  "isDirty m sid \<longleftrightarrow> sid \<noteq> [] \<and> map_of m sid = Some True"

definition resetDirty :: "dirty_map \<Rightarrow> string \<Rightarrow> dirty_map" where
  "resetDirty m sid = (if sid = [] then m else AList.delete sid m)"

definition isVerificationRequiredWorkspaceOperation :: "string \<Rightarrow> metadata \<Rightarrow> bool" where
  "isVerificationRequiredWorkspaceOperation operation md =
     (if operation = ''restore'' then True
      else if operation = ''patch'' then \<not> metadata_bool md ''dry_run''
      else False)"

definition verified_by :: "metadata \<Rightarrow> bool" where
  "verified_by md \<longleftrightarrow>
     metadata_string md ''verification_operation'' = ''verify'' \<and> metadata_bool md ''verification_passed''"

record verify_policy =
  vbf_dirty :: dirty_map

definition RequireVerificationBeforeFinal :: verify_policy where
  "RequireVerificationBeforeFinal = \<lparr>vbf_dirty = []\<rparr>"

definition vbf_AfterToolUse :: "err option \<Rightarrow> verify_policy \<Rightarrow> after_tool_input \<Rightarrow> verify_policy \<times> err option" where
  "vbf_AfterToolUse ctxerr p i =
     (let md = tr_metadata (ai_result i); sid = ai_session i
      in case ctxerr of
           Some e \<Rightarrow> (p, Some e)
         | None \<Rightarrow>
             (if sid = [] \<or> tr_is_error (ai_result i) then (p, None)
              else if isVerificationRequiredWorkspaceOperation (metadata_string md ''workspace_operation'') md
              then (p\<lparr>vbf_dirty := setDirty (vbf_dirty p) sid True\<rparr>, None)
              else if verified_by md then (p\<lparr>vbf_dirty := setDirty (vbf_dirty p) sid False\<rparr>, None)
              else (p, None)))"

definition vbf_BeforeFinal ::
  "err option \<Rightarrow> verify_policy \<Rightarrow> before_final_input \<Rightarrow> verify_policy \<times> (err + string)" where
  "vbf_BeforeFinal ctxerr p i =
     (p, case ctxerr of
           Some e \<Rightarrow> Inl e
         | None \<Rightarrow> Inr (if isDirty (vbf_dirty p) (fi_session i) then verifyBeforeFinalReason else []))"

definition vbf_Reset :: "verify_policy \<Rightarrow> string \<Rightarrow> verify_policy" where
  "vbf_Reset p sid = p\<lparr>vbf_dirty := resetDirty (vbf_dirty p) sid\<rparr>"

definition vbf_SessionEnded :: "verify_policy \<Rightarrow> session_ended_input \<Rightarrow> verify_policy \<times> err option" where
  "vbf_SessionEnded p i = (vbf_Reset p (ei_session i), None)"

record verify_commands_policy =
  vac_dirty :: dirty_map
  vac_matchers :: "command_matcher list"
  vac_tool :: string

definition RequireVerificationAfterCommands :: "command_matcher list \<Rightarrow> verify_commands_policy" where
  "RequireVerificationAfterCommands ms =
     \<lparr>vac_dirty = [], vac_matchers = cloneCommandMatchers ms, vac_tool = CommandToolName\<rparr>"

definition vac_commandName :: "verify_commands_policy \<Rightarrow> string" where
  "vac_commandName p = (if trim_space (vac_tool p) = [] then CommandToolName else vac_tool p)"

definition vac_marks :: "verify_commands_policy \<Rightarrow> metadata \<Rightarrow> bool" where
  "vac_marks p md =
     (let c = metadataCommand md
      in vac_matchers p \<noteq> [] \<and> (pc_unsafe c \<or> commandMatchesAny (pc_argv c) (vac_matchers p)))"

definition vac_AfterToolUse ::
  "err option \<Rightarrow> verify_commands_policy \<Rightarrow> after_tool_input \<Rightarrow> verify_commands_policy \<times> err option" where
  "vac_AfterToolUse ctxerr p i =
     (let md = tr_metadata (ai_result i); sid = ai_session i
      in case ctxerr of
           Some e \<Rightarrow> (p, Some e)
         | None \<Rightarrow>
             (if sid = [] then (p, None)
              else if use_name (ai_use i) = vac_commandName p \<and> \<not> tr_is_error (ai_result i)
              then (if vac_marks p md then p\<lparr>vac_dirty := setDirty (vac_dirty p) sid True\<rparr> else p, None)
              else if verified_by md then (p\<lparr>vac_dirty := setDirty (vac_dirty p) sid False\<rparr>, None)
              else (p, None)))"

definition vac_BeforeFinal ::
  "err option \<Rightarrow> verify_commands_policy \<Rightarrow> before_final_input \<Rightarrow> verify_commands_policy \<times> (err + string)" where
  "vac_BeforeFinal ctxerr p i =
     (p, case ctxerr of
           Some e \<Rightarrow> Inl e
         | None \<Rightarrow> Inr (if isDirty (vac_dirty p) (fi_session i) then verifyBeforeFinalAfterCommandReason else []))"

definition vac_Reset :: "verify_commands_policy \<Rightarrow> string \<Rightarrow> verify_commands_policy" where
  "vac_Reset p sid = p\<lparr>vac_dirty := resetDirty (vac_dirty p) sid\<rparr>"

definition vac_SessionEnded ::
  "verify_commands_policy \<Rightarrow> session_ended_input \<Rightarrow> verify_commands_policy \<times> err option" where
  "vac_SessionEnded p i = (vac_Reset p (ei_session i), None)"

section \<open>Rollback on failed verification\<close>

record diagnostic =
  vd_path :: string
  vd_line :: int
  vd_column :: int
  vd_severity :: string
  vd_message :: string

record verify_request =
  vq_session :: string
  vq_name :: string
  vq_target :: string
  vq_metadata :: metadata

record verify_result =
  vr_name :: string
  vr_passed :: bool
  vr_output :: string
  vr_diagnostics :: "diagnostic list"
  vr_metadata :: metadata

record rollback_policy =
  rfv_checkpoints :: "(string, string) gomap"

definition RecommendRollbackOnFailedVerification :: rollback_policy where
  "RecommendRollbackOnFailedVerification = \<lparr>rfv_checkpoints = []\<rparr>"

definition latestCheckpoint :: "rollback_policy \<Rightarrow> string \<Rightarrow> string" where
  "latestCheckpoint p sid =
     (if sid = [] then [] else case map_of (rfv_checkpoints p) sid of None \<Rightarrow> [] | Some c \<Rightarrow> c)"

definition rollback_instruction :: "string \<Rightarrow> string" where
  "rollback_instruction checkpoint =
     ''Rollback policy: restore workspace checkpoint '' @ checkpoint @ '' before continuing, then repair and verify again.''"

definition with_rollback :: "string \<Rightarrow> verify_result \<Rightarrow> verify_result" where
  "with_rollback checkpoint r =
     r\<lparr>vr_metadata := AList.update ''rollback_checkpoint_id'' (VString checkpoint)
                        (AList.update ''rollback_recommended'' (VBool True) (vr_metadata r)),
       vr_output := (if vr_output r = [] then rollback_instruction checkpoint
                     else vr_output r @ [CHR 10] @ rollback_instruction checkpoint)\<rparr>"

text \<open>The wrapped verifier is host code on the world; its result comes with an error or none. The policy is read
  after the verifier returns, hence as a function of the world it leaves.\<close>

definition WrapVerifier ::
  "('w \<Rightarrow> rollback_policy) \<Rightarrow> ('w \<Rightarrow> verify_request \<Rightarrow> 'w \<times> verify_result \<times> err option) option
   \<Rightarrow> 'w \<Rightarrow> verify_request \<Rightarrow> 'w \<times> verify_result \<times> err option" where
  "WrapVerifier policy verifier w req =
     (case verifier of
        None \<Rightarrow> (w, \<lparr>vr_name = [], vr_passed = False, vr_output = [], vr_diagnostics = [], vr_metadata = []\<rparr>,
                 Some (EText ''agentpolicy: verifier is required''))
      | Some verify \<Rightarrow>
          (case verify w req of
             (w', r, e) \<Rightarrow>
               (let c = latestCheckpoint (policy w') (vq_session req)
                in if e \<noteq> None \<or> vr_passed r \<or> c = [] then (w', r, e) else (w', with_rollback c r, None))))"

definition rfv_AfterToolUse :: "err option \<Rightarrow> rollback_policy \<Rightarrow> after_tool_input \<Rightarrow> rollback_policy \<times> err option" where
  "rfv_AfterToolUse ctxerr p i =
     (let md = tr_metadata (ai_result i); c = metadata_string md ''workspace_checkpoint_id'';
          operation = metadata_string md ''workspace_operation''
      in case ctxerr of
           Some e \<Rightarrow> (p, Some e)
         | None \<Rightarrow>
             (if tr_is_error (ai_result i) \<or> ai_session i = [] \<or> c = [] then (p, None)
              else if (use_name (ai_use i) = CheckpointToolName \<and> operation = ''checkpoint'')
                      \<or> (use_name (ai_use i) = ApplyPatchToolName \<and> operation = ''patch'' \<and> metadata_bool md ''auto_checkpoint'')
              then (p\<lparr>rfv_checkpoints := AList.update (ai_session i) c (rfv_checkpoints p)\<rparr>, None)
              else (p, None)))"

definition rfv_Reset :: "rollback_policy \<Rightarrow> string \<Rightarrow> rollback_policy" where
  "rfv_Reset p sid = (if sid = [] then p else p\<lparr>rfv_checkpoints := AList.delete sid (rfv_checkpoints p)\<rparr>)"

definition rfv_SessionEnded :: "rollback_policy \<Rightarrow> session_ended_input \<Rightarrow> rollback_policy \<times> err option" where
  "rfv_SessionEnded p i = (rfv_Reset p (ei_session i), None)"

end
