(* ===== verification/Policy_Contract.thy ===== *)
theory Policy_Contract
  imports Agent_Policy
begin

text \<open>
  What the policies of \<open>Agent_Policy\<close> promise over a run: a history is any sequence of hook events, of any
  sessions, in the order the hooks see them. Two interfaces carry the proofs. \<open>session_cell\<close> is a policy
  that remembers the latest value an event gave a session; \<open>approval_gate\<close> is a policy whose verdicts are
  those of a ledger of grants. Each is interpreted on every policy of its kind.
\<close>

section \<open>Histories\<close>

datatype hook_event =
    Use "err option" before_tool_input
  | Used "err option" after_tool_input
  | Final "err option" before_final_input
  | Ended session_ended_input

text \<open>A policy moves by the hook it registered for the event; an event it has no hook for leaves it alone.\<close>

fun cbp_move :: "policy_json \<Rightarrow> checkpoint_policy \<Rightarrow> hook_event \<Rightarrow> checkpoint_policy" where
  "cbp_move js p (Use c i) = fst (cbp_BeforeToolUse js c p i)"
| "cbp_move js p (Used c i) = fst (cbp_AfterToolUse c p i)"
| "cbp_move js p (Final c i) = p"
| "cbp_move js p (Ended i) = fst (cbp_SessionEnded p i)"

fun vbf_move :: "verify_policy \<Rightarrow> hook_event \<Rightarrow> verify_policy" where
  "vbf_move p (Use c i) = p"
| "vbf_move p (Used c i) = fst (vbf_AfterToolUse c p i)"
| "vbf_move p (Final c i) = fst (vbf_BeforeFinal c p i)"
| "vbf_move p (Ended i) = fst (vbf_SessionEnded p i)"

fun vac_move :: "verify_commands_policy \<Rightarrow> hook_event \<Rightarrow> verify_commands_policy" where
  "vac_move p (Use c i) = p"
| "vac_move p (Used c i) = fst (vac_AfterToolUse c p i)"
| "vac_move p (Final c i) = fst (vac_BeforeFinal c p i)"
| "vac_move p (Ended i) = fst (vac_SessionEnded p i)"

fun rfv_move :: "rollback_policy \<Rightarrow> hook_event \<Rightarrow> rollback_policy" where
  "rfv_move p (Use c i) = p"
| "rfv_move p (Used c i) = fst (rfv_AfterToolUse c p i)"
| "rfv_move p (Final c i) = p"
| "rfv_move p (Ended i) = fst (rfv_SessionEnded p i)"

fun abt_move :: "policy_json \<Rightarrow> approval_policy \<Rightarrow> hook_event \<Rightarrow> approval_policy" where
  "abt_move js p (Use c i) = fst (abt_BeforeToolUse js c p i)"
| "abt_move js p (Used c i) = fst (abt_AfterToolUse c p i)"
| "abt_move js p (Final c i) = p"
| "abt_move js p (Ended i) = fst (abt_SessionEnded p i)"

fun cap_move :: "policy_json \<Rightarrow> command_approval_policy \<Rightarrow> hook_event \<Rightarrow> command_approval_policy" where
  "cap_move js p (Use c i) = fst (cap_BeforeToolUse js c p i)"
| "cap_move js p (Used c i) = fst (cap_AfterToolUse c p i)"
| "cap_move js p (Final c i) = p"
| "cap_move js p (Ended i) = fst (cap_SessionEnded p i)"

text \<open>A use goes ahead when the hook returns neither an error nor a denial.\<close>

definition lets_through :: "err + before_tool_result \<Rightarrow> bool" where
  "lets_through r = (case r of Inl e \<Rightarrow> False | Inr b \<Rightarrow> br_deny b = [])"

fun abt_lets :: "policy_json \<Rightarrow> approval_policy \<Rightarrow> hook_event \<Rightarrow> bool" where
  "abt_lets js p (Use c i) = lets_through (snd (abt_BeforeToolUse js c p i))"
| "abt_lets js p (Used c i) = True"
| "abt_lets js p (Final c i) = True"
| "abt_lets js p (Ended i) = True"

fun cap_lets :: "policy_json \<Rightarrow> command_approval_policy \<Rightarrow> hook_event \<Rightarrow> bool" where
  "cap_lets js p (Use c i) = lets_through (snd (cap_BeforeToolUse js c p i))"
| "cap_lets js p (Used c i) = True"
| "cap_lets js p (Final c i) = True"
| "cap_lets js p (Ended i) = True"

section \<open>A value per session\<close>

definition touches :: "string \<Rightarrow> (string \<times> 'v) option \<Rightarrow> bool" where
  "touches s eff = (case eff of Some (t, v) \<Rightarrow> s = t | None \<Rightarrow> False)"

lemma last_writer_snoc:
  "(\<exists>pre x post. es @ [e] = pre @ x # post \<and> Q x \<and> \<not> list_ex W post) \<longleftrightarrow>
   Q e \<or> (\<not> W e \<and> (\<exists>pre x post. es = pre @ x # post \<and> Q x \<and> \<not> list_ex W post))" (is "?L \<longleftrightarrow> ?R")
proof
  assume ?L
  then obtain pre x post where h: "es @ [e] = pre @ x # post" "Q x" "\<not> list_ex W post" by (elim exE conjE)
  show ?R
  proof (cases post rule: rev_cases)
    case Nil
    with h show ?thesis by simp
  next
    case (snoc post' y)
    with h have "es = pre @ x # post'" "y = e" "\<not> W e" "\<not> list_ex W post'" by auto
    with h(2) show ?thesis by auto
  qed
next
  assume ?R
  then show ?L
  proof
    assume "Q e"
    then have "es @ [e] = es @ e # [] \<and> Q e \<and> \<not> list_ex W []" by simp
    then show ?L by (intro exI)
  next
    assume "\<not> W e \<and> (\<exists>pre x post. es = pre @ x # post \<and> Q x \<and> \<not> list_ex W post)"
    then obtain pre x post where "es = pre @ x # post" "Q x" "\<not> list_ex W post" "\<not> W e" by (elim exE conjE)
    then have "es @ [e] = pre @ x # (post @ [e]) \<and> Q x \<and> \<not> list_ex W (post @ [e])" by simp
    then show ?L by (intro exI)
  qed
qed

text \<open>The last event of a history that touches the session gives it the value.\<close>

definition latest :: "(hook_event \<Rightarrow> (string \<times> 'v) option) \<Rightarrow> hook_event list \<Rightarrow> string \<Rightarrow> 'v \<Rightarrow> bool" where
  "latest eff es s v \<longleftrightarrow>
     (\<exists>pre e post. es = pre @ e # post \<and> eff e = Some (s, v) \<and> \<not> list_ex (\<lambda>x. touches s (eff x)) post)"

lemma latest_Nil [simp]: "\<not> latest eff [] s v"
  by (simp add: latest_def)

lemma latest_snoc: "latest eff (es @ [e]) s v \<longleftrightarrow> eff e = Some (s, v) \<or> (\<not> touches s (eff e) \<and> latest eff es s v)"
  unfolding latest_def by (rule last_writer_snoc)

text \<open>\<open>effect p e\<close> is the session an event writes and the value it gives it. A policy's configuration never
  changes, so its effects do not either.\<close>

locale session_cell =
  fixes cell :: "'p \<Rightarrow> string \<Rightarrow> 'v"
    and rest :: 'v
    and effect :: "'p \<Rightarrow> hook_event \<Rightarrow> (string \<times> 'v) option"
    and move :: "'p \<Rightarrow> hook_event \<Rightarrow> 'p"
  assumes cell_move: "cell (move p e) s = (case effect p e of Some (t, v) \<Rightarrow> if s = t then v else cell p s | None \<Rightarrow> cell p s)"
    and effect_move: "effect (move p e) = effect p"
begin

lemma effect_run: "effect (foldl move p es) = effect p"
  by (induction es arbitrary: p) (simp_all add: effect_move)

lemma cell_run_snoc:
  "cell (foldl move p (es @ [e])) s = (case effect p e of Some (t, v) \<Rightarrow> if s = t then v else cell (foldl move p es) s | None \<Rightarrow> cell (foldl move p es) s)"
  by (simp add: cell_move effect_run)

lemma cell_untouched: "\<not> list_ex (\<lambda>x. touches s (effect p x)) es \<Longrightarrow> cell (foldl move p es) s = cell p s"
proof (induction es rule: rev_induct)
  case (snoc e es)
  then show ?case
    by (auto simp: cell_move effect_run touches_def split: option.splits)
qed simp

text \<open>The value after a history is the one the last event that wrote the session gave it.\<close>

theorem cell_run:
  assumes "cell p s = rest" and "v \<noteq> rest"
  shows "cell (foldl move p es) s = v \<longleftrightarrow> latest (effect p) es s v"
  using assms
  by (induction es rule: rev_induct)
    (auto simp: latest_snoc cell_run_snoc touches_def simp del: foldl_append split: option.splits)

end

section \<open>What the events mean to each policy\<close>

fun ended_session :: "hook_event \<Rightarrow> string option" where
  "ended_session (Ended i) = (if ei_session i = [] then None else Some (ei_session i))"
| "ended_session e = None"

fun checkpoint_effect :: "hook_event \<Rightarrow> (string \<times> bool) option" where
  "checkpoint_effect (Used None i) =
     (if \<not> tr_is_error (ai_result i) \<and> use_name (ai_use i) = CheckpointToolName
         \<and> metadata_string (tr_metadata (ai_result i)) ''workspace_operation'' = ''checkpoint'' \<and> ai_session i \<noteq> []
      then Some (ai_session i, True) else None)"
| "checkpoint_effect e = map_option (\<lambda>s. (s, False)) (ended_session e)"

text \<open>A result that changed the workspace, and a verification that passed.\<close>

fun workspace_effect :: "hook_event \<Rightarrow> (string \<times> bool) option" where
  "workspace_effect (Used None i) =
     (let md = tr_metadata (ai_result i)
      in if ai_session i = [] \<or> tr_is_error (ai_result i) then None
         else if isVerificationRequiredWorkspaceOperation (metadata_string md ''workspace_operation'') md then Some (ai_session i, True)
         else if verified_by md then Some (ai_session i, False) else None)"
| "workspace_effect e = map_option (\<lambda>s. (s, False)) (ended_session e)"

fun command_effect :: "verify_commands_policy \<Rightarrow> hook_event \<Rightarrow> (string \<times> bool) option" where
  "command_effect p (Used None i) =
     (let md = tr_metadata (ai_result i)
      in if ai_session i = [] then None
         else if use_name (ai_use i) = vac_commandName p \<and> \<not> tr_is_error (ai_result i)
         then (if vac_marks p md then Some (ai_session i, True) else None)
         else if verified_by md then Some (ai_session i, False) else None)"
| "command_effect p e = map_option (\<lambda>s. (s, False)) (ended_session e)"

fun rollback_effect :: "hook_event \<Rightarrow> (string \<times> string) option" where
  "rollback_effect (Used None i) =
     (let md = tr_metadata (ai_result i); c = metadata_string md ''workspace_checkpoint_id'';
          operation = metadata_string md ''workspace_operation''
      in if \<not> tr_is_error (ai_result i) \<and> ai_session i \<noteq> [] \<and> c \<noteq> []
            \<and> ((use_name (ai_use i) = CheckpointToolName \<and> operation = ''checkpoint'')
               \<or> (use_name (ai_use i) = ApplyPatchToolName \<and> operation = ''patch'' \<and> metadata_bool md ''auto_checkpoint''))
         then Some (ai_session i, c) else None)"
| "rollback_effect e = map_option (\<lambda>s. (s, [])) (ended_session e)"

lemma isDirty_set: "isDirty (setDirty m t b) s = (if s = t \<and> t \<noteq> [] then b else isDirty m s)"
  by (auto simp: isDirty_def setDirty_def delete_conv')

lemma isDirty_reset: "isDirty (resetDirty m t) s = (if s = t \<and> t \<noteq> [] then False else isDirty m s)"
  by (auto simp: isDirty_def resetDirty_def delete_conv')

interpretation cbp: session_cell hasCheckpoint False "\<lambda>p. checkpoint_effect" "cbp_move js" for js
proof
  fix p e s
  show "hasCheckpoint (cbp_move js p e) s =
      (case checkpoint_effect e of Some (t, v) \<Rightarrow> if s = t then v else hasCheckpoint p s | None \<Rightarrow> hasCheckpoint p s)"
    by (cases "(js, p, e)" rule: cbp_move.cases; cases e rule: checkpoint_effect.cases)
      (auto simp: cbp_BeforeToolUse_def cbp_AfterToolUse_def cbp_SessionEnded_def cbp_Reset_def hasCheckpoint_def delete_conv')
qed simp

interpretation vbf: session_cell "\<lambda>p. isDirty (vbf_dirty p)" False "\<lambda>p. workspace_effect" vbf_move
proof
  fix p e s
  show "isDirty (vbf_dirty (vbf_move p e)) s =
      (case workspace_effect e of Some (t, v) \<Rightarrow> if s = t then v else isDirty (vbf_dirty p) s | None \<Rightarrow> isDirty (vbf_dirty p) s)"
    by (cases e rule: workspace_effect.cases)
      (auto simp: vbf_AfterToolUse_def vbf_BeforeFinal_def vbf_SessionEnded_def vbf_Reset_def isDirty_set isDirty_reset Let_def)
qed simp

interpretation vac: session_cell "\<lambda>p. isDirty (vac_dirty p)" False command_effect vac_move
proof
  fix p e s
  show "isDirty (vac_dirty (vac_move p e)) s =
      (case command_effect p e of Some (t, v) \<Rightarrow> if s = t then v else isDirty (vac_dirty p) s | None \<Rightarrow> isDirty (vac_dirty p) s)"
    by (cases "(p, e)" rule: command_effect.cases)
      (auto simp: vac_AfterToolUse_def vac_BeforeFinal_def vac_SessionEnded_def vac_Reset_def isDirty_set isDirty_reset Let_def)
  have "vac_matchers (vac_move p e) = vac_matchers p \<and> vac_tool (vac_move p e) = vac_tool p"
    by (cases "(p, e)" rule: vac_move.cases)
      (auto simp: vac_AfterToolUse_def vac_BeforeFinal_def vac_SessionEnded_def vac_Reset_def Let_def split: option.splits)
  then show "command_effect (vac_move p e) = command_effect p"
    by (intro ext, rename_tac x, case_tac "(p, x)" rule: command_effect.cases)
      (simp_all add: vac_commandName_def vac_marks_def Let_def)
qed

interpretation rfv: session_cell latestCheckpoint "[]" "\<lambda>p. rollback_effect" rfv_move
proof
  fix p e s
  show "latestCheckpoint (rfv_move p e) s =
      (case rollback_effect e of Some (t, v) \<Rightarrow> if s = t then v else latestCheckpoint p s | None \<Rightarrow> latestCheckpoint p s)"
    by (cases e rule: rollback_effect.cases)
      (auto simp: rfv_AfterToolUse_def rfv_SessionEnded_def rfv_Reset_def latestCheckpoint_def delete_conv' Let_def)
qed simp

section \<open>The ledger of grants\<close>

text \<open>A grant is for a session, an action and an input hash (empty when grants are not bound to inputs). The
  ledger counts the grants that are open; a use needs none, needs one, or can never go ahead.\<close>

type_synonym grant_key = "string \<times> string \<times> string"
type_synonym ledger = "grant_key \<Rightarrow> nat"

datatype demand = Free | Never | Needs grant_key

fun permits :: "ledger \<Rightarrow> demand \<Rightarrow> bool" where
  "permits l Free = True"
| "permits l Never = False"
| "permits l (Needs k) = (0 < l k)"

definition ledger_next :: "bool \<Rightarrow> demand \<Rightarrow> grant_key option \<Rightarrow> string option \<Rightarrow> ledger \<Rightarrow> ledger" where
  "ledger_next single d g over l =
     (\<lambda>k. if over = Some (fst k) then 0
          else l k + (if g = Some k then 1 else 0) - (if single \<and> d = Needs k then 1 else 0))"

fun ledger_verdicts ::
  "bool \<Rightarrow> (hook_event \<Rightarrow> demand) \<Rightarrow> (hook_event \<Rightarrow> grant_key option) \<Rightarrow> ledger \<Rightarrow> hook_event list \<Rightarrow> bool list" where
  "ledger_verdicts single dem grants l [] = []"
| "ledger_verdicts single dem grants l (e # es) =
     permits l (dem e) # ledger_verdicts single dem grants (ledger_next single (dem e) (grants e) (ended_session e) l) es"

fun verdicts :: "('p \<Rightarrow> hook_event \<Rightarrow> bool) \<Rightarrow> ('p \<Rightarrow> hook_event \<Rightarrow> 'p) \<Rightarrow> 'p \<Rightarrow> hook_event list \<Rightarrow> bool list" where
  "verdicts lets move p [] = []"
| "verdicts lets move p (e # es) = lets p e # verdicts lets move (move p e) es"

text \<open>The attempts for a key that went ahead, and the grants of it.\<close>

definition uses_of :: "(hook_event \<Rightarrow> demand) \<Rightarrow> grant_key \<Rightarrow> hook_event list \<Rightarrow> bool list \<Rightarrow> nat" where
  "uses_of dem k es vs = length (filter (\<lambda>(e, v). v \<and> dem e = Needs k) (zip es vs))"

definition grants_of :: "(hook_event \<Rightarrow> grant_key option) \<Rightarrow> grant_key \<Rightarrow> hook_event list \<Rightarrow> nat" where
  "grants_of grants k es = length (filter (\<lambda>e. grants e = Some k) es)"

text \<open>The key was granted in the history and its session has not ended since.\<close>

definition granted_before :: "(hook_event \<Rightarrow> grant_key option) \<Rightarrow> grant_key \<Rightarrow> hook_event list \<Rightarrow> bool" where
  "granted_before grants k es \<longleftrightarrow>
     (\<exists>pre e post. es = pre @ e # post \<and> grants e = Some k \<and> \<not> list_ex (\<lambda>x. ended_session x = Some (fst k)) post)"

lemma granted_before_snoc:
  "granted_before grants k (es @ [e]) \<longleftrightarrow>
     grants e = Some k \<or> (ended_session e \<noteq> Some (fst k) \<and> granted_before grants k es)"
  unfolding granted_before_def by (rule last_writer_snoc)

lemma ledger_next_Free: "ledger_next single Free None None l = l"
  by (simp add: ledger_next_def)

lemma ledger_next_denied: "\<not> permits l d \<Longrightarrow> ledger_next single d None None l = l"
  by (cases d) (auto simp: ledger_next_def fun_eq_iff)

lemma uses_of_Cons: "uses_of dem k (e # es) (v # vs) = (if v \<and> dem e = Needs k then 1 else 0) + uses_of dem k es vs"
  by (simp add: uses_of_def)

lemma grants_of_Cons: "grants_of grants k (e # es) = (if grants e = Some k then 1 else 0) + grants_of grants k es"
  by (simp add: grants_of_def)

locale approval_gate =
  fixes single :: "'p \<Rightarrow> bool"
    and stock :: "'p \<Rightarrow> ledger"
    and dem :: "'p \<Rightarrow> hook_event \<Rightarrow> demand"
    and grants :: "'p \<Rightarrow> hook_event \<Rightarrow> grant_key option"
    and move :: "'p \<Rightarrow> hook_event \<Rightarrow> 'p"
    and lets :: "'p \<Rightarrow> hook_event \<Rightarrow> bool"
  assumes config: "single (move p e) = single p" "dem (move p e) = dem p" "grants (move p e) = grants p"
    and stock_move: "stock (move p e) = ledger_next (single p) (dem p e) (grants p e) (ended_session e) (stock p)"
    and lets_permits: "lets p e = permits (stock p) (dem p e)"
    and grant_no_use: "grants p e \<noteq> None \<Longrightarrow> dem p e = Free"
begin

theorem refines_ledger: "verdicts lets move p es = ledger_verdicts (single p) (dem p) (grants p) (stock p) es"
  by (induction es arbitrary: p) (simp_all add: config stock_move lets_permits)

theorem uses_covered:
  assumes "single p"
  shows "uses_of (dem p) k es (verdicts lets move p es) \<le> stock p k + grants_of (grants p) k es"
  using assms
proof (induction es arbitrary: p)
  case (Cons e es)
  have "uses_of (dem p) k es (verdicts lets move (move p e) es) \<le> stock (move p e) k + grants_of (grants p) k es"
    using Cons.IH [of "move p e"] Cons.prems by (simp add: config)
  moreover have "(if lets p e \<and> dem p e = Needs k then 1 else 0) + stock (move p e) k \<le> stock p k + (if grants p e = Some k then 1 else 0)"
    using Cons.prems grant_no_use [of p e] by (auto simp: stock_move ledger_next_def lets_permits)
  ultimately show ?case by (simp add: uses_of_Cons grants_of_Cons)
qed (simp add: uses_of_def)

lemma config_run: "single (foldl move p es) = single p" "dem (foldl move p es) = dem p" "grants (foldl move p es) = grants p"
  by (induction es arbitrary: p) (simp_all add: config)

lemma stock_source:
  assumes "stock p k = 0" and "0 < stock (foldl move p es) k"
  shows "granted_before (grants p) k es"
  using assms(2)
proof (induction es rule: rev_induct)
  case Nil
  with assms show ?case by simp
next
  case (snoc e es)
  have l: "0 < ledger_next (single p) (dem p e) (grants p e) (ended_session e) (stock (foldl move p es)) k"
    using snoc.prems by (simp add: stock_move config_run)
  then have "grants p e = Some k \<or> (ended_session e \<noteq> Some (fst k) \<and> 0 < stock (foldl move p es) k)"
    by (auto simp: ledger_next_def split: if_splits)
  with snoc.IH show ?case by (auto simp: granted_before_snoc)
qed

theorem use_was_granted:
  assumes "stock p k = 0" and "dem p e = Needs k" and "lets (foldl move p es) e"
  shows "granted_before (grants p) k es"
  using assms stock_source [of p k es] by (simp add: lets_permits config_run)

end

section \<open>The approval policies as ledgers\<close>

definition bound_hash :: "bool \<Rightarrow> string \<Rightarrow> string" where
  "bound_hash bind h = (if bind then h else [])"

definition key_demand :: "bool \<Rightarrow> string \<Rightarrow> string \<Rightarrow> string option \<Rightarrow> demand" where
  "key_demand bind sid action h =
     (if sid = [] then Never
      else if bind then (case h of None \<Rightarrow> Never | Some x \<Rightarrow> Needs (sid, action, x))
      else Needs (sid, action, []))"

fun abt_stock :: "approval_policy \<Rightarrow> ledger" where
  "abt_stock p (s, a, h) = length (filter (\<lambda>g. bound_hash (abt_bind_input p) g = h) (abt_grants p s a))"

fun abt_demand :: "policy_json \<Rightarrow> approval_policy \<Rightarrow> hook_event \<Rightarrow> demand" where
  "abt_demand js p (Use c i) =
     (if c \<noteq> None then Never
      else if \<not> abt_requires p (use_name (bi_use i)) then Free
      else key_demand (abt_bind_input p) (bi_session i) (use_name (bi_use i)) (pj_hash js (use_input (bi_use i))))"
| "abt_demand js p e = Free"

fun abt_granted :: "approval_policy \<Rightarrow> hook_event \<Rightarrow> grant_key option" where
  "abt_granted p (Used None i) =
     map_option (\<lambda>(a, h). (ai_session i, a, bound_hash (abt_bind_input p) h)) (abt_grant_of p i)"
| "abt_granted p e = None"

fun cap_stock :: "command_approval_policy \<Rightarrow> ledger" where
  "cap_stock p (s, a, h) =
     (if a = cap_commandName p then length (filter (\<lambda>g. bound_hash (cap_bind_input p) g = h) (cap_grants p s)) else 0)"

fun cap_demand :: "policy_json \<Rightarrow> command_approval_policy \<Rightarrow> hook_event \<Rightarrow> demand" where
  "cap_demand js p (Use c i) =
     (if c \<noteq> None then Never
      else if \<not> cap_gates js p (bi_use i) then Free
      else key_demand (cap_bind_input p) (bi_session i) (cap_commandName p) (pj_hash js (use_input (bi_use i))))"
| "cap_demand js p e = Free"

fun cap_granted :: "command_approval_policy \<Rightarrow> hook_event \<Rightarrow> grant_key option" where
  "cap_granted p (Used None i) =
     map_option (\<lambda>h. (ai_session i, cap_commandName p, bound_hash (cap_bind_input p) h)) (cap_grant_of p i)"
| "cap_granted p e = None"

lemma take_grant_None: "take_grant fits gs = None \<longleftrightarrow> \<not> list_ex fits gs"
  by (induction gs) auto

lemma take_grant_Some:
  "take_grant fits gs = Some (g, rest) \<Longrightarrow>
     fits g \<and> length (filter q gs) = (if q g then 1 else 0) + length (filter q rest)"
  by (induction gs arbitrary: rest) (auto split: if_splits)

lemma abt_grants_store [simp]:
  "abt_grants (abt_store_grants p sid name gs) s a = (if s = sid \<and> a = name then gs else abt_grants p s a)"
  by (auto simp: abt_grants_def abt_store_grants_def Let_def delete_conv' split: option.splits)

lemma abt_store_config [simp]:
  "abt_single_use (abt_store_grants p sid name gs) = abt_single_use p"
  "abt_bind_input (abt_store_grants p sid name gs) = abt_bind_input p"
  "abt_required (abt_store_grants p sid name gs) = abt_required p"
  "abt_approval_tool (abt_store_grants p sid name gs) = abt_approval_tool p"
  by (simp_all add: abt_store_grants_def Let_def)

lemma fits_bound: "(\<lambda>g. \<not> bind \<or> Some g = (if bind then h else Some [])) = (\<lambda>g. bind \<longrightarrow> Some g = h)"
  by auto

lemma abt_consume:
  fixes js p sid use
  defines "d \<equiv> key_demand (abt_bind_input p) sid (use_name use) (pj_hash js (use_input use))"
  assumes "use_name use \<noteq> []"
  shows "case abt_consumeApproval js p sid use of
           None \<Rightarrow> \<not> permits (abt_stock p) d
         | Some (p', md) \<Rightarrow> permits (abt_stock p) d \<and> abt_stock p' = ledger_next (abt_single_use p) d None None (abt_stock p)
             \<and> abt_single_use p' = abt_single_use p \<and> abt_bind_input p' = abt_bind_input p
             \<and> abt_required p' = abt_required p \<and> abt_approval_tool p' = abt_approval_tool p"
proof (cases "abt_consumeApproval js p sid use")
  case None
  then show ?thesis
    by (auto simp: abt_consumeApproval_def d_def key_demand_def take_grant_None Let_def bound_hash_def list_ex_iff filter_empty_conv
          assms(2) split: if_splits option.splits)
next
  case (Some q)
  then obtain p' md g rest where q: "q = (p', md)" and sid: "sid \<noteq> []"
    and h: "abt_bind_input p \<longrightarrow> pj_hash js (use_input use) \<noteq> None"
    and tg: "take_grant (\<lambda>g. \<not> abt_bind_input p \<or> Some g = (if abt_bind_input p then pj_hash js (use_input use) else Some []))
          (abt_grants p sid (use_name use)) = Some (g, rest)"
    and p': "p' = (if abt_single_use p then abt_store_grants p sid (use_name use) rest else p)"
    by (auto simp: abt_consumeApproval_def Let_def split: if_splits option.splits)
  define x where "x = (if abt_bind_input p then the (pj_hash js (use_input use)) else [])"
  have d: "d = Needs (sid, use_name use, x)" using sid h by (auto simp: d_def key_demand_def x_def)
  have g: "bound_hash (abt_bind_input p) g = x" and c: "length (filter q (abt_grants p sid (use_name use))) = (if q g then 1 else 0) + length (filter q rest)" for q
    using take_grant_Some [OF tg] h by (auto simp: bound_hash_def x_def)
  have "abt_stock p' k = ledger_next (abt_single_use p) d None None (abt_stock p) k" for k
    using c [of "\<lambda>r. bound_hash (abt_bind_input p) r = snd (snd k)"] g
    by (cases k) (auto simp: p' d ledger_next_def)
  moreover have "permits (abt_stock p) d" using c [of "\<lambda>r. bound_hash (abt_bind_input p) r = x"] g by (simp add: d)
  ultimately show ?thesis by (auto simp: Some q p')
qed

lemmas abt_hooks = abt_BeforeToolUse_def abt_AfterToolUse_def abt_SessionEnded_def abt_Reset_def

lemma abt_requires_name: "abt_requires p name \<Longrightarrow> name \<noteq> []"
  by (simp add: abt_requires_def)

lemma abt_move_config:
  "abt_single_use (abt_move js p e) = abt_single_use p \<and> abt_bind_input (abt_move js p e) = abt_bind_input p
   \<and> abt_required (abt_move js p e) = abt_required p \<and> abt_approval_tool (abt_move js p e) = abt_approval_tool p"
proof (cases e)
  case (Use c i)
  then show ?thesis
    using abt_consume [where use = "bi_use i" and js = js and p = p and sid = "bi_session i"] abt_requires_name [of p "use_name (bi_use i)"]
    by (auto simp: abt_hooks split: option.splits)
qed (auto simp: abt_hooks Let_def split: option.splits)

lemma abt_ended_grants:
  "abt_grants (abt_Reset p t) s a = (if s = t \<and> t \<noteq> [] then [] else abt_grants p s a)"
  by (auto simp: abt_Reset_def abt_grants_def delete_conv')

lemma abt_stock_move:
  "abt_stock (abt_move js p e) = ledger_next (abt_single_use p) (abt_demand js p e) (abt_granted p e) (ended_session e) (abt_stock p)"
proof (cases e)
  case (Use c i)
  then show ?thesis
    using abt_consume [where use = "bi_use i" and js = js and p = p and sid = "bi_session i"] abt_requires_name [of p "use_name (bi_use i)"]
    by (auto simp: abt_hooks ledger_next_denied ledger_next_Free split: option.splits)
next
  case (Used c i)
  then show ?thesis
    by (cases c) (auto simp: abt_hooks ledger_next_def fun_eq_iff Let_def abt_grants_def split: option.splits)
next
  case (Final c i)
  then show ?thesis by (simp add: ledger_next_def)
next
  case (Ended i)
  have "abt_bind_input (abt_Reset p (ei_session i)) = abt_bind_input p" by (simp add: abt_Reset_def)
  with Ended show ?thesis by (auto simp: abt_SessionEnded_def abt_ended_grants ledger_next_def fun_eq_iff)
qed

interpretation abt: approval_gate abt_single_use abt_stock "abt_demand js" abt_granted "abt_move js" "abt_lets js" for js
proof
  fix p e
  note conf = abt_move_config [of js p e]
  show "abt_single_use (abt_move js p e) = abt_single_use p" using conf by simp
  have r: "abt_requires (abt_move js p e) = abt_requires p" using conf by (simp add: abt_requires_def fun_eq_iff)
  then show "abt_demand js (abt_move js p e) = abt_demand js p"
    using conf by (intro ext, rename_tac x, case_tac x) simp_all
  show "abt_granted (abt_move js p e) = abt_granted p"
    using conf r by (intro ext, rename_tac x, case_tac "(p, x)" rule: abt_granted.cases) (simp_all add: abt_grant_of_def abt_approvalName_def)
  show "abt_stock (abt_move js p e) = ledger_next (abt_single_use p) (abt_demand js p e) (abt_granted p e) (ended_session e) (abt_stock p)"
    by (rule abt_stock_move)
  show "abt_lets js p e = permits (abt_stock p) (abt_demand js p e)"
  proof (cases e)
    case (Use c i)
    then show ?thesis
      using abt_consume [where use = "bi_use i" and js = js and p = p and sid = "bi_session i"] abt_requires_name [of p "use_name (bi_use i)"]
      by (auto simp: abt_hooks lets_through_def allow_use_def deny_use_def ApprovalBeforeToolReason_def split: option.splits)
  qed simp_all
  show "abt_granted p e \<noteq> None \<Longrightarrow> abt_demand js p e = Free" by (cases e) simp_all
qed

lemma cap_grants_store [simp]:
  "cap_grants (cap_store_grants p sid gs) s = (if s = sid then gs else cap_grants p s)"
  by (auto simp: cap_grants_def cap_store_grants_def delete_conv' split: option.splits)

lemma cap_store_config [simp]:
  "cap_single_use (cap_store_grants p sid gs) = cap_single_use p"
  "cap_bind_input (cap_store_grants p sid gs) = cap_bind_input p"
  "cap_matchers (cap_store_grants p sid gs) = cap_matchers p"
  "cap_command_tool (cap_store_grants p sid gs) = cap_command_tool p"
  "cap_approval_tool (cap_store_grants p sid gs) = cap_approval_tool p"
  "cap_commandName (cap_store_grants p sid gs) = cap_commandName p"
  by (simp_all add: cap_store_grants_def cap_commandName_def)

lemma cap_consume:
  fixes js p sid use
  defines "d \<equiv> key_demand (cap_bind_input p) sid (cap_commandName p) (pj_hash js (use_input use))"
  shows "case cap_consumeApproval js p sid use of
           None \<Rightarrow> \<not> permits (cap_stock p) d
         | Some (p', md) \<Rightarrow> permits (cap_stock p) d \<and> cap_stock p' = ledger_next (cap_single_use p) d None None (cap_stock p)
             \<and> cap_single_use p' = cap_single_use p \<and> cap_bind_input p' = cap_bind_input p \<and> cap_matchers p' = cap_matchers p
             \<and> cap_command_tool p' = cap_command_tool p \<and> cap_approval_tool p' = cap_approval_tool p"
proof (cases "cap_consumeApproval js p sid use")
  case None
  then show ?thesis
    by (auto simp: cap_consumeApproval_def d_def key_demand_def take_grant_None Let_def bound_hash_def list_ex_iff filter_empty_conv
          split: if_splits option.splits)
next
  case (Some q)
  then obtain p' md g rest where q: "q = (p', md)" and sid: "sid \<noteq> []"
    and h: "cap_bind_input p \<longrightarrow> pj_hash js (use_input use) \<noteq> None"
    and tg: "take_grant (\<lambda>g. \<not> cap_bind_input p \<or> Some g = (if cap_bind_input p then pj_hash js (use_input use) else Some []))
          (cap_grants p sid) = Some (g, rest)"
    and p': "p' = (if cap_single_use p then cap_store_grants p sid rest else p)"
    by (auto simp: cap_consumeApproval_def Let_def split: if_splits option.splits)
  define x where "x = (if cap_bind_input p then the (pj_hash js (use_input use)) else [])"
  have d: "d = Needs (sid, cap_commandName p, x)" using sid h by (auto simp: d_def key_demand_def x_def)
  have g: "bound_hash (cap_bind_input p) g = x" and c: "length (filter q (cap_grants p sid)) = (if q g then 1 else 0) + length (filter q rest)" for q
    using take_grant_Some [OF tg] h by (auto simp: bound_hash_def x_def)
  have "cap_stock p' k = ledger_next (cap_single_use p) d None None (cap_stock p) k" for k
    using c [of "\<lambda>r. bound_hash (cap_bind_input p) r = snd (snd k)"] g
    by (cases k; cases "fst (snd k) = cap_commandName p"; cases "fst k = sid"; cases "cap_single_use p")
       (simp_all add: p' d ledger_next_def)
  moreover have "permits (cap_stock p) d" using c [of "\<lambda>r. bound_hash (cap_bind_input p) r = x"] g by (simp add: d)
  ultimately show ?thesis by (auto simp: Some q p')
qed

lemmas cap_hooks = cap_BeforeToolUse_def cap_AfterToolUse_def cap_SessionEnded_def cap_Reset_def

lemma cap_move_config:
  "cap_single_use (cap_move js p e) = cap_single_use p \<and> cap_bind_input (cap_move js p e) = cap_bind_input p
   \<and> cap_matchers (cap_move js p e) = cap_matchers p \<and> cap_command_tool (cap_move js p e) = cap_command_tool p
   \<and> cap_approval_tool (cap_move js p e) = cap_approval_tool p"
proof (cases e)
  case (Use c i)
  then show ?thesis
    using cap_consume [where use = "bi_use i" and js = js and p = p and sid = "bi_session i"] by (auto simp: cap_hooks split: option.splits)
qed (auto simp: cap_hooks Let_def split: option.splits)

lemma cap_ended_grants:
  "cap_grants (cap_Reset p t) s = (if s = t \<and> t \<noteq> [] then [] else cap_grants p s)"
  by (auto simp: cap_Reset_def cap_grants_def delete_conv')

lemma cap_granted_stock:
  "cap_stock (p\<lparr>cap_approved := AList.update s (cap_grants p s @ [h]) (cap_approved p)\<rparr>)
   = ledger_next single Free (Some (s, cap_commandName p, bound_hash (cap_bind_input p) h)) None (cap_stock p)" (is "cap_stock ?q = _")
proof (rule ext)
  fix k
  have "cap_commandName ?q = cap_commandName p" by (simp add: cap_commandName_def)
  then show "cap_stock ?q k = ledger_next single Free (Some (s, cap_commandName p, bound_hash (cap_bind_input p) h)) None (cap_stock p) k"
    by (cases k; cases "fst (snd k) = cap_commandName p") (simp_all add: ledger_next_def cap_grants_def)
qed

lemma cap_stock_move:
  "cap_stock (cap_move js p e) = ledger_next (cap_single_use p) (cap_demand js p e) (cap_granted p e) (ended_session e) (cap_stock p)"
proof (cases e)
  case (Use c i)
  then show ?thesis
    using cap_consume [where use = "bi_use i" and js = js and p = p and sid = "bi_session i"]
    by (auto simp: cap_hooks ledger_next_denied ledger_next_Free split: option.splits)
next
  case (Used c i)
  then show ?thesis
    by (cases c; cases "cap_grant_of p i") (auto simp: cap_hooks cap_granted_stock ledger_next_Free)
next
  case (Final c i)
  then show ?thesis by (simp add: ledger_next_def)
next
  case (Ended i)
  have "cap_bind_input (cap_Reset p (ei_session i)) = cap_bind_input p" "cap_commandName (cap_Reset p (ei_session i)) = cap_commandName p"
    by (simp_all add: cap_Reset_def cap_commandName_def)
  with Ended show ?thesis by (auto simp: cap_SessionEnded_def cap_ended_grants ledger_next_def fun_eq_iff)
qed

interpretation cap: approval_gate cap_single_use cap_stock "cap_demand js" cap_granted "cap_move js" "cap_lets js" for js
proof
  fix p e
  note conf = cap_move_config [of js p e]
  show "cap_single_use (cap_move js p e) = cap_single_use p" using conf by simp
  have n: "cap_commandName (cap_move js p e) = cap_commandName p" using conf by (simp add: cap_commandName_def)
  then show "cap_demand js (cap_move js p e) = cap_demand js p"
    using conf by (intro ext, rename_tac x, case_tac x) (simp_all add: cap_gates_def)
  show "cap_granted (cap_move js p e) = cap_granted p"
    using conf n by (intro ext, rename_tac x, case_tac "(p, x)" rule: cap_granted.cases) (simp_all add: cap_grant_of_def cap_approvalName_def)
  show "cap_stock (cap_move js p e) = ledger_next (cap_single_use p) (cap_demand js p e) (cap_granted p e) (ended_session e) (cap_stock p)"
    by (rule cap_stock_move)
  show "cap_lets js p e = permits (cap_stock p) (cap_demand js p e)"
  proof (cases e)
    case (Use c i)
    then show ?thesis
      using cap_consume [where use = "bi_use i" and js = js and p = p and sid = "bi_session i"]
      by (auto simp: cap_hooks lets_through_def allow_use_def deny_use_def ApprovalBeforeCommandReason_def split: option.splits)
  qed simp_all
  show "cap_granted p e \<noteq> None \<Longrightarrow> cap_demand js p e = Free" by (cases e) simp_all
qed

section \<open>What the policies promise\<close>


lemma fresh_stock: "abt_approved p = [] \<Longrightarrow> abt_stock p k = 0" "cap_approved q = [] \<Longrightarrow> cap_stock q k = 0"
  by (cases k; simp add: abt_grants_def cap_grants_def)+


definition sample_json :: policy_json where
  "sample_json = \<lparr>pj_dry_run = (\<lambda>s. None), pj_command = (\<lambda>s. None), pj_hash = (\<lambda>s. None)\<rparr>"

definition sample_spec :: "string \<Rightarrow> tool_spec" where
  "sample_spec name =
     \<lparr>ts_name = name, ts_description = [], ts_input_schema = [], ts_search_hint = [], ts_read_only = False,
      ts_concurrency_safe = False, ts_destructive = True, ts_always_load = False, ts_should_defer = False,
      ts_max_result_bytes = 0\<rparr>"

definition sample_call :: "string \<Rightarrow> tool_use" where
  "sample_call name = \<lparr>use_id = ''1'', use_name = name, use_input = []\<rparr>"

definition sample_approval :: hook_event where
  "sample_approval = Used None \<lparr>ai_session = ''s'', ai_tenant = zero_scope, ai_use = sample_call ApprovalToolName,
     ai_spec = sample_spec ApprovalToolName,
     ai_result = \<lparr>tr_use_id = ''1'', tr_name = ApprovalToolName, tr_content = [], tr_is_error = False,
       tr_metadata = [(''approval_operation'', VString ''request''), (''approval_approved'', VBool True),
                      (''approval_action'', VString ''deploy'')]\<rparr>\<rparr>"

definition sample_deploy :: before_tool_input where
  "sample_deploy = \<lparr>bi_session = ''s'', bi_tenant = zero_scope, bi_use = sample_call ''deploy'', bi_spec = sample_spec ''deploy''\<rparr>"

definition sample_gate :: approval_policy where
  "sample_gate = RequireApprovalBeforeTools [''deploy''] [Some WithSingleUseApprovals]"

definition gate_with :: "(string, (string, string list) gomap) gomap \<Rightarrow> approval_policy" where
  "gate_with m = \<lparr>abt_required = [''deploy''], abt_approved = m, abt_approval_tool = ApprovalToolName,
     abt_single_use = True, abt_bind_input = False\<rparr>"

definition sample_command_gate :: command_approval_policy where
  "sample_command_gate = RequireApprovalBeforeCommands [] []"

text \<open>One approval, two attempts: the first goes ahead, the second does not.\<close>

lemmas ascii_text = utf8_chunks_ascii byte_def is_space_def trim_space_def trim_left_def trim_right_def

lemma sample_trims:
  "trim_space [] = []" "trim_space ''deploy'' = ''deploy''" "trim_space ''request_approval'' = ''request_approval''"
  by (simp_all add: ascii_text)

lemmas sample_defs = metadata_bool_def metadata_string_def gate_with_def sample_json_def sample_approval_def sample_deploy_def sample_call_def sample_trims

lemma sample_gate_eq: "sample_gate = gate_with []"
  by (simp add: sample_gate_def gate_with_def RequireApprovalBeforeTools_def WithSingleUseApprovals_def sample_trims)

lemma sample_moves:
  "abt_move sample_json (gate_with []) sample_approval = gate_with [(''s'', [(''deploy'', [[]])])]"
  "abt_move sample_json (gate_with [(''s'', [(''deploy'', [[]])])]) (Use None sample_deploy) = gate_with [(''s'', [])]"
  "abt_lets sample_json (gate_with []) sample_approval"
  "abt_lets sample_json (gate_with [(''s'', [(''deploy'', [[]])])]) (Use None sample_deploy)"
  "abt_lets sample_json (gate_with [(''s'', [])]) (Use None sample_deploy) = False"
  by (simp_all add: sample_defs abt_AfterToolUse_def abt_grant_of_def abt_BeforeToolUse_def abt_consumeApproval_def abt_grants_def
      abt_store_grants_def abt_requires_def abt_approvalName_def lets_through_def deny_use_def ApprovalBeforeToolReason_def Let_def)

lemma sample_verdicts:
  "verdicts (abt_lets sample_json) (abt_move sample_json) sample_gate
     [sample_approval, Use None sample_deploy, Use None sample_deploy] = [True, True, False]"
  by (simp only: verdicts.simps sample_gate_eq sample_moves)

lemma sample_facts:
  "abt_approved sample_gate = []" "cap_approved sample_command_gate = []" "abt_single_use sample_gate"
  by (simp_all add: sample_gate_eq gate_with_def sample_command_gate_def RequireApprovalBeforeCommands_def)



text \<open>
  C9. Under \<open>RequireCheckpointBeforePatch\<close> a patch that is not a dry run goes ahead if and only if the session
  created a checkpoint that its end has not discarded since; and a verification that fails under
  \<open>RecommendRollbackOnFailedVerification\<close> names, to the model and in the metadata, the checkpoint the last event that
  recorded one for the session left (explicit, or taken by an auto-checkpointing patch), while a passed verification, an
  error, and a session without a checkpoint come back unchanged.
\<close>

theorem checkpoints_guard_changes:
  assumes "use_name (bi_use i) = ApplyPatchToolName" and "\<not> patchDryRun js (use_input (bi_use i))"
    and "verify w req = (w', r, e)" and "policy w' = foldl rfv_move RecommendRollbackOnFailedVerification es"
  shows "(lets_through (snd (cbp_BeforeToolUse js None (foldl (cbp_move js) RequireCheckpointBeforePatch es) i)) \<longleftrightarrow>
      latest checkpoint_effect es (bi_session i) True)
    \<and> (c \<noteq> [] \<and> latest rollback_effect es (vq_session req) c \<longrightarrow>
        WrapVerifier policy (Some verify) w req = (w', if e = None \<and> \<not> vr_passed r then (with_rollback c r, None) else (r, e)))
    \<and> (\<not> (\<exists>c. c \<noteq> [] \<and> latest rollback_effect es (vq_session req) c) \<longrightarrow>
        WrapVerifier policy (Some verify) w req = (w', r, e))"
proof -
  have "hasCheckpoint RequireCheckpointBeforePatch (bi_session i) = False"
    and l: "latestCheckpoint RecommendRollbackOnFailedVerification (vq_session req) = []"
    by (simp_all add: hasCheckpoint_def latestCheckpoint_def RequireCheckpointBeforePatch_def RecommendRollbackOnFailedVerification_def)
  from cbp.cell_run [OF this(1), of True js es] rfv.cell_run [OF l, of c es] rfv.cell_run [OF l, of "latestCheckpoint (policy w') (vq_session req)" es]
  show ?thesis using assms
    by (auto simp: cbp_BeforeToolUse_def WrapVerifier_def Let_def lets_through_def allow_use_def deny_use_def checkpointBeforePatchReason_def)
qed

definition sample_checkpoint :: hook_event where
  "sample_checkpoint = Used None \<lparr>ai_session = ''s'', ai_tenant = zero_scope, ai_use = sample_call CheckpointToolName,
     ai_spec = sample_spec CheckpointToolName,
     ai_result = \<lparr>tr_use_id = ''1'', tr_name = CheckpointToolName, tr_content = [], tr_is_error = False,
       tr_metadata = [(''workspace_operation'', VString ''checkpoint''), (''workspace_checkpoint_id'', VString ''c1'')]\<rparr>\<rparr>"

definition sample_patch_call :: before_tool_input where
  "sample_patch_call = \<lparr>bi_session = ''s'', bi_tenant = zero_scope, bi_use = sample_call ApplyPatchToolName, bi_spec = sample_spec ApplyPatchToolName\<rparr>"

definition failing_verifier :: "rollback_policy \<Rightarrow> verify_request \<Rightarrow> rollback_policy \<times> verify_result \<times> err option" where
  "failing_verifier w req = (w, \<lparr>vr_name = ''t'', vr_passed = False, vr_output = [], vr_diagnostics = [], vr_metadata = []\<rparr>, None)"

theorem checkpoints_guard_changes_witness:
  "lets_through (snd (cbp_BeforeToolUse sample_json None (foldl (cbp_move sample_json) RequireCheckpointBeforePatch [sample_checkpoint]) sample_patch_call)) \<and>
   vr_output (fst (snd (WrapVerifier id (Some failing_verifier) (foldl rfv_move RecommendRollbackOnFailedVerification [sample_checkpoint])
     \<lparr>vq_session = ''s'', vq_name = [], vq_target = [], vq_metadata = []\<rparr>))) = rollback_instruction ''c1''"
proof -
  have l: "latest checkpoint_effect [sample_checkpoint] ''s'' True" "latest rollback_effect [sample_checkpoint] ''s'' ''c1''"
    unfolding latest_def by (rule exI [of _ "[]"], rule exI [of _ sample_checkpoint], rule exI [of _ "[]"], simp, code_simp)+
  have p: "use_name (bi_use sample_patch_call) = ApplyPatchToolName" "\<not> patchDryRun sample_json (use_input (bi_use sample_patch_call))" "bi_session sample_patch_call = ''s''"
    by code_simp+
  let ?q = "\<lparr>vq_session = ''s'', vq_name = [], vq_target = [], vq_metadata = []\<rparr>"
  let ?p = "foldl rfv_move RecommendRollbackOnFailedVerification [sample_checkpoint]"
  let ?r = "\<lparr>vr_name = ''t'', vr_passed = False, vr_output = [], vr_diagnostics = [], vr_metadata = []\<rparr>"
  have "failing_verifier ?p ?q = (?p, ?r, None)" by (simp add: failing_verifier_def)
  from checkpoints_guard_changes [where c = "''c1''" and policy = id and verify = failing_verifier and es = "[sample_checkpoint]", OF p(1,2) this id_apply]
  show ?thesis using l p(3) by (simp add: with_rollback_def)
qed

section \<open>Command allow and deny lists\<close>

text \<open>What \<open>AllowCommands\<close> lets through: a command tool call whose argument vector starts with one of the configured
  prefixes and whose text has none of the shell markers.\<close>

lemma allow_list_sound:
  assumes "lets_through (cmp_BeforeToolUse js None (AllowCommands ms []) i)" and "use_name (bi_use i) = CommandToolName"
    and "cloneCommandMatchers ms \<noteq> []"
  shows "\<exists>m \<in> set (cloneCommandMatchers ms). commandMatches (pc_argv (commandFromInput js (use_input (bi_use i)))) m"
    and "\<not> pc_unsafe (commandFromInput js (use_input (bi_use i)))"
proof -
  have tool: "cmp_commandToolName (AllowCommands ms []) = CommandToolName"
    by (simp add: cmp_commandToolName_def AllowCommands_def)
  have pol: "cmp_allow (AllowCommands ms []) = cloneCommandMatchers ms" "cmp_deny (AllowCommands ms []) = []"
    by (simp_all add: AllowCommands_def)
  show "\<exists>m \<in> set (cloneCommandMatchers ms). commandMatches (pc_argv (commandFromInput js (use_input (bi_use i)))) m"
    "\<not> pc_unsafe (commandFromInput js (use_input (bi_use i)))"
    using assms
    by (auto simp: cmp_BeforeToolUse_def tool pol Let_def lets_through_def deny_use_def commandMatchesAny_def list_ex_iff
          CommandShellSyntaxReason_def CommandNotAllowedReason_def CommandDeniedReason_def split: if_splits)
qed

text \<open>An allow list whose matchers are all blank fails open: every command goes ahead.\<close>

lemma blank_allow_list_allows_all:
  assumes "cloneCommandMatchers ms = []" and "pc_argv (commandFromInput js (use_input (bi_use i))) \<noteq> []"
  shows "lets_through (cmp_BeforeToolUse js None (AllowCommands ms []) i)"
  using assms
  by (simp add: cmp_BeforeToolUse_def AllowCommands_def Let_def lets_through_def allow_use_def commandMatchesAny_def)

text \<open>An ampersand that is not a word of its own is no shell syntax to the policy, although a shell starts a second
  command there.\<close>

lemma glued_ampersand_is_allowed:
  "commandFromValue (VString ''ls a&rm b'') = \<lparr>pc_argv = [''ls'', ''a&rm'', ''b''], pc_unsafe = False\<rparr>
   \<and> commandMatches [''ls'', ''a&rm'', ''b''] (MatchCommandPrefix [''ls''])"
proof -
  have f: "str_fields ''ls a&rm b'' = [''ls'', ''a&rm'', ''b'']"
    by (simp add: str_fields_def ascii_text)
  have n: "normalizeCommandArgs [''ls'', ''a&rm'', ''b''] = [''ls'', ''a&rm'', ''b'']" "normalizeCommandArgs [''ls''] = [''ls'']"
    by (simp_all add: normalizeCommandArgs_def ascii_text)
  have "\<not> hasShellControlSyntax ''ls a&rm b''"
    by (simp add: hasShellControlSyntax_def f shell_markers_def has_prefix_def)
  then show ?thesis
    by (simp add: commandFromValue_def f n commandMatches_def MatchCommandPrefix_def)
qed

end
