(* ===== verification/Run_Lifecycle.thy ===== *)
theory Run_Lifecycle
  imports Tenant
begin

text \<open>
  What the durable stores of the stacks share: records under keys that reach a settled state and never leave
  it. \<open>settling_store\<close> states this for one step of a store and proves it for whole histories; the managed runs,
  the scheduled runs and the notification outbox interpret it.
\<close>

locale settling_store =
  fixes view :: "'st \<Rightarrow> string \<Rightarrow> 'v option"
    and settled :: "'v \<Rightarrow> bool"
    and step :: "'st \<Rightarrow> 'st \<Rightarrow> bool"
  assumes settled_step: "step s t \<Longrightarrow> view s k = Some v \<Longrightarrow> settled v \<Longrightarrow> view t k = Some v"
begin

theorem settled_forever: "step\<^sup>*\<^sup>* s t \<Longrightarrow> view s k = Some v \<Longrightarrow> settled v \<Longrightarrow> view t k = Some v"
  by (induction rule: rtranclp_induct) (auto dest: settled_step)

end

text \<open>
  The watchers: a check at once, then one per tick until the context ends (\<open>ended\<close> is its error) or a check fails. The
  ticks are the ones the loop takes before it sees the context end.
\<close>

fun watch_ticks :: "('t \<Rightarrow> 'st \<Rightarrow> 'st \<times> 'e option) \<Rightarrow> 'e \<Rightarrow> 't list \<Rightarrow> 'st \<Rightarrow> 'st \<times> 'e" where
  "watch_ticks check ended [] s = (s, ended)"
| "watch_ticks check ended (t # ts) s =
     (case check t s of (s', Some e) \<Rightarrow> (s', e) | (s', None) \<Rightarrow> watch_ticks check ended ts s')"

text \<open>What an executor reads of the events of the query it runs: the session's start with its parent, a result, an
  error, anything else.\<close>

datatype query_event = SessionStarted string string | ResultEvent string | ErrorEvent err | OtherEvent

text \<open>A record written back under its key: the other keys keep theirs.\<close>

lemma map_of_map_values:
  "map_of (map (\<lambda>(k, v). (k, f v)) m) k = map_option f (map_of m k)"
  by (induction m) auto

lemma keys_map_values [simp]: "map fst (map (\<lambda>(k, v). (k, f v)) m) = map fst m"
  by (simp add: comp_def case_prod_beta)

end
