(* ===== verification/Managed_Runs.thy ===== *)
theory Managed_Runs
  imports Run_Lifecycle Tenant
begin

text \<open>
  \<open>stack/cloudmanaged/runs.go\<close>: durable managed runs. The in-memory run store with each of its operations, and
  the workers that execute runs. A store operation holds the store's lock, so it is one step; a worker is a
  machine whose steps are the store calls and reads of its context in \<open>ExecuteRun\<close> and \<open>executeRun\<close>, and any number
  of workers, cancellations, heartbeats and stale-run sweeps interleave between them.
\<close>

section \<open>Records\<close>

type_synonym run_status = string

abbreviation RunStatusQueued :: run_status where "RunStatusQueued \<equiv> ''queued''"
abbreviation RunStatusRunning :: run_status where "RunStatusRunning \<equiv> ''running''"
abbreviation RunStatusSucceeded :: run_status where "RunStatusSucceeded \<equiv> ''succeeded''"
abbreviation RunStatusFailed :: run_status where "RunStatusFailed \<equiv> ''failed''"
abbreviation RunStatusCanceled :: run_status where "RunStatusCanceled \<equiv> ''canceled''"

definition ErrRunStoreRequired :: err where "ErrRunStoreRequired = EText ''cloudmanaged run store is required''"
definition ErrRunNotFound :: err where "ErrRunNotFound = EText ''cloudmanaged run not found''"
definition ErrRunNotActive :: err where "ErrRunNotActive = EText ''cloudmanaged run is not active''"
definition ErrRunNotQueued :: err where "ErrRunNotQueued = EText ''cloudmanaged run is not queued''"
definition ErrRunWorkerMismatch :: err where "ErrRunWorkerMismatch = EText ''cloudmanaged run worker mismatch''"
definition ErrRunQueueEmpty :: err where "ErrRunQueueEmpty = EText ''cloudmanaged run queue is empty''"

record run_record =
  rr_id :: string
  rr_status :: run_status
  rr_prompt :: string
  rr_tenant :: tenant_scope
  rr_session :: string
  rr_parent :: string
  rr_worker :: string
  rr_result :: string
  rr_error :: string
  rr_created :: gotime
  rr_started :: gotime
  rr_heartbeat :: gotime
  rr_completed :: gotime
  rr_updated :: gotime

definition zero_run :: run_record where
  "zero_run = \<lparr>rr_id = [], rr_status = [], rr_prompt = [], rr_tenant = zero_scope, rr_session = [], rr_parent = [],
     rr_worker = [], rr_result = [], rr_error = [], rr_created = 0, rr_started = 0, rr_heartbeat = 0, rr_completed = 0,
     rr_updated = 0\<rparr>"

definition final_status :: "run_status \<Rightarrow> bool" where
  "final_status s \<longleftrightarrow> s \<in> {RunStatusSucceeded, RunStatusFailed, RunStatusCanceled}"

definition run_Terminal :: "run_record \<Rightarrow> bool" where
  "run_Terminal r = final_status (rr_status r)"

record run_update =
  ru_id :: string
  ru_status :: run_status
  ru_session :: string
  ru_parent :: string
  ru_worker :: string
  ru_result :: "string option"
  ru_error :: "string option"
  ru_heartbeat :: "gotime option"
  ru_completed :: "gotime option"

definition cloneRunRecord :: "run_record \<Rightarrow> run_record" where
  "cloneRunRecord r = r\<lparr>rr_tenant := scope_clone (rr_tenant r)\<rparr>"

section \<open>The in-memory store\<close>

record run_store =
  rs_runs :: "(string, run_record) gomap"

definition NewMemoryRunStore :: run_store where
  "NewMemoryRunStore = \<lparr>rs_runs = []\<rparr>"

definition nil_run_store :: err where
  "nil_run_store = EText ''memory run store is nil''"

definition put_run :: "string \<Rightarrow> run_record \<Rightarrow> run_store \<Rightarrow> run_store" where
  "put_run i r s = s\<lparr>rs_runs := AList.update i r (rs_runs s)\<rparr>"

text \<open>\<open>fresh\<close> is what \<open>newRunID\<close> returns: an id from the random source, or its error.\<close>

definition CreateRun ::
  "gotime \<Rightarrow> err + string \<Rightarrow> string \<Rightarrow> tenant_scope \<Rightarrow> run_store option \<Rightarrow> err + run_record \<times> run_store" where
  "CreateRun now fresh prompt scope st =
     (case st of
        None \<Rightarrow> Inl nil_run_store
      | Some s \<Rightarrow>
          (case fresh of
             Inl e \<Rightarrow> Inl e
           | Inr i \<Rightarrow>
               (let r = zero_run\<lparr>rr_id := i, rr_status := RunStatusQueued, rr_prompt := prompt, rr_tenant := scope_clone scope,
                          rr_created := now, rr_updated := now\<rparr>
                in Inr (cloneRunRecord r, put_run i r s))))"

definition apply_run_update :: "gotime \<Rightarrow> run_update \<Rightarrow> run_record \<Rightarrow> run_record" where
  "apply_run_update now u r =
     r\<lparr>rr_status := (if ru_status u \<noteq> [] then ru_status u else rr_status r),
       rr_started := (if ru_status u = RunStatusRunning \<and> time_is_zero (rr_started r) then now else rr_started r),
       rr_session := (if ru_session u \<noteq> [] then ru_session u else rr_session r),
       rr_parent := (if ru_parent u \<noteq> [] then ru_parent u else rr_parent r),
       rr_worker := (if ru_worker u \<noteq> [] then ru_worker u else rr_worker r),
       rr_result := (case ru_result u of Some x \<Rightarrow> x | None \<Rightarrow> rr_result r),
       rr_error := (case ru_error u of Some x \<Rightarrow> x | None \<Rightarrow> rr_error r),
       rr_heartbeat := (case ru_heartbeat u of Some x \<Rightarrow> x | None \<Rightarrow> rr_heartbeat r),
       rr_completed := (case ru_completed u of Some x \<Rightarrow> x | None \<Rightarrow> rr_completed r),
       rr_updated := now\<rparr>"

definition UpdateRun :: "gotime \<Rightarrow> run_update \<Rightarrow> run_store option \<Rightarrow> err + run_record \<times> run_store" where
  "UpdateRun now u st =
     (case st of
        None \<Rightarrow> Inl nil_run_store
      | Some s \<Rightarrow>
          (if ru_id u = [] then Inl (EText ''run id is required'')
           else case map_of (rs_runs s) (ru_id u) of
                  None \<Rightarrow> Inl ErrRunNotFound
                | Some r \<Rightarrow> (let r' = apply_run_update now u r in Inr (cloneRunRecord r', put_run (ru_id u) r' s))))"

definition GetRun :: "string \<Rightarrow> run_store option \<Rightarrow> err + run_record" where
  "GetRun i st =
     (case st of
        None \<Rightarrow> Inl nil_run_store
      | Some s \<Rightarrow> (case map_of (rs_runs s) i of None \<Rightarrow> Inl ErrRunNotFound | Some r \<Rightarrow> Inr (cloneRunRecord r)))"

text \<open>The scan of \<open>NextQueuedRun\<close> over the runs in the order the map yields them.\<close>

definition queued_before :: "run_record \<Rightarrow> run_record \<Rightarrow> bool" where
  "queued_before r s \<longleftrightarrow> rr_created r < rr_created s \<or> (rr_created r = rr_created s \<and> str_less (rr_id r) (rr_id s))"

definition select_queued :: "run_record option \<Rightarrow> run_record \<Rightarrow> run_record option" where
  "select_queued sel r =
     (if rr_status r \<noteq> RunStatusQueued then sel
      else case sel of None \<Rightarrow> Some r | Some s \<Rightarrow> (if queued_before r s then Some r else Some s))"

definition NextQueuedRun :: "run_store option \<Rightarrow> err + run_record" where
  "NextQueuedRun st =
     (case st of
        None \<Rightarrow> Inl nil_run_store
      | Some s \<Rightarrow>
          (case foldl select_queued None (map snd (rs_runs s)) of
             None \<Rightarrow> Inl ErrRunQueueEmpty
           | Some r \<Rightarrow> Inr (cloneRunRecord r)))"

definition ClaimRun :: "gotime \<Rightarrow> string \<Rightarrow> string \<Rightarrow> run_store option \<Rightarrow> err + run_record \<times> run_store" where
  "ClaimRun now i worker st =
     (case st of
        None \<Rightarrow> Inl nil_run_store
      | Some s \<Rightarrow>
          (case map_of (rs_runs s) i of
             None \<Rightarrow> Inl ErrRunNotFound
           | Some r \<Rightarrow>
               (if rr_status r \<noteq> RunStatusQueued then Inl ErrRunNotQueued
                else let r' = r\<lparr>rr_status := RunStatusRunning, rr_worker := worker, rr_started := now,
                                rr_heartbeat := (if worker \<noteq> [] then now else rr_heartbeat r), rr_updated := now\<rparr>
                     in Inr (cloneRunRecord r', put_run i r' s))))"

definition HeartbeatRun :: "gotime \<Rightarrow> string \<Rightarrow> string \<Rightarrow> run_store option \<Rightarrow> err + run_record \<times> run_store" where
  "HeartbeatRun now i worker st =
     (case st of
        None \<Rightarrow> Inl nil_run_store
      | Some s \<Rightarrow>
          (case map_of (rs_runs s) i of
             None \<Rightarrow> Inl ErrRunNotFound
           | Some r \<Rightarrow>
               (if rr_status r \<noteq> RunStatusRunning then Inl ErrRunNotActive
                else if rr_worker r \<noteq> [] \<and> worker \<noteq> [] \<and> rr_worker r \<noteq> worker then Inl ErrRunWorkerMismatch
                else let r' = r\<lparr>rr_worker := worker, rr_heartbeat := now, rr_updated := now\<rparr>
                     in Inr (cloneRunRecord r', put_run i r' s))))"

definition stale_run :: "gotime \<Rightarrow> run_record \<Rightarrow> bool" where
  "stale_run before r \<longleftrightarrow>
     \<not> (rr_status r \<noteq> RunStatusRunning \<or> time_is_zero (rr_heartbeat r) \<or> \<not> rr_heartbeat r < before)"

definition fail_run_record :: "gotime \<Rightarrow> string \<Rightarrow> run_record \<Rightarrow> run_record" where
  "fail_run_record now reason r =
     r\<lparr>rr_status := RunStatusFailed, rr_error := reason, rr_completed := now, rr_updated := now\<rparr>"

text \<open>The failed records come in the order of the map's iteration.\<close>

definition FailStaleRuns ::
  "gotime \<Rightarrow> gotime \<Rightarrow> string \<Rightarrow> run_store option \<Rightarrow> err + run_record list \<times> run_store" where
  "FailStaleRuns now before reason st =
     (case st of
        None \<Rightarrow> Inl nil_run_store
      | Some s \<Rightarrow>
          Inr (map (cloneRunRecord \<circ> fail_run_record now reason) (filter (stale_run before) (map snd (rs_runs s))),
               s\<lparr>rs_runs := map (\<lambda>(i, r). (i, if stale_run before r then fail_run_record now reason r else r)) (rs_runs s)\<rparr>))"

section \<open>Workers\<close>

text \<open>What a worker sees of its context.\<close>

datatype context_state = Live | Canceled | DeadlineExceeded

fun context_err :: "context_state \<Rightarrow> err option" where
  "context_err Live = None"
| "context_err Canceled = Some ECanceled"
| "context_err DeadlineExceeded = Some EDeadlineExceeded"

text \<open>
  Where a worker is: before the check of its context, before the claim, reading the query's events (with the
  record, the last result and the last error seen), before the final \<open>GetRun\<close>, before it chooses the
  final update, before it writes it, and returned.
\<close>

datatype worker_pc =
    AtStart
  | AtClaim
  | AtEvents run_record "query_event list" "string option" "err option"
  | AtCheck run_record "string option" "err option"
  | AtDecide run_record "string option" "err option"
  | AtWrite run_update
  | Returned run_record "err option"

record worker =
  wk_run :: string
  wk_id :: string
  wk_context :: context_state
  wk_events :: "query_event list"
  wk_claimed :: bool
  wk_pc :: worker_pc

text \<open>The switch on a final record at the end of \<open>executeRun\<close>.\<close>

definition run_outcome :: "run_record \<Rightarrow> worker_pc" where
  "run_outcome r = Returned r (if rr_status r = RunStatusFailed then Some (EText (rr_error r)) else None)"

definition no_update :: "string \<Rightarrow> run_update" where
  "no_update i = \<lparr>ru_id = i, ru_status = [], ru_session = [], ru_parent = [], ru_worker = [], ru_result = None,
     ru_error = None, ru_heartbeat = None, ru_completed = None\<rparr>"

definition final_update :: "gotime \<Rightarrow> context_state \<Rightarrow> run_record \<Rightarrow> string option \<Rightarrow> err option \<Rightarrow> run_update" where
  "final_update now c r res e =
     (let u = (no_update (rr_id r))\<lparr>ru_session := rr_session r, ru_parent := rr_parent r, ru_completed := Some now\<rparr>
      in case (res, e) of
           (Some x, None) \<Rightarrow> u\<lparr>ru_status := RunStatusSucceeded, ru_result := Some x\<rparr>
         | _ \<Rightarrow>
             (case context_err c of
                Some ce \<Rightarrow> u\<lparr>ru_status := RunStatusCanceled, ru_error := Some (err_msg ce)\<rparr>
              | None \<Rightarrow>
                  (case e of
                     Some x \<Rightarrow> u\<lparr>ru_status := RunStatusFailed, ru_error := Some (err_msg x)\<rparr>
                   | None \<Rightarrow> u\<lparr>ru_status := RunStatusFailed, ru_error := Some ''managed run ended without terminal result''\<rparr>)))"

definition started_update :: "run_record \<Rightarrow> string \<Rightarrow> string \<Rightarrow> run_update" where
  "started_update r sid parent = (no_update (rr_id r))\<lparr>ru_session := sid, ru_parent := parent\<rparr>"

text \<open>A failed \<open>UpdateRun\<close> leaves the zero record in the worker's variable.\<close>

definition update_or_zero :: "gotime \<Rightarrow> run_update \<Rightarrow> run_store option \<Rightarrow> run_record \<times> run_store option" where
  "update_or_zero now u st = (case UpdateRun now u st of Inl e \<Rightarrow> (zero_run, st) | Inr (r, s') \<Rightarrow> (r, Some s'))"

definition worker_step :: "gotime \<Rightarrow> worker \<Rightarrow> run_store option \<Rightarrow> worker \<times> run_store option" where
  "worker_step now w st =
     (case wk_pc w of
        AtStart \<Rightarrow>
          (case context_err (wk_context w) of
             Some e \<Rightarrow> (w\<lparr>wk_pc := Returned zero_run (Some e)\<rparr>, st)
           | None \<Rightarrow>
               (if st = None then (w\<lparr>wk_pc := Returned zero_run (Some ErrRunStoreRequired)\<rparr>, st) else (w\<lparr>wk_pc := AtClaim\<rparr>, st)))
      | AtClaim \<Rightarrow>
          (case ClaimRun now (wk_run w) (wk_id w) st of
             Inl e \<Rightarrow> (w\<lparr>wk_pc := Returned zero_run (Some (EWrap (''claim managed run '' @ wk_run w @ '': '') e))\<rparr>, st)
           | Inr (r, s') \<Rightarrow> (w\<lparr>wk_pc := AtEvents r (wk_events w) None None, wk_claimed := True\<rparr>, Some s'))
      | AtEvents r evs res e \<Rightarrow>
          (case evs of
             [] \<Rightarrow> (w\<lparr>wk_pc := AtCheck r res e\<rparr>, st)
           | SessionStarted sid parent # rest \<Rightarrow>
               (case update_or_zero now (started_update r sid parent) st of
                  (r', st') \<Rightarrow> (w\<lparr>wk_pc := AtEvents r' rest res e\<rparr>, st'))
           | ResultEvent x # rest \<Rightarrow> (w\<lparr>wk_pc := AtEvents r rest (Some x) e\<rparr>, st)
           | ErrorEvent x # rest \<Rightarrow> (w\<lparr>wk_pc := AtEvents r rest res (Some x)\<rparr>, st)
           | OtherEvent # rest \<Rightarrow> (w\<lparr>wk_pc := AtEvents r rest res e\<rparr>, st))
      | AtCheck r res e \<Rightarrow>
          (case GetRun (rr_id r) st of
             Inr cur \<Rightarrow> (w\<lparr>wk_pc := (if run_Terminal cur then run_outcome cur else AtDecide r res e)\<rparr>, st)
           | Inl _ \<Rightarrow> (w\<lparr>wk_pc := AtDecide r res e\<rparr>, st))
      | AtDecide r res e \<Rightarrow> (w\<lparr>wk_pc := AtWrite (final_update now (wk_context w) r res e)\<rparr>, st)
      | AtWrite u \<Rightarrow> (case update_or_zero now u st of (r, st') \<Rightarrow> (w\<lparr>wk_pc := run_outcome r\<rparr>, st'))
      | Returned r e \<Rightarrow> (w, st))"

section \<open>The stack\<close>

text \<open>\<open>activeRuns\<close> maps a run to the cancel function of the worker started for it, here the worker's number.\<close>

record managed =
  mg_store :: "run_store option"
  mg_active :: "(string, nat) gomap"
  mg_workers :: "worker list"

definition active_set :: "string \<Rightarrow> nat \<Rightarrow> (string, nat) gomap \<Rightarrow> (string, nat) gomap" where
  "active_set i k a = (if i = [] then a else AList.update i k a)"

definition active_delete :: "string \<Rightarrow> (string, nat) gomap \<Rightarrow> (string, nat) gomap" where
  "active_delete i a = (if i = [] then a else AList.delete i a)"

definition new_worker :: "string \<Rightarrow> string \<Rightarrow> query_event list \<Rightarrow> worker" where
  "new_worker i worker evs =
     \<lparr>wk_run = i, wk_id = worker, wk_context = Live, wk_events = evs, wk_claimed = False, wk_pc = AtStart\<rparr>"

definition EnqueueRun ::
  "err option \<Rightarrow> gotime \<Rightarrow> err + string \<Rightarrow> string \<Rightarrow> tenant_scope \<Rightarrow> managed \<Rightarrow> err + run_record \<times> managed" where
  "EnqueueRun ctxerr now fresh prompt scope m =
     (case ctxerr of
        Some e \<Rightarrow> Inl e
      | None \<Rightarrow>
          (if mg_store m = None then Inl ErrRunStoreRequired
           else case CreateRun now fresh prompt scope (mg_store m) of
                  Inl e \<Rightarrow> Inl (EWrap ''create managed run: '' e)
                | Inr (r, s) \<Rightarrow> Inr (r, m\<lparr>mg_store := Some s\<rparr>)))"

text \<open>The end of \<open>StartRun\<close>: its worker is registered for cancellation and started. A host that calls
  \<open>ExecuteRun\<close> itself starts a worker without registering it.\<close>

definition launch :: "bool \<Rightarrow> string \<Rightarrow> string \<Rightarrow> query_event list \<Rightarrow> managed \<Rightarrow> managed" where
  "launch registered i worker evs m =
     m\<lparr>mg_workers := mg_workers m @ [new_worker i worker evs],
       mg_active := (if registered then active_set i (length (mg_workers m)) (mg_active m) else mg_active m)\<rparr>"

definition StartRun ::
  "err option \<Rightarrow> gotime \<Rightarrow> err + string \<Rightarrow> string \<Rightarrow> tenant_scope \<Rightarrow> query_event list \<Rightarrow> managed \<Rightarrow> err + run_record \<times> managed" where
  "StartRun ctxerr now fresh prompt scope evs m =
     (case EnqueueRun ctxerr now fresh prompt scope m of
        Inl e \<Rightarrow> Inl e
      | Inr (r, m') \<Rightarrow> Inr (r, launch True (rr_id r) [] evs m'))"

definition Stack_GetRun :: "string \<Rightarrow> managed \<Rightarrow> err + run_record" where
  "Stack_GetRun i m =
     (if mg_store m = None then Inl ErrRunStoreRequired
      else case GetRun i (mg_store m) of Inl e \<Rightarrow> Inl (EWrap (''get managed run '' @ i @ '': '') e) | Inr r \<Rightarrow> Inr r)"

text \<open>A context that is done keeps its first error.\<close>

definition end_context :: "context_state \<Rightarrow> worker \<Rightarrow> worker" where
  "end_context c w = (if wk_context w = Live then w\<lparr>wk_context := c\<rparr> else w)"

definition CancelRun :: "string \<Rightarrow> managed \<Rightarrow> err + managed" where
  "CancelRun i m =
     (if mg_store m = None then Inl ErrRunStoreRequired
      else if i = [] then Inl ErrRunNotActive
      else case map_of (mg_active m) i of
             None \<Rightarrow> Inl ErrRunNotActive
           | Some k \<Rightarrow> Inr (m\<lparr>mg_workers := (mg_workers m)[k := end_context Canceled (mg_workers m ! k)]\<rparr>))"

definition Stack_FailStaleRuns :: "gotime \<Rightarrow> gotime \<Rightarrow> string \<Rightarrow> managed \<Rightarrow> err + int \<times> managed" where
  "Stack_FailStaleRuns now before reason m =
     (if mg_store m = None then Inl ErrRunStoreRequired
      else case FailStaleRuns now before reason (mg_store m) of
             Inl e \<Rightarrow> Inl (EWrap ''fail stale managed runs: '' e)
           | Inr (failed, s) \<Rightarrow> Inr (int (length failed), m\<lparr>mg_store := Some s\<rparr>))"

definition staleRunFailureReason :: string where
  "staleRunFailureReason = ''worker heartbeat timeout''"

text \<open>Each check reads the clock; \<open>ticks\<close> are the times of the checks after the first.\<close>

definition WatchStaleRuns :: "duration \<Rightarrow> duration \<Rightarrow> err \<Rightarrow> gotime \<Rightarrow> gotime list \<Rightarrow> managed \<Rightarrow> managed \<times> err" where
  "WatchStaleRuns interval threshold ended now ticks m =
     (if interval \<le> 0 then (m, EText ''stale run watch interval must be positive'')
      else if threshold \<le> 0 then (m, EText ''stale run threshold must be positive'')
      else watch_ticks (\<lambda>t m. case Stack_FailStaleRuns t (t - threshold) staleRunFailureReason m of
                                Inl e \<Rightarrow> (m, Some e) | Inr (n, m') \<Rightarrow> (m', None)) ended (now # ticks) m)"

text \<open>One step of worker \<open>k\<close>. When \<open>executeRun\<close> returns, its deferred call forgets the active entry.\<close>

fun returned :: "worker_pc \<Rightarrow> bool" where
  "returned (Returned r e) = True"
| "returned _ = False"

definition run_worker :: "gotime \<Rightarrow> nat \<Rightarrow> managed \<Rightarrow> managed" where
  "run_worker now k m =
     (case worker_step now (mg_workers m ! k) (mg_store m) of
        (w, st) \<Rightarrow>
          m\<lparr>mg_workers := (mg_workers m)[k := w], mg_store := st,
            mg_active := (if wk_claimed w \<and> returned (wk_pc w) then active_delete (wk_run w) (mg_active m) else mg_active m)\<rparr>)"

text \<open>
  The interleavings. A label names the worker that moved, if one did. New run ids are fresh: they are 16
  random bytes. The heartbeat goroutine of a worker ticks while it has claimed its run and has an id.
\<close>

inductive managed_step :: "nat option \<Rightarrow> managed \<Rightarrow> managed \<Rightarrow> bool" where
  enqueue: "EnqueueRun ctxerr now (Inr i) prompt scope m = Inr (r, m') \<Longrightarrow> i \<noteq> [] \<Longrightarrow>
     map_of (rs_runs (the (mg_store m))) i = None \<Longrightarrow> managed_step None m m'"
| start: "managed_step None m (launch registered i worker evs m)"
| work: "k < length (mg_workers m) \<Longrightarrow> \<not> returned (wk_pc (mg_workers m ! k)) \<Longrightarrow> managed_step (Some k) m (run_worker now k m)"
| cancel: "CancelRun i m = Inr m' \<Longrightarrow> managed_step None m m'"
| expire: "k < length (mg_workers m) \<Longrightarrow>
     managed_step None m (m\<lparr>mg_workers := (mg_workers m)[k := end_context c (mg_workers m ! k)]\<rparr>)"
| heartbeat: "w \<in> set (mg_workers m) \<Longrightarrow> wk_claimed w \<Longrightarrow> wk_id w \<noteq> [] \<Longrightarrow>
     HeartbeatRun now (wk_run w) (wk_id w) (mg_store m) = Inr (r, s) \<Longrightarrow> managed_step None m (m\<lparr>mg_store := Some s\<rparr>)"
| sweep: "Stack_FailStaleRuns now before reason m = Inr (n, m') \<Longrightarrow> managed_step None m m'"

inductive managed_path :: "nat option list \<Rightarrow> managed \<Rightarrow> managed \<Rightarrow> bool" where
  stay: "managed_path [] m m"
| move: "managed_path ls m m' \<Longrightarrow> managed_step l m' m'' \<Longrightarrow> managed_path (ls @ [l]) m m''"

definition new_stack :: managed where
  "new_stack = \<lparr>mg_store = Some NewMemoryRunStore, mg_active = [], mg_workers = []\<rparr>"

end
