(* ===== verification/Managed_Contract.thy ===== *)
theory Managed_Contract
  imports Managed_Runs
begin

text \<open>
  What every interleaving of managed runs keeps: a run is claimed by at most one worker, its phase (queued,
  running, ended) never goes back, a worker that claimed a run and returned leaves it ended, and every worker
  returns after a bounded number of its own steps.
\<close>

section \<open>Phases\<close>

definition run_phase :: "run_record \<Rightarrow> nat" where
  "run_phase r = (if rr_status r = RunStatusQueued then 0 else if run_Terminal r then 2 else 1)"

definition phases :: "run_store option \<Rightarrow> string \<Rightarrow> nat option" where
  "phases st i = (case st of None \<Rightarrow> None | Some s \<Rightarrow> map_option run_phase (map_of (rs_runs s) i))"

definition phase_le :: "run_store option \<Rightarrow> run_store option \<Rightarrow> bool" where
  "phase_le st st' \<longleftrightarrow> (\<forall>i p. phases st i = Some p \<longrightarrow> (\<exists>q \<ge> p. phases st' i = Some q))"

lemma phase_le_refl [simp]: "phase_le st st"
  by (auto simp: phase_le_def)

lemma phase_leD: "phase_le st st' \<Longrightarrow> phases st i = Some p \<Longrightarrow> \<exists>q \<ge> p. phases st' i = Some q"
  by (simp add: phase_le_def)

lemma run_phase_le: "run_phase r \<le> 2"
  by (simp add: run_phase_def)

lemma run_phase_simps:
  "rr_status r = RunStatusQueued \<Longrightarrow> run_phase r = 0"
  "rr_status r = RunStatusRunning \<Longrightarrow> run_phase r = 1"
  "final_status (rr_status r) \<Longrightarrow> run_phase r = 2"
  by (auto simp: run_phase_def run_Terminal_def final_status_def)

lemma phases_put: "phases (Some (put_run i r s)) j = (if j = i then Some (run_phase r) else phases (Some s) j)"
  by (simp add: phases_def put_run_def)

lemma phase_le_put:
  "map_of (rs_runs s) i = Some r0 \<Longrightarrow> run_phase r0 \<le> run_phase r \<Longrightarrow> phase_le (Some s) (Some (put_run i r s))"
  "map_of (rs_runs s) i = None \<Longrightarrow> phase_le (Some s) (Some (put_run i r s))"
  by (auto simp: phase_le_def phases_put) (auto simp: phases_def)

lemma run_phase_clone [simp]: "run_phase (cloneRunRecord r) = run_phase r" "rr_id (cloneRunRecord r) = rr_id r"
  by (simp_all add: run_phase_def run_Terminal_def cloneRunRecord_def)

lemma apply_update_phase:
  "ru_status u = [] \<Longrightarrow> run_phase (apply_run_update now u r) = run_phase r"
  "final_status (ru_status u) \<Longrightarrow> run_phase (apply_run_update now u r) = 2"
  by (auto simp: run_phase_def run_Terminal_def final_status_def apply_run_update_def)

section \<open>The operations\<close>

lemma UpdateRun_known:
  assumes "map_of (rs_runs s) (ru_id u) = Some r" and "ru_id u \<noteq> []"
  shows "UpdateRun now u (Some s) = Inr (cloneRunRecord (apply_run_update now u r), put_run (ru_id u) (apply_run_update now u r) s)"
  using assms by (simp add: UpdateRun_def Let_def)

lemma UpdateRun_phase_le:
  assumes "UpdateRun now u st = Inr (r, s')" and "ru_status u = [] \<or> final_status (ru_status u)"
  shows "phase_le st (Some s')"
proof -
  from assms(1) obtain s r0 where s: "st = Some s" "map_of (rs_runs s) (ru_id u) = Some r0"
      "s' = put_run (ru_id u) (apply_run_update now u r0) s"
    by (auto simp: UpdateRun_def Let_def split: option.splits if_splits)
  have "run_phase r0 \<le> run_phase (apply_run_update now u r0)"
    using assms(2) apply_update_phase [of u now r0] run_phase_le [of r0] by auto
  with s show ?thesis by (auto intro: phase_le_put)
qed

lemma ClaimRun_phase:
  assumes "ClaimRun now i w st = Inr (r, s')"
  shows "phases st i = Some 0 \<and> phases (Some s') i = Some 1 \<and> phase_le st (Some s')"
proof -
  from assms obtain s r0 where s: "st = Some s" "map_of (rs_runs s) i = Some r0" "rr_status r0 = RunStatusQueued"
    and s': "s' = put_run i (r0\<lparr>rr_status := RunStatusRunning, rr_worker := w, rr_started := now,
        rr_heartbeat := (if w \<noteq> [] then now else rr_heartbeat r0), rr_updated := now\<rparr>) s"
    by (auto simp: ClaimRun_def Let_def split: option.splits if_splits)
  then show ?thesis
    using run_phase_simps(1) [OF s(3)] phase_le_put(1) [OF s(2), of "r0\<lparr>rr_status := RunStatusRunning, rr_worker := w, rr_started := now,
        rr_heartbeat := (if w \<noteq> [] then now else rr_heartbeat r0), rr_updated := now\<rparr>"]
    by (simp add: phases_put run_phase_simps(2)) (simp add: phases_def)
qed

lemma HeartbeatRun_phase:
  assumes "HeartbeatRun now i w st = Inr (r, s')"
  shows "phase_le st (Some s')"
proof -
  from assms obtain s r0 where "st = Some s" "map_of (rs_runs s) i = Some r0" "rr_status r0 = RunStatusRunning"
      "s' = put_run i (r0\<lparr>rr_worker := w, rr_heartbeat := now, rr_updated := now\<rparr>) s"
    by (auto simp: HeartbeatRun_def Let_def split: option.splits if_splits)
  then show ?thesis by (simp add: phase_le_put(1) run_phase_simps(2))
qed

lemma FailStaleRuns_phase:
  assumes "FailStaleRuns now before reason st = Inr (rs, s')"
  shows "phase_le st (Some s')"
proof -
  from assms obtain s where s: "st = Some s"
    and s': "s' = s\<lparr>rs_runs := map (\<lambda>(i, r). (i, if stale_run before r then fail_run_record now reason r else r)) (rs_runs s)\<rparr>"
    by (auto simp: FailStaleRuns_def split: option.splits)
  have "run_phase r \<le> run_phase (if stale_run before r then fail_run_record now reason r else r)" for r
    using run_phase_le [of r] run_phase_simps(3) [of "fail_run_record now reason r"]
    by (simp add: fail_run_record_def final_status_def)
  then show ?thesis
    by (auto simp: phase_le_def phases_def s s' map_of_map_values simp del: ex_simps split del: if_split)
qed

lemma EnqueueRun_phase:
  assumes "EnqueueRun ctxerr now (Inr i) prompt scope m = Inr (r, m')" and "map_of (rs_runs (the (mg_store m))) i = None"
  shows "phase_le (mg_store m) (mg_store m') \<and> mg_workers m' = mg_workers m"
  using assms by (auto simp: EnqueueRun_def CreateRun_def Let_def phase_le_put(2) split: option.splits if_splits)

section \<open>Workers\<close>

fun pc_run_ok :: "string \<Rightarrow> worker_pc \<Rightarrow> bool" where
  "pc_run_ok i AtStart = False"
| "pc_run_ok i AtClaim = False"
| "pc_run_ok i (AtEvents r evs res e) = (rr_id r = i)"
| "pc_run_ok i (AtCheck r res e) = (rr_id r = i)"
| "pc_run_ok i (AtDecide r res e) = (rr_id r = i)"
| "pc_run_ok i (AtWrite u) = (ru_id u = i \<and> final_status (ru_status u))"
| "pc_run_ok i (Returned r e) = True"

text \<open>A worker that has not claimed has not begun to execute; one that has claimed works on its run, which is past
  the queue, and which has ended once the worker returned.\<close>

definition worker_ok :: "run_store option \<Rightarrow> worker \<Rightarrow> bool" where
  "worker_ok st w \<longleftrightarrow>
     (if wk_claimed w
      then wk_run w \<noteq> [] \<and> pc_run_ok (wk_run w) (wk_pc w)
           \<and> (\<exists>p. phases st (wk_run w) = Some p \<and> (if returned (wk_pc w) then p = 2 else 1 \<le> p))
      else wk_pc w = AtStart \<or> wk_pc w = AtClaim \<or> returned (wk_pc w))"

definition runs_ok :: "run_store option \<Rightarrow> bool" where
  "runs_ok st \<longleftrightarrow> (\<forall>s i r. st = Some s \<longrightarrow> map_of (rs_runs s) i = Some r \<longrightarrow> rr_id r = i \<and> i \<noteq> [])"

definition claimed_runs :: "managed \<Rightarrow> string list" where
  "claimed_runs m = map wk_run (filter wk_claimed (mg_workers m))"

definition managed_inv :: "managed \<Rightarrow> bool" where
  "managed_inv m \<longleftrightarrow> runs_ok (mg_store m) \<and> (\<forall>w \<in> set (mg_workers m). worker_ok (mg_store m) w) \<and> distinct (claimed_runs m)"

lemma phases_le_2: "phases st i = Some p \<Longrightarrow> p \<le> 2"
  by (auto simp: phases_def run_phase_le split: option.splits)

lemma worker_ok_mono:
  assumes ok: "worker_ok st w" and le: "phase_le st st'"
  shows "worker_ok st' w"
proof (cases "wk_claimed w")
  case True
  with ok obtain p where p: "phases st (wk_run w) = Some p" "if returned (wk_pc w) then p = 2 else 1 \<le> p"
    by (auto simp: worker_ok_def)
  from phase_leD [OF le p(1)] obtain q where "p \<le> q" "phases st' (wk_run w) = Some q" by blast
  with p phases_le_2 [of st' "wk_run w" q] ok True show ?thesis by (auto simp: worker_ok_def)
qed (use ok in \<open>simp add: worker_ok_def\<close>)

lemma runs_ok_put: "runs_ok (Some s) \<Longrightarrow> rr_id r = i \<Longrightarrow> i \<noteq> [] \<Longrightarrow> runs_ok (Some (put_run i r s))"
  by (auto simp: runs_ok_def put_run_def)

lemma runs_okD: "runs_ok (Some s) \<Longrightarrow> map_of (rs_runs s) i = Some r \<Longrightarrow> rr_id r = i \<and> i \<noteq> []"
  by (simp add: runs_ok_def)

lemma apply_update_id [simp]: "rr_id (apply_run_update now u r) = rr_id r"
  by (simp add: apply_run_update_def)

lemma UpdateRun_runs_ok:
  assumes "UpdateRun now u st = Inr (r, s')" and "runs_ok st"
  shows "runs_ok (Some s') \<and> rr_id r = ru_id u"
  using assms
  by (auto simp: UpdateRun_def Let_def split: option.splits if_splits intro!: runs_ok_put dest: runs_okD)

lemma ClaimRun_runs_ok:
  assumes "ClaimRun now i w st = Inr (r, s')" and "runs_ok st"
  shows "runs_ok (Some s') \<and> rr_id r = i \<and> i \<noteq> []"
  using assms
  by (auto simp: ClaimRun_def Let_def split: option.splits if_splits intro!: runs_ok_put dest: runs_okD)

lemma HeartbeatRun_runs_ok: "HeartbeatRun now i w st = Inr (r, s') \<Longrightarrow> runs_ok st \<Longrightarrow> runs_ok (Some s')"
  by (auto simp: HeartbeatRun_def Let_def split: option.splits if_splits intro!: runs_ok_put dest: runs_okD)

lemma FailStaleRuns_runs_ok: "FailStaleRuns now before reason st = Inr (rs, s') \<Longrightarrow> runs_ok st \<Longrightarrow> runs_ok (Some s')"
  by (fastforce simp: FailStaleRuns_def runs_ok_def map_of_map_values fail_run_record_def split: option.splits)

lemma known_run:
  assumes "phases st i = Some p"
  obtains s r where "st = Some s" "map_of (rs_runs s) i = Some r" "p = run_phase r"
  using assms by (auto simp: phases_def split: option.splits)

text \<open>An update of a run the store has always succeeds.\<close>

lemma update_known:
  assumes "phases st (ru_id u) = Some p" and "runs_ok st" and "ru_status u = [] \<or> final_status (ru_status u)"
  obtains r st' where "update_or_zero now u st = (r, st')" "rr_id r = ru_id u" "runs_ok st'" "phase_le st st'"
    "final_status (ru_status u) \<Longrightarrow> phases st' (ru_id u) = Some 2"
proof -
  from assms(1) obtain s r0 where s: "st = Some s" "map_of (rs_runs s) (ru_id u) = Some r0" by (rule known_run)
  with assms(2) have ne: "ru_id u \<noteq> []" "rr_id r0 = ru_id u" by (auto dest: runs_okD)
  have up: "UpdateRun now u st = Inr (cloneRunRecord (apply_run_update now u r0), put_run (ru_id u) (apply_run_update now u r0) s)"
    using UpdateRun_known [OF s(2) ne(1)] s(1) by simp
  show ?thesis
  proof (rule that)
    show "update_or_zero now u st = (cloneRunRecord (apply_run_update now u r0), Some (put_run (ru_id u) (apply_run_update now u r0) s))"
      by (simp add: update_or_zero_def up)
    show "rr_id (cloneRunRecord (apply_run_update now u r0)) = ru_id u" using ne by simp
    show "runs_ok (Some (put_run (ru_id u) (apply_run_update now u r0) s))" using UpdateRun_runs_ok [OF up assms(2)] by simp
    show "phase_le st (Some (put_run (ru_id u) (apply_run_update now u r0) s))" using UpdateRun_phase_le [OF up assms(3)] .
    show "final_status (ru_status u) \<Longrightarrow> phases (Some (put_run (ru_id u) (apply_run_update now u r0) s)) (ru_id u) = Some 2"
      by (simp add: phases_put apply_update_phase)
  qed
qed

lemma final_update_simps [simp]:
  "ru_id (final_update now c r res e) = rr_id r" "final_status (ru_status (final_update now c r res e))"
  by (auto simp: final_update_def no_update_def final_status_def Let_def split: option.splits)

lemma started_update_simps [simp]: "ru_id (started_update r sid parent) = rr_id r" "ru_status (started_update r sid parent) = []"
  by (simp_all add: started_update_def no_update_def)

lemma run_outcome_returned [simp]: "returned (run_outcome r)" "pc_run_ok i (run_outcome r)"
  by (simp_all add: run_outcome_def)

lemma worker_step_keeps [simp]:
  "wk_run (fst (worker_step now w st)) = wk_run w" "wk_id (fst (worker_step now w st)) = wk_id w"
  "wk_context (fst (worker_step now w st)) = wk_context w" "wk_events (fst (worker_step now w st)) = wk_events w"
  by (simp_all add: worker_step_def split: worker_pc.split option.split sum.split prod.split list.split query_event.split)

text \<open>What one step of a good worker does to it and to the store.\<close>

lemma worker_step_ok:
  assumes step: "worker_step now w st = (w', st')" and ok: "worker_ok st w" and rs: "runs_ok st" and nr: "\<not> returned (wk_pc w)"
  shows "worker_ok st' w' \<and> runs_ok st' \<and> phase_le st st'
    \<and> (wk_claimed w' \<and> \<not> wk_claimed w \<longrightarrow> phases st (wk_run w) = Some 0) \<and> (wk_claimed w \<longrightarrow> wk_claimed w')"
proof (cases "wk_pc w")
  case AtStart
  with step ok rs show ?thesis
    by (auto simp: worker_step_def worker_ok_def split: option.splits if_splits)
next
  case AtClaim
  with ok have nc: "\<not> wk_claimed w" by (auto simp: worker_ok_def)
  show ?thesis
  proof (cases "ClaimRun now (wk_run w) (wk_id w) st")
    case (Inl e)
    with step AtClaim nc rs show ?thesis by (auto simp: worker_step_def worker_ok_def)
  next
    case (Inr q)
    obtain r s' where q: "q = (r, s')" by force
    from ClaimRun_phase [OF Inr [unfolded q]] ClaimRun_runs_ok [OF Inr [unfolded q] rs] step AtClaim Inr q
    show ?thesis by (auto simp: worker_step_def worker_ok_def)
  qed
next
  case (AtEvents r evs res e)
  with ok have c: "wk_claimed w" "rr_id r = wk_run w" "wk_run w \<noteq> []" and ph: "\<exists>p. phases st (wk_run w) = Some p \<and> 1 \<le> p"
    by (auto simp: worker_ok_def split: if_splits)
  from ph obtain p where p: "phases st (wk_run w) = Some p" "1 \<le> p" by blast
  show ?thesis
  proof (cases "\<exists>sid parent rest. evs = SessionStarted sid parent # rest")
    case True
    then obtain sid parent rest where evs: "evs = SessionStarted sid parent # rest" by blast
    have kn: "phases st (ru_id (started_update r sid parent)) = Some p" using p c by simp
    obtain r' st1 where u: "update_or_zero now (started_update r sid parent) st = (r', st1)" "rr_id r' = rr_id r"
        "runs_ok st1" "phase_le st st1"
      by (rule update_known [OF kn rs, of now]) simp_all
    from phase_leD [OF u(4) p(1)] obtain q where "p \<le> q" "phases st1 (wk_run w) = Some q" by blast
    with u step AtEvents evs c p(2) show ?thesis by (auto simp: worker_step_def worker_ok_def)
  next
    case False
    with step AtEvents c p rs show ?thesis
      by (auto simp: worker_step_def worker_ok_def split: list.splits query_event.splits)
  qed
next
  case (AtCheck r res e)
  with ok have c: "wk_claimed w" "rr_id r = wk_run w" "wk_run w \<noteq> []" and ph: "\<exists>p. phases st (wk_run w) = Some p \<and> 1 \<le> p"
    by (auto simp: worker_ok_def split: if_splits)
  from ph obtain p where p: "phases st (wk_run w) = Some p" "1 \<le> p" by blast
  then obtain s r0 where s: "st = Some s" "map_of (rs_runs s) (wk_run w) = Some r0" "p = run_phase r0" by (auto elim: known_run)
  then have "GetRun (rr_id r) st = Inr (cloneRunRecord r0)" using c by (simp add: GetRun_def)
  moreover have "run_Terminal (cloneRunRecord r0) \<Longrightarrow> p = 2"
    using s(3) by (simp add: cloneRunRecord_def run_Terminal_def run_phase_simps)
  ultimately show ?thesis using step AtCheck c p rs by (auto simp: worker_step_def worker_ok_def)
next
  case (AtDecide r res e)
  with step ok rs show ?thesis by (auto simp: worker_step_def worker_ok_def split: if_splits)
next
  case (AtWrite u)
  with ok have c: "wk_claimed w" "ru_id u = wk_run w" "wk_run w \<noteq> []" "final_status (ru_status u)"
    and "\<exists>p. phases st (ru_id u) = Some p"
    by (auto simp: worker_ok_def split: if_splits)
  then obtain p where "phases st (ru_id u) = Some p" by blast
  then obtain r st1 where "update_or_zero now u st = (r, st1)" "runs_ok st1" "phase_le st st1" "phases st1 (ru_id u) = Some 2"
    using update_known [of st u p now] rs c(4) by blast
  with step AtWrite c show ?thesis by (auto simp: worker_step_def worker_ok_def)
next
  case (Returned r e)
  with nr show ?thesis by simp
qed

section \<open>Every interleaving\<close>

lemma claimed_update:
  assumes "k < length ws" and "wk_run w = wk_run (ws ! k)" and "wk_claimed w = wk_claimed (ws ! k)"
  shows "map wk_run (filter wk_claimed (ws[k := w])) = map wk_run (filter wk_claimed ws)"
  using assms
proof (induction ws arbitrary: k)
  case (Cons x xs)
  then show ?case by (cases k) auto
qed simp

lemma claimed_new:
  assumes "k < length ws" and "\<not> wk_claimed (ws ! k)" and "wk_claimed w"
  shows "mset (map wk_run (filter wk_claimed (ws[k := w]))) = add_mset (wk_run w) (mset (map wk_run (filter wk_claimed ws)))"
  using assms
proof (induction ws arbitrary: k)
  case (Cons x xs)
  then show ?case by (cases k) auto
qed simp

lemma end_context_keeps [simp]:
  "wk_run (end_context c w) = wk_run w" "wk_claimed (end_context c w) = wk_claimed w" "wk_pc (end_context c w) = wk_pc w"
  "wk_events (end_context c w) = wk_events w"
  by (simp_all add: end_context_def)

lemma worker_ok_end_context [simp]: "worker_ok st (end_context c w) = worker_ok st w"
  by (simp add: worker_ok_def)

lemma inv_same_workers:
  assumes "managed_inv m" and "phase_le (mg_store m) (mg_store m')" and "runs_ok (mg_store m')" and "mg_workers m' = mg_workers m"
  shows "managed_inv m'"
  using assms worker_ok_mono by (auto simp: managed_inv_def claimed_runs_def)

lemma inv_end_context:
  assumes "managed_inv m"
  shows "managed_inv (m\<lparr>mg_workers := (mg_workers m)[k := end_context c (mg_workers m ! k)]\<rparr>)"
proof (cases "k < length (mg_workers m)")
  case True
  then show ?thesis using assms
    by (auto simp: managed_inv_def claimed_runs_def claimed_update dest!: subsetD [OF set_update_subset_insert])
next
  case False
  then have "(mg_workers m)[k := end_context c (mg_workers m ! k)] = mg_workers m" by (simp add: list_update_beyond linorder_not_less)
  then show ?thesis using assms by simp
qed

lemma inv_launch: "managed_inv m \<Longrightarrow> managed_inv (launch registered i worker evs m)"
  by (auto simp: managed_inv_def claimed_runs_def launch_def new_worker_def worker_ok_def)

lemma inv_work:
  assumes inv: "managed_inv m" and k: "k < length (mg_workers m)" and nr: "\<not> returned (wk_pc (mg_workers m ! k))"
  shows "managed_inv (run_worker now k m) \<and> phase_le (mg_store m) (mg_store (run_worker now k m))"
proof -
  let ?w = "mg_workers m ! k"
  obtain w' st' where step: "worker_step now ?w (mg_store m) = (w', st')" by force
  have keeps: "wk_run w' = wk_run ?w" using worker_step_keeps(1) [of now ?w "mg_store m"] by (simp add: step)
  have ok: "worker_ok (mg_store m) ?w" "runs_ok (mg_store m)" using inv k by (auto simp: managed_inv_def)
  note one = worker_step_ok [OF step ok nr]
  have others: "worker_ok st' w" if "w \<in> set (mg_workers m)" for w
    using that inv one worker_ok_mono by (auto simp: managed_inv_def)
  have dist: "distinct (map wk_run (filter wk_claimed ((mg_workers m)[k := w'])))"
  proof (cases "wk_claimed w' = wk_claimed ?w")
    case True
    with k keeps inv show ?thesis by (simp add: claimed_update managed_inv_def claimed_runs_def)
  next
    case False
    with one have c: "wk_claimed w'" "\<not> wk_claimed ?w" "phases (mg_store m) (wk_run ?w) = Some 0" by auto
    have "wk_run ?w \<notin> set (claimed_runs m)"
    proof
      assume "wk_run ?w \<in> set (claimed_runs m)"
      then obtain v where "v \<in> set (mg_workers m)" "wk_claimed v" "wk_run v = wk_run ?w" by (auto simp: claimed_runs_def)
      with inv c(3) show False by (auto simp: managed_inv_def worker_ok_def split: if_splits)
    qed
    moreover have "distinct (claimed_runs m)" using inv by (simp add: managed_inv_def)
    ultimately have "distinct (wk_run w' # claimed_runs m)" using keeps by simp
    moreover have "mset (map wk_run (filter wk_claimed ((mg_workers m)[k := w']))) = mset (wk_run w' # claimed_runs m)"
      using claimed_new [OF k c(2,1)] by (simp add: claimed_runs_def)
    ultimately show ?thesis by (metis mset_eq_imp_distinct_iff)
  qed
  show ?thesis using one others dist
    by (auto simp: managed_inv_def run_worker_def step claimed_runs_def dest!: subsetD [OF set_update_subset_insert])
qed

lemma managed_step_inv:
  assumes "managed_step l m m'" and "managed_inv m"
  shows "managed_inv m' \<and> phase_le (mg_store m) (mg_store m')"
  using assms
proof (induction rule: managed_step.induct)
  case (enqueue ctxerr now i prompt scope m r m')
  have "runs_ok (mg_store m')"
    using enqueue by (auto simp: EnqueueRun_def CreateRun_def Let_def managed_inv_def zero_run_def intro!: runs_ok_put split: option.splits if_splits)
  with EnqueueRun_phase [OF enqueue(1,3)] inv_same_workers [OF enqueue(4)] show ?case by blast
next
  case (start m registered i worker evs)
  then show ?case by (simp add: inv_launch) (simp add: launch_def)
next
  case (work k m now)
  then show ?case by (rule inv_work [rotated])
next
  case (cancel i m m')
  then show ?case by (auto simp: CancelRun_def inv_end_context split: if_splits option.splits)
next
  case (expire k m c)
  then show ?case by (simp add: inv_end_context)
next
  case (heartbeat w m now r s)
  then have "phase_le (mg_store m) (Some s)" "runs_ok (Some s)"
    using HeartbeatRun_phase HeartbeatRun_runs_ok by (auto simp: managed_inv_def)
  with heartbeat show ?case using inv_same_workers [of m "m\<lparr>mg_store := Some s\<rparr>"] by simp
next
  case (sweep now before reason m n m')
  then obtain rs s' where "FailStaleRuns now before reason (mg_store m) = Inr (rs, s')" "m' = m\<lparr>mg_store := Some s'\<rparr>"
    by (auto simp: Stack_FailStaleRuns_def split: if_splits sum.splits)
  moreover from this have "phase_le (mg_store m) (Some s')" "runs_ok (Some s')"
    using FailStaleRuns_phase FailStaleRuns_runs_ok sweep by (auto simp: managed_inv_def)
  ultimately show ?case using sweep inv_same_workers [of m m'] by simp
qed

lemma new_stack_inv: "managed_inv new_stack"
  by (simp add: managed_inv_def new_stack_def NewMemoryRunStore_def runs_ok_def claimed_runs_def)

lemma managed_path_inv: "managed_path ls m m' \<Longrightarrow> managed_inv m \<Longrightarrow> managed_inv m'"
  by (induction rule: managed_path.induct) (auto dest: managed_step_inv)

definition reached_step :: "managed \<Rightarrow> managed \<Rightarrow> bool" where
  "reached_step m m' \<longleftrightarrow> managed_inv m \<and> (\<exists>l. managed_step l m m')"

lemma managed_path_steps: "managed_path ls m m' \<Longrightarrow> managed_inv m \<Longrightarrow> reached_step\<^sup>*\<^sup>* m m'"
proof (induction rule: managed_path.induct)
  case (move ls m m' l m'')
  then have "reached_step m' m''" by (auto simp: reached_step_def dest: managed_path_inv)
  with move show ?case by (meson rtranclp.rtrancl_into_rtrancl)
qed simp

text \<open>A run that has ended stays ended, and a run that left the queue never returns to it.\<close>

interpretation ended: settling_store "\<lambda>m. phases (mg_store m)" "\<lambda>p. p = 2" reached_step
proof
  fix m m' i p
  assume "reached_step m m'" "phases (mg_store m) i = Some p" "p = 2"
  then show "phases (mg_store m') i = Some p"
    by (auto simp: reached_step_def dest!: managed_step_inv) (metis phase_leD phases_le_2 le_antisym)
qed

interpretation begun: settling_store "\<lambda>m i. map_option (\<lambda>p. 0 < p) (phases (mg_store m) i)" "\<lambda>b. b" reached_step
proof
  fix m m' i b
  assume "reached_step m m'" "map_option (\<lambda>p. 0 < p) (phases (mg_store m) i) = Some b" "b"
  then show "map_option (\<lambda>p. 0 < p) (phases (mg_store m') i) = Some b"
    by (auto simp: reached_step_def dest!: managed_step_inv) (metis phase_leD less_le_trans)
qed

section \<open>Workers return\<close>

fun pc_rank :: "nat \<Rightarrow> worker_pc \<Rightarrow> nat" where
  "pc_rank n AtStart = n + 6"
| "pc_rank n AtClaim = n + 5"
| "pc_rank n (AtEvents r evs res e) = length evs + 4"
| "pc_rank n (AtCheck r res e) = 3"
| "pc_rank n (AtDecide r res e) = 2"
| "pc_rank n (AtWrite u) = 1"
| "pc_rank n (Returned r e) = 0"

definition worker_rank :: "worker \<Rightarrow> nat" where
  "worker_rank w = pc_rank (length (wk_events w)) (wk_pc w)"

lemma pc_rank_outcome [simp]: "pc_rank n (run_outcome r) = 0"
  by (simp add: run_outcome_def)

lemma worker_step_rank:
  assumes "\<not> returned (wk_pc w)"
  shows "worker_rank (fst (worker_step now w st)) < worker_rank w"
  using assms
  by (cases "wk_pc w")
    (auto simp: worker_step_def worker_rank_def split: option.splits sum.splits prod.splits list.splits query_event.splits)

lemma nth_end_context:
  assumes "k < length ws"
  shows "wk_run (ws[j := end_context c (ws ! j)] ! k) = wk_run (ws ! k)"
    and "worker_rank (ws[j := end_context c (ws ! j)] ! k) = worker_rank (ws ! k)"
  using assms by (cases "j = k"; simp add: worker_rank_def)+

lemma managed_step_rank:
  assumes "managed_step l m m'" and "k < length (mg_workers m)"
  shows "k < length (mg_workers m') \<and> worker_rank (mg_workers m' ! k) + (if l = Some k then 1 else 0) \<le> worker_rank (mg_workers m ! k)
    \<and> wk_run (mg_workers m' ! k) = wk_run (mg_workers m ! k)"
  using assms
proof (induction rule: managed_step.induct)
  case (work j m now)
  then show ?case
    using worker_step_rank [of "mg_workers m ! j" now "mg_store m"] worker_step_keeps(1) [of now "mg_workers m ! j" "mg_store m"]
    by (cases "worker_step now (mg_workers m ! j) (mg_store m)") (auto simp: run_worker_def nth_list_update)
qed (auto simp: EnqueueRun_def CancelRun_def Stack_FailStaleRuns_def launch_def nth_append nth_end_context
       split: option.splits if_splits sum.splits prod.splits)

lemma managed_path_rank:
  assumes "managed_path ls m m'" and "k < length (mg_workers m)"
  shows "k < length (mg_workers m') \<and> worker_rank (mg_workers m' ! k) + length (filter (\<lambda>l. l = Some k) ls) \<le> worker_rank (mg_workers m ! k)
    \<and> wk_run (mg_workers m' ! k) = wk_run (mg_workers m ! k)"
  using assms
  by (induction rule: managed_path.induct) (auto dest!: managed_step_rank split: if_splits)

section \<open>A run, step by step\<close>

lemma path_Cons: "managed_step l m m' \<Longrightarrow> managed_path ls m' m'' \<Longrightarrow> managed_path (l # ls) m m''"
  by (rotate_tac, induction rule: managed_path.induct) (use managed_path.intros in \<open>fastforce\<close>, metis append_Cons managed_path.move)

lemma path_append: "managed_path ls m m' \<Longrightarrow> managed_path ls' m' m'' \<Longrightarrow> managed_path (ls @ ls') m m''"
  by (rotate_tac, induction rule: managed_path.induct) (simp, metis append_assoc managed_path.move)

text \<open>\<open>n\<close> steps of worker 0 at time 1.\<close>

fun work_steps :: "nat \<Rightarrow> managed \<Rightarrow> managed" where
  "work_steps 0 m = m"
| "work_steps (Suc n) m = work_steps n (run_worker 1 0 m)"

fun can_work :: "nat \<Rightarrow> managed \<Rightarrow> bool" where
  "can_work 0 m = True"
| "can_work (Suc n) m = (0 < length (mg_workers m) \<and> \<not> returned (wk_pc (mg_workers m ! 0)) \<and> can_work n (run_worker 1 0 m))"

lemma work_path: "can_work n m \<Longrightarrow> managed_path (replicate n (Some 0)) m (work_steps n m)"
  by (induction n arbitrary: m) (auto intro: managed_path.stay path_Cons managed_step.work)

definition sample_queued :: managed where
  "sample_queued = new_stack\<lparr>mg_store := Some \<lparr>rs_runs = [(''r'', zero_run\<lparr>rr_id := ''r'', rr_status := RunStatusQueued, rr_created := 1, rr_updated := 1\<rparr>)]\<rparr>\<rparr>"

lemma sample_queued_step: "managed_path [None] new_stack sample_queued"
proof -
  have "EnqueueRun None 1 (Inr ''r'') [] zero_scope new_stack = Inr (cloneRunRecord (zero_run\<lparr>rr_id := ''r'', rr_status := RunStatusQueued, rr_created := 1, rr_updated := 1\<rparr>), sample_queued)"
    by (simp add: EnqueueRun_def CreateRun_def new_stack_def NewMemoryRunStore_def sample_queued_def Let_def put_run_def zero_run_def
        scope_clone_def zero_scope_def)
  then show ?thesis
    by (intro path_Cons [OF managed_step.enqueue managed_path.stay]) (auto simp: new_stack_def NewMemoryRunStore_def)
qed

definition sample_launched :: managed where
  "sample_launched = launch True ''r'' ''w'' [ResultEvent ''ok''] sample_queued"

lemma sample_launched_path: "managed_path [None, None] new_stack sample_launched"
  using path_append [OF sample_queued_step path_Cons [OF managed_step.start managed_path.stay]] by (simp add: sample_launched_def)

section \<open>The theorems\<close>

text \<open>
  C10. However workers, enqueues, cancellations, heartbeats and stale-run sweeps interleave: no two workers ever claim the
  same run; a worker that claimed its run and returned has left it in a final status, and from then on the run
  stays in a final status; and a run that left the queue never returns to it.
\<close>

theorem managed_runs_claimed_once:
  assumes "managed_path ls new_stack m" and "managed_path ls' m m'"
  shows "distinct (claimed_runs m)
    \<and> (w \<in> set (mg_workers m) \<and> wk_claimed w \<and> returned (wk_pc w) \<longrightarrow>
         phases (mg_store m) (wk_run w) = Some 2 \<and> phases (mg_store m') (wk_run w) = Some 2)
    \<and> (phases (mg_store m) i = Some p \<and> 0 < p \<longrightarrow> (\<exists>q > 0. phases (mg_store m') i = Some q))"
proof -
  have inv: "managed_inv m" using assms(1) new_stack_inv by (rule managed_path_inv)
  have steps: "reached_step\<^sup>*\<^sup>* m m'" using assms(2) inv by (rule managed_path_steps)
  have "phases (mg_store m) (wk_run w) = Some 2" if "w \<in> set (mg_workers m)" "wk_claimed w" "returned (wk_pc w)"
    using that inv by (auto simp: managed_inv_def worker_ok_def)
  moreover have "\<exists>q > 0. phases (mg_store m') i = Some q" if "phases (mg_store m) i = Some p" "0 < p"
    using begun.settled_forever [OF steps, of i True] that by auto
  ultimately show ?thesis using inv ended.settled_forever [OF steps] by (auto simp: managed_inv_def)
qed

lemma sample_work: "can_work 7 sample_launched"
  by code_simp

theorem managed_runs_claimed_once_witness:
  "distinct (claimed_runs (work_steps 7 sample_launched))
   \<and> phases (mg_store (work_steps 7 sample_launched)) ''r'' = Some 2"
proof -
  have w: "mg_workers (work_steps 7 sample_launched) ! 0 \<in> set (mg_workers (work_steps 7 sample_launched))"
      "wk_claimed (mg_workers (work_steps 7 sample_launched) ! 0)" "returned (wk_pc (mg_workers (work_steps 7 sample_launched) ! 0))"
      "wk_run (mg_workers (work_steps 7 sample_launched) ! 0) = ''r''"
    by code_simp+
  from managed_runs_claimed_once [OF path_append [OF sample_launched_path work_path [OF sample_work]] managed_path.stay,
      of "mg_workers (work_steps 7 sample_launched) ! 0"] w
  show ?thesis by metis
qed



section \<open>Two races\<close>

definition status_of :: "managed \<Rightarrow> string \<Rightarrow> run_status option" where
  "status_of m i = (case mg_store m of None \<Rightarrow> None | Some s \<Rightarrow> map_option rr_status (map_of (rs_runs s) i))"

text \<open>
  The worker's check that its run has not ended and its final update are separate store calls. A sweep between them
  fails the run, and the update then turns it into a succeeded one.
\<close>

definition sample_swept :: managed where
  "sample_swept = (case Stack_FailStaleRuns 9 5 ''stale'' (work_steps 5 sample_launched) of Inl e \<Rightarrow> new_stack | Inr (n, m) \<Rightarrow> m)"

lemma late_worker_overwrites_failure:
  "\<exists>ls m ls' m'. managed_path ls new_stack m \<and> managed_path ls' m m'
     \<and> status_of m ''r'' = Some RunStatusFailed \<and> status_of m' ''r'' = Some RunStatusSucceeded"
proof -
  have "can_work 5 sample_launched" by code_simp
  then have p: "managed_path ([None, None] @ replicate 5 (Some 0)) new_stack (work_steps 5 sample_launched)"
    by (intro path_append [OF sample_launched_path] work_path)
  have "Stack_FailStaleRuns 9 5 ''stale'' (work_steps 5 sample_launched) = Inr (1, sample_swept)" by code_simp
  then have "managed_path [None] (work_steps 5 sample_launched) sample_swept"
    by (intro path_Cons [OF managed_step.sweep managed_path.stay])
  note q = path_append [OF p this]
  have "can_work 2 sample_swept" by code_simp
  note q' = work_path [OF this]
  have "status_of sample_swept ''r'' = Some RunStatusFailed" "status_of (work_steps 2 sample_swept) ''r'' = Some RunStatusSucceeded"
    by code_simp+
  with q q' show ?thesis by blast
qed

text \<open>
  A cancellation that arrives before the worker's first check is accepted, but the worker returns without
  claiming: the run stays queued, and its active entry is never removed.
\<close>

definition sample_canceled :: managed where
  "sample_canceled = (case CancelRun ''r'' sample_launched of Inl e \<Rightarrow> new_stack | Inr m \<Rightarrow> m)"

lemma early_cancel_is_lost:
  "CancelRun ''r'' sample_launched = Inr sample_canceled
   \<and> returned (wk_pc (mg_workers (run_worker 1 0 sample_canceled) ! 0))
   \<and> status_of (run_worker 1 0 sample_canceled) ''r'' = Some RunStatusQueued
   \<and> map_of (mg_active (run_worker 1 0 sample_canceled)) ''r'' = Some 0"
  by code_simp

section \<open>The queue\<close>

text \<open>\<open>NextQueuedRun\<close> returns the oldest queued run, ties broken by id, whatever order the map yields.\<close>

lemma queued_before_split: "queued_before a b \<Longrightarrow> queued_before a x \<or> queued_before x b"
  using str_less_total [of "rr_id a" "rr_id x"] str_less_trans [of "rr_id x" "rr_id a" "rr_id b"]
  by (cases "rr_id a = rr_id x") (auto simp: queued_before_def)

lemma queued_before_trans: "queued_before a b \<Longrightarrow> queued_before b c \<Longrightarrow> queued_before a c"
  by (auto simp: queued_before_def dest: str_less_trans)

lemma queued_before_irrefl: "\<not> queued_before a a"
  by (simp add: queued_before_def str_less_irrefl)

lemma select_queued_least:
  assumes "foldl select_queued sel rs = Some r"
  shows "(sel = Some r \<or> (r \<in> set rs \<and> rr_status r = RunStatusQueued)) \<and> (\<forall>x. sel = Some x \<longrightarrow> \<not> queued_before x r)
    \<and> (\<forall>x \<in> set rs. rr_status x = RunStatusQueued \<longrightarrow> \<not> queued_before x r)"
  using assms
proof (induction rs arbitrary: sel)
  case Nil
  then show ?case by (simp add: queued_before_irrefl)
next
  case (Cons a rs)
  then have IH: "(select_queued sel a = Some r \<or> (r \<in> set rs \<and> rr_status r = RunStatusQueued))
      \<and> (\<forall>x. select_queued sel a = Some x \<longrightarrow> \<not> queued_before x r) \<and> (\<forall>x \<in> set rs. rr_status x = RunStatusQueued \<longrightarrow> \<not> queued_before x r)"
    by simp
  then show ?case
    by (auto simp: select_queued_def queued_before_irrefl split: if_splits option.splits
        dest: queued_before_trans queued_before_split)
qed

lemma select_queued_none: "foldl select_queued sel rs = None \<longleftrightarrow> sel = None \<and> (\<forall>x \<in> set rs. rr_status x \<noteq> RunStatusQueued)"
  by (induction rs arbitrary: sel) (auto simp: select_queued_def split: option.splits)

lemma next_queued_oldest:
  "case NextQueuedRun (Some s) of
     Inl e \<Rightarrow> e = ErrRunQueueEmpty \<and> \<not> list_ex (\<lambda>x. rr_status x = RunStatusQueued) (map snd (rs_runs s))
   | Inr q \<Rightarrow> \<exists>r \<in> set (map snd (rs_runs s)). q = cloneRunRecord r \<and> rr_status r = RunStatusQueued
       \<and> \<not> list_ex (\<lambda>x. rr_status x = RunStatusQueued \<and> queued_before x r) (map snd (rs_runs s))"
proof (cases "foldl select_queued None (map snd (rs_runs s))")
  case None
  moreover from this have "\<forall>x \<in> set (map snd (rs_runs s)). rr_status x \<noteq> RunStatusQueued" by (simp only: select_queued_none) blast
  ultimately show ?thesis by (auto simp: NextQueuedRun_def list_ex_iff)
next
  case (Some r)
  with select_queued_least [OF Some] show ?thesis by (auto simp: NextQueuedRun_def list_ex_iff)
qed

end
