(* ===== verification/Time_Text.thy ===== *)
theory Time_Text
  imports Go_Text
begin

text \<open>
  \<open>t.Format(time.RFC3339)\<close> of a UTC time: the date and the time of day in whole seconds. Two times have the same text
  exactly when they lie in the same second.
\<close>

definition format_RFC3339 :: "gotime \<Rightarrow> string" where
  "format_RFC3339 t =
     (let secs = nat t div 1000000000; (y, m, d) = civil_date (secs div 86400); sod = secs mod 86400
      in pad 4 y @ ''-'' @ pad 2 m @ ''-'' @ pad 2 d @ ''T'' @ pad 2 (sod div 3600) @ '':'' @ pad 2 (sod div 60 mod 60) @ '':''
         @ pad 2 (sod mod 60) @ ''Z'')"

section \<open>Padded numbers\<close>

definition is_digit :: "char \<Rightarrow> bool" where
  "is_digit c \<longleftrightarrow> 48 \<le> byte c \<and> byte c \<le> 57"

definition digits_value :: "string \<Rightarrow> nat" where
  "digits_value s = foldl (\<lambda>a c. 10 * a + (byte c - 48)) 0 s"

lemma digit_char_digit: "d < 10 \<Longrightarrow> is_digit (digit_char d) \<and> byte (digit_char d) = 48 + d"
  by (simp add: is_digit_def digit_char_def byte_def)

lemma show_nat_digits: "list_all is_digit (show_nat n) \<and> digits_value (show_nat n) = n"
proof (induction n rule: show_nat.induct)
  case (1 n)
  show ?case
  proof (cases "n < 10")
    case True
    then show ?thesis using digit_char_digit [of n] by (simp add: show_nat.simps [of n] digits_value_def)
  next
    case False
    then show ?thesis using 1 digit_char_digit [of "n mod 10"]
      by (subst (1 2) show_nat.simps) (simp add: digits_value_def)
  qed
qed

lemma foldl_zeros: "foldl (\<lambda>a c. 10 * a + (byte c - 48)) 0 (replicate k (CHR ''0'')) = 0"
  by (induction k) (simp_all add: byte_def)

lemma pad_digits: "list_all is_digit (pad w n) \<and> digits_value (pad w n) = n"
  using show_nat_digits [of n] foldl_zeros
  by (auto simp: pad_def Let_def digits_value_def list_all_iff is_digit_def byte_def)

text \<open>A number ends at the first character that is not a digit.\<close>

lemma pad_sep:
  assumes "pad w a @ c # s = pad w b @ c # t" and "\<not> is_digit c"
  shows "a = b \<and> s = t"
proof -
  have split: "takeWhile is_digit (pad w n @ c # u) = pad w n" "dropWhile is_digit (pad w n @ c # u) = c # u" for n u
    using pad_digits [of w n] assms(2) by (simp_all add: list_all_iff takeWhile_append2 dropWhile_append2)
  have "pad w a = pad w b" using arg_cong [OF assms(1), of "takeWhile is_digit"] by (simp only: split)
  then have "a = b" by (drule_tac arg_cong [of _ _ digits_value]) (simp only: pad_digits)
  moreover have "c # s = c # t" using arg_cong [OF assms(1), of "dropWhile is_digit"] by (simp only: split)
  ultimately show ?thesis by (simp only: list.inject)
qed

section \<open>Dates\<close>

fun month_start :: "nat list \<Rightarrow> nat \<Rightarrow> nat" where
  "month_start ls 0 = 0"
| "month_start [] (Suc m) = 0"
| "month_start (l # ls) (Suc m) = l + month_start ls m"

lemma month_day_inverse: "month_day ls m d = (m', d') \<Longrightarrow> m \<le> m' \<and> month_start ls (m' - m) + d' = d"
proof (induction ls m d arbitrary: m' d' rule: month_day.induct)
  case (2 l ls m d)
  show ?case
  proof (cases "d < l")
    case False
    with 2 have "Suc m \<le> m' \<and> month_start ls (m' - Suc m) + d' = d - l" by simp
    moreover from this have "m' - m = Suc (m' - Suc m)" by linarith
    ultimately show ?thesis using False by simp linarith
  qed (use 2 in simp)
qed simp

text \<open>The day number of a date.\<close>

definition day_of :: "nat \<times> nat \<times> nat \<Rightarrow> nat" where
  "day_of p = (case p of (y, m, d) \<Rightarrow>
     365 * (y - 1) + (y - 1) div 4 + (y - 1) div 400 - (y - 1) div 100 + month_start (month_lengths y) (m - 1) + d - 1)"

lemma year_of_day:
  fixes q c f a :: nat
  assumes "c \<le> 3" "f \<le> 24" "a \<le> 3"
  defines "y \<equiv> 400 * q + 100 * c + 4 * f + a"
  shows "365 * y + y div 4 + y div 400 - y div 100 = 146097 * q + 36524 * c + 1461 * f + 365 * a"
proof -
  have "y div 4 = 100 * q + 25 * c + f" "y div 100 = 4 * q + c" "y div 400 = q"
    using assms(1-3) unfolding y_def by linarith+
  then show ?thesis unfolding y_def by simp
qed

lemma day_of_civil_date: "day_of (civil_date n) = n"
proof -
  define q where "q = n div 146097"
  define r where "r = n mod 146097"
  define c where "c = min 3 (r div 36524)"
  define r1 where "r1 = r - c * 36524"
  define f where "f = r1 div 1461"
  define r2 where "r2 = r1 mod 1461"
  define a where "a = min 3 (r2 div 365)"
  define doy where "doy = r2 - a * 365"
  let ?y = "400 * q + 100 * c + 4 * f + a"
  obtain m d where md: "month_day (month_lengths (?y + 1)) 1 doy = (m, d)" by force
  have eq: "civil_date n = (?y + 1, m, d + 1)"
    using md by (simp add: civil_date_def Let_def q_def r_def c_def r1_def f_def r2_def a_def doy_def)
  have r: "r < 146097" by (simp add: r_def)
  have c: "c \<le> 3" "c * 36524 \<le> r" "r1 < 36525" using r by (auto simp: c_def r1_def min_def)
  have f: "f \<le> 24" using c(3) by (simp add: f_def)
  have a: "a \<le> 3" "a * 365 \<le> r2" by (auto simp: a_def min_def)
  have n: "n = 146097 * q + 36524 * c + 1461 * f + 365 * a + doy"
    using c a by (simp add: q_def r_def f_def r2_def r1_def doy_def)
  have "month_start (month_lengths (?y + 1)) (m - 1) + d = doy" using month_day_inverse [OF md] by simp
  then show ?thesis using year_of_day [OF c(1) f a(1), of q] n unfolding eq day_of_def by simp
qed

section \<open>Times\<close>

theorem format_RFC3339_same_second:
  "format_RFC3339 s = format_RFC3339 t \<longleftrightarrow> nat s div 1000000000 = nat t div 1000000000"
proof
  assume eq: "format_RFC3339 s = format_RFC3339 t"
  let ?s = "nat s div 1000000000" and ?t = "nat t div 1000000000"
  obtain y m d where s: "civil_date (?s div 86400) = (y, m, d)" by (rule prod_cases3)
  obtain y' m' d' where t: "civil_date (?t div 86400) = (y', m', d')" by (rule prod_cases3)
  have nd: "\<not> is_digit (CHR ''-'')" "\<not> is_digit (CHR ''T'')" "\<not> is_digit (CHR '':'')" "\<not> is_digit (CHR ''Z'')"
    by (simp_all add: is_digit_def byte_def)
  from eq have 1: "pad 4 y @ CHR ''-'' # pad 2 m @ CHR ''-'' # pad 2 d @ CHR ''T'' # pad 2 (?s mod 86400 div 3600) @ CHR '':''
      # pad 2 (?s mod 86400 div 60 mod 60) @ CHR '':'' # pad 2 (?s mod 86400 mod 60) @ CHR ''Z'' # []
    = pad 4 y' @ CHR ''-'' # pad 2 m' @ CHR ''-'' # pad 2 d' @ CHR ''T'' # pad 2 (?t mod 86400 div 3600) @ CHR '':''
      # pad 2 (?t mod 86400 div 60 mod 60) @ CHR '':'' # pad 2 (?t mod 86400 mod 60) @ CHR ''Z'' # []"
    unfolding format_RFC3339_def Let_def s t by simp
  note 2 = pad_sep [OF 1 nd(1)]
  note 3 = pad_sep [OF 2 [THEN conjunct2] nd(1)]
  note 4 = pad_sep [OF 3 [THEN conjunct2] nd(2)]
  note 5 = pad_sep [OF 4 [THEN conjunct2] nd(3)]
  note 6 = pad_sep [OF 5 [THEN conjunct2] nd(3)]
  note 7 = pad_sep [OF 6 [THEN conjunct2] nd(4)]
  from 2 3 4 s t have "?s div 86400 = ?t div 86400" using day_of_civil_date by metis
  moreover have "?s mod 86400 = ?t mod 86400"
  proof -
    have sod: "x = 3600 * (x div 3600) + 60 * (x div 60 mod 60) + x mod 60" for x :: nat
      using mod_mult2_eq [of x 60 60] mult_div_mod_eq [of 3600 x] by simp
    show ?thesis by (subst sod, subst (3) sod) (simp only: 5 6 7)
  qed
  ultimately show "?s = ?t" by (metis div_mult_mod_eq)
qed (simp add: format_RFC3339_def)

end
