(* ===== verification/Scheduled_Runs.thy ===== *)
theory Scheduled_Runs
  imports Run_Lifecycle Time_Text
begin

text \<open>
  \<open>stack/personal/proactive.go\<close>: scheduled runs. The in-memory store, periodic triggers, firing and watching
  triggers and workflows, and the executors of runs as machines whose steps are their store calls.
\<close>

section \<open>Records\<close>

type_synonym scheduled_status = string

abbreviation ScheduledRunQueued :: scheduled_status where "ScheduledRunQueued \<equiv> ''queued''"
abbreviation ScheduledRunRunning :: scheduled_status where "ScheduledRunRunning \<equiv> ''running''"
abbreviation ScheduledRunSucceeded :: scheduled_status where "ScheduledRunSucceeded \<equiv> ''succeeded''"
abbreviation ScheduledRunFailed :: scheduled_status where "ScheduledRunFailed \<equiv> ''failed''"

definition ErrScheduledRunStoreRequired :: err where
  "ErrScheduledRunStoreRequired = EText ''personal stack: scheduled run store is required''"
definition ErrScheduledWorkflowRegistryRequired :: err where
  "ErrScheduledWorkflowRegistryRequired = EText ''personal stack: scheduled workflow registry is required''"
definition ErrScheduledWorkflowNotFound :: err where
  "ErrScheduledWorkflowNotFound = EText ''personal stack: scheduled workflow not found''"
definition ErrScheduledRunNotFound :: err where
  "ErrScheduledRunNotFound = EText ''personal stack: scheduled run not found''"

record scheduled_run =
  sr_id :: string
  sr_trigger :: string
  sr_occurrence :: gotime
  sr_prompt :: string
  sr_status :: scheduled_status
  sr_session :: string
  sr_result :: string
  sr_error :: string
  sr_created :: gotime
  sr_started :: gotime
  sr_completed :: gotime
  sr_updated :: gotime

definition scheduled_Terminal :: "scheduled_status \<Rightarrow> bool" where
  "scheduled_Terminal s \<longleftrightarrow> s = ScheduledRunSucceeded \<or> s = ScheduledRunFailed"

record scheduled_request =
  sq_id :: string
  sq_trigger :: string
  sq_occurrence :: gotime
  sq_prompt :: string

record scheduled_update =
  su_id :: string
  su_status :: scheduled_status
  su_session :: string
  su_result :: "string option"
  su_error :: "string option"
  su_completed :: "gotime option"

section \<open>The in-memory store\<close>

record scheduled_store =
  ss_runs :: "(string, scheduled_run) gomap"

definition NewMemoryScheduledRunStore :: scheduled_store where
  "NewMemoryScheduledRunStore = \<lparr>ss_runs = []\<rparr>"

definition nil_scheduled_store :: err where
  "nil_scheduled_store = EText ''memory scheduled run store is nil''"

text \<open>The flag says whether the call created the record.\<close>

definition CreateScheduledRun ::
  "gotime \<Rightarrow> scheduled_request \<Rightarrow> scheduled_store option \<Rightarrow> err + scheduled_run \<times> bool \<times> scheduled_store" where
  "CreateScheduledRun now q st =
     (case st of
        None \<Rightarrow> Inl nil_scheduled_store
      | Some s \<Rightarrow>
          (if trim_space (sq_id q) = [] then Inl (EText ''scheduled run id is required'')
           else if trim_space (sq_trigger q) = [] then Inl (EText ''scheduled trigger name is required'')
           else if trim_space (sq_prompt q) = [] then Inl (EText ''scheduled prompt is required'')
           else let i = trim_space (sq_id q);
                    r = \<lparr>sr_id = i, sr_trigger = trim_space (sq_trigger q), sr_occurrence = sq_occurrence q, sr_prompt = sq_prompt q,
                         sr_status = ScheduledRunQueued, sr_session = [], sr_result = [], sr_error = [], sr_created = now,
                         sr_started = 0, sr_completed = 0, sr_updated = now\<rparr>
                in case map_of (ss_runs s) i of
                     Some old \<Rightarrow> Inr (old, False, s)
                   | None \<Rightarrow> Inr (r, True, s\<lparr>ss_runs := AList.update i r (ss_runs s)\<rparr>)))"

definition apply_scheduled_update :: "gotime \<Rightarrow> scheduled_update \<Rightarrow> scheduled_run \<Rightarrow> scheduled_run" where
  "apply_scheduled_update now u r =
     r\<lparr>sr_status := (if su_status u \<noteq> [] then su_status u else sr_status r),
       sr_started := (if su_status u = ScheduledRunRunning \<and> time_is_zero (sr_started r) then now else sr_started r),
       sr_session := (if su_session u \<noteq> [] then su_session u else sr_session r),
       sr_result := (case su_result u of Some x \<Rightarrow> x | None \<Rightarrow> sr_result r),
       sr_error := (case su_error u of Some x \<Rightarrow> x | None \<Rightarrow> sr_error r),
       sr_completed := (case su_completed u of Some x \<Rightarrow> x | None \<Rightarrow> sr_completed r),
       sr_updated := now\<rparr>"

definition UpdateScheduledRun ::
  "gotime \<Rightarrow> scheduled_update \<Rightarrow> scheduled_store option \<Rightarrow> err + scheduled_run \<times> scheduled_store" where
  "UpdateScheduledRun now u st =
     (case st of
        None \<Rightarrow> Inl nil_scheduled_store
      | Some s \<Rightarrow>
          (if trim_space (su_id u) = [] then Inl (EText ''scheduled run id is required'')
           else case map_of (ss_runs s) (su_id u) of
                  None \<Rightarrow> Inl ErrScheduledRunNotFound
                | Some r \<Rightarrow>
                    (if scheduled_Terminal (sr_status r) then Inr (r, s)
                     else let r' = apply_scheduled_update now u r
                          in Inr (r', s\<lparr>ss_runs := AList.update (sr_id r') r' (ss_runs s)\<rparr>))))"

definition GetScheduledRun :: "string \<Rightarrow> scheduled_store option \<Rightarrow> err + scheduled_run" where
  "GetScheduledRun i st =
     (case st of
        None \<Rightarrow> Inl nil_scheduled_store
      | Some s \<Rightarrow> (case map_of (ss_runs s) i of None \<Rightarrow> Inl ErrScheduledRunNotFound | Some r \<Rightarrow> Inr r))"

definition stale_scheduled :: "gotime \<Rightarrow> scheduled_run \<Rightarrow> bool" where
  "stale_scheduled before r \<longleftrightarrow>
     \<not> (sr_status r \<noteq> ScheduledRunQueued \<and> sr_status r \<noteq> ScheduledRunRunning) \<and> sr_updated r < before"

definition fail_scheduled :: "gotime \<Rightarrow> string \<Rightarrow> scheduled_run \<Rightarrow> scheduled_run" where
  "fail_scheduled now reason r =
     r\<lparr>sr_status := ScheduledRunFailed, sr_error := reason, sr_completed := now, sr_updated := now\<rparr>"

definition FailStaleScheduledRuns ::
  "err option \<Rightarrow> gotime \<Rightarrow> gotime \<Rightarrow> string \<Rightarrow> scheduled_store option \<Rightarrow> err + scheduled_run list \<times> scheduled_store" where
  "FailStaleScheduledRuns ctxerr now before reason st =
     (case st of
        None \<Rightarrow> Inl nil_scheduled_store
      | Some s \<Rightarrow>
          (case ctxerr of
             Some e \<Rightarrow> Inl e
           | None \<Rightarrow>
               Inr (map (fail_scheduled now reason) (filter (stale_scheduled before) (map snd (ss_runs s))),
                    s\<lparr>ss_runs := map (\<lambda>(i, r). (i, if stale_scheduled before r then fail_scheduled now reason r else r)) (ss_runs s)\<rparr>)))"

section \<open>Triggers\<close>

record intent =
  in_id :: string
  in_trigger :: string
  in_occurrence :: gotime
  in_prompt :: string

type_synonym trigger = "gotime \<Rightarrow> intent option"

record periodic_trigger =
  pt_name :: string
  pt_prompt :: string
  pt_every :: duration
  pt_anchor :: gotime

text \<open>The slot is a quotient of two durations, so the product stays within the duration that was divided.\<close>

definition IntentAt :: "periodic_trigger \<Rightarrow> trigger" where
  "IntentAt t now =
     (let name = trim_space (pt_name t); prompt = trim_space (pt_prompt t)
      in if name = [] \<or> prompt = [] \<or> pt_every t \<le> 0 \<or> time_is_zero (pt_anchor t) \<or> now < pt_anchor t then None
         else let slot = time_sub now (pt_anchor t) div pt_every t; occurrence = pt_anchor t + slot * pt_every t
              in Some \<lparr>in_id = name @ '':'' @ format_RFC3339 occurrence, in_trigger = name, in_occurrence = occurrence, in_prompt = prompt\<rparr>)"

record workflow =
  wf_name :: string
  wf_description :: string
  wf_tags :: "string list"
  wf_trigger :: "trigger option"

definition cloneScheduledWorkflowTags :: "string list \<Rightarrow> string list" where
  "cloneScheduledWorkflowTags tags = filter (\<lambda>t. t \<noteq> []) (map trim_space tags)"

definition cloneScheduledWorkflow :: "workflow \<Rightarrow> workflow" where
  "cloneScheduledWorkflow w = w\<lparr>wf_tags := cloneScheduledWorkflowTags (wf_tags w)\<rparr>"

definition normalizeScheduledWorkflow :: "unicode \<Rightarrow> workflow \<Rightarrow> err + workflow" where
  "normalizeScheduledWorkflow U w =
     (let name = trim_space (wf_name w)
      in if name = [] then Inl (EText ''scheduled workflow name is required'')
         else if wf_trigger w = None then Inl (EText (''scheduled workflow '' @ quote U name @ '' trigger is required''))
         else Inr (w\<lparr>wf_name := name, wf_description := trim_space (wf_description w),
                     wf_tags := cloneScheduledWorkflowTags (wf_tags w)\<rparr>))"

fun normalize_workflows :: "unicode \<Rightarrow> string list \<Rightarrow> workflow list \<Rightarrow> err + workflow list" where
  "normalize_workflows U seen [] = Inr []"
| "normalize_workflows U seen (w # ws) =
     (case normalizeScheduledWorkflow U w of
        Inl e \<Rightarrow> Inl e
      | Inr w' \<Rightarrow>
          (if wf_name w' \<in> set seen then Inl (EText (''duplicate scheduled workflow '' @ quote U (wf_name w')))
           else case normalize_workflows U (wf_name w' # seen) ws of Inl e \<Rightarrow> Inl e | Inr out \<Rightarrow> Inr (w' # out)))"

definition normalizeScheduledWorkflows :: "unicode \<Rightarrow> workflow list \<Rightarrow> err + workflow list" where
  "normalizeScheduledWorkflows U ws = normalize_workflows U [] ws"

fun pick_workflows :: "unicode \<Rightarrow> workflow list \<Rightarrow> string list \<Rightarrow> string list \<Rightarrow> err + workflow list" where
  "pick_workflows U ws seen [] = Inr []"
| "pick_workflows U ws seen (n # ns) =
     (let name = trim_space n
      in if name = [] then Inl (EText ''scheduled workflow name is required'')
         else if name \<in> set seen then Inl (EText (''duplicate scheduled workflow selection '' @ quote U name))
         else case List.find (\<lambda>w. wf_name w = name) ws of
                None \<Rightarrow> Inl (EText (err_msg ErrScheduledWorkflowNotFound @ '': '' @ name))
              | Some w \<Rightarrow> (case pick_workflows U ws (name # seen) ns of Inl e \<Rightarrow> Inl e | Inr out \<Rightarrow> Inr (w # out)))"

definition selectScheduledWorkflows :: "unicode \<Rightarrow> workflow list \<Rightarrow> string list \<Rightarrow> err + workflow list" where
  "selectScheduledWorkflows U ws names =
     (case normalizeScheduledWorkflows U ws of
        Inl e \<Rightarrow> Inl e
      | Inr nws \<Rightarrow> (if names = [] then Inr nws else pick_workflows U nws [] names))"

record workflow_registry =
  wr_workflows :: "workflow list"

definition cloneScheduledWorkflows :: "workflow list \<Rightarrow> workflow list" where
  "cloneScheduledWorkflows ws = map cloneScheduledWorkflow ws"

definition NewMemoryScheduledWorkflowRegistry :: "unicode \<Rightarrow> workflow list \<Rightarrow> err + workflow_registry" where
  "NewMemoryScheduledWorkflowRegistry U ws =
     (case normalizeScheduledWorkflows U ws of Inl e \<Rightarrow> Inl e | Inr nws \<Rightarrow> Inr \<lparr>wr_workflows = nws\<rparr>)"

definition ListScheduledWorkflows :: "workflow_registry option \<Rightarrow> err + workflow list" where
  "ListScheduledWorkflows r =
     (case r of
        None \<Rightarrow> Inl (EText ''memory scheduled workflow registry is nil'')
      | Some g \<Rightarrow> Inr (cloneScheduledWorkflows (wr_workflows g)))"

section \<open>Executors\<close>

text \<open>The event \<open>observeScheduledRunState\<close> sends to the observers.\<close>

record run_state_event =
  rse_session :: string
  rse_time :: gotime
  rse_run :: string
  rse_status :: string
  rse_prompt :: string
  rse_trigger :: string
  rse_occurrence :: gotime
  rse_result :: string
  rse_error :: string

definition observeScheduledRunState :: "scheduled_run \<Rightarrow> run_state_event list" where
  "observeScheduledRunState r =
     (if sr_id r = [] \<or> sr_status r = [] then []
      else [\<lparr>rse_session = sr_session r, rse_time = sr_updated r, rse_run = sr_id r, rse_status = sr_status r,
             rse_prompt = sr_prompt r, rse_trigger = sr_trigger r, rse_occurrence = sr_occurrence r,
             rse_result = (if scheduled_Terminal (sr_status r) then sr_result r else []),
             rse_error = (if sr_status r = ScheduledRunFailed then sr_error r else [])\<rparr>])"

text \<open>
  Where \<open>executeScheduledRun\<close> is: before it marks the run running, reading the query's events (with the record, the last
  result and error), before the final read, before the final update, and returned.
\<close>

datatype executor_pc =
    ExBegin
  | ExEvents scheduled_run "query_event list" string "err option"
  | ExCheck scheduled_run string "err option"
  | ExWrite scheduled_run string "err option"
  | ExReturned

record executor =
  ex_run :: string
  ex_events :: "query_event list"
  ex_pc :: executor_pc

definition no_scheduled_update :: "string \<Rightarrow> scheduled_update" where
  "no_scheduled_update i =
     \<lparr>su_id = i, su_status = [], su_session = [], su_result = None, su_error = None, su_completed = None\<rparr>"

definition zero_scheduled :: scheduled_run where
  "zero_scheduled = \<lparr>sr_id = [], sr_trigger = [], sr_occurrence = 0, sr_prompt = [], sr_status = [], sr_session = [],
     sr_result = [], sr_error = [], sr_created = 0, sr_started = 0, sr_completed = 0, sr_updated = 0\<rparr>"

definition final_scheduled_update :: "gotime \<Rightarrow> scheduled_run \<Rightarrow> string \<Rightarrow> err option \<Rightarrow> scheduled_update" where
  "final_scheduled_update now r res e =
     (let u = (no_scheduled_update (sr_id r))\<lparr>su_completed := Some now\<rparr>
      in case e of
           Some x \<Rightarrow> u\<lparr>su_status := ScheduledRunFailed, su_error := Some (err_msg x), su_result := (if res \<noteq> [] then Some res else None)\<rparr>
         | None \<Rightarrow> u\<lparr>su_status := ScheduledRunSucceeded, su_result := Some res\<rparr>)"

definition scheduled_or_zero :: "gotime \<Rightarrow> scheduled_update \<Rightarrow> scheduled_store option \<Rightarrow> scheduled_run \<times> scheduled_store option" where
  "scheduled_or_zero now u st = (case UpdateScheduledRun now u st of Inl e \<Rightarrow> (zero_scheduled, st) | Inr (r, s') \<Rightarrow> (r, Some s'))"

definition executor_step ::
  "gotime \<Rightarrow> executor \<Rightarrow> scheduled_store option \<Rightarrow> executor \<times> scheduled_store option \<times> run_state_event list" where
  "executor_step now x st =
     (case ex_pc x of
        ExBegin \<Rightarrow>
          (case UpdateScheduledRun now ((no_scheduled_update (ex_run x))\<lparr>su_status := ScheduledRunRunning\<rparr>) st of
             Inl e \<Rightarrow> (x\<lparr>ex_pc := ExReturned\<rparr>, st, [])
           | Inr (r, s') \<Rightarrow>
               (if sr_status r \<noteq> ScheduledRunRunning then (x\<lparr>ex_pc := ExReturned\<rparr>, Some s', [])
                else (x\<lparr>ex_pc := ExEvents r (ex_events x) [] None\<rparr>, Some s', observeScheduledRunState r)))
      | ExEvents r evs res e \<Rightarrow>
          (case evs of
             [] \<Rightarrow> (x\<lparr>ex_pc := ExCheck r res e\<rparr>, st, [])
           | SessionStarted sid parent # rest \<Rightarrow>
               (case scheduled_or_zero now ((no_scheduled_update (sr_id r))\<lparr>su_session := sid\<rparr>) st of
                  (r', st') \<Rightarrow> (x\<lparr>ex_pc := ExEvents r' rest res e\<rparr>, st', []))
           | ResultEvent y # rest \<Rightarrow> (x\<lparr>ex_pc := ExEvents r rest y e\<rparr>, st, [])
           | ErrorEvent y # rest \<Rightarrow> (x\<lparr>ex_pc := ExEvents r rest res (Some y)\<rparr>, st, [])
           | OtherEvent # rest \<Rightarrow> (x\<lparr>ex_pc := ExEvents r rest res e\<rparr>, st, []))
      | ExCheck r res e \<Rightarrow>
          (case GetScheduledRun (sr_id r) st of
             Inr cur \<Rightarrow> (x\<lparr>ex_pc := (if scheduled_Terminal (sr_status cur) then ExReturned else ExWrite r res e)\<rparr>, st, [])
           | Inl _ \<Rightarrow> (x\<lparr>ex_pc := ExWrite r res e\<rparr>, st, []))
      | ExWrite r res e \<Rightarrow>
          (let u = final_scheduled_update now r res e
           in case UpdateScheduledRun now u st of
                Inl _ \<Rightarrow> (x\<lparr>ex_pc := ExReturned\<rparr>, st, [])
              | Inr (r', s') \<Rightarrow>
                  (x\<lparr>ex_pc := ExReturned\<rparr>, Some s', if sr_status r' = su_status u then observeScheduledRunState r' else []))
      | ExReturned \<Rightarrow> (x, st, []))"

section \<open>The stack\<close>

record scheduler =
  sd_store :: "scheduled_store option"
  sd_executors :: "executor list"
  sd_log :: "run_state_event list"

text \<open>\<open>query\<close> is what the agent does with a prompt: the events of the run started for an intent.\<close>

definition StartScheduledRun ::
  "gotime \<Rightarrow> (intent \<Rightarrow> query_event list) \<Rightarrow> intent \<Rightarrow> scheduler \<Rightarrow> err + scheduled_run \<times> bool \<times> scheduler" where
  "StartScheduledRun now query it d =
     (if sd_store d = None then Inl ErrScheduledRunStoreRequired
      else case CreateScheduledRun now \<lparr>sq_id = trim_space (in_id it), sq_trigger = trim_space (in_trigger it),
                  sq_occurrence = in_occurrence it, sq_prompt = trim_space (in_prompt it)\<rparr> (sd_store d) of
             Inl e \<Rightarrow> Inl e
           | Inr (r, created, s) \<Rightarrow>
               (if \<not> created then Inr (r, False, d\<lparr>sd_store := Some s\<rparr>)
                else Inr (r, True, d\<lparr>sd_store := Some s, sd_log := sd_log d @ observeScheduledRunState r,
                             sd_executors := sd_executors d @ [\<lparr>ex_run = sr_id r, ex_events = query it, ex_pc = ExBegin\<rparr>]\<rparr>)))"

record fire_result =
  fr_intent :: intent
  fr_record :: scheduled_run
  fr_created :: bool

text \<open>The results so far come back with an error.\<close>

fun fire_all ::
  "gotime \<Rightarrow> (intent \<Rightarrow> query_event list) \<Rightarrow> trigger list \<Rightarrow> scheduler \<Rightarrow> scheduler \<times> fire_result list \<times> err option" where
  "fire_all now query [] d = (d, [], None)"
| "fire_all now query (t # ts) d =
     (case t now of
        None \<Rightarrow> fire_all now query ts d
      | Some it \<Rightarrow>
          (case StartScheduledRun now query it d of
             Inl e \<Rightarrow> (d, [], Some e)
           | Inr (r, created, d') \<Rightarrow>
               (case fire_all now query ts d' of
                  (d'', rs, e) \<Rightarrow> (d'', \<lparr>fr_intent = it, fr_record = r, fr_created = created\<rparr> # rs, e))))"

definition FireScheduledTriggers ::
  "gotime \<Rightarrow> (intent \<Rightarrow> query_event list) \<Rightarrow> trigger list \<Rightarrow> scheduler \<Rightarrow> scheduler \<times> fire_result list \<times> err option" where
  "FireScheduledTriggers now query ts d =
     (if sd_store d = None then (d, [], Some ErrScheduledRunStoreRequired)
      else if ts = [] then (d, [], Some (EText ''at least one scheduled trigger is required''))
      else fire_all now query ts d)"

text \<open>A selected workflow has a trigger; the results keep the workflow they came from.\<close>

fun fire_workflows ::
  "gotime \<Rightarrow> (intent \<Rightarrow> query_event list) \<Rightarrow> workflow list \<Rightarrow> scheduler \<Rightarrow> scheduler \<times> (workflow \<times> fire_result) list \<times> err option" where
  "fire_workflows now query [] d = (d, [], None)"
| "fire_workflows now query (w # ws) d =
     (case FireScheduledTriggers now query [the (wf_trigger w)] d of
        (d', rs, Some e) \<Rightarrow> (d', map (\<lambda>r. (cloneScheduledWorkflow w, r)) rs, Some e)
      | (d', rs, None) \<Rightarrow>
          (case fire_workflows now query ws d' of
             (d'', out, e) \<Rightarrow> (d'', map (\<lambda>r. (cloneScheduledWorkflow w, r)) rs @ out, e)))"

text \<open>\<open>listed\<close> is what the registry lists; \<open>None\<close> is the nil registry.\<close>

definition FireScheduledWorkflows ::
  "unicode \<Rightarrow> gotime \<Rightarrow> (intent \<Rightarrow> query_event list) \<Rightarrow> (err + workflow list) option \<Rightarrow> string list \<Rightarrow> scheduler
   \<Rightarrow> scheduler \<times> (workflow \<times> fire_result) list \<times> err option" where
  "FireScheduledWorkflows U now query listed names d =
     (if sd_store d = None then (d, [], Some ErrScheduledRunStoreRequired)
      else case listed of
             None \<Rightarrow> (d, [], Some ErrScheduledWorkflowRegistryRequired)
           | Some (Inl e) \<Rightarrow> (d, [], Some (EWrap ''list scheduled workflows: '' e))
           | Some (Inr ws) \<Rightarrow>
               (case selectScheduledWorkflows U ws names of
                  Inl e \<Rightarrow> (d, [], Some e)
                | Inr sel \<Rightarrow>
                    (if sel = [] then (d, [], Some (EText ''at least one scheduled workflow is required''))
                     else fire_workflows now query sel d)))"

definition WatchScheduledTriggers ::
  "(intent \<Rightarrow> query_event list) \<Rightarrow> duration \<Rightarrow> trigger list \<Rightarrow> err \<Rightarrow> gotime \<Rightarrow> gotime list \<Rightarrow> scheduler \<Rightarrow> scheduler \<times> err" where
  "WatchScheduledTriggers query interval ts ended now ticks d =
     (if sd_store d = None then (d, ErrScheduledRunStoreRequired)
      else if ts = [] then (d, EText ''at least one scheduled trigger is required'')
      else if interval \<le> 0 then (d, EText ''scheduled trigger interval must be positive'')
      else watch_ticks (\<lambda>t d. case FireScheduledTriggers t query ts d of (d', rs, e) \<Rightarrow> (d', e)) ended (now # ticks) d)"

definition Scheduler_FailStale :: "err option \<Rightarrow> gotime \<Rightarrow> gotime \<Rightarrow> string \<Rightarrow> scheduler \<Rightarrow> err + int \<times> scheduler" where
  "Scheduler_FailStale ctxerr now before reason d =
     (if sd_store d = None then Inl ErrScheduledRunStoreRequired
      else case FailStaleScheduledRuns ctxerr now before reason (sd_store d) of
             Inl e \<Rightarrow> Inl (EWrap ''fail stale scheduled runs: '' e)
           | Inr (failed, s) \<Rightarrow>
               Inr (int (length failed), d\<lparr>sd_store := Some s, sd_log := sd_log d @ concat (map observeScheduledRunState failed)\<rparr>))"

definition staleScheduledRunFailureReason :: string where
  "staleScheduledRunFailureReason = ''scheduled run stale timeout''"

text \<open>A check sees the context as it is at its time.\<close>

definition WatchStaleScheduledRuns ::
  "duration \<Rightarrow> duration \<Rightarrow> err \<Rightarrow> gotime \<times> err option \<Rightarrow> (gotime \<times> err option) list \<Rightarrow> scheduler \<Rightarrow> scheduler \<times> err" where
  "WatchStaleScheduledRuns interval threshold ended now ticks d =
     (if sd_store d = None then (d, ErrScheduledRunStoreRequired)
      else if interval \<le> 0 then (d, EText ''stale scheduled run watch interval must be positive'')
      else if threshold \<le> 0 then (d, EText ''stale scheduled run threshold must be positive'')
      else watch_ticks (\<lambda>(t, ctxerr) d. case Scheduler_FailStale ctxerr t (t - threshold) staleScheduledRunFailureReason d of
                                Inl e \<Rightarrow> (d, Some e) | Inr (n, d') \<Rightarrow> (d', None)) ended (now # ticks) d)"

definition run_executor :: "gotime \<Rightarrow> nat \<Rightarrow> scheduler \<Rightarrow> scheduler" where
  "run_executor now k d =
     (case executor_step now (sd_executors d ! k) (sd_store d) of
        (x, st, evs) \<Rightarrow> d\<lparr>sd_executors := (sd_executors d)[k := x], sd_store := st, sd_log := sd_log d @ evs\<rparr>)"

inductive scheduled_step :: "nat option \<Rightarrow> scheduler \<Rightarrow> scheduler \<Rightarrow> bool" where
  fire: "StartScheduledRun now query it d = Inr (r, created, d') \<Longrightarrow> scheduled_step None d d'"
| execute: "k < length (sd_executors d) \<Longrightarrow> ex_pc (sd_executors d ! k) \<noteq> ExReturned \<Longrightarrow>
     scheduled_step (Some k) d (run_executor now k d)"
| reconcile: "Scheduler_FailStale ctxerr now before reason d = Inr (n, d') \<Longrightarrow> scheduled_step None d d'"

inductive scheduled_path :: "nat option list \<Rightarrow> scheduler \<Rightarrow> scheduler \<Rightarrow> bool" where
  rest: "scheduled_path [] d d"
| next_step: "scheduled_path ls d d' \<Longrightarrow> scheduled_step l d' d'' \<Longrightarrow> scheduled_path (ls @ [l]) d d''"

definition new_scheduler :: scheduler where
  "new_scheduler = \<lparr>sd_store = Some NewMemoryScheduledRunStore, sd_executors = [], sd_log = []\<rparr>"

end
