(* ===== verification/Notification_Outbox.thy ===== *)
theory Notification_Outbox
  imports Scheduled_Runs
begin

text \<open>
  \<open>stack/personal/notifications.go\<close>: the outbox of scheduled-run notifications. The records and requests, the
  in-memory store with its delivery leases, the retry backoff, drain passes as machines whose steps are their store
  calls, and the observer that mirrors scheduled runs into the outbox. Where the code reads \<open>time.Now()\<close> the
  operations take the time as \<open>clock\<close>.
\<close>

section \<open>Records\<close>

definition ErrScheduledRunNotificationStoreRequired :: err where
  "ErrScheduledRunNotificationStoreRequired = EText ''personal stack: scheduled run notification store is required''"
definition ErrScheduledRunNotificationNotFound :: err where
  "ErrScheduledRunNotificationNotFound = EText ''personal stack: scheduled run notification not found''"
definition ErrScheduledRunNotificationWorkerMismatch :: err where
  "ErrScheduledRunNotificationWorkerMismatch = EText ''personal stack: scheduled run notification worker mismatch''"
definition ErrScheduledRunNotificationNotDelivering :: err where
  "ErrScheduledRunNotificationNotDelivering = EText ''personal stack: scheduled run notification is not delivering''"
definition ErrScheduledRunNotificationDeliveryStoreRequired :: err where
  "ErrScheduledRunNotificationDeliveryStoreRequired = EText ''personal stack: scheduled run notification delivery store is required''"
definition ErrScheduledRunNotificationDeliveryHandlerRequired :: err where
  "ErrScheduledRunNotificationDeliveryHandlerRequired = EText ''personal stack: scheduled run notification delivery handler is required''"
definition ErrScheduledRunNotificationDeliveryWorkerIDRequired :: err where
  "ErrScheduledRunNotificationDeliveryWorkerIDRequired = EText ''personal stack: scheduled run notification delivery worker id is required''"
definition ErrScheduledRunNotificationWatchIntervalRequired :: err where
  "ErrScheduledRunNotificationWatchIntervalRequired = EText ''personal stack: scheduled run notification watch interval must be positive''"
definition ErrScheduledRunNotificationDeadLetterStoreRequired :: err where
  "ErrScheduledRunNotificationDeadLetterStoreRequired =
     EText ''personal stack: scheduled run notification store must implement ScheduledRunNotificationDeadLetterStore''"
definition ErrScheduledRunNotificationNotRecoverable :: err where
  "ErrScheduledRunNotificationNotRecoverable = EText ''personal stack: scheduled run notification is not recoverable''"

definition DefaultScheduledRunNotificationLeaseDuration :: duration where
  "DefaultScheduledRunNotificationLeaseDuration = 5 * 60 * 1000000000"

type_synonym notification_policy = string

abbreviation ScheduledRunNotifyDoneOnly :: notification_policy where "ScheduledRunNotifyDoneOnly \<equiv> ''done_only''"
abbreviation ScheduledRunNotifyStateChanges :: notification_policy where "ScheduledRunNotifyStateChanges \<equiv> ''state_changes''"
abbreviation ScheduledRunNotifySilent :: notification_policy where "ScheduledRunNotifySilent \<equiv> ''silent''"

type_synonym delivery_status = string

abbreviation DeliveryPending :: delivery_status where "DeliveryPending \<equiv> ''pending''"
abbreviation DeliveryDelivering :: delivery_status where "DeliveryDelivering \<equiv> ''delivering''"
abbreviation DeliveryDelivered :: delivery_status where "DeliveryDelivered \<equiv> ''delivered''"
abbreviation DeliveryFailed :: delivery_status where "DeliveryFailed \<equiv> ''failed''"
abbreviation DeliveryDeadLettered :: delivery_status where "DeliveryDeadLettered \<equiv> ''dead_lettered''"

record notification =
  nt_id :: string
  nt_run :: string
  nt_status :: scheduled_status
  nt_trigger :: string
  nt_occurrence :: gotime
  nt_prompt :: string
  nt_result :: string
  nt_error :: string
  nt_created :: gotime
  nt_delivery :: delivery_status
  nt_worker :: string
  nt_attempts :: int
  nt_delivery_error :: string
  nt_after :: gotime
  nt_delivered_at :: gotime
  nt_updated :: gotime

definition zero_notification :: notification where
  "zero_notification = \<lparr>nt_id = [], nt_run = [], nt_status = [], nt_trigger = [], nt_occurrence = 0, nt_prompt = [], nt_result = [],
     nt_error = [], nt_created = 0, nt_delivery = [], nt_worker = [], nt_attempts = 0, nt_delivery_error = [], nt_after = 0,
     nt_delivered_at = 0, nt_updated = 0\<rparr>"

definition scheduledRunStatusKnown :: "scheduled_status \<Rightarrow> bool" where
  "scheduledRunStatusKnown s \<longleftrightarrow>
     s = ScheduledRunQueued \<or> s = ScheduledRunRunning \<or> s = ScheduledRunSucceeded \<or> s = ScheduledRunFailed"

definition deliveryStatusKnown :: "delivery_status \<Rightarrow> bool" where
  "deliveryStatusKnown s \<longleftrightarrow> s = DeliveryPending \<or> s = DeliveryDelivering \<or> s = DeliveryDelivered \<or> s = DeliveryFailed
     \<or> s = DeliveryDeadLettered"

definition deliveryClaimableAt :: "gotime \<Rightarrow> notification \<Rightarrow> bool" where
  "deliveryClaimableAt now n \<longleftrightarrow>
     deliveryStatusKnown (nt_delivery n) \<and> nt_delivery n \<noteq> DeliveryDelivered \<and> nt_delivery n \<noteq> DeliveryDeadLettered
     \<and> (time_is_zero (nt_after n) \<or> \<not> now < nt_after n)"

definition ensureDeliveryWorker :: "string \<Rightarrow> notification \<Rightarrow> err option" where
  "ensureDeliveryWorker w n =
     (if nt_delivery n \<noteq> DeliveryDelivering then Some ErrScheduledRunNotificationNotDelivering
      else if nt_worker n \<noteq> [] \<and> nt_worker n \<noteq> w then Some ErrScheduledRunNotificationWorkerMismatch
      else None)"

section \<open>Requests\<close>

definition or_clock :: "gotime \<Rightarrow> gotime \<Rightarrow> gotime" where
  "or_clock clock t = (if time_is_zero t then clock else t)"

record create_notification =
  cn_id :: string
  cn_run :: string
  cn_status :: scheduled_status
  cn_trigger :: string
  cn_occurrence :: gotime
  cn_prompt :: string
  cn_result :: string
  cn_error :: string
  cn_created :: gotime

definition id_required :: err where "id_required = EText ''scheduled run notification id is required''"
definition worker_required :: err where "worker_required = EText ''scheduled run notification delivery worker id is required''"
definition error_required :: err where "error_required = EText ''scheduled run notification delivery error is required''"

definition Normalize :: "unicode \<Rightarrow> gotime \<Rightarrow> create_notification \<Rightarrow> err + notification" where
  "Normalize U clock q =
     (if trim_space (cn_id q) = [] then Inl id_required
      else if trim_space (cn_run q) = [] then Inl (EText ''scheduled run notification run id is required'')
      else if \<not> scheduledRunStatusKnown (cn_status q)
      then Inl (EText (''scheduled run notification status '' @ quote U (cn_status q) @ '' is invalid''))
      else if trim_space (cn_trigger q) = [] then Inl (EText ''scheduled run notification trigger name is required'')
      else let created = or_clock clock (cn_created q)
           in Inr \<lparr>nt_id = trim_space (cn_id q), nt_run = trim_space (cn_run q), nt_status = cn_status q,
                   nt_trigger = trim_space (cn_trigger q), nt_occurrence = cn_occurrence q, nt_prompt = cn_prompt q,
                   nt_result = cn_result q, nt_error = cn_error q, nt_created = created, nt_delivery = DeliveryPending,
                   nt_worker = [], nt_attempts = 0, nt_delivery_error = [], nt_after = created, nt_delivered_at = 0,
                   nt_updated = or_clock created (cn_created q)\<rparr>)"

record claim_request =
  cr_worker :: string
  cr_limit :: int
  cr_now :: gotime
  cr_lease :: duration

definition normalize_claim :: "gotime \<Rightarrow> claim_request \<Rightarrow> err + claim_request" where
  "normalize_claim clock q =
     (if trim_space (cr_worker q) = [] then Inl worker_required
      else Inr \<lparr>cr_worker = trim_space (cr_worker q), cr_limit = (if cr_limit q \<le> 0 then 1 else cr_limit q),
                cr_now = or_clock clock (cr_now q),
                cr_lease = (if cr_lease q \<le> 0 then DefaultScheduledRunNotificationLeaseDuration else cr_lease q)\<rparr>)"

record delivered_request =
  dq_id :: string
  dq_worker :: string
  dq_at :: gotime

definition normalize_delivered :: "gotime \<Rightarrow> delivered_request \<Rightarrow> err + delivered_request" where
  "normalize_delivered clock q =
     (if trim_space (dq_id q) = [] then Inl id_required
      else if trim_space (dq_worker q) = [] then Inl worker_required
      else Inr \<lparr>dq_id = trim_space (dq_id q), dq_worker = trim_space (dq_worker q), dq_at = or_clock clock (dq_at q)\<rparr>)"

record failed_request =
  fq_id :: string
  fq_worker :: string
  fq_error :: string
  fq_retry :: gotime
  fq_at :: gotime

text \<open>The two times default to two readings of the clock.\<close>

definition normalize_failed :: "gotime \<Rightarrow> gotime \<Rightarrow> failed_request \<Rightarrow> err + failed_request" where
  "normalize_failed clock clock' q =
     (if trim_space (fq_id q) = [] then Inl id_required
      else if trim_space (fq_worker q) = [] then Inl worker_required
      else if trim_space (fq_error q) = [] then Inl error_required
      else Inr \<lparr>fq_id = trim_space (fq_id q), fq_worker = trim_space (fq_worker q), fq_error = trim_space (fq_error q),
                fq_retry = or_clock clock (fq_retry q), fq_at = or_clock clock' (fq_at q)\<rparr>)"

record dead_request =
  xq_id :: string
  xq_worker :: string
  xq_error :: string
  xq_at :: gotime

definition normalize_dead :: "gotime \<Rightarrow> dead_request \<Rightarrow> err + dead_request" where
  "normalize_dead clock q =
     (if trim_space (xq_id q) = [] then Inl id_required
      else if trim_space (xq_worker q) = [] then Inl worker_required
      else if trim_space (xq_error q) = [] then Inl error_required
      else Inr \<lparr>xq_id = trim_space (xq_id q), xq_worker = trim_space (xq_worker q), xq_error = trim_space (xq_error q),
                xq_at = or_clock clock (xq_at q)\<rparr>)"

record requeue_request =
  rq_id :: string
  rq_after :: gotime
  rq_at :: gotime

definition normalize_requeue :: "gotime \<Rightarrow> requeue_request \<Rightarrow> err + requeue_request" where
  "normalize_requeue clock q =
     (if trim_space (rq_id q) = [] then Inl id_required
      else let requeued = or_clock clock (rq_at q)
           in Inr \<lparr>rq_id = trim_space (rq_id q), rq_after = or_clock requeued (rq_after q), rq_at = requeued\<rparr>)"

section \<open>Delivery events\<close>

record delivery_event =
  de_kind :: string
  de_id :: string
  de_run :: string
  de_status :: string
  de_trigger :: string
  de_occurrence :: gotime
  de_delivery :: string
  de_worker :: string
  de_attempts :: int
  de_error :: string
  de_after :: gotime
  de_delivered_at :: gotime
  de_updated :: gotime

definition ScheduledRunNotificationDeliveryEvent :: "string \<Rightarrow> notification \<Rightarrow> delivery_event" where
  "ScheduledRunNotificationDeliveryEvent kind n =
     \<lparr>de_kind = kind, de_id = nt_id n, de_run = nt_run n, de_status = nt_status n, de_trigger = nt_trigger n,
      de_occurrence = nt_occurrence n, de_delivery = nt_delivery n, de_worker = nt_worker n, de_attempts = nt_attempts n,
      de_error = nt_delivery_error n, de_after = nt_after n, de_delivered_at = nt_delivered_at n, de_updated = nt_updated n\<rparr>"

section \<open>The in-memory store\<close>

text \<open>The records by id, the ids in the order of their creation. The operations return the events they emit.\<close>

record outbox =
  ob_byid :: "(string, notification) gomap"
  ob_ids :: "string list"

definition NewMemoryScheduledRunNotificationStore :: outbox where
  "NewMemoryScheduledRunNotificationStore = \<lparr>ob_byid = [], ob_ids = []\<rparr>"

definition nil_outbox :: err where
  "nil_outbox = EText ''memory scheduled run notification store is nil''"

definition at_id :: "outbox \<Rightarrow> string \<Rightarrow> notification" where
  "at_id b i = (case map_of (ob_byid b) i of Some n \<Rightarrow> n | None \<Rightarrow> zero_notification)"

definition put_notification :: "notification \<Rightarrow> outbox \<Rightarrow> outbox" where
  "put_notification n b = b\<lparr>ob_byid := AList.update (nt_id n) n (ob_byid b)\<rparr>"

definition CreateScheduledRunNotification ::
  "unicode \<Rightarrow> err option \<Rightarrow> gotime \<Rightarrow> create_notification \<Rightarrow> outbox option \<Rightarrow> err + notification \<times> bool \<times> outbox" where
  "CreateScheduledRunNotification U ctxerr clock q st =
     (case st of
        None \<Rightarrow> Inl nil_outbox
      | Some b \<Rightarrow>
          (case ctxerr of
             Some e \<Rightarrow> Inl e
           | None \<Rightarrow>
               (case Normalize U clock q of
                  Inl e \<Rightarrow> Inl e
                | Inr n \<Rightarrow>
                    (case map_of (ob_byid b) (nt_id n) of
                       Some old \<Rightarrow> Inr (old, False, b)
                     | None \<Rightarrow> Inr (n, True, (put_notification n b)\<lparr>ob_ids := ob_ids b @ [nt_id n]\<rparr>)))))"

record notification_filter =
  nf_run :: string
  nf_status :: scheduled_status
  nf_delivery :: delivery_status
  nf_limit :: int

definition filter_matches :: "notification_filter \<Rightarrow> notification \<Rightarrow> bool" where
  "filter_matches f n \<longleftrightarrow>
     \<not> (nf_run f \<noteq> [] \<and> nt_run n \<noteq> nf_run f) \<and> \<not> (nf_status f \<noteq> [] \<and> nt_status n \<noteq> nf_status f)
     \<and> \<not> (nf_delivery f \<noteq> [] \<and> nt_delivery n \<noteq> nf_delivery f)"

text \<open>The loop over the ids: \<open>out\<close> is what it has collected.\<close>

fun list_loop :: "notification_filter \<Rightarrow> notification list \<Rightarrow> notification list \<Rightarrow> notification list" where
  "list_loop f out [] = out"
| "list_loop f out (n # ns) =
     (if \<not> filter_matches f n then list_loop f out ns
      else let out' = out @ [n]
           in if 0 < nf_limit f \<and> nf_limit f \<le> int (length out') then out' else list_loop f out' ns)"

definition ListScheduledRunNotifications :: "err option \<Rightarrow> notification_filter \<Rightarrow> outbox option \<Rightarrow> err + notification list" where
  "ListScheduledRunNotifications ctxerr f st =
     (case st of
        None \<Rightarrow> Inl nil_outbox
      | Some b \<Rightarrow> (case ctxerr of Some e \<Rightarrow> Inl e | None \<Rightarrow> Inr (list_loop f [] (map (at_id b) (ob_ids b)))))"

definition claim_before :: "notification \<Rightarrow> notification \<Rightarrow> bool" where
  "claim_before x y =
     (if nt_after x \<noteq> nt_after y then nt_after x < nt_after y
      else if nt_created x \<noteq> nt_created y then nt_created x < nt_created y
      else str_less (nt_id x) (nt_id y))"

definition lease_notification :: "claim_request \<Rightarrow> notification \<Rightarrow> notification" where
  "lease_notification c n =
     n\<lparr>nt_delivery := DeliveryDelivering, nt_worker := cr_worker c, nt_attempts := i64 (nt_attempts n + 1), nt_delivery_error := [],
       nt_after := cr_now c + cr_lease c, nt_updated := cr_now c\<rparr>"

definition claim_candidates :: "gotime \<Rightarrow> outbox \<Rightarrow> notification list" where
  "claim_candidates now b = stable_sort claim_before (filter (deliveryClaimableAt now) (map (at_id b) (ob_ids b)))"

definition ClaimScheduledRunNotifications ::
  "err option \<Rightarrow> gotime \<Rightarrow> claim_request \<Rightarrow> outbox option \<Rightarrow> err + notification list \<times> outbox \<times> delivery_event list" where
  "ClaimScheduledRunNotifications ctxerr clock q st =
     (case st of
        None \<Rightarrow> Inl nil_outbox
      | Some b \<Rightarrow>
          (case ctxerr of
             Some e \<Rightarrow> Inl e
           | None \<Rightarrow>
               (case normalize_claim clock q of
                  Inl e \<Rightarrow> Inl e
                | Inr c \<Rightarrow>
                    (let claimed = map (lease_notification c) (take (nat (cr_limit c)) (claim_candidates (cr_now c) b))
                     in Inr (claimed, fold put_notification claimed b,
                             map (ScheduledRunNotificationDeliveryEvent ''scheduled_run_notification_claimed'') claimed)))))"

definition MarkScheduledRunNotificationDelivered ::
  "err option \<Rightarrow> gotime \<Rightarrow> delivered_request \<Rightarrow> outbox option \<Rightarrow> err + notification \<times> outbox \<times> delivery_event list" where
  "MarkScheduledRunNotificationDelivered ctxerr clock q st =
     (case st of
        None \<Rightarrow> Inl nil_outbox
      | Some b \<Rightarrow>
          (case ctxerr of
             Some e \<Rightarrow> Inl e
           | None \<Rightarrow>
               (case normalize_delivered clock q of
                  Inl e \<Rightarrow> Inl e
                | Inr u \<Rightarrow>
                    (case map_of (ob_byid b) (dq_id u) of
                       None \<Rightarrow> Inl ErrScheduledRunNotificationNotFound
                     | Some n \<Rightarrow>
                         (if nt_delivery n = DeliveryDelivered
                          then if nt_worker n = dq_worker u then Inr (n, b, []) else Inl ErrScheduledRunNotificationWorkerMismatch
                          else case ensureDeliveryWorker (dq_worker u) n of
                                 Some e \<Rightarrow> Inl e
                               | None \<Rightarrow>
                                   (let n' = n\<lparr>nt_delivery := DeliveryDelivered, nt_worker := dq_worker u, nt_delivery_error := [],
                                               nt_delivered_at := dq_at u, nt_after := dq_at u, nt_updated := dq_at u\<rparr>
                                    in Inr (n', put_notification n' b,
                                            [ScheduledRunNotificationDeliveryEvent ''scheduled_run_notification_delivered'' n'])))))))"

definition MarkScheduledRunNotificationFailed ::
  "err option \<Rightarrow> gotime \<Rightarrow> gotime \<Rightarrow> failed_request \<Rightarrow> outbox option \<Rightarrow> err + notification \<times> outbox \<times> delivery_event list" where
  "MarkScheduledRunNotificationFailed ctxerr clock clock' q st =
     (case st of
        None \<Rightarrow> Inl nil_outbox
      | Some b \<Rightarrow>
          (case ctxerr of
             Some e \<Rightarrow> Inl e
           | None \<Rightarrow>
               (case normalize_failed clock clock' q of
                  Inl e \<Rightarrow> Inl e
                | Inr u \<Rightarrow>
                    (case map_of (ob_byid b) (fq_id u) of
                       None \<Rightarrow> Inl ErrScheduledRunNotificationNotFound
                     | Some n \<Rightarrow>
                         (case ensureDeliveryWorker (fq_worker u) n of
                            Some e \<Rightarrow> Inl e
                          | None \<Rightarrow>
                              (let n' = n\<lparr>nt_delivery := DeliveryFailed, nt_worker := [], nt_delivery_error := fq_error u,
                                          nt_after := fq_retry u, nt_updated := fq_at u\<rparr>
                               in Inr (n', put_notification n' b,
                                       [ScheduledRunNotificationDeliveryEvent ''scheduled_run_notification_failed'' n'])))))))"

definition MarkScheduledRunNotificationDeadLettered ::
  "err option \<Rightarrow> gotime \<Rightarrow> dead_request \<Rightarrow> outbox option \<Rightarrow> err + notification \<times> outbox \<times> delivery_event list" where
  "MarkScheduledRunNotificationDeadLettered ctxerr clock q st =
     (case st of
        None \<Rightarrow> Inl nil_outbox
      | Some b \<Rightarrow>
          (case ctxerr of
             Some e \<Rightarrow> Inl e
           | None \<Rightarrow>
               (case normalize_dead clock q of
                  Inl e \<Rightarrow> Inl e
                | Inr u \<Rightarrow>
                    (case map_of (ob_byid b) (xq_id u) of
                       None \<Rightarrow> Inl ErrScheduledRunNotificationNotFound
                     | Some n \<Rightarrow>
                         (case ensureDeliveryWorker (xq_worker u) n of
                            Some e \<Rightarrow> Inl e
                          | None \<Rightarrow>
                              (let n' = n\<lparr>nt_delivery := DeliveryDeadLettered, nt_worker := [], nt_delivery_error := xq_error u,
                                          nt_after := xq_at u, nt_updated := xq_at u\<rparr>
                               in Inr (n', put_notification n' b,
                                       [ScheduledRunNotificationDeliveryEvent ''scheduled_run_notification_dead_lettered'' n'])))))))"

definition RequeueScheduledRunNotification ::
  "err option \<Rightarrow> gotime \<Rightarrow> requeue_request \<Rightarrow> outbox option \<Rightarrow> err + notification \<times> outbox \<times> delivery_event list" where
  "RequeueScheduledRunNotification ctxerr clock q st =
     (case st of
        None \<Rightarrow> Inl nil_outbox
      | Some b \<Rightarrow>
          (case ctxerr of
             Some e \<Rightarrow> Inl e
           | None \<Rightarrow>
               (case normalize_requeue clock q of
                  Inl e \<Rightarrow> Inl e
                | Inr u \<Rightarrow>
                    (case map_of (ob_byid b) (rq_id u) of
                       None \<Rightarrow> Inl ErrScheduledRunNotificationNotFound
                     | Some n \<Rightarrow>
                         (if nt_delivery n \<noteq> DeliveryFailed \<and> nt_delivery n \<noteq> DeliveryDeadLettered
                          then Inl ErrScheduledRunNotificationNotRecoverable
                          else let n' = n\<lparr>nt_delivery := DeliveryPending, nt_worker := [], nt_delivery_error := [],
                                          nt_after := rq_after u, nt_updated := rq_at u\<rparr>
                               in Inr (n', put_notification n' b,
                                       [ScheduledRunNotificationDeliveryEvent ''scheduled_run_notification_requeued'' n']))))))"

section \<open>Statistics\<close>

record notification_stats =
  ns_total :: int
  ns_pending :: int
  ns_delivering :: int
  ns_delivered :: int
  ns_failed :: int
  ns_dead :: int
  ns_claimable :: int
  ns_leased :: int
  ns_attempts :: int
  ns_oldest :: gotime
  ns_oldest_age :: duration
  ns_next :: gotime

definition zero_stats :: notification_stats where
  "zero_stats = \<lparr>ns_total = 0, ns_pending = 0, ns_delivering = 0, ns_delivered = 0, ns_failed = 0, ns_dead = 0, ns_claimable = 0,
     ns_leased = 0, ns_attempts = 0, ns_oldest = 0, ns_oldest_age = 0, ns_next = 0\<rparr>"

text \<open>The body of the loop: the total and the attempts, the count of the status, then the four conditions in order.\<close>

definition stats_status :: "notification \<Rightarrow> notification_stats \<Rightarrow> notification_stats" where
  "stats_status n s =
     (if nt_delivery n = DeliveryPending then s\<lparr>ns_pending := i64 (ns_pending s + 1)\<rparr>
      else if nt_delivery n = DeliveryDelivering then s\<lparr>ns_delivering := i64 (ns_delivering s + 1)\<rparr>
      else if nt_delivery n = DeliveryDelivered then s\<lparr>ns_delivered := i64 (ns_delivered s + 1)\<rparr>
      else if nt_delivery n = DeliveryFailed then s\<lparr>ns_failed := i64 (ns_failed s + 1)\<rparr>
      else if nt_delivery n = DeliveryDeadLettered then s\<lparr>ns_dead := i64 (ns_dead s + 1)\<rparr>
      else s)"

definition stats_step :: "gotime \<Rightarrow> notification \<Rightarrow> notification_stats \<Rightarrow> notification_stats" where
  "stats_step now n s =
     (let s1 = stats_status n (s\<lparr>ns_total := i64 (ns_total s + 1), ns_attempts := i64 (ns_attempts s + nt_attempts n)\<rparr>);
          s2 = (if deliveryClaimableAt now n then s1\<lparr>ns_claimable := i64 (ns_claimable s1 + 1)\<rparr> else s1);
          s3 = (if (nt_delivery n = DeliveryPending \<or> nt_delivery n = DeliveryFailed \<or> nt_delivery n = DeliveryDelivering)
                    \<and> (time_is_zero (ns_next s2) \<or> nt_after n < ns_next s2)
                then s2\<lparr>ns_next := nt_after n\<rparr> else s2);
          s4 = (if nt_delivery n = DeliveryDelivering \<and> now < nt_after n then s3\<lparr>ns_leased := i64 (ns_leased s3 + 1)\<rparr> else s3)
      in if nt_delivery n \<noteq> DeliveryDelivered \<and> nt_delivery n \<noteq> DeliveryDeadLettered
             \<and> (time_is_zero (ns_oldest s4) \<or> nt_created n < ns_oldest s4)
         then s4\<lparr>ns_oldest := nt_created n\<rparr> else s4)"

definition scheduledRunNotificationStatsFromRecords :: "gotime \<Rightarrow> notification list \<Rightarrow> gotime \<Rightarrow> notification_stats" where
  "scheduledRunNotificationStatsFromRecords clock ns now0 =
     (let now = or_clock clock now0; s = fold (stats_step now) ns zero_stats
      in if \<not> time_is_zero (ns_oldest s) \<and> ns_oldest s < now then s\<lparr>ns_oldest_age := time_sub now (ns_oldest s)\<rparr> else s)"

definition ScheduledRunNotificationStats :: "err option \<Rightarrow> gotime \<Rightarrow> gotime \<Rightarrow> outbox option \<Rightarrow> err + notification_stats" where
  "ScheduledRunNotificationStats ctxerr clock now st =
     (case st of
        None \<Rightarrow> Inl nil_outbox
      | Some b \<Rightarrow>
          (case ctxerr of
             Some e \<Rightarrow> Inl e
           | None \<Rightarrow> Inr (scheduledRunNotificationStatsFromRecords clock (map (at_id b) (ob_ids b)) (or_clock clock now))))"

text \<open>A store without its own statistics (\<open>native\<close> is false) is listed in full.\<close>

definition GetScheduledRunNotificationStats ::
  "bool \<Rightarrow> err option \<Rightarrow> gotime \<Rightarrow> gotime \<Rightarrow> outbox option option \<Rightarrow> err + notification_stats" where
  "GetScheduledRunNotificationStats native ctxerr clock now store =
     (case store of
        None \<Rightarrow> Inl ErrScheduledRunNotificationStoreRequired
      | Some st \<Rightarrow>
          (let now' = or_clock clock now
           in if native then ScheduledRunNotificationStats ctxerr clock now' st
              else case ListScheduledRunNotifications ctxerr \<lparr>nf_run = [], nf_status = [], nf_delivery = [], nf_limit = 0\<rparr> st of
                     Inl e \<Rightarrow> Inl e
                   | Inr ns \<Rightarrow> Inr (scheduledRunNotificationStatsFromRecords clock ns now')))"

section \<open>Retries\<close>

definition day :: duration where
  "day = 24 * 3600 * 1000000000"

function backoff_loop :: "int \<Rightarrow> int \<Rightarrow> duration \<Rightarrow> duration" where
  "backoff_loop attempts i delay =
     (if i < attempts \<and> delay < day then backoff_loop attempts (i + 1) (i64 (delay * 2)) else delay)"
  by pat_completeness auto
termination
  by (relation "measure (\<lambda>(attempts, i, delay). nat (attempts - i))") auto

declare backoff_loop.simps [simp del]

definition DefaultScheduledRunNotificationRetryBackoff :: "notification \<Rightarrow> err \<Rightarrow> gotime \<Rightarrow> gotime" where
  "DefaultScheduledRunNotificationRetryBackoff n e now =
     (let attempts = (if nt_attempts n \<le> 0 then 1 else nt_attempts n);
          delay = backoff_loop attempts 1 (60 * 1000000000)
      in now + (if day < delay then day else delay))"

section \<open>Drain passes\<close>

record drain_config =
  dc_limit :: int
  dc_lease :: duration
  dc_now :: gotime
  dc_backoff :: "(notification \<Rightarrow> err \<Rightarrow> gotime \<Rightarrow> gotime) option"
  dc_max :: int

definition default_drain_config :: drain_config where
  "default_drain_config = \<lparr>dc_limit = 1, dc_lease = DefaultScheduledRunNotificationLeaseDuration, dc_now = 0,
     dc_backoff = Some DefaultScheduledRunNotificationRetryBackoff, dc_max = 0\<rparr>"

datatype drain_option =
    WithScheduledRunNotificationDrainLimit int
  | WithScheduledRunNotificationDrainLeaseDuration duration
  | WithScheduledRunNotificationDrainNow gotime
  | WithScheduledRunNotificationRetryBackoff "(notification \<Rightarrow> err \<Rightarrow> gotime \<Rightarrow> gotime) option"
  | WithScheduledRunNotificationMaxAttempts int

fun apply_drain_option :: "drain_option \<Rightarrow> drain_config \<Rightarrow> drain_config" where
  "apply_drain_option (WithScheduledRunNotificationDrainLimit l) c = c\<lparr>dc_limit := l\<rparr>"
| "apply_drain_option (WithScheduledRunNotificationDrainLeaseDuration d) c = c\<lparr>dc_lease := d\<rparr>"
| "apply_drain_option (WithScheduledRunNotificationDrainNow t) c = c\<lparr>dc_now := t\<rparr>"
| "apply_drain_option (WithScheduledRunNotificationRetryBackoff f) c = c\<lparr>dc_backoff := f\<rparr>"
| "apply_drain_option (WithScheduledRunNotificationMaxAttempts m) c = c\<lparr>dc_max := m\<rparr>"

definition drain_defaults :: "drain_config \<Rightarrow> drain_config" where
  "drain_defaults c =
     c\<lparr>dc_limit := (if dc_limit c \<le> 0 then 1 else dc_limit c),
       dc_lease := (if dc_lease c \<le> 0 then DefaultScheduledRunNotificationLeaseDuration else dc_lease c),
       dc_backoff := (case dc_backoff c of None \<Rightarrow> Some DefaultScheduledRunNotificationRetryBackoff | Some f \<Rightarrow> Some f)\<rparr>"

definition scheduledRunNotificationDrainNow :: "gotime \<Rightarrow> drain_config \<Rightarrow> gotime" where
  "scheduledRunNotificationDrainNow clock c = (if \<not> time_is_zero (dc_now c) then dc_now c else clock)"

definition scheduledRunNotificationDeliveryErrorText :: "err \<Rightarrow> string" where
  "scheduledRunNotificationDeliveryErrorText e =
     (let msg = trim_space (err_msg e) in if msg = [] then ''scheduled run notification delivery failed'' else msg)"

record drain_result =
  dr_claimed :: "notification list"
  dr_delivered :: "notification list"
  dr_failed :: "(notification \<times> err) list"
  dr_dead :: "(notification \<times> err) list"

text \<open>
  Where a pass is: before its claim, before the next record, after the handler's answer for a record and before its
  acknowledgement, and returned. The handler is host code: its answer comes with the step.
\<close>

datatype drain_pc =
    DrClaim
  | DrNext "notification list"
  | DrAck notification "err option" "notification list"
  | DrReturned "err option"

record drain =
  dn_worker :: string
  dn_config :: drain_config
  dn_result :: drain_result
  dn_pc :: drain_pc

definition no_result :: drain_result where
  "no_result = \<lparr>dr_claimed = [], dr_delivered = [], dr_failed = [], dr_dead = []\<rparr>"

text \<open>
  The checks before the claim. The store and the handler may be nil (the flags), and a store may lack the
  dead-letter operation.
\<close>

definition DrainScheduledRunNotifications ::
  "bool \<Rightarrow> bool \<Rightarrow> bool \<Rightarrow> string \<Rightarrow> drain_option option list \<Rightarrow> err + drain" where
  "DrainScheduledRunNotifications has_store has_handler has_dead worker opts =
     (if \<not> has_store then Inl ErrScheduledRunNotificationDeliveryStoreRequired
      else if trim_space worker = [] then Inl ErrScheduledRunNotificationDeliveryWorkerIDRequired
      else if \<not> has_handler then Inl ErrScheduledRunNotificationDeliveryHandlerRequired
      else let c = drain_defaults (fold (\<lambda>op c. case op of None \<Rightarrow> c | Some p \<Rightarrow> apply_drain_option p c) opts default_drain_config)
           in if 0 < dc_max c \<and> \<not> has_dead then Inl ErrScheduledRunNotificationDeadLetterStoreRequired
              else Inr \<lparr>dn_worker = trim_space worker, dn_config = c, dn_result = no_result, dn_pc = DrClaim\<rparr>)"

definition drain_failed :: "string \<Rightarrow> notification \<Rightarrow> err \<Rightarrow> err" where
  "drain_failed how r e = EWrap (''mark scheduled run notification '' @ nt_id r @ '' '' @ how @ '': '') e"

definition drain_retry :: "drain_config \<Rightarrow> notification \<Rightarrow> err \<Rightarrow> gotime \<Rightarrow> gotime" where
  "drain_retry c r x now =
     (let retry = (case dc_backoff c of Some f \<Rightarrow> f r x now | None \<Rightarrow> DefaultScheduledRunNotificationRetryBackoff r x now)
      in if time_is_zero retry then now else retry)"

text \<open>\<open>ctxerr\<close> is what the context says at the step, \<open>h\<close> the handler's answer.\<close>

definition drain_step ::
  "gotime \<Rightarrow> err option \<Rightarrow> err option \<Rightarrow> drain \<Rightarrow> outbox option \<Rightarrow> drain \<times> outbox option \<times> delivery_event list" where
  "drain_step clock ctxerr h d st =
     (let c = dn_config d; res = dn_result d; now = scheduledRunNotificationDrainNow clock c
      in case dn_pc d of
           DrClaim \<Rightarrow>
             (case ClaimScheduledRunNotifications ctxerr clock
                     \<lparr>cr_worker = dn_worker d, cr_limit = dc_limit c, cr_now = now, cr_lease = dc_lease c\<rparr> st of
                Inl e \<Rightarrow> (d\<lparr>dn_pc := DrReturned (Some (EWrap ''claim scheduled run notifications: '' e))\<rparr>, st, [])
              | Inr (claimed, b, evs) \<Rightarrow> (d\<lparr>dn_result := res\<lparr>dr_claimed := claimed\<rparr>, dn_pc := DrNext claimed\<rparr>, Some b, evs))
         | DrNext [] \<Rightarrow> (d\<lparr>dn_pc := DrReturned None\<rparr>, st, [])
         | DrNext (r # rs) \<Rightarrow>
             (case ctxerr of
                Some e \<Rightarrow> (d\<lparr>dn_pc := DrReturned (Some e)\<rparr>, st, [])
              | None \<Rightarrow> (d\<lparr>dn_pc := DrAck r h rs\<rparr>, st, []))
         | DrAck r None rs \<Rightarrow>
             (case MarkScheduledRunNotificationDelivered ctxerr clock \<lparr>dq_id = nt_id r, dq_worker = dn_worker d, dq_at = now\<rparr> st of
                Inl e \<Rightarrow> (d\<lparr>dn_pc := DrReturned (Some (drain_failed ''delivered'' r e))\<rparr>, st, [])
              | Inr (n, b, evs) \<Rightarrow> (d\<lparr>dn_result := res\<lparr>dr_delivered := dr_delivered res @ [n]\<rparr>, dn_pc := DrNext rs\<rparr>, Some b, evs))
         | DrAck r (Some x) rs \<Rightarrow>
             (if 0 < dc_max c \<and> dc_max c \<le> nt_attempts r
              then case MarkScheduledRunNotificationDeadLettered ctxerr clock
                          \<lparr>xq_id = nt_id r, xq_worker = dn_worker d, xq_error = scheduledRunNotificationDeliveryErrorText x, xq_at = now\<rparr> st of
                     Inl e \<Rightarrow> (d\<lparr>dn_pc := DrReturned (Some (drain_failed ''dead-lettered'' r e))\<rparr>, st, [])
                   | Inr (n, b, evs) \<Rightarrow> (d\<lparr>dn_result := res\<lparr>dr_dead := dr_dead res @ [(n, x)]\<rparr>, dn_pc := DrNext rs\<rparr>, Some b, evs)
              else case MarkScheduledRunNotificationFailed ctxerr clock clock
                          \<lparr>fq_id = nt_id r, fq_worker = dn_worker d, fq_error = scheduledRunNotificationDeliveryErrorText x,
                           fq_retry = drain_retry c r x now, fq_at = now\<rparr> st of
                     Inl e \<Rightarrow> (d\<lparr>dn_pc := DrReturned (Some (drain_failed ''failed'' r e))\<rparr>, st, [])
                   | Inr (n, b, evs) \<Rightarrow> (d\<lparr>dn_result := res\<lparr>dr_failed := dr_failed res @ [(n, x)]\<rparr>, dn_pc := DrNext rs\<rparr>, Some b, evs))
         | DrReturned e \<Rightarrow> (d, st, []))"

text \<open>A pass on its own ends: the host's clock, context and handler answer each step, \<open>env k\<close> the step \<open>k\<close>.\<close>

fun drain_pc_rank :: "int \<Rightarrow> drain_pc \<Rightarrow> nat" where
  "drain_pc_rank l DrClaim = 2 * nat (max 1 l) + 2"
| "drain_pc_rank l (DrNext rs) = 2 * length rs + 1"
| "drain_pc_rank l (DrAck r h rs) = 2 * length rs + 2"
| "drain_pc_rank l (DrReturned e) = 0"

definition drain_rank :: "drain \<Rightarrow> nat" where
  "drain_rank d = drain_pc_rank (dc_limit (dn_config d)) (dn_pc d)"

definition drain_over :: "drain \<Rightarrow> bool" where
  "drain_over d \<longleftrightarrow> (case dn_pc d of DrReturned _ \<Rightarrow> True | _ \<Rightarrow> False)"

lemma claim_length:
  assumes "ClaimScheduledRunNotifications ctxerr clock q st = Inr (claimed, b, evs)"
  shows "length claimed \<le> nat (max 1 (cr_limit q))"
  using assms
  by (auto simp: ClaimScheduledRunNotifications_def normalize_claim_def Let_def split: option.splits if_splits)

lemma drain_step_rank:
  assumes "\<not> drain_over d"
  shows "drain_rank (fst (drain_step clock ctxerr h d st)) < drain_rank d"
  using assms
  by (cases "dn_pc d")
    (auto simp: drain_step_def drain_rank_def drain_over_def Let_def dest!: claim_length
      split: list.splits option.splits sum.splits)

type_synonym drain_env = "nat \<Rightarrow> gotime \<times> err option \<times> err option"

function drain_pass :: "drain_env \<Rightarrow> nat \<Rightarrow> drain \<Rightarrow> outbox option \<Rightarrow> drain \<times> outbox option" where
  "drain_pass env k d st =
     (if drain_over d then (d, st)
      else case env k of (clock, ctxerr, h) \<Rightarrow>
             drain_pass env (Suc k) (fst (drain_step clock ctxerr h d st)) (fst (snd (drain_step clock ctxerr h d st))))"
  by pat_completeness auto
termination
  by (relation "measure (\<lambda>(env, k, d, st). drain_rank d)") (auto simp: drain_step_rank)

declare drain_pass.simps [simp del]

definition WatchScheduledRunNotifications ::
  "bool \<Rightarrow> bool \<Rightarrow> bool \<Rightarrow> string \<Rightarrow> duration \<Rightarrow> drain_option option list \<Rightarrow> err \<Rightarrow> drain_env
   \<Rightarrow> drain_env list \<Rightarrow> outbox option \<Rightarrow> outbox option \<times> err" where
  "WatchScheduledRunNotifications has_store has_handler has_dead worker interval opts ended env envs st =
     (if interval \<le> 0 then (st, ErrScheduledRunNotificationWatchIntervalRequired)
      else watch_ticks (\<lambda>env st. case DrainScheduledRunNotifications has_store has_handler has_dead worker opts of
                                   Inl e \<Rightarrow> (st, Some e)
                                 | Inr d \<Rightarrow> (case drain_pass env 0 d st of
                                              (d', st') \<Rightarrow> (st', case dn_pc d' of DrReturned e \<Rightarrow> e | _ \<Rightarrow> None)))
             ended (env # envs) st)"

section \<open>The notifier\<close>

record notifier =
  no_policy :: notification_policy

definition NewScheduledRunNotifier :: "unicode \<Rightarrow> bool \<Rightarrow> notification_policy option \<Rightarrow> err + notifier" where
  "NewScheduledRunNotifier U has_store policy =
     (if \<not> has_store then Inl ErrScheduledRunNotificationStoreRequired
      else let p = (case policy of None \<Rightarrow> ScheduledRunNotifyDoneOnly | Some p \<Rightarrow> p)
           in if p = ScheduledRunNotifyDoneOnly \<or> p = ScheduledRunNotifyStateChanges \<or> p = ScheduledRunNotifySilent
              then Inr \<lparr>no_policy = p\<rparr>
              else Inl (EText (''personal stack: unknown scheduled run notification policy '' @ quote U p)))"

definition shouldNotify :: "notifier \<Rightarrow> scheduled_status \<Rightarrow> bool" where
  "shouldNotify n s =
     (if no_policy n = ScheduledRunNotifyStateChanges then True
      else if no_policy n = ScheduledRunNotifyDoneOnly then scheduled_Terminal s else False)"

definition scheduledRunNotificationID :: "string \<Rightarrow> scheduled_status \<Rightarrow> string" where
  "scheduledRunNotificationID i s = trim_space i @ '':'' @ s"

text \<open>The events are the run-state events of the scheduler; every other kind gives no request.\<close>

definition scheduledRunNotificationFromEvent :: "gotime \<Rightarrow> run_state_event \<Rightarrow> create_notification option" where
  "scheduledRunNotificationFromEvent clock ev =
     (if trim_space (rse_run ev) = [] \<or> trim_space (rse_trigger ev) = [] then None
      else if \<not> scheduledRunStatusKnown (rse_status ev) then None
      else Some \<lparr>cn_id = scheduledRunNotificationID (rse_run ev) (rse_status ev), cn_run = trim_space (rse_run ev),
                 cn_status = rse_status ev, cn_trigger = trim_space (rse_trigger ev), cn_occurrence = rse_occurrence ev,
                 cn_prompt = rse_prompt ev, cn_result = rse_result ev, cn_error = rse_error ev,
                 cn_created = or_clock clock (rse_time ev)\<rparr>)"

text \<open>The second component is what the error handler is called with.\<close>

definition ObserveEvent ::
  "unicode \<Rightarrow> err option \<Rightarrow> gotime \<Rightarrow> notifier option \<Rightarrow> run_state_event \<Rightarrow> outbox option
   \<Rightarrow> outbox option \<times> (create_notification \<times> err) list" where
  "ObserveEvent U ctxerr clock no ev st =
     (case no of
        None \<Rightarrow> (st, [])
      | Some n \<Rightarrow>
          (if no_policy n = ScheduledRunNotifySilent then (st, [])
           else case scheduledRunNotificationFromEvent clock ev of
                  None \<Rightarrow> (st, [])
                | Some q \<Rightarrow>
                    (if \<not> shouldNotify n (cn_status q) then (st, [])
                     else case CreateScheduledRunNotification U ctxerr clock q st of
                            Inl e \<Rightarrow> (st, [(q, e)])
                          | Inr (_, _, b) \<Rightarrow> (Some b, []))))"

end
