(* ===== verification/Scheduled_Contract.thy ===== *)
theory Scheduled_Contract
  imports Scheduled_Runs Assistant_Text
begin

text \<open>
  What every interleaving of scheduled runs keeps: an occurrence is executed at most once, a finished record never
  changes again, an executor that returned leaves its run finished, and executors return.
\<close>

section \<open>The invariant\<close>

definition scheduled_ok :: "scheduled_store option \<Rightarrow> bool" where
  "scheduled_ok st \<longleftrightarrow>
     (\<exists>s. st = Some s \<and> (\<forall>i r. map_of (ss_runs s) i = Some r \<longrightarrow> sr_id r = i \<and> trim_space i \<noteq> []))"

fun ex_pc_ok :: "string \<Rightarrow> executor_pc \<Rightarrow> bool" where
  "ex_pc_ok i ExBegin = True"
| "ex_pc_ok i (ExEvents r evs res e) = (sr_id r = i)"
| "ex_pc_ok i (ExCheck r res e) = (sr_id r = i)"
| "ex_pc_ok i (ExWrite r res e) = (sr_id r = i)"
| "ex_pc_ok i ExReturned = True"

definition stored :: "scheduled_store option \<Rightarrow> string \<Rightarrow> scheduled_run option" where
  "stored st i = (case st of None \<Rightarrow> None | Some s \<Rightarrow> map_of (ss_runs s) i)"

definition executor_ok :: "scheduled_store option \<Rightarrow> executor \<Rightarrow> bool" where
  "executor_ok st x \<longleftrightarrow> ex_pc_ok (ex_run x) (ex_pc x)
     \<and> (\<exists>r. stored st (ex_run x) = Some r \<and> (ex_pc x = ExReturned \<longrightarrow> scheduled_Terminal (sr_status r)))"

definition scheduler_inv :: "scheduler \<Rightarrow> bool" where
  "scheduler_inv d \<longleftrightarrow> scheduled_ok (sd_store d) \<and> (\<forall>x \<in> set (sd_executors d). executor_ok (sd_store d) x)
     \<and> distinct (map ex_run (sd_executors d))"

text \<open>How a store may move: keys stay, finished records stay as they are.\<close>

definition stored_le :: "scheduled_store option \<Rightarrow> scheduled_store option \<Rightarrow> bool" where
  "stored_le st st' \<longleftrightarrow>
     (\<forall>i r. stored st i = Some r \<longrightarrow> (\<exists>r'. stored st' i = Some r' \<and> (scheduled_Terminal (sr_status r) \<longrightarrow> r' = r)))"

lemma stored_leD:
  "stored_le st st' \<Longrightarrow> stored st i = Some r \<Longrightarrow> \<exists>r'. stored st' i = Some r' \<and> (scheduled_Terminal (sr_status r) \<longrightarrow> r' = r)"
  by (simp add: stored_le_def)

lemma stored_le_refl [simp]: "stored_le st st"
  by (auto simp: stored_le_def)

lemma executor_ok_mono:
  assumes ok: "executor_ok st x" and le: "stored_le st st'"
  shows "executor_ok st' x"
proof -
  from ok obtain r where "stored st (ex_run x) = Some r" "ex_pc x = ExReturned \<longrightarrow> scheduled_Terminal (sr_status r)"
    by (auto simp: executor_ok_def)
  with stored_leD [OF le] show ?thesis using ok by (fastforce simp: executor_ok_def)
qed

lemma stored_put: "stored (Some (s\<lparr>ss_runs := AList.update i r (ss_runs s)\<rparr>)) j = (if j = i then Some r else stored (Some s) j)"
  by (simp add: stored_def)

section \<open>The operations\<close>

text \<open>An update of a run the store has: it succeeds, and unless the run is finished it is applied.\<close>

lemma update_stored:
  assumes ok: "scheduled_ok st" and r: "stored st (su_id u) = Some r"
  obtains r' s' where "UpdateScheduledRun now u st = Inr (r', s')" "sr_id r' = su_id u" "scheduled_ok (Some s')" "stored_le st (Some s')"
    "stored (Some s') (su_id u) = Some r'" "r' = (if scheduled_Terminal (sr_status r) then r else apply_scheduled_update now u r)"
proof -
  from ok r obtain s where s: "st = Some s" "map_of (ss_runs s) (su_id u) = Some r" "sr_id r = su_id u" "trim_space (su_id u) \<noteq> []"
    by (auto simp: scheduled_ok_def stored_def)
  let ?r = "if scheduled_Terminal (sr_status r) then r else apply_scheduled_update now u r"
  let ?s = "if scheduled_Terminal (sr_status r) then s else s\<lparr>ss_runs := AList.update (su_id u) ?r (ss_runs s)\<rparr>"
  have idr: "sr_id (apply_scheduled_update now u r) = su_id u" by (simp add: apply_scheduled_update_def s(3))
  show ?thesis
  proof (rule that)
    show "UpdateScheduledRun now u st = Inr (?r, ?s)" using s idr by (simp add: UpdateScheduledRun_def Let_def)
    show "sr_id ?r = su_id u" using s idr by simp
    show "scheduled_ok (Some ?s)" using ok s idr by (auto simp: scheduled_ok_def)
    show "stored_le st (Some ?s)" using s by (auto simp: stored_le_def stored_def)
    show "stored (Some ?s) (su_id u) = Some ?r" using s by (simp add: stored_def)
  qed (rule HOL.refl)
qed

lemma CreateScheduledRun_ok:
  assumes "CreateScheduledRun now q st = Inr (r, created, s')" and "scheduled_ok st"
  shows "scheduled_ok (Some s') \<and> stored_le st (Some s') \<and> stored (Some s') (sr_id r) = Some r \<and> sr_id r = trim_space (sq_id q)
    \<and> (created \<longleftrightarrow> stored st (sr_id r) = None) \<and> (\<not> created \<longrightarrow> st = Some s')"
  using assms
  by (auto simp: CreateScheduledRun_def Let_def scheduled_ok_def stored_def stored_le_def split: option.splits if_splits)

lemma fail_stale_ok:
  assumes "FailStaleScheduledRuns ctxerr now before reason st = Inr (rs, s')" and "scheduled_ok st"
  shows "scheduled_ok (Some s') \<and> stored_le st (Some s')"
proof -
  from assms obtain s where s: "st = Some s"
    and s': "s' = s\<lparr>ss_runs := map (\<lambda>(i, r). (i, if stale_scheduled before r then fail_scheduled now reason r else r)) (ss_runs s)\<rparr>"
    by (auto simp: FailStaleScheduledRuns_def split: option.splits)
  have "\<not> stale_scheduled before r" if "scheduled_Terminal (sr_status r)" for r
    using that by (auto simp: stale_scheduled_def scheduled_Terminal_def)
  then show ?thesis using assms(2)
    by (fastforce simp: s s' scheduled_ok_def stored_le_def stored_def map_of_map_values fail_scheduled_def)
qed

lemma no_update_simps [simp]: "su_id (no_scheduled_update i) = i" "su_status (no_scheduled_update i) = []"
  by (simp_all add: no_scheduled_update_def)

lemma final_scheduled_simps [simp]:
  "su_id (final_scheduled_update now r res e) = sr_id r" "scheduled_Terminal (su_status (final_scheduled_update now r res e))"
  by (auto simp: final_scheduled_update_def scheduled_Terminal_def Let_def split: option.splits)

lemma apply_final: "scheduled_Terminal (su_status u) \<Longrightarrow> scheduled_Terminal (sr_status (apply_scheduled_update now u r))"
  by (auto simp: apply_scheduled_update_def scheduled_Terminal_def)

lemma apply_running: "su_status u = ScheduledRunRunning \<Longrightarrow> sr_status (apply_scheduled_update now u r) = ScheduledRunRunning"
  by (simp add: apply_scheduled_update_def)

lemma executor_step_ok:
  assumes step: "executor_step now x st = (x', st', evs)" and ok: "executor_ok st x" and st: "scheduled_ok st"
  shows "executor_ok st' x' \<and> scheduled_ok st' \<and> stored_le st st' \<and> ex_run x' = ex_run x"
proof -
  from ok obtain r0 where r0: "stored st (ex_run x) = Some r0" by (auto simp: executor_ok_def)
  show ?thesis
  proof (cases "ex_pc x")
    case ExBegin
    have "stored st (su_id ((no_scheduled_update (ex_run x))\<lparr>su_status := ScheduledRunRunning\<rparr>)) = Some r0" using r0 by simp
    from update_stored [OF st this, of now] obtain r' s' where
      u: "UpdateScheduledRun now ((no_scheduled_update (ex_run x))\<lparr>su_status := ScheduledRunRunning\<rparr>) st = Inr (r', s')"
        "sr_id r' = ex_run x" "scheduled_ok (Some s')" "stored_le st (Some s')" "stored (Some s') (ex_run x) = Some r'"
        "r' = (if scheduled_Terminal (sr_status r0) then r0 else apply_scheduled_update now ((no_scheduled_update (ex_run x))\<lparr>su_status := ScheduledRunRunning\<rparr>) r0)"
      by auto
    then have "sr_status r' \<noteq> ScheduledRunRunning \<Longrightarrow> scheduled_Terminal (sr_status r')"
      by (auto simp: apply_running split: if_splits)
    with u step ExBegin show ?thesis by (auto simp: executor_step_def executor_ok_def split: if_splits)
  next
    case (ExEvents r evs' res e)
    with ok have idr: "sr_id r = ex_run x" by (simp add: executor_ok_def)
    show ?thesis
    proof (cases "\<exists>sid parent rest. evs' = SessionStarted sid parent # rest")
      case True
      then obtain sid parent rest where evs: "evs' = SessionStarted sid parent # rest" by blast
      have kn: "stored st (su_id ((no_scheduled_update (sr_id r))\<lparr>su_session := sid\<rparr>)) = Some r0" using r0 idr by simp
      obtain r' s' where
        u: "UpdateScheduledRun now ((no_scheduled_update (sr_id r))\<lparr>su_session := sid\<rparr>) st = Inr (r', s')"
          "sr_id r' = ex_run x" "scheduled_ok (Some s')" "stored_le st (Some s')" "stored (Some s') (ex_run x) = Some r'"
        by (rule update_stored [OF st kn, of now]) (use idr in simp_all)
      with step ExEvents evs show ?thesis by (auto simp: executor_step_def executor_ok_def scheduled_or_zero_def)
    next
      case False
      with step ExEvents idr r0 st show ?thesis
        by (auto simp: executor_step_def executor_ok_def split: list.splits query_event.splits)
    qed
  next
    case (ExCheck r res e)
    with ok have idr: "sr_id r = ex_run x" by (simp add: executor_ok_def)
    then have "GetScheduledRun (sr_id r) st = Inr r0" using r0 by (auto simp: GetScheduledRun_def stored_def split: option.splits)
    with step ExCheck idr r0 st show ?thesis by (auto simp: executor_step_def executor_ok_def)
  next
    case (ExWrite r res e)
    with ok have idr: "sr_id r = ex_run x" by (simp add: executor_ok_def)
    have kn: "stored st (su_id (final_scheduled_update now r res e)) = Some r0" using r0 idr by simp
    obtain r' s' where
      u: "UpdateScheduledRun now (final_scheduled_update now r res e) st = Inr (r', s')"
        "scheduled_ok (Some s')" "stored_le st (Some s')" "stored (Some s') (ex_run x) = Some r'"
        "r' = (if scheduled_Terminal (sr_status r0) then r0 else apply_scheduled_update now (final_scheduled_update now r res e) r0)"
      by (rule update_stored [OF st kn, of now]) (use idr in simp_all)
    then have "scheduled_Terminal (sr_status r')" by (simp add: apply_final)
    with u step ExWrite show ?thesis by (auto simp: executor_step_def executor_ok_def Let_def)
  next
    case ExReturned
    with step ok st show ?thesis by (simp add: executor_step_def)
  qed
qed

section \<open>Steps and paths\<close>

lemma StartScheduledRun_inv:
  assumes start: "StartScheduledRun now query it d = Inr (r, created, d')" and inv: "scheduler_inv d"
  shows "scheduler_inv d' \<and> stored_le (sd_store d) (sd_store d')"
proof -
  let ?q = "\<lparr>sq_id = trim_space (in_id it), sq_trigger = trim_space (in_trigger it), sq_occurrence = in_occurrence it,
             sq_prompt = trim_space (in_prompt it)\<rparr>"
  from start obtain s where s: "CreateScheduledRun now ?q (sd_store d) = Inr (r, created, s)"
    by (auto simp: StartScheduledRun_def split: if_splits sum.splits)
  from inv have ok: "scheduled_ok (sd_store d)" by (simp add: scheduler_inv_def)
  note c = CreateScheduledRun_ok [OF s ok]
  have fresh: "created \<Longrightarrow> sr_id r \<notin> ex_run ` set (sd_executors d)"
    using inv c by (fastforce simp: scheduler_inv_def executor_ok_def)
  have olds: "\<forall>x \<in> set (sd_executors d). executor_ok (Some s) x"
    using inv c executor_ok_mono by (auto simp: scheduler_inv_def)
  have st: "sd_store d' = Some s" using start s by (auto simp: StartScheduledRun_def split: if_splits)
  show ?thesis
  proof (cases created)
    case True
    then have "sd_executors d' = sd_executors d @ [\<lparr>ex_run = sr_id r, ex_events = query it, ex_pc = ExBegin\<rparr>]"
      using start s by (auto simp: StartScheduledRun_def split: if_splits)
    moreover have "executor_ok (Some s) \<lparr>ex_run = sr_id r, ex_events = query it, ex_pc = ExBegin\<rparr>"
      using c by (auto simp: executor_ok_def)
    ultimately show ?thesis using inv c olds st fresh [OF True] by (simp add: scheduler_inv_def)
  next
    case False
    then have "sd_executors d' = sd_executors d" using start s by (auto simp: StartScheduledRun_def split: if_splits)
    with inv c olds st show ?thesis by (simp add: scheduler_inv_def)
  qed
qed

lemma run_executor_inv:
  assumes k: "k < length (sd_executors d)" and inv: "scheduler_inv d"
  shows "scheduler_inv (run_executor now k d) \<and> stored_le (sd_store d) (sd_store (run_executor now k d))"
proof -
  let ?x = "sd_executors d ! k"
  obtain x' st' evs where step: "executor_step now ?x (sd_store d) = (x', st', evs)" by (cases rule: prod_cases3) blast
  from inv k have "executor_ok (sd_store d) ?x" "scheduled_ok (sd_store d)" by (simp_all add: scheduler_inv_def)
  note e = executor_step_ok [OF step this]
  have "\<forall>x \<in> set ((sd_executors d)[k := x']). executor_ok st' x"
    using inv e executor_ok_mono by (auto simp: scheduler_inv_def dest!: set_update_subset_insert [THEN subsetD])
  moreover have "map ex_run ((sd_executors d)[k := x']) = map ex_run (sd_executors d)"
    using e k by (simp add: map_update) (metis list_update_id nth_map)
  ultimately show ?thesis using inv e step by (simp add: scheduler_inv_def run_executor_def)
qed

lemma Scheduler_FailStale_inv:
  assumes sweep: "Scheduler_FailStale ctxerr now before reason d = Inr (n, d')" and inv: "scheduler_inv d"
  shows "scheduler_inv d' \<and> stored_le (sd_store d) (sd_store d')"
proof -
  from sweep obtain rs s where s: "FailStaleScheduledRuns ctxerr now before reason (sd_store d) = Inr (rs, s)"
      "sd_store d' = Some s" "sd_executors d' = sd_executors d"
    by (auto simp: Scheduler_FailStale_def split: if_splits sum.splits)
  from inv have "scheduled_ok (sd_store d)" by (simp add: scheduler_inv_def)
  from fail_stale_ok [OF s(1) this] s inv show ?thesis by (auto simp: scheduler_inv_def intro: executor_ok_mono)
qed

lemma scheduled_step_inv:
  assumes "scheduled_step l d d'" and "scheduler_inv d"
  shows "scheduler_inv d' \<and> stored_le (sd_store d) (sd_store d')"
  using assms
  by (induction rule: scheduled_step.induct) (blast dest: StartScheduledRun_inv Scheduler_FailStale_inv run_executor_inv)+

lemma new_scheduler_inv: "scheduler_inv new_scheduler"
  by (simp add: scheduler_inv_def new_scheduler_def scheduled_ok_def NewMemoryScheduledRunStore_def)

lemma scheduled_path_inv: "scheduled_path ls d d' \<Longrightarrow> scheduler_inv d \<Longrightarrow> scheduler_inv d'"
  by (induction rule: scheduled_path.induct) (auto dest: scheduled_step_inv)

definition scheduled_reached :: "scheduler \<Rightarrow> scheduler \<Rightarrow> bool" where
  "scheduled_reached d d' \<longleftrightarrow> scheduler_inv d \<and> (\<exists>l. scheduled_step l d d')"

lemma scheduled_path_steps: "scheduled_path ls d d' \<Longrightarrow> scheduler_inv d \<Longrightarrow> scheduled_reached\<^sup>*\<^sup>* d d'"
proof (induction rule: scheduled_path.induct)
  case (next_step ls d d' l d'')
  then have "scheduled_reached d' d''" by (auto simp: scheduled_reached_def dest: scheduled_path_inv)
  with next_step show ?case by (meson rtranclp.rtrancl_into_rtrancl)
qed simp

interpretation finished: settling_store "\<lambda>d. stored (sd_store d)" "\<lambda>r. scheduled_Terminal (sr_status r)" scheduled_reached
proof
  fix d d' i r
  assume "scheduled_reached d d'" "stored (sd_store d) i = Some r" "scheduled_Terminal (sr_status r)"
  then show "stored (sd_store d') i = Some r"
    by (auto simp: scheduled_reached_def dest!: scheduled_step_inv) (metis stored_leD)
qed

section \<open>Executors return\<close>

fun ex_pc_rank :: "nat \<Rightarrow> executor_pc \<Rightarrow> nat" where
  "ex_pc_rank n ExBegin = n + 4"
| "ex_pc_rank n (ExEvents r evs res e) = length evs + 3"
| "ex_pc_rank n (ExCheck r res e) = 2"
| "ex_pc_rank n (ExWrite r res e) = 1"
| "ex_pc_rank n ExReturned = 0"

definition executor_rank :: "executor \<Rightarrow> nat" where
  "executor_rank x = ex_pc_rank (length (ex_events x)) (ex_pc x)"

lemma executor_step_rank:
  "ex_pc x \<noteq> ExReturned \<Longrightarrow> executor_rank (fst (executor_step now x st)) < executor_rank x"
  by (cases "ex_pc x")
    (auto simp: executor_step_def executor_rank_def Let_def split: sum.splits prod.splits list.splits query_event.splits)

lemma scheduled_step_rank:
  assumes "scheduled_step l d d'" and "k < length (sd_executors d)"
  shows "k < length (sd_executors d')
    \<and> executor_rank (sd_executors d' ! k) + (if l = Some k then 1 else 0) \<le> executor_rank (sd_executors d ! k)"
  using assms
proof (induction rule: scheduled_step.induct)
  case (execute j d now)
  then show ?case
    using executor_step_rank [of "sd_executors d ! j" now "sd_store d"]
    by (cases "executor_step now (sd_executors d ! j) (sd_store d)") (auto simp: run_executor_def nth_list_update)
qed (auto simp: StartScheduledRun_def Scheduler_FailStale_def nth_append split: if_splits sum.splits prod.splits)

lemma scheduled_path_rank:
  assumes "scheduled_path ls d d'" and "k < length (sd_executors d)"
  shows "k < length (sd_executors d')
    \<and> executor_rank (sd_executors d' ! k) + length (filter (\<lambda>l. l = Some k) ls) \<le> executor_rank (sd_executors d ! k)"
  using assms
  by (induction rule: scheduled_path.induct) (auto dest!: scheduled_step_rank split: if_splits)

text \<open>
  An executor makes at most as many steps as its query has events, plus four, and until it has returned one of its
  steps is possible.
\<close>

lemma scheduled_executors_return:
  assumes "scheduled_path ls d d'" and "k < length (sd_executors d)" and "ex_pc (sd_executors d ! k) = ExBegin"
  shows "length (filter (\<lambda>l. l = Some k) ls) \<le> length (ex_events (sd_executors d ! k)) + 4
    \<and> (ex_pc (sd_executors d' ! k) = ExReturned \<or> (\<exists>d''. scheduled_step (Some k) d' d''))"
proof -
  note r = scheduled_path_rank [OF assms(1,2)]
  then have "length (filter (\<lambda>l. l = Some k) ls) \<le> executor_rank (sd_executors d ! k)" by linarith
  then show ?thesis using r by (auto simp: executor_rank_def assms(3) intro: scheduled_step.execute)
qed

section \<open>Triggers\<close>

text \<open>The intent of a periodic trigger: the last multiple of the period since the anchor.\<close>

lemma IntentAt_Some:
  assumes "IntentAt t now = Some it"
  shows "pt_anchor t \<le> now" "0 < pt_every t"
    and "in_occurrence it = pt_anchor t + time_sub now (pt_anchor t) div pt_every t * pt_every t"
    and "in_id it = trim_space (pt_name t) @ '':'' @ format_RFC3339 (in_occurrence it)"
    and "in_trigger it = trim_space (pt_name t)" "in_prompt it = trim_space (pt_prompt t)"
    and "trim_space (pt_name t) \<noteq> []" "trim_space (pt_prompt t) \<noteq> []"
  using assms by (auto simp: IntentAt_def Let_def split: if_splits)

lemma time_sub_slot:
  assumes "0 < e" and "a \<le> now" and "now - a < 2 ^ 63"
  shows "time_sub now a = now - a" "now - a - (now - a) div e * e \<in> {0..<e}"
proof -
  show "time_sub now a = now - a" using assms by (simp add: time_sub_def)
  have "(now - a) mod e \<in> {0..<e}" using assms(1) by simp
  then show "now - a - (now - a) div e * e \<in> {0..<e}" by (simp add: minus_div_mult_eq_mod)
qed

lemma time_sub_between:
  "0 \<le> l \<Longrightarrow> l \<le> x - a \<Longrightarrow> x - a < u \<Longrightarrow> l < 2 ^ 63 \<Longrightarrow> l \<le> time_sub x a \<and> time_sub x a < u"
  by (auto simp: time_sub_def)

lemma slot_unique: "0 < e \<Longrightarrow> k * e \<le> x \<Longrightarrow> x < k * e + e \<Longrightarrow> x div e = (k :: int)"
  by (rule int_div_pos_eq [of _ _ _ "x - k * e"]) (simp_all add: mult.commute)

text \<open>Every time of the window of an occurrence gives the same intent.\<close>

lemma IntentAt_window:
  assumes i: "IntentAt t now = Some it" and small: "now - pt_anchor t < 2 ^ 63"
    and w: "in_occurrence it \<le> now'" "now' < in_occurrence it + pt_every t"
  shows "IntentAt t now' = Some it"
proof -
  let ?a = "pt_anchor t" and ?e = "pt_every t"
  let ?k = "(now - ?a) div ?e"
  note f = IntentAt_Some [OF i]
  note ts = time_sub_slot [OF f(2,1) small]
  have k: "0 \<le> ?k" "?k * ?e \<le> now - ?a" using f ts(2) by (simp_all add: pos_imp_zdiv_nonneg_iff)
  have now': "?k * ?e \<le> now' - ?a" "now' - ?a < ?k * ?e + ?e" using w f(3) ts(1) by simp_all
  have pos: "0 \<le> ?k * ?e" using k f(2) by simp
  have "?k * ?e \<le> time_sub now' ?a \<and> time_sub now' ?a < ?k * ?e + ?e"
    using k(2) small by (intro time_sub_between [OF pos now']) linarith
  then have "time_sub now' ?a div ?e = ?k" using f(2) by (blast intro: slot_unique)
  moreover have "?a \<le> now'" using now' pos by linarith
  ultimately show ?thesis using i f ts(1) by (auto simp: IntentAt_def Let_def split: if_splits)
qed

lemma same_whole_second:
  fixes x y :: int
  assumes "0 \<le> x" "0 \<le> y" "1000000000 dvd x" "1000000000 dvd y" "nat x div 1000000000 = nat y div 1000000000"
  shows "x = y"
proof -
  from assms(3,4) obtain a b where "x = 1000000000 * a" "y = 1000000000 * b" by (auto elim!: dvdE)
  with assms show ?thesis by (simp add: nat_mult_distrib)
qed

text \<open>Starting an intent whose run the store has changes nothing.\<close>

lemma StartScheduledRun_known:
  assumes inv: "scheduler_inv d" and known: "stored (sd_store d) (trim_space (in_id it)) = Some r"
    and ne: "trim_space (in_trigger it) \<noteq> []" "trim_space (in_prompt it) \<noteq> []"
  shows "StartScheduledRun now query it d = Inr (r, False, d)"
proof -
  from inv obtain s where s: "sd_store d = Some s" by (auto simp: scheduler_inv_def scheduled_ok_def)
  have m: "map_of (ss_runs s) (trim_space (in_id it)) = Some r" using known s by (simp add: stored_def)
  from inv s have "\<forall>i r. map_of (ss_runs s) i = Some r \<longrightarrow> trim_space i \<noteq> []" by (simp add: scheduler_inv_def scheduled_ok_def)
  with m have "trim_space (trim_space (in_id it)) \<noteq> []" by blast
  then show ?thesis using ne s m by (simp add: StartScheduledRun_def CreateScheduledRun_def Let_def)
qed

lemma StartScheduledRun_stores:
  assumes "StartScheduledRun now query it d = Inr (r, created, d')" and "scheduler_inv d"
  shows "stored (sd_store d') (trim_space (in_id it)) = Some r \<and> sr_id r = trim_space (in_id it)"
proof -
  let ?q = "\<lparr>sq_id = trim_space (in_id it), sq_trigger = trim_space (in_trigger it), sq_occurrence = in_occurrence it,
             sq_prompt = trim_space (in_prompt it)\<rparr>"
  from assms(1) obtain s where s: "CreateScheduledRun now ?q (sd_store d) = Inr (r, created, s)" "sd_store d' = Some s"
    by (auto simp: StartScheduledRun_def split: if_splits sum.splits)
  from assms(2) have "scheduled_ok (sd_store d)" by (simp add: scheduler_inv_def)
  from CreateScheduledRun_ok [OF s(1) this] s(2) show ?thesis by auto
qed

lemma scheduled_path_stored_le: "scheduled_path ls d d' \<Longrightarrow> scheduler_inv d \<Longrightarrow> stored (sd_store d) i = Some r \<Longrightarrow>
  \<exists>r'. stored (sd_store d') i = Some r'"
proof (induction rule: scheduled_path.induct)
  case (next_step ls d d' l d'')
  then show ?case using scheduled_step_inv [OF next_step.hyps(2)] scheduled_path_inv by (metis stored_leD)
qed simp

section \<open>A run, step by step\<close>

lemma scheduled_path_Cons: "scheduled_step l d d' \<Longrightarrow> scheduled_path ls d' d'' \<Longrightarrow> scheduled_path (l # ls) d d''"
  by (rotate_tac, induction rule: scheduled_path.induct)
    (use scheduled_path.intros in \<open>fastforce\<close>, metis append_Cons scheduled_path.next_step)

text \<open>\<open>n\<close> steps of executor 0 at time 1.\<close>

fun exec_steps :: "nat \<Rightarrow> scheduler \<Rightarrow> scheduler" where
  "exec_steps 0 d = d"
| "exec_steps (Suc n) d = exec_steps n (run_executor 1 0 d)"

fun can_exec :: "nat \<Rightarrow> scheduler \<Rightarrow> bool" where
  "can_exec 0 d = True"
| "can_exec (Suc n) d = (0 < length (sd_executors d) \<and> ex_pc (sd_executors d ! 0) \<noteq> ExReturned \<and> can_exec n (run_executor 1 0 d))"

lemma exec_path: "can_exec n d \<Longrightarrow> scheduled_path (replicate n (Some 0)) d (exec_steps n d)"
  by (induction n arbitrary: d) (auto intro: scheduled_path.rest scheduled_path_Cons scheduled_step.execute)

definition sample_trigger :: periodic_trigger where
  "sample_trigger = \<lparr>pt_name = ''t'', pt_prompt = ''p'', pt_every = 60000000000, pt_anchor = 1000000000\<rparr>"

definition sample_intent :: intent where
  "sample_intent = \<lparr>in_id = ''t:0001-01-01T00:01:01Z'', in_trigger = ''t'', in_occurrence = 61000000000, in_prompt = ''p''\<rparr>"

lemmas ascii_trim = utf8_chunks_ascii byte_def is_space_def trim_space_def trim_left_def trim_right_def

lemma scheduled_trims [simp]:
  "trim_space ''t'' = ''t''" "trim_space ''p'' = ''p''" "trim_space ''t:0001-01-01T00:01:01Z'' = ''t:0001-01-01T00:01:01Z''"
  by (simp_all add: ascii_trim)

lemma sample_format: "format_RFC3339 61000000000 = ''0001-01-01T00:01:01Z''"
  by (simp add: format_RFC3339_def civil_date_def pad_def month_lengths_def show_nat.simps digit_char_def char_of_def Let_def)
    (simp add: numeral_3_eq_3 bit_0)

lemma sample_IntentAt: "IntentAt sample_trigger 100000000000 = Some sample_intent"
  by (simp add: IntentAt_def sample_trigger_def sample_intent_def time_sub_def sample_format Let_def time_is_zero_def)

definition sample_record :: scheduled_run where
  "sample_record = zero_scheduled\<lparr>sr_id := in_id sample_intent, sr_trigger := ''t'', sr_occurrence := 61000000000, sr_prompt := ''p'',
     sr_status := ScheduledRunQueued, sr_created := 100000000000, sr_updated := 100000000000\<rparr>"

definition sample_fired :: scheduler where
  "sample_fired = \<lparr>sd_store = Some \<lparr>ss_runs = [(in_id sample_intent, sample_record)]\<rparr>,
     sd_executors = [\<lparr>ex_run = in_id sample_intent, ex_events = [ResultEvent ''ok''], ex_pc = ExBegin\<rparr>],
     sd_log = observeScheduledRunState sample_record\<rparr>"

lemma sample_start:
  "StartScheduledRun 100000000000 (\<lambda>_. [ResultEvent ''ok'']) sample_intent new_scheduler = Inr (sample_record, True, sample_fired)"
  by (simp add: StartScheduledRun_def CreateScheduledRun_def new_scheduler_def NewMemoryScheduledRunStore_def sample_intent_def
      sample_record_def sample_fired_def zero_scheduled_def Let_def)

lemmas sample_run = numeral_eq_Suc Let_def run_executor_def executor_step_def UpdateScheduledRun_def GetScheduledRun_def apply_scheduled_update_def
  no_scheduled_update_def final_scheduled_update_def scheduled_Terminal_def sample_fired_def sample_record_def sample_intent_def zero_scheduled_def

lemma sample_exec:
  "can_exec 5 sample_fired \<and> sd_executors (exec_steps 5 sample_fired) = [\<lparr>ex_run = in_id sample_intent, ex_events = [ResultEvent ''ok''], ex_pc = ExReturned\<rparr>]"
  by (simp add: sample_run)

lemma sample_scheduled_path: "scheduled_path (None # replicate 5 (Some 0)) new_scheduler (exec_steps 5 sample_fired)"
  by (rule scheduled_path_Cons [OF scheduled_step.fire [OF sample_start] exec_path]) (simp only: sample_exec)

section \<open>The theorems\<close>

text \<open>
  C11. However triggers fire, executors step and sweeps run: no two executors ever work on the same scheduled run; an
  executor that returned has left its run succeeded or failed; and the record of a run that has succeeded or failed
  never changes again, in any field.
\<close>

theorem scheduled_runs_settle:
  assumes "scheduled_path ls new_scheduler d" and "scheduled_path ls' d d'"
  shows "distinct (map ex_run (sd_executors d))
    \<and> (x \<in> set (sd_executors d) \<and> ex_pc x = ExReturned \<longrightarrow>
         (\<exists>r. stored (sd_store d) (ex_run x) = Some r \<and> scheduled_Terminal (sr_status r)))
    \<and> (stored (sd_store d) i = Some r \<and> scheduled_Terminal (sr_status r) \<longrightarrow> stored (sd_store d') i = Some r)"
proof -
  have inv: "scheduler_inv d" using assms(1) new_scheduler_inv by (rule scheduled_path_inv)
  then show ?thesis
    using finished.settled_forever [OF scheduled_path_steps [OF assms(2) inv]] by (auto simp: scheduler_inv_def executor_ok_def)
qed

theorem scheduled_runs_settle_witness:
  "\<exists>r. stored (sd_store (exec_steps 5 sample_fired)) (in_id sample_intent) = Some r \<and> scheduled_Terminal (sr_status r)"
proof -
  have "hd (sd_executors (exec_steps 5 sample_fired)) \<in> set (sd_executors (exec_steps 5 sample_fired))"
      "ex_pc (hd (sd_executors (exec_steps 5 sample_fired))) = ExReturned"
      "ex_run (hd (sd_executors (exec_steps 5 sample_fired))) = in_id sample_intent"
    by (simp_all only: sample_exec list.sel list.set executor.simps insertI1)
  with scheduled_runs_settle [OF sample_scheduled_path scheduled_path.rest] show ?thesis by metis
qed

text \<open>
  A periodic trigger whose anchor is less than 292 years old fires for the occurrence that contains the present
  time: it is a whole number of periods after the anchor, not later than now and less than a period ago, and every
  time until the next occurrence gives the same intent. Where anchor and period are whole seconds, two intents of
  the trigger have the same id exactly when they are for the same occurrence.
\<close>

theorem periodic_trigger_windows:
  assumes "IntentAt t now = Some it" and "now - pt_anchor t < 2 ^ 63"
  shows "in_occurrence it \<le> now \<and> now < in_occurrence it + pt_every t \<and> pt_anchor t \<le> in_occurrence it
    \<and> pt_every t dvd in_occurrence it - pt_anchor t
    \<and> (in_occurrence it \<le> now' \<and> now' < in_occurrence it + pt_every t \<longrightarrow> IntentAt t now' = Some it)
    \<and> (IntentAt t now'' = Some jt \<and> 0 < pt_anchor t \<and> 1000000000 dvd pt_anchor t \<and> 1000000000 dvd pt_every t \<longrightarrow>
         (in_id jt = in_id it \<longleftrightarrow> in_occurrence jt = in_occurrence it))"
proof -
  note f = IntentAt_Some [OF assms(1)]
  note ts = time_sub_slot [OF f(2,1) assms(2)]
  have occ: "in_occurrence it = pt_anchor t + (now - pt_anchor t) div pt_every t * pt_every t" using f(3) ts(1) by simp
  have "0 \<le> (now - pt_anchor t) div pt_every t * pt_every t"
    using f(1,2) by (simp add: pos_imp_zdiv_nonneg_iff)
  then have "in_occurrence it \<le> now" "now < in_occurrence it + pt_every t" "pt_anchor t \<le> in_occurrence it"
    using ts(2) occ by auto
  moreover have "pt_every t dvd in_occurrence it - pt_anchor t" by (simp add: occ)
  moreover have "in_id jt = in_id it \<longleftrightarrow> in_occurrence jt = in_occurrence it"
    if "IntentAt t now'' = Some jt" "0 < pt_anchor t" "1000000000 dvd pt_anchor t" "1000000000 dvd pt_every t"
  proof -
    have whole: "1000000000 dvd in_occurrence kt \<and> 0 \<le> in_occurrence kt" if k: "IntentAt t n = Some kt" for n kt
      using IntentAt_Some(1-3) [OF k] \<open>0 < pt_anchor t\<close> \<open>1000000000 dvd pt_anchor t\<close> \<open>1000000000 dvd pt_every t\<close>
      by (simp add: time_sub_def pos_imp_zdiv_nonneg_iff)
    show ?thesis
      using whole [OF assms(1)] whole [OF that(1)] IntentAt_Some(4) [OF assms(1)] IntentAt_Some(4) [OF that(1)]
      by (auto simp: format_RFC3339_same_second intro: same_whole_second)
  qed
  ultimately show ?thesis using IntentAt_window [OF assms] by blast
qed

theorem periodic_trigger_windows_witness:
  "in_occurrence sample_intent \<le> 100000000000 \<and> 60000000000 dvd in_occurrence sample_intent - 1000000000
   \<and> IntentAt sample_trigger 70000000000 = Some sample_intent"
proof -
  have f: "pt_every sample_trigger = 60000000000" "pt_anchor sample_trigger = 1000000000" "in_occurrence sample_intent = 61000000000"
    by (simp_all add: sample_trigger_def sample_intent_def)
  show ?thesis
    using periodic_trigger_windows [OF sample_IntentAt, of 70000000000 100000000000 sample_intent] by (simp add: f)
qed

text \<open>
  C17. Firing a periodic trigger again within the window of an occurrence it has already fired for, after any
  interleaving of other work, starts nothing: the scheduler is as it was and the result names the existing run as not
  created.
\<close>

theorem trigger_fires_once_per_window:
  assumes "scheduled_path ls new_scheduler d" and "IntentAt t now = Some it" and "now - pt_anchor t < 2 ^ 63"
    and "StartScheduledRun now query it d = Inr (r, created, d1)" and "scheduled_path ls' d1 d2"
    and "in_occurrence it \<le> now'" and "now' < in_occurrence it + pt_every t"
  shows "\<exists>r'. sr_id r' = sr_id r
    \<and> FireScheduledTriggers now' query' [IntentAt t] d2 = (d2, [\<lparr>fr_intent = it, fr_record = r', fr_created = False\<rparr>], None)"
proof -
  have inv: "scheduler_inv d" using assms(1) new_scheduler_inv by (rule scheduled_path_inv)
  with StartScheduledRun_inv [OF assms(4)] have inv1: "scheduler_inv d1" by simp
  with assms(5) have inv2: "scheduler_inv d2" by (rule scheduled_path_inv)
  note st = StartScheduledRun_stores [OF assms(4) inv]
  from scheduled_path_stored_le [OF assms(5) inv1 st [THEN conjunct1]]
  obtain r' where r': "stored (sd_store d2) (trim_space (in_id it)) = Some r'" by blast
  then have "sr_id r' = sr_id r" using inv2 st by (auto simp: scheduler_inv_def scheduled_ok_def stored_def)
  moreover have "trim_space (in_trigger it) \<noteq> []" "trim_space (in_prompt it) \<noteq> []" using IntentAt_Some [OF assms(2)] by simp_all
  note StartScheduledRun_known [OF inv2 r' this, of now' query']
  moreover have "sd_store d2 \<noteq> None" using inv2 by (auto simp: scheduler_inv_def scheduled_ok_def)
  ultimately show ?thesis using IntentAt_window [OF assms(2,3,6,7)] by (simp add: FireScheduledTriggers_def)
qed

theorem trigger_fires_once_per_window_witness:
  "\<exists>r'. sr_id r' = sr_id sample_record
    \<and> FireScheduledTriggers 120000000000 (\<lambda>_. []) [IntentAt sample_trigger] (exec_steps 5 sample_fired)
      = (exec_steps 5 sample_fired, [\<lparr>fr_intent = sample_intent, fr_record = r', fr_created = False\<rparr>], None)"
proof -
  have "100000000000 - pt_anchor sample_trigger < 2 ^ 63" "in_occurrence sample_intent \<le> 120000000000"
      "120000000000 < in_occurrence sample_intent + pt_every sample_trigger"
    by (simp_all add: sample_trigger_def sample_intent_def)
  with trigger_fires_once_per_window [OF scheduled_path.rest sample_IntentAt _ sample_start exec_path, of 5 120000000000] sample_exec
  show ?thesis by blast
qed

section \<open>Two limits of the trigger\<close>

text \<open>
  The id of an occurrence has its whole seconds only: with a period under a second, the occurrences of one second
  share an id, so that one run is created where the trigger fired for two occurrences.
\<close>

lemma subsecond_occurrences_collide:
  "case (IntentAt (sample_trigger\<lparr>pt_every := 500000000\<rparr>) 1000000000, IntentAt (sample_trigger\<lparr>pt_every := 500000000\<rparr>) 1500000000) of
     (Some a, Some b) \<Rightarrow> in_occurrence a \<noteq> in_occurrence b \<and> in_id a = in_id b | _ \<Rightarrow> False"
  using format_RFC3339_same_second [of 1000000000 1500000000]
  by (simp add: IntentAt_def sample_trigger_def time_sub_def time_is_zero_def Let_def)

text \<open>
  \<open>now.Sub(anchor)\<close> saturates: more than 2^63 - 1 ns after the anchor the occurrence stays the same for good.
\<close>

lemma old_anchor_freezes:
  assumes "2 ^ 63 \<le> now - pt_anchor t" and "2 ^ 63 \<le> now' - pt_anchor t"
  shows "IntentAt t now = IntentAt t now'"
proof -
  have "time_sub now (pt_anchor t) = 2 ^ 63 - 1" "time_sub now' (pt_anchor t) = 2 ^ 63 - 1" using assms by (simp_all add: time_sub_def)
  moreover have "pt_anchor t \<le> now" "pt_anchor t \<le> now'" using assms by simp_all
  ultimately show ?thesis by (simp add: IntentAt_def Let_def)
qed

end
