(* ===== verification/Notification_Contract.thy ===== *)
theory Notification_Contract
  imports Notification_Outbox Scheduled_Contract
begin

text \<open>
  What the outbox promises under any interleaving of its operations: its records stay well formed, a lease excludes
  the other workers while it lasts, a delivered record never changes, claims take the most overdue records, drain
  passes account for what they claim, and the notifier mirrors the runs that have ended.
\<close>

section \<open>Steps\<close>

text \<open>What a step of the store does, with who acts and when.\<close>

datatype outbox_action = Creating | Claiming string gotime | Acking string | Requeueing

inductive outbox_step :: "outbox_action \<Rightarrow> outbox \<Rightarrow> outbox \<Rightarrow> bool" where
  creating: "CreateScheduledRunNotification U ctxerr clock q (Some b) = Inr (n, created, b') \<Longrightarrow> outbox_step Creating b b'"
| claiming: "normalize_claim clock q = Inr c \<Longrightarrow> ClaimScheduledRunNotifications ctxerr clock q (Some b) = Inr (ns, b', evs) \<Longrightarrow>
     outbox_step (Claiming (cr_worker c) (cr_now c)) b b'"
| delivered: "MarkScheduledRunNotificationDelivered ctxerr clock q (Some b) = Inr (n, b', evs) \<Longrightarrow>
     outbox_step (Acking (trim_space (dq_worker q))) b b'"
| failing: "MarkScheduledRunNotificationFailed ctxerr clock clock' f (Some b) = Inr (n, b', evs) \<Longrightarrow>
     outbox_step (Acking (trim_space (fq_worker f))) b b'"
| burying: "MarkScheduledRunNotificationDeadLettered ctxerr clock x (Some b) = Inr (n, b', evs) \<Longrightarrow>
     outbox_step (Acking (trim_space (xq_worker x))) b b'"
| requeueing: "RequeueScheduledRunNotification ctxerr clock r (Some b) = Inr (n, b', evs) \<Longrightarrow> outbox_step Requeueing b b'"

inductive outbox_path :: "outbox_action list \<Rightarrow> outbox \<Rightarrow> outbox \<Rightarrow> bool" where
  idle: "outbox_path [] b b"
| act: "outbox_path as b b' \<Longrightarrow> outbox_step a b' b'' \<Longrightarrow> outbox_path (as @ [a]) b b''"

section \<open>Well-formed records\<close>

definition notification_ok :: "notification \<Rightarrow> bool" where
  "notification_ok n \<longleftrightarrow>
     nt_id n \<noteq> [] \<and> trim_space (nt_id n) = nt_id n \<and> nt_run n \<noteq> [] \<and> trim_space (nt_run n) = nt_run n
     \<and> nt_trigger n \<noteq> [] \<and> trim_space (nt_trigger n) = nt_trigger n
     \<and> scheduledRunStatusKnown (nt_status n) \<and> deliveryStatusKnown (nt_delivery n) \<and> trim_space (nt_worker n) = nt_worker n
     \<and> (nt_worker n \<noteq> [] \<longleftrightarrow> nt_delivery n = DeliveryDelivering \<or> nt_delivery n = DeliveryDelivered)
     \<and> (nt_delivery_error n \<noteq> [] \<longleftrightarrow> nt_delivery n = DeliveryFailed \<or> nt_delivery n = DeliveryDeadLettered)"

definition outbox_ok :: "outbox \<Rightarrow> bool" where
  "outbox_ok b \<longleftrightarrow> distinct (ob_ids b) \<and> set (ob_ids b) = dom (map_of (ob_byid b))
     \<and> (\<forall>i n. map_of (ob_byid b) i = Some n \<longrightarrow> nt_id n = i \<and> notification_ok n)"

lemma outbox_okD: "outbox_ok b \<Longrightarrow> map_of (ob_byid b) i = Some n \<Longrightarrow> nt_id n = i \<and> notification_ok n"
  by (simp add: outbox_ok_def)

lemma map_of_put [simp]:
  "map_of (ob_byid (put_notification n b)) i = (if i = nt_id n then Some n else map_of (ob_byid b) i)"
  "ob_ids (put_notification n b) = ob_ids b"
  by (auto simp: put_notification_def)

text \<open>Rewriting a record under its id keeps the outbox well formed.\<close>

lemma outbox_ok_put:
  assumes "outbox_ok b" and "map_of (ob_byid b) (nt_id n') = Some n" and "notification_ok n'"
  shows "outbox_ok (put_notification n' b)"
  using assms by (auto simp: outbox_ok_def split: if_splits)

lemma trim_space_Nil [simp]: "trim_space [] = []"
  by (simp add: trim_space_def trim_left_def trim_right_def)

lemma Normalize_ok: "Normalize U clock q = Inr n \<Longrightarrow> notification_ok n"
  by (auto simp: Normalize_def notification_ok_def Let_def deliveryStatusKnown_def split: if_splits)

lemma lease_ok: "notification_ok n \<Longrightarrow> cr_worker c \<noteq> [] \<Longrightarrow> trim_space (cr_worker c) = cr_worker c \<Longrightarrow> notification_ok (lease_notification c n)"
  by (simp add: notification_ok_def lease_notification_def deliveryStatusKnown_def)

lemma lease_id [simp]: "nt_id (lease_notification c n) = nt_id n"
  by (simp add: lease_notification_def)

lemma normalize_claim_ok:
  "normalize_claim clock q = Inr c \<Longrightarrow> cr_worker c \<noteq> [] \<and> trim_space (cr_worker c) = cr_worker c \<and> 0 < cr_limit c \<and> 0 < cr_lease c"
  by (auto simp: normalize_claim_def DefaultScheduledRunNotificationLeaseDuration_def split: if_splits)

section \<open>Claims\<close>

lemma at_id_known: "outbox_ok b \<Longrightarrow> i \<in> set (ob_ids b) \<Longrightarrow> map_of (ob_byid b) i = Some (at_id b i) \<and> nt_id (at_id b i) = i"
  by (auto simp: outbox_ok_def at_id_def domIff split: option.splits)

lemma ids_of_records: "outbox_ok b \<Longrightarrow> map nt_id (map (at_id b) (ob_ids b)) = ob_ids b"
  using at_id_known by (simp add: map_idI)

text \<open>The candidates: every claimable record, each once.\<close>

lemma claim_candidates_spec:
  assumes "outbox_ok b"
  shows "distinct (map nt_id (claim_candidates now b))"
    and "n \<in> set (claim_candidates now b) \<longleftrightarrow> map_of (ob_byid b) (nt_id n) = Some n \<and> deliveryClaimableAt now n"
proof -
  have "distinct (map nt_id (filter (deliveryClaimableAt now) (map (at_id b) (ob_ids b))))"
    using assms ids_of_records [OF assms] by (metis distinct_map_filter outbox_ok_def)
  then show "distinct (map nt_id (claim_candidates now b))"
    unfolding claim_candidates_def distinct_map by (metis mset_stable_sort set_stable_sort mset_eq_imp_distinct_iff)
  show "n \<in> set (claim_candidates now b) \<longleftrightarrow> map_of (ob_byid b) (nt_id n) = Some n \<and> deliveryClaimableAt now n"
  proof
    assume "n \<in> set (claim_candidates now b)"
    then show "map_of (ob_byid b) (nt_id n) = Some n \<and> deliveryClaimableAt now n"
      using at_id_known [OF assms] by (auto simp: claim_candidates_def)
  next
    assume n: "map_of (ob_byid b) (nt_id n) = Some n \<and> deliveryClaimableAt now n"
    then have "nt_id n \<in> set (ob_ids b)" "at_id b (nt_id n) = n" using assms by (auto simp: outbox_ok_def at_id_def)
    with n show "n \<in> set (claim_candidates now b)" by (auto simp: claim_candidates_def image_iff intro!: bexI)
  qed
qed

lemma map_of_fold_put:
  assumes "distinct (map nt_id ns)"
  shows "map_of (ob_byid (fold put_notification ns b)) i
    = (case List.find (\<lambda>n. nt_id n = i) ns of Some n \<Rightarrow> Some n | None \<Rightarrow> map_of (ob_byid b) i)"
  using assms
proof (induction ns arbitrary: b)
  case (Cons n ns)
  from Cons.prems have "List.find (\<lambda>x. nt_id x = nt_id n) ns = None" by (auto simp: find_None_iff) (metis image_eqI)
  with Cons show ?case by (auto split: option.splits)
qed simp

lemma ids_fold_put [simp]: "ob_ids (fold put_notification ns b) = ob_ids b"
  by (induction ns arbitrary: b) simp_all

lemma find_id:
  assumes "distinct (map nt_id ns)" and "n \<in> set ns"
  shows "List.find (\<lambda>x. nt_id x = nt_id n) ns = Some n"
  using assms by (induction ns) (auto simp: rev_image_eqI)

lemma ClaimD:
  assumes "ClaimScheduledRunNotifications ctxerr clock q (Some b) = Inr (ns, b', evs)"
  obtains c where "normalize_claim clock q = Inr c"
    "ns = map (lease_notification c) (take (nat (cr_limit c)) (claim_candidates (cr_now c) b))" "b' = fold put_notification ns b"
  using assms by (auto simp: ClaimScheduledRunNotifications_def Let_def split: option.splits sum.splits)

text \<open>What a claim does to each record.\<close>

lemma claim_effect:
  assumes ok: "outbox_ok b" and claim: "ClaimScheduledRunNotifications ctxerr clock q (Some b) = Inr (ns, b', evs)"
    and c: "normalize_claim clock q = Inr c"
  shows "ob_ids b' = ob_ids b" "distinct (map nt_id ns)"
    and "map_of (ob_byid b') i = (if i \<in> nt_id ` set ns then map_option (lease_notification c) (map_of (ob_byid b) i) else map_of (ob_byid b) i)"
    and "n \<in> set ns \<Longrightarrow> \<exists>m. map_of (ob_byid b) (nt_id n) = Some m \<and> deliveryClaimableAt (cr_now c) m \<and> n = lease_notification c m"
proof -
  let ?cs = "take (nat (cr_limit c)) (claim_candidates (cr_now c) b)"
  from claim c have ns: "ns = map (lease_notification c) ?cs" and b': "b' = fold put_notification ns b"
    by (auto elim!: ClaimD)
  have "distinct (map nt_id ?cs)"
    using claim_candidates_spec(1) [OF ok, of "cr_now c"] by (simp flip: take_map)
  then show d: "distinct (map nt_id ns)" by (simp add: ns comp_def)
  show "ob_ids b' = ob_ids b" by (simp add: b')
  have mem: "\<exists>m. map_of (ob_byid b) (nt_id n) = Some m \<and> deliveryClaimableAt (cr_now c) m \<and> n = lease_notification c m" if "n \<in> set ns" for n
    using that claim_candidates_spec(2) [OF ok] by (auto simp: ns dest!: in_set_takeD)
  then show "n \<in> set ns \<Longrightarrow> \<exists>m. map_of (ob_byid b) (nt_id n) = Some m \<and> deliveryClaimableAt (cr_now c) m \<and> n = lease_notification c m" .
  show "map_of (ob_byid b') i = (if i \<in> nt_id ` set ns then map_option (lease_notification c) (map_of (ob_byid b) i) else map_of (ob_byid b) i)"
  proof (cases "i \<in> nt_id ` set ns")
    case True
    then obtain n where n: "n \<in> set ns" "i = nt_id n" by blast
    with mem [OF n(1)] find_id [OF d n(1)] show ?thesis by (auto simp: b' map_of_fold_put [OF d])
  next
    case False
    then have "List.find (\<lambda>n. nt_id n = i) ns = None" by (auto simp: find_None_iff)
    with False show ?thesis by (simp add: b' map_of_fold_put [OF d])
  qed
qed

section \<open>Steps keep the outbox\<close>

lemma ensure_ok: "ensureDeliveryWorker w n = None \<Longrightarrow> notification_ok n \<Longrightarrow> nt_delivery n = DeliveryDelivering \<and> nt_worker n = w"
  by (auto simp: ensureDeliveryWorker_def notification_ok_def split: if_splits)

text \<open>An acknowledgement or a requeue rewrites one record.\<close>

lemma DeliveredD:
  assumes "MarkScheduledRunNotificationDelivered ctxerr clock q (Some b) = Inr (n', b', evs)" and "outbox_ok b"
  obtains n where "map_of (ob_byid b) (nt_id n') = Some n" "b' = put_notification n' b \<or> b' = b \<and> n' = n" "notification_ok n'"
    "nt_id n' = trim_space (dq_id q)" "n' = n \<or> nt_delivery n = DeliveryDelivering \<and> nt_worker n = trim_space (dq_worker q)" "nt_delivery n' = DeliveryDelivered"
proof -
  from assms(1) obtain u n where u: "normalize_delivered clock q = Inr u" "map_of (ob_byid b) (dq_id u) = Some n"
    by (auto simp: MarkScheduledRunNotificationDelivered_def split: option.splits sum.splits)
  have w: "dq_id u = trim_space (dq_id q)" "dq_worker u = trim_space (dq_worker q)" "dq_worker u \<noteq> []"
    using u(1) by (auto simp: normalize_delivered_def split: if_splits)
  note n = outbox_okD [OF assms(2) u(2)]
  have k: "nt_id n = trim_space (dq_id q)" "notification_ok n" "dq_id u = nt_id n" using n w by simp_all
  show ?thesis
  proof (cases "nt_delivery n = DeliveryDelivered")
    case True
    then have "n' = n" "b' = b" using assms(1) u by (auto simp: MarkScheduledRunNotificationDelivered_def split: option.splits if_splits)
    then show ?thesis using that [of n] u(2) k True by simp
  next
    case False
    let ?n = "n\<lparr>nt_delivery := DeliveryDelivered, nt_worker := dq_worker u, nt_delivery_error := [],
                nt_delivered_at := dq_at u, nt_after := dq_at u, nt_updated := dq_at u\<rparr>"
    from False assms(1) u have e: "ensureDeliveryWorker (dq_worker u) n = None" "n' = ?n" "b' = put_notification ?n b"
      by (auto simp: MarkScheduledRunNotificationDelivered_def Let_def split: option.splits)
    have d: "nt_delivery n = DeliveryDelivering \<and> nt_worker n = dq_worker u" using e(1) k(2) by (rule ensure_ok)
    have ok: "notification_ok ?n" using k(2) d w(3) by (simp add: notification_ok_def deliveryStatusKnown_def)
    show ?thesis by (rule that [of n]) (use u(2) k d w(2) e(2,3) ok in simp_all)
  qed
qed

lemma FailedD:
  assumes "MarkScheduledRunNotificationFailed ctxerr clock clock' q (Some b) = Inr (n', b', evs)" and "outbox_ok b"
  obtains n where "map_of (ob_byid b) (nt_id n') = Some n" "b' = put_notification n' b" "notification_ok n'"
    "nt_id n' = trim_space (fq_id q)" "nt_delivery n = DeliveryDelivering" "nt_worker n = trim_space (fq_worker q)" "nt_delivery n' = DeliveryFailed"
proof -
  from assms(1) obtain u n where u: "normalize_failed clock clock' q = Inr u" "map_of (ob_byid b) (fq_id u) = Some n"
      "ensureDeliveryWorker (fq_worker u) n = None"
    by (auto simp: MarkScheduledRunNotificationFailed_def split: option.splits sum.splits)
  have w: "fq_id u = trim_space (fq_id q)" "fq_worker u = trim_space (fq_worker q)" "fq_error u \<noteq> []"
    using u(1) by (auto simp: normalize_failed_def split: if_splits)
  let ?n = "n\<lparr>nt_delivery := DeliveryFailed, nt_worker := [], nt_delivery_error := fq_error u, nt_after := fq_retry u, nt_updated := fq_at u\<rparr>"
  have e: "n' = ?n" "b' = put_notification ?n b"
    using assms(1) u by (auto simp: MarkScheduledRunNotificationFailed_def Let_def split: option.splits)
  have k: "nt_id n = fq_id u" "notification_ok n" using outbox_okD [OF assms(2) u(2)] by simp_all
  have d: "nt_delivery n = DeliveryDelivering \<and> nt_worker n = fq_worker u" using u(3) k(2) by (rule ensure_ok)
  have ok: "notification_ok ?n" using k(2) d w(3) by (simp add: notification_ok_def deliveryStatusKnown_def)
  show ?thesis by (rule that [of n]) (use u(2) k d w(1,2) e ok in simp_all)
qed

lemma DeadLetteredD:
  assumes "MarkScheduledRunNotificationDeadLettered ctxerr clock q (Some b) = Inr (n', b', evs)" and "outbox_ok b"
  obtains n where "map_of (ob_byid b) (nt_id n') = Some n" "b' = put_notification n' b" "notification_ok n'"
    "nt_id n' = trim_space (xq_id q)" "nt_delivery n = DeliveryDelivering" "nt_worker n = trim_space (xq_worker q)" "nt_delivery n' = DeliveryDeadLettered"
proof -
  from assms(1) obtain u n where u: "normalize_dead clock q = Inr u" "map_of (ob_byid b) (xq_id u) = Some n"
      "ensureDeliveryWorker (xq_worker u) n = None"
    by (auto simp: MarkScheduledRunNotificationDeadLettered_def split: option.splits sum.splits)
  have w: "xq_id u = trim_space (xq_id q)" "xq_worker u = trim_space (xq_worker q)" "xq_error u \<noteq> []"
    using u(1) by (auto simp: normalize_dead_def split: if_splits)
  let ?n = "n\<lparr>nt_delivery := DeliveryDeadLettered, nt_worker := [], nt_delivery_error := xq_error u, nt_after := xq_at u, nt_updated := xq_at u\<rparr>"
  have e: "n' = ?n" "b' = put_notification ?n b"
    using assms(1) u by (auto simp: MarkScheduledRunNotificationDeadLettered_def Let_def split: option.splits)
  have k: "nt_id n = xq_id u" "notification_ok n" using outbox_okD [OF assms(2) u(2)] by simp_all
  have d: "nt_delivery n = DeliveryDelivering \<and> nt_worker n = xq_worker u" using u(3) k(2) by (rule ensure_ok)
  have ok: "notification_ok ?n" using k(2) d w(3) by (simp add: notification_ok_def deliveryStatusKnown_def)
  show ?thesis by (rule that [of n]) (use u(2) k d w(1,2) e ok in simp_all)
qed

lemma RequeueD:
  assumes "RequeueScheduledRunNotification ctxerr clock q (Some b) = Inr (n', b', evs)" and "outbox_ok b"
  obtains n where "map_of (ob_byid b) (nt_id n') = Some n" "b' = put_notification n' b" "notification_ok n'"
    "nt_delivery n = DeliveryFailed \<or> nt_delivery n = DeliveryDeadLettered"
proof -
  from assms(1) obtain u n where u: "normalize_requeue clock q = Inr u" "map_of (ob_byid b) (rq_id u) = Some n"
      "nt_delivery n = DeliveryFailed \<or> nt_delivery n = DeliveryDeadLettered"
    by (auto simp: RequeueScheduledRunNotification_def split: option.splits sum.splits if_splits)
  let ?n = "n\<lparr>nt_delivery := DeliveryPending, nt_worker := [], nt_delivery_error := [], nt_after := rq_after u, nt_updated := rq_at u\<rparr>"
  have e: "n' = ?n" "b' = put_notification ?n b"
    using assms(1) u by (auto simp: RequeueScheduledRunNotification_def Let_def split: option.splits)
  have k: "nt_id n = rq_id u" "notification_ok n" using outbox_okD [OF assms(2) u(2)] by simp_all
  have ok: "notification_ok ?n" using k(2) by (simp add: notification_ok_def deliveryStatusKnown_def)
  show ?thesis by (rule that [of n]) (use u(2,3) k e ok in simp_all)
qed

lemma CreateD:
  assumes "CreateScheduledRunNotification U ctxerr clock q (Some b) = Inr (n, created, b')"
  shows "\<exists>m. Normalize U clock q = Inr m \<and> created = (map_of (ob_byid b) (nt_id m) = None)
    \<and> (if created then n = m \<and> b' = (put_notification m b)\<lparr>ob_ids := ob_ids b @ [nt_id m]\<rparr>
       else b' = b \<and> map_of (ob_byid b) (nt_id m) = Some n)"
  using assms by (simp add: CreateScheduledRunNotification_def split: option.splits sum.splits)

text \<open>Who may change a record: a claim that finds it due, its worker, and a requeue after a failure.\<close>

fun may_change :: "outbox_action \<Rightarrow> notification \<Rightarrow> bool" where
  "may_change Creating n = False"
| "may_change (Claiming w t) n = deliveryClaimableAt t n"
| "may_change (Acking w) n = (nt_delivery n = DeliveryDelivering \<and> nt_worker n = w)"
| "may_change Requeueing n = (nt_delivery n = DeliveryFailed \<or> nt_delivery n = DeliveryDeadLettered)"

lemma put_step:
  assumes "outbox_ok b" "map_of (ob_byid b) (nt_id n') = Some n" "b' = put_notification n' b" "notification_ok n'" "may_change a n \<or> n' = n"
  shows "outbox_ok b' \<and> (\<forall>i m. map_of (ob_byid b) i = Some m \<longrightarrow> (\<exists>m'. map_of (ob_byid b') i = Some m' \<and> (m' = m \<or> may_change a m)))"
  using assms outbox_ok_put [OF assms(1,2,4)] by auto

lemma outbox_step_ok:
  assumes "outbox_step a b b'" and "outbox_ok b"
  shows "outbox_ok b' \<and> (\<forall>i m. map_of (ob_byid b) i = Some m \<longrightarrow> (\<exists>m'. map_of (ob_byid b') i = Some m' \<and> (m' = m \<or> may_change a m)))"
  using assms
proof (induction rule: outbox_step.induct)
  case (creating U ctxerr clock q b n created b')
  from CreateD [OF creating(1)] obtain m where m: "Normalize U clock q = Inr m" "created = (map_of (ob_byid b) (nt_id m) = None)"
      "if created then n = m \<and> b' = (put_notification m b)\<lparr>ob_ids := ob_ids b @ [nt_id m]\<rparr> else b' = b \<and> map_of (ob_byid b) (nt_id m) = Some n"
    by blast
  then show ?case
    using creating(2) Normalize_ok [OF m(1)] by (cases created) (auto simp: outbox_ok_def put_notification_def)
next
  case (claiming clock q c ctxerr b ns b' evs)
  note e = claim_effect [OF claiming(3,2,1)] and w = normalize_claim_ok [OF claiming(1)]
  have "outbox_ok b'"
    using claiming(3) w unfolding outbox_ok_def e(1,3) by (auto simp: lease_ok split: if_splits)
  moreover have "\<exists>m'. map_of (ob_byid b') i = Some m' \<and> (m' = m \<or> may_change (Claiming (cr_worker c) (cr_now c)) m)"
    if m: "map_of (ob_byid b) i = Some m" for i m
  proof (cases "i \<in> nt_id ` set ns")
    case True
    then obtain n where n: "n \<in> set ns" "i = nt_id n" by blast
    from e(4) [OF n(1)] m n(2) True e(3) show ?thesis by auto
  qed (use m e(3) in simp)
  ultimately show ?case by blast
next
  case (delivered ctxerr clock q b n b' evs)
  from delivered(1,2) obtain m where "map_of (ob_byid b) (nt_id n) = Some m" "b' = put_notification n b \<or> b' = b" "notification_ok n"
      "n = m \<or> nt_delivery m = DeliveryDelivering \<and> nt_worker m = trim_space (dq_worker q)"
    by (rule DeliveredD) blast
  with put_step [OF delivered(2), of n m b' "Acking (trim_space (dq_worker q))"] delivered(2) show ?case by auto
next
  case (failing ctxerr clock clock' f b n b' evs)
  from failing(1,2) obtain m where "map_of (ob_byid b) (nt_id n) = Some m" "b' = put_notification n b" "notification_ok n"
      "nt_delivery m = DeliveryDelivering" "nt_worker m = trim_space (fq_worker f)"
    by (rule FailedD) blast
  with put_step [OF failing(2), of n m b' "Acking (trim_space (fq_worker f))"] show ?case by simp
next
  case (burying ctxerr clock x b n b' evs)
  from burying(1,2) obtain m where "map_of (ob_byid b) (nt_id n) = Some m" "b' = put_notification n b" "notification_ok n"
      "nt_delivery m = DeliveryDelivering" "nt_worker m = trim_space (xq_worker x)"
    by (rule DeadLetteredD) blast
  with put_step [OF burying(2), of n m b' "Acking (trim_space (xq_worker x))"] show ?case by simp
next
  case (requeueing ctxerr clock r b n b' evs)
  from requeueing(1,2) obtain m where "map_of (ob_byid b) (nt_id n) = Some m" "b' = put_notification n b" "notification_ok n"
      "nt_delivery m = DeliveryFailed \<or> nt_delivery m = DeliveryDeadLettered"
    by (rule RequeueD) blast
  with put_step [OF requeueing(2), of n m b' Requeueing] show ?case by simp
qed

lemma outbox_path_ok: "outbox_path as b b' \<Longrightarrow> outbox_ok b \<Longrightarrow> outbox_ok b'"
  by (induction rule: outbox_path.induct) (auto dest: outbox_step_ok)

lemma new_outbox_ok: "outbox_ok NewMemoryScheduledRunNotificationStore"
  by (simp add: outbox_ok_def NewMemoryScheduledRunNotificationStore_def)

text \<open>A record nobody who acts may change stays.\<close>

lemma outbox_path_keeps:
  assumes "outbox_path as b b'" and "outbox_ok b" and "map_of (ob_byid b) i = Some n" and "\<forall>a \<in> set as. \<not> may_change a n"
  shows "map_of (ob_byid b') i = Some n"
  using assms
proof (induction rule: outbox_path.induct)
  case (act as b b' a b'')
  then have "map_of (ob_byid b') i = Some n" "outbox_ok b'" using outbox_path_ok by auto
  with outbox_step_ok [OF act.hyps(2)] act.prems show ?case by fastforce
qed simp

definition outbox_reached :: "outbox \<Rightarrow> outbox \<Rightarrow> bool" where
  "outbox_reached b b' \<longleftrightarrow> outbox_ok b \<and> (\<exists>a. outbox_step a b b')"

lemma outbox_path_steps: "outbox_path as b b' \<Longrightarrow> outbox_ok b \<Longrightarrow> outbox_reached\<^sup>*\<^sup>* b b'"
proof (induction rule: outbox_path.induct)
  case (act as b b' a b'')
  then have "outbox_reached b' b''" by (auto simp: outbox_reached_def dest: outbox_path_ok)
  with act show ?case by (meson rtranclp.rtrancl_into_rtrancl)
qed simp

lemma delivered_unchangeable: "nt_delivery n = DeliveryDelivered \<Longrightarrow> \<not> may_change a n"
  by (cases a) (auto simp: deliveryClaimableAt_def)

interpretation delivered_final: settling_store "\<lambda>b. map_of (ob_byid b)" "\<lambda>n. nt_delivery n = DeliveryDelivered" outbox_reached
proof
  fix b b' i n
  assume "outbox_reached b b'" "map_of (ob_byid b) i = Some n" "nt_delivery n = DeliveryDelivered"
  then show "map_of (ob_byid b') i = Some n"
    using outbox_step_ok delivered_unchangeable by (fastforce simp: outbox_reached_def)
qed

section \<open>Leases\<close>

text \<open>What leaves a lease of worker \<open>w\<close> until \<open>t\<close> alone: claims before \<open>t\<close>, acknowledgements of others, creations and requeues.\<close>

fun leaves_lease :: "string \<Rightarrow> gotime \<Rightarrow> outbox_action \<Rightarrow> bool" where
  "leaves_lease w t (Claiming v s) = (s < t)"
| "leaves_lease w t (Acking v) = (v \<noteq> w)"
| "leaves_lease w t Creating = True"
| "leaves_lease w t Requeueing = True"

lemma lease_unchangeable:
  "nt_delivery n = DeliveryDelivering \<Longrightarrow> nt_after n \<noteq> 0 \<Longrightarrow> leaves_lease (nt_worker n) (nt_after n) a \<Longrightarrow> \<not> may_change a n"
  by (cases a) (auto simp: deliveryClaimableAt_def time_is_zero_def)

section \<open>A notification, step by step\<close>

definition sample_notification :: notification where
  "sample_notification = zero_notification\<lparr>nt_id := ''n'', nt_run := ''r'', nt_status := ScheduledRunSucceeded, nt_trigger := ''t'',
     nt_created := 5, nt_delivery := DeliveryPending, nt_after := 5, nt_updated := 5\<rparr>"

definition sample_outbox :: outbox where
  "sample_outbox = \<lparr>ob_byid = [(''n'', sample_notification)], ob_ids = [''n'']\<rparr>"

definition sample_claim :: claim_request where
  "sample_claim = \<lparr>cr_worker = ''w'', cr_limit = 3, cr_now = 10, cr_lease = 100\<rparr>"

definition sample_leased :: outbox where
  "sample_leased = \<lparr>ob_byid = [(''n'', lease_notification sample_claim sample_notification)], ob_ids = [''n'']\<rparr>"

lemma sample_outbox_trims [simp]: "trim_space ''n'' = ''n''" "trim_space ''r'' = ''r''" "trim_space ''w'' = ''w''"
  by (simp_all add: ascii_trim)

lemma sample_create:
  "CreateScheduledRunNotification U None 5 \<lparr>cn_id = ''n'', cn_run = ''r'', cn_status = ScheduledRunSucceeded, cn_trigger = ''t'',
     cn_occurrence = 0, cn_prompt = [], cn_result = [], cn_error = [], cn_created = 5\<rparr> (Some NewMemoryScheduledRunNotificationStore)
   = Inr (sample_notification, True, sample_outbox)"
  by (simp add: CreateScheduledRunNotification_def Normalize_def scheduledRunStatusKnown_def or_clock_def time_is_zero_def Let_def
      NewMemoryScheduledRunNotificationStore_def put_notification_def sample_notification_def sample_outbox_def zero_notification_def)

lemma sample_outbox_path: "outbox_path [Creating] NewMemoryScheduledRunNotificationStore sample_outbox"
  using outbox_path.act [OF outbox_path.idle outbox_step.creating [OF sample_create]] by simp

lemma sample_normalize: "normalize_claim 10 sample_claim = Inr sample_claim"
  by (simp add: normalize_claim_def sample_claim_def or_clock_def time_is_zero_def)

lemma sample_claimed:
  "ClaimScheduledRunNotifications None 10 sample_claim (Some sample_outbox)
   = Inr ([lease_notification sample_claim sample_notification], sample_leased,
       [ScheduledRunNotificationDeliveryEvent ''scheduled_run_notification_claimed'' (lease_notification sample_claim sample_notification)])"
proof -
  have "claim_candidates 10 sample_outbox = [sample_notification]"
    by (simp add: claim_candidates_def sample_outbox_def at_id_def deliveryClaimableAt_def deliveryStatusKnown_def sample_notification_def)
  moreover have "cr_now sample_claim = 10" "nat (cr_limit sample_claim) = 3" by (simp_all add: sample_claim_def)
  moreover have "put_notification (lease_notification sample_claim sample_notification) sample_outbox = sample_leased"
    by (simp add: put_notification_def sample_leased_def sample_outbox_def) (simp add: sample_notification_def)
  ultimately show ?thesis by (simp add: ClaimScheduledRunNotifications_def sample_normalize)
qed

text \<open>
  C22. However creations, claims, acknowledgements and requeues interleave, the outbox stays well formed: the list of
  ids has exactly the keys of the records, each once; every record is under its own id, with known statuses and
  trimmed names; it names a worker exactly when it is being delivered or is delivered, and an error exactly when
  its delivery failed for now or for good.
\<close>

theorem outbox_well_formed:
  assumes "outbox_path as NewMemoryScheduledRunNotificationStore b"
  shows "distinct (ob_ids b) \<and> set (ob_ids b) = dom (map_of (ob_byid b))
    \<and> (map_of (ob_byid b) i = Some n \<longrightarrow> nt_id n = i \<and> notification_ok n)"
  using outbox_path_ok [OF assms new_outbox_ok] by (simp add: outbox_ok_def)

theorem outbox_well_formed_witness: "notification_ok sample_notification"
  using outbox_well_formed [OF sample_outbox_path, of "''n''" sample_notification] by (simp add: sample_outbox_def)

text \<open>
  C13. A claimed record is the claiming worker's alone until the lease ends: while the other workers only claim at
  earlier times, acknowledge or requeue whatever they like, the record stays exactly as it was claimed; an
  acknowledgement of it by any other worker is refused as a mismatch, and the worker's own is accepted.
\<close>

theorem lease_excludes_others:
  assumes "outbox_path as NewMemoryScheduledRunNotificationStore b" and "normalize_claim clock q = Inr c" and "0 < cr_now c"
    and "ClaimScheduledRunNotifications None clock q (Some b) = Inr (ns, b1, evs)" and "n \<in> set ns"
    and "outbox_path as' b1 b2" and "\<forall>a \<in> set as'. leaves_lease (cr_worker c) (cr_now c + cr_lease c) a"
  shows "map_of (ob_byid b2) (nt_id n) = Some n
    \<and> (trim_space v \<noteq> [] \<and> trim_space v \<noteq> cr_worker c \<longrightarrow>
         MarkScheduledRunNotificationDelivered None t \<lparr>dq_id = nt_id n, dq_worker = v, dq_at = s\<rparr> (Some b2)
         = Inl ErrScheduledRunNotificationWorkerMismatch)
    \<and> (\<exists>n' b3 evs'. nt_delivery n' = DeliveryDelivered \<and> MarkScheduledRunNotificationDelivered None t
         \<lparr>dq_id = nt_id n, dq_worker = cr_worker c, dq_at = s\<rparr> (Some b2) = Inr (n', b3, evs'))"
proof -
  have ok: "outbox_ok b" using assms(1) new_outbox_ok by (rule outbox_path_ok)
  note e = claim_effect [OF ok assms(4,2)] and w = normalize_claim_ok [OF assms(2)]
  have ok1: "outbox_ok b1" using outbox_step_ok [OF outbox_step.claiming [OF assms(2,4)] ok] by simp
  from e(4) [OF assms(5)] obtain m where m: "map_of (ob_byid b) (nt_id n) = Some m" "n = lease_notification c m" by blast
  have "nt_id n \<in> nt_id ` set ns" using assms(5) by (rule imageI)
  then have n1: "map_of (ob_byid b1) (nt_id n) = Some n" unfolding e(3) using m by (simp only: if_True option.map)
  have n: "nt_delivery n = DeliveryDelivering" "nt_worker n = cr_worker c" "nt_after n = cr_now c + cr_lease c"
    using m(2) by (simp_all add: lease_notification_def)
  have "map_of (ob_byid b2) (nt_id n) = Some n"
    by (rule outbox_path_keeps [OF assms(6) ok1 n1]) (use assms(3,7) n w lease_unchangeable in auto)
  moreover have "notification_ok n" using outbox_okD [OF ok1 n1] by simp
  then have "trim_space (nt_id n) = nt_id n" "nt_id n \<noteq> []" by (simp_all add: notification_ok_def)
  ultimately show ?thesis
    using n w by (simp add: MarkScheduledRunNotificationDelivered_def normalize_delivered_def ensureDeliveryWorker_def Let_def)
qed

theorem lease_excludes_others_witness:
  "map_of (ob_byid sample_leased) ''n'' = Some (lease_notification sample_claim sample_notification)
   \<and> MarkScheduledRunNotificationDelivered None 20 \<lparr>dq_id = ''n'', dq_worker = ''r'', dq_at = 20\<rparr> (Some sample_leased)
     = Inl ErrScheduledRunNotificationWorkerMismatch"
proof -
  have w: "0 < cr_now sample_claim" "cr_worker sample_claim = ''w''" "nt_id (lease_notification sample_claim sample_notification) = ''n''"
    by (simp_all add: sample_claim_def sample_notification_def)
  show ?thesis
    using lease_excludes_others [OF sample_outbox_path sample_normalize w(1) sample_claimed _ outbox_path.idle,
        of "lease_notification sample_claim sample_notification" "''r''" 20 20] w by simp
qed

text \<open>
  A notification that was marked delivered never changes again, whatever is done to the outbox afterwards; and
  marking it delivered again is accepted from the worker that delivered it and refused from any other.
\<close>

theorem delivered_is_final:
  assumes "outbox_path as NewMemoryScheduledRunNotificationStore b"
    and "MarkScheduledRunNotificationDelivered ctxerr clock q (Some b) = Inr (n, b1, evs)" and "outbox_path as' b1 b2"
  shows "map_of (ob_byid b2) (trim_space (dq_id q)) = Some n
    \<and> (trim_space (dq_id r) = trim_space (dq_id q) \<and> trim_space (dq_worker r) \<noteq> [] \<longrightarrow>
         MarkScheduledRunNotificationDelivered None t r (Some b2)
         = (if trim_space (dq_worker r) = nt_worker n then Inr (n, b2, []) else Inl ErrScheduledRunNotificationWorkerMismatch))"
proof -
  have ok: "outbox_ok b" using assms(1) new_outbox_ok by (rule outbox_path_ok)
  from assms(2) ok obtain m where m: "map_of (ob_byid b) (nt_id n) = Some m" "b1 = put_notification n b \<or> b1 = b \<and> n = m" "notification_ok n"
      "nt_id n = trim_space (dq_id q)" "n = m \<or> nt_delivery m = DeliveryDelivering \<and> nt_worker m = trim_space (dq_worker q)"
      "nt_delivery n = DeliveryDelivered"
    by (rule DeliveredD)
  have ok1: "outbox_ok b1" using outbox_step_ok [OF outbox_step.delivered [OF assms(2)] ok] by simp
  have "map_of (ob_byid b1) (nt_id n) = Some n" using m(1,2) by auto
  then have "map_of (ob_byid b2) (nt_id n) = Some n"
    using delivered_final.settled_forever [OF outbox_path_steps [OF assms(3) ok1]] m(6) by blast
  then show ?thesis using m by (auto simp: MarkScheduledRunNotificationDelivered_def normalize_delivered_def notification_ok_def)
qed

theorem delivered_is_final_witness:
  "\<exists>n b evs. MarkScheduledRunNotificationDelivered None 20 \<lparr>dq_id = ''n'', dq_worker = ''w'', dq_at = 20\<rparr> (Some sample_leased) = Inr (n, b, evs)
     \<and> map_of (ob_byid b) ''n'' = Some n \<and> nt_delivery n = DeliveryDelivered"
proof -
  have p: "outbox_path ([Creating] @ [Claiming (cr_worker sample_claim) (cr_now sample_claim)]) NewMemoryScheduledRunNotificationStore sample_leased"
    by (rule outbox_path.act [OF sample_outbox_path outbox_step.claiming [OF sample_normalize sample_claimed]])
  obtain n b evs where d: "MarkScheduledRunNotificationDelivered None 20 \<lparr>dq_id = ''n'', dq_worker = ''w'', dq_at = 20\<rparr> (Some sample_leased) = Inr (n, b, evs)"
      "nt_delivery n = DeliveryDelivered"
    by (simp add: MarkScheduledRunNotificationDelivered_def normalize_delivered_def ensureDeliveryWorker_def sample_leased_def
        lease_notification_def sample_claim_def Let_def)
  from delivered_is_final [OF p d(1) outbox_path.idle] have "map_of (ob_byid b) ''n'' = Some n" by simp
  with d show ?thesis by blast
qed

section \<open>Statistics\<close>

lemma stats_status_counts [simp]:
  "ns_claimable (stats_status n s) = ns_claimable s" "ns_total (stats_status n s) = ns_total s"
  "ns_pending (stats_status n s) = (if nt_delivery n = DeliveryPending then i64 (ns_pending s + 1) else ns_pending s)"
  "ns_delivering (stats_status n s) = (if nt_delivery n = DeliveryDelivering then i64 (ns_delivering s + 1) else ns_delivering s)"
  "ns_delivered (stats_status n s) = (if nt_delivery n = DeliveryDelivered then i64 (ns_delivered s + 1) else ns_delivered s)"
  "ns_failed (stats_status n s) = (if nt_delivery n = DeliveryFailed then i64 (ns_failed s + 1) else ns_failed s)"
  "ns_dead (stats_status n s) = (if nt_delivery n = DeliveryDeadLettered then i64 (ns_dead s + 1) else ns_dead s)"
  by (simp_all add: stats_status_def)

lemma keep_if: "f x = f y \<Longrightarrow> f (if c then x else y) = f y"
  by simp

lemma keep_claimable:
  "ns_claimable (if c then s\<lparr>ns_next := x\<rparr> else s) = ns_claimable s"
  "ns_claimable (if c then s\<lparr>ns_leased := x\<rparr> else s) = ns_claimable s"
  "ns_claimable (if c then s\<lparr>ns_oldest := x\<rparr> else s) = ns_claimable s"
  "ns_claimable (if c then s\<lparr>ns_claimable := x\<rparr> else s) = (if c then x else ns_claimable s)"
  by simp_all

lemma stats_step_claimable:
  "ns_claimable (stats_step now n s) = (if deliveryClaimableAt now n then i64 (ns_claimable s + 1) else ns_claimable s)"
  unfolding stats_step_def Let_def keep_claimable by simp

lemma stats_step_counts:
  "ns_total (stats_step now n s) = i64 (ns_total s + 1)"
  "ns_pending (stats_step now n s) = (if nt_delivery n = DeliveryPending then i64 (ns_pending s + 1) else ns_pending s)"
  "ns_delivering (stats_step now n s) = (if nt_delivery n = DeliveryDelivering then i64 (ns_delivering s + 1) else ns_delivering s)"
  "ns_delivered (stats_step now n s) = (if nt_delivery n = DeliveryDelivered then i64 (ns_delivered s + 1) else ns_delivered s)"
  "ns_failed (stats_step now n s) = (if nt_delivery n = DeliveryFailed then i64 (ns_failed s + 1) else ns_failed s)"
  "ns_dead (stats_step now n s) = (if nt_delivery n = DeliveryDeadLettered then i64 (ns_dead s + 1) else ns_dead s)"
  by (simp_all add: stats_step_def Let_def keep_if [of ns_total] keep_if [of ns_pending] keep_if [of ns_delivering] keep_if [of ns_delivered]
      keep_if [of ns_failed] keep_if [of ns_dead] cong: if_cong split del: if_split)

text \<open>A counter of the loop that steps on some records counts them.\<close>

lemma fold_counter:
  assumes "\<And>n s. f (stats_step now n s) = (if P n then i64 (f s + 1) else f s)" and "0 \<le> f s" and "f s + int (length ns) < 2 ^ 63"
  shows "f (fold (stats_step now) ns s) = f s + int (length (filter P ns))"
  using assms(2,3)
proof (induction ns arbitrary: s)
  case (Cons n ns)
  have "f (stats_step now n s) = f s + (if P n then 1 else 0)" using Cons.prems by (simp add: assms(1) i64_nonneg_id)
  with Cons show ?case by simp
qed simp

lemma stats_counts:
  fixes clock now :: gotime
  assumes "int (length ns) < 2 ^ 63"
  defines "s \<equiv> scheduledRunNotificationStatsFromRecords clock ns now"
  shows "ns_claimable s = int (length (filter (deliveryClaimableAt (or_clock clock now)) ns))"
    and "ns_total s = int (length ns)"
    and "ns_pending s = int (length (filter (\<lambda>n. nt_delivery n = DeliveryPending) ns))"
    and "ns_delivering s = int (length (filter (\<lambda>n. nt_delivery n = DeliveryDelivering) ns))"
    and "ns_delivered s = int (length (filter (\<lambda>n. nt_delivery n = DeliveryDelivered) ns))"
    and "ns_failed s = int (length (filter (\<lambda>n. nt_delivery n = DeliveryFailed) ns))"
    and "ns_dead s = int (length (filter (\<lambda>n. nt_delivery n = DeliveryDeadLettered) ns))"
  unfolding s_def scheduledRunNotificationStatsFromRecords_def Let_def
  using fold_counter [of ns_claimable "or_clock clock now" "deliveryClaimableAt (or_clock clock now)" zero_stats ns]
    fold_counter [of ns_total "or_clock clock now" "\<lambda>_. True" zero_stats ns]
    fold_counter [of ns_pending "or_clock clock now" "\<lambda>n. nt_delivery n = DeliveryPending" zero_stats ns]
    fold_counter [of ns_delivering "or_clock clock now" "\<lambda>n. nt_delivery n = DeliveryDelivering" zero_stats ns]
    fold_counter [of ns_delivered "or_clock clock now" "\<lambda>n. nt_delivery n = DeliveryDelivered" zero_stats ns]
    fold_counter [of ns_failed "or_clock clock now" "\<lambda>n. nt_delivery n = DeliveryFailed" zero_stats ns]
    fold_counter [of ns_dead "or_clock clock now" "\<lambda>n. nt_delivery n = DeliveryDeadLettered" zero_stats ns] assms(1)
  by (simp_all add: stats_step_claimable stats_step_counts zero_stats_def)

lemma list_loop_all: "nf_limit f \<le> 0 \<Longrightarrow> list_loop f out ns = out @ filter (filter_matches f) ns"
  by (induction ns arbitrary: out) (simp_all add: Let_def)

lemma or_clock_idem [simp]: "or_clock clock (or_clock clock t) = or_clock clock t"
  by (simp add: or_clock_def)

text \<open>The fallback for stores without statistics of their own gives what the store itself would give.\<close>

lemma stats_fallback:
  "GetScheduledRunNotificationStats False ctxerr clock now store = GetScheduledRunNotificationStats True ctxerr clock now store"
  by (cases store; cases "the store"; cases ctxerr)
    (simp_all add: GetScheduledRunNotificationStats_def ScheduledRunNotificationStats_def ListScheduledRunNotifications_def list_loop_all
      filter_matches_def Let_def)

lemma claim_before_strict_weak: "strict_weak claim_before"
proof -
  have "claim_before = (\<lambda>a b. if nt_after a \<noteq> nt_after b then nt_after a < nt_after b
      else if nt_created a \<noteq> nt_created b then nt_created a < nt_created b else str_less (nt_id a) (nt_id b))" (is "_ = ?lt")
    by (intro ext) (simp add: claim_before_def)
  moreover have "strict_weak ?lt" by (rule strict_weak_lex, rule strict_weak_lex, rule strict_weak_on, rule str_less_strict_weak)
  ultimately show ?thesis by simp
qed

lemma sorted_take_drop:
  "sorted_wrt P xs \<Longrightarrow> x \<in> set (take k xs) \<Longrightarrow> y \<in> set (drop k xs) \<Longrightarrow> P x y"
  by (metis append_take_drop_id sorted_wrt_append)

text \<open>
  A claim takes exactly as many records as its limit and the \<open>ClaimableCount\<close> of the statistics at that time allow.
  Each was due, and is leased to the worker with one more attempt; every other record is as before, and one that was
  due but left behind comes after none of the claimed in the order of due time, creation time and id.
\<close>

theorem claim_takes_most_overdue:
  assumes "outbox_path as NewMemoryScheduledRunNotificationStore b" and "int (length (ob_ids b)) < 2 ^ 63"
    and "normalize_claim clock q = Inr c" and "ClaimScheduledRunNotifications None clock q (Some b) = Inr (ns, b', evs)"
  shows "(\<exists>s. ScheduledRunNotificationStats None clock (cr_now c) (Some b) = Inr s \<and> int (length ns) = min (cr_limit c) (ns_claimable s))
    \<and> (n \<in> set ns \<longrightarrow> (\<exists>m. map_of (ob_byid b) (nt_id n) = Some m \<and> deliveryClaimableAt (cr_now c) m \<and> n = lease_notification c m
         \<and> map_of (ob_byid b') (nt_id n) = Some n
         \<and> (map_of (ob_byid b) i = Some l \<and> i \<notin> nt_id ` set ns \<longrightarrow>
              map_of (ob_byid b') i = Some l \<and> (deliveryClaimableAt (cr_now c) l \<longrightarrow> \<not> claim_before l m))))"
proof -
  have ok: "outbox_ok b" using assms(1) new_outbox_ok by (rule outbox_path_ok)
  note e = claim_effect [OF ok assms(4,3)] and w = normalize_claim_ok [OF assms(3)]
  let ?cs = "claim_candidates (cr_now c) b" and ?k = "nat (cr_limit c)"
  have now: "or_clock clock (cr_now c) = cr_now c" using assms(3) by (auto simp: normalize_claim_def split: if_splits)
  have ns: "ns = map (lease_notification c) (take ?k ?cs)" using assms(3,4) by (auto elim!: ClaimD)
  have "ns_claimable (scheduledRunNotificationStatsFromRecords clock (map (at_id b) (ob_ids b)) (cr_now c)) = int (length ?cs)"
    using assms(2) by (subst stats_counts(1)) (simp_all add: now claim_candidates_def)
  then have "\<exists>s. ScheduledRunNotificationStats None clock (cr_now c) (Some b) = Inr s \<and> int (length ns) = min (cr_limit c) (ns_claimable s)"
    using w by (simp add: ScheduledRunNotificationStats_def now ns of_nat_min min.commute)
  moreover have "\<exists>m. map_of (ob_byid b) (nt_id n) = Some m \<and> deliveryClaimableAt (cr_now c) m \<and> n = lease_notification c m
      \<and> map_of (ob_byid b') (nt_id n) = Some n
      \<and> (map_of (ob_byid b) i = Some l \<and> i \<notin> nt_id ` set ns \<longrightarrow>
           map_of (ob_byid b') i = Some l \<and> (deliveryClaimableAt (cr_now c) l \<longrightarrow> \<not> claim_before l m))" if n: "n \<in> set ns"
  proof -
    from n ns obtain m where m: "m \<in> set (take ?k ?cs)" "n = lease_notification c m" by auto
    then have "m \<in> set ?cs" by (meson in_set_takeD)
    then have mm: "map_of (ob_byid b) (nt_id n) = Some m" "deliveryClaimableAt (cr_now c) m"
      using claim_candidates_spec(2) [OF ok] m(2) by auto
    have "nt_id n \<in> nt_id ` set ns" using n by (rule imageI)
    then have "map_of (ob_byid b') (nt_id n) = Some n" unfolding e(3) using mm(1) m(2) by (simp only: if_True option.map)
    moreover have "\<not> claim_before l m" if l: "map_of (ob_byid b) i = Some l" "i \<notin> nt_id ` set ns" "deliveryClaimableAt (cr_now c) l"
    proof -
      have "nt_id l = i" using outbox_okD [OF ok l(1)] by simp
      then have "l \<in> set ?cs" "l \<notin> set (take ?k ?cs)" using l claim_candidates_spec(2) [OF ok] by (auto simp: ns image_image)
      then have "l \<in> set (drop ?k ?cs)" by (metis Un_iff append_take_drop_id set_append)
      with m(1) show ?thesis
        using sorted_take_drop [OF sorted_stable_sort [OF claim_before_strict_weak]] unfolding claim_candidates_def by blast
    qed
    ultimately show ?thesis using mm m(2) e(3) [of i] by auto
  qed
  ultimately show ?thesis by blast
qed

theorem claim_takes_most_overdue_witness:
  "\<exists>s. ScheduledRunNotificationStats None 10 10 (Some sample_outbox) = Inr s \<and> 1 = min 3 (ns_claimable s)"
proof -
  have "int (length (ob_ids sample_outbox)) < 2 ^ 63" "cr_now sample_claim = 10" "cr_limit sample_claim = 3"
    by (simp_all add: sample_outbox_def sample_claim_def)
  with claim_takes_most_overdue [OF sample_outbox_path _ sample_normalize sample_claimed, THEN conjunct1] show ?thesis by simp
qed

section \<open>Retries\<close>

lemma backoff_loop_eq: "0 < delay \<Longrightarrow> min day (backoff_loop attempts i delay) = min day (delay * 2 ^ nat (attempts - i))"
proof (induction attempts i delay rule: backoff_loop.induct)
  case (1 attempts i delay)
  show ?case
  proof (cases "i < attempts \<and> delay < day")
    case True
    then have "i64 (delay * 2) = delay * 2" using 1(2) by (intro i64_nonneg_id) (simp_all add: day_def)
    moreover have "nat (attempts - i) = Suc (nat (attempts - (i + 1)))" using True by linarith
    ultimately show ?thesis using 1 True by (subst backoff_loop.simps) simp
  next
    case False
    have "delay \<le> delay * 2 ^ nat (attempts - i)" using 1(2) by simp
    moreover have "nat (attempts - i) = 0" if "\<not> i < attempts" using that by simp
    ultimately show ?thesis using False by (subst backoff_loop.simps) (cases "i < attempts"; simp)
  qed
qed

text \<open>
  The default retry time is one minute after the failure for the first attempt, twice as long for each further
  one, and never more than 24 hours: the loop computes exactly this bounded power of two, without overflow for any
  number of attempts.
\<close>

theorem retry_backoff_closed_form:
  "DefaultScheduledRunNotificationRetryBackoff n e now
   = now + min (24 * 3600 * 1000000000) (60 * 1000000000 * 2 ^ nat (max 1 (nt_attempts n) - 1))"
proof -
  have "max 1 (nt_attempts n) = (if nt_attempts n \<le> 0 then 1 else nt_attempts n)" by auto
  moreover have "(if day < d then day else d) = min day d" for d by (simp add: min_def)
  ultimately have "DefaultScheduledRunNotificationRetryBackoff n e now = now + min day (backoff_loop (max 1 (nt_attempts n)) 1 (60 * 1000000000))"
    by (simp add: DefaultScheduledRunNotificationRetryBackoff_def Let_def)
  also have "\<dots> = now + min day (60 * 1000000000 * 2 ^ nat (max 1 (nt_attempts n) - 1))"
    by (subst backoff_loop_eq) simp_all
  finally show ?thesis by (simp only: day_def)
qed

end
