(* ===== verification/Notification_Drain.thy ===== *)
theory Notification_Drain
  imports Notification_Contract
begin

text \<open>
  The clients of the outbox: drain passes, which account for every record they claim under any interference of other
  workers, and the notifier, which has a notification for exactly the scheduled runs that have ended.
\<close>

section \<open>A pass among other workers\<close>

inductive drain_move :: "drain \<times> outbox \<Rightarrow> drain \<times> outbox \<Rightarrow> bool" where
  own: "drain_step clock ctxerr h d (Some b) = (d', Some b', evs) \<Longrightarrow> drain_move (d, b) (d', b')"
| other: "outbox_step a b b' \<Longrightarrow> drain_move (d, b) (d, b')"

text \<open>A step of a pass is a step of the outbox or leaves the outbox alone.\<close>

lemma normalize_claim_of: "ClaimScheduledRunNotifications ctxerr clock q (Some b) = Inr (ns, b', evs) \<Longrightarrow> \<exists>c. normalize_claim clock q = Inr c"
  by (auto elim!: ClaimD)

lemma drain_step_outbox:
  assumes "drain_step clock ctxerr h d (Some b) = (d', Some b', evs)"
  shows "b' = b \<or> (\<exists>a. outbox_step a b b')"
proof (cases "dn_pc d")
  case DrClaim
  then show ?thesis using assms
    by (auto simp: drain_step_def Let_def split: sum.splits) (metis normalize_claim_of outbox_step.claiming)
next
  case (DrNext rs)
  then show ?thesis using assms by (auto simp: drain_step_def Let_def split: list.splits option.splits)
next
  case (DrAck r a rs)
  then show ?thesis using assms
    by (auto simp: drain_step_def Let_def split: option.splits sum.splits if_splits
        intro: outbox_step.delivered outbox_step.failing outbox_step.burying)
next
  case (DrReturned e)
  then show ?thesis using assms by (simp add: drain_step_def)
qed

lemma drain_move_ok: "drain_move x y \<Longrightarrow> outbox_ok (snd x) \<Longrightarrow> outbox_ok (snd y)"
  by (induction rule: drain_move.induct) (auto dest: drain_step_outbox outbox_step_ok)

section \<open>Accounting\<close>

definition acked :: "drain_result \<Rightarrow> string multiset" where
  "acked r = mset (map nt_id (dr_delivered r)) + mset (map (nt_id \<circ> fst) (dr_failed r)) + mset (map (nt_id \<circ> fst) (dr_dead r))"

fun unacked :: "drain_pc \<Rightarrow> notification list" where
  "unacked DrClaim = []"
| "unacked (DrNext rs) = rs"
| "unacked (DrAck r h rs) = r # rs"
| "unacked (DrReturned e) = []"

definition outcomes_ok :: "drain_config \<Rightarrow> drain_result \<Rightarrow> bool" where
  "outcomes_ok c r \<longleftrightarrow> (\<forall>n \<in> set (dr_delivered r). nt_delivery n = DeliveryDelivered)
     \<and> (\<forall>p \<in> set (dr_failed r). nt_delivery (fst p) = DeliveryFailed)
     \<and> (\<forall>p \<in> set (dr_dead r). nt_delivery (fst p) = DeliveryDeadLettered \<and> 0 < dc_max c)"

definition drain_inv :: "drain \<Rightarrow> bool" where
  "drain_inv d \<longleftrightarrow> (let r = dn_result d in
     (dn_pc d = DrClaim \<longrightarrow> r = no_result) \<and> outcomes_ok (dn_config d) r
     \<and> list_all notification_ok (dr_claimed r) \<and> set (unacked (dn_pc d)) \<subseteq> set (dr_claimed r)
     \<and> distinct (map nt_id (dr_claimed r)) \<and> int (length (dr_claimed r)) \<le> max 1 (dc_limit (dn_config d))
     \<and> (if \<exists>e. dn_pc d = DrReturned (Some e) then acked r \<subseteq># mset (map nt_id (dr_claimed r))
        else mset (map nt_id (dr_claimed r)) = acked r + mset (map nt_id (unacked (dn_pc d)))))"

lemma acked_simps [simp]:
  "acked (r\<lparr>dr_delivered := dr_delivered r @ [n]\<rparr>) = add_mset (nt_id n) (acked r)"
  "acked (r\<lparr>dr_failed := dr_failed r @ [p]\<rparr>) = add_mset (nt_id (fst p)) (acked r)"
  "acked (r\<lparr>dr_dead := dr_dead r @ [p]\<rparr>) = add_mset (nt_id (fst p)) (acked r)"
  "acked (r\<lparr>dr_claimed := ns\<rparr>) = acked r" "acked no_result = {#}"
  by (simp_all add: acked_def no_result_def)

lemma claimed_ok:
  assumes "ClaimScheduledRunNotifications ctxerr clock q (Some b) = Inr (ns, b', evs)" and "outbox_ok b"
  shows "list_all notification_ok ns \<and> distinct (map nt_id ns) \<and> int (length ns) \<le> max 1 (cr_limit q)"
proof -
  from normalize_claim_of [OF assms(1)] obtain c where c: "normalize_claim clock q = Inr c" by blast
  note e = claim_effect [OF assms(2,1) c] and w = normalize_claim_ok [OF c]
  have "notification_ok n" if n: "n \<in> set ns" for n
    using e(4) [OF n] w outbox_okD [OF assms(2)] lease_ok by blast
  moreover have "int (length ns) \<le> max 1 (cr_limit q)" using claim_length [OF assms(1)] by linarith
  ultimately show ?thesis using e(2) by (auto simp: list_all_iff)
qed

lemma drain_inv_claim:
  assumes inv: "drain_inv d" and ok: "outbox_ok b" and pc: "dn_pc d = DrClaim"
    and step: "drain_step clock ctxerr h d (Some b) = (d', Some b', evs)"
  shows "drain_inv d'"
proof -
  let ?now = "scheduledRunNotificationDrainNow clock (dn_config d)"
  let ?q = "\<lparr>cr_worker = dn_worker d, cr_limit = dc_limit (dn_config d), cr_now = ?now, cr_lease = dc_lease (dn_config d)\<rparr>"
  from inv pc have r: "dn_result d = no_result" by (simp add: drain_inv_def Let_def)
  show ?thesis
  proof (cases "ClaimScheduledRunNotifications ctxerr clock ?q (Some b)")
    case (Inl e)
    then show ?thesis using step inv pc r by (auto simp: drain_step_def drain_inv_def Let_def no_result_def acked_def outcomes_ok_def)
  next
    case (Inr p)
    obtain ns b1 evs1 where p: "p = (ns, b1, evs1)" by (rule prod_cases3)
    from claimed_ok [OF Inr [unfolded p] ok] step pc Inr p r show ?thesis
      by (auto simp: drain_step_def drain_inv_def Let_def no_result_def acked_def outcomes_ok_def)
  qed
qed

text \<open>An acknowledgement moves one record from what is left to one of the three results.\<close>

lemma drain_inv_acked:
  assumes inv: "drain_inv d" and pc: "dn_pc d = DrAck r a rs"
    and res: "dr_claimed res = dr_claimed (dn_result d)" "acked res = add_mset (nt_id r) (acked (dn_result d))" "outcomes_ok (dn_config d) res"
  shows "drain_inv (d\<lparr>dn_result := res, dn_pc := DrNext rs\<rparr>)"
  using inv pc res by (auto simp: drain_inv_def Let_def)

lemma drain_inv_error:
  assumes "drain_inv d" and "dn_pc d \<noteq> DrClaim" and "\<not> drain_over d"
  shows "drain_inv (d\<lparr>dn_pc := DrReturned (Some e)\<rparr>)"
  using assms by (auto simp: drain_inv_def Let_def drain_over_def split: drain_pc.splits)

lemma drain_inv_ack:
  assumes inv: "drain_inv d" and ok: "outbox_ok b" and pc: "dn_pc d = DrAck r a rs"
    and step: "drain_step clock ctxerr h d (Some b) = (d', Some b', evs)"
  shows "drain_inv d'"
proof -
  let ?res = "dn_result d" and ?c = "dn_config d" and ?now = "scheduledRunNotificationDrainNow clock (dn_config d)"
  from inv pc have rok: "notification_ok r" and out: "outcomes_ok ?c ?res" by (auto simp: drain_inv_def Let_def list_all_iff)
  then have tr: "trim_space (nt_id r) = nt_id r" by (simp add: notification_ok_def)
  have err: "drain_inv (d\<lparr>dn_pc := DrReturned (Some e)\<rparr>)" for e
    using inv by (rule drain_inv_error) (simp_all add: pc drain_over_def)
  note acked = drain_inv_acked [OF inv pc]
  show ?thesis
  proof (cases a)
    case None
    show ?thesis
    proof (cases "MarkScheduledRunNotificationDelivered ctxerr clock \<lparr>dq_id = nt_id r, dq_worker = dn_worker d, dq_at = ?now\<rparr> (Some b)")
      case (Inr p)
      obtain n b1 evs1 where p: "p = (n, b1, evs1)" by (rule prod_cases3)
      from Inr [unfolded p] ok have n: "nt_id n = nt_id r" "nt_delivery n = DeliveryDelivered" by (rule DeliveredD, simp add: tr)+
      then show ?thesis using step pc None Inr p acked [of "?res\<lparr>dr_delivered := dr_delivered ?res @ [n]\<rparr>"] out
        by (simp add: drain_step_def Let_def outcomes_ok_def)
    qed (use step pc None err in \<open>auto simp: drain_step_def Let_def\<close>)
  next
    case (Some x)
    show ?thesis
    proof (cases "0 < dc_max ?c \<and> dc_max ?c \<le> nt_attempts r")
      case True
      show ?thesis
      proof (cases "MarkScheduledRunNotificationDeadLettered ctxerr clock \<lparr>xq_id = nt_id r, xq_worker = dn_worker d,
            xq_error = scheduledRunNotificationDeliveryErrorText x, xq_at = ?now\<rparr> (Some b)")
        case (Inr p)
        obtain n b1 evs1 where p: "p = (n, b1, evs1)" by (rule prod_cases3)
        from Inr [unfolded p] ok have n: "nt_id n = nt_id r" "nt_delivery n = DeliveryDeadLettered" by (rule DeadLetteredD, simp add: tr)+
        then show ?thesis using step pc Some True Inr p acked [of "?res\<lparr>dr_dead := dr_dead ?res @ [(n, x)]\<rparr>"] out
          by (simp add: drain_step_def Let_def outcomes_ok_def)
      qed (use step pc Some True err in \<open>auto simp: drain_step_def Let_def\<close>)
    next
      case False
      show ?thesis
      proof (cases "MarkScheduledRunNotificationFailed ctxerr clock clock \<lparr>fq_id = nt_id r, fq_worker = dn_worker d,
            fq_error = scheduledRunNotificationDeliveryErrorText x, fq_retry = drain_retry ?c r x ?now, fq_at = ?now\<rparr> (Some b)")
        case (Inr p)
        obtain n b1 evs1 where p: "p = (n, b1, evs1)" by (rule prod_cases3)
        from Inr [unfolded p] ok have n: "nt_id n = nt_id r" "nt_delivery n = DeliveryFailed" by (rule FailedD, simp add: tr)+
        then show ?thesis using step pc Some False Inr p acked [of "?res\<lparr>dr_failed := dr_failed ?res @ [(n, x)]\<rparr>"] out
          by (auto simp: drain_step_def Let_def outcomes_ok_def)
      qed (use step pc Some False err in \<open>auto simp: drain_step_def Let_def\<close>)
    qed
  qed
qed

lemma drain_inv_step:
  assumes inv: "drain_inv d" and ok: "outbox_ok b" and step: "drain_step clock ctxerr h d (Some b) = (d', Some b', evs)"
  shows "drain_inv d'"
proof (cases "dn_pc d")
  case DrClaim
  then show ?thesis by (rule drain_inv_claim [OF inv ok _ step])
next
  case (DrNext rs)
  have err: "drain_inv (d\<lparr>dn_pc := DrReturned (Some e)\<rparr>)" for e
    using inv by (rule drain_inv_error) (simp_all add: DrNext drain_over_def)
  show ?thesis
  proof (cases rs)
    case Nil
    moreover have "drain_inv (d\<lparr>dn_pc := DrReturned None\<rparr>)" using inv DrNext Nil by (simp add: drain_inv_def Let_def)
    ultimately show ?thesis using step DrNext by (auto simp: drain_step_def Let_def)
  next
    case (Cons r rs')
    moreover have "drain_inv (d\<lparr>dn_pc := DrAck r h rs'\<rparr>)" using inv DrNext Cons by (simp add: drain_inv_def Let_def)
    ultimately show ?thesis using step DrNext err by (cases ctxerr) (auto simp: drain_step_def Let_def)
  qed
next
  case (DrAck r a rs)
  then show ?thesis by (rule drain_inv_ack [OF inv ok _ step])
next
  case (DrReturned e)
  with inv step show ?thesis by (simp add: drain_step_def)
qed

lemma drain_moves_inv:
  assumes "drain_move\<^sup>*\<^sup>* x y" and "drain_inv (fst x)" and "outbox_ok (snd x)"
  shows "drain_inv (fst y) \<and> outbox_ok (snd y) \<and> dn_config (fst y) = dn_config (fst x)"
  using assms
proof (induction rule: rtranclp_induct)
  case (step y z)
  then have "drain_inv (fst y)" "outbox_ok (snd y)" by simp_all
  moreover have "dn_config (fst z) = dn_config (fst y)"
    using step.hyps(2) by (induction rule: drain_move.induct)
      (auto simp: drain_step_def Let_def split: drain_pc.splits list.splits option.splits sum.splits if_splits)
  ultimately show ?case
    using step drain_move_ok [OF step.hyps(2)] by (auto simp: drain_move.simps dest: drain_inv_step)
qed simp

section \<open>A pass on its own\<close>

text \<open>What the pass still has to acknowledge is leased to it in the outbox.\<close>

definition holds_leases :: "drain \<Rightarrow> outbox \<Rightarrow> bool" where
  "holds_leases d b \<longleftrightarrow> dn_worker d \<noteq> [] \<and> trim_space (dn_worker d) = dn_worker d \<and> distinct (map nt_id (unacked (dn_pc d)))
     \<and> (\<forall>r \<in> set (unacked (dn_pc d)). map_of (ob_byid b) (nt_id r) = Some r \<and> nt_delivery r = DeliveryDelivering \<and> nt_worker r = dn_worker d)
     \<and> (\<forall>e. dn_pc d \<noteq> DrReturned (Some e))"

lemma error_text [simp]:
  "scheduledRunNotificationDeliveryErrorText x \<noteq> []" "trim_space (scheduledRunNotificationDeliveryErrorText x) = scheduledRunNotificationDeliveryErrorText x"
proof -
  have "trim_space ''scheduled run notification delivery failed'' = ''scheduled run notification delivery failed''" by (simp add: ascii_trim)
  then show "scheduledRunNotificationDeliveryErrorText x \<noteq> []"
      "trim_space (scheduledRunNotificationDeliveryErrorText x) = scheduledRunNotificationDeliveryErrorText x"
    by (simp_all add: scheduledRunNotificationDeliveryErrorText_def Let_def)
qed

lemma claim_leases:
  assumes ok: "outbox_ok b" and w: "dn_worker d \<noteq> []" "trim_space (dn_worker d) = dn_worker d" and pc: "dn_pc d = DrClaim"
  shows "\<exists>d' b' evs. drain_step clock None h d (Some b) = (d', Some b', evs) \<and> holds_leases d' b'"
proof -
  let ?q = "\<lparr>cr_worker = dn_worker d, cr_limit = dc_limit (dn_config d), cr_now = scheduledRunNotificationDrainNow clock (dn_config d),
             cr_lease = dc_lease (dn_config d)\<rparr>"
  obtain c where c: "normalize_claim clock ?q = Inr c" "cr_worker c = dn_worker d" using w by (simp add: normalize_claim_def)
  then obtain ns b' evs where cl: "ClaimScheduledRunNotifications None clock ?q (Some b) = Inr (ns, b', evs)"
    by (simp add: ClaimScheduledRunNotifications_def Let_def)
  note e = claim_effect [OF ok cl c(1)]
  have "map_of (ob_byid b') (nt_id r) = Some r \<and> nt_delivery r = DeliveryDelivering \<and> nt_worker r = dn_worker d" if r: "r \<in> set ns" for r
  proof -
    from e(4) [OF r] obtain m where m: "map_of (ob_byid b) (nt_id r) = Some m" "r = lease_notification c m" by blast
    have "nt_id r \<in> nt_id ` set ns" using r by (rule imageI)
    then have "map_of (ob_byid b') (nt_id r) = Some r" unfolding e(3) using m by (simp only: if_True option.map)
    moreover have "nt_delivery r = DeliveryDelivering" "nt_worker r = dn_worker d" using m(2) c(2) by (simp_all add: lease_notification_def)
    ultimately show ?thesis by blast
  qed
  then show ?thesis using pc cl w e(2) by (simp add: drain_step_def Let_def holds_leases_def)
qed

text \<open>Acknowledging one record leaves the other leases alone.\<close>

lemma holds_leases_put:
  assumes "holds_leases d b" and "dn_pc d = DrAck r a rs" and "nt_id n = nt_id r"
  shows "holds_leases (d\<lparr>dn_result := res, dn_pc := DrNext rs\<rparr>) (put_notification n b)"
proof -
  from assms(1,2) have "nt_id r \<notin> nt_id ` set rs" by (simp add: holds_leases_def)
  then have "nt_id q \<noteq> nt_id n" if "q \<in> set rs" for q using that assms(3) by (metis imageI)
  then show ?thesis using assms(1,2) by (simp add: holds_leases_def)
qed

lemma ack_succeeds:
  assumes ok: "outbox_ok b" and held: "holds_leases d b" and pc: "dn_pc d = DrAck r a rs"
  shows "\<exists>d' b' evs. drain_step clock None h d (Some b) = (d', Some b', evs) \<and> holds_leases d' b'"
proof -
  from held pc have r: "map_of (ob_byid b) (nt_id r) = Some r" "nt_delivery r = DeliveryDelivering" "nt_worker r = dn_worker d"
    and w: "dn_worker d \<noteq> []" "trim_space (dn_worker d) = dn_worker d"
    by (simp_all add: holds_leases_def)
  have i: "nt_id r \<noteq> []" "trim_space (nt_id r) = nt_id r" using outbox_okD [OF ok r(1)] by (simp_all add: notification_ok_def)
  have e: "ensureDeliveryWorker (dn_worker d) r = None" using r by (simp add: ensureDeliveryWorker_def)
  have step: ?thesis
    if "drain_step clock None h d (Some b) = (d\<lparr>dn_result := res, dn_pc := DrNext rs\<rparr>, Some (put_notification n b), evs)" "nt_id n = nt_id r"
    for res n evs
    using that holds_leases_put [OF held pc that(2)] by blast
  show ?thesis
  proof (cases a)
    case None
    obtain n evs where "MarkScheduledRunNotificationDelivered None clock \<lparr>dq_id = nt_id r, dq_worker = dn_worker d,
        dq_at = scheduledRunNotificationDrainNow clock (dn_config d)\<rparr> (Some b) = Inr (n, put_notification n b, evs)" "nt_id n = nt_id r"
      using r(1,2) w i e by (simp add: MarkScheduledRunNotificationDelivered_def normalize_delivered_def Let_def)
    then show ?thesis by (intro step [of "(dn_result d)\<lparr>dr_delivered := dr_delivered (dn_result d) @ [n]\<rparr>" n evs]) (simp_all add: drain_step_def Let_def pc None)
  next
    case (Some x)
    show ?thesis
    proof (cases "0 < dc_max (dn_config d) \<and> dc_max (dn_config d) \<le> nt_attempts r")
      case True
      obtain n evs where "MarkScheduledRunNotificationDeadLettered None clock \<lparr>xq_id = nt_id r, xq_worker = dn_worker d,
          xq_error = scheduledRunNotificationDeliveryErrorText x, xq_at = scheduledRunNotificationDrainNow clock (dn_config d)\<rparr> (Some b)
          = Inr (n, put_notification n b, evs)" "nt_id n = nt_id r"
        using r(1) w i e by (simp add: MarkScheduledRunNotificationDeadLettered_def normalize_dead_def Let_def)
      then show ?thesis by (intro step [of "(dn_result d)\<lparr>dr_dead := dr_dead (dn_result d) @ [(n, x)]\<rparr>" n evs]) (simp_all add: drain_step_def Let_def pc Some True)
    next
      case False
      obtain n evs where "MarkScheduledRunNotificationFailed None clock clock \<lparr>fq_id = nt_id r, fq_worker = dn_worker d,
          fq_error = scheduledRunNotificationDeliveryErrorText x, fq_retry = drain_retry (dn_config d) r x (scheduledRunNotificationDrainNow clock (dn_config d)),
          fq_at = scheduledRunNotificationDrainNow clock (dn_config d)\<rparr> (Some b) = Inr (n, put_notification n b, evs)" "nt_id n = nt_id r"
        using r(1) w i e by (simp add: MarkScheduledRunNotificationFailed_def normalize_failed_def Let_def)
      then show ?thesis by (intro step [of "(dn_result d)\<lparr>dr_failed := dr_failed (dn_result d) @ [(n, x)]\<rparr>" n evs]) (simp_all add: drain_step_def Let_def pc Some False)
    qed
  qed
qed

lemma alone_step:
  assumes "outbox_ok b" and "holds_leases d b" and "\<not> drain_over d"
  shows "\<exists>d' b' evs. drain_step clock None h d (Some b) = (d', Some b', evs) \<and> holds_leases d' b'"
proof (cases "dn_pc d")
  case DrClaim
  with assms show ?thesis by (intro claim_leases) (auto simp: holds_leases_def)
next
  case (DrNext rs)
  with assms(2) show ?thesis by (cases rs) (auto simp: drain_step_def Let_def holds_leases_def)
next
  case (DrAck r a rs)
  with assms show ?thesis by (intro ack_succeeds)
next
  case (DrReturned e)
  with assms(3) show ?thesis by (simp add: drain_over_def)
qed

lemma drain_pass_alone:
  assumes "outbox_ok b" and "holds_leases d b" and "\<forall>k. fst (snd (env k)) = None"
  shows "\<exists>d' b'. drain_pass env k d (Some b) = (d', Some b') \<and> dn_pc d' = DrReturned None \<and> drain_move\<^sup>*\<^sup>* (d, b) (d', b')"
  using assms
proof (induction "drain_rank d" arbitrary: d b k rule: less_induct)
  case less
  show ?case
  proof (cases "drain_over d")
    case True
    with less.prems(2) have "dn_pc d = DrReturned None" by (auto simp: drain_over_def holds_leases_def split: drain_pc.splits)
    with True show ?thesis by (simp add: drain_pass.simps)
  next
    case False
    obtain clock h where env: "env k = (clock, None, h)" using less.prems(3) by (cases "env k") (metis fst_conv snd_conv)
    from alone_step [OF less.prems(1,2) False] obtain d' b' evs where
      s: "drain_step clock None h d (Some b) = (d', Some b', evs)" "holds_leases d' b'" by blast
    have m: "drain_move (d, b) (d', b')" using s(1) by (rule drain_move.own)
    have ok': "outbox_ok b'" using drain_move_ok [OF m] less.prems(1) by simp
    have "drain_rank d' < drain_rank d" using drain_step_rank [OF False, of clock None h "Some b"] s(1) by simp
    from less.hyps [OF this ok' s(2) less.prems(3), of "Suc k"] obtain d'' b'' where
      "drain_pass env (Suc k) d' (Some b') = (d'', Some b'')" "dn_pc d'' = DrReturned None" "drain_move\<^sup>*\<^sup>* (d', b') (d'', b'')" by blast
    with m show ?thesis by (subst drain_pass.simps) (auto simp: False env s(1) intro: converse_rtranclp_into_rtranclp)
  qed
qed

lemma new_drain:
  assumes "DrainScheduledRunNotifications store handler dead w opts = Inr d"
  shows "drain_inv d \<and> holds_leases d b \<and> 1 \<le> dc_limit (dn_config d)"
  using assms
  by (auto simp: DrainScheduledRunNotifications_def drain_inv_def holds_leases_def drain_defaults_def outcomes_ok_def no_result_def
      acked_def Let_def split: if_splits)

definition sample_drain :: drain where
  "sample_drain = \<lparr>dn_worker = ''w'', dn_config = default_drain_config, dn_result = no_result, dn_pc = DrClaim\<rparr>"

lemma sample_drain_new: "DrainScheduledRunNotifications True True True ''w'' [] = Inr sample_drain"
  by (simp add: DrainScheduledRunNotifications_def sample_drain_def drain_defaults_def default_drain_config_def
      DefaultScheduledRunNotificationLeaseDuration_def)

section \<open>The theorems\<close>

text \<open>
  C15. However other workers act on the outbox meanwhile, a drain pass claims at most its limit of records, each once,
  and accounts for them: what it reports delivered, failed and dead-lettered are claimed records, each at most once and
  in that state, dead-lettered ones only under an attempt limit; and a pass that returns without error has
  acknowledged every record it claimed.
\<close>

theorem drain_accounts_for_claims:
  assumes "outbox_path as NewMemoryScheduledRunNotificationStore b0" and "DrainScheduledRunNotifications store handler dead w opts = Inr d0"
    and "drain_move\<^sup>*\<^sup>* (d0, b0) (d, b)"
  shows "distinct (map nt_id (dr_claimed (dn_result d))) \<and> int (length (dr_claimed (dn_result d))) \<le> dc_limit (dn_config d)
    \<and> acked (dn_result d) \<subseteq># mset (map nt_id (dr_claimed (dn_result d))) \<and> outcomes_ok (dn_config d) (dn_result d)
    \<and> (dn_pc d = DrReturned None \<longrightarrow> acked (dn_result d) = mset (map nt_id (dr_claimed (dn_result d))))"
proof -
  have "outbox_ok b0" using assms(1) new_outbox_ok by (rule outbox_path_ok)
  with drain_moves_inv [OF assms(3)] new_drain [OF assms(2)] have "drain_inv d" "1 \<le> dc_limit (dn_config d)" by auto
  then show ?thesis by (auto simp: drain_inv_def Let_def split: if_splits)
qed

theorem drain_accounts_for_claims_witness:
  "\<exists>d b. drain_move\<^sup>*\<^sup>* (sample_drain, sample_outbox) (d, b) \<and> dn_pc d = DrReturned None
     \<and> acked (dn_result d) = mset (map nt_id (dr_claimed (dn_result d)))"
proof -
  have ok: "outbox_ok sample_outbox" using sample_outbox_path new_outbox_ok by (rule outbox_path_ok)
  from drain_pass_alone [OF ok, of sample_drain "\<lambda>_. (10, None, Some (EText ''x''))" 0] new_drain [OF sample_drain_new]
  obtain d b where p: "drain_move\<^sup>*\<^sup>* (sample_drain, sample_outbox) (d, b)" "dn_pc d = DrReturned None" by auto
  from drain_accounts_for_claims [OF sample_outbox_path sample_drain_new p(1)] p show ?thesis by blast
qed

text \<open>
  C14. A drain pass reports no error of its handler: as long as its context lives and no other worker interferes, it
  returns without error whatever the handler answers for each record, and every record it claimed has been
  acknowledged as delivered, failed or dead-lettered.
\<close>

theorem handler_errors_do_not_fail_drain:
  assumes "outbox_path as NewMemoryScheduledRunNotificationStore b" and "DrainScheduledRunNotifications store handler dead w opts = Inr d"
    and "\<forall>k. fst (snd (env k)) = None"
  shows "\<exists>d' b'. drain_pass env 0 d (Some b) = (d', Some b') \<and> dn_pc d' = DrReturned None
    \<and> acked (dn_result d') = mset (map nt_id (dr_claimed (dn_result d')))"
proof -
  have ok: "outbox_ok b" using assms(1) new_outbox_ok by (rule outbox_path_ok)
  from drain_pass_alone [OF ok _ assms(3), of d 0] new_drain [OF assms(2)] obtain d' b' where
    p: "drain_pass env 0 d (Some b) = (d', Some b')" "dn_pc d' = DrReturned None" "drain_move\<^sup>*\<^sup>* (d, b) (d', b')" by blast
  from drain_moves_inv [OF p(3)] new_drain [OF assms(2)] ok have "drain_inv d'" by simp
  with p show ?thesis by (auto simp: drain_inv_def Let_def)
qed

theorem handler_errors_do_not_fail_drain_witness:
  "\<exists>d b. drain_pass (\<lambda>_. (10, None, Some (EText ''x''))) 0 sample_drain (Some sample_outbox) = (d, Some b) \<and> dn_pc d = DrReturned None"
  using handler_errors_do_not_fail_drain [OF sample_outbox_path sample_drain_new, of "\<lambda>_. (10, None, Some (EText ''x''))"] by auto

end
