(* ===== verification/Notification_Mirror.thy ===== *)
theory Notification_Mirror
  imports Notification_Drain
begin

text \<open>
  The notifier attached to a scheduler: what the outbox holds when the run-state events of any history of scheduled
  runs have been observed.
\<close>

section \<open>Ids\<close>

lemma decode_rune_ascii_tail:
  assumes "s \<noteq> []" and "byte c < 128"
  shows "decode_rune (s @ c # t) = decode_rune s"
proof -
  have lead: "utf8_lead x = Some (sz, lo, hi) \<Longrightarrow> 128 \<le> lo" for x sz lo hi by (auto simp: utf8_lead_def split: if_splits)
  have cont: "\<not> is_cont c" using assms(2) by (simp add: is_cont_def)
  obtain c0 cs where s: "s = c0 # cs" using assms(1) by (cases s) auto
  show ?thesis
  proof (cases cs)
    case Nil
    then show ?thesis using s assms(2) by (auto split: option.splits dest!: lead)
  next
    case (Cons c1 cs1)
    then show ?thesis using s cont by (cases cs1; cases "tl cs1") (auto split: option.splits)
  qed
qed

lemma utf8_chunks_ascii_tail:
  assumes "byte c < 128"
  shows "utf8_chunks (s @ c # t) = utf8_chunks s @ utf8_chunks (c # t)"
proof (induction s rule: utf8_chunks_induct)
  case (step s)
  from decode_rune_width [OF step.hyps(1)] have "snd (decode_rune s) \<le> length s" by simp
  then show ?case using step decode_rune_ascii_tail [OF _ assms, of s t]
    by (subst utf8_chunks_unfold, simp, subst (2) utf8_chunks_unfold) (simp_all add: case_prod_beta)
qed simp

lemma trim_space_ascii_tail:
  assumes "trim_space i = i" "i \<noteq> []" "ink_char c" "list_all ink_char t"
  shows "trim_space (i @ c # t) = i @ c # t"
proof -
  let ?P = "\<lambda>p :: nat \<times> string. is_space (fst p)"
  have ascii: "utf8_chunks u = map (\<lambda>x. (byte x, [x])) u" if "list_all ink_char u" for u
    using that by (induction u) (simp_all add: utf8_chunks_ascii ink_char_def)
  have ch: "utf8_chunks (i @ c # t) = utf8_chunks i @ map (\<lambda>x. (byte x, [x])) (c # t)"
    using assms(3,4) ascii [of "c # t"] by (subst utf8_chunks_ascii_tail) (simp_all add: ink_char_def)
  have "\<not> ?P (hd (utf8_chunks i))"
    using trim_space_hd [of i] assms(1,2) by (simp add: runes_def hd_map)
  then have 1: "dropWhile ?P (utf8_chunks (i @ c # t)) = utf8_chunks (i @ c # t)"
    using assms(2) unfolding ch by (intro dropWhile_none) simp
  have "\<not> ?P (last (utf8_chunks (i @ c # t)))"
    using assms(3,4) unfolding ch by (cases t rule: rev_cases) (auto simp: ink_char_def)
  then have 2: "dropWhile ?P (rev (utf8_chunks (i @ c # t))) = rev (utf8_chunks (i @ c # t))"
    by (intro dropWhile_none) (simp add: hd_rev)
  show ?thesis by (simp add: trim_space_def trim_left_def trim_right_def 1 2)
qed

lemma status_ink: "scheduled_Terminal s \<Longrightarrow> list_all ink_char s"
  by (auto simp: scheduled_Terminal_def ink_char_def byte_def is_space_def)

lemma notification_id_trimmed:
  assumes "trim_space i = i" "i \<noteq> []" "scheduled_Terminal s"
  shows "trim_space (scheduledRunNotificationID i s) = i @ '':'' @ s"
  using trim_space_ascii_tail [OF assms(1,2) _ status_ink [OF assms(3)], of "CHR '':''"] assms(1)
  by (simp add: scheduledRunNotificationID_def ink_char_def byte_def is_space_def)

lemma notification_id_inj:
  assumes "i @ '':'' @ s = j @ '':'' @ t" "scheduled_Terminal s" "scheduled_Terminal t"
  shows "i = j \<and> s = t"
proof -
  have "s = t"
  proof (rule ccontr)
    assume "s \<noteq> t"
    with assms(2,3) have "last s \<noteq> last t \<or> s ! (length s - 3) \<noteq> t ! (length t - 3)" by (auto simp: scheduled_Terminal_def)
    moreover have "rev s ! 2 = rev t ! 2" using arg_cong [OF assms(1), of "\<lambda>x. rev x ! 2"] assms(2,3)
      by (auto simp: scheduled_Terminal_def nth_append)
    ultimately show False using assms(2,3) \<open>s \<noteq> t\<close> by (auto simp: scheduled_Terminal_def)
  qed
  with assms(1) show ?thesis by simp
qed

section \<open>The log of the scheduler\<close>

text \<open>The runs the store has: keys once, trimmed ids, trigger names that are not blank.\<close>

definition runs_wf :: "scheduled_store option \<Rightarrow> bool" where
  "runs_wf st \<longleftrightarrow> (\<forall>s. st = Some s \<longrightarrow> distinct (map fst (ss_runs s)))
     \<and> (\<forall>i r. stored st i = Some r \<longrightarrow> sr_id r = i \<and> trim_space i = i \<and> i \<noteq> [] \<and> trim_space (sr_trigger r) \<noteq> [])"

text \<open>Each final event in the log is the event of a stored run, and each ended run has its event there.\<close>

definition log_ok :: "scheduled_store option \<Rightarrow> run_state_event list \<Rightarrow> bool" where
  "log_ok st evs \<longleftrightarrow>
     (\<forall>e \<in> set evs. scheduled_Terminal (rse_status e) \<longrightarrow> (\<exists>r. stored st (rse_run e) = Some r \<and> observeScheduledRunState r = [e]))
     \<and> (\<forall>i r. stored st i = Some r \<longrightarrow> scheduled_Terminal (sr_status r) \<longrightarrow> set (observeScheduledRunState r) \<subseteq> set evs)"

lemma observe_fields:
  "e \<in> set (observeScheduledRunState r) \<Longrightarrow> rse_run e = sr_id r \<and> rse_status e = sr_status r \<and> rse_trigger e = sr_trigger r
    \<and> observeScheduledRunState r = [e]"
  by (auto simp: observeScheduledRunState_def split: if_splits)

text \<open>How a step extends the log: it keeps ended runs, logs what it ends, and logs final events only for stored runs.\<close>

lemma log_ok_extend:
  assumes "log_ok st evs" and "stored_le st st'"
    and new: "\<And>i r. stored st' i = Some r \<Longrightarrow> scheduled_Terminal (sr_status r) \<Longrightarrow>
      stored st i = Some r \<or> set (observeScheduledRunState r) \<subseteq> set es"
    and es: "\<And>e. e \<in> set es \<Longrightarrow> scheduled_Terminal (rse_status e) \<Longrightarrow> \<exists>r. stored st' (rse_run e) = Some r \<and> observeScheduledRunState r = [e]"
  shows "log_ok st' (evs @ es)"
  unfolding log_ok_def
proof (intro conjI ballI allI impI)
  fix e assume e: "e \<in> set (evs @ es)" "scheduled_Terminal (rse_status e)"
  show "\<exists>r. stored st' (rse_run e) = Some r \<and> observeScheduledRunState r = [e]"
  proof (cases "e \<in> set es")
    case False
    with e have "e \<in> set evs" by simp
    with e(2) assms(1) obtain r where r: "stored st (rse_run e) = Some r" "observeScheduledRunState r = [e]"
      unfolding log_ok_def by blast
    have "e \<in> set (observeScheduledRunState r)" by (simp only: r(2) list.set insertI1)
    then have "rse_status e = sr_status r" using observe_fields by blast
    with e(2) have "scheduled_Terminal (sr_status r)" by (simp only:)
    with r stored_leD [OF assms(2) r(1)] show ?thesis by blast
  qed (use e es in blast)
next
  fix i r assume "stored st' i = Some r" "scheduled_Terminal (sr_status r)"
  with new [of i r] assms(1) have "set (observeScheduledRunState r) \<subseteq> set evs \<or> set (observeScheduledRunState r) \<subseteq> set es"
    unfolding log_ok_def by blast
  then show "set (observeScheduledRunState r) \<subseteq> set (evs @ es)" by auto
qed

lemma update_effect:
  assumes "UpdateScheduledRun now u st = Inr (r', s')" and "runs_wf st"
  shows "runs_wf (Some s') \<and> (\<exists>r. stored st (su_id u) = Some r
    \<and> r' = (if scheduled_Terminal (sr_status r) then r else apply_scheduled_update now u r)
    \<and> (\<forall>i. stored (Some s') i = (if i = su_id u then Some r' else stored st i)))"
proof -
  from assms obtain s r where s: "st = Some s" "map_of (ss_runs s) (su_id u) = Some r"
    by (auto simp: UpdateScheduledRun_def split: option.splits if_splits)
  have idr: "sr_id r = su_id u" using assms(2) s by (auto simp: runs_wf_def stored_def)
  have r': "r' = (if scheduled_Terminal (sr_status r) then r else apply_scheduled_update now u r)"
    and s': "s' = (if scheduled_Terminal (sr_status r) then s else s\<lparr>ss_runs := AList.update (su_id u) r' (ss_runs s)\<rparr>)"
    using assms(1) s idr by (auto simp: UpdateScheduledRun_def Let_def apply_scheduled_update_def split: if_splits)
  have st: "\<forall>i. stored (Some s') i = (if i = su_id u then Some r' else stored st i)" using s s' r' by (simp add: stored_def)
  have rf: "sr_id r' = su_id u" "sr_trigger r' = sr_trigger r" using r' idr by (simp_all add: apply_scheduled_update_def)
  have "distinct (map fst (ss_runs s'))" using assms(2) s s' by (simp add: runs_wf_def distinct_update)
  moreover have "sr_id q = i \<and> trim_space i = i \<and> i \<noteq> [] \<and> trim_space (sr_trigger q) \<noteq> []" if "stored (Some s') i = Some q" for i q
    using that st rf assms(2) s by (cases "i = su_id u") (auto simp: runs_wf_def stored_def)
  ultimately have "runs_wf (Some s')" by (auto simp: runs_wf_def)
  with s r' st show ?thesis by (auto simp: stored_def)
qed

lemma apply_keeps_open: "su_status u = [] \<or> su_status u = ScheduledRunRunning \<Longrightarrow> \<not> scheduled_Terminal (sr_status r) \<Longrightarrow>
  \<not> scheduled_Terminal (sr_status (apply_scheduled_update now u r))"
  by (auto simp: apply_scheduled_update_def scheduled_Terminal_def)

text \<open>An update that does not end a run logs nothing final; the update that ends one logs it.\<close>

lemma update_log:
  assumes up: "UpdateScheduledRun now u st = Inr (r', s')" and wf: "runs_wf st" and log: "log_ok st evs" and le: "stored_le st (Some s')"
    and es: "set es \<subseteq> set (observeScheduledRunState r')"
    and ends: "su_status u = [] \<or> su_status u = ScheduledRunRunning \<or> (scheduled_Terminal (su_status u) \<and> (sr_status r' = su_status u \<longrightarrow> es = observeScheduledRunState r'))"
  shows "runs_wf (Some s') \<and> log_ok (Some s') (evs @ es)"
proof -
  from update_effect [OF up wf] obtain r where r: "runs_wf (Some s')" "stored st (su_id u) = Some r"
      "r' = (if scheduled_Terminal (sr_status r) then r else apply_scheduled_update now u r)"
      "\<And>i. stored (Some s') i = (if i = su_id u then Some r' else stored st i)"
    by blast
  have idr: "sr_id r' = su_id u" using r(1,4) by (auto simp: runs_wf_def)
  have "log_ok (Some s') (evs @ es)"
  proof (rule log_ok_extend [OF log le])
    fix i q assume q: "stored (Some s') i = Some q" "scheduled_Terminal (sr_status q)"
    show "stored st i = Some q \<or> set (observeScheduledRunState q) \<subseteq> set es"
    proof (cases "i = su_id u \<and> \<not> scheduled_Terminal (sr_status r)")
      case True
      then have q': "q = apply_scheduled_update now u r" "q = r'" using q r by auto
      then have "scheduled_Terminal (su_status u)" using q(2) ends True apply_keeps_open by blast
      moreover from this have "sr_status q = su_status u" using q' by (auto simp: apply_scheduled_update_def scheduled_Terminal_def)
      ultimately show ?thesis using ends q' by (auto simp: scheduled_Terminal_def)
    qed (use q r in \<open>auto split: if_splits\<close>)
  next
    fix e assume "e \<in> set es" "scheduled_Terminal (rse_status e)"
    with es have "e \<in> set (observeScheduledRunState r')" by blast
    from observe_fields [OF this] idr r(4) show "\<exists>r. stored (Some s') (rse_run e) = Some r \<and> observeScheduledRunState r = [e]" by auto
  qed
  with r(1) show ?thesis by simp
qed

lemma executor_step_log:
  assumes step: "executor_step now x st = (x', st', es)" and ok: "executor_ok st x" and st: "scheduled_ok st"
    and wf: "runs_wf st" and log: "log_ok st evs"
  shows "runs_wf st' \<and> log_ok st' (evs @ es)"
proof -
  have le: "stored_le st st'" using executor_step_ok [OF step ok st] by simp
  have upd: "runs_wf (Some s') \<and> log_ok (Some s') (evs @ fs)"
    if "UpdateScheduledRun now u st = Inr (r, s')" "st' = Some s'" "set fs \<subseteq> set (observeScheduledRunState r)"
      "su_status u = [] \<or> su_status u = ScheduledRunRunning \<or> (scheduled_Terminal (su_status u) \<and> (sr_status r = su_status u \<longrightarrow> fs = observeScheduledRunState r))"
    for u r s' fs
    using update_log [OF that(1) wf log _ that(3,4)] le that(2) by simp
  show ?thesis
  proof (cases "ex_pc x")
    case ExBegin
    let ?u = "(no_scheduled_update (ex_run x))\<lparr>su_status := ScheduledRunRunning\<rparr>"
    show ?thesis
    proof (cases "UpdateScheduledRun now ?u st")
      case (Inr p)
      then show ?thesis using step ExBegin upd [of ?u "fst p" "snd p" es]
        by (cases p) (auto simp: executor_step_def split: if_splits)
    qed (use step ExBegin wf log in \<open>auto simp: executor_step_def\<close>)
  next
    case (ExEvents r qs res e)
    show ?thesis
    proof (cases "\<exists>sid parent rest. qs = SessionStarted sid parent # rest")
      case True
      then obtain sid parent rest where qs: "qs = SessionStarted sid parent # rest" by blast
      let ?u = "(no_scheduled_update (sr_id r))\<lparr>su_session := sid\<rparr>"
      show ?thesis
      proof (cases "UpdateScheduledRun now ?u st")
        case (Inr p)
        then show ?thesis using step ExEvents qs upd [of ?u "fst p" "snd p" es]
          by (cases p) (auto simp: executor_step_def scheduled_or_zero_def)
      qed (use step ExEvents qs wf log in \<open>auto simp: executor_step_def scheduled_or_zero_def\<close>)
    next
      case False
      with step ExEvents wf log show ?thesis
        by (auto simp: executor_step_def split: list.splits query_event.splits)
    qed
  next
    case (ExCheck r res e)
    with step wf log show ?thesis by (auto simp: executor_step_def split: sum.splits)
  next
    case (ExWrite r res e)
    let ?u = "final_scheduled_update now r res e"
    show ?thesis
    proof (cases "UpdateScheduledRun now ?u st")
      case (Inr p)
      then show ?thesis using step ExWrite upd [of ?u "fst p" "snd p" es]
        by (cases p) (auto simp: executor_step_def Let_def split: if_splits)
    qed (use step ExWrite wf log in \<open>auto simp: executor_step_def Let_def\<close>)
  next
    case ExReturned
    with step wf log show ?thesis by (simp add: executor_step_def)
  qed
qed

lemma StartScheduledRun_log:
  assumes start: "StartScheduledRun now query it d = Inr (r, created, d')" and inv: "scheduler_inv d"
    and wf: "runs_wf (sd_store d)" and log: "log_ok (sd_store d) (sd_log d)"
  shows "runs_wf (sd_store d') \<and> log_ok (sd_store d') (sd_log d')"
proof -
  have le: "stored_le (sd_store d) (sd_store d')" using StartScheduledRun_inv [OF start inv] by simp
  from inv obtain s where s: "sd_store d = Some s" by (auto simp: scheduler_inv_def scheduled_ok_def)
  show ?thesis
  proof (cases created)
    case False
    then have "sd_store d' = sd_store d" "sd_log d' = sd_log d"
      using start s by (auto simp: StartScheduledRun_def CreateScheduledRun_def Let_def split: if_splits option.splits)
    then show ?thesis using wf log by simp
  next
    case True
    then have d': "sd_store d' = Some (s\<lparr>ss_runs := AList.update (sr_id r) r (ss_runs s)\<rparr>)" "sd_log d' = sd_log d @ observeScheduledRunState r"
        and r: "sr_id r = trim_space (trim_space (in_id it))" "sr_id r \<noteq> []" "sr_trigger r = trim_space (trim_space (in_trigger it))" "sr_trigger r \<noteq> []"
          "sr_status r = ScheduledRunQueued"
      using start s by (auto simp: StartScheduledRun_def CreateScheduledRun_def Let_def split: if_splits option.splits)
    have st: "stored (sd_store d') i = (if i = sr_id r then Some r else stored (sd_store d) i)" for i
      using d'(1) s by (simp add: stored_def)
    have tr: "trim_space (sr_id r) = sr_id r" "trim_space (sr_trigger r) = sr_trigger r" using r(1,3) by simp_all
    have "distinct (map fst (AList.update (sr_id r) r (ss_runs s)))" using wf s by (simp add: runs_wf_def distinct_update)
    moreover have "sr_id q = i \<and> trim_space i = i \<and> i \<noteq> [] \<and> trim_space (sr_trigger q) \<noteq> []" if "stored (sd_store d') i = Some q" for i q
      using that wf tr r(2,4) st [of i] by (cases "i = sr_id r") (auto simp: runs_wf_def)
    ultimately have "runs_wf (sd_store d')" using d'(1) by (auto simp: runs_wf_def)
    moreover have open_r: "\<not> scheduled_Terminal (sr_status r)" using r(5) by (simp add: scheduled_Terminal_def)
    have "log_ok (sd_store d') (sd_log d @ observeScheduledRunState r)"
    proof (rule log_ok_extend [OF log le])
      fix i q assume "stored (sd_store d') i = Some q" "scheduled_Terminal (sr_status q)"
      then show "stored (sd_store d) i = Some q \<or> set (observeScheduledRunState q) \<subseteq> set (observeScheduledRunState r)"
        using st [of i] open_r by (auto split: if_splits)
    next
      fix e assume e: "e \<in> set (observeScheduledRunState r)" "scheduled_Terminal (rse_status e)"
      with observe_fields [OF e(1)] open_r show "\<exists>r. stored (sd_store d') (rse_run e) = Some r \<and> observeScheduledRunState r = [e]" by auto
    qed
    ultimately show ?thesis using d'(2) by simp
  qed
qed

lemma Scheduler_FailStale_log:
  assumes sweep: "Scheduler_FailStale ctxerr now before reason d = Inr (n, d')" and inv: "scheduler_inv d"
    and wf: "runs_wf (sd_store d)" and log: "log_ok (sd_store d) (sd_log d)"
  shows "runs_wf (sd_store d') \<and> log_ok (sd_store d') (sd_log d')"
proof -
  have le: "stored_le (sd_store d) (sd_store d')" using Scheduler_FailStale_inv [OF sweep inv] by simp
  define f where "f r = (if stale_scheduled before r then fail_scheduled now reason r else r)" for r
  let ?failed = "map (fail_scheduled now reason) \<circ> filter (stale_scheduled before) \<circ> map snd"
  from inv obtain s where s: "sd_store d = Some s" by (auto simp: scheduler_inv_def scheduled_ok_def)
  from sweep s have d': "sd_store d' = Some (s\<lparr>ss_runs := map (\<lambda>(i, r). (i, f r)) (ss_runs s)\<rparr>)"
      "sd_log d' = sd_log d @ concat (map observeScheduledRunState (?failed (ss_runs s)))"
    by (auto simp: Scheduler_FailStale_def FailStaleScheduledRuns_def f_def split: option.splits)
  have st: "stored (sd_store d') i = map_option f (stored (sd_store d) i)" for i
    using d'(1) s by (simp add: stored_def map_of_map_values)
  have f: "sr_id (f r) = sr_id r" "sr_trigger (f r) = sr_trigger r" for r by (simp_all add: f_def fail_scheduled_def)
  have "runs_wf (sd_store d')"
    unfolding runs_wf_def st using wf s d'(1) f by (auto simp: runs_wf_def simp del: map_map)
  moreover have "log_ok (sd_store d') (sd_log d @ concat (map observeScheduledRunState (?failed (ss_runs s))))"
  proof (rule log_ok_extend [OF log le])
    fix i q assume "stored (sd_store d') i = Some q"
    then obtain r where r: "stored (sd_store d) i = Some r" "q = f r" using st [of i] by auto
    then have "r \<in> set (map snd (ss_runs s))" using s by (auto simp: stored_def dest!: map_of_SomeD intro: rev_image_eqI)
    then show "stored (sd_store d) i = Some q \<or> set (observeScheduledRunState q) \<subseteq> set (concat (map observeScheduledRunState (?failed (ss_runs s))))"
      using r by (cases "stale_scheduled before r") (auto simp: f_def)
  next
    fix e assume "e \<in> set (concat (map observeScheduledRunState (?failed (ss_runs s))))"
    then obtain i r where r: "(i, r) \<in> set (ss_runs s)" "stale_scheduled before r" "e \<in> set (observeScheduledRunState (fail_scheduled now reason r))"
      by auto
    have "stored (sd_store d) i = Some r" using r(1) wf s by (simp add: stored_def runs_wf_def)
    then have "sr_id r = i" "stored (sd_store d') i = Some (fail_scheduled now reason r)" using wf r(2) st [of i] by (auto simp: runs_wf_def f_def)
    then show "\<exists>r. stored (sd_store d') (rse_run e) = Some r \<and> observeScheduledRunState r = [e]"
      using observe_fields [OF r(3)] by (auto simp: fail_scheduled_def)
  qed
  ultimately show ?thesis using d'(2) by simp
qed

lemma scheduled_path_log:
  assumes "scheduled_path ls d d'" and "scheduler_inv d" and "runs_wf (sd_store d)" and "log_ok (sd_store d) (sd_log d)"
  shows "runs_wf (sd_store d') \<and> log_ok (sd_store d') (sd_log d')"
  using assms
proof (induction rule: scheduled_path.induct)
  case (next_step ls d d' l d'')
  then have IH: "runs_wf (sd_store d')" "log_ok (sd_store d') (sd_log d')" and inv: "scheduler_inv d'"
    using scheduled_path_inv by auto
  from next_step.hyps(2) inv IH show ?case
  proof (induction rule: scheduled_step.induct)
    case (execute k d now)
    then have "executor_ok (sd_store d) (sd_executors d ! k)" "scheduled_ok (sd_store d)" by (simp_all add: scheduler_inv_def)
    then show ?case using executor_step_log [of now "sd_executors d ! k" "sd_store d"] execute
      by (cases "executor_step now (sd_executors d ! k) (sd_store d)") (auto simp: run_executor_def)
  qed (blast dest: StartScheduledRun_log Scheduler_FailStale_log)+
qed simp

section \<open>The notifier over the log\<close>

definition mirrored :: "unicode \<Rightarrow> gotime \<Rightarrow> run_state_event list \<Rightarrow> outbox option" where
  "mirrored U clock evs =
     fold (\<lambda>ev st. fst (ObserveEvent U None clock (Some \<lparr>no_policy = ScheduledRunNotifyDoneOnly\<rparr>) ev st)) evs
       (Some NewMemoryScheduledRunNotificationStore)"

definition event_id :: "run_state_event \<Rightarrow> string" where
  "event_id e = rse_run e @ '':'' @ rse_status e"

definition mirrors :: "notification \<Rightarrow> run_state_event \<Rightarrow> bool" where
  "mirrors n e \<longleftrightarrow> nt_id n = event_id e \<and> nt_run n = rse_run e \<and> nt_status n = rse_status e \<and> nt_result n = rse_result e
     \<and> nt_error n = rse_error e \<and> nt_prompt n = rse_prompt e \<and> nt_occurrence n = rse_occurrence e"

definition event_ok :: "run_state_event \<Rightarrow> bool" where
  "event_ok e \<longleftrightarrow> rse_run e \<noteq> [] \<and> trim_space (rse_run e) = rse_run e \<and> trim_space (rse_trigger e) \<noteq> []"

lemma ObserveEvent_open:
  "\<not> scheduled_Terminal (rse_status e) \<Longrightarrow> fst (ObserveEvent U None clock (Some \<lparr>no_policy = ScheduledRunNotifyDoneOnly\<rparr>) e st) = st"
  by (auto simp: ObserveEvent_def scheduledRunNotificationFromEvent_def shouldNotify_def split: option.splits if_splits)

lemma ObserveEvent_final:
  assumes "scheduled_Terminal (rse_status e)" and "event_ok e"
  shows "\<exists>n. mirrors n e \<and> fst (ObserveEvent U None clock (Some \<lparr>no_policy = ScheduledRunNotifyDoneOnly\<rparr>) e (Some b))
    = Some (if map_of (ob_byid b) (event_id e) = None then (put_notification n b)\<lparr>ob_ids := ob_ids b @ [event_id e]\<rparr> else b)"
proof -
  from assms(2) have e: "rse_run e \<noteq> []" "trim_space (rse_run e) = rse_run e" "trim_space (rse_trigger e) \<noteq> []" by (simp_all add: event_ok_def)
  have k: "scheduledRunStatusKnown (rse_status e)" using assms(1) by (auto simp: scheduledRunStatusKnown_def scheduled_Terminal_def)
  have i: "trim_space (scheduledRunNotificationID (rse_run e) (rse_status e)) = event_id e"
    using notification_id_trimmed [OF e(2,1) assms(1)] by (simp add: event_id_def)
  have ne: "event_id e \<noteq> []" by (simp add: event_id_def)
  obtain q where q: "scheduledRunNotificationFromEvent clock e = Some q" "cn_id q = scheduledRunNotificationID (rse_run e) (rse_status e)"
      "cn_run q = rse_run e" "cn_status q = rse_status e" "cn_trigger q = trim_space (rse_trigger e)" "cn_occurrence q = rse_occurrence e"
      "cn_prompt q = rse_prompt e" "cn_result q = rse_result e" "cn_error q = rse_error e"
    using e k by (simp add: scheduledRunNotificationFromEvent_def)
  obtain n where n: "Normalize U clock q = Inr n" "mirrors n e"
    using q e k i ne by (simp add: Normalize_def mirrors_def Let_def)
  then have "nt_id n = event_id e" by (simp add: mirrors_def)
  with n q assms(1) show ?thesis
    by (intro exI [of _ n]) (auto simp: ObserveEvent_def shouldNotify_def CreateScheduledRunNotification_def split: option.splits)
qed

text \<open>After observing a list of events the outbox has a notification for each final event and no other.\<close>

lemma mirrored_spec:
  assumes "\<And>e. e \<in> set evs \<Longrightarrow> scheduled_Terminal (rse_status e) \<Longrightarrow> event_ok e"
  shows "\<exists>b. mirrored U clock evs = Some b
    \<and> (\<forall>k n. map_of (ob_byid b) k = Some n \<longrightarrow> (\<exists>e \<in> set evs. scheduled_Terminal (rse_status e) \<and> k = event_id e \<and> mirrors n e))
    \<and> (\<forall>e \<in> set evs. scheduled_Terminal (rse_status e) \<longrightarrow> (\<exists>n. map_of (ob_byid b) (event_id e) = Some n))"
  using assms
proof (induction evs rule: rev_induct)
  case Nil
  then show ?case by (simp add: mirrored_def NewMemoryScheduledRunNotificationStore_def)
next
  case (snoc e evs)
  let ?spec = "\<lambda>b. (\<forall>k n. map_of (ob_byid b) k = Some n \<longrightarrow> (\<exists>e \<in> set evs. scheduled_Terminal (rse_status e) \<and> k = event_id e \<and> mirrors n e))
    \<and> (\<forall>e \<in> set evs. scheduled_Terminal (rse_status e) \<longrightarrow> (\<exists>n. map_of (ob_byid b) (event_id e) = Some n))"
  from snoc obtain b where b: "mirrored U clock evs = Some b" "?spec b" by auto
  have step: "mirrored U clock (evs @ [e])
      = fst (ObserveEvent U None clock (Some \<lparr>no_policy = ScheduledRunNotifyDoneOnly\<rparr>) e (Some b))"
    using b(1) by (simp add: mirrored_def)
  show ?case
  proof (cases "scheduled_Terminal (rse_status e)")
    case False
    then show ?thesis using b step ObserveEvent_open [OF False] by auto
  next
    case True
    with snoc.prems have "event_ok e" by simp
    from ObserveEvent_final [OF True this, of U clock b] obtain n where n: "mirrors n e"
        "mirrored U clock (evs @ [e]) = Some (if map_of (ob_byid b) (event_id e) = None then (put_notification n b)\<lparr>ob_ids := ob_ids b @ [event_id e]\<rparr> else b)"
      unfolding step by blast
    have "nt_id n = event_id e" using n(1) by (simp add: mirrors_def)
    then show ?thesis
    proof (cases "map_of (ob_byid b) (event_id e) = None")
      case True
      with n \<open>nt_id n = event_id e\<close> b(2) \<open>scheduled_Terminal (rse_status e)\<close> show ?thesis
        by (auto simp: put_notification_def)
    next
      case False
      with n b(2) show ?thesis by auto
    qed
  qed
qed

text \<open>Final events and ended runs correspond.\<close>

lemma log_final_event:
  assumes wf: "runs_wf st" and log: "log_ok st evs" and e: "e \<in> set evs" "scheduled_Terminal (rse_status e)"
  shows "\<exists>r. stored st (rse_run e) = Some r \<and> observeScheduledRunState r = [e] \<and> sr_status r = rse_status e \<and> event_ok e"
proof -
  from log e obtain r where r: "stored st (rse_run e) = Some r" "observeScheduledRunState r = [e]" unfolding log_ok_def by blast
  then have "e \<in> set (observeScheduledRunState r)" by simp
  from observe_fields [OF this] have f: "sr_status r = rse_status e" "rse_trigger e = sr_trigger r" by simp_all
  have "rse_run e \<noteq> []" "trim_space (rse_run e) = rse_run e" "trim_space (sr_trigger r) \<noteq> []" using wf r(1) unfolding runs_wf_def by blast+
  then have "event_ok e" by (simp add: event_ok_def f(2))
  with r f(1) show ?thesis by blast
qed

lemma log_ended_run:
  assumes wf: "runs_wf st" and log: "log_ok st evs" and r: "stored st i = Some r" "scheduled_Terminal (sr_status r)"
  shows "\<exists>e \<in> set evs. observeScheduledRunState r = [e] \<and> rse_run e = i \<and> rse_status e = sr_status r \<and> rse_result e = sr_result r
    \<and> rse_error e = (if sr_status r = ScheduledRunFailed then sr_error r else [])"
proof -
  have "sr_id r = i" "i \<noteq> []" "sr_status r \<noteq> []" using r wf by (auto simp: runs_wf_def scheduled_Terminal_def)
  then obtain e where e: "observeScheduledRunState r = [e]" "rse_run e = i \<and> rse_status e = sr_status r \<and> rse_result e = sr_result r
      \<and> rse_error e = (if sr_status r = ScheduledRunFailed then sr_error r else [])"
    using r(2) by (simp add: observeScheduledRunState_def)
  moreover have "e \<in> set evs" using r log e(1) by (fastforce simp: log_ok_def)
  ultimately show ?thesis by blast
qed

text \<open>The outbox of a good log has the notification of each ended run.\<close>

lemma mirrored_ended_run:
  assumes wf: "runs_wf st" and log: "log_ok st evs" and r: "stored st i = Some r" "scheduled_Terminal (sr_status r)"
    and sound: "\<And>k n. map_of m k = Some n \<Longrightarrow> \<exists>e \<in> set evs. scheduled_Terminal (rse_status e) \<and> k = event_id e \<and> mirrors n e"
    and complete: "\<And>e. e \<in> set evs \<Longrightarrow> scheduled_Terminal (rse_status e) \<Longrightarrow> \<exists>n. map_of m (event_id e) = Some n"
  shows "\<exists>n. map_of m (i @ '':'' @ sr_status r) = Some n \<and> nt_run n = i \<and> nt_status n = sr_status r \<and> nt_result n = sr_result r
    \<and> nt_error n = (if sr_status r = ScheduledRunFailed then sr_error r else [])"
proof -
  from log_ended_run [OF wf log r] obtain e where e: "e \<in> set evs" "observeScheduledRunState r = [e]" "rse_run e = i" "rse_status e = sr_status r"
      "rse_result e = sr_result r" "rse_error e = (if sr_status r = ScheduledRunFailed then sr_error r else [])"
    by blast
  have id: "event_id e = i @ '':'' @ sr_status r" by (simp only: event_id_def e(3,4))
  have te: "scheduled_Terminal (rse_status e)" using r(2) e(4) by simp
  from complete [OF e(1) te] obtain n where n: "map_of m (event_id e) = Some n" by blast
  from sound [OF n] obtain e' where e': "e' \<in> set evs" "scheduled_Terminal (rse_status e')" "event_id e = event_id e'" "mirrors n e'" by blast
  have same: "rse_run e = rse_run e' \<and> rse_status e = rse_status e'"
    using notification_id_inj [OF _ te e'(2)] e'(3) by (simp add: event_id_def)
  from log_final_event [OF wf log e(1) te] log_final_event [OF wf log e'(1,2)] same have "e = e'" by auto
  with n id e' e show ?thesis by (auto simp: mirrors_def)
qed



end
