(* ===== verification/Managed_Quota.thy ===== *)
theory Managed_Quota
  imports Agent_Run
begin

text \<open>
  Quota admission of the cloud-managed stack: \<open>stack/cloudmanaged/quota_store.go\<close>, the validator and the assembly of a
  stack's options of \<open>cloudmanaged.go\<close>, and \<open>presets.go\<close>. A quota store is host code acting on the world \<open>'w\<close>;
  \<open>MemoryQuotaStore\<close> is the reference one. The metering of allowed store errors is left out.
\<close>

section \<open>The in-memory store\<close>

type_synonym quota_counter = string

abbreviation QuotaCounterModelRequests :: quota_counter where "QuotaCounterModelRequests \<equiv> ''model_requests''"
abbreviation QuotaCounterToolUses :: quota_counter where "QuotaCounterToolUses \<equiv> ''tool_uses''"

record quota_state =
  qs_model_requests :: int
  qs_tool_uses :: int

definition zero_quota_state :: quota_state where
  "zero_quota_state = \<lparr>qs_model_requests = 0, qs_tool_uses = 0\<rparr>"

text \<open>The \<open>sessions\<close> map; \<open>None\<close> is the nil \<open>*MemoryQuotaStore\<close>.\<close>

type_synonym quota_sessions = "(string, quota_state) gomap"

text \<open>The zero value a Go map gives for an absent key.\<close>

definition quota_state_of :: "quota_sessions \<Rightarrow> string \<Rightarrow> quota_state" where
  "quota_state_of m sid = (case map_of m sid of None \<Rightarrow> zero_quota_state | Some q \<Rightarrow> q)"

definition mem_EnsureSession :: "err option \<Rightarrow> string \<Rightarrow> quota_sessions option \<Rightarrow> quota_sessions option \<times> err option" where
  "mem_EnsureSession ctxerr sid st =
     (case st of
        None \<Rightarrow> (st, None)
      | Some m \<Rightarrow>
          if sid = [] then (st, None)
          else (case ctxerr of
                  Some e \<Rightarrow> (st, Some e)
                | None \<Rightarrow> (Some (if map_of m sid = None then AList.update sid zero_quota_state m else m), None)))"

definition mem_Reserve ::
  "err option \<Rightarrow> unicode \<Rightarrow> string \<Rightarrow> quota_counter \<Rightarrow> int \<Rightarrow> quota_sessions option
     \<Rightarrow> quota_sessions option \<times> int \<times> bool \<times> err option" where
  "mem_Reserve ctxerr U sid counter limit st =
     (case st of
        None \<Rightarrow> (st, 0, True, None)
      | Some m \<Rightarrow>
          if sid = [] \<or> limit \<le> 0 then (st, 0, True, None)
          else (case ctxerr of
                  Some e \<Rightarrow> (st, 0, False, Some e)
                | None \<Rightarrow>
                    (let q = quota_state_of m sid
                     in if counter = QuotaCounterModelRequests then
                          (if limit \<le> qs_model_requests q then (st, qs_model_requests q, False, None)
                           else (let n = i64 (qs_model_requests q + 1)
                                 in (Some (AList.update sid (q\<lparr>qs_model_requests := n\<rparr>) m), n, True, None)))
                        else if counter = QuotaCounterToolUses then
                          (if limit \<le> qs_tool_uses q then (st, qs_tool_uses q, False, None)
                           else (let n = i64 (qs_tool_uses q + 1)
                                 in (Some (AList.update sid (q\<lparr>qs_tool_uses := n\<rparr>) m), n, True, None)))
                        else (st, 0, False, Some (EText (''unknown quota counter '' @ quote U counter))))))"

definition mem_ResetSession :: "err option \<Rightarrow> string \<Rightarrow> quota_sessions option \<Rightarrow> quota_sessions option \<times> err option" where
  "mem_ResetSession ctxerr sid st =
     (case st of
        None \<Rightarrow> (st, None)
      | Some m \<Rightarrow>
          if sid = [] then (st, None)
          else (case ctxerr of Some e \<Rightarrow> (st, Some e) | None \<Rightarrow> (Some (AList.delete sid m), None)))"

section \<open>The store interface\<close>

record 'w quota_store =
  qo_ensure :: "'w \<Rightarrow> tenant_scope \<Rightarrow> string \<Rightarrow> 'w \<times> err option"
  qo_reserve :: "'w \<Rightarrow> tenant_scope \<Rightarrow> string \<Rightarrow> quota_counter \<Rightarrow> int \<Rightarrow> 'w \<times> int \<times> bool \<times> err option"
  qo_reset :: "'w \<Rightarrow> tenant_scope \<Rightarrow> string \<Rightarrow> 'w \<times> err option"

text \<open>
  The reference store as an implementation of the interface. The world has its sessions and the error of the caller's
  context; the tenant scope is ignored.
\<close>

type_synonym quota_world = "quota_sessions option \<times> err option"

definition MemoryQuotaStore :: "unicode \<Rightarrow> quota_world quota_store" where
  "MemoryQuotaStore U =
     \<lparr>qo_ensure = (\<lambda>(st, ce) _ sid. let (st', e) = mem_EnsureSession ce sid st in ((st', ce), e)),
      qo_reserve = (\<lambda>(st, ce) _ sid counter limit.
        let (st', r) = mem_Reserve ce U sid counter limit st in ((st', ce), r)),
      qo_reset = (\<lambda>(st, ce) _ sid. let (st', e) = mem_ResetSession ce sid st in ((st', ce), e))\<rparr>"

section \<open>Policies and the validator\<close>

record quota =
  qu_max_model :: int
  qu_max_tool :: int

definition quota_IsZero :: "quota \<Rightarrow> bool" where
  "quota_IsZero q \<longleftrightarrow> qu_max_model q \<le> 0 \<and> qu_max_tool q \<le> 0"

record policies =
  po_require_scope :: bool
  po_quota :: quota

definition DefaultPolicies :: policies where
  "DefaultPolicies = \<lparr>po_require_scope = True, po_quota = \<lparr>qu_max_model = 16, qu_max_tool = 32\<rparr>\<rparr>"

type_synonym store_error_policy = string

abbreviation QuotaStoreFailClosed :: store_error_policy where "QuotaStoreFailClosed \<equiv> ''fail_closed''"
abbreviation QuotaStoreAllowOnError :: store_error_policy where "QuotaStoreAllowOnError \<equiv> ''allow_on_error''"

text \<open>
  The immutable part of a validator; its counter of allowed store errors is threaded with the world. A validator made by
  the constructors has a store, so the tests for a nil store are not taken.
\<close>

record 'w quota_validator =
  qv_require_scope :: bool
  qv_max_model :: int
  qv_max_tool :: int
  qv_store :: "'w quota_store"
  qv_error_policy :: store_error_policy

type_synonym 'w quota_option = "'w quota_validator \<Rightarrow> 'w quota_validator"

definition WithRequiredTenantScope :: "'w quota_option" where
  "WithRequiredTenantScope v = v\<lparr>qv_require_scope := True\<rparr>"

definition WithQuotaStoreErrorPolicy :: "store_error_policy \<Rightarrow> 'w quota_option" where
  "WithQuotaStoreErrorPolicy p v =
     (if p = [] then v\<lparr>qv_error_policy := QuotaStoreFailClosed\<rparr>
      else if p = QuotaStoreFailClosed \<or> p = QuotaStoreAllowOnError then v\<lparr>qv_error_policy := p\<rparr>
      else v)"

text \<open>The default store lives in the world and is an argument, as for the agent's options.\<close>

definition NewQuotaValidatorWithStore ::
  "'w quota_store \<Rightarrow> 'w quota_store option \<Rightarrow> quota \<Rightarrow> 'w quota_option option list \<Rightarrow> 'w quota_validator" where
  "NewQuotaValidatorWithStore dflt store q options =
     fold (\<lambda>opt v. case opt of None \<Rightarrow> v | Some f \<Rightarrow> f v) options
       \<lparr>qv_require_scope = False, qv_max_model = qu_max_model q, qv_max_tool = qu_max_tool q,
        qv_store = (case store of None \<Rightarrow> dflt | Some s \<Rightarrow> s), qv_error_policy = QuotaStoreFailClosed\<rparr>"

definition NewQuotaValidator :: "'w quota_store \<Rightarrow> quota \<Rightarrow> 'w quota_option option list \<Rightarrow> 'w quota_validator" where
  "NewQuotaValidator dflt q options = NewQuotaValidatorWithStore dflt None q options"

text \<open>The state of a validator: the count of store errors it let pass, and the world of its store.\<close>

type_synonym 'w validator_state = "int \<times> 'w"

definition handleStoreError ::
  "'w quota_validator \<Rightarrow> string \<Rightarrow> 'w validator_state \<Rightarrow> err option \<Rightarrow> 'w validator_state \<times> err option" where
  "handleStoreError v operation s err1 =
     (case err1 of
        None \<Rightarrow> (s, None)
      | Some e \<Rightarrow>
          if is_context_err e then (s, Some e)
          else if qv_error_policy v \<noteq> QuotaStoreAllowOnError then (s, Some (EWrap (operation @ '': '') e))
          else ((i64 (fst s + 1), snd s), None))"

definition qv_ensureSession ::
  "'w quota_validator \<Rightarrow> 'w validator_state \<Rightarrow> tenant_scope \<Rightarrow> string \<Rightarrow> 'w validator_state \<times> err option" where
  "qv_ensureSession v s scope sid =
     (if sid = [] then (s, None)
      else (let (w, e) = qo_ensure (qv_store v) (snd s) scope sid
            in handleStoreError v ''ensure session quota state'' (fst s, w) e))"

definition qv_resetSession ::
  "'w quota_validator \<Rightarrow> 'w validator_state \<Rightarrow> tenant_scope \<Rightarrow> string \<Rightarrow> 'w validator_state \<times> err option" where
  "qv_resetSession v s scope sid =
     (if sid = [] then (s, None)
      else (let (w, e) = qo_reset (qv_store v) (snd s) scope sid in ((fst s, w), e)))"

definition recordModelRequest ::
  "'w quota_validator \<Rightarrow> 'w validator_state \<Rightarrow> tenant_scope \<Rightarrow> string \<Rightarrow> 'w validator_state \<times> err option" where
  "recordModelRequest v s scope sid =
     (if qv_max_model v \<le> 0 \<or> sid = [] then (s, None)
      else (let (w, used, granted, e) =
                  qo_reserve (qv_store v) (snd s) scope sid QuotaCounterModelRequests (qv_max_model v);
                s' = (fst s, w)
            in if e \<noteq> None then handleStoreError v ''reserve model request quota'' s' e
               else if \<not> granted then
                 (s', Some (EText (''tenant quota exceeded: max model requests reached ('' @ show_int (qv_max_model v) @ '')'')))
               else (s', None)))"

definition recordToolUse ::
  "'w quota_validator \<Rightarrow> 'w validator_state \<Rightarrow> tenant_scope \<Rightarrow> string \<Rightarrow> 'w validator_state \<times> err option" where
  "recordToolUse v s scope sid =
     (if qv_max_tool v \<le> 0 \<or> sid = [] then (s, None)
      else (let (w, used, granted, e) =
                  qo_reserve (qv_store v) (snd s) scope sid QuotaCounterToolUses (qv_max_tool v);
                s' = (fst s, w)
            in if e \<noteq> None then handleStoreError v ''reserve tool quota'' s' e
               else if \<not> granted then
                 (s', Some (EText (''tenant quota exceeded: max tool uses reached ('' @ show_int (qv_max_tool v) @ '')'')))
               else (s', None)))"

text \<open>\<open>Validate\<close>; \<open>None\<close> is the nil validator, \<open>ctxerr\<close> the error of the caller's context.\<close>

definition qv_Validate ::
  "('w \<Rightarrow> err option) \<Rightarrow> 'w quota_validator option \<Rightarrow> 'w validator_state tenant_validator" where
  "qv_Validate ctxerr vo s req =
     (case vo of
        None \<Rightarrow> (s, None)
      | Some v \<Rightarrow>
          (case ctxerr (snd s) of
             Some e \<Rightarrow> (s, Some e)
           | None \<Rightarrow>
               if qv_require_scope v \<and> scope_is_zero (tq_scope req)
                 then (s, Some (EText ''tenant scope required for cloud-managed run''))
               else if qv_max_model v \<le> 0 \<and> qv_max_tool v \<le> 0 then (s, None)
               else if tq_boundary req = BoundarySessionStart then qv_ensureSession v s (tq_scope req) (tq_session req)
               else if tq_boundary req = BoundaryModelRequest then recordModelRequest v s (tq_scope req) (tq_session req)
               else if tq_boundary req = BoundaryToolUse then recordToolUse v s (tq_scope req) (tq_session req)
               else (s, None)))"

text \<open>\<open>Reset\<close> calls the store with the background context: \<open>bg\<close> clears the context's error for the call.\<close>

definition qv_Reset :: "('w \<Rightarrow> 'w) \<Rightarrow> 'w quota_validator \<Rightarrow> 'w validator_state \<Rightarrow> string \<Rightarrow> 'w validator_state" where
  "qv_Reset bg v s sid =
     (if sid = [] then s else fst (qv_resetSession v (fst s, bg (snd s)) zero_scope sid))"

definition qv_SessionEnded :: "'w quota_validator \<Rightarrow> ('w validator_state, session_ended_input) observer" where
  "qv_SessionEnded v s inp = qv_resetSession v s (ei_tenant inp) (ei_session inp)"

definition qv_Options :: "'w quota_validator option \<Rightarrow> ('w validator_state runner \<Rightarrow> 'w validator_state runner) list" where
  "qv_Options vo =
     (case vo of None \<Rightarrow> [] | Some v \<Rightarrow> [\<lambda>r. AddSessionEnded r (Some (qv_SessionEnded v))])"

section \<open>Assembling a stack\<close>

fun validate_all :: "'w tenant_validator list \<Rightarrow> 'w tenant_validator" where
  "validate_all [] w req = (w, None)"
| "validate_all (f # fs) w req =
     (case f w req of (w', Some e) \<Rightarrow> (w', Some e) | (w', None) \<Rightarrow> validate_all fs w' req)"

definition combineValidators :: "'w tenant_validator option list \<Rightarrow> 'w tenant_validator option" where
  "combineValidators vs =
     (case concat (map (\<lambda>v. case v of None \<Rightarrow> [] | Some f \<Rightarrow> [f]) vs) of
        [] \<Rightarrow> None
      | [f] \<Rightarrow> Some f
      | fs \<Rightarrow> Some (validate_all fs))"

definition newManagedValidator ::
  "'w quota_store \<Rightarrow> policies \<Rightarrow> 'w quota_store option \<Rightarrow> 'w quota_validator option" where
  "newManagedValidator dflt p store =
     (if \<not> po_require_scope p \<and> quota_IsZero (po_quota p) then None
      else Some (NewQuotaValidatorWithStore dflt store (po_quota p)
             (if po_require_scope p then [Some WithRequiredTenantScope] else [])))"

definition installTenantControls ::
  "('w \<Rightarrow> err option) \<Rightarrow> 'w quota_store \<Rightarrow> policies \<Rightarrow> 'w quota_store option
     \<Rightarrow> ('w validator_state, 'j) options \<Rightarrow> ('w validator_state, 'j) options" where
  "installTenantControls ctxerr dflt p store opts =
     (case newManagedValidator dflt p store of
        None \<Rightarrow> opts
      | Some v \<Rightarrow>
          opts\<lparr>op_validator := combineValidators [op_validator opts, Some (qv_Validate ctxerr (Some v))],
               op_hooks := fold (\<lambda>option r. option (case r of None \<Rightarrow> NewRunner [] | Some h \<Rightarrow> Some h))
                             (qv_Options (Some v)) (op_hooks opts)\<rparr>)"

text \<open>A nil registry becomes an empty one, a nil runner stays nil; \<open>Clone\<close> copies both.\<close>

definition managed_cloneRegistry :: "('w, 'j) registry option \<Rightarrow> ('w, 'j) registry option" where
  "managed_cloneRegistry r = Some (case r of None \<Rightarrow> empty_registry | Some g \<Rightarrow> Registry_Clone (Some g))"

definition managed_cloneHooks :: "'w runner \<Rightarrow> 'w runner" where
  "managed_cloneHooks r = (case r of None \<Rightarrow> None | Some h \<Rightarrow> Runner_Clone (Some h))"

definition managed_New ::
  "('w \<Rightarrow> err option) \<Rightarrow> 'w quota_store \<Rightarrow> policies \<Rightarrow> 'w quota_store option \<Rightarrow> 'w validator_state store_iface option
     \<Rightarrow> ('w validator_state, 'j) options \<Rightarrow> ('w validator_state, 'j) options" where
  "managed_New ctxerr dflt p store sessions base =
     installTenantControls ctxerr dflt p store
       (base\<lparr>op_hooks := managed_cloneHooks (op_hooks base), op_tools := managed_cloneRegistry (op_tools base),
             op_sessions := (case sessions of None \<Rightarrow> op_sessions base | Some s \<Rightarrow> Some s)\<rparr>)"

definition optionsForTenant :: "('w, 'j) options \<Rightarrow> tenant_scope \<Rightarrow> ('w, 'j) options" where
  "optionsForTenant opts scope = opts\<lparr>op_tenant := scope_clone scope\<rparr>"

section \<open>Presets\<close>

abbreviation PresetManagedWorker :: string where "PresetManagedWorker \<equiv> ''managed_worker''"

definition managed_worker_prompt :: string where
  "managed_worker_prompt =
     ''Operate within the tenant'' @ [CHR 39] @ ''s explicit scope and quota. Prefer small recoverable steps, keep tool use proportional to the task, and avoid spending model or tool budget on speculative work.''"

text \<open>A preset fills the zero options with its limits, prompt and policies.\<close>

definition ManagedWorker :: "('w, 'j) options \<Rightarrow> ('w, 'j) options \<times> policies" where
  "ManagedWorker zero =
     (zero\<lparr>op_max_turns := 24, op_max_concurrency := 4, op_append_system := managed_worker_prompt\<rparr>, DefaultPolicies)"

definition preset_Config :: "unicode \<Rightarrow> ('w, 'j) options \<Rightarrow> string \<Rightarrow> err + ('w, 'j) options \<times> policies" where
  "preset_Config U zero p =
     (if p = PresetManagedWorker then Inr (ManagedWorker zero)
      else Inl (EText (''cloud-managed stack: unknown preset '' @ quote U p)))"

section \<open>Histories of a validator\<close>

text \<open>
  The calls that reach a validator: requests at any boundary, the hook at the end of a session and the host's \<open>Reset\<close>.
  Each comes with the context \<open>'c\<close> of its caller, which \<open>enter\<close> puts into the world. A history records with
  each call the error the store layer or the validator gave; \<open>Reset\<close> itself drops it.
\<close>

datatype quota_call = QValidate tenant_request | QEnded session_ended_input | QReset string

fun validator_call ::
  "('c \<Rightarrow> 'w \<Rightarrow> 'w) \<Rightarrow> ('w \<Rightarrow> err option) \<Rightarrow> ('w \<Rightarrow> 'w) \<Rightarrow> 'w quota_validator \<Rightarrow> 'c \<times> quota_call \<Rightarrow> 'w validator_state
     \<Rightarrow> 'w validator_state \<times> err option" where
  "validator_call enter ctxerr bg v (c, QValidate req) s = qv_Validate ctxerr (Some v) (fst s, enter c (snd s)) req"
| "validator_call enter ctxerr bg v (c, QEnded inp) s = qv_SessionEnded v (fst s, enter c (snd s)) inp"
| "validator_call enter ctxerr bg v (c, QReset sid) s =
     (qv_Reset bg v (fst s, enter c (snd s)) sid,
      snd (qv_resetSession v (fst s, bg (enter c (snd s))) zero_scope sid))"

fun validator_history ::
  "('c \<Rightarrow> 'w \<Rightarrow> 'w) \<Rightarrow> ('w \<Rightarrow> err option) \<Rightarrow> ('w \<Rightarrow> 'w) \<Rightarrow> 'w quota_validator \<Rightarrow> ('c \<times> quota_call) list \<Rightarrow> 'w validator_state
     \<Rightarrow> 'w validator_state \<times> (quota_call \<times> err option) list" where
  "validator_history enter ctxerr bg v [] s = (s, [])"
| "validator_history enter ctxerr bg v (q # qs) s =
     (let (s1, e) = validator_call enter ctxerr bg v q s; (s2, tr) = validator_history enter ctxerr bg v qs s1
      in (s2, (snd q, e) # tr))"

text \<open>The specification: how many requests of a boundary a session was granted since its state was last dropped.\<close>

fun admitted_step :: "boundary \<Rightarrow> string \<Rightarrow> quota_call \<times> err option \<Rightarrow> int \<Rightarrow> int" where
  "admitted_step b sid (q, Some e) n = n"
| "admitted_step b sid (QValidate req, None) n = (if tq_boundary req = b \<and> tq_session req = sid then n + 1 else n)"
| "admitted_step b sid (QEnded inp, None) n = (if ei_session inp = sid then 0 else n)"
| "admitted_step b sid (QReset sid', None) n = (if sid' = sid then 0 else n)"

definition admitted_since :: "boundary \<Rightarrow> string \<Rightarrow> (quota_call \<times> err option) list \<Rightarrow> int \<Rightarrow> int" where
  "admitted_since b sid tr = fold (admitted_step b sid) tr"

definition boundary_counter :: "boundary \<Rightarrow> quota_counter" where
  "boundary_counter b = (if b = BoundaryModelRequest then QuotaCounterModelRequests else QuotaCounterToolUses)"

definition boundary_limit :: "'w quota_validator \<Rightarrow> boundary \<Rightarrow> int" where
  "boundary_limit v b = (if b = BoundaryModelRequest then qv_max_model v else qv_max_tool v)"

definition metered :: "boundary \<Rightarrow> bool" where
  "metered b \<longleftrightarrow> b = BoundaryModelRequest \<or> b = BoundaryToolUse"

definition exceeded_error :: "'w quota_validator \<Rightarrow> boundary \<Rightarrow> err" where
  "exceeded_error v b =
     EText ((if b = BoundaryModelRequest then ''tenant quota exceeded: max model requests reached (''
             else ''tenant quota exceeded: max tool uses reached ('') @ show_int (boundary_limit v b) @ '')'')"

lemmas call_defs = qv_Validate_def qv_ensureSession_def recordModelRequest_def recordToolUse_def handleStoreError_def
  qv_SessionEnded_def qv_resetSession_def qv_Reset_def

text \<open>At a metered boundary both recording functions are one reservation.\<close>

definition record_use ::
  "'w quota_validator \<Rightarrow> boundary \<Rightarrow> 'w validator_state \<Rightarrow> tenant_scope \<Rightarrow> string \<Rightarrow> 'w validator_state \<times> err option" where
  "record_use v b s scope sid =
     (if boundary_limit v b \<le> 0 \<or> sid = [] then (s, None)
      else (let (w, used, granted, e) = qo_reserve (qv_store v) (snd s) scope sid (boundary_counter b) (boundary_limit v b)
            in if e \<noteq> None then
                 handleStoreError v (if b = BoundaryModelRequest then ''reserve model request quota'' else ''reserve tool quota'') (fst s, w) e
               else if \<not> granted then ((fst s, w), Some (exceeded_error v b))
               else ((fst s, w), None)))"

lemma record_use_eq:
  "recordModelRequest v s scope sid = record_use v BoundaryModelRequest s scope sid"
  "recordToolUse v s scope sid = record_use v BoundaryToolUse s scope sid"
  by (auto simp: recordModelRequest_def recordToolUse_def record_use_def boundary_limit_def boundary_counter_def
      exceeded_error_def Let_def split: prod.split)

lemma validate_cases:
  assumes "qv_Validate ctxerr (Some v) s req = (s', e)" and "0 < qv_max_model v \<or> 0 < qv_max_tool v"
  shows "(s' = s \<and> (e \<noteq> None \<or> tq_boundary req \<noteq> BoundaryModelRequest \<and> tq_boundary req \<noteq> BoundaryToolUse))
    \<or> (tq_boundary req = BoundarySessionStart \<and> qv_ensureSession v s (tq_scope req) (tq_session req) = (s', e))
    \<or> (metered (tq_boundary req) \<and> record_use v (tq_boundary req) s (tq_scope req) (tq_session req) = (s', e))"
proof (cases "ctxerr (snd s)")
  case None
  with assms show ?thesis by (auto simp: qv_Validate_def record_use_eq metered_def split: if_splits)
next
  case (Some y)
  with assms have "s' = s" and "e = Some y" by (simp_all add: qv_Validate_def)
  then show ?thesis by simp
qed

section \<open>What a quota store promises\<close>

text \<open>
  The contract in the comment of \<open>QuotaStore\<close>: a reservation is granted exactly below the limit and counted, a denial and
  an error leave the counts alone, other sessions and counters are never touched, a reset drops one session.
\<close>

locale quota_backend =
  fixes store :: "'w quota_store"
    and used :: "'w \<Rightarrow> string \<Rightarrow> quota_counter \<Rightarrow> int"
    and live :: "'w \<Rightarrow> bool"
    and enter :: "'c \<Rightarrow> 'w \<Rightarrow> 'w"
    and bg :: "'w \<Rightarrow> 'w"
  assumes reserve: "live w \<Longrightarrow> sid \<noteq> [] \<Longrightarrow> 0 < cap \<Longrightarrow> int64_range cap \<Longrightarrow>
        qo_reserve store w sc sid c cap = (w', n, granted, e) \<Longrightarrow>
        live w' \<and> (if e = None \<and> granted then used w sid c < cap \<and> used w' = (used w)(sid := (used w sid)(c := used w sid c + 1))
                   else used w' = used w \<and> (e = None \<longrightarrow> cap \<le> used w sid c))"
    and ensure: "live w \<Longrightarrow> qo_ensure store w sc sid = (w', e) \<Longrightarrow> live w' \<and> used w' = used w"
    and reset: "live w \<Longrightarrow> sid \<noteq> [] \<Longrightarrow> qo_reset store w sc sid = (w', e) \<Longrightarrow>
        live w' \<and> used w' = (if e = None then (used w)(sid := (\<lambda>_. 0)) else used w)"
    and entered: "live w \<Longrightarrow> live (enter cx w) \<and> used (enter cx w) = used w"
    and background: "live w \<Longrightarrow> live (bg w) \<and> used (bg w) = used w"
begin

definition fail_closed :: "'w quota_validator \<Rightarrow> bool" where
  "fail_closed v \<longleftrightarrow> qv_store v = store \<and> qv_error_policy v \<noteq> QuotaStoreAllowOnError
     \<and> int64_range (qv_max_model v) \<and> int64_range (qv_max_tool v)"

lemma store_error_kept:
  "fail_closed v \<Longrightarrow> handleStoreError v op s e = (s', r) \<Longrightarrow> s' = s \<and> (r = None \<longleftrightarrow> e = None)"
  by (auto simp: handleStoreError_def fail_closed_def split: option.splits if_splits)

lemma record_use_counts:
  assumes v: "fail_closed v" and w: "live (snd s)" and b: "metered b" and sid: "sid \<noteq> []" and pos: "0 < boundary_limit v b"
    and r: "record_use v b s sc sid = (s', e)"
  shows "live (snd s') \<and>
    (if e = None then used (snd s) sid (boundary_counter b) < boundary_limit v b
        \<and> used (snd s') = (used (snd s))(sid := (used (snd s) sid)(boundary_counter b := used (snd s) sid (boundary_counter b) + 1))
     else used (snd s') = used (snd s))"
proof -
  obtain w' n g e' where q: "qo_reserve store (snd s) sc sid (boundary_counter b) (boundary_limit v b) = (w', n, g, e')"
    by (metis prod_cases4)
  have "int64_range (boundary_limit v b)" and st: "qv_store v = store"
    using v by (simp_all add: fail_closed_def boundary_limit_def)
  from reserve [OF w sid pos this(1) q] r sid pos show ?thesis
    by (auto simp: record_use_def q st Let_def split: if_splits dest: store_error_kept [OF v])
qed

lemma record_use_other:
  assumes v: "fail_closed v" and w: "live (snd s)" and b: "metered b" and sid: "tq \<noteq> sid \<or> boundary_counter b \<noteq> c"
    and r: "record_use v b s sc tq = (s', e)"
  shows "live (snd s') \<and> used (snd s') sid c = used (snd s) sid c"
proof (cases "tq = [] \<or> boundary_limit v b \<le> 0")
  case True
  with r w show ?thesis by (auto simp: record_use_def)
next
  case False
  then have "tq \<noteq> []" and "0 < boundary_limit v b" by auto
  from record_use_counts [OF v w b this r] sid show ?thesis by (auto split: if_splits)
qed

lemma ensure_keeps:
  assumes "fail_closed v" and "live (snd s)" and "qv_ensureSession v s sc tq = (s', e)"
  shows "live (snd s') \<and> used (snd s') = used (snd s)"
  using assms ensure [of "snd s" sc tq]
  by (auto simp: qv_ensureSession_def fail_closed_def Let_def split: if_splits prod.splits dest!: store_error_kept [OF assms(1)])

lemma reset_clears:
  assumes "fail_closed v" and "live (snd s)" and "qv_resetSession v s sc tq = (s', e)"
  shows "live (snd s') \<and> used (snd s') = (if e = None \<and> tq \<noteq> [] then (used (snd s))(tq := (\<lambda>_. 0)) else used (snd s))"
  using assms reset [of "snd s" tq sc]
  by (auto simp: qv_resetSession_def fail_closed_def Let_def split: if_splits prod.splits)

lemma call_counts:
  assumes v: "fail_closed v" and w: "live (snd s)" and b: "metered b" and sid: "sid \<noteq> []" and pos: "0 < boundary_limit v b"
    and c: "validator_call enter ctxerr bg v (c, q) s = (s', e)"
  shows "live (snd s') \<and> used (snd s') sid (boundary_counter b) = admitted_step b sid (q, e) (used (snd s) sid (boundary_counter b))
    \<and> (used (snd s) sid (boundary_counter b) \<le> boundary_limit v b \<longrightarrow> used (snd s') sid (boundary_counter b) \<le> boundary_limit v b)"
proof (cases q)
  case (QValidate req)
  let ?s = "(fst s, enter c (snd s))"
  have w': "live (snd ?s)" and u: "used (snd ?s) = used (snd s)" using entered [OF w] by simp_all
  have cap: "0 < qv_max_model v \<or> 0 < qv_max_tool v" using pos by (auto simp: boundary_limit_def split: if_splits)
  from c have "qv_Validate ctxerr (Some v) ?s req = (s', e)" by (simp add: QValidate)
  from validate_cases [OF this cap]
  consider (quiet) "s' = ?s" "e \<noteq> None \<or> tq_boundary req \<noteq> BoundaryModelRequest \<and> tq_boundary req \<noteq> BoundaryToolUse"
    | (start) "tq_boundary req = BoundarySessionStart" "qv_ensureSession v ?s (tq_scope req) (tq_session req) = (s', e)"
    | (use1) "metered (tq_boundary req)" "record_use v (tq_boundary req) ?s (tq_scope req) (tq_session req) = (s', e)"
    by blast
  then show ?thesis
  proof cases
    case quiet
    with w' u b show ?thesis by (cases e) (auto simp: QValidate metered_def)
  next
    case start
    with ensure_keeps [OF v w' start(2)] u b show ?thesis by (cases e) (auto simp: QValidate metered_def)
  next
    case use1
    show ?thesis
    proof (cases "tq_session req = sid \<and> tq_boundary req = b")
      case True
      with use1(2) have "record_use v b ?s (tq_scope req) sid = (s', e)" by simp
      from record_use_counts [OF v w' b sid pos this] True u show ?thesis by (cases e) (auto simp: QValidate)
    next
      case False
      then have "tq_session req \<noteq> sid \<or> boundary_counter (tq_boundary req) \<noteq> boundary_counter b"
        using b use1(1) by (auto simp: boundary_counter_def metered_def)
      from record_use_other [OF v w' use1(1) this use1(2)] u False show ?thesis
        by (cases e) (auto simp: QValidate)
    qed
  qed
next
  case (QEnded inp)
  with c entered [OF w, of c] reset_clears [OF v, of "(fst s, enter c (snd s))"] sid pos show ?thesis
    by (cases e) (auto simp: qv_SessionEnded_def)
next
  case (QReset tq)
  let ?s = "(fst s, bg (enter c (snd s)))"
  have w': "live (snd ?s)" and u: "used (snd ?s) = used (snd s)"
    using background entered [OF w, of c] by simp_all
  obtain s1 e1 where r: "qv_resetSession v ?s zero_scope tq = (s1, e1)" by fastforce
  from reset_clears [OF v w' r] c r w u sid pos entered [OF w, of c] show ?thesis
    by (cases e1) (auto simp: QReset qv_Reset_def qv_resetSession_def split: if_splits)
qed

theorem history_counts:
  assumes v: "fail_closed v" and b: "metered b" and sid: "sid \<noteq> []" and pos: "0 < boundary_limit v b"
  shows "live (snd s) \<Longrightarrow> used (snd s) sid (boundary_counter b) \<le> boundary_limit v b \<Longrightarrow>
    validator_history enter ctxerr bg v qs s = (s', tr) \<Longrightarrow>
    live (snd s') \<and> used (snd s') sid (boundary_counter b) = admitted_since b sid tr (used (snd s) sid (boundary_counter b))
      \<and> used (snd s') sid (boundary_counter b) \<le> boundary_limit v b"
proof (induction qs arbitrary: s tr)
  case Nil
  then show ?case by (simp add: admitted_since_def)
next
  case (Cons q qs)
  obtain s1 e tr1 where c: "validator_call enter ctxerr bg v q s = (s1, e)"
    and h: "validator_history enter ctxerr bg v qs s1 = (s', tr1)" and tr: "tr = (snd q, e) # tr1"
    using Cons.prems(3) by (auto simp: Let_def split: prod.splits)
  from call_counts [OF v Cons.prems(1) b sid pos, of ctxerr "fst q" "snd q"] c Cons.prems(2) Cons.IH [OF _ _ h] tr
  show ?case by (simp add: admitted_since_def)
qed

end

section \<open>The reference store keeps the contract\<close>

fun mem_used :: "quota_world \<Rightarrow> string \<Rightarrow> quota_counter \<Rightarrow> int" where
  "mem_used (st, ce) sid c =
     (case st of None \<Rightarrow> 0
      | Some m \<Rightarrow> (let q = quota_state_of m sid
          in if c = QuotaCounterModelRequests then qs_model_requests q
             else if c = QuotaCounterToolUses then qs_tool_uses q else 0))"

definition mem_live :: "quota_world \<Rightarrow> bool" where
  "mem_live w \<longleftrightarrow> (\<exists>m. fst w = Some m \<and> (\<forall>sid. 0 \<le> qs_model_requests (quota_state_of m sid) \<and> 0 \<le> qs_tool_uses (quota_state_of m sid)))"

lemma quota_state_of_update:
  "quota_state_of (AList.update sid q m) sid' = (if sid' = sid then q else quota_state_of m sid')"
  "quota_state_of (AList.delete sid m) sid' = (if sid' = sid then zero_quota_state else quota_state_of m sid')"
  by (auto simp: quota_state_of_def delete_conv' split: option.split)

lemma quota_state_absent: "map_of m sid = None \<Longrightarrow> quota_state_of m sid = zero_quota_state"
  by (simp add: quota_state_of_def)

lemma mem_used_grant:
  "mem_used (Some (AList.update sid ((quota_state_of m sid)\<lparr>qs_model_requests := x\<rparr>) m), ce) =
     (mem_used (Some m, ce))(sid := (mem_used (Some m, ce) sid)(QuotaCounterModelRequests := x))"
  "mem_used (Some (AList.update sid ((quota_state_of m sid)\<lparr>qs_tool_uses := x\<rparr>) m), ce) =
     (mem_used (Some m, ce))(sid := (mem_used (Some m, ce) sid)(QuotaCounterToolUses := x))"
  by (auto simp: fun_eq_iff quota_state_of_update Let_def)

lemma mem_quota_simps:
  "qo_ensure (MemoryQuotaStore U) (st, ce) sc sid = (case mem_EnsureSession ce sid st of (st', e) \<Rightarrow> ((st', ce), e))"
  "qo_reserve (MemoryQuotaStore U) (st, ce) sc sid c cap = (case mem_Reserve ce U sid c cap st of (st', r) \<Rightarrow> ((st', ce), r))"
  "qo_reset (MemoryQuotaStore U) (st, ce) sc sid = (case mem_ResetSession ce sid st of (st', e) \<Rightarrow> ((st', ce), e))"
  by (simp_all add: MemoryQuotaStore_def Let_def)

lemma mem_reserve_contract:
  assumes "mem_live w" "sid \<noteq> []" "0 < cap" "int64_range cap"
    and "qo_reserve (MemoryQuotaStore U) w sc sid c cap = (w', n, granted, e)"
  shows "mem_live w' \<and> (if e = None \<and> granted
      then mem_used w sid c < cap \<and> mem_used w' = (mem_used w)(sid := (mem_used w sid)(c := mem_used w sid c + 1))
      else mem_used w' = mem_used w \<and> (e = None \<longrightarrow> cap \<le> mem_used w sid c))"
proof -
  obtain m ce where w: "w = (Some m, ce)" and nn: "\<And>k. 0 \<le> qs_model_requests (quota_state_of m k) \<and> 0 \<le> qs_tool_uses (quota_state_of m k)"
    using assms(1) by (cases w) (auto simp: mem_live_def)
  have step: "i64 (x + 1) = x + 1" if "0 \<le> x" "x < cap" for x
    using that assms(4) by (intro i64_nonneg_id) (auto simp: int64_range_def)
  consider (err) y where "ce = Some y" | (model) "ce = None" "c = QuotaCounterModelRequests" | (tool) "ce = None" "c = QuotaCounterToolUses"
    | (unknown) "ce = None" "c \<noteq> QuotaCounterModelRequests" "c \<noteq> QuotaCounterToolUses"
    by (cases ce) auto
  then show ?thesis
  proof cases
    case model
    with assms(2,3,5) nn nn [of sid] step [of "qs_model_requests (quota_state_of m sid)"] show ?thesis
      by (auto simp: w mem_quota_simps mem_Reserve_def mem_live_def quota_state_of_update Let_def mem_used_grant simp del: mem_used.simps split: if_splits)
        (auto simp: Let_def)
  next
    case tool
    with assms(2,3,5) nn nn [of sid] step [of "qs_tool_uses (quota_state_of m sid)"] show ?thesis
      by (auto simp: w mem_quota_simps mem_Reserve_def mem_live_def quota_state_of_update Let_def mem_used_grant simp del: mem_used.simps split: if_splits)
        (auto simp: Let_def)
  qed (use assms nn in \<open>auto simp: w mem_quota_simps mem_Reserve_def mem_live_def Let_def simp del: mem_used.simps\<close>)
qed

interpretation mem_quota: quota_backend "MemoryQuotaStore U" mem_used mem_live "\<lambda>ce (st, _). (st, ce)" "\<lambda>(st, _). (st, None)"
proof
  show "mem_live w \<Longrightarrow> sid \<noteq> [] \<Longrightarrow> 0 < cap \<Longrightarrow> int64_range cap \<Longrightarrow> qo_reserve (MemoryQuotaStore U) w sc sid c cap = (w', n, granted, e)
    \<Longrightarrow> mem_live w' \<and> (if e = None \<and> granted
      then mem_used w sid c < cap \<and> mem_used w' = (mem_used w)(sid := (mem_used w sid)(c := mem_used w sid c + 1))
      else mem_used w' = mem_used w \<and> (e = None \<longrightarrow> cap \<le> mem_used w sid c))" for w sid cap sc c w' n granted e
    by (rule mem_reserve_contract)
  show "mem_live w \<Longrightarrow> qo_ensure (MemoryQuotaStore U) w sc sid = (w', e) \<Longrightarrow> mem_live w' \<and> mem_used w' = mem_used w" for w sc sid w' e
    by (cases w) (auto simp: mem_quota_simps mem_EnsureSession_def mem_live_def quota_state_of_update quota_state_absent fun_eq_iff
        zero_quota_state_def split: option.splits if_splits)
  show "mem_live w \<Longrightarrow> sid \<noteq> [] \<Longrightarrow> qo_reset (MemoryQuotaStore U) w sc sid = (w', e) \<Longrightarrow>
    mem_live w' \<and> mem_used w' = (if e = None then (mem_used w)(sid := (\<lambda>_. 0)) else mem_used w)" for w sid sc w' e
    by (cases w) (auto simp: mem_quota_simps mem_ResetSession_def mem_live_def quota_state_of_update fun_eq_iff zero_quota_state_def Let_def
        split: option.splits if_splits)
qed (auto simp: mem_live_def fun_eq_iff)

section \<open>The properties\<close>

text \<open>Histories of a validator over a fresh reference store; the context of a call is its error.\<close>

definition managed_history ::
  "quota_world quota_validator \<Rightarrow> (err option \<times> quota_call) list \<Rightarrow> quota_world validator_state \<times> (quota_call \<times> err option) list" where
  "managed_history v qs = validator_history (\<lambda>ce (st, _). (st, ce)) snd (\<lambda>(st, _). (st, None)) v qs (0, (Some [], None))"

lemma managed_fail_closed:
  assumes "newManagedValidator (MemoryQuotaStore U) p None = Some v"
    and "int64_range (qu_max_model (po_quota p))" and "int64_range (qu_max_tool (po_quota p))"
  shows "mem_quota.fail_closed U v"
  using assms by (auto simp: newManagedValidator_def NewQuotaValidatorWithStore_def WithRequiredTenantScope_def
      mem_quota.fail_closed_def split: if_splits)

lemma managed_history_counts:
  assumes v: "mem_quota.fail_closed U v" and b: "metered b" and sid: "sid \<noteq> []" and pos: "0 < boundary_limit v b"
    and h: "managed_history v qs = (s', tr)"
  shows "mem_live (snd s') \<and> mem_used (snd s') sid (boundary_counter b) = admitted_since b sid tr 0 \<and> admitted_since b sid tr 0 \<le> boundary_limit v b"
proof -
  have "mem_live (Some [], None)" and "mem_used (Some [], None) sid (boundary_counter b) = 0"
    by (simp_all add: mem_live_def quota_state_of_def zero_quota_state_def Let_def)
  with mem_quota.history_counts [OF v b sid pos, of "(0, (Some [], None))" snd qs s' tr] h pos show ?thesis
    by (simp add: managed_history_def del: mem_used.simps)
qed

text \<open>A live request at a metered boundary is one reservation of the reference store.\<close>

lemma mem_record_use:
  assumes v: "mem_quota.fail_closed U v" and w: "mem_live w" "snd w = None" and b: "metered b" and sid: "sid \<noteq> []" and pos: "0 < boundary_limit v b"
  shows "snd (record_use v b (n, w) sc sid) =
    (if mem_used w sid (boundary_counter b) < boundary_limit v b then None else Some (exceeded_error v b))"
proof -
  obtain m where m: "w = (Some m, None)" using w by (cases w) (auto simp: mem_live_def)
  have "qv_store v = MemoryQuotaStore U" using v by (simp add: mem_quota.fail_closed_def)
  then show ?thesis using b sid pos
    by (auto simp: m record_use_def mem_quota_simps mem_Reserve_def boundary_counter_def metered_def Let_def)
qed

lemma Validate_metered:
  assumes "ctxerr (snd s) = None" and "qv_require_scope v \<longrightarrow> \<not> scope_is_zero (tq_scope req)"
    and "metered (tq_boundary req)" and "0 < boundary_limit v (tq_boundary req)"
  shows "qv_Validate ctxerr (Some v) s req = record_use v (tq_boundary req) s (tq_scope req) (tq_session req)"
  using assms by (auto simp: qv_Validate_def record_use_eq metered_def boundary_limit_def)

text \<open>
  C18. Whatever requests, session ends and resets of any sessions reach the validator of a managed stack over the
  reference store, and whichever of them come with an ended context, a session is granted at most its limit of model
  requests (tool uses) since its state was last dropped, and the next request with a live context and an acceptable
  scope is granted exactly when fewer were granted so far; otherwise it is denied with the quota error.
\<close>

theorem quota_grants_exactly_limit:
  assumes v: "newManagedValidator (MemoryQuotaStore U) p None = Some v"
    and range: "int64_range (qu_max_model (po_quota p))" "int64_range (qu_max_tool (po_quota p))"
    and h: "managed_history v qs = ((n, st, ce), tr)"
    and req: "metered (tq_boundary req)" "tq_session req \<noteq> []" "0 < boundary_limit v (tq_boundary req)"
    and scope: "\<not> scope_is_zero (tq_scope req)"
  shows "admitted_since (tq_boundary req) (tq_session req) tr 0 \<le> boundary_limit v (tq_boundary req) \<and>
    snd (qv_Validate snd (Some v) (n, st, None) req) =
      (if admitted_since (tq_boundary req) (tq_session req) tr 0 < boundary_limit v (tq_boundary req) then None
       else Some (exceeded_error v (tq_boundary req)))"
proof -
  note fc = managed_fail_closed [OF v range]
  note c = managed_history_counts [OF fc req h]
  have w: "mem_live (st, None)" and u: "mem_used (st, None) = mem_used (st, ce)"
    using c by (auto simp: mem_live_def fun_eq_iff)
  have "qv_Validate snd (Some v) (n, st, None) req = record_use v (tq_boundary req) (n, st, None) (tq_scope req) (tq_session req)"
    by (rule Validate_metered) (use req scope in simp_all)
  with mem_record_use [OF fc w _ req, of n "tq_scope req"] c u show ?thesis
    by (simp del: mem_used.simps)
qed

text \<open>A session of tenant \<open>t\<close>: two model requests granted, the third denied; the same session after its end.\<close>

definition sample_policies :: policies where
  "sample_policies = \<lparr>po_require_scope = True, po_quota = \<lparr>qu_max_model = 2, qu_max_tool = 0\<rparr>\<rparr>"

definition sample_quota_request :: tenant_request where
  "sample_quota_request = \<lparr>tq_boundary = BoundaryModelRequest, tq_scope = zero_scope\<lparr>sc_id := ''t''\<rparr>, tq_session = ''s'',
     tq_parent = [], tq_use_id = [], tq_tool = [], tq_read_only = False, tq_destructive = False, tq_concurrency_safe = False\<rparr>"

definition sample_validator :: "unicode \<Rightarrow> quota_world quota_validator" where
  "sample_validator U = \<lparr>qv_require_scope = True, qv_max_model = 2, qv_max_tool = 0, qv_store = MemoryQuotaStore U,
     qv_error_policy = QuotaStoreFailClosed\<rparr>"

lemma sample_validator_made: "newManagedValidator (MemoryQuotaStore U) sample_policies None = Some (sample_validator U)"
  by (simp add: newManagedValidator_def sample_policies_def NewQuotaValidatorWithStore_def WithRequiredTenantScope_def
      sample_validator_def)

lemmas sample_quota_defs = sample_policies_def sample_quota_request_def sample_validator_def managed_history_def call_defs
  mem_quota_simps mem_Reserve_def mem_ResetSession_def quota_state_of_def zero_quota_state_def scope_is_zero_def zero_scope_def
  i64_def Let_def

theorem quota_grants_exactly_limit_witness:
  "\<forall>U. admitted_since BoundaryModelRequest ''s'' [(QValidate sample_quota_request, None), (QValidate sample_quota_request, None)] 0 = 2
    \<and> snd (qv_Validate snd (Some (sample_validator U)) (0, Some [(''s'', \<lparr>qs_model_requests = 2, qs_tool_uses = 0\<rparr>)], None)
        sample_quota_request) = Some (exceeded_error (sample_validator U) BoundaryModelRequest)"
proof
  fix U
  have h: "managed_history (sample_validator U) [(None, QValidate sample_quota_request), (None, QValidate sample_quota_request)]
    = ((0, Some [(''s'', \<lparr>qs_model_requests = 2, qs_tool_uses = 0\<rparr>)], None),
       [(QValidate sample_quota_request, None), (QValidate sample_quota_request, None)])"
    by (simp add: sample_quota_defs)
  have "admitted_since BoundaryModelRequest ''s'' [(QValidate sample_quota_request, None), (QValidate sample_quota_request, None)] 0 = 2"
    by (simp add: admitted_since_def sample_quota_request_def)
  with quota_grants_exactly_limit [OF sample_validator_made [of U] _ _ h, of sample_quota_request]
  show "admitted_since BoundaryModelRequest ''s'' [(QValidate sample_quota_request, None), (QValidate sample_quota_request, None)] 0 = 2
    \<and> snd (qv_Validate snd (Some (sample_validator U)) (0, Some [(''s'', \<lparr>qs_model_requests = 2, qs_tool_uses = 0\<rparr>)], None)
        sample_quota_request) = Some (exceeded_error (sample_validator U) BoundaryModelRequest)"
    by (simp add: sample_policies_def sample_quota_request_def metered_def boundary_limit_def sample_validator_def
        scope_is_zero_def zero_scope_def int64_range_def)
qed

section \<open>Errors of a store, combination, session ends\<close>

text \<open>
  Without the option to allow on errors no error of any store lets a request pass, and with it only an error that is
  not the context's does, and is counted.
\<close>

theorem store_errors_deny:
  assumes "qo_reserve (qv_store v) w (tq_scope req) (tq_session req) (boundary_counter (tq_boundary req)) (boundary_limit v (tq_boundary req)) = (w', k, g, Some e)"
    and "metered (tq_boundary req)" "tq_session req \<noteq> []" "0 < boundary_limit v (tq_boundary req)" "\<not> scope_is_zero (tq_scope req)" "ctxerr w = None"
  shows "\<exists>e'. qv_Validate ctxerr (Some v) (n, w) req =
    (if qv_error_policy v = QuotaStoreAllowOnError \<and> \<not> is_context_err e then ((i64 (n + 1), w'), None) else ((n, w'), Some e'))"
  using assms by (subst Validate_metered) (auto simp: record_use_def handleStoreError_def)

text \<open>
  The validator of the base options runs first and its denial stands; a request passes when both let it pass, and the
  quota is charged only for requests the base validator let pass.
\<close>

theorem combined_validators_conjoin:
  "combineValidators [b, Some q] = Some f \<Longrightarrow>
   f w req = (case b of None \<Rightarrow> q w req | Some g \<Rightarrow> (case g w req of (w', Some e) \<Rightarrow> (w', Some e) | (w', None) \<Rightarrow> q w' req))"
  by (cases b) (auto simp: combineValidators_def split: prod.splits option.splits)

text \<open>
  The hook a stack installs drops the session's counts when its run ends, unless the run's context has ended: then
  the reset fails and the counts of the session stay in the store.
\<close>

theorem cancelled_run_keeps_quota:
  "snd (managed_history (sample_validator U)
     [(None, QValidate sample_quota_request), (Some ECanceled, QEnded \<lparr>ei_session = ''s'', ei_tenant = zero_scope,
        ei_reason = StopReasonCanceled, ei_err = Some ECanceled\<rparr>)])
   = [(QValidate sample_quota_request, None), (QEnded \<lparr>ei_session = ''s'', ei_tenant = zero_scope,
        ei_reason = StopReasonCanceled, ei_err = Some ECanceled\<rparr>, Some ECanceled)]
   \<and> mem_used (snd (fst (managed_history (sample_validator U)
     [(None, QValidate sample_quota_request), (Some ECanceled, QEnded \<lparr>ei_session = ''s'', ei_tenant = zero_scope,
        ei_reason = StopReasonCanceled, ei_err = Some ECanceled\<rparr>)]))) ''s'' QuotaCounterModelRequests = 1"
  by (simp add: sample_quota_defs)

end
