(* ===== verification/Audit_Record.thy ===== *)
theory Audit_Record
  imports Run_Events Assistant_Text
begin

text \<open>
  \<open>stack/cloudmanaged/audit.go\<close>: the audit record made of a run's event, its deep copy, the in-memory and the JSON
  lines sink, observing one event and mirroring a stream. Sinks and error handlers of the host act on the world
  \<open>'w\<close>; JSON encoding is an argument. The run and notification payloads are not part of the event record.
\<close>

section \<open>Records\<close>

record audit_record =
  ar_kind :: event_kind
  ar_session :: string
  ar_parent :: string
  ar_turn :: int
  ar_time :: gotime
  ar_message :: "message option"
  ar_tool_use :: "tool_use option"
  ar_tool_use_delta :: string
  ar_tool_result :: "tool_result option"
  ar_usage :: "usage option"
  ar_context :: "(int \<times> int) option"
  ar_compaction :: "compaction_record option"
  ar_memory :: "candidate list option"
  ar_skill :: "skill_event option"
  ar_workspace :: "workspace_event option"
  ar_verification :: "verification_event option"
  ar_approval :: "approval_event option"
  ar_tenant :: "tenant_event option"
  ar_command :: "command_event option"
  ar_result :: string
  ar_error :: string

definition cloneStringMap :: "(string, string) gomap \<Rightarrow> (string, string) gomap" where
  "cloneStringMap m = (if m = [] then [] else put_all [] m)"

definition clone_result_metadata :: "tool_result \<Rightarrow> tool_result" where
  "clone_result_metadata r = r\<lparr>tr_metadata := CloneMetadata (tr_metadata r)\<rparr>"

definition clone_usage :: "usage \<Rightarrow> usage" where
  "clone_usage u = u\<lparr>us_metadata := CloneMetadata (us_metadata u)\<rparr>"

definition clone_tenant_event :: "tenant_event \<Rightarrow> tenant_event" where
  "clone_tenant_event t = t\<lparr>te_attributes := cloneStringMap (te_attributes t)\<rparr>"

text \<open>Copies of slices and of plain structs are the values themselves.\<close>

definition cloneAuditRecord :: "audit_record \<Rightarrow> audit_record" where
  "cloneAuditRecord r =
     r\<lparr>ar_message := map_option CloneMessage (ar_message r),
       ar_tool_result := map_option clone_result_metadata (ar_tool_result r),
       ar_usage := map_option clone_usage (ar_usage r),
       ar_memory := map_option CloneCandidates (ar_memory r),
       ar_tenant := map_option clone_tenant_event (ar_tenant r)\<rparr>"

definition audit_header :: "gotime \<Rightarrow> event \<Rightarrow> audit_record" where
  "audit_header now e =
     \<lparr>ar_kind = ev_kind e, ar_session = ev_session e, ar_parent = ev_parent e, ar_turn = ev_turn e,
      ar_time = (if time_is_zero (ev_time e) then now else ev_time e),
      ar_message = None, ar_tool_use = None, ar_tool_use_delta = [], ar_tool_result = None, ar_usage = None, ar_context = None,
      ar_compaction = None, ar_memory = None, ar_skill = None, ar_workspace = None, ar_verification = None, ar_approval = None,
      ar_tenant = None, ar_command = None, ar_result = [], ar_error = []\<rparr>"

text \<open>The thinking deltas and provider artifacts of an event have no field in the record.\<close>

definition recordFromEvent :: "gotime \<Rightarrow> event \<Rightarrow> audit_record" where
  "recordFromEvent now e =
     (let r = audit_header now e
      in case ev_payload e of
           NoPayload \<Rightarrow> r
         | PMessage m \<Rightarrow> r\<lparr>ar_message := Some (CloneMessage m)\<rparr>
         | PToolUse u \<Rightarrow> r\<lparr>ar_tool_use := Some u\<rparr>
         | PToolUseDelta u d \<Rightarrow> r\<lparr>ar_tool_use := Some u, ar_tool_use_delta := d\<rparr>
         | PThinking _ \<Rightarrow> r
         | PArtifact _ \<Rightarrow> r
         | PToolResult t \<Rightarrow> r\<lparr>ar_tool_result := Some (clone_result_metadata t)\<rparr>
         | PUsage u \<Rightarrow> r\<lparr>ar_usage := Some (clone_usage u)\<rparr>
         | PContext n k \<Rightarrow> r\<lparr>ar_context := Some (n, k)\<rparr>
         | PCompaction c \<Rightarrow> r\<lparr>ar_compaction := Some c\<rparr>
         | PMemory cs \<Rightarrow> r\<lparr>ar_memory := Some (CloneCandidates cs)\<rparr>
         | PSkill s \<Rightarrow> r\<lparr>ar_skill := Some s\<rparr>
         | PWorkspace w \<Rightarrow> r\<lparr>ar_workspace := Some w\<rparr>
         | PVerification v \<Rightarrow> r\<lparr>ar_verification := Some v\<rparr>
         | PApproval a \<Rightarrow> r\<lparr>ar_approval := Some a\<rparr>
         | PTenant t \<Rightarrow> r\<lparr>ar_tenant := Some (clone_tenant_event t)\<rparr>
         | PCommand c \<Rightarrow> r\<lparr>ar_command := Some c\<rparr>
         | PResult x u \<Rightarrow> r\<lparr>ar_result := x, ar_usage := map_option clone_usage u\<rparr>
         | PErr x \<Rightarrow> r\<lparr>ar_error := err_msg x\<rparr>)"

section \<open>Sinks\<close>

type_synonym 'w audit_sink = "'w \<Rightarrow> audit_record \<Rightarrow> 'w \<times> err option"

text \<open>\<open>None\<close> is the nil \<open>*MemorySink\<close>.\<close>

definition MemorySink_WriteAudit :: "audit_record list option audit_sink" where
  "MemorySink_WriteAudit s r = (map_option (\<lambda>rs. rs @ [cloneAuditRecord r]) s, None)"

definition MemorySink_Records :: "audit_record list option \<Rightarrow> audit_record list" where
  "MemorySink_Records s = (case s of None \<Rightarrow> [] | Some rs \<Rightarrow> map cloneAuditRecord rs)"

text \<open>The JSON lines sink over \<open>json.Marshal\<close> and the host's writer; \<open>None\<close> is a nil sink or a nil writer.\<close>

definition JSONLSink_WriteAudit ::
  "(audit_record \<Rightarrow> err + string) \<Rightarrow> ('w \<Rightarrow> string \<Rightarrow> 'w \<times> err option) option \<Rightarrow> 'w audit_sink" where
  "JSONLSink_WriteAudit marshal wr w r =
     (case wr of
        None \<Rightarrow> (w, None)
      | Some write \<Rightarrow> (case marshal r of Inl e \<Rightarrow> (w, Some e) | Inr d \<Rightarrow> write w (d @ [CHR 10])))"

record 'w audit_config =
  ac_sink :: "'w audit_sink option"
  ac_handler :: "('w \<Rightarrow> err \<Rightarrow> 'w) option"

definition audit_handleError :: "'w audit_config \<Rightarrow> 'w \<Rightarrow> err option \<Rightarrow> 'w" where
  "audit_handleError c w e =
     (case e of None \<Rightarrow> w | Some x \<Rightarrow> (case ac_handler c of None \<Rightarrow> w | Some h \<Rightarrow> h w x))"

definition audit_ObserveEvent :: "gotime \<Rightarrow> 'w audit_config \<Rightarrow> 'w \<Rightarrow> event \<Rightarrow> 'w" where
  "audit_ObserveEvent now c w e =
     (case ac_sink c of
        None \<Rightarrow> w
      | Some sink \<Rightarrow> (case sink w (recordFromEvent now e) of (w', r) \<Rightarrow> audit_handleError c w' r))"

text \<open>
  The goroutine of \<open>Subscribe\<close>: each event is observed, then sent on unless the context ends first. \<open>taken\<close> tells how many
  sends succeed before that; without a sink the stream is passed through as it is.
\<close>

fun mirror_events :: "gotime \<Rightarrow> 'w audit_config \<Rightarrow> nat \<Rightarrow> event list \<Rightarrow> 'w \<Rightarrow> 'w \<times> event list" where
  "mirror_events now c taken [] w = (w, [])"
| "mirror_events now c taken (e # es) w =
     (let w1 = audit_ObserveEvent now c w e
      in case taken of
           0 \<Rightarrow> (w1, [])
         | Suc n \<Rightarrow> (case mirror_events now c n es w1 of (w2, out) \<Rightarrow> (w2, e # out)))"

definition audit_Subscribe :: "gotime \<Rightarrow> 'w audit_config \<Rightarrow> nat \<Rightarrow> event list \<Rightarrow> 'w \<Rightarrow> 'w \<times> event list" where
  "audit_Subscribe now c taken es w = (if ac_sink c = None then (w, es) else mirror_events now c taken es w)"

section \<open>Copies\<close>

lemma cloneStringMap_idem [simp, clone_simps]: "cloneStringMap (cloneStringMap m) = cloneStringMap m"
  using put_all_distinct [of "[]" "put_all [] m"] by (auto simp: cloneStringMap_def wf_map_put_all)

lemma clone_payload_idem [simp, clone_simps]:
  "clone_result_metadata (clone_result_metadata r) = clone_result_metadata r"
  "clone_usage (clone_usage u) = clone_usage u"
  "clone_tenant_event (clone_tenant_event t) = clone_tenant_event t"
  "clone_memory (clone_memory m) = clone_memory m"
  by (simp_all add: clone_result_metadata_def clone_usage_def clone_tenant_event_def clone_memory_def)

lemma CloneCandidates_idem [simp, clone_simps]: "CloneCandidates (CloneCandidates cs) = CloneCandidates cs"
  by (simp add: CloneCandidates_def)

lemma cloneAuditRecord_idem [simp, clone_simps]: "cloneAuditRecord (cloneAuditRecord r) = cloneAuditRecord r"
  by (simp add: cloneAuditRecord_def option.map_comp comp_def)

lemma clone_recordFromEvent [simp, clone_simps]: "cloneAuditRecord (recordFromEvent now e) = recordFromEvent now e"
  by (cases "ev_payload e")
    (simp_all add: recordFromEvent_def cloneAuditRecord_def audit_header_def Let_def option.map_comp comp_def)

section \<open>The audit trail\<close>

lemma observe_memory_sink:
  "audit_ObserveEvent now \<lparr>ac_sink = Some MemorySink_WriteAudit, ac_handler = h\<rparr> (Some rs) e = Some (rs @ [recordFromEvent now e])"
  by (simp add: audit_ObserveEvent_def MemorySink_WriteAudit_def audit_handleError_def)

lemma mirror_events_sink:
  "mirror_events now \<lparr>ac_sink = Some MemorySink_WriteAudit, ac_handler = h\<rparr> n es (Some rs) =
     (Some (rs @ map (recordFromEvent now) (take (Suc n) es)), take n es)"
  by (induction es arbitrary: n rs) (auto simp: observe_memory_sink Let_def split: nat.split)

text \<open>
  Mirroring a stream to the in-memory sink leaves the caller the events up to the end of its context and the sink one
  record per event, in order, at most one more than the caller read; what \<open>Records\<close> returns is what was written.
\<close>

theorem audit_trail_exact:
  assumes "audit_Subscribe now \<lparr>ac_sink = Some MemorySink_WriteAudit, ac_handler = h\<rparr> n es (Some []) = (s, out)"
  shows "out = take n es \<and> MemorySink_Records s = map (recordFromEvent now) (take (Suc n) es)"
  using assms mirror_events_sink [of now h n es "[]"]
  by (auto simp: audit_Subscribe_def MemorySink_Records_def)

text \<open>Whatever the sink and the handler do, the caller sees the events of the stream in order.\<close>

theorem mirror_preserves_stream: "\<exists>k. snd (audit_Subscribe now c n es w) = take k es"
proof -
  have "snd (mirror_events now c n es w) = take n es" for n w
    by (induction es arbitrary: n w) (auto simp: Let_def case_prod_beta split: nat.split)
  then show ?thesis
    by (cases "ac_sink c") (auto simp: audit_Subscribe_def intro: exI [of _ "length es"])
qed

end
