(* ===== verification/Async_Sink.thy ===== *)
theory Async_Sink
  imports Audit_Record "HOL-Library.Sublist"
begin

text \<open>
  \<open>stack/cloudmanaged/async_sink.go\<close>: audit records are handed over a bounded queue to one worker. Writers, the worker and
  \<open>Close\<close> are machines over the shared sink; each move is one atomic operation of the source: a load of the closed
  flag, a select, a counter update. A select takes any of its ready cases, \<open>default\<close> only when none is ready; which one is
  the \<open>choice\<close> of the move. Contexts of queued records only carry values and are not modelled.
\<close>

section \<open>Configuration\<close>

definition defaultAsyncSinkBuffer :: int where
  "defaultAsyncSinkBuffer = 256"

type_synonym overflow_policy = string

abbreviation AsyncOverflowBlock :: overflow_policy where "AsyncOverflowBlock \<equiv> ''block''"
abbreviation AsyncOverflowDropOldest :: overflow_policy where "AsyncOverflowDropOldest \<equiv> ''drop_oldest''"

definition ErrAsyncSinkClosed :: err where
  "ErrAsyncSinkClosed = EText ''cloudmanaged async audit sink is closed''"

definition overflow_error :: "overflow_policy \<Rightarrow> err" where
  "overflow_error p =
     EText (if p = [] then ''cloudmanaged async audit sink overflow''
            else ''cloudmanaged async audit sink overflow ('' @ p @ '')'')"

record sink_config =
  kc_buffer :: int
  kc_overflow :: overflow_policy
  kc_handler :: bool

type_synonym sink_option = "sink_config \<Rightarrow> err + sink_config"

definition WithAsyncSinkBufferSize :: "int \<Rightarrow> sink_option" where
  "WithAsyncSinkBufferSize n c =
     (if n \<le> 0 then Inl (EText ''cloudmanaged async sink buffer size must be > 0'') else Inr (c\<lparr>kc_buffer := n\<rparr>))"

definition WithAsyncOverflowPolicy :: "unicode \<Rightarrow> overflow_policy \<Rightarrow> sink_option" where
  "WithAsyncOverflowPolicy U p c =
     (if p = [] \<or> p = AsyncOverflowBlock then Inr (c\<lparr>kc_overflow := AsyncOverflowBlock\<rparr>)
      else if p = AsyncOverflowDropOldest then Inr (c\<lparr>kc_overflow := p\<rparr>)
      else Inl (EText (''cloudmanaged async sink overflow policy '' @ quote U p @ '' is unsupported'')))"

definition WithAsyncSinkErrorHandler :: "bool \<Rightarrow> sink_option" where
  "WithAsyncSinkErrorHandler handler c = Inr (c\<lparr>kc_handler := handler\<rparr>)"

fun apply_options :: "sink_option option list \<Rightarrow> sink_config \<Rightarrow> err + sink_config" where
  "apply_options [] c = Inr c"
| "apply_options (None # os) c = apply_options os c"
| "apply_options (Some f # os) c = (case f c of Inl e \<Rightarrow> Inl e | Inr c' \<Rightarrow> apply_options os c')"

section \<open>The sink\<close>

text \<open>
  Where a call of \<open>WriteAudit\<close> is: before the load of the closed flag, in the select of \<open>writeBlock\<close>, before
  the context check of \<open>writeDropOldest\<close>, at the head of its loop, at its two selects, after a send (before the count), after a
  drop (before the count), returned.
\<close>

datatype writer_pc =
    AtFlag | AtBlock | AtContext | AtLoop | AtTrySend | AtTryDrop | AtSent | AtDropped | WriteReturned "err option"

record writer =
  wr_item :: audit_record
  wr_ctxerr :: "err option"
  wr_pc :: writer_pc

text \<open>Where the worker is: in the outer select, writing a record (draining or not), in the draining select, returned.\<close>

datatype sink_worker_pc = AtSelect | AtWriteInner bool audit_record | AtDrain | WorkerDone

datatype closer_pc = CloseIdle | CloseFlagged | CloseSignalled

text \<open>
  Besides the fields of the source the state has the history of the queue: the items sent, taken out, given to the inner
  sink, dropped, the errors handled, and how many items had been sent when the closed channel was closed.
\<close>

record async_sink =
  ak_capacity :: nat
  ak_overflow :: overflow_policy
  ak_handler :: bool
  ak_queue :: "audit_record list"
  ak_closed :: bool
  ak_closed_ch :: bool
  ak_written :: int
  ak_dropped :: int
  ak_worker :: sink_worker_pc
  ak_closer :: closer_pc
  ak_writers :: "writer list"
  ak_sent :: "audit_record list"
  ak_removed :: "(bool \<times> audit_record) list"
  ak_delivered :: "audit_record list"
  ak_handled :: "err list"
  ak_mark :: nat

definition NewAsyncSink :: "bool \<Rightarrow> sink_option option list \<Rightarrow> err + async_sink" where
  "NewAsyncSink has_inner options =
     (if \<not> has_inner then Inl (EText ''cloudmanaged async sink inner sink is required'')
      else case apply_options options \<lparr>kc_buffer = defaultAsyncSinkBuffer, kc_overflow = AsyncOverflowBlock, kc_handler = False\<rparr> of
             Inl e \<Rightarrow> Inl e
           | Inr c \<Rightarrow> Inr \<lparr>ak_capacity = nat (kc_buffer c), ak_overflow = kc_overflow c, ak_handler = kc_handler c, ak_queue = [],
                 ak_closed = False, ak_closed_ch = False, ak_written = 0, ak_dropped = 0, ak_worker = AtSelect, ak_closer = CloseIdle,
                 ak_writers = [], ak_sent = [], ak_removed = [], ak_delivered = [], ak_handled = [], ak_mark = 0\<rparr>)"

definition sink_handleError :: "err option \<Rightarrow> async_sink \<Rightarrow> async_sink" where
  "sink_handleError e s =
     (case e of None \<Rightarrow> s | Some x \<Rightarrow> if ak_handler s then s\<lparr>ak_handled := ak_handled s @ [x]\<rparr> else s)"

definition sink_Stats :: "async_sink option \<Rightarrow> int \<times> int \<times> nat" where
  "sink_Stats s = (case s of None \<Rightarrow> (0, 0, 0) | Some k \<Rightarrow> (ak_written k, ak_dropped k, length (ak_queue k)))"

section \<open>Moves\<close>

datatype choice = TakeClosed | TakeDone | TakeQueue | TakeDefault

definition set_writer :: "nat \<Rightarrow> writer_pc \<Rightarrow> async_sink \<Rightarrow> async_sink" where
  "set_writer i pc s = s\<lparr>ak_writers := (ak_writers s)[i := (ak_writers s ! i)\<lparr>wr_pc := pc\<rparr>]\<rparr>"

definition enqueue_item :: "audit_record \<Rightarrow> async_sink \<Rightarrow> async_sink" where
  "enqueue_item r s = s\<lparr>ak_queue := ak_queue s @ [r], ak_sent := ak_sent s @ [r]\<rparr>"

text \<open>Taking the oldest item out, for delivery (\<open>True\<close>) or to drop it.\<close>

definition dequeue_item :: "bool \<Rightarrow> async_sink \<Rightarrow> async_sink" where
  "dequeue_item kept s = s\<lparr>ak_queue := tl (ak_queue s), ak_removed := ak_removed s @ [(kept, hd (ak_queue s))]\<rparr>"

definition has_room :: "async_sink \<Rightarrow> bool" where
  "has_room s \<longleftrightarrow> length (ak_queue s) < ak_capacity s"

text \<open>A call of \<open>WriteAudit\<close>: the record is copied into the item. \<open>err1\<close> is the error the call's context will have
  once it ends (\<open>None\<close> while it is live); a nil context never ends.\<close>

definition WriteAudit_call :: "audit_record \<Rightarrow> async_sink \<Rightarrow> async_sink" where
  "WriteAudit_call r s =
     s\<lparr>ak_writers := ak_writers s @ [\<lparr>wr_item = cloneAuditRecord r, wr_ctxerr = None, wr_pc = AtFlag\<rparr>]\<rparr>"

text \<open>\<open>writeBlock\<close>: one select over the closed channel, the context and the queue.\<close>

definition writeBlock :: "choice \<Rightarrow> nat \<Rightarrow> async_sink \<Rightarrow> async_sink option" where
  "writeBlock ch i s =
     (let w = ak_writers s ! i
      in case ch of
           TakeClosed \<Rightarrow> if ak_closed_ch s then Some (set_writer i (WriteReturned (Some ErrAsyncSinkClosed)) s) else None
         | TakeDone \<Rightarrow> if wr_ctxerr w \<noteq> None then Some (set_writer i (WriteReturned (wr_ctxerr w)) s) else None
         | TakeQueue \<Rightarrow> if has_room s then Some (set_writer i AtSent (enqueue_item (wr_item w) s)) else None
         | TakeDefault \<Rightarrow> None)"

text \<open>The first select of the loop of \<open>writeDropOldest\<close> sends if there is room, the second drops the oldest item.\<close>

definition try_send :: "choice \<Rightarrow> nat \<Rightarrow> async_sink \<Rightarrow> async_sink option" where
  "try_send ch i s =
     (case ch of
        TakeClosed \<Rightarrow> if ak_closed_ch s then Some (set_writer i (WriteReturned (Some ErrAsyncSinkClosed)) s) else None
      | TakeQueue \<Rightarrow> if has_room s then Some (set_writer i AtSent (enqueue_item (wr_item (ak_writers s ! i)) s)) else None
      | TakeDefault \<Rightarrow> if \<not> ak_closed_ch s \<and> \<not> has_room s then Some (set_writer i AtTryDrop s) else None
      | TakeDone \<Rightarrow> None)"

definition try_drop :: "choice \<Rightarrow> nat \<Rightarrow> async_sink \<Rightarrow> async_sink option" where
  "try_drop ch i s =
     (let w = ak_writers s ! i
      in case ch of
           TakeClosed \<Rightarrow> if ak_closed_ch s then Some (set_writer i (WriteReturned (Some ErrAsyncSinkClosed)) s) else None
         | TakeDone \<Rightarrow> if wr_ctxerr w \<noteq> None then Some (set_writer i (WriteReturned (wr_ctxerr w)) s) else None
         | TakeQueue \<Rightarrow> if ak_queue s \<noteq> [] then Some (set_writer i AtDropped (dequeue_item False s)) else None
         | TakeDefault \<Rightarrow> if \<not> ak_closed_ch s \<and> wr_ctxerr w = None \<and> ak_queue s = [] then Some (set_writer i AtLoop s) else None)"

definition writer_move :: "choice \<Rightarrow> nat \<Rightarrow> async_sink \<Rightarrow> async_sink option" where
  "writer_move ch i s =
     (let w = ak_writers s ! i
      in case wr_pc w of
           AtFlag \<Rightarrow>
             Some (set_writer i (if ak_closed s then WriteReturned (Some ErrAsyncSinkClosed)
                                 else if ak_overflow s = AsyncOverflowDropOldest then AtContext else AtBlock) s)
         | AtBlock \<Rightarrow> writeBlock ch i s
         | AtContext \<Rightarrow> Some (set_writer i (if wr_ctxerr w \<noteq> None then WriteReturned (wr_ctxerr w) else AtLoop) s)
         | AtLoop \<Rightarrow> Some (set_writer i (if ak_closed s then WriteReturned (Some ErrAsyncSinkClosed) else AtTrySend) s)
         | AtTrySend \<Rightarrow> try_send ch i s
         | AtTryDrop \<Rightarrow> try_drop ch i s
         | AtSent \<Rightarrow> Some (set_writer i (WriteReturned None) (s\<lparr>ak_written := i64 (ak_written s + 1)\<rparr>))
         | AtDropped \<Rightarrow>
             Some (set_writer i AtLoop
               (sink_handleError (Some (overflow_error AsyncOverflowDropOldest)) (s\<lparr>ak_dropped := i64 (ak_dropped s + 1)\<rparr>)))
         | WriteReturned e \<Rightarrow> None)"

text \<open>\<open>run\<close>: \<open>e\<close> is what the inner sink returns for the record being written.\<close>

definition sink_worker_move :: "choice \<Rightarrow> err option \<Rightarrow> async_sink \<Rightarrow> async_sink option" where
  "sink_worker_move ch e s =
     (case ak_worker s of
        AtSelect \<Rightarrow>
          (case ch of
             TakeQueue \<Rightarrow> if ak_queue s \<noteq> [] then Some ((dequeue_item True s)\<lparr>ak_worker := AtWriteInner False (hd (ak_queue s))\<rparr>) else None
           | TakeClosed \<Rightarrow> if ak_closed_ch s then Some (s\<lparr>ak_worker := AtDrain\<rparr>) else None
           | _ \<Rightarrow> None)
      | AtWriteInner draining r \<Rightarrow>
          Some (sink_handleError e (s\<lparr>ak_delivered := ak_delivered s @ [r], ak_worker := (if draining then AtDrain else AtSelect)\<rparr>))
      | AtDrain \<Rightarrow>
          (case ch of
             TakeQueue \<Rightarrow> if ak_queue s \<noteq> [] then Some ((dequeue_item True s)\<lparr>ak_worker := AtWriteInner True (hd (ak_queue s))\<rparr>) else None
           | TakeDefault \<Rightarrow> if ak_queue s = [] then Some (s\<lparr>ak_worker := WorkerDone\<rparr>) else None
           | _ \<Rightarrow> None)
      | WorkerDone \<Rightarrow> None)"

text \<open>The body of \<open>closeOnce\<close>: the flag is set, then the channel is closed. \<open>Close\<close> then waits for the worker or its
  own context.\<close>

definition closer_move :: "async_sink \<Rightarrow> async_sink option" where
  "closer_move s =
     (case ak_closer s of
        CloseIdle \<Rightarrow> Some (s\<lparr>ak_closed := True, ak_closer := CloseFlagged\<rparr>)
      | CloseFlagged \<Rightarrow> Some (s\<lparr>ak_closed_ch := True, ak_closer := CloseSignalled, ak_mark := length (ak_sent s)\<rparr>)
      | CloseSignalled \<Rightarrow> None)"

text \<open>The select at the end of \<open>Close\<close>: \<open>waited\<close> is the case of the worker's exit, the other one that of the context.\<close>

definition Close_result :: "bool \<Rightarrow> err option \<Rightarrow> async_sink \<Rightarrow> err option option" where
  "Close_result waited ctxerr s =
     (if ak_closer s \<noteq> CloseSignalled then None
      else if waited then (if ak_worker s = WorkerDone then Some None else None)
      else (case ctxerr of None \<Rightarrow> None | Some e \<Rightarrow> Some (Some e)))"

definition end_writer_context :: "err \<Rightarrow> nat \<Rightarrow> async_sink \<Rightarrow> async_sink" where
  "end_writer_context e i s = s\<lparr>ak_writers := (ak_writers s)[i := (ak_writers s ! i)\<lparr>wr_ctxerr := Some e\<rparr>]\<rparr>"

datatype mover = Caller | Writer nat | SinkWorker | Closer

inductive sink_step :: "mover \<Rightarrow> async_sink \<Rightarrow> async_sink \<Rightarrow> bool" where
  call: "sink_step Caller s (WriteAudit_call r s)"
| expire: "i < length (ak_writers s) \<Longrightarrow> sink_step Caller s (end_writer_context e i s)"
| wmove: "i < length (ak_writers s) \<Longrightarrow> writer_move ch i s = Some s' \<Longrightarrow> sink_step (Writer i) s s'"
| work: "sink_worker_move ch e s = Some s' \<Longrightarrow> sink_step SinkWorker s s'"
| close: "closer_move s = Some s' \<Longrightarrow> sink_step Closer s s'"

inductive sink_path :: "mover list \<Rightarrow> async_sink \<Rightarrow> async_sink \<Rightarrow> bool" where
  stay: "sink_path [] s s"
| move: "sink_path ls s s' \<Longrightarrow> sink_step l s' s'' \<Longrightarrow> sink_path (ls @ [l]) s s''"

inductive_cases sink_stepE: "sink_step l s s'"

end
