(* ===== verification/Audit_Contract.thy ===== *)
theory Audit_Contract
  imports Async_Sink
begin

text \<open>
  What every interleaving of writers, worker and \<open>Close\<close> keeps of the asynchronous audit sink: the queue is bounded and
  first-in first-out, records reach the inner sink in the order they were accepted, blocking sinks lose nothing that was
  accepted before the close, the counters count, and the worker ends a bounded number of its steps after the close.
\<close>

section \<open>Fields a move leaves alone\<close>

lemma set_writer_simps [frame_simps, simp]:
  "ak_capacity (set_writer i pc s) = ak_capacity s" "ak_overflow (set_writer i pc s) = ak_overflow s"
  "ak_handler (set_writer i pc s) = ak_handler s" "ak_queue (set_writer i pc s) = ak_queue s"
  "ak_closed (set_writer i pc s) = ak_closed s" "ak_closed_ch (set_writer i pc s) = ak_closed_ch s"
  "ak_written (set_writer i pc s) = ak_written s" "ak_dropped (set_writer i pc s) = ak_dropped s"
  "ak_worker (set_writer i pc s) = ak_worker s" "ak_closer (set_writer i pc s) = ak_closer s"
  "ak_sent (set_writer i pc s) = ak_sent s" "ak_removed (set_writer i pc s) = ak_removed s"
  "ak_delivered (set_writer i pc s) = ak_delivered s" "ak_mark (set_writer i pc s) = ak_mark s"
  "ak_writers (set_writer i pc s) = (ak_writers s)[i := (ak_writers s ! i)\<lparr>wr_pc := pc\<rparr>]"
  by (simp_all add: set_writer_def)

lemma handleError_simps [frame_simps, simp]:
  "ak_capacity (sink_handleError e s) = ak_capacity s" "ak_overflow (sink_handleError e s) = ak_overflow s"
  "ak_queue (sink_handleError e s) = ak_queue s" "ak_closed (sink_handleError e s) = ak_closed s"
  "ak_closed_ch (sink_handleError e s) = ak_closed_ch s" "ak_written (sink_handleError e s) = ak_written s"
  "ak_dropped (sink_handleError e s) = ak_dropped s" "ak_worker (sink_handleError e s) = ak_worker s"
  "ak_closer (sink_handleError e s) = ak_closer s" "ak_writers (sink_handleError e s) = ak_writers s"
  "ak_sent (sink_handleError e s) = ak_sent s" "ak_removed (sink_handleError e s) = ak_removed s"
  "ak_delivered (sink_handleError e s) = ak_delivered s" "ak_mark (sink_handleError e s) = ak_mark s"
  by (simp_all add: sink_handleError_def split: option.split)

lemma item_simps [frame_simps, simp]:
  "ak_queue (enqueue_item r s) = ak_queue s @ [r]" "ak_sent (enqueue_item r s) = ak_sent s @ [r]"
  "ak_queue (dequeue_item k s) = tl (ak_queue s)" "ak_removed (dequeue_item k s) = ak_removed s @ [(k, hd (ak_queue s))]"
  "ak_sent (dequeue_item k s) = ak_sent s" "ak_removed (enqueue_item r s) = ak_removed s"
  "ak_writers (enqueue_item r s) = ak_writers s" "ak_writers (dequeue_item k s) = ak_writers s"
  "ak_worker (enqueue_item r s) = ak_worker s" "ak_worker (dequeue_item k s) = ak_worker s"
  "ak_closer (enqueue_item r s) = ak_closer s" "ak_closer (dequeue_item k s) = ak_closer s"
  "ak_closed (enqueue_item r s) = ak_closed s" "ak_closed (dequeue_item k s) = ak_closed s"
  "ak_closed_ch (enqueue_item r s) = ak_closed_ch s" "ak_closed_ch (dequeue_item k s) = ak_closed_ch s"
  "ak_capacity (enqueue_item r s) = ak_capacity s" "ak_capacity (dequeue_item k s) = ak_capacity s"
  "ak_overflow (enqueue_item r s) = ak_overflow s" "ak_overflow (dequeue_item k s) = ak_overflow s"
  "ak_written (enqueue_item r s) = ak_written s" "ak_written (dequeue_item k s) = ak_written s"
  "ak_dropped (enqueue_item r s) = ak_dropped s" "ak_dropped (dequeue_item k s) = ak_dropped s"
  "ak_delivered (enqueue_item r s) = ak_delivered s" "ak_delivered (dequeue_item k s) = ak_delivered s"
  "ak_mark (enqueue_item r s) = ak_mark s" "ak_mark (dequeue_item k s) = ak_mark s"
  by (simp_all add: enqueue_item_def dequeue_item_def)

lemmas move_defs = writer_move_def writeBlock_def try_send_def try_drop_def Let_def

fun drop_pc :: "writer_pc \<Rightarrow> bool" where
  "drop_pc AtContext = True" | "drop_pc AtLoop = True" | "drop_pc AtTrySend = True" | "drop_pc AtTryDrop = True"
| "drop_pc AtDropped = True" | "drop_pc AtFlag = False" | "drop_pc AtBlock = False" | "drop_pc AtSent = False"
| "drop_pc (WriteReturned e) = False"

text \<open>The moves of a writer by their effect on what is shared: nothing, a send, a drop, or one of the counters.\<close>

inductive writer_effect :: "nat \<Rightarrow> async_sink \<Rightarrow> async_sink \<Rightarrow> bool" where
  quiet: "wr_pc (ak_writers s ! i) = pc0 \<Longrightarrow> pc0 \<noteq> AtSent \<Longrightarrow> pc0 \<noteq> AtDropped \<Longrightarrow> pc \<noteq> AtSent \<Longrightarrow> pc \<noteq> AtDropped \<Longrightarrow>
     (pc = AtBlock \<or> pc = AtTrySend \<longrightarrow> \<not> ak_closed s) \<Longrightarrow> (drop_pc pc \<longrightarrow> drop_pc pc0 \<or> ak_overflow s = AsyncOverflowDropOldest) \<Longrightarrow>
     writer_effect i s (set_writer i pc s)"
| send: "wr_pc (ak_writers s ! i) = AtBlock \<or> wr_pc (ak_writers s ! i) = AtTrySend \<Longrightarrow> length (ak_queue s) < ak_capacity s \<Longrightarrow>
     writer_effect i s (set_writer i AtSent (enqueue_item (wr_item (ak_writers s ! i)) s))"
| drop: "wr_pc (ak_writers s ! i) = AtTryDrop \<Longrightarrow> ak_queue s \<noteq> [] \<Longrightarrow>
     writer_effect i s (set_writer i AtDropped (dequeue_item False s))"
| sent: "wr_pc (ak_writers s ! i) = AtSent \<Longrightarrow>
     writer_effect i s (set_writer i (WriteReturned None) (s\<lparr>ak_written := i64 (ak_written s + 1)\<rparr>))"
| dropped: "wr_pc (ak_writers s ! i) = AtDropped \<Longrightarrow>
     writer_effect i s (set_writer i AtLoop (sink_handleError (Some e) (s\<lparr>ak_dropped := i64 (ak_dropped s + 1)\<rparr>)))"

lemma writer_move_effect: "writer_move ch i s = Some s' \<Longrightarrow> writer_effect i s s'"
  by (cases "wr_pc (ak_writers s ! i)"; cases ch)
    (auto simp: move_defs has_room_def split: if_splits intro!: writer_effect.intros)

text \<open>The moves of the worker.\<close>

inductive worker_effect :: "async_sink \<Rightarrow> async_sink \<Rightarrow> bool" where
  take: "ak_worker s = (if d then AtDrain else AtSelect) \<Longrightarrow> ak_queue s = r # rest \<Longrightarrow>
     worker_effect s ((dequeue_item True s)\<lparr>ak_worker := AtWriteInner d r\<rparr>)"
| deliver: "ak_worker s = AtWriteInner d r \<Longrightarrow>
     worker_effect s (sink_handleError e (s\<lparr>ak_delivered := ak_delivered s @ [r], ak_worker := (if d then AtDrain else AtSelect)\<rparr>))"
| drain: "ak_worker s = AtSelect \<Longrightarrow> ak_closed_ch s \<Longrightarrow> worker_effect s (s\<lparr>ak_worker := AtDrain\<rparr>)"
| finish: "ak_worker s = AtDrain \<Longrightarrow> ak_queue s = [] \<Longrightarrow> worker_effect s (s\<lparr>ak_worker := WorkerDone\<rparr>)"

lemma worker_move_effect:
  assumes "sink_worker_move ch e s = Some s'"
  shows "worker_effect s s'"
proof (cases "ak_worker s")
  case AtSelect
  with assms show ?thesis using worker_effect.take [of s False] worker_effect.drain [of s]
    by (cases "ak_queue s") (auto simp: sink_worker_move_def split: choice.splits if_splits)
next
  case AtDrain
  with assms show ?thesis using worker_effect.take [of s True] worker_effect.finish [of s]
    by (cases "ak_queue s") (auto simp: sink_worker_move_def split: choice.splits if_splits)
qed (use assms in \<open>auto simp: sink_worker_move_def intro!: worker_effect.deliver\<close>)

inductive_cases writer_effectE: "writer_effect i s s'"
inductive_cases worker_effectE: "worker_effect s s'"

section \<open>The queue\<close>

fun in_hand :: "sink_worker_pc \<Rightarrow> audit_record list" where
  "in_hand (AtWriteInner d r) = [r]"
| "in_hand _ = []"

definition queue_inv :: "async_sink \<Rightarrow> bool" where
  "queue_inv s \<longleftrightarrow> map snd (ak_removed s) @ ak_queue s = ak_sent s \<and> length (ak_queue s) \<le> ak_capacity s
     \<and> ak_delivered s @ in_hand (ak_worker s) = map snd (filter fst (ak_removed s))"

lemma queue_inv_writer: "writer_effect i s s' \<Longrightarrow> queue_inv s \<Longrightarrow> queue_inv s'"
  by (erule writer_effectE) (auto simp: queue_inv_def)

lemma queue_inv_worker: "worker_effect s s' \<Longrightarrow> queue_inv s \<Longrightarrow> queue_inv s'"
  by (erule worker_effectE) (auto simp: queue_inv_def split: if_splits)

text \<open>A property that the four kinds of moves keep holds after every step.\<close>

lemma step_keeps:
  assumes "sink_step l s s'"
    and "\<And>r. P s (WriteAudit_call r s)"
    and "\<And>e i. i < length (ak_writers s) \<Longrightarrow> P s (end_writer_context e i s)"
    and "\<And>i s'. i < length (ak_writers s) \<Longrightarrow> writer_effect i s s' \<Longrightarrow> P s s'"
    and "\<And>s'. worker_effect s s' \<Longrightarrow> P s s'"
    and "ak_closer s = CloseIdle \<Longrightarrow> P s (s\<lparr>ak_closed := True, ak_closer := CloseFlagged\<rparr>)"
    and "ak_closer s = CloseFlagged \<Longrightarrow> P s (s\<lparr>ak_closed_ch := True, ak_closer := CloseSignalled, ak_mark := length (ak_sent s)\<rparr>)"
  shows "P s s'"
  using assms(1)
proof cases
  case close
  with assms(6,7) show ?thesis by (auto simp: closer_move_def split: closer_pc.splits)
qed (use assms(2-5) writer_move_effect worker_move_effect in blast)+

lemma queue_inv_step: "sink_step l s s' \<Longrightarrow> queue_inv s \<Longrightarrow> queue_inv s'"
  by (erule step_keeps [where P = "\<lambda>s s'. queue_inv s \<longrightarrow> queue_inv s'", THEN mp])
    (auto simp: queue_inv_writer queue_inv_worker, auto simp: queue_inv_def WriteAudit_call_def end_writer_context_def)

section \<open>Closing\<close>

fun draining :: "sink_worker_pc \<Rightarrow> bool" where
  "draining AtSelect = False"
| "draining (AtWriteInner d r) = d"
| "draining AtDrain = True"
| "draining WorkerDone = True"

definition close_inv :: "async_sink \<Rightarrow> bool" where
  "close_inv s \<longleftrightarrow> (ak_closed s \<longleftrightarrow> ak_closer s \<noteq> CloseIdle) \<and> (ak_closed_ch s \<longleftrightarrow> ak_closer s = CloseSignalled)
     \<and> (ak_closed_ch s \<longrightarrow> ak_mark s \<le> length (ak_sent s)) \<and> (draining (ak_worker s) \<longrightarrow> ak_closed_ch s)
     \<and> (ak_worker s = WorkerDone \<longrightarrow> ak_mark s \<le> length (ak_removed s))"

lemma queue_empty_removed:
  assumes "queue_inv s" and "ak_queue s = []"
  shows "length (ak_removed s) = length (ak_sent s)"
proof -
  have "map snd (ak_removed s) = ak_sent s" using assms by (simp add: queue_inv_def)
  then have "length (map snd (ak_removed s)) = length (ak_sent s)" by (rule arg_cong)
  then show ?thesis by simp
qed

lemma close_inv_writer: "writer_effect i s s' \<Longrightarrow> close_inv s \<Longrightarrow> close_inv s'"
  by (erule writer_effectE) (auto simp: close_inv_def)

lemma close_inv_worker: "worker_effect s s' \<Longrightarrow> queue_inv s \<Longrightarrow> close_inv s \<Longrightarrow> close_inv s'"
  by (erule worker_effectE) (auto simp: close_inv_def queue_empty_removed split: if_splits)

lemma close_inv_step: "sink_step l s s' \<Longrightarrow> queue_inv s \<Longrightarrow> close_inv s \<Longrightarrow> close_inv s'"
  by (erule step_keeps [where P = "\<lambda>s s'. queue_inv s \<longrightarrow> close_inv s \<longrightarrow> close_inv s'", THEN mp, THEN mp])
    (auto simp: close_inv_writer close_inv_worker, auto simp: close_inv_def WriteAudit_call_def end_writer_context_def)

section \<open>Policies\<close>

definition policy_inv :: "async_sink \<Rightarrow> bool" where
  "policy_inv s \<longleftrightarrow> ak_overflow s = AsyncOverflowDropOldest \<or>
     list_all fst (ak_removed s) \<and> list_all (\<lambda>w. \<not> drop_pc (wr_pc w)) (ak_writers s)"

lemma list_all_update: "list_all P xs \<Longrightarrow> P y \<Longrightarrow> list_all P (xs[i := y])"
  using set_update_subset_insert [of xs i y] by (auto simp: list_all_iff)

lemma list_all_at: "list_all P xs \<Longrightarrow> i < length xs \<Longrightarrow> P (xs ! i)"
  by (simp add: list_all_length)

lemma policy_inv_writer:
  assumes "writer_effect i s s'" and "i < length (ak_writers s)" and "policy_inv s"
  shows "policy_inv s'"
proof (cases "ak_overflow s = AsyncOverflowDropOldest")
  case True
  with assms(1) show ?thesis by (auto simp: policy_inv_def elim!: writer_effectE)
next
  case False
  with assms(2,3) have "\<not> drop_pc (wr_pc (ak_writers s ! i))" by (auto simp: policy_inv_def dest: list_all_at)
  with False assms(1,3) show ?thesis
    by (auto simp: policy_inv_def elim!: writer_effectE intro!: list_all_update)
qed

lemma policy_inv_worker: "worker_effect s s' \<Longrightarrow> policy_inv s \<Longrightarrow> policy_inv s'"
  by (erule worker_effectE) (auto simp: policy_inv_def)

lemma policy_inv_step: "sink_step l s s' \<Longrightarrow> policy_inv s \<Longrightarrow> policy_inv s'"
  by (erule step_keeps [where P = "\<lambda>s s'. policy_inv s \<longrightarrow> policy_inv s'", THEN mp])
    (auto simp: policy_inv_writer policy_inv_worker,
     auto simp: policy_inv_def WriteAudit_call_def end_writer_context_def intro!: list_all_update dest: list_all_at)

section \<open>Counters\<close>

definition at_pc :: "writer_pc \<Rightarrow> async_sink \<Rightarrow> int" where
  "at_pc pc s = int (length (filter (\<lambda>w. wr_pc w = pc) (ak_writers s)))"

definition count_inv :: "async_sink \<Rightarrow> bool" where
  "count_inv s \<longleftrightarrow> ak_written s = i64 (int (length (ak_sent s)) - at_pc AtSent s)
     \<and> ak_dropped s = i64 (int (length (filter (\<lambda>x. \<not> fst x) (ak_removed s))) - at_pc AtDropped s)"

lemma length_filter_update:
  "i < length xs \<Longrightarrow> int (length (filter P (xs[i := y]))) =
     int (length (filter P xs)) - (if P (xs ! i) then 1 else 0) + (if P y then 1 else 0)"
proof -
  assume i: "i < length xs"
  have "filter P (xs[i := y]) = filter P (take i xs) @ (if P y then [y] else []) @ filter P (drop (Suc i) xs)"
    using i by (simp add: upd_conv_take_nth_drop)
  moreover have "filter P xs = filter P (take i xs) @ (if P (xs ! i) then [xs ! i] else []) @ filter P (drop (Suc i) xs)"
    using i by (subst id_take_nth_drop [OF i]) simp
  ultimately show ?thesis by simp
qed

lemma at_pc_set_writer:
  "i < length (ak_writers s) \<Longrightarrow> at_pc pc (set_writer i pc' s) =
     at_pc pc s - (if wr_pc (ak_writers s ! i) = pc then 1 else 0) + (if pc' = pc then 1 else 0)"
  by (simp add: at_pc_def length_filter_update)

lemma i64_add: "i64 (i64 x + y) = i64 (x + y)" "i64 (y + i64 x) = i64 (y + x)"
  by (simp_all add: i64_def algebra_simps mod_simps)

lemma at_pc_frame [simp]:
  "at_pc pc (enqueue_item r s) = at_pc pc s" "at_pc pc (dequeue_item k s) = at_pc pc s"
  "at_pc pc (sink_handleError e s) = at_pc pc s" "at_pc pc (s\<lparr>ak_written := n\<rparr>) = at_pc pc s"
  "at_pc pc (s\<lparr>ak_dropped := n\<rparr>) = at_pc pc s" "at_pc pc (s\<lparr>ak_worker := p\<rparr>) = at_pc pc s"
  "at_pc pc (s\<lparr>ak_delivered := d\<rparr>) = at_pc pc s"
  by (simp_all add: at_pc_def)

lemma count_inv_writer:
  assumes "writer_effect i s s'" and "i < length (ak_writers s)" and "count_inv s"
  shows "count_inv s'"
  using assms
  by (auto simp: count_inv_def at_pc_set_writer i64_add algebra_simps elim!: writer_effectE)

lemma count_inv_worker: "worker_effect s s' \<Longrightarrow> count_inv s \<Longrightarrow> count_inv s'"
  by (erule worker_effectE) (auto simp: count_inv_def)

lemma at_pc_call: "pc \<noteq> AtFlag \<Longrightarrow> at_pc pc (WriteAudit_call r s) = at_pc pc s"
  by (simp add: at_pc_def WriteAudit_call_def)

lemma at_pc_expire: "i < length (ak_writers s) \<Longrightarrow> at_pc pc (end_writer_context e i s) = at_pc pc s"
  by (simp add: at_pc_def end_writer_context_def length_filter_update)

lemma count_inv_step: "sink_step l s s' \<Longrightarrow> count_inv s \<Longrightarrow> count_inv s'"
  by (erule step_keeps [where P = "\<lambda>s s'. count_inv s \<longrightarrow> count_inv s'", THEN mp])
    (auto simp: count_inv_writer count_inv_worker,
     auto simp: count_inv_def at_pc_call at_pc_expire, auto simp: WriteAudit_call_def end_writer_context_def at_pc_def)

section \<open>Reachable sinks\<close>

definition sink_ok :: "async_sink \<Rightarrow> bool" where
  "sink_ok s \<longleftrightarrow> queue_inv s \<and> close_inv s \<and> policy_inv s \<and> count_inv s"

lemma sink_ok_new: "NewAsyncSink inner options = Inr s \<Longrightarrow> sink_ok s"
  by (auto simp: NewAsyncSink_def sink_ok_def queue_inv_def close_inv_def policy_inv_def count_inv_def at_pc_def i64_def
      split: if_splits sum.splits)

lemma sink_ok_path: "sink_path ls s s' \<Longrightarrow> sink_ok s \<Longrightarrow> sink_ok s'"
  by (induction rule: sink_path.induct)
    (auto simp: sink_ok_def queue_inv_step policy_inv_step count_inv_step intro: close_inv_step)

lemma overflow_step: "sink_step l s s' \<Longrightarrow> ak_overflow s' = ak_overflow s"
  by (erule step_keeps [where P = "\<lambda>s s'. ak_overflow s' = ak_overflow s"])
    (auto simp: WriteAudit_call_def end_writer_context_def elim!: writer_effectE worker_effectE)

lemma kept_all: "list_all fst xs \<Longrightarrow> filter fst xs = xs"
  by (induction xs) auto

lemma kept_subseq: "subseq (map snd (filter fst xs)) (map snd xs)"
  by (rule subseq_map) (rule subseq_filter_left)

text \<open>
  C19. However writers, the worker, the closer and the ends of contexts interleave, the queue of an asynchronous sink stays
  within its buffer, the inner sink gets records in the order they were accepted and none twice, every accepted record was
  delivered, is being written, was dropped or is queued, only a sink with the drop-oldest policy drops, and once no writer
  stands between a send and its count the written count is the number of accepted records.
\<close>

theorem async_sink_keeps_order:
  assumes new: "NewAsyncSink inner options = Inr s0" and path: "sink_path ls s0 s"
  shows "length (ak_queue s) \<le> ak_capacity s \<and> subseq (ak_delivered s) (ak_sent s)
    \<and> mset (ak_delivered s) + mset (in_hand (ak_worker s)) + mset (map snd (filter (\<lambda>x. \<not> fst x) (ak_removed s)))
        + mset (ak_queue s) = mset (ak_sent s)
    \<and> (ak_overflow s = AsyncOverflowDropOldest \<or> ak_delivered s @ in_hand (ak_worker s) @ ak_queue s = ak_sent s)
    \<and> ak_written s = i64 (int (length (ak_sent s)) - at_pc AtSent s)"
proof -
  have ok: "sink_ok s" using sink_ok_path [OF path sink_ok_new [OF new]] .
  then have sent: "map snd (ak_removed s) @ ak_queue s = ak_sent s" and cap: "length (ak_queue s) \<le> ak_capacity s"
    and del: "ak_delivered s @ in_hand (ak_worker s) = map snd (filter fst (ak_removed s))"
    and cnt: "ak_written s = i64 (int (length (ak_sent s)) - at_pc AtSent s)" and pol: "policy_inv s"
    by (simp_all add: sink_ok_def queue_inv_def count_inv_def)
  have sub: "subseq (ak_delivered s) (ak_sent s)"
  proof -
    have "subseq (ak_delivered s) (ak_delivered s @ in_hand (ak_worker s))" by (simp add: prefix_imp_subseq)
    also have "subseq (ak_delivered s @ in_hand (ak_worker s)) (map snd (ak_removed s))"
      unfolding del by (rule kept_subseq)
    also have "subseq (map snd (ak_removed s)) (ak_sent s)" unfolding sent [symmetric] by (simp add: prefix_imp_subseq)
    finally show ?thesis .
  qed
  have "mset (ak_delivered s) + mset (in_hand (ak_worker s)) = mset (map snd (filter fst (ak_removed s)))"
    unfolding del [symmetric] by simp
  moreover have "mset (map snd (filter fst xs)) + mset (map snd (filter (\<lambda>x. \<not> fst x) xs)) = mset (map snd xs)" for xs :: "(bool \<times> audit_record) list"
    by (induction xs) auto
  ultimately have ms: "mset (ak_delivered s) + mset (in_hand (ak_worker s)) + mset (map snd (filter (\<lambda>x. \<not> fst x) (ak_removed s)))
        + mset (ak_queue s) = mset (ak_sent s)"
    unfolding sent [symmetric] by simp
  have "ak_overflow s = AsyncOverflowDropOldest \<or> ak_delivered s @ in_hand (ak_worker s) @ ak_queue s = ak_sent s"
    using pol del sent kept_all [of "ak_removed s"] by (auto simp: policy_inv_def simp flip: append_assoc)
  with cap sub ms cnt show ?thesis by blast
qed

section \<open>Close\<close>

text \<open>
  C20. When \<open>Close\<close> reports success the worker has returned, every record that was accepted before \<open>Close\<close> signalled the
  writers was handed to the inner sink, in order, or dropped under the drop-oldest policy; a blocking sink delivered
  all of them.
\<close>

theorem close_drains_accepted:
  assumes new: "NewAsyncSink inner options = Inr s0" and path: "sink_path ls s0 s" and close: "Close_result waited ctxerr s = Some None"
  shows "ak_worker s = WorkerDone \<and> prefix (take (ak_mark s) (ak_sent s)) (map snd (ak_removed s))
    \<and> ak_delivered s = map snd (filter fst (ak_removed s))
    \<and> (ak_overflow s = AsyncOverflowDropOldest \<or> prefix (take (ak_mark s) (ak_sent s)) (ak_delivered s))"
proof -
  have ok: "sink_ok s" using sink_ok_path [OF path sink_ok_new [OF new]] .
  have w: "ak_worker s = WorkerDone" using close by (auto simp: Close_result_def split: if_splits option.splits)
  with ok have mark: "ak_mark s \<le> length (map snd (ak_removed s))" and sent: "map snd (ak_removed s) @ ak_queue s = ak_sent s"
    and del: "ak_delivered s = map snd (filter fst (ak_removed s))" and pol: "policy_inv s"
    by (simp_all add: sink_ok_def queue_inv_def close_inv_def)
  have pre: "prefix (take (ak_mark s) (ak_sent s)) (map snd (ak_removed s))"
    unfolding sent [symmetric] take_append using mark by (simp add: take_is_prefix)
  moreover have "ak_overflow s = AsyncOverflowDropOldest \<or> prefix (take (ak_mark s) (ak_sent s)) (ak_delivered s)"
    using pol pre kept_all [of "ak_removed s"] by (auto simp: policy_inv_def del)
  ultimately show ?thesis using w del by blast
qed

text \<open>How many moves the worker can still make: two per queued record and per writer past its look at the flag.\<close>

definition late_writers :: "async_sink \<Rightarrow> int" where
  "late_writers s = at_pc AtBlock s + at_pc AtTrySend s"

fun pc_weight :: "sink_worker_pc \<Rightarrow> int" where
  "pc_weight AtSelect = 2" | "pc_weight (AtWriteInner d r) = (if d then 2 else 3)" | "pc_weight AtDrain = 1" | "pc_weight WorkerDone = 0"

definition drain_fuel :: "async_sink \<Rightarrow> int" where
  "drain_fuel s = 2 * (int (length (ak_queue s)) + late_writers s) + pc_weight (ak_worker s)"

lemma drain_fuel_nonneg: "0 \<le> drain_fuel s"
  by (cases "ak_worker s") (simp_all add: drain_fuel_def late_writers_def at_pc_def)

lemma drain_fuel_writer:
  assumes "writer_effect i s s'" and "i < length (ak_writers s)" and "ak_closed s"
  shows "drain_fuel s' \<le> drain_fuel s"
  using assms
  by (auto simp: drain_fuel_def late_writers_def at_pc_set_writer elim!: writer_effectE)

lemma drain_fuel_worker: "worker_effect s s' \<Longrightarrow> drain_fuel s' + 1 \<le> drain_fuel s"
  by (erule worker_effectE) (auto simp: drain_fuel_def late_writers_def split: if_splits)

lemma drain_fuel_step:
  assumes "sink_step l s s'" and "ak_closed s"
  shows "drain_fuel s' + (if l = SinkWorker then 1 else 0) \<le> drain_fuel s \<and> ak_closed s'"
  using assms(1)
proof cases
  case (call r)
  with assms(2) show ?thesis by (simp add: drain_fuel_def late_writers_def at_pc_call) (simp add: WriteAudit_call_def)
next
  case (expire i e)
  with assms(2) show ?thesis by (simp add: drain_fuel_def late_writers_def at_pc_expire) (simp add: end_writer_context_def)
next
  case (wmove i ch)
  with drain_fuel_writer [OF writer_move_effect] assms(2) show ?thesis by (auto dest!: writer_move_effect elim!: writer_effectE)
next
  case (work ch e)
  with drain_fuel_worker [OF worker_move_effect] assms(2) show ?thesis by (auto dest!: worker_move_effect elim!: worker_effectE)
next
  case close
  with assms(2) show ?thesis
    by (auto simp: closer_move_def drain_fuel_def late_writers_def at_pc_def split: closer_pc.splits)
qed

lemma drain_fuel_path:
  "sink_path ls s s' \<Longrightarrow> ak_closed s \<Longrightarrow> ak_closed s' \<and> drain_fuel s' + int (length (filter (\<lambda>l. l = SinkWorker) ls)) \<le> drain_fuel s"
  by (induction rule: sink_path.induct) (auto dest!: drain_fuel_step split: if_splits)

lemma closed_ch_step: "sink_step l s s' \<Longrightarrow> ak_closed_ch s \<Longrightarrow> ak_closed_ch s'"
  by (erule step_keeps [where P = "\<lambda>s s'. ak_closed_ch s \<longrightarrow> ak_closed_ch s'", THEN mp])
    (auto simp: WriteAudit_call_def end_writer_context_def elim!: writer_effectE worker_effectE)

lemma closed_ch_path: "sink_path ls s s' \<Longrightarrow> ak_closed_ch s \<Longrightarrow> ak_closed_ch s'"
  by (induction rule: sink_path.induct) (auto dest: closed_ch_step)

lemma worker_enabled:
  assumes "ak_closed_ch s" and "ak_worker s \<noteq> WorkerDone"
  shows "\<exists>s'. sink_step SinkWorker s s'"
proof -
  have "\<exists>ch s'. sink_worker_move ch None s = Some s'"
  proof (cases "ak_worker s")
    case AtSelect
    with assms(1) have "sink_worker_move TakeClosed None s \<noteq> None" by (simp add: sink_worker_move_def)
    then show ?thesis by blast
  next
    case (AtWriteInner d r)
    then have "sink_worker_move TakeQueue None s \<noteq> None" by (simp add: sink_worker_move_def)
    then show ?thesis by blast
  next
    case AtDrain
    then have "sink_worker_move (if ak_queue s = [] then TakeDefault else TakeQueue) None s \<noteq> None"
      by (simp add: sink_worker_move_def)
    then show ?thesis by blast
  qed (use assms(2) in simp)
  then show ?thesis by (blast intro: sink_step.work)
qed

text \<open>
  Once \<open>Close\<close> has signalled, the worker makes at most two moves per record queued and per writer in flight, plus three,
  whatever calls still arrive, and until it has returned it can always move: \<open>Close\<close> does not wait forever unless the
  inner sink blocks.
\<close>

theorem close_waits_boundedly:
  assumes new: "NewAsyncSink inner options = Inr s0" and path: "sink_path ls0 s0 s" and signalled: "ak_closed_ch s"
    and later: "sink_path ls s s'"
  shows "int (length (filter (\<lambda>l. l = SinkWorker) ls)) \<le> 2 * int (length (ak_queue s) + length (ak_writers s)) + 3
    \<and> (ak_worker s' = WorkerDone \<or> (\<exists>s''. sink_step SinkWorker s' s''))"
proof -
  have "ak_closed s" using sink_ok_path [OF path sink_ok_new [OF new]] signalled by (auto simp: sink_ok_def close_inv_def)
  from drain_fuel_path [OF later this] drain_fuel_nonneg [of s']
  have "int (length (filter (\<lambda>l. l = SinkWorker) ls)) \<le> drain_fuel s" by linarith
  moreover have "late_writers s \<le> int (length (ak_writers s))"
  proof -
    have "length (filter (\<lambda>w. wr_pc w = AtBlock) ws) + length (filter (\<lambda>w. wr_pc w = AtTrySend) ws) \<le> length ws" for ws :: "writer list"
      by (induction ws) auto
    then show ?thesis by (simp add: late_writers_def at_pc_def flip: of_nat_add)
  qed
  moreover have "pc_weight (ak_worker s) \<le> 3" by (cases "ak_worker s") simp_all
  ultimately have "int (length (filter (\<lambda>l. l = SinkWorker) ls)) \<le> 2 * int (length (ak_queue s) + length (ak_writers s)) + 3"
    by (simp add: drain_fuel_def)
  with worker_enabled [OF closed_ch_path [OF later signalled]] show ?thesis by blast
qed

section \<open>Running moves\<close>

datatype sink_act = DoCall audit_record | DoExpire err nat | DoWrite choice nat | DoWork choice "err option" | DoClose

fun perform :: "sink_act \<Rightarrow> async_sink \<Rightarrow> (mover \<times> async_sink) option" where
  "perform (DoCall r) s = Some (Caller, WriteAudit_call r s)"
| "perform (DoExpire e i) s = (if i < length (ak_writers s) then Some (Caller, end_writer_context e i s) else None)"
| "perform (DoWrite ch i) s = (if i < length (ak_writers s) then map_option (Pair (Writer i)) (writer_move ch i s) else None)"
| "perform (DoWork ch e) s = map_option (Pair SinkWorker) (sink_worker_move ch e s)"
| "perform DoClose s = map_option (Pair Closer) (closer_move s)"

fun performs :: "sink_act list \<Rightarrow> async_sink \<Rightarrow> (mover list \<times> async_sink) option" where
  "performs [] s = Some ([], s)"
| "performs (a # as) s =
     (case perform a s of
        None \<Rightarrow> None
      | Some (l, s1) \<Rightarrow> (case performs as s1 of None \<Rightarrow> None | Some (ls, s2) \<Rightarrow> Some (l # ls, s2)))"

lemma perform_step: "perform a s = Some (l, s') \<Longrightarrow> sink_step l s s'"
  by (cases a) (auto intro: sink_step.intros split: if_splits)

lemma sink_path_cons: "sink_path ls s' s'' \<Longrightarrow> sink_step l s s' \<Longrightarrow> sink_path (l # ls) s s''"
proof (induction rule: sink_path.induct)
  case (stay s')
  then show ?case using sink_path.move [OF sink_path.stay, of l s s'] by simp
next
  case (move ls s' s1 m s2)
  then show ?case using sink_path.move [of "l # ls" s s1 m s2] by simp
qed

lemma performs_path: "performs as s = Some (ls, s') \<Longrightarrow> sink_path ls s s'"
  by (induction as arbitrary: s ls) (auto simp: sink_path.stay split: option.splits prod.splits intro: sink_path_cons perform_step)

text \<open>A record of no consequence, and a sink with a buffer of one.\<close>

definition sample_audit :: "int \<Rightarrow> audit_record" where
  "sample_audit t = audit_header 0 (newEvent 1 EventModelRequest ''s'' t)"

definition sample_sink :: "overflow_policy \<Rightarrow> async_sink" where
  "sample_sink p = \<lparr>ak_capacity = 1, ak_overflow = p, ak_handler = True, ak_queue = [],
     ak_closed = False, ak_closed_ch = False, ak_written = 0, ak_dropped = 0, ak_worker = AtSelect, ak_closer = CloseIdle,
     ak_writers = [], ak_sent = [], ak_removed = [], ak_delivered = [], ak_handled = [], ak_mark = 0\<rparr>"

lemma sample_sink_made:
  "NewAsyncSink True [Some (WithAsyncSinkBufferSize 1), Some (WithAsyncSinkErrorHandler True)] = Inr (sample_sink AsyncOverflowBlock)"
  "\<forall>U. NewAsyncSink True [Some (WithAsyncSinkBufferSize 1), None, Some (WithAsyncOverflowPolicy U AsyncOverflowDropOldest),
     Some (WithAsyncSinkErrorHandler True)] = Inr (sample_sink AsyncOverflowDropOldest)"
  by (simp_all add: NewAsyncSink_def WithAsyncSinkBufferSize_def WithAsyncSinkErrorHandler_def WithAsyncOverflowPolicy_def
      sample_sink_def)

lemma sample_audit_clone [simp]: "cloneAuditRecord (sample_audit t) = sample_audit t"
  by (simp add: sample_audit_def audit_header_def cloneAuditRecord_def)

lemmas act_defs = writer_move_def writeBlock_def try_send_def try_drop_def sink_worker_move_def closer_move_def
  WriteAudit_call_def end_writer_context_def has_room_def Let_def set_writer_def enqueue_item_def dequeue_item_def
  sink_handleError_def sample_sink_def i64_def

text \<open>
  A write that looked at the flag before \<open>Close\<close> can win its select on the queue after the worker has drained and
  returned: the call returns nil, \<open>Close\<close> has returned nil, and the record is never delivered.
\<close>

theorem late_write_is_lost:
  "\<exists>ls s. sink_path ls (sample_sink AsyncOverflowBlock) s \<and> map wr_pc (ak_writers s) = [WriteReturned None]
     \<and> Close_result True None s = Some None \<and> ak_written s = 1 \<and> ak_delivered s = [] \<and> ak_queue s = [sample_audit 1]"
proof -
  let ?as = "[DoCall (sample_audit 1), DoWrite TakeDefault 0, DoClose, DoClose, DoWork TakeClosed None, DoWork TakeDefault None,
    DoWrite TakeQueue 0, DoWrite TakeDefault 0]"
  obtain ls s where r: "performs ?as (sample_sink AsyncOverflowBlock) = Some (ls, s)"
    by (simp add: act_defs)
  then have "map wr_pc (ak_writers s) = [WriteReturned None] \<and> Close_result True None s = Some None \<and> ak_written s = 1
      \<and> ak_delivered s = [] \<and> ak_queue s = [sample_audit 1]"
    by (auto simp: act_defs Close_result_def)
  then show ?thesis by (intro exI [of _ ls] exI [of _ s] conjI performs_path [OF r]) simp_all
qed

text \<open>The properties on a run in which the only record is delivered, and in which the sink is then closed.\<close>

definition sample_moves :: "sink_act list" where
  "sample_moves = [DoCall (sample_audit 1), DoWrite TakeDefault 0, DoWrite TakeQueue 0, DoWrite TakeDefault 0,
     DoWork TakeQueue None, DoWork TakeDefault None, DoClose, DoClose]"

lemma sample_interleaving:
  "\<exists>ls s. performs sample_moves (sample_sink AsyncOverflowBlock) = Some (ls, s) \<and> ak_closed_ch s \<and> ak_delivered s = [sample_audit 1]
     \<and> ak_queue s = [] \<and> length (ak_writers s) = 1 \<and> ak_worker s = AtSelect"
  by (simp add: sample_moves_def act_defs)

theorem async_sink_keeps_order_witness:
  "\<exists>ls s. sink_path ls (sample_sink AsyncOverflowBlock) s \<and> ak_delivered s = [sample_audit 1]
     \<and> subseq (ak_delivered s) (ak_sent s) \<and> ak_delivered s @ in_hand (ak_worker s) @ ak_queue s = ak_sent s"
proof -
  obtain ls s where r: "performs sample_moves (sample_sink AsyncOverflowBlock) = Some (ls, s)" and d: "ak_delivered s = [sample_audit 1]"
    using sample_interleaving by blast
  have "ak_overflow s = AsyncOverflowBlock" using r by (auto simp: sample_moves_def act_defs)
  with async_sink_keeps_order [OF sample_sink_made(1) performs_path [OF r]] d
  show ?thesis by (intro exI [of _ ls] exI [of _ s] conjI performs_path [OF r]) auto
qed

theorem close_waits_boundedly_witness:
  "\<exists>ls0 ls s s'. sink_path ls0 (sample_sink AsyncOverflowBlock) s \<and> sink_path ls s s' \<and> ls = [SinkWorker, SinkWorker]
     \<and> int (length (filter (\<lambda>l. l = SinkWorker) ls)) \<le> 2 * int (length (ak_queue s) + length (ak_writers s)) + 3 \<and> ak_worker s' = WorkerDone"
proof -
  obtain ls0 s where r: "performs sample_moves (sample_sink AsyncOverflowBlock) = Some (ls0, s)" and c: "ak_closed_ch s" "ak_queue s = []"
      "ak_worker s = AtSelect"
    using sample_interleaving by blast
  obtain s' where r': "performs [DoWork TakeClosed None, DoWork TakeDefault None] s = Some ([SinkWorker, SinkWorker], s')" "ak_worker s' = WorkerDone"
    using c by (simp add: sink_worker_move_def)
  from close_waits_boundedly [OF sample_sink_made(1) performs_path [OF r] c(1) performs_path [OF r'(1)]]
    performs_path [OF r] performs_path [OF r'(1)] r'(2)
  show ?thesis by blast
qed

theorem close_drains_accepted_witness:
  "\<exists>ls s. sink_path ls (sample_sink AsyncOverflowBlock) s \<and> Close_result True None s = Some None \<and> ak_mark s = 1
     \<and> prefix (take 1 (ak_sent s)) (ak_delivered s)"
proof -
  obtain ls s where r: "performs (sample_moves @ [DoWork TakeClosed None, DoWork TakeDefault None]) (sample_sink AsyncOverflowBlock) = Some (ls, s)"
    by (simp add: sample_moves_def act_defs)
  then have c: "Close_result True None s = Some None" "ak_mark s = 1" "ak_overflow s = AsyncOverflowBlock"
    by (auto simp: sample_moves_def act_defs Close_result_def)
  from close_drains_accepted [OF sample_sink_made(1) performs_path [OF r] c(1)] c performs_path [OF r] show ?thesis by auto
qed

end
