(* ===== verification/Keyed_Store.thy ===== *)
theory Keyed_Store
  imports Tool_Registry Go_Text
begin

text \<open>
  What the in-memory stores of memories, notes, calendar events, message threads and checkpoints share: records under
  string ids, the order of their first insertion, and a counter for fresh ids; and the ranking of search results by a
  comparison with a limit. The packages repeat this code; each one's theory maps it to its own lines.
\<close>

section \<open>The store\<close>

record 'v keyed =
  ks_items :: "(string, 'v) gomap"
  ks_order :: "string list"
  ks_next :: int

definition new_keyed :: "'v keyed" where
  "new_keyed = \<lparr>ks_items = [], ks_order = [], ks_next = 1\<rparr>"

text \<open>The loop over the order that skips ids without a record.\<close>

definition ks_live :: "'v keyed \<Rightarrow> (string \<times> 'v) list" where
  "ks_live s = concat (map (\<lambda>i. case map_of (ks_items s) i of None \<Rightarrow> [] | Some v \<Rightarrow> [(i, v)]) (ks_order s))"

definition ks_listing :: "'v keyed \<Rightarrow> 'v list" where
  "ks_listing s = map snd (ks_live s)"

text \<open>The same loop stopping at the first record with a property.\<close>

definition ks_find :: "('v \<Rightarrow> bool) \<Rightarrow> 'v keyed \<Rightarrow> (string \<times> 'v) option" where
  "ks_find P s = find (\<lambda>(i, v). P v) (ks_live s)"

definition ks_put :: "string \<Rightarrow> 'v \<Rightarrow> 'v keyed \<Rightarrow> 'v keyed" where
  "ks_put i v s =
     s\<lparr>ks_items := AList.update i v (ks_items s),
       ks_order := (if map_of (ks_items s) i = None then ks_order s @ [i] else ks_order s)\<rparr>"

definition ks_delete :: "string \<Rightarrow> 'v keyed \<Rightarrow> 'v keyed" where
  "ks_delete i s = s\<lparr>ks_items := AList.delete i (ks_items s), ks_order := remove1 i (ks_order s)\<rparr>"

definition ks_ensure :: "'v keyed \<Rightarrow> 'v keyed" where
  "ks_ensure s = (if ks_next s \<le> 0 then s\<lparr>ks_next := 1\<rparr> else s)"

section \<open>Fresh ids\<close>

text \<open>
  \<open>nextIDLocked\<close> counts up until an id is free. Among one more candidates than there are records one is free, so the loop
  is run at most that often; \<open>ks_next_id_fresh\<close> shows that the last candidate is free if all before it were taken.
\<close>

fun next_id_loop :: "nat \<Rightarrow> string \<Rightarrow> (string, 'v) gomap \<Rightarrow> int \<Rightarrow> string \<times> int" where
  "next_id_loop 0 p m n = (p @ show_int n, i64 (n + 1))"
| "next_id_loop (Suc k) p m n =
     (if map_of m (p @ show_int n) = None then (p @ show_int n, i64 (n + 1)) else next_id_loop k p m (i64 (n + 1)))"

definition ks_next_id :: "string \<Rightarrow> 'v keyed \<Rightarrow> string \<times> 'v keyed" where
  "ks_next_id p s = (case next_id_loop (length (ks_items s)) p (ks_items s) (ks_next s) of (i, n) \<Rightarrow> (i, s\<lparr>ks_next := n\<rparr>))"

text \<open>
  \<open>fmt.Sscanf(id, "prefix-%d", &n)\<close>: the prefix, white space without a line feed, an optional sign and at least one
  digit; what follows is not read, and a number outside the range of \<open>int\<close> is an error.
\<close>

definition scan_int :: "string \<Rightarrow> int option" where
  "scan_int s =
     (let cs = utf8_chunks s; sp = takeWhile (\<lambda>p. is_space (fst p)) cs;
          t = concat (map snd (dropWhile (\<lambda>p. is_space (fst p)) cs));
          sign = (if t \<noteq> [] \<and> (hd t = CHR ''-'' \<or> hd t = CHR ''+'') then [hd t] else []);
          ds = takeWhile json_digit (drop (length sign) t)
      in if 10 \<in> fst ` set sp \<or> ds = [] then None else atoi (sign @ ds))"

definition scan_id :: "string \<Rightarrow> string \<Rightarrow> int option" where
  "scan_id p i = (if has_prefix i p then scan_int (drop (length p) i) else None)"

definition ks_bump :: "string \<Rightarrow> string \<Rightarrow> 'v keyed \<Rightarrow> 'v keyed" where
  "ks_bump p i s =
     (case scan_id p i of
        None \<Rightarrow> s
      | Some n \<Rightarrow> if ks_next s \<le> n then s\<lparr>ks_next := i64 (n + 1)\<rparr> else s)"

section \<open>Scored selection\<close>

record 'v scored =
  sd_item :: 'v
  sd_index :: nat
  sd_score :: int

text \<open>The relevant items with their scores and positions.\<close>

definition score_items :: "('v \<Rightarrow> 'v) \<Rightarrow> ('v \<Rightarrow> int) \<Rightarrow> ('v \<Rightarrow> int \<Rightarrow> bool) \<Rightarrow> 'v list \<Rightarrow> 'v scored list" where
  "score_items cl score relevant vs =
     concat (map (\<lambda>(k, v). if relevant v (score v) then [\<lparr>sd_item = cl v, sd_index = k, sd_score = score v\<rparr>] else [])
       (enumerate 0 vs))"

text \<open>Sorting and cutting to a positive limit.\<close>

definition rank_limit :: "('a \<Rightarrow> 'a \<Rightarrow> bool) \<Rightarrow> int \<Rightarrow> 'a list \<Rightarrow> 'a list" where
  "rank_limit before mx xs =
     (let ys = stable_sort before xs in if 0 < mx \<and> mx < int (length ys) then take (nat mx) ys else ys)"

text \<open>The tokens of a query in the packages that do not drop short or repeated ones.\<close>

definition plain_tokens :: "unicode \<Rightarrow> string \<Rightarrow> string list" where
  "plain_tokens U query = filter (\<lambda>t. t \<noteq> []) (fields_loop U (utf8_chunks (to_lower U query)) [])"

definition hit :: "string \<Rightarrow> string \<Rightarrow> int \<Rightarrow> int" where
  "hit s q n = (if contains s q then n else 0)"

section \<open>The invariant\<close>

definition keyed_inv :: "'v keyed \<Rightarrow> bool" where
  "keyed_inv s \<longleftrightarrow> wf_map (ks_items s) \<and> distinct (ks_order s) \<and> set (ks_order s) = set (map fst (ks_items s))
     \<and> int64_range (ks_next s)"

lemma keyed_inv_new [simp]: "keyed_inv new_keyed"
  by (simp add: keyed_inv_def new_keyed_def int64_range_def)

lemma keyed_inv_next: "keyed_inv s \<Longrightarrow> int64_range n \<Longrightarrow> keyed_inv (s\<lparr>ks_next := n\<rparr>)"
  by (simp add: keyed_inv_def)

lemma keyed_inv_put: "keyed_inv s \<Longrightarrow> keyed_inv (ks_put i v s)"
  by (auto simp: keyed_inv_def ks_put_def map_of_eq_None_iff update_keys)

lemma keyed_inv_delete: "keyed_inv s \<Longrightarrow> keyed_inv (ks_delete i s)"
  by (auto simp: keyed_inv_def ks_delete_def wf_map_def delete_keys distinct_removeAll)

lemma put_lookup [store_simps]:
  "map_of (ks_items (ks_put i v s)) j = (if j = i then Some v else map_of (ks_items s) j)"
  by (simp add: ks_put_def)

lemma delete_lookup [store_simps]:
  "map_of (ks_items (ks_delete i s)) j = (if j = i then None else map_of (ks_items s) j)"
  by (simp add: ks_delete_def delete_conv')

lemma keyed_frame [simp]:
  "ks_items (ks_ensure s) = ks_items s" "ks_order (ks_ensure s) = ks_order s"
  "ks_items (ks_bump p i s) = ks_items s" "ks_order (ks_bump p i s) = ks_order s"
  "ks_items (snd (ks_next_id p s)) = ks_items s" "ks_order (snd (ks_next_id p s)) = ks_order s"
  "ks_next (ks_put i v s) = ks_next s" "ks_next (ks_delete i s) = ks_next s"
  by (simp_all add: ks_ensure_def ks_bump_def ks_next_id_def ks_put_def ks_delete_def split: option.split prod.split)

lemma keyed_next_range:
  "int64_range (ks_next s) \<Longrightarrow> int64_range (ks_next (ks_ensure s))"
  "int64_range (ks_next s) \<Longrightarrow> int64_range (ks_next (ks_bump p i s))"
  by (auto simp: ks_ensure_def ks_bump_def i64_range int64_range_def [of 1] split: option.split)

lemma next_id_loop_range: "int64_range (snd (next_id_loop k p m n))"
  by (induction k arbitrary: n) (simp_all add: i64_range)

lemma keyed_next_id_range: "int64_range (ks_next (snd (ks_next_id p s)))"
  using next_id_loop_range [of "length (ks_items s)" p "ks_items s" "ks_next s"]
  by (simp add: ks_next_id_def case_prod_beta)

text \<open>Changing the counter commutes with everything else.\<close>

lemma keyed_same: "s = s\<lparr>ks_next := ks_next s\<rparr>"
  by simp

lemma ensure_next: "ks_ensure s = s\<lparr>ks_next := ks_next (ks_ensure s)\<rparr>"
  by (simp add: ks_ensure_def)

lemma bump_next: "ks_bump p i s = s\<lparr>ks_next := ks_next (ks_bump p i s)\<rparr>"
  by (simp add: ks_bump_def split: option.split)

lemma next_id_next: "snd (ks_next_id p s) = s\<lparr>ks_next := ks_next (snd (ks_next_id p s))\<rparr>"
  by (simp add: ks_next_id_def case_prod_beta)

section \<open>Listing\<close>

lemma live_items:
  assumes "keyed_inv s"
  shows "set (ks_live s) = set (ks_items s)"
proof -
  have "(i, v) \<in> set (ks_live s) \<longleftrightarrow> i \<in> set (ks_order s) \<and> map_of (ks_items s) i = Some v" for i v
    by (auto simp: ks_live_def split: option.splits)
  moreover have "map_of (ks_items s) i = Some v \<longleftrightarrow> (i, v) \<in> set (ks_items s)" for i v
    using assms by (simp add: keyed_inv_def wf_map_def)
  ultimately show ?thesis using assms by (force simp: keyed_inv_def)
qed

lemma live_keys: "keyed_inv s \<Longrightarrow> map fst (ks_live s) = ks_order s"
proof -
  assume inv: "keyed_inv s"
  have "concat (map (\<lambda>i. case map_of m i of None \<Rightarrow> [] | Some v \<Rightarrow> [(i, v)]) ys) = map (\<lambda>i. (i, the (map_of m i))) ys"
    if "set ys \<subseteq> set (map fst m)" for ys and m :: "(string \<times> 'a) list"
    using that by (induction ys) (auto split: option.split simp: map_of_eq_None_iff)
  from this [of "ks_order s" "ks_items s"] inv show ?thesis by (simp add: ks_live_def keyed_inv_def comp_def)
qed

lemma live_fresh:
  assumes "map_of (ks_items s) i = None" and "keyed_inv s"
  shows "ks_live (ks_put i v s) = ks_live s @ [(i, v)]"
proof -
  have "i \<notin> set (ks_order s)" using assms by (auto simp: keyed_inv_def map_of_eq_None_iff)
  then have eq: "map (\<lambda>j. case map_of (ks_items (ks_put i v s)) j of None \<Rightarrow> [] | Some w \<Rightarrow> [(j, w)]) (ks_order s)
      = map (\<lambda>j. case map_of (ks_items s) j of None \<Rightarrow> [] | Some w \<Rightarrow> [(j, w)]) (ks_order s)"
    by (auto simp: put_lookup)
  have o1: "ks_order (ks_put i v s) = ks_order s @ [i]" using assms(1) by (simp add: ks_put_def)
  show ?thesis unfolding ks_live_def o1 map_append concat_append eq by (simp add: put_lookup)
qed

lemma find_SomeD: "find P xs = Some x \<Longrightarrow> x \<in> set xs \<and> P x"
  by (induction xs) (auto split: if_splits)

lemma live_lookup: "(i, v) \<in> set (ks_live s) \<Longrightarrow> map_of (ks_items s) i = Some v"
  by (auto simp: ks_live_def split: option.splits)

lemma find_live: "ks_find P s = Some (i, v) \<Longrightarrow> map_of (ks_items s) i = Some v \<and> P v"
  by (auto simp: ks_find_def dest!: find_SomeD live_lookup)

lemma find_none: "keyed_inv s \<Longrightarrow> ks_find P s = None \<Longrightarrow> map_of (ks_items s) i = Some v \<Longrightarrow> \<not> P v"
  by (force simp: ks_find_def find_None_iff live_items dest: map_of_SomeD)

section \<open>Fresh ids are fresh\<close>

lemma show_int_inj: "show_int a = show_int b \<Longrightarrow> a = b"
proof -
  have d: "show_nat n \<noteq> [] \<and> hd (show_nat n) \<noteq> CHR ''-''" for n
  proof (induction n rule: show_nat.induct)
    case (1 n)
    have "digit_char k \<noteq> CHR ''-''" if "k < 10" for k
    proof
      assume "digit_char k = CHR ''-''"
      then have "of_char (digit_char k) = (of_char (CHR ''-'') :: nat)" by simp
      with that show False by (simp add: digit_char_def)
    qed
    with 1 show ?case by (subst (1 2) show_nat.simps) (auto simp: hd_append)
  qed
  assume "show_int a = show_int b"
  moreover have ne: "CHR ''-'' # x \<noteq> show_nat n" for x n using d [of n] by (metis list.sel(1))
  ultimately show "a = b"
    by (auto simp: show_int_def ne ne [symmetric] dest: show_nat_inj split: if_splits)
qed

text \<open>The candidates of the loop in turn.\<close>

lemma next_id_loop_nth:
  assumes "int64_range n"
  shows "\<exists>j \<le> k. next_id_loop k p m n = (p @ show_int (i64 (n + int j)), i64 (n + int j + 1))
    \<and> (map_of m (p @ show_int (i64 (n + int j))) = None \<or> j = k)
    \<and> (\<forall>h < j. map_of m (p @ show_int (i64 (n + int h))) \<noteq> None)"
  using assms
proof (induction k arbitrary: n)
  case 0
  then show ?case by (simp add: i64_id)
next
  case (Suc k)
  show ?case
  proof (cases "map_of m (p @ show_int n) = None")
    case True
    with Suc.prems show ?thesis by (intro exI [of _ 0]) (simp add: i64_id)
  next
    case False
    have shift: "i64 (i64 (n + 1) + x) = i64 (n + 1 + x)" for x
      by (simp add: i64_def algebra_simps mod_simps)
    obtain j where j: "j \<le> k" "next_id_loop k p m (i64 (n + 1)) = (p @ show_int (i64 (n + 1 + int j)), i64 (n + 1 + int j + 1))"
        "map_of m (p @ show_int (i64 (n + 1 + int j))) = None \<or> j = k"
        "\<forall>h < j. map_of m (p @ show_int (i64 (n + 1 + int h))) \<noteq> None"
      using Suc.IH [OF i64_range, of "n + 1"] by (auto simp: shift add.assoc)
    have "\<forall>h < Suc j. map_of m (p @ show_int (i64 (n + int h))) \<noteq> None"
    proof (intro allI impI)
      fix h assume "h < Suc j"
      then show "map_of m (p @ show_int (i64 (n + int h))) \<noteq> None"
        using j(4) False Suc.prems by (cases h) (auto simp: i64_id algebra_simps)
    qed
    with j False show ?thesis by (intro exI [of _ "Suc j"]) (auto simp: algebra_simps)
  qed
qed

lemma i64_offset_inj:
  assumes "i64 (n + int a) = i64 (n + int b)" and "a < 2 ^ 64" and "b < 2 ^ 64"
  shows "a = b"
proof -
  have "(n + int a + 2 ^ 63) mod 2 ^ 64 = (n + int b + 2 ^ 63) mod (2 ^ 64 :: int)"
    using assms(1) by (simp add: i64_def)
  then have "(n + int a + 2 ^ 63 - (n + int b + 2 ^ 63)) mod 2 ^ 64 = 0"
    by (simp only: mod_eq_dvd_iff mod_eq_0_iff_dvd)
  then have "(2 ^ 64 :: int) dvd int a - int b" by (simp add: algebra_simps mod_eq_0_iff_dvd)
  moreover have "\<bar>int a - int b\<bar> < 2 ^ 64" using assms(2,3) by simp
  ultimately show ?thesis by (metis dvd_imp_le_int abs_of_nonneg eq_iff_diff_eq_0 not_le of_nat_eq_iff zero_le_numeral zero_le_power)
qed

theorem ks_next_id_fresh:
  assumes "int64_range (ks_next s)" and "length (ks_items s) < 2 ^ 63"
  shows "map_of (ks_items s) (fst (ks_next_id p s)) = None"
proof -
  let ?m = "ks_items s" and ?k = "length (ks_items s)" and ?c = "\<lambda>h. p @ show_int (i64 (ks_next s + int h))"
  obtain j where l: "next_id_loop ?k p ?m (ks_next s) = (?c j, i64 (ks_next s + int j + 1))"
    and j: "j \<le> ?k" "map_of ?m (?c j) = None \<or> j = ?k" "\<forall>h < j. map_of ?m (?c h) \<noteq> None"
    using next_id_loop_nth [OF assms(1), of ?k p ?m] by blast
  have c: "fst (ks_next_id p s) = ?c j" by (simp add: ks_next_id_def l)
  show ?thesis
  proof (rule ccontr)
    assume "map_of ?m (fst (ks_next_id p s)) \<noteq> None"
    with j c have "j = ?k" and "\<forall>h \<le> ?k. map_of ?m (?c h) \<noteq> None" by (auto simp: le_less)
    then have all: "?c ` {..?k} \<subseteq> fst ` set ?m" by (auto simp: map_of_eq_None_iff)
    have inj: "inj_on ?c {..?k}"
    proof (rule inj_onI)
      fix a b assume ab: "a \<in> {..?k}" "b \<in> {..?k}" "?c a = ?c b"
      then have "i64 (ks_next s + int a) = i64 (ks_next s + int b)" by (auto dest: show_int_inj)
      then show "a = b" by (rule i64_offset_inj) (use ab assms(2) in auto)
    qed
    have "Suc ?k = card (?c ` {..?k})" using card_image [OF inj] by simp
    also have "\<dots> \<le> card (fst ` set ?m)" by (rule card_mono [OF _ all]) simp
    also have "\<dots> \<le> ?k" using card_length [of "map fst ?m"] by simp
    finally show False by simp
  qed
qed

lemma next_id_prefix: "\<exists>n. fst (ks_next_id p s) = p @ show_int n"
proof -
  have "\<exists>n. fst (next_id_loop k p m j) = p @ show_int n" for k m j
    by (induction k arbitrary: j) auto
  then show ?thesis by (simp add: ks_next_id_def case_prod_beta)
qed

text \<open>Ids made of ink survive trimming.\<close>

lemma trim_right_ink_text: "list_all ink_char s \<Longrightarrow> trim_right s = s"
proof (induction s)
  case Nil
  then show ?case by (simp add: trim_right_def utf8_chunks_unfold)
qed (simp add: trim_right_ink)

lemma trim_ink_text: "list_all ink_char s \<Longrightarrow> trim_space s = s"
proof (cases s)
  case (Cons c t)
  assume "list_all ink_char s"
  with Cons show ?thesis by (simp add: trim_space_ink trim_right_ink_text)
qed (simp add: trim_space_def trim_left_def trim_right_def utf8_chunks_unfold)

lemma digit_char_ink: "d < 10 \<Longrightarrow> ink_char (digit_char d)"
  by (simp add: ink_char_def digit_char_def byte_def is_space_def)

lemma show_nat_ink: "list_all ink_char (show_nat n)"
  by (induction n rule: show_nat.induct) (subst show_nat.simps, simp add: digit_char_ink)

lemma show_int_ink: "list_all ink_char (show_int n)"
  by (simp add: show_int_def show_nat_ink ink_char_def byte_def is_space_def)

lemma trim_next_id:
  assumes "list_all ink_char p" and "p \<noteq> []"
  shows "trim_space (fst (ks_next_id p s)) = fst (ks_next_id p s)" and "fst (ks_next_id p s) \<noteq> []"
proof -
  obtain n where n: "fst (ks_next_id p s) = p @ show_int n" using next_id_prefix by blast
  show "trim_space (fst (ks_next_id p s)) = fst (ks_next_id p s)"
    unfolding n by (rule trim_ink_text) (simp add: assms show_int_ink)
  show "fst (ks_next_id p s) \<noteq> []" using n assms by simp
qed

section \<open>Services over a store\<close>

text \<open>
  A service changes its store one record at a time: it puts a record that satisfies the service's own condition
  under a non-empty id, removes one, or only moves the counter. Every store that such a service reaches is well-formed.
\<close>

inductive keyed_change :: "(string \<Rightarrow> 'v \<Rightarrow> bool) \<Rightarrow> 'v keyed \<Rightarrow> 'v keyed \<Rightarrow> bool" where
  count: "int64_range n \<Longrightarrow> keyed_change ok s (s\<lparr>ks_next := n\<rparr>)"
| put: "ok i v \<Longrightarrow> int64_range n \<Longrightarrow> keyed_change ok s ((ks_put i v s)\<lparr>ks_next := n\<rparr>)"
| remove: "int64_range n \<Longrightarrow> keyed_change ok s ((ks_delete i s)\<lparr>ks_next := n\<rparr>)"

definition keyed_ok :: "(string \<Rightarrow> 'v \<Rightarrow> bool) \<Rightarrow> 'v keyed \<Rightarrow> bool" where
  "keyed_ok ok s \<longleftrightarrow> keyed_inv s \<and> (\<forall>i v. map_of (ks_items s) i = Some v \<longrightarrow> ok i v)"

lemma keyed_okD: "keyed_ok ok s \<Longrightarrow> map_of (ks_items s) i = Some v \<Longrightarrow> ok i v"
  by (simp add: keyed_ok_def)

lemma keyed_ok_new [simp]: "keyed_ok ok new_keyed"
  by (simp add: keyed_ok_def) (simp add: new_keyed_def)

lemma keyed_change_ok: "keyed_change ok s t \<Longrightarrow> keyed_ok ok s \<Longrightarrow> keyed_ok ok t"
  by (induction rule: keyed_change.induct)
    (auto simp: keyed_ok_def keyed_inv_next keyed_inv_put keyed_inv_delete put_lookup delete_lookup split: if_splits)

lemma delete_next: "ks_delete i (s\<lparr>ks_next := n\<rparr>) = (ks_delete i s)\<lparr>ks_next := n\<rparr>"
  by (simp add: ks_delete_def)

lemma put_next: "ks_put i v (s\<lparr>ks_next := n\<rparr>) = (ks_put i v s)\<lparr>ks_next := n\<rparr>"
  by (simp add: ks_put_def)

lemma delete_same_next: "keyed_inv s \<Longrightarrow> keyed_change ok s (ks_delete i s)"
  using keyed_change.remove [of "ks_next s" ok s i] by (simp add: keyed_inv_def ks_delete_def)

lemma keyed_change_ensure: "keyed_inv s \<Longrightarrow> keyed_change ok s (ks_ensure s)"
  using keyed_change.count [of "ks_next (ks_ensure s)" ok s] ensure_next [of s] keyed_next_range(1) [of s]
  by (simp add: keyed_inv_def)

lemma keyed_change_remove: "keyed_inv s \<Longrightarrow> keyed_change ok s (ks_delete i (ks_ensure s))"
  using keyed_change.remove [of "ks_next (ks_ensure s)" ok s i] ensure_next [of s] keyed_next_range(1) [of s]
  by (metis delete_next keyed_inv_def)

lemma keyed_change_same: "keyed_inv s \<Longrightarrow> keyed_change ok s s"
  using keyed_change.count [of "ks_next s" ok s] by (simp add: keyed_inv_def)

locale keyed_service =
  fixes step :: "'v keyed \<Rightarrow> 'v keyed \<Rightarrow> bool"
    and ok :: "string \<Rightarrow> 'v \<Rightarrow> bool"
  assumes change: "step s t \<Longrightarrow> keyed_ok ok s \<Longrightarrow> keyed_change ok s t"
begin

theorem reachable_ok: "step\<^sup>*\<^sup>* s t \<Longrightarrow> keyed_ok ok s \<Longrightarrow> keyed_ok ok t"
  by (induction rule: rtranclp_induct) (auto dest: change keyed_change_ok)

theorem new_reachable_ok: "step\<^sup>*\<^sup>* new_keyed t \<Longrightarrow> keyed_ok ok t"
  using reachable_ok keyed_ok_new by blast

end

section \<open>Ranking\<close>

text \<open>
  What a ranked and limited result promises: it is sorted, it leaves out nothing that is ranked before something kept, and
  it is as long as the limit allows.
\<close>

definition best_first :: "('a \<Rightarrow> 'a \<Rightarrow> bool) \<Rightarrow> int \<Rightarrow> 'a list \<Rightarrow> 'a list \<Rightarrow> bool" where
  "best_first before mx xs kept \<longleftrightarrow>
     (\<exists>omitted. mset kept + mset omitted = mset xs \<and> list_all (\<lambda>x. list_all (\<lambda>k. \<not> before x k) kept) omitted)
     \<and> sorted_wrt (\<lambda>a b. \<not> before b a) kept
     \<and> length kept = (if 0 < mx then min (nat mx) (length xs) else length xs)"

text \<open>A comparison of scored items that \<open>sort.SliceStable\<close> may be given.\<close>

locale ranking =
  fixes before :: "'a \<Rightarrow> 'a \<Rightarrow> bool"
  assumes strict: "strict_weak before"
begin

theorem rank_limit_best: "best_first before mx xs (rank_limit before mx xs)"
proof -
  let ?ys = "stable_sort before xs"
  define k where "k = (if 0 < mx \<and> mx < int (length xs) then nat mx else length xs)"
  have r: "rank_limit before mx xs = take k ?ys" by (simp add: rank_limit_def k_def Let_def)
  have "sorted_wrt (\<lambda>a b. \<not> before b a) (take k ?ys @ drop k ?ys)" using sorted_stable_sort [OF strict] by simp
  then have "sorted_wrt (\<lambda>a b. \<not> before b a) (take k ?ys)" "list_all (\<lambda>x. list_all (\<lambda>k. \<not> before x k) (take k ?ys)) (drop k ?ys)"
    unfolding sorted_wrt_append by (auto simp: list_all_iff)
  moreover have "mset (take k ?ys) + mset (drop k ?ys) = mset xs" by (simp flip: mset_append)
  moreover have "length (take k ?ys) = (if 0 < mx then min (nat mx) (length xs) else length xs)" by (auto simp: k_def)
  ultimately show ?thesis unfolding r best_first_def by blast
qed

end

text \<open>Selection with a limit that does not count for items that must be kept.\<close>

definition limit_keeping :: "('a \<Rightarrow> bool) \<Rightarrow> 'a list \<Rightarrow> int \<Rightarrow> 'a list" where
  "limit_keeping keep items mx =
     (if mx \<le> 0 \<or> int (length items) \<le> mx then items
      else let always = filter keep items; rest = filter (\<lambda>x. \<not> keep x) items
           in if mx \<le> int (length always) then always else always @ take (nat mx - length always) rest)"

text \<open>The best of what is not kept anyway, in rank order; only items that must be kept exceed the limit.\<close>

definition best_kept :: "('a \<Rightarrow> 'a \<Rightarrow> bool) \<Rightarrow> ('a \<Rightarrow> bool) \<Rightarrow> int \<Rightarrow> 'a list \<Rightarrow> 'a list \<Rightarrow> bool" where
  "best_kept before keep mx xs kept \<longleftrightarrow>
     (\<exists>omitted. mset kept + mset omitted = mset xs \<and> list_all (\<lambda>x. \<not> keep x \<and> list_all (\<lambda>k. \<not> before x k) kept) omitted)
     \<and> sorted_wrt (\<lambda>a b. \<not> before b a) kept
     \<and> length kept = (if mx \<le> 0 then length xs else min (max (nat mx) (length (filter keep xs))) (length xs))"

locale keeping_rank = ranking +
  fixes keep :: "'a \<Rightarrow> bool"
  assumes keep_first: "keep a \<Longrightarrow> \<not> keep b \<Longrightarrow> before a b"
begin

text \<open>Items that must be kept come first in the order, so cutting by kind is cutting the list.\<close>

lemma kept_first:
  "sorted_wrt (\<lambda>a b. \<not> before b a) xs \<Longrightarrow> xs = filter keep xs @ filter (\<lambda>x. \<not> keep x) xs"
proof (induction xs)
  case (Cons x xs)
  show ?case
  proof (cases "keep x")
    case False
    then have "filter keep xs = []" using Cons.prems keep_first by (auto simp: filter_empty_conv)
    with False Cons show ?thesis by simp
  qed (use Cons in simp)
qed simp

lemma limit_is_cut:
  assumes "sorted_wrt (\<lambda>a b. \<not> before b a) xs"
  shows "limit_keeping keep xs mx = (if mx \<le> 0 then xs else take (max (nat mx) (length (filter keep xs))) xs)"
proof -
  let ?a = "filter keep xs" and ?r = "filter (\<lambda>x. \<not> keep x) xs"
  have xs: "xs = ?a @ ?r" by (rule kept_first [OF assms])
  have cut: "take k xs = ?a @ take (k - length ?a) ?r" if "length ?a \<le> k" for k
    by (subst xs) (simp add: that)
  consider "mx \<le> 0 \<or> int (length xs) \<le> mx" | "0 < mx" "mx < int (length xs)" "mx \<le> int (length ?a)"
    | "0 < mx" "mx < int (length xs)" "int (length ?a) < mx" by linarith
  then show ?thesis
  proof cases
    case 1
    then show ?thesis by (auto simp: limit_keeping_def)
  next
    case 2
    then have "max (nat mx) (length ?a) = length ?a" by simp
    then show ?thesis using 2 cut [of "length ?a"] by (simp add: limit_keeping_def)
  next
    case 3
    then have "max (nat mx) (length ?a) = nat mx" by simp
    then show ?thesis using 3 cut [of "nat mx"] by (simp add: limit_keeping_def Let_def)
  qed
qed

theorem limit_keeping_best: "best_kept before keep mx xs (limit_keeping keep (stable_sort before xs) mx)"
proof -
  let ?ys = "stable_sort before xs"
  have srt: "sorted_wrt (\<lambda>a b. \<not> before b a) ?ys" by (rule sorted_stable_sort [OF strict])
  have cnt: "length (filter keep ?ys) = length (filter keep xs)" by (metis mset_filter mset_stable_sort size_mset)
  define k where "k = (if mx \<le> 0 then length xs else max (nat mx) (length (filter keep xs)))"
  have sel: "limit_keeping keep ?ys mx = take k ?ys" by (simp add: limit_is_cut [OF srt] cnt k_def)
  have le: "length (filter keep xs) \<le> k" using length_filter_le [of keep xs] by (auto simp: k_def)
  have tail: "\<not> keep x" if "x \<in> set (drop k ?ys)" for x
  proof -
    have "drop k ?ys = drop (k - length (filter keep xs)) (filter (\<lambda>x. \<not> keep x) ?ys)"
      by (subst kept_first [OF srt]) (use le cnt in simp)
    with that show ?thesis by (auto dest: in_set_dropD)
  qed
  have "sorted_wrt (\<lambda>a b. \<not> before b a) (take k ?ys @ drop k ?ys)" using srt by simp
  then have cut: "sorted_wrt (\<lambda>a b. \<not> before b a) (take k ?ys)"
      "list_all (\<lambda>x. \<not> keep x \<and> list_all (\<lambda>k. \<not> before x k) (take k ?ys)) (drop k ?ys)"
    unfolding sorted_wrt_append using tail by (auto simp: list_all_iff)
  moreover have "mset (take k ?ys) + mset (drop k ?ys) = mset xs" by (simp flip: mset_append)
  moreover have "length (take k ?ys) = (if mx \<le> 0 then length xs else min (max (nat mx) (length (filter keep xs))) (length xs))"
    by (simp add: k_def min.commute)
  ultimately show ?thesis unfolding sel best_kept_def by blast
qed

end

lemma strict_weak_index: "strict_weak (\<lambda>a b. sd_index a < sd_index (b :: 'v scored))"
  by (rule strict_weakI) auto

lemma strict_weak_lex_str:
  assumes "strict_weak lt"
  shows "strict_weak (\<lambda>a b. if f a \<noteq> f b then str_less (f a) (f b) else lt a b)"
proof (rule strict_weakI)
  show "\<not> (if f x \<noteq> f x then str_less (f x) (f x) else lt x x)" for x
    using strict_weakD(1) [OF assms] by simp
  show "(if f x \<noteq> f y then str_less (f x) (f y) else lt x y) \<Longrightarrow> (if f y \<noteq> f z then str_less (f y) (f z) else lt y z) \<Longrightarrow>
     (if f x \<noteq> f z then str_less (f x) (f z) else lt x z)" for x y z
    using strict_weakD(2) [OF assms, of x y z] str_less_trans [of "f x" "f y" "f z"] str_less_trans [of "f x" "f y" "f x"]
      str_less_irrefl [of "f x"]
    by (auto split: if_splits)
  show "\<not> (if f x \<noteq> f y then str_less (f x) (f y) else lt x y) \<Longrightarrow> \<not> (if f y \<noteq> f z then str_less (f y) (f z) else lt y z) \<Longrightarrow>
     \<not> (if f x \<noteq> f z then str_less (f x) (f z) else lt x z)" for x y z
    using strict_weakD(3) [OF assms, of x y z] strict_weakD(3) [OF str_less_strict_weak, of "f x" "f y" "f z"]
      str_less_total [of "f x" "f y"] str_less_total [of "f y" "f z"] str_less_trans [of "f z" "f y" "f x"] str_less_irrefl
    by (auto split: if_splits)
qed

lemma set_score_items:
  "x \<in> set (score_items cl score relevant vs) \<longleftrightarrow>
     (\<exists>k < length vs. relevant (vs ! k) (score (vs ! k)) \<and> x = \<lparr>sd_item = cl (vs ! k), sd_index = k, sd_score = score (vs ! k)\<rparr>)"
proof -
  have e: "set (enumerate 0 vs) = (\<lambda>k. (k, vs ! k)) ` {..<length vs}"
    by (auto simp: in_set_enumerate_eq image_iff)
  show ?thesis unfolding score_items_def set_concat set_map e by (auto split: if_splits)
qed

end
