(* ===== verification/Memory_Store.thy ===== *)
theory Memory_Store
  imports Memory Keyed_Store Assistant_Text
begin

text \<open>
  The rest of \<open>memory/memory.go\<close>: the in-memory store with put and delete, static and merged sources, and the selector
  that ranks memories for a query. \<open>None\<close> is the nil store; \<open>ctxerr\<close> is the error of the caller's context.
\<close>

section \<open>The store\<close>

abbreviation memory_prefix :: string where "memory_prefix \<equiv> ''memory-''"

definition mem_nil_store :: err where
  "mem_nil_store = EText ''memory: nil MemoryStore''"

text \<open>The end of \<open>insert\<close>: the record is stored under its id.\<close>

definition memory_store_as :: "memory \<Rightarrow> memory keyed \<Rightarrow> put_result \<times> memory keyed" where
  "memory_store_as item s =
     (let there = (map_of (ks_items s) (me_id item) \<noteq> None)
      in (\<lparr>pt_memory = clone_memory item, pt_created = \<not> there, pt_updated = there\<rparr>,
          ks_bump memory_prefix (me_id item) (ks_put (me_id item) (clone_memory item) s)))"

definition memory_insert :: "memory \<Rightarrow> memory keyed \<Rightarrow> put_result \<times> memory keyed" where
  "memory_insert m s0 =
     (let s = ks_ensure s0; item = normalizeMemory m
      in if me_id item \<noteq> [] then memory_store_as item s
         else case (if me_name item = [] then None
                    else ks_find (\<lambda>e. me_name e = me_name item \<and> me_scope e = me_scope item) s) of
                Some (i, _) \<Rightarrow>
                  (let it = item\<lparr>me_id := i\<rparr>
                   in (\<lparr>pt_memory = clone_memory it, pt_created = False, pt_updated = True\<rparr>,
                       s\<lparr>ks_items := AList.update i (clone_memory it) (ks_items s)\<rparr>))
              | None \<Rightarrow> (case ks_next_id memory_prefix s of (i, s1) \<Rightarrow> memory_store_as (item\<lparr>me_id := i\<rparr>) s1))"

fun memory_seed :: "memory list \<Rightarrow> memory keyed \<Rightarrow> memory keyed" where
  "memory_seed [] s = s"
| "memory_seed (m # ms) s = memory_seed ms (snd (memory_insert m s))"

definition NewMemoryStore :: "memory list \<Rightarrow> memory keyed" where
  "NewMemoryStore ms = memory_seed ms new_keyed"

definition store_Memories :: "err option \<Rightarrow> memory keyed option \<Rightarrow> err + memory list" where
  "store_Memories ctxerr st =
     (case ctxerr of
        Some e \<Rightarrow> Inl e
      | None \<Rightarrow> (case st of None \<Rightarrow> Inl mem_nil_store | Some s \<Rightarrow> Inr (map clone_memory (ks_listing s))))"

definition PutMemory :: "err option \<Rightarrow> memory \<Rightarrow> memory keyed option \<Rightarrow> memory keyed option \<times> (err + put_result)" where
  "PutMemory ctxerr m st =
     (case ctxerr of
        Some e \<Rightarrow> (st, Inl e)
      | None \<Rightarrow>
          (case st of
             None \<Rightarrow> (st, Inl mem_nil_store)
           | Some s \<Rightarrow>
               if trim_space (me_content m) = [] then (st, Inl (EText ''memory: content is required''))
               else (case memory_insert m s of (r, s') \<Rightarrow> (Some s', Inr r))))"

record memory_delete =
  md_id :: string
  md_name :: string
  md_scope :: scope

text \<open>The id a delete request names: its own, or that of the first memory with its name and scope.\<close>

definition delete_target :: "memory_delete \<Rightarrow> memory keyed \<Rightarrow> string" where
  "delete_target req s =
     (let i = trim_space (md_id req)
      in if i = [] \<and> md_name req \<noteq> []
         then (case ks_find (\<lambda>e. me_name e = md_name req \<and> (md_scope req = [] \<or> me_scope e = normalizeScope (md_scope req))) s of
                 None \<Rightarrow> [] | Some (j, _) \<Rightarrow> j)
         else i)"

definition DeleteMemory :: "err option \<Rightarrow> memory_delete \<Rightarrow> memory keyed option \<Rightarrow> memory keyed option \<times> err option" where
  "DeleteMemory ctxerr req st =
     (case ctxerr of
        Some e \<Rightarrow> (st, Some e)
      | None \<Rightarrow>
          (case st of
             None \<Rightarrow> (st, Some mem_nil_store)
           | Some s0 \<Rightarrow>
               (let s = ks_ensure s0; i = delete_target req s
                in if i = [] then (Some s, Some (EText ''memory: delete requires id or name''))
                   else if map_of (ks_items s) i = None then (Some s, Some (EText (''memory not found: '' @ i)))
                   else (Some (ks_delete i s), None))))"

section \<open>Sources\<close>

type_synonym ('w, 'q) memory_source = "'w \<Rightarrow> 'q \<Rightarrow> 'w \<times> (err + memory list)"

text \<open>A nil \<open>SourceFunc\<close> fails.\<close>

definition SourceFunc_Memories :: "('w, 'q) memory_source option \<Rightarrow> ('w, 'q) memory_source" where
  "SourceFunc_Memories f w req = (case f of None \<Rightarrow> (w, Inl (EText ''memory: nil SourceFunc'')) | Some g \<Rightarrow> g w req)"

definition StaticSource_Memories :: "memory list \<Rightarrow> ('w, 'q) memory_source" where
  "StaticSource_Memories ms w req = (w, Inr (cloneMemories ms))"

definition memoryKey :: "memory \<Rightarrow> string" where
  "memoryKey m = (if me_name m = [] then [] else me_scope m @ [CHR 0x00] @ me_name m)"

fun merge_memories :: "string list \<Rightarrow> memory list \<Rightarrow> string list \<times> memory list" where
  "merge_memories seen [] = (seen, [])"
| "merge_memories seen (m # ms) =
     (let k = memoryKey m
      in if k \<noteq> [] \<and> k \<in> set seen then merge_memories seen ms
         else case merge_memories (if k = [] then seen else k # seen) ms of (seen', out) \<Rightarrow> (seen', clone_memory m # out))"

fun multi_loop :: "string list \<Rightarrow> ('w, 'q) memory_source option list \<Rightarrow> 'w \<Rightarrow> 'q \<Rightarrow> 'w \<times> (err + memory list)" where
  "multi_loop seen [] w req = (w, Inr [])"
| "multi_loop seen (None # ss) w req = multi_loop seen ss w req"
| "multi_loop seen (Some f # ss) w req =
     (case f w req of
        (w1, Inl e) \<Rightarrow> (w1, Inl e)
      | (w1, Inr ms) \<Rightarrow>
          (case merge_memories seen ms of
             (seen', out) \<Rightarrow>
               (case multi_loop seen' ss w1 req of
                  (w2, Inl e) \<Rightarrow> (w2, Inl e)
                | (w2, Inr rest) \<Rightarrow> (w2, Inr (out @ rest)))))"

definition MultiSource_Memories :: "('w, 'q) memory_source option list \<Rightarrow> ('w, 'q) memory_source" where
  "MultiSource_Memories ss w req = multi_loop [] ss w req"

section \<open>Selection\<close>

definition memory_tokenize :: "unicode \<Rightarrow> string \<Rightarrow> string list" where
  "memory_tokenize U v = dedup_tokens [] (map (\<lambda>f. to_lower U (trim_space f)) (fields_loop U (utf8_chunks v) []))"

definition scoreMemory :: "unicode \<Rightarrow> memory \<Rightarrow> string \<Rightarrow> string list \<Rightarrow> int" where
  "scoreMemory U m query tokens =
     (let combined = to_lower U (join '' '' [me_name m, me_scope m, me_description m, join '' '' (me_tags m), me_content m]);
          name = to_lower U (me_name m)
      in (if query \<noteq> [] \<and> contains combined query then 5 else 0)
         + sum_list (map (\<lambda>t. if contains name t then 3 else if contains combined t then 1 else 0) tokens))"

definition memory_before :: "memory scored \<Rightarrow> memory scored \<Rightarrow> bool" where
  "memory_before l r =
     (if me_always_on (sd_item l) \<noteq> me_always_on (sd_item r) then me_always_on (sd_item l)
      else if sd_score l \<noteq> sd_score r then sd_score r < sd_score l
      else if me_priority (sd_item l) \<noteq> me_priority (sd_item r) then
        (if me_priority (sd_item l) = 0 then False
         else if me_priority (sd_item r) = 0 then True
         else me_priority (sd_item l) < me_priority (sd_item r))
      else if sd_index l \<noteq> sd_index r then sd_index l < sd_index r
      else str_less (me_name (sd_item l)) (me_name (sd_item r)))"

definition limitMemories :: "memory scored list \<Rightarrow> int \<Rightarrow> memory scored list" where
  "limitMemories items mx =
     (if mx \<le> 0 \<or> int (length items) \<le> mx then items
      else let always = filter (\<lambda>x. me_always_on (sd_item x)) items; rest = filter (\<lambda>x. \<not> me_always_on (sd_item x)) items
           in if mx \<le> int (length always) then always else always @ take (nat mx - length always) rest)"

definition memory_candidates :: "unicode \<Rightarrow> memory list \<Rightarrow> string \<Rightarrow> memory scored list" where
  "memory_candidates U ms query =
     (let q = to_lower U (trim_space query); tokens = memory_tokenize U q
      in score_items clone_memory (\<lambda>m. scoreMemory U m q tokens) (\<lambda>m sc. me_always_on m \<or> 0 < sc \<or> q = []) ms)"

definition memory_Select :: "unicode \<Rightarrow> int \<Rightarrow> memory list \<Rightarrow> string \<Rightarrow> memory list" where
  "memory_Select U mx ms query =
     (if ms = [] then [] else map sd_item (limitMemories (stable_sort memory_before (memory_candidates U ms query)) mx))"

section \<open>Well-formed stores\<close>

text \<open>A stored memory carries its key as id and is normalised.\<close>

definition memory_ok :: "string \<Rightarrow> memory \<Rightarrow> bool" where
  "memory_ok i m \<longleftrightarrow> me_id m = i \<and> i \<noteq> [] \<and> trim_space i = i \<and> normalizeMemory m = m"

lemma trimStrings_idem [simp]: "trimStrings (trimStrings vs) = trimStrings vs"
  by (induction vs) (simp_all add: trimStrings_def)

lemma normalizeMemory_idem [simp]: "normalizeMemory (normalizeMemory m) = normalizeMemory m"
  by (simp add: normalizeMemory_def normalizeScope_def)

lemma clone_normal: "normalizeMemory m = m \<Longrightarrow> clone_memory m = m"
proof -
  assume "normalizeMemory m = m"
  then have "trim_space (me_id m) = me_id m" and "CloneMetadata (me_metadata m) = me_metadata m"
    by (metis memory.select_convs(1) normalizeMemory_def, metis memory.select_convs(9) normalizeMemory_def)
  then show ?thesis by (simp add: clone_memory_def)
qed

lemma normal_with_id: "normalizeMemory m = m \<Longrightarrow> trim_space i = i \<Longrightarrow> normalizeMemory (m\<lparr>me_id := i\<rparr>) = m\<lparr>me_id := i\<rparr>"
  by (cases m) (simp add: normalizeMemory_def)

lemma memory_prefix_ink: "list_all ink_char memory_prefix"
  by (simp add: ink_char_def byte_def is_space_def)

lemma memory_store_as_change:
  assumes "normalizeMemory item = item" and "me_id item \<noteq> []" and "int64_range (ks_next s)"
  shows "\<exists>n. int64_range n \<and> snd (memory_store_as item s) = (ks_put (me_id item) item s)\<lparr>ks_next := n\<rparr>
    \<and> pt_memory (fst (memory_store_as item s)) = item"
proof -
  let ?t = "ks_put (me_id item) item s"
  have "snd (memory_store_as item s) = ks_bump memory_prefix (me_id item) ?t" "pt_memory (fst (memory_store_as item s)) = item"
    using clone_normal [OF assms(1)] by (simp_all add: memory_store_as_def Let_def)
  moreover have "int64_range (ks_next (ks_bump memory_prefix (me_id item) ?t))"
    by (rule keyed_next_range(2)) (use assms(3) in simp)
  ultimately show ?thesis using bump_next [of memory_prefix "me_id item" ?t] by metis
qed

text \<open>What an insertion does to a well-formed store: it puts the normalised memory under the id it reports.\<close>

lemma memory_insert_puts:
  assumes ok: "keyed_ok memory_ok s" and r: "memory_insert m s = (r, s')"
  shows "\<exists>n. int64_range n \<and> s' = (ks_put (me_id (pt_memory r)) (pt_memory r) s)\<lparr>ks_next := n\<rparr>
    \<and> memory_ok (me_id (pt_memory r)) (pt_memory r)
    \<and> (\<exists>i. pt_memory r = (normalizeMemory m)\<lparr>me_id := i\<rparr>)"
proof -
  define t where "t = ks_ensure s"
  define item where "item = normalizeMemory m"
  have inv: "int64_range (ks_next s)" using ok by (simp add: keyed_ok_def keyed_inv_def)
  have t: "t = s\<lparr>ks_next := ks_next t\<rparr>" "int64_range (ks_next t)"
    using ensure_next [of s] keyed_next_range(1) [OF inv] by (simp_all add: t_def)
  have norm: "normalizeMemory item = item" by (simp add: item_def)
  have putt: "ks_put i v (t\<lparr>ks_next := k\<rparr>) = (ks_put i v s)\<lparr>ks_next := k\<rparr>" for i v k
    by (subst t(1)) (simp add: ks_put_def)
  have store: "\<exists>n. int64_range n \<and> s' = (ks_put (me_id it) it s)\<lparr>ks_next := n\<rparr> \<and> pt_memory r = it"
    if "memory_store_as it (t\<lparr>ks_next := k\<rparr>) = (r, s')" and "normalizeMemory it = it" and "me_id it \<noteq> []" and "int64_range k" for it k
    using memory_store_as_change [OF that(2,3), of "t\<lparr>ks_next := k\<rparr>"] that(1,4) by (auto simp: putt)
  consider (own) "me_id item \<noteq> []" "memory_store_as item t = (r, s')"
    | (found) i e where "me_id item = []" "ks_find (\<lambda>e. me_name e = me_name item \<and> me_scope e = me_scope item) t = Some (i, e)"
        "r = \<lparr>pt_memory = clone_memory (item\<lparr>me_id := i\<rparr>), pt_created = False, pt_updated = True\<rparr>"
        "s' = t\<lparr>ks_items := AList.update i (clone_memory (item\<lparr>me_id := i\<rparr>)) (ks_items t)\<rparr>"
    | (new) i t1 where "ks_next_id memory_prefix t = (i, t1)" "memory_store_as (item\<lparr>me_id := i\<rparr>) t1 = (r, s')"
    using r by (auto simp: memory_insert_def Let_def t_def item_def split: if_splits option.splits prod.splits)
  then show ?thesis
  proof cases
    case own
    have "trim_space (me_id item) = me_id item" by (simp add: item_def normalizeMemory_def)
    moreover obtain n where "int64_range n" "s' = (ks_put (me_id item) item s)\<lparr>ks_next := n\<rparr>" "pt_memory r = item"
      using store [of item "ks_next t"] own t norm by auto
    ultimately show ?thesis using own(1) norm
      by (intro exI [of _ n] conjI exI [of _ "me_id item"]) (simp_all add: memory_ok_def item_def)
  next
    case found
    have e: "memory_ok i e" "map_of (ks_items s) i = Some e" using find_live [OF found(2)] keyed_okD [OF ok] t by (auto simp: t_def)
    then have i: "trim_space i = i" "i \<noteq> []" by (simp_all add: memory_ok_def)
    have c: "clone_memory (item\<lparr>me_id := i\<rparr>) = item\<lparr>me_id := i\<rparr>" by (rule clone_normal [OF normal_with_id [OF norm i(1)]])
    have "s' = (ks_put i (item\<lparr>me_id := i\<rparr>) s)\<lparr>ks_next := ks_next t\<rparr>"
      unfolding found(4) c by (subst (1 2) t(1)) (simp add: ks_put_def e(2))
    with t(2) found(3) c i normal_with_id [OF norm i(1)] show ?thesis by (auto simp: memory_ok_def item_def)
  next
    case new
    have i: "trim_space i = i" "i \<noteq> []" using trim_next_id [OF memory_prefix_ink, of t] new(1) by simp_all
    have t1: "t1 = t\<lparr>ks_next := ks_next t1\<rparr>" "int64_range (ks_next t1)"
      using next_id_next [of memory_prefix t] keyed_next_id_range [of memory_prefix t] new(1) by simp_all
    from new(2) have "memory_store_as (item\<lparr>me_id := i\<rparr>) (t\<lparr>ks_next := ks_next t1\<rparr>) = (r, s')" using t1(1) by simp
    from store [OF this normal_with_id [OF norm i(1)] _ t1(2)] i normal_with_id [OF norm i(1)] show ?thesis
      by (auto simp: memory_ok_def item_def)
  qed
qed

inductive memory_step :: "memory keyed \<Rightarrow> memory keyed \<Rightarrow> bool" where
  put: "PutMemory ctxerr m (Some s) = (Some s', r) \<Longrightarrow> memory_step s s'"
| delete: "DeleteMemory ctxerr req (Some s) = (Some s', e) \<Longrightarrow> memory_step s s'"
| seed: "memory_insert m s = (r, s') \<Longrightarrow> memory_step s s'"

lemma memory_insert_change: "keyed_ok memory_ok s \<Longrightarrow> memory_insert m s = (r, s') \<Longrightarrow> keyed_change memory_ok s s'"
  using memory_insert_puts by (metis keyed_change.put)

interpretation memories: keyed_service memory_step memory_ok
proof
  fix s t :: "memory keyed"
  assume st: "memory_step s t" and ok: "keyed_ok memory_ok s"
  have inv: "keyed_inv s" using ok by (simp add: keyed_ok_def)
  from st show "keyed_change memory_ok s t"
  proof cases
    case (put ctxerr m r)
    with ok keyed_change_same [OF inv] show ?thesis
      by (auto simp: PutMemory_def intro: memory_insert_change split: option.splits if_splits prod.splits)
  next
    case (delete ctxerr req e)
    with keyed_change_ensure [OF inv, of memory_ok] keyed_change_remove [OF inv, of memory_ok] keyed_change_same [OF inv, of memory_ok]
    show ?thesis by (auto simp: DeleteMemory_def Let_def split: option.splits if_splits)
  next
    case (seed m r)
    with ok show ?thesis by (auto intro: memory_insert_change)
  qed
qed

section \<open>Put and delete\<close>

text \<open>Whether an insertion creates a record: exactly when the store has none under its id.\<close>

lemma memory_insert_created:
  assumes ok: "keyed_ok memory_ok s" and r: "memory_insert m s = (r, s')"
  shows "pt_created r = (map_of (ks_items s) (me_id (pt_memory r)) = None) \<and> pt_updated r = (\<not> pt_created r)"
proof -
  have c: "clone_memory (normalizeMemory m) = normalizeMemory m" by (rule clone_normal) simp
  have i: "trim_space i = i" if "map_of (ks_items s) i = Some e" for i e using keyed_okD [OF ok that] by (simp add: memory_ok_def)
  have n: "trim_space (fst (ks_next_id memory_prefix t)) = fst (ks_next_id memory_prefix t)" for t :: "memory keyed"
    by (rule trim_next_id [OF memory_prefix_ink]) simp
  show ?thesis
  proof (cases "me_id (normalizeMemory m) = []")
    case False
    with r c show ?thesis by (auto simp: memory_insert_def memory_store_as_def Let_def)
  next
    case True
    show ?thesis
    proof (cases "if me_name (normalizeMemory m) = [] then None
        else ks_find (\<lambda>e. me_name e = me_name (normalizeMemory m) \<and> me_scope e = me_scope (normalizeMemory m)) (ks_ensure s)")
      case None
      with r True n [of "ks_ensure s"] show ?thesis
        by (auto simp: memory_insert_def memory_store_as_def clone_memory_def Let_def case_prod_beta split: if_splits)
    next
      case (Some p)
      obtain j e where p: "p = (j, e)" by (cases p)
      have "map_of (ks_items s) j = Some e" using find_live [of _ "ks_ensure s" j e] Some p by (auto split: if_splits)
      with r True Some p i [of j e] show ?thesis
        by (auto simp: memory_insert_def clone_memory_def Let_def split: prod.splits if_splits)
    qed
  qed
qed

text \<open>
  In every store reached by puts and deletes, a successful put leaves the normalised memory under the id it returns and
  every other record as it was; it reports a creation exactly when no record had that id, and then the memory comes last in the
  listing; a named memory without an id replaces the first one with its scope and name instead of adding a second.
\<close>

theorem memory_put_spec:
  assumes reach: "memory_step\<^sup>*\<^sup>* new_keyed s" and put: "PutMemory ctxerr m (Some s) = (Some s', Inr r)"
  shows "map_of (ks_items s') (me_id (pt_memory r)) = Some (pt_memory r)
    \<and> (\<forall>j. j = me_id (pt_memory r) \<or> map_of (ks_items s') j = map_of (ks_items s) j)
    \<and> (\<exists>i. pt_memory r = (normalizeMemory m)\<lparr>me_id := i\<rparr>)
    \<and> pt_created r = (map_of (ks_items s) (me_id (pt_memory r)) = None)
    \<and> (\<not> pt_created r \<or> ks_listing s' = ks_listing s @ [pt_memory r])
    \<and> (trim_space (me_id m) \<noteq> [] \<or> trim_space (me_name m) = [] \<or> \<not> pt_created r
        \<or> (\<forall>e \<in> set (ks_listing s). me_name e \<noteq> me_name (pt_memory r) \<or> me_scope e \<noteq> me_scope (pt_memory r)))"
proof -
  have ok: "keyed_ok memory_ok s" by (rule memories.new_reachable_ok [OF reach])
  have ins: "memory_insert m s = (r, s')"
    using put by (auto simp: PutMemory_def split: option.splits if_splits prod.splits)
  obtain n i where n: "s' = (ks_put (me_id (pt_memory r)) (pt_memory r) s)\<lparr>ks_next := n\<rparr>" and i: "pt_memory r = (normalizeMemory m)\<lparr>me_id := i\<rparr>"
    using memory_insert_puts [OF ok ins] by blast
  have cr: "pt_created r = (map_of (ks_items s) (me_id (pt_memory r)) = None)" using memory_insert_created [OF ok ins] by blast
  have live: "ks_live s' = ks_live s @ [(me_id (pt_memory r), pt_memory r)]" if "pt_created r"
    using live_fresh [of s "me_id (pt_memory r)" "pt_memory r"] that cr ok by (simp add: n keyed_ok_def ks_live_def)
  have named: "\<forall>e \<in> set (ks_listing s). me_name e \<noteq> me_name (pt_memory r) \<or> me_scope e \<noteq> me_scope (pt_memory r)"
    if h: "trim_space (me_id m) = []" "trim_space (me_name m) \<noteq> []" "pt_created r"
  proof -
    let ?P = "\<lambda>e. me_name e = me_name (normalizeMemory m) \<and> me_scope e = me_scope (normalizeMemory m)"
    have "ks_find ?P (ks_ensure s) = None"
      using ins h by (auto simp: memory_insert_def Let_def normalizeMemory_def split: option.splits if_splits prod.splits)
    then have "ks_find ?P s = None" by (simp add: ks_find_def ks_live_def)
    then show ?thesis by (auto simp: i ks_find_def find_None_iff ks_listing_def)
  qed
  show ?thesis using n i cr live named by (auto simp: put_lookup ks_listing_def)
qed

theorem memory_put_spec_witness:
  "\<exists>s' r. PutMemory None \<lparr>me_id = [], me_name = ''n'', me_scope = [], me_description = [], me_content = ''c'', me_priority = 0,
       me_always_on = False, me_tags = [], me_metadata = []\<rparr> (Some new_keyed) = (Some s', Inr r)
     \<and> map_of (ks_items s') (me_id (pt_memory r)) = Some (pt_memory r) \<and> ks_listing s' = [pt_memory r]"
proof -
  let ?m = "\<lparr>me_id = [], me_name = ''n'', me_scope = [], me_description = [], me_content = ''c'', me_priority = 0,
       me_always_on = False, me_tags = [], me_metadata = []\<rparr>"
  have c: "trim_space (me_content ?m) \<noteq> []" by (simp add: trim_ink_text ink_char_def byte_def is_space_def)
  then obtain s' r where p: "PutMemory None ?m (Some new_keyed) = (Some s', Inr r)"
    by (cases "memory_insert ?m new_keyed") (simp add: PutMemory_def)
  have "ks_items (new_keyed :: memory keyed) = []" "ks_listing (new_keyed :: memory keyed) = []"
    by (simp_all add: new_keyed_def ks_listing_def ks_live_def)
  with memory_put_spec [OF rtranclp.rtrancl_refl p] p show ?thesis by auto
qed

text \<open>A delete removes the one record it names, or fails and leaves the records alone.\<close>

theorem memory_delete_spec:
  assumes reach: "memory_step\<^sup>*\<^sup>* new_keyed s" and del: "DeleteMemory ctxerr req (Some s) = (Some s', e)"
  shows "if e = None then map_of (ks_items s) (delete_target req (ks_ensure s)) \<noteq> None
      \<and> map_of (ks_items s') = (map_of (ks_items s))(delete_target req (ks_ensure s) := None)
    else ks_items s' = ks_items s \<and> ks_order s' = ks_order s"
  using del by (auto simp: DeleteMemory_def Let_def delete_lookup fun_eq_iff split: option.splits if_splits)

section \<open>Merged sources\<close>

text \<open>The named keys of a merge are distinct, and each named memory is the first one of its key.\<close>

lemma memoryKey_clone [simp]: "memoryKey (clone_memory m) = memoryKey m"
  by (simp add: memoryKey_def clone_memory_def)

lemma merge_memories_spec:
  "merge_memories seen ms = (seen', out) \<Longrightarrow>
     distinct (filter (\<lambda>k. k \<noteq> []) (map memoryKey out))
     \<and> set seen' = set seen \<union> (memoryKey ` set out - {[]})
     \<and> (memoryKey ` set out - {[]}) \<inter> set seen = {}"
proof (induction ms arbitrary: seen seen' out)
  case (Cons m ms)
  show ?case
  proof (cases "memoryKey m \<noteq> [] \<and> memoryKey m \<in> set seen")
    case True
    with Cons show ?thesis by (simp add: Let_def)
  next
    case False
    obtain s1 o1 where r: "merge_memories (if memoryKey m = [] then seen else memoryKey m # seen) ms = (s1, o1)" by fastforce
    with Cons.prems False have o: "seen' = s1" "out = clone_memory m # o1" by (auto simp: Let_def)
    show ?thesis
    proof (cases "memoryKey m = []")
      case True
      with Cons.IH [of seen s1 o1] r o show ?thesis by simp
    next
      case named: False
      with Cons.IH [of "memoryKey m # seen" s1 o1] r have "distinct (filter (\<lambda>k. k \<noteq> []) (map memoryKey o1))"
        "set s1 = insert (memoryKey m) (set seen) \<union> (memoryKey ` set o1 - {[]})"
        "(memoryKey ` set o1 - {[]}) \<inter> insert (memoryKey m) (set seen) = {}"
        by simp_all
      with named False o show ?thesis by auto
    qed
  qed
qed simp

lemma multi_loop_spec:
  "multi_loop seen ss w req = (w', Inr out) \<Longrightarrow>
     distinct (filter (\<lambda>k. k \<noteq> []) (map memoryKey out)) \<and> (memoryKey ` set out - {[]}) \<inter> set seen = {}"
proof (induction seen ss w req arbitrary: w' out rule: multi_loop.induct)
  case (3 seen f ss w req)
  obtain w1 ms seen1 o1 w2 o2 where f: "f w req = (w1, Inr ms)" and m: "merge_memories seen ms = (seen1, o1)"
    and r: "multi_loop seen1 ss w1 req = (w2, Inr o2)" and out: "out = o1 @ o2"
    using 3(2) by (auto split: prod.splits sum.splits)
  note a = merge_memories_spec [OF m] and b = 3(1) [OF f [symmetric] refl m [symmetric] r]
  have "set (filter (\<lambda>k. k \<noteq> []) (map memoryKey o1)) \<inter> set (filter (\<lambda>k. k \<noteq> []) (map memoryKey o2)) = {}"
    using a b by auto
  with a b show ?case unfolding out by auto
qed auto

text \<open>
  Merging reports no two memories with the same scope and name, whatever the sources return, and of two static sources
  the first wins.
\<close>

theorem multi_source_names_distinct:
  "MultiSource_Memories ss w req = (w', Inr out) \<Longrightarrow> distinct (filter (\<lambda>k. k \<noteq> []) (map memoryKey out))"
  using multi_loop_spec by (fastforce simp: MultiSource_Memories_def)

section \<open>Selection\<close>

lemma memory_before_strict: "strict_weak memory_before"
proof -
  have base: "strict_weak (\<lambda>l r. str_less (me_name (sd_item l)) (me_name (sd_item (r :: memory scored))))"
    by (rule strict_weak_on [OF str_less_strict_weak])
  let ?k = "\<lambda>x :: memory scored. int (sd_index x)" and ?p = "\<lambda>x :: memory scored. me_priority (sd_item x)"
    and ?z = "\<lambda>x :: memory scored. if me_priority (sd_item x) = 0 then 1 else (0::int)" and ?s = "\<lambda>x :: memory scored. - sd_score x"
    and ?a = "\<lambda>x :: memory scored. if me_always_on (sd_item x) then 0 else (1::int)"
  note order = strict_weak_lex [OF strict_weak_lex [OF strict_weak_lex [OF strict_weak_lex [OF strict_weak_lex [OF base, of ?k], of ?p], of ?z], of ?s], of ?a]
  have "memory_before = (\<lambda>a b. if ?a a \<noteq> ?a b then ?a a < ?a b else if ?s a \<noteq> ?s b then ?s a < ?s b
      else if ?z a \<noteq> ?z b then ?z a < ?z b else if ?p a \<noteq> ?p b then ?p a < ?p b
      else if ?k a \<noteq> ?k b then ?k a < ?k b else str_less (me_name (sd_item a)) (me_name (sd_item b)))"
    by (intro ext) (simp add: memory_before_def)
  with order show ?thesis by simp
qed

interpretation memory_rank: keeping_rank memory_before "\<lambda>x. me_always_on (sd_item x)"
  by unfold_locales (auto simp: memory_before_strict memory_before_def)

lemma limitMemories_keeps: "limitMemories = limit_keeping (\<lambda>x. me_always_on (sd_item x))"
  by (intro ext) (simp add: limitMemories_def limit_keeping_def)

text \<open>
  The selector returns candidates in rank order and cuts only the tail: no memory left out is ranked before one that is
  kept, none left out is always on, and a positive limit is exceeded only by always-on memories.
\<close>

theorem memory_selection_best:
  "\<exists>kept. memory_Select U mx ms query = map sd_item kept
     \<and> best_kept memory_before (\<lambda>x. me_always_on (sd_item x)) mx (memory_candidates U ms query) kept"
proof (intro exI conjI)
  let ?c = "memory_candidates U ms query"
  show "best_kept memory_before (\<lambda>x. me_always_on (sd_item x)) mx ?c (limitMemories (stable_sort memory_before ?c) mx)"
    unfolding limitMemories_keeps by (rule memory_rank.limit_keeping_best)
  show "memory_Select U mx ms query = map sd_item (limitMemories (stable_sort memory_before ?c) mx)"
    by (simp add: memory_Select_def memory_candidates_def score_items_def limitMemories_def Let_def)
qed

end
