(* ===== verification/Notes.thy ===== *)
theory Notes
  imports Keyed_Store Assistant_Text
begin

text \<open>
  Package \<open>notes\<close>: notes, the in-memory store with search, read, put and delete, and the ranking of search results.
  The clock is an argument of the operations that read it.
\<close>

section \<open>Notes\<close>

record note_entry =
  nt_id :: string
  nt_title :: string
  nt_kind :: string
  nt_summary :: string
  nt_content :: string
  nt_created :: gotime
  nt_updated :: gotime
  nt_tags :: "string list"
  nt_metadata :: metadata

text \<open>A copy trims every text except the id.\<close>

definition clone_note :: "note_entry \<Rightarrow> note_entry" where
  "clone_note n =
     n\<lparr>nt_metadata := CloneMetadata (nt_metadata n), nt_title := trim_space (nt_title n), nt_kind := trim_space (nt_kind n),
       nt_summary := trim_space (nt_summary n), nt_content := trim_space (nt_content n)\<rparr>"

section \<open>Search\<close>

definition note_tag_hit :: "unicode \<Rightarrow> string \<Rightarrow> note_entry \<Rightarrow> bool" where
  "note_tag_hit U t n \<longleftrightarrow> list_ex (\<lambda>tag. contains (to_lower U tag) t) (nt_tags n)"

definition scoreNote :: "unicode \<Rightarrow> note_entry \<Rightarrow> string \<Rightarrow> string list \<Rightarrow> int" where
  "scoreNote U n query tokens =
     (if query = [] then 1
      else let title = to_lower U (nt_title n); kind = to_lower U (nt_kind n);
               summary = to_lower U (nt_summary n); content = to_lower U (nt_content n)
           in hit title query 8 + hit summary query 5 + hit kind query 3 + hit content query 2
              + sum_list (map (\<lambda>tag. hit (to_lower U tag) query 4) (nt_tags n))
              + sum_list (map (\<lambda>t. if t = [] then 0
                   else (if contains title t then 4 else if contains summary t then 3 else if contains kind t then 2
                         else if contains content t then 1 else 0)
                      + (if note_tag_hit U t n then 2 else 0)) tokens))"

definition note_before :: "note_entry scored \<Rightarrow> note_entry scored \<Rightarrow> bool" where
  "note_before l r =
     (if sd_score l \<noteq> sd_score r then sd_score r < sd_score l
      else if nt_updated (sd_item l) \<noteq> nt_updated (sd_item r) then nt_updated (sd_item r) < nt_updated (sd_item l)
      else if nt_created (sd_item l) \<noteq> nt_created (sd_item r) then nt_created (sd_item r) < nt_created (sd_item l)
      else if nt_title (sd_item l) \<noteq> nt_title (sd_item r) then str_less (nt_title (sd_item l)) (nt_title (sd_item r))
      else sd_index l < sd_index r)"

definition note_candidates :: "unicode \<Rightarrow> note_entry list \<Rightarrow> string \<Rightarrow> note_entry scored list" where
  "note_candidates U ns query =
     (let q = to_lower U (trim_space query); tokens = plain_tokens U q
      in score_items clone_note (\<lambda>n. scoreNote U n q tokens) (\<lambda>n sc. 0 < sc \<or> q = []) ns)"

definition note_Select :: "unicode \<Rightarrow> int \<Rightarrow> note_entry list \<Rightarrow> string \<Rightarrow> note_entry list" where
  "note_Select U mx ns query =
     (if ns = [] then [] else map sd_item (rank_limit note_before mx (note_candidates U ns query)))"

section \<open>The store\<close>

abbreviation note_prefix :: string where "note_prefix \<equiv> ''note-''"

record note_result =
  nr_note :: note_entry
  nr_created :: bool
  nr_updated :: bool

text \<open>The id of the note being written: its own, that of the note with its title, or a fresh one.\<close>

definition note_id_for :: "note_entry \<Rightarrow> note_entry keyed \<Rightarrow> string \<times> note_entry keyed" where
  "note_id_for n s =
     (let i = (if nt_id n = [] \<and> nt_title n \<noteq> []
               then (case ks_find (\<lambda>e. nt_title e = nt_title n) s of None \<Rightarrow> [] | Some (j, _) \<Rightarrow> j) else nt_id n)
      in if i = [] then ks_next_id note_prefix s else (i, s))"

definition or_time :: "gotime \<Rightarrow> gotime \<Rightarrow> gotime" where
  "or_time t u = (if time_is_zero t then u else t)"

definition note_insert :: "gotime \<Rightarrow> note_entry \<Rightarrow> note_entry keyed \<Rightarrow> note_result \<times> note_entry keyed" where
  "note_insert now n0 s0 =
     (case note_id_for (clone_note n0) s0 of
        (i, s) \<Rightarrow>
          (let item = (clone_note n0)\<lparr>nt_id := i\<rparr>
           in case map_of (ks_items s) i of
                Some e \<Rightarrow>
                  (let it = item\<lparr>nt_created := or_time (or_time (nt_created item) (nt_created e)) now,
                                 nt_updated := or_time (nt_updated item) now\<rparr>
                   in (\<lparr>nr_note = clone_note it, nr_created = False, nr_updated = True\<rparr>, ks_bump note_prefix i (ks_put i it s)))
              | None \<Rightarrow>
                  (let c = or_time (nt_created item) now; it = item\<lparr>nt_created := c, nt_updated := or_time (nt_updated item) c\<rparr>
                   in (\<lparr>nr_note = clone_note it, nr_created = True, nr_updated = False\<rparr>, ks_bump note_prefix i (ks_put i it s)))))"

fun note_seed :: "gotime \<Rightarrow> note_entry list \<Rightarrow> note_entry keyed \<Rightarrow> note_entry keyed" where
  "note_seed now [] s = s"
| "note_seed now (n # ns) s = note_seed now ns (snd (note_insert now n s))"

definition NewNoteStore :: "gotime \<Rightarrow> note_entry list \<Rightarrow> note_entry keyed" where
  "NewNoteStore now ns = note_seed now ns new_keyed"

definition note_nil_store :: err where
  "note_nil_store = EText ''notes: nil NoteStore''"

definition note_guard :: "err option \<Rightarrow> note_entry keyed option \<Rightarrow> err + note_entry keyed" where
  "note_guard ctxerr st =
     (case ctxerr of Some e \<Rightarrow> Inl e | None \<Rightarrow> (case st of None \<Rightarrow> Inl note_nil_store | Some s \<Rightarrow> Inr s))"

definition SearchNotes :: "unicode \<Rightarrow> err option \<Rightarrow> int \<Rightarrow> string \<Rightarrow> note_entry keyed option \<Rightarrow> err + note_entry list" where
  "SearchNotes U ctxerr limit query st =
     (case note_guard ctxerr st of
        Inl e \<Rightarrow> Inl e
      | Inr s \<Rightarrow> Inr (note_Select U limit (map clone_note (ks_listing s)) query))"

definition ReadNote :: "err option \<Rightarrow> string \<Rightarrow> string \<Rightarrow> note_entry keyed option \<Rightarrow> err + note_entry" where
  "ReadNote ctxerr rid title st =
     (case note_guard ctxerr st of
        Inl e \<Rightarrow> Inl e
      | Inr s \<Rightarrow>
          (let i = trim_space rid; t = trim_space title
           in if i \<noteq> [] then
                (case map_of (ks_items s) i of None \<Rightarrow> Inl (EText (''note not found: '' @ i)) | Some n \<Rightarrow> Inr (clone_note n))
              else if t = [] then Inl (EText ''notes: read requires id or title'')
              else (case ks_find (\<lambda>n. nt_title n = t) s of
                      None \<Rightarrow> Inl (EText (''note not found: '' @ t)) | Some (_, n) \<Rightarrow> Inr (clone_note n))))"

definition PutNote :: "err option \<Rightarrow> gotime \<Rightarrow> note_entry \<Rightarrow> note_entry keyed option \<Rightarrow> note_entry keyed option \<times> (err + note_result)" where
  "PutNote ctxerr now n st =
     (case note_guard ctxerr st of
        Inl e \<Rightarrow> (st, Inl e)
      | Inr s \<Rightarrow>
          if trim_space (nt_content n) = [] then (st, Inl (EText ''notes: content is required''))
          else (case note_insert now n s of (r, s') \<Rightarrow> (Some s', Inr r)))"

definition note_target :: "string \<Rightarrow> string \<Rightarrow> note_entry keyed \<Rightarrow> string" where
  "note_target rid title s =
     (let i = trim_space rid
      in if i = [] \<and> title \<noteq> []
         then (case ks_find (\<lambda>n. nt_title n = trim_space title) s of None \<Rightarrow> [] | Some (j, _) \<Rightarrow> j) else i)"

definition DeleteNote :: "err option \<Rightarrow> string \<Rightarrow> string \<Rightarrow> note_entry keyed option \<Rightarrow> note_entry keyed option \<times> err option" where
  "DeleteNote ctxerr rid title st =
     (case note_guard ctxerr st of
        Inl e \<Rightarrow> (st, Some e)
      | Inr s \<Rightarrow>
          (let i = note_target rid title s
           in if i = [] then (st, Some (EText ''notes: delete requires id or title''))
              else if map_of (ks_items s) i = None then (st, Some (EText (''note not found: '' @ i)))
              else (Some (ks_delete i s), None)))"

section \<open>Well-formed stores\<close>

text \<open>A stored note carries its key as id, is trimmed and has both of its times. The id itself need not be trimmed.\<close>

definition note_ok :: "string \<Rightarrow> note_entry \<Rightarrow> bool" where
  "note_ok i n \<longleftrightarrow> nt_id n = i \<and> i \<noteq> [] \<and> clone_note n = n"

lemma clone_note_idem [simp, clone_simps]: "clone_note (clone_note n) = clone_note n"
  by (simp add: clone_note_def)

lemma clone_note_times [simp]:
  "clone_note (n\<lparr>nt_created := c, nt_updated := u\<rparr>) = (clone_note n)\<lparr>nt_created := c, nt_updated := u\<rparr>"
  "clone_note (n\<lparr>nt_id := i\<rparr>) = (clone_note n)\<lparr>nt_id := i\<rparr>" "nt_id (clone_note n) = nt_id n"
  by (simp_all add: clone_note_def)

lemma note_prefix_ink: "list_all ink_char note_prefix"
  by (simp add: ink_char_def byte_def is_space_def)

lemma note_id_for_spec:
  assumes "keyed_ok note_ok s" and "note_id_for n s = (i, t)"
  shows "i \<noteq> [] \<and> t = s\<lparr>ks_next := ks_next t\<rparr> \<and> int64_range (ks_next t)"
proof -
  have inv: "int64_range (ks_next s)" using assms(1) by (simp add: keyed_ok_def keyed_inv_def)
  show ?thesis
  proof (cases "(i, t) = ks_next_id note_prefix s")
    case True
    then have "i = fst (ks_next_id note_prefix s)" "t = snd (ks_next_id note_prefix s)" by (metis fst_conv, metis snd_conv)
    then show ?thesis
      using trim_next_id(2) [OF note_prefix_ink, of s] next_id_next [of note_prefix s] keyed_next_id_range [of note_prefix s] by simp
  next
    case False
    with assms(2) inv show ?thesis by (auto simp: note_id_for_def Let_def split: if_splits option.splits)
  qed
qed

lemma note_insert_puts:
  assumes ok: "keyed_ok note_ok s" and r: "note_insert now n s = (r, s')"
  shows "\<exists>k. int64_range k \<and> s' = (ks_put (nt_id (nr_note r)) (nr_note r) s)\<lparr>ks_next := k\<rparr> \<and> note_ok (nt_id (nr_note r)) (nr_note r)
    \<and> nr_created r = (map_of (ks_items s) (nt_id (nr_note r)) = None)
    \<and> (\<exists>i c u. nr_note r = (clone_note n)\<lparr>nt_id := i, nt_created := c, nt_updated := u\<rparr>)"
proof -
  obtain i t where it: "note_id_for (clone_note n) s = (i, t)" by fastforce
  note t = note_id_for_spec [OF ok it]
  have same: "ks_items t = ks_items s" using t by (metis keyed.select_convs(1) keyed.surjective keyed.update_convs(3))
  obtain c u where v: "s' = ks_bump note_prefix i (ks_put i ((clone_note n)\<lparr>nt_id := i, nt_created := c, nt_updated := u\<rparr>) t)"
      "nr_note r = (clone_note n)\<lparr>nt_id := i, nt_created := c, nt_updated := u\<rparr>" "nr_created r = (map_of (ks_items s) i = None)"
    using r it same by (auto simp: note_insert_def Let_def split: option.splits)
  let ?v = "(clone_note n)\<lparr>nt_id := i, nt_created := c, nt_updated := u\<rparr>"
  have "s' = (ks_put i ?v s)\<lparr>ks_next := ks_next s'\<rparr>"
    using v(1) t bump_next [of note_prefix i "ks_put i ?v t"] by (metis put_next keyed.update_convs(3) keyed.surjective)
  moreover have "int64_range (ks_next s')" unfolding v(1) by (rule keyed_next_range(2)) (use t in simp)
  ultimately show ?thesis using v t by (intro exI [of _ "ks_next s'"]) (auto simp: note_ok_def)
qed

inductive note_step :: "note_entry keyed \<Rightarrow> note_entry keyed \<Rightarrow> bool" where
  put: "PutNote ctxerr now n (Some s) = (Some s', r) \<Longrightarrow> note_step s s'"
| delete: "DeleteNote ctxerr rid title (Some s) = (Some s', e) \<Longrightarrow> note_step s s'"
| seed: "note_insert now n s = (r, s') \<Longrightarrow> note_step s s'"

lemma note_insert_change: "keyed_ok note_ok s \<Longrightarrow> note_insert now n s = (r, s') \<Longrightarrow> keyed_change note_ok s s'"
  using note_insert_puts by (metis keyed_change.put)

interpretation note_service: keyed_service note_step note_ok
proof
  fix s t :: "note_entry keyed"
  assume st: "note_step s t" and ok: "keyed_ok note_ok s"
  have inv: "keyed_inv s" using ok by (simp add: keyed_ok_def)
  from st show "keyed_change note_ok s t"
  proof cases
    case (put ctxerr now n r)
    with ok keyed_change_same [OF inv] show ?thesis
      by (auto simp: PutNote_def note_guard_def intro: note_insert_change split: option.splits if_splits prod.splits)
  next
    case (delete ctxerr rid title e)
    with keyed_change_same [OF inv, of note_ok] delete_same_next [OF inv, of note_ok] show ?thesis
      by (auto simp: DeleteNote_def note_guard_def Let_def split: option.splits if_splits)
  next
    case (seed now n r)
    with ok show ?thesis by (auto intro: note_insert_change)
  qed
qed

section \<open>Round trips\<close>

text \<open>
  In every reachable store a note that was put is what reading its id returns, if that id survives trimming, and
  reading any other id gives what it gave before.
\<close>

theorem note_put_read:
  assumes reach: "note_step\<^sup>*\<^sup>* new_keyed s" and put: "PutNote None now n (Some s) = (Some s', Inr r)"
    and trimmed: "trim_space (nt_id (nr_note r)) = nt_id (nr_note r)"
  shows "ReadNote None (nt_id (nr_note r)) title (Some s') = Inr (nr_note r)
    \<and> (\<forall>j. trim_space j = [] \<or> trim_space j = nt_id (nr_note r) \<or> ReadNote None j title (Some s') = ReadNote None j title (Some s))
    \<and> nr_created r = (map_of (ks_items s) (nt_id (nr_note r)) = None)"
proof -
  have ok: "keyed_ok note_ok s" by (rule note_service.new_reachable_ok [OF reach])
  have ins: "note_insert now n s = (r, s')"
    using put by (auto simp: PutNote_def note_guard_def split: if_splits prod.splits)
  obtain k where k: "s' = (ks_put (nt_id (nr_note r)) (nr_note r) s)\<lparr>ks_next := k\<rparr>" "note_ok (nt_id (nr_note r)) (nr_note r)"
      "nr_created r = (map_of (ks_items s) (nt_id (nr_note r)) = None)"
    using note_insert_puts [OF ok ins] by (elim exE conjE) (rule that; assumption)
  define i where "i = nt_id (nr_note r)"
  have l: "map_of (ks_items s') j = (if j = i then Some (nr_note r) else map_of (ks_items s) j)" for j
    by (simp add: k(1) put_lookup i_def)
  have rd: "ReadNote None j title (Some t) = (case map_of (ks_items t) (trim_space j) of
      None \<Rightarrow> Inl (EText (''note not found: '' @ trim_space j)) | Some n \<Rightarrow> Inr (clone_note n))" if "trim_space j \<noteq> []" for j t
    using that by (simp add: ReadNote_def note_guard_def Let_def)
  have i: "trim_space i = i" "i \<noteq> []" "clone_note (nr_note r) = nr_note r" using trimmed k(2) by (simp_all add: i_def note_ok_def)
  have "ReadNote None i title (Some s') = Inr (nr_note r)" using i by (simp add: rd l)
  moreover have "ReadNote None j title (Some s') = ReadNote None j title (Some s)" if "trim_space j \<noteq> []" "trim_space j \<noteq> i" for j
    using that by (simp add: rd l)
  ultimately show ?thesis using k(3) unfolding i_def by blast
qed

text \<open>
  An id with white space around it is stored as it is but looked up trimmed: the note that \<open>PutNote\<close> reports cannot be
  read back or deleted under its own id.
\<close>

theorem untrimmed_note_unreadable:
  "\<exists>s' r. PutNote None 1 \<lparr>nt_id = '' a'', nt_title = [], nt_kind = [], nt_summary = [], nt_content = ''c'', nt_created = 0, nt_updated = 0,
       nt_tags = [], nt_metadata = []\<rparr> (Some new_keyed) = (Some s', Inr r)
     \<and> nt_id (nr_note r) = '' a'' \<and> ReadNote None (nt_id (nr_note r)) [] (Some s') = Inl (EText ''note not found: a'')
     \<and> DeleteNote None (nt_id (nr_note r)) [] (Some s') = (Some s', Some (EText ''note not found: a''))"
proof -
  have t: "trim_space '' a'' = ''a''" "trim_space ''c'' = ''c''" "trim_space [] = []"
    by (simp_all add: trim_space_def trim_left_def trim_right_def utf8_chunks_ascii utf8_chunks_unfold [of "[]"] byte_def is_space_def)
  show ?thesis
    by (simp add: PutNote_def note_guard_def note_insert_def note_id_for_def clone_note_def t new_keyed_def ReadNote_def DeleteNote_def
        note_target_def put_lookup CloneMetadata_def Let_def)
qed

section \<open>Ranking\<close>

lemma note_before_strict: "strict_weak note_before"
proof -
  let ?s = "\<lambda>x :: note_entry scored. - sd_score x" and ?u = "\<lambda>x :: note_entry scored. - nt_updated (sd_item x)"
    and ?c = "\<lambda>x :: note_entry scored. - nt_created (sd_item x)"
  note order = strict_weak_lex [OF strict_weak_lex [OF strict_weak_lex [OF strict_weak_lex_str [OF strict_weak_index, of "\<lambda>x. nt_title (sd_item x)"],
      of ?c], of ?u], of ?s]
  have "note_before = (\<lambda>a b. if ?s a \<noteq> ?s b then ?s a < ?s b else if ?u a \<noteq> ?u b then ?u a < ?u b else if ?c a \<noteq> ?c b then ?c a < ?c b
      else if nt_title (sd_item a) \<noteq> nt_title (sd_item b) then str_less (nt_title (sd_item a)) (nt_title (sd_item b)) else sd_index a < sd_index b)"
    by (intro ext) (simp add: note_before_def)
  with order show ?thesis by simp
qed

interpretation note_rank: ranking note_before
  by unfold_locales (rule note_before_strict)

text \<open>A search returns matching notes only, best first, and cuts only the tail.\<close>

theorem note_search_best:
  assumes "SearchNotes U None limit query (Some s) = Inr out"
  shows "\<exists>kept. out = map sd_item kept \<and> best_first note_before limit (note_candidates U (map clone_note (ks_listing s)) query) kept"
proof -
  let ?c = "note_candidates U (map clone_note (ks_listing s)) query"
  have "out = map sd_item (rank_limit note_before limit ?c)"
    using assms by (auto simp: SearchNotes_def note_guard_def note_Select_def rank_limit_def note_candidates_def score_items_def Let_def)
  with note_rank.rank_limit_best [of limit ?c] show ?thesis by blast
qed

end
