(* ===== verification/Calendar.thy ===== *)
theory Calendar
  imports Keyed_Store Assistant_Text
begin

text \<open>
  Package \<open>scheduling\<close>: calendar events, the in-memory store with search, read, create, reschedule and cancel, and the
  ranking of search results. Times are UTC already, so \<open>UTC()\<close> is the identity.
\<close>

section \<open>Events\<close>

abbreviation StatusScheduled :: string where "StatusScheduled \<equiv> ''scheduled''"
abbreviation StatusCancelled :: string where "StatusCancelled \<equiv> ''cancelled''"

record participant =
  pa_id :: string
  pa_name :: string
  pa_address :: string
  pa_role :: string

record cal_event =
  ce_id :: string
  ce_title :: string
  ce_summary :: string
  ce_description :: string
  ce_location :: string
  ce_organizer :: participant
  ce_attendees :: "participant list"
  ce_start :: gotime
  ce_end :: gotime
  ce_timezone :: string
  ce_status :: string
  ce_tags :: "string list"
  ce_metadata :: metadata

definition cloneParticipant :: "participant \<Rightarrow> participant" where
  "cloneParticipant p =
     \<lparr>pa_id = trim_space (pa_id p), pa_name = trim_space (pa_name p), pa_address = trim_space (pa_address p), pa_role = trim_space (pa_role p)\<rparr>"

definition cloneParticipants :: "participant list \<Rightarrow> participant list" where
  "cloneParticipants ps = map cloneParticipant ps"

definition cloneEvent :: "cal_event \<Rightarrow> cal_event" where
  "cloneEvent e =
     e\<lparr>ce_organizer := cloneParticipant (ce_organizer e), ce_attendees := cloneParticipants (ce_attendees e),
       ce_metadata := CloneMetadata (ce_metadata e)\<rparr>"

definition cal_trimStrings :: "string list \<Rightarrow> string list" where
  "cal_trimStrings vs = filter (\<lambda>v. v \<noteq> []) (map trim_space vs)"

definition normalizeEvent :: "cal_event \<Rightarrow> cal_event" where
  "normalizeEvent e =
     \<lparr>ce_id = trim_space (ce_id e), ce_title = trim_space (ce_title e), ce_summary = trim_space (ce_summary e),
      ce_description = trim_space (ce_description e), ce_location = trim_space (ce_location e),
      ce_organizer = cloneParticipant (ce_organizer e), ce_attendees = cloneParticipants (ce_attendees e),
      ce_start = ce_start e, ce_end = ce_end e, ce_timezone = trim_space (ce_timezone e),
      ce_status = (if ce_status e = [] then StatusScheduled else ce_status e),
      ce_tags = cal_trimStrings (ce_tags e), ce_metadata = CloneMetadata (ce_metadata e)\<rparr>"

definition participantKey :: "unicode \<Rightarrow> participant \<Rightarrow> string" where
  "participantKey U p =
     (if pa_address p \<noteq> [] then to_lower U (pa_address p) else if pa_name p \<noteq> [] then to_lower U (pa_name p) else to_lower U (pa_id p))"

definition mergeMetadata :: "metadata \<Rightarrow> metadata \<Rightarrow> metadata" where
  "mergeMetadata old extra = (if old = [] \<and> extra = [] then [] else put_all (CloneMetadata old) extra)"

section \<open>Validation and windows\<close>

definition validateTimeRange :: "gotime \<Rightarrow> gotime \<Rightarrow> err option" where
  "validateTimeRange start end1 =
     (if time_is_zero start \<or> time_is_zero end1 then Some (EText ''scheduling: start and end are required'')
      else if \<not> start < end1 then Some (EText ''scheduling: end must be after start'') else None)"

definition validateCreate :: "unicode \<Rightarrow> cal_event \<Rightarrow> err option" where
  "validateCreate U e =
     (if trim_space (ce_title e) = [] then Some (EText ''scheduling: title is required'')
      else case validateTimeRange (ce_start e) (ce_end e) of
             Some x \<Rightarrow> Some x
           | None \<Rightarrow> if ce_attendees e = [] \<and> participantKey U (ce_organizer e) = []
                    then Some (EText ''scheduling: organizer or attendee is required'') else None)"

definition matchesWindow :: "cal_event \<Rightarrow> gotime \<Rightarrow> gotime \<Rightarrow> bool" where
  "matchesWindow e start end1 =
     (if time_is_zero start \<and> time_is_zero end1 then True
      else if \<not> time_is_zero start \<and> \<not> start < ce_end e then False
      else if \<not> time_is_zero end1 \<and> (end1 < ce_start e \<or> ce_start e = end1) then False
      else True)"

section \<open>Search\<close>

definition participantMatches :: "unicode \<Rightarrow> participant \<Rightarrow> string \<Rightarrow> bool" where
  "participantMatches U p q \<longleftrightarrow>
     contains (to_lower U (pa_name p)) q \<or> contains (to_lower U (pa_address p)) q \<or> contains (to_lower U (pa_role p)) q"

definition scoreEvent :: "unicode \<Rightarrow> cal_event \<Rightarrow> string \<Rightarrow> string list \<Rightarrow> int" where
  "scoreEvent U e query tokens =
     (if query = [] then 1
      else let title = to_lower U (ce_title e); summary = to_lower U (ce_summary e); location = to_lower U (ce_location e);
               st = to_lower U (ce_status e); tz = to_lower U (ce_timezone e)
           in hit title query 8 + hit summary query 5 + hit location query 4
              + (if contains st query \<or> contains tz query then 2 else 0)
              + (if participantMatches U (ce_organizer e) query then 4 else 0)
              + sum_list (map (\<lambda>p. if participantMatches U p query then 3 else 0) (ce_attendees e))
              + sum_list (map (\<lambda>tag. hit (to_lower U tag) query 3) (ce_tags e))
              + sum_list (map (\<lambda>t. if t = [] then 0
                   else (if contains title t then 4 else if contains summary t then 3 else if contains location t then 2 else 0)
                      + (if contains st t \<or> contains tz t then 1 else 0)
                      + (if participantMatches U (ce_organizer e) t then 2 else 0)
                      + (if list_ex (\<lambda>p. participantMatches U p t) (ce_attendees e) then 2 else 0)) tokens))"

definition event_before :: "cal_event scored \<Rightarrow> cal_event scored \<Rightarrow> bool" where
  "event_before l r =
     (if sd_score l \<noteq> sd_score r then sd_score r < sd_score l
      else if ce_start (sd_item l) \<noteq> ce_start (sd_item r) then ce_start (sd_item l) < ce_start (sd_item r)
      else if ce_title (sd_item l) \<noteq> ce_title (sd_item r) then str_less (ce_title (sd_item l)) (ce_title (sd_item r))
      else sd_index l < sd_index r)"

definition event_candidates :: "unicode \<Rightarrow> cal_event list \<Rightarrow> string \<Rightarrow> gotime \<Rightarrow> gotime \<Rightarrow> cal_event scored list" where
  "event_candidates U es query ws we =
     (let q = to_lower U (trim_space query); tokens = plain_tokens U q
      in score_items cloneEvent (\<lambda>e. scoreEvent U e q tokens) (\<lambda>e sc. matchesWindow e ws we \<and> (0 < sc \<or> q = [])) es)"

definition event_Select :: "unicode \<Rightarrow> int \<Rightarrow> cal_event list \<Rightarrow> string \<Rightarrow> gotime \<Rightarrow> gotime \<Rightarrow> cal_event list" where
  "event_Select U mx es query ws we =
     (if es = [] then [] else map sd_item (rank_limit event_before mx (event_candidates U es query ws we)))"

section \<open>The store\<close>

abbreviation event_prefix :: string where "event_prefix \<equiv> ''event-''"

definition cal_nil_store :: err where
  "cal_nil_store = EText ''scheduling: nil EventStore''"

definition cal_guard :: "err option \<Rightarrow> cal_event keyed option \<Rightarrow> err + cal_event keyed" where
  "cal_guard ctxerr st =
     (case ctxerr of Some e \<Rightarrow> Inl e | None \<Rightarrow> (case st of None \<Rightarrow> Inl cal_nil_store | Some s \<Rightarrow> Inr s))"

text \<open>A failed insertion has still reset a counter that was not positive.\<close>

definition event_insert :: "unicode \<Rightarrow> cal_event \<Rightarrow> cal_event keyed \<Rightarrow> (err + cal_event) \<times> cal_event keyed" where
  "event_insert U e0 s0 =
     (let s = ks_ensure s0; e = normalizeEvent e0
      in case validateCreate U e of
           Some x \<Rightarrow> (Inl x, s)
         | None \<Rightarrow>
             (case (if ce_id e = [] then ks_next_id event_prefix s else (ce_id e, s)) of
                (i, s1) \<Rightarrow>
                  (let item = e\<lparr>ce_id := i\<rparr>
                   in (Inr (cloneEvent item), ks_bump event_prefix i (ks_put i (cloneEvent item) s1)))))"

fun event_seed :: "unicode \<Rightarrow> cal_event list \<Rightarrow> cal_event keyed \<Rightarrow> cal_event keyed" where
  "event_seed U [] s = s"
| "event_seed U (e # es) s = event_seed U es (snd (event_insert U e s))"

definition NewEventStore :: "unicode \<Rightarrow> cal_event list \<Rightarrow> cal_event keyed" where
  "NewEventStore U es = event_seed U es new_keyed"

definition SearchEvents ::
  "unicode \<Rightarrow> err option \<Rightarrow> int \<Rightarrow> string \<Rightarrow> gotime \<Rightarrow> gotime \<Rightarrow> cal_event keyed option \<Rightarrow> err + cal_event list" where
  "SearchEvents U ctxerr limit query ws we st =
     (case cal_guard ctxerr st of
        Inl e \<Rightarrow> Inl e
      | Inr s \<Rightarrow> Inr (event_Select U limit (map cloneEvent (ks_listing s)) query ws we))"

definition event_lookup :: "string \<Rightarrow> string \<Rightarrow> string \<Rightarrow> cal_event keyed \<Rightarrow> err + string \<times> cal_event" where
  "event_lookup missing rid title0 s =
     (let i = trim_space rid; t = trim_space title0
      in if i \<noteq> [] then
           (case map_of (ks_items s) i of None \<Rightarrow> Inl (EText (''event not found: '' @ i)) | Some e \<Rightarrow> Inr (i, cloneEvent e))
         else if t = [] then Inl (EText missing)
         else (case ks_find (\<lambda>e. ce_title e = t) s of
                 None \<Rightarrow> Inl (EText (''event not found: '' @ t)) | Some (j, e) \<Rightarrow> Inr (j, cloneEvent e)))"

definition ReadEvent :: "err option \<Rightarrow> string \<Rightarrow> string \<Rightarrow> cal_event keyed option \<Rightarrow> err + cal_event" where
  "ReadEvent ctxerr rid title0 st =
     (case cal_guard ctxerr st of
        Inl e \<Rightarrow> Inl e
      | Inr s \<Rightarrow> (case event_lookup ''scheduling: read requires id or title'' rid title0 s of Inl e \<Rightarrow> Inl e | Inr (_, e) \<Rightarrow> Inr e))"

definition lookupLocked :: "string \<Rightarrow> string \<Rightarrow> cal_event keyed \<Rightarrow> err + string \<times> cal_event" where
  "lookupLocked = event_lookup ''scheduling: request requires id or title''"

definition CreateEvent :: "unicode \<Rightarrow> err option \<Rightarrow> cal_event \<Rightarrow> cal_event keyed option \<Rightarrow> cal_event keyed option \<times> (err + cal_event)" where
  "CreateEvent U ctxerr e st =
     (case cal_guard ctxerr st of
        Inl x \<Rightarrow> (st, Inl x)
      | Inr s \<Rightarrow> (case event_insert U e s of (r, s') \<Rightarrow> (Some s', r)))"

record reschedule_request =
  rq_id :: string
  rq_title :: string
  rq_start :: gotime
  rq_end :: gotime
  rq_timezone :: string
  rq_metadata :: metadata

text \<open>Reschedule and cancel return the event before and after.\<close>

definition RescheduleEvent ::
  "err option \<Rightarrow> reschedule_request \<Rightarrow> cal_event keyed option \<Rightarrow> cal_event keyed option \<times> (err + cal_event \<times> cal_event)" where
  "RescheduleEvent ctxerr req st =
     (case cal_guard ctxerr st of
        Inl x \<Rightarrow> (st, Inl x)
      | Inr s \<Rightarrow>
          (case validateTimeRange (rq_start req) (rq_end req) of
             Some x \<Rightarrow> (st, Inl x)
           | None \<Rightarrow>
               (case lookupLocked (rq_id req) (rq_title req) s of
                  Inl x \<Rightarrow> (st, Inl x)
                | Inr (i, e) \<Rightarrow>
                    (let tz = trim_space (rq_timezone req);
                         e' = e\<lparr>ce_start := rq_start req, ce_end := rq_end req, ce_timezone := (if tz = [] then ce_timezone e else tz),
                                ce_metadata := mergeMetadata (ce_metadata e) (rq_metadata req)\<rparr>
                     in (Some (s\<lparr>ks_items := AList.update i (cloneEvent e') (ks_items s)\<rparr>), Inr (cloneEvent e, cloneEvent e'))))))"

record cancel_request =
  xq_id :: string
  xq_title :: string
  xq_reason :: string
  xq_metadata :: metadata

definition CancelEvent ::
  "err option \<Rightarrow> cancel_request \<Rightarrow> cal_event keyed option \<Rightarrow> cal_event keyed option \<times> (err + cal_event \<times> cal_event)" where
  "CancelEvent ctxerr req st =
     (case cal_guard ctxerr st of
        Inl x \<Rightarrow> (st, Inl x)
      | Inr s \<Rightarrow>
          (case lookupLocked (xq_id req) (xq_title req) s of
             Inl x \<Rightarrow> (st, Inl x)
           | Inr (i, e) \<Rightarrow>
               (let md = mergeMetadata (ce_metadata e) (xq_metadata req); reason = trim_space (xq_reason req);
                    e' = e\<lparr>ce_status := StatusCancelled,
                           ce_metadata := (if reason = [] then md else AList.update ''cancel_reason'' (VString reason) md)\<rparr>
                in (Some (s\<lparr>ks_items := AList.update i (cloneEvent e') (ks_items s)\<rparr>), Inr (cloneEvent e, cloneEvent e')))))"

section \<open>Well-formed calendars\<close>

text \<open>A stored event carries its key, has a title, a proper time range and someone who takes part, and is normalised.\<close>

definition event_ok :: "unicode \<Rightarrow> string \<Rightarrow> cal_event \<Rightarrow> bool" where
  "event_ok U i e \<longleftrightarrow> ce_id e = i \<and> i \<noteq> [] \<and> trim_space i = i \<and> cloneEvent e = e \<and> ce_title e \<noteq> [] \<and> ce_status e \<noteq> []
     \<and> ce_start e < ce_end e \<and> ce_start e \<noteq> 0 \<and> ce_end e \<noteq> 0
     \<and> (ce_attendees e \<noteq> [] \<or> participantKey U (ce_organizer e) \<noteq> [])"

lemma cloneParticipant_idem [simp]: "cloneParticipant (cloneParticipant p) = cloneParticipant p"
  by (simp add: cloneParticipant_def)

lemma cloneParticipants_idem [simp]: "cloneParticipants (cloneParticipants ps) = cloneParticipants ps"
  by (simp add: cloneParticipants_def)

lemma cloneEvent_idem [simp, clone_simps]: "cloneEvent (cloneEvent e) = cloneEvent e"
  by (simp add: cloneEvent_def)

lemma cloneEvent_fields [simp]:
  "ce_id (cloneEvent e) = ce_id e" "ce_title (cloneEvent e) = ce_title e" "ce_start (cloneEvent e) = ce_start e"
  "ce_end (cloneEvent e) = ce_end e" "ce_status (cloneEvent e) = ce_status e"
  "ce_attendees (cloneEvent e) = cloneParticipants (ce_attendees e)" "ce_organizer (cloneEvent e) = cloneParticipant (ce_organizer e)"
  by (simp_all add: cloneEvent_def)

lemma clone_fixed: "cloneEvent e = e \<Longrightarrow> cloneParticipants (ce_attendees e) = ce_attendees e \<and> cloneParticipant (ce_organizer e) = ce_organizer e"
  by (metis cloneEvent_fields(6,7))

lemma event_prefix_ink: "list_all ink_char event_prefix"
  by (simp add: ink_char_def byte_def is_space_def)

lemma normal_event_ok:
  assumes "validateCreate U (normalizeEvent e) = None" and "i \<noteq> []" and "trim_space i = i"
  shows "event_ok U i (cloneEvent ((normalizeEvent e)\<lparr>ce_id := i\<rparr>))"
  using assms
  by (auto simp: event_ok_def validateCreate_def validateTimeRange_def normalizeEvent_def time_is_zero_def cloneParticipants_def
      split: option.splits if_splits)

lemma event_insert_puts:
  assumes ok: "keyed_ok (event_ok U) s" and r: "event_insert U e s = (Inr v, s')"
  shows "\<exists>k. int64_range k \<and> s' = (ks_put (ce_id v) v s)\<lparr>ks_next := k\<rparr> \<and> event_ok U (ce_id v) v
    \<and> (\<exists>i. v = cloneEvent ((normalizeEvent e)\<lparr>ce_id := i\<rparr>)) \<and> (ce_id (normalizeEvent e) = [] \<or> ce_id v = ce_id (normalizeEvent e))"
proof -
  define t where "t = ks_ensure s"
  have inv: "int64_range (ks_next s)" using ok by (simp add: keyed_ok_def keyed_inv_def)
  have t: "t = s\<lparr>ks_next := ks_next t\<rparr>" "int64_range (ks_next t)"
    using ensure_next [of s] keyed_next_range(1) [OF inv] by (simp_all add: t_def)
  have val: "validateCreate U (normalizeEvent e) = None" using r by (auto simp: event_insert_def Let_def split: option.splits)
  obtain i t1 where it: "(if ce_id (normalizeEvent e) = [] then ks_next_id event_prefix t else (ce_id (normalizeEvent e), t)) = (i, t1)" by fastforce
  have i: "i \<noteq> []" "trim_space i = i" "ce_id (normalizeEvent e) = [] \<or> i = ce_id (normalizeEvent e)"
    and t1: "t1 = s\<lparr>ks_next := ks_next t1\<rparr>" "int64_range (ks_next t1)"
  proof -
    show "i \<noteq> []" "trim_space i = i" "ce_id (normalizeEvent e) = [] \<or> i = ce_id (normalizeEvent e)"
      using it trim_next_id [OF event_prefix_ink, of t] by (auto simp: normalizeEvent_def split: if_splits)
    have "t1 = t\<lparr>ks_next := ks_next t1\<rparr>"
      using it next_id_next [of event_prefix t] by (cases "ce_id (normalizeEvent e) = []") (simp, simp)
    then show "t1 = s\<lparr>ks_next := ks_next t1\<rparr>" using t(1) by (metis keyed.surjective keyed.update_convs(3))
    show "int64_range (ks_next t1)" using it keyed_next_id_range [of event_prefix t] t(2) by (auto split: if_splits)
  qed
  have v: "v = cloneEvent ((normalizeEvent e)\<lparr>ce_id := i\<rparr>)" and s': "s' = ks_bump event_prefix i (ks_put i v t1)"
    using r val it by (auto simp: event_insert_def Let_def t_def split: if_splits)
  have "s' = (ks_put i v s)\<lparr>ks_next := ks_next s'\<rparr>"
    using s' t1(1) bump_next [of event_prefix i "ks_put i v t1"] by (metis put_next keyed.update_convs(3) keyed.surjective)
  moreover have "int64_range (ks_next s')" unfolding s' by (rule keyed_next_range(2)) (use t1(2) in simp)
  moreover have "ce_id v = i" by (simp add: v)
  ultimately show ?thesis using normal_event_ok [OF val i(1,2)] i(3) v by (intro exI [of _ "ks_next s'"]) auto
qed

lemma event_lookup_ok:
  assumes ok: "keyed_ok (event_ok U) s" and l: "event_lookup missing rid title0 s = Inr (i, e)"
  shows "map_of (ks_items s) i = Some e \<and> event_ok U i e"
proof -
  obtain e0 where e0: "map_of (ks_items s) i = Some e0" "e = cloneEvent e0"
    using l by (auto simp: event_lookup_def Let_def split: if_splits option.splits dest: find_live)
  with keyed_okD [OF ok, of i e0] show ?thesis by (simp add: event_ok_def)
qed

text \<open>Writing back an existing event is a put.\<close>

lemma event_rewrite_change:
  assumes ok: "keyed_ok (event_ok U) s" and e: "map_of (ks_items s) i = Some e" and v: "event_ok U i v"
  shows "keyed_change (event_ok U) s (s\<lparr>ks_items := AList.update i v (ks_items s)\<rparr>)"
proof -
  have "(ks_put i v s)\<lparr>ks_next := ks_next s\<rparr> = s\<lparr>ks_items := AList.update i v (ks_items s)\<rparr>" using e by (simp add: ks_put_def)
  moreover have "int64_range (ks_next s)" using ok by (simp add: keyed_ok_def keyed_inv_def)
  ultimately show ?thesis using keyed_change.put [where ok = "event_ok U" and i = i and v = v and n = "ks_next s" and s = s] v by simp
qed

lemma Reschedule_changes:
  assumes ok: "keyed_ok (event_ok U) s" and r: "RescheduleEvent ctxerr req (Some s) = (Some s', Inr (old, new))"
  shows "\<exists>i. map_of (ks_items s) i = Some old \<and> event_ok U i new \<and> s' = s\<lparr>ks_items := AList.update i new (ks_items s)\<rparr>
    \<and> ce_start new = rq_start req \<and> ce_end new = rq_end req \<and> ce_status new = ce_status old \<and> ce_title new = ce_title old"
proof -
  obtain i e where l: "lookupLocked (rq_id req) (rq_title req) s = Inr (i, e)" and v: "validateTimeRange (rq_start req) (rq_end req) = None"
    and n: "old = cloneEvent e"
      "new = cloneEvent (e\<lparr>ce_start := rq_start req, ce_end := rq_end req,
          ce_timezone := (if trim_space (rq_timezone req) = [] then ce_timezone e else trim_space (rq_timezone req)),
          ce_metadata := mergeMetadata (ce_metadata e) (rq_metadata req)\<rparr>)"
      "s' = s\<lparr>ks_items := AList.update i new (ks_items s)\<rparr>"
    using r by (auto simp: RescheduleEvent_def cal_guard_def Let_def split: option.splits sum.splits prod.splits)
  from event_lookup_ok [OF ok l [unfolded lookupLocked_def]] v n show ?thesis
    by (intro exI [of _ i]) (auto simp: event_ok_def validateTimeRange_def time_is_zero_def dest!: clone_fixed split: if_splits)
qed

lemma Cancel_changes:
  assumes ok: "keyed_ok (event_ok U) s" and r: "CancelEvent ctxerr req (Some s) = (Some s', Inr (old, new))"
  shows "\<exists>i. map_of (ks_items s) i = Some old \<and> event_ok U i new \<and> s' = s\<lparr>ks_items := AList.update i new (ks_items s)\<rparr>
    \<and> ce_status new = StatusCancelled \<and> ce_start new = ce_start old \<and> ce_end new = ce_end old \<and> ce_title new = ce_title old"
proof -
  obtain i e md where l: "lookupLocked (xq_id req) (xq_title req) s = Inr (i, e)"
    and n: "old = cloneEvent e" "new = cloneEvent (e\<lparr>ce_status := StatusCancelled, ce_metadata := md\<rparr>)"
      "s' = s\<lparr>ks_items := AList.update i new (ks_items s)\<rparr>"
    using r by (auto simp: CancelEvent_def cal_guard_def Let_def split: option.splits sum.splits prod.splits)
  from event_lookup_ok [OF ok l [unfolded lookupLocked_def]] n show ?thesis
    by (intro exI [of _ i]) (auto simp: event_ok_def dest!: clone_fixed)
qed

inductive calendar_step :: "unicode \<Rightarrow> cal_event keyed \<Rightarrow> cal_event keyed \<Rightarrow> bool" for U where
  create: "CreateEvent U ctxerr e (Some s) = (Some s', r) \<Longrightarrow> calendar_step U s s'"
| reschedule: "RescheduleEvent ctxerr rreq (Some s) = (Some s', r2) \<Longrightarrow> calendar_step U s s'"
| cancel: "CancelEvent ctxerr xreq (Some s) = (Some s', r2) \<Longrightarrow> calendar_step U s s'"

lemma failed_move_keeps:
  "RescheduleEvent ctxerr rreq (Some s) = (Some s', Inl x) \<Longrightarrow> s' = s"
  "CancelEvent ctxerr xreq (Some s) = (Some s', Inl x) \<Longrightarrow> s' = s"
  by (auto simp: RescheduleEvent_def CancelEvent_def cal_guard_def Let_def split: option.splits sum.splits prod.splits)

lemma event_insert_failed: "event_insert U e s = (Inl x, s') \<Longrightarrow> s' = ks_ensure s"
  by (auto simp: event_insert_def Let_def split: option.splits prod.splits)

interpretation calendar: keyed_service "calendar_step U" "event_ok U"
proof
  fix s t :: "cal_event keyed"
  assume st: "calendar_step U s t" and ok: "keyed_ok (event_ok U) s"
  have inv: "keyed_inv s" using ok by (simp add: keyed_ok_def)
  note same = keyed_change_same [OF inv, of "event_ok U"]
  from st show "keyed_change (event_ok U) s t"
  proof cases
    case (create ctxerr e r)
    show ?thesis
    proof (cases "ctxerr")
      case None
      with create have ins: "event_insert U e s = (r, t)" by (auto simp: CreateEvent_def cal_guard_def split: prod.splits)
      show ?thesis
      proof (cases r)
        case (Inl x)
        with ins event_insert_failed keyed_change_ensure [OF inv] show ?thesis by blast
      next
        case (Inr v)
        obtain k where "int64_range k" "t = (ks_put (ce_id v) v s)\<lparr>ks_next := k\<rparr>" "event_ok U (ce_id v) v"
          using event_insert_puts [OF ok ins [unfolded Inr]] by blast
        then show ?thesis using keyed_change.put by metis
      qed
    next
      case (Some x)
      with create same show ?thesis by (simp add: CreateEvent_def cal_guard_def)
    qed
  next
    case (reschedule ctxerr rreq r2)
    show ?thesis
    proof (cases r2)
      case (Inr p)
      then show ?thesis using reschedule Reschedule_changes [OF ok] event_rewrite_change [OF ok] by (metis surj_pair)
    qed (use reschedule failed_move_keeps(1) same in blast)
  next
    case (cancel ctxerr xreq r2)
    show ?thesis
    proof (cases r2)
      case (Inr p)
      then show ?thesis using cancel Cancel_changes [OF ok] event_rewrite_change [OF ok] by (metis surj_pair)
    qed (use cancel failed_move_keeps(2) same in blast)
  qed
qed

section \<open>The properties\<close>

text \<open>
  Whatever events are created, rescheduled and cancelled, successfully or not, every event of the calendar is stored under
  its own trimmed id, has a title, a status, a start before its end and an organizer or attendee, and the listing order
  has each id once.
\<close>

theorem calendar_well_formed:
  assumes "(calendar_step U)\<^sup>*\<^sup>* new_keyed s" and "map_of (ks_items s) i = Some e"
  shows "ce_id e = i \<and> i \<noteq> [] \<and> trim_space i = i \<and> ce_title e \<noteq> [] \<and> ce_status e \<noteq> [] \<and> ce_start e < ce_end e
    \<and> (ce_attendees e \<noteq> [] \<or> participantKey U (ce_organizer e) \<noteq> []) \<and> distinct (ks_order s) \<and> i \<in> set (ks_order s)"
proof -
  have ok: "keyed_ok (event_ok U) s" by (rule calendar.new_reachable_ok [OF assms(1)])
  have "i \<in> set (ks_order s)" using ok assms(2) by (force simp: keyed_ok_def keyed_inv_def dest: map_of_SomeD)
  with keyed_okD [OF ok assms(2)] ok show ?thesis by (simp add: event_ok_def keyed_ok_def keyed_inv_def)
qed

text \<open>An event of one hour for one attendee.\<close>

definition sample_event :: cal_event where
  "sample_event = \<lparr>ce_id = ''e'', ce_title = ''t'', ce_summary = [], ce_description = [], ce_location = [],
     ce_organizer = \<lparr>pa_id = [], pa_name = [], pa_address = [], pa_role = []\<rparr>,
     ce_attendees = [\<lparr>pa_id = ''a'', pa_name = [], pa_address = [], pa_role = []\<rparr>], ce_start = 1, ce_end = 2, ce_timezone = [],
     ce_status = StatusScheduled, ce_tags = [], ce_metadata = []\<rparr>"

lemma sample_event_trims [simp]: "trim_space ''e'' = ''e''" "trim_space ''t'' = ''t''" "trim_space ''a'' = ''a''" "trim_space [] = []"
    "trim_space StatusScheduled = StatusScheduled"
  by (simp_all add: trim_ink_text ink_char_def byte_def is_space_def)

lemma sample_event_normal: "normalizeEvent sample_event = sample_event" "cloneEvent sample_event = sample_event"
    "cloneEvent (sample_event\<lparr>ce_id := ''e''\<rparr>) = sample_event"
  by (simp_all add: normalizeEvent_def cloneEvent_def sample_event_def cloneParticipant_def cloneParticipants_def cal_trimStrings_def
      CloneMetadata_def)

lemma sample_event_created:
  "\<exists>s'. CreateEvent U None sample_event (Some new_keyed) = (Some s', Inr sample_event) \<and> map_of (ks_items s') ''e'' = Some sample_event"
proof -
  have "validateCreate U sample_event = None"
    by (simp add: validateCreate_def validateTimeRange_def sample_event_def time_is_zero_def)
  moreover have "sample_event\<lparr>ce_id := ce_id sample_event\<rparr> = sample_event" and "ce_id sample_event = ''e''" by (simp_all add: sample_event_def)
  ultimately show ?thesis
    by (simp add: CreateEvent_def cal_guard_def event_insert_def sample_event_normal put_lookup Let_def)
qed

theorem calendar_well_formed_witness:
  "\<forall>U. \<exists>s. (calendar_step U)\<^sup>*\<^sup>* new_keyed s \<and> map_of (ks_items s) ''e'' = Some sample_event
     \<and> ce_start sample_event < ce_end sample_event \<and> ''e'' \<in> set (ks_order s)"
proof
  fix U
  obtain s where s: "CreateEvent U None sample_event (Some new_keyed) = (Some s, Inr sample_event)" "map_of (ks_items s) ''e'' = Some sample_event"
    using sample_event_created by blast
  then have r: "(calendar_step U)\<^sup>*\<^sup>* new_keyed s" by (blast intro: calendar_step.create)
  from calendar_well_formed [OF r s(2)] r s(2)
  show "\<exists>s. (calendar_step U)\<^sup>*\<^sup>* new_keyed s \<and> map_of (ks_items s) ''e'' = Some sample_event
     \<and> ce_start sample_event < ce_end sample_event \<and> ''e'' \<in> set (ks_order s)" by blast
qed

text \<open>
  A created event is what reading its id returns; rescheduling replaces the times and cancelling the status of exactly the
  event they name, which both report as it was before.
\<close>

theorem create_read_event:
  assumes reach: "(calendar_step U)\<^sup>*\<^sup>* new_keyed s" and c: "CreateEvent U ctxerr e (Some s) = (Some s', Inr v)"
  shows "ReadEvent None (ce_id v) title0 (Some s') = Inr v"
proof -
  have ok: "keyed_ok (event_ok U) s" by (rule calendar.new_reachable_ok [OF reach])
  have "event_insert U e s = (Inr v, s')" using c by (auto simp: CreateEvent_def cal_guard_def split: option.splits prod.splits)
  from event_insert_puts [OF ok this] show ?thesis
    by (auto simp: ReadEvent_def cal_guard_def event_lookup_def put_lookup event_ok_def Let_def)
qed

theorem reschedule_changes_one:
  assumes reach: "(calendar_step U)\<^sup>*\<^sup>* new_keyed s" and r: "RescheduleEvent ctxerr req (Some s) = (Some s', Inr (old, new))"
  shows "map_of (ks_items s) (ce_id new) = Some old \<and> map_of (ks_items s') = (map_of (ks_items s))(ce_id new \<mapsto> new)
    \<and> ce_start new = rq_start req \<and> ce_end new = rq_end req \<and> ce_status new = ce_status old"
  using Reschedule_changes [OF calendar.new_reachable_ok [OF reach] r] by (auto simp: event_ok_def update_conv')

theorem cancel_changes_one:
  assumes reach: "(calendar_step U)\<^sup>*\<^sup>* new_keyed s" and r: "CancelEvent ctxerr req (Some s) = (Some s', Inr (old, new))"
  shows "map_of (ks_items s) (ce_id new) = Some old \<and> map_of (ks_items s') = (map_of (ks_items s))(ce_id new \<mapsto> new)
    \<and> ce_status new = StatusCancelled \<and> ce_start new = ce_start old \<and> ce_end new = ce_end old"
  using Cancel_changes [OF calendar.new_reachable_ok [OF reach] r] by (auto simp: event_ok_def update_conv')

text \<open>
  \<open>CreateEvent\<close> with the id of an existing event replaces it without an error: a cancelled event comes back as scheduled.
\<close>

theorem create_replaces_cancelled:
  "CreateEvent U None sample_event (Some (ks_put ''e'' (sample_event\<lparr>ce_status := StatusCancelled\<rparr>) new_keyed)) =
     (Some (ks_put ''e'' sample_event (ks_put ''e'' (sample_event\<lparr>ce_status := StatusCancelled\<rparr>) new_keyed)), Inr sample_event)"
proof -
  have "validateCreate U sample_event = None"
    by (simp add: validateCreate_def validateTimeRange_def sample_event_def time_is_zero_def)
  moreover have "sample_event\<lparr>ce_id := ce_id sample_event\<rparr> = sample_event" and "ce_id sample_event = ''e''" by (simp_all add: sample_event_def)
  moreover have "scan_id event_prefix ''e'' = None" by (simp add: scan_id_def has_prefix_def)
  ultimately show ?thesis
    by (simp add: CreateEvent_def cal_guard_def event_insert_def sample_event_normal ks_bump_def Let_def) (simp add: ks_ensure_def new_keyed_def ks_put_def)
qed

section \<open>Search\<close>

lemma event_before_strict: "strict_weak event_before"
proof -
  let ?s = "\<lambda>x :: cal_event scored. - sd_score x" and ?b = "\<lambda>x :: cal_event scored. ce_start (sd_item x)"
  note order = strict_weak_lex [OF strict_weak_lex [OF strict_weak_lex_str [OF strict_weak_index, of "\<lambda>x. ce_title (sd_item x)"], of ?b], of ?s]
  have "event_before = (\<lambda>a b. if ?s a \<noteq> ?s b then ?s a < ?s b else if ?b a \<noteq> ?b b then ?b a < ?b b
      else if ce_title (sd_item a) \<noteq> ce_title (sd_item b) then str_less (ce_title (sd_item a)) (ce_title (sd_item b)) else sd_index a < sd_index b)"
    by (intro ext) (simp add: event_before_def)
  with order show ?thesis by simp
qed

interpretation event_rank: ranking event_before
  by unfold_locales (rule event_before_strict)

text \<open>A search returns the best events first, and only events that overlap a proper window.\<close>

theorem event_search_best:
  assumes "SearchEvents U None limit query ws we (Some s) = Inr out"
  shows "\<exists>kept. out = map sd_item kept \<and> best_first event_before limit (event_candidates U (map cloneEvent (ks_listing s)) query ws we) kept
    \<and> list_all (\<lambda>e. (ws = 0 \<or> ws < ce_end e) \<and> (we = 0 \<or> ce_start e < we)) out"
proof -
  let ?c = "event_candidates U (map cloneEvent (ks_listing s)) query ws we" and ?k = "rank_limit event_before limit (event_candidates U (map cloneEvent (ks_listing s)) query ws we)"
  have o: "out = map sd_item ?k"
    using assms by (auto simp: SearchEvents_def cal_guard_def event_Select_def rank_limit_def event_candidates_def score_items_def Let_def)
  have b: "best_first event_before limit ?c ?k" by (rule event_rank.rank_limit_best)
  then have "set ?k \<subseteq> set ?c" unfolding best_first_def by (metis mset_subset_eq_add_left set_mset_mono set_mset_mset)
  moreover have "(ws = 0 \<or> ws < ce_end (sd_item x)) \<and> (we = 0 \<or> ce_start (sd_item x) < we)" if "x \<in> set ?c" for x
    using that unfolding event_candidates_def Let_def set_score_items
    by (auto simp: matchesWindow_def time_is_zero_def split: if_splits)
  ultimately show ?thesis using o b by (auto simp: list_all_iff)
qed

end
