(* ===== verification/Messaging.thy ===== *)
theory Messaging
  imports Calendar "HOL-Library.Sublist"
begin

text \<open>
  Package \<open>messaging\<close> (\<open>messaging/messaging.go\<close>): threads, the in-memory store with search, read and send, filters, and the
  ranking of search results. Participants and their copies are those of the calendar package, which the source repeats.
  The clock is an argument; a send reads it twice.
\<close>

section \<open>Threads\<close>

abbreviation DirectionInbound :: string where "DirectionInbound \<equiv> ''inbound''"
abbreviation DirectionOutbound :: string where "DirectionOutbound \<equiv> ''outbound''"

record mail =
  ml_id :: string
  ml_thread :: string
  ml_subject :: string
  ml_summary :: string
  ml_body :: string
  ml_direction :: string
  ml_sender :: participant
  ml_recipients :: "participant list"
  ml_sent :: gotime
  ml_metadata :: metadata

record thread =
  th_id :: string
  th_subject :: string
  th_summary :: string
  th_snippet :: string
  th_participants :: "participant list"
  th_tags :: "string list"
  th_last :: gotime
  th_messages :: "mail list"
  th_metadata :: metadata

definition cloneMail :: "mail \<Rightarrow> mail" where
  "cloneMail m =
     m\<lparr>ml_subject := trim_space (ml_subject m), ml_summary := trim_space (ml_summary m), ml_body := trim_space (ml_body m),
       ml_sender := cloneParticipant (ml_sender m), ml_recipients := cloneParticipants (ml_recipients m),
       ml_metadata := CloneMetadata (ml_metadata m)\<rparr>"

definition cloneMails :: "mail list \<Rightarrow> mail list" where
  "cloneMails ms = map cloneMail ms"

definition cloneThread :: "thread \<Rightarrow> thread" where
  "cloneThread t =
     t\<lparr>th_participants := cloneParticipants (th_participants t), th_messages := cloneMails (th_messages t),
       th_metadata := CloneMetadata (th_metadata t)\<rparr>"

text \<open>The time of a thread that has none is that of its last message.\<close>

definition last_sent :: "gotime \<Rightarrow> mail list \<Rightarrow> gotime" where
  "last_sent t ms = (if time_is_zero t \<and> ms \<noteq> [] then ml_sent (last ms) else t)"

definition normalizeThread :: "thread \<Rightarrow> thread" where
  "normalizeThread t =
     (let ms = cloneMails (th_messages t)
      in \<lparr>th_id = trim_space (th_id t), th_subject = trim_space (th_subject t), th_summary = trim_space (th_summary t),
          th_snippet = trim_space (th_snippet t), th_participants = cloneParticipants (th_participants t),
          th_tags = cal_trimStrings (th_tags t), th_last = last_sent (th_last t) ms, th_messages = ms,
          th_metadata = CloneMetadata (th_metadata t)\<rparr>)"

definition truncateSnippet :: "string \<Rightarrow> string" where
  "truncateSnippet txt0 =
     (let t = trim_space txt0; rs = utf8_chunks t
      in if t = [] then [] else if length rs \<le> 160 then t else trim_space (string_of_runes (take 160 rs)) @ ''...'')"

definition messageSnippet :: "mail \<Rightarrow> string" where
  "messageSnippet m = (if ml_summary m \<noteq> [] then truncateSnippet (ml_summary m) else [])"

text \<open>The existing participants stay; an extra one is added unless its key is empty or was seen.\<close>

fun add_participants :: "unicode \<Rightarrow> string list \<Rightarrow> participant list \<Rightarrow> participant list" where
  "add_participants U seen [] = []"
| "add_participants U seen (p # ps) =
     (let k = participantKey U p
      in if k = [] \<or> k \<in> set seen then add_participants U seen ps
         else cloneParticipant p # add_participants U (k # seen) ps)"

definition mergeParticipants :: "unicode \<Rightarrow> participant list \<Rightarrow> participant list \<Rightarrow> participant list" where
  "mergeParticipants U old extra =
     (let out = cloneParticipants old in out @ add_participants U (map (participantKey U) out) extra)"

definition firstNonEmpty2 :: "string \<Rightarrow> string \<Rightarrow> string" where
  "firstNonEmpty2 a b = (if trim_space a \<noteq> [] then trim_space a else trim_space b)"

section \<open>Filters\<close>

record search_filter =
  sf_mailboxes :: "string list"
  sf_from :: "string list"
  sf_since :: gotime
  sf_until :: gotime
  sf_unread :: "bool option"

definition mail_metadataStrings :: "metadata \<Rightarrow> string \<Rightarrow> string list" where
  "mail_metadataStrings m k =
     (case map_of m k of
        Some (VStrings vs) \<Rightarrow> cal_trimStrings vs
      | Some (VList vs) \<Rightarrow> cal_trimStrings (concat (map (\<lambda>v. case v of VString s \<Rightarrow> [s] | _ \<Rightarrow> []) vs))
      | _ \<Rightarrow> [])"

definition mail_metadataBool :: "metadata \<Rightarrow> string \<Rightarrow> bool option" where
  "mail_metadataBool m k = (case map_of m k of Some (VBool b) \<Rightarrow> Some b | _ \<Rightarrow> None)"

text \<open>Distinct values up to case, in order; a value that is blank is dropped.\<close>

fun distinct_fold :: "unicode \<Rightarrow> string list \<Rightarrow> string list \<Rightarrow> string list" where
  "distinct_fold U seen [] = []"
| "distinct_fold U seen (v0 # vs) =
     (let v = trim_space v0; k = to_lower U v
      in if v = [] \<or> k \<in> set seen then distinct_fold U seen vs else v # distinct_fold U (k # seen) vs)"

definition mailboxValues :: "unicode \<Rightarrow> thread \<Rightarrow> string list" where
  "mailboxValues U t = distinct_fold U [] (th_tags t @ mail_metadataStrings (th_metadata t) ''mailboxes'')"

definition senderValues :: "unicode \<Rightarrow> thread \<Rightarrow> string list" where
  "senderValues U t =
     distinct_fold U []
       (concat (map (\<lambda>m. [pa_name (ml_sender m), pa_address (ml_sender m)]) (th_messages t))
        @ concat (map (\<lambda>p. [pa_name p, pa_address p])
            (filter (\<lambda>p. pa_role p = [] \<or> equal_fold U (pa_role p) ''from'') (th_participants t))))"

definition any_fold :: "unicode \<Rightarrow> string list \<Rightarrow> string list \<Rightarrow> bool" where
  "any_fold U wanted values =
     list_ex (\<lambda>w. trim_space w \<noteq> [] \<and> list_ex (\<lambda>v. equal_fold U v (trim_space w)) values) wanted"

definition matchesMailboxes :: "unicode \<Rightarrow> search_filter \<Rightarrow> thread \<Rightarrow> bool" where
  "matchesMailboxes U f t =
     (if sf_mailboxes f = [] then True
      else let vs = mailboxValues U t in if vs = [] then False else any_fold U (sf_mailboxes f) vs)"

definition matchesSenders :: "unicode \<Rightarrow> search_filter \<Rightarrow> thread \<Rightarrow> bool" where
  "matchesSenders U f t =
     (if sf_from f = [] then True
      else let vs = senderValues U t in if vs = [] then False else any_fold U (sf_from f) vs)"

definition filter_matchesWindow :: "search_filter \<Rightarrow> gotime \<Rightarrow> bool" where
  "filter_matchesWindow f lst =
     (if time_is_zero (sf_since f) \<and> time_is_zero (sf_until f) then True
      else if time_is_zero lst then False
      else if \<not> time_is_zero (sf_since f) \<and> lst < sf_since f then False
      else if \<not> time_is_zero (sf_until f) \<and> sf_until f < lst then False
      else True)"

definition matchesUnread :: "search_filter \<Rightarrow> thread \<Rightarrow> bool" where
  "matchesUnread f t =
     (case sf_unread f of
        None \<Rightarrow> True
      | Some b \<Rightarrow> (case mail_metadataBool (th_metadata t) ''unread'' of None \<Rightarrow> False | Some v \<Rightarrow> v = b))"

definition matchesThread :: "unicode \<Rightarrow> search_filter \<Rightarrow> thread \<Rightarrow> bool" where
  "matchesThread U f t \<longleftrightarrow>
     matchesMailboxes U f t \<and> matchesSenders U f t \<and> filter_matchesWindow f (th_last t) \<and> matchesUnread f t"

section \<open>Search\<close>

definition person_hit :: "unicode \<Rightarrow> participant \<Rightarrow> string \<Rightarrow> bool" where
  "person_hit U p q \<longleftrightarrow> contains (to_lower U (pa_name p)) q \<or> contains (to_lower U (pa_address p)) q"

definition scoreThread :: "unicode \<Rightarrow> thread \<Rightarrow> string \<Rightarrow> string list \<Rightarrow> int" where
  "scoreThread U t query tokens =
     (if query = [] then 1
      else let subject = to_lower U (th_subject t); summary = to_lower U (th_summary t); snippet = to_lower U (th_snippet t)
           in hit subject query 8 + hit summary query 5 + hit snippet query 3
              + sum_list (map (\<lambda>p. if person_hit U p query then 4 else 0) (th_participants t))
              + sum_list (map (\<lambda>tag. hit (to_lower U tag) query 3) (th_tags t))
              + sum_list (map (\<lambda>k. if k = [] then 0
                   else (if contains subject k then 4 else if contains summary k then 3 else if contains snippet k then 2 else 0)
                      + (if list_ex (\<lambda>p. person_hit U p k) (th_participants t) then 2 else 0)) tokens))"

definition thread_before :: "thread scored \<Rightarrow> thread scored \<Rightarrow> bool" where
  "thread_before l r =
     (if sd_score l \<noteq> sd_score r then sd_score r < sd_score l
      else if th_last (sd_item l) \<noteq> th_last (sd_item r) then th_last (sd_item r) < th_last (sd_item l)
      else if th_subject (sd_item l) \<noteq> th_subject (sd_item r) then str_less (th_subject (sd_item l)) (th_subject (sd_item r))
      else sd_index l < sd_index r)"

definition thread_candidates :: "unicode \<Rightarrow> thread list \<Rightarrow> string \<Rightarrow> thread scored list" where
  "thread_candidates U ts query =
     (let q = to_lower U (trim_space query); tokens = plain_tokens U q
      in score_items cloneThread (\<lambda>t. scoreThread U t q tokens) (\<lambda>t sc. 0 < sc \<or> q = []) ts)"

definition thread_Select :: "unicode \<Rightarrow> int \<Rightarrow> thread list \<Rightarrow> string \<Rightarrow> thread list" where
  "thread_Select U mx ts query =
     (if ts = [] then [] else map sd_item (rank_limit thread_before mx (thread_candidates U ts query)))"

section \<open>The store\<close>

abbreviation thread_prefix :: string where "thread_prefix \<equiv> ''thread-''"

definition thread_nil_store :: err where
  "thread_nil_store = EText ''messaging: nil ThreadStore''"

definition thread_guard :: "err option \<Rightarrow> thread keyed option \<Rightarrow> err + thread keyed" where
  "thread_guard ctxerr st =
     (case ctxerr of Some e \<Rightarrow> Inl e | None \<Rightarrow> (case st of None \<Rightarrow> Inl thread_nil_store | Some s \<Rightarrow> Inr s))"

definition insertThread :: "thread \<Rightarrow> thread keyed \<Rightarrow> thread \<times> thread keyed" where
  "insertThread t0 s0 =
     (let s = ks_ensure s0; t = normalizeThread t0
      in case (if th_id t = [] then ks_next_id thread_prefix s else (th_id t, s)) of
           (i, s1) \<Rightarrow>
             (let item = t\<lparr>th_id := i, th_last := last_sent (th_last t) (th_messages t)\<rparr>
              in (cloneThread item, ks_bump thread_prefix i (ks_put i (cloneThread item) s1))))"

fun thread_seed :: "thread list \<Rightarrow> thread keyed \<Rightarrow> thread keyed" where
  "thread_seed [] s = s"
| "thread_seed (t # ts) s = thread_seed ts (snd (insertThread t s))"

definition NewThreadStore :: "thread list \<Rightarrow> thread keyed" where
  "NewThreadStore ts = thread_seed ts new_keyed"

definition SearchThreads :: "unicode \<Rightarrow> err option \<Rightarrow> int \<Rightarrow> search_filter \<Rightarrow> string \<Rightarrow> thread keyed option \<Rightarrow> err + thread list" where
  "SearchThreads U ctxerr limit f query st =
     (case thread_guard ctxerr st of
        Inl e \<Rightarrow> Inl e
      | Inr s \<Rightarrow> Inr (thread_Select U limit (filter (matchesThread U f) (map cloneThread (ks_listing s))) query))"

definition ReadThread :: "err option \<Rightarrow> string \<Rightarrow> string \<Rightarrow> thread keyed option \<Rightarrow> err + thread" where
  "ReadThread ctxerr rid subject0 st =
     (case thread_guard ctxerr st of
        Inl e \<Rightarrow> Inl e
      | Inr s \<Rightarrow>
          (let i = trim_space rid; t = trim_space subject0
           in if i \<noteq> [] then
                (case map_of (ks_items s) i of None \<Rightarrow> Inl (EText (''thread not found: '' @ i)) | Some x \<Rightarrow> Inr (cloneThread x))
              else if t = [] then Inl (EText ''messaging: read requires thread_id or subject'')
              else (case ks_find (\<lambda>x. th_subject x = t) s of
                      None \<Rightarrow> Inl (EText (''thread not found: '' @ t)) | Some (_, x) \<Rightarrow> Inr (cloneThread x))))"

record send_request =
  sq_thread :: string
  sq_subject :: string
  sq_summary :: string
  sq_body :: string
  sq_recipients :: "participant list"
  sq_metadata :: metadata

record send_result =
  sr_thread :: thread
  sr_message :: mail
  sr_created :: bool

definition new_thread :: "gotime \<Rightarrow> string \<Rightarrow> string \<Rightarrow> send_request \<Rightarrow> thread" where
  "new_thread now i subject req =
     \<lparr>th_id = i, th_subject = subject, th_summary = trim_space (sq_summary req), th_snippet = [],
      th_participants = cloneParticipants (sq_recipients req), th_tags = [], th_last = now, th_messages = [],
      th_metadata = CloneMetadata (sq_metadata req)\<rparr>"

definition nextMessageID :: "thread \<Rightarrow> string" where
  "nextMessageID t = th_id t @ ''-msg-'' @ show_int (int (length (th_messages t)) + 1)"

definition zero_participant :: participant where
  "zero_participant = \<lparr>pa_id = [], pa_name = [], pa_address = [], pa_role = []\<rparr>"

definition outbound :: "gotime \<Rightarrow> string \<Rightarrow> thread \<Rightarrow> send_request \<Rightarrow> mail" where
  "outbound now i t req =
     \<lparr>ml_id = nextMessageID t, ml_thread = i, ml_subject = firstNonEmpty2 (trim_space (sq_subject req)) (th_subject t),
      ml_summary = trim_space (sq_summary req), ml_body = trim_space (sq_body req), ml_direction = DirectionOutbound,
      ml_sender = zero_participant, ml_recipients = cloneParticipants (sq_recipients req), ml_sent = now,
      ml_metadata = CloneMetadata (sq_metadata req)\<rparr>"

definition append_mail :: "unicode \<Rightarrow> gotime \<Rightarrow> mail \<Rightarrow> thread \<Rightarrow> thread" where
  "append_mail U now m t =
     t\<lparr>th_subject := (if th_subject t = [] then ml_subject m else th_subject t),
       th_summary := (if th_summary t = [] \<and> ml_summary m \<noteq> [] then ml_summary m else th_summary t),
       th_messages := th_messages t @ [m], th_last := now,
       th_snippet := (if th_snippet t = [] then messageSnippet m else th_snippet t),
       th_participants := mergeParticipants U (th_participants t) (ml_recipients m)\<rparr>"

text \<open>
  A new thread's id is put into the order before the message is built. \<open>now1\<close> and \<open>now2\<close> are the two readings of the
  clock.
\<close>

definition SendMessage ::
  "unicode \<Rightarrow> err option \<Rightarrow> gotime \<Rightarrow> gotime \<Rightarrow> send_request \<Rightarrow> thread keyed option \<Rightarrow> thread keyed option \<times> (err + send_result)" where
  "SendMessage U ctxerr now1 now2 req st =
     (case thread_guard ctxerr st of
        Inl e \<Rightarrow> (st, Inl e)
      | Inr s0 \<Rightarrow>
          if trim_space (sq_body req) = [] then (st, Inl (EText ''messaging: body is required''))
          else
            (let s = ks_ensure s0; i0 = trim_space (sq_thread req); subject = trim_space (sq_subject req);
                 send = (\<lambda>i t created s1.
                   (let m = outbound now2 i t req
                    in if ml_subject m = [] then (Some s1, Inl (EText ''messaging: subject is required when creating a thread''))
                       else (let t' = append_mail U now2 m t
                             in (Some (ks_bump thread_prefix i (s1\<lparr>ks_items := AList.update i (cloneThread t') (ks_items s1)\<rparr>)),
                                 Inr \<lparr>sr_thread = cloneThread t', sr_message = cloneMail m, sr_created = created\<rparr>))))
             in if i0 \<noteq> [] then
                  (case map_of (ks_items s) i0 of
                     None \<Rightarrow> (Some s, Inl (EText (''thread not found: '' @ i0)))
                   | Some x \<Rightarrow> send i0 (cloneThread x) False s)
                else if subject = [] then (Some s, Inl (EText ''messaging: subject is required when creating a thread''))
                else (case ks_next_id thread_prefix s of
                        (i, s1) \<Rightarrow> send i (new_thread now1 i subject req) True (s1\<lparr>ks_order := ks_order s1 @ [i]\<rparr>))))"

section \<open>Well-formed stores\<close>

definition thread_ok :: "string \<Rightarrow> thread \<Rightarrow> bool" where
  "thread_ok i t \<longleftrightarrow> th_id t = i \<and> i \<noteq> [] \<and> trim_space i = i \<and> cloneThread t = t"

lemma cloneMail_idem [simp, clone_simps]: "cloneMail (cloneMail m) = cloneMail m"
  by (simp add: cloneMail_def)

lemma cloneMails_idem [simp, clone_simps]: "cloneMails (cloneMails ms) = cloneMails ms"
  by (simp add: cloneMails_def)

lemma cloneThread_idem [simp, clone_simps]: "cloneThread (cloneThread t) = cloneThread t"
  by (simp add: cloneThread_def)

lemma cloneThread_fields [simp]:
  "th_id (cloneThread t) = th_id t" "th_messages (cloneThread t) = cloneMails (th_messages t)" "th_last (cloneThread t) = th_last t"
  "th_subject (cloneThread t) = th_subject t" "th_participants (cloneThread t) = cloneParticipants (th_participants t)"
  by (simp_all add: cloneThread_def)

lemma outbound_clone [simp]: "cloneMail (outbound now i t req) = outbound now i t req"
  by (simp add: cloneMail_def outbound_def firstNonEmpty2_def zero_participant_def cloneParticipant_def)

lemma thread_prefix_ink: "list_all ink_char thread_prefix"
  by (simp add: ink_char_def byte_def is_space_def)

text \<open>A successful send puts the thread it reports, which is the old one or a new one with the message at its end.\<close>

lemma SendMessage_puts:
  assumes ok: "keyed_ok thread_ok s" and small: "length (ks_items s) < 2 ^ 63"
    and r: "SendMessage U ctxerr now1 now2 req (Some s) = (Some s', Inr res)"
  shows "\<exists>k t. int64_range k \<and> s' = (ks_put (th_id (sr_thread res)) (sr_thread res) s)\<lparr>ks_next := k\<rparr>
    \<and> thread_ok (th_id (sr_thread res)) (sr_thread res) \<and> sr_message res = outbound now2 (th_id (sr_thread res)) t req
    \<and> sr_thread res = cloneThread (append_mail U now2 (sr_message res) t) \<and> th_id t = th_id (sr_thread res)
    \<and> (if sr_created res then map_of (ks_items s) (th_id t) = None \<and> th_messages t = [] else map_of (ks_items s) (th_id t) = Some t)"
proof -
  define z where "z = ks_ensure s"
  have inv: "int64_range (ks_next s)" using ok by (simp add: keyed_ok_def keyed_inv_def)
  have z: "z = s\<lparr>ks_next := ks_next z\<rparr>" "int64_range (ks_next z)" "ks_items z = ks_items s" "ks_order z = ks_order s"
    using ensure_next [of s] keyed_next_range(1) [OF inv] by (simp_all add: z_def)
  define item where "item i t = cloneThread (append_mail U now2 (outbound now2 i t req) t)" for i t
  have out: "th_id (item i t) = th_id t" for i t by (simp add: item_def append_mail_def)
  consider (old) i t where "map_of (ks_items s) i = Some t" "i = trim_space (sq_thread req)" "i \<noteq> []"
      "s' = ks_bump thread_prefix i (z\<lparr>ks_items := AList.update i (item i (cloneThread t)) (ks_items z)\<rparr>)"
      "res = \<lparr>sr_thread = item i (cloneThread t), sr_message = outbound now2 i (cloneThread t) req, sr_created = False\<rparr>"
    | (new) i z1 t where "ks_next_id thread_prefix z = (i, z1)" "t = new_thread now1 i (trim_space (sq_subject req)) req"
      "s' = ks_bump thread_prefix i (z1\<lparr>ks_order := ks_order z1 @ [i], ks_items := AList.update i (item i t) (ks_items z1)\<rparr>)"
      "res = \<lparr>sr_thread = item i t, sr_message = outbound now2 i t req, sr_created = True\<rparr>"
    using r by (auto simp: SendMessage_def thread_guard_def Let_def z_def item_def split: option.splits if_splits prod.splits)
  then show ?thesis
  proof cases
    case old
    have t: "thread_ok i t" using keyed_okD [OF ok old(1)] .
    then have c: "cloneThread t = t" and id: "th_id t = i" by (simp_all add: thread_ok_def)
    let ?w = "z\<lparr>ks_items := AList.update i (item i t) (ks_items z)\<rparr>"
    have "?w = (ks_put i (item i t) s)\<lparr>ks_next := ks_next z\<rparr>" by (subst (1 2) z(1)) (simp add: ks_put_def old(1))
    then have "s' = (ks_put i (item i t) s)\<lparr>ks_next := ks_next s'\<rparr>"
      using old(4) bump_next [of thread_prefix i ?w] by (simp add: c)
    moreover have "int64_range (ks_next s')" unfolding old(4) by (rule keyed_next_range(2)) (use z(2) in simp)
    ultimately show ?thesis using old(1,5) t id
      by (intro exI [of _ "ks_next s'"] exI [of _ t]) (simp add: c out, simp add: thread_ok_def item_def append_mail_def)
  next
    case new
    have i: "trim_space i = i" "i \<noteq> []" using trim_next_id [OF thread_prefix_ink, of z] new(1) by simp_all
    have fresh: "map_of (ks_items s) i = None"
      using ks_next_id_fresh [of z thread_prefix] z small new(1) by simp
    have z1: "z1 = z\<lparr>ks_next := ks_next z1\<rparr>" "int64_range (ks_next z1)"
      using next_id_next [of thread_prefix z] keyed_next_id_range [of thread_prefix z] new(1) by simp_all
    have z1': "ks_items z1 = ks_items s" "ks_order z1 = ks_order s"
      using new(1) z(3,4) keyed_frame(5,6) [of thread_prefix z] by simp_all
    let ?w = "z1\<lparr>ks_order := ks_order z1 @ [i], ks_items := AList.update i (item i t) (ks_items z1)\<rparr>"
    have "?w = (ks_put i (item i t) s)\<lparr>ks_next := ks_next z1\<rparr>"
      by (rule keyed.equality) (simp_all add: ks_put_def z1' fresh)
    then have "s' = (ks_put i (item i t) s)\<lparr>ks_next := ks_next s'\<rparr>"
      using new(3) bump_next [of thread_prefix i ?w] by simp
    moreover have "int64_range (ks_next s')" unfolding new(3) by (rule keyed_next_range(2)) (use z1(2) in simp)
    moreover have "th_id t = i" "th_messages t = []" by (simp_all add: new(2) new_thread_def)
    ultimately show ?thesis using new(4) i fresh
      by (intro exI [of _ "ks_next s'"] exI [of _ t]) (simp add: out, simp add: thread_ok_def item_def append_mail_def)
  qed
qed

text \<open>
  The service: sends on a store with fewer than \<open>2\<^sup>63\<close> threads. A send fails without touching the threads or puts one.
\<close>

inductive mail_step :: "unicode \<Rightarrow> thread keyed \<Rightarrow> thread keyed \<Rightarrow> bool" for U where
  send: "SendMessage U ctxerr now1 now2 req (Some s) = (Some s', r) \<Longrightarrow> length (ks_items s) < 2 ^ 63 \<Longrightarrow> mail_step U s s'"

lemma SendMessage_failed:
  assumes "SendMessage U ctxerr now1 now2 req (Some s) = (Some s', Inl e)"
  shows "s' = s \<or> s' = ks_ensure s"
  using assms
  by (auto simp: SendMessage_def thread_guard_def Let_def outbound_def new_thread_def firstNonEmpty2_def
      split: option.splits if_splits prod.splits)

text \<open>What a send makes of a thread: one message with the next number at the end.\<close>

definition sent_on :: "thread \<Rightarrow> thread \<Rightarrow> bool" where
  "sent_on t t' \<longleftrightarrow> th_id t' = th_id t \<and> (\<exists>m. th_messages t' = th_messages t @ [m] \<and> ml_id m = nextMessageID t \<and> ml_thread m = th_id t
     \<and> ml_direction m = DirectionOutbound \<and> ml_body m \<noteq> [])"

lemma SendMessage_body: "SendMessage U ctxerr now1 now2 req st = (st', Inr res) \<Longrightarrow> trim_space (sq_body req) \<noteq> []"
  by (auto simp: SendMessage_def split: sum.splits if_splits)

lemma mail_step_cases:
  assumes st: "mail_step U s s'" and ok: "keyed_ok thread_ok s"
  obtains (count) n where "int64_range n" "s' = s\<lparr>ks_next := n\<rparr>"
  | (reply) n t t' where "int64_range n" "s' = (ks_put (th_id t) t' s)\<lparr>ks_next := n\<rparr>" "thread_ok (th_id t) t'" "sent_on t t'"
      "map_of (ks_items s) (th_id t) = Some t"
  | (new) n t t' where "int64_range n" "s' = (ks_put (th_id t) t' s)\<lparr>ks_next := n\<rparr>" "thread_ok (th_id t) t'" "sent_on t t'"
      "map_of (ks_items s) (th_id t) = None" "th_messages t = []"
proof -
  have inv: "int64_range (ks_next s)" using ok by (simp add: keyed_ok_def keyed_inv_def)
  obtain ctxerr now1 now2 req r where send: "SendMessage U ctxerr now1 now2 req (Some s) = (Some s', r)" and small: "length (ks_items s) < 2 ^ 63"
    using st by (blast elim: mail_step.cases)
  show thesis
  proof (cases r)
    case (Inl e)
    from SendMessage_failed [OF send [unfolded Inl]] ensure_next [of s] keyed_next_range(1) [OF inv] inv
    show ?thesis by (metis count keyed_same)
  next
    case (Inr res)
    have body: "trim_space (sq_body req) \<noteq> []" by (rule SendMessage_body [OF send [unfolded Inr]])
    from SendMessage_puts [OF ok small send [unfolded Inr]] obtain k t where
      k: "int64_range k" "s' = (ks_put (th_id (sr_thread res)) (sr_thread res) s)\<lparr>ks_next := k\<rparr>"
      and tok: "thread_ok (th_id (sr_thread res)) (sr_thread res)" and m: "sr_message res = outbound now2 (th_id (sr_thread res)) t req"
      and th: "sr_thread res = cloneThread (append_mail U now2 (sr_message res) t)" and id: "th_id t = th_id (sr_thread res)"
      and c: "if sr_created res then map_of (ks_items s) (th_id t) = None \<and> th_messages t = [] else map_of (ks_items s) (th_id t) = Some t"
      by (elim exE conjE) (rule that; assumption)
    have cl: "cloneMails (th_messages t) = th_messages t"
      using c keyed_okD [OF ok, of "th_id t" t] by (cases "sr_created res") (auto simp: cloneMails_def thread_ok_def dest: arg_cong [where f = th_messages])
    have mm: "cloneMail (sr_message res) = sr_message res" by (subst (1 2) m) simp
    have "th_messages (cloneThread (append_mail U now2 (sr_message res) t)) = cloneMails (th_messages t) @ [cloneMail (sr_message res)]"
      by (simp add: append_mail_def cloneMails_def)
    then have "th_messages (sr_thread res) = th_messages t @ [sr_message res]" using th cl mm by simp
    then have "sent_on t (sr_thread res)" using m body id by (simp add: sent_on_def) (simp add: outbound_def)
    with k tok c id reply new show ?thesis by metis
  qed
qed

interpretation mailbox: keyed_service "mail_step U" thread_ok
proof
  fix s t :: "thread keyed"
  assume "mail_step U s t" and "keyed_ok thread_ok s"
  then show "keyed_change thread_ok s t"
    by (cases rule: mail_step_cases) (auto intro: keyed_change.intros)
qed

section \<open>The properties\<close>

text \<open>In a store filled by sends the messages of a thread are numbered from one.\<close>

definition message_number :: "string \<Rightarrow> nat \<Rightarrow> string" where
  "message_number i k = i @ ''-msg-'' @ show_int (int k + 1)"

definition sent_ok :: "string \<Rightarrow> thread \<Rightarrow> bool" where
  "sent_ok i t \<longleftrightarrow> thread_ok i t \<and> map ml_id (th_messages t) = map (message_number i) [0..<length (th_messages t)]
     \<and> list_all (\<lambda>m. ml_thread m = i \<and> ml_direction m = DirectionOutbound \<and> ml_body m \<noteq> []) (th_messages t)"

lemma sent_ok_weak: "keyed_ok sent_ok s \<Longrightarrow> keyed_ok thread_ok s"
  by (simp add: keyed_ok_def sent_ok_def)

lemma sent_on_numbered:
  assumes "sent_on t t'" and "thread_ok (th_id t) t'" and "th_messages t = [] \<or> sent_ok (th_id t) t"
  shows "sent_ok (th_id t) t'"
  using assms by (auto simp: sent_on_def sent_ok_def nextMessageID_def message_number_def)

interpretation sent_mail: keyed_service "mail_step U" sent_ok
proof
  fix s t :: "thread keyed"
  assume st: "mail_step U s t" and ok: "keyed_ok sent_ok s"
  from st sent_ok_weak [OF ok] show "keyed_change sent_ok s t"
  proof (cases rule: mail_step_cases)
    case (reply n x x')
    then show ?thesis using keyed_okD [OF ok] sent_on_numbered by (metis keyed_change.put)
  next
    case (new n x x')
    then show ?thesis using sent_on_numbered by (metis keyed_change.put)
  qed (auto intro: keyed_change.count)
qed

text \<open>
  In a mailbox filled by sends every message has its own id, stands in the thread it names, goes out, and has a body.
\<close>

theorem sent_messages_identified:
  assumes "(mail_step U)\<^sup>*\<^sup>* new_keyed s" and "map_of (ks_items s) i = Some t"
  shows "distinct (map ml_id (th_messages t))
    \<and> list_all (\<lambda>m. ml_thread m = i \<and> ml_direction m = DirectionOutbound \<and> ml_body m \<noteq> []) (th_messages t)"
proof -
  have "sent_ok i t" by (rule keyed_okD [OF sent_mail.new_reachable_ok [OF assms(1)] assms(2)])
  moreover have "inj (message_number i)" by (rule injI) (auto simp: message_number_def dest: show_int_inj)
  ultimately show ?thesis by (auto simp: sent_ok_def distinct_map inj_on_def)
qed

lemma mail_step_grows:
  assumes "mail_step U s s'" and ok: "keyed_ok thread_ok s" and t: "map_of (ks_items s) i = Some t"
  shows "\<exists>t'. map_of (ks_items s') i = Some t' \<and> prefix (th_messages t) (th_messages t')"
  using assms(1) ok
proof (cases rule: mail_step_cases)
  case (reply n x x')
  then show ?thesis using t by (cases "i = th_id x") (auto simp: put_lookup sent_on_def)
qed (use t in \<open>auto simp: put_lookup\<close>)

text \<open>Sends never remove a thread and only add messages at the end of one.\<close>

theorem messages_only_appended:
  assumes "(mail_step U)\<^sup>*\<^sup>* s s'" and "keyed_ok thread_ok s" and "map_of (ks_items s) i = Some t"
  shows "\<exists>t'. map_of (ks_items s') i = Some t' \<and> prefix (th_messages t) (th_messages t')"
  using assms(1)
proof (induction rule: rtranclp_induct)
  case base
  then show ?case using assms(3) by simp
next
  case (step y z)
  then obtain t1 where "map_of (ks_items y) i = Some t1" "prefix (th_messages t) (th_messages t1)" by blast
  with mail_step_grows [OF step(2) mailbox.reachable_ok [OF step(1) assms(2)]] show ?case by (meson prefix_order.order_trans)
qed

text \<open>Merging participants keeps those there are and adds each missing person once.\<close>

lemma add_participants_keys:
  assumes "list_all (\<lambda>p. cloneParticipant p = p) ps"
  shows "distinct (map (participantKey U) (add_participants U seen ps))
     \<and> set (map (participantKey U) (add_participants U seen ps)) \<inter> insert [] (set seen) = {}"
  using assms
proof (induction ps arbitrary: seen)
  case (Cons p ps)
  show ?case
  proof (cases "participantKey U p = [] \<or> participantKey U p \<in> set seen")
    case False
    then show ?thesis using Cons(1) [of "participantKey U p # seen"] Cons(2) by (auto simp: Let_def)
  qed (use Cons in \<open>auto simp: Let_def\<close>)
qed simp

theorem merged_participants_once:
  "\<exists>added. mergeParticipants U old (cloneParticipants extra) = cloneParticipants old @ added \<and> distinct (map (participantKey U) added)
     \<and> set (map (participantKey U) added) \<inter> set (map (participantKey U) (cloneParticipants old)) = {}"
proof -
  have "list_all (\<lambda>p. cloneParticipant p = p) (cloneParticipants extra)"
    by (simp add: cloneParticipants_def list_all_iff cloneParticipant_def)
  from add_participants_keys [OF this, of U "map (participantKey U) (cloneParticipants old)"]
  show ?thesis by (auto simp: mergeParticipants_def Let_def)
qed

section \<open>Search\<close>

lemma thread_before_strict: "strict_weak thread_before"
proof -
  let ?s = "\<lambda>x :: thread scored. - sd_score x" and ?b = "\<lambda>x :: thread scored. - th_last (sd_item x)"
  note order = strict_weak_lex [OF strict_weak_lex [OF strict_weak_lex_str [OF strict_weak_index, of "\<lambda>x. th_subject (sd_item x)"], of ?b], of ?s]
  have "thread_before = (\<lambda>a b. if ?s a \<noteq> ?s b then ?s a < ?s b else if ?b a \<noteq> ?b b then ?b a < ?b b
      else if th_subject (sd_item a) \<noteq> th_subject (sd_item b) then str_less (th_subject (sd_item a)) (th_subject (sd_item b)) else sd_index a < sd_index b)"
    by (intro ext) (simp add: thread_before_def)
  with order show ?thesis by simp
qed

interpretation thread_rank: ranking thread_before
  by unfold_locales (rule thread_before_strict)

text \<open>A search returns the best of the threads that pass every filter.\<close>

theorem thread_search_best:
  assumes "SearchThreads U None limit f query (Some s) = Inr out"
  shows "\<exists>kept. out = map sd_item kept
    \<and> best_first thread_before limit (thread_candidates U (filter (matchesThread U f) (map cloneThread (ks_listing s))) query) kept"
proof -
  let ?ts = "filter (matchesThread U f) (map cloneThread (ks_listing s))"
  let ?k = "rank_limit thread_before limit (thread_candidates U ?ts query)"
  have "out = thread_Select U limit ?ts query" using assms by (simp add: SearchThreads_def thread_guard_def)
  also have "\<dots> = map sd_item ?k"
    by (cases "?ts = []") (simp_all add: thread_Select_def rank_limit_def thread_candidates_def score_items_def Let_def)
  finally show ?thesis using thread_rank.rank_limit_best [of limit "thread_candidates U ?ts query"] by blast
qed

end
