(* ===== verification/Checkpoint_Store.thy ===== *)
theory Checkpoint_Store
  imports Keyed_Store Assistant_Text
begin

text \<open>
  Package \<open>checkpoint\<close> (\<open>checkpoint/checkpoint.go\<close>): the in-memory manager of checkpoint records. Unlike the other keyed
  stores it refuses an id that is in use, so a record never changes until it is deleted. The clock is an argument.
\<close>

section \<open>Records and operations\<close>

record ckpt =
  cp_id :: string
  cp_session :: string
  cp_parent :: string
  cp_label :: string
  cp_created :: gotime
  cp_metadata :: metadata

record ckpt_options =
  co_session :: string
  co_parent :: string
  co_label :: string
  co_metadata :: metadata

record ckpt_filter =
  cl_session :: string
  cl_parent :: string

definition cloneCheckpoint :: "ckpt \<Rightarrow> ckpt" where
  "cloneCheckpoint c = c\<lparr>cp_metadata := CloneMetadata (cp_metadata c)\<rparr>"

abbreviation ckpt_prefix :: string where "ckpt_prefix \<equiv> ''checkpoint-''"

definition ckpt_normal :: "gotime \<Rightarrow> ckpt \<Rightarrow> ckpt" where
  "ckpt_normal now c =
     \<lparr>cp_id = trim_space (cp_id c), cp_session = trim_space (cp_session c), cp_parent = trim_space (cp_parent c),
      cp_label = trim_space (cp_label c), cp_created = (if time_is_zero (cp_created c) then now else cp_created c),
      cp_metadata = CloneMetadata (cp_metadata c)\<rparr>"

definition ckpt_insert :: "gotime \<Rightarrow> ckpt \<Rightarrow> ckpt keyed \<Rightarrow> ckpt keyed \<times> (err + ckpt)" where
  "ckpt_insert now c0 s =
     (let c = ckpt_normal now c0
      in if cp_id c \<noteq> [] \<and> map_of (ks_items s) (cp_id c) \<noteq> None
         then (s, Inl (EText (''checkpoint already exists: '' @ cp_id c)))
         else (case (if cp_id c = [] then ks_next_id ckpt_prefix s else (cp_id c, s)) of
                 (i, s1) \<Rightarrow>
                   (let item = c\<lparr>cp_id := i\<rparr>
                    in (ks_bump ckpt_prefix i (s1\<lparr>ks_items := AList.update i item (ks_items s1), ks_order := ks_order s1 @ [i]\<rparr>),
                        Inr (cloneCheckpoint item)))))"

fun ckpt_seed :: "gotime list \<Rightarrow> ckpt list \<Rightarrow> ckpt keyed \<Rightarrow> ckpt keyed" where
  "ckpt_seed (now # nows) (c # cs) s = ckpt_seed nows cs (fst (ckpt_insert now c s))"
| "ckpt_seed nows cs s = s"

text \<open>The constructor reads the clock once for each record.\<close>

definition NewMemoryManager :: "gotime list \<Rightarrow> ckpt list \<Rightarrow> ckpt keyed" where
  "NewMemoryManager nows cs = ckpt_seed nows cs new_keyed"

definition ckpt_Create :: "gotime \<Rightarrow> gotime \<Rightarrow> ckpt_options \<Rightarrow> ckpt keyed \<Rightarrow> ckpt keyed \<times> (err + ckpt)" where
  "ckpt_Create now now2 opts s =
     ckpt_insert now2
       \<lparr>cp_id = [], cp_session = trim_space (co_session opts), cp_parent = trim_space (co_parent opts),
        cp_label = trim_space (co_label opts), cp_created = now, cp_metadata = CloneMetadata (co_metadata opts)\<rparr> s"

definition ckpt_required :: err where
  "ckpt_required = EText ''checkpoint id is required''"

definition ckpt_Get :: "string \<Rightarrow> ckpt keyed \<Rightarrow> err + ckpt" where
  "ckpt_Get rid s =
     (let i = trim_space rid
      in if i = [] then Inl ckpt_required
         else case map_of (ks_items s) i of
                None \<Rightarrow> Inl (EText (''checkpoint not found: '' @ i))
              | Some c \<Rightarrow> Inr (cloneCheckpoint c))"

definition ckpt_Restore :: "string \<Rightarrow> ckpt keyed \<Rightarrow> err + ckpt" where
  "ckpt_Restore rid s = ckpt_Get rid s"

definition ckpt_selected :: "ckpt_filter \<Rightarrow> ckpt \<Rightarrow> bool" where
  "ckpt_selected f c \<longleftrightarrow> (cl_session f = [] \<or> cp_session c = cl_session f) \<and> (cl_parent f = [] \<or> cp_parent c = cl_parent f)"

definition ckpt_before :: "ckpt \<Rightarrow> ckpt \<Rightarrow> bool" where
  "ckpt_before l r =
     (if cp_created l \<noteq> cp_created r then cp_created l < cp_created r else str_less (cp_id l) (cp_id r))"

definition sortCheckpoints :: "ckpt list \<Rightarrow> ckpt list" where
  "sortCheckpoints cs = stable_sort ckpt_before cs"

definition ckpt_List :: "ckpt_filter \<Rightarrow> ckpt keyed \<Rightarrow> ckpt list" where
  "ckpt_List f s = sortCheckpoints (map cloneCheckpoint (filter (ckpt_selected f) (ks_listing s)))"

definition ckpt_Delete :: "string \<Rightarrow> ckpt keyed \<Rightarrow> ckpt keyed \<times> err option" where
  "ckpt_Delete rid s =
     (let i = trim_space rid
      in if i = [] then (s, Some ckpt_required)
         else if map_of (ks_items s) i = None then (s, Some (EText (''checkpoint not found: '' @ i)))
         else (ks_delete i s, None))"

section \<open>Well-formed managers\<close>

definition ckpt_ok :: "string \<Rightarrow> ckpt \<Rightarrow> bool" where
  "ckpt_ok i c \<longleftrightarrow> cp_id c = i \<and> i \<noteq> [] \<and> trim_space i = i \<and> trim_space (cp_session c) = cp_session c
     \<and> trim_space (cp_parent c) = cp_parent c \<and> cloneCheckpoint c = c"

lemma ckpt_prefix_ink: "list_all ink_char ckpt_prefix"
  by (simp add: ink_char_def byte_def is_space_def)

lemma cloneCheckpoint_fields [simp]:
  "cp_id (cloneCheckpoint c) = cp_id c" "cp_created (cloneCheckpoint c) = cp_created c"
  "cp_session (cloneCheckpoint c) = cp_session c" "cp_parent (cloneCheckpoint c) = cp_parent c"
  by (simp_all add: cloneCheckpoint_def)

text \<open>A successful insert puts the record it returns under an id that was free.\<close>

lemma ckpt_insert_puts:
  assumes inv: "keyed_inv s" and small: "length (ks_items s) < 2 ^ 63" and r: "ckpt_insert now c0 s = (s', Inr c)"
  shows "\<exists>k. int64_range k \<and> s' = (ks_put (cp_id c) c s)\<lparr>ks_next := k\<rparr> \<and> ckpt_ok (cp_id c) c
    \<and> map_of (ks_items s) (cp_id c) = None \<and> c = (ckpt_normal now c0)\<lparr>cp_id := cp_id c\<rparr>
    \<and> (trim_space (cp_id c0) = [] \<or> cp_id c = trim_space (cp_id c0))"
proof -
  let ?n = "ckpt_normal now c0"
  have nx: "int64_range (ks_next s)" using inv by (simp add: keyed_inv_def)
  obtain i s1 where is1: "(if cp_id ?n = [] then ks_next_id ckpt_prefix s else (cp_id ?n, s)) = (i, s1)" by fastforce
  have free: "cp_id ?n = [] \<or> map_of (ks_items s) (cp_id ?n) = None" using r by (auto simp: ckpt_insert_def Let_def split: if_splits)
  let ?item = "?n\<lparr>cp_id := i\<rparr>"
  have cl: "cloneCheckpoint ?item = ?item" by (simp add: cloneCheckpoint_def ckpt_normal_def)
  have rr: "s' = ks_bump ckpt_prefix i (s1\<lparr>ks_items := AList.update i ?item (ks_items s1), ks_order := ks_order s1 @ [i]\<rparr>)" "c = ?item"
    using r is1 free by (auto simp: ckpt_insert_def Let_def cl split: if_splits)
  have i: "i \<noteq> []" "trim_space i = i" "trim_space (cp_id c0) = [] \<or> i = trim_space (cp_id c0)"
    using is1 trim_next_id [OF ckpt_prefix_ink, of s] by (auto simp: ckpt_normal_def split: if_splits)
  have fresh: "map_of (ks_items s) i = None"
    using is1 free ks_next_id_fresh [OF nx small, of ckpt_prefix] by (auto split: if_splits)
  have s1: "ks_items s1 = ks_items s" "ks_order s1 = ks_order s" "int64_range (ks_next s1)"
    using is1 keyed_frame(5,6) [of ckpt_prefix s] keyed_next_id_range [of ckpt_prefix s] nx
    by (cases "cp_id ?n = []"; simp del: keyed_frame)+
  let ?w = "s1\<lparr>ks_items := AList.update i ?item (ks_items s1), ks_order := ks_order s1 @ [i]\<rparr>"
  have "?w = (ks_put i ?item s)\<lparr>ks_next := ks_next s1\<rparr>" by (rule keyed.equality) (simp_all add: ks_put_def s1 fresh)
  then have "s' = (ks_put i c s)\<lparr>ks_next := ks_next s'\<rparr>" using rr bump_next [of ckpt_prefix i ?w] by simp
  moreover have "int64_range (ks_next s')" unfolding rr(1) by (rule keyed_next_range(2)) (use s1(3) in simp)
  moreover have "ckpt_ok i c" using i cl by (simp add: ckpt_ok_def rr(2)) (simp add: ckpt_normal_def)
  ultimately show ?thesis using i(3) fresh by (intro exI [of _ "ks_next s'"]) (simp add: rr(2))
qed

lemma ckpt_insert_failed: "ckpt_insert now c0 s = (s', Inl e) \<Longrightarrow> s' = s"
  by (auto simp: ckpt_insert_def Let_def split: if_splits prod.splits)

inductive ckpt_step :: "ckpt keyed \<Rightarrow> ckpt keyed \<Rightarrow> bool" where
  insert: "ckpt_insert now c s = (s', r) \<Longrightarrow> length (ks_items s) < 2 ^ 63 \<Longrightarrow> ckpt_step s s'"
| delete: "ckpt_Delete i s = (s', e) \<Longrightarrow> ckpt_step s s'"

interpretation manager: keyed_service ckpt_step ckpt_ok
proof
  fix s t :: "ckpt keyed"
  assume st: "ckpt_step s t" and ok: "keyed_ok ckpt_ok s"
  have inv: "keyed_inv s" using ok by (simp add: keyed_ok_def)
  from st show "keyed_change ckpt_ok s t"
  proof cases
    case (insert now c r)
    show ?thesis
    proof (cases r)
      case (Inr v)
      then show ?thesis using insert ckpt_insert_puts [OF inv] by (metis keyed_change.put)
    qed (use insert ckpt_insert_failed keyed_change_same [OF inv] in blast)
  next
    case (delete i e)
    then show ?thesis using keyed_change_same [OF inv, of ckpt_ok] delete_same_next [OF inv, of ckpt_ok]
      by (auto simp: ckpt_Delete_def Let_def split: if_splits)
  qed
qed

lemma Create_is_step: "ckpt_Create now now2 opts s = (s', r) \<Longrightarrow> length (ks_items s) < 2 ^ 63 \<Longrightarrow> ckpt_step s s'"
  unfolding ckpt_Create_def by (rule ckpt_step.insert)

section \<open>The properties\<close>

text \<open>A created checkpoint has a fresh id, is what \<open>Get\<close> and \<open>Restore\<close> return, and changes no other record.\<close>

theorem created_checkpoint_restores:
  assumes "ckpt_step\<^sup>*\<^sup>* new_keyed s" and "length (ks_items s) < 2 ^ 63" and "ckpt_Create now now2 opts s = (s', Inr c)"
  shows "map_of (ks_items s) (cp_id c) = None \<and> ckpt_Restore (cp_id c) s' = Inr c
    \<and> (\<forall>j. j \<noteq> cp_id c \<longrightarrow> map_of (ks_items s') j = map_of (ks_items s) j)"
proof -
  have "keyed_inv s" using manager.new_reachable_ok [OF assms(1)] by (simp add: keyed_ok_def)
  from ckpt_insert_puts [OF this assms(2) assms(3) [unfolded ckpt_Create_def]] show ?thesis
    by (auto simp: ckpt_Restore_def ckpt_Get_def put_lookup ckpt_ok_def Let_def)
qed

text \<open>Until it is deleted a checkpoint never changes, whatever is inserted.\<close>

theorem checkpoint_immutable:
  assumes "ckpt_step s s'" and "keyed_ok ckpt_ok s" and "map_of (ks_items s) i = Some c"
  shows "map_of (ks_items s') i = Some c \<or> map_of (ks_items s') i = None"
  using assms(1)
proof cases
  case (insert now c0 r)
  have inv: "keyed_inv s" using assms(2) by (simp add: keyed_ok_def)
  show ?thesis
  proof (cases r)
    case (Inr v)
    then show ?thesis using insert ckpt_insert_puts [OF inv, of now c0 s' v] assms(3) by (cases "i = cp_id v") (auto simp: put_lookup)
  qed (use insert ckpt_insert_failed assms(3) in blast)
next
  case (delete j e)
  then show ?thesis using assms(3) by (auto simp: ckpt_Delete_def Let_def delete_lookup split: if_splits)
qed

lemma ckpt_before_strict: "strict_weak ckpt_before"
proof -
  have none: "strict_weak (\<lambda>a b :: ckpt. False)" by (rule strict_weakI) auto
  note order = strict_weak_lex [OF strict_weak_lex_str [OF none, of cp_id], of cp_created]
  have "ckpt_before = (\<lambda>a b. if cp_created a \<noteq> cp_created b then cp_created a < cp_created b
      else if cp_id a \<noteq> cp_id b then str_less (cp_id a) (cp_id b) else False)"
    by (intro ext) (simp add: ckpt_before_def str_less_irrefl)
  with order show ?thesis by simp
qed

text \<open>Listing returns exactly the selected records, oldest first.\<close>

theorem checkpoint_listing:
  assumes "ckpt_step\<^sup>*\<^sup>* new_keyed s"
  shows "set (ckpt_List f s) = {c. map_of (ks_items s) (cp_id c) = Some c \<and> ckpt_selected f c}
    \<and> distinct (ckpt_List f s) \<and> sorted_wrt (\<lambda>a b. \<not> ckpt_before b a) (ckpt_List f s)"
proof -
  have ok: "keyed_ok ckpt_ok s" by (rule manager.new_reachable_ok [OF assms])
  then have inv: "keyed_inv s" and cl: "\<And>i c. map_of (ks_items s) i = Some c \<Longrightarrow> cp_id c = i \<and> cloneCheckpoint c = c"
    by (auto simp: keyed_ok_def ckpt_ok_def)
  have live: "(i, c) \<in> set (ks_live s) \<longleftrightarrow> map_of (ks_items s) i = Some c" for i c
    using inv by (auto simp: live_items keyed_inv_def wf_map_def)
  have ids: "map cp_id (ks_listing s) = map fst (ks_live s)" using live cl by (auto simp: ks_listing_def)
  then have d: "distinct (ks_listing s)" using inv live_keys [OF inv] by (metis distinct_map keyed_inv_def)
  have mem: "c \<in> set (ks_listing s) \<longleftrightarrow> map_of (ks_items s) (cp_id c) = Some c" for c
  proof -
    have "c \<in> set (ks_listing s) \<longleftrightarrow> (\<exists>i. map_of (ks_items s) i = Some c)" unfolding ks_listing_def live [symmetric] by force
    then show ?thesis using cl by metis
  qed
  then have same: "map cloneCheckpoint (filter (ckpt_selected f) (ks_listing s)) = filter (ckpt_selected f) (ks_listing s)"
    using cl by (auto intro!: map_idI)
  then have l: "ckpt_List f s = stable_sort ckpt_before (filter (ckpt_selected f) (ks_listing s))"
    by (simp add: ckpt_List_def sortCheckpoints_def)
  moreover have "distinct (stable_sort ckpt_before (filter (ckpt_selected f) (ks_listing s)))"
    using d by (metis distinct_filter mset_eq_imp_distinct_iff mset_stable_sort)
  moreover have "set (filter (ckpt_selected f) (ks_listing s)) = {c. map_of (ks_items s) (cp_id c) = Some c \<and> ckpt_selected f c}"
    by (simp add: mem set_eq_iff)
  ultimately show ?thesis using sorted_stable_sort [OF ckpt_before_strict] by (simp only: set_stable_sort simp_thms)
qed

end
