(* ===== verification/Shell_Quote.thy ===== *)
theory Shell_Quote
  imports Tool_Registry Go_Text
begin

text \<open>
  \<open>toolkit/commandtools/normalize.go\<close> and \<open>normalizeArgv\<close> of \<open>tools.go\<close>: repairing the shape of command tool inputs.
  An argument vector given where a shell command string is expected is quoted into one. The decoder and encoder of
  \<open>encoding/json\<close> are arguments. \<open>shell_words\<close> is the reference for quoting: the words a POSIX shell reads from a
  command line that uses only blanks, single quotes and backslashes.
\<close>

section \<open>Argument vectors and quoting\<close>

definition normalizeArgv :: "string list \<Rightarrow> string list" where
  "normalizeArgv argv = filter (\<lambda>a. a \<noteq> []) (map trim_space argv)"

definition safe_shell_rune :: "nat \<Rightarrow> bool" where
  "safe_shell_rune r \<longleftrightarrow> (97 \<le> r \<and> r \<le> 122) \<or> (65 \<le> r \<and> r \<le> 90) \<or> (48 \<le> r \<and> r \<le> 57) \<or> r \<in> set (map byte ''_@%+:,./-'')"

definition isSafeShellArg :: "string \<Rightarrow> bool" where
  "isSafeShellArg arg \<longleftrightarrow> list_all (\<lambda>p. safe_shell_rune (fst p)) (utf8_chunks arg)"

abbreviation squote :: char where "squote \<equiv> CHR 0x27"
abbreviation backslash :: char where "backslash \<equiv> CHR 0x5C"

text \<open>\<open>strings.ReplaceAll(arg, "'", "'\<setminus>''")\<close>.\<close>

definition escape_quotes :: "string \<Rightarrow> string" where
  "escape_quotes arg = concat (map (\<lambda>c. if c = squote then [squote, backslash, squote, squote] else [c]) arg)"

definition shellQuoteArg :: "string \<Rightarrow> string" where
  "shellQuoteArg arg =
     (if arg = [] then [squote, squote]
      else if isSafeShellArg arg then arg
      else [squote] @ escape_quotes arg @ [squote])"

definition shellQuoteJoin :: "string list \<Rightarrow> string" where
  "shellQuoteJoin argv = join '' '' (map shellQuoteArg argv)"

section \<open>Normalising tool inputs\<close>

type_synonym raw_fields = "(string, string) gomap"

text \<open>What the code uses of \<open>encoding/json\<close>: objects of raw fields, strings and string lists.\<close>

record json_lib =
  jl_object :: "string \<Rightarrow> err + raw_fields"
  jl_of_object :: "raw_fields \<Rightarrow> err + string"
  jl_string :: "string \<Rightarrow> err + string"
  jl_strings :: "string \<Rightarrow> err + string list"
  jl_of_string :: "string \<Rightarrow> err + string"

definition raw_field :: "raw_fields \<Rightarrow> string \<Rightarrow> string" where
  "raw_field fs name = trim_space (case map_of fs name of None \<Rightarrow> [] | Some r \<Rightarrow> r)"

definition normalizeObjectInput ::
  "json_lib \<Rightarrow> (raw_fields \<Rightarrow> raw_fields \<times> bool \<times> err option) \<Rightarrow> tool_use \<Rightarrow> tool_use \<times> bool \<times> err option" where
  "normalizeObjectInput J nf use =
     (if trim_space (use_input use) = [] then (use, False, None)
      else case jl_object J (use_input use) of
             Inl e \<Rightarrow> (use, False, None)
           | Inr fs \<Rightarrow>
               (case nf fs of
                  (fs', changed, err) \<Rightarrow>
                    if err \<noteq> None \<or> \<not> changed then (use, changed, err)
                    else case jl_of_object J fs' of
                           Inl e \<Rightarrow> (use, False, Some e)
                         | Inr s \<Rightarrow> (use\<lparr>use_input := s\<rparr>, True, None)))"

definition normalizeCommandArrayField :: "json_lib \<Rightarrow> string \<Rightarrow> raw_fields \<Rightarrow> raw_fields \<times> bool" where
  "normalizeCommandArrayField J name fs =
     (let raw = raw_field fs name
      in if raw = [] \<or> hd raw \<noteq> CHR ''['' then (fs, False)
         else case jl_strings J raw of
                Inl e \<Rightarrow> (fs, False)
              | Inr argv \<Rightarrow>
                  if argv = [] \<or> list_ex (\<lambda>a. CHR 0x00 \<in> set a) argv \<or> normalizeArgv argv = [] then (fs, False)
                  else let command = shellQuoteJoin (normalizeArgv argv)
                       in if trim_space command = [] then (fs, False)
                          else case jl_of_string J command of
                                 Inl e \<Rightarrow> (fs, False)
                               | Inr enc \<Rightarrow> (AList.update name enc fs, True))"

text \<open>The loop keeps what it has changed when a field cannot be decoded.\<close>

fun normalizeNumericStringFields :: "json_lib \<Rightarrow> string list \<Rightarrow> raw_fields \<Rightarrow> bool \<Rightarrow> raw_fields \<times> bool \<times> err option" where
  "normalizeNumericStringFields J [] fs changed = (fs, changed, None)"
| "normalizeNumericStringFields J (name # names) fs changed =
     (let raw = raw_field fs name
      in if raw = [] \<or> hd raw \<noteq> CHR 0x22 then normalizeNumericStringFields J names fs changed
         else case jl_string J raw of
                Inl e \<Rightarrow> (fs, changed, Some e)
              | Inr v \<Rightarrow>
                  if trim_space v = [] then normalizeNumericStringFields J names fs changed
                  else case atoi (trim_space v) of
                         None \<Rightarrow> normalizeNumericStringFields J names fs changed
                       | Some n \<Rightarrow> normalizeNumericStringFields J names (AList.update name (show_int n) fs) True)"

definition normalizeShellCommandInput :: "json_lib \<Rightarrow> string list \<Rightarrow> tool_use \<Rightarrow> tool_use \<times> bool \<times> err option" where
  "normalizeShellCommandInput J names =
     normalizeObjectInput J (\<lambda>fs.
       (let (fs1, changed) = normalizeCommandArrayField J ''command'' fs;
            (fs2, numeric, err) = normalizeNumericStringFields J names fs1 False
        in (fs2, changed \<or> numeric, err)))"

definition normalizeNumericInput :: "json_lib \<Rightarrow> string list \<Rightarrow> tool_use \<Rightarrow> tool_use \<times> bool \<times> err option" where
  "normalizeNumericInput J names = normalizeObjectInput J (\<lambda>fs. normalizeNumericStringFields J names fs False)"

section \<open>The words a shell reads\<close>

text \<open>
  Characters with a meaning to a POSIX shell (or bash) outside quotes. A line on which one of them stands unquoted has no
  words here: what it means is not the concern of the reference.
\<close>

definition sh_special :: "char \<Rightarrow> bool" where
  "sh_special c \<longleftrightarrow> c \<in> set ''|&;<>()$`*?[]#~=!{}^'' \<or> c = CHR 0x22 \<or> c = CHR 10 \<or> c = CHR 13 \<or> c = CHR 0x00"

definition sh_blank :: "char \<Rightarrow> bool" where
  "sh_blank c \<longleftrightarrow> c = CHR '' '' \<or> c = CHR 9"

definition sh_add :: "string option \<Rightarrow> string \<Rightarrow> string option" where
  "sh_add cur s = Some ((case cur of None \<Rightarrow> [] | Some w \<Rightarrow> w) @ s)"

text \<open>\<open>cur\<close> is the word being read (a word may be empty), the flag tells whether single quotes are open.\<close>

fun sh_scan :: "string option \<Rightarrow> bool \<Rightarrow> string \<Rightarrow> string list option" where
  "sh_scan cur False [] = Some (case cur of None \<Rightarrow> [] | Some w \<Rightarrow> [w])"
| "sh_scan cur True [] = None"
| "sh_scan cur True (c # s) = (if c = squote then sh_scan cur False s else sh_scan (sh_add cur [c]) True s)"
| "sh_scan cur False (c # s) =
     (if c = squote then sh_scan (sh_add cur []) True s
      else if c = backslash then
        (case s of [] \<Rightarrow> None | d # t \<Rightarrow> if d = CHR 10 then sh_scan cur False t else sh_scan (sh_add cur [d]) False t)
      else if sh_blank c then
        (case cur of None \<Rightarrow> sh_scan None False s | Some w \<Rightarrow> map_option (\<lambda>ws. w # ws) (sh_scan None False s))
      else if sh_special c then None
      else sh_scan (sh_add cur [c]) False s)"

definition shell_words :: "string \<Rightarrow> string list option" where
  "shell_words s = sh_scan None False s"

section \<open>Quoting is exact\<close>

lemma decode_rune_ascii: "fst (decode_rune (c # s)) < 128 \<Longrightarrow> byte c < 128"
  by (auto simp: rune_error_def utf8_lead_def split: option.splits list.splits prod.splits if_splits)

lemma safe_rune_ascii: "safe_shell_rune r \<Longrightarrow> r < 128"
  by (auto simp: safe_shell_rune_def byte_def)

lemma safe_arg_chars: "isSafeShellArg arg \<Longrightarrow> list_all (\<lambda>c. safe_shell_rune (byte c)) arg"
proof (induction arg rule: utf8_chunks_induct)
  case (step s)
  obtain c t where s: "s = c # t" using step(1) by (cases s) auto
  have safe: "safe_shell_rune (fst (decode_rune s))" and rest: "isSafeShellArg (drop (snd (decode_rune s)) s)"
    using step(3) by (simp_all add: isSafeShellArg_def utf8_chunks_unfold [OF step(1)])
  have "byte c < 128" using decode_rune_ascii [of c t] safe_rune_ascii [OF safe] s by simp
  then have "decode_rune s = (byte c, 1)" by (simp add: s)
  with step(2) safe rest show ?case by (simp add: s)
qed simp

lemma byte_inj: "byte a = byte b \<longleftrightarrow> a = b"
  by (simp add: byte_def)

lemma safe_char_plain: "safe_shell_rune (byte c) \<Longrightarrow> c \<noteq> squote \<and> c \<noteq> backslash \<and> \<not> sh_blank c \<and> \<not> sh_special c"
  by (auto simp: safe_shell_rune_def sh_blank_def sh_special_def byte_def)

lemma scan_safe:
  "list_all (\<lambda>c. safe_shell_rune (byte c)) arg \<Longrightarrow> arg \<noteq> [] \<or> cur \<noteq> None \<Longrightarrow>
     sh_scan cur False (arg @ s) = sh_scan (sh_add cur arg) False s"
proof (induction arg arbitrary: cur)
  case Nil
  then show ?case by (auto simp: sh_add_def)
next
  case (Cons c arg)
  then have "c \<noteq> squote \<and> c \<noteq> backslash \<and> \<not> sh_blank c \<and> \<not> sh_special c" by (simp add: safe_char_plain)
  with Cons(1) [of "sh_add cur [c]"] Cons(2) show ?case by (auto simp: sh_add_def)
qed

lemma scan_escaped: "sh_scan (Some w) True (escape_quotes arg @ squote # s) = sh_scan (Some (w @ arg)) False s"
proof (induction arg arbitrary: w)
  case (Cons c arg)
  then show ?case by (cases "c = squote") (simp_all add: escape_quotes_def sh_add_def)
qed (simp add: escape_quotes_def)

lemma scan_quoted_arg: "sh_scan None False (shellQuoteArg arg @ s) = sh_scan (Some arg) False s"
proof (cases "arg = [] \<or> isSafeShellArg arg")
  case True
  then show ?thesis
    using scan_safe [OF safe_arg_chars, of arg None s] by (cases "arg = []") (simp_all add: shellQuoteArg_def sh_add_def)
next
  case False
  then show ?thesis using scan_escaped [of "[]" arg s] by (simp add: shellQuoteArg_def sh_add_def)
qed

text \<open>
  C40. Quoting an argument vector for the shell is exact: the words a shell reads from the joined line are the arguments,
  whatever characters they hold, empty ones included.
\<close>

theorem shell_quoting_exact: "shell_words (shellQuoteJoin argv) = Some argv"
proof (induction argv)
  case Nil
  then show ?case by (simp add: shellQuoteJoin_def shell_words_def)
next
  case (Cons a argv)
  show ?case
  proof (cases "argv = []")
    case True
    then show ?thesis using scan_quoted_arg [of a "[]"] by (simp add: shellQuoteJoin_def shell_words_def)
  next
    case False
    then have "shellQuoteJoin (a # argv) = shellQuoteArg a @ '' '' @ shellQuoteJoin argv"
      by (simp add: shellQuoteJoin_def join_Cons)
    with Cons show ?thesis by (simp add: shell_words_def scan_quoted_arg sh_blank_def)
  qed
qed

text \<open>So a command given as an array runs with that array's arguments, up to the trimming of \<open>normalizeArgv\<close>.\<close>

theorem command_array_words:
  assumes "normalizeCommandArrayField J name fs = (fs', True)"
  shows "\<exists>argv command enc. jl_strings J (raw_field fs name) = Inr argv \<and> shell_words command = Some (normalizeArgv argv)
    \<and> jl_of_string J command = Inr enc \<and> map_of fs' = (map_of fs)(name \<mapsto> enc)"
proof -
  obtain argv enc where "jl_strings J (raw_field fs name) = Inr argv" "jl_of_string J (shellQuoteJoin (normalizeArgv argv)) = Inr enc"
    "fs' = AList.update name enc fs"
    using assms by (auto simp: normalizeCommandArrayField_def Let_def split: sum.splits if_splits)
  then show ?thesis using shell_quoting_exact update_conv' by (metis)
qed

text \<open>An argument vector is documented as exact, yet empty arguments disappear and blanks around one are cut.\<close>

theorem argv_not_exact: "normalizeArgv [''grep'', [], '' x''] = [''grep'', ''x'']"
proof -
  have "trim_space ''grep'' = ''grep''" "trim_space [] = []" "trim_space '' x'' = ''x''"
    by (simp_all add: trim_space_def trim_left_def trim_right_def utf8_chunks_unfold byte_def is_space_def)
  then show ?thesis by (simp add: normalizeArgv_def)
qed

end
