(* ===== verification/Agent_Identity.thy ===== *)
theory Agent_Identity
  imports Model_Types
begin

text \<open>Package \<open>identity\<close> (\<open>identity/identity.go\<close>): the behavioural profile of an agent and its defaults.\<close>

abbreviation AutonomyConservative :: string where "AutonomyConservative \<equiv> ''conservative''"
abbreviation AutonomyBalanced :: string where "AutonomyBalanced \<equiv> ''balanced''"
abbreviation AutonomyHigh :: string where "AutonomyHigh \<equiv> ''high''"

record agent_identity =
  id_name :: string
  id_role :: string
  id_mission :: string
  id_tone :: string
  id_autonomy :: string
  id_constraints :: "string list"

definition identity_Default :: agent_identity where
  "identity_Default =
     \<lparr>id_name = ''Memax Agent'', id_role = ''autonomous software agent'',
      id_mission = ''complete the user'' @ [CHR 0x27] @ ''s goal by planning, using available tools, preserving context, and reporting concrete outcomes'',
      id_tone = ''direct, factual, and concise'', id_autonomy = AutonomyBalanced,
      id_constraints =
        [''operate only through the tools and permissions provided by the host application'',
         ''prefer reversible, observable actions before destructive actions'',
         ''recover from tool errors by using the returned error information instead of repeating the same failing action'',
         ''keep progress state when task or checkpoint tools are available'']\<rparr>"

definition identity_IsZero :: "agent_identity \<Rightarrow> bool" where
  "identity_IsZero i \<longleftrightarrow> id_name i = [] \<and> id_role i = [] \<and> id_mission i = [] \<and> id_tone i = [] \<and> id_autonomy i = [] \<and> id_constraints i = []"

definition or_default :: "'a list \<Rightarrow> 'a list \<Rightarrow> 'a list" where
  "or_default x d = (if x = [] then d else x)"

definition identity_WithDefaults :: "agent_identity \<Rightarrow> agent_identity" where
  "identity_WithDefaults i =
     (let d = identity_Default
      in \<lparr>id_name = or_default (id_name i) (id_name d), id_role = or_default (id_role i) (id_role d),
          id_mission = or_default (id_mission i) (id_mission d), id_tone = or_default (id_tone i) (id_tone d),
          id_autonomy = or_default (id_autonomy i) (id_autonomy d),
          id_constraints = or_default (id_constraints i) (id_constraints d)\<rparr>)"

text \<open>Filling in defaults leaves no field empty, changes no field that was set, and is done once.\<close>

lemma default_complete:
  "id_name identity_Default \<noteq> []" "id_role identity_Default \<noteq> []" "id_mission identity_Default \<noteq> []" "id_tone identity_Default \<noteq> []"
  "id_autonomy identity_Default \<noteq> []" "id_constraints identity_Default \<noteq> []"
  by (simp_all add: identity_Default_def)

theorem identity_defaults_fill:
  "id_name (identity_WithDefaults i) \<noteq> [] \<and> id_role (identity_WithDefaults i) \<noteq> [] \<and> id_mission (identity_WithDefaults i) \<noteq> []
    \<and> id_tone (identity_WithDefaults i) \<noteq> [] \<and> id_autonomy (identity_WithDefaults i) \<noteq> [] \<and> id_constraints (identity_WithDefaults i) \<noteq> []
    \<and> identity_WithDefaults (identity_WithDefaults i) = identity_WithDefaults i"
  by (auto simp: identity_WithDefaults_def or_default_def Let_def default_complete)

end
