(* ===== verification/Command_Run.thy ===== *)
theory Command_Run
  imports Shell_Quote Agent_Identity
begin

text \<open>
  \<open>toolkit/commandtools/tools.go\<close>: the tool that runs one command through a host-owned runner, and the reference runner of
  the operating system. Decoding of JSON inputs is an argument. Paths are those of a Unix system; the process itself, the
  working directory and the environment of the host are arguments of the runner.
\<close>

section \<open>Requests and results\<close>

definition defaultTimeout :: duration where "defaultTimeout = 120 * 1000000000"
definition defaultMaxTimeout :: duration where "defaultMaxTimeout = 600 * 1000000000"
definition defaultMaxOutputBytes :: int where "defaultMaxOutputBytes = 64 * 1024"
definition defaultMaxStdinBytes :: int where "defaultMaxStdinBytes = 64 * 1024"

record call_runtime =
  rt_session :: string
  rt_parent :: string
  rt_identity :: agent_identity

record cmd_request =
  cq_session :: string
  cq_parent :: string
  cq_identity :: "agent_identity option"
  cq_command :: string
  cq_argv :: "string list"
  cq_cwd :: string
  cq_env :: "(string, string) gomap"
  cq_stdin :: string
  cq_timeout :: duration
  cq_purpose :: string
  cq_metadata :: metadata

record cmd_result =
  cr_argv :: "string list"
  cr_command :: string
  cr_cwd :: string
  cr_exit :: int
  cr_timed_out :: bool
  cr_duration :: duration
  cr_stdout :: string
  cr_stderr :: string
  cr_stdout_bytes :: int
  cr_stderr_bytes :: int
  cr_truncated :: bool
  cr_metadata :: metadata

type_synonym 'w cmd_runner = "'w \<Rightarrow> cmd_request \<Rightarrow> 'w \<times> (err + cmd_result)"

record cmd_config =
  cg_name :: string
  cg_description :: string
  cg_search_hint :: string
  cg_may_mutate :: bool
  cg_concurrency_safe :: bool
  cg_default_timeout :: duration
  cg_max_timeout :: duration
  cg_max_stdin :: int
  cg_max_output :: int
  cg_max_result :: int
  cg_shell :: "string list"

definition cmd_cloneStringMap :: "(string, string) gomap \<Rightarrow> (string, string) gomap" where
  "cmd_cloneStringMap m = put_all [] m"

definition shellArgv :: "bool \<Rightarrow> string \<Rightarrow> string list \<Rightarrow> string list" where
  "shellArgv windows command shell =
     (let prefix = normalizeArgv shell;
          p = (if prefix = [] then (if windows then [''cmd'', ''/C''] else [''sh'', ''-c'']) else prefix)
      in p @ [command])"

definition validateStdin :: "string \<Rightarrow> int \<Rightarrow> err option" where
  "validateStdin stdin max0 =
     (let mx = (if max0 = 0 then defaultMaxStdinBytes else max0)
      in if mx < 0 then None
         else if mx < int (length stdin)
         then Some (EText (''commandtools: stdin is '' @ show_int (int (length stdin)) @ '' bytes, exceeds maximum '' @ show_int mx))
         else None)"

record common_input =
  ci_cwd :: string
  ci_env :: "(string, string) gomap"
  ci_stdin :: string
  ci_timeout_ms :: int
  ci_purpose :: string
  ci_metadata :: metadata

text \<open>A shell input has a command string and an exec input an argument vector besides the common fields.\<close>

definition ms_duration :: "int \<Rightarrow> duration" where
  "ms_duration ms = i64 (ms * 1000000)"

definition requestFromCommonInput :: "common_input \<Rightarrow> cmd_config \<Rightarrow> err + cmd_request" where
  "requestFromCommonInput i c =
     (let t0 = (if cg_default_timeout c \<le> 0 then defaultTimeout else cg_default_timeout c);
          t = (if 0 < ci_timeout_ms i then ms_duration (ci_timeout_ms i) else t0);
          mx = (if cg_max_timeout c \<le> 0 then defaultMaxTimeout else cg_max_timeout c)
      in if mx < t then Inl (EText (''commandtools: timeout '' @ show_duration t @ '' exceeds maximum '' @ show_duration mx))
         else Inr \<lparr>cq_session = [], cq_parent = [], cq_identity = None, cq_command = [], cq_argv = [],
                cq_cwd = trim_space (ci_cwd i), cq_env = cmd_cloneStringMap (ci_env i), cq_stdin = ci_stdin i, cq_timeout = t,
                cq_purpose = trim_space (ci_purpose i), cq_metadata = CloneMetadata (ci_metadata i)\<rparr>)"

definition requestFromShellInput :: "bool \<Rightarrow> string \<Rightarrow> common_input \<Rightarrow> cmd_config \<Rightarrow> err + cmd_request" where
  "requestFromShellInput windows command0 i c =
     (let command = trim_space command0
      in if command = [] then Inl (EText ''commandtools: command must not be empty'')
         else case requestFromCommonInput i c of
                Inl e \<Rightarrow> Inl e
              | Inr req \<Rightarrow> Inr (req\<lparr>cq_command := command, cq_argv := shellArgv windows command (cg_shell c)\<rparr>))"

definition requestFromExecInput :: "string list \<Rightarrow> common_input \<Rightarrow> cmd_config \<Rightarrow> err + cmd_request" where
  "requestFromExecInput argv0 i c =
     (let argv = normalizeArgv argv0
      in if argv = [] then Inl (EText ''commandtools: command must contain at least one argv element'')
         else case requestFromCommonInput i c of Inl e \<Rightarrow> Inl e | Inr req \<Rightarrow> Inr (req\<lparr>cq_argv := argv\<rparr>))"

section \<open>Output limits\<close>

text \<open>The loop over the byte offsets at which runes start; \<open>k\<close> is the last offset within the limit.\<close>

fun cut_loop :: "int \<Rightarrow> nat \<Rightarrow> nat \<Rightarrow> (nat \<times> string) list \<Rightarrow> nat" where
  "cut_loop mx i k [] = k"
| "cut_loop mx i k (c # cs) = (if mx < int i then k else cut_loop mx (i + length (snd c)) i cs)"

definition limitStringBytes :: "string \<Rightarrow> int \<Rightarrow> string \<times> bool" where
  "limitStringBytes s mx =
     (if mx < 0 \<or> int (length s) \<le> mx then (s, False)
      else if mx = 0 then ([], s \<noteq> [])
      else (take (cut_loop mx 0 0 (utf8_chunks s)) s, True))"

definition enforceOutputLimit :: "cmd_result \<Rightarrow> int \<Rightarrow> cmd_result" where
  "enforceOutputLimit r max0 =
     (let mx = (if max0 \<le> 0 then defaultMaxOutputBytes else max0); (so, t1) = limitStringBytes (cr_stdout r) mx;
          (se, t2) = limitStringBytes (cr_stderr r) mx
      in r\<lparr>cr_stdout := so, cr_stderr := se, cr_truncated := cr_truncated r \<or> t1 \<or> t2\<rparr>)"

section \<open>Tool results\<close>

abbreviation MetadataCommandOperation :: string where "MetadataCommandOperation \<equiv> ''command_operation''"
abbreviation MetadataCommandArgv :: string where "MetadataCommandArgv \<equiv> ''command_argv''"
abbreviation MetadataCommandString :: string where "MetadataCommandString \<equiv> ''command_string''"
abbreviation MetadataCommandCWD :: string where "MetadataCommandCWD \<equiv> ''command_cwd''"
abbreviation MetadataCommandExitCode :: string where "MetadataCommandExitCode \<equiv> ''command_exit_code''"
abbreviation MetadataCommandTimedOut :: string where "MetadataCommandTimedOut \<equiv> ''command_timed_out''"
abbreviation MetadataCommandDurationMS :: string where "MetadataCommandDurationMS \<equiv> ''command_duration_ms''"
abbreviation MetadataCommandStdoutBytes :: string where "MetadataCommandStdoutBytes \<equiv> ''command_stdout_bytes''"
abbreviation MetadataCommandStderrBytes :: string where "MetadataCommandStderrBytes \<equiv> ''command_stderr_bytes''"
abbreviation MetadataCommandOutputTruncated :: string where "MetadataCommandOutputTruncated \<equiv> ''command_output_truncated''"

abbreviation nl :: string where "nl \<equiv> [CHR 10]"

definition formatResult :: "cmd_result \<Rightarrow> string list \<Rightarrow> string \<Rightarrow> string" where
  "formatResult r argv command =
     (let status = (if cr_timed_out r then ''timed out'' else if cr_exit r \<noteq> 0 then ''failed'' else ''succeeded'');
          display = (if trim_space command = [] then join '' '' argv else trim_space command)
      in ''command '' @ status @ '': '' @ display @ nl @ ''exit_code: '' @ show_int (cr_exit r)
         @ (if cr_timed_out r then nl @ ''timed_out: true'' else [])
         @ (if cr_stdout r \<noteq> [] then nl @ ''stdout:'' @ nl @ cr_stdout r else [])
         @ (if cr_stderr r \<noteq> [] then nl @ ''stderr:'' @ nl @ cr_stderr r else [])
         @ (if cr_truncated r then nl @ ''output truncated'' else []))"

text \<open>Go's integer division truncates.\<close>

definition in_ms :: "duration \<Rightarrow> int" where
  "in_ms d = (if 0 \<le> d then d div 1000000 else - (- d div 1000000))"

definition resultToToolResult :: "cmd_result \<Rightarrow> cmd_request \<Rightarrow> tool_result" where
  "resultToToolResult r req =
     (let argv = (if cr_argv r = [] then cq_argv req else cr_argv r);
          command = (if trim_space (cr_command r) = [] then trim_space (cq_command req) else trim_space (cr_command r));
          cwd = (if trim_space (cr_cwd r) = [] then cq_cwd req else trim_space (cr_cwd r));
          so = (if cr_stdout_bytes r = 0 \<and> cr_stdout r \<noteq> [] then int (length (cr_stdout r)) else cr_stdout_bytes r);
          se = (if cr_stderr_bytes r = 0 \<and> cr_stderr r \<noteq> [] then int (length (cr_stderr r)) else cr_stderr_bytes r)
      in \<lparr>tr_use_id = [], tr_name = [], tr_content = formatResult r argv command,
          tr_is_error = (cr_timed_out r \<or> cr_exit r \<noteq> 0),
          tr_metadata = put_all (CloneMetadata (cr_metadata r))
            ([(MetadataCommandOperation, VString ''run''), (MetadataCommandArgv, VStrings argv)]
             @ (if command \<noteq> [] then [(MetadataCommandString, VString command)] else [])
             @ [(MetadataCommandCWD, VString cwd), (MetadataCommandExitCode, VInt (cr_exit r)),
                (MetadataCommandTimedOut, VBool (cr_timed_out r)), (MetadataCommandDurationMS, VInt (in_ms (cr_duration r))),
                (MetadataCommandStdoutBytes, VInt so), (MetadataCommandStderrBytes, VInt se),
                (MetadataCommandOutputTruncated, VBool (cr_truncated r))])\<rparr>)"

section \<open>The tool\<close>

definition run_tool_spec :: "cmd_config \<Rightarrow> bool \<Rightarrow> metadata \<Rightarrow> tool_spec" where
  "run_tool_spec c exec schema =
     \<lparr>ts_name = (if trim_space (cg_name c) = [] then ''run_command'' else trim_space (cg_name c)),
      ts_description = (if trim_space (cg_description c) = []
        then (if exec then ''Run a host-owned command by exact argv, capture stdout/stderr, and return exit status.''
              else ''Run a host-owned shell command string, capture stdout/stderr, and return exit status.'')
        else trim_space (cg_description c)),
      ts_input_schema = schema,
      ts_search_hint = (if trim_space (cg_search_hint c) = [] then ''run command test lint build format execute'' else trim_space (cg_search_hint c)),
      ts_read_only = \<not> cg_may_mutate c, ts_concurrency_safe = cg_concurrency_safe c, ts_destructive = cg_may_mutate c,
      ts_always_load = False, ts_should_defer = False,
      ts_max_result_bytes = (if cg_max_result c \<le> 0 then defaultMaxOutputBytes else cg_max_result c)\<rparr>"

text \<open>\<open>request\<close> is the outcome of decoding the input and \<open>requestFromShellInput\<close> or \<open>requestFromExecInput\<close> on it.\<close>

definition run_tool_handler ::
  "'w cmd_runner option \<Rightarrow> cmd_config \<Rightarrow> (tool_use \<Rightarrow> err + cmd_request) \<Rightarrow> call_runtime \<Rightarrow> 'w \<Rightarrow> tool_use \<Rightarrow> 'w \<times> (err + tool_result)" where
  "run_tool_handler runner c request rt w use =
     (case runner of
        None \<Rightarrow> (w, Inl (EText ''commandtools: runner is required''))
      | Some run \<Rightarrow>
          (case request use of
             Inl e \<Rightarrow> (w, Inl e)
           | Inr req0 \<Rightarrow>
               (case validateStdin (cq_stdin req0) (cg_max_stdin c) of
                  Some e \<Rightarrow> (w, Inl e)
                | None \<Rightarrow>
                    (let req = req0\<lparr>cq_session := rt_session rt, cq_parent := rt_parent rt, cq_identity := Some (rt_identity rt)\<rparr>
                     in case run w req of
                          (w', Inl e) \<Rightarrow> (w', Inl e)
                        | (w', Inr r) \<Rightarrow> (w', Inr (resultToToolResult (enforceOutputLimit r (cg_max_output c)) req))))))"

record approval_summary =
  as_title :: string
  as_description :: string
  as_risk :: string
  as_changes :: int

definition commandDisplayFromRaw :: "json_lib \<Rightarrow> string \<Rightarrow> err + string" where
  "commandDisplayFromRaw J raw0 =
     (let raw = trim_space raw0
      in if raw = [] \<or> raw = ''null'' then Inr []
         else if hd raw = CHR 0x22 then
           (case jl_string J raw of Inl e \<Rightarrow> Inl (EWrap ''commandtools: decode command: '' e) | Inr s \<Rightarrow> Inr (trim_space s))
         else if hd raw = CHR ''['' then
           (case jl_strings J raw of Inl e \<Rightarrow> Inl (EWrap ''commandtools: decode command argv: '' e)
            | Inr argv \<Rightarrow> Inr (shellQuoteJoin (normalizeArgv argv)))
         else Inl (EText ''commandtools: command must be a string or argv array''))"

definition ApprovalSummaryFromRunInput ::
  "json_lib \<Rightarrow> (string \<Rightarrow> err + string \<times> string) \<Rightarrow> string \<Rightarrow> err + approval_summary option" where
  "ApprovalSummaryFromRunInput J decode input =
     (case (if input = [] then Inr ([], []) else decode input) of
        Inl e \<Rightarrow> Inl (EWrap ''commandtools: decode run input: '' e)
      | Inr (raw, purpose) \<Rightarrow>
          (case commandDisplayFromRaw J raw of
             Inl e \<Rightarrow> Inl e
           | Inr command \<Rightarrow>
               if command = [] then Inr None
               else Inr (Some \<lparr>as_title = ''Run command: '' @ command,
                      as_description = (if trim_space purpose = [] then ''Execute host-owned command '' @ command else trim_space purpose),
                      as_risk = ''May read or mutate host-owned state depending on the runner and command.'', as_changes = 1\<rparr>)))"

section \<open>Runners\<close>

definition cloneResult :: "cmd_result \<Rightarrow> cmd_result" where
  "cloneResult r = r\<lparr>cr_metadata := CloneMetadata (cr_metadata r)\<rparr>"

definition cloneRequest :: "cmd_request \<Rightarrow> cmd_request" where
  "cloneRequest r = r\<lparr>cq_env := cmd_cloneStringMap (cq_env r), cq_metadata := CloneMetadata (cq_metadata r)\<rparr>"

record scripted_runner =
  sc_results :: "cmd_result list"
  sc_requests :: "cmd_request list"

definition NewScriptedRunner :: "cmd_result list \<Rightarrow> scripted_runner" where
  "NewScriptedRunner rs = \<lparr>sc_results = map cloneResult rs, sc_requests = []\<rparr>"

definition scripted_RunCommand :: "err option \<Rightarrow> scripted_runner \<Rightarrow> cmd_request \<Rightarrow> scripted_runner \<times> (err + cmd_result)" where
  "scripted_RunCommand ctxerr s req =
     (case ctxerr of
        Some e \<Rightarrow> (s, Inl e)
      | None \<Rightarrow>
          (let s1 = s\<lparr>sc_requests := sc_requests s @ [cloneRequest req]\<rparr>
           in case sc_results s1 of
                [] \<Rightarrow> (s1, Inl (EText ''commandtools: scripted runner exhausted''))
              | r # rs \<Rightarrow>
                  (s1\<lparr>sc_results := rs\<rparr>,
                   Inr ((cloneResult r)\<lparr>cr_argv := (if cr_argv r = [] then cq_argv req else cr_argv r),
                     cr_command := (if cr_command r = [] then cq_command req else cr_command r),
                     cr_cwd := (if cr_cwd r = [] then cq_cwd req else cr_cwd r)\<rparr>))))"

text \<open>A buffer that keeps the first bytes written to it and counts all of them.\<close>

record capped =
  cb_buf :: string
  cb_limit :: int
  cb_total :: int
  cb_truncated :: bool

definition newCappedBuffer :: "int \<Rightarrow> capped" where
  "newCappedBuffer limit = \<lparr>cb_buf = [], cb_limit = limit, cb_total = 0, cb_truncated = False\<rparr>"

definition capped_Write :: "capped \<Rightarrow> string \<Rightarrow> capped" where
  "capped_Write b p =
     (let remaining = cb_limit b - int (length (cb_buf b)); b1 = b\<lparr>cb_total := i64 (cb_total b + int (length p))\<rparr>
      in if 0 < remaining then
           (if int (length p) \<le> remaining then b1\<lparr>cb_buf := cb_buf b @ p\<rparr>
            else b1\<lparr>cb_buf := cb_buf b @ take (nat remaining) p, cb_truncated := True\<rparr>)
         else if p \<noteq> [] then b1\<lparr>cb_truncated := True\<rparr> else b1)"

text \<open>The error of a finished process: an exit error with its code, or another failure.\<close>

datatype run_failure = ExitError int | StartFailure string

definition exitCode :: "run_failure option \<Rightarrow> int" where
  "exitCode e = (case e of None \<Rightarrow> 0 | Some (ExitError n) \<Rightarrow> n | Some (StartFailure t) \<Rightarrow> - 1)"

definition joinNonEmpty :: "string list \<Rightarrow> string" where
  "joinNonEmpty parts = join nl (filter (\<lambda>p. p \<noteq> []) (map trim_space parts))"

record os_runner =
  os_root :: string
  os_inherit_env :: bool
  os_base_env :: "string list"
  os_max_output :: int

text \<open>\<open>absolute\<close> stands for \<open>filepath.Abs\<close>.\<close>

definition NewOSRunner :: "(string \<Rightarrow> err + string) \<Rightarrow> string \<Rightarrow> (os_runner \<Rightarrow> os_runner) option list \<Rightarrow> err + os_runner" where
  "NewOSRunner absolute root0 opts =
     (case (if root0 = [] then Inr [] else absolute root0) of
        Inl e \<Rightarrow> Inl (EWrap ''commandtools: resolve root: '' e)
      | Inr r0 \<Rightarrow>
          (let r = foldl (\<lambda>r opt. case opt of None \<Rightarrow> r | Some f \<Rightarrow> f r)
                     \<lparr>os_root = r0, os_inherit_env = False, os_base_env = [], os_max_output = defaultMaxOutputBytes\<rparr> opts
           in Inr (if os_max_output r \<le> 0 then r\<lparr>os_max_output := defaultMaxOutputBytes\<rparr> else r)))"

definition runner_env :: "string list \<Rightarrow> os_runner \<Rightarrow> (string, string) gomap \<Rightarrow> string list" where
  "runner_env environ r overrides =
     os_base_env r @ (if os_inherit_env r then environ else [])
     @ map (\<lambda>k. k @ ''='' @ the (map_of overrides k)) (stable_sort str_less (map fst overrides))"

definition is_abs :: "string \<Rightarrow> bool" where
  "is_abs p \<longleftrightarrow> p \<noteq> [] \<and> hd p = CHR ''/''"

text \<open>The elements of a path, \<open>filepath.Join\<close> and \<open>filepath.Rel\<close> of absolute paths.\<close>

definition path_elems :: "string \<Rightarrow> string list" where
  "path_elems p = filter (\<lambda>e. e \<noteq> []) (split_on (CHR ''/'') p)"

definition path_Join :: "string \<Rightarrow> string \<Rightarrow> string" where
  "path_Join a b =
     (let es = filter (\<lambda>e. e \<noteq> []) [a, b] in if es = [] then [] else path_Clean (join ''/'' es))"

fun strip_common :: "string list \<Rightarrow> string list \<Rightarrow> string list \<times> string list" where
  "strip_common (b # bs) (t # ts) = (if b = t then strip_common bs ts else (b # bs, t # ts))"
| "strip_common bs ts = (bs, ts)"

definition path_Rel :: "string \<Rightarrow> string \<Rightarrow> string" where
  "path_Rel base target =
     (let (bs, ts) = strip_common (path_elems (path_Clean base)) (path_elems (path_Clean target));
          es = replicate (length bs) dotdot @ ts
      in if es = [] then dot else join ''/'' es)"

definition resolveCWD :: "err + string \<Rightarrow> os_runner \<Rightarrow> string \<Rightarrow> err + string" where
  "resolveCWD getwd r cwd0 =
     (let cwd = trim_space cwd0
      in if CHR 0x00 \<in> set cwd then Inl (EText ''commandtools: cwd contains NUL byte'')
         else if os_root r = [] then
           (if cwd = [] then getwd
            else if is_abs cwd then Inr (path_Clean cwd)
            else case getwd of Inl e \<Rightarrow> Inl e | Inr base \<Rightarrow> Inr (path_Join base cwd))
         else if cwd = [] then Inr (os_root r)
         else if is_abs cwd then Inl (EText ''commandtools: cwd must be relative to runner root'')
         else (let clean = path_Clean cwd
               in if clean = dot then Inr (os_root r)
                  else if goes_up clean then Inl (EText ''commandtools: cwd escapes runner root'')
                  else (let full = path_Join (os_root r) clean
                        in if goes_up (path_Rel (os_root r) full) then Inl (EText ''commandtools: cwd escapes runner root'')
                           else Inr full)))"

text \<open>What a process did: the writes to its two streams, how it ended, whether the deadline passed, and how long it took.\<close>

record process_run =
  pr_stdout :: "string list"
  pr_stderr :: "string list"
  pr_failure :: "run_failure option"
  pr_deadline :: bool
  pr_duration :: duration

definition os_RunCommand ::
  "err option \<Rightarrow> err + string \<Rightarrow> string list \<Rightarrow> ('w \<Rightarrow> string list \<Rightarrow> string \<Rightarrow> string list \<Rightarrow> string \<Rightarrow> duration \<Rightarrow> 'w \<times> process_run)
     \<Rightarrow> os_runner option \<Rightarrow> 'w \<Rightarrow> cmd_request \<Rightarrow> 'w \<times> (err + cmd_result)" where
  "os_RunCommand ctxerr getwd environ exec runner w req =
     (case runner of
        None \<Rightarrow> (w, Inl (EText ''commandtools: nil OSRunner''))
      | Some r \<Rightarrow>
          (case ctxerr of
             Some e \<Rightarrow> (w, Inl e)
           | None \<Rightarrow>
               (let argv = normalizeArgv (cq_argv req)
                in if argv = [] then (w, Inl (EText ''commandtools: command must contain at least one argv element''))
                   else case resolveCWD getwd r (cq_cwd req) of
                          Inl e \<Rightarrow> (w, Inl e)
                        | Inr cwd \<Rightarrow>
                            (let timeout = (if cq_timeout req \<le> 0 then defaultTimeout else cq_timeout req);
                                 (w', p) = exec w argv cwd (runner_env environ r (cq_env req)) (cq_stdin req) timeout;
                                 so = foldl capped_Write (newCappedBuffer (os_max_output r)) (pr_stdout p);
                                 se = foldl capped_Write (newCappedBuffer (os_max_output r)) (pr_stderr p);
                                 res = \<lparr>cr_argv = argv, cr_command = trim_space (cq_command req), cr_cwd = cwd,
                                   cr_exit = exitCode (pr_failure p), cr_timed_out = pr_deadline p, cr_duration = pr_duration p,
                                   cr_stdout = cb_buf so, cr_stderr = cb_buf se, cr_stdout_bytes = cb_total so, cr_stderr_bytes = cb_total se,
                                   cr_truncated = (cb_truncated so \<or> cb_truncated se), cr_metadata = []\<rparr>
                             in case pr_failure p of
                                  Some (StartFailure t) \<Rightarrow>
                                    if pr_deadline p then (w', Inr res)
                                    else (let err1 = trim_space (joinNonEmpty [cr_stderr res, t])
                                          in (w', Inr (res\<lparr>cr_stderr := err1, cr_stderr_bytes := int (length err1)\<rparr>)))
                                | _ \<Rightarrow> (w', Inr res)))))"

section \<open>Properties\<close>

text \<open>The retained output is exactly the first bytes of everything written, and the counts are of everything.\<close>

lemma capped_write_exact:
  assumes "cb_buf b = take (nat (cb_limit b)) all" and "cb_truncated b \<longleftrightarrow> nat (cb_limit b) < length all" and "cb_total b = i64 (int (length all))"
  shows "cb_buf (capped_Write b p) = take (nat (cb_limit b)) (all @ p) \<and> cb_limit (capped_Write b p) = cb_limit b
    \<and> (cb_truncated (capped_Write b p) \<longleftrightarrow> nat (cb_limit b) < length (all @ p))
    \<and> cb_total (capped_Write b p) = i64 (int (length (all @ p)))"
proof -
  have tot: "i64 (cb_total b + int (length p)) = i64 (int (length (all @ p)))"
    unfolding assms(3) by (simp add: i64_def mod_simps algebra_simps)
  show ?thesis
  proof (cases "length all < nat (cb_limit b)")
    case True
    then have "cb_buf b = all" and r: "nat (cb_limit b - int (length all)) = nat (cb_limit b) - length all" "int (length all) < cb_limit b"
      using assms(1) by auto
    then show ?thesis using True assms(2) tot by (auto simp: capped_Write_def Let_def)
  next
    case False
    then have "cb_limit b - int (length (cb_buf b)) \<le> 0" using assms(1) by auto
    then show ?thesis using False assms(1,2) tot by (auto simp: capped_Write_def Let_def)
  qed
qed

theorem capped_buffer_exact:
  "cb_buf (foldl capped_Write (newCappedBuffer limit) ps) = take (nat limit) (concat ps)
   \<and> (cb_truncated (foldl capped_Write (newCappedBuffer limit) ps) \<longleftrightarrow> nat limit < length (concat ps))
   \<and> cb_total (foldl capped_Write (newCappedBuffer limit) ps) = i64 (int (length (concat ps)))"
proof -
  have "cb_buf (foldl capped_Write (newCappedBuffer limit) ps) = take (nat limit) (concat ps)
      \<and> cb_limit (foldl capped_Write (newCappedBuffer limit) ps) = limit
      \<and> (cb_truncated (foldl capped_Write (newCappedBuffer limit) ps) \<longleftrightarrow> nat limit < length (concat ps))
      \<and> cb_total (foldl capped_Write (newCappedBuffer limit) ps) = i64 (int (length (concat ps)))"
  proof (induction ps rule: rev_induct)
    case (snoc p ps)
    then show ?case using capped_write_exact [of "foldl capped_Write (newCappedBuffer limit) ps" "concat ps" p] by simp
  qed (simp add: newCappedBuffer_def i64_def)
  then show ?thesis by simp
qed

text \<open>Limiting output keeps whole runes, as many as fit.\<close>

lemma cut_loop_stop: "mx < int i \<Longrightarrow> cut_loop mx i k cs = k"
  by (cases cs) simp_all

lemma cut_loop_spec:
  assumes "nat mx < i + length (concat (map snd cs))" and "int i \<le> mx"
  shows "\<exists>j < length cs. cut_loop mx i k cs = i + length (concat (map snd (take j cs))) \<and> int (cut_loop mx i k cs) \<le> mx
    \<and> mx < int (i + length (concat (map snd (take (Suc j) cs))))"
  using assms
proof (induction cs arbitrary: i k)
  case (Cons c cs)
  have go: "cut_loop mx i k (c # cs) = cut_loop mx (i + length (snd c)) i cs" using Cons.prems(2) by simp
  show ?case
  proof (cases "mx < int (i + length (snd c))")
    case True
    then show ?thesis using Cons.prems(2) cut_loop_stop [OF True, of i cs] unfolding go by (intro exI [of _ 0]) simp
  next
    case False
    have "nat mx < i + length (snd c) + length (concat (map snd cs))" using Cons.prems(1) by simp
    from Cons.IH [OF this, of i] False obtain j where
      "j < length cs" "cut_loop mx (i + length (snd c)) i cs = i + length (snd c) + length (concat (map snd (take j cs)))"
      "int (cut_loop mx (i + length (snd c)) i cs) \<le> mx"
      "mx < int (i + length (snd c) + length (concat (map snd (take (Suc j) cs))))" by auto
    then show ?thesis unfolding go by (intro exI [of _ "Suc j"]) (simp add: add.assoc)
  qed
qed simp

theorem output_limit_whole_runes:
  assumes "0 < mx" and "mx < int (length s)"
  shows "\<exists>k. limitStringBytes s mx = (concat (map snd (take k (utf8_chunks s))), True)
    \<and> int (length (concat (map snd (take k (utf8_chunks s))))) \<le> mx \<and> mx < int (length (concat (map snd (take (Suc k) (utf8_chunks s)))))"
proof -
  obtain k where k: "cut_loop mx 0 0 (utf8_chunks s) = length (concat (map snd (take k (utf8_chunks s))))"
    "int (cut_loop mx 0 0 (utf8_chunks s)) \<le> mx" "mx < int (length (concat (map snd (take (Suc k) (utf8_chunks s)))))"
    using cut_loop_spec [of mx 0 "utf8_chunks s" 0] assms by (auto simp: nat_less_iff)
  have "s = concat (map snd (take k (utf8_chunks s))) @ concat (map snd (drop k (utf8_chunks s)))"
    by (metis append_take_drop_id concat_append concat_utf8_chunks map_append)
  then have "take (cut_loop mx 0 0 (utf8_chunks s)) s = concat (map snd (take k (utf8_chunks s)))"
    unfolding k(1) by (metis append_eq_conv_conj)
  with k assms show ?thesis by (intro exI [of _ k]) (simp add: limitStringBytes_def)
qed

text \<open>A working directory given to a rooted runner names the root or a place below it.\<close>

lemma split_on_last: "split_on c (s @ c # t) = split_on c s @ split_on c t"
  by (induction s) (auto split: list.split)

lemma clean_elems_append:
  "dotdot \<notin> set es \<Longrightarrow> foldl (clean_elem rooted) out es = out @ filter (\<lambda>e. e \<noteq> [] \<and> e \<noteq> dot) es"
  by (induction es arbitrary: out) (auto simp: clean_elem_def)

lemma elems_of_clean:
  assumes "clean_list True es"
  shows "path_elems (CHR ''/'' # join ''/'' es) = es"
proof -
  have "split_on (CHR ''/'') (join ''/'' es) = (if es = [] then [[]] else es)"
    using split_on_join [of es "CHR ''/''"] clean_list_parts(3) [OF assms] by auto
  then show ?thesis using clean_list_parts(1) [OF assms] by (auto simp: path_elems_def filter_id_conv)
qed

lemma path_Clean_abs:
  assumes "is_abs p"
  shows "path_Clean p = CHR ''/'' # join ''/'' (foldl (clean_elem True) [] (split_on (CHR ''/'') p))"
  using assms by (auto simp: path_Clean_def is_abs_def Let_def)

theorem cwd_inside_root:
  assumes root: "is_abs (os_root r)" "path_Clean (os_root r) = os_root r" and ok: "resolveCWD getwd r cwd = Inr full"
  shows "\<exists>es. path_elems full = path_elems (os_root r) @ es \<and> dotdot \<notin> set es"
proof -
  define R where "R = foldl (clean_elem True) [] (split_on (CHR ''/'') (os_root r))"
  have rR: "os_root r = CHR ''/'' # join ''/'' R" using path_Clean_abs [OF root(1)] root(2) by (simp add: R_def)
  have clR: "clean_list True R" unfolding R_def by (rule clean_elems_clean) (auto dest: split_on_no_sep)
  have ne: "os_root r \<noteq> []" using root(1) by (simp add: is_abs_def)
  define cl where "cl = path_Clean (trim_space cwd)"
  consider "full = os_root r" | "\<not> goes_up cl" "full = path_Join (os_root r) cl" "cl \<noteq> []"
    using ok ne by (auto simp: resolveCWD_def Let_def cl_def path_Clean_def split: if_splits)
  then show ?thesis
  proof cases
    case 2
    have up: "dotdot \<notin> set (split_on (CHR ''/'') cl)" using path_Clean_no_up 2(1) by (simp add: cl_def)
    have j: "path_Join (os_root r) cl = path_Clean (os_root r @ CHR ''/'' # cl)" using ne 2(3) by (simp add: path_Join_def)
    have abs2: "is_abs (os_root r @ CHR ''/'' # cl)" using root(1) by (auto simp: is_abs_def hd_append)
    let ?E = "filter (\<lambda>e. e \<noteq> [] \<and> e \<noteq> dot) (split_on (CHR ''/'') cl)"
    have fold: "foldl (clean_elem True) [] (split_on (CHR ''/'') (os_root r @ CHR ''/'' # cl)) = R @ ?E"
      by (simp add: split_on_last R_def clean_elems_append [OF up])
    then have full: "full = CHR ''/'' # join ''/'' (R @ ?E)" using 2(2) j path_Clean_abs [OF abs2] by simp
    have "clean_list True (R @ ?E)"
      unfolding fold [symmetric] by (rule clean_elems_clean) (auto dest: split_on_no_sep)
    then have "path_elems full = R @ ?E" unfolding full by (rule elems_of_clean)
    then show ?thesis using elems_of_clean [OF clR] up rR by (intro exI [of _ ?E]) auto
  qed simp
qed

text \<open>A request never exceeds the maximal timeout, but a number of milliseconds beyond the range of a duration wraps below it.\<close>

theorem request_timeout_bounded:
  assumes "requestFromCommonInput i c = Inr req"
  shows "cq_timeout req \<le> (if cg_max_timeout c \<le> 0 then defaultMaxTimeout else cg_max_timeout c)"
  using assms by (auto simp: requestFromCommonInput_def Let_def split: if_splits)

theorem huge_timeout_wraps:
  assumes "ci_timeout_ms i = 9223372036855" and "cg_max_timeout c = 0"
  shows "\<exists>req. requestFromCommonInput i c = Inr req \<and> cq_timeout req < 0"
  using assms by (simp add: requestFromCommonInput_def ms_duration_def i64_def defaultMaxTimeout_def Let_def)

end
