(* ===== verification/Command_Output.thy ===== *)
theory Command_Output
  imports Command_Run "HOL-Library.Sublist"
begin

text \<open>
  \<open>toolkit/commandtools/transcript_store.go\<close> and the data of \<open>sessions.go\<close>: command sessions, numbered output chunks, paging
  through them, and the in-memory transcript store. Copies of sessions and chunks are values, so the clone functions are
  identities. \<open>ctxerr\<close> is \<open>ctx.Err()\<close>; the nil store is the state \<open>None\<close>.
\<close>

section \<open>Errors\<close>

datatype cmd_kind =
    ErrCommandSessionUnknown | ErrCommandSessionNotVisible | ErrCommandSessionAlreadyExists | ErrCommandSessionNotRunning
  | ErrCommandSessionNotPTY | ErrCommandSessionStdinClosed | ErrCommandSessionTerminalClosed | ErrCommandSessionPTYUnsupported

text \<open>An error is plain, classified (found by \<open>errors.Is\<close>) or wraps one of these.\<close>

datatype cmd_err = CPlain err | CKind cmd_kind string | CWrap string cmd_err

fun cmd_is :: "cmd_kind \<Rightarrow> cmd_err \<Rightarrow> bool" where
  "cmd_is k (CPlain e) = False"
| "cmd_is k (CKind k' msg) = (k = k')"
| "cmd_is k (CWrap p e) = cmd_is k e"

abbreviation ctext :: "string \<Rightarrow> cmd_err" where "ctext s \<equiv> CPlain (EText s)"

definition unknown_session :: "string \<Rightarrow> cmd_err" where
  "unknown_session i = CKind ErrCommandSessionUnknown (''commandtools: unknown command session '' @ i)"

definition not_visible :: "string \<Rightarrow> cmd_err" where
  "not_visible i = CKind ErrCommandSessionNotVisible (''commandtools: command session '' @ i @ '' is not visible in this agent session'')"

section \<open>Sessions and output\<close>

abbreviation SessionRunning :: string where "SessionRunning \<equiv> ''running''"
abbreviation SessionExited :: string where "SessionExited \<equiv> ''exited''"
abbreviation SessionStopped :: string where "SessionStopped \<equiv> ''stopped''"
abbreviation SessionOrphaned :: string where "SessionOrphaned \<equiv> ''orphaned''"

record cmd_session =
  cs_id :: string
  cs_session :: string
  cs_parent :: string
  cs_identity :: "agent_identity option"
  cs_command :: string
  cs_argv :: "string list"
  cs_cwd :: string
  cs_purpose :: string
  cs_status :: string
  cs_pid :: int
  cs_tty :: bool
  cs_cols :: int
  cs_rows :: int
  cs_tree :: bool
  cs_started :: gotime
  cs_finished :: "gotime option"
  cs_exit :: "int option"
  cs_timed_out :: bool
  cs_next_seq :: int
  cs_dropped_chunks :: int
  cs_dropped_bytes :: int

record output_chunk =
  ch_seq :: int
  ch_stream :: string
  ch_text :: string
  ch_time :: gotime

record read_request =
  rd_id :: string
  rd_session :: string
  rd_after :: int
  rd_chunks :: int
  rd_bytes :: int

record read_result =
  rs_session :: cmd_session
  rs_chunks :: "output_chunk list"
  rs_next :: int

definition defaultReadChunks :: int where "defaultReadChunks = 32"
definition defaultReadBytes :: int where "defaultReadBytes = 16 * 1024"

text \<open>The paging loop: \<open>n\<close> chunks with \<open>b\<close> bytes have been taken.\<close>

fun page_loop :: "int \<Rightarrow> int \<Rightarrow> int \<Rightarrow> int \<Rightarrow> int \<Rightarrow> output_chunk list \<Rightarrow> output_chunk list" where
  "page_loop after mc mb n b [] = []"
| "page_loop after mc mb n b (c # cs) =
     (if ch_seq c \<le> after then page_loop after mc mb n b cs
      else if mc \<le> n then []
      else if 0 < b \<and> mb < b + int (length (ch_text c)) then []
      else c # page_loop after mc mb (n + 1) (b + int (length (ch_text c))) cs)"

definition paginateOutputChunks :: "cmd_session \<Rightarrow> output_chunk list \<Rightarrow> int \<Rightarrow> int \<Rightarrow> int \<Rightarrow> read_result" where
  "paginateOutputChunks s chunks after mc mb =
     \<lparr>rs_session = s,
      rs_chunks = page_loop after (if mc \<le> 0 then defaultReadChunks else mc) (if mb \<le> 0 then defaultReadBytes else mb) 0 0 chunks,
      rs_next = cs_next_seq s\<rparr>"

definition resumeAfterSeq :: "read_result \<Rightarrow> int \<Rightarrow> int" where
  "resumeAfterSeq r after =
     foldl (\<lambda>a c. if a < ch_seq c then ch_seq c else a)
       (if 0 < rs_next r then max after (rs_next r - 1) else after) (rs_chunks r)"

section \<open>The transcript store\<close>

record cmd_record =
  tc_session :: cmd_session
  tc_chunks :: "output_chunk list"

type_synonym transcripts = "(string, cmd_record) gomap"

definition transcript_guard :: "err option \<Rightarrow> string \<Rightarrow> transcripts option \<Rightarrow> cmd_err + transcripts" where
  "transcript_guard ctxerr i st =
     (case st of
        None \<Rightarrow> Inl (ctext ''commandtools: nil MemoryCommandTranscriptStore'')
      | Some m \<Rightarrow>
          (case ctxerr of
             Some e \<Rightarrow> Inl (CPlain e)
           | None \<Rightarrow> if i = [] then Inl (ctext ''commandtools: command session id is required'') else Inr m))"

text \<open>The next sequence number of a snapshot is raised above the chunks stored already.\<close>

definition raise_next :: "cmd_session \<Rightarrow> output_chunk list \<Rightarrow> cmd_session" where
  "raise_next s cs =
     (if cs \<noteq> [] \<and> cs_next_seq s \<le> ch_seq (last cs) then s\<lparr>cs_next_seq := i64 (ch_seq (last cs) + 1)\<rparr> else s)"

definition SaveCommandSession :: "err option \<Rightarrow> cmd_session \<Rightarrow> transcripts option \<Rightarrow> transcripts option \<times> cmd_err option" where
  "SaveCommandSession ctxerr s st =
     (case transcript_guard ctxerr (cs_id s) st of
        Inl e \<Rightarrow> (st, Some e)
      | Inr m \<Rightarrow>
          (let cs = (case map_of m (cs_id s) of None \<Rightarrow> [] | Some r \<Rightarrow> tc_chunks r)
           in (Some (AList.update (cs_id s) \<lparr>tc_session = raise_next s cs, tc_chunks = cs\<rparr> m), None)))"

text \<open>The check of the new chunks: every sequence number is positive and above the one before it.\<close>

fun check_seqs :: "int \<Rightarrow> output_chunk list \<Rightarrow> cmd_err option" where
  "check_seqs prev [] = None"
| "check_seqs prev (c # cs) =
     (if ch_seq c \<le> 0 then Some (ctext ''commandtools: output chunk seq must be positive'')
      else if ch_seq c \<le> prev
      then Some (ctext (''commandtools: output chunk seq '' @ show_int (ch_seq c) @ '' must be greater than previous seq '' @ show_int prev))
      else check_seqs (ch_seq c) cs)"

definition AppendCommandOutput ::
  "err option \<Rightarrow> string \<Rightarrow> output_chunk list \<Rightarrow> transcripts option \<Rightarrow> transcripts option \<times> cmd_err option" where
  "AppendCommandOutput ctxerr i cs st =
     (case transcript_guard ctxerr i st of
        Inl e \<Rightarrow> (st, Some e)
      | Inr m \<Rightarrow>
          if cs = [] then (st, None)
          else case map_of m i of
                 None \<Rightarrow> (st, Some (unknown_session i))
               | Some r \<Rightarrow>
                   (case check_seqs (if tc_chunks r = [] then 0 else ch_seq (last (tc_chunks r))) cs of
                      Some e \<Rightarrow> (st, Some e)
                    | None \<Rightarrow>
                        (let r' = \<lparr>tc_session = raise_next (tc_session r) (tc_chunks r @ cs), tc_chunks = tc_chunks r @ cs\<rparr>
                         in (Some (AList.update i r' m), None))))"

definition store_CommandSession :: "err option \<Rightarrow> string \<Rightarrow> transcripts option \<Rightarrow> cmd_err + cmd_session" where
  "store_CommandSession ctxerr i st =
     (case transcript_guard ctxerr i st of
        Inl e \<Rightarrow> Inl e
      | Inr m \<Rightarrow> (case map_of m i of None \<Rightarrow> Inl (unknown_session i) | Some r \<Rightarrow> Inr (tc_session r)))"

definition hidden_from :: "string \<Rightarrow> cmd_session \<Rightarrow> bool" where
  "hidden_from sid s \<longleftrightarrow> sid \<noteq> [] \<and> cs_session s \<noteq> [] \<and> cs_session s \<noteq> sid"

definition store_ReadCommandOutput :: "err option \<Rightarrow> read_request \<Rightarrow> transcripts option \<Rightarrow> cmd_err + read_result" where
  "store_ReadCommandOutput ctxerr req st =
     (case transcript_guard ctxerr (rd_id req) st of
        Inl e \<Rightarrow> Inl e
      | Inr m \<Rightarrow>
          (case map_of m (rd_id req) of
             None \<Rightarrow> Inl (unknown_session (rd_id req))
           | Some r \<Rightarrow>
               if hidden_from (rd_session req) (tc_session r) then Inl (not_visible (rd_id req))
               else Inr (paginateOutputChunks (tc_session r) (tc_chunks r) (rd_after req) (rd_chunks req) (rd_bytes req))))"

record list_request =
  lq_session :: string
  lq_completed :: bool
  lq_limit :: int

definition listed :: "list_request \<Rightarrow> cmd_session \<Rightarrow> bool" where
  "listed req s \<longleftrightarrow> (lq_session req = [] \<or> cs_session s = lq_session req) \<and> (lq_completed req \<or> cs_status s = SessionRunning)"

definition session_before :: "cmd_session \<Rightarrow> cmd_session \<Rightarrow> bool" where
  "session_before l r = (if cs_started l \<noteq> cs_started r then cs_started l < cs_started r else str_less (cs_id l) (cs_id r))"

definition limit_sessions :: "int \<Rightarrow> 'a list \<Rightarrow> 'a list" where
  "limit_sessions n xs = (if 0 < n \<and> n < int (length xs) then take (nat n) xs else xs)"

definition store_ListCommands :: "err option \<Rightarrow> list_request \<Rightarrow> transcripts option \<Rightarrow> cmd_err + cmd_session list" where
  "store_ListCommands ctxerr req st =
     (case st of
        None \<Rightarrow> Inl (ctext ''commandtools: nil MemoryCommandTranscriptStore'')
      | Some m \<Rightarrow>
          (case ctxerr of
             Some e \<Rightarrow> Inl (CPlain e)
           | None \<Rightarrow> Inr (limit_sessions (lq_limit req) (stable_sort session_before (filter (listed req) (map (tc_session \<circ> snd) m))))))"

definition DeleteCommandSession :: "err option \<Rightarrow> string \<Rightarrow> transcripts option \<Rightarrow> transcripts option \<times> cmd_err option" where
  "DeleteCommandSession ctxerr i st =
     (case transcript_guard ctxerr i st of Inl e \<Rightarrow> (st, Some e) | Inr m \<Rightarrow> (Some (AList.delete i m), None))"

section \<open>Paging reads everything once\<close>

definition rising :: "output_chunk list \<Rightarrow> bool" where
  "rising cs \<longleftrightarrow> sorted_wrt (\<lambda>a b. ch_seq a < ch_seq b) cs"

lemma page_prefix: "\<exists>k. page_loop after mc mb n b cs = take k (filter (\<lambda>c. after < ch_seq c) cs)"
proof (induction cs arbitrary: n b)
  case (Cons c cs)
  obtain k where k: "page_loop after mc mb (n + 1) (b + int (length (ch_text c))) cs = take k (filter (\<lambda>c. after < ch_seq c) cs)"
    using Cons by blast
  consider "ch_seq c \<le> after" | "after < ch_seq c" "mc \<le> n \<or> (0 < b \<and> mb < b + int (length (ch_text c)))"
    | "after < ch_seq c" "\<not> (mc \<le> n \<or> (0 < b \<and> mb < b + int (length (ch_text c))))" by linarith
  then show ?case
  proof cases
    case 1
    then show ?thesis using Cons by auto
  next
    case 2
    then show ?thesis by (intro exI [of _ 0]) auto
  next
    case 3
    then show ?thesis using k by (intro exI [of _ "Suc k"]) auto
  qed
qed simp

text \<open>A page is empty only when nothing is left: a chunk larger than the byte budget still comes alone.\<close>

lemma page_nonempty: "0 < mc \<Longrightarrow> page_loop after mc mb 0 0 cs = [] \<longleftrightarrow> filter (\<lambda>c. after < ch_seq c) cs = []"
  by (induction cs) auto

lemma page_empty: "rs_chunks (paginateOutputChunks s cs after mc mb) = [] \<longleftrightarrow> filter (\<lambda>c. after < ch_seq c) cs = []"
  by (simp add: paginateOutputChunks_def page_nonempty defaultReadChunks_def)

text \<open>Reading page after page, resuming at the last chunk seen.\<close>

fun read_pages :: "nat \<Rightarrow> int \<Rightarrow> int \<Rightarrow> cmd_session \<Rightarrow> output_chunk list \<Rightarrow> int \<Rightarrow> output_chunk list list" where
  "read_pages 0 mc mb s cs after = []"
| "read_pages (Suc k) mc mb s cs after =
     (let p = rs_chunks (paginateOutputChunks s cs after mc mb)
      in if p = [] then [] else p # read_pages k mc mb s cs (ch_seq (last p)))"

lemma rising_rest:
  assumes "rising xs" and "k \<le> length xs" and "0 < k"
  shows "filter (\<lambda>c. ch_seq (xs ! (k - 1)) < ch_seq c) xs = drop k xs"
proof -
  have nth: "ch_seq (xs ! i) < ch_seq (xs ! j)" if "i < j" "j < length xs" for i j
    using assms(1) that by (simp add: rising_def sorted_wrt_iff_nth_less)
  have "\<not> ch_seq (xs ! (k - 1)) < ch_seq c" if mem: "c \<in> set (take k xs)" for c
  proof -
    obtain i where "i < length (take k xs)" "c = take k xs ! i" using mem by (metis in_set_conv_nth)
    then have "i < k" "c = xs ! i" by simp_all
    moreover have "k - 1 < length xs" and "i = k - 1 \<or> i < k - 1" using assms(2,3) \<open>i < k\<close> by linarith+
    ultimately show ?thesis using nth [of i "k - 1"] by auto
  qed
  then have a: "filter (\<lambda>c. ch_seq (xs ! (k - 1)) < ch_seq c) (take k xs) = []" by (simp add: filter_empty_conv)
  have "ch_seq (xs ! (k - 1)) < ch_seq c" if mem: "c \<in> set (drop k xs)" for c
  proof -
    obtain i where "i < length (drop k xs)" "c = drop k xs ! i" using mem by (metis in_set_conv_nth)
    then have "k + i < length xs" "c = xs ! (k + i)" by simp_all
    then show ?thesis using nth [of "k - 1" "k + i"] assms(3) by simp
  qed
  then have b: "filter (\<lambda>c. ch_seq (xs ! (k - 1)) < ch_seq c) (drop k xs) = drop k xs" by (simp add: filter_id_conv)
  show ?thesis using a b by (metis append_Nil append_take_drop_id filter_append)
qed

lemma rising_filter: "rising cs \<Longrightarrow> rising (filter P cs)"
  by (simp add: rising_def sorted_wrt_filter)

lemma paging_step:
  assumes "rising cs" and "rs_chunks (paginateOutputChunks s cs after mc mb) = p" and "p \<noteq> []"
  shows "filter (\<lambda>c. after < ch_seq c) cs = p @ filter (\<lambda>c. ch_seq (last p) < ch_seq c) cs \<and> after < ch_seq (last p)"
proof -
  let ?xs = "filter (\<lambda>c. after < ch_seq c) cs"
  obtain k0 where "p = take k0 ?xs" using page_prefix assms(2) by (force simp: paginateOutputChunks_def)
  then have "p = take (min k0 (length ?xs)) ?xs" "min k0 (length ?xs) \<le> length ?xs" by (simp_all add: min_def)
  then obtain k where k: "p = take k ?xs" "k \<le> length ?xs" by blast
  then have k0: "0 < k" using assms(3) by (cases k) auto
  have l: "last p = ?xs ! (k - 1)" using k k0 assms(3) by (simp add: last_conv_nth)
  have "after < ch_seq (last p)" using l k k0 nth_mem [of "k - 1" ?xs] by auto
  moreover from this have "filter (\<lambda>c. ch_seq (last p) < ch_seq c) ?xs = filter (\<lambda>c. ch_seq (last p) < ch_seq c) cs"
    by (auto intro!: filter_cong)
  ultimately show ?thesis using rising_rest [OF rising_filter [OF assms(1)] k(2) k0] k(1) l by (metis append_take_drop_id)
qed

text \<open>
  C39. Whatever the limits of a page, reading on from the last chunk of each page until one comes back empty returns every
  chunk above the starting point exactly once and in order, and as many reads as there are chunks (and one that is empty) are
  enough.
\<close>

theorem paging_reads_everything:
  assumes "rising cs" and "length (filter (\<lambda>c. after < ch_seq c) cs) \<le> k"
  shows "concat (read_pages k mc mb s cs after) = filter (\<lambda>c. after < ch_seq c) cs"
  using assms(2)
proof (induction k arbitrary: after)
  case (Suc k)
  let ?p = "rs_chunks (paginateOutputChunks s cs after mc mb)" and ?xs = "filter (\<lambda>c. after < ch_seq c) cs"
  have none: "?p = [] \<longleftrightarrow> ?xs = []" by (rule page_empty)
  show ?case
  proof (cases "?p = []")
    case False
    note st = paging_step [OF assms(1) refl False]
    have "length ?xs = length ?p + length (filter (\<lambda>c. ch_seq (last ?p) < ch_seq c) cs)" using st by (metis length_append)
    moreover have "0 < length ?p" using False by simp
    ultimately have "length (filter (\<lambda>c. ch_seq (last ?p) < ch_seq c) cs) \<le> k" using Suc.prems by linarith
    from Suc.IH [OF this] st False show ?thesis by (simp add: Let_def)
  qed (use none in simp)
qed simp

text \<open>Three chunks read one at a time.\<close>

definition sample_session :: cmd_session where
  "sample_session = \<lparr>cs_id = ''c'', cs_session = [], cs_parent = [], cs_identity = None, cs_command = [], cs_argv = [''a''], cs_cwd = [],
     cs_purpose = [], cs_status = SessionRunning, cs_pid = 0, cs_tty = False, cs_cols = 0, cs_rows = 0, cs_tree = False, cs_started = 1,
     cs_finished = None, cs_exit = None, cs_timed_out = False, cs_next_seq = 4, cs_dropped_chunks = 0, cs_dropped_bytes = 0\<rparr>"

definition sample_chunks :: "output_chunk list" where
  "sample_chunks = map (\<lambda>k. \<lparr>ch_seq = k, ch_stream = ''stdout'', ch_text = ''x'', ch_time = 1\<rparr>) [1, 2, 3]"

lemma sample_rising: "rising sample_chunks"
  by (simp add: rising_def sample_chunks_def)

theorem paging_reads_everything_witness:
  "rising sample_chunks \<and> concat (read_pages 3 1 0 sample_session sample_chunks 0) = sample_chunks"
proof -
  have "length (filter (\<lambda>c. 0 < ch_seq c) sample_chunks) \<le> 3" and all: "filter (\<lambda>c. 0 < ch_seq c) sample_chunks = sample_chunks"
    by (simp_all add: sample_chunks_def)
  from paging_reads_everything [OF sample_rising this(1), of 1 0 sample_session] sample_rising show ?thesis by (simp add: all)
qed

text \<open>
  The tools report \<open>resume_after_seq\<close>, documented as the place to continue from. It is computed from the next sequence
  number of the session, not of the page: after a page that was cut short it skips the output that was not returned.
\<close>

theorem resume_skips_unread:
  "rs_chunks (paginateOutputChunks sample_session sample_chunks 0 1 0) = take 1 sample_chunks
   \<and> resumeAfterSeq (paginateOutputChunks sample_session sample_chunks 0 1 0) 0 = 3
   \<and> rs_chunks (paginateOutputChunks sample_session sample_chunks 3 1 0) = []"
  by (simp add: paginateOutputChunks_def resumeAfterSeq_def sample_session_def sample_chunks_def)

section \<open>Stored transcripts\<close>

definition record_ok :: "string \<Rightarrow> cmd_record \<Rightarrow> bool" where
  "record_ok i r \<longleftrightarrow> cs_id (tc_session r) = i \<and> i \<noteq> [] \<and> rising (tc_chunks r) \<and> list_all (\<lambda>c. 0 < ch_seq c) (tc_chunks r)
     \<and> (tc_chunks r = [] \<or> 2 ^ 63 - 1 \<le> ch_seq (last (tc_chunks r)) \<or> ch_seq (last (tc_chunks r)) < cs_next_seq (tc_session r))"

definition transcripts_ok :: "transcripts \<Rightarrow> bool" where
  "transcripts_ok m \<longleftrightarrow> (\<forall>i r. map_of m i = Some r \<longrightarrow> record_ok i r)"

inductive transcript_step :: "transcripts \<Rightarrow> transcripts \<Rightarrow> bool" where
  save: "SaveCommandSession ctxerr s (Some m) = (Some m', e) \<Longrightarrow> transcript_step m m'"
| append: "AppendCommandOutput ctxerr i cs (Some m) = (Some m', e) \<Longrightarrow> transcript_step m m'"
| delete: "DeleteCommandSession ctxerr i (Some m) = (Some m', e) \<Longrightarrow> transcript_step m m'"

lemma raise_next_id [simp]: "cs_id (raise_next s cs) = cs_id s"
  by (simp add: raise_next_def)

lemma raise_next_above:
  assumes "cs \<noteq> []" and "0 < ch_seq (last cs)"
  shows "2 ^ 63 - 1 \<le> ch_seq (last cs) \<or> ch_seq (last cs) < cs_next_seq (raise_next s cs)"
proof (cases "2 ^ 63 - 1 \<le> ch_seq (last cs)")
  case False
  then have "i64 (ch_seq (last cs) + 1) = ch_seq (last cs) + 1" using assms(2) by (intro i64_nonneg_id) auto
  then show ?thesis using assms(1) by (auto simp: raise_next_def)
qed simp

lemma check_seqs_rising:
  "check_seqs prev cs = None \<Longrightarrow> rising cs \<and> list_all (\<lambda>c. 0 < ch_seq c \<and> prev < ch_seq c) cs"
proof (induction cs arbitrary: prev)
  case (Cons c cs)
  then have "check_seqs (ch_seq c) cs = None" and c: "0 < ch_seq c" "prev < ch_seq c" by (auto split: if_splits)
  from Cons.IH [OF this(1)] c show ?case by (fastforce simp: rising_def list_all_iff)
qed (simp add: rising_def)

lemma rising_append: "rising xs \<Longrightarrow> rising ys \<Longrightarrow> xs = [] \<or> list_all (\<lambda>c. ch_seq (last xs) < ch_seq c) ys \<Longrightarrow> rising (xs @ ys)"
proof -
  assume r: "rising xs" "rising ys" and l: "xs = [] \<or> list_all (\<lambda>c. ch_seq (last xs) < ch_seq c) ys"
  have "ch_seq a < ch_seq b" if "a \<in> set xs" "b \<in> set ys" for a b
  proof -
    have "ch_seq (last xs) < ch_seq b" using l that by (auto simp: list_all_iff)
    moreover have "ch_seq a \<le> ch_seq (last xs)"
      using r(1) that(1) by (cases xs rule: rev_cases) (auto simp: rising_def sorted_wrt_append)
    ultimately show ?thesis by simp
  qed
  with r show ?thesis by (auto simp: rising_def sorted_wrt_append)
qed

lemma append_record_ok:
  assumes r: "record_ok i r" and cs: "cs \<noteq> []"
    and ck: "check_seqs (if tc_chunks r = [] then 0 else ch_seq (last (tc_chunks r))) cs = None"
  shows "record_ok i \<lparr>tc_session = raise_next (tc_session r) (tc_chunks r @ cs), tc_chunks = tc_chunks r @ cs\<rparr>"
proof -
  note c = check_seqs_rising [OF ck]
  have all: "list_all (\<lambda>c. 0 < ch_seq c) (tc_chunks r @ cs)" using r c by (auto simp: record_ok_def list_all_iff)
  have "tc_chunks r = [] \<or> list_all (\<lambda>c. ch_seq (last (tc_chunks r)) < ch_seq c) cs" using c by (auto simp: list_all_iff)
  then have "rising (tc_chunks r @ cs)" using r c rising_append by (auto simp: record_ok_def)
  moreover have "0 < ch_seq (last (tc_chunks r @ cs))" using all cs by (simp add: list_all_iff)
  ultimately show ?thesis using r cs all raise_next_above [of "tc_chunks r @ cs" "tc_session r"] by (simp add: record_ok_def)
qed

lemma save_record_ok:
  assumes "cs_id s \<noteq> []" and "cs = [] \<or> (\<exists>r. record_ok (cs_id s) r \<and> tc_chunks r = cs)"
  shows "record_ok (cs_id s) \<lparr>tc_session = raise_next s cs, tc_chunks = cs\<rparr>"
proof (cases "cs = []")
  case False
  then have "rising cs" "list_all (\<lambda>c. 0 < ch_seq c) cs" using assms(2) by (auto simp: record_ok_def)
  moreover from this have "0 < ch_seq (last cs)" using False by (simp add: list_all_iff)
  ultimately show ?thesis using raise_next_above [OF False] assms(1) False by (simp add: record_ok_def)
qed (use assms(1) in \<open>simp add: record_ok_def rising_def\<close>)

lemma guard_some: "transcript_guard ctxerr i (Some m) = Inr m' \<Longrightarrow> m' = m \<and> i \<noteq> []"
  by (auto simp: transcript_guard_def split: option.splits if_splits)

lemma Save_updates:
  assumes "SaveCommandSession ctxerr s (Some m) = (Some m', e)" and "transcripts_ok m"
  shows "m' = m \<or> (\<exists>r. m' = AList.update (cs_id s) r m \<and> record_ok (cs_id s) r
    \<and> tc_chunks r = (case map_of m (cs_id s) of None \<Rightarrow> [] | Some q \<Rightarrow> tc_chunks q))"
proof (cases "transcript_guard ctxerr (cs_id s) (Some m)")
  case (Inr m1)
  let ?cs = "case map_of m (cs_id s) of None \<Rightarrow> [] | Some q \<Rightarrow> tc_chunks q"
  have "m' = AList.update (cs_id s) \<lparr>tc_session = raise_next s ?cs, tc_chunks = ?cs\<rparr> m"
    using assms(1) Inr guard_some [OF Inr] by (auto simp: SaveCommandSession_def Let_def)
  moreover have "record_ok (cs_id s) \<lparr>tc_session = raise_next s ?cs, tc_chunks = ?cs\<rparr>"
    by (rule save_record_ok) (use guard_some [OF Inr] assms(2) in \<open>auto simp: transcripts_ok_def split: option.splits\<close>)
  ultimately show ?thesis by auto
qed (use assms(1) in \<open>simp add: SaveCommandSession_def\<close>)

lemma Append_updates:
  assumes "AppendCommandOutput ctxerr i cs (Some m) = (Some m', e)" and "transcripts_ok m"
  shows "m' = m \<or> (\<exists>q r. map_of m i = Some q \<and> m' = AList.update i r m \<and> record_ok i r \<and> tc_chunks r = tc_chunks q @ cs)"
proof (cases "m' = m")
  case False
  then obtain q where q: "map_of m i = Some q" "cs \<noteq> []"
      "check_seqs (if tc_chunks q = [] then 0 else ch_seq (last (tc_chunks q))) cs = None"
      "m' = AList.update i \<lparr>tc_session = raise_next (tc_session q) (tc_chunks q @ cs), tc_chunks = tc_chunks q @ cs\<rparr> m"
    using assms(1) by (auto simp: AppendCommandOutput_def Let_def dest!: guard_some split: sum.splits if_splits option.splits)
  then have "record_ok i q" using assms(2) by (simp add: transcripts_ok_def)
  from append_record_ok [OF this q(2,3)] q(1,4) show ?thesis by auto
qed simp

text \<open>
  Every reachable transcript store keeps each session under its id with its chunks in rising order of positive sequence
  numbers and the next number above them (but for the largest number of all).
\<close>

lemma transcript_step_ok: "transcript_step m m' \<Longrightarrow> transcripts_ok m \<Longrightarrow> transcripts_ok m'"
proof (induction rule: transcript_step.induct)
  case (save ctxerr s m m' e)
  from Save_updates [OF save] save(2) show ?case by (auto simp: transcripts_ok_def split: if_splits)
next
  case (append ctxerr i cs m m' e)
  from Append_updates [OF append] append(2) show ?case by (auto simp: transcripts_ok_def split: if_splits)
next
  case (delete ctxerr i m m' e)
  then show ?case
    by (auto simp: transcripts_ok_def DeleteCommandSession_def delete_conv' dest!: guard_some split: sum.splits if_splits)
qed

theorem transcripts_ordered:
  assumes "transcript_step\<^sup>*\<^sup>* [] m" and "map_of m i = Some r"
  shows "record_ok i r"
proof -
  have "transcripts_ok m" using assms(1)
    by (induction rule: rtranclp_induct) (auto simp: transcript_step_ok transcripts_ok_def [of "[]"])
  with assms(2) show ?thesis by (simp add: transcripts_ok_def)
qed

text \<open>A step keeps the stored output of a session as the start of its output, unless it deletes the session.\<close>

theorem transcripts_only_grow:
  assumes "transcript_step m m'" and "transcripts_ok m" and "map_of m i = Some r"
  shows "map_of m' i = None \<or> (\<exists>r'. map_of m' i = Some r' \<and> prefix (tc_chunks r) (tc_chunks r'))"
  using assms(1)
proof cases
  case (save ctxerr s e)
  from Save_updates [OF save assms(2)] assms(3) show ?thesis by (cases "i = cs_id s") auto
next
  case (append ctxerr j cs e)
  from Append_updates [OF append assms(2)] assms(3) show ?thesis by (cases "i = j") auto
next
  case (delete ctxerr j e)
  then show ?thesis using assms(3) by (cases "i = j") (auto simp: DeleteCommandSession_def delete_conv' dest!: guard_some split: sum.splits)
qed

end
