(* ===== verification/Command_Sessions.thy ===== *)
theory Command_Sessions
  imports Command_Output Keyed_Store
begin

text \<open>
  \<open>toolkit/commandtools/os_sessions.go\<close>: live command sessions. Output goroutines, the waiter, timers, stops and resizes act on
  a session under its lock; each locked region is one operation here, and the goroutines interleave at these operations.
  Processes, pipes and terminals belong to the host. The persistence of output is an interface (\<open>cmd_store\<close>) acting on a
  world \<open>'w\<close>, implemented by the in-memory transcript store.
\<close>

section \<open>The session\<close>

text \<open>
  How far the finishing of a session is: not begun, status set, handles closed and \<open>done\<close> closed.
\<close>

datatype finish_pc = NotFinished | Finishing | Finished

text \<open>
  Besides the fields of the source: \<open>lv_all\<close> is all output captured so far, \<open>lv_owed\<close> the persistence errors of goroutines
  that have left the locked region and will append a diagnostic, \<open>lv_told\<close> the number of those appended.
\<close>

record live_session =
  lv_session :: cmd_session
  lv_output :: "output_chunk list"
  lv_bytes :: int
  lv_stop :: bool
  lv_timed_out :: bool
  lv_draining :: bool
  lv_disabled :: bool
  lv_terminal :: bool
  lv_stdin :: bool
  lv_finish :: finish_pc
  lv_all :: "output_chunk list"
  lv_owed :: "string list"
  lv_told :: nat

record buffer_limits =
  bl_chunks :: int
  bl_bytes :: int

record 'w cmd_store =
  st_save :: "'w \<Rightarrow> cmd_session \<Rightarrow> 'w \<times> cmd_err option"
  st_append :: "'w \<Rightarrow> string \<Rightarrow> output_chunk list \<Rightarrow> 'w \<times> cmd_err option"

text \<open>The eviction loop drops the oldest chunks until the buffer fits; an empty buffer has no bytes.\<close>

fun evict :: "int \<Rightarrow> int \<Rightarrow> output_chunk list \<Rightarrow> int \<Rightarrow> output_chunk list \<times> int \<times> output_chunk list" where
  "evict mc mb [] b = ([], b, [])"
| "evict mc mb (c # cs) b =
     (if mc < int (length (c # cs)) \<or> mb < b
      then case evict mc mb cs (b - int (length (ch_text c))) of (out, b', dropped) \<Rightarrow> (out, b', c # dropped)
      else (c # cs, b, []))"

definition text_bytes :: "output_chunk list \<Rightarrow> int" where
  "text_bytes cs = sum_list (map (\<lambda>c. int (length (ch_text c))) cs)"

definition appendChunkLocked ::
  "buffer_limits \<Rightarrow> gotime \<Rightarrow> string \<Rightarrow> string \<Rightarrow> live_session \<Rightarrow> output_chunk \<times> bool \<times> live_session" where
  "appendChunkLocked bl now stream txt0 s =
     (let ses = lv_session s;
          c = \<lparr>ch_seq = cs_next_seq ses, ch_stream = stream, ch_text = txt0, ch_time = now\<rparr>
      in case evict (bl_chunks bl) (bl_bytes bl) (lv_output s @ [c]) (lv_bytes s + int (length txt0)) of
           (out, b, dropped) \<Rightarrow>
             (c, dropped \<noteq> [],
              s\<lparr>lv_session := ses\<lparr>cs_next_seq := i64 (cs_next_seq ses + 1),
                   cs_dropped_chunks := cs_dropped_chunks ses + int (length dropped),
                   cs_dropped_bytes := cs_dropped_bytes ses + text_bytes dropped\<rparr>,
                lv_output := out, lv_bytes := b, lv_all := lv_all s @ [c]\<rparr>))"

definition persistedSnapshotLocked :: "live_session \<Rightarrow> cmd_session" where
  "persistedSnapshotLocked s = (lv_session s)\<lparr>cs_dropped_chunks := 0, cs_dropped_bytes := 0\<rparr>"

definition persist_failed :: "string \<Rightarrow> live_session \<Rightarrow> live_session" where
  "persist_failed msg s = s\<lparr>lv_disabled := True, lv_owed := lv_owed s @ [msg]\<rparr>"

fun cmd_msg :: "cmd_err \<Rightarrow> string" where
  "cmd_msg (CPlain e) = err_msg e"
| "cmd_msg (CKind k m) = m"
| "cmd_msg (CWrap p e) = p @ cmd_msg e"

definition persistSnapshotLocked :: "'w cmd_store option \<Rightarrow> 'w \<times> live_session \<Rightarrow> 'w \<times> live_session" where
  "persistSnapshotLocked store ws =
     (case (ws, store) of
        ((w, s), None) \<Rightarrow> (w, s)
      | ((w, s), Some T) \<Rightarrow>
          if lv_disabled s then (w, s)
          else (case st_save T w (persistedSnapshotLocked s) of
                  (w', None) \<Rightarrow> (w', s)
                | (w', Some e) \<Rightarrow>
                    (w', persist_failed (''persist command transcript session '' @ cs_id (lv_session s) @ '': '' @ cmd_msg e) s)))"

definition persistOutputLocked :: "'w cmd_store option \<Rightarrow> output_chunk \<Rightarrow> bool \<Rightarrow> 'w \<times> live_session \<Rightarrow> 'w \<times> live_session" where
  "persistOutputLocked store c snapshot ws =
     (case (ws, store) of
        ((w, s), None) \<Rightarrow> (w, s)
      | ((w, s), Some T) \<Rightarrow>
          if lv_disabled s then (w, s)
          else (case st_append T w (cs_id (lv_session s)) [c] of
                  (w', Some e) \<Rightarrow>
                    (w', persist_failed (''persist command transcript output '' @ cs_id (lv_session s) @ ''/'' @ show_int (ch_seq c)
                       @ '': '' @ cmd_msg e) s)
                | (w', None) \<Rightarrow> if snapshot then persistSnapshotLocked store (w', s) else (w', s)))"

text \<open>The locked region of \<open>appendOutput\<close> and that of \<open>appendPersistenceDiagnostic\<close>.\<close>

definition appendOutput ::
  "buffer_limits \<Rightarrow> 'w cmd_store option \<Rightarrow> gotime \<Rightarrow> string \<Rightarrow> string \<Rightarrow> 'w \<times> live_session \<Rightarrow> 'w \<times> live_session" where
  "appendOutput bl store now stream txt0 ws =
     (if txt0 = [] then ws
      else case appendChunkLocked bl now stream txt0 (snd ws) of
             (c, dropped, s') \<Rightarrow> persistOutputLocked store c dropped (fst ws, s'))"

definition appendPersistenceDiagnostic :: "buffer_limits \<Rightarrow> gotime \<Rightarrow> live_session \<Rightarrow> live_session" where
  "appendPersistenceDiagnostic bl now s =
     (case lv_owed s of
        [] \<Rightarrow> s
      | m # ms \<Rightarrow>
          (case appendChunkLocked bl now ''stderr'' (''[commandtools] transcript persistence disabled: '' @ m @ [CHR 10]) s of
             (c, dropped, s') \<Rightarrow> s'\<lparr>lv_owed := ms, lv_told := Suc (lv_told s)\<rparr>))"

text \<open>\<open>finish\<close> runs once: its locked region, and after it the closing of the handles and of \<open>done\<close>.\<close>

definition finish_status :: "'w cmd_store option \<Rightarrow> gotime \<Rightarrow> int \<Rightarrow> 'w \<times> live_session \<Rightarrow> 'w \<times> live_session" where
  "finish_status store now code ws =
     (let s = snd ws
      in if lv_finish s \<noteq> NotFinished then ws
         else persistSnapshotLocked store
           (fst ws,
            s\<lparr>lv_session := (lv_session s)\<lparr>cs_status := (if lv_stop s then SessionStopped else SessionExited), cs_finished := Some now,
                 cs_exit := Some code, cs_timed_out := lv_timed_out s\<rparr>,
              lv_finish := Finishing\<rparr>))"

definition finish_close :: "live_session \<Rightarrow> live_session" where
  "finish_close s = (if lv_finish s = Finishing then s\<lparr>lv_stdin := False, lv_terminal := False, lv_finish := Finished\<rparr> else s)"

definition stop_request :: "live_session \<Rightarrow> live_session" where
  "stop_request s = s\<lparr>lv_stop := True\<rparr>"

definition session_timeout :: "live_session \<Rightarrow> live_session" where
  "session_timeout s = (if cs_status (lv_session s) \<noteq> SessionRunning then s else s\<lparr>lv_timed_out := True\<rparr>)"

definition resize_apply :: "'w cmd_store option \<Rightarrow> int \<Rightarrow> int \<Rightarrow> 'w \<times> live_session \<Rightarrow> 'w \<times> live_session" where
  "resize_apply store cols rows ws =
     persistSnapshotLocked store (fst ws, (snd ws)\<lparr>lv_session := (lv_session (snd ws))\<lparr>cs_cols := cols, cs_rows := rows\<rparr>\<rparr>)"

text \<open>Only terminals of some platforms are closed to drain them (\<open>drainable\<close>).\<close>

definition closeTerminalForDrain :: "bool \<Rightarrow> live_session \<Rightarrow> live_session" where
  "closeTerminalForDrain drainable s = (if lv_terminal s \<and> drainable then s\<lparr>lv_terminal := False, lv_draining := True\<rparr> else s)"

definition forceCloseReaders_flag :: "live_session \<Rightarrow> live_session" where
  "forceCloseReaders_flag s = s\<lparr>lv_draining := True\<rparr>"

text \<open>What a new session is; it starts numbering at one.\<close>

definition new_live :: "cmd_session \<Rightarrow> bool \<Rightarrow> bool \<Rightarrow> live_session" where
  "new_live ses stdin terminal =
     \<lparr>lv_session = ses\<lparr>cs_status := SessionRunning, cs_finished := None, cs_exit := None, cs_timed_out := False, cs_next_seq := 1,
        cs_dropped_chunks := 0, cs_dropped_bytes := 0\<rparr>,
      lv_output = [], lv_bytes = 0, lv_stop = False, lv_timed_out = False, lv_draining = False, lv_disabled = False,
      lv_terminal = terminal, lv_stdin = stdin, lv_finish = NotFinished, lv_all = [], lv_owed = [], lv_told = 0\<rparr>"

section \<open>Operations of callers\<close>

definition live_read :: "int \<Rightarrow> int \<Rightarrow> int \<Rightarrow> live_session \<Rightarrow> read_result" where
  "live_read after mc mb s = paginateOutputChunks (lv_session s) (lv_output s) after mc mb"

definition hasAdvanced :: "int \<Rightarrow> live_session \<Rightarrow> bool" where
  "hasAdvanced after s \<longleftrightarrow> after < cs_next_seq (lv_session s) - 1 \<or> cs_status (lv_session s) \<noteq> SessionRunning"

definition not_running :: "string \<Rightarrow> cmd_err" where
  "not_running i = CKind ErrCommandSessionNotRunning (''commandtools: command session '' @ i @ '' is not running'')"

record write_result =
  ww_session :: cmd_session
  ww_chunks :: "output_chunk list"
  ww_next :: int
  ww_bytes :: int

text \<open>
  \<open>writeInput\<close>: \<open>s\<close> is the session when its state is looked at, \<open>s1\<close> when the input handle is taken, \<open>s2\<close> when the
  output is read; \<open>werr\<close> is the error of the write, \<open>waited\<close> that of waiting for an update.
\<close>

definition writeInput ::
  "live_session \<Rightarrow> live_session \<Rightarrow> live_session \<Rightarrow> err option \<Rightarrow> err option \<Rightarrow> string \<Rightarrow> int \<Rightarrow> int \<Rightarrow> cmd_err + write_result" where
  "writeInput s s1 s2 werr waited input mc mb =
     (let ses = lv_session s; n = int (length input)
      in if cs_status ses \<noteq> SessionRunning
         then Inr \<lparr>ww_session = ses, ww_chunks = [], ww_next = cs_next_seq ses, ww_bytes = n\<rparr>
         else case (if input = [] then None
                    else if \<not> lv_stdin s1 \<and> \<not> lv_terminal s1
                    then Some (if lv_draining s1 then not_running (cs_id ses)
                               else CKind ErrCommandSessionStdinClosed (''commandtools: command session '' @ cs_id ses @ '' stdin is closed''))
                    else map_option (\<lambda>e. CWrap (''commandtools: write input to command session '' @ cs_id ses @ '': '') (CPlain e)) werr) of
                Some e \<Rightarrow> Inl e
              | None \<Rightarrow>
                  (case waited of
                     Some e \<Rightarrow> Inl (CPlain e)
                   | None \<Rightarrow>
                       (let r = live_read (max 0 (cs_next_seq ses - 1)) mc mb s2
                        in Inr \<lparr>ww_session = rs_session r, ww_chunks = rs_chunks r, ww_next = rs_next r, ww_bytes = n\<rparr>)))"

text \<open>The checks of \<open>resizeTerminal\<close> before the terminal is resized.\<close>

definition resize_check :: "live_session \<Rightarrow> cmd_err option" where
  "resize_check s =
     (let ses = lv_session s
      in if \<not> cs_tty ses
         then Some (CKind ErrCommandSessionNotPTY (''commandtools: command session '' @ cs_id ses @ '' is not PTY-backed''))
         else if cs_status ses \<noteq> SessionRunning then Some (not_running (cs_id ses))
         else if \<not> lv_terminal s
         then Some (if lv_draining s then not_running (cs_id ses)
                    else CKind ErrCommandSessionTerminalClosed (''commandtools: command session '' @ cs_id ses @ '' terminal is closed''))
         else None)"

section \<open>Interleavings of a session\<close>

inductive session_step ::
  "buffer_limits \<Rightarrow> 'w cmd_store option \<Rightarrow> 'w \<times> live_session \<Rightarrow> 'w \<times> live_session \<Rightarrow> bool" for bl store where
  capture: "cs_next_seq (lv_session s) < 2 ^ 63 - 1 \<Longrightarrow> session_step bl store (w, s) (appendOutput bl store now stream txt0 (w, s))"
| diagnose: "cs_next_seq (lv_session s) < 2 ^ 63 - 1 \<Longrightarrow>
    session_step bl store (w, s) (w, appendPersistenceDiagnostic bl now s)"
| resize: "session_step bl store (w, s) (resize_apply store cols rows (w, s))"
| timeout: "session_step bl store (w, s) (w, session_timeout s)"
| stop: "session_step bl store (w, s) (w, stop_request s)"
| drain: "session_step bl store (w, s) (w, closeTerminalForDrain drainable s)"
| force: "session_step bl store (w, s) (w, forceCloseReaders_flag s)"
| finish: "session_step bl store (w, s) (finish_status store now code (w, s))"
| close: "session_step bl store (w, s) (w, finish_close s)"

text \<open>
  The invariant: output is numbered from one without gaps, the buffer is the newest part of it within the limits, what was
  dropped is counted, and the session has an end time and an exit code exactly when it no longer runs.
\<close>

definition numbered :: "output_chunk list \<Rightarrow> bool" where
  "numbered cs \<longleftrightarrow> map ch_seq cs = map (\<lambda>k. int k + 1) [0..<length cs]"

definition buffer_ok :: "buffer_limits \<Rightarrow> live_session \<Rightarrow> bool" where
  "buffer_ok bl s \<longleftrightarrow> numbered (lv_all s) \<and> cs_next_seq (lv_session s) = int (length (lv_all s)) + 1
     \<and> (\<exists>old. lv_all s = old @ lv_output s \<and> cs_dropped_chunks (lv_session s) = int (length old)
           \<and> cs_dropped_bytes (lv_session s) = text_bytes old)
     \<and> lv_bytes s = text_bytes (lv_output s) \<and> int (length (lv_output s)) \<le> bl_chunks bl \<and> lv_bytes s \<le> bl_bytes bl"

definition lifecycle_ok :: "live_session \<Rightarrow> bool" where
  "lifecycle_ok s \<longleftrightarrow> (if lv_finish s = NotFinished
     then cs_status (lv_session s) = SessionRunning \<and> cs_finished (lv_session s) = None \<and> cs_exit (lv_session s) = None
     else cs_status (lv_session s) \<in> {SessionExited, SessionStopped} \<and> cs_finished (lv_session s) \<noteq> None \<and> cs_exit (lv_session s) \<noteq> None)"

definition diagnostics_ok :: "live_session \<Rightarrow> bool" where
  "diagnostics_ok s \<longleftrightarrow> length (lv_owed s) + lv_told s = (if lv_disabled s then 1 else 0)"

definition live_ok :: "buffer_limits \<Rightarrow> live_session \<Rightarrow> bool" where
  "live_ok bl s \<longleftrightarrow> buffer_ok bl s \<and> lifecycle_ok s \<and> diagnostics_ok s"

lemmas live_defs = live_ok_def buffer_ok_def lifecycle_ok_def diagnostics_ok_def

lemma text_bytes_simps [simp]: "text_bytes [] = 0" "text_bytes (c # cs) = int (length (ch_text c)) + text_bytes cs"
    "text_bytes (cs @ ds) = text_bytes cs + text_bytes ds"
  by (simp_all add: text_bytes_def)

lemma text_bytes_nonneg: "0 \<le> text_bytes cs"
  by (induction cs) simp_all

text \<open>Eviction drops a prefix and stops within the limits.\<close>

lemma evict_spec:
  assumes "b = text_bytes cs" and "0 \<le> mc" and "0 \<le> mb" and "evict mc mb cs b = (out, b', dropped)"
  shows "cs = dropped @ out \<and> b' = text_bytes out \<and> int (length out) \<le> mc \<and> b' \<le> mb"
  using assms
proof (induction cs arbitrary: b out b' dropped)
  case (Cons c cs)
  show ?case
  proof (cases "mc < int (length (c # cs)) \<or> mb < b")
    case True
    obtain o1 b1 d1 where e: "evict mc mb cs (b - int (length (ch_text c))) = (o1, b1, d1)" by (metis prod_cases3)
    have "b - int (length (ch_text c)) = text_bytes cs" using Cons.prems(1) by simp
    from Cons.IH [OF this Cons.prems(2,3) e] Cons.prems(4) True e show ?thesis by (auto simp: Let_def)
  qed (use Cons.prems in auto)
qed simp

lemma numbered_snoc: "numbered (cs @ [c]) \<longleftrightarrow> numbered cs \<and> ch_seq c = int (length cs) + 1"
  by (auto simp: numbered_def)

definition positive_limits :: "buffer_limits \<Rightarrow> bool" where
  "positive_limits bl \<longleftrightarrow> 0 < bl_chunks bl \<and> 0 < bl_bytes bl"

lemma appendChunk_ok:
  assumes "positive_limits bl" and "buffer_ok bl s" and "cs_next_seq (lv_session s) < 2 ^ 63 - 1"
    and "appendChunkLocked bl now stream txt0 s = (c, d, s')"
  shows "buffer_ok bl s' \<and> lv_all s' = lv_all s @ [c] \<and> cs_next_seq (lv_session s) = ch_seq c"
proof -
  obtain out b dropped where ev: "evict (bl_chunks bl) (bl_bytes bl) (lv_output s @ [c]) (lv_bytes s + int (length txt0)) = (out, b, dropped)"
    by (metis prod_cases3)
  have c: "c = \<lparr>ch_seq = cs_next_seq (lv_session s), ch_stream = stream, ch_text = txt0, ch_time = now\<rparr>"
    using assms(4) by (auto simp: appendChunkLocked_def Let_def split: prod.splits)
  have s': "s' = s\<lparr>lv_session := (lv_session s)\<lparr>cs_next_seq := i64 (cs_next_seq (lv_session s) + 1),
      cs_dropped_chunks := cs_dropped_chunks (lv_session s) + int (length dropped),
      cs_dropped_bytes := cs_dropped_bytes (lv_session s) + text_bytes dropped\<rparr>, lv_output := out, lv_bytes := b, lv_all := lv_all s @ [c]\<rparr>"
    using assms(4) ev by (auto simp: appendChunkLocked_def Let_def c)
  obtain old where old: "lv_all s = old @ lv_output s" "cs_dropped_chunks (lv_session s) = int (length old)"
      "cs_dropped_bytes (lv_session s) = text_bytes old" using assms(2) by (auto simp: buffer_ok_def)
  have "lv_bytes s + int (length txt0) = text_bytes (lv_output s @ [c])" using assms(2) by (simp add: buffer_ok_def c)
  from evict_spec [OF this _ _ ev] assms(1) have e: "lv_output s @ [c] = dropped @ out" "b = text_bytes out"
      "int (length out) \<le> bl_chunks bl" "b \<le> bl_bytes bl" by (auto simp: positive_limits_def)
  have nx: "i64 (cs_next_seq (lv_session s) + 1) = cs_next_seq (lv_session s) + 1"
    using assms(2,3) by (intro i64_nonneg_id) (auto simp: buffer_ok_def)
  have "numbered (lv_all s @ [c])" using assms(2) by (simp add: numbered_snoc buffer_ok_def c)
  moreover have split: "lv_all s @ [c] = (old @ dropped) @ out" using old(1) e(1) by simp
  moreover have "length (lv_all s @ [c]) = length ((old @ dropped) @ out)" by (rule arg_cong [OF split])
  then have "int (length (lv_all s)) + 1 = int (length old) + int (length dropped) + int (length out)" by simp
  moreover have "ch_seq c = cs_next_seq (lv_session s)" by (simp add: c)
  moreover have "cs_next_seq (lv_session s) = int (length (lv_all s)) + 1" using assms(2) by (simp add: buffer_ok_def)
  ultimately show ?thesis using old(2,3) e(2,3,4) nx
    unfolding buffer_ok_def s' by (auto simp del: append_assoc intro!: exI [of _ "old @ dropped"])
qed

lemma appendChunk_frame:
  assumes "appendChunkLocked bl now stream txt0 s = (c, d, s')"
  shows "lv_finish s' = lv_finish s \<and> lv_owed s' = lv_owed s \<and> lv_told s' = lv_told s \<and> lv_disabled s' = lv_disabled s
    \<and> cs_status (lv_session s') = cs_status (lv_session s) \<and> cs_finished (lv_session s') = cs_finished (lv_session s)
    \<and> cs_exit (lv_session s') = cs_exit (lv_session s) \<and> cs_id (lv_session s') = cs_id (lv_session s)"
  using assms by (auto simp: appendChunkLocked_def Let_def split: prod.splits)

lemma persist_failed_ok: "live_ok bl s \<Longrightarrow> \<not> lv_disabled s \<Longrightarrow> live_ok bl (persist_failed m s)"
  by (auto simp: live_defs persist_failed_def)

lemma persistSnapshot_ok: "live_ok bl s \<Longrightarrow> live_ok bl (snd (persistSnapshotLocked store (w, s)))"
  by (auto simp: persistSnapshotLocked_def persist_failed_ok split: option.splits prod.splits)

lemma persistOutput_ok: "live_ok bl s \<Longrightarrow> live_ok bl (snd (persistOutputLocked store c d (w, s)))"
  using persistSnapshot_ok by (auto simp: persistOutputLocked_def persist_failed_ok split: option.splits prod.splits) fastforce+

lemma appendOutput_ok:
  assumes "positive_limits bl" and "live_ok bl s" and "cs_next_seq (lv_session s) < 2 ^ 63 - 1"
  shows "live_ok bl (snd (appendOutput bl store now stream txt0 (w, s)))"
proof (cases "txt0 = []")
  case False
  obtain c d s1 where a: "appendChunkLocked bl now stream txt0 s = (c, d, s1)" by (metis prod_cases3)
  have "live_ok bl s1"
    using appendChunk_ok [OF assms(1) _ assms(3) a] appendChunk_frame [OF a] assms(2)
    by (auto simp: live_ok_def lifecycle_ok_def diagnostics_ok_def split: if_splits)
  then show ?thesis using False persistOutput_ok by (simp add: appendOutput_def a)
qed (use assms(2) in \<open>simp add: appendOutput_def\<close>)

lemma diagnostic_ok:
  assumes "positive_limits bl" and "live_ok bl s" and "cs_next_seq (lv_session s) < 2 ^ 63 - 1"
  shows "live_ok bl (appendPersistenceDiagnostic bl now s)"
proof (cases "lv_owed s")
  case (Cons m ms)
  obtain c d s1 where a: "appendChunkLocked bl now ''stderr'' (''[commandtools] transcript persistence disabled: '' @ m @ [CHR 10]) s = (c, d, s1)"
    by (metis prod_cases3)
  have b: "buffer_ok bl s1" using appendChunk_ok [OF assms(1) _ assms(3) a] assms(2) by (simp add: live_ok_def)
  then have "buffer_ok bl (s1\<lparr>lv_owed := ms, lv_told := Suc (lv_told s)\<rparr>)" by (simp add: buffer_ok_def)
  then show ?thesis using appendChunk_frame [OF a] assms(2) Cons a
    by (simp add: appendPersistenceDiagnostic_def live_ok_def) (auto simp: lifecycle_ok_def diagnostics_ok_def)
qed (use assms(2) in \<open>simp add: appendPersistenceDiagnostic_def\<close>)

lemma finish_ok:
  assumes "live_ok bl s"
  shows "live_ok bl (snd (finish_status store now code (w, s)))"
proof (cases "lv_finish s = NotFinished")
  case True
  let ?s = "s\<lparr>lv_session := (lv_session s)\<lparr>cs_status := (if lv_stop s then SessionStopped else SessionExited), cs_finished := Some now,
                 cs_exit := Some code, cs_timed_out := lv_timed_out s\<rparr>, lv_finish := Finishing\<rparr>"
  have "live_ok bl ?s" using assms by (auto simp: live_defs)
  from persistSnapshot_ok [OF this, of store w] show ?thesis using True unfolding finish_status_def Let_def by (simp split del: if_split)
qed (use assms in \<open>simp add: finish_status_def\<close>)

lemma session_step_ok: "session_step bl store ws ws' \<Longrightarrow> positive_limits bl \<Longrightarrow> live_ok bl (snd ws) \<Longrightarrow> live_ok bl (snd ws')"
proof (induction rule: session_step.induct)
  case (capture s w now stream txt0)
  then show ?case using appendOutput_ok by auto
next
  case (diagnose s w now)
  then show ?case using diagnostic_ok by auto
next
  case (resize w s cols rows)
  then show ?case unfolding resize_apply_def by (intro persistSnapshot_ok) (auto simp: live_defs)
next
  case (finish w s now code)
  then show ?case using finish_ok by auto
qed (auto simp: live_defs session_timeout_def stop_request_def closeTerminalForDrain_def forceCloseReaders_flag_def finish_close_def)

lemma new_live_ok: "positive_limits bl \<Longrightarrow> live_ok bl (new_live ses stdin terminal)"
  by (auto simp: live_defs new_live_def positive_limits_def numbered_def)

lemma reachable_live_ok:
  assumes "(session_step bl store)\<^sup>*\<^sup>* (w0, new_live ses stdin terminal) (w, s)" and "positive_limits bl"
  shows "live_ok bl s"
proof -
  have "live_ok bl (snd ws)" if "(session_step bl store)\<^sup>*\<^sup>* (w0, new_live ses stdin terminal) ws" for ws
    using that by (induction rule: rtranclp_induct) (auto simp: new_live_ok assms(2) dest: session_step_ok)
  from this [OF assms(1)] show ?thesis by simp
qed

section \<open>Properties of a session\<close>

text \<open>
  C26. However the goroutines of a session interleave, and whatever its transcript store does, its output is numbered from
  one without gaps, the buffer holds the newest chunks within both limits, the counts of dropped chunks and bytes are those
  of the chunks before it, and at most one diagnostic tells of a failure of the store.
\<close>

theorem session_output_exact:
  assumes "(session_step bl store)\<^sup>*\<^sup>* (w0, new_live ses stdin terminal) (w, s)" and "positive_limits bl"
  shows "\<exists>old. lv_all s = old @ lv_output s \<and> map ch_seq (lv_all s) = map (\<lambda>k. int k + 1) [0..<length (lv_all s)]
    \<and> cs_next_seq (lv_session s) = int (length (lv_all s)) + 1
    \<and> cs_dropped_chunks (lv_session s) = int (length old) \<and> cs_dropped_bytes (lv_session s) = text_bytes old
    \<and> int (length (lv_output s)) \<le> bl_chunks bl \<and> text_bytes (lv_output s) \<le> bl_bytes bl \<and> lv_told s \<le> 1"
proof -
  have ok: "live_ok bl s" by (rule reachable_live_ok [OF assms])
  then obtain old where "lv_all s = old @ lv_output s" "cs_dropped_chunks (lv_session s) = int (length old)"
      "cs_dropped_bytes (lv_session s) = text_bytes old" by (auto simp: live_ok_def buffer_ok_def)
  with ok show ?thesis
    by (intro exI [of _ old]) (auto simp: live_ok_def buffer_ok_def numbered_def diagnostics_ok_def split: if_splits)
qed

definition small_limits :: buffer_limits where
  "small_limits = \<lparr>bl_chunks = 1, bl_bytes = 10\<rparr>"

theorem session_output_exact_witness:
  "\<exists>s old. (session_step small_limits None)\<^sup>*\<^sup>* ((), new_live sample_session True False) ((), s) \<and> positive_limits small_limits
    \<and> lv_all s = old @ lv_output s \<and> length (lv_all s) = 2 \<and> length old = 1"
proof -
  let ?s0 = "new_live sample_session True False"
  let ?s1 = "snd (appendOutput small_limits None 5 ''stdout'' ''a'' ((), ?s0))"
  let ?s2 = "snd (appendOutput small_limits None 6 ''stdout'' ''b'' ((), ?s1))"
  have n: "cs_next_seq (lv_session ?s0) = 1" "cs_next_seq (lv_session ?s1) = 2" "length (lv_all ?s2) = 2"
    by (simp_all add: new_live_def appendOutput_def appendChunkLocked_def persistOutputLocked_def small_limits_def Let_def i64_def)
  have step: "session_step small_limits None ((), s) ((), snd (appendOutput small_limits None now st t ((), s)))"
    if "cs_next_seq (lv_session s) < 2 ^ 63 - 1" for s now st t
    using session_step.capture [OF that, of small_limits None "()" now st t] by (metis (full_types) old.unit.exhaust prod.collapse)
  have "session_step small_limits None ((), ?s0) ((), ?s1)" "session_step small_limits None ((), ?s1) ((), ?s2)"
    using step [of ?s0 5 "''stdout''" "''a''"] step [of ?s1 6 "''stdout''" "''b''"] n by simp_all
  then have r: "(session_step small_limits None)\<^sup>*\<^sup>* ((), ?s0) ((), ?s2)" by auto
  have p: "positive_limits small_limits" by (simp add: positive_limits_def small_limits_def)
  from session_output_exact [OF r p] obtain old where old: "lv_all ?s2 = old @ lv_output ?s2"
    "cs_dropped_chunks (lv_session ?s2) = int (length old)" by (elim exE conjE) (rule that; assumption)
  have "cs_dropped_chunks (lv_session ?s2) = 1"
    by (simp add: new_live_def appendOutput_def appendChunkLocked_def persistOutputLocked_def small_limits_def Let_def i64_def)
  then have "length old = 1" using old(2) by simp
  with r p old(1) n(3) show ?thesis by blast
qed

text \<open>
  A session that no longer runs keeps its status, end time and exit code; it was stopped when a stop was requested before
  its process ended, and has exited otherwise.
\<close>

lemma persist_session_same: "lv_session (snd (persistSnapshotLocked store (w, s))) = lv_session s"
    "lv_finish (snd (persistSnapshotLocked store (w, s))) = lv_finish s"
  by (auto simp: persistSnapshotLocked_def persist_failed_def split: option.splits prod.splits)

lemma persist_output_same: "lv_session (snd (persistOutputLocked store c d (w, s))) = lv_session s"
    "lv_finish (snd (persistOutputLocked store c d (w, s))) = lv_finish s"
  by (auto simp: persistOutputLocked_def persist_failed_def persist_session_same split: option.splits prod.splits)

definition settled_as :: "live_session \<Rightarrow> live_session \<Rightarrow> bool" where
  "settled_as s s' \<longleftrightarrow> cs_status (lv_session s') = cs_status (lv_session s) \<and> cs_finished (lv_session s') = cs_finished (lv_session s)
     \<and> cs_exit (lv_session s') = cs_exit (lv_session s) \<and> lv_finish s' \<noteq> NotFinished"

lemma session_step_settled:
  assumes "session_step bl store ws ws'" and "lv_finish (snd ws) \<noteq> NotFinished"
  shows "settled_as (snd ws) (snd ws')"
  using assms
proof (induction rule: session_step.induct)
  case (capture s w now stream txt0)
  obtain c d s1 where a: "appendChunkLocked bl now stream txt0 s = (c, d, s1)" by (metis prod_cases3)
  then show ?case using capture appendChunk_frame [OF a]
    by (simp add: appendOutput_def settled_as_def a persist_output_same)
next
  case (diagnose s w now)
  show ?case
  proof (cases "lv_owed s")
    case (Cons m ms)
    obtain c d s1 where a: "appendChunkLocked bl now ''stderr'' (''[commandtools] transcript persistence disabled: '' @ m @ [CHR 10]) s = (c, d, s1)"
      by (metis prod_cases3)
    then show ?thesis using diagnose appendChunk_frame [OF a] Cons by (simp add: appendPersistenceDiagnostic_def settled_as_def)
  qed (use diagnose in \<open>simp add: appendPersistenceDiagnostic_def settled_as_def\<close>)
qed (auto simp: settled_as_def resize_apply_def persist_session_same session_timeout_def stop_request_def closeTerminalForDrain_def
    forceCloseReaders_flag_def finish_close_def finish_status_def)

theorem ended_session_final:
  assumes "(session_step bl store)\<^sup>*\<^sup>* ws ws'" and "lv_finish (snd ws) \<noteq> NotFinished"
  shows "settled_as (snd ws) (snd ws')"
  using assms(1)
proof (induction rule: rtranclp_induct)
  case base
  then show ?case using assms(2) by (simp add: settled_as_def)
next
  case (step y z)
  then have "lv_finish (snd y) \<noteq> NotFinished" by (simp add: settled_as_def)
  from session_step_settled [OF step(2) this] step(3) show ?case by (simp add: settled_as_def)
qed

theorem stop_decides_status:
  assumes "lv_finish s = NotFinished"
  shows "cs_status (lv_session (snd (finish_status store now code (w, s)))) = (if lv_stop s then SessionStopped else SessionExited)
    \<and> cs_exit (lv_session (snd (finish_status store now code (w, s)))) = Some code"
  using assms by (simp add: finish_status_def Let_def persist_session_same)

section \<open>The durable transcript\<close>

text \<open>The stored output is the start of the captured one, and all of it while persistence works.\<close>

definition mirrors :: "('w \<Rightarrow> string \<Rightarrow> output_chunk list option) \<Rightarrow> string \<Rightarrow> 'w \<times> live_session \<Rightarrow> bool" where
  "mirrors chunks_of i ws \<longleftrightarrow> cs_id (lv_session (snd ws)) = i \<and> (lv_owed (snd ws) = [] \<or> lv_disabled (snd ws)) \<and> (\<exists>cs. chunks_of (fst ws) i = Some cs \<and> prefix cs (lv_all (snd ws))
     \<and> (lv_disabled (snd ws) \<or> cs = lv_all (snd ws)))"

text \<open>
  What a session needs of its transcript store: saving a snapshot keeps the stored output, appending adds to it or, when it
  fails, leaves everything as it was.
\<close>

locale transcript_contract =
  fixes T :: "'w cmd_store" and chunks_of :: "'w \<Rightarrow> string \<Rightarrow> output_chunk list option"
  assumes save_keeps: "st_save T w ses = (w', e) \<Longrightarrow> chunks_of w i = Some cs \<Longrightarrow> chunks_of w' i = Some cs"
    and append_adds: "st_append T w i ds = (w', None) \<Longrightarrow> chunks_of w i = Some cs \<Longrightarrow> chunks_of w' i = Some (cs @ ds)"
    and append_fails: "st_append T w i ds = (w', Some x) \<Longrightarrow> chunks_of w i = Some cs \<Longrightarrow> chunks_of w' i = Some cs"
begin

lemma snapshot_mirrors: "mirrors chunks_of i (w, s) \<Longrightarrow> mirrors chunks_of i (persistSnapshotLocked (Some T) (w, s))"
  by (auto simp: mirrors_def persistSnapshotLocked_def persist_failed_def dest: save_keeps split: prod.splits option.splits)

lemma output_mirrors:
  assumes "cs_id (lv_session s) = i" and "lv_owed s = [] \<or> lv_disabled s" and "chunks_of w i = Some cs" and "prefix cs xs" and "lv_disabled s \<or> cs = xs" and "lv_all s = xs @ [c]"
  shows "mirrors chunks_of i (persistOutputLocked (Some T) c d (w, s))"
proof (cases "lv_disabled s")
  case True
  then show ?thesis using assms by (auto simp: mirrors_def persistOutputLocked_def)
next
  case False
  obtain w' e where a: "st_append T w (cs_id (lv_session s)) [c] = (w', e)" by fastforce
  show ?thesis
  proof (cases e)
    case None
    then have "mirrors chunks_of i (w', s)" using assms False a append_adds [of w i "[c]" w' cs] by (auto simp: mirrors_def)
    then show ?thesis using False a None snapshot_mirrors by (auto simp: persistOutputLocked_def)
  next
    case (Some x)
    then show ?thesis using assms False a append_fails [of w i "[c]" w' x cs]
      by (auto simp: mirrors_def persistOutputLocked_def persist_failed_def)
  qed
qed

lemma step_mirrors: "session_step bl (Some T) ws ws' \<Longrightarrow> mirrors chunks_of i ws \<Longrightarrow> mirrors chunks_of i ws'"
proof (induction rule: session_step.induct)
  case (capture s w now stream txt0)
  obtain c d s1 where a: "appendChunkLocked bl now stream txt0 s = (c, d, s1)" by (metis prod_cases3)
  have all: "lv_all s1 = lv_all s @ [c]" using a by (auto simp: appendChunkLocked_def Let_def split: prod.splits)
  show ?case using capture(2) appendChunk_frame [OF a] all output_mirrors [of s1 i w _ "lv_all s" c d]
    by (auto simp: appendOutput_def a mirrors_def)
next
  case (diagnose s w now)
  show ?case
  proof (cases "lv_owed s")
    case (Cons m ms)
    obtain c d s1 where a: "appendChunkLocked bl now ''stderr'' (''[commandtools] transcript persistence disabled: '' @ m @ [CHR 10]) s = (c, d, s1)"
      by (metis prod_cases3)
    have "lv_all s1 = lv_all s @ [c]" using a by (auto simp: appendChunkLocked_def Let_def split: prod.splits)
    then show ?thesis using diagnose(2) appendChunk_frame [OF a] Cons a
      by (auto simp: appendPersistenceDiagnostic_def mirrors_def)
  qed (use diagnose in \<open>simp add: appendPersistenceDiagnostic_def\<close>)
next
  case (resize w s cols rows)
  then show ?case unfolding resize_apply_def by (simp) (rule snapshot_mirrors, simp add: mirrors_def)
next
  case (finish w s now code)
  let ?s = "s\<lparr>lv_session := (lv_session s)\<lparr>cs_status := (if lv_stop s then SessionStopped else SessionExited), cs_finished := Some now,
                 cs_exit := Some code, cs_timed_out := lv_timed_out s\<rparr>, lv_finish := Finishing\<rparr>"
  have "mirrors chunks_of i (w, ?s)" using finish by (simp add: mirrors_def)
  from snapshot_mirrors [OF this] finish show ?case
    by (cases "lv_finish s = NotFinished") (simp_all add: finish_status_def Let_def split del: if_split)
qed (auto simp: mirrors_def session_timeout_def stop_request_def closeTerminalForDrain_def forceCloseReaders_flag_def finish_close_def)

theorem reachable_mirrors: "(session_step bl (Some T))\<^sup>*\<^sup>* ws ws' \<Longrightarrow> mirrors chunks_of i ws \<Longrightarrow> mirrors chunks_of i ws'"
  by (induction rule: rtranclp_induct) (auto dest: step_mirrors)

end

text \<open>The in-memory store keeps the contract.\<close>

definition MemTranscripts :: "transcripts option cmd_store" where
  "MemTranscripts = \<lparr>st_save = (\<lambda>w s. SaveCommandSession None s w), st_append = (\<lambda>w i cs. AppendCommandOutput None i cs w)\<rparr>"

definition mem_chunks :: "transcripts option \<Rightarrow> string \<Rightarrow> output_chunk list option" where
  "mem_chunks w i = (case w of None \<Rightarrow> None | Some m \<Rightarrow> map_option tc_chunks (map_of m i))"

lemma mem_save:
  assumes "SaveCommandSession None ses w = (w', e)" and "mem_chunks w i = Some cs"
  shows "mem_chunks w' i = Some cs \<and> (cs_id ses = [] \<or> e = None)"
proof (cases w)
  case (Some m)
  then show ?thesis using assms
    by (cases "cs_id ses = []"; cases "i = cs_id ses")
      (auto simp: SaveCommandSession_def transcript_guard_def mem_chunks_def Let_def split: option.splits)
qed (use assms(2) in \<open>simp add: mem_chunks_def\<close>)

lemma mem_append:
  assumes "AppendCommandOutput None i ds w = (w', e)" and "mem_chunks w i = Some cs"
  shows "if e = None then mem_chunks w' i = Some (cs @ ds) else mem_chunks w' i = Some cs"
proof (cases w)
  case (Some m)
  then show ?thesis using assms
    by (auto simp: AppendCommandOutput_def transcript_guard_def mem_chunks_def Let_def split: option.splits if_splits)
qed (use assms(2) in \<open>simp add: mem_chunks_def\<close>)

interpretation mem_transcript: transcript_contract MemTranscripts mem_chunks
proof
  show "st_save MemTranscripts w ses = (w', e) \<Longrightarrow> mem_chunks w i = Some cs \<Longrightarrow> mem_chunks w' i = Some cs" for w ses w' e i cs
    by (auto simp: MemTranscripts_def dest: mem_save)
  show "st_append MemTranscripts w i ds = (w', None) \<Longrightarrow> mem_chunks w i = Some cs \<Longrightarrow> mem_chunks w' i = Some (cs @ ds)" for w i ds w' cs
    by (auto simp: MemTranscripts_def dest: mem_append)
  show "st_append MemTranscripts w i ds = (w', Some x) \<Longrightarrow> mem_chunks w i = Some cs \<Longrightarrow> mem_chunks w' i = Some cs" for w i ds w' x cs
    by (auto simp: MemTranscripts_def dest: mem_append)
qed

text \<open>Its checks accept what a session appends, so that persistence is never switched off.\<close>

definition mirror_ok :: "buffer_limits \<Rightarrow> string \<Rightarrow> transcripts option \<times> live_session \<Rightarrow> bool" where
  "mirror_ok bl i ws \<longleftrightarrow> i \<noteq> [] \<and> live_ok bl (snd ws) \<and> mirrors mem_chunks i ws \<and> \<not> lv_disabled (snd ws)"

lemma mem_snapshot_accepted:
  assumes "i \<noteq> []" and "cs_id (lv_session s) = i" and "mem_chunks w i = Some cs" and "\<not> lv_disabled s"
  shows "\<not> lv_disabled (snd (persistSnapshotLocked (Some MemTranscripts) (w, s)))"
proof -
  obtain w' e where sv: "SaveCommandSession None (persistedSnapshotLocked s) w = (w', e)" by fastforce
  have "e = None" using mem_save [OF sv assms(3)] assms(1,2) by (simp add: persistedSnapshotLocked_def)
  then show ?thesis using sv assms(4) by (simp add: persistSnapshotLocked_def MemTranscripts_def)
qed

lemma numbered_last: "numbered cs \<Longrightarrow> cs \<noteq> [] \<Longrightarrow> ch_seq (last cs) = int (length cs)"
proof (cases cs rule: rev_cases)
  case (snoc ys y)
  assume "numbered cs"
  then show ?thesis using snoc by (simp add: numbered_snoc)
qed simp

lemma mem_output_accepted:
  assumes "i \<noteq> []" and "cs_id (lv_session s) = i" and "mem_chunks w i = Some xs" and "numbered (xs @ [c])" and "\<not> lv_disabled s"
  shows "\<not> lv_disabled (snd (persistOutputLocked (Some MemTranscripts) c d (w, s)))"
proof -
  obtain w' e where ap: "AppendCommandOutput None i [c] w = (w', e)" by fastforce
  obtain m r where m: "w = Some m" "map_of m i = Some r" "tc_chunks r = xs" using assms(3) by (auto simp: mem_chunks_def split: option.splits)
  have "ch_seq c = int (length xs) + 1" "numbered xs" using assms(4) by (simp_all add: numbered_snoc)
  then have "check_seqs (if xs = [] then 0 else ch_seq (last xs)) [c] = None" using numbered_last [of xs] by simp
  then have e: "e = None" using ap m assms(1) by (auto simp: AppendCommandOutput_def transcript_guard_def Let_def)
  from mem_append [OF ap assms(3)] e have "mem_chunks w' i = Some (xs @ [c])" by simp
  then show ?thesis using ap e assms mem_snapshot_accepted [OF assms(1,2) _ assms(5), of w']
    by (simp add: persistOutputLocked_def MemTranscripts_def [symmetric]) (simp add: MemTranscripts_def)
qed

lemma mirror_step:
  assumes "session_step bl (Some MemTranscripts) ws ws'" and p: "positive_limits bl" and "mirror_ok bl i ws"
  shows "mirror_ok bl i ws'"
proof -
  have ok: "live_ok bl (snd ws')" "mirrors mem_chunks i ws'"
    using assms session_step_ok [OF assms(1) p] mem_transcript.step_mirrors [OF assms(1), of i] by (auto simp: mirror_ok_def)
  have i: "i \<noteq> []" and live: "live_ok bl (snd ws)" and en: "\<not> lv_disabled (snd ws)" and mir: "cs_id (lv_session (snd ws)) = i"
      "mem_chunks (fst ws) i = Some (lv_all (snd ws))" "lv_owed (snd ws) = []"
    using assms(3) by (auto simp: mirror_ok_def mirrors_def)
  from assms(1) have "\<not> lv_disabled (snd ws')"
  proof cases
    case (capture s w now stream txt0)
    obtain c d s1 where a: "appendChunkLocked bl now stream txt0 s = (c, d, s1)" by (metis prod_cases3)
    have "numbered (lv_all s @ [c])"
      using appendChunk_ok [OF p _ capture(3) a] live capture(1) by (metis live_ok_def buffer_ok_def snd_conv)
    then show ?thesis using mem_output_accepted [of i s1 w "lv_all s" c d] appendChunk_frame [OF a] i mir en capture(1,2)
      by (simp add: appendOutput_def a)
  next
    case (resize w s cols rows)
    then show ?thesis using mem_snapshot_accepted [OF i, of "s\<lparr>lv_session := (lv_session s)\<lparr>cs_cols := cols, cs_rows := rows\<rparr>\<rparr>" w] mir en
      by (simp add: resize_apply_def)
  next
    case (finish w s now code)
    then show ?thesis using mem_snapshot_accepted [OF i _ _, of "s\<lparr>lv_session := (lv_session s)\<lparr>cs_status := (if lv_stop s then SessionStopped else SessionExited), cs_finished := Some now,
                 cs_exit := Some code, cs_timed_out := lv_timed_out s\<rparr>, lv_finish := Finishing\<rparr>" w] mir en
      by (cases "lv_finish s = NotFinished") (simp_all add: finish_status_def Let_def split del: if_split)
  qed (use en mir in \<open>auto simp: appendPersistenceDiagnostic_def session_timeout_def stop_request_def closeTerminalForDrain_def
      forceCloseReaders_flag_def finish_close_def\<close>)
  with ok i show ?thesis by (simp add: mirror_ok_def)
qed

text \<open>
  C27. With the in-memory transcript store a session's transcript is complete: whatever the interleaving, the store holds
  exactly the output captured so far, also what the bounded buffer has dropped, and persistence stays on.
\<close>

theorem durable_transcript_complete:
  assumes path: "(session_step bl (Some MemTranscripts))\<^sup>*\<^sup>* (Some m0, new_live ses stdin terminal) (w, s)"
    and "positive_limits bl" and "cs_id ses \<noteq> []" and "map_of m0 (cs_id ses) = Some r0" and "tc_chunks r0 = []"
  shows "mem_chunks w (cs_id ses) = Some (lv_all s) \<and> \<not> lv_disabled s"
proof -
  have start: "mirror_ok bl (cs_id ses) (Some m0, new_live ses stdin terminal)"
    using assms(3,4,5) new_live_ok [OF assms(2)] by (simp add: mirror_ok_def mirrors_def mem_chunks_def) (simp add: new_live_def)
  have "mirror_ok bl (cs_id ses) ws" if "(session_step bl (Some MemTranscripts))\<^sup>*\<^sup>* (Some m0, new_live ses stdin terminal) ws" for ws
    using that by (induction rule: rtranclp_induct) (use start in \<open>auto dest: mirror_step [OF _ assms(2)]\<close>)
  from this [OF path] show ?thesis by (auto simp: mirror_ok_def mirrors_def)
qed

definition sample_record :: cmd_record where
  "sample_record = \<lparr>tc_session = sample_session, tc_chunks = []\<rparr>"

theorem durable_transcript_complete_witness:
  "\<exists>w s. (session_step small_limits (Some MemTranscripts))\<^sup>*\<^sup>*
       (Some [(cs_id sample_session, sample_record)], new_live sample_session True False) (w, s)
     \<and> lv_all s \<noteq> [] \<and> mem_chunks w (cs_id sample_session) = Some (lv_all s)"
proof -
  let ?m = "[(cs_id sample_session, sample_record)]" and ?s0 = "new_live sample_session True False"
  obtain w s where ws: "appendOutput small_limits (Some MemTranscripts) 5 ''stdout'' ''a'' (Some ?m, ?s0) = (w, s)" by fastforce
  have "session_step small_limits (Some MemTranscripts) (Some ?m, ?s0) (w, s)"
    using session_step.capture [of ?s0 small_limits "Some MemTranscripts" "Some ?m" 5 "''stdout''" "''a''"] ws by (simp add: new_live_def)
  then have path: "(session_step small_limits (Some MemTranscripts))\<^sup>*\<^sup>* (Some ?m, ?s0) (w, s)" by blast
  have "mem_chunks w (cs_id sample_session) = Some (lv_all s)"
    using durable_transcript_complete [OF path] by (simp add: positive_limits_def small_limits_def sample_session_def sample_record_def)
  moreover have "lv_all s \<noteq> []"
    using ws by (auto simp: appendOutput_def appendChunkLocked_def persistOutputLocked_def persistSnapshotLocked_def persist_failed_def Let_def
        split: prod.splits option.splits if_splits)
  ultimately show ?thesis using path by blast
qed

end
