(* ===== verification/Session_Tools.thy ===== *)
theory Session_Tools
  imports Command_Sessions
begin

text \<open>
  \<open>toolkit/commandtools/sessions.go\<close>: the tools with which an agent starts, reads, waits for, writes to, resizes, stops and
  lists command sessions, over the interface of a session manager; what they tell the model; and the scripted manager.
  Decoding of JSON inputs and the input schemas are arguments. The parent session and identity that every request carries
  are kept where a manager stores them, in the start request, and left out elsewhere: no manager reads them.
\<close>

section \<open>Requests\<close>

definition defaultWriteYield :: duration where "defaultWriteYield = 250 * 1000000"
definition defaultWaitTimeout :: duration where "defaultWaitTimeout = 5 * 1000000000"
definition defaultSessionTimeout :: duration where "defaultSessionTimeout = 3600 * 1000000000"
definition defaultTTYCols :: int where "defaultTTYCols = 80"
definition defaultTTYRows :: int where "defaultTTYRows = 24"
definition maxTTYDimension :: int where "maxTTYDimension = 32767"

record start_request =
  sq_id :: string
  sq_session :: string
  sq_parent :: string
  sq_identity :: "agent_identity option"
  sq_command :: string
  sq_argv :: "string list"
  sq_cwd :: string
  sq_env :: "(string, string) gomap"
  sq_stdin :: string
  sq_tty :: bool
  sq_cols :: int
  sq_rows :: int
  sq_timeout :: duration
  sq_purpose :: string
  sq_metadata :: metadata

record wait_request =
  wt_id :: string
  wt_session :: string
  wt_after :: int
  wt_timeout :: duration
  wt_chunks :: int
  wt_bytes :: int

record write_request =
  wq_id :: string
  wq_session :: string
  wq_input :: string
  wq_yield :: duration
  wq_chunks :: int
  wq_bytes :: int

record resize_request =
  zq_id :: string
  zq_session :: string
  zq_cols :: int
  zq_rows :: int

record stop_req =
  tq_id :: string
  tq_session :: string
  tq_force :: bool

definition validateTTYDimensions :: "int \<Rightarrow> int \<Rightarrow> err option" where
  "validateTTYDimensions cols rows =
     (if cols \<le> 0 \<or> rows \<le> 0 then Some (EText ''commandtools: cols and rows must be positive'')
      else if maxTTYDimension < cols \<or> maxTTYDimension < rows
      then Some (EText (''commandtools: cols and rows must be <= '' @ show_int maxTTYDimension))
      else None)"

definition normalizeStartTTYDimensions :: "bool \<Rightarrow> int \<Rightarrow> int \<Rightarrow> err + int \<times> int" where
  "normalizeStartTTYDimensions tty cols rows =
     (if \<not> tty then (if 0 < cols \<or> 0 < rows then Inl (EText ''commandtools: cols and rows require tty=true'') else Inr (0, 0))
      else if (0 < cols) \<noteq> (0 < rows) then Inl (EText ''commandtools: cols and rows must be set together'')
      else if cols = 0 \<and> rows = 0 then Inr (defaultTTYCols, defaultTTYRows)
      else case validateTTYDimensions cols rows of Some e \<Rightarrow> Inl e | None \<Rightarrow> Inr (cols, rows))"

text \<open>The fields that the exec and the shell form of a start input share.\<close>

record start_input =
  si_id :: string
  si_cwd :: string
  si_env :: "(string, string) gomap"
  si_stdin :: string
  si_tty :: bool
  si_cols :: int
  si_rows :: int
  si_timeout_ms :: int
  si_purpose :: string
  si_metadata :: metadata

definition start_request_of :: "string \<Rightarrow> string list \<Rightarrow> start_input \<Rightarrow> int \<times> int \<Rightarrow> start_request" where
  "start_request_of command argv i dims =
     \<lparr>sq_id = trim_space (si_id i), sq_session = [], sq_parent = [], sq_identity = None, sq_command = command, sq_argv = argv,
      sq_cwd = trim_space (si_cwd i), sq_env = cmd_cloneStringMap (si_env i), sq_stdin = si_stdin i, sq_tty = si_tty i,
      sq_cols = fst dims, sq_rows = snd dims,
      sq_timeout = (if 0 < si_timeout_ms i then ms_duration (si_timeout_ms i) else defaultSessionTimeout),
      sq_purpose = trim_space (si_purpose i), sq_metadata = CloneMetadata (si_metadata i)\<rparr>"

definition startRequestFromInput :: "string list \<Rightarrow> start_input \<Rightarrow> err + start_request" where
  "startRequestFromInput command i =
     (let argv = normalizeArgv command
      in if argv = [] then Inl (EText ''commandtools: command must contain at least one argv element'')
         else case normalizeStartTTYDimensions (si_tty i) (si_cols i) (si_rows i) of
                Inl e \<Rightarrow> Inl e
              | Inr dims \<Rightarrow> Inr (start_request_of [] argv i dims))"

definition startRequestFromShellInput :: "bool \<Rightarrow> string list \<Rightarrow> string \<Rightarrow> start_input \<Rightarrow> err + start_request" where
  "startRequestFromShellInput windows shell command0 i =
     (let command = trim_space command0
      in if command = [] then Inl (EText ''commandtools: command must not be empty'')
         else case normalizeStartTTYDimensions (si_tty i) (si_cols i) (si_rows i) of
                Inl e \<Rightarrow> Inl e
              | Inr dims \<Rightarrow> Inr (start_request_of command (shellArgv windows command shell) i dims))"

section \<open>What the model is told\<close>

definition commandSessionDisplay :: "cmd_session \<Rightarrow> string" where
  "commandSessionDisplay s = (if trim_space (cs_command s) \<noteq> [] then trim_space (cs_command s) else join '' '' (cs_argv s))"

definition size_text :: "cmd_session \<Rightarrow> string" where
  "size_text s = show_int (cs_cols s) @ ''x'' @ show_int (cs_rows s)"

text \<open>The lines on status and terminal with which the texts on starting, reading, writing and stopping begin.\<close>

definition status_lines :: "cmd_session \<Rightarrow> string" where
  "status_lines s =
     nl @ ''status: '' @ cs_status s
     @ (if cs_tty s
        then nl @ ''tty: true'' @ (if 0 < cs_cols s \<and> 0 < cs_rows s then nl @ ''size: '' @ size_text s else [])
        else [])"

definition formatSessionStart :: "cmd_session \<Rightarrow> string" where
  "formatSessionStart s =
     ''started command session '' @ cs_id s @ '': '' @ commandSessionDisplay s @ status_lines s
     @ (if cs_cwd s \<noteq> [] then nl @ ''cwd: '' @ cs_cwd s else [])
     @ (if cs_pid s \<noteq> 0 then nl @ ''pid: '' @ show_int (cs_pid s) else [])
     @ (if cs_purpose s \<noteq> [] then nl @ ''purpose: '' @ cs_purpose s else [])"

definition chunk_lines :: "output_chunk list \<Rightarrow> string" where
  "chunk_lines cs =
     (if cs = [] then nl @ ''no new output''
      else concat (map (\<lambda>c. nl @ ''['' @ ch_stream c @ '' #'' @ show_int (ch_seq c) @ '']'' @ nl @ ch_text c) cs))"

definition dropped_line :: "cmd_session \<Rightarrow> string" where
  "dropped_line s = (if 0 < cs_dropped_chunks s then nl @ ''dropped_chunks: '' @ show_int (cs_dropped_chunks s) else [])"

definition formatSessionRead :: "read_result \<Rightarrow> int \<Rightarrow> string" where
  "formatSessionRead r after =
     ''command output for '' @ cs_id (rs_session r) @ '': '' @ commandSessionDisplay (rs_session r) @ status_lines (rs_session r)
     @ nl @ ''next_seq: '' @ show_int (rs_next r) @ nl @ ''resume_after_seq: '' @ show_int (resumeAfterSeq r after)
     @ dropped_line (rs_session r) @ chunk_lines (rs_chunks r)"

definition writeResumeAfterSeq :: "write_result \<Rightarrow> int" where
  "writeResumeAfterSeq r = resumeAfterSeq \<lparr>rs_session = ww_session r, rs_chunks = ww_chunks r, rs_next = ww_next r\<rparr> 0"

definition formatSessionWrite :: "write_result \<Rightarrow> string" where
  "formatSessionWrite r =
     ''wrote input to command session '' @ cs_id (ww_session r) @ '': '' @ commandSessionDisplay (ww_session r) @ status_lines (ww_session r)
     @ nl @ ''input_bytes: '' @ show_int (ww_bytes r) @ nl @ ''next_seq: '' @ show_int (ww_next r)
     @ nl @ ''resume_after_seq: '' @ show_int (writeResumeAfterSeq r)
     @ dropped_line (ww_session r) @ chunk_lines (ww_chunks r)"

definition formatSessionResize :: "cmd_session \<Rightarrow> string" where
  "formatSessionResize s =
     ''resized command session '' @ cs_id s @ '': '' @ commandSessionDisplay s @ nl @ ''status: '' @ cs_status s
     @ (if cs_tty s then nl @ ''tty: true'' else [])
     @ (if 0 < cs_cols s \<and> 0 < cs_rows s then nl @ ''size: '' @ size_text s else [])"

definition formatSessionStop :: "cmd_session \<Rightarrow> string" where
  "formatSessionStop s =
     ''stopped command session '' @ cs_id s @ '': '' @ commandSessionDisplay s @ status_lines s
     @ (case cs_exit s of None \<Rightarrow> [] | Some n \<Rightarrow> nl @ ''exit_code: '' @ show_int n)
     @ (if cs_timed_out s then nl @ ''timed_out: true'' else [])"

definition sessionMetadata :: "cmd_session \<Rightarrow> metadata" where
  "sessionMetadata s =
     [(''command_session_id'', VString (cs_id s)), (MetadataCommandArgv, VStrings (cs_argv s)), (MetadataCommandCWD, VString (cs_cwd s)),
      (''command_status'', VString (cs_status s)), (''command_pid'', VInt (cs_pid s)), (''command_tty'', VBool (cs_tty s)),
      (''command_signals_process_tree'', VBool (cs_tree s)), (''command_started_at'', VString (rfc3339_nano (cs_started s))),
      (MetadataCommandTimedOut, VBool (cs_timed_out s)), (''command_next_seq'', VInt (cs_next_seq s))]
     @ (if trim_space (cs_command s) \<noteq> [] then [(MetadataCommandString, VString (cs_command s))] else [])
     @ (if cs_tty s then [(''command_cols'', VInt (cs_cols s)), (''command_rows'', VInt (cs_rows s))] else [])
     @ (case cs_finished s of None \<Rightarrow> [] | Some t \<Rightarrow> [(''command_finished_at'', VString (rfc3339_nano t))])
     @ (case cs_exit s of None \<Rightarrow> [] | Some n \<Rightarrow> [(MetadataCommandExitCode, VInt n)])
     @ (if 0 < cs_dropped_chunks s then [(''command_dropped_chunks'', VInt (cs_dropped_chunks s))] else [])
     @ (if 0 < cs_dropped_bytes s then [(''command_dropped_bytes'', VInt (cs_dropped_bytes s))] else [])"

definition session_tool_result :: "string \<Rightarrow> metadata \<Rightarrow> string \<Rightarrow> tool_result" where
  "session_tool_result op md content =
     \<lparr>tr_use_id = [], tr_name = [], tr_content = content, tr_is_error = False,
      tr_metadata = AList.update MetadataCommandOperation (VString op) md\<rparr>"

definition with_cursor :: "int \<Rightarrow> int \<Rightarrow> output_chunk list \<Rightarrow> metadata \<Rightarrow> metadata" where
  "with_cursor next resume cs md =
     AList.update ''command_output_chunks'' (VInt (int (length cs)))
       (AList.update ''command_resume_after_seq'' (VInt resume) (AList.update ''command_next_seq'' (VInt next) md))"

definition startResult :: "cmd_session \<Rightarrow> tool_result" where
  "startResult s = session_tool_result ''start'' (sessionMetadata s) (formatSessionStart s)"

definition readResult :: "read_result \<Rightarrow> int \<Rightarrow> tool_result" where
  "readResult r after =
     session_tool_result ''read'' (with_cursor (rs_next r) (resumeAfterSeq r after) (rs_chunks r) (sessionMetadata (rs_session r)))
       (formatSessionRead r after)"

definition waitResult :: "read_result \<Rightarrow> int \<Rightarrow> tool_result" where
  "waitResult r after =
     session_tool_result ''wait'' (with_cursor (rs_next r) (resumeAfterSeq r after) (rs_chunks r) (sessionMetadata (rs_session r)))
       (formatSessionRead r after)"

definition writeResult :: "write_result \<Rightarrow> tool_result" where
  "writeResult r =
     session_tool_result ''write''
       (with_cursor (ww_next r) (writeResumeAfterSeq r) (ww_chunks r)
          (AList.update ''command_input_bytes'' (VInt (ww_bytes r)) (sessionMetadata (ww_session r))))
       (formatSessionWrite r)"

definition resizeResult :: "cmd_session \<Rightarrow> tool_result" where
  "resizeResult s = session_tool_result ''resize'' (sessionMetadata s) (formatSessionResize s)"

definition stopResult :: "cmd_session \<Rightarrow> tool_result" where
  "stopResult s = session_tool_result ''stop'' (sessionMetadata s) (formatSessionStop s)"

definition list_line :: "cmd_session \<Rightarrow> string" where
  "list_line s =
     cs_id s @ [CHR 9] @ cs_status s @ [CHR 9] @ commandSessionDisplay s
     @ (if cs_tty s
        then [CHR 9] @ ''tty=true'' @ (if 0 < cs_cols s \<and> 0 < cs_rows s then [CHR 9] @ ''size='' @ size_text s else [])
        else [])
     @ (if cs_cwd s \<noteq> [] then [CHR 9] @ ''cwd='' @ cs_cwd s else [])
     @ (case cs_exit s of None \<Rightarrow> [] | Some n \<Rightarrow> [CHR 9] @ ''exit_code='' @ show_int n)"

definition listResult :: "cmd_session list \<Rightarrow> tool_result" where
  "listResult ss =
     \<lparr>tr_use_id = [], tr_name = [], tr_content = (if ss = [] then ''no command sessions'' else join nl (map list_line ss)),
      tr_is_error = False, tr_metadata = [(''count'', VInt (int (length ss)))]\<rparr>"

section \<open>The tools\<close>

text \<open>The interface of a session manager; waiting, writing and resizing are optional.\<close>

record 'w session_manager =
  sm_start :: "'w \<Rightarrow> start_request \<Rightarrow> 'w \<times> (cmd_err + cmd_session)"
  sm_read :: "'w \<Rightarrow> read_request \<Rightarrow> 'w \<times> (cmd_err + read_result)"
  sm_stop :: "'w \<Rightarrow> stop_req \<Rightarrow> 'w \<times> (cmd_err + cmd_session)"
  sm_list :: "'w \<Rightarrow> list_request \<Rightarrow> 'w \<times> (cmd_err + cmd_session list)"
  sm_wait :: "('w \<Rightarrow> wait_request \<Rightarrow> 'w \<times> (cmd_err + read_result)) option"
  sm_write :: "('w \<Rightarrow> write_request \<Rightarrow> 'w \<times> (cmd_err + write_result)) option"
  sm_resize :: "('w \<Rightarrow> resize_request \<Rightarrow> 'w \<times> (cmd_err + cmd_session)) option"

record read_input =
  ri_id :: string
  ri_after :: int
  ri_limit :: int
  ri_bytes :: int

record wait_input =
  wi_id :: string
  wi_after :: int
  wi_timeout_ms :: "int option"
  wi_limit :: int
  wi_bytes :: int

record write_input =
  xi_id :: string
  xi_input :: string
  xi_newline :: bool
  xi_yield_ms :: "int option"
  xi_limit :: int
  xi_bytes :: int

record resize_input =
  zi_id :: string
  zi_cols :: int
  zi_rows :: int

record stop_input =
  ti_id :: string
  ti_force :: bool

record list_input =
  li_completed :: bool
  li_limit :: int

text \<open>
  The decoders of the tools' inputs (\<open>tool.DecodeInput\<close>, for the start tool followed by \<open>startRequestFromInput\<close> or
  \<open>startRequestFromShellInput\<close>) and the input schema of each tool.
\<close>

record session_lib =
  sl_start :: "tool_use \<Rightarrow> err + start_request"
  sl_read :: "tool_use \<Rightarrow> err + read_input"
  sl_wait :: "tool_use \<Rightarrow> err + wait_input"
  sl_write :: "tool_use \<Rightarrow> err + write_input"
  sl_resize :: "tool_use \<Rightarrow> err + resize_input"
  sl_stop :: "tool_use \<Rightarrow> err + stop_input"
  sl_list :: "tool_use \<Rightarrow> err + list_input"
  sl_schema :: "string \<Rightarrow> metadata"

type_synonym 'w session_tool = "tool_spec \<times> (call_runtime \<Rightarrow> 'w \<Rightarrow> tool_use \<Rightarrow> 'w \<times> (cmd_err + tool_result))"

definition session_spec :: "session_lib \<Rightarrow> string \<Rightarrow> string \<Rightarrow> string \<Rightarrow> bool \<Rightarrow> bool \<Rightarrow> int \<Rightarrow> tool_spec" where
  "session_spec L name desc hint ro destructive mx =
     \<lparr>ts_name = name, ts_description = desc, ts_input_schema = sl_schema L name, ts_search_hint = hint, ts_read_only = ro,
      ts_concurrency_safe = ro, ts_destructive = destructive, ts_always_load = False, ts_should_defer = False,
      ts_max_result_bytes = mx\<rparr>"

text \<open>The shape of the handlers: call the manager, turn what it returns into a tool result.\<close>

definition answer :: "('a \<Rightarrow> tool_result) \<Rightarrow> 'w \<times> (cmd_err + 'a) \<Rightarrow> 'w \<times> (cmd_err + tool_result)" where
  "answer f r = (case r of (w, Inl e) \<Rightarrow> (w, Inl e) | (w, Inr x) \<Rightarrow> (w, Inr (f x)))"

abbreviation id_required :: cmd_err where "id_required \<equiv> ctext ''commandtools: id is required''"

definition NewStartTool :: "session_lib \<Rightarrow> 'w session_manager \<Rightarrow> 'w session_tool" where
  "NewStartTool L M =
     (session_spec L ''start_command'' ''Start a host-owned command session that can be inspected or stopped in later turns.''
        ''start background command dev server watcher process session'' False True (8 * 1024),
      \<lambda>rt w use.
        case sl_start L use of
          Inl e \<Rightarrow> (w, Inl (CPlain e))
        | Inr req \<Rightarrow>
            answer startResult
              (sm_start M w (req\<lparr>sq_session := rt_session rt, sq_parent := rt_parent rt, sq_identity := Some (rt_identity rt)\<rparr>)))"

definition NewReadOutputTool :: "session_lib \<Rightarrow> 'w session_manager \<Rightarrow> 'w session_tool" where
  "NewReadOutputTool L M =
     (session_spec L ''read_command_output'' ''Read newly available buffered output from a managed command session.''
        ''read command output logs session process watcher server'' True False (32 * 1024),
      \<lambda>rt w use.
        case sl_read L use of
          Inl e \<Rightarrow> (w, Inl (CPlain e))
        | Inr i \<Rightarrow>
            if trim_space (ri_id i) = [] then (w, Inl id_required)
            else answer (\<lambda>r. readResult r (ri_after i))
              (sm_read M w \<lparr>rd_id = trim_space (ri_id i), rd_session = rt_session rt, rd_after = ri_after i, rd_chunks = ri_limit i,
                 rd_bytes = ri_bytes i\<rparr>))"

definition NewWaitTool ::
  "session_lib \<Rightarrow> ('w \<Rightarrow> wait_request \<Rightarrow> 'w \<times> (cmd_err + read_result)) \<Rightarrow> 'w session_tool" where
  "NewWaitTool L waiter =
     (session_spec L ''wait_command_output'' ''Wait for fresh output or status changes from a managed command session.''
        ''wait monitor command output logs session process watcher server'' True False (32 * 1024),
      \<lambda>rt w use.
        case sl_wait L use of
          Inl e \<Rightarrow> (w, Inl (CPlain e))
        | Inr i \<Rightarrow>
            if trim_space (wi_id i) = [] then (w, Inl id_required)
            else answer (\<lambda>r. waitResult r (wi_after i))
              (waiter w \<lparr>wt_id = trim_space (wi_id i), wt_session = rt_session rt, wt_after = wi_after i,
                 wt_timeout = (case wi_timeout_ms i of None \<Rightarrow> defaultWaitTimeout | Some ms \<Rightarrow> ms_duration ms),
                 wt_chunks = wi_limit i, wt_bytes = wi_bytes i\<rparr>))"

definition NewWriteInputTool ::
  "session_lib \<Rightarrow> ('w \<Rightarrow> write_request \<Rightarrow> 'w \<times> (cmd_err + write_result)) \<Rightarrow> 'w session_tool" where
  "NewWriteInputTool L writer =
     (session_spec L ''write_command_input'' ''Write input to a managed command session and optionally wait briefly for new output.''
        ''write send input stdin interact command session process watcher repl terminal'' False True (32 * 1024),
      \<lambda>rt w use.
        case sl_write L use of
          Inl e \<Rightarrow> (w, Inl (CPlain e))
        | Inr i \<Rightarrow>
            if trim_space (xi_id i) = [] then (w, Inl id_required)
            else answer writeResult
              (writer w \<lparr>wq_id = trim_space (xi_id i), wq_session = rt_session rt,
                 wq_input = (if xi_newline i then xi_input i @ nl else xi_input i),
                 wq_yield = (case xi_yield_ms i of None \<Rightarrow> defaultWriteYield | Some ms \<Rightarrow> ms_duration ms),
                 wq_chunks = xi_limit i, wq_bytes = xi_bytes i\<rparr>))"

definition NewResizeTool ::
  "session_lib \<Rightarrow> ('w \<Rightarrow> resize_request \<Rightarrow> 'w \<times> (cmd_err + cmd_session)) \<Rightarrow> 'w session_tool" where
  "NewResizeTool L resizer =
     ((session_spec L ''resize_command_terminal'' ''Resize the terminal geometry of a PTY-backed managed command session.''
         ''resize terminal pty session cols rows width height'' False False (8 * 1024)),
      \<lambda>rt w use.
        case sl_resize L use of
          Inl e \<Rightarrow> (w, Inl (CPlain e))
        | Inr i \<Rightarrow>
            if trim_space (zi_id i) = [] then (w, Inl id_required)
            else case validateTTYDimensions (zi_cols i) (zi_rows i) of
                   Some e \<Rightarrow> (w, Inl (CPlain e))
                 | None \<Rightarrow>
                     answer resizeResult
                       (resizer w \<lparr>zq_id = trim_space (zi_id i), zq_session = rt_session rt, zq_cols = zi_cols i, zq_rows = zi_rows i\<rparr>))"

definition NewStopTool :: "session_lib \<Rightarrow> 'w session_manager \<Rightarrow> 'w session_tool" where
  "NewStopTool L M =
     (session_spec L ''stop_command'' ''Stop a managed command session.'' ''stop terminate command session process server watcher''
        False True (8 * 1024),
      \<lambda>rt w use.
        case sl_stop L use of
          Inl e \<Rightarrow> (w, Inl (CPlain e))
        | Inr i \<Rightarrow>
            if trim_space (ti_id i) = [] then (w, Inl id_required)
            else answer stopResult (sm_stop M w \<lparr>tq_id = trim_space (ti_id i), tq_session = rt_session rt, tq_force = ti_force i\<rparr>))"

definition NewListTool :: "session_lib \<Rightarrow> 'w session_manager \<Rightarrow> 'w session_tool" where
  "NewListTool L M =
     (session_spec L ''list_commands'' ''List managed command sessions for the current agent session.''
        ''list command sessions processes servers watchers'' True False (16 * 1024),
      \<lambda>rt w use.
        case sl_list L use of
          Inl e \<Rightarrow> (w, Inl (CPlain e))
        | Inr i \<Rightarrow>
            answer listResult
              (sm_list M w \<lparr>lq_session = rt_session rt, lq_completed = li_completed i, lq_limit = li_limit i\<rparr>))"

definition newSessionTools :: "session_lib \<Rightarrow> 'w session_manager \<Rightarrow> 'w session_tool list" where
  "newSessionTools L M =
     [NewStartTool L M, NewReadOutputTool L M, NewStopTool L M, NewListTool L M]
     @ (case sm_wait M of None \<Rightarrow> [] | Some f \<Rightarrow> [NewWaitTool L f])
     @ (case sm_write M of None \<Rightarrow> [] | Some f \<Rightarrow> [NewWriteInputTool L f])
     @ (case sm_resize M of None \<Rightarrow> [] | Some f \<Rightarrow> [NewResizeTool L f])"

definition NewSessionTools :: "session_lib \<Rightarrow> 'w session_manager option \<Rightarrow> err + 'w session_tool list" where
  "NewSessionTools L M =
     (case M of None \<Rightarrow> Inl (EText ''commandtools: session manager is required'') | Some m \<Rightarrow> Inr (newSessionTools L m))"

definition startApprovalRisk :: "bool \<Rightarrow> string" where
  "startApprovalRisk tty =
     (if tty then ''May keep reading or mutating host-owned state until the terminal session is stopped or times out. PTY sessions can change command behavior compared with plain pipes.''
      else ''May keep reading or mutating host-owned state until the session is stopped or times out.'')"

definition ApprovalSummaryFromStartInput ::
  "json_lib \<Rightarrow> (string \<Rightarrow> err + string \<times> string \<times> bool) \<Rightarrow> string \<Rightarrow> err + approval_summary option" where
  "ApprovalSummaryFromStartInput J decode input =
     (case (if input = [] then Inr ([], [], False) else decode input) of
        Inl e \<Rightarrow> Inl (EWrap ''commandtools: decode start input: '' e)
      | Inr (raw, purpose, tty) \<Rightarrow>
          (case commandDisplayFromRaw J raw of
             Inl e \<Rightarrow> Inl e
           | Inr command \<Rightarrow>
               if command = [] then Inr None
               else Inr (Some \<lparr>as_title = ''Start command session: '' @ command,
                      as_description = (if trim_space purpose = [] then ''Start managed command session '' @ command else trim_space purpose),
                      as_risk = startApprovalRisk tty, as_changes = 1\<rparr>)))"

end
