(* ===== verification/Scripted_Sessions.thy ===== *)
theory Scripted_Sessions
  imports Session_Tools
begin

text \<open>
  The scripted session manager of \<open>toolkit/commandtools/sessions.go\<close>, with which tests and evaluations run the session tools,
  and the isolation of agent sessions: whatever tools an agent calls, it neither sees nor changes the command sessions of
  another agent session. The clock \<open>now\<close> and \<open>ctx.Err()\<close> are arguments; a nil manager is the state \<open>None\<close>.
\<close>

section \<open>The manager\<close>

record out_page =
  pg_chunks :: "output_chunk list"
  pg_running :: bool
  pg_exit :: "int option"
  pg_timed_out :: bool

record write_page =
  wp_page :: out_page
  wp_error :: string

record scripted_command =
  sk_id :: string
  sk_pid :: int
  sk_tty :: bool
  sk_cols :: int
  sk_rows :: int
  sk_pages :: "out_page list"
  sk_writes :: "write_page list"
  sk_stop_exit :: "int option"
  sk_stop_timed_out :: bool

record scripted_state =
  ss_session :: cmd_session
  ss_pages :: "out_page list"
  ss_page :: nat
  ss_writes :: "write_page list"
  ss_write :: nat
  ss_stop_exit :: "int option"
  ss_stop_time :: bool

record scripted_manager =
  sc_commands :: "scripted_command list"
  sc_sessions :: "(string, scripted_state) gomap"
  sc_starts :: "start_request list"
  sc_writes :: "write_request list"
  sc_resizes :: "resize_request list"
  sc_reads :: "read_request list"
  sc_stops :: "stop_req list"
  sc_lists :: "list_request list"

definition NewScriptedSessionManager :: "scripted_command list \<Rightarrow> scripted_manager" where
  "NewScriptedSessionManager cmds =
     \<lparr>sc_commands = cmds, sc_sessions = [], sc_starts = [], sc_writes = [], sc_resizes = [], sc_reads = [], sc_stops = [], sc_lists = []\<rparr>"

text \<open>Limiting a page: the loop of \<open>limitOutputChunks\<close> and of paging are the same once old chunks are skipped.\<close>

fun limit_loop :: "int \<Rightarrow> int \<Rightarrow> int \<Rightarrow> int \<Rightarrow> output_chunk list \<Rightarrow> output_chunk list" where
  "limit_loop mc mb n b [] = []"
| "limit_loop mc mb n b (c # cs) =
     (if mc \<le> n then []
      else if 0 < b \<and> mb < b + int (length (ch_text c)) then []
      else c # limit_loop mc mb (n + 1) (b + int (length (ch_text c))) cs)"

definition limitOutputChunks :: "output_chunk list \<Rightarrow> int \<Rightarrow> int \<Rightarrow> output_chunk list" where
  "limitOutputChunks cs mc mb =
     limit_loop (if mc \<le> 0 then defaultReadChunks else mc) (if mb \<le> 0 then defaultReadBytes else mb) 0 0 cs"

definition filterOutputPageAfterSeq :: "out_page \<Rightarrow> int \<Rightarrow> out_page" where
  "filterOutputPageAfterSeq p after =
     (if after \<le> 0 \<or> pg_chunks p = [] then p else p\<lparr>pg_chunks := filter (\<lambda>c. after < ch_seq c) (pg_chunks p)\<rparr>)"

definition updateSessionFromPage :: "gotime \<Rightarrow> cmd_session \<Rightarrow> out_page \<Rightarrow> output_chunk list \<Rightarrow> cmd_session" where
  "updateSessionFromPage now s0 p cs =
     (let s = foldl (\<lambda>s c. if cs_next_seq s \<le> ch_seq c then s\<lparr>cs_next_seq := i64 (ch_seq c + 1)\<rparr> else s) s0 cs
      in if \<not> pg_running p \<and> cs_status s = SessionRunning
         then s\<lparr>cs_status := SessionExited, cs_finished := Some now, cs_exit := pg_exit p, cs_timed_out := pg_timed_out p\<rparr>
         else s)"

text \<open>A resumed read skips pages without new output while the session runs; \<open>k\<close> is the index of the next page.\<close>

fun resume_page :: "int \<Rightarrow> out_page \<Rightarrow> out_page list \<Rightarrow> nat \<Rightarrow> out_page \<times> nat" where
  "resume_page after p [] k = (p, k)"
| "resume_page after p (c # cs) k =
     (let f = filterOutputPageAfterSeq c after
      in if pg_chunks f \<noteq> [] \<or> \<not> pg_running c then (f, Suc k) else resume_page after f cs (Suc k))"

definition next_page :: "int \<Rightarrow> scripted_state \<Rightarrow> out_page \<times> nat" where
  "next_page after st =
     (let idle = \<lparr>pg_chunks = [], pg_running = (cs_status (ss_session st) = SessionRunning), pg_exit = None, pg_timed_out = False\<rparr>
      in if after \<le> 0
         then (if ss_page st < length (ss_pages st) then (ss_pages st ! ss_page st, Suc (ss_page st)) else (idle, ss_page st))
         else resume_page after idle (drop (ss_page st) (ss_pages st)) (ss_page st))"

definition scripted_lookup :: "string \<Rightarrow> string \<Rightarrow> scripted_manager \<Rightarrow> cmd_err + scripted_state" where
  "scripted_lookup sid i m =
     (case map_of (sc_sessions m) i of
        None \<Rightarrow> Inl (unknown_session i)
      | Some st \<Rightarrow> if hidden_from sid (ss_session st) then Inl (not_visible i) else Inr st)"

definition put_state :: "string \<Rightarrow> scripted_state \<Rightarrow> scripted_manager \<Rightarrow> scripted_manager" where
  "put_state i st m = m\<lparr>sc_sessions := AList.update i st (sc_sessions m)\<rparr>"

abbreviation nil_scripted :: cmd_err where "nil_scripted \<equiv> ctext ''commandtools: nil ScriptedSessionManager''"

text \<open>What every operation checks first.\<close>

definition scripted_guard ::
  "err option \<Rightarrow> scripted_manager option \<Rightarrow> (scripted_manager \<Rightarrow> scripted_manager \<times> (cmd_err + 'a)) \<Rightarrow> scripted_manager option \<times> (cmd_err + 'a)" where
  "scripted_guard ctxerr w f =
     (case ctxerr of
        Some e \<Rightarrow> (w, Inl (CPlain e))
      | None \<Rightarrow> (case w of None \<Rightarrow> (None, Inl nil_scripted) | Some m \<Rightarrow> (case f m of (m', r) \<Rightarrow> (Some m', r))))"

definition start_id :: "start_request \<Rightarrow> scripted_command \<Rightarrow> scripted_manager \<Rightarrow> string" where
  "start_id req cmd m =
     (if trim_space (sq_id req) \<noteq> [] then trim_space (sq_id req)
      else if trim_space (sk_id cmd) \<noteq> [] then trim_space (sk_id cmd)
      else ''cmd-'' @ show_int (int (length (sc_sessions m)) + 1))"

definition scripted_new :: "gotime \<Rightarrow> start_request \<Rightarrow> scripted_command \<Rightarrow> string \<Rightarrow> bool \<Rightarrow> int \<times> int \<Rightarrow> scripted_state" where
  "scripted_new now req cmd i tty dims =
     \<lparr>ss_session =
        \<lparr>cs_id = i, cs_session = sq_session req, cs_parent = sq_parent req, cs_identity = sq_identity req, cs_command = trim_space (sq_command req),
         cs_argv = sq_argv req, cs_cwd = sq_cwd req, cs_purpose = sq_purpose req, cs_status = SessionRunning, cs_pid = sk_pid cmd, cs_tty = tty,
         cs_cols = fst dims, cs_rows = snd dims, cs_tree = False, cs_started = now, cs_finished = None, cs_exit = None, cs_timed_out = False,
         cs_next_seq = 0, cs_dropped_chunks = 0, cs_dropped_bytes = 0\<rparr>,
      ss_pages = sk_pages cmd, ss_page = 0, ss_writes = sk_writes cmd, ss_write = 0, ss_stop_exit = sk_stop_exit cmd,
      ss_stop_time = sk_stop_timed_out cmd\<rparr>"

definition scripted_StartCommand ::
  "err option \<Rightarrow> gotime \<Rightarrow> scripted_manager option \<Rightarrow> start_request \<Rightarrow> scripted_manager option \<times> (cmd_err + cmd_session)" where
  "scripted_StartCommand ctxerr now w req = scripted_guard ctxerr w (\<lambda>m0.
     let m = m0\<lparr>sc_starts := sc_starts m0 @ [req]\<rparr>
     in case sc_commands m of
          [] \<Rightarrow> (m, Inl (ctext ''commandtools: scripted session manager exhausted''))
        | cmd # rest \<Rightarrow>
            (let i = start_id req cmd m
             in if map_of (sc_sessions m) i \<noteq> None
                then (m, Inl (CKind ErrCommandSessionAlreadyExists (''commandtools: command session '' @ i @ '' already exists'')))
                else (let m1 = m\<lparr>sc_commands := rest\<rparr>; tty = (sk_tty cmd \<or> sq_tty req);
                          (cols, rows) = (if sq_cols req = 0 \<and> sq_rows req = 0 then (sk_cols cmd, sk_rows cmd) else (sq_cols req, sq_rows req))
                      in case normalizeStartTTYDimensions tty cols rows of
                           Inl e \<Rightarrow> (m1, Inl (CPlain e))
                         | Inr dims \<Rightarrow>
                             (let st = scripted_new now req cmd i tty dims in (put_state i st m1, Inr (ss_session st))))))"

definition scripted_ReadCommandOutput ::
  "err option \<Rightarrow> gotime \<Rightarrow> scripted_manager option \<Rightarrow> read_request \<Rightarrow> scripted_manager option \<times> (cmd_err + read_result)" where
  "scripted_ReadCommandOutput ctxerr now w req = scripted_guard ctxerr w (\<lambda>m0.
     let m = m0\<lparr>sc_reads := sc_reads m0 @ [req]\<rparr>
     in case scripted_lookup (rd_session req) (rd_id req) m of
          Inl e \<Rightarrow> (m, Inl e)
        | Inr st \<Rightarrow>
            (let (page, k) = next_page (rd_after req) st;
                 cs = limitOutputChunks (pg_chunks page) (rd_chunks req) (rd_bytes req);
                 s = updateSessionFromPage now (ss_session st) page cs
             in (put_state (rd_id req) (st\<lparr>ss_session := s, ss_page := k\<rparr>) m, Inr \<lparr>rs_session = s, rs_chunks = cs, rs_next = cs_next_seq s\<rparr>)))"

definition scripted_WaitCommandOutput ::
  "err option \<Rightarrow> gotime \<Rightarrow> scripted_manager option \<Rightarrow> wait_request \<Rightarrow> scripted_manager option \<times> (cmd_err + read_result)" where
  "scripted_WaitCommandOutput ctxerr now w req =
     (if wt_timeout req < 0 then (w, Inl (ctext ''commandtools: timeout must be non-negative''))
      else scripted_ReadCommandOutput ctxerr now w \<lparr>rd_id = wt_id req, rd_session = wt_session req, rd_after = wt_after req,
             rd_chunks = wt_chunks req, rd_bytes = wt_bytes req\<rparr>)"

definition scripted_WriteCommandInput ::
  "err option \<Rightarrow> gotime \<Rightarrow> scripted_manager option \<Rightarrow> write_request \<Rightarrow> scripted_manager option \<times> (cmd_err + write_result)" where
  "scripted_WriteCommandInput ctxerr now w req = scripted_guard ctxerr w (\<lambda>m0.
     let m = m0\<lparr>sc_writes := sc_writes m0 @ [req]\<rparr>; n = int (length (wq_input req))
     in case scripted_lookup (wq_session req) (wq_id req) m of
          Inl e \<Rightarrow> (m, Inl e)
        | Inr st \<Rightarrow>
            if cs_status (ss_session st) \<noteq> SessionRunning
            then (m, Inr \<lparr>ww_session = ss_session st, ww_chunks = [], ww_next = cs_next_seq (ss_session st), ww_bytes = n\<rparr>)
            else (let (wp, k) = (if ss_write st < length (ss_writes st) then (ss_writes st ! ss_write st, Suc (ss_write st))
                                 else (\<lparr>wp_page = \<lparr>pg_chunks = [], pg_running = False, pg_exit = None, pg_timed_out = False\<rparr>, wp_error = []\<rparr>,
                                       ss_write st));
                      st1 = st\<lparr>ss_write := k\<rparr>
                  in if wp_error wp \<noteq> [] then (put_state (wq_id req) st1 m, Inl (ctext (''commandtools: '' @ wp_error wp)))
                     else (let cs = limitOutputChunks (pg_chunks (wp_page wp)) (wq_chunks req) (wq_bytes req);
                               s = updateSessionFromPage now (ss_session st1) (wp_page wp) cs
                           in (put_state (wq_id req) (st1\<lparr>ss_session := s\<rparr>) m,
                               Inr \<lparr>ww_session = s, ww_chunks = cs, ww_next = cs_next_seq s, ww_bytes = n\<rparr>))))"

definition scripted_ResizeCommandTerminal ::
  "err option \<Rightarrow> scripted_manager option \<Rightarrow> resize_request \<Rightarrow> scripted_manager option \<times> (cmd_err + cmd_session)" where
  "scripted_ResizeCommandTerminal ctxerr w req = scripted_guard ctxerr w (\<lambda>m0.
     case validateTTYDimensions (zq_cols req) (zq_rows req) of
       Some e \<Rightarrow> (m0, Inl (CPlain e))
     | None \<Rightarrow>
         (let m = m0\<lparr>sc_resizes := sc_resizes m0 @ [req]\<rparr>
          in case scripted_lookup (zq_session req) (zq_id req) m of
               Inl e \<Rightarrow> (m, Inl e)
             | Inr st \<Rightarrow>
                 (let s = ss_session st
                  in if \<not> cs_tty s
                     then (m, Inl (CKind ErrCommandSessionNotPTY (''commandtools: command session '' @ cs_id s @ '' is not PTY-backed'')))
                     else if cs_status s \<noteq> SessionRunning then (m, Inl (not_running (cs_id s)))
                     else (let s' = s\<lparr>cs_cols := zq_cols req, cs_rows := zq_rows req\<rparr>
                           in (put_state (zq_id req) (st\<lparr>ss_session := s'\<rparr>) m, Inr s')))))"

definition scripted_StopCommand ::
  "err option \<Rightarrow> gotime \<Rightarrow> scripted_manager option \<Rightarrow> stop_req \<Rightarrow> scripted_manager option \<times> (cmd_err + cmd_session)" where
  "scripted_StopCommand ctxerr now w req = scripted_guard ctxerr w (\<lambda>m0.
     let m = m0\<lparr>sc_stops := sc_stops m0 @ [req]\<rparr>
     in case scripted_lookup (tq_session req) (tq_id req) m of
          Inl e \<Rightarrow> (m, Inl e)
        | Inr st \<Rightarrow>
            (let s = ss_session st
             in if cs_status s = SessionRunning
                then (let s' = s\<lparr>cs_status := SessionStopped, cs_finished := Some now, cs_exit := ss_stop_exit st, cs_timed_out := ss_stop_time st\<rparr>
                      in (put_state (tq_id req) (st\<lparr>ss_session := s'\<rparr>) m, Inr s'))
                else (m, Inr s)))"

text \<open>Sessions with equal start times come in the order of the association list; Go leaves their order open.\<close>

definition scripted_ListCommands ::
  "err option \<Rightarrow> scripted_manager option \<Rightarrow> list_request \<Rightarrow> scripted_manager option \<times> (cmd_err + cmd_session list)" where
  "scripted_ListCommands ctxerr w req = scripted_guard ctxerr w (\<lambda>m0.
     let m = m0\<lparr>sc_lists := sc_lists m0 @ [req]\<rparr>
     in (m, Inr (limit_sessions (lq_limit req)
               (stable_sort (\<lambda>l r. cs_started l < cs_started r) (filter (listed req) (map (ss_session \<circ> snd) (sc_sessions m)))))))"

definition scripted_CleanupSession :: "err option \<Rightarrow> string \<Rightarrow> scripted_manager option \<Rightarrow> scripted_manager option \<times> cmd_err option" where
  "scripted_CleanupSession ctxerr sid w =
     (case ctxerr of
        Some e \<Rightarrow> (w, Some (CPlain e))
      | None \<Rightarrow>
          (case w of
             None \<Rightarrow> (None, None)
           | Some m \<Rightarrow>
               if sid = [] then (Some m, None)
               else (Some (m\<lparr>sc_sessions := filter (\<lambda>(i, st). cs_session (ss_session st) \<noteq> sid) (sc_sessions m)\<rparr>), None)))"

definition ScriptedManager :: "err option \<Rightarrow> gotime \<Rightarrow> scripted_manager option session_manager" where
  "ScriptedManager ctxerr now =
     \<lparr>sm_start = scripted_StartCommand ctxerr now, sm_read = scripted_ReadCommandOutput ctxerr now, sm_stop = scripted_StopCommand ctxerr now,
      sm_list = scripted_ListCommands ctxerr, sm_wait = Some (scripted_WaitCommandOutput ctxerr now),
      sm_write = Some (scripted_WriteCommandInput ctxerr now), sm_resize = Some (scripted_ResizeCommandTerminal ctxerr)\<rparr>"

section \<open>Isolation of agent sessions\<close>

definition foreign_to :: "('w \<Rightarrow> string \<Rightarrow> cmd_session option) \<Rightarrow> string \<Rightarrow> string \<Rightarrow> 'w \<Rightarrow> bool" where
  "foreign_to seen sid i w \<longleftrightarrow> (\<exists>s. seen w i = Some s \<and> hidden_from sid s)"

text \<open>
  The contract of a manager that isolates agent sessions: no request of an agent session changes a command session that
  is hidden from it. What the tools need of it is proved once.
\<close>

locale isolating_manager =
  fixes M :: "'w session_manager" and seen :: "'w \<Rightarrow> string \<Rightarrow> cmd_session option"
  assumes start_isolated: "foreign_to seen (sq_session a) i w \<Longrightarrow> seen (fst (sm_start M w a)) i = seen w i"
    and read_isolated: "foreign_to seen (rd_session b) i w \<Longrightarrow> seen (fst (sm_read M w b)) i = seen w i"
    and stop_isolated: "foreign_to seen (tq_session c) i w \<Longrightarrow> seen (fst (sm_stop M w c)) i = seen w i"
    and list_isolated: "foreign_to seen (lq_session d) i w \<Longrightarrow> seen (fst (sm_list M w d)) i = seen w i"
    and wait_isolated: "sm_wait M = Some f \<Longrightarrow> foreign_to seen (wt_session e) i w \<Longrightarrow> seen (fst (f w e)) i = seen w i"
    and write_isolated: "sm_write M = Some g \<Longrightarrow> foreign_to seen (wq_session x) i w \<Longrightarrow> seen (fst (g w x)) i = seen w i"
    and resize_isolated: "sm_resize M = Some h \<Longrightarrow> foreign_to seen (zq_session z) i w \<Longrightarrow> seen (fst (h w z)) i = seen w i"
begin

lemma answer_world: "fst (answer f r) = fst r"
  by (simp add: answer_def split: prod.splits sum.splits)

lemma tools_isolated:
  assumes "t \<in> set (newSessionTools L M)" and "foreign_to seen (rt_session rt) i w"
  shows "seen (fst (snd t rt w use)) i = seen w i"
proof -
  consider "t = NewStartTool L M" | "t = NewReadOutputTool L M" | "t = NewStopTool L M" | "t = NewListTool L M"
    | f where "sm_wait M = Some f" "t = NewWaitTool L f" | f where "sm_write M = Some f" "t = NewWriteInputTool L f"
    | f where "sm_resize M = Some f" "t = NewResizeTool L f"
    using assms(1)
    by (cases "sm_wait M"; cases "sm_write M"; cases "sm_resize M") (auto simp: newSessionTools_def)
  then show ?thesis
  proof cases
    case 1 then show ?thesis using assms(2) by (simp add: NewStartTool_def answer_world start_isolated split: sum.splits)
  next
    case 2 then show ?thesis using assms(2) by (simp add: NewReadOutputTool_def answer_world read_isolated split: sum.splits)
  next
    case 3 then show ?thesis using assms(2) by (simp add: NewStopTool_def answer_world stop_isolated split: sum.splits)
  next
    case 4 then show ?thesis using assms(2) by (simp add: NewListTool_def answer_world list_isolated split: sum.splits)
  next
    case 5 then show ?thesis using assms(2) by (simp add: NewWaitTool_def answer_world wait_isolated [OF 5(1)] split: sum.splits)
  next
    case 6 then show ?thesis using assms(2) by (simp add: NewWriteInputTool_def answer_world write_isolated [OF 6(1)] split: sum.splits)
  next
    case 7 then show ?thesis using assms(2)
      by (simp add: NewResizeTool_def answer_world resize_isolated [OF 7(1)] split: sum.splits option.splits)
  qed
qed

end

definition scripted_seen :: "scripted_manager option \<Rightarrow> string \<Rightarrow> cmd_session option" where
  "scripted_seen w i = (case w of None \<Rightarrow> None | Some m \<Rightarrow> map_option ss_session (map_of (sc_sessions m) i))"

lemma seen_put: "scripted_seen (Some (put_state j st m)) i = (if i = j then Some (ss_session st) else scripted_seen (Some m) i)"
  by (simp add: scripted_seen_def put_state_def update_conv')

lemma lookup_visible: "scripted_lookup sid j m = Inr st \<Longrightarrow> map_of (sc_sessions m) j = Some st \<and> \<not> hidden_from sid (ss_session st)"
  by (auto simp: scripted_lookup_def split: option.splits if_splits)

text \<open>A session found by a lookup is not foreign, so that writing it back leaves the foreign ones alone.\<close>

lemma put_looked_up:
  assumes "scripted_lookup sid j m = Inr st" and "foreign_to scripted_seen sid i (Some m)"
  shows "scripted_seen (Some (put_state j st' m)) i = scripted_seen (Some m) i"
proof -
  have "i \<noteq> j" using lookup_visible [OF assms(1)] assms(2) by (auto simp: foreign_to_def scripted_seen_def)
  then show ?thesis by (simp add: seen_put)
qed

lemma guard_isolated:
  assumes "\<And>m. w = Some m \<Longrightarrow> scripted_seen (Some (fst (f m))) i = scripted_seen (Some m) i"
  shows "scripted_seen (fst (scripted_guard ctxerr w f)) i = scripted_seen w i"
  using assms by (cases w) (auto simp: scripted_guard_def split: option.splits prod.splits)

text \<open>The logs of requests are not looked at.\<close>

lemma seen_log [simp]:
  "scripted_seen (Some (m\<lparr>sc_starts := a\<rparr>)) = scripted_seen (Some m)" "scripted_seen (Some (m\<lparr>sc_reads := b\<rparr>)) = scripted_seen (Some m)"
  "scripted_seen (Some (m\<lparr>sc_writes := c\<rparr>)) = scripted_seen (Some m)" "scripted_seen (Some (m\<lparr>sc_resizes := d\<rparr>)) = scripted_seen (Some m)"
  "scripted_seen (Some (m\<lparr>sc_stops := e\<rparr>)) = scripted_seen (Some m)" "scripted_seen (Some (m\<lparr>sc_lists := f\<rparr>)) = scripted_seen (Some m)"
  "scripted_seen (Some (m\<lparr>sc_commands := g\<rparr>)) = scripted_seen (Some m)"
  by (auto simp: scripted_seen_def)

lemma foreign_log:
  "scripted_seen (Some m') = scripted_seen (Some m) \<Longrightarrow> foreign_to scripted_seen sid i (Some m) \<Longrightarrow> foreign_to scripted_seen sid i (Some m')"
  by (simp add: foreign_to_def)

lemma scripted_start_isolated:
  assumes "foreign_to scripted_seen sid i w"
  shows "scripted_seen (fst (scripted_StartCommand ctxerr now w req)) i = scripted_seen w i"
  unfolding scripted_StartCommand_def using assms
  by (intro guard_isolated)
    (auto simp: Let_def put_state_def update_conv' foreign_to_def scripted_seen_def split: list.splits sum.splits prod.splits)

lemma scripted_read_isolated:
  assumes "foreign_to scripted_seen (rd_session req) i w"
  shows "scripted_seen (fst (scripted_ReadCommandOutput ctxerr now w req)) i = scripted_seen w i"
  unfolding scripted_ReadCommandOutput_def using assms
  by (intro guard_isolated)
    (auto simp: Let_def put_looked_up [where sid = "rd_session req"] foreign_log case_prod_beta split: sum.splits)

lemma scripted_write_isolated:
  assumes "foreign_to scripted_seen (wq_session req) i w"
  shows "scripted_seen (fst (scripted_WriteCommandInput ctxerr now w req)) i = scripted_seen w i"
  unfolding scripted_WriteCommandInput_def using assms
  by (intro guard_isolated)
    (auto simp: Let_def put_looked_up [where sid = "wq_session req"] foreign_log case_prod_beta split: sum.splits)

lemma scripted_resize_isolated:
  assumes "foreign_to scripted_seen (zq_session req) i w"
  shows "scripted_seen (fst (scripted_ResizeCommandTerminal ctxerr w req)) i = scripted_seen w i"
  unfolding scripted_ResizeCommandTerminal_def using assms
  by (intro guard_isolated)
    (auto simp: Let_def put_looked_up [where sid = "zq_session req"] foreign_log split: sum.splits option.splits)

lemma scripted_stop_isolated:
  assumes "foreign_to scripted_seen (tq_session req) i w"
  shows "scripted_seen (fst (scripted_StopCommand ctxerr now w req)) i = scripted_seen w i"
  unfolding scripted_StopCommand_def using assms
  by (intro guard_isolated)
    (auto simp: Let_def put_looked_up [where sid = "tq_session req"] foreign_log split: sum.splits)

lemma scripted_list_isolated: "scripted_seen (fst (scripted_ListCommands ctxerr w req)) i = scripted_seen w i"
  unfolding scripted_ListCommands_def by (rule guard_isolated) (simp add: Let_def)

interpretation scripted: isolating_manager "ScriptedManager ctxerr now" scripted_seen
  by unfold_locales
    (auto simp: ScriptedManager_def scripted_start_isolated scripted_read_isolated scripted_stop_isolated scripted_list_isolated
      scripted_write_isolated scripted_resize_isolated scripted_WaitCommandOutput_def)

lemma map_of_filter_first: "map_of xs i = Some v \<Longrightarrow> P (i, v) \<Longrightarrow> map_of (filter P xs) i = Some v"
  by (induction xs) auto

lemma scripted_cleanup_isolated:
  assumes "foreign_to scripted_seen sid i w"
  shows "scripted_seen (fst (scripted_CleanupSession ctxerr sid w)) i = scripted_seen w i"
proof (cases w)
  case (Some m)
  with assms obtain st where "map_of (sc_sessions m) i = Some st" "hidden_from sid (ss_session st)"
    by (auto simp: foreign_to_def scripted_seen_def)
  then have "map_of (filter (\<lambda>(i, st). cs_session (ss_session st) \<noteq> sid) (sc_sessions m)) i = map_of (sc_sessions m) i"
    by (simp add: map_of_filter_first hidden_from_def)
  then show ?thesis using Some by (simp add: scripted_CleanupSession_def scripted_seen_def split: option.splits)
qed (use assms in \<open>simp add: foreign_to_def scripted_seen_def\<close>)

text \<open>What an agent session does: it calls session tools, and at its end its command sessions are cleaned up.\<close>

inductive agent_step :: "session_lib \<Rightarrow> string \<Rightarrow> scripted_manager option \<Rightarrow> scripted_manager option \<Rightarrow> bool" for L sid where
  call: "t \<in> set (newSessionTools L (ScriptedManager ctxerr now)) \<Longrightarrow> rt_session rt = sid \<Longrightarrow> agent_step L sid w (fst (snd t rt w use))"
| cleanup: "agent_step L sid w (fst (scripted_CleanupSession ctxerr sid w))"

lemma agent_step_isolated: "agent_step L sid w w' \<Longrightarrow> foreign_to scripted_seen sid i w \<Longrightarrow> scripted_seen w' i = scripted_seen w i"
  by (induction rule: agent_step.induct) (auto simp: scripted_cleanup_isolated dest: scripted.tools_isolated)


definition stop_lib :: session_lib where
  "stop_lib =
     \<lparr>sl_start = (\<lambda>u. Inl (EText ''no'')), sl_read = (\<lambda>u. Inl (EText ''no'')), sl_wait = (\<lambda>u. Inl (EText ''no'')), sl_write = (\<lambda>u. Inl (EText ''no'')),
      sl_resize = (\<lambda>u. Inl (EText ''no'')), sl_stop = (\<lambda>u. Inr \<lparr>ti_id = ''c'', ti_force = True\<rparr>), sl_list = (\<lambda>u. Inl (EText ''no'')),
      sl_schema = (\<lambda>n. [])\<rparr>"

definition one_session :: scripted_manager where
  "one_session = (NewScriptedSessionManager [])\<lparr>sc_sessions :=
     [(''c'', \<lparr>ss_session = sample_session\<lparr>cs_session := ''owner''\<rparr>, ss_pages = [], ss_page = 0, ss_writes = [], ss_write = 0, ss_stop_exit = None,
               ss_stop_time = False\<rparr>)]\<rparr>"


text \<open>A listing shows an agent only its own command sessions, within the limit.\<close>

theorem scripted_list_own:
  assumes "scripted_ListCommands ctxerr w req = (w', Inr ss)" and "lq_session req \<noteq> []"
  shows "\<forall>s \<in> set ss. cs_session s = lq_session req" and "0 < lq_limit req \<Longrightarrow> int (length ss) \<le> lq_limit req"
  using assms
  by (auto simp: scripted_ListCommands_def scripted_guard_def limit_sessions_def listed_def Let_def
      split: option.splits if_splits dest!: in_set_takeD)

text \<open>On a page with only new chunks the scripted manager limits output as paging does.\<close>

lemma limit_loop_page: "\<forall>c \<in> set cs. after < ch_seq c \<Longrightarrow> limit_loop mc mb n b cs = page_loop after mc mb n b cs"
  by (induction cs arbitrary: n b) auto

theorem limit_is_paging:
  assumes "\<forall>c \<in> set cs. after < ch_seq c"
  shows "limitOutputChunks cs mc mb = rs_chunks (paginateOutputChunks s cs after mc mb)"
  using limit_loop_page [OF assms] by (simp add: limitOutputChunks_def paginateOutputChunks_def)

text \<open>A started terminal has dimensions a terminal can have, and what is no terminal has none.\<close>

theorem tty_dimensions_bounded:
  assumes "normalizeStartTTYDimensions tty cols rows = Inr (c, r)"
  shows "if tty then 1 \<le> c \<and> c \<le> 32767 \<and> 1 \<le> r \<and> r \<le> 32767 else c = 0 \<and> r = 0"
  using assms
  by (auto simp: normalizeStartTTYDimensions_def validateTTYDimensions_def defaultTTYCols_def defaultTTYRows_def maxTTYDimension_def
      split: if_splits option.splits)

end
