(* ===== verification/Command_Manager.thy ===== *)
theory Command_Manager
  imports Session_Tools
begin

text \<open>
  The manager of live command sessions of \<open>toolkit/commandtools/os_sessions.go\<close>: it reserves ids, starts, finds, lists and
  cleans up sessions, falls back to the transcript store for sessions it does not hold, and sweeps stored sessions whose
  process is gone. Its locked regions are single operations; concurrent starts are machines that interleave at them.
  The transcript store is an interface acting on a world \<open>'w\<close>.
\<close>

section \<open>State\<close>

definition defaultSessionMaxTimeout :: duration where "defaultSessionMaxTimeout = 24 * 3600 * 1000000000"
definition defaultSessionStopGrace :: duration where "defaultSessionStopGrace = 2 * 1000000000"
definition defaultSessionDrainTimeout :: duration where "defaultSessionDrainTimeout = 2 * 1000000000"
definition defaultSessionMaxBufferedBytes :: int where "defaultSessionMaxBufferedBytes = 256 * 1024"
definition defaultSessionMaxBufferedChunks :: int where "defaultSessionMaxBufferedChunks = 256"

record os_manager =
  om_runner :: os_runner
  om_default_timeout :: duration
  om_max_timeout :: duration
  om_max_stdin :: int
  om_limits :: buffer_limits
  om_stop_grace :: duration
  om_drain_timeout :: duration
  om_next :: int
  om_sessions :: "(string, live_session) gomap"
  om_reserved :: "string list"

text \<open>The whole interface of a transcript store extends what live sessions use of it.\<close>

record 'w transcript_api = "'w cmd_store" +
  st_get :: "'w \<Rightarrow> string \<Rightarrow> cmd_err + cmd_session"
  st_read :: "'w \<Rightarrow> read_request \<Rightarrow> cmd_err + read_result"
  st_list :: "'w \<Rightarrow> list_request \<Rightarrow> cmd_err + cmd_session list"
  st_delete :: "'w \<Rightarrow> string \<Rightarrow> 'w \<times> cmd_err option"

definition NewOSSessionManager ::
  "(string \<Rightarrow> err + string) \<Rightarrow> string \<Rightarrow> (os_manager \<Rightarrow> os_manager) option list \<Rightarrow> err + os_manager" where
  "NewOSSessionManager absolute root0 opts =
     (case (if root0 = [] then Inr [] else absolute root0) of
        Inl e \<Rightarrow> Inl (EWrap ''commandtools: resolve root: '' e)
      | Inr r0 \<Rightarrow>
          (let m = foldl (\<lambda>m opt. case opt of None \<Rightarrow> m | Some f \<Rightarrow> f m)
                 \<lparr>om_runner = \<lparr>os_root = r0, os_inherit_env = False, os_base_env = [], os_max_output = 0\<rparr>,
                  om_default_timeout = defaultSessionTimeout, om_max_timeout = defaultSessionMaxTimeout, om_max_stdin = defaultMaxStdinBytes,
                  om_limits = \<lparr>bl_chunks = defaultSessionMaxBufferedChunks, bl_bytes = defaultSessionMaxBufferedBytes\<rparr>,
                  om_stop_grace = defaultSessionStopGrace, om_drain_timeout = defaultSessionDrainTimeout, om_next = 0,
                  om_sessions = [], om_reserved = []\<rparr> opts;
               bl = om_limits m
           in Inr (m\<lparr>om_default_timeout := (if om_default_timeout m \<le> 0 then defaultSessionTimeout else om_default_timeout m),
                    om_max_timeout := (if om_max_timeout m = 0 then defaultSessionMaxTimeout else om_max_timeout m),
                    om_max_stdin := (if om_max_stdin m = 0 then defaultMaxStdinBytes else om_max_stdin m),
                    om_limits := \<lparr>bl_chunks = (if bl_chunks bl \<le> 0 then defaultSessionMaxBufferedChunks else bl_chunks bl),
                                  bl_bytes = (if bl_bytes bl \<le> 0 then defaultSessionMaxBufferedBytes else bl_bytes bl)\<rparr>,
                    om_stop_grace := (if om_stop_grace m \<le> 0 then defaultSessionStopGrace else om_stop_grace m),
                    om_drain_timeout := (if om_drain_timeout m = 0 then defaultSessionDrainTimeout else om_drain_timeout m)\<rparr>)))"

section \<open>Ids\<close>

definition commandIDExistsLocked :: "'w transcript_api option \<Rightarrow> 'w \<Rightarrow> os_manager \<Rightarrow> string \<Rightarrow> cmd_err + bool" where
  "commandIDExistsLocked T w m i =
     (if map_of (om_sessions m) i \<noteq> None \<or> i \<in> set (om_reserved m) then Inr True
      else case T of
             None \<Rightarrow> Inr False
           | Some t \<Rightarrow>
               (case st_get t w i of
                  Inr s \<Rightarrow> Inr True
                | Inl e \<Rightarrow> if cmd_is ErrCommandSessionUnknown e then Inr False
                          else Inl (CWrap (''commandtools: check transcript store for command session '' @ i @ '': '') e)))"

text \<open>The search for a free number; \<open>None\<close> when the fuel is used up.\<close>

fun reserve_loop :: "nat \<Rightarrow> (string \<Rightarrow> cmd_err + bool) \<Rightarrow> int \<Rightarrow> (int \<times> (cmd_err + string)) option" where
  "reserve_loop 0 exists n = None"
| "reserve_loop (Suc k) exists n =
     (let n' = i64 (n + 1); i = ''cmd-'' @ show_int n'
      in case exists i of
           Inl e \<Rightarrow> Some (n', Inl e)
         | Inr True \<Rightarrow> reserve_loop k exists n'
         | Inr False \<Rightarrow> Some (n', Inr i))"

definition reserveSessionID ::
  "nat \<Rightarrow> 'w transcript_api option \<Rightarrow> 'w \<Rightarrow> string \<Rightarrow> os_manager \<Rightarrow> (os_manager \<times> (cmd_err + string)) option" where
  "reserveSessionID fuel T w requested m =
     (let i = trim_space requested
      in if i \<noteq> [] then
           Some (case commandIDExistsLocked T w m i of
                   Inl e \<Rightarrow> (m, Inl e)
                 | Inr True \<Rightarrow>
                     (m, Inl (CKind ErrCommandSessionAlreadyExists (''commandtools: command session '' @ i @ '' already exists'')))
                 | Inr False \<Rightarrow> (m\<lparr>om_reserved := List.insert i (om_reserved m)\<rparr>, Inr i))
         else map_option (\<lambda>(n, r). case r of
                  Inl e \<Rightarrow> (m\<lparr>om_next := n\<rparr>, Inl e)
                | Inr i \<Rightarrow> (m\<lparr>om_next := n, om_reserved := List.insert i (om_reserved m)\<rparr>, Inr i))
              (reserve_loop fuel (commandIDExistsLocked T w m) (om_next m)))"

definition releaseReservedSessionID :: "string \<Rightarrow> os_manager \<Rightarrow> os_manager" where
  "releaseReservedSessionID i m = m\<lparr>om_reserved := removeAll i (om_reserved m)\<rparr>"

definition registerReservedSession :: "string \<Rightarrow> live_session \<Rightarrow> os_manager \<Rightarrow> os_manager" where
  "registerReservedSession i s m =
     m\<lparr>om_reserved := removeAll i (om_reserved m), om_sessions := AList.update i s (om_sessions m)\<rparr>"

definition forget_session :: "string \<Rightarrow> os_manager \<Rightarrow> os_manager" where
  "forget_session i m = m\<lparr>om_sessions := AList.delete i (om_sessions m)\<rparr>"

section \<open>Starting\<close>

text \<open>The checks of \<open>StartCommand\<close> before it reserves an id: the argument vector, time limit, terminal size and directory.\<close>

definition start_checks ::
  "err option \<Rightarrow> err + string \<Rightarrow> os_manager option \<Rightarrow> start_request \<Rightarrow> err + string list \<times> duration \<times> (int \<times> int) \<times> string" where
  "start_checks ctxerr getwd mgr req =
     (case ctxerr of
        Some e \<Rightarrow> Inl e
      | None \<Rightarrow>
          (case mgr of
             None \<Rightarrow> Inl (EText ''commandtools: nil OSSessionManager'')
           | Some m \<Rightarrow>
               (let argv = normalizeArgv (sq_argv req);
                    timeout = (if sq_timeout req \<le> 0 then om_default_timeout m else sq_timeout req)
                in if argv = [] then Inl (EText ''commandtools: command must contain at least one argv element'')
                   else case validateStdin (sq_stdin req) (om_max_stdin m) of
                          Some e \<Rightarrow> Inl e
                        | None \<Rightarrow>
                            if 0 < om_max_timeout m \<and> om_max_timeout m < timeout
                            then Inl (EText (''commandtools: timeout '' @ show_duration timeout @ '' exceeds maximum '' @ show_duration (om_max_timeout m)))
                            else (case normalizeStartTTYDimensions (sq_tty req) (sq_cols req) (sq_rows req) of
                                    Inl e \<Rightarrow> Inl e
                                  | Inr dims \<Rightarrow>
                                      (case resolveCWD getwd (om_runner m) (sq_cwd req) of
                                         Inl e \<Rightarrow> Inl e
                                       | Inr cwd \<Rightarrow> Inr (argv, timeout, dims, cwd))))))"

definition start_session ::
  "gotime \<Rightarrow> int \<Rightarrow> bool \<Rightarrow> string \<Rightarrow> start_request \<Rightarrow> string list \<times> duration \<times> (int \<times> int) \<times> string \<Rightarrow> cmd_session" where
  "start_session now pid tree i req checked =
     (case checked of (argv, timeout, (cols, rows), cwd) \<Rightarrow>
        \<lparr>cs_id = i, cs_session = sq_session req, cs_parent = sq_parent req, cs_identity = sq_identity req, cs_command = trim_space (sq_command req),
         cs_argv = argv, cs_cwd = cwd, cs_purpose = trim_space (sq_purpose req), cs_status = SessionRunning, cs_pid = pid, cs_tty = sq_tty req,
         cs_cols = cols, cs_rows = rows, cs_tree = tree, cs_started = now, cs_finished = None, cs_exit = None, cs_timed_out = False,
         cs_next_seq = 1, cs_dropped_chunks = 0, cs_dropped_bytes = 0\<rparr>)"

definition persistInitialSnapshot :: "'w transcript_api option \<Rightarrow> live_session \<Rightarrow> 'w \<Rightarrow> 'w \<times> cmd_err option" where
  "persistInitialSnapshot T s w = (case T of None \<Rightarrow> (w, None) | Some t \<Rightarrow> st_save t w (persistedSnapshotLocked s))"

definition deletePersistedTranscript :: "'w transcript_api option \<Rightarrow> string \<Rightarrow> 'w \<Rightarrow> 'w" where
  "deletePersistedTranscript T i w = (case T of None \<Rightarrow> w | Some t \<Rightarrow> fst (st_delete t w i))"

text \<open>The error of the initial input, when it fails: there is no input handle, or the write fails (\<open>werr\<close>).\<close>

definition initial_stdin :: "start_request \<Rightarrow> live_session \<Rightarrow> err option \<Rightarrow> cmd_err option" where
  "initial_stdin req s werr =
     (if sq_stdin req = [] then None
      else if \<not> lv_stdin s \<and> \<not> lv_terminal s
      then Some (CKind ErrCommandSessionStdinClosed (''commandtools: command session '' @ cs_id (lv_session s) @ '' stdin is closed''))
      else map_option (\<lambda>e. CWrap ''commandtools: write initial stdin: '' (CPlain e)) werr)"

section \<open>Requests on sessions\<close>

definition os_lookup :: "string \<Rightarrow> string \<Rightarrow> os_manager \<Rightarrow> cmd_err + live_session" where
  "os_lookup sid i m =
     (case map_of (om_sessions m) i of
        None \<Rightarrow> Inl (unknown_session i)
      | Some s \<Rightarrow> if hidden_from sid (lv_session s) then Inl (not_visible i) else Inr s)"

definition transcriptOnlySessionError :: "'w transcript_api option \<Rightarrow> 'w \<Rightarrow> string \<Rightarrow> string \<Rightarrow> cmd_err \<Rightarrow> cmd_err" where
  "transcriptOnlySessionError T w sid i err0 =
     (case T of
        None \<Rightarrow> err0
      | Some t \<Rightarrow>
          if \<not> cmd_is ErrCommandSessionUnknown err0 then err0
          else (case st_get t w i of
                  Inl e \<Rightarrow> if cmd_is ErrCommandSessionUnknown e then err0
                          else CWrap (''commandtools: check transcript store for command session '' @ i @ '': '') e
                | Inr s \<Rightarrow>
                    if hidden_from sid s then not_visible i
                    else CKind ErrCommandSessionNotRunning
                           (''commandtools: command session '' @ i @ '' is persisted transcript state ('' @ cs_status s @ '') and has no live process'')))"

abbreviation nil_manager :: cmd_err where "nil_manager \<equiv> ctext ''commandtools: nil OSSessionManager''"

definition os_guard :: "err option \<Rightarrow> os_manager option \<Rightarrow> (os_manager \<Rightarrow> cmd_err + 'a) \<Rightarrow> cmd_err + 'a" where
  "os_guard ctxerr mgr f =
     (case ctxerr of Some e \<Rightarrow> Inl (CPlain e) | None \<Rightarrow> (case mgr of None \<Rightarrow> Inl nil_manager | Some m \<Rightarrow> f m))"

definition os_ReadCommandOutput ::
  "err option \<Rightarrow> 'w transcript_api option \<Rightarrow> 'w \<Rightarrow> os_manager option \<Rightarrow> read_request \<Rightarrow> cmd_err + read_result" where
  "os_ReadCommandOutput ctxerr T w mgr req = os_guard ctxerr mgr (\<lambda>m.
     case os_lookup (rd_session req) (rd_id req) m of
       Inr s \<Rightarrow> Inr (live_read (rd_after req) (rd_chunks req) (rd_bytes req) s)
     | Inl e \<Rightarrow>
         (case T of
            None \<Rightarrow> Inl e
          | Some t \<Rightarrow> if cmd_is ErrCommandSessionUnknown e then st_read t w req else Inl e))"

text \<open>\<open>waited\<close> is the outcome of waiting for an update of the session, and \<open>s2\<close> the session after it.\<close>

definition os_WaitCommandOutput ::
  "err option \<Rightarrow> 'w transcript_api option \<Rightarrow> 'w \<Rightarrow> (live_session \<Rightarrow> err option \<times> live_session) \<Rightarrow> os_manager option \<Rightarrow> wait_request \<Rightarrow> cmd_err + read_result" where
  "os_WaitCommandOutput ctxerr T w waited mgr req = os_guard ctxerr mgr (\<lambda>m.
     if wt_timeout req < 0 then Inl (ctext ''commandtools: timeout must be non-negative'')
     else case os_lookup (wt_session req) (wt_id req) m of
            Inr s \<Rightarrow>
              (case waited s of
                 (Some e, s2) \<Rightarrow> Inl (CPlain e)
               | (None, s2) \<Rightarrow> Inr (live_read (wt_after req) (wt_chunks req) (wt_bytes req) s2))
          | Inl e \<Rightarrow>
              (case T of
                 None \<Rightarrow> Inl e
               | Some t \<Rightarrow>
                   if cmd_is ErrCommandSessionUnknown e
                   then st_read t w \<lparr>rd_id = wt_id req, rd_session = wt_session req, rd_after = wt_after req, rd_chunks = wt_chunks req,
                          rd_bytes = wt_bytes req\<rparr>
                   else Inl e))"

text \<open>Writing, resizing and stopping look the session up and go on with it.\<close>

definition os_target ::
  "'w transcript_api option \<Rightarrow> 'w \<Rightarrow> string \<Rightarrow> string \<Rightarrow> os_manager \<Rightarrow> cmd_err + live_session" where
  "os_target T w sid i m = (case os_lookup sid i m of Inl e \<Rightarrow> Inl (transcriptOnlySessionError T w sid i e) | Inr s \<Rightarrow> Inr s)"

definition os_WriteCommandInput ::
  "err option \<Rightarrow> 'w transcript_api option \<Rightarrow> 'w \<Rightarrow> (live_session \<Rightarrow> write_request \<Rightarrow> cmd_err + write_result) \<Rightarrow> os_manager option \<Rightarrow> write_request
     \<Rightarrow> cmd_err + write_result" where
  "os_WriteCommandInput ctxerr T w wr mgr req = os_guard ctxerr mgr (\<lambda>m.
     if wq_yield req < 0 then Inl (ctext ''commandtools: yield must be non-negative'')
     else case validateStdin (wq_input req) (om_max_stdin m) of
            Some e \<Rightarrow> Inl (CPlain e)
          | None \<Rightarrow> (case os_target T w (wq_session req) (wq_id req) m of Inl e \<Rightarrow> Inl e | Inr s \<Rightarrow> wr s req))"

definition os_ResizeCommandTerminal ::
  "err option \<Rightarrow> 'w transcript_api option \<Rightarrow> 'w \<Rightarrow> (live_session \<Rightarrow> resize_request \<Rightarrow> cmd_err + cmd_session) \<Rightarrow> os_manager option \<Rightarrow> resize_request
     \<Rightarrow> cmd_err + cmd_session" where
  "os_ResizeCommandTerminal ctxerr T w rz mgr req = os_guard ctxerr mgr (\<lambda>m.
     case validateTTYDimensions (zq_cols req) (zq_rows req) of
       Some e \<Rightarrow> Inl (CPlain e)
     | None \<Rightarrow> (case os_target T w (zq_session req) (zq_id req) m of Inl e \<Rightarrow> Inl e | Inr s \<Rightarrow> rz s req))"

text \<open>
  Stopping: the outcomes of the host are an error of \<open>Kill\<close> and of \<open>Interrupt\<close> other than that the process is done, whether the
  process ends within the grace period, and the error of the context when it ends first; \<open>s2\<close> is the session at its end.
\<close>

record stop_host =
  sh_kill :: "err option"
  sh_interrupt :: "err option"
  sh_graceful :: bool
  sh_grace_ctx :: "err option"
  sh_ctx :: "err option"

definition live_stop :: "stop_host \<Rightarrow> live_session \<Rightarrow> live_session \<Rightarrow> bool \<Rightarrow> cmd_err + cmd_session" where
  "live_stop h s s2 force =
     (let i = cs_id (lv_session s); ended = (case sh_ctx h of Some e \<Rightarrow> Inl (CPlain e) | None \<Rightarrow> Inr (lv_session s2));
          killed = (\<lambda>verb. case sh_kill h of Some e \<Rightarrow> Inl (CWrap (''commandtools: '' @ verb @ '' command session '' @ i @ '': '') (CPlain e)) | None \<Rightarrow> ended)
      in if cs_status (lv_session s) \<noteq> SessionRunning then Inr (lv_session s)
         else if force then killed ''kill''
         else if sh_interrupt h \<noteq> None then killed ''stop''
         else if sh_graceful h then Inr (lv_session s2)
         else case sh_grace_ctx h of Some e \<Rightarrow> Inl (CPlain e) | None \<Rightarrow> killed ''force-stop'')"

definition os_StopCommand ::
  "err option \<Rightarrow> 'w transcript_api option \<Rightarrow> 'w \<Rightarrow> (live_session \<Rightarrow> bool \<Rightarrow> cmd_err + cmd_session) \<Rightarrow> os_manager option \<Rightarrow> stop_req
     \<Rightarrow> cmd_err + cmd_session" where
  "os_StopCommand ctxerr T w st mgr req = os_guard ctxerr mgr (\<lambda>m.
     case os_target T w (tq_session req) (tq_id req) m of Inl e \<Rightarrow> Inl e | Inr s \<Rightarrow> st s (tq_force req))"

section \<open>Listing, cleaning up and sweeping\<close>

text \<open>Stored sessions are added to the listed live ones unless a live one has their id.\<close>

definition merge_stored :: "cmd_session list \<Rightarrow> cmd_session list \<Rightarrow> cmd_session list" where
  "merge_stored out stored = stable_sort session_before (out @ filter (\<lambda>s. cs_id s \<notin> cs_id ` set out) stored)"

definition live_listed :: "list_request \<Rightarrow> os_manager \<Rightarrow> cmd_session list" where
  "live_listed req m = stable_sort session_before (filter (listed req) (map (lv_session \<circ> snd) (om_sessions m)))"

definition os_ListCommands ::
  "err option \<Rightarrow> 'w transcript_api option \<Rightarrow> 'w \<Rightarrow> os_manager option \<Rightarrow> list_request \<Rightarrow> cmd_err + cmd_session list" where
  "os_ListCommands ctxerr T w mgr req = os_guard ctxerr mgr (\<lambda>m.
     let out = live_listed req m
     in case T of
          None \<Rightarrow> Inr (limit_sessions (lq_limit req) out)
        | Some t \<Rightarrow>
            (case st_list t w (req\<lparr>lq_limit := 0\<rparr>) of
               Inl e \<Rightarrow> Inl e
             | Inr stored \<Rightarrow> Inr (limit_sessions (lq_limit req) (merge_stored out stored))))"

text \<open>\<open>CleanupSession\<close> collects the sessions of an agent session, then stops each and forgets its id, one locked region each.\<close>

definition cleanup_collect :: "string \<Rightarrow> os_manager \<Rightarrow> live_session list" where
  "cleanup_collect sid m = (if sid = [] then [] else filter (\<lambda>s. cs_session (lv_session s) = sid) (map snd (om_sessions m)))"

fun cleanup_loop :: "(live_session \<Rightarrow> cmd_err option) \<Rightarrow> os_manager \<Rightarrow> live_session list \<Rightarrow> os_manager \<times> cmd_err list" where
  "cleanup_loop stopped m [] = (m, [])"
| "cleanup_loop stopped m (s # ss) =
     (case cleanup_loop stopped (forget_session (cs_id (lv_session s)) m) ss of
        (m', es) \<Rightarrow> (m', (case stopped s of None \<Rightarrow> [] | Some e \<Rightarrow> [e]) @ es))"

text \<open>The errors joined; \<open>stopped\<close> is the error of stopping a session other than that of a time limit.\<close>

definition os_CleanupSession ::
  "err option \<Rightarrow> (live_session \<Rightarrow> cmd_err option) \<Rightarrow> string \<Rightarrow> os_manager option \<Rightarrow> os_manager option \<times> cmd_err list" where
  "os_CleanupSession ctxerr stopped sid mgr =
     (case ctxerr of
        Some e \<Rightarrow> (mgr, [CPlain e])
      | None \<Rightarrow>
          (case mgr of
             None \<Rightarrow> (None, [])
           | Some m \<Rightarrow> (case cleanup_loop stopped m (cleanup_collect sid m) of (m', es) \<Rightarrow> (Some m', es))))"

definition orphaned :: "gotime \<Rightarrow> cmd_session \<Rightarrow> cmd_session" where
  "orphaned now s = s\<lparr>cs_status := SessionOrphaned, cs_finished := (case cs_finished s of None \<Rightarrow> Some now | Some t \<Rightarrow> Some t)\<rparr>"

text \<open>The loop of a sweep; \<open>live\<close> are the ids live at its start, \<open>m\<close> the manager when an id is looked up again.\<close>

fun sweep_loop ::
  "'w transcript_api \<Rightarrow> gotime \<Rightarrow> os_manager \<Rightarrow> string list \<Rightarrow> 'w \<Rightarrow> cmd_session list \<Rightarrow> int \<Rightarrow> 'w \<times> int \<times> cmd_err option" where
  "sweep_loop t now m live w [] n = (w, n, None)"
| "sweep_loop t now m live w (s # ss) n =
     (if cs_status s \<noteq> SessionRunning \<or> cs_id s \<in> set live then sweep_loop t now m live w ss n
      else case st_get t w (cs_id s) of
             Inl e \<Rightarrow> if cmd_is ErrCommandSessionUnknown e then sweep_loop t now m live w ss n else (w, n, Some e)
           | Inr c \<Rightarrow>
               if cs_status c \<noteq> SessionRunning \<or> map_of (om_sessions m) (cs_id c) \<noteq> None then sweep_loop t now m live w ss n
               else (case st_save t w (orphaned now c) of
                       (w', Some e) \<Rightarrow> (w', n, Some e)
                     | (w', None) \<Rightarrow> sweep_loop t now m live w' ss (n + 1)))"

definition SweepPersistedRunningCommands ::
  "err option \<Rightarrow> 'w transcript_api option \<Rightarrow> gotime \<Rightarrow> os_manager option \<Rightarrow> 'w \<Rightarrow> 'w \<times> int \<times> cmd_err option" where
  "SweepPersistedRunningCommands ctxerr T now mgr w =
     (case mgr of
        None \<Rightarrow> (w, 0, Some nil_manager)
      | Some m \<Rightarrow>
          (case ctxerr of
             Some e \<Rightarrow> (w, 0, Some (CPlain e))
           | None \<Rightarrow>
               (case T of
                  None \<Rightarrow> (w, 0, None)
                | Some t \<Rightarrow>
                    (case st_list t w \<lparr>lq_session = [], lq_completed = False, lq_limit = 0\<rparr> of
                       Inl e \<Rightarrow> (w, 0, Some e)
                     | Inr stored \<Rightarrow> sweep_loop t now m (map fst (om_sessions m)) w stored 0))))"

text \<open>The in-memory transcript store as an implementation of the interface.\<close>

definition MemApi :: "transcripts option transcript_api" where
  "MemApi =
     \<lparr>st_save = (\<lambda>w s. SaveCommandSession None s w), st_append = (\<lambda>w i cs. AppendCommandOutput None i cs w),
      st_get = (\<lambda>w i. store_CommandSession None i w), st_read = (\<lambda>w r. store_ReadCommandOutput None r w),
      st_list = (\<lambda>w r. store_ListCommands None r w), st_delete = (\<lambda>w i. DeleteCommandSession None i w)\<rparr>"

section \<open>Ids are exclusive\<close>

text \<open>A reserved id is used by no live session, no reservation and no stored transcript.\<close>

lemma exists_false:
  assumes "commandIDExistsLocked T w m i = Inr False"
  shows "map_of (om_sessions m) i = None \<and> i \<notin> set (om_reserved m)
    \<and> (\<forall>t. T = Some t \<longrightarrow> (\<exists>e. st_get t w i = Inl e \<and> cmd_is ErrCommandSessionUnknown e))"
  using assms by (auto simp: commandIDExistsLocked_def split: if_splits option.splits sum.splits)

lemma reserve_loop_free: "reserve_loop k ex n = Some (n', Inr i) \<Longrightarrow> ex i = Inr False"
  by (induction k arbitrary: n) (auto simp: Let_def split: sum.splits bool.splits)

lemma reserve_loop_error: "reserve_loop k ex n = Some (n', Inl e) \<Longrightarrow> \<exists>i. ex (''cmd-'' @ i) = Inl e"
  by (induction k arbitrary: n) (auto simp: Let_def split: sum.splits bool.splits)

lemma reserve_fresh:
  assumes "reserveSessionID fuel T w requested m = Some (m', Inr i)"
  shows "commandIDExistsLocked T w m i = Inr False \<and> om_sessions m' = om_sessions m \<and> om_limits m' = om_limits m
    \<and> set (om_reserved m') = insert i (set (om_reserved m))"
proof (cases "trim_space requested = []")
  case True
  obtain n r where l: "reserve_loop fuel (commandIDExistsLocked T w m) (om_next m) = Some (n, r)"
    using assms True by (auto simp: reserveSessionID_def)
  then show ?thesis using assms True reserve_loop_free [of fuel _ "om_next m" n]
    by (cases r) (auto simp: reserveSessionID_def)
next
  case False
  then show ?thesis using assms by (auto simp: reserveSessionID_def Let_def split: sum.splits bool.splits)
qed

lemma reserve_refused:
  assumes "reserveSessionID fuel T w requested m = Some (m', Inl e)"
  shows "om_sessions m' = om_sessions m \<and> om_reserved m' = om_reserved m \<and> om_limits m' = om_limits m"
proof (cases "trim_space requested = []")
  case True
  obtain n r where "reserve_loop fuel (commandIDExistsLocked T w m) (om_next m) = Some (n, r)"
    using assms True by (auto simp: reserveSessionID_def)
  then show ?thesis using assms True by (cases r) (auto simp: reserveSessionID_def)
next
  case False
  then show ?thesis using assms by (auto simp: reserveSessionID_def Let_def split: sum.splits bool.splits)
qed

text \<open>With enough fuel the search ends: fewer ids are taken than numbers are tried.\<close>

lemma i64_shift: "i64 (i64 a + b) = i64 (a + b)"
proof -
  have "((a + 2 ^ 63) mod 2 ^ 64 + b) mod 2 ^ 64 = (a + 2 ^ 63 + b) mod (2 ^ 64 :: int)" by (rule mod_add_left_eq)
  then show ?thesis by (simp add: i64_def algebra_simps)
qed

lemma reserve_loop_stuck:
  assumes "reserve_loop k ex n = None" and "int64_range n" and "h < k"
  shows "ex (''cmd-'' @ show_int (i64 (n + 1 + int h))) = Inr True"
  using assms
proof (induction k arbitrary: n h)
  case (Suc k)
  let ?i = "''cmd-'' @ show_int (i64 (n + 1))"
  have ex: "ex ?i = Inr True" and rest: "reserve_loop k ex (i64 (n + 1)) = None"
    using Suc.prems(1) by (auto simp: Let_def split: sum.splits bool.splits)
  show ?case
  proof (cases h)
    case 0
    then show ?thesis using ex by simp
  next
    case (Suc g)
    have "i64 (i64 (n + 1) + 1 + int g) = i64 (n + 1 + int h)"
      using i64_shift [of "n + 1" "1 + int g"] Suc by (simp add: algebra_simps)
    with Suc.IH [OF rest i64_range, of g] Suc Suc.prems(3) show ?thesis by simp
  qed
qed simp

lemma reserve_loop_ends:
  assumes "int64_range n" and "finite A" and "card A < k" and "k \<le> 2 ^ 63" and taken: "\<And>i. ex i = Inr True \<Longrightarrow> i \<in> A"
  shows "reserve_loop k ex n \<noteq> None"
proof
  assume none: "reserve_loop k ex n = None"
  let ?c = "\<lambda>h. ''cmd-'' @ show_int (i64 (n + 1 + int h))"
  have sub: "?c ` {..<k} \<subseteq> A" using reserve_loop_stuck [OF none assms(1)] taken by blast
  have "inj_on ?c {..<k}"
  proof (rule inj_onI)
    fix a b assume ab: "a \<in> {..<k}" "b \<in> {..<k}" "?c a = ?c b"
    then have "i64 (n + 1 + int a) = i64 (n + 1 + int b)" by (auto dest: show_int_inj)
    then show "a = b" by (rule i64_offset_inj) (use ab assms(4) in auto)
  qed
  then have "k = card (?c ` {..<k})" by (simp add: card_image)
  also have "\<dots> \<le> card A" by (rule card_mono [OF assms(2) sub])
  finally show False using assms(3) by simp
qed

text \<open>With the in-memory transcript store a free id is found whatever sessions, reservations and transcripts there are.\<close>

theorem reserve_returns:
  assumes "int64_range (om_next m)" and "length (om_sessions m) + length (om_reserved m) + length st < fuel" and "fuel \<le> 2 ^ 63"
  shows "\<exists>m' i. reserveSessionID fuel (Some MemApi) (Some st) requested m = Some (m', Inr i)
    \<or> trim_space requested \<noteq> [] \<and> (\<exists>e. reserveSessionID fuel (Some MemApi) (Some st) requested m = Some (m, Inl e) \<and> cmd_is ErrCommandSessionAlreadyExists e)"
proof (cases "trim_space requested = []")
  case False
  have "commandIDExistsLocked (Some MemApi) (Some st) m (trim_space requested) \<noteq> Inl e" for e
    using False by (auto simp: commandIDExistsLocked_def MemApi_def store_CommandSession_def transcript_guard_def unknown_session_def
        split: option.splits if_splits)
  then show ?thesis using False
    by (auto simp: reserveSessionID_def Let_def split: sum.splits bool.splits)
next
  case True
  let ?ex = "commandIDExistsLocked (Some MemApi) (Some st) m" and ?A = "fst ` set (om_sessions m) \<union> set (om_reserved m) \<union> fst ` set st"
  have never: "?ex (''cmd-'' @ i) \<noteq> Inl e" for i e
    by (auto simp: commandIDExistsLocked_def MemApi_def store_CommandSession_def transcript_guard_def unknown_session_def
        split: option.splits if_splits)
  have taken: "i \<in> ?A" if "?ex i = Inr True" for i
    using that by (auto simp: commandIDExistsLocked_def MemApi_def store_CommandSession_def transcript_guard_def unknown_session_def map_of_eq_None_iff
        split: option.splits if_splits dest: map_of_SomeD intro: rev_image_eqI)
  have "card ?A \<le> card (fst ` set (om_sessions m)) + card (set (om_reserved m)) + card (fst ` set st)"
    by (meson add_le_mono1 card_Un_le order_trans)
  also have "\<dots> \<le> length (om_sessions m) + length (om_reserved m) + length st"
    by (intro add_mono) (metis card_length length_map list.set_map, rule card_length, metis card_length length_map list.set_map)
  finally have "reserve_loop fuel ?ex (om_next m) \<noteq> None"
    using assms by (intro reserve_loop_ends [where A = ?A] taken) auto
  then obtain n r where l: "reserve_loop fuel ?ex (om_next m) = Some (n, r)" by auto
  have "r \<noteq> Inl e" for e using l never by (auto dest: reserve_loop_error)
  then obtain i where "r = Inr i" by (cases r) auto
  with l True show ?thesis by (simp add: reserveSessionID_def)
qed

section \<open>Concurrent starts\<close>

text \<open>
  A start between its locked regions: it has reserved an id, registered its session, saved its first snapshot, or failed
  after that and is undoing it.
\<close>

datatype start_pc = StartIdle | AtReserved string | AtRegistered string | AtPersisted string | AtAborting string | StartReturned

record 'w cmd_system =
  cy_world :: 'w
  cy_mgr :: os_manager
  cy_pc :: "nat \<Rightarrow> start_pc"

definition goto_pc :: "nat \<Rightarrow> start_pc \<Rightarrow> 'w cmd_system \<Rightarrow> 'w cmd_system" where
  "goto_pc k p y = y\<lparr>cy_pc := (cy_pc y)(k := p)\<rparr>"

text \<open>
  Starts interleave with the goroutines of the sessions they have started, with cleanups that forget sessions, and with
  anything else that uses the transcript store.
\<close>

inductive system_step :: "nat \<Rightarrow> 'w transcript_api option \<Rightarrow> 'w cmd_system \<Rightarrow> 'w cmd_system \<Rightarrow> bool" for fuel T where
  reserve: "cy_pc y k = StartIdle \<Longrightarrow> reserveSessionID fuel T (cy_world y) requested (cy_mgr y) = Some (m', Inr i) \<Longrightarrow>
    system_step fuel T y (goto_pc k (AtReserved i) (y\<lparr>cy_mgr := m'\<rparr>))"
| refuse: "cy_pc y k = StartIdle \<Longrightarrow> reserveSessionID fuel T (cy_world y) requested (cy_mgr y) = Some (m', Inl e) \<Longrightarrow>
    system_step fuel T y (goto_pc k StartReturned (y\<lparr>cy_mgr := m'\<rparr>))"
| release: "cy_pc y k = AtReserved i \<Longrightarrow>
    system_step fuel T y (goto_pc k StartReturned (y\<lparr>cy_mgr := releaseReservedSessionID i (cy_mgr y)\<rparr>))"
| register: "cy_pc y k = AtReserved i \<Longrightarrow> ses = start_session now pid tree i req checked \<Longrightarrow>
    system_step fuel T y (goto_pc k (AtRegistered i) (y\<lparr>cy_mgr := registerReservedSession i (new_live ses stdin terminal) (cy_mgr y)\<rparr>))"
| persisted: "cy_pc y k = AtRegistered i \<Longrightarrow> persistInitialSnapshot T s (cy_world y) = (w', None) \<Longrightarrow>
    system_step fuel T y (goto_pc k (AtPersisted i) (y\<lparr>cy_world := w'\<rparr>))"
| not_persisted: "cy_pc y k = AtRegistered i \<Longrightarrow> persistInitialSnapshot T s (cy_world y) = (w', Some e) \<Longrightarrow>
    system_step fuel T y (goto_pc k (AtAborting i) (y\<lparr>cy_world := w', cy_mgr := forget_session i (cy_mgr y)\<rparr>))"
| started: "cy_pc y k = AtPersisted i \<Longrightarrow> initial_stdin req s werr = None \<Longrightarrow> system_step fuel T y (goto_pc k StartReturned y)"
| no_input: "cy_pc y k = AtPersisted i \<Longrightarrow> initial_stdin req s werr = Some e \<Longrightarrow>
    system_step fuel T y (goto_pc k (AtAborting i) (y\<lparr>cy_mgr := forget_session i (cy_mgr y)\<rparr>))"
| undo: "cy_pc y k = AtAborting i \<Longrightarrow>
    system_step fuel T y (goto_pc k StartReturned (y\<lparr>cy_world := deletePersistedTranscript T i (cy_world y)\<rparr>))"
| live: "map_of (om_sessions (cy_mgr y)) j = Some s \<Longrightarrow>
    session_step (om_limits (cy_mgr y)) (map_option cmd_store.truncate T) (cy_world y, s) (w', s') \<Longrightarrow>
    system_step fuel T y (y\<lparr>cy_world := w', cy_mgr := (cy_mgr y)\<lparr>om_sessions := AList.update j s' (om_sessions (cy_mgr y))\<rparr>\<rparr>)"
| forget: "system_step fuel T y (y\<lparr>cy_mgr := forget_session j (cy_mgr y)\<rparr>)"
| store: "system_step fuel T y (y\<lparr>cy_world := w'\<rparr>)"

text \<open>The reservations are those the starts hold, one each, and no session has a reserved id.\<close>

definition reservations_ok :: "string set \<Rightarrow> string set \<Rightarrow> (nat \<Rightarrow> start_pc) \<Rightarrow> bool" where
  "reservations_ok R D pc \<longleftrightarrow>
     (\<forall>i. i \<in> R \<longleftrightarrow> (\<exists>k. pc k = AtReserved i)) \<and> (\<forall>k l i. pc k = AtReserved i \<longrightarrow> pc l = AtReserved i \<longrightarrow> k = l) \<and> R \<inter> D = {}"

definition system_ok :: "'w cmd_system \<Rightarrow> bool" where
  "system_ok y \<longleftrightarrow>
     reservations_ok (set (om_reserved (cy_mgr y))) (dom (map_of (om_sessions (cy_mgr y)))) (cy_pc y)
     \<and> (\<forall>i s. map_of (om_sessions (cy_mgr y)) i = Some s \<longrightarrow> cs_id (lv_session s) = i)"

lemma reservations_take:
  assumes "reservations_ok R D pc" and "pc k = StartIdle" and "i \<notin> R" and "i \<notin> D"
  shows "reservations_ok (insert i R) D (pc(k := AtReserved i))"
  unfolding reservations_ok_def
proof (intro conjI allI impI)
  fix j show "j \<in> insert i R \<longleftrightarrow> (\<exists>l. (pc(k := AtReserved i)) l = AtReserved j)"
    using assms(1,2) by (auto simp: reservations_ok_def) (metis start_pc.distinct(1))
next
  fix a b j assume "(pc(k := AtReserved i)) a = AtReserved j" "(pc(k := AtReserved i)) b = AtReserved j"
  then show "a = b" using assms(1,3) by (auto simp: reservations_ok_def split: if_splits)
qed (use assms in \<open>auto simp: reservations_ok_def\<close>)

lemma reservations_drop:
  assumes "reservations_ok R D pc" and "pc k = AtReserved i" and "\<And>j. p \<noteq> AtReserved j" and "D' \<subseteq> insert i D"
  shows "reservations_ok (R - {i}) D' (pc(k := p))"
  unfolding reservations_ok_def
proof (intro conjI allI impI)
  fix j show "j \<in> R - {i} \<longleftrightarrow> (\<exists>l. (pc(k := p)) l = AtReserved j)"
    using assms(1-3) by (auto simp: reservations_ok_def) (metis start_pc.inject(1))+
next
  fix a b j assume "(pc(k := p)) a = AtReserved j" "(pc(k := p)) b = AtReserved j"
  then show "a = b" using assms(1,3) by (auto simp: reservations_ok_def split: if_splits)
qed (use assms in \<open>auto simp: reservations_ok_def\<close>)

lemma reservations_keep:
  assumes "reservations_ok R D pc" and "\<And>j. pc k \<noteq> AtReserved j" and "\<And>j. p \<noteq> AtReserved j" and "D' \<subseteq> D"
  shows "reservations_ok R D' (pc(k := p))"
  unfolding reservations_ok_def
proof (intro conjI allI impI)
  fix j show "j \<in> R \<longleftrightarrow> (\<exists>l. (pc(k := p)) l = AtReserved j)"
    using assms(1-3) by (auto simp: reservations_ok_def) metis
next
  fix a b j assume "(pc(k := p)) a = AtReserved j" "(pc(k := p)) b = AtReserved j"
  then show "a = b" using assms(1,3) by (auto simp: reservations_ok_def split: if_splits)
qed (use assms in \<open>auto simp: reservations_ok_def\<close>)

lemma reservations_fewer: "reservations_ok R D pc \<Longrightarrow> D' \<subseteq> D \<Longrightarrow> reservations_ok R D' pc"
  by (auto simp: reservations_ok_def)

lemma session_step_id: "session_step bl store ws ws' \<Longrightarrow> cs_id (lv_session (snd ws')) = cs_id (lv_session (snd ws))"
proof (induction rule: session_step.induct)
  case (capture s w now stream txt0)
  obtain c d s1 where a: "appendChunkLocked bl now stream txt0 s = (c, d, s1)" by (metis prod_cases3)
  then show ?case using appendChunk_frame [OF a] by (simp add: appendOutput_def a persist_output_same)
next
  case (diagnose s w now)
  show ?case
  proof (cases "lv_owed s")
    case (Cons m ms)
    obtain c d s1 where a: "appendChunkLocked bl now ''stderr'' (''[commandtools] transcript persistence disabled: '' @ m @ [CHR 10]) s = (c, d, s1)"
      by (metis prod_cases3)
    then show ?thesis using appendChunk_frame [OF a] Cons by (simp add: appendPersistenceDiagnostic_def)
  qed (simp add: appendPersistenceDiagnostic_def)
qed (auto simp: resize_apply_def persist_session_same session_timeout_def stop_request_def closeTerminalForDrain_def
    forceCloseReaders_flag_def finish_close_def finish_status_def Let_def)

lemma forget_conv: "map_of (om_sessions (forget_session j m)) i = (if i = j then None else map_of (om_sessions m) i)"
  by (simp add: forget_session_def delete_conv')

lemma new_session_id [simp]: "cs_id (lv_session (new_live (start_session now pid tree i req checked) stdin terminal)) = i"
  by (simp add: new_live_def start_session_def split: prod.splits)

lemma forget_dom: "dom (map_of (om_sessions (forget_session j m))) \<subseteq> dom (map_of (om_sessions m))"
  by (auto simp: forget_conv split: if_splits)

lemma forget_reserved [simp]: "om_reserved (forget_session j m) = om_reserved m"
  by (simp add: forget_session_def)

lemma system_step_ok:
  assumes "system_step fuel T y y'" and "system_ok y"
  shows "system_ok y'"
  using assms
proof (induction rule: system_step.induct)
  case (reserve y k requested m' i)
  note f = reserve_fresh [OF reserve(2)]
  have "i \<notin> set (om_reserved (cy_mgr y))" "i \<notin> dom (map_of (om_sessions (cy_mgr y)))" using f by (auto dest: exists_false)
  then show ?case using reserve f by (auto simp: system_ok_def goto_pc_def intro!: reservations_take)
next
  case (refuse y k requested m' e)
  then show ?case using reserve_refused [OF refuse(2)] by (auto simp: system_ok_def goto_pc_def intro!: reservations_keep)
next
  case (release y k i)
  then show ?case by (auto simp: system_ok_def goto_pc_def releaseReservedSessionID_def intro!: reservations_drop)
next
  case (register y k i ses now pid tree req checked stdin terminal)
  then show ?case
    by (auto simp: system_ok_def goto_pc_def registerReservedSession_def update_conv' intro!: reservations_drop split: if_splits)
next
  case (live y j s w' s')
  have "dom (map_of (AList.update j s' (om_sessions (cy_mgr y)))) \<subseteq> dom (map_of (om_sessions (cy_mgr y)))"
    using live(1) by (auto simp: update_conv' split: if_splits)
  then show ?case using live session_step_id [OF live(2)]
    by (auto simp: system_ok_def update_conv' intro: reservations_fewer split: if_splits)
next
  case (forget y j)
  then show ?case using forget_dom [of j "cy_mgr y"]
    by (auto simp: system_ok_def forget_conv intro: reservations_fewer split: if_splits)
next
  case (not_persisted y k i s w' e)
  then show ?case using forget_dom [of i "cy_mgr y"]
    by (auto simp: system_ok_def goto_pc_def forget_conv intro!: reservations_keep split: if_splits)
next
  case (no_input y k i req s werr e)
  then show ?case using forget_dom [of i "cy_mgr y"]
    by (auto simp: system_ok_def goto_pc_def forget_conv intro!: reservations_keep split: if_splits)
qed (auto simp: system_ok_def goto_pc_def intro!: reservations_keep)

text \<open>
  C24. Starts do not get in each other's way: whatever starts, sessions, cleanups and users of the transcript store
  interleave, an id that a start has reserved is reserved by no other start and belongs to no session, so that
  registering it replaces nothing; every reservation belongs to a start that still holds it; and every session is found
  under its own id.
\<close>

theorem starts_are_exclusive:
  assumes "(system_step fuel T)\<^sup>*\<^sup>* y0 y" and "om_sessions (cy_mgr y0) = []" and "om_reserved (cy_mgr y0) = []" and "cy_pc y0 = (\<lambda>k. StartIdle)"
  shows "(cy_pc y k = AtReserved i \<longrightarrow> map_of (om_sessions (cy_mgr y)) i = None \<and> (\<forall>l. cy_pc y l = AtReserved i \<longrightarrow> l = k))
    \<and> (i \<in> set (om_reserved (cy_mgr y)) \<longleftrightarrow> (\<exists>l. cy_pc y l = AtReserved i))
    \<and> (map_of (om_sessions (cy_mgr y)) i = Some s \<longrightarrow> cs_id (lv_session s) = i)"
proof -
  have "system_ok y0" using assms(2-4) by (simp add: system_ok_def reservations_ok_def)
  with assms(1) have "system_ok y" by (induction rule: rtranclp_induct) (auto dest: system_step_ok)
  then show ?thesis by (auto simp: system_ok_def reservations_ok_def disjoint_iff domIff)
qed

definition fresh_manager :: os_manager where
  "fresh_manager =
     \<lparr>om_runner = \<lparr>os_root = [], os_inherit_env = False, os_base_env = [], os_max_output = 0\<rparr>, om_default_timeout = defaultSessionTimeout,
      om_max_timeout = defaultSessionMaxTimeout, om_max_stdin = defaultMaxStdinBytes,
      om_limits = \<lparr>bl_chunks = defaultSessionMaxBufferedChunks, bl_bytes = defaultSessionMaxBufferedBytes\<rparr>,
      om_stop_grace = defaultSessionStopGrace, om_drain_timeout = defaultSessionDrainTimeout, om_next = 0, om_sessions = [], om_reserved = []\<rparr>"

definition idle_system :: "unit cmd_system" where
  "idle_system = \<lparr>cy_world = (), cy_mgr = fresh_manager, cy_pc = (\<lambda>k. StartIdle)\<rparr>"

theorem starts_are_exclusive_witness:
  "\<exists>y. (system_step 1 None)\<^sup>*\<^sup>* idle_system y \<and> cy_pc y 0 = AtReserved ''a'' \<and> map_of (om_sessions (cy_mgr y)) ''a'' = None
    \<and> ''a'' \<in> set (om_reserved (cy_mgr y))"
proof -
  let ?m = "fresh_manager\<lparr>om_reserved := [''a'']\<rparr>"
  let ?y = "goto_pc 0 (AtReserved ''a'') (idle_system\<lparr>cy_mgr := ?m\<rparr>)"
  have "trim_space ''a'' = ''a''" by code_simp
  then have "reserveSessionID 1 None () ''a'' fresh_manager = Some (?m, Inr ''a'')"
    by (simp add: reserveSessionID_def commandIDExistsLocked_def fresh_manager_def Let_def)
  then have "system_step 1 None idle_system ?y" by (intro system_step.reserve) (simp_all add: idle_system_def)
  then have path: "(system_step 1 None)\<^sup>*\<^sup>* idle_system ?y" by blast
  have pc: "cy_pc ?y 0 = AtReserved ''a''" by (simp add: goto_pc_def)
  from starts_are_exclusive [OF path, of 0 "''a''"] pc path show ?thesis by (auto simp: idle_system_def fresh_manager_def)
qed

section \<open>Sweeps\<close>

definition orphan_record :: "gotime \<Rightarrow> cmd_record \<Rightarrow> cmd_record" where
  "orphan_record now r = \<lparr>tc_session = raise_next (orphaned now (tc_session r)) (tc_chunks r), tc_chunks = tc_chunks r\<rparr>"

definition stale :: "os_manager \<Rightarrow> transcripts \<Rightarrow> string \<Rightarrow> bool" where
  "stale m st i \<longleftrightarrow> (\<exists>r. map_of st i = Some r \<and> cs_status (tc_session r) = SessionRunning) \<and> map_of (om_sessions m) i = None"

lemma mem_get: "i \<noteq> [] \<Longrightarrow> map_of st i = Some r \<Longrightarrow> st_get MemApi (Some st) i = Inr (tc_session r)"
  by (simp add: MemApi_def store_CommandSession_def transcript_guard_def)

lemma mem_save_orphan:
  assumes "i \<noteq> []" and "map_of st i = Some r" and "cs_id (tc_session r) = i"
  shows "st_save MemApi (Some st) (orphaned now (tc_session r)) = (Some (AList.update i (orphan_record now r) st), None)"
  using assms by (simp add: MemApi_def SaveCommandSession_def transcript_guard_def orphaned_def orphan_record_def Let_def)

lemma sweep_loop_mem:
  assumes "distinct (map cs_id ss)"
    and "\<And>s. s \<in> set ss \<Longrightarrow> cs_id s \<noteq> [] \<and> cs_status s = SessionRunning \<and> (\<exists>r. map_of st (cs_id s) = Some r \<and> tc_session r = s)"
    and "sweep_loop MemApi now m (map fst (om_sessions m)) (Some st) ss n = (w', n', e)"
  shows "e = None \<and> n' = n + int (length (filter (\<lambda>s. map_of (om_sessions m) (cs_id s) = None) ss))
    \<and> (\<exists>st'. w' = Some st' \<and> (\<forall>i. map_of st' i = (if i \<in> cs_id ` set ss \<and> map_of (om_sessions m) i = None
          then map_option (orphan_record now) (map_of st i) else map_of st i)))"
  using assms
proof (induction ss arbitrary: st n)
  case (Cons s ss)
  obtain r where r: "cs_id s \<noteq> []" "cs_status s = SessionRunning" "map_of st (cs_id s) = Some r" "tc_session r = s"
    using Cons.prems(2) [of s] by auto
  show ?case
  proof (cases "map_of (om_sessions m) (cs_id s) = None")
    case False
    then have "cs_id s \<in> set (map fst (om_sessions m))" by (simp add: map_of_eq_None_iff)
    then have "sweep_loop MemApi now m (map fst (om_sessions m)) (Some st) ss n = (w', n', e)" using Cons.prems(3) by simp
    from Cons.IH [OF _ _ this] Cons.prems(1,2) False show ?thesis by auto
  next
    case True
    let ?st = "AList.update (cs_id s) (orphan_record now r) st"
    have "cs_id s \<notin> set (map fst (om_sessions m))" using True by (simp add: map_of_eq_None_iff)
    then have l: "sweep_loop MemApi now m (map fst (om_sessions m)) (Some ?st) ss (n + 1) = (w', n', e)"
      using Cons.prems(3) r True mem_get [OF r(1,3)] mem_save_orphan [OF r(1,3), of now] by simp
    have other: "\<exists>q. map_of ?st (cs_id u) = Some q \<and> tc_session q = u" if "u \<in> set ss" for u
    proof -
      have "cs_id u \<noteq> cs_id s" using that Cons.prems(1) by (auto simp: image_iff)
      then show ?thesis using that Cons.prems(2) [of u] by (simp add: update_conv')
    qed
    have "map_of ?st i = (if i = cs_id s then map_option (orphan_record now) (map_of st i) else map_of st i)" for i
      using r(3) by (simp add: update_conv')
    moreover note Cons.IH [OF _ _ l] Cons.prems(1,2) other
    ultimately show ?thesis using True Cons.prems(1) r(3) by (auto simp: image_iff)
  qed
qed auto

lemma listed_ids_distinct:
  assumes "distinct (map fst xs)" and "\<And>i v. (i, v) \<in> set xs \<Longrightarrow> cs_id (f v) = i"
  shows "distinct (map cs_id (stable_sort lt (filter P (map (f \<circ> snd) xs))))"
proof -
  have "map cs_id (map (f \<circ> snd) xs) = map fst xs" using assms(2) by auto
  then have "distinct (map cs_id (filter P (map (f \<circ> snd) xs)))" using assms(1) by (metis distinct_map_filter)
  moreover have "mset (map cs_id (stable_sort lt (filter P (map (f \<circ> snd) xs)))) = mset (map cs_id (filter P (map (f \<circ> snd) xs)))" by simp
  ultimately show ?thesis by (metis mset_eq_imp_distinct_iff)
qed



section \<open>Listings\<close>

text \<open>
  A listing shows every session once, live sessions as they are and stored ones where no live one is listed under their id,
  only those of the agent session that asks, in the order of their start.
\<close>

lemma session_before_weak: "strict_weak session_before"
proof -
  have eq: "session_before = (\<lambda>a b. if cs_started a \<noteq> cs_started b then cs_started a < cs_started b else str_less (cs_id a) (cs_id b))"
    by (intro ext) (simp add: session_before_def)
  show ?thesis unfolding eq by (rule strict_weak_lex) (rule strict_weak_on [OF str_less_strict_weak])
qed

theorem listing_complete:
  assumes "os_ListCommands None (Some MemApi) (Some st) (Some m) req = Inr ss" and "lq_limit req \<le> 0"
    and ok: "transcripts_ok st" and "distinct (map fst st)" and "distinct (map fst (om_sessions m))"
    and own: "\<And>i s. map_of (om_sessions m) i = Some s \<Longrightarrow> cs_id (lv_session s) = i"
  shows "distinct (map cs_id ss) \<and> sorted_wrt (\<lambda>a b. \<not> session_before b a) ss \<and> list_all (listed req) ss
    \<and> (\<forall>i s. map_of (om_sessions m) i = Some s \<longrightarrow> listed req (lv_session s) \<longrightarrow> lv_session s \<in> set ss)
    \<and> (\<forall>i r. map_of st i = Some r \<longrightarrow> listed req (tc_session r) \<longrightarrow> i \<in> cs_id ` set ss)"
proof -
  define out where "out = live_listed req m"
  define stored where "stored = stable_sort session_before (filter (listed req) (map (tc_session \<circ> snd) st))"
  have same: "listed (req\<lparr>lq_limit := 0\<rparr>) = listed req" by (intro ext) (simp add: listed_def)
  have ss: "ss = stable_sort session_before (out @ filter (\<lambda>s. cs_id s \<notin> cs_id ` set out) stored)"
    using assms(1,2) same
    by (simp add: os_ListCommands_def os_guard_def MemApi_def store_ListCommands_def limit_sessions_def merge_stored_def out_def stored_def Let_def)
  have sid: "cs_id (tc_session r) = i" if "(i, r) \<in> set st" for i r
    using that ok assms(4) by (auto simp: transcripts_ok_def record_ok_def map_of_eq_Some_iff)
  have "distinct (map cs_id out)" "distinct (map cs_id stored)"
    unfolding out_def live_listed_def stored_def using assms(4,5) own sid
    by (auto intro!: listed_ids_distinct simp: map_of_eq_Some_iff)
  then have "distinct (map cs_id (out @ filter (\<lambda>s. cs_id s \<notin> cs_id ` set out) stored))"
    by (auto simp: distinct_map_filter image_iff)
  moreover have "mset (map cs_id ss) = mset (map cs_id (out @ filter (\<lambda>s. cs_id s \<notin> cs_id ` set out) stored))"
    by (simp add: ss)
  ultimately have "distinct (map cs_id ss)" by (metis mset_eq_imp_distinct_iff)
  moreover have "sorted_wrt (\<lambda>a b. \<not> session_before b a) ss" unfolding ss by (rule sorted_stable_sort [OF session_before_weak])
  moreover have "list_all (listed req) ss" by (auto simp: ss list_all_iff out_def live_listed_def stored_def)
  moreover have "lv_session s \<in> set ss" if "map_of (om_sessions m) i = Some s" "listed req (lv_session s)" for i s
    using map_of_SomeD [OF that(1)] that(2) by (force simp: ss out_def live_listed_def)
  moreover have "i \<in> cs_id ` set ss" if "map_of st i = Some r" "listed req (tc_session r)" for i r
  proof -
    have "tc_session r \<in> set stored" "cs_id (tc_session r) = i"
      using map_of_SomeD [OF that(1)] that(2) sid by (force simp: stored_def)+
    then show ?thesis by (auto simp: ss image_iff)
  qed
  ultimately show ?thesis by blast
qed

text \<open>
  A session that ended after its transcript was switched off stays recorded as running. It is left out of the live part of a
  listing of running sessions, and is then taken from the store as if it ran.
\<close>

definition ended_live :: live_session where
  "ended_live = (new_live sample_session True False)\<lparr>lv_session := sample_session\<lparr>cs_status := SessionExited, cs_exit := Some 1, cs_finished := Some 9\<rparr>,
     lv_disabled := True, lv_finish := Finished\<rparr>"

theorem ended_session_listed_running:
  "os_ListCommands None (Some MemApi) (Some [(''c'', sample_record)]) (Some (fresh_manager\<lparr>om_sessions := [(''c'', ended_live)]\<rparr>))
     \<lparr>lq_session = [], lq_completed = False, lq_limit = 0\<rparr> = Inr [sample_session]
   \<and> cs_status sample_session = SessionRunning \<and> cs_status (lv_session ended_live) = SessionExited"
  by (simp add: os_ListCommands_def os_guard_def live_listed_def listed_def merge_stored_def MemApi_def store_ListCommands_def limit_sessions_def
      ended_live_def sample_record_def fresh_manager_def) (auto simp: sample_session_def)

text \<open>
  A cleanup forgets sessions by id, after it has collected them: when two cleanups of an agent session run at once and the
  id is started again between them, the second one forgets the new session, whose process goes on without a manager.
\<close>

theorem late_cleanup_forgets_new_session:
  assumes "om_sessions m = [(i, old)]" and "cs_id (lv_session old) = i" and "cs_session (lv_session old) = sid" and "sid \<noteq> []"
    and "trim_space i = i" and "i \<noteq> []" and "om_reserved m = []"
  shows "cleanup_collect sid m = [old]
    \<and> reserveSessionID fuel None w i (fst (cleanup_loop stopped m [old])) = Some ((fst (cleanup_loop stopped m [old]))\<lparr>om_reserved := [i]\<rparr>, Inr i)
    \<and> map_of (om_sessions (registerReservedSession i new (fst (cleanup_loop stopped m [old])))) i = Some new
    \<and> map_of (om_sessions (fst (cleanup_loop stopped (registerReservedSession i new (fst (cleanup_loop stopped m [old]))) [old]))) i = None"
  using assms
  by (simp add: cleanup_collect_def reserveSessionID_def commandIDExistsLocked_def registerReservedSession_def forget_session_def
      update_conv' delete_conv' Let_def)

text \<open>A session of another agent session is neither read nor handed to a write, resize or stop.\<close>

theorem os_requests_isolated:
  assumes "map_of (om_sessions m) i = Some s" and "hidden_from sid (lv_session s)"
  shows "os_target T w sid i m = Inl (not_visible i)"
    and "rd_id req = i \<Longrightarrow> rd_session req = sid \<Longrightarrow> os_ReadCommandOutput None T w (Some m) req = Inl (not_visible i)"
    and "wt_id wreq = i \<Longrightarrow> wt_session wreq = sid \<Longrightarrow> 0 \<le> wt_timeout wreq \<Longrightarrow> os_WaitCommandOutput None T w waited (Some m) wreq = Inl (not_visible i)"
  using assms
  by (auto simp: os_target_def os_lookup_def transcriptOnlySessionError_def os_ReadCommandOutput_def os_WaitCommandOutput_def os_guard_def
      not_visible_def split: option.splits)

end
