(* ===== verification/Line_Scanner.thy ===== *)
theory Line_Scanner
  imports Go_Strings
begin

text \<open>
  \<open>bufio.Scanner\<close> as the sources use it, with its default split function: the lines of a text, without their line feed and
  without a carriage return before it. A line that does not fit into the scanner's buffer with its line feed ends the scan.
\<close>

text \<open>The lines of a file; \<open>cur\<close> is the line being read, backwards. A last line without line feed counts.\<close>

fun scan_lines :: "string \<Rightarrow> string \<Rightarrow> string list" where
  "scan_lines cur [] = (if cur = [] then [] else [rev cur])"
| "scan_lines cur (c # cs) = (if c = CHR 10 then rev cur # scan_lines [] cs else scan_lines (c # cur) cs)"

definition drop_CR :: "string \<Rightarrow> string" where
  "drop_CR l = (if l \<noteq> [] \<and> last l = CHR 13 then butlast l else l)"

text \<open>The lines before the first that is too long, and whether there was one.\<close>

definition scan_fitting :: "nat \<Rightarrow> string \<Rightarrow> string list \<times> bool" where
  "scan_fitting mx s =
     (let ls = scan_lines [] s; fit = takeWhile (\<lambda>l. length l < mx) ls in (map drop_CR fit, length fit < length ls))"

text \<open>A complete file ends its last line.\<close>

definition complete :: "string \<Rightarrow> bool" where
  "complete c \<longleftrightarrow> c = [] \<or> last c = CHR 10"

lemma scan_split: "scan_lines cur (s @ CHR 10 # t) = scan_lines cur (s @ [CHR 10]) @ scan_lines [] t"
  by (induction s arbitrary: cur) auto

lemma scan_one: "CHR 10 \<notin> set l \<Longrightarrow> scan_lines cur (l @ [CHR 10]) = [rev cur @ l]"
  by (induction l arbitrary: cur) auto

lemma scan_append:
  assumes "complete c" and "CHR 10 \<notin> set l"
  shows "scan_lines [] (c @ l @ [CHR 10]) = scan_lines [] c @ [l]"
proof (cases "c = []")
  case True
  then show ?thesis using scan_one [OF assms(2), of "[]"] by simp
next
  case False
  then obtain s where s: "c = s @ [CHR 10]" using assms(1) by (metis append_butlast_last_id complete_def)
  then show ?thesis using scan_split [of "[]" s "l @ [CHR 10]"] scan_one [OF assms(2), of "[]"] by simp
qed

lemma scan_lines_concat:
  "list_all (\<lambda>l. CHR 10 \<notin> set l) ls \<Longrightarrow> scan_lines [] (concat (map (\<lambda>l. l @ [CHR 10]) ls) @ r) = ls @ scan_lines [] r"
proof (induction ls)
  case (Cons l ls)
  then show ?case using scan_split [of "[]" l "concat (map (\<lambda>l. l @ [CHR 10]) ls) @ r"] scan_one [of l "[]"] by simp
qed simp

lemma drop_CR_plain [simp]: "CHR 13 \<notin> set l \<Longrightarrow> drop_CR l = l"
  using last_in_set [of l] by (metis drop_CR_def)

lemma scan_fitting_concat:
  assumes "list_all (\<lambda>l. CHR 10 \<notin> set l \<and> CHR 13 \<notin> set l \<and> length l < mx) ls"
  shows "scan_fitting mx (concat (map (\<lambda>l. l @ [CHR 10]) ls)) = (ls, False)"
proof -
  have a: "scan_lines [] (concat (map (\<lambda>l. l @ [CHR 10]) ls)) = ls"
    using scan_lines_concat [of ls "[]"] assms by (auto simp: list_all_iff)
  have b: "takeWhile (\<lambda>l. length l < mx) ls = ls" and c: "map drop_CR ls = ls"
    using assms by (auto simp: list_all_iff takeWhile_eq_all_conv intro!: map_idI)
  show ?thesis by (simp only: scan_fitting_def Let_def a b c less_irrefl)
qed

end
