(* ===== verification/Jsonl_Store.thy ===== *)
theory Jsonl_Store
  imports Session_Store Go_Text Line_Scanner
begin

text \<open>
  \<open>session/jsonl.go\<close>: sessions as files of JSON lines with an index file for each session. Paths are relative to the
  store's directory, which is not empty; the index directory is a part of its own. Encoding and decoding of JSON is an
  argument, and so are the failures of the file system; a file keeps its bytes, and the scanner of \<open>bufio\<close> cuts them into lines.
\<close>

section \<open>Files\<close>

record transcript_entry =
  te_type :: string
  te_time :: gotime
  te_session :: "session option"
  te_message :: "message option"
  te_compaction :: "checkpoint option"

record index_entry =
  ie_id :: string
  ie_parent :: string
  ie_path :: string
  ie_created :: gotime

text \<open>\<open>encoding/json\<close> on the two kinds of values, with errors as texts, and the Unicode tables that quoting consults.\<close>

record codec =
  cd_entry :: "transcript_entry \<Rightarrow> string + string"
  cd_read :: "string \<Rightarrow> string + transcript_entry"
  cd_index :: "index_entry \<Rightarrow> string + string"
  cd_index_read :: "string \<Rightarrow> string + index_entry"
  cd_unicode :: unicode

text \<open>An error of the session package, one that wraps \<open>os.ErrNotExist\<close>, or any other.\<close>

datatype jl_error = JSession session_error | JMissing string | JText string

text \<open>The transcripts under their relative paths and the index files under the ids they are named for.\<close>

record jl_fs =
  jf_files :: "(string, string) gomap"
  jf_index :: "(string, string) gomap"

text \<open>The file operations that can fail, for other reasons than a missing or an existing file.\<close>

datatype io_op =
    MkdirStore | MkdirIndex | MkdirTranscript | CreateTranscript | CloseTranscript | WriteEntry | OpenAppend | OpenRead
  | StatTranscript | ReadIndexFile | PublishIndex | ReadDirIndex | ReadDirStore

text \<open>\<open>ho_torn\<close> is what a failed write has left in the file.\<close>

record jl_host =
  ho_fail :: "io_op \<Rightarrow> string option"
  ho_torn :: string

definition transcriptExt :: string where "transcriptExt = ''.jsonl''"

definition no_such_file :: string where "no_such_file = ''no such file or directory''"

section \<open>Paths\<close>

definition path_base :: "string \<Rightarrow> string" where
  "path_base p = last (split_on (CHR ''/'') p)"

text \<open>\<open>filepath.Ext\<close>: what follows the last dot of the last element, the dot included.\<close>

definition path_ext :: "string \<Rightarrow> string" where
  "path_ext p =
     (let b = path_base p; r = takeWhile (\<lambda>c. c \<noteq> CHR ''.'') (rev b)
      in if CHR ''.'' \<in> set b then CHR ''.'' # rev r else [])"

definition safeIndexPath :: "codec \<Rightarrow> index_entry \<Rightarrow> string \<Rightarrow> jl_error + string" where
  "safeIndexPath J e i =
     (if CanonicalID (ie_id e) \<noteq> Some i then Inl (JText (''session index id = '' @ quote (cd_unicode J) (ie_id e) @ '', want '' @ quote (cd_unicode J) i))
      else if ie_path e = [] then Inl (JText (''session index path is empty for '' @ i))
      else let clean = path_Clean (ie_path e); unsafe = Inl (JText (''session index path is unsafe for '' @ i @ '': '' @ quote (cd_unicode J) (ie_path e)))
           in if hd clean = CHR ''/'' \<or> clean = dot \<or> goes_up clean then unsafe
              else if path_ext clean \<noteq> transcriptExt \<or> path_base clean \<noteq> i @ transcriptExt
              then Inl (JText (''session index path does not match session '' @ i @ '': '' @ quote (cd_unicode J) (ie_path e)))
              else if list_ex (\<lambda>part. part = [] \<or> part = dot \<or> part = dotdot) (split_on (CHR ''/'') clean) then unsafe
              else Inr clean)"

definition readIndex :: "codec \<Rightarrow> jl_host \<Rightarrow> jl_fs \<Rightarrow> string \<Rightarrow> jl_error + index_entry" where
  "readIndex J h fs i0 =
     (case CanonicalID i0 of
        None \<Rightarrow> Inl (JSession (InvalidSessionID i0))
      | Some i \<Rightarrow>
          (case map_of (jf_index fs) i of
             None \<Rightarrow> Inl (JMissing (''read session index: '' @ no_such_file))
           | Some d \<Rightarrow>
               (case ho_fail h ReadIndexFile of
                  Some e \<Rightarrow> Inl (JText (''read session index: '' @ e))
                | None \<Rightarrow>
                    (case cd_index_read J d of
                       Inl e \<Rightarrow> Inl (JText (''decode session index '' @ i0 @ '': '' @ e))
                     | Inr x \<Rightarrow> Inr x))))"

fun missing :: "jl_error \<Rightarrow> bool" where
  "missing (JMissing m) = True"
| "missing e = False"

definition jl_path :: "codec \<Rightarrow> jl_host \<Rightarrow> jl_fs \<Rightarrow> string \<Rightarrow> jl_error + string" where
  "jl_path J h fs i0 =
     (case CanonicalID i0 of
        None \<Rightarrow> Inl (JSession (InvalidSessionID i0))
      | Some i \<Rightarrow>
          (case readIndex J h fs i of
             Inr e \<Rightarrow> safeIndexPath J e i
           | Inl e \<Rightarrow> if missing e then Inr (i @ transcriptExt) else Inl e))"

text \<open>The id and the parent are canonical here, so that joining them cleans nothing.\<close>

definition transcriptRelPath :: "codec \<Rightarrow> jl_host \<Rightarrow> jl_fs \<Rightarrow> string \<Rightarrow> string \<Rightarrow> jl_error + string" where
  "transcriptRelPath J h fs i parent =
     (if parent = [] then Inr (i @ transcriptExt)
      else case readIndex J h fs parent of
             Inl e \<Rightarrow> if missing e then Inr (parent @ ''/'' @ i @ transcriptExt) else Inl e
           | Inr x \<Rightarrow>
               (case safeIndexPath J x parent of
                  Inl e \<Rightarrow> Inl e
                | Inr p \<Rightarrow> Inr (take (length p - length transcriptExt) p @ ''/'' @ i @ transcriptExt)))"

definition writeIndex :: "codec \<Rightarrow> jl_host \<Rightarrow> index_entry \<Rightarrow> jl_fs \<Rightarrow> jl_fs \<times> jl_error option" where
  "writeIndex J h e fs =
     (case CanonicalID (ie_id e) of
        None \<Rightarrow> (fs, Some (JSession (InvalidSessionID (ie_id e))))
      | Some i \<Rightarrow>
          (case safeIndexPath J e (ie_id e) of
             Inl x \<Rightarrow> (fs, Some x)
           | Inr p \<Rightarrow>
               (case cd_index J (e\<lparr>ie_path := p\<rparr>) of
                  Inl x \<Rightarrow> (fs, Some (JText (''encode session index: '' @ x)))
                | Inr d \<Rightarrow>
                    (case ho_fail h PublishIndex of
                       Some x \<Rightarrow> (fs, Some (JText x))
                     | None \<Rightarrow> (fs\<lparr>jf_index := AList.update i (d @ [CHR 10]) (jf_index fs)\<rparr>, None)))))"

section \<open>Lines\<close>

definition maxLine :: nat where "maxLine = 64 * 1024 * 1024"

record transcript =
  tn_session :: session
  tn_messages :: "message list"
  tn_compaction :: "checkpoint option"

definition read_entry :: "string \<Rightarrow> transcript_entry \<Rightarrow> transcript \<Rightarrow> transcript" where
  "read_entry i e t =
     (if te_type e = ''session'' \<and> te_session e \<noteq> None
      then let s = the (te_session e) in t\<lparr>tn_session := (if se_id s = [] then s\<lparr>se_id := i\<rparr> else s)\<rparr>
      else if te_type e = ''compaction'' \<and> te_compaction e \<noteq> None
      then let c = the (te_compaction e) in t\<lparr>tn_compaction := Some (c\<lparr>cp_messages := CloneMessages (cp_messages c)\<rparr>)\<rparr>
      else if te_type e \<noteq> ''message'' \<or> te_message e = None then t
      else t\<lparr>tn_messages := tn_messages t @ [the (te_message e)]\<rparr>)"

text \<open>A line with its line feed has to fit into the scanner's buffer.\<close>

fun read_lines :: "codec \<Rightarrow> string \<Rightarrow> nat \<Rightarrow> string list \<Rightarrow> transcript \<Rightarrow> jl_error + transcript" where
  "read_lines J i n [] t = Inr t"
| "read_lines J i n (l # ls) t =
     (if maxLine \<le> length l then Inl (JText ''scan transcript: bufio.Scanner: token too long'')
      else if drop_CR l = [] then read_lines J i (Suc n) ls t
      else case cd_read J (drop_CR l) of
             Inl e \<Rightarrow> Inl (JText (''decode transcript line '' @ show_int (int (Suc n)) @ '': '' @ e))
           | Inr e \<Rightarrow> read_lines J i (Suc n) ls (read_entry i e t))"

definition read_content :: "codec \<Rightarrow> string \<Rightarrow> string \<Rightarrow> jl_error + transcript" where
  "read_content J i c =
     read_lines J i 0 (scan_lines [] c)
       \<lparr>tn_session = \<lparr>se_id = i, se_parent = [], se_created = 0\<rparr>, tn_messages = [], tn_compaction = None\<rparr>"

definition readTranscript :: "codec \<Rightarrow> jl_host \<Rightarrow> string \<Rightarrow> jl_fs \<Rightarrow> jl_error + transcript" where
  "readTranscript J h i0 fs =
     (case canonicalRequiredID i0 of
        Inl e \<Rightarrow> Inl (JSession e)
      | Inr i \<Rightarrow>
          (case jl_path J h fs i0 of
             Inl e \<Rightarrow> Inl e
           | Inr p \<Rightarrow>
               (case map_of (jf_files fs) p of
                  None \<Rightarrow> Inl (JMissing (''open transcript: '' @ no_such_file))
                | Some c \<Rightarrow>
                    (case ho_fail h OpenRead of
                       Some e \<Rightarrow> Inl (JText (''open transcript: '' @ e))
                     | None \<Rightarrow> read_content J i c))))"

section \<open>Operations\<close>

text \<open>Writing an entry to a file: the encoded line and a line feed, or what a failed write leaves.\<close>

definition write_entry :: "codec \<Rightarrow> jl_host \<Rightarrow> string \<Rightarrow> string \<Rightarrow> transcript_entry \<Rightarrow> jl_fs \<Rightarrow> jl_fs \<times> jl_error option" where
  "write_entry J h what p e fs =
     (let c = (case map_of (jf_files fs) p of None \<Rightarrow> [] | Some c \<Rightarrow> c)
      in case cd_entry J e of
           Inl x \<Rightarrow> (fs, Some (JText (what @ x)))
         | Inr l \<Rightarrow>
             (case ho_fail h WriteEntry of
                Some x \<Rightarrow> (fs\<lparr>jf_files := AList.update p (c @ ho_torn h) (jf_files fs)\<rparr>, Some (JText (what @ x)))
              | None \<Rightarrow> (fs\<lparr>jf_files := AList.update p (c @ l @ [CHR 10]) (jf_files fs)\<rparr>, None)))"

definition jl_check :: "jl_host \<Rightarrow> (io_op \<times> string) list \<Rightarrow> jl_error option" where
  "jl_check h ops =
     (case filter (\<lambda>(op, what). ho_fail h op \<noteq> None) ops of
        [] \<Rightarrow> None
      | (op, what) # rest \<Rightarrow> Some (JText (what @ the (ho_fail h op))))"

definition session_entry :: "session \<Rightarrow> transcript_entry" where
  "session_entry s = \<lparr>te_type = ''session'', te_time = se_created s, te_session = Some s, te_message = None, te_compaction = None\<rparr>"

definition jl_CreateWithOptions ::
  "codec \<Rightarrow> jl_host \<Rightarrow> new_id \<Rightarrow> gotime \<Rightarrow> string \<Rightarrow> jl_fs \<Rightarrow> jl_fs \<times> (jl_error + session)" where
  "jl_CreateWithOptions J h nid now parent0 fs =
     (case canonicalParentID parent0 of
        Inl e \<Rightarrow> (fs, Inl (JSession e))
      | Inr parent \<Rightarrow>
          (case jl_check h [(MkdirStore, ''create session directory: ''), (MkdirIndex, ''create session index directory: '')] of
             Some e \<Rightarrow> (fs, Inl e)
           | None \<Rightarrow>
               (case nid of
                  Inl e \<Rightarrow> (fs, Inl (JSession e))
                | Inr i \<Rightarrow>
                    (case transcriptRelPath J h fs i parent of
                       Inl e \<Rightarrow> (fs, Inl e)
                     | Inr p \<Rightarrow>
                         (case jl_check h [(MkdirTranscript, ''create transcript directory: ''), (CreateTranscript, ''create transcript: '')] of
                            Some e \<Rightarrow> (fs, Inl e)
                          | None \<Rightarrow>
                              if map_of (jf_files fs) p \<noteq> None then (fs, Inl (JText ''create transcript: file exists''))
                              else (let s = \<lparr>se_id = i, se_parent = parent, se_created = now\<rparr>;
                                        fs0 = fs\<lparr>jf_files := AList.update p [] (jf_files fs)\<rparr>
                                    in case write_entry J h ''write session transcript entry: '' p (session_entry s) fs0 of
                                         (fs1, Some e) \<Rightarrow> (fs1, Inl e)
                                       | (fs1, None) \<Rightarrow>
                                           (case jl_check h [(CloseTranscript, ''close transcript: '')] of
                                              Some e \<Rightarrow> (fs1, Inl e)
                                            | None \<Rightarrow>
                                                (case writeIndex J h \<lparr>ie_id = i, ie_parent = parent, ie_path = p, ie_created = now\<rparr> fs1 of
                                                   (fs2, Some e) \<Rightarrow> (fs2\<lparr>jf_files := AList.delete p (jf_files fs2)\<rparr>, Inl e)
                                                 | (fs2, None) \<Rightarrow> (fs2, Inr s)))))))))"

definition jl_Create :: "codec \<Rightarrow> jl_host \<Rightarrow> new_id \<Rightarrow> gotime \<Rightarrow> jl_fs \<Rightarrow> jl_fs \<times> (jl_error + session)" where
  "jl_Create J h nid now fs = jl_CreateWithOptions J h nid now [] fs"

definition NormalizeTranscriptMessage :: "message \<Rightarrow> message" where
  "NormalizeTranscriptMessage m0 =
     (let m = CloneMessage m0
      in m\<lparr>msg_content := map (\<lambda>b. b\<lparr>cb_tool_use := map_option NormalizeToolUse (cb_tool_use b)\<rparr>) (msg_content m)\<rparr>)"

definition message_entry :: "gotime \<Rightarrow> message \<Rightarrow> transcript_entry" where
  "message_entry now m = \<lparr>te_type = ''message'', te_time = now, te_session = None, te_message = Some m, te_compaction = None\<rparr>"

definition jl_append_line :: "codec \<Rightarrow> jl_host \<Rightarrow> string \<Rightarrow> string \<Rightarrow> string \<Rightarrow> transcript_entry \<Rightarrow> jl_fs \<Rightarrow> jl_fs \<times> jl_error option" where
  "jl_append_line J h opening writing p e fs =
     (case map_of (jf_files fs) p of
        None \<Rightarrow> (fs, Some (JMissing (opening @ no_such_file)))
      | Some c \<Rightarrow>
          (case ho_fail h OpenAppend of
             Some x \<Rightarrow> (fs, Some (JText (opening @ x)))
           | None \<Rightarrow> write_entry J h writing p e fs))"

definition jl_Append :: "codec \<Rightarrow> jl_host \<Rightarrow> new_id \<Rightarrow> gotime \<Rightarrow> string \<Rightarrow> message \<Rightarrow> jl_fs \<Rightarrow> jl_fs \<times> jl_error option" where
  "jl_Append J h nid now i0 m0 fs =
     (case jl_path J h fs i0 of
        Inl e \<Rightarrow> (fs, Some e)
      | Inr p \<Rightarrow>
          (let m = NormalizeTranscriptMessage m0
           in case (if msg_id m = [] then nid else Inr (msg_id m)) of
                Inl e \<Rightarrow> (fs, Some (JSession e))
              | Inr mid \<Rightarrow>
                  jl_append_line J h ''open transcript for append: '' ''append transcript entry: '' p (message_entry now (m\<lparr>msg_id := mid\<rparr>)) fs))"

definition jl_Messages :: "codec \<Rightarrow> jl_host \<Rightarrow> string \<Rightarrow> jl_fs \<Rightarrow> jl_error + message list" where
  "jl_Messages J h i fs = map_sum id tn_messages (readTranscript J h i fs)"

definition jl_Get :: "codec \<Rightarrow> jl_host \<Rightarrow> string \<Rightarrow> jl_fs \<Rightarrow> jl_error + session" where
  "jl_Get J h i fs = map_sum id tn_session (readTranscript J h i fs)"

definition jl_MessageView :: "codec \<Rightarrow> jl_host \<Rightarrow> string \<Rightarrow> jl_fs \<Rightarrow> jl_error + message_view" where
  "jl_MessageView J h i fs =
     (case readTranscript J h i fs of
        Inl e \<Rightarrow> Inl e
      | Inr t \<Rightarrow> map_sum JSession id (messageView (tn_messages t) (tn_compaction t)))"

definition compaction_entry :: "checkpoint \<Rightarrow> transcript_entry" where
  "compaction_entry cp = \<lparr>te_type = ''compaction'', te_time = cp_created cp, te_session = None, te_message = None, te_compaction = Some cp\<rparr>"

definition jl_SaveCompaction ::
  "codec \<Rightarrow> jl_host \<Rightarrow> new_id \<Rightarrow> gotime \<Rightarrow> string \<Rightarrow> checkpoint \<Rightarrow> jl_fs \<Rightarrow> jl_fs \<times> jl_error option" where
  "jl_SaveCompaction J h nid now i0 cp fs =
     (case canonicalRequiredID i0 of
        Inl e \<Rightarrow> (fs, Some (JSession e))
      | Inr i \<Rightarrow>
          (case jl_path J h fs i of
             Inl e \<Rightarrow> (fs, Some e)
           | Inr p \<Rightarrow>
               (case readTranscript J h i fs of
                  Inl e \<Rightarrow> (fs, Some (if missing e then JSession (UnknownSession i) else e))
                | Inr t \<Rightarrow>
                    if int (length (tn_messages t)) < cp_raw_count cp
                    then (fs, Some (JSession (RawCountExceeds (cp_raw_count cp) (int (length (tn_messages t))))))
                    else (case normalizeCompactionCheckpoint nid now cp of
                            Inl e \<Rightarrow> (fs, Some (JSession e))
                          | Inr cp' \<Rightarrow>
                              jl_append_line J h ''open transcript for compaction append: '' ''append compaction transcript entry: '' p
                                (compaction_entry cp') fs))))"

definition jl_Exists :: "codec \<Rightarrow> jl_host \<Rightarrow> string \<Rightarrow> jl_fs \<Rightarrow> jl_error + bool" where
  "jl_Exists J h i fs =
     (case jl_path J h fs i of
        Inl e \<Rightarrow> Inl e
      | Inr p \<Rightarrow>
          (case ho_fail h StatTranscript of
             Some e \<Rightarrow> Inl (JText (''stat transcript: '' @ e))
           | None \<Rightarrow> Inr (map_of (jf_files fs) p \<noteq> None)))"

text \<open>
  The messages of a fork are appended one by one, each with an id and a time of its own from \<open>calls\<close>; the first error
  ends it.
\<close>

fun append_copies :: "codec \<Rightarrow> jl_host \<Rightarrow> (nat \<Rightarrow> new_id \<times> gotime) \<Rightarrow> string \<Rightarrow> message list \<Rightarrow> jl_fs \<Rightarrow> jl_fs \<times> jl_error option" where
  "append_copies J h calls i [] fs = (fs, None)"
| "append_copies J h calls i (m # ms) fs =
     (case jl_Append J h (fst (calls 0)) (snd (calls 0)) i m fs of
        (fs', Some e) \<Rightarrow> (fs', Some e)
      | (fs', None) \<Rightarrow> append_copies J h (\<lambda>k. calls (Suc k)) i ms fs')"

definition jl_Fork ::
  "codec \<Rightarrow> jl_host \<Rightarrow> new_id \<Rightarrow> gotime \<Rightarrow> (nat \<Rightarrow> new_id \<times> gotime) \<Rightarrow> string \<Rightarrow> fork_options \<Rightarrow> jl_fs \<Rightarrow> jl_fs \<times> (jl_error + session)" where
  "jl_Fork J h nid now calls i opts fs =
     (case readTranscript J h i fs of
        Inl e \<Rightarrow> (fs, Inl e)
      | Inr t \<Rightarrow>
          (case forkMessages (tn_messages t) (fo_through opts) of
             Inl e \<Rightarrow> (fs, Inl (JSession e))
           | Inr ms \<Rightarrow>
               (case jl_CreateWithOptions J h nid now (if fo_parent opts = [] then i else fo_parent opts) fs of
                  (fs1, Inl e) \<Rightarrow> (fs1, Inl e)
                | (fs1, Inr s) \<Rightarrow>
                    (case append_copies J h calls (se_id s) ms fs1 of
                       (fs2, Some e) \<Rightarrow> (fs2, Inl e)
                     | (fs2, None) \<Rightarrow> (fs2, Inr s)))))"

section \<open>Listing\<close>

definition sessionFromIndex :: "codec \<Rightarrow> index_entry \<Rightarrow> string \<Rightarrow> jl_error + session \<times> string" where
  "sessionFromIndex J e i0 =
     (case CanonicalID i0 of
        None \<Rightarrow> Inl (JSession (InvalidSessionID i0))
      | Some i \<Rightarrow>
          (case safeIndexPath J e i of
             Inl x \<Rightarrow> Inl x
           | Inr p \<Rightarrow>
               (case canonicalParentID (ie_parent e) of
                  Inl x \<Rightarrow> Inl (JSession x)
                | Inr parent \<Rightarrow> Inr (\<lparr>se_id = i, se_parent = parent, se_created = ie_created e\<rparr>, p))))"

fun list_index :: "codec \<Rightarrow> jl_host \<Rightarrow> jl_fs \<Rightarrow> string list \<Rightarrow> jl_error + session list" where
  "list_index J h fs [] = Inr []"
| "list_index J h fs (i # is) =
     (if \<not> ValidID i then list_index J h fs is
      else case readIndex J h fs i of
             Inl e \<Rightarrow> Inl e
           | Inr x \<Rightarrow>
               (case sessionFromIndex J x i of
                  Inl e \<Rightarrow> Inl e
                | Inr (s, p) \<Rightarrow>
                    if map_of (jf_files fs) p = None then Inl (JMissing (''stat indexed transcript: '' @ no_such_file))
                    else if ho_fail h StatTranscript \<noteq> None then Inl (JText (''stat indexed transcript: '' @ the (ho_fail h StatTranscript)))
                    else map_sum id (Cons s) (list_index J h fs is)))"

fun list_plain :: "codec \<Rightarrow> jl_host \<Rightarrow> jl_fs \<Rightarrow> string list \<Rightarrow> string list \<Rightarrow> jl_error + session list" where
  "list_plain J h fs seen [] = Inr []"
| "list_plain J h fs seen (p # ps) =
     (let i = take (length p - length transcriptExt) p
      in if CHR ''/'' \<in> set p \<or> path_ext p \<noteq> transcriptExt \<or> \<not> ValidID i \<or> the (CanonicalID i) \<in> set seen
         then list_plain J h fs seen ps
         else case jl_Get J h i fs of Inl e \<Rightarrow> Inl e | Inr s \<Rightarrow> map_sum id (Cons s) (list_plain J h fs seen ps))"

definition jl_List :: "codec \<Rightarrow> jl_host \<Rightarrow> jl_fs \<Rightarrow> jl_error + session list" where
  "jl_List J h fs =
     (case jl_check h [(ReadDirIndex, ''list session index directory: '')] of
        Some e \<Rightarrow> Inl e
      | None \<Rightarrow>
          (case list_index J h fs (stable_sort str_less (map fst (jf_index fs))) of
             Inl e \<Rightarrow> Inl e
           | Inr ss \<Rightarrow>
               (case jl_check h [(ReadDirStore, ''list session directory: '')] of
                  Some e \<Rightarrow> Inl e
                | None \<Rightarrow>
                    map_sum id (\<lambda>more. sortSessions (ss @ more))
                      (list_plain J h fs (map se_id ss) (stable_sort str_less (map fst (jf_files fs)))))))"

definition jl_Children :: "codec \<Rightarrow> jl_host \<Rightarrow> string \<Rightarrow> jl_fs \<Rightarrow> jl_error + session list" where
  "jl_Children J h parent0 fs =
     (case canonicalParentID parent0 of
        Inl e \<Rightarrow> Inl (JSession e)
      | Inr parent \<Rightarrow> map_sum id (\<lambda>ss. sortSessions (filter (\<lambda>s. se_parent s = parent) ss)) (jl_List J h fs))"

section \<open>Paths belong to ids\<close>

text \<open>A plain path has no element that cleaning would change.\<close>

definition plain_path :: "string \<Rightarrow> bool" where
  "plain_path p \<longleftrightarrow> (\<forall>e \<in> set (split_on (CHR ''/'') p). e \<noteq> [] \<and> e \<noteq> dot \<and> e \<noteq> dotdot)"

lemma clean_plain_elems:
  "(\<And>e. e \<in> set es \<Longrightarrow> e \<noteq> [] \<and> e \<noteq> dot \<and> e \<noteq> dotdot) \<Longrightarrow> foldl (clean_elem b) out es = out @ es"
  by (induction es arbitrary: out) (auto simp: clean_elem_def)

lemma plain_path_clean:
  assumes "plain_path p"
  shows "path_Clean p = p \<and> p \<noteq> [] \<and> hd p \<noteq> CHR ''/'' \<and> p \<noteq> dot \<and> \<not> goes_up p"
proof -
  obtain e es where e: "split_on (CHR ''/'') p = e # es" using split_on_not_Nil by (metis list.exhaust)
  have ne: "e \<noteq> []" "e \<noteq> dotdot" "p \<noteq> []" using assms e by (auto simp: plain_path_def)
  have hd: "hd p \<noteq> CHR ''/''" using e ne by (cases p) auto
  have "foldl (clean_elem False) [] (split_on (CHR ''/'') p) = split_on (CHR ''/'') p"
    using assms clean_plain_elems [of "split_on (CHR ''/'') p" False "[]"] by (auto simp: plain_path_def)
  then have "path_Clean p = p" using ne hd by (simp add: path_Clean_relative Let_def)
  moreover have "p \<noteq> dot" using assms by (auto simp: plain_path_def split_on_plain)
  ultimately show ?thesis using ne hd by (simp add: goes_up_split e)
qed

definition names_session :: "string \<Rightarrow> string \<Rightarrow> bool" where
  "names_session i p \<longleftrightarrow> plain_path p \<and> path_base p = i @ transcriptExt"

lemma canonical_chars:
  assumes "CanonicalID i = Some i"
  shows "CHR ''/'' \<notin> set i \<and> CHR ''.'' \<notin> set i \<and> i \<noteq> []"
proof -
  have pat: "sessionIDPattern i" using assms by (auto simp: CanonicalID_def split: if_splits)
  have "is_hex c \<or> c = CHR ''-''" if "c \<in> set i" for c
    using pat that unfolding sessionIDPattern_def in_set_conv_nth
    by (auto simp: list_all_length nth_enumerate_eq split: if_splits)
  moreover have "\<not> is_hex (CHR ''/'')" "\<not> is_hex (CHR ''.'')" by (simp_all add: is_hex_def byte_def)
  ultimately show ?thesis using pat by (auto simp: sessionIDPattern_def)
qed

lemma named_file:
  assumes "CanonicalID i = Some i"
  shows "CHR ''/'' \<notin> set (i @ transcriptExt)" "i @ transcriptExt \<noteq> []" "i @ transcriptExt \<noteq> dot" "i @ transcriptExt \<noteq> dotdot"
  using canonical_chars [OF assms] by (auto simp: transcriptExt_def dot_def dotdot_def append_eq_Cons_conv)

lemma path_ext_named: "path_base p = i @ transcriptExt \<Longrightarrow> path_ext p = transcriptExt"
  by (simp add: path_ext_def transcriptExt_def)

lemma names_root: "CanonicalID i = Some i \<Longrightarrow> names_session i (i @ transcriptExt)"
  using named_file [of i] by (simp add: names_session_def plain_path_def path_base_def split_on_plain)

lemma names_child:
  assumes "CanonicalID i = Some i" and "plain_path q"
  shows "names_session i (q @ ''/'' @ i @ transcriptExt)"
proof -
  have "split_on (CHR ''/'') (q @ ''/'' @ i @ transcriptExt) = split_on (CHR ''/'') q @ [i @ transcriptExt]"
  proof -
    let ?es = "split_on (CHR ''/'') q @ [i @ transcriptExt]"
    have "join ''/'' (xs @ [y]) = (if xs = [] then y else join ''/'' xs @ ''/'' @ y)" for xs :: "string list" and y
      by (induction xs) (auto simp: join_Cons)
    then have "q @ ''/'' @ i @ transcriptExt = join ''/'' ?es" by simp
    moreover have "CHR ''/'' \<notin> set e" if "e \<in> set ?es" for e
      using that split_on_no_sep named_file(1) [OF assms(1)] by auto
    ultimately show ?thesis using split_on_join [of ?es "CHR ''/''"] by simp
  qed
  then show ?thesis using assms(2) named_file [OF assms(1)] by (simp add: names_session_def plain_path_def path_base_def)
qed

lemma strip_ext_plain:
  assumes "names_session i p" and "CanonicalID i = Some i"
  shows "plain_path (take (length p - length transcriptExt) p)"
proof -
  define es where "es = butlast (split_on (CHR ''/'') p)"
  have sp: "split_on (CHR ''/'') p = es @ [i @ transcriptExt]"
    using assms(1) append_butlast_last_id [OF split_on_not_Nil, of "CHR ''/''" p] by (simp add: es_def names_session_def path_base_def)
  have jn: "join ''/'' (xs @ [y @ z]) = join ''/'' (xs @ [y]) @ z" for xs :: "string list" and y z
    by (induction xs) (auto simp: join_Cons)
  have "p = join ''/'' (es @ [i]) @ transcriptExt" using join_split_on [of "CHR ''/''" p] by (simp add: sp jn)
  then have q: "take (length p - length transcriptExt) p = join ''/'' (es @ [i])" by simp
  have "CHR ''/'' \<notin> set e" if "e \<in> set (es @ [i])" for e
    using that split_on_no_sep [of e "CHR ''/''" p] canonical_chars [OF assms(2)] by (auto simp: sp)
  then have "split_on (CHR ''/'') (join ''/'' (es @ [i])) = es @ [i]" by (intro split_on_join) auto
  moreover have "i \<noteq> dot" "i \<noteq> dotdot" "i \<noteq> []" using canonical_chars [OF assms(2)] by (auto simp: dot_def dotdot_def)
  ultimately show ?thesis using assms(1) by (simp add: q plain_path_def names_session_def sp)
qed

lemma names_inj: "names_session i p \<Longrightarrow> names_session j p \<Longrightarrow> i = j"
  by (simp add: names_session_def)

lemma safeIndexPath_names: "safeIndexPath J e i = Inr p \<Longrightarrow> names_session i p"
  by (auto simp: safeIndexPath_def names_session_def plain_path_def Let_def list_ex_iff split: if_splits)

lemma safeIndexPath_named:
  assumes "names_session i p" and "CanonicalID i = Some i" and "ie_id e = i" and "ie_path e = p"
  shows "safeIndexPath J e i = Inr p"
  using assms plain_path_clean [of p] path_ext_named [of p i]
  by (auto simp: safeIndexPath_def names_session_def plain_path_def Let_def list_ex_iff)

lemma relPath_names:
  assumes "transcriptRelPath J h fs i parent = Inr p" and "CanonicalID i = Some i" and "parent = [] \<or> CanonicalID parent = Some parent"
  shows "names_session i p"
proof (cases "parent = []")
  case True
  then show ?thesis using assms(1) names_root [OF assms(2)] by (auto simp: transcriptRelPath_def)
next
  case False
  then have par: "CanonicalID parent = Some parent" using assms(3) by simp
  have "plain_path parent" using canonical_chars [OF par]
    by (auto simp: plain_path_def split_on_plain dot_def dotdot_def)
  then show ?thesis using assms(1,2) False names_child [OF assms(2)] strip_ext_plain [OF safeIndexPath_names par]
    by (auto simp: transcriptRelPath_def split: sum.splits if_splits)
qed

lemma path_names: "jl_path J h fs i0 = Inr p \<Longrightarrow> \<exists>i. CanonicalID i0 = Some i \<and> names_session i p"
  using names_root [OF CanonicalID_idem]
  by (auto simp: jl_path_def dest: safeIndexPath_names split: option.splits sum.splits if_splits)

section \<open>Appending and reading lines\<close>

lemma read_lines_append:
  "read_lines J i n (ls @ ms) t = (case read_lines J i n ls t of Inl e \<Rightarrow> Inl e | Inr t' \<Rightarrow> read_lines J i (n + length ls) ms t')"
  by (induction ls arbitrary: n t) (auto split: sum.splits)

text \<open>
  What the store needs of \<open>encoding/json\<close>, for the entries that are written: an encoded entry is one line of text that fits
  into the scanner's buffer and decodes to the entry, whatever the time on it; an index entry decodes to what was encoded.
  \<open>E\<close> are the entries that JSON keeps: not those with invalid UTF-8, for instance, which it replaces.
\<close>

definition codec_faithful :: "codec \<Rightarrow> (transcript_entry \<Rightarrow> bool) \<Rightarrow> bool" where
  "codec_faithful J E \<longleftrightarrow>
     (\<forall>e l. E e \<longrightarrow> cd_entry J e = Inr l \<longrightarrow>
        CHR 10 \<notin> set l \<and> CHR 13 \<notin> set l \<and> l \<noteq> [] \<and> length l < maxLine \<and> cd_read J l = Inr e)
     \<and> (\<forall>x d. cd_index J x = Inr d \<longrightarrow> cd_index_read J (d @ [CHR 10]) = Inr x)
     \<and> (\<forall>e t. E e \<longrightarrow> E (e\<lparr>te_time := t\<rparr>))"

lemma read_content_append:
  assumes "codec_faithful J E" and "E e" and "cd_entry J e = Inr l" and "complete c" and "read_content J i c = Inr t"
  shows "read_content J i (c @ l @ [CHR 10]) = Inr (read_entry i e t) \<and> complete (c @ l @ [CHR 10])"
proof -
  have l: "CHR 10 \<notin> set l" "CHR 13 \<notin> set l" "l \<noteq> []" "length l < maxLine" "cd_read J l = Inr e"
    using assms(1-3) by (auto simp: codec_faithful_def)
  have "drop_CR l = l" using l(2) by simp
  then show ?thesis using assms(5) l
    by (simp add: read_content_def scan_append [OF assms(4) l(1)] read_lines_append complete_def)
qed

section \<open>The store simulates the in-memory store\<close>

definition calm :: jl_host where
  "calm = \<lparr>ho_fail = (\<lambda>op. None), ho_torn = []\<rparr>"

lemma ho_fail_calm [simp]: "ho_fail calm op = None"
  by (simp add: calm_def)

lemma readIndex_calm: "readIndex J h fs i = Inr x \<Longrightarrow> readIndex J calm fs i = Inr x"
    "readIndex J h fs i = Inl e \<Longrightarrow> missing e \<Longrightarrow> readIndex J calm fs i = Inl e"
  by (auto simp: readIndex_def calm_def split: option.splits sum.splits)

lemma readIndex_files [simp]: "readIndex J h (fs\<lparr>jf_files := ys\<rparr>) i = readIndex J h fs i"
  by (simp add: readIndex_def cong: option.case_cong)

lemma path_calm: "jl_path J h fs i = Inr p \<Longrightarrow> jl_path J calm fs i = Inr p"
  by (auto simp: jl_path_def dest: readIndex_calm split: option.splits sum.splits if_splits)

definition as_transcript :: "memory_session \<Rightarrow> transcript" where
  "as_transcript r = \<lparr>tn_session = ms_session r, tn_messages = ms_messages r, tn_compaction = ms_compaction r\<rparr>"

text \<open>The messages that are in a transcript have an id, and JSON keeps them.\<close>

definition storable :: "(transcript_entry \<Rightarrow> bool) \<Rightarrow> message \<Rightarrow> bool" where
  "storable E m \<longleftrightarrow> msg_id m \<noteq> [] \<and> E (message_entry 0 m)"

lemma storable_entry: "codec_faithful J E \<Longrightarrow> E (message_entry t m) \<longleftrightarrow> E (message_entry t' m)"
proof -
  assume cf: "codec_faithful J E"
  have "E (message_entry b m)" if "E (message_entry a m)" for a b
    using cf that by (auto simp: codec_faithful_def message_entry_def dest!: spec [of _ "message_entry a m"] spec [of _ b])
  then show ?thesis by blast
qed

definition holds_record :: "codec \<Rightarrow> (transcript_entry \<Rightarrow> bool) \<Rightarrow> string \<Rightarrow> string option \<Rightarrow> memory_session option \<Rightarrow> bool" where
  "holds_record J E i co ro \<longleftrightarrow>
     (case (co, ro) of
        (None, None) \<Rightarrow> True
      | (Some c, Some r) \<Rightarrow> complete c \<and> read_content J i c = Inr (as_transcript r) \<and> list_all (storable E) (ms_messages r)
      | _ \<Rightarrow> False)"

text \<open>Every session has its index file, and every file is the transcript of a session.\<close>

definition catalogued :: "codec \<Rightarrow> jl_fs \<Rightarrow> mem_store \<Rightarrow> bool" where
  "catalogued J fs st \<longleftrightarrow> wf_map (jf_index fs) \<and> (\<forall>i. map_of (jf_index fs) i = None \<longleftrightarrow> map_of st i = None)
     \<and> (\<forall>i r. map_of st i = Some r \<longrightarrow>
          (\<exists>p. readIndex J calm fs i = Inr \<lparr>ie_id = i, ie_parent = se_parent (ms_session r), ie_path = p, ie_created = se_created (ms_session r)\<rparr>)
          \<and> canonicalParentID (se_parent (ms_session r)) = Inr (se_parent (ms_session r)))
     \<and> (\<forall>p. map_of (jf_files fs) p \<noteq> None \<longrightarrow> (\<exists>i \<in> dom (map_of st). names_session i p))"

lemma catalogued_update:
  assumes "catalogued J fs st" and "names_session i p" and "map_of st i = Some r0" and "ms_session r = ms_session r0"
    and "map_of st' = (map_of st)(i \<mapsto> r)" and "fs' = fs\<lparr>jf_files := AList.update p c (jf_files fs)\<rparr>"
  shows "catalogued J fs' st'"
proof -
  have "\<exists>k \<in> dom (map_of st'). names_session k q" if "map_of (jf_files fs') q \<noteq> None" for q
    using assms that by (cases "q = p") (auto simp: catalogued_def update_conv')
  then show ?thesis using assms by (auto simp: catalogued_def update_conv')
qed

lemma catalogued_create:
  assumes "catalogued J fs st" and "names_session i p" and "map_of st i = None" and "CanonicalID i = Some i"
    and "canonicalParentID parent = Inr parent" and "map_of st' = (map_of st)(i \<mapsto> r)"
    and "ms_session r = \<lparr>se_id = i, se_parent = parent, se_created = now\<rparr>" and "map_of (jf_files fs') = (map_of (jf_files fs))(p \<mapsto> c)"
    and "jf_index fs' = AList.update i d (jf_index fs)"
    and "readIndex J calm fs' i = Inr \<lparr>ie_id = i, ie_parent = parent, ie_path = p, ie_created = now\<rparr>"
  and "mem_inv st"
  shows "catalogued J fs' st'"
proof -
  have same: "readIndex J calm fs' j = readIndex J calm fs j" if "j \<noteq> i" "CanonicalID j = Some j" for j
    using that assms(9) by (simp add: readIndex_def update_conv')
  have canon: "CanonicalID j = Some j" if "map_of st j = Some r" for j r
    using mem_inv_record [OF assms(11) that] by (simp add: wf_record_def)
  have files: "\<exists>k \<in> dom (map_of st'). names_session k q" if "map_of (jf_files fs') q \<noteq> None" for q
    using assms that by (cases "q = p") (auto simp: catalogued_def)
  have entries: "(\<exists>p. readIndex J calm fs' j = Inr \<lparr>ie_id = j, ie_parent = se_parent (ms_session r'), ie_path = p, ie_created = se_created (ms_session r')\<rparr>)
      \<and> canonicalParentID (se_parent (ms_session r')) = Inr (se_parent (ms_session r'))" if j: "map_of st' j = Some r'" for j r'
  proof (cases "j = i")
    case True
    then show ?thesis using j assms(5,6,7,10) by auto
  next
    case False
    then have "map_of st j = Some r'" using j assms(6) by simp
    then show ?thesis using assms(1) same [OF False canon] by (auto simp: catalogued_def)
  qed
  have "wf_map (jf_index fs')" using assms(1,9) by (simp add: catalogued_def)
  moreover have "map_of (jf_index fs') j = None \<longleftrightarrow> map_of st' j = None" for j using assms(1,6,9) by (simp add: catalogued_def update_conv')
  ultimately show ?thesis unfolding catalogued_def using files entries by blast
qed

definition simulates :: "codec \<Rightarrow> (transcript_entry \<Rightarrow> bool) \<Rightarrow> jl_fs \<Rightarrow> mem_store \<Rightarrow> bool" where
  "simulates J E fs st \<longleftrightarrow> mem_inv st \<and> catalogued J fs st
     \<and> (\<forall>i. CanonicalID i = Some i \<longrightarrow>
          (\<exists>p. jl_path J calm fs i = Inr p \<and> holds_record J E i (map_of (jf_files fs) p) (map_of st i)))"

lemma simulates_lookup:
  "simulates J E fs st \<Longrightarrow> CanonicalID i = Some i \<Longrightarrow> jl_path J calm fs i = Inr p \<Longrightarrow>
     holds_record J E i (map_of (jf_files fs) p) (map_of st i)"
  by (auto simp: simulates_def)

lemma simulates_path:
  assumes "simulates J E fs st" and "jl_path J h fs i0 = Inr p"
  shows "\<exists>i. CanonicalID i0 = Some i \<and> CanonicalID i = Some i \<and> names_session i p \<and> jl_path J calm fs i = Inr p
    \<and> holds_record J E i (map_of (jf_files fs) p) (map_of st i)"
proof -
  obtain i where i: "CanonicalID i0 = Some i" "names_session i p" using path_names [OF assms(2)] by auto
  then have ci: "CanonicalID i = Some i" using CanonicalID_idem by blast
  have "jl_path J calm fs i0 = jl_path J calm fs i" using i(1) ci by (simp add: jl_path_def)
  then have "jl_path J calm fs i = Inr p" using path_calm [OF assms(2)] by simp
  moreover from this have "holds_record J E i (map_of (jf_files fs) p) (map_of st i)"
    using assms(1) ci by (auto simp: simulates_def)
  ultimately show ?thesis using i ci by blast
qed

text \<open>Rewriting the file of one session and its record keeps the simulation: the files of other sessions have other names.\<close>

lemma simulates_update:
  assumes "simulates J E fs st" and "jl_path J calm fs i = Inr p" and "CanonicalID i = Some i"
    and "holds_record J E i (Some c) (Some r)" and "map_of st i = Some r0" and "ms_session r = ms_session r0" and "mem_inv st'" and "map_of st' = (map_of st)(i \<mapsto> r)"
    and "fs' = fs\<lparr>jf_files := AList.update p c (jf_files fs)\<rparr>"
  shows "simulates J E fs' st'"
  unfolding simulates_def
proof (intro conjI allI impI)
  fix j assume j: "CanonicalID j = Some j"
  have same: "jl_path J calm fs' j = jl_path J calm fs j" using assms(9) by (simp add: jl_path_def cong: option.case_cong)
  obtain q where q: "jl_path J calm fs j = Inr q" "holds_record J E j (map_of (jf_files fs) q) (map_of st j)"
    using assms(1) j by (auto simp: simulates_def)
  have "q = p \<longleftrightarrow> j = i"
    using path_names [OF q(1)] path_names [OF assms(2)] j assms(2,3) q(1) by (auto dest: names_inj)
  then show "\<exists>p. jl_path J calm fs' j = Inr p \<and> holds_record J E j (map_of (jf_files fs') p) (map_of st' j)"
    using q same assms(4,8,9) by (auto simp: update_conv')
next
  show "catalogued J fs' st'"
    using catalogued_update [OF _ _ assms(5,6,8,9)] assms(1,3) path_names [OF assms(2)] by (auto simp: simulates_def)
qed (rule assms(7))

lemma append_line_done:
  assumes "jl_append_line J h a b p e fs = (fs', None)"
  shows "\<exists>c l. map_of (jf_files fs) p = Some c \<and> cd_entry J e = Inr l \<and> fs' = fs\<lparr>jf_files := AList.update p (c @ l @ [CHR 10]) (jf_files fs)\<rparr>"
  using assms by (auto simp: jl_append_line_def write_entry_def Let_def split: option.splits sum.splits)

lemma normalize_clone: "NormalizeTranscriptMessage m = CloneMessage m"
proof -
  have "map (\<lambda>b. b\<lparr>cb_tool_use := map_option NormalizeToolUse (cb_tool_use b)\<rparr>) (msg_content (CloneMessage m)) = msg_content (CloneMessage m)"
    by (simp add: CloneContentBlocks_def CloneContentBlock_def option.map_comp comp_def)
  then show ?thesis by (simp add: NormalizeTranscriptMessage_def)
qed

lemma clone_with_id: "CloneMessage (m\<lparr>msg_id := x\<rparr>) = (CloneMessage m)\<lparr>msg_id := x\<rparr>"
  by (simp add: CloneMessage_alt)

lemma append_simulated:
  assumes sim: "simulates J E fs st" and cf: "codec_faithful J E" and ap: "jl_Append J h nid now i0 m fs = (fs', None)"
    and stable: "E (message_entry now (stored_message nid m))" and nid: "msg_id m = [] \<Longrightarrow> nid \<noteq> Inr []"
  shows "\<exists>st'. mem_Append nid i0 m st = Inr st' \<and> simulates J E fs' st'"
proof -
  obtain p mid where p: "jl_path J h fs i0 = Inr p" and mid: "(if msg_id m = [] then nid else Inr (msg_id m)) = Inr mid"
    and line: "jl_append_line J h ''open transcript for append: '' ''append transcript entry: '' p
      (message_entry now (NormalizeTranscriptMessage m\<lparr>msg_id := mid\<rparr>)) fs = (fs', None)"
    using ap by (auto simp: jl_Append_def normalize_clone Let_def split: sum.splits if_splits)
  have m': "(NormalizeTranscriptMessage m)\<lparr>msg_id := mid\<rparr> = stored_message nid m"
    using mid by (auto simp: normalize_clone stored_message_def clone_with_id split: if_splits)
  obtain c l where cl: "map_of (jf_files fs) p = Some c" "cd_entry J (message_entry now (stored_message nid m)) = Inr l"
      "fs' = fs\<lparr>jf_files := AList.update p (c @ l @ [CHR 10]) (jf_files fs)\<rparr>" using append_line_done [OF line] m' by auto
  obtain i where i: "CanonicalID i0 = Some i" "CanonicalID i = Some i" "jl_path J calm fs i = Inr p"
      "holds_record J E i (Some c) (map_of st i)" using simulates_path [OF sim p] cl(1) by auto
  then obtain r where r: "map_of st i = Some r" "complete c" "read_content J i c = Inr (as_transcript r)"
      "list_all (storable E) (ms_messages r)" by (auto simp: holds_record_def split: option.splits)
  let ?r = "r\<lparr>ms_messages := ms_messages r @ [stored_message nid m]\<rparr>"
  have "storable E (stored_message nid m)" using mid nid stable storable_entry [OF cf, of 0 _ now]
    by (auto simp: storable_def stored_message_def split: if_splits)
  then have h: "holds_record J E i (Some (c @ l @ [CHR 10])) (Some ?r)"
    using read_content_append [OF cf stable cl(2) r(2,3)] r(4)
    by (simp add: holds_record_def read_entry_def message_entry_def as_transcript_def)
  have app: "mem_Append nid i0 m st = Inr (AList.update i ?r st)"
    using i(1) r(1) mid by (auto simp: mem_Append_Inr stored_message_def split: if_splits)
  have "mem_inv (AList.update i ?r st)" using store_step_inv [OF store_step.append [OF app]] sim by (simp add: simulates_def)
  from simulates_update [OF sim i(3,2) h r(1) _ this _ cl(3)] app show ?thesis by (simp add: update_conv')
qed

lemma compaction_simulated:
  assumes sim: "simulates J E fs st" and cf: "codec_faithful J E" and sv: "jl_SaveCompaction J h nid now i0 cp fs = (fs', None)"
    and stable: "\<And>cp'. normalizeCompactionCheckpoint nid now cp = Inr cp' \<Longrightarrow> E (compaction_entry cp')"
  shows "\<exists>st'. mem_SaveCompaction nid now i0 cp st = Inr st' \<and> simulates J E fs' st'"
proof -
  obtain i p t cp' where i: "CanonicalID i0 = Some i" and p: "jl_path J h fs i = Inr p" and t: "readTranscript J h i fs = Inr t"
    and n: "cp_raw_count cp \<le> int (length (tn_messages t))" and cp': "normalizeCompactionCheckpoint nid now cp = Inr cp'"
    and line: "jl_append_line J h ''open transcript for compaction append: '' ''append compaction transcript entry: '' p (compaction_entry cp') fs = (fs', None)"
    using sv by (auto simp: jl_SaveCompaction_def canonicalRequiredID_def split: sum.splits option.splits if_splits)
  obtain c l where cl: "map_of (jf_files fs) p = Some c" "cd_entry J (compaction_entry cp') = Inr l"
      "fs' = fs\<lparr>jf_files := AList.update p (c @ l @ [CHR 10]) (jf_files fs)\<rparr>" using append_line_done [OF line] by auto
  have ci: "CanonicalID i = Some i" using CanonicalID_idem [OF i] .
  have pc: "jl_path J calm fs i = Inr p" and "holds_record J E i (Some c) (map_of st i)"
    using simulates_path [OF sim p] cl(1) ci by auto
  then obtain r where r: "map_of st i = Some r" "complete c" "read_content J i c = Inr (as_transcript r)"
      "list_all (storable E) (ms_messages r)" by (auto simp: holds_record_def split: option.splits)
  have tr: "t = as_transcript r" using t p cl(1) r(3) ci
    by (auto simp: readTranscript_def canonicalRequiredID_def split: option.splits)
  let ?r = "r\<lparr>ms_compaction := Some cp'\<rparr>"
  note nc = normalizeCompactionCheckpoint_Inr [OF cp']
  then have "cp'\<lparr>cp_messages := CloneMessages (cp_messages cp')\<rparr> = cp'" by simp
  then have h: "holds_record J E i (Some (c @ l @ [CHR 10])) (Some ?r)"
    using read_content_append [OF cf stable [OF cp'] cl(2) r(2,3)] r(4)
    by (simp add: holds_record_def read_entry_def compaction_entry_def as_transcript_def)
  have save: "mem_SaveCompaction nid now i0 cp st = Inr (AList.update i ?r st)"
    using i r(1) cp' n nc tr by (auto simp: mem_SaveCompaction_Inr as_transcript_def)
  have "mem_inv (AList.update i ?r st)" using store_step_inv [OF store_step.save [OF save]] sim by (simp add: simulates_def)
  from simulates_update [OF sim pc ci h r(1) _ this _ cl(3)] save show ?thesis by (simp add: update_conv')
qed

text \<open>An id that is not in use: no index file and no transcript of the root directory is named for it.\<close>

definition unused_id :: "jl_fs \<Rightarrow> string \<Rightarrow> bool" where
  "unused_id fs i \<longleftrightarrow> CanonicalID i = Some i \<and> map_of (jf_index fs) i = None \<and> map_of (jf_files fs) (i @ transcriptExt) = None"

lemma unused_fresh:
  assumes "simulates J E fs st" and "unused_id fs i"
  shows "fresh_id st (Inr i)"
proof -
  have "jl_path J calm fs i = Inr (i @ transcriptExt)"
    using assms(2) by (simp add: unused_id_def jl_path_def readIndex_def)
  from simulates_lookup [OF assms(1) _ this] assms(2) show ?thesis
    by (simp add: unused_id_def fresh_id_def holds_record_def split: option.splits)
qed

lemma canonicalParent_idem: "canonicalParentID a = Inr b \<Longrightarrow> canonicalParentID b = Inr b"
  using CanonicalID_idem by (auto simp: canonicalParentID_def split: if_splits option.splits)

lemma CanonicalID_Nil [simp]: "CanonicalID [] = None"
  by code_simp

lemma create_done:
  assumes "jl_CreateWithOptions J h (Inr i) now parent0 fs = (fs', Inr s)" and "CanonicalID i = Some i"
  shows "\<exists>parent p l d. canonicalParentID parent0 = Inr parent \<and> names_session i p \<and> s = \<lparr>se_id = i, se_parent = parent, se_created = now\<rparr>
    \<and> map_of (jf_files fs) p = None \<and> cd_entry J (session_entry s) = Inr l
    \<and> cd_index J \<lparr>ie_id = i, ie_parent = parent, ie_path = p, ie_created = now\<rparr> = Inr d
    \<and> jf_index fs' = AList.update i (d @ [CHR 10]) (jf_index fs) \<and> map_of (jf_files fs') = (map_of (jf_files fs))(p \<mapsto> l @ [CHR 10])"
proof -
  obtain parent p where par: "canonicalParentID parent0 = Inr parent" and p: "transcriptRelPath J h fs i parent = Inr p"
    using assms(1) by (auto simp: jl_CreateWithOptions_def split: sum.splits option.splits)
  have "names_session i p" using relPath_names [OF p assms(2)] par CanonicalID_idem
    by (auto simp: canonicalParentID_def split: if_splits option.splits)
  moreover from this have "safeIndexPath J \<lparr>ie_id = i, ie_parent = parent, ie_path = p, ie_created = now\<rparr> i = Inr p"
    using safeIndexPath_named assms(2) by simp
  ultimately show ?thesis using assms par p
    by (auto simp: jl_CreateWithOptions_def writeIndex_def write_entry_def update_conv' Let_def split: sum.splits option.splits if_splits)
qed

text \<open>A new session: its path comes from its index file, and no other path changes.\<close>

lemma create_simulated:
  assumes sim: "simulates J E fs st" and cf: "codec_faithful J E" and new: "unused_id fs i" and stable: "E (session_entry s)"
    and cr: "jl_CreateWithOptions J h (Inr i) now parent0 fs = (fs', Inr s)"
  shows "\<exists>st'. mem_CreateWithOptions (Inr i) now parent0 st = Inr (s, st') \<and> simulates J E fs' st'"
proof -
  have ci: "CanonicalID i = Some i" and fresh: "fresh_id st (Inr i)" using new unused_fresh [OF sim new] by (auto simp: unused_id_def)
  obtain parent p l d where par: "canonicalParentID parent0 = Inr parent" and p: "names_session i p"
    and s: "s = \<lparr>se_id = i, se_parent = parent, se_created = now\<rparr>" and l: "cd_entry J (session_entry s) = Inr l"
    and d: "cd_index J \<lparr>ie_id = i, ie_parent = parent, ie_path = p, ie_created = now\<rparr> = Inr d"
    and fs': "jf_index fs' = AList.update i (d @ [CHR 10]) (jf_index fs)" "map_of (jf_files fs') = (map_of (jf_files fs))(p \<mapsto> l @ [CHR 10])"
    using create_done [OF cr ci] by blast
  let ?r = "\<lparr>ms_session = s, ms_messages = [], ms_compaction = None\<rparr>"
  have mem: "mem_CreateWithOptions (Inr i) now parent0 st = Inr (s, AList.update i ?r st)"
    using par by (simp add: mem_CreateWithOptions_def s Let_def)
  have index: "readIndex J calm fs' i = Inr \<lparr>ie_id = i, ie_parent = parent, ie_path = p, ie_created = now\<rparr>"
    using cf d ci by (simp add: readIndex_def calm_def fs'(1) update_conv' codec_faithful_def)
  then have here: "jl_path J calm fs' i = Inr p" using ci safeIndexPath_named [OF p ci] by (simp add: jl_path_def)
  have "complete (l @ [CHR 10])" "read_content J i (l @ [CHR 10]) = Inr (as_transcript ?r)"
    using read_content_append [OF cf stable l, of "[]" i] ci canonical_chars [OF ci]
    by (auto simp: read_content_def complete_def read_entry_def session_entry_def as_transcript_def s)
  then have h: "holds_record J E i (Some (l @ [CHR 10])) (Some ?r)" by (simp add: holds_record_def)
  have "mem_inv (AList.update i ?r st)" using store_step_inv [OF store_step.create [OF fresh mem]] sim by (simp add: simulates_def)
  moreover have "\<exists>q. jl_path J calm fs' j = Inr q \<and> holds_record J E j (map_of (jf_files fs') q) (map_of (AList.update i ?r st) j)"
    if j: "CanonicalID j = Some j" for j
  proof (cases "j = i")
    case True
    then show ?thesis using here h by (simp add: fs'(2) update_conv')
  next
    case False
    obtain q where q: "jl_path J calm fs j = Inr q" "holds_record J E j (map_of (jf_files fs) q) (map_of st j)"
      using sim j by (auto simp: simulates_def)
    have "jl_path J calm fs' j = jl_path J calm fs j" using False j by (simp add: jl_path_def readIndex_def fs'(1) update_conv')
    moreover have "q \<noteq> p" using path_names [OF q(1)] j False p names_inj by auto
    ultimately show ?thesis using q False by (simp add: fs'(2) update_conv')
  qed
  moreover have "catalogued J fs' (AList.update i ?r st)"
    using catalogued_create [OF _ p _ ci _ _ _ fs'(2,1) index, of st "AList.update i ?r st" ?r] sim fresh par canonicalParent_idem [OF par]
    by (simp add: simulates_def fresh_id_def s update_conv')
  ultimately show ?thesis using mem by (auto simp: simulates_def)
qed

lemma copies_simulated:
  assumes "codec_faithful J E" and "CanonicalID i = Some i"
  shows "simulates J E fs st \<Longrightarrow> map_of st i = Some r \<Longrightarrow> list_all (storable E) ms \<Longrightarrow> CloneMessages ms = ms \<Longrightarrow> append_copies J h calls i ms fs = (fs', None) \<Longrightarrow>
    \<exists>st'. simulates J E fs' st' \<and> map_of st' = (map_of st)(i \<mapsto> r\<lparr>ms_messages := ms_messages r @ ms\<rparr>)"
proof (induction ms arbitrary: calls fs st r)
  case Nil
  then show ?case by (auto simp: CloneMessages_def intro!: exI [of _ st])
next
  case (Cons m ms)
  let ?nid = "fst (calls 0)" and ?now = "snd (calls 0)"
  obtain fs1 where ap: "jl_Append J h ?nid ?now i m fs = (fs1, None)" and rest: "append_copies J h (\<lambda>k. calls (Suc k)) i ms fs1 = (fs', None)"
    using Cons.prems(5) by (auto split: prod.splits option.splits)
  have m: "msg_id m \<noteq> []" "stored_message ?nid m = m" "CloneMessages ms = ms" "E (message_entry ?now m)"
    using Cons.prems(3,4) storable_entry [OF assms(1), of 0 m ?now] by (auto simp: storable_def stored_message_def CloneMessages_def)
  obtain st1 where st1: "mem_Append ?nid i m st = Inr st1" "simulates J E fs1 st1"
    using append_simulated [OF Cons.prems(1) assms(1) ap] m by auto
  let ?r = "r\<lparr>ms_messages := ms_messages r @ [m]\<rparr>"
  have new: "map_of st1 = (map_of st)(i \<mapsto> ?r)"
    using st1(1) assms(2) Cons.prems(2) m(1,2) by (auto simp: mem_Append_Inr update_conv' stored_message_def)
  have "map_of st1 i = Some ?r" "list_all (storable E) ms" using new Cons.prems(3) by simp_all
  from Cons.IH [OF st1(2) this m(3) rest] obtain st' where
    "simulates J E fs' st'" "map_of st' = (map_of st1)(i \<mapsto> ?r\<lparr>ms_messages := ms_messages ?r @ ms\<rparr>)" by blast
  then show ?case using new by (auto intro!: exI [of _ st'])
qed

lemma simulates_cong: "simulates J E fs st \<Longrightarrow> mem_inv st' \<Longrightarrow> map_of st' = map_of st \<Longrightarrow> simulates J E fs st'"
  by (simp add: simulates_def catalogued_def)

lemma read_simulated:
  assumes "simulates J E fs st"
  shows "readTranscript J h i fs = Inr t \<Longrightarrow> \<exists>r. mem_lookup i st = Inr r \<and> t = as_transcript r \<and> list_all (storable E) (ms_messages r)"
    and "mem_lookup i st = Inr r \<Longrightarrow> readTranscript J calm i fs = Inr (as_transcript r)"
proof -
  assume t: "readTranscript J h i fs = Inr t"
  then obtain p c where p: "jl_path J h fs i = Inr p" and c: "map_of (jf_files fs) p = Some c" 
    by (auto simp: readTranscript_def split: sum.splits option.splits)
  from simulates_path [OF assms p] obtain j where "CanonicalID i = Some j" "holds_record J E j (Some c) (map_of st j)" using c by auto
  then show "\<exists>r. mem_lookup i st = Inr r \<and> t = as_transcript r \<and> list_all (storable E) (ms_messages r)"
    using t p c by (auto simp: readTranscript_def holds_record_def mem_lookup_Inr canonicalRequiredID_def split: option.splits)
next
  assume "mem_lookup i st = Inr r"
  then obtain j where j: "CanonicalID i = Some j" "map_of st j = Some r" by (auto simp: mem_lookup_Inr)
  then have cj: "CanonicalID j = Some j" using CanonicalID_idem by blast
  obtain p where p: "jl_path J calm fs j = Inr p" "holds_record J E j (map_of (jf_files fs) p) (Some r)"
    using assms cj j(2) by (auto simp: simulates_def)
  moreover have "jl_path J calm fs i = jl_path J calm fs j" using j(1) cj by (simp add: jl_path_def)
  ultimately show "readTranscript J calm i fs = Inr (as_transcript r)" using j(1)
    by (auto simp: readTranscript_def holds_record_def canonicalRequiredID_def calm_def split: option.splits)
qed

lemma fork_simulated:
  assumes sim: "simulates J E fs st" and cf: "codec_faithful J E" and new: "unused_id fs n" and stable: "E (session_entry s)"
    and fk: "jl_Fork J h (Inr n) now calls i0 opts fs = (fs', Inr s)"
  shows "\<exists>st'. mem_Fork (Inr n) now i0 opts st = Inr (s, st') \<and> simulates J E fs' st'"
proof -
  obtain t ms fs1 where t: "readTranscript J h i0 fs = Inr t" and ms: "forkMessages (tn_messages t) (fo_through opts) = Inr ms"
    and cr: "jl_CreateWithOptions J h (Inr n) now (if fo_parent opts = [] then i0 else fo_parent opts) fs = (fs1, Inr s)"
    and cp: "append_copies J h calls (se_id s) ms fs1 = (fs', None)"
    using fk by (auto simp: jl_Fork_def split: sum.splits prod.splits option.splits)
  obtain r where r: "mem_lookup i0 st = Inr r" "t = as_transcript r" "list_all (storable E) (ms_messages r)"
    using read_simulated(1) [OF sim t] by auto
  obtain i where i: "CanonicalID i0 = Some i" "map_of st i = Some r" using r(1) by (auto simp: mem_lookup_Inr)
  obtain st1 where st1: "mem_CreateWithOptions (Inr n) now (if fo_parent opts = [] then i0 else fo_parent opts) st = Inr (s, st1)" "simulates J E fs1 st1"
    using create_simulated [OF sim cf new stable cr] by auto
  have cl: "CloneMessages (ms_messages r) = ms_messages r" using sim i(2) mem_inv_record by (auto simp: simulates_def wf_record_def)
  have "\<exists>k. ms = take k (ms_messages r)" using forkMessages_prefix [OF cl] ms r(2) by (auto simp: as_transcript_def)
  then have msr: "CloneMessages ms = ms" "list_all (storable E) ms"
    using r(3) CloneMessages_take [OF cl] by (auto simp: list_all_iff dest: in_set_takeD)
  let ?r = "\<lparr>ms_session = s, ms_messages = [], ms_compaction = None\<rparr>"
  have s: "se_id s = n" "map_of st1 = (map_of st)(n \<mapsto> ?r)" using mem_Create_Inr [OF st1(1)] by (auto simp: update_conv')
  obtain st2 where st2: "simulates J E fs' st2" "map_of st2 = (map_of st1)(n \<mapsto> ?r\<lparr>ms_messages := ms\<rparr>)"
    using copies_simulated [OF cf _ st1(2) _ msr(2,1), of n ?r h calls fs'] cp s new by (auto simp: unused_id_def)
  let ?st' = "AList.update n (?r\<lparr>ms_messages := ms\<rparr>) st"
  have fork: "mem_Fork (Inr n) now i0 opts st = Inr (s, ?st')"
    using i st1(1) ms r(2) msr(1) canonical_chars CanonicalID_idem
    by (auto simp: mem_Fork_def mem_CreateWithOptions_def canonicalRequiredID_def canonicalParentID_def as_transcript_def Let_def split: if_splits option.splits sum.splits)
  then have "mem_inv ?st'" using store_step_inv [OF store_step.fork [OF unused_fresh [OF sim new]]] sim by (auto simp: simulates_def)
  then show ?thesis using fork simulates_cong [OF st2(1)] st2(2) s(2) by (auto simp: update_conv')
qed

section \<open>Runs of the store\<close>

text \<open>One call that changes the files and succeeds, with any failures that it survives.\<close>

inductive jl_step :: "codec \<Rightarrow> (transcript_entry \<Rightarrow> bool) \<Rightarrow> jl_fs \<Rightarrow> jl_fs \<Rightarrow> bool" for J E where
  create: "unused_id fs i \<Longrightarrow> E (session_entry s) \<Longrightarrow> jl_CreateWithOptions J h (Inr i) now parent fs = (fs', Inr s) \<Longrightarrow> jl_step J E fs fs'"
| append: "nid \<noteq> Inr [] \<Longrightarrow> E (message_entry now (stored_message nid m)) \<Longrightarrow> jl_Append J h nid now i m fs = (fs', None) \<Longrightarrow> jl_step J E fs fs'"
| save: "normalizeCompactionCheckpoint nid now cp = Inr cp' \<Longrightarrow> E (compaction_entry cp') \<Longrightarrow>
    jl_SaveCompaction J h nid now i cp fs = (fs', None) \<Longrightarrow> jl_step J E fs fs'"
| fork: "unused_id fs n \<Longrightarrow> E (session_entry s) \<Longrightarrow> jl_Fork J h (Inr n) now calls i opts fs = (fs', Inr s) \<Longrightarrow> jl_step J E fs fs'"

inductive jl_reach :: "codec \<Rightarrow> (transcript_entry \<Rightarrow> bool) \<Rightarrow> jl_fs \<Rightarrow> bool" for J E where
  empty: "jl_reach J E \<lparr>jf_files = [], jf_index = []\<rparr>"
| step: "jl_reach J E fs \<Longrightarrow> jl_step J E fs fs' \<Longrightarrow> jl_reach J E fs'"

lemma step_simulated:
  assumes "jl_step J E fs fs'" and "simulates J E fs st" and "codec_faithful J E"
  shows "\<exists>st'. store_step st st' \<and> simulates J E fs' st'"
  using assms
proof (cases rule: jl_step.cases)
  case (create i s h now parent)
  then show ?thesis
    using create_simulated [OF assms(2,3) create] store_step.create [OF unused_fresh [OF assms(2) create(1)]] by blast
next
  case (append nid now m h i)
  then show ?thesis using append_simulated [OF assms(2,3) append(3,2)] store_step.append by blast
next
  case (save nid now cp cp' h i)
  then obtain st' where "mem_SaveCompaction nid now i cp st = Inr st'" "simulates J E fs' st'"
    using compaction_simulated [OF assms(2,3) save(3)] by auto
  then show ?thesis using store_step.save by blast
next
  case (fork n s h now calls i opts)
  then show ?thesis
    using fork_simulated [OF assms(2,3) fork] store_step.fork [OF unused_fresh [OF assms(2) fork(1)]] by blast
qed

lemma empty_simulates: "simulates J E \<lparr>jf_files = [], jf_index = []\<rparr> NewMemoryStore"
  by (auto simp: simulates_def catalogued_def NewMemoryStore_def mem_inv_def wf_map_def jl_path_def readIndex_def holds_record_def)

lemma reach_simulated:
  assumes "jl_reach J E fs" and "codec_faithful J E"
  shows "\<exists>st. reachable_store st \<and> simulates J E fs st"
  using assms
proof (induction rule: jl_reach.induct)
  case empty
  then show ?case using empty_simulates store_steps.refl by (auto simp: reachable_store_def)
next
  case (step fs fs')
  then show ?case using step_simulated by (metis reachable_store_def store_steps.step)
qed

lemma list_index_all:
  assumes "simulates J E fs st"
  shows "set is \<subseteq> dom (map_of st) \<Longrightarrow> list_index J calm fs is = Inr (map (\<lambda>i. ms_session (the (map_of st i))) is)"
proof (induction "is")
  case (Cons i js)
  then obtain r where r: "map_of st i = Some r" by auto
  have inv: "mem_inv st" "catalogued J fs st" using assms by (auto simp: simulates_def)
  have ci: "CanonicalID i = Some i" "se_id (ms_session r) = i" using mem_inv_record [OF inv(1) r] by (auto simp: wf_record_def)
  obtain p where x: "readIndex J calm fs i = Inr \<lparr>ie_id = i, ie_parent = se_parent (ms_session r), ie_path = p, ie_created = se_created (ms_session r)\<rparr>"
      "canonicalParentID (se_parent (ms_session r)) = Inr (se_parent (ms_session r))"
    using inv(2) r by (fastforce simp: catalogued_def)
  obtain q where q: "jl_path J calm fs i = Inr q" "holds_record J E i (map_of (jf_files fs) q) (Some r)"
    using assms ci(1) r by (auto simp: simulates_def)
  let ?x = "\<lparr>ie_id = i, ie_parent = se_parent (ms_session r), ie_path = p, ie_created = se_created (ms_session r)\<rparr>"
  have "safeIndexPath J ?x i = Inr q" using q(1) ci(1) x(1) by (simp add: jl_path_def)
  then have "sessionFromIndex J ?x i = Inr (ms_session r, q)" using ci x(2) by (simp add: sessionFromIndex_def)
  moreover have "map_of (jf_files fs) q \<noteq> None" using q(2) by (auto simp: holds_record_def split: option.splits)
  ultimately show ?case using Cons r ci(1) x(1) by (auto simp: ValidID_def calm_def)
qed simp

lemma list_plain_none:
  "(\<And>p. p \<in> set ps \<Longrightarrow> \<exists>i \<in> set seen. CanonicalID i = Some i \<and> names_session i p) \<Longrightarrow> list_plain J h fs seen ps = Inr []"
proof (induction ps)
  case (Cons p ps)
  obtain i where i: "i \<in> set seen" "CanonicalID i = Some i" "names_session i p" using Cons.prems [of p] by auto
  have "p = i @ transcriptExt" if "CHR ''/'' \<notin> set p" using i(3) that by (simp add: names_session_def path_base_def split_on_plain)
  then show ?case using Cons i by (auto simp: Let_def)
qed simp

lemma listing_simulated:
  assumes "simulates J E fs st"
  shows "jl_List J calm fs = Inr (mem_List st)"
proof -
  have inv: "mem_inv st" "catalogued J fs st" using assms by (auto simp: simulates_def)
  let ?ks = "stable_sort str_less (map fst (jf_index fs))"
  let ?st = "map (\<lambda>i. (i, the (map_of st i))) ?ks"
  have keys: "set ?ks = dom (map_of st)"
  proof -
    have "map_of (jf_index fs) k = None \<longleftrightarrow> map_of st k = None" for k using inv(2) by (simp add: catalogued_def)
    then show ?thesis by (auto simp: set_eq_iff domIff map_of_eq_None_iff)
  qed
  have "set st = set ?st" using keys inv(1) by (auto simp: mem_inv_def wf_map_def image_iff)
  moreover have "distinct ?ks" using inv(2) mset_eq_imp_distinct_iff [OF mset_stable_sort] by (auto simp: catalogued_def wf_map_def)
  then have "distinct st" "distinct ?st" using inv(1) by (auto simp: mem_inv_def wf_map_def distinct_map inj_on_def)
  ultimately have "mem_List st = mem_List ?st" using mem_List_perm [OF inv(1)] set_eq_iff_mset_eq_distinct by blast
  moreover have "list_plain J calm fs (map se_id (map (\<lambda>i. ms_session (the (map_of st i))) ?ks)) ps = Inr []" if "set ps = fst ` set (jf_files fs)" for ps
  proof (rule list_plain_none)
    fix p assume "p \<in> set ps"
    then have "map_of (jf_files fs) p \<noteq> None" using that by (simp add: map_of_eq_None_iff)
    then obtain i where "map_of st i \<noteq> None" "names_session i p" using inv(2) unfolding catalogued_def by blast
    then show "\<exists>i \<in> set (map se_id (map (\<lambda>i. ms_session (the (map_of st i))) ?ks)). CanonicalID i = Some i \<and> names_session i p"
      using keys mem_inv_record [OF inv(1), of i] by (auto simp: wf_record_def intro!: bexI [of _ i])
  qed
  ultimately show ?thesis using list_index_all [OF assms, of ?ks] keys
    by (simp add: jl_List_def jl_check_def calm_def mem_List_def comp_def)
qed

lemma exists_simulated:
  assumes "simulates J E fs st"
  shows "jl_Exists J calm i0 fs = Inr True \<longleftrightarrow> (\<exists>r. mem_lookup i0 st = Inr r)"
proof (cases "CanonicalID i0")
  case None
  then show ?thesis by (simp add: jl_Exists_def jl_path_def mem_lookup_Inr)
next
  case (Some i)
  then have ci: "CanonicalID i = Some i" using CanonicalID_idem by blast
  obtain p where "jl_path J calm fs i = Inr p" "holds_record J E i (map_of (jf_files fs) p) (map_of st i)"
    using assms ci by (auto simp: simulates_def)
  moreover have "jl_path J calm fs i0 = jl_path J calm fs i" using Some ci by (simp add: jl_path_def)
  ultimately show ?thesis using Some
    by (auto simp: jl_Exists_def mem_lookup_Inr holds_record_def calm_def split: option.splits)
qed

lemma read_agrees:
  assumes "simulates J E fs st"
  shows "(\<exists>r. mem_lookup i st = Inr r \<and> readTranscript J calm i fs = Inr (as_transcript r))
    \<or> (\<exists>e e'. mem_lookup i st = Inl e \<and> readTranscript J calm i fs = Inl e')"
  using read_simulated [OF assms] by (cases "mem_lookup i st"; cases "readTranscript J calm i fs") fastforce+

lemma lift_Inr: "map_sum f id x = Inr v \<longleftrightarrow> x = Inr v"
  by (cases x) auto

lemma messages_of_lookup: "mem_inv st \<Longrightarrow> mem_lookup i st = Inr r \<Longrightarrow> CloneMessages (ms_messages r) = ms_messages r"
  using mem_inv_record by (auto simp: mem_lookup_Inr wf_record_def)


text \<open>A codec that knows the entries of one session with one message.\<close>

definition demo_session :: session where
  "demo_session = \<lparr>se_id = demo_id, se_parent = [], se_created = 5\<rparr>"

definition demo_message :: message where
  "demo_message = (user_message ''hi'')\<lparr>msg_id := ''m1''\<rparr>"

definition demo_index :: index_entry where
  "demo_index = \<lparr>ie_id = demo_id, ie_parent = [], ie_path = demo_id @ transcriptExt, ie_created = 5\<rparr>"

definition demo_codec :: codec where
  "demo_codec = \<lparr>
     cd_entry = (\<lambda>e. if e = session_entry demo_session then Inr ''s'' else if e = message_entry 7 demo_message then Inr ''m'' else Inl ''unsupported''),
     cd_read = (\<lambda>l. if l = ''s'' then Inr (session_entry demo_session) else Inr (message_entry 7 demo_message)),
     cd_index = (\<lambda>x. if x = demo_index then Inr ''i'' else Inl ''unsupported''),
     cd_index_read = (\<lambda>d. Inr demo_index), cd_unicode = ascii_unicode\<rparr>"

lemma demo_codec_faithful: "codec_faithful demo_codec (\<lambda>e. True)"
  by (simp add: codec_faithful_def demo_codec_def maxLine_def)

definition demo_fs :: jl_fs where
  "demo_fs = \<lparr>jf_files = [(demo_id @ transcriptExt, ''s'' @ [CHR 10] @ ''m'' @ [CHR 10])], jf_index = [(demo_id, ''i'' @ [CHR 10])]\<rparr>"

lemma demo_jl_reach: "jl_reach demo_codec (\<lambda>e. True) demo_fs"
proof -
  let ?p = "demo_id @ transcriptExt"
  let ?fs = "\<lparr>jf_files = [(?p, ''s'' @ [CHR 10])], jf_index = [(demo_id, ''i'' @ [CHR 10])]\<rparr>"
  have safe: "safeIndexPath demo_codec demo_index demo_id = Inr ?p"
    by (rule safeIndexPath_named [OF names_root [OF demo_canonical(1)]]) (simp_all add: demo_index_def)
  have "jl_CreateWithOptions demo_codec calm (Inr demo_id) 5 [] \<lparr>jf_files = [], jf_index = []\<rparr> = (?fs, Inr demo_session)"
    using safe by (simp add: jl_CreateWithOptions_def canonicalParentID_def jl_check_def calm_def transcriptRelPath_def write_entry_def
        writeIndex_def demo_codec_def demo_session_def demo_index_def Let_def)
  then have one: "jl_step demo_codec (\<lambda>e. True) \<lparr>jf_files = [], jf_index = []\<rparr> ?fs"
    by (rule jl_step.create [rotated 2]) (simp_all add: unused_id_def)
  have "message_entry 7 demo_message \<noteq> session_entry demo_session" by (simp add: message_entry_def session_entry_def)
  moreover have "jl_path demo_codec calm ?fs demo_id = Inr ?p" using safe by (simp add: jl_path_def readIndex_def calm_def demo_codec_def)
  ultimately have "jl_Append demo_codec calm (Inr ''x'') 7 demo_id demo_message ?fs = (demo_fs, None)"
    by (simp add: jl_Append_def normalize_clone demo_message_def jl_append_line_def write_entry_def calm_def demo_codec_def demo_fs_def Let_def)
  then have "jl_step demo_codec (\<lambda>e. True) ?fs demo_fs" by (rule jl_step.append [rotated 2]) simp_all
  with jl_reach.step [OF jl_reach.empty one] show ?thesis by (rule jl_reach.step)
qed


section \<open>Where the code falls short\<close>

text \<open>
  \<open>Append\<close> has no bound on the line it writes, \<open>readTranscript\<close> has: a message whose line has 64 MiB is stored without
  an error, and from then on the session cannot be read.
\<close>

theorem oversized_append_unreadable:
  assumes "jl_path J calm fs i = Inr p" and "map_of (jf_files fs) p = Some c" and "complete c" and "CanonicalID i = Some i"
    and "read_content J i c = Inr t" and "msg_id m \<noteq> []" and "cd_entry J (message_entry now (CloneMessage m)) = Inr l"
    and "CHR 10 \<notin> set l" and "maxLine \<le> length l"
  shows "\<exists>fs'. jl_Append J calm nid now i m fs = (fs', None)
     \<and> jl_Messages J calm i fs' = Inl (JText ''scan transcript: bufio.Scanner: token too long'')"
proof -
  let ?fs = "fs\<lparr>jf_files := AList.update p (c @ l @ [CHR 10]) (jf_files fs)\<rparr>"
  have same: "(CloneMessage m)\<lparr>msg_id := msg_id m\<rparr> = CloneMessage m" by (simp add: CloneMessage_alt)
  have "jl_Append J calm nid now i m fs = (?fs, None)"
    using assms(1,2,6,7) by (simp add: same jl_Append_def normalize_clone jl_append_line_def write_entry_def Let_def)
  moreover have "read_content J i (c @ l @ [CHR 10]) = Inl (JText ''scan transcript: bufio.Scanner: token too long'')"
    using assms(5,9) by (simp add: read_content_def scan_append [OF assms(3,8)] read_lines_append)
  moreover have "jl_path J calm ?fs i = Inr p" using assms(1) by (simp add: jl_path_def cong: option.case_cong)
  ultimately show ?thesis using assms(4) by (simp add: jl_Messages_def readTranscript_def canonicalRequiredID_def update_conv')
qed

text \<open>
  A creation that fails after the transcript was created, when the session's entry cannot be written or the file not be
  closed, leaves the transcript there: only a failure of the index removes it. The session that was reported as failed
  can be read.
\<close>

theorem failed_create_leaves_transcript:
  assumes "codec_faithful J E" and "E (session_entry s)" and "s = \<lparr>se_id = i, se_parent = [], se_created = now\<rparr>" and "unused_id fs i"
    and "cd_entry J (session_entry s) = Inr l" and "ho_fail h = (\<lambda>op. if op = CloseTranscript then Some x else None)"
  shows "\<exists>fs'. jl_CreateWithOptions J h (Inr i) now [] fs = (fs', Inl (JText (''close transcript: '' @ x))) \<and> jl_Get J calm i fs' = Inr s"
proof -
  let ?p = "i @ transcriptExt"
  let ?fs = "fs\<lparr>jf_files := AList.update ?p (l @ [CHR 10]) (AList.update ?p [] (jf_files fs))\<rparr>"
  have u: "CanonicalID i = Some i" "map_of (jf_index fs) i = None" "map_of (jf_files fs) ?p = None" using assms(4) by (auto simp: unused_id_def)
  have "jl_CreateWithOptions J h (Inr i) now [] fs = (?fs, Inl (JText (''close transcript: '' @ x)))"
    using assms(3,5,6) u by (simp add: jl_CreateWithOptions_def canonicalParentID_def jl_check_def transcriptRelPath_def write_entry_def update_conv' Let_def)
  moreover have "read_content J i (l @ [CHR 10]) = Inr \<lparr>tn_session = s, tn_messages = [], tn_compaction = None\<rparr>"
    using read_content_append [OF assms(1,2,5), of "[]" i] canonical_chars [OF u(1)] assms(3)
    by (auto simp: read_content_def complete_def read_entry_def session_entry_def)
  moreover have "jl_path J calm ?fs i = Inr ?p" using u by (simp add: jl_path_def readIndex_def)
  ultimately show ?thesis using u(1) by (simp add: jl_Get_def readTranscript_def canonicalRequiredID_def update_conv')
qed

end
