(* ===== verification/Skills.thy ===== *)
theory Skills
  imports Keyed_Store Tool_Registry
begin

text \<open>
  \<open>skill/skill.go\<close>, \<open>skill/select.go\<close>, \<open>skill/policy.go\<close> and the timeout source of \<open>skill/prefetch.go\<close>: skills, the sources they
  come from, host policies on them and the selector. A source acts on the host's world and gets the context; copies of skills
  are equal to the skills, so that cloning is the identity.
\<close>

section \<open>Skills and resources\<close>

record resource_ref =
  rr_name :: string
  rr_description :: string
  rr_path :: string
  rr_mime :: string
  rr_bytes :: int
  rr_tags :: "string list"

record skill =
  sk_name :: string
  sk_description :: string
  sk_when :: string
  sk_content :: string
  sk_source :: string
  sk_path :: string
  sk_resources :: "resource_ref list"
  sk_always_on :: bool
  sk_tags :: "string list"
  sk_hints :: "string list"

record resource =
  rs_skill :: string
  rs_name :: string
  rs_description :: string
  rs_path :: string
  rs_mime :: string
  rs_content :: string
  rs_bytes :: int
  rs_metadata :: metadata

record resource_request =
  rq_skill :: string
  rq_name :: string
  rq_path :: string

definition cloneResourceRefs :: "resource_ref list \<Rightarrow> resource_ref list" where
  "cloneResourceRefs rs = map (\<lambda>r. r\<lparr>rr_tags := rr_tags r\<rparr>) rs"

definition clone_skill :: "skill \<Rightarrow> skill" where
  "clone_skill s = s\<lparr>sk_tags := sk_tags s, sk_hints := sk_hints s, sk_resources := cloneResourceRefs (sk_resources s)\<rparr>"

definition cloneSkills :: "skill list \<Rightarrow> skill list" where
  "cloneSkills ss = map clone_skill ss"

lemma clone_skill_id [simp]: "clone_skill s = s"
  by (simp add: clone_skill_def cloneResourceRefs_def)

lemma cloneSkills_id [simp]: "cloneSkills ss = ss"
  by (simp add: cloneSkills_def map_idI)

fun firstNonEmpty :: "string list \<Rightarrow> string" where
  "firstNonEmpty [] = []"
| "firstNonEmpty (v # vs) = (if v \<noteq> [] then v else firstNonEmpty vs)"

definition cloneResource :: "resource \<Rightarrow> resource" where
  "cloneResource r = r\<lparr>rs_metadata := CloneMetadata (rs_metadata r)\<rparr>"

definition resource_matches :: "resource_request \<Rightarrow> resource \<Rightarrow> bool" where
  "resource_matches req r \<longleftrightarrow> rs_skill r = rq_skill req
     \<and> (rq_name req \<noteq> [] \<and> rs_name r = rq_name req \<or> rq_path req \<noteq> [] \<and> rs_path r = rq_path req)"

definition StaticResourceSource :: "unicode \<Rightarrow> resource list \<Rightarrow> err option \<Rightarrow> resource_request \<Rightarrow> err + resource" where
  "StaticResourceSource U rs ctxerr req =
     (case ctxerr of
        Some e \<Rightarrow> Inl e
      | None \<Rightarrow>
          (case find (resource_matches req) rs of
             Some r \<Rightarrow> Inr (cloneResource r)
           | None \<Rightarrow> Inl (EText (''skill: resource '' @ quote U (firstNonEmpty [rq_name req, rq_path req]) @ '' for skill ''
                @ quote U (rq_skill req) @ '' not found''))))"

type_synonym ('w, 'c) resource_source = "'w \<Rightarrow> 'c \<Rightarrow> resource_request \<Rightarrow> 'w \<times> (err + resource)"

definition ResourceSourceFunc :: "('w, 'c) resource_source option \<Rightarrow> ('w, 'c) resource_source" where
  "ResourceSourceFunc f w c req = (case f of None \<Rightarrow> (w, Inl (EText ''skill: nil ResourceSourceFunc'')) | Some g \<Rightarrow> g w c req)"

section \<open>Sources\<close>

type_synonym ('w, 'c) skill_source = "'w \<Rightarrow> 'c \<Rightarrow> 'w \<times> (err + skill list)"

definition SkillSourceFunc :: "('w, 'c) skill_source option \<Rightarrow> ('w, 'c) skill_source" where
  "SkillSourceFunc f w c = (case f of None \<Rightarrow> (w, Inl (EText ''skill: nil SourceFunc'')) | Some g \<Rightarrow> g w c)"

definition StaticSource_Skills :: "skill list \<Rightarrow> ('w, 'c) skill_source" where
  "StaticSource_Skills ss w c = (w, Inr (cloneSkills ss))"

text \<open>One source's skills in \<open>MultiSource\<close>: the first of each name stays, unnamed skills all stay.\<close>

fun merge_skills :: "string list \<Rightarrow> skill list \<Rightarrow> string list \<times> skill list" where
  "merge_skills seen [] = (seen, [])"
| "merge_skills seen (s # ss) =
     (if sk_name s \<noteq> [] \<and> sk_name s \<in> set seen then merge_skills seen ss
      else case merge_skills (if sk_name s = [] then seen else sk_name s # seen) ss of
             (seen', out) \<Rightarrow> (seen', clone_skill s # out))"

fun skill_sources_loop :: "string list \<Rightarrow> ('w, 'c) skill_source option list \<Rightarrow> 'w \<Rightarrow> 'c \<Rightarrow> 'w \<times> (err + skill list)" where
  "skill_sources_loop seen [] w c = (w, Inr [])"
| "skill_sources_loop seen (None # ss) w c = skill_sources_loop seen ss w c"
| "skill_sources_loop seen (Some f # ss) w c =
     (case f w c of
        (w1, Inl e) \<Rightarrow> (w1, Inl e)
      | (w1, Inr ms) \<Rightarrow>
          (case merge_skills seen ms of
             (seen', out) \<Rightarrow>
               (case skill_sources_loop seen' ss w1 c of
                  (w2, Inl e) \<Rightarrow> (w2, Inl e)
                | (w2, Inr rest) \<Rightarrow> (w2, Inr (out @ rest)))))"

definition MultiSource_Skills :: "('w, 'c) skill_source option list \<Rightarrow> ('w, 'c) skill_source" where
  "MultiSource_Skills ss w c = skill_sources_loop [] ss w c"

text \<open>\<open>with_timeout\<close> is \<open>context.WithTimeout\<close>.\<close>

definition TimeoutSource_Skills :: "('c \<Rightarrow> duration \<Rightarrow> 'c) \<Rightarrow> duration \<Rightarrow> ('w, 'c) skill_source option \<Rightarrow> ('w, 'c) skill_source" where
  "TimeoutSource_Skills with_timeout timeout src w c =
     (case src of
        None \<Rightarrow> (w, Inl (EText ''skill: timeout source requires Source''))
      | Some f \<Rightarrow> if timeout \<le> 0 then f w c else f w (with_timeout c timeout))"

section \<open>Policies\<close>

record skill_decision =
  sp_allow :: bool
  sp_reason :: string
  sp_rewrite :: "skill option"

type_synonym ('w, 'c) skill_policy = "'w \<Rightarrow> 'c \<Rightarrow> skill \<Rightarrow> 'w \<times> skill_decision"

definition AllowAllPolicy :: "('w, 'c) skill_policy" where
  "AllowAllPolicy w c s = (w, \<lparr>sp_allow = True, sp_reason = [], sp_rewrite = None\<rparr>)"

fun policy_loop :: "unicode \<Rightarrow> ('w, 'c) skill_policy \<Rightarrow> bool \<Rightarrow> skill list \<Rightarrow> 'w \<Rightarrow> 'c \<Rightarrow> 'w \<times> (err + skill list)" where
  "policy_loop U check deny_error [] w c = (w, Inr [])"
| "policy_loop U check deny_error (s # ss) w c =
     (case check w c s of
        (w1, d) \<Rightarrow>
          if \<not> sp_allow d then
            (if deny_error
             then (w1, Inl (EText (if sp_reason d = [] then ''skill '' @ quote U (sk_name s) @ '' denied by policy'' else sp_reason d)))
             else policy_loop U check deny_error ss w1 c)
          else (case policy_loop U check deny_error ss w1 c of
                  (w2, Inl e) \<Rightarrow> (w2, Inl e)
                | (w2, Inr out) \<Rightarrow> (w2, Inr (clone_skill (case sp_rewrite d of None \<Rightarrow> s | Some s' \<Rightarrow> s') # out))))"

definition PolicySource_Skills ::
  "unicode \<Rightarrow> ('w, 'c) skill_source option \<Rightarrow> ('w, 'c) skill_policy option \<Rightarrow> bool \<Rightarrow> ('w, 'c) skill_source" where
  "PolicySource_Skills U src policy deny_error w c =
     (case src of
        None \<Rightarrow> (w, Inl (EText ''skill: policy source requires Source''))
      | Some f \<Rightarrow>
          (case policy of
             None \<Rightarrow> f w c
           | Some check \<Rightarrow>
               (case f w c of
                  (w1, Inl e) \<Rightarrow> (w1, Inl e)
                | (w1, Inr ss) \<Rightarrow> policy_loop U check deny_error ss w1 c)))"

section \<open>Selection\<close>

definition skill_tokenize :: "unicode \<Rightarrow> string \<Rightarrow> string list" where
  "skill_tokenize U v = dedup_tokens [] (map (\<lambda>f. to_lower U (trim_space f)) (fields_loop U (utf8_chunks v) []))"

definition scoreSkill :: "unicode \<Rightarrow> skill \<Rightarrow> string \<Rightarrow> string list \<Rightarrow> int" where
  "scoreSkill U s query tokens =
     (let combined = to_lower U (join '' '' [sk_name s, sk_description s, sk_when s, join '' '' (sk_tags s), sk_content s]);
          name = to_lower U (sk_name s)
      in (if query \<noteq> [] \<and> contains combined query then 5 else 0)
         + sum_list (map (\<lambda>t. if contains name t then 3 else if contains combined t then 1 else 0) tokens))"

definition skill_before :: "skill scored \<Rightarrow> skill scored \<Rightarrow> bool" where
  "skill_before l r =
     (if sk_always_on (sd_item l) \<noteq> sk_always_on (sd_item r) then sk_always_on (sd_item l)
      else if sd_score l \<noteq> sd_score r then sd_score r < sd_score l
      else if sd_index l \<noteq> sd_index r then sd_index l < sd_index r
      else str_less (sk_name (sd_item l)) (sk_name (sd_item r)))"

definition limitSkills :: "skill scored list \<Rightarrow> int \<Rightarrow> skill scored list" where
  "limitSkills items mx =
     (if mx \<le> 0 \<or> int (length items) \<le> mx then items
      else let always = filter (\<lambda>x. sk_always_on (sd_item x)) items; rest = filter (\<lambda>x. \<not> sk_always_on (sd_item x)) items
           in if mx \<le> int (length always) then always else always @ take (nat mx - length always) rest)"

definition skill_candidates :: "unicode \<Rightarrow> skill list \<Rightarrow> string \<Rightarrow> skill scored list" where
  "skill_candidates U ss query =
     (let q = to_lower U (trim_space query); tokens = skill_tokenize U q
      in score_items clone_skill (\<lambda>s. scoreSkill U s q tokens) (\<lambda>s sc. sk_always_on s \<or> 0 < sc \<or> q = []) ss)"

definition skill_Select :: "unicode \<Rightarrow> int \<Rightarrow> skill list \<Rightarrow> string \<Rightarrow> skill list" where
  "skill_Select U mx ss query =
     (if ss = [] then [] else map sd_item (limitSkills (stable_sort skill_before (skill_candidates U ss query)) mx))"

section \<open>Lemmas on sources\<close>

text \<open>The names of a merge: each once, none seen before.\<close>

lemma merge_skills_spec:
  "merge_skills seen ss = (seen', out) \<Longrightarrow>
     set seen' = set seen \<union> (set (map sk_name ss) - {[]}) \<and> distinct (filter (\<lambda>n. n \<noteq> []) (map sk_name out))
     \<and> set (map sk_name out) \<inter> set seen \<subseteq> {[]} \<and> set (map sk_name out) - {[]} \<subseteq> set seen'"
proof (induction ss arbitrary: seen seen' out)
  case (Cons s ss)
  show ?case
  proof (cases "sk_name s \<noteq> [] \<and> sk_name s \<in> set seen")
    case True
    then show ?thesis using Cons.IH [of seen seen' out] Cons.prems by auto
  next
    case False
    then obtain out0 where out: "merge_skills (if sk_name s = [] then seen else sk_name s # seen) ss = (seen', out0)" "out = s # out0"
      using Cons.prems by (auto split: prod.splits)
    from Cons.IH [OF out(1)] False show ?thesis by (auto simp: out(2) split: if_splits)
  qed
qed simp

lemma skill_sources_spec:
  "skill_sources_loop seen ss w c = (w', Inr out) \<Longrightarrow>
     distinct (filter (\<lambda>n. n \<noteq> []) (map sk_name out)) \<and> set (map sk_name out) \<inter> set seen \<subseteq> {[]}"
proof (induction seen ss w c arbitrary: w' out rule: skill_sources_loop.induct)
  case (3 seen f ss w c)
  then obtain w1 ms seen1 out1 out2 where a: "f w c = (w1, Inr ms)" "merge_skills seen ms = (seen1, out1)"
      "skill_sources_loop seen1 ss w1 c = (w', Inr out2)" "out = out1 @ out2"
    by (auto split: prod.splits sum.splits)
  have m: "set seen1 = set seen \<union> (set (map sk_name ms) - {[]})" "distinct (filter (\<lambda>n. n \<noteq> []) (map sk_name out1))"
      "set (map sk_name out1) \<inter> set seen \<subseteq> {[]}" "set (map sk_name out1) - {[]} \<subseteq> set seen1"
    using merge_skills_spec [OF a(2)] by auto
  have r: "distinct (filter (\<lambda>n. n \<noteq> []) (map sk_name out2))" "set (map sk_name out2) \<inter> set seen1 \<subseteq> {[]}"
    using 3(1) [OF a(1)[symmetric] refl a(2)[symmetric] a(3)] by auto
  have apart: "n \<notin> set (map sk_name out2)" if "n \<in> set (map sk_name out1)" "n \<noteq> []" for n
    using that m(4) r(2) by blast
  have "distinct (filter (\<lambda>n. n \<noteq> []) (map sk_name out))" using m(2) r(1) apart by (auto simp: a(4))
  moreover have "set (map sk_name out) \<inter> set seen \<subseteq> {[]}" using m(1,3) r(2) by (auto simp: a(4))
  ultimately show ?case ..
qed simp_all

text \<open>Merged sources never offer two skills of the same name.\<close>

theorem merged_names_distinct:
  "MultiSource_Skills ss w c = (w', Inr out) \<Longrightarrow> distinct (filter (\<lambda>n. n \<noteq> []) (map sk_name out))"
  using skill_sources_spec by (fastforce simp: MultiSource_Skills_def)

text \<open>
  A policy source returns only what its policy let through, each skill as it was or as the policy rewrote it, in order; with
  \<open>DenyAsError\<close> nothing was denied.
\<close>

fun policy_run :: "('w, 'c) skill_policy \<Rightarrow> skill list \<Rightarrow> 'w \<Rightarrow> 'c \<Rightarrow> (skill \<times> skill_decision) list" where
  "policy_run check [] w c = []"
| "policy_run check (s # ss) w c = (case check w c s of (w1, d) \<Rightarrow> (s, d) # policy_run check ss w1 c)"

theorem policy_source_spec:
  "policy_loop U check deny_error ss w c = (w', Inr out) \<Longrightarrow>
     out = map (\<lambda>(s, d). case sp_rewrite d of None \<Rightarrow> s | Some s' \<Rightarrow> s') (filter (\<lambda>(s, d). sp_allow d) (policy_run check ss w c))
     \<and> (deny_error \<longrightarrow> list_all (\<lambda>(s, d). sp_allow d) (policy_run check ss w c))"
  by (induction ss arbitrary: w out) (auto split: prod.splits sum.splits if_splits)

section \<open>Lemmas on selection\<close>

lemma skill_before_strict: "strict_weak skill_before"
proof -
  have base: "strict_weak (\<lambda>l r. str_less (sk_name (sd_item l)) (sk_name (sd_item (r :: skill scored))))"
    by (rule strict_weak_on [OF str_less_strict_weak])
  let ?k = "\<lambda>x :: skill scored. int (sd_index x)" and ?s = "\<lambda>x :: skill scored. - sd_score x"
    and ?a = "\<lambda>x :: skill scored. if sk_always_on (sd_item x) then 0 else (1::int)"
  note order = strict_weak_lex [OF strict_weak_lex [OF strict_weak_lex [OF base, of ?k], of ?s], of ?a]
  have "skill_before = (\<lambda>a b. if ?a a \<noteq> ?a b then ?a a < ?a b else if ?s a \<noteq> ?s b then ?s a < ?s b
      else if ?k a \<noteq> ?k b then ?k a < ?k b else str_less (sk_name (sd_item a)) (sk_name (sd_item b)))"
    by (intro ext) (simp add: skill_before_def)
  with order show ?thesis by simp
qed

interpretation skill_rank: keeping_rank skill_before "\<lambda>x. sk_always_on (sd_item x)"
  by unfold_locales (auto simp: skill_before_strict skill_before_def)

lemma limitSkills_keeps: "limitSkills = limit_keeping (\<lambda>x. sk_always_on (sd_item x))"
  by (intro ext) (simp add: limitSkills_def limit_keeping_def)

text \<open>
  The selector returns relevant skills in rank order; no skill left out is ranked before one that is kept, none left out is
  always on, and a positive limit is exceeded only by always-on skills.
\<close>

theorem skill_selection_best:
  "\<exists>kept. skill_Select U mx ss query = map sd_item kept
     \<and> best_kept skill_before (\<lambda>x. sk_always_on (sd_item x)) mx (skill_candidates U ss query) kept"
proof (intro exI conjI)
  let ?c = "skill_candidates U ss query"
  show "best_kept skill_before (\<lambda>x. sk_always_on (sd_item x)) mx ?c (limitSkills (stable_sort skill_before ?c) mx)"
    unfolding limitSkills_keeps by (rule skill_rank.limit_keeping_best)
  show "skill_Select U mx ss query = map sd_item (limitSkills (stable_sort skill_before ?c) mx)"
    by (simp add: skill_Select_def skill_candidates_def score_items_def limitSkills_def Let_def)
qed

lemma relevant_scored:
  "k < length vs \<Longrightarrow> relevant (vs ! k) (score (vs ! k)) \<Longrightarrow> \<exists>x \<in> set (score_items cl score relevant vs). sd_item x = cl (vs ! k)"
  by (rule bexI [of _ "\<lparr>sd_item = cl (vs ! k), sd_index = k, sd_score = score (vs ! k)\<rparr>"]) (auto simp: set_score_items)

text \<open>An always-on skill is selected whatever the query and the limit.\<close>

theorem always_on_selected:
  assumes "s \<in> set ss" and "sk_always_on s"
  shows "s \<in> set (skill_Select U mx ss query)"
proof -
  let ?c = "skill_candidates U ss query"
  obtain kept omitted where k: "skill_Select U mx ss query = map sd_item kept" "mset kept + mset omitted = mset ?c"
      "list_all (\<lambda>x. \<not> sk_always_on (sd_item x)) omitted"
    using skill_selection_best [of U mx ss query] by (auto simp: best_kept_def list_all_iff)
  obtain i where i: "i < length ss" "s = ss ! i" using assms(1) by (auto simp: in_set_conv_nth)
  have "\<exists>x \<in> set ?c. sd_item x = clone_skill (ss ! i)"
    unfolding skill_candidates_def Let_def by (rule relevant_scored) (use i assms(2) in auto)
  then obtain x where x: "x \<in> set ?c" "sd_item x = s" using i(2) by auto
  have "set kept \<union> set omitted = set ?c" using arg_cong [OF k(2), of set_mset] by simp
  then have "x \<in> set kept" using k(3) assms(2) x by (auto simp: list_all_iff)
  then show ?thesis using k(1) x(2) by auto
qed

end
