(* ===== verification/Skill_Cache.thy ===== *)
theory Skill_Cache
  imports Skills
begin

text \<open>
  The caching sources of \<open>skill/skill.go\<close> (\<open>CachedSource\<close>) and \<open>skill/prefetch.go\<close> (\<open>PrefetchSource\<close>), which share loads
  among concurrent callers. A call is a machine that moves from one region under the mutex to the next: it enters, waits for a
  load that another call makes, loads itself, stores what it loaded and returns. The source is the host's: a load may return
  anything at any time, and the context of a waiting call may end at any time.
\<close>

section \<open>State\<close>

text \<open>
  The fields under the mutex. The channels that waiting calls receive from are numbered as they are made; the one of the
  running load is \<open>fl_ready\<close>, and all others are closed. A nil slice of skills is \<open>None\<close>.
\<close>

record flight =
  fl_skills :: "skill list option"
  fl_expires :: gotime
  fl_busy :: bool
  fl_ready :: nat
  fl_err :: "err option"

definition new_flight :: flight where
  "new_flight = \<lparr>fl_skills = None, fl_expires = 0, fl_busy = False, fl_ready = 0, fl_err = None\<rparr>"

definition chan_closed :: "nat \<Rightarrow> flight \<Rightarrow> bool" where
  "chan_closed k fl \<longleftrightarrow> \<not> (fl_busy fl \<and> fl_ready fl = k)"

definition begin_load :: "flight \<Rightarrow> flight" where
  "begin_load fl = fl\<lparr>fl_busy := True, fl_ready := Suc (fl_ready fl)\<rparr>"

text \<open>What a call finds when it takes the mutex first.\<close>

datatype entry = Serve "skill list" | ServeAndRefresh "skill list" | WaitFor nat | StartLoad | Refuse err

datatype load_op = SkillsOp | RefreshOp | BackgroundOp

datatype call_at = Entering | Waiting nat | Loading | Loaded "err + skill list" | Stored | Returned "err + skill list"

record load_call =
  lc_op :: load_op
  lc_at :: call_at

section \<open>The cached source\<close>

definition cacheValidLocked :: "duration \<Rightarrow> gotime \<Rightarrow> flight \<Rightarrow> bool" where
  "cacheValidLocked ttl now fl \<longleftrightarrow> fl_skills fl \<noteq> None \<and> (ttl \<le> 0 \<or> now < fl_expires fl)"

text \<open>\<open>src\<close> tells whether there is a source.\<close>

definition cached_enter :: "bool \<Rightarrow> duration \<Rightarrow> gotime \<Rightarrow> load_op \<Rightarrow> flight \<Rightarrow> entry" where
  "cached_enter src ttl now op fl =
     (if \<not> src then Refuse (EText ''skill: cached source requires Source'')
      else if cacheValidLocked ttl now fl then Serve (cloneSkills (the (fl_skills fl)))
      else if fl_busy fl then WaitFor (fl_ready fl)
      else StartLoad)"

text \<open>A load that succeeded replaces the skills; any load frees the flight and closes its channel.\<close>

definition store_load :: "duration \<Rightarrow> gotime \<Rightarrow> err + skill list \<Rightarrow> flight \<Rightarrow> flight" where
  "store_load ttl now r fl =
     (case r of
        Inl e \<Rightarrow> fl
      | Inr ss \<Rightarrow> fl\<lparr>fl_skills := Some (cloneSkills ss), fl_expires := (if 0 < ttl then now + ttl else 0)\<rparr>)\<lparr>fl_busy := False\<rparr>"

definition cached_finish :: "duration \<Rightarrow> load_op \<Rightarrow> gotime \<Rightarrow> err + skill list \<Rightarrow> flight \<Rightarrow> flight \<times> call_at" where
  "cached_finish ttl op now r fl =
     (let fl' = store_load ttl now r fl
      in (fl', Returned (case r of Inl e \<Rightarrow> Inl e | Inr ss \<Rightarrow> Inr (cloneSkills (the (fl_skills fl'))))))"

section \<open>The prefetching source\<close>

definition expiredLocked :: "duration \<Rightarrow> gotime \<Rightarrow> flight \<Rightarrow> bool" where
  "expiredLocked ttl now fl \<longleftrightarrow> 0 < ttl \<and> \<not> now < fl_expires fl"

definition prefetch_enter :: "bool \<Rightarrow> duration \<Rightarrow> gotime \<Rightarrow> load_op \<Rightarrow> flight \<Rightarrow> entry" where
  "prefetch_enter src ttl now op fl =
     (if \<not> src then Refuse (EText ''skill: prefetch source requires Source'')
      else case (op, fl_skills fl) of
             (SkillsOp, Some ss) \<Rightarrow>
               if expiredLocked ttl now fl \<and> \<not> fl_busy fl then ServeAndRefresh (cloneSkills ss) else Serve (cloneSkills ss)
           | _ \<Rightarrow> if fl_busy fl then WaitFor (fl_ready fl) else StartLoad)"

definition finishRefresh :: "duration \<Rightarrow> gotime \<Rightarrow> err + skill list \<Rightarrow> flight \<Rightarrow> flight" where
  "finishRefresh ttl now r fl = (store_load ttl now r fl)\<lparr>fl_err := (case r of Inl e \<Rightarrow> Some e | Inr ss \<Rightarrow> None)\<rparr>"

text \<open>
  A foreground load reads the skills again in a region of its own; a background refresh has nobody to return to.
\<close>

definition prefetch_finish :: "duration \<Rightarrow> load_op \<Rightarrow> gotime \<Rightarrow> err + skill list \<Rightarrow> flight \<Rightarrow> flight \<times> call_at" where
  "prefetch_finish ttl op now r fl =
     (finishRefresh ttl now r fl,
      if op = BackgroundOp then Returned r else case r of Inl e \<Rightarrow> Returned (Inl e) | Inr ss \<Rightarrow> Stored)"

definition LastError :: "flight option \<Rightarrow> err option" where
  "LastError s = (case s of None \<Rightarrow> None | Some fl \<Rightarrow> fl_err fl)"

section \<open>Calls that interleave\<close>

text \<open>\<open>ys_loads\<close> records the loads that were stored, with their times.\<close>

record load_sys =
  ys_flight :: flight
  ys_calls :: "load_call list"
  ys_now :: gotime
  ys_loads :: "(gotime \<times> skill list) list"

definition move_call :: "nat \<Rightarrow> call_at \<Rightarrow> load_sys \<Rightarrow> load_sys" where
  "move_call i a s = s\<lparr>ys_calls := (ys_calls s)[i := (ys_calls s ! i)\<lparr>lc_at := a\<rparr>]\<rparr>"

fun entered :: "nat \<Rightarrow> entry \<Rightarrow> load_sys \<Rightarrow> load_sys" where
  "entered i (Serve ss) s = move_call i (Returned (Inr ss)) s"
| "entered i (ServeAndRefresh ss) s =
     (let s1 = move_call i (Returned (Inr ss)) s
      in s1\<lparr>ys_flight := begin_load (ys_flight s1), ys_calls := ys_calls s1 @ [\<lparr>lc_op = BackgroundOp, lc_at = Loading\<rparr>]\<rparr>)"
| "entered i (WaitFor k) s = move_call i (Waiting k) s"
| "entered i StartLoad s = (move_call i Loading s)\<lparr>ys_flight := begin_load (ys_flight s)\<rparr>"
| "entered i (Refuse e) s = move_call i (Returned (Inl e)) s"

type_synonym enter_fun = "gotime \<Rightarrow> load_op \<Rightarrow> flight \<Rightarrow> entry"
type_synonym finish_fun = "load_op \<Rightarrow> gotime \<Rightarrow> err + skill list \<Rightarrow> flight \<Rightarrow> flight \<times> call_at"

definition at_call :: "nat \<Rightarrow> call_at \<Rightarrow> load_sys \<Rightarrow> bool" where
  "at_call i a s \<longleftrightarrow> i < length (ys_calls s) \<and> lc_at (ys_calls s ! i) = a"

inductive load_step :: "enter_fun \<Rightarrow> finish_fun \<Rightarrow> load_sys \<Rightarrow> load_sys \<Rightarrow> bool" for enter finish where
  call: "op \<noteq> BackgroundOp \<Longrightarrow> load_step enter finish s (s\<lparr>ys_calls := ys_calls s @ [\<lparr>lc_op = op, lc_at = Entering\<rparr>]\<rparr>)"
| enter: "at_call i Entering s \<Longrightarrow> load_step enter finish s (entered i (enter (ys_now s) (lc_op (ys_calls s ! i)) (ys_flight s)) s)"
| wake: "at_call i (Waiting k) s \<Longrightarrow> chan_closed k (ys_flight s) \<Longrightarrow> load_step enter finish s (move_call i Entering s)"
| cancel: "at_call i (Waiting k) s \<Longrightarrow> load_step enter finish s (move_call i (Returned (Inl e)) s)"
| load: "at_call i Loading s \<Longrightarrow> load_step enter finish s (move_call i (Loaded r) s)"
| finish: "at_call i (Loaded r) s \<Longrightarrow> finish (lc_op (ys_calls s ! i)) (ys_now s) r (ys_flight s) = (fl, a) \<Longrightarrow>
    load_step enter finish s ((move_call i a s)\<lparr>ys_flight := fl,
      ys_loads := ys_loads s @ (case r of Inl e \<Rightarrow> [] | Inr ss \<Rightarrow> [(ys_now s, ss)])\<rparr>)"
| read: "at_call i Stored s \<Longrightarrow>
    load_step enter finish s (move_call i (Returned (Inr (case fl_skills (ys_flight s) of None \<Rightarrow> [] | Some ss \<Rightarrow> cloneSkills ss))) s)"
| tick: "ys_now s \<le> t \<Longrightarrow> load_step enter finish s (s\<lparr>ys_now := t\<rparr>)"

definition idle_sys :: "gotime \<Rightarrow> load_sys" where
  "idle_sys t = \<lparr>ys_flight = new_flight, ys_calls = [], ys_now = t, ys_loads = []\<rparr>"

section \<open>One load at a time\<close>

fun in_flight :: "load_call \<Rightarrow> bool" where
  "in_flight c = (case lc_at c of Loading \<Rightarrow> True | Loaded r \<Rightarrow> True | _ \<Rightarrow> False)"

definition flights :: "load_sys \<Rightarrow> nat" where
  "flights s = length (filter in_flight (ys_calls s))"

text \<open>What a call may hold: lists that a stored load has returned.\<close>

definition call_ok :: "(gotime \<times> skill list) list \<Rightarrow> load_call \<Rightarrow> bool" where
  "call_ok loads c \<longleftrightarrow>
     (case lc_at c of Returned (Inr ss) \<Rightarrow> ss \<in> snd ` set loads | Stored \<Rightarrow> loads \<noteq> [] | _ \<Rightarrow> True)"

definition flight_inv :: "duration \<Rightarrow> load_sys \<Rightarrow> bool" where
  "flight_inv ttl s \<longleftrightarrow> flights s = (if fl_busy (ys_flight s) then 1 else 0)
     \<and> fl_skills (ys_flight s) = (if ys_loads s = [] then None else Some (snd (last (ys_loads s))))
     \<and> (ys_loads s \<noteq> [] \<longrightarrow> fl_expires (ys_flight s) = (if 0 < ttl then fst (last (ys_loads s)) + ttl else 0))
     \<and> list_all (call_ok (ys_loads s)) (ys_calls s)"

lemma flights_move:
  assumes "at_call i a s"
  shows "flights (move_call i b s) + (if in_flight \<lparr>lc_op = op, lc_at = a\<rparr> then 1 else 0)
    = flights s + (if in_flight \<lparr>lc_op = op, lc_at = b\<rparr> then 1 else 0)"
proof -
  have i: "i < length (ys_calls s)" "lc_at (ys_calls s ! i) = a" using assms by (auto simp: at_call_def)
  let ?l = "take i (ys_calls s)" and ?r = "drop (Suc i) (ys_calls s)" and ?c = "ys_calls s ! i"
  have s: "ys_calls s = ?l @ ?c # ?r" using i(1) by (rule id_take_nth_drop)
  have "flights s = length (filter in_flight ?l) + (if in_flight ?c then 1 else 0) + length (filter in_flight ?r)"
    unfolding flights_def by (subst s) simp
  moreover have "flights (move_call i b s) = length (filter in_flight ?l) + (if in_flight (?c\<lparr>lc_at := b\<rparr>) then 1 else 0) + length (filter in_flight ?r)"
    using i(1) by (simp add: flights_def move_call_def upd_conv_take_nth_drop)
  ultimately show ?thesis using i(2) by simp
qed

lemma calls_move:
  assumes "list_all (call_ok loads) (ys_calls s)" and "call_ok loads \<lparr>lc_op = op, lc_at = a\<rparr>"
  shows "list_all (call_ok loads) (ys_calls (move_call i a s))"
proof -
  have "call_ok loads (c\<lparr>lc_at := a\<rparr>)" for c using assms(2) by (simp add: call_ok_def)
  then show ?thesis using assms(1) set_update_subset_insert [of "ys_calls s" i] by (auto simp: list_all_iff move_call_def)
qed

lemma move_call_frame [simp]:
  "ys_flight (move_call i a s) = ys_flight s" "ys_now (move_call i a s) = ys_now s" "ys_loads (move_call i a s) = ys_loads s"
  by (simp_all add: move_call_def)

lemma call_ok_grow: "call_ok loads c \<Longrightarrow> call_ok (loads @ ls) c"
  by (auto simp: call_ok_def split: call_at.splits sum.splits)

text \<open>
  The contract between a caching source and its callers: a load starts only when none runs, a call waits only for the load that
  runs, what is served is what is stored, and a finished load stores its result or leaves the skills alone.
\<close>

locale single_flight =
  fixes ttl :: duration and enter :: enter_fun and finish :: finish_fun
  assumes start_free: "enter now op fl = StartLoad \<Longrightarrow> \<not> fl_busy fl"
    and refresh_free: "enter now op fl = ServeAndRefresh ss \<Longrightarrow> \<not> fl_busy fl \<and> fl_skills fl = Some ss"
    and serve_stored: "enter now op fl = Serve ss \<Longrightarrow> fl_skills fl = Some ss"
    and finish_stores: "finish op now r fl = (fl', a) \<Longrightarrow>
      \<not> fl_busy fl' \<and> fl_skills fl' = (case r of Inl e \<Rightarrow> fl_skills fl | Inr ss \<Rightarrow> Some ss)
      \<and> fl_expires fl' = (case r of Inl e \<Rightarrow> fl_expires fl | Inr ss \<Rightarrow> if 0 < ttl then now + ttl else 0)
      \<and> (a = Stored \<and> isl r = False \<or> a = Returned r)"
begin

lemma entered_inv:
  assumes inv: "flight_inv ttl s" and i: "at_call i Entering s"
  shows "flight_inv ttl (entered i (enter (ys_now s) op (ys_flight s)) s)"
proof -
  have served: "ss \<in> snd ` set (ys_loads s)" if "fl_skills (ys_flight s) = Some ss" for ss
    using inv that last_in_set [of "ys_loads s"] by (auto simp: flight_inv_def split: if_splits)
  note move = flights_move [OF i, of _ SkillsOp] and calls = calls_move [of "ys_loads s" s SkillsOp]
  show ?thesis
  proof (cases "enter (ys_now s) op (ys_flight s)")
    case (Serve ss)
    then show ?thesis using inv move [of "Returned (Inr ss)"] calls [of "Returned (Inr ss)" i] served [OF serve_stored [OF Serve]]
      by (simp add: flight_inv_def call_ok_def)
  next
    case (ServeAndRefresh ss)
    note r = refresh_free [OF ServeAndRefresh]
    have "list_all (call_ok (ys_loads s)) (ys_calls (move_call i (Returned (Inr ss)) s))"
      using inv calls [of "Returned (Inr ss)" i] served r by (simp add: flight_inv_def call_ok_def)
    moreover have "flights (move_call i (Returned (Inr ss)) s) = 0" using inv move [of "Returned (Inr ss)"] r by (simp add: flight_inv_def)
    ultimately show ?thesis using inv ServeAndRefresh by (simp add: flight_inv_def call_ok_def flights_def begin_load_def Let_def)
  next
    case (WaitFor k)
    then show ?thesis using inv move [of "Waiting k"] calls [of "Waiting k" i] by (simp add: flight_inv_def call_ok_def)
  next
    case StartLoad
    then show ?thesis using inv move [of Loading] calls [of Loading i] start_free [OF StartLoad]
      by (simp add: flight_inv_def call_ok_def flights_def begin_load_def)
  next
    case (Refuse e)
    then show ?thesis using inv move [of "Returned (Inl e)"] calls [of "Returned (Inl e)" i] by (simp add: flight_inv_def call_ok_def)
  qed
qed

lemma step_inv: "load_step enter finish s s' \<Longrightarrow> flight_inv ttl s \<Longrightarrow> flight_inv ttl s'"
proof (induction rule: load_step.induct)
  case (call op s)
  then show ?case by (simp add: flight_inv_def flights_def call_ok_def)
next
  case (enter i s)
  then show ?case by (simp add: entered_inv)
next
  case (wake i k s)
  then show ?case using flights_move [OF wake(1), of Entering SkillsOp] calls_move [of "ys_loads s" s SkillsOp Entering i]
    by (simp add: flight_inv_def call_ok_def)
next
  case (cancel i k s e)
  then show ?case using flights_move [OF cancel(1), of "Returned (Inl e)" SkillsOp] calls_move [of "ys_loads s" s SkillsOp "Returned (Inl e)" i]
    by (simp add: flight_inv_def call_ok_def)
next
  case (load i s r)
  then show ?case using flights_move [OF load(1), of "Loaded r" SkillsOp] calls_move [of "ys_loads s" s SkillsOp "Loaded r" i]
    by (simp add: flight_inv_def call_ok_def)
next
  case (finish i r s fl a)
  let ?loads = "ys_loads s @ (case r of Inl e \<Rightarrow> [] | Inr ss \<Rightarrow> [(ys_now s, ss)])"
  note f = finish_stores [OF finish(2)]
  have "list_all (call_ok ?loads) (ys_calls s)" using finish(3) call_ok_grow by (auto simp: flight_inv_def list_all_iff)
  moreover have "call_ok ?loads \<lparr>lc_op = SkillsOp, lc_at = a\<rparr>" using f by (auto simp: call_ok_def split: sum.splits)
  ultimately have "list_all (call_ok ?loads) (ys_calls (move_call i a s))" by (rule calls_move)
  moreover have "flights (move_call i a s) = 0"
    using flights_move [OF finish(1), of a SkillsOp] f finish(3) by (auto simp: flight_inv_def split: if_splits)
  ultimately show ?case using f finish(3) by (simp add: flight_inv_def flights_def split: sum.splits)
next
  case (read i s)
  let ?a = "Returned (Inr (case fl_skills (ys_flight s) of None \<Rightarrow> [] | Some ss \<Rightarrow> cloneSkills ss))"
  have "call_ok (ys_loads s) (ys_calls s ! i)" using read by (auto simp: flight_inv_def list_all_iff at_call_def)
  then have "ys_loads s \<noteq> []" using read(1) by (simp add: call_ok_def at_call_def)
  then have "call_ok (ys_loads s) \<lparr>lc_op = SkillsOp, lc_at = ?a\<rparr>" using read(2) by (simp add: call_ok_def flight_inv_def)
  then show ?case using read flights_move [OF read(1), of ?a SkillsOp] calls_move [of "ys_loads s" s SkillsOp ?a i]
    by (simp add: flight_inv_def)
next
  case (tick s t)
  then show ?case by (simp add: flight_inv_def flights_def)
qed

theorem runs_inv: "(load_step enter finish)\<^sup>*\<^sup>* (idle_sys t) s \<Longrightarrow> flight_inv ttl s"
proof (induction rule: rtranclp_induct)
  case base
  show ?case by (simp add: flight_inv_def flights_def idle_sys_def new_flight_def)
next
  case (step y z)
  then show ?case using step_inv by blast
qed

text \<open>A call that waits is woken by the load that runs.\<close>

lemma waits_for_load: "flight_inv ttl s \<Longrightarrow> chan_closed k (ys_flight s) \<or> flights s = 1"
  by (auto simp: flight_inv_def chan_closed_def)

lemma returned_was_loaded:
  "flight_inv ttl s \<Longrightarrow> c \<in> set (ys_calls s) \<Longrightarrow> lc_at c = Returned (Inr ss) \<Longrightarrow> ss \<in> snd ` set (ys_loads s)"
  by (auto simp: flight_inv_def list_all_iff call_ok_def)

lemma one_flight: "flight_inv ttl s \<Longrightarrow> flights s \<le> 1"
  by (simp add: flight_inv_def)

end

interpretation cached: single_flight ttl "cached_enter src ttl" "cached_finish ttl"
  by unfold_locales (auto simp: cached_enter_def cacheValidLocked_def cached_finish_def store_load_def Let_def split: if_splits sum.splits)

interpretation prefetched: single_flight ttl "prefetch_enter src ttl" "prefetch_finish ttl"
  by unfold_locales (auto simp: prefetch_enter_def prefetch_finish_def finishRefresh_def store_load_def
      split: if_splits sum.splits load_op.splits option.splits)

section \<open>What the sources promise\<close>

text \<open>A cache that never expires stops loading after its first success.\<close>

definition settled :: "load_sys \<Rightarrow> bool" where
  "settled s \<longleftrightarrow> length (ys_loads s) \<le> 1 \<and> (ys_loads s \<noteq> [] \<longrightarrow> \<not> fl_busy (ys_flight s))"

lemma entered_frame [simp]: "ys_loads (entered i e s) = ys_loads s"
  by (cases e) (simp_all add: Let_def)

lemma cached_settled:
  assumes "load_step (cached_enter src ttl) (cached_finish ttl) s s'" and "ttl \<le> 0" and "flight_inv ttl s" and "settled s"
  shows "settled s'"
  using assms(1)
proof cases
  case (enter i)
  let ?e = "cached_enter src ttl (ys_now s) (lc_op (ys_calls s ! i)) (ys_flight s)"
  have "\<not> fl_busy (ys_flight (entered i ?e s))" if "ys_loads s \<noteq> []"
  proof -
    have "cacheValidLocked ttl (ys_now s) (ys_flight s)" using assms(2,3) that by (simp add: cacheValidLocked_def flight_inv_def)
    then show ?thesis using assms(4) that by (simp add: cached_enter_def settled_def)
  qed
  then show ?thesis using enter assms(4) by (auto simp: settled_def)
next
  case (finish i r fl a)
  have "0 < flights s" using finish(2) by (auto simp: flights_def at_call_def filter_empty_conv intro!: bexI [OF _ nth_mem])
  then have "ys_loads s = []" using assms(3,4) by (auto simp: flight_inv_def settled_def split: if_splits)
  moreover have "\<not> fl_busy fl" using cached.finish_stores [OF finish(3)] by simp
  ultimately show ?thesis using finish(1) by (simp add: settled_def split: sum.splits)
qed (use assms(4) in \<open>auto simp: settled_def\<close>)

text \<open>
  C21. However calls of a cached skill source interleave, whatever the source returns and whenever contexts end: at most one load
  runs at a time; a call that waits is waiting for a load that runs, or can go on; every list that is returned is one that the
  source has returned from a load; what is served from the cache is the latest such list, and not older than the time to live;
  and without a time to live the source is loaded successfully at most once.
\<close>

theorem cached_source_single_flight:
  assumes "(load_step (cached_enter src ttl) (cached_finish ttl))\<^sup>*\<^sup>* (idle_sys t) s"
  shows "flights s \<le> 1
    \<and> (\<forall>c \<in> set (ys_calls s). \<forall>k. lc_at c = Waiting k \<longrightarrow> chan_closed k (ys_flight s) \<or> flights s = 1)
    \<and> (\<forall>c \<in> set (ys_calls s). \<forall>ss. lc_at c = Returned (Inr ss) \<longrightarrow> ss \<in> snd ` set (ys_loads s))
    \<and> (\<forall>op ss. cached_enter src ttl (ys_now s) op (ys_flight s) = Serve ss \<longrightarrow>
         ys_loads s \<noteq> [] \<and> snd (last (ys_loads s)) = ss \<and> (0 < ttl \<longrightarrow> ys_now s < fst (last (ys_loads s)) + ttl))
    \<and> (ttl \<le> 0 \<longrightarrow> length (ys_loads s) \<le> 1)"
proof -
  have inv: "flight_inv ttl s" by (rule cached.runs_inv [OF assms])
  have served: "ys_loads s \<noteq> [] \<and> snd (last (ys_loads s)) = ss \<and> (0 < ttl \<longrightarrow> ys_now s < fst (last (ys_loads s)) + ttl)"
    if "cached_enter src ttl (ys_now s) op (ys_flight s) = Serve ss" for op ss
    using inv that by (auto simp: cached_enter_def cacheValidLocked_def flight_inv_def split: if_splits)
  have "settled s" if "ttl \<le> 0" using assms
  proof (induction rule: rtranclp_induct)
    case base
    show ?case by (simp add: settled_def idle_sys_def)
  next
    case (step y z)
    then show ?case using cached_settled [OF step(2) that cached.runs_inv [OF step(1)]] by simp
  qed
  then show ?thesis using cached.one_flight [OF inv] cached.waits_for_load [OF inv] cached.returned_was_loaded [OF inv] served
    by (auto simp: settled_def)
qed

text \<open>A load that succeeds, from the call to the answer.\<close>

lemma demo_cached_run:
  "\<exists>s. (load_step (cached_enter True 0) (cached_finish 0))\<^sup>*\<^sup>* (idle_sys 7) s \<and> ys_loads s = [(7, [])] \<and> ys_now s = 7"
proof -
  let ?step = "load_step (cached_enter True 0) (cached_finish 0)"
  let ?s1 = "(idle_sys 7)\<lparr>ys_calls := [\<lparr>lc_op = SkillsOp, lc_at = Entering\<rparr>]\<rparr>"
  let ?s2 = "entered 0 (cached_enter True 0 7 SkillsOp new_flight) ?s1"
  let ?s3 = "move_call 0 (Loaded (Inr [])) ?s2"
  have 1: "?step (idle_sys 7) ?s1" using load_step.call [of SkillsOp _ _ "idle_sys 7"] by (simp add: idle_sys_def)
  have 2: "?step ?s1 ?s2" using load_step.enter [of 0 ?s1 "cached_enter True 0" "cached_finish 0"] by (simp add: at_call_def idle_sys_def)
  have at2: "at_call 0 Loading ?s2"
    by (simp add: at_call_def cached_enter_def cacheValidLocked_def new_flight_def move_call_def)
  then have 3: "?step ?s2 ?s3" by (rule load_step.load)
  have "at_call 0 (Loaded (Inr [])) ?s3" using at2 by (simp add: at_call_def move_call_def)
  from load_step.finish [OF this surjective_pairing] have "\<exists>s4. ?step ?s3 s4 \<and> ys_loads s4 = [(7, [])] \<and> ys_now s4 = 7"
    by (fastforce simp: cached_enter_def cacheValidLocked_def new_flight_def move_call_def idle_sys_def)
  then show ?thesis using 1 2 3 by (meson converse_rtranclp_into_rtranclp rtranclp.rtrancl_refl)
qed

theorem cached_source_single_flight_witness:
  "\<exists>s. ys_loads s = [(7, [])] \<and> flights s \<le> 1 \<and> {ss. \<exists>c \<in> set (ys_calls s). lc_at c = Returned (Inr ss)} \<subseteq> {[]}"
  using demo_cached_run cached_source_single_flight [of True 0 7] by fastforce

text \<open>
  Once a prefetching source has a snapshot, a call for the skills is answered at once with the latest one, and starts a refresh
  in the background only when the snapshot has expired and no load runs; loads are made one at a time, calls wait only for a
  load that runs, and return only lists that the source returned.
\<close>

theorem prefetch_source_serves:
  assumes "(load_step (prefetch_enter src ttl) (prefetch_finish ttl))\<^sup>*\<^sup>* (idle_sys t) s"
  shows "flights s \<le> 1
    \<and> (\<forall>c \<in> set (ys_calls s). \<forall>k. lc_at c = Waiting k \<longrightarrow> chan_closed k (ys_flight s) \<or> flights s = 1)
    \<and> (\<forall>c \<in> set (ys_calls s). \<forall>ss. lc_at c = Returned (Inr ss) \<longrightarrow> ss \<in> snd ` set (ys_loads s))
    \<and> (src \<longrightarrow> ys_loads s \<noteq> [] \<longrightarrow> prefetch_enter src ttl (ys_now s) SkillsOp (ys_flight s) =
         (if 0 < ttl \<and> fst (last (ys_loads s)) + ttl \<le> ys_now s \<and> flights s = 0
          then ServeAndRefresh (snd (last (ys_loads s))) else Serve (snd (last (ys_loads s)))))"
proof -
  have inv: "flight_inv ttl s" by (rule prefetched.runs_inv [OF assms])
  then have "prefetch_enter src ttl (ys_now s) SkillsOp (ys_flight s) =
       (if 0 < ttl \<and> fst (last (ys_loads s)) + ttl \<le> ys_now s \<and> flights s = 0
        then ServeAndRefresh (snd (last (ys_loads s))) else Serve (snd (last (ys_loads s))))" if "src" "ys_loads s \<noteq> []"
    using that by (auto simp: prefetch_enter_def expiredLocked_def flight_inv_def)
  then show ?thesis using prefetched.one_flight [OF inv] prefetched.waits_for_load [OF inv] prefetched.returned_was_loaded [OF inv]
    by auto
qed

end
