(* ===== verification/Skill_Files.thy ===== *)
theory Skill_Files
  imports Skills Line_Scanner Go_Text
begin

text \<open>
  \<open>skill/loader.go\<close>: skills from \<open>SKILL.md\<close> files with a front matter of keys and values. Directories are lists of what the
  host reads in them; contexts may end between two entries.
\<close>

section \<open>Front matter\<close>

text \<open>\<open>TrimLeft\<close> by the byte order mark and white space of the cutset.\<close>

fun trim_front :: "string \<Rightarrow> string" where
  "trim_front (c # cs) =
     (if c \<in> {CHR 13, CHR 10, CHR 9, CHR '' ''} then trim_front cs
      else if c = CHR 0xEF \<and> take 2 cs = [CHR 0xBB, CHR 0xBF] then trim_front (drop 2 cs)
      else c # cs)"
| "trim_front [] = []"

definition is_quote :: "char \<Rightarrow> bool" where
  "is_quote c \<longleftrightarrow> c = CHR 0x22 \<or> c = CHR 0x27"

definition trimScalar :: "string \<Rightarrow> string" where
  "trimScalar v = rev (dropWhile is_quote (rev (dropWhile is_quote (trim_space v))))"

definition splitList :: "string \<Rightarrow> string list" where
  "splitList v0 =
     (let v = trim_space v0
      in if v = [] then []
         else let v1 = trim_prefix v ''[''; v2 = (if v1 \<noteq> [] \<and> last v1 = CHR '']'' then butlast v1 else v1)
              in filter (\<lambda>p. p \<noteq> []) (map trimScalar (split_on (CHR '','') v2)))"

definition fence :: string where "fence = ''---''"

text \<open>The default buffer of \<open>bufio.Scanner\<close>.\<close>

definition maxToken :: nat where "maxToken = 64 * 1024"

text \<open>A line of the front matter: a key and a value around the first colon; other lines are skipped.\<close>

definition meta_line :: "unicode \<Rightarrow> string \<Rightarrow> (string, string) gomap \<Rightarrow> (string, string) gomap" where
  "meta_line U l m =
     (if CHR '':'' \<in> set l
      then let k = takeWhile (\<lambda>c. c \<noteq> CHR '':'') l
           in AList.update (to_lower U (trim_space k)) (trimScalar (drop (Suc (length k)) l)) m
      else m)"

text \<open>The front matter up to its closing fence, and the lines after it.\<close>

fun meta_loop :: "unicode \<Rightarrow> string list \<Rightarrow> (string, string) gomap \<Rightarrow> ((string, string) gomap \<times> string list) option" where
  "meta_loop U [] m = None"
| "meta_loop U (l # ls) m = (if trim_space l = fence then Some (m, ls) else meta_loop U ls (meta_line U l m))"

definition unlines :: "string list \<Rightarrow> string" where
  "unlines ls = concat (map (\<lambda>l. l @ [CHR 10]) ls)"

text \<open>The scanner's error is not asked for: a line that is too long ends the file.\<close>

definition parseFrontmatter :: "unicode \<Rightarrow> string \<Rightarrow> (string, string) gomap \<times> string" where
  "parseFrontmatter U data =
     (let trimmed = trim_front data
      in if \<not> has_prefix trimmed fence then ([], data)
         else case fst (scan_fitting maxToken trimmed) of
                [] \<Rightarrow> ([], data)
              | l # ls \<Rightarrow>
                  if trim_space l \<noteq> fence then ([], data)
                  else (case meta_loop U ls [] of None \<Rightarrow> ([], data) | Some (m, rest) \<Rightarrow> (m, unlines rest)))"

section \<open>Skill files\<close>

definition ParseBool :: "string \<Rightarrow> bool option" where
  "ParseBool s =
     (if s \<in> {''1'', ''t'', ''T'', ''TRUE'', ''true'', ''True''} then Some True
      else if s \<in> {''0'', ''f'', ''F'', ''FALSE'', ''false'', ''False''} then Some False
      else None)"

definition meta_get :: "(string, string) gomap \<Rightarrow> string \<Rightarrow> string" where
  "meta_get m k = (case map_of m k of None \<Rightarrow> [] | Some v \<Rightarrow> v)"

definition parseSkillFile :: "unicode \<Rightarrow> string \<Rightarrow> string \<Rightarrow> string \<Rightarrow> string \<Rightarrow> err + skill" where
  "parseSkillFile U default_name path source data =
     (case parseFrontmatter U data of
        (m, body) \<Rightarrow>
          (let out = \<lparr>sk_name = firstNonEmpty [meta_get m ''name'', default_name], sk_description = meta_get m ''description'',
                 sk_when = firstNonEmpty [meta_get m ''when_to_use'', meta_get m ''when''], sk_content = trim_space body,
                 sk_source = source, sk_path = path, sk_resources = [], sk_always_on = False, sk_tags = splitList (meta_get m ''tags''),
                 sk_hints = splitList (firstNonEmpty [meta_get m ''policy_hints'', meta_get m ''policy''])\<rparr>;
               value = meta_get m ''always_on''
           in if value = [] then Inr out
              else case ParseBool value of
                     None \<Rightarrow> Inl (EWrap (''skill '' @ quote U (sk_name out) @ '' always_on: '')
                                (EText (''strconv.ParseBool: parsing '' @ quote U value @ '': invalid syntax'')))
                   | Some b \<Rightarrow> Inr (out\<lparr>sk_always_on := b\<rparr>)))"

section \<open>Directories\<close>

datatype file_read = NoFile | ReadFails err | FileData string

record dir_entry =
  de_name :: string
  de_is_dir :: bool
  de_file :: file_read

definition skill_path :: "string \<Rightarrow> string \<Rightarrow> string" where
  "skill_path dir name = path_Clean (join ''/'' (filter (\<lambda>e. e \<noteq> []) [dir, name, ''SKILL.md'']))"

text \<open>\<open>ctx k\<close> is the context's error at the \<open>k\<close>th entry.\<close>

fun load_entries :: "unicode \<Rightarrow> string \<Rightarrow> string \<Rightarrow> (nat \<Rightarrow> err option) \<Rightarrow> dir_entry list \<Rightarrow> err + skill list" where
  "load_entries U source dir ctx [] = Inr []"
| "load_entries U source dir ctx (e # es) =
     (case ctx 0 of
        Some x \<Rightarrow> Inl x
      | None \<Rightarrow>
          if \<not> de_is_dir e then load_entries U source dir (\<lambda>k. ctx (Suc k)) es
          else (case de_file e of
                  NoFile \<Rightarrow> load_entries U source dir (\<lambda>k. ctx (Suc k)) es
                | ReadFails x \<Rightarrow> Inl x
                | FileData d \<Rightarrow>
                    (case parseSkillFile U (de_name e) (skill_path dir (de_name e)) source d of
                       Inl x \<Rightarrow> Inl x
                     | Inr s \<Rightarrow> map_sum id (Cons s) (load_entries U source dir (\<lambda>k. ctx (Suc k)) es))))"

definition LoadDir :: "unicode \<Rightarrow> (string \<Rightarrow> err + dir_entry list) \<Rightarrow> (nat \<Rightarrow> err option) \<Rightarrow> string \<Rightarrow> err + skill list" where
  "LoadDir U read_dir ctx dir = (case read_dir dir of Inl e \<Rightarrow> Inl e | Inr es \<Rightarrow> load_entries U ''local'' dir ctx es)"

definition LoadFS :: "unicode \<Rightarrow> (string \<Rightarrow> err + dir_entry list) option \<Rightarrow> (nat \<Rightarrow> err option) \<Rightarrow> string \<Rightarrow> err + skill list" where
  "LoadFS U fsys ctx root0 =
     (case fsys of
        None \<Rightarrow> Inl (EText ''skill: nil fs'')
      | Some read_dir \<Rightarrow>
          (let dir = (if root0 = [] then ''.'' else root0)
           in case read_dir dir of Inl e \<Rightarrow> Inl e | Inr es \<Rightarrow> load_entries U ''fs'' dir ctx es))"

section \<open>Reading back what was written\<close>

definition meta_text :: "string \<times> string \<Rightarrow> string" where
  "meta_text kv = fst kv @ '': '' @ snd kv"

definition skill_lines :: "(string \<times> string) list \<Rightarrow> string list \<Rightarrow> string list" where
  "skill_lines kvs body = fence # map meta_text kvs @ fence # body"

definition line_ok :: "string \<Rightarrow> bool" where
  "line_ok l \<longleftrightarrow> CHR 10 \<notin> set l \<and> CHR 13 \<notin> set l \<and> length l < maxToken"

text \<open>Keys are lower case and trimmed, values trimmed and without quotes around them.\<close>

definition pair_ok :: "unicode \<Rightarrow> string \<times> string \<Rightarrow> bool" where
  "pair_ok U kv \<longleftrightarrow> line_ok (meta_text kv) \<and> trim_space (meta_text kv) \<noteq> fence \<and> CHR '':'' \<notin> set (fst kv)
     \<and> to_lower U (trim_space (fst kv)) = fst kv \<and> trimScalar (CHR '' '' # snd kv) = snd kv"

lemma trim_fence [simp]: "trim_space fence = fence"
  by code_simp

lemma line_ok_fence [simp]: "line_ok fence"
  by (simp add: line_ok_def fence_def maxToken_def)

lemma meta_line_pair: "pair_ok U kv \<Longrightarrow> meta_line U (meta_text kv) m = AList.update (fst kv) (snd kv) m"
proof (cases kv)
  case (Pair k v)
  assume "pair_ok U kv"
  then have k: "CHR '':'' \<notin> set k" "to_lower U (trim_space k) = k" "trimScalar (CHR '' '' # v) = v" by (auto simp: pair_ok_def Pair)
  have "takeWhile (\<lambda>c. c \<noteq> CHR '':'') k = k" using k(1) by (auto simp: takeWhile_eq_all_conv)
  then have "takeWhile (\<lambda>c. c \<noteq> CHR '':'') (k @ CHR '':'' # CHR '' '' # v) = k" by (simp add: takeWhile_append)
  then show ?thesis using k(2,3) by (simp add: meta_line_def meta_text_def Pair Let_def)
qed

lemma meta_loop_pairs:
  "list_all (pair_ok U) kvs \<Longrightarrow>
     meta_loop U (map meta_text kvs @ fence # body) m = Some (foldl (\<lambda>m kv. AList.update (fst kv) (snd kv) m) m kvs, body)"
  by (induction kvs arbitrary: m) (auto simp: meta_line_pair, auto simp: pair_ok_def)

text \<open>What the parser makes of a file, by the lines the scanner delivers.\<close>

lemma parse_scanned:
  assumes "fst (scan_fitting maxToken (fence @ CHR 10 # r)) = fence # map meta_text kvs @ fence # body" and "list_all (pair_ok U) kvs"
  shows "parseFrontmatter U (fence @ CHR 10 # r) = (foldl (\<lambda>m kv. AList.update (fst kv) (snd kv) m) [] kvs, unlines body)"
proof -
  have "trim_front (fence @ CHR 10 # r) = fence @ CHR 10 # r" "has_prefix (fence @ CHR 10 # r) fence"
    by (simp_all add: fence_def has_prefix_def)
  then show ?thesis using assms by (simp add: parseFrontmatter_def meta_loop_pairs)
qed

lemma unlines_skill: "unlines (skill_lines kvs body) = fence @ CHR 10 # unlines (map meta_text kvs @ fence # body)"
  by (simp add: unlines_def skill_lines_def)

text \<open>
  A skill file written as front matter and body is read back: the front matter gives exactly the keys and values, the last value
  of a repeated key, and the body comes back line by line.
\<close>

theorem frontmatter_roundtrip:
  assumes "list_all (pair_ok U) kvs" and "list_all line_ok body"
  shows "parseFrontmatter U (unlines (skill_lines kvs body)) = (foldl (\<lambda>m kv. AList.update (fst kv) (snd kv) m) [] kvs, unlines body)"
proof -
  have "list_all (\<lambda>l. CHR 10 \<notin> set l \<and> CHR 13 \<notin> set l \<and> length l < maxToken) (skill_lines kvs body)"
    using assms line_ok_fence unfolding skill_lines_def by (auto simp: list_all_iff pair_ok_def line_ok_def)
  from scan_fitting_concat [OF this] have "fst (scan_fitting maxToken (unlines (skill_lines kvs body))) = skill_lines kvs body"
    by (simp add: unlines_def)
  then show ?thesis using parse_scanned [OF _ assms(1)] unfolding unlines_skill by (simp add: skill_lines_def)
qed

text \<open>
  A line of 64 KiB or more ends the scan, and the parser does not ask why: the rest of the skill is dropped without an error.
\<close>

theorem long_line_truncates_skill:
  assumes "list_all (pair_ok U) kvs" and "list_all line_ok body" and "CHR 10 \<notin> set l" and "maxToken \<le> length l"
  shows "parseFrontmatter U (unlines (skill_lines kvs body @ l # rest))
    = (foldl (\<lambda>m kv. AList.update (fst kv) (snd kv) m) [] kvs, unlines body)"
proof -
  let ?ok = "skill_lines kvs body"
  have ok: "list_all line_ok ?ok" using assms(1,2) by (auto simp: skill_lines_def list_all_iff pair_ok_def)
  have split: "unlines (?ok @ l # rest) = unlines ?ok @ l @ CHR 10 # unlines rest" by (simp add: unlines_def)
  have "scan_lines [] (unlines (?ok @ l # rest)) = ?ok @ l # scan_lines [] (unlines rest)"
    using scan_lines_concat [of ?ok "l @ CHR 10 # unlines rest"] scan_split [of "[]" l "unlines rest"] scan_one [OF assms(3), of "[]"] ok
    unfolding split by (auto simp: unlines_def list_all_iff line_ok_def)
  moreover have "takeWhile (\<lambda>l. length l < maxToken) (?ok @ l # ls) = ?ok" for ls
    using ok assms(4) by (auto simp: list_all_iff line_ok_def takeWhile_append)
  moreover have "map drop_CR ?ok = ?ok" using ok by (auto simp: list_all_iff line_ok_def intro!: map_idI)
  ultimately have "fst (scan_fitting maxToken (unlines (?ok @ l # rest))) = ?ok" by (simp add: scan_fitting_def Let_def)
  moreover have "unlines (?ok @ l # rest) = fence @ CHR 10 # unlines (map meta_text kvs @ fence # body @ l # rest)"
    by (simp add: unlines_def skill_lines_def)
  ultimately show ?thesis using parse_scanned [OF _ assms(1)] by (simp add: skill_lines_def)
qed

end
