(* ===== verification/Spec2Isabelle.thy ===== *)
theory Spec2Isabelle
  imports Run_Contract Workspace_Contract Policy_Contract Managed_Contract Notification_Mirror
    Managed_Quota Audit_Contract Memory_Store Notes Calendar Messaging Checkpoint_Store Scripted_Sessions Command_Manager Jsonl_Store
    Skill_Cache Skill_Files
begin

text \<open>
  \<^bold>\<open>The program.\<close> The Memax agent SDK for Go runs a language-model agent: \<open>agent.go\<close> drives a session turn by
  turn (compose a prompt, call the model, run the tools it asks for, feed the results back, stop on a final
  answer or a limit). Around the loop stand the transcript model and its repair, the session store, the
  context-window policies that shorten a transcript, the lifecycle hooks, the tool registry and executor, the
  permission, budget and tenant gates, the planner and memory sources of the prompt, the output contract of the
  final answer, the workspace an agent edits, and policy presets built from hooks. The stacks run agents as a
  service: managed runs that workers claim from a queue, quotas and an audit trail for them, scheduled runs that
  triggers start, and an outbox of notifications about them that delivery workers drain. Agents keep memories, notes,
  calendar events, mail threads and checkpoints in stores, and run commands, one at a time or in sessions whose output
  they read while the process runs.

  \<^bold>\<open>Theories and sources\<close> (paths under \<open>src/\<close>).
  \<^item> \<open>Prelude\<close>, \<open>Go_Strings\<close>, \<open>Go_Text\<close>: the Go that the sources use. 64-bit integers with their
    wrap-around (\<open>i64\<close>), times as nanoseconds, maps as association lists, stable sorting, UTF-8 decoding,
    \<open>strings\<close>, \<open>strconv\<close>, \<open>path.Clean\<close>, the scanner of \<open>encoding/json\<close>. \<open>Line_Scanner\<close>: \<open>bufio.Scanner\<close>.
  \<^item> \<open>Model_Types\<close> (\<open>model/types.go\<close>, \<open>model/client.go\<close>): messages, tool uses and results, metadata, usage.
  \<^item> \<open>Transcript_Repair\<close> (\<open>internal/transcriptrepair\<close>): every tool use answered by exactly its results.
  \<^item> \<open>Tenant\<close> (\<open>tenant\<close>): scopes, admission checks, and the error type of the whole development.
  \<^item> \<open>Session_Store\<close> (\<open>session/store.go\<close>, \<open>session/compaction.go\<close>): sessions, forks, compaction views.
    \<open>Jsonl_Store\<close> (\<open>session/jsonl.go\<close>): the same store as files of JSON lines with index files.
  \<^item> \<open>Context_Window\<close> (\<open>contextwindow/policy.go\<close>): the four context policies.
  \<^item> \<open>Hooks\<close> (\<open>hook\<close>), \<open>Budget\<close> (\<open>budget\<close>, the tracker of \<open>agent.go\<close>), \<open>Permission\<close> (\<open>permission\<close>).
  \<^item> \<open>Tool_Registry\<close> (\<open>tool/registry.go\<close>, \<open>tool/selection.go\<close>), \<open>Result_Store\<close> (\<open>resultstore\<close>),
    \<open>Tool_Executor\<close> (\<open>tool/executor.go\<close>, \<open>tool/validation.go\<close>).
  \<^item> \<open>Assistant_Text\<close> (the text normaliser of \<open>agent.go\<close>), \<open>Planner\<close> (\<open>planner\<close>), \<open>Memory\<close> (\<open>memory\<close>),
    \<open>Run_Events\<close> (\<open>events.go\<close>), \<open>Output_Contract\<close> (\<open>output\<close>).
  \<^item> \<open>Run_Monad\<close>, \<open>Agent_Run\<close> (\<open>agent.go\<close>): the run as a state and error monad over the host world with a log of
    what it does (events sent, hooks called, model requests), and \<open>Query\<close> with every phase of a turn.
    \<open>Agent_Protocol\<close>, \<open>Agent_Safety\<close>, \<open>Run_Contract\<close>: what every run guarantees.
  \<^item> \<open>Workspace\<close>, \<open>Unified_Diff\<close>, \<open>Workspace_Contract\<close> (\<open>workspace/workspace.go\<close>, \<open>workspace/unified.go\<close>).
  \<^item> \<open>Agent_Policy\<close>, \<open>Policy_Contract\<close> (\<open>toolkit/agentpolicy/workspace.go\<close>).
  \<^item> \<open>Run_Lifecycle\<close>: what the durable stores of the stacks share. \<open>Managed_Runs\<close>, \<open>Managed_Contract\<close>
    (\<open>stack/cloudmanaged/runs.go\<close>): the run store and workers.
  \<^item> \<open>Time_Text\<close>: times as RFC 3339 text. \<open>Scheduled_Runs\<close>, \<open>Scheduled_Contract\<close> (\<open>stack/personal/proactive.go\<close>): triggers,
    workflows, the scheduled-run store and executors.
  \<^item> \<open>Notification_Outbox\<close>, \<open>Notification_Contract\<close>, \<open>Notification_Drain\<close>, \<open>Notification_Mirror\<close>
    (\<open>stack/personal/notifications.go\<close>): the outbox, its leases, drain passes and the notifier.
  \<^item> \<open>Managed_Quota\<close> (\<open>stack/cloudmanaged/quota_store.go\<close>, \<open>cloudmanaged.go\<close>, \<open>presets.go\<close>): the quota validator of a
    managed stack over a store of reservations. \<open>Audit_Record\<close> (\<open>audit.go\<close>): audit records of run events and their
    sinks. \<open>Async_Sink\<close>, \<open>Audit_Contract\<close> (\<open>async_sink.go\<close>): the asynchronous sink, whose writers, worker and Close
    interleave at their channel operations.
  \<^item> \<open>Keyed_Store\<close>: what the in-memory stores share (ids, insertion order, fresh ids, ranking). On it \<open>Memory_Store\<close>
    (\<open>memory/memory.go\<close>), \<open>Notes\<close> (\<open>notes\<close>), \<open>Calendar\<close> (\<open>scheduling/scheduling.go\<close>), \<open>Messaging\<close>
    (\<open>messaging/messaging.go\<close>), \<open>Checkpoint_Store\<close> (\<open>checkpoint\<close>).
  \<^item> \<open>Skills\<close> (\<open>skill/skill.go\<close>, \<open>select.go\<close>, \<open>policy.go\<close>): skills, their sources and policies, the selector. \<open>Skill_Cache\<close>
    (\<open>skill.go\<close>, \<open>prefetch.go\<close>): the sources that share loads among concurrent calls. \<open>Skill_Files\<close> (\<open>loader.go\<close>): skill files.
  \<^item> \<open>Agent_Identity\<close> (\<open>identity\<close>). The command tools (\<open>toolkit/commandtools\<close>): \<open>Shell_Quote\<close> (\<open>normalize.go\<close>),
    \<open>Command_Run\<close> (\<open>tools.go\<close>: requests, results, runners), \<open>Command_Output\<close> (\<open>transcript_store.go\<close>: stored
    transcripts and paging), \<open>Command_Sessions\<close> (\<open>os_sessions.go\<close>: live sessions and their durable transcript),
    \<open>Session_Tools\<close>, \<open>Scripted_Sessions\<close> (\<open>sessions.go\<close>: the session tools and the scripted manager), \<open>Command_Manager\<close>
    (\<open>os_sessions.go\<close>: the manager of live sessions).

  \<^bold>\<open>How code becomes definitions.\<close> A struct is a record, an interface a record of functions or a function
  argument, an error the type \<open>err\<close>, a fallible call \<open>err + 'a\<close>. Host code (models, tools, hooks, validators,
  summarizers, approvers) acts on a world \<open>'w\<close> and is passed as a function \<open>'w \<Rightarrow> input \<Rightarrow> 'w \<times> output\<close>; nothing
  is assumed of it unless a theorem says so. Third-party code (JSON Schema, JSON values, digests, random ids,
  clocks, Unicode tables beyond ASCII) is an argument. A nil pointer is \<open>None\<close>, a nil map or slice the empty
  list. A mutex-protected method is one atomic step. A goroutine (worker, executor, drain pass) is a machine whose
  steps are its store calls, and its control points a datatype; labelled step relations interleave the machines with
  everything else that acts on the store, and theorems hold for every path of steps.

  \<^bold>\<open>What the theorems show.\<close>
  \<^item> A run: its log follows a protocol automaton (session started, turns, one stop, one end), it ends with
    exactly one outcome, it makes no more model calls and turns than its limits allow, every model request it
    sends answers all tool uses, and a result it delivers passed every gate.
  \<^item> Policies: the approval gates decide as a ledger of grants does; verification and checkpoint gates decide by
    the last relevant event of the session.
  \<^item> Transcripts: repair establishes adjacency, is idempotent and keeps the conversation. Sessions are append-only,
    their views total, compaction and forks exact, and the files of JSON lines implement the in-memory store. Context policies return valid, maximal or budgeted selections.
  \<^item> Tools: registration, selection, admission before execution, results in order under every schedule of a
    concurrent batch, bounded concurrency, truncation at rune boundaries, round trip of stored results.
  \<^item> Stacks: no run is claimed or executed twice, ended runs stay ended, workers and executors return after a bounded
    number of steps. A periodic trigger fires once for each window of its period, and its ids tell occurrences apart. The
    outbox is well formed, a lease excludes other workers, deliveries are final, claims take the most overdue
    records, the retry delay is a bounded power of two, drain passes account for what they claim and report no handler
    error, and the notifier mirrors exactly the runs that have ended.
    Quotas grant exactly their limit for each session. The asynchronous sink keeps order and capacity in every
    interleaving, and Close drains what was accepted before it, after a bounded number of steps.
  \<^item> Workspaces: paths stay inside, checkpoints restore exactly, diffs and unified patches are exact.
  \<^item> Stores: records are found under the id they were put with and no other record changes, fresh ids are free, searches
    return the best matches in order, events are well formed, messages of a thread are only appended and identified.
  \<^item> Skills: merged sources never offer two skills of a name, policies let through only what they allow, the selector keeps
    the best and every always-on skill, skill files are read back as written, and caching sources make one load at a time,
    serve only what was loaded and leave no call waiting for nothing.
  \<^item> Commands: a shell reads a quoted argument vector back exactly, output limits keep whole runes, working directories
    stay inside their root, paging returns every chunk once. However the goroutines of a session interleave, its output
    is numbered without gaps, its buffer bounded, its end final, and its durable transcript complete. Starts never get
    in each other's way, an agent cannot touch the sessions of another, listings are complete and sweeps mark exactly the
    sessions whose process is gone.

  \<^bold>\<open>Interfaces.\<close> Locales state the contracts the proofs share and are interpreted on the model's definitions: the
  session store as an append-only log, the snapshot store of a workspace, the remembered value of a session and
  the approval gate of the policies. \<open>settling_store\<close> (records that reach a settled state never leave it) is
  interpreted on managed runs (ended, begun), scheduled runs (finished) and the outbox (delivered). \<open>keyed_service\<close> and
  \<open>ranking\<close> (the laws of an id-keyed store and of a ranked search) are interpreted on memories, notes, events, threads and
  checkpoints, \<open>quota_backend\<close> on the in-memory quota store, and \<open>transcript_contract\<close> (what a command session needs of its
  transcript store) on the in-memory transcripts, \<open>isolating_manager\<close> (no request changes a session hidden from its sender)
  on the scripted manager, \<open>keeping_rank\<close> (a ranking with items that are always kept) on memories and skills,
  \<open>single_flight\<close> (what a caching source does under its mutex) on the cached and the prefetching skill source.

  \<^bold>\<open>Bounds.\<close> Loops of the code are structural or have a termination proof. The turn loop runs \<open>MaxTurns\<close> times as in
  the code. The search for a fresh checkpoint id has fuel one more than the number of checkpoints, which
  \<open>Workspace_Contract\<close> proves enough. A model stream is a finite list of events with an error or a clean end, so a
  provider that streams forever is outside the model. A concurrent batch is a step relation, proved to end. A query run by
  a worker or executor is a finite list of events; drain passes end by a rank that each step lowers. The search for a
  fresh id of a keyed store has fuel the number of its records, which \<open>Keyed_Store\<close> proves enough. A command session's
  sequence numbers are followed up to the largest 64-bit integer. A line of a JSON lines transcript has to fit into the
  scanner's 64 MiB, as in the code.

  \<^bold>\<open>Not modelled.\<close> Telemetry, tracing and metering; HTTP providers, SQLite files, git and directory
  workspaces, mail and calendar servers, sandboxes, the MCP bridge and web access (input and output); prompt text
  building, a parameter of the loop; skills over HTTP; the tool packages other than the policies and the command tools, and of
  these the processes, pipes, pseudo terminals and the timers of waiting and draining; the stacks but for their runs, quotas, audit trail, scheduled runs and
  notifications; evaluation scenarios and examples. In the loop, tools that start while the model still streams run at
  the point they are started, and interleavings with the stream are left out.
\<close>

end
